(* ===== verification/Prelude.thy ===== *)
theory Prelude
  imports
    Complex_Main
    "HOL-Library.AList"
    "HOL-Library.Char_ord"
    "HOL-Library.List_Lexorder"
    "HOL-Library.Product_Lexorder"
    "HOL-Library.Sublist"
begin

text \<open>
  The shared vocabulary of the development: Python's strings (as lists of characters),
  Python's dictionaries (association lists updated in place, \<open>AList.update\<close>), the JSON values
  stored in the JSONB columns, and the effects of the asynchronous code as functions that pass
  a state and may raise. The lemma collections \<open>py_simps\<close> (string and dictionary facts) and
  \<open>eff_simps\<close> (running an effect) are used by every component.
\<close>

named_theorems py_simps
named_theorems eff_simps

section \<open>Strings\<close>

text \<open>
  A Python \<open>str\<close> is a \<^typ>\<open>string\<close>. Letter case and white space are those of ASCII; a character
  above 127 is left alone by \<open>py_lower\<close> and \<open>py_strip\<close>.
\<close>

definition py_startswith :: "string \<Rightarrow> string \<Rightarrow> bool" where
  "py_startswith s p \<longleftrightarrow> take (length p) s = p"

definition py_endswith :: "string \<Rightarrow> string \<Rightarrow> bool" where
  "py_endswith s p \<longleftrightarrow> py_startswith (rev s) (rev p)"

fun py_contains :: "string \<Rightarrow> string \<Rightarrow> bool" where
  "py_contains [] p \<longleftrightarrow> p = []"
| "py_contains (c # s) p \<longleftrightarrow> py_startswith (c # s) p \<or> py_contains s p"

definition lower_char :: "char \<Rightarrow> char" where
  "lower_char c = (if CHR ''A'' \<le> c \<and> c \<le> CHR ''Z'' then char_of (of_char c + 32 :: nat) else c)"

definition py_lower :: "string \<Rightarrow> string" where
  "py_lower s = map lower_char s"

definition upper_char :: "char \<Rightarrow> char" where
  "upper_char c = (if CHR ''a'' \<le> c \<and> c \<le> CHR ''z'' then char_of (of_char c - 32 :: nat) else c)"

definition py_upper :: "string \<Rightarrow> string" where
  "py_upper s = map upper_char s"

definition is_space :: "char \<Rightarrow> bool" where
  "is_space c \<longleftrightarrow> c \<in> {CHR '' '', CHR 0x09, CHR 0x0A, CHR 0x0B, CHR 0x0C, CHR 0x0D,
                       CHR 0x1C, CHR 0x1D, CHR 0x1E, CHR 0x1F}"

definition py_lstrip :: "string \<Rightarrow> string" where
  "py_lstrip s = dropWhile is_space s"

definition py_rstrip :: "string \<Rightarrow> string" where
  "py_rstrip s = rev (dropWhile is_space (rev s))"

definition py_strip :: "string \<Rightarrow> string" where
  "py_strip s = py_rstrip (py_lstrip s)"

text \<open>\<open>s.strip(c)\<close>, \<open>s.lstrip(c)\<close> and \<open>s.rstrip(c)\<close> for one character \<open>c\<close>.\<close>

definition lstrip_char :: "char \<Rightarrow> string \<Rightarrow> string" where
  "lstrip_char c s = dropWhile (\<lambda>x. x = c) s"

definition rstrip_char :: "char \<Rightarrow> string \<Rightarrow> string" where
  "rstrip_char c s = rev (dropWhile (\<lambda>x. x = c) (rev s))"

definition strip_char :: "char \<Rightarrow> string \<Rightarrow> string" where
  "strip_char c s = rstrip_char c (lstrip_char c s)"

text \<open>\<open>s.partition(c)\<close>: the part before the first \<open>c\<close>, whether there is one, the rest.\<close>

definition py_partition :: "char \<Rightarrow> string \<Rightarrow> string \<times> bool \<times> string" where
  "py_partition c s =
     (takeWhile (\<lambda>x. x \<noteq> c) s, c \<in> set s, drop 1 (dropWhile (\<lambda>x. x \<noteq> c) s))"

text \<open>\<open>s.split(c)\<close>: never empty, as in Python (\<open>''.split(',') == ['']\<close>).\<close>

fun py_split :: "char \<Rightarrow> string \<Rightarrow> string list" where
  "py_split c [] = [[]]"
| "py_split c (x # s) =
     (if x = c then [] # py_split c s
      else (case py_split c s of [] \<Rightarrow> [[x]] | w # ws \<Rightarrow> (x # w) # ws))"

text \<open>\<open>s.rsplit(c, 1)[-1]\<close>, the part after the last \<open>c\<close> (the whole string if there is none).\<close>

definition after_last :: "char \<Rightarrow> string \<Rightarrow> string" where
  "after_last c s = rev (takeWhile (\<lambda>x. x \<noteq> c) (rev s))"

text \<open>\<open>s.rsplit(c, 1)[0]\<close>, the part before the last \<open>c\<close> (the whole string if there is none).\<close>

definition before_last :: "char \<Rightarrow> string \<Rightarrow> string" where
  "before_last c s = (if c \<in> set s then rev (drop 1 (dropWhile (\<lambda>x. x \<noteq> c) (rev s))) else s)"

fun py_join :: "string \<Rightarrow> string list \<Rightarrow> string" where
  "py_join sep [] = []"
| "py_join sep [x] = x"
| "py_join sep (x # y # xs) = x @ sep @ py_join sep (y # xs)"

text \<open>\<open>s.replace(old, new)\<close> for a non-empty \<open>old\<close>: left to right, without overlaps.\<close>

function py_replace :: "string \<Rightarrow> string \<Rightarrow> string \<Rightarrow> string" where
  "py_replace old new s =
     (case s of
        [] \<Rightarrow> []
      | c # cs \<Rightarrow>
          if old \<noteq> [] \<and> py_startswith s old then new @ py_replace old new (drop (length old) s)
          else c # py_replace old new cs)"
  by pat_completeness auto
termination
  by (relation "measure (\<lambda>(old, new, s). length s)")
    (auto simp: neq_Nil_conv)

declare py_replace.simps [simp del]

text \<open>Decimal rendering of integers, as \<open>str(n)\<close>.\<close>

fun digit_char :: "nat \<Rightarrow> char" where
  "digit_char n = char_of (48 + n)"

fun show_nat :: "nat \<Rightarrow> string" where
  "show_nat n = (if n < 10 then [digit_char n] else show_nat (n div 10) @ [digit_char (n mod 10)])"

declare show_nat.simps [simp del]

definition show_int :: "int \<Rightarrow> string" where
  "show_int i = (if i < 0 then CHR ''-'' # show_nat (nat (- i)) else show_nat (nat i))"

text \<open>\<open>repr\<close> of a string without quotes or escapes in it.\<close>

definition py_repr :: "string \<Rightarrow> string" where
  "py_repr s = [CHR 0x27] @ s @ [CHR 0x27]"

subsection \<open>Facts about strings\<close>

lemma startswith_append [py_simps, simp]: "py_startswith (p @ s) p"
  by (simp add: py_startswith_def)

lemma startswith_iff_prefix: "py_startswith s p \<longleftrightarrow> prefix p s"
  by (metis append_eq_conv_conj append_take_drop_id prefix_def py_startswith_def)

lemma startswith_Nil [py_simps, simp]: "py_startswith s []"
  by (simp add: py_startswith_def)

lemma startswith_Cons [py_simps, simp]:
  "py_startswith (c # s) (d # p) \<longleftrightarrow> c = d \<and> py_startswith s p"
  by (auto simp: py_startswith_def)

lemma startswith_Nil_Cons [py_simps, simp]: "\<not> py_startswith [] (d # p)"
  by (simp add: py_startswith_def)

lemma contains_append: "py_contains (a @ p @ b) p"
proof (induction a)
  case Nil
  show ?case
  proof (cases "p @ b")
    case Nil
    then show ?thesis by simp
  next
    case (Cons c s)
    then have "py_startswith (c # s) p" by (metis startswith_append)
    then show ?thesis using Cons by simp
  qed
next
  case (Cons c a)
  then show ?case by simp
qed

lemma contains_iff: "py_contains s p \<longleftrightarrow> (\<exists>a b. s = a @ p @ b)"
proof
  assume "py_contains s p"
  then show "\<exists>a b. s = a @ p @ b"
  proof (induction s)
    case Nil
    then show ?case by simp
  next
    case (Cons c s)
    show ?case
    proof (cases "py_startswith (c # s) p")
      case True
      then obtain b where "c # s = p @ b" by (auto simp: startswith_iff_prefix prefix_def)
      then show ?thesis by (metis append_Nil)
    next
      case False
      with Cons obtain a b where "s = a @ p @ b" by auto
      then have "c # s = (c # a) @ p @ b" by simp
      then show ?thesis by blast
    qed
  qed
next
  assume "\<exists>a b. s = a @ p @ b"
  then show "py_contains s p" by (auto simp: contains_append)
qed

lemma after_last_no_sep [py_simps]: "c \<notin> set (after_last c s)"
  by (auto simp: after_last_def dest: set_takeWhileD)

lemma after_last_append [py_simps]: "c \<notin> set t \<Longrightarrow> after_last c (s @ c # t) = t"
proof -
  assume a: "c \<notin> set t"
  then have "takeWhile (\<lambda>x. x \<noteq> c) (rev t @ c # rev s) = rev t"
    by (subst takeWhile_append2) auto
  then show ?thesis by (simp add: after_last_def)
qed

lemma split_nonempty [py_simps, simp]: "py_split c s \<noteq> []"
  by (cases s) (auto split: list.splits)

lemma split_no_sep: "c \<notin> set s \<Longrightarrow> py_split c s = [s]"
  by (induction s) auto

lemma split_parts_no_sep: "w \<in> set (py_split c s) \<Longrightarrow> c \<notin> set w"
  by (induction s arbitrary: w) (auto split: if_splits list.splits)

lemma split_append_sep: "py_split c (s @ c # t) = py_split c s @ py_split c t"
  by (induction s) (auto simp: split: list.splits)

lemma join_Cons: "xs \<noteq> [] \<Longrightarrow> py_join sep (x # xs) = x @ sep @ py_join sep xs"
  by (cases xs) auto

lemma split_join:
  "ws \<noteq> [] \<Longrightarrow> (\<And>w. w \<in> set ws \<Longrightarrow> c \<notin> set w) \<Longrightarrow> py_split c (py_join [c] ws) = ws"
proof (induction ws)
  case Nil
  then show ?case by simp
next
  case (Cons w ws)
  show ?case
  proof (cases ws)
    case Nil
    with Cons.prems show ?thesis by (simp add: split_no_sep)
  next
    case (Cons v vs)
    with Cons.prems Cons.IH have "py_split c (py_join [c] ws) = ws" by auto
    moreover have "py_split c (w @ c # py_join [c] ws) = py_split c w @ py_split c (py_join [c] ws)"
      by (rule split_append_sep)
    ultimately show ?thesis
      using Cons Cons.prems by (simp add: join_Cons split_no_sep)
  qed
qed

lemma join_Cons_Cons: "py_join sep ((a # x) # xs) = a # py_join sep (x # xs)"
  by (cases xs) auto

lemma join_split: "py_join [c] (py_split c s) = s"
  by (induction s) (auto simp: join_Cons join_Cons_Cons split: list.splits)

lemma takeWhile_sep: "c \<notin> set s \<Longrightarrow> takeWhile (\<lambda>x. x \<noteq> c) (s @ c # t) = s"
  by (induction s) auto

lemma dropWhile_sep: "c \<notin> set s \<Longrightarrow> dropWhile (\<lambda>x. x \<noteq> c) (s @ c # t) = c # t"
  by (induction s) auto

lemma replace_match: "old \<noteq> [] \<Longrightarrow> py_replace old new (old @ r) = new @ py_replace old new r"
proof -
  assume "old \<noteq> []"
  then obtain c cs where o: "old = c # cs" by (cases old) auto
  show ?thesis by (subst py_replace.simps) (simp add: o)
qed

lemma replace_skip:
  "\<not> py_startswith (c # cs) old \<Longrightarrow> py_replace old new (c # cs) = c # py_replace old new cs"
  by (subst py_replace.simps) simp

lemma replace_Nil: "py_replace old new [] = []"
  by (simp add: py_replace.simps)

lemma partition_split:
  "c \<notin> set s \<Longrightarrow> py_partition c (s @ c # t) = (s, True, t)"
  by (simp add: py_partition_def takeWhile_sep dropWhile_sep)

section \<open>Dictionaries and JSON values\<close>

text \<open>
  A JSON value as Postgres returns a JSONB column to Python. Integers and floats are kept
  apart because the code asks \<open>isinstance(x, int)\<close>; floats are exact rationals here. An object
  keeps its keys in insertion order, as a Python dictionary does, and \<open>AList.update\<close> replaces a
  value in place or appends the key at the end, as \<open>d[k] = v\<close> does.
\<close>

datatype json =
    JNull
  | JBool bool
  | JInt int
  | JFloat rat
  | JStr string
  | JArr "json list"
  | JObj "(string \<times> json) list"

type_synonym dict = "(string \<times> json) list"

text \<open>\<open>bool(x)\<close>.\<close>

fun truthy :: "json \<Rightarrow> bool" where
  "truthy JNull = False"
| "truthy (JBool b) = b"
| "truthy (JInt i) = (i \<noteq> 0)"
| "truthy (JFloat r) = (r \<noteq> 0)"
| "truthy (JStr s) = (s \<noteq> [])"
| "truthy (JArr xs) = (xs \<noteq> [])"
| "truthy (JObj d) = (d \<noteq> [])"

text \<open>\<open>d.get(k)\<close>: \<open>JNull\<close> (Python's \<open>None\<close>) for a missing key.\<close>

definition jget :: "dict \<Rightarrow> string \<Rightarrow> json" where
  "jget d k = (case map_of d k of None \<Rightarrow> JNull | Some v \<Rightarrow> v)"

text \<open>\<open>{**d, **e}\<close>: the keys of \<open>e\<close> win.\<close>

definition dict_merge :: "dict \<Rightarrow> dict \<Rightarrow> dict" where
  "dict_merge d e = fold (\<lambda>(k, v) m. AList.update k v m) e d"

text \<open>\<open>isinstance(x, int)\<close> and the integer it holds; Python's \<open>bool\<close> is an \<open>int\<close>.\<close>

fun py_int :: "json \<Rightarrow> int option" where
  "py_int (JInt i) = Some i"
| "py_int (JBool b) = Some (if b then 1 else 0)"
| "py_int _ = None"

fun jstr :: "json \<Rightarrow> string option" where
  "jstr (JStr s) = Some s"
| "jstr _ = None"

definition json_opt :: "string option \<Rightarrow> json" where
  "json_opt x = (case x of None \<Rightarrow> JNull | Some s \<Rightarrow> JStr s)"

lemma jget_update [py_simps, simp]:
  "jget (AList.update k v d) k' = (if k' = k then v else jget d k')"
  by (simp add: jget_def update_conv)

lemma map_of_dict_merge:
  "map_of (dict_merge d e) k = (case map_of (rev e) k of None \<Rightarrow> map_of d k | Some v \<Rightarrow> Some v)"
proof (induction e arbitrary: d)
  case Nil
  then show ?case by (simp add: dict_merge_def)
next
  case (Cons p e)
  obtain a b where p: "p = (a, b)" by fastforce
  have "map_of (dict_merge d (p # e)) k = map_of (dict_merge (AList.update a b d) e) k"
    by (simp add: dict_merge_def p)
  also have "\<dots> = (case map_of (rev e) k of None \<Rightarrow> map_of (AList.update a b d) k | Some v \<Rightarrow> Some v)"
    by (rule Cons.IH)
  finally show ?case
    by (auto simp: p update_conv map_add_def split: option.splits)
qed

lemma jget_dict_merge:
  "jget (dict_merge d e) k = (case map_of (rev e) k of None \<Rightarrow> jget d k | Some v \<Rightarrow> v)"
  by (simp add: jget_def map_of_dict_merge split: option.splits)

lemma jget_dict_merge_other [py_simps]:
  "k \<notin> fst ` set e \<Longrightarrow> jget (dict_merge d e) k = jget d k"
proof -
  assume "k \<notin> fst ` set e"
  then have "map_of (rev e) k = None" by (simp add: map_of_eq_None_iff)
  then show ?thesis by (simp add: jget_dict_merge)
qed

lemma dict_merge_Nil [py_simps, simp]: "dict_merge d [] = d"
  by (simp add: dict_merge_def)

lemma dict_merge_Cons [py_simps]:
  "dict_merge d ((k, v) # e) = dict_merge (AList.update k v d) e"
  by (simp add: dict_merge_def)

section \<open>Effects\<close>

text \<open>
  An operation of the asynchronous code is a function from a state to a result (a value, or the
  exception it raises) and the state it leaves behind. What was committed before a raise stays.
\<close>

type_synonym ('s, 'e, 'a) eff = "'s \<Rightarrow> ('e + 'a) \<times> 's"

definition e_ret :: "'a \<Rightarrow> ('s, 'e, 'a) eff" where
  "e_ret x = (\<lambda>s. (Inr x, s))"

definition e_raise :: "'e \<Rightarrow> ('s, 'e, 'a) eff" where
  "e_raise e = (\<lambda>s. (Inl e, s))"

definition e_bind :: "('s, 'e, 'a) eff \<Rightarrow> ('a \<Rightarrow> ('s, 'e, 'b) eff) \<Rightarrow> ('s, 'e, 'b) eff" where
  "e_bind m f = (\<lambda>s. case m s of (Inl e, s') \<Rightarrow> (Inl e, s') | (Inr x, s') \<Rightarrow> f x s')"

definition e_seq :: "('s, 'e, 'a) eff \<Rightarrow> ('s, 'e, 'b) eff \<Rightarrow> ('s, 'e, 'b) eff" where
  "e_seq m n = e_bind m (\<lambda>_. n)"

text \<open>\<open>try: m except BaseException as e: h e\<close>.\<close>

definition e_catch :: "('s, 'e, 'a) eff \<Rightarrow> ('e \<Rightarrow> ('s, 'e, 'a) eff) \<Rightarrow> ('s, 'e, 'a) eff" where
  "e_catch m h = (\<lambda>s. case m s of (Inl e, s') \<Rightarrow> h e s' | (Inr x, s') \<Rightarrow> (Inr x, s'))"

definition e_gets :: "('s \<Rightarrow> 'a) \<Rightarrow> ('s, 'e, 'a) eff" where
  "e_gets f = (\<lambda>s. (Inr (f s), s))"

definition e_modify :: "('s \<Rightarrow> 's) \<Rightarrow> ('s, 'e, unit) eff" where
  "e_modify f = (\<lambda>s. (Inr (), f s))"

fun e_each :: "('a \<Rightarrow> ('s, 'e, unit) eff) \<Rightarrow> 'a list \<Rightarrow> ('s, 'e, unit) eff" where
  "e_each f [] = e_ret ()"
| "e_each f (x # xs) = e_seq (f x) (e_each f xs)"

text \<open>\<open>if c: m\<close>.\<close>

definition e_when :: "bool \<Rightarrow> ('s, 'e, unit) eff \<Rightarrow> ('s, 'e, unit) eff" where
  "e_when c m = (if c then m else e_ret ())"

lemma e_ret_run [eff_simps]: "e_ret x s = (Inr x, s)"
  by (simp add: e_ret_def)

lemma e_raise_run [eff_simps]: "e_raise e s = (Inl e, s)"
  by (simp add: e_raise_def)

lemma e_gets_run [eff_simps]: "e_gets f s = (Inr (f s), s)"
  by (simp add: e_gets_def)

lemma e_modify_run [eff_simps]: "e_modify f s = (Inr (), f s)"
  by (simp add: e_modify_def)

lemma e_bind_run [eff_simps]:
  "e_bind m f s = (case m s of (Inl e, s') \<Rightarrow> (Inl e, s') | (Inr x, s') \<Rightarrow> f x s')"
  by (simp add: e_bind_def)

lemma e_seq_run [eff_simps]:
  "e_seq m n s = (case m s of (Inl e, s') \<Rightarrow> (Inl e, s') | (Inr x, s') \<Rightarrow> n s')"
  by (simp add: e_seq_def e_bind_def)

lemma e_catch_run [eff_simps]:
  "e_catch m h s = (case m s of (Inl e, s') \<Rightarrow> h e s' | (Inr x, s') \<Rightarrow> (Inr x, s'))"
  by (simp add: e_catch_def)

lemma e_when_run [eff_simps]: "e_when c m s = (if c then m s else (Inr (), s))"
  by (simp add: e_when_def e_ret_def)

text \<open>
  A preorder on states that every primitive of an effect respects is respected by the whole
  effect. The components instantiate it with the relations their operations keep.
\<close>

definition keeps :: "('s \<Rightarrow> 's \<Rightarrow> bool) \<Rightarrow> ('s, 'e, 'a) eff \<Rightarrow> bool" where
  "keeps R m \<longleftrightarrow> (\<forall>s. R s (snd (m s)))"

lemma keepsI: "(\<And>s. R s (snd (m s))) \<Longrightarrow> keeps R m"
  by (simp add: keeps_def)

lemma keepsD: "keeps R m \<Longrightarrow> m s = (r, s') \<Longrightarrow> R s s'"
  by (metis keeps_def snd_conv)

locale state_preorder =
  fixes R :: "'s \<Rightarrow> 's \<Rightarrow> bool"
  assumes R_refl: "R s s"
    and R_trans: "R s t \<Longrightarrow> R t u \<Longrightarrow> R s u"
begin

lemma keeps_ret: "keeps R (e_ret x)"
  by (simp add: keeps_def e_ret_def R_refl)

lemma keeps_raise: "keeps R (e_raise e)"
  by (simp add: keeps_def e_raise_def R_refl)

lemma keeps_gets: "keeps R (e_gets f)"
  by (simp add: keeps_def e_gets_def R_refl)

lemma keeps_modify: "(\<And>s. R s (f s)) \<Longrightarrow> keeps R (e_modify f)"
  by (simp add: keeps_def e_modify_def)

lemma keeps_bind: "keeps R m \<Longrightarrow> (\<And>x. keeps R (f x)) \<Longrightarrow> keeps R (e_bind m f)"
proof (rule keepsI)
  fix s
  assume m: "keeps R m" and f: "\<And>x. keeps R (f x)"
  obtain r s' where run: "m s = (r, s')" by fastforce
  have 1: "R s s'" by (rule keepsD [OF m run])
  show "R s (snd (e_bind m f s))"
    using 1 f by (cases r) (auto simp: e_bind_run run keeps_def intro: R_trans)
qed

lemma keeps_seq: "keeps R m \<Longrightarrow> keeps R n \<Longrightarrow> keeps R (e_seq m n)"
  by (simp add: e_seq_def keeps_bind)

lemma keeps_catch: "keeps R m \<Longrightarrow> (\<And>e. keeps R (h e)) \<Longrightarrow> keeps R (e_catch m h)"
proof (rule keepsI)
  fix s
  assume m: "keeps R m" and h: "\<And>e. keeps R (h e)"
  obtain r s' where run: "m s = (r, s')" by fastforce
  have 1: "R s s'" by (rule keepsD [OF m run])
  show "R s (snd (e_catch m h s))"
    using 1 h by (cases r) (auto simp: e_catch_run run keeps_def intro: R_trans)
qed

lemma keeps_when: "keeps R m \<Longrightarrow> keeps R (e_when c m)"
  by (simp add: e_when_def keeps_ret)

lemma keeps_each: "(\<And>x. keeps R (f x)) \<Longrightarrow> keeps R (e_each f xs)"
  by (induction xs) (auto intro: keeps_ret keeps_seq)

lemma keeps_each_in: "(\<And>x. x \<in> set xs \<Longrightarrow> keeps R (f x)) \<Longrightarrow> keeps R (e_each f xs)"
  by (induction xs) (auto intro: keeps_ret keeps_seq)

lemma keeps_sum:
  "(\<And>x. keeps R (f x)) \<Longrightarrow> (\<And>x. keeps R (g x)) \<Longrightarrow> keeps R (case y of Inl x \<Rightarrow> f x | Inr x \<Rightarrow> g x)"
  by (cases y) auto

lemma keeps_prod: "(\<And>a b. keeps R (f a b)) \<Longrightarrow> keeps R (case y of (a, b) \<Rightarrow> f a b)"
  by (cases y) auto

lemma keeps_if: "keeps R m \<Longrightarrow> keeps R n \<Longrightarrow> keeps R (if c then m else n)"
  by simp

lemma keeps_option:
  "keeps R m \<Longrightarrow> (\<And>x. keeps R (f x)) \<Longrightarrow> keeps R (case y of None \<Rightarrow> m | Some x \<Rightarrow> f x)"
  by (cases y) auto

lemmas keeps_intros =
  keeps_ret keeps_raise keeps_gets keeps_bind keeps_seq keeps_catch keeps_when keeps_each
  keeps_if keeps_option keeps_sum keeps_prod

end

text \<open>
  An effect that keeps a property of the state, whether it returns or raises, and returns values of
  a given kind.
\<close>

definition yields :: "('s \<Rightarrow> bool) \<Rightarrow> ('s, 'e, 'a) eff \<Rightarrow> ('a \<Rightarrow> bool) \<Rightarrow> bool" where
  "yields P m Q \<longleftrightarrow> (\<forall>s. P s \<longrightarrow> P (snd (m s)) \<and> (\<forall>x. fst (m s) = Inr x \<longrightarrow> Q x))"

lemma yieldsD: "yields P m Q \<Longrightarrow> P s \<Longrightarrow> m s = (r, s') \<Longrightarrow> P s' \<and> (\<forall>x. r = Inr x \<longrightarrow> Q x)"
  by (metis fst_conv snd_conv yields_def)

lemma yields_weaken: "yields P m Q \<Longrightarrow> (\<And>x. Q x \<Longrightarrow> Q' x) \<Longrightarrow> yields P m Q'"
  by (simp add: yields_def)

lemma yields_ret: "Q x \<Longrightarrow> yields P (e_ret x) Q"
  by (simp add: yields_def e_ret_def)

lemma yields_raise: "yields P (e_raise e) Q"
  by (simp add: yields_def e_raise_def)

lemma yields_gets: "(\<And>s. P s \<Longrightarrow> Q (f s)) \<Longrightarrow> yields P (e_gets f) Q"
  by (simp add: yields_def e_gets_def)

lemma yields_modify: "(\<And>s. P s \<Longrightarrow> P (f s)) \<Longrightarrow> Q () \<Longrightarrow> yields P (e_modify f) Q"
  by (simp add: yields_def e_modify_def)

lemma yields_bind:
  assumes "yields P m Q" and "\<And>x. Q x \<Longrightarrow> yields P (f x) R"
  shows "yields P (e_bind m f) R"
  unfolding yields_def
proof (intro allI impI)
  fix s
  assume s: "P s"
  obtain r s' where run: "m s = (r, s')" by fastforce
  have 1: "P s'" "\<forall>x. r = Inr x \<longrightarrow> Q x" using yieldsD [OF assms(1) s run] by auto
  show "P (snd (e_bind m f s)) \<and> (\<forall>x. fst (e_bind m f s) = Inr x \<longrightarrow> R x)"
    using 1 assms(2) by (cases r) (auto simp: e_bind_run run yields_def)
qed

lemma yields_seq: "yields P m (\<lambda>_. True) \<Longrightarrow> yields P n R \<Longrightarrow> yields P (e_seq m n) R"
  unfolding e_seq_def by (rule yields_bind)

lemma yields_catch:
  assumes "yields P m Q" and "\<And>e. yields P (h e) Q"
  shows "yields P (e_catch m h) Q"
  unfolding yields_def
proof (intro allI impI)
  fix s
  assume s: "P s"
  obtain r s' where run: "m s = (r, s')" by fastforce
  have 1: "P s'" "\<forall>x. r = Inr x \<longrightarrow> Q x" using yieldsD [OF assms(1) s run] by auto
  show "P (snd (e_catch m h s)) \<and> (\<forall>x. fst (e_catch m h s) = Inr x \<longrightarrow> Q x)"
    using 1 assms(2) by (cases r) (auto simp: e_catch_run run yields_def)
qed

lemma yields_when: "(c \<Longrightarrow> yields P m Q) \<Longrightarrow> Q () \<Longrightarrow> yields P (e_when c m) Q"
  by (auto simp: e_when_def intro: yields_ret)

lemma yields_each: "(\<And>x. x \<in> set xs \<Longrightarrow> yields P (f x) (\<lambda>_. True)) \<Longrightarrow> yields P (e_each f xs) (\<lambda>_. True)"
  by (induction xs) (auto intro: yields_ret yields_seq)

end
