(* ===== verification/JobState.thy ===== *)
theory JobState
  imports Prelude
begin

text \<open>
  The job state machine (\<open>jobs/state.py\<close>): the eight states, the terminal ones, the table of
  legal transitions and the guard \<open>assert_legal\<close>; the step relation the table induces, the
  states reachable from \<open>pending\<close>, and the exceptions the development's operations raise.
\<close>

section \<open>Exceptions\<close>

text \<open>
  The exception classes the code raises or tells apart. \<open>LibErr\<close> is an exception of a library
  (its class decides whether a fault is transient), \<open>PlainExn\<close> is one whose type is exactly
  \<open>Exception\<close> (the shape harmony-py raises), \<open>HttpStatusErr\<close> carries a response's status code
  and body, and \<open>CancelledError\<close> is the only one here that is not an \<open>Exception\<close>.
\<close>

datatype lib_class =
    HttpxTimeout | HttpxNetwork | PyConnectionError | PyTimeoutError
  | SaOperational | SaInterface | SaDisconnection
  | HttpxUnsupportedProtocol | SaProgramming | OtherClass string

datatype cred_class = TOKEN_EXPIRED | TOKEN_INVALID | EULA_NOT_ACCEPTED

datatype exn =
    ValueError string
  | KeyError string
  | TypeError string
  | IndexError string
  | RuntimeError string
  | IllegalTransition string
  | JobNotFoundError string
  | HandleNotFoundError string
  | CrossWorkspaceError string
  | EvictedResultError string
  | InvalidSpecError string
  | ProvenanceError string
  | NotRetrievable string
  | IntegrityError string
  | CredentialError cred_class string "string option"
  | CredentialKeyUnavailable
  | HttpStatusErr string int "string option"
  | PlainExn "string list"
  | LibErr lib_class "string list"
  | CancelledError

text \<open>\<open>isinstance(exc, Exception)\<close>.\<close>

definition is_Exception :: "exn \<Rightarrow> bool" where
  "is_Exception e \<longleftrightarrow> e \<noteq> CancelledError"

section \<open>States\<close>

datatype job_state =
    PENDING | SUBMITTED | RUNNING | MATERIALIZING | READY | FAILED | EXPIRED | CANCELLED

instantiation job_state :: enum
begin

definition enum_job_state :: "job_state list" where
  "enum_job_state = [PENDING, SUBMITTED, RUNNING, MATERIALIZING, READY, FAILED, EXPIRED, CANCELLED]"

definition enum_all_job_state :: "(job_state \<Rightarrow> bool) \<Rightarrow> bool" where
  "enum_all_job_state P \<longleftrightarrow>
     P PENDING \<and> P SUBMITTED \<and> P RUNNING \<and> P MATERIALIZING \<and> P READY \<and> P FAILED \<and> P EXPIRED
     \<and> P CANCELLED"

definition enum_ex_job_state :: "(job_state \<Rightarrow> bool) \<Rightarrow> bool" where
  "enum_ex_job_state P \<longleftrightarrow>
     P PENDING \<or> P SUBMITTED \<or> P RUNNING \<or> P MATERIALIZING \<or> P READY \<or> P FAILED \<or> P EXPIRED
     \<or> P CANCELLED"

instance
proof
  show univ: "(UNIV :: job_state set) = set enum_class.enum"
  proof -
    have "x \<in> set enum_class.enum" for x :: job_state
      by (cases x) (simp_all add: enum_job_state_def)
    then show ?thesis by auto
  qed
  show "distinct (enum_class.enum :: job_state list)"
    by (simp add: enum_job_state_def)
  show "enum_class.enum_all P \<longleftrightarrow> Ball UNIV P" for P :: "job_state \<Rightarrow> bool"
    unfolding univ by (simp add: enum_all_job_state_def enum_job_state_def)
  show "enum_class.enum_ex P \<longleftrightarrow> Bex UNIV P" for P :: "job_state \<Rightarrow> bool"
    unfolding univ by (simp add: enum_ex_job_state_def enum_job_state_def)
qed

end

text \<open>\<open>JobState.X.value\<close>, the string stored in the row.\<close>

fun state_value :: "job_state \<Rightarrow> string" where
  "state_value PENDING = ''pending''"
| "state_value SUBMITTED = ''submitted''"
| "state_value RUNNING = ''running''"
| "state_value MATERIALIZING = ''materializing''"
| "state_value READY = ''ready''"
| "state_value FAILED = ''failed''"
| "state_value EXPIRED = ''expired''"
| "state_value CANCELLED = ''cancelled''"

text \<open>\<open>JobState(s)\<close>, the enum lookup by value.\<close>

definition state_of_value :: "string \<Rightarrow> job_state option" where
  "state_of_value s = List.find (\<lambda>st. state_value st = s) enum_class.enum"

lemma state_of_value_value [simp]: "state_of_value (state_value st) = Some st"
  by (cases st) (simp_all add: state_of_value_def enum_job_state_def)

definition TERMINAL_STATES :: "job_state set" where
  "TERMINAL_STATES = {READY, FAILED, EXPIRED, CANCELLED}"

fun LEGAL_TRANSITIONS :: "job_state \<Rightarrow> job_state set" where
  "LEGAL_TRANSITIONS PENDING = {SUBMITTED, FAILED, CANCELLED}"
| "LEGAL_TRANSITIONS SUBMITTED = {RUNNING, FAILED, CANCELLED}"
| "LEGAL_TRANSITIONS RUNNING = {MATERIALIZING, FAILED, CANCELLED}"
| "LEGAL_TRANSITIONS MATERIALIZING = {READY, FAILED}"
| "LEGAL_TRANSITIONS READY = {EXPIRED}"
| "LEGAL_TRANSITIONS FAILED = {}"
| "LEGAL_TRANSITIONS EXPIRED = {}"
| "LEGAL_TRANSITIONS CANCELLED = {}"

definition assert_legal :: "job_state \<Rightarrow> job_state \<Rightarrow> exn + unit" where
  "assert_legal current new =
     (if new \<notin> LEGAL_TRANSITIONS current
      then Inl (IllegalTransition (''illegal job state transition: '' @ state_value current @ '' -> ''
                  @ state_value new))
      else Inr ())"

section \<open>The step relation of the machine\<close>

inductive legal_step :: "job_state \<Rightarrow> job_state \<Rightarrow> bool" where
  step: "new \<in> LEGAL_TRANSITIONS current \<Longrightarrow> legal_step current new"

inductive_cases legal_stepE: "legal_step current new"

inductive_simps legal_step_from:
  "legal_step PENDING s" "legal_step SUBMITTED s" "legal_step RUNNING s"
  "legal_step MATERIALIZING s" "legal_step READY s" "legal_step FAILED s"
  "legal_step EXPIRED s" "legal_step CANCELLED s"

text \<open>A path of zero or more legal transitions.\<close>

inductive legal_path :: "job_state \<Rightarrow> job_state \<Rightarrow> bool" where
  refl: "legal_path s s"
| step: "legal_path s t \<Longrightarrow> legal_step t u \<Longrightarrow> legal_path s u"

lemma assert_legal_ok_iff: "assert_legal s t = Inr () \<longleftrightarrow> legal_step s t"
  by (auto simp: assert_legal_def legal_step.simps)

lemma assert_legal_raises_iff:
  "(\<exists>m. assert_legal s t = Inl (IllegalTransition m)) \<longleftrightarrow> \<not> legal_step s t"
  by (auto simp: assert_legal_def legal_step.simps)

lemma legal_path_trans: "legal_path t u \<Longrightarrow> legal_path s t \<Longrightarrow> legal_path s u"
  by (induction rule: legal_path.induct) (auto intro: legal_path.intros)

lemma legal_path_one: "legal_step s t \<Longrightarrow> legal_path s t"
  by (auto intro: legal_path.intros)

lemma terminal_no_step:
  "s \<in> TERMINAL_STATES \<Longrightarrow> legal_step s t \<Longrightarrow> s = READY \<and> t = EXPIRED"
  by (auto simp: TERMINAL_STATES_def legal_step.simps)

lemma terminal_iff_cases:
  "s \<in> TERMINAL_STATES \<longleftrightarrow> s = READY \<or> s = FAILED \<or> s = EXPIRED \<or> s = CANCELLED"
  by (simp add: TERMINAL_STATES_def)

lemma terminal_step_terminal:
  "s \<in> TERMINAL_STATES \<Longrightarrow> legal_step s t \<Longrightarrow> t \<in> TERMINAL_STATES"
  by (auto simp: TERMINAL_STATES_def legal_step_from)

lemma legal_path_terminal:
  "legal_path s t \<Longrightarrow> s \<in> TERMINAL_STATES \<Longrightarrow> t = s \<or> (s = READY \<and> t = EXPIRED)"
proof (induction rule: legal_path.induct)
  case (refl s)
  then show ?case by simp
next
  case (step s t u)
  then have "t = s \<or> (s = READY \<and> t = EXPIRED)" by simp
  with step.hyps(2) step.prems show ?case
    by (auto simp: terminal_iff_cases legal_step_from)
qed

text \<open>
  A rank that every transition raises: no state is ever entered twice, and a job takes at most
  five transitions from \<open>pending\<close>.
\<close>

fun state_rank :: "job_state \<Rightarrow> nat" where
  "state_rank PENDING = 0"
| "state_rank SUBMITTED = 1"
| "state_rank RUNNING = 2"
| "state_rank MATERIALIZING = 3"
| "state_rank READY = 4"
| "state_rank FAILED = 5"
| "state_rank EXPIRED = 5"
| "state_rank CANCELLED = 5"

lemma legal_step_rank: "legal_step s t \<Longrightarrow> state_rank s < state_rank t"
  by (cases s) (auto simp: legal_step.simps)

fun legal_trace :: "job_state list \<Rightarrow> bool" where
  "legal_trace [] = True"
| "legal_trace [s] = True"
| "legal_trace (s # t # ss) = (t \<in> LEGAL_TRANSITIONS s \<and> legal_trace (t # ss))"

lemma legal_trace_rank:
  "legal_trace (s # ss) \<Longrightarrow> state_rank s + length ss \<le> state_rank (last (s # ss))"
proof (induction ss arbitrary: s)
  case Nil
  then show ?case by simp
next
  case (Cons t ts)
  then have "state_rank s < state_rank t"
    by (auto intro: legal_step_rank legal_step.intros)
  with Cons show ?case by fastforce
qed

lemma state_rank_le_5: "state_rank s \<le> 5"
  by (cases s) auto

text \<open>
  C20: a job's life is at most five transitions long. Every sequence of legal transitions from
  \<open>pending\<close> visits at most six states, none twice, and one that cannot be extended ends in
  \<open>failed\<close>, \<open>expired\<close> or \<open>cancelled\<close> (\<open>ready\<close> can still expire).
\<close>

theorem job_lifecycle_terminates:
  assumes "legal_trace (PENDING # ss)"
  shows "length ss \<le> 5 \<and> distinct (PENDING # ss)
     \<and> (LEGAL_TRANSITIONS (last (PENDING # ss)) = {}
         \<longleftrightarrow> last (PENDING # ss) \<in> TERMINAL_STATES - {READY})"
proof -
  have mono: "legal_trace (s # ts) \<Longrightarrow> t \<in> set ts \<Longrightarrow> state_rank s < state_rank t" for s t ts
  proof (induction ts arbitrary: s)
    case Nil
    then show ?case by simp
  next
    case (Cons u us)
    then have "state_rank s < state_rank u" by (auto intro: legal_step_rank legal_step.intros)
    with Cons show ?case by fastforce
  qed
  have dist: "legal_trace ts \<Longrightarrow> distinct ts" for ts
  proof (induction ts)
    case Nil
    then show ?case by simp
  next
    case (Cons s ts)
    then have "legal_trace ts" by (cases ts) auto
    with Cons mono [of s ts s] show ?case by auto
  qed
  have "length ss \<le> 5"
    using legal_trace_rank [OF assms] state_rank_le_5 [of "last (PENDING # ss)"] by simp
  moreover have "LEGAL_TRANSITIONS s = {} \<longleftrightarrow> s \<in> TERMINAL_STATES - {READY}" for s
    by (cases s) (auto simp: TERMINAL_STATES_def)
  ultimately show ?thesis using dist [OF assms] by blast
qed

theorem job_lifecycle_terminates_witness:
  "length [SUBMITTED, RUNNING, MATERIALIZING, READY, EXPIRED] \<le> 5
   \<and> LEGAL_TRANSITIONS EXPIRED = {}"
  using job_lifecycle_terminates [of "[SUBMITTED, RUNNING, MATERIALIZING, READY, EXPIRED]"]
  by simp

end
