(* ===== verification/Table.thy ===== *)
theory Table
  imports Prelude
begin

text \<open>
  A Postgres table as the code uses it through SQLAlchemy: a list of rows in insertion order,
  read and written by primary key. The locale \<open>row_table\<close> is the contract the components above
  rely on (what a read returns after a write or an insert); it is interpreted here on the list
  model and, in the theories of the job and the handle table, on their own primary keys.
\<close>

type_synonym time = int  \<comment> \<open>an instant: microseconds, UTC\<close>

section \<open>Rows by primary key\<close>

definition row_get :: "('r \<Rightarrow> 'k) \<Rightarrow> 'r list \<Rightarrow> 'k \<Rightarrow> 'r option" where
  "row_get key t k = List.find (\<lambda>r. key r = k) t"

definition row_put :: "('r \<Rightarrow> 'k) \<Rightarrow> 'r \<Rightarrow> 'r list \<Rightarrow> 'r list" where
  "row_put key r t = map (\<lambda>x. if key x = key r then r else x) t"

definition row_insert :: "'r \<Rightarrow> 'r list \<Rightarrow> 'r list" where
  "row_insert r t = t @ [r]"

lemma row_get_Some: "row_get key t k = Some r \<Longrightarrow> r \<in> set t \<and> key r = k"
  by (auto simp: row_get_def find_Some_iff)

lemma row_get_None_iff: "row_get key t k = None \<longleftrightarrow> k \<notin> key ` set t"
  by (auto simp: row_get_def find_None_iff)

lemma row_get_distinct:
  "distinct (map key t) \<Longrightarrow> r \<in> set t \<Longrightarrow> row_get key t (key r) = Some r"
proof (induction t)
  case Nil
  then show ?case by simp
next
  case (Cons x t)
  then show ?case by (force simp: row_get_def)
qed

lemma row_get_put:
  "row_get key (row_put key r t) k =
     (if k = key r \<and> row_get key t k \<noteq> None then Some r else row_get key t k)"
  by (induction t) (auto simp: row_get_def row_put_def)

lemma row_get_insert:
  "row_get key (row_insert r t) k =
     (case row_get key t k of Some x \<Rightarrow> Some x | None \<Rightarrow> if key r = k then Some r else None)"
  by (induction t) (auto simp: row_get_def row_insert_def)

lemma keys_row_put [simp]: "map key (row_put key r t) = map key t"
  by (simp add: row_put_def)

lemma keys_row_insert [simp]: "map key (row_insert r t) = map key t @ [key r]"
  by (simp add: row_insert_def)

lemma set_row_put: "x \<in> set (row_put key r t) \<Longrightarrow> x = r \<or> x \<in> set t"
  by (auto simp: row_put_def split: if_splits)

lemma length_row_put [simp]: "length (row_put key r t) = length t"
  by (simp add: row_put_def)

section \<open>The contract of a table\<close>

locale row_table =
  fixes key :: "'r \<Rightarrow> 'k"
    and get :: "'t \<Rightarrow> 'k \<Rightarrow> 'r option"
    and put :: "'r \<Rightarrow> 't \<Rightarrow> 't"
    and ins :: "'r \<Rightarrow> 't \<Rightarrow> 't"
  assumes get_key: "get t k = Some r \<Longrightarrow> key r = k"
    and get_put: "get (put r t) k = (if k = key r \<and> get t k \<noteq> None then Some r else get t k)"
    and get_ins: "get (ins r t) k =
      (case get t k of Some x \<Rightarrow> Some x | None \<Rightarrow> if key r = k then Some r else None)"
begin

lemma get_put_same: "get t (key r) \<noteq> None \<Longrightarrow> get (put r t) (key r) = Some r"
  by (simp add: get_put)

lemma get_put_other: "k \<noteq> key r \<Longrightarrow> get (put r t) k = get t k"
  by (simp add: get_put)

lemma get_put_None: "get (put r t) k = None \<longleftrightarrow> get t k = None"
  by (auto simp: get_put)

lemma get_ins_fresh: "get t (key r) = None \<Longrightarrow> get (ins r t) (key r) = Some r"
  by (simp add: get_ins)

lemma get_ins_keeps: "get t k = Some x \<Longrightarrow> get (ins r t) k = Some x"
  by (simp add: get_ins)

text \<open>A relation between the old and the new row that is reflexive lifts to the table.\<close>

lemma put_related:
  assumes "get t (key r) = Some old" and "P old r" and "\<And>x. P x x"
  shows "get t k = Some x \<Longrightarrow> \<exists>y. get (put r t) k = Some y \<and> P x y"
  using assms by (cases "k = key r") (auto simp: get_put)

end

interpretation list_table: row_table key "row_get key" "row_put key" row_insert for key
  by unfold_locales (auto dest: row_get_Some simp: row_get_put row_get_insert)

section \<open>Ordering by time\<close>

text \<open>
  \<open>ORDER BY created_at DESC\<close>; rows with the same time come latest-inserted first, an order
  Postgres leaves open.
\<close>

definition newest_first :: "('r \<Rightarrow> time) \<Rightarrow> 'r list \<Rightarrow> 'r list" where
  "newest_first f xs = rev (sort_key f xs)"

text \<open>\<open>ORDER BY created_at DESC LIMIT 1\<close>.\<close>

definition newest :: "('r \<Rightarrow> time) \<Rightarrow> 'r list \<Rightarrow> 'r option" where
  "newest f xs = (case newest_first f xs of [] \<Rightarrow> None | x # _ \<Rightarrow> Some x)"

lemma set_newest_first [simp]: "set (newest_first f xs) = set xs"
  by (simp add: newest_first_def)

lemma newest_first_Nil_iff [simp]: "newest_first f xs = [] \<longleftrightarrow> xs = []"
  by (metis set_empty set_newest_first)

lemma newest_None_iff [simp]: "newest f xs = None \<longleftrightarrow> xs = []"
proof -
  have "newest f xs = None \<longleftrightarrow> newest_first f xs = []"
    unfolding newest_def by (auto split: list.splits simp del: newest_first_Nil_iff)
  then show ?thesis by simp
qed

lemma newest_Some:
  assumes "newest f xs = Some x"
  shows "x \<in> set xs \<and> (\<forall>y \<in> set xs. f y \<le> f x)"
proof -
  obtain ys where ys: "newest_first f xs = x # ys"
    using assms by (auto simp: newest_def split: list.splits)
  then have "sort_key f xs = rev ys @ [x]"
    by (simp add: newest_first_def rev_swap)
  moreover have "sorted (map f (sort_key f xs))" by simp
  ultimately have "\<forall>y \<in> set ys. f y \<le> f x"
    by (simp add: sorted_append)
  moreover have "set xs = set (x # ys)" by (metis ys set_newest_first)
  ultimately show ?thesis by auto
qed

lemma sort_key_snoc_ge:
  "(\<And>y. y \<in> set xs \<Longrightarrow> f y \<le> f x) \<Longrightarrow> sort_key f (xs @ [x]) = sort_key f xs @ [x]"
proof (induction xs)
  case Nil
  then show ?case by simp
next
  case (Cons y ys)
  then have IH: "sort_key f (ys @ [x]) = sort_key f ys @ [x]" by simp
  have "f y \<le> f x" using Cons.prems by simp
  then have "insort_key f y (zs @ [x]) = insort_key f y zs @ [x]" for zs
    by (induction zs) auto
  with IH show ?case by simp
qed

lemma newest_snoc_ge:
  "(\<And>y. y \<in> set xs \<Longrightarrow> f y \<le> f x) \<Longrightarrow> newest f (xs @ [x]) = Some x"
  by (simp add: newest_def newest_first_def sort_key_snoc_ge)

end
