(* ===== verification/Workspace.thy ===== *)
theory Workspace
  imports JobState Table
begin

text \<open>
  Handles and the workspace store (\<open>workspace/models.py\<close>, \<open>workspace/store.py\<close>,
  \<open>workspace/handles.py\<close>): opaque prefixed identifiers owned by one workspace, the isolation gate
  of every read and write, the unique-signature insert behind request deduplication, and the
  typed resolvers. The lemmas show isolation between workspaces, that the database's uniqueness
  constraint is an invariant of every operation, and which branch each resolver takes.
\<close>

section \<open>Handle types (\<open>workspace/models.py\<close>)\<close>

datatype handle_type = DATASET | AOI | QUERY | OBS | CUBE | PREVIEW | JOB

fun handle_type_value :: "handle_type \<Rightarrow> string" where
  "handle_type_value DATASET = ''dataset''"
| "handle_type_value AOI = ''aoi''"
| "handle_type_value QUERY = ''query''"
| "handle_type_value OBS = ''obs''"
| "handle_type_value CUBE = ''cube''"
| "handle_type_value PREVIEW = ''preview''"
| "handle_type_value JOB = ''job''"

definition all_handle_types :: "handle_type list" where
  "all_handle_types = [DATASET, AOI, QUERY, OBS, CUBE, PREVIEW, JOB]"

text \<open>The random suffix \<open>secrets.token_hex(8)\<close> is an argument.\<close>

definition mint_handle :: "handle_type \<Rightarrow> string \<Rightarrow> string" where
  "mint_handle ht tok = handle_type_value ht @ ''_'' @ tok"

definition handle_type_of :: "string \<Rightarrow> exn + handle_type" where
  "handle_type_of handle =
     (case py_partition (CHR ''_'') handle of
        (pre, sep, _) \<Rightarrow>
          if \<not> sep then Inl (ValueError (''not a handle (no prefix): '' @ py_repr handle))
          else (case List.find (\<lambda>ht. handle_type_value ht = pre) all_handle_types of
                  None \<Rightarrow> Inl (ValueError (py_repr pre @ '' is not a valid HandleType''))
                | Some ht \<Rightarrow> Inr ht))"

datatype event_type =
    E_CREATED | E_ROUTED | E_SUBMITTED | E_PROVIDER_FALLBACK | E_OPENDAP_NOT_APPLICABLE
  | E_JOB_FAILED | E_MATERIALIZED | E_EXPIRED | E_RE_MATERIALIZED | E_REUSED | E_PREFETCHED
  | E_PROMOTED

lemma no_underscore_in_prefix: "CHR ''_'' \<notin> set (handle_type_value ht)"
  by (cases ht) simp_all

lemma handle_type_of_mint [simp]: "handle_type_of (mint_handle ht tok) = Inr ht"
proof -
  have "py_partition (CHR ''_'') (mint_handle ht tok) = (handle_type_value ht, True, tok)"
    unfolding mint_handle_def
    using partition_split [OF no_underscore_in_prefix, of ht tok] by simp
  moreover have "List.find (\<lambda>h. handle_type_value h = handle_type_value ht) all_handle_types = Some ht"
    by (cases ht) (simp_all add: all_handle_types_def)
  ultimately show ?thesis by (simp add: handle_type_of_def)
qed

section \<open>The handle table\<close>

record handle_row =
  h_handle :: string
  h_workspace_id :: string
  h_type :: handle_type
  h_payload :: dict
  h_created_at :: time
  h_updated_at :: time
  h_last_accessed_at :: "time option"

type_synonym handle_table = "handle_row list"

definition row_of_handle :: "handle_table \<Rightarrow> string \<Rightarrow> handle_row option" where
  "row_of_handle t h = row_get h_handle t h"

text \<open>\<open>payload->>'key'\<close> for a key that holds a string.\<close>

definition payload_text :: "handle_row \<Rightarrow> string \<Rightarrow> string option" where
  "payload_text r k = jstr (jget (h_payload r) k)"

text \<open>
  The partial unique index of \<open>create_schema\<close>: \<open>(workspace_id, payload->>'signature')\<close> over the
  \<open>obs\<close> handles that carry a signature.
\<close>

definition signature_of :: "handle_row \<Rightarrow> string option" where
  "signature_of r = (if h_type r = OBS then payload_text r ''signature'' else None)"

definition index_conflict :: "handle_row \<Rightarrow> handle_table \<Rightarrow> bool" where
  "index_conflict r t \<longleftrightarrow> signature_of r \<noteq> None \<and>
     list_ex (\<lambda>x. h_handle x \<noteq> h_handle r \<and> h_workspace_id x = h_workspace_id r
                  \<and> signature_of x = signature_of r) t"

definition insert_row :: "handle_row \<Rightarrow> handle_table \<Rightarrow> exn + handle_table" where
  "insert_row r t =
     (if row_of_handle t (h_handle r) \<noteq> None \<or> index_conflict r t
      then Inl (IntegrityError ''handles'') else Inr (row_insert r t))"

section \<open>The store (\<open>workspace/store.py\<close>)\<close>

definition fresh_row ::
  "time \<Rightarrow> string \<Rightarrow> string \<Rightarrow> handle_type \<Rightarrow> dict \<Rightarrow> handle_row" where
  "fresh_row now tok ws ht payload =
     \<lparr>h_handle = mint_handle ht tok, h_workspace_id = ws, h_type = ht, h_payload = payload,
      h_created_at = now, h_updated_at = now, h_last_accessed_at = None\<rparr>"

definition put_handle ::
  "time \<Rightarrow> string \<Rightarrow> string \<Rightarrow> handle_type \<Rightarrow> dict \<Rightarrow> handle_table
   \<Rightarrow> exn + (string \<times> handle_table)" where
  "put_handle now tok ws ht payload t =
     (case insert_row (fresh_row now tok ws ht payload) t of
        Inl e \<Rightarrow> Inl e
      | Inr t' \<Rightarrow> Inr (mint_handle ht tok, t'))"

definition find_handle_by_payload_value ::
  "handle_table \<Rightarrow> string \<Rightarrow> handle_type \<Rightarrow> string \<Rightarrow> string \<Rightarrow> handle_row option" where
  "find_handle_by_payload_value t ws ht k v =
     newest h_created_at
       (filter (\<lambda>r. h_workspace_id r = ws \<and> h_type r = ht \<and> payload_text r k = Some v) t)"

definition put_handle_unique_signature ::
  "time \<Rightarrow> string \<Rightarrow> string \<Rightarrow> handle_type \<Rightarrow> dict \<Rightarrow> handle_table
   \<Rightarrow> exn + ((handle_row \<times> bool) \<times> handle_table)" where
  "put_handle_unique_signature now tok ws ht payload t =
     (case map_of payload ''signature'' of
        None \<Rightarrow> Inl (KeyError ''signature'')
      | Some sig \<Rightarrow>
          let row = fresh_row now tok ws ht payload
          in case insert_row row t of
               Inr t' \<Rightarrow> Inr ((row, True), t')
             | Inl _ \<Rightarrow>
                 (case jstr sig of
                    None \<Rightarrow> Inl (RuntimeError ''unique-signature insert conflicted but no existing handle was found'')
                  | Some s \<Rightarrow>
                      (case find_handle_by_payload_value t ws ht ''signature'' s of
                         None \<Rightarrow> Inl (RuntimeError ''unique-signature insert conflicted but no existing handle was found'')
                       | Some existing \<Rightarrow> Inr ((existing, False), t))))"

definition get_handle :: "handle_table \<Rightarrow> string \<Rightarrow> string \<Rightarrow> exn + handle_row" where
  "get_handle t ws h =
     (case row_of_handle t h of
        None \<Rightarrow> Inl (HandleNotFoundError h)
      | Some row \<Rightarrow>
          if h_workspace_id row \<noteq> ws
          then Inl (CrossWorkspaceError (''handle '' @ py_repr h @ '' is not owned by workspace '' @ py_repr ws))
          else Inr row)"

text \<open>
  The merge is flushed only if it changes the payload; \<open>updated_at\<close> moves with the flush. The
  unique index also guards an update.
\<close>

definition update_handle ::
  "time \<Rightarrow> string \<Rightarrow> string \<Rightarrow> dict \<Rightarrow> handle_table \<Rightarrow> exn + (handle_row \<times> handle_table)" where
  "update_handle now ws h payload t =
     (case get_handle t ws h of
        Inl e \<Rightarrow> Inl e
      | Inr row \<Rightarrow>
          let merged = dict_merge (h_payload row) payload;
              row' = row\<lparr>h_payload := merged, h_updated_at := now\<rparr>
          in if merged = h_payload row then Inr (row, t)
             else if index_conflict row' t then Inl (IntegrityError ''handles'')
             else Inr (row', row_put h_handle row' t))"

text \<open>An SQL expression is always flushed, and the flush moves \<open>updated_at\<close> as well.\<close>

definition touch_handle ::
  "time \<Rightarrow> string \<Rightarrow> string \<Rightarrow> handle_table \<Rightarrow> exn + handle_table" where
  "touch_handle now ws h t =
     (case get_handle t ws h of
        Inl e \<Rightarrow> Inl e
      | Inr row \<Rightarrow>
          Inr (row_put h_handle (row\<lparr>h_last_accessed_at := Some now, h_updated_at := now\<rparr>) t))"

definition list_handles :: "handle_table \<Rightarrow> string \<Rightarrow> handle_type option \<Rightarrow> handle_row list" where
  "list_handles t ws ht =
     sort_key h_created_at
       (filter (\<lambda>r. h_workspace_id r = ws \<and> (case ht of None \<Rightarrow> True | Some x \<Rightarrow> h_type r = x)) t)"

section \<open>The resolvers (\<open>workspace/handles.py\<close>)\<close>

definition resolve_dataset :: "handle_table \<Rightarrow> string \<Rightarrow> string \<Rightarrow> exn + json" where
  "resolve_dataset t ws handle =
     (case handle_type_of handle of
        Inl e \<Rightarrow> Inl e
      | Inr ht \<Rightarrow>
          if ht \<noteq> DATASET then Inl (ValueError (''expected a dataset_ handle, got '' @ py_repr handle))
          else (case get_handle t ws handle of
                  Inl e \<Rightarrow> Inl e
                | Inr row \<Rightarrow>
                    let concept_id = jget (h_payload row) ''concept_id''
                    in if \<not> truthy concept_id
                       then Inl (ValueError (''dataset handle '' @ py_repr handle @ '' payload missing '' @ py_repr ''concept_id''))
                       else Inr concept_id))"

text \<open>
  \<open>float(x)\<close> of a stored coordinate. How Python reads a float from a string is the argument
  \<open>read_float\<close>; a float is an exact rational here, so infinities and NaN are out of the model.
\<close>

fun py_float :: "(string \<Rightarrow> rat option) \<Rightarrow> json \<Rightarrow> exn + rat" where
  "py_float read_float (JInt i) = Inr (of_int i)"
| "py_float read_float (JFloat r) = Inr r"
| "py_float read_float (JBool b) = Inr (if b then 1 else 0)"
| "py_float read_float (JStr s) =
     (case read_float s of None \<Rightarrow> Inl (ValueError ''could not convert string to float'') | Some r \<Rightarrow> Inr r)"
| "py_float read_float _ = Inl (TypeError ''float() argument must be a string or a real number'')"

text \<open>What iterating over a JSON value yields; \<open>None\<close> where Python's \<open>len()\<close> raises.\<close>

fun py_elems :: "json \<Rightarrow> json list option" where
  "py_elems (JArr xs) = Some xs"
| "py_elems (JStr s) = Some (map (\<lambda>c. JStr [c]) s)"
| "py_elems (JObj d) = Some (map (\<lambda>(k, _). JStr k) d)"
| "py_elems _ = None"

fun py_floats :: "(string \<Rightarrow> rat option) \<Rightarrow> json list \<Rightarrow> exn + rat list" where
  "py_floats read_float [] = Inr []"
| "py_floats read_float (x # xs) =
     (case py_float read_float x of
        Inl e \<Rightarrow> Inl e
      | Inr r \<Rightarrow> (case py_floats read_float xs of Inl e \<Rightarrow> Inl e | Inr rs \<Rightarrow> Inr (r # rs)))"

text \<open>The box is west, south, east, north.\<close>

definition resolve_aoi ::
  "(string \<Rightarrow> rat option) \<Rightarrow> handle_table \<Rightarrow> string \<Rightarrow> string \<Rightarrow> exn + rat list" where
  "resolve_aoi read_float t ws handle =
     (case handle_type_of handle of
        Inl e \<Rightarrow> Inl e
      | Inr ht \<Rightarrow>
          if ht \<noteq> AOI then Inl (ValueError (''expected an aoi_ handle, got '' @ py_repr handle))
          else (case get_handle t ws handle of
                  Inl e \<Rightarrow> Inl e
                | Inr row \<Rightarrow>
                    let bbox = jget (h_payload row) ''bbox'';
                        malformed = Inl (ValueError (''aoi handle '' @ py_repr handle
                                      @ '' payload missing or malformed '' @ py_repr ''bbox''))
                    in if \<not> truthy bbox then malformed
                       else (case py_elems bbox of
                               None \<Rightarrow> Inl (TypeError ''object has no len()'')
                             | Some xs \<Rightarrow> if length xs \<noteq> 4 then malformed else py_floats read_float xs)))"

definition resolve_materialized ::
  "handle_table \<Rightarrow> string \<Rightarrow> string \<Rightarrow> exn + (json \<times> json \<times> dict)" where
  "resolve_materialized t ws handle =
     (case handle_type_of handle of
        Inl e \<Rightarrow> Inl e
      | Inr ht \<Rightarrow>
          if ht \<noteq> OBS \<and> ht \<noteq> CUBE
          then Inl (ValueError (''expected an obs_ or cube_ handle, got '' @ py_repr handle))
          else (case get_handle t ws handle of
                  Inl e \<Rightarrow> Inl e
                | Inr row \<Rightarrow>
                    let payload = h_payload row;
                        storage_key = jget payload ''storage_key'';
                        media_type = jget payload ''media_type'';
                        status = jget payload ''status''
                    in if status = JStr ''expired''
                       then Inl (EvictedResultError (''handle '' @ py_repr handle
                                  @ '' was evicted from the materialization cache''))
                       else if status \<noteq> JStr ''ready'' \<or> \<not> truthy storage_key \<or> \<not> truthy media_type
                       then Inl (ValueError (''handle '' @ py_repr handle @ '' is not a materialized result''))
                       else Inr (storage_key, media_type, payload)))"

section \<open>Invariant of the table\<close>

definition handles_ok :: "handle_table \<Rightarrow> bool" where
  "handles_ok t \<longleftrightarrow> distinct (map h_handle t)
     \<and> (\<forall>x \<in> set t. \<forall>y \<in> set t. h_workspace_id x = h_workspace_id y \<and> signature_of x \<noteq> None
          \<and> signature_of x = signature_of y \<longrightarrow> x = y)"

text \<open>What one workspace can see.\<close>

definition ws_view :: "string \<Rightarrow> handle_table \<Rightarrow> handle_table" where
  "ws_view ws t = filter (\<lambda>r. h_workspace_id r = ws) t"

interpretation handles: row_table h_handle row_of_handle "row_put h_handle" row_insert
  by unfold_locales (auto simp: row_of_handle_def list_table.get_put list_table.get_ins
      dest: list_table.get_key)

lemma row_of_handle_mem: "row_of_handle t h = Some r \<Longrightarrow> r \<in> set t \<and> h_handle r = h"
  by (auto simp: row_of_handle_def dest: row_get_Some)

lemma row_of_handle_of_mem: "handles_ok t \<Longrightarrow> r \<in> set t \<Longrightarrow> row_of_handle t (h_handle r) = Some r"
  by (simp add: row_of_handle_def handles_ok_def row_get_distinct)

lemma get_handle_Inr_iff:
  "get_handle t ws h = Inr r \<longleftrightarrow> row_of_handle t h = Some r \<and> h_workspace_id r = ws"
  by (auto simp: get_handle_def split: option.splits)

lemma get_handle_mem: "get_handle t ws h = Inr r \<Longrightarrow> r \<in> set t \<and> h_handle r = h \<and> h_workspace_id r = ws"
  by (auto simp: get_handle_Inr_iff dest: row_of_handle_mem)

lemma insert_row_Inr:
  "insert_row r t = Inr t' \<Longrightarrow>
     t' = t @ [r] \<and> row_of_handle t (h_handle r) = None \<and> \<not> index_conflict r t"
  by (auto simp: insert_row_def row_insert_def split: if_splits)

lemma insert_row_ok:
  assumes "insert_row r t = Inr t'" and "handles_ok t"
  shows "handles_ok t'"
proof -
  from assms(1) have t': "t' = t @ [r]" "row_of_handle t (h_handle r) = None" "\<not> index_conflict r t"
    by (auto dest: insert_row_Inr)
  then have new: "h_handle r \<notin> h_handle ` set t" by (simp add: row_of_handle_def row_get_None_iff)
  then have ne: "x \<in> set t \<Longrightarrow> h_handle x \<noteq> h_handle r" for x by (metis imageI)
  have conf: "x \<in> set t \<Longrightarrow> h_workspace_id x = h_workspace_id r \<Longrightarrow> signature_of x = signature_of r
      \<Longrightarrow> signature_of r = None" for x
    using t'(3) ne [of x] by (auto simp: index_conflict_def list_ex_iff)
  have mem: "x \<in> set t' \<Longrightarrow> x = r \<or> x \<in> set t" for x using t'(1) by auto
  have "x = y" if "x \<in> set t'" "y \<in> set t'" "h_workspace_id x = h_workspace_id y"
    "signature_of x \<noteq> None" "signature_of x = signature_of y" for x y
    using mem [OF that(1)] mem [OF that(2)] that(3-5) conf assms(2)
    unfolding handles_ok_def by metis
  moreover have "distinct (map h_handle t')"
    using new assms(2) t'(1) by (simp add: handles_ok_def)
  ultimately show ?thesis unfolding handles_ok_def by blast
qed

lemma row_put_ok:
  assumes "handles_ok t" and "\<not> index_conflict r t"
  shows "handles_ok (row_put h_handle r t)"
proof -
  have conf: "x \<in> set t \<Longrightarrow> h_handle x \<noteq> h_handle r \<Longrightarrow> h_workspace_id x = h_workspace_id r
      \<Longrightarrow> signature_of x = signature_of r \<Longrightarrow> signature_of r = None" for x
    using assms(2) by (force simp: index_conflict_def list_ex_iff)
  have mem: "x \<in> set (row_put h_handle r t) \<Longrightarrow> x = r \<or> (x \<in> set t \<and> h_handle x \<noteq> h_handle r)" for x
    by (auto simp: row_put_def split: if_splits)
  have "distinct (map h_handle (row_put h_handle r t))"
    using assms(1) by (simp add: handles_ok_def)
  moreover have "x = y" if "x \<in> set (row_put h_handle r t)" "y \<in> set (row_put h_handle r t)"
    "h_workspace_id x = h_workspace_id y" "signature_of x \<noteq> None" "signature_of x = signature_of y" for x y
    using mem [OF that(1)] mem [OF that(2)] that(3-5) conf assms(1)
    unfolding handles_ok_def by metis
  ultimately show ?thesis unfolding handles_ok_def by blast
qed

lemma put_handle_ok: "put_handle now tok ws ht p t = Inr (h, t') \<Longrightarrow> handles_ok t \<Longrightarrow> handles_ok t'"
  by (auto simp: put_handle_def dest: insert_row_ok split: sum.splits)

lemma put_unique_ok:
  "put_handle_unique_signature now tok ws ht p t = Inr (res, t') \<Longrightarrow> handles_ok t \<Longrightarrow> handles_ok t'"
  by (auto simp: put_handle_unique_signature_def Let_def dest: insert_row_ok
      split: option.splits sum.splits)

lemma update_handle_Inr:
  assumes "update_handle now ws h p t = Inr (r, t')"
  shows "\<exists>old. get_handle t ws h = Inr old \<and> h_payload r = dict_merge (h_payload old) p
     \<and> r = old\<lparr>h_payload := h_payload r, h_updated_at := h_updated_at r\<rparr>
     \<and> ((t' = t \<and> r = old) \<or> (t' = row_put h_handle r t \<and> \<not> index_conflict r t))"
  using assms by (auto simp: update_handle_def Let_def split: sum.splits if_splits)

lemma update_handle_ok:
  "update_handle now ws h p t = Inr (r, t') \<Longrightarrow> handles_ok t \<Longrightarrow> handles_ok t'"
  by (auto dest!: update_handle_Inr intro: row_put_ok)

lemma no_conflict_same_signature:
  assumes "handles_ok t" "old \<in> set t" "h_handle r = h_handle old"
    "h_workspace_id r = h_workspace_id old" "signature_of r = signature_of old"
  shows "\<not> index_conflict r t"
  using assms by (auto simp: handles_ok_def index_conflict_def list_ex_iff)

lemma touch_handle_Inr:
  assumes "touch_handle now ws h t = Inr t'"
  shows "\<exists>old. get_handle t ws h = Inr old
     \<and> t' = row_put h_handle (old\<lparr>h_last_accessed_at := Some now, h_updated_at := now\<rparr>) t"
  using assms by (auto simp: touch_handle_def split: sum.splits)

lemma touch_handle_ok: "touch_handle now ws h t = Inr t' \<Longrightarrow> handles_ok t \<Longrightarrow> handles_ok t'"
proof -
  assume a: "touch_handle now ws h t = Inr t'" and ok: "handles_ok t"
  then obtain old where old: "get_handle t ws h = Inr old"
      "t' = row_put h_handle (old\<lparr>h_last_accessed_at := Some now, h_updated_at := now\<rparr>) t"
    by (blast dest: touch_handle_Inr)
  then have "\<not> index_conflict (old\<lparr>h_last_accessed_at := Some now, h_updated_at := now\<rparr>) t"
    using ok by (intro no_conflict_same_signature [of t old])
      (auto dest: get_handle_mem simp: signature_of_def payload_text_def)
  with old ok show ?thesis by (simp add: row_put_ok)
qed

lemmas store_ok = put_handle_ok put_unique_ok update_handle_ok touch_handle_ok

section \<open>Isolation between workspaces\<close>

lemma ws_view_put_other:
  assumes "handles_ok t" and "row_of_handle t (h_handle r) = Some old"
    and "h_workspace_id old = ws" and "h_workspace_id r = ws" and "ws' \<noteq> ws"
  shows "ws_view ws' (row_put h_handle r t) = ws_view ws' t"
proof -
  have "x \<in> set t \<Longrightarrow> h_handle x = h_handle r \<Longrightarrow> x = old" for x
    using assms(1,2) by (metis row_of_handle_of_mem option.inject)
  then have "x \<in> set t \<Longrightarrow> h_handle x = h_handle r \<Longrightarrow> h_workspace_id x = ws" for x
    using assms(3) by blast
  then have "filter (\<lambda>x. h_workspace_id x = ws') (row_put h_handle r u) =
      filter (\<lambda>x. h_workspace_id x = ws') u" if "set u \<subseteq> set t" for u
    using that assms(4,5) by (induction u) (auto simp: row_put_def)
  then show ?thesis by (simp add: ws_view_def)
qed

lemma update_handle_isolated:
  assumes "handles_ok t" and "update_handle now ws h p t = Inr (r, t')" and "ws' \<noteq> ws"
  shows "ws_view ws' t' = ws_view ws' t"
proof -
  from update_handle_Inr [OF assms(2)] obtain old where o:
    "get_handle t ws h = Inr old" "r = old\<lparr>h_payload := h_payload r, h_updated_at := h_updated_at r\<rparr>"
    "t' = t \<or> t' = row_put h_handle r t" by blast
  have "h_handle r = h_handle old" "h_workspace_id r = h_workspace_id old"
    by (subst o(2), simp)+
  moreover have "row_of_handle t h = Some old" "h_workspace_id old = ws" "h_handle old = h"
    using o(1) by (auto simp: get_handle_Inr_iff dest: row_of_handle_mem)
  ultimately show ?thesis using o(3) assms(1,3) by (auto intro: ws_view_put_other)
qed

lemma touch_handle_isolated:
  assumes "handles_ok t" and "touch_handle now ws h t = Inr t'" and "ws' \<noteq> ws"
  shows "ws_view ws' t' = ws_view ws' t"
proof -
  from touch_handle_Inr [OF assms(2)] obtain old where o:
    "get_handle t ws h = Inr old"
    "t' = row_put h_handle (old\<lparr>h_last_accessed_at := Some now, h_updated_at := now\<rparr>) t" by blast
  then have "row_of_handle t h = Some old" "h_workspace_id old = ws" "h_handle old = h"
    by (auto simp: get_handle_Inr_iff dest: row_of_handle_mem)
  then show ?thesis using assms(1,3) o(2)
    by (auto intro!: ws_view_put_other [of t _ old ws])
qed

lemma put_handle_isolated:
  "put_handle now tok ws ht p t = Inr (h, t') \<Longrightarrow> ws' \<noteq> ws \<Longrightarrow> ws_view ws' t' = ws_view ws' t"
  by (auto simp: put_handle_def ws_view_def fresh_row_def dest!: insert_row_Inr split: sum.splits)

lemma put_unique_isolated:
  "put_handle_unique_signature now tok ws ht p t = Inr (res, t') \<Longrightarrow> ws' \<noteq> ws
   \<Longrightarrow> ws_view ws' t' = ws_view ws' t"
  by (auto simp: put_handle_unique_signature_def ws_view_def fresh_row_def Let_def
      dest!: insert_row_Inr split: sum.splits option.splits)

lemma filter_ws_view: "filter (\<lambda>r. h_workspace_id r = ws \<and> P r) (ws_view ws t) = filter (\<lambda>r. h_workspace_id r = ws \<and> P r) t"
  by (auto simp: ws_view_def intro: filter_cong)

text \<open>
  C8: A workspace reads only its own handles, and only its own rows decide what it reads; and
  nothing a workspace writes (a new handle, a unique-signature insert, a payload merge, a touch)
  changes what any other workspace holds. A handle of another workspace is refused.
\<close>

theorem workspace_isolation:
  assumes ok: "handles_ok t" and other: "ws' \<noteq> ws"
  shows "(get_handle t ws h = Inr r \<longrightarrow> h_workspace_id r = ws \<and> r \<in> set t)
    \<and> (row_of_handle t h = Some r \<and> h_workspace_id r = ws' \<longrightarrow> (\<exists>m. get_handle t ws h = Inl (CrossWorkspaceError m)))
    \<and> list_handles t ws ht = list_handles (ws_view ws t) ws ht
    \<and> find_handle_by_payload_value t ws ty k v = find_handle_by_payload_value (ws_view ws t) ws ty k v
    \<and> (put_handle now tok ws ty p t = Inr (h', t1) \<longrightarrow> ws_view ws' t1 = ws_view ws' t)
    \<and> (put_handle_unique_signature now tok ws ty p t = Inr (res, t2) \<longrightarrow> ws_view ws' t2 = ws_view ws' t)
    \<and> (update_handle now ws h p t = Inr (r', t3) \<longrightarrow> ws_view ws' t3 = ws_view ws' t)
    \<and> (touch_handle now ws h t = Inr t4 \<longrightarrow> ws_view ws' t4 = ws_view ws' t)"
proof (intro conjI impI)
  show "get_handle t ws h = Inr r \<Longrightarrow> h_workspace_id r = ws"
    and "get_handle t ws h = Inr r \<Longrightarrow> r \<in> set t"
    by (simp_all add: get_handle_mem)
  show "\<exists>m. get_handle t ws h = Inl (CrossWorkspaceError m)"
    if "row_of_handle t h = Some r \<and> h_workspace_id r = ws'"
    using that other by (simp add: get_handle_def)
  show "list_handles t ws ht = list_handles (ws_view ws t) ws ht"
    by (simp add: list_handles_def filter_ws_view)
  show "find_handle_by_payload_value t ws ty k v = find_handle_by_payload_value (ws_view ws t) ws ty k v"
    by (simp add: find_handle_by_payload_value_def filter_ws_view)
qed (use ok other in \<open>auto intro: put_handle_isolated put_unique_isolated update_handle_isolated
      touch_handle_isolated\<close>)

definition sample_handles :: handle_table where
  "sample_handles =
     [fresh_row 1 ''a'' ''alice'' OBS [(''signature'', JStr ''s1'')],
      fresh_row 2 ''b'' ''bob'' AOI []]"

lemma sample_handles_ok: "handles_ok sample_handles"
  by (simp add: sample_handles_def handles_ok_def fresh_row_def mint_handle_def signature_of_def
      payload_text_def)

lemma workspace_isolation_witness:
  "(case put_handle_unique_signature 5 ''c'' ''bob'' OBS [(''signature'', JStr ''s1'')] sample_handles of
      Inl _ \<Rightarrow> False
    | Inr (res, t2) \<Rightarrow> ws_view ''alice'' t2 = ws_view ''alice'' sample_handles)
   \<and> list_handles sample_handles ''bob'' None = list_handles (ws_view ''bob'' sample_handles) ''bob'' None"
proof -
  let ?r = "fresh_row 5 ''c'' ''bob'' OBS [(''signature'', JStr ''s1'')]"
  have "put_handle_unique_signature 5 ''c'' ''bob'' OBS [(''signature'', JStr ''s1'')] sample_handles
      = Inr ((?r, True), sample_handles @ [?r])"
    by (simp add: put_handle_unique_signature_def insert_row_def row_insert_def index_conflict_def
        sample_handles_def fresh_row_def mint_handle_def row_of_handle_def row_get_def
        signature_of_def payload_text_def jget_def Let_def)
  then show ?thesis
    using workspace_isolation [of sample_handles "''alice''" "''bob''"] sample_handles_ok by simp
qed

section \<open>Deduplication by signature (PRD 020)\<close>

lemma find_by_signature:
  assumes "handles_ok t" and "x \<in> set t" and "h_workspace_id x = ws" and "signature_of x = Some s"
  shows "find_handle_by_payload_value t ws OBS ''signature'' s = Some x"
proof -
  let ?f = "filter (\<lambda>r. h_workspace_id r = ws \<and> h_type r = OBS \<and> payload_text r ''signature'' = Some s) t"
  have x: "x \<in> set ?f" using assms by (auto simp: signature_of_def split: if_splits)
  have "y = x" if "y \<in> set ?f" for y
    using that assms unfolding handles_ok_def by (auto simp: signature_of_def)
  moreover have "?f \<noteq> []" using x by (metis empty_iff empty_set)
  then obtain y where y: "newest h_created_at ?f = Some y"
    using newest_None_iff [of h_created_at ?f] by blast
  ultimately show ?thesis
    using newest_Some [OF y] by (simp add: find_handle_by_payload_value_def)
qed

lemma signature_of_fresh:
  "map_of p ''signature'' = Some (JStr s) \<Longrightarrow> signature_of (fresh_row now tok ws OBS p) = Some s"
  by (simp add: signature_of_def payload_text_def fresh_row_def jget_def)

lemma put_unique_present:
  assumes "handles_ok t" and "map_of p ''signature'' = Some (JStr s)"
    and "x \<in> set t" and "h_workspace_id x = ws" and "signature_of x = Some s"
  shows "put_handle_unique_signature now tok ws OBS p t = Inr ((x, False), t)"
proof -
  have "insert_row (fresh_row now tok ws OBS p) t = Inl (IntegrityError ''handles'')"
  proof (cases "row_of_handle t (mint_handle OBS tok)")
    case None
    then have "h_handle x \<noteq> mint_handle OBS tok"
      using assms(1,3) by (auto dest: row_of_handle_of_mem)
    then have "index_conflict (fresh_row now tok ws OBS p) t"
      using assms by (auto simp: index_conflict_def list_ex_iff signature_of_fresh)
        (auto simp: fresh_row_def)
    then show ?thesis by (simp add: insert_row_def)
  qed (simp add: insert_row_def fresh_row_def)
  then show ?thesis
    using assms by (simp add: put_handle_unique_signature_def find_by_signature Let_def)
qed

lemma put_unique_absent:
  assumes "map_of p ''signature'' = Some (JStr s)"
    and "\<forall>x \<in> set t. h_workspace_id x = ws \<longrightarrow> signature_of x \<noteq> Some s"
    and "row_of_handle t (mint_handle OBS tok) = None"
  shows "put_handle_unique_signature now tok ws OBS p t =
    Inr ((fresh_row now tok ws OBS p, True), t @ [fresh_row now tok ws OBS p])"
proof -
  have "\<not> index_conflict (fresh_row now tok ws OBS p) t"
    using assms(1,2) by (auto simp: index_conflict_def list_ex_iff signature_of_fresh)
      (auto simp: fresh_row_def)
  moreover have "row_of_handle t (h_handle (fresh_row now tok ws OBS p)) = None"
    using assms(3) by (simp add: fresh_row_def)
  ultimately show ?thesis
    using assms(1) by (simp add: put_handle_unique_signature_def insert_row_def row_insert_def Let_def)
qed

text \<open>Callers racing with the same request: the database runs their inserts in some order.\<close>

fun race :: "time \<Rightarrow> string \<Rightarrow> dict \<Rightarrow> string list \<Rightarrow> handle_table
    \<Rightarrow> exn + ((handle_row \<times> bool) list \<times> handle_table)" where
  "race now ws p [] t = Inr ([], t)"
| "race now ws p (tok # toks) t =
     (case put_handle_unique_signature now tok ws OBS p t of
        Inl e \<Rightarrow> Inl e
      | Inr (res, t') \<Rightarrow>
          (case race now ws p toks t' of
             Inl e \<Rightarrow> Inl e
           | Inr (ress, t'') \<Rightarrow> Inr (res # ress, t'')))"

lemma race_present:
  assumes "handles_ok t" and "map_of p ''signature'' = Some (JStr s)"
    and "x \<in> set t" and "h_workspace_id x = ws" and "signature_of x = Some s"
  shows "race now ws p toks t = Inr (replicate (length toks) (x, False), t)"
  by (induction toks) (simp_all add: put_unique_present [OF assms])

text \<open>
  C9: whatever order the database picks, callers that submit the same signature in a workspace
  all receive the same handle, and exactly the first of them is told that it created it (none, if
  the handle existed before); none of them fails, provided the first suffix is fresh.
\<close>

theorem unique_signature_race:
  assumes "handles_ok t" and "map_of p ''signature'' = Some (JStr s)"
    and "row_of_handle t (mint_handle OBS tok) = None"
  shows "\<exists>row created t'.
     race now ws p (tok # toks) t = Inr ((row, created) # replicate (length toks) (row, False), t')
     \<and> handles_ok t' \<and> row \<in> set t' \<and> h_workspace_id row = ws \<and> signature_of row = Some s
     \<and> created = (\<forall>x \<in> set t. h_workspace_id x = ws \<longrightarrow> signature_of x \<noteq> Some s)"
proof (cases "\<forall>x \<in> set t. h_workspace_id x = ws \<longrightarrow> signature_of x \<noteq> Some s")
  case True
  let ?r = "fresh_row now tok ws OBS p"
  have put: "put_handle_unique_signature now tok ws OBS p t = Inr ((?r, True), t @ [?r])"
    using assms(2) True assms(3) by (rule put_unique_absent)
  then have ok: "handles_ok (t @ [?r])" using assms(1) by (rule put_unique_ok)
  have sig: "signature_of ?r = Some s" "h_workspace_id ?r = ws"
    using assms(2) by (simp_all add: signature_of_fresh) (simp add: fresh_row_def)
  have "race now ws p toks (t @ [?r]) = Inr (replicate (length toks) (?r, False), t @ [?r])"
    using ok assms(2) sig by (intro race_present) auto
  with put ok sig True show ?thesis by auto
next
  case False
  then obtain x where x: "x \<in> set t" "h_workspace_id x = ws" "signature_of x = Some s" by blast
  have "put_handle_unique_signature now tok ws OBS p t = Inr ((x, False), t)"
    using assms(1,2) x by (rule put_unique_present)
  moreover have "race now ws p toks t = Inr (replicate (length toks) (x, False), t)"
    using assms(1,2) x by (rule race_present)
  ultimately show ?thesis using assms(1) x False by auto
qed

lemma unique_signature_race_witness:
  "\<exists>row t'. race 3 ''bob'' [(''signature'', JStr ''s1'')] [''x'', ''y''] sample_handles
      = Inr ([(row, True), (row, False)], t') \<and> handles_ok t'"
proof -
  have "map_of [(''signature'', JStr ''s1'')] ''signature'' = Some (JStr ''s1'')"
    and "row_of_handle sample_handles (mint_handle OBS ''x'') = None"
    and "\<forall>x \<in> set sample_handles. h_workspace_id x = ''bob'' \<longrightarrow> signature_of x \<noteq> Some ''s1''"
    by (simp_all add: sample_handles_def mint_handle_def row_of_handle_def row_get_def fresh_row_def
        signature_of_def)
  then show ?thesis
    using unique_signature_race [OF sample_handles_ok, of "[(''signature'', JStr ''s1'')]" "''s1''" "''x''"
        3 "''bob''" "[''y'']"] by fastforce
qed

end
