(* ===== verification/PyData.thy ===== *)
theory PyData
  imports Workspace
begin

text \<open>
  Python's dynamic access to JSON values (\<open>x.get(k, d)\<close>, \<open>x[k]\<close>, iteration, \<open>or\<close>) with the exceptions
  it raises on a value of the wrong kind, and computations that may raise. The components that read
  foreign metadata or stored JSON are written with these, so that a malformed document is an error
  value of the model exactly where it is an exception of the code.
\<close>

named_theorems sum_simps

section \<open>Computations that may raise\<close>

definition s_bind :: "'e + 'a \<Rightarrow> ('a \<Rightarrow> 'e + 'b) \<Rightarrow> 'e + 'b" where
  "s_bind m f = (case m of Inl e \<Rightarrow> Inl e | Inr a \<Rightarrow> f a)"

lemma s_bind_simps [simp, sum_simps]: "s_bind (Inl e) f = Inl e" "s_bind (Inr a) f = f a"
  by (simp_all add: s_bind_def)

lemma s_bind_Inr_iff [sum_simps]: "s_bind m f = Inr b \<longleftrightarrow> (\<exists>a. m = Inr a \<and> f a = Inr b)"
  by (cases m) simp_all

lemma s_bind_Inl_iff [sum_simps]: "s_bind m f = Inl e \<longleftrightarrow> m = Inl e \<or> (\<exists>a. m = Inr a \<and> f a = Inl e)"
  by (cases m) simp_all

lemma s_bind_cong [fundef_cong]:
  "m = m' \<Longrightarrow> (\<And>a. m' = Inr a \<Longrightarrow> f a = f' a) \<Longrightarrow> s_bind m f = s_bind m' f'"
  by (cases m') simp_all

fun s_each :: "('a \<Rightarrow> 'e + 'b) \<Rightarrow> 'a list \<Rightarrow> 'e + 'b list" where
  "s_each f [] = Inr []"
| "s_each f (x # xs) = s_bind (f x) (\<lambda>y. s_bind (s_each f xs) (\<lambda>ys. Inr (y # ys)))"

lemma s_each_Inr_iff: "s_each f xs = Inr ys \<longleftrightarrow> list_all2 (\<lambda>x y. f x = Inr y) xs ys"
  by (induction xs arbitrary: ys) (auto simp: sum_simps list_all2_Cons1)

lemma s_each_map: "(\<And>x. x \<in> set xs \<Longrightarrow> f (g x) = Inr (h x)) \<Longrightarrow> s_each f (map g xs) = Inr (map h xs)"
  by (induction xs) simp_all

lemma s_each_cong [fundef_cong]:
  "xs = ys \<Longrightarrow> (\<And>x. x \<in> set ys \<Longrightarrow> f x = g x) \<Longrightarrow> s_each f xs = s_each g ys"
proof (induction xs arbitrary: ys)
  case Nil
  then show ?case by simp
next
  case (Cons x xs)
  then show ?case by (cases ys) simp_all
qed

section \<open>Access\<close>

definition AttributeError :: "string \<Rightarrow> exn" where
  "AttributeError name = LibErr (OtherClass ''AttributeError'') [''object has no attribute '' @ py_repr name]"

text \<open>\<open>x.get(k, d)\<close>.\<close>

definition py_get :: "json \<Rightarrow> string \<Rightarrow> json \<Rightarrow> exn + json" where
  "py_get x k d = (case x of JObj m \<Rightarrow> Inr (case map_of m k of None \<Rightarrow> d | Some v \<Rightarrow> v) | _ \<Rightarrow> Inl (AttributeError ''get''))"

text \<open>\<open>x[k]\<close> for a string and for a position.\<close>

definition py_item :: "json \<Rightarrow> string \<Rightarrow> exn + json" where
  "py_item x k =
     (case x of
        JObj m \<Rightarrow> (case map_of m k of None \<Rightarrow> Inl (KeyError k) | Some v \<Rightarrow> Inr v)
      | _ \<Rightarrow> Inl (TypeError ''indices must be integers or slices, not str''))"

definition py_at :: "json \<Rightarrow> nat \<Rightarrow> exn + json" where
  "py_at x i =
     (case x of
        JArr xs \<Rightarrow> if i < length xs then Inr (xs ! i) else Inl (IndexError ''list index out of range'')
      | JStr s \<Rightarrow> if i < length s then Inr (JStr [s ! i]) else Inl (IndexError ''string index out of range'')
      | JObj m \<Rightarrow> Inl (KeyError (show_nat i))
      | _ \<Rightarrow> Inl (TypeError ''object is not subscriptable''))"

text \<open>\<open>for y in x\<close>, \<open>tuple(x)\<close>.\<close>

definition py_iter :: "json \<Rightarrow> exn + json list" where
  "py_iter x = (case py_elems x of None \<Rightarrow> Inl (TypeError ''object is not iterable'') | Some ys \<Rightarrow> Inr ys)"

text \<open>\<open>x.items()\<close>.\<close>

definition py_items :: "json \<Rightarrow> exn + dict" where
  "py_items x = (case x of JObj m \<Rightarrow> Inr m | _ \<Rightarrow> Inl (AttributeError ''items''))"

text \<open>\<open>x or y\<close>.\<close>

definition py_or :: "json \<Rightarrow> json \<Rightarrow> json" where
  "py_or x y = (if truthy x then x else y)"

text \<open>\<open>frozenset(x)\<close>: a list or an object in it cannot be hashed.\<close>

fun hashable :: "json \<Rightarrow> bool" where
  "hashable (JArr _) = False"
| "hashable (JObj _) = False"
| "hashable _ = True"

definition py_frozenset :: "json list \<Rightarrow> exn + json list" where
  "py_frozenset xs = (if list_all hashable xs then Inr (remdups xs) else Inl (TypeError ''unhashable type''))"

text \<open>\<open>str(x)\<close>; the rendering of floats and of nested values is the argument \<open>show_other\<close>.\<close>

definition py_str :: "(json \<Rightarrow> string) \<Rightarrow> json \<Rightarrow> string" where
  "py_str show_other x =
     (case x of
        JStr s \<Rightarrow> s
      | JInt i \<Rightarrow> show_int i
      | JBool b \<Rightarrow> (if b then ''True'' else ''False'')
      | JNull \<Rightarrow> ''None''
      | _ \<Rightarrow> show_other x)"

lemma py_get_obj [simp]: "py_get (JObj m) k d = Inr (case map_of m k of None \<Rightarrow> d | Some v \<Rightarrow> v)"
  by (simp add: py_get_def)

lemma py_item_obj [simp]:
  "py_item (JObj m) k = (case map_of m k of None \<Rightarrow> Inl (KeyError k) | Some v \<Rightarrow> Inr v)"
  by (simp add: py_item_def)

lemma py_iter_arr [simp]: "py_iter (JArr xs) = Inr xs"
  by (simp add: py_iter_def)

lemma py_items_obj [simp]: "py_items (JObj m) = Inr m"
  by (simp add: py_items_def)

lemma py_or_simps [simp]: "truthy x \<Longrightarrow> py_or x y = x" "\<not> truthy x \<Longrightarrow> py_or x y = y"
  by (simp_all add: py_or_def)

lemma jget_simps [simp]: "jget ((k', v) # m) k = (if k = k' then v else jget m k)" "jget [] k = JNull"
  by (simp_all add: jget_def)

end
