(* ===== verification/PyTime.thy ===== *)
theory PyTime
  imports JobState
begin

text \<open>
  Date-times and time ranges (\<open>providers/base.py\<close>: \<open>TimeRange\<close>, \<open>normalize_time_range\<close>,
  \<open>_parse_iso\<close>, \<open>_iso_z\<close>), over a model of Python's \<open>datetime\<close>: the proleptic Gregorian
  calendar, \<open>fromisoformat\<close> with its extended, basic and week forms, \<open>isoformat\<close>, ordering and
  addition of a duration. The lemmas show that the calendar arithmetic is exact, that a time range
  survives being written and read back, and what the normalisation of a range accepts.
\<close>

section \<open>The calendar\<close>

definition is_leap :: "int \<Rightarrow> bool" where
  "is_leap y \<longleftrightarrow> y mod 4 = 0 \<and> (y mod 100 \<noteq> 0 \<or> y mod 400 = 0)"

definition days_in_month :: "int \<Rightarrow> int \<Rightarrow> int" where
  "days_in_month y m =
     (if m = 2 then (if is_leap y then 29 else 28)
      else if m = 4 \<or> m = 6 \<or> m = 9 \<or> m = 11 then 30 else 31)"

definition days_before_year :: "int \<Rightarrow> int" where
  "days_before_year y = (let z = y - 1 in z * 365 + z div 4 - z div 100 + z div 400)"

fun month_start :: "int \<Rightarrow> nat \<Rightarrow> int" where
  "month_start y 0 = 0"
| "month_start y (Suc k) = month_start y k + days_in_month y (int (Suc k))"

text \<open>The ordinal of a date; 1 January of year 1 is day 1.\<close>

definition ymd2ord :: "int \<Rightarrow> int \<Rightarrow> int \<Rightarrow> int" where
  "ymd2ord y m d = days_before_year y + month_start y (nat (m - 1)) + d"

definition valid_date :: "int \<Rightarrow> int \<Rightarrow> int \<Rightarrow> bool" where
  "valid_date y m d \<longleftrightarrow> 1 \<le> y \<and> y \<le> 9999 \<and> 1 \<le> m \<and> m \<le> 12 \<and> 1 \<le> d \<and> d \<le> days_in_month y m"

lemma div_pred: "0 < k \<Longrightarrow> y div k = (y - 1) div k + (if k dvd y then 1 else 0)" for k y :: int
proof (cases "k dvd y")
  case True
  assume k: "0 < k"
  obtain q where q: "y = k * q" using True by blast
  have "(k * q - 1) div k = q - 1"
    using k by (intro int_div_pos_eq [of _ _ _ "k - 1"]) (auto simp: algebra_simps)
  then show ?thesis using k True by (simp add: q)
next
  case False
  assume k: "0 < k"
  then have "0 < y mod k" using False by (metis dvd_eq_mod_eq_0 order_le_less pos_mod_sign)
  moreover have "y mod k < k" using k by simp
  ultimately have "(y - 1) div k = y div k"
    by (intro int_div_pos_eq [of _ _ _ "y mod k - 1"]) (auto simp: algebra_simps)
  then show ?thesis using False by simp
qed

lemma days_before_year_Suc: "days_before_year (y + 1) = days_before_year y + (if is_leap y then 366 else 365)"
proof -
  define div_by where "div_by k \<longleftrightarrow> k dvd y" for k
  define q where "q k = y div k" for k
  define r where "r k = (y - 1) div k" for k
  have d: "\<not> div_by 400 \<or> div_by 100" "\<not> div_by 100 \<or> div_by 4"
    using dvd_trans [of 100 400 y] dvd_trans [of 4 100 y] by (auto simp: div_by_def)
  have leap: "is_leap y \<longleftrightarrow> div_by 4 \<and> (\<not> div_by 100 \<or> div_by 400)"
    by (simp add: is_leap_def dvd_eq_mod_eq_0 div_by_def)
  have e: "q k = r k + (if div_by k then 1 else 0)" if k: "0 < k" for k
    unfolding q_def r_def div_by_def by (rule div_pred [OF k])
  have "q 4 - q 100 + q 400 = r 4 - r 100 + r 400 + (if is_leap y then 1 else 0)"
    using d by (cases "div_by 400"; cases "div_by 100"; cases "div_by 4") (simp_all add: leap e)
  moreover have "days_before_year (y + 1) = y * 365 + q 4 - q 100 + q 400"
    by (simp add: days_before_year_def Let_def q_def)
  moreover have "days_before_year y = (y - 1) * 365 + r 4 - r 100 + r 400"
    by (simp add: days_before_year_def Let_def r_def)
  ultimately show ?thesis by (cases "is_leap y") simp_all
qed

text \<open>The date of an ordinal: the year it falls in, found upwards from a lower bound, then the month.\<close>

lemma days_before_year_less: "days_before_year y < days_before_year (y + 1)"
  by (simp add: days_before_year_Suc)

function year_from :: "int \<Rightarrow> int \<Rightarrow> int" where
  "year_from y n = (if days_before_year (y + 1) < n then year_from (y + 1) n else y)"
  by pat_completeness auto
termination
  by (relation "measure (\<lambda>(y, n). nat (n - days_before_year (y + 1)))")
    (auto simp: days_before_year_less [of "y + 1" for y, simplified])

declare year_from.simps [simp del]

fun month_from :: "int \<Rightarrow> nat \<Rightarrow> int \<Rightarrow> nat \<times> int" where
  "month_from y 0 d = (1, d)"
| "month_from y (Suc k) d =
     (let m = 12 - k in
      if d \<le> days_in_month y (int m) \<or> k = 0 then (m, d)
      else month_from y k (d - days_in_month y (int m)))"

definition ord2ymd :: "int \<Rightarrow> int \<times> int \<times> int" where
  "ord2ymd n =
     (let y = year_from ((n - 1) div 366 + 1) n;
          (m, d) = month_from y 12 (n - days_before_year y)
      in (y, int m, d))"

lemma year_from_bounds:
  "days_before_year y < n \<Longrightarrow>
   days_before_year (year_from y n) < n \<and> n \<le> days_before_year (year_from y n + 1) \<and> y \<le> year_from y n"
proof (induction y n rule: year_from.induct)
  case (1 y n)
  show ?case
  proof (cases "days_before_year (y + 1) < n")
    case True
    then show ?thesis using 1 by (subst (1 2 3) year_from.simps) auto
  next
    case False
    then have "year_from y n = y" by (subst year_from.simps) simp
    then show ?thesis using 1 False by simp
  qed
qed

lemma year_from_start: "1 \<le> n \<Longrightarrow> days_before_year ((n - 1) div 366 + 1) < n"
proof -
  assume n: "1 \<le> n"
  define z where "z = (n - 1) div 366"
  have z0: "0 \<le> z" using n by (simp add: z_def pos_imp_zdiv_nonneg_iff)
  have "z * 366 \<le> n - 1" unfolding z_def
    using mult_div_mod_eq [of 366 "n - 1"] pos_mod_sign [of 366 "n - 1"] by linarith
  moreover have "z div 400 \<le> z div 100" using z0 by (intro zdiv_mono2) auto
  moreover have "z div 4 \<le> z" using zdiv_mono2 [of z 1 4] z0 by simp
  ultimately have "days_before_year (z + 1) < n" by (simp add: days_before_year_def Let_def)
  then show ?thesis by (simp add: z_def)
qed

lemma month_start_12: "month_start y 12 = (if is_leap y then 366 else 365)"
  by (simp add: days_in_month_def eval_nat_numeral)

lemma month_from_correct:
  "k \<le> 11 \<Longrightarrow> 1 \<le> d \<Longrightarrow> month_start y (11 - k) + d \<le> month_start y 12 \<Longrightarrow> month_from y (Suc k) d = (m, r) \<Longrightarrow>
   1 \<le> m \<and> m \<le> 12 \<and> month_start y (m - 1) + r = month_start y (11 - k) + d \<and> 1 \<le> r \<and> r \<le> days_in_month y (int m)"
proof (induction k arbitrary: d)
  case 0
  have "month_start y 12 = month_start y 11 + days_in_month y 12" by (simp add: eval_nat_numeral)
  then show ?case using 0 by auto
next
  case (Suc k)
  have next_month: "month_start y (11 - k) = month_start y (11 - Suc k) + days_in_month y (int (12 - Suc k))"
  proof -
    have "11 - k = Suc (11 - Suc k)" "12 - Suc k = Suc (11 - Suc k)" using Suc.prems(1) by simp_all
    then show ?thesis by simp
  qed
  show ?case
  proof (cases "d \<le> days_in_month y (int (12 - Suc k))")
    case True
    then have "(m, r) = (12 - Suc k, d)" using Suc.prems(4) by (simp add: Let_def)
    then show ?thesis using Suc.prems True by auto
  next
    case False
    then have "month_from y (Suc k) (d - days_in_month y (int (12 - Suc k))) = (m, r)"
      using Suc.prems(4) by (simp add: Let_def)
    then show ?thesis
      using Suc.IH [of "d - days_in_month y (int (12 - Suc k))"] Suc.prems False next_month by auto
  qed
qed

text \<open>The conversion inverts \<open>ymd2ord\<close>, and gives a real date.\<close>

lemma ord2ymd_correct:
  assumes "1 \<le> n" and "ord2ymd n = (y, m, d)"
  shows "ymd2ord y m d = n \<and> 1 \<le> y \<and> 1 \<le> m \<and> m \<le> 12 \<and> 1 \<le> d \<and> d \<le> days_in_month y m"
proof -
  define y0 where "y0 = year_from ((n - 1) div 366 + 1) n"
  have y0: "days_before_year y0 < n" "n \<le> days_before_year (y0 + 1)" "(n - 1) div 366 + 1 \<le> y0"
    using year_from_bounds [OF year_from_start [OF assms(1)]] by (simp_all add: y0_def)
  obtain mm r where mr: "month_from y0 12 (n - days_before_year y0) = (mm, r)" by fastforce
  then have ymd: "y = y0" "m = int mm" "d = r" using assms(2) by (auto simp: ord2ymd_def Let_def y0_def)
  have "1 \<le> mm \<and> mm \<le> 12 \<and> month_start y0 (mm - 1) + r = month_start y0 (11 - 11) + (n - days_before_year y0)
      \<and> 1 \<le> r \<and> r \<le> days_in_month y0 (int mm)"
    by (rule month_from_correct)
      (use y0 mr month_start_12 [of y0] days_before_year_Suc [of y0] in \<open>auto simp: eval_nat_numeral\<close>)
  moreover then have "nat (int mm - 1) = mm - 1" by simp
  moreover have "0 \<le> (n - 1) div 366" using assms(1) by (simp add: pos_imp_zdiv_nonneg_iff)
  ultimately show ?thesis using y0(3) ymd by (simp add: ymd2ord_def)
qed

section \<open>Date-times\<close>

text \<open>A \<open>datetime\<close>; \<open>d_off\<close> is its UTC offset in microseconds, \<open>None\<close> for a naive one.\<close>

record datetime =
  d_year :: int
  d_month :: int
  d_day :: int
  d_hour :: int
  d_minute :: int
  d_second :: int
  d_micro :: int
  d_off :: "int option"

definition day_micros :: int where
  "day_micros = 86400000000"

definition valid_off :: "int option \<Rightarrow> bool" where
  "valid_off z = (case z of None \<Rightarrow> True | Some k \<Rightarrow> \<bar>k\<bar> < day_micros)"

definition valid_dt :: "datetime \<Rightarrow> bool" where
  "valid_dt d \<longleftrightarrow> valid_date (d_year d) (d_month d) (d_day d)
     \<and> 0 \<le> d_hour d \<and> d_hour d < 24 \<and> 0 \<le> d_minute d \<and> d_minute d < 60
     \<and> 0 \<le> d_second d \<and> d_second d < 60 \<and> 0 \<le> d_micro d \<and> d_micro d < 1000000 \<and> valid_off (d_off d)"

text \<open>Microseconds on the date-time's own wall clock.\<close>

definition clock :: "datetime \<Rightarrow> int" where
  "clock d = (((ymd2ord (d_year d) (d_month d) (d_day d) * 24 + d_hour d) * 60 + d_minute d) * 60
     + d_second d) * 1000000 + d_micro d"

text \<open>Comparing or subtracting a naive and an aware date-time is a \<open>TypeError\<close>.\<close>

definition dt_less :: "datetime \<Rightarrow> datetime \<Rightarrow> exn + bool" where
  "dt_less a b =
     (case (d_off a, d_off b) of
        (None, None) \<Rightarrow> Inr (clock a < clock b)
      | (Some j, Some k) \<Rightarrow> Inr (clock a - j < clock b - k)
      | _ \<Rightarrow> Inl (TypeError ''can't compare offset-naive and offset-aware datetimes''))"

definition dt_minus :: "datetime \<Rightarrow> datetime \<Rightarrow> exn + int" where
  "dt_minus a b =
     (case (d_off a, d_off b) of
        (None, None) \<Rightarrow> Inr (clock a - clock b)
      | (Some j, Some k) \<Rightarrow> Inr ((clock a - j) - (clock b - k))
      | _ \<Rightarrow> Inl (TypeError ''can't subtract offset-naive and offset-aware datetimes''))"

text \<open>Adding a duration moves the wall clock; the year must stay between 1 and 9999.\<close>

definition max_ordinal :: int where
  "max_ordinal = 3652059"

definition dt_plus :: "datetime \<Rightarrow> int \<Rightarrow> exn + datetime" where
  "dt_plus d us =
     (let n = clock d + us;
          days = n div day_micros;
          r = n mod day_micros
      in if days < 1 \<or> max_ordinal < days then Inl (LibErr (OtherClass ''OverflowError'') [''date value out of range''])
         else (case ord2ymd days of (y, mo, dy) \<Rightarrow>
           Inr \<lparr>d_year = y, d_month = mo, d_day = dy, d_hour = r div 3600000000,
                d_minute = r div 60000000 mod 60, d_second = r div 1000000 mod 60,
                d_micro = r mod 1000000, d_off = d_off d\<rparr>))"

section \<open>ISO 8601\<close>

subsection \<open>Writing\<close>

fun pad :: "nat \<Rightarrow> nat \<Rightarrow> string" where
  "pad 0 n = []"
| "pad (Suc k) n = pad k (n div 10) @ [digit_char (n mod 10)]"

definition show_off :: "int \<Rightarrow> string" where
  "show_off k =
     (let a = nat \<bar>k\<bar>; s = a div 1000000
      in (if k < 0 then ''-'' else ''+'') @ pad 2 (s div 3600) @ '':'' @ pad 2 (s div 60 mod 60) @
         (if s mod 60 = 0 \<and> a mod 1000000 = 0 then []
          else '':'' @ pad 2 (s mod 60) @ (if a mod 1000000 = 0 then [] else ''.'' @ pad 6 (a mod 1000000))))"

definition isoformat :: "datetime \<Rightarrow> string" where
  "isoformat d =
     pad 4 (nat (d_year d)) @ ''-'' @ pad 2 (nat (d_month d)) @ ''-'' @ pad 2 (nat (d_day d)) @ ''T'' @
     pad 2 (nat (d_hour d)) @ '':'' @ pad 2 (nat (d_minute d)) @ '':'' @ pad 2 (nat (d_second d)) @
     (if d_micro d = 0 then [] else ''.'' @ pad 6 (nat (d_micro d))) @
     (case d_off d of None \<Rightarrow> [] | Some k \<Rightarrow> show_off k)"

subsection \<open>Reading\<close>

text \<open>Exactly \<open>k\<close> ASCII digits.\<close>

definition is_digit :: "char \<Rightarrow> bool" where
  "is_digit c \<longleftrightarrow> 48 \<le> (of_char c :: nat) \<and> (of_char c :: nat) \<le> 57"

fun digits :: "nat \<Rightarrow> nat \<Rightarrow> string \<Rightarrow> (nat \<times> string) option" where
  "digits acc 0 s = Some (acc, s)"
| "digits acc (Suc k) [] = None"
| "digits acc (Suc k) (c # s) = (if is_digit c then digits (acc * 10 + (of_char c - 48)) k s else None)"

text \<open>\<open>f\<close>, \<open>ff\<close>, ..., \<open>ffffff\<close> and further digits, which are cut off.\<close>

definition fraction :: "string \<Rightarrow> nat option" where
  "fraction s =
     (if s \<noteq> [] \<and> list_all is_digit s
      then map_option fst (digits 0 6 (take 6 (s @ replicate 6 CHR ''0''))) else None)"

text \<open>\<open>HH[[:]MM[[:]SS[.f]]]\<close>: hour, minute, second, microsecond. The colons are all there or none.\<close>

definition hms :: "string \<Rightarrow> (nat \<times> nat \<times> nat \<times> nat) option" where
  "hms s =
     (case digits 0 2 s of
        None \<Rightarrow> None
      | Some (h, []) \<Rightarrow> Some (h, 0, 0, 0)
      | Some (h, c1 # s1) \<Rightarrow>
          let colon = (c1 = CHR '':'') in
          case digits 0 2 (if colon then s1 else c1 # s1) of
            None \<Rightarrow> None
          | Some (m, []) \<Rightarrow> Some (h, m, 0, 0)
          | Some (m, c2 # s2) \<Rightarrow>
              if colon \<and> c2 \<noteq> CHR '':'' then None
              else (case digits 0 2 (if colon then s2 else c2 # s2) of
                      None \<Rightarrow> None
                    | Some (sec, []) \<Rightarrow> Some (h, m, sec, 0)
                    | Some (sec, c3 # s3) \<Rightarrow>
                        if c3 = CHR ''.'' \<or> c3 = CHR '','' then
                          map_option (\<lambda>us. (h, m, sec, us)) (fraction s3)
                        else None))"

definition is_zone_char :: "char \<Rightarrow> bool" where
  "is_zone_char c \<longleftrightarrow> c = CHR ''+'' \<or> c = CHR ''-'' \<or> c = CHR ''Z''"

definition zone :: "string \<Rightarrow> int option option" where
  "zone s =
     (case s of
        [] \<Rightarrow> Some None
      | c # t \<Rightarrow>
          if c = CHR ''Z'' then (if t = [] then Some (Some 0) else None)
          else (case hms t of
                  None \<Rightarrow> None
                | Some (h, m, sec, us) \<Rightarrow>
                    let k = int ((h * 3600 + m * 60 + sec) * 1000000 + us);
                        z = (if c = CHR ''-'' then - k else k)
                    in if \<bar>z\<bar> < day_micros then Some (Some z) else None))"

text \<open>The Monday of ISO week 1, and the date of a week day.\<close>

definition week1_monday :: "int \<Rightarrow> int" where
  "week1_monday y =
     (let first = ymd2ord y 1 1; wd = (first + 6) mod 7; monday = first - wd
      in if wd > 3 then monday + 7 else monday)"

definition iso_week_date :: "nat \<Rightarrow> nat \<Rightarrow> nat \<Rightarrow> (int \<times> int \<times> int) option" where
  "iso_week_date y w d =
     (let weeks = (week1_monday (int y + 1) - week1_monday (int y)) div 7
      in if 1 \<le> y \<and> 1 \<le> w \<and> int w \<le> weeks \<and> 1 \<le> d \<and> d \<le> 7
         then Some (ord2ymd (week1_monday (int y) + (int w - 1) * 7 + (int d - 1))) else None)"

text \<open>\<open>YYYY-MM-DD\<close>, \<open>YYYYMMDD\<close>, \<open>YYYY-Www[-D]\<close> or \<open>YYYYWww[D]\<close>, all of the text.\<close>

definition iso_date :: "string \<Rightarrow> (int \<times> int \<times> int) option" where
  "iso_date s =
     (case digits 0 4 s of
        None \<Rightarrow> None
      | Some (y, s1) \<Rightarrow>
          let dash = py_startswith s1 ''-''; s2 = (if dash then tl s1 else s1) in
          if py_startswith s2 ''W'' then
            (case digits 0 2 (tl s2) of
               None \<Rightarrow> None
             | Some (w, s3) \<Rightarrow>
                 if s3 = [] then iso_week_date y w 1
                 else if dash \<and> \<not> py_startswith s3 ''-'' then None
                 else (case digits 0 1 (if dash then tl s3 else s3) of
                         Some (d, []) \<Rightarrow> iso_week_date y w d
                       | _ \<Rightarrow> None))
          else
            (case digits 0 2 s2 of
               None \<Rightarrow> None
             | Some (m, s3) \<Rightarrow>
                 if dash \<and> \<not> py_startswith s3 ''-'' then None
                 else (case digits 0 2 (if dash then tl s3 else s3) of
                         Some (d, []) \<Rightarrow> Some (int y, int m, int d)
                       | _ \<Rightarrow> None)))"

text \<open>How many characters the date takes; any one character separates it from the time.\<close>

definition date_length :: "string \<Rightarrow> nat" where
  "date_length s =
     (let n = length s in
      if n = 7 then 7
      else if s ! 4 = CHR ''-'' then
        (if s ! 5 = CHR ''W'' then
           (if n > 8 \<and> s ! 8 = CHR ''-'' then (if n > 10 \<and> is_digit (s ! 10) then 8 else 10) else 8)
         else 10)
      else if s ! 4 = CHR ''W'' then
        (let k = 7 + length (takeWhile is_digit (drop 7 s))
         in if k < 9 then k else if even k then 7 else 8)
      else 8)"

definition fromisoformat :: "string \<Rightarrow> exn + datetime" where
  "fromisoformat s =
     (let bad = Inl (ValueError (''Invalid isoformat string: '' @ py_repr s)) in
      if length s < 7 then bad
      else let k = date_length s; rest = drop (k + 1) s in
        case iso_date (take k s) of
          None \<Rightarrow> bad
        | Some (y, mo, dy) \<Rightarrow>
            case (if length s \<le> k then Some ((0, 0, 0, 0), None)
                  else case (hms (takeWhile (\<lambda>c. \<not> is_zone_char c) rest), zone (dropWhile (\<lambda>c. \<not> is_zone_char c) rest)) of
                         (Some t, Some z) \<Rightarrow> Some (t, z)
                       | _ \<Rightarrow> None) of
              None \<Rightarrow> bad
            | Some ((h, mi, sec, us), z) \<Rightarrow>
                let d = \<lparr>d_year = y, d_month = mo, d_day = dy, d_hour = int h, d_minute = int mi,
                         d_second = int sec, d_micro = int us, d_off = z\<rparr>
                in if valid_dt d then Inr d else bad)"

section \<open>Time ranges\<close>

definition iso_z :: "datetime \<Rightarrow> string" where
  "iso_z d = (if d_off d = None then isoformat d @ ''Z'' else py_replace ''+00:00'' ''Z'' (isoformat d))"

definition parse_iso :: "string \<Rightarrow> exn + datetime" where
  "parse_iso s = fromisoformat (py_replace ''Z'' ''+00:00'' s)"

record time_range =
  tr_start :: datetime
  tr_end :: datetime

definition to_cmr :: "time_range \<Rightarrow> string" where
  "to_cmr r = iso_z (tr_start r) @ ''/'' @ iso_z (tr_end r)"

definition from_cmr :: "string \<Rightarrow> exn + time_range" where
  "from_cmr s =
     (case py_partition CHR ''/'' s of
        (a, _, b) \<Rightarrow>
          if b = [] then Inl (ValueError (''not a CMR temporal range (no '' @ py_repr ''/'' @ ''): '' @ py_repr s))
          else (case parse_iso a of
                  Inl e \<Rightarrow> Inl e
                | Inr x \<Rightarrow> (case parse_iso b of Inl e \<Rightarrow> Inl e | Inr y \<Rightarrow> Inr \<lparr>tr_start = x, tr_end = y\<rparr>)))"

definition parse_endpoint :: "string \<Rightarrow> exn + datetime" where
  "parse_endpoint s =
     (case parse_iso s of
        Inl (ValueError m) \<Rightarrow> Inl (ValueError (''time_range endpoint '' @ py_repr s @ '' is not ISO-8601. '' ))
      | r \<Rightarrow> r)"

definition parse_bound :: "string \<Rightarrow> exn + datetime option" where
  "parse_bound s =
     (if s = [] then Inr None
      else (case parse_endpoint s of Inl e \<Rightarrow> Inl e | Inr d \<Rightarrow> Inr (Some d)))"

definition normalize_time_range :: "string option \<Rightarrow> bool \<Rightarrow> exn + string" where
  "normalize_time_range v allow_open =
     (case v of
        None \<Rightarrow> Inl (ValueError ''time_range is required and cannot be empty. '')
      | Some value \<Rightarrow>
          let text = py_strip value in
          if text = [] then Inl (ValueError ''time_range is required and cannot be empty. '')
          else if \<not> py_contains text ''/'' \<and> \<not> py_contains text '','' then
            Inl (ValueError (''time_range '' @ py_repr value @ '' has no delimiter. ''))
          else
            let delim = (if py_contains text ''/'' then CHR ''/'' else CHR '','');
                a = py_strip (fst (py_partition delim text));
                b = py_strip (snd (snd (py_partition delim text)))
            in if a = [] \<and> b = [] then
                 Inl (ValueError (''time_range '' @ py_repr value @ '' needs at least one bound. ''))
               else if \<not> allow_open \<and> (a = [] \<or> b = []) then
                 Inl (ValueError (''time_range '' @ py_repr value @ '' must specify both a start and an end. ''))
               else
                 (case parse_bound a of
                    Inl e \<Rightarrow> Inl e
                  | Inr da \<Rightarrow>
                      (case parse_bound b of
                         Inl e \<Rightarrow> Inl e
                       | Inr db \<Rightarrow>
                           (case (da, db) of
                              (Some x, Some y) \<Rightarrow>
                                (case dt_less y x of
                                   Inl e \<Rightarrow> Inl e
                                 | Inr True \<Rightarrow> Inl (ValueError (''time_range '' @ py_repr value @ '' has end before start. ''))
                                 | Inr False \<Rightarrow> Inr (a @ ''/'' @ b))
                            | _ \<Rightarrow> Inr (a @ ''/'' @ b)))))"

section \<open>Reading back what was written\<close>

lemma digit_char_code: "(of_char (digit_char (n mod 10)) :: nat) = 48 + n mod 10"
proof -
  have "(48 + n mod 10) mod 256 = 48 + n mod 10" by (rule mod_less) (use mod_less_divisor [of 10 n] in linarith)
  then show ?thesis by (simp only: digit_char.simps of_char_of)
qed

lemma is_digit_char [simp]: "is_digit (digit_char (n mod 10))"
  unfolding is_digit_def digit_char_code using mod_less_divisor [of 10 n] by simp

declare digit_char.simps [simp del]

lemma length_pad [simp]: "length (pad k n) = k"
  by (induction k n rule: pad.induct) simp_all

lemma pad_digits: "c \<in> set (pad k n) \<Longrightarrow> is_digit c"
  by (induction k n rule: pad.induct) auto

lemma digits_add: "digits acc (j + k) s = (case digits acc j s of None \<Rightarrow> None | Some (a, t) \<Rightarrow> digits a k t)"
  by (induction acc j s rule: digits.induct) auto

lemma digits_pad: "n < 10 ^ k \<Longrightarrow> digits acc k (pad k n @ s) = Some (acc * 10 ^ k + n, s)"
proof (induction k arbitrary: n s)
  case 0
  then show ?case by simp
next
  case (Suc k)
  have "n div 10 < 10 ^ k" using Suc.prems by (simp add: div_less_iff_less_mult mult.commute)
  then have *: "digits acc k (pad k (n div 10) @ digit_char (n mod 10) # s)
      = Some (acc * 10 ^ k + n div 10, digit_char (n mod 10) # s)"
    by (rule Suc.IH)
  have "digits acc (Suc k) (pad (Suc k) n @ s)
      = digits acc (k + 1) (pad k (n div 10) @ digit_char (n mod 10) # s)" by simp
  also have "\<dots> = Some ((acc * 10 ^ k + n div 10) * 10 + n mod 10, s)"
    unfolding digits_add * by (simp add: digit_char_code)
  also have "(acc * 10 ^ k + n div 10) * 10 + n mod 10 = acc * 10 ^ Suc k + n"
    using div_mult_mod_eq [of n 10] by (simp add: algebra_simps)
  finally show ?case .
qed

lemmas digits_pad_0 = digits_pad [of _ _ 0, simplified]

lemma digits_pad_end: "n < 10 ^ k \<Longrightarrow> digits 0 k (pad k n) = Some (n, [])"
  using digits_pad_0 [of n k "[]"] by simp

lemma pad_not_Nil [simp]: "0 < k \<Longrightarrow> pad k n \<noteq> []"
  using length_pad [of k n] by (metis list.size(3) less_irrefl)

lemma pad_Cons: "0 < k \<Longrightarrow> \<exists>c t. pad k n = c # t \<and> is_digit c"
  using pad_digits [of _ k n] by (cases "pad k n") (auto simp flip: length_0_conv)

lemma not_digit [simp]:
  "\<not> is_digit CHR '':''" "\<not> is_digit CHR ''-''" "\<not> is_digit CHR ''+''" "\<not> is_digit CHR ''.''"
  "\<not> is_digit CHR ''Z''" "\<not> is_digit CHR ''T''" "\<not> is_digit CHR ''W''" "\<not> is_digit CHR ''/''"
  by (simp_all add: is_digit_def)

lemma digit_not_zone: "is_digit c \<Longrightarrow> \<not> is_zone_char c"
  by (auto simp: is_zone_char_def)

lemma fraction_pad: "n < 1000000 \<Longrightarrow> fraction (pad 6 n) = Some n"
  by (simp add: fraction_def list_all_iff pad_digits digits_pad_end)

text \<open>The two forms of a time of day that are written.\<close>

definition hms_text :: "nat \<Rightarrow> nat \<Rightarrow> nat \<Rightarrow> nat \<Rightarrow> string" where
  "hms_text h m s us = pad 2 h @ '':'' @ pad 2 m @ '':'' @ pad 2 s @ (if us = 0 then [] else ''.'' @ pad 6 us)"

lemma hms_text_read:
  "h < 100 \<Longrightarrow> m < 100 \<Longrightarrow> s < 100 \<Longrightarrow> us < 1000000 \<Longrightarrow> hms (hms_text h m s us) = Some (h, m, s, us)"
  by (simp add: hms_def hms_text_def digits_pad_0 digits_pad_end fraction_pad)

lemma hm_text_read: "h < 100 \<Longrightarrow> m < 100 \<Longrightarrow> hms (pad 2 h @ '':'' @ pad 2 m) = Some (h, m, 0, 0)"
  by (simp add: hms_def digits_pad_0 digits_pad_end)

lemma hms_text_no_zone: "c \<in> set (hms_text h m s us) \<Longrightarrow> \<not> is_zone_char c"
  by (auto simp: hms_text_def is_zone_char_def dest: pad_digits split: if_splits)

lemma show_off_cases:
  fixes k :: int
  defines "a \<equiv> nat \<bar>k\<bar>"
  shows "show_off k = (if k < 0 then CHR ''-'' else CHR ''+'') #
    (if a div 1000000 mod 60 = 0 \<and> a mod 1000000 = 0
     then pad 2 (a div 1000000 div 3600) @ '':'' @ pad 2 (a div 1000000 div 60 mod 60)
     else hms_text (a div 1000000 div 3600) (a div 1000000 div 60 mod 60) (a div 1000000 mod 60) (a mod 1000000))"
  by (simp add: show_off_def a_def Let_def hms_text_def)

lemma zone_show_off:
  assumes "\<bar>k\<bar> < day_micros"
  shows "zone (show_off k) = Some (Some k)"
proof -
  define a where "a = nat \<bar>k\<bar>"
  define h where "h = a div 1000000 div 3600"
  define m where "m = a div 1000000 div 60 mod 60"
  define s where "s = a div 1000000 mod 60"
  define us where "us = a mod 1000000"
  have "a < 86400000000" using assms by (simp add: a_def day_micros_def)
  then have h: "h < 100" by (simp add: h_def div_less_iff_less_mult)
  have rest: "m < 100" "s < 100" "us < 1000000"
    unfolding m_def s_def us_def by (rule less_trans [OF mod_less_divisor], simp_all)
  define b where "b = a div 1000000"
  have "b div 3600 * 3600 + b div 60 mod 60 * 60 + b mod 60 = b"
  proof -
    have "b div 3600 = b div 60 div 60" by (simp add: div_mult2_eq [symmetric])
    then show ?thesis using div_mult_mod_eq [of b 60] div_mult_mod_eq [of "b div 60" 60] by linarith
  qed
  then have sum: "(h * 3600 + m * 60 + s) * 1000000 + us = a"
    using div_mult_mod_eq [of a 1000000] by (simp add: h_def m_def s_def us_def b_def)
  have tail: "tl (show_off k) = (if s = 0 \<and> us = 0 then pad 2 h @ '':'' @ pad 2 m else hms_text h m s us)"
    by (simp only: show_off_cases list.sel h_def m_def s_def us_def a_def)
  have parsed: "hms (tl (show_off k)) = Some (h, m, s, us)"
    unfolding tail using hm_text_read [OF h rest(1)] hms_text_read [OF h rest] by (simp split: if_splits)
  have hd: "show_off k = (if k < 0 then CHR ''-'' else CHR ''+'') # tl (show_off k)"
    by (simp add: show_off_cases)
  have "zone (show_off k) = (let z = (if k < 0 then - int a else int a) in
      if \<bar>z\<bar> < day_micros then Some (Some z) else None)"
    by (subst hd) (simp only: zone_def list.case parsed option.case prod.case sum Let_def, simp)
  also have "(if k < 0 then - int a else int a) = k" by (simp add: a_def)
  finally show ?thesis using assms by simp
qed

lemma off_text_zone:
  "takeWhile (\<lambda>c. \<not> is_zone_char c) (case z of None \<Rightarrow> [] | Some k \<Rightarrow> show_off k) = []"
  by (simp add: show_off_cases is_zone_char_def split: option.splits)

definition date_text :: "datetime \<Rightarrow> string" where
  "date_text d = pad 4 (nat (d_year d)) @ ''-'' @ pad 2 (nat (d_month d)) @ ''-'' @ pad 2 (nat (d_day d))"

definition clock_text :: "datetime \<Rightarrow> string" where
  "clock_text d = hms_text (nat (d_hour d)) (nat (d_minute d)) (nat (d_second d)) (nat (d_micro d))"

definition off_text :: "datetime \<Rightarrow> string" where
  "off_text d = (case d_off d of None \<Rightarrow> [] | Some k \<Rightarrow> show_off k)"

lemma isoformat_parts:
  "0 \<le> d_micro d \<Longrightarrow> isoformat d = date_text d @ CHR ''T'' # clock_text d @ off_text d"
  by (simp add: isoformat_def date_text_def clock_text_def off_text_def hms_text_def)

lemma length_date_text [simp]: "length (date_text d) = 10"
  by (simp add: date_text_def)

lemma valid_dt_bounds:
  assumes "valid_dt d"
  shows "nat (d_year d) < 10 ^ 4" "nat (d_month d) < 10 ^ 2" "nat (d_day d) < 10 ^ 2"
    "nat (d_hour d) < 100" "nat (d_minute d) < 100" "nat (d_second d) < 100" "nat (d_micro d) < 1000000"
    "0 \<le> d_year d" "0 \<le> d_month d" "0 \<le> d_day d" "0 \<le> d_hour d" "0 \<le> d_minute d" "0 \<le> d_second d" "0 \<le> d_micro d"
proof -
  have "d_day d < 100"
    using assms by (auto simp: valid_dt_def valid_date_def days_in_month_def split: if_splits)
  then show "nat (d_day d) < 10 ^ 2" by simp
qed (use assms in \<open>auto simp: valid_dt_def valid_date_def\<close>)

lemma iso_date_text:
  assumes "valid_dt d"
  shows "iso_date (date_text d) = Some (d_year d, d_month d, d_day d)"
proof -
  note b = valid_dt_bounds [OF assms]
  obtain c t where c: "pad 2 (nat (d_month d)) = c # t" "is_digit c"
    using pad_Cons [of 2 "nat (d_month d)"] by auto
  have y: "digits 0 4 (date_text d) = Some (nat (d_year d), ''-'' @ pad 2 (nat (d_month d)) @ ''-'' @ pad 2 (nat (d_day d)))"
    unfolding date_text_def by (rule digits_pad_0 [OF b(1)])
  have m: "digits 0 2 (pad 2 (nat (d_month d)) @ ''-'' @ pad 2 (nat (d_day d))) = Some (nat (d_month d), ''-'' @ pad 2 (nat (d_day d)))"
    by (rule digits_pad_0 [OF b(2)])
  have w: "\<not> py_startswith (pad 2 (nat (d_month d)) @ ''-'' @ pad 2 (nat (d_day d))) ''W''"
    using c by auto
  show ?thesis
    unfolding iso_date_def y by (simp add: w [simplified] m [simplified] digits_pad_end [OF b(3)] b)
qed

lemma date_length_text:
  assumes "valid_dt d"
  shows "date_length (date_text d @ CHR ''T'' # r) = 10"
proof -
  obtain c t where c: "pad 2 (nat (d_month d)) = c # t" "is_digit c" using pad_Cons [of 2 "nat (d_month d)"] by auto
  have "(date_text d @ CHR ''T'' # r) ! 4 = CHR ''-''" by (simp add: date_text_def nth_append)
  moreover have "(date_text d @ CHR ''T'' # r) ! 5 = c" by (simp add: date_text_def nth_append c)
  moreover have "c \<noteq> CHR ''W''" using c(2) by auto
  ultimately show ?thesis by (simp add: date_length_def)
qed

lemma zone_off_text: "valid_dt d \<Longrightarrow> zone (off_text d) = Some (d_off d)"
  by (auto simp: off_text_def zone_show_off valid_dt_def valid_off_def split: option.splits)
    (simp add: zone_def)

lemma fromisoformat_isoformat:
  assumes "valid_dt d"
  shows "fromisoformat (isoformat d) = Inr d"
proof -
  note b = valid_dt_bounds [OF assms]
  have iso: "isoformat d = date_text d @ CHR ''T'' # clock_text d @ off_text d"
    by (rule isoformat_parts) (rule b)
  have len: "date_length (isoformat d) = 10" unfolding iso by (rule date_length_text [OF assms])
  have tw: "takeWhile (\<lambda>c. \<not> is_zone_char c) (clock_text d @ off_text d) = clock_text d"
    by (simp add: takeWhile_append2 clock_text_def hms_text_no_zone off_text_def off_text_zone)
  then have dw: "dropWhile (\<lambda>c. \<not> is_zone_char c) (clock_text d @ off_text d) = off_text d"
    by (metis same_append_eq takeWhile_dropWhile_id)
  have t: "hms (clock_text d) = Some (nat (d_hour d), nat (d_minute d), nat (d_second d), nat (d_micro d))"
    unfolding clock_text_def by (rule hms_text_read) (rule b)+
  have taken: "take 10 (isoformat d) = date_text d" "drop (10 + 1) (isoformat d) = clock_text d @ off_text d"
    by (simp_all add: iso)
  have long: "\<not> length (isoformat d) < 7" "\<not> length (isoformat d) \<le> 10" by (simp_all add: iso)
  have same: "\<lparr>d_year = d_year d, d_month = d_month d, d_day = d_day d, d_hour = int (nat (d_hour d)),
      d_minute = int (nat (d_minute d)), d_second = int (nat (d_second d)), d_micro = int (nat (d_micro d)),
      d_off = d_off d\<rparr> = d"
    using b by simp
  show ?thesis
    unfolding fromisoformat_def Let_def len taken iso_date_text [OF assms] tw dw t zone_off_text [OF assms]
    using long assms by (simp add: same [simplified])
qed

section \<open>Facts about time ranges\<close>

lemma replace_no_match: "c \<notin> set s \<Longrightarrow> py_replace [c] new s = s"
  by (induction s) (auto simp: replace_Nil replace_skip)

lemma replace_char_append:
  "py_replace [c] new (s @ t) = py_replace [c] new s @ py_replace [c] new t"
proof (induction s)
  case Nil
  then show ?case by (simp add: replace_Nil)
next
  case (Cons x s)
  then show ?case
    using replace_match [of "[c]" new] by (cases "x = c") (auto simp: replace_skip)
qed

text \<open>Replacing a text by a fresh character is undone by replacing it back.\<close>

lemma replace_back:
  assumes "old \<noteq> []" and "c \<notin> set s"
  shows "py_replace [c] old (py_replace old [c] s) = s"
  using assms(2)
proof (induction s rule: length_induct)
  case (1 s)
  show ?case
  proof (cases "py_startswith s old")
    case True
    then obtain r where r: "s = old @ r" by (auto simp: startswith_iff_prefix prefix_def)
    then have "py_replace [c] old (py_replace old [c] r) = r" using 1 assms(1) by auto
    then show ?thesis
      using replace_match [of "[c]" old] by (simp add: r replace_match [OF assms(1)])
  next
    case False
    show ?thesis
    proof (cases s)
      case Nil
      then show ?thesis by (simp add: replace_Nil)
    next
      case (Cons x t)
      then have "py_replace [c] old (py_replace old [c] t) = t" using 1 by auto
      moreover have "\<not> py_startswith (x # py_replace old [c] t) [c]" using Cons 1(2) by auto
      ultimately show ?thesis using Cons False by (simp add: replace_skip)
    qed
  qed
qed

lemma replace_chars: "x \<in> set (py_replace old new s) \<Longrightarrow> old \<noteq> [] \<Longrightarrow> x \<in> set s \<union> set new"
proof (induction s rule: length_induct)
  case (1 s)
  show ?case
  proof (cases "py_startswith s old")
    case True
    then obtain r where r: "s = old @ r" by (auto simp: startswith_iff_prefix prefix_def)
    then show ?thesis using 1 by (auto simp: replace_match)
  next
    case False
    then show ?thesis
      using 1 by (cases s) (auto simp: replace_Nil replace_skip)
  qed
qed

definition iso_chars :: "char set" where
  "iso_chars = Collect is_digit \<union> set ''-:.T+''"

lemma pad_chars: "set (pad k n) \<subseteq> iso_chars"
  by (auto simp: iso_chars_def dest: pad_digits)

lemma mark_chars: "CHR ''-'' \<in> iso_chars" "CHR '':'' \<in> iso_chars" "CHR ''.'' \<in> iso_chars"
  "CHR ''T'' \<in> iso_chars" "CHR ''+'' \<in> iso_chars"
  by (simp_all add: iso_chars_def)

lemma hms_chars: "set (hms_text h m s us) \<subseteq> iso_chars"
  by (simp add: hms_text_def pad_chars mark_chars)

lemma off_chars: "set (show_off k) \<subseteq> iso_chars"
  by (simp add: show_off_cases pad_chars hms_chars mark_chars)

lemma isoformat_chars: "set (isoformat d) \<subseteq> iso_chars"
proof -
  have "set (case d_off d of None \<Rightarrow> [] | Some k \<Rightarrow> show_off k) \<subseteq> iso_chars"
    by (cases "d_off d") (simp_all add: off_chars)
  then show ?thesis by (simp add: isoformat_def pad_chars mark_chars)
qed

lemma isoformat_fresh: "CHR ''Z'' \<notin> set (isoformat d) \<and> CHR ''/'' \<notin> set (isoformat d)"
  using isoformat_chars [of d] by (auto simp: iso_chars_def)

lemma iso_z_no_slash: "CHR ''/'' \<notin> set (iso_z d)"
  using isoformat_fresh [of d] replace_chars [of "CHR ''/''" "''+00:00''" "''Z''" "isoformat d"]
  by (auto simp: iso_z_def)

lemma iso_z_not_Nil: "iso_z d \<noteq> []"
proof
  assume n: "iso_z d = []"
  then have "py_replace ''+00:00'' ''Z'' (isoformat d) = []" by (auto simp: iso_z_def split: if_splits)
  then have "isoformat d = []"
    using replace_back [of "''+00:00''" "CHR ''Z''" "isoformat d"] isoformat_fresh [of d] by (simp add: replace_Nil)
  then show False by (simp add: isoformat_def)
qed

text \<open>A naive date-time is written as UTC, and so read back as UTC.\<close>

definition as_utc :: "datetime \<Rightarrow> datetime" where
  "as_utc d = (if d_off d = None then d\<lparr>d_off := Some 0\<rparr> else d)"

lemma valid_as_utc: "valid_dt d \<Longrightarrow> valid_dt (as_utc d)"
  by (simp add: as_utc_def valid_dt_def valid_off_def day_micros_def)

lemma parse_iso_z:
  assumes d: "valid_dt d"
  shows "parse_iso (iso_z d) = Inr (as_utc d)"
proof (cases "d_off d")
  case None
  have "py_replace ''Z'' ''+00:00'' (isoformat d @ ''Z'') = isoformat d @ ''+00:00''"
    using isoformat_fresh [of d] replace_match [of "''Z''" "''+00:00''" "[]"]
    by (simp add: replace_char_append replace_no_match replace_Nil)
  also have "\<dots> = isoformat (as_utc d)"
  proof -
    have zero: "digit_char 0 = CHR ''0''" by (simp add: digit_char.simps char_of_def bit_0)
    have "pad 2 0 = ''00''" by (simp add: numeral_2_eq_2 zero)
    then have "show_off 0 = ''+00:00''" by (simp add: show_off_cases)
    then show ?thesis by (simp add: isoformat_def as_utc_def None)
  qed
  finally show ?thesis
    by (simp add: parse_iso_def iso_z_def None fromisoformat_isoformat valid_as_utc d)
next
  case (Some k)
  then show ?thesis
    using replace_back [of "''+00:00''" "CHR ''Z''" "isoformat d"] isoformat_fresh [of d]
    by (simp add: parse_iso_def iso_z_def fromisoformat_isoformat d as_utc_def)
qed

text \<open>
  A time range survives being written to the text stored with a job and read back: any two
  real date-times come back as the same wall clock and offset, a naive one as UTC, and no range
  becomes an error.
\<close>

theorem time_range_roundtrip:
  assumes "valid_dt (tr_start r)" and "valid_dt (tr_end r)"
  shows "from_cmr (to_cmr r) = Inr \<lparr>tr_start = as_utc (tr_start r), tr_end = as_utc (tr_end r)\<rparr>"
proof -
  have "py_partition CHR ''/'' (to_cmr r) = (iso_z (tr_start r), True, iso_z (tr_end r))"
    unfolding to_cmr_def using partition_split [OF iso_z_no_slash [of "tr_start r"]] by simp
  then show ?thesis
    using assms by (simp add: from_cmr_def iso_z_not_Nil parse_iso_z)
qed

definition sample_dt :: "int \<Rightarrow> int \<Rightarrow> int option \<Rightarrow> datetime" where
  "sample_dt d h z = \<lparr>d_year = 2024, d_month = 2, d_day = d, d_hour = h, d_minute = 30, d_second = 0,
     d_micro = 250000, d_off = z\<rparr>"

lemma time_range_roundtrip_witness:
  "from_cmr (to_cmr \<lparr>tr_start = sample_dt 28 6 None, tr_end = sample_dt 29 23 (Some (-19800000000))\<rparr>)
     = Inr \<lparr>tr_start = sample_dt 28 6 (Some 0), tr_end = sample_dt 29 23 (Some (-19800000000))\<rparr>"
proof -
  let ?r = "\<lparr>tr_start = sample_dt 28 6 None, tr_end = sample_dt 29 23 (Some (-19800000000))\<rparr>"
  have "valid_dt (tr_start ?r)" "valid_dt (tr_end ?r)"
    by (simp_all add: sample_dt_def valid_dt_def valid_date_def days_in_month_def is_leap_def valid_off_def day_micros_def)
  then have "from_cmr (to_cmr ?r) = Inr \<lparr>tr_start = as_utc (tr_start ?r), tr_end = as_utc (tr_end ?r)\<rparr>"
    by (rule time_range_roundtrip)
  then show ?thesis by (simp add: as_utc_def sample_dt_def)
qed

section \<open>What normalisation accepts\<close>

lemma strip_not_spaces: "py_strip s \<noteq> [] \<Longrightarrow> \<not> is_space (hd (py_strip s)) \<and> \<not> is_space (last (py_strip s))"
proof -
  assume n: "py_strip s \<noteq> []"
  define t where "t = dropWhile is_space s"
  have st: "py_strip s = rev (dropWhile is_space (rev t))"
    by (simp add: py_strip_def py_lstrip_def py_rstrip_def t_def)
  have "last (py_strip s) = hd (dropWhile is_space (rev t))" using n by (simp add: st last_rev)
  then have l: "\<not> is_space (last (py_strip s))" using n hd_dropWhile [of is_space "rev t"] by (simp add: st)
  obtain u where u: "rev t = u @ dropWhile is_space (rev t)" by (metis takeWhile_dropWhile_id)
  then have "t = py_strip s @ rev u" by (metis st rev_append rev_rev_ident)
  then have "hd (py_strip s) = hd t" "t \<noteq> []" using n by (metis hd_append2, auto)
  moreover have "\<not> is_space (hd t)" using \<open>t \<noteq> []\<close> unfolding t_def by (metis hd_dropWhile)
  ultimately show ?thesis using l by simp
qed

lemma strip_id: "s = [] \<or> \<not> is_space (hd s) \<and> \<not> is_space (last s) \<Longrightarrow> py_strip s = s"
proof (cases "s = []")
  case False
  assume "s = [] \<or> \<not> is_space (hd s) \<and> \<not> is_space (last s)"
  with False have h: "\<not> is_space (hd s)" "\<not> is_space (last s)" by simp_all
  have "dropWhile is_space s = s" using False h(1) by (cases s) auto
  moreover have "dropWhile is_space (rev s) = rev s"
    using False h(2) by (cases "rev s") (auto simp flip: hd_rev)
  ultimately show ?thesis by (simp add: py_strip_def py_lstrip_def py_rstrip_def)
qed (simp add: py_strip_def py_lstrip_def py_rstrip_def)

lemma strip_strip: "py_strip (py_strip s) = py_strip s"
  by (rule strip_id) (use strip_not_spaces in blast)

lemma strip_subset: "set (py_strip s) \<subseteq> set s"
  by (auto simp: py_strip_def py_lstrip_def py_rstrip_def dest!: set_dropWhileD)

lemma space_slash: "\<not> is_space CHR ''/''"
  by (simp add: is_space_def)

lemma strip_range:
  assumes "a = py_strip u" and "b = py_strip v"
  shows "py_strip (a @ ''/'' @ b) = a @ ''/'' @ b"
proof (rule strip_id, rule disjI2, rule conjI)
  show "\<not> is_space (hd (a @ ''/'' @ b))"
    using strip_not_spaces [of u] assms(1) space_slash by (cases "a = []") auto
  show "\<not> is_space (last (a @ ''/'' @ b))"
    using strip_not_spaces [of v] assms(2) space_slash by (cases "b = []") auto
qed

lemma contains_char: "py_contains s [c] \<longleftrightarrow> c \<in> set s"
  by (induction s) auto

text \<open>The bounds a text is split into, and the checks on them.\<close>

definition bounds_of :: "string \<Rightarrow> string \<times> string" where
  "bounds_of text =
     (let delim = (if py_contains text ''/'' then CHR ''/'' else CHR '','')
      in (py_strip (fst (py_partition delim text)), py_strip (snd (snd (py_partition delim text)))))"

definition check_bounds :: "string \<Rightarrow> bool \<Rightarrow> string \<Rightarrow> string \<Rightarrow> exn + string" where
  "check_bounds value allow_open a b =
     (if a = [] \<and> b = [] then
        Inl (ValueError (''time_range '' @ py_repr value @ '' needs at least one bound. ''))
      else if \<not> allow_open \<and> (a = [] \<or> b = []) then
        Inl (ValueError (''time_range '' @ py_repr value @ '' must specify both a start and an end. ''))
      else
        (case parse_bound a of
           Inl e \<Rightarrow> Inl e
         | Inr da \<Rightarrow>
             (case parse_bound b of
                Inl e \<Rightarrow> Inl e
              | Inr db \<Rightarrow>
                  (case (da, db) of
                     (Some x, Some y) \<Rightarrow>
                       (case dt_less y x of
                          Inl e \<Rightarrow> Inl e
                        | Inr True \<Rightarrow> Inl (ValueError (''time_range '' @ py_repr value @ '' has end before start. ''))
                        | Inr False \<Rightarrow> Inr (a @ ''/'' @ b))
                   | _ \<Rightarrow> Inr (a @ ''/'' @ b)))))"

lemma normalize_by_parts:
  "normalize_time_range v ao =
     (case v of
        None \<Rightarrow> Inl (ValueError ''time_range is required and cannot be empty. '')
      | Some value \<Rightarrow>
          let text = py_strip value in
          if text = [] then Inl (ValueError ''time_range is required and cannot be empty. '')
          else if \<not> py_contains text ''/'' \<and> \<not> py_contains text '','' then
            Inl (ValueError (''time_range '' @ py_repr value @ '' has no delimiter. ''))
          else (case bounds_of text of (a, b) \<Rightarrow> check_bounds value ao a b))"
  unfolding normalize_time_range_def bounds_of_def check_bounds_def Let_def by (cases v) simp_all

lemma bounds_stripped: "bounds_of s = (a, b) \<Longrightarrow> \<exists>u v. a = py_strip u \<and> b = py_strip v \<and> CHR ''/'' \<notin> set a"
proof -
  assume "bounds_of s = (a, b)"
  then obtain c where c: "c = CHR ''/'' \<or> CHR ''/'' \<notin> set s" "a = py_strip (takeWhile (\<lambda>x. x \<noteq> c) s)"
      "b = py_strip (drop 1 (dropWhile (\<lambda>x. x \<noteq> c) s))"
    by (auto simp: bounds_of_def py_partition_def contains_char Let_def split: if_splits)
  then have "CHR ''/'' \<notin> set a"
    using strip_subset [of "takeWhile (\<lambda>x. x \<noteq> c) s"] by (auto dest: set_takeWhileD)
  with c show ?thesis by blast
qed

lemma bounds_of_canonical:
  "a = py_strip u \<Longrightarrow> b = py_strip v \<Longrightarrow> CHR ''/'' \<notin> set a \<Longrightarrow> bounds_of (a @ ''/'' @ b) = (a, b)"
  by (simp add: bounds_of_def contains_char partition_split strip_strip Let_def)

lemma check_bounds_Inr:
  assumes "check_bounds value ao a b = Inr s"
  shows "s = a @ ''/'' @ b" and "\<not> ao \<Longrightarrow> a \<noteq> [] \<and> b \<noteq> []"
    and "a \<noteq> [] \<Longrightarrow> b \<noteq> [] \<Longrightarrow> \<exists>x y. parse_iso a = Inr x \<and> parse_iso b = Inr y \<and> dt_less y x = Inr False"
    and "check_bounds value' ao a b = Inr s"
proof -
  note defs = check_bounds_def parse_bound_def parse_endpoint_def
  show "s = a @ ''/'' @ b" and "\<not> ao \<Longrightarrow> a \<noteq> [] \<and> b \<noteq> []" and "check_bounds value' ao a b = Inr s"
    using assms by (auto simp: defs split: if_splits sum.splits option.splits bool.splits exn.splits)
  show "a \<noteq> [] \<Longrightarrow> b \<noteq> [] \<Longrightarrow> \<exists>x y. parse_iso a = Inr x \<and> parse_iso b = Inr y \<and> dt_less y x = Inr False"
    using assms by (auto simp: defs split: if_splits sum.splits option.splits bool.splits exn.splits)
qed

lemma parse_iso_error: "parse_iso s = Inl e \<Longrightarrow> \<exists>m. e = ValueError m"
  by (auto simp: parse_iso_def fromisoformat_def Let_def split: if_splits option.splits prod.splits)

lemma parse_bound_cases:
  "parse_bound a = Inr None \<and> a = [] \<or> (\<exists>m. parse_bound a = Inl (ValueError m))
   \<or> (\<exists>x. parse_bound a = Inr (Some x) \<and> parse_iso a = Inr x)"
  by (cases "parse_iso a") (auto simp: parse_bound_def parse_endpoint_def dest: parse_iso_error)

lemma check_bounds_Inl:
  assumes "check_bounds value ao a b = Inl e"
  shows "(\<exists>m. e = ValueError m)
    \<or> (\<exists>x y m. e = TypeError m \<and> parse_iso a = Inr x \<and> parse_iso b = Inr y \<and> (d_off x = None) \<noteq> (d_off y = None))"
proof -
  have less: "dt_less y x = Inl e \<Longrightarrow> \<exists>m. e = TypeError m \<and> (d_off x = None) \<noteq> (d_off y = None)" for x y
    by (auto simp: dt_less_def split: option.splits)
  show ?thesis
    using assms parse_bound_cases [of a] parse_bound_cases [of b]
    unfolding check_bounds_def
    by (elim disjE exE conjE) (auto split: if_splits sum.splits bool.splits dest!: less)
qed

text \<open>
  The canonical range \<open>normalize_time_range\<close> returns is a fixed point of it, and when both bounds are
  required it parses to a closed range whose end is not before its start; every refusal is a
  \<open>ValueError\<close>, but for two real bounds of which exactly one carries an offset, where the
  comparison itself raises a \<open>TypeError\<close>.
\<close>

theorem normalize_time_range_correct:
  "(case normalize_time_range v ao of
      Inr s \<Rightarrow> normalize_time_range (Some s) ao = Inr s
        \<and> (ao \<or> (\<exists>r. from_cmr s = Inr r \<and> dt_less (tr_end r) (tr_start r) = Inr False))
    | Inl e \<Rightarrow> (\<exists>m. e = ValueError m)
        \<or> (\<exists>value x y m. v = Some value \<and> e = TypeError m
             \<and> parse_iso (fst (bounds_of (py_strip value))) = Inr x
             \<and> parse_iso (snd (bounds_of (py_strip value))) = Inr y \<and> (d_off x = None) \<noteq> (d_off y = None)))"
proof (cases "normalize_time_range v ao")
  case (Inl e)
  then show ?thesis
    unfolding normalize_by_parts
    by (auto simp: Let_def split: option.splits if_splits prod.splits dest!: check_bounds_Inl)
next
  case (Inr s)
  then obtain raw a b where v: "bounds_of (py_strip raw) = (a, b)" "check_bounds raw ao a b = Inr s"
    unfolding normalize_by_parts by (auto simp: Let_def split: option.splits if_splits prod.splits)
  obtain u w where uw: "a = py_strip u" "b = py_strip w" "CHR ''/'' \<notin> set a" using bounds_stripped [OF v(1)] by blast
  note c = check_bounds_Inr [OF v(2)]
  have s: "s = a @ ''/'' @ b" by (rule c)
  have "normalize_time_range (Some s) ao = Inr s"
    unfolding normalize_by_parts
    using strip_range [OF uw(1,2)] bounds_of_canonical [OF uw] c(4) by (simp add: s Let_def contains_char)
  moreover have "\<exists>r. from_cmr s = Inr r \<and> dt_less (tr_end r) (tr_start r) = Inr False" if closed: "\<not> ao"
  proof -
    have ab: "a \<noteq> []" "b \<noteq> []" using c(2) [OF closed] by auto
    with c(3) obtain x y where "parse_iso a = Inr x" "parse_iso b = Inr y" "dt_less y x = Inr False" by blast
    moreover have "py_partition CHR ''/'' s = (a, True, b)" using partition_split [OF uw(3)] by (simp add: s)
    ultimately have "from_cmr s = Inr \<lparr>tr_start = x, tr_end = y\<rparr>" using ab by (simp add: from_cmr_def)
    then show ?thesis using \<open>dt_less y x = Inr False\<close> by auto
  qed
  ultimately show ?thesis using Inr by auto
qed

section \<open>Moving a date-time\<close>

lemma days_before_year_mono: "days_before_year y \<le> days_before_year (y + int k)"
proof (induction k)
  case 0
  then show ?case by simp
next
  case (Suc k)
  have "y + int (Suc k) = (y + int k) + 1" by simp
  then have "days_before_year (y + int k) < days_before_year (y + int (Suc k))"
    using days_before_year_less [of "y + int k"] by (simp only:)
  then show ?case using Suc by simp
qed

lemma month_start_nonneg: "0 \<le> month_start y k"
  by (induction k) (auto simp: days_in_month_def)

text \<open>A date-time moved by a duration is a real date-time at exactly that distance.\<close>

lemma dt_plus_exact:
  assumes "dt_plus d us = Inr d'" and "valid_off (d_off d)"
  shows "valid_dt d' \<and> clock d' = clock d + us \<and> d_off d' = d_off d"
proof -
  define n where "n = clock d + us"
  define days where "days = n div day_micros"
  define r where "r = n mod day_micros"
  obtain y m dy where ymd: "ord2ymd days = (y, m, dy)" by (metis prod_cases3)
  have range: "1 \<le> days" "days \<le> max_ordinal"
    and d': "d' = \<lparr>d_year = y, d_month = m, d_day = dy, d_hour = r div 3600000000,
                d_minute = r div 60000000 mod 60, d_second = r div 1000000 mod 60,
                d_micro = r mod 1000000, d_off = d_off d\<rparr>"
    using assms(1) unfolding dt_plus_def Let_def
    by (auto simp: ymd simp flip: n_def days_def r_def split: if_splits)
  note o = ord2ymd_correct [OF range(1) ymd]
  have r: "0 \<le> r" "r < day_micros" by (simp_all add: r_def day_micros_def)
  have "y \<le> 9999"
  proof (rule ccontr)
    assume "\<not> y \<le> 9999"
    then have "y = 10000 + int (nat (y - 10000))" by simp
    then obtain k where "y = 10000 + int k" by blast
    then have "days_before_year 10000 \<le> days_before_year y" using days_before_year_mono by simp
    moreover have "days_before_year 10000 = 3652059" by (simp add: days_before_year_def)
    ultimately show False
      using o range(2) month_start_nonneg [of y "nat (m - 1)"] by (simp add: ymd2ord_def max_ordinal_def)
  qed
  define b where "b = r div 1000000"
  have parts: "b div 3600 * 3600 + b div 60 mod 60 * 60 + b mod 60 = b"
  proof -
    have "b div 3600 = b div 60 div 60" by (simp add: zdiv_zmult2_eq [symmetric])
    then show ?thesis using div_mult_mod_eq [of b 60] div_mult_mod_eq [of "b div 60" 60] by linarith
  qed
  have b: "r div 3600000000 = b div 3600" "r div 60000000 = b div 60"
    unfolding b_def by (simp_all add: zdiv_zmult2_eq [symmetric])
  have "clock d' = (days * 86400 + b) * 1000000 + r mod 1000000"
    using o parts by (simp add: clock_def d' b flip: b_def)
  also have "\<dots> = days * day_micros + r"
    using div_mult_mod_eq [of r 1000000] by (simp add: b_def day_micros_def)
  also have "\<dots> = n" unfolding days_def r_def by (rule div_mult_mod_eq)
  finally have "clock d' = clock d + us" by (simp add: n_def)
  moreover have "valid_dt d'"
  proof -
    define h where "h = r div 3600000000"
    have "0 \<le> h" using r(1) by (simp add: h_def pos_imp_zdiv_nonneg_iff)
    moreover have "h * 3600000000 \<le> r"
      using div_mult_mod_eq [of r 3600000000] pos_mod_sign [of 3600000000 r] unfolding h_def by linarith
    then have "h < 24" using r(2) by (simp add: day_micros_def)
    moreover define mi where "mi = r div 60000000 mod 60"
    moreover define sec where "sec = r div 1000000 mod 60"
    moreover define us' where "us' = r mod 1000000"
    have "0 \<le> mi" "mi < 60" "0 \<le> sec" "sec < 60" "0 \<le> us'" "us' < 1000000"
      unfolding mi_def sec_def us'_def by (simp_all only: pos_mod_sign pos_mod_bound zero_less_numeral)
    ultimately have "valid_dt \<lparr>d_year = y, d_month = m, d_day = dy, d_hour = h, d_minute = mi, d_second = sec,
        d_micro = us', d_off = d_off d\<rparr>"
      using o \<open>y \<le> 9999\<close> assms(2) unfolding valid_dt_def valid_date_def datetime.simps by blast
    then show ?thesis unfolding d' h_def mi_def sec_def us'_def .
  qed
  moreover have "d_off d' = d_off d" unfolding d' datetime.simps by (rule HOL.refl)
  ultimately show ?thesis by blast
qed

end
