(* ===== verification/Plan.thy ===== *)
theory Plan
  imports PyData PyTime
begin

text \<open>
  The shared retrieval types of \<open>providers/base.py\<close>: area of interest, transformation, the plan the
  router gates, the reference to a provider's job, its status and its materialized result. A field
  that comes from a stored document, which the code takes as it is, is a \<^typ>\<open>json\<close> value.
\<close>

record aoi =
  aoi_bbox :: "json list option"
  aoi_geojson :: json

record transform_spec =
  ts_output_format :: json
  ts_variables :: "json list"
  ts_reproject :: json
  ts_resample :: json

record retrieval_plan =
  rp_output_format :: json
  rp_needs_bbox :: bool
  rp_needs_variable :: bool
  rp_needs_temporal :: bool
  rp_needs_shape :: bool
  rp_needs_dimension :: bool
  rp_needs_reproject :: bool
  rp_needs_point_sample :: bool
  rp_concept_id :: json
  rp_short_name :: json
  rp_aoi :: "aoi option"
  rp_time_range :: "time_range option"
  rp_transform :: "transform_spec option"

text \<open>\<open>RetrievalPlan(output_format=f)\<close>, every other field at its default.\<close>

definition default_plan :: "json \<Rightarrow> retrieval_plan" where
  "default_plan f =
     \<lparr>rp_output_format = f, rp_needs_bbox = False, rp_needs_variable = False, rp_needs_temporal = False,
      rp_needs_shape = False, rp_needs_dimension = False, rp_needs_reproject = False,
      rp_needs_point_sample = False, rp_concept_id = JNull, rp_short_name = JNull, rp_aoi = None,
      rp_time_range = None, rp_transform = None\<rparr>"

record job_ref =
  jr_provider :: json
  jr_job_id :: "string option"
  jr_job_url :: "string option"
  jr_job_handle :: "string option"

record job_status =
  st_state :: job_state
  st_progress :: int
  st_message :: "string option"
  st_output_expires_at :: "time option"
  st_error :: "string option"

record materialized_result =
  mr_storage_key :: string
  mr_media_type :: string
  mr_size_bytes :: "int option"
  mr_extra :: dict

text \<open>\<open>",".join(str(c) for c in bbox)\<close>, and \<open>AOI.to_bbox_str\<close>.\<close>

definition bbox_text :: "(json \<Rightarrow> string) \<Rightarrow> json list \<Rightarrow> string" where
  "bbox_text show_other b = py_join '','' (map (py_str show_other) b)"

definition to_bbox_str :: "(json \<Rightarrow> string) \<Rightarrow> aoi \<Rightarrow> exn + string" where
  "to_bbox_str show_other a =
     (case aoi_bbox a of
        None \<Rightarrow> Inl (ValueError ''AOI has no bbox to format'')
      | Some b \<Rightarrow> Inr (bbox_text show_other b))"

end
