(* ===== verification/Capabilities.thy ===== *)
theory Capabilities
  imports Plan
begin

text \<open>
  The merged view of a collection (\<open>providers/_capabilities.py\<close>): the fields read from its UMM-C
  record, the per-service capabilities read from Harmony's answer, and the gate \<open>find_service\<close>.
  \<open>read_float\<close> stands for \<open>float\<close> on a text and \<open>show_other\<close> for \<open>str\<close> on floats and nested values.
\<close>

section \<open>Data\<close>

record s3_direct_access =
  s3_region :: json
  s3_bucket_prefixes :: "json list"
  s3_credentials_endpoint :: json

record service_capability =
  sv_name :: json
  sv_concept_id :: string
  sv_bbox :: bool
  sv_variable :: bool
  sv_temporal :: bool
  sv_shape :: bool
  sv_dimension :: bool
  sv_concatenate :: bool
  sv_reproject :: bool
  sv_output_formats :: "json list"

record umm_layer =
  um_short_name :: json
  um_version :: json
  um_processing_level :: string
  um_output_shape :: string
  um_native_formats :: "json list"
  um_direct_s3 :: "s3_direct_access option"
  um_advisory :: "json list"
  um_spatial_extent :: "rat list option"
  um_access_restricted :: "bool option"

record capabilities =
  cc_concept_id :: json
  cc_short_name :: json
  cc_processing_level :: string
  cc_output_shape :: string
  cc_native_formats :: "json list"
  cc_direct_s3 :: "s3_direct_access option"
  cc_services :: "service_capability list"
  cc_version :: json
  cc_spatial_extent :: "rat list option"
  cc_capabilities_version :: string
  cc_advisory :: "json list"
  cc_access_restricted :: "bool option"

section \<open>Layer 2: the services\<close>

definition concept_id_from_href :: "json \<Rightarrow> exn + string" where
  "concept_id_from_href href =
     (if \<not> truthy href then Inr []
      else case href of
             JStr s \<Rightarrow> Inr (after_last CHR ''/'' (rstrip_char CHR ''/'' s))
           | _ \<Rightarrow> Inl (AttributeError ''rstrip''))"

definition service_of :: "json \<Rightarrow> exn + service_capability" where
  "service_of svc =
     s_bind (py_get svc ''capabilities'' (JObj [])) (\<lambda>caps.
     s_bind (py_get caps ''subsetting'' (JObj [])) (\<lambda>subset.
     s_bind (py_get svc ''name'' (JStr [])) (\<lambda>name.
     s_bind (py_get svc ''href'' (JStr [])) (\<lambda>href.
     s_bind (concept_id_from_href href) (\<lambda>cid.
     s_bind (py_get subset ''bbox'' (JBool False)) (\<lambda>b.
     s_bind (py_get subset ''variable'' (JBool False)) (\<lambda>v.
     s_bind (py_get subset ''temporal'' (JBool False)) (\<lambda>t.
     s_bind (py_get subset ''shape'' (JBool False)) (\<lambda>sh.
     s_bind (py_get subset ''dimension'' (JBool False)) (\<lambda>d.
     s_bind (py_get caps ''concatenation'' (JBool False)) (\<lambda>cat.
     s_bind (py_get caps ''reprojection'' (JBool False)) (\<lambda>rp.
     s_bind (py_get caps ''output_formats'' (JArr [])) (\<lambda>fs.
     s_bind (py_iter fs) (\<lambda>fl.
     s_bind (py_frozenset fl) (\<lambda>formats.
       Inr \<lparr>sv_name = name, sv_concept_id = cid, sv_bbox = truthy b, sv_variable = truthy v,
            sv_temporal = truthy t, sv_shape = truthy sh, sv_dimension = truthy d,
            sv_concatenate = truthy cat, sv_reproject = truthy rp, sv_output_formats = formats\<rparr>)))))))))))))))"

definition parse_service_capabilities :: "json \<Rightarrow> exn + service_capability list" where
  "parse_service_capabilities harmony_caps =
     s_bind (py_get harmony_caps ''services'' (JArr [])) (\<lambda>svcs.
     s_bind (py_iter svcs) (s_each service_of))"

section \<open>Layer 1: the UMM-C record\<close>

definition output_shape :: "string \<Rightarrow> string" where
  "output_shape processing_level = (if processing_level = ''2'' then ''swath'' else ''grid'')"

definition native_formats :: "json \<Rightarrow> exn + json list" where
  "native_formats umm_c =
     s_bind (py_get umm_c ''ArchiveAndDistributionInformation'' JNull) (\<lambda>i.
     s_bind (py_get (py_or i (JObj [])) ''FileDistributionInformation'' (JArr [])) (\<lambda>fs.
     s_bind (py_iter fs) (\<lambda>fl.
     s_bind (s_each (\<lambda>f. s_bind (py_get f ''Format'' JNull)
               (\<lambda>v. if truthy v then py_frozenset [v] else Inr [])) fl) (\<lambda>names.
       Inr (remdups (concat names))))))"

definition direct_s3 :: "json \<Rightarrow> exn + s3_direct_access option" where
  "direct_s3 umm_c =
     s_bind (py_get umm_c ''DirectDistributionInformation'' JNull) (\<lambda>ddi.
       if \<not> truthy ddi then Inr None
       else
         s_bind (py_get ddi ''Region'' (JStr [])) (\<lambda>region.
         s_bind (py_get ddi ''S3BucketAndObjectPrefixNames'' (JArr [])) (\<lambda>names.
         s_bind (py_iter names) (\<lambda>prefixes.
         s_bind (py_get ddi ''S3CredentialsAPIEndpoint'' JNull) (\<lambda>endpoint.
           Inr (Some \<lparr>s3_region = region, s3_bucket_prefixes = prefixes, s3_credentials_endpoint = endpoint\<rparr>))))))"

text \<open>\<open>float(d[k])\<close>.\<close>

definition float_item :: "(string \<Rightarrow> rat option) \<Rightarrow> string \<Rightarrow> json \<Rightarrow> exn + rat" where
  "float_item read_float k d = s_bind (py_item d k) (py_float read_float)"

text \<open>\<open>(west, south, east, north)\<close>.\<close>

definition rectangle_extent :: "(string \<Rightarrow> rat option) \<Rightarrow> json \<Rightarrow> exn + rat list option" where
  "rectangle_extent read_float rect =
     s_bind (float_item read_float ''WestBoundingCoordinate'' rect) (\<lambda>w.
     s_bind (float_item read_float ''SouthBoundingCoordinate'' rect) (\<lambda>s.
     s_bind (float_item read_float ''EastBoundingCoordinate'' rect) (\<lambda>e.
     s_bind (float_item read_float ''NorthBoundingCoordinate'' rect) (\<lambda>n. Inr (Some [w, s, e, n])))))"

definition polygon_extent :: "(string \<Rightarrow> rat option) \<Rightarrow> json \<Rightarrow> exn + rat list option" where
  "polygon_extent read_float polygon =
     s_bind (py_get polygon ''Boundary'' JNull) (\<lambda>b.
     s_bind (py_get (py_or b (JObj [])) ''Points'' JNull) (\<lambda>pts.
       if \<not> truthy pts then Inr None
       else
         s_bind (py_iter pts) (\<lambda>ps.
         s_bind (s_each (float_item read_float ''Longitude'') ps) (\<lambda>lons.
         s_bind (s_each (float_item read_float ''Latitude'') ps) (\<lambda>lats.
           Inr (Some [Min (set lons), Min (set lats), Max (set lons), Max (set lats)]))))))"

definition spatial_extent :: "(string \<Rightarrow> rat option) \<Rightarrow> json \<Rightarrow> exn + rat list option" where
  "spatial_extent read_float umm_c =
     s_bind (py_get umm_c ''SpatialExtent'' JNull) (\<lambda>se.
     s_bind (py_get (py_or se (JObj [])) ''HorizontalSpatialDomain'' (JObj [])) (\<lambda>dom.
     s_bind (py_get dom ''Geometry'' (JObj [])) (\<lambda>geometry.
     s_bind (py_get geometry ''BoundingRectangles'' JNull) (\<lambda>rectangles.
       if truthy rectangles then s_bind (py_at rectangles 0) (rectangle_extent read_float)
       else
         s_bind (py_get geometry ''GPolygons'' JNull) (\<lambda>polygons.
           if truthy polygons then s_bind (py_at polygons 0) (polygon_extent read_float)
           else Inr None)))))"

definition access_restricted :: "json \<Rightarrow> exn + bool option" where
  "access_restricted umm_c =
     (if \<not> truthy umm_c then Inr None
      else
        s_bind (py_get umm_c ''AccessConstraints'' JNull) (\<lambda>ac.
          if truthy ac then Inr (Some True)
          else
            s_bind (py_get umm_c ''UseConstraints'' JNull) (\<lambda>uc.
            let use = py_or uc (JObj []) in
            s_bind (py_get use ''EULAIdentifiers'' JNull) (\<lambda>eula.
              if truthy eula then Inr (Some True)
              else s_bind (py_get use ''FreeAndOpenData'' JNull) (\<lambda>free. Inr (Some (free = JBool False)))))))"

definition advisory :: "(json \<Rightarrow> string) \<Rightarrow> json \<Rightarrow> exn + json list" where
  "advisory show_other umm_c =
     s_bind (py_get umm_c ''CollectionProgress'' JNull) (\<lambda>progress.
     s_bind (py_get umm_c ''StandardProduct'' JNull) (\<lambda>standard.
     s_bind (py_get umm_c ''Purpose'' JNull) (\<lambda>purpose.
       Inr ((if truthy progress then [JStr (''CollectionProgress: '' @ py_str show_other progress)] else []) @
            (if standard = JBool False
             then [JStr ''Not flagged as the standard product (StandardProduct=false).''] else []) @
            (if truthy purpose then [purpose] else [])))))"

definition umm_c_layer :: "(string \<Rightarrow> rat option) \<Rightarrow> (json \<Rightarrow> string) \<Rightarrow> json \<Rightarrow> exn + umm_layer" where
  "umm_c_layer read_float show_other umm_c =
     s_bind (py_get umm_c ''ProcessingLevel'' JNull) (\<lambda>pl.
     s_bind (py_get (py_or pl (JObj [])) ''Id'' (JStr [])) (\<lambda>lid.
     let level = py_str show_other (py_or lid (JStr [])) in
     s_bind (py_get umm_c ''ShortName'' (JStr [])) (\<lambda>sn.
     s_bind (py_get umm_c ''Version'' (JStr [])) (\<lambda>ver.
     s_bind (native_formats umm_c) (\<lambda>nf.
     s_bind (direct_s3 umm_c) (\<lambda>s3.
     s_bind (advisory show_other umm_c) (\<lambda>adv.
     s_bind (spatial_extent read_float umm_c) (\<lambda>ext.
     s_bind (access_restricted umm_c) (\<lambda>acc.
       Inr \<lparr>um_short_name = sn, um_version = ver, um_processing_level = level,
            um_output_shape = output_shape level, um_native_formats = nf, um_direct_s3 = s3,
            um_advisory = adv, um_spatial_extent = ext, um_access_restricted = acc\<rparr>)))))))))"

section \<open>The merged view\<close>

definition from_harmony_capabilities ::
  "(string \<Rightarrow> rat option) \<Rightarrow> (json \<Rightarrow> string) \<Rightarrow> json \<Rightarrow> json option \<Rightarrow> exn + capabilities" where
  "from_harmony_capabilities read_float show_other harmony_caps umm_c =
     s_bind (umm_c_layer read_float show_other
               (case umm_c of None \<Rightarrow> JObj [] | Some u \<Rightarrow> py_or u (JObj []))) (\<lambda>l.
     s_bind (py_get harmony_caps ''conceptId'' JNull) (\<lambda>cid.
     s_bind (py_get harmony_caps ''shortName'' JNull) (\<lambda>sn.
     s_bind (parse_service_capabilities harmony_caps) (\<lambda>services.
     s_bind (py_get harmony_caps ''capabilitiesVersion'' (JStr [])) (\<lambda>ver.
       Inr \<lparr>cc_concept_id = py_or cid (JStr []), cc_short_name = py_or sn (um_short_name l),
            cc_processing_level = um_processing_level l, cc_output_shape = um_output_shape l,
            cc_native_formats = um_native_formats l, cc_direct_s3 = um_direct_s3 l,
            cc_services = services, cc_version = um_version l, cc_spatial_extent = um_spatial_extent l,
            cc_capabilities_version = py_str show_other ver, cc_advisory = um_advisory l,
            cc_access_restricted = um_access_restricted l\<rparr>)))))"

section \<open>The gate\<close>

fun find_service_in :: "service_capability list \<Rightarrow> retrieval_plan \<Rightarrow> service_capability option" where
  "find_service_in [] plan = None"
| "find_service_in (s # rest) plan =
     (if rp_needs_bbox plan \<and> \<not> sv_bbox s then find_service_in rest plan
      else if rp_needs_variable plan \<and> \<not> sv_variable s then find_service_in rest plan
      else if rp_needs_temporal plan \<and> \<not> sv_temporal s then find_service_in rest plan
      else if rp_needs_shape plan \<and> \<not> sv_shape s then find_service_in rest plan
      else if rp_needs_dimension plan \<and> \<not> sv_dimension s then find_service_in rest plan
      else if rp_needs_reproject plan \<and> \<not> sv_reproject s then find_service_in rest plan
      else if rp_output_format plan \<notin> set (sv_output_formats s) then find_service_in rest plan
      else Some s)"

definition find_service :: "capabilities \<Rightarrow> retrieval_plan \<Rightarrow> service_capability option" where
  "find_service caps plan = find_service_in (cc_services caps) plan"

text \<open>A service that satisfies every need of a plan by itself.\<close>

definition serves :: "service_capability \<Rightarrow> retrieval_plan \<Rightarrow> bool" where
  "serves s plan \<longleftrightarrow>
     (rp_needs_bbox plan \<longrightarrow> sv_bbox s) \<and> (rp_needs_variable plan \<longrightarrow> sv_variable s)
     \<and> (rp_needs_temporal plan \<longrightarrow> sv_temporal s) \<and> (rp_needs_shape plan \<longrightarrow> sv_shape s)
     \<and> (rp_needs_dimension plan \<longrightarrow> sv_dimension s) \<and> (rp_needs_reproject plan \<longrightarrow> sv_reproject s)
     \<and> rp_output_format plan \<in> set (sv_output_formats s)"

lemma find_service_in_find: "find_service_in ss plan = List.find (\<lambda>s. serves s plan) ss"
  by (induction ss) (auto simp: serves_def)

lemma find_first:
  "List.find P xs = Some x \<longleftrightarrow> (\<exists>before after. xs = before @ x # after \<and> P x \<and> (\<forall>y \<in> set before. \<not> P y))"
proof (induction xs)
  case Nil
  then show ?case by simp
next
  case (Cons a xs)
  show ?case
  proof (cases "P a")
    case True
    then show ?thesis by (auto simp: Cons_eq_append_conv)
  next
    case False
    then show ?thesis using Cons.IH by (auto simp: Cons_eq_append_conv) (metis append_Cons set_ConsD)+
  qed
qed

lemma find_service_Some_iff:
  "find_service caps plan = Some s \<longleftrightarrow>
     (\<exists>before after. cc_services caps = before @ s # after \<and> serves s plan \<and> (\<forall>x \<in> set before. \<not> serves x plan))"
  unfolding find_service_def find_service_in_find by (rule find_first)

lemma find_service_None_iff: "find_service caps plan = None \<longleftrightarrow> (\<forall>s \<in> set (cc_services caps). \<not> serves s plan)"
  by (auto simp: find_service_def find_service_in_find find_None_iff)

end
