(* ===== verification/Router.thy ===== *)
theory Router
  imports Capabilities
begin

text \<open>
  The Harmony-first router (\<open>providers/router.py\<close>): the decision for a plan against one collection's
  capabilities and the trace that explains it. A provider is known here by whether it is wired and
  by its \<open>can_handle\<close>; the trace is the dictionary the tools return.
\<close>

record router =
  ro_caps :: capabilities
  ro_harmony :: bool
  ro_opendap :: "(retrieval_plan \<Rightarrow> bool) option"
  ro_appeears :: "(retrieval_plan \<Rightarrow> bool) option"
  ro_s3_direct_enabled :: bool
  ro_aws_region :: "string option"
  ro_aws_default_region :: "string option"

text \<open>\<open>rd_provider\<close> names the wired provider the decision carries, if any.\<close>

record routing_decision =
  rd_path :: string
  rd_service :: "service_capability option"
  rd_provider :: "string option"
  rd_trace :: dict

section \<open>Explaining a match\<close>

definition plan_need_names :: "retrieval_plan \<Rightarrow> string list" where
  "plan_need_names plan =
     (if rp_needs_bbox plan then [''bbox''] else []) @
     (if rp_needs_variable plan then [''variable''] else []) @
     (if rp_needs_temporal plan then [''temporal''] else []) @
     (if rp_needs_shape plan then [''shape''] else []) @
     (if rp_needs_dimension plan then [''dimension''] else []) @
     (if rp_needs_reproject plan then [''reproject''] else []) @ [''output_format'']"

definition first_unmet_need :: "service_capability \<Rightarrow> retrieval_plan \<Rightarrow> string option" where
  "first_unmet_need s plan =
     (if rp_needs_bbox plan \<and> \<not> sv_bbox s then Some ''bbox''
      else if rp_needs_variable plan \<and> \<not> sv_variable s then Some ''variable''
      else if rp_needs_temporal plan \<and> \<not> sv_temporal s then Some ''temporal''
      else if rp_needs_shape plan \<and> \<not> sv_shape s then Some ''shape''
      else if rp_needs_dimension plan \<and> \<not> sv_dimension s then Some ''dimension''
      else if rp_needs_reproject plan \<and> \<not> sv_reproject s then Some ''reproject''
      else if rp_output_format plan \<notin> set (sv_output_formats s) then Some ''output_format''
      else None)"

definition service_trace :: "capabilities \<Rightarrow> retrieval_plan \<Rightarrow> service_capability option \<Rightarrow> dict" where
  "service_trace caps plan svc =
     (case svc of
        Some s \<Rightarrow>
          [(''pinned_service'', sv_name s), (''pinned_concept_id'', JStr (sv_concept_id s)),
           (''satisfied_needs'', JArr (map JStr (plan_need_names plan)))]
      | None \<Rightarrow>
          [(''pinned_service'', JNull),
           (''reason'', JStr (if cc_services caps = [] then ''no_registered_services''
                              else ''no_single_service_satisfies'')),
           (''services'', JArr (map (\<lambda>s. JObj [(''service_name'', sv_name s),
              (''first_unmet_need'', json_opt (first_unmet_need s plan))]) (cc_services caps)))])"

section \<open>Deciding\<close>

definition is_data_as_is :: "retrieval_plan \<Rightarrow> bool" where
  "is_data_as_is plan \<longleftrightarrow>
     \<not> (rp_needs_bbox plan \<or> rp_needs_variable plan \<or> rp_needs_temporal plan \<or> rp_needs_shape plan
        \<or> rp_needs_dimension plan \<or> rp_needs_reproject plan)"

definition or_empty :: "string option \<Rightarrow> string" where
  "or_empty s = (case s of None \<Rightarrow> [] | Some t \<Rightarrow> t)"

definition s3_connected :: "s3_direct_access \<Rightarrow> router \<Rightarrow> exn + bool" where
  "s3_connected s3 r =
     (if \<not> ro_s3_direct_enabled r then Inr False
      else case py_or (s3_region s3) (JStr []) of
             JStr region \<Rightarrow>
               let want = py_lower (py_strip region) in
               if want = [] then Inr False
               else
                 let have_r = (if or_empty (ro_aws_region r) \<noteq> [] then or_empty (ro_aws_region r)
                               else or_empty (ro_aws_default_region r))
                 in Inr (want = py_lower (py_strip have_r))
           | _ \<Rightarrow> Inl (AttributeError ''strip''))"

definition can_route :: "(retrieval_plan \<Rightarrow> bool) option \<Rightarrow> retrieval_plan \<Rightarrow> bool" where
  "can_route p plan = (case p of None \<Rightarrow> False | Some f \<Rightarrow> f plan)"

definition harmony_decision :: "router \<Rightarrow> retrieval_plan \<Rightarrow> service_capability option \<Rightarrow> routing_decision" where
  "harmony_decision r plan svc =
     \<lparr>rd_path = ''harmony'', rd_service = svc, rd_provider = (if ro_harmony r then Some ''harmony'' else None),
      rd_trace = service_trace (ro_caps r) plan svc @ [(''path'', JStr ''harmony'')]\<rparr>"

definition route :: "router \<Rightarrow> retrieval_plan \<Rightarrow> exn + routing_decision" where
  "route r plan =
     (if can_route (ro_appeears r) plan then
        Inr \<lparr>rd_path = ''appeears'', rd_service = None, rd_provider = Some ''appeears'',
             rd_trace = [(''path'', JStr ''appeears''), (''reason'', JStr ''point_sample_intent''),
                         (''needs_point_sample'', JBool (rp_needs_point_sample plan))]\<rparr>
      else
        s_bind (if is_data_as_is plan
                then (case cc_direct_s3 (ro_caps r) of None \<Rightarrow> Inr False | Some s3 \<Rightarrow> s3_connected s3 r)
                else Inr False)
          (\<lambda>direct.
             if direct then
               Inr \<lparr>rd_path = ''direct'', rd_service = None, rd_provider = None,
                    rd_trace = [(''path'', JStr ''direct''), (''reason'', JStr ''data_as_is_in_region_s3''),
                      (''region'', (case cc_direct_s3 (ro_caps r) of None \<Rightarrow> JNull | Some s3 \<Rightarrow> s3_region s3)),
                      (''s3_direct_enabled'', JBool (ro_s3_direct_enabled r))]\<rparr>
             else if ro_harmony r then
               Inr (harmony_decision r plan (find_service (ro_caps r) plan))
             else case find_service (ro_caps r) plan of
                    Some s \<Rightarrow> Inr (harmony_decision r plan (Some s))
                  | None \<Rightarrow>
                      if can_route (ro_opendap r) plan then
                        Inr \<lparr>rd_path = ''opendap'', rd_service = None, rd_provider = Some ''opendap'',
                             rd_trace = [(''path'', JStr ''opendap''), (''reason'', JStr ''harmony_not_wired''),
                               (''harmony_unmatched'', JObj (service_trace (ro_caps r) plan None))]\<rparr>
                      else Inl (NotRetrievable
                        (''no single service satisfies this request and no retrieval path '' @
                         ''is available; relax the request to match one service's capabilities''))))"

section \<open>What a decision means\<close>

lemma first_unmet_need_None_iff: "first_unmet_need s plan = None \<longleftrightarrow> serves s plan"
  by (auto simp: first_unmet_need_def serves_def)

text \<open>The direct path is taken only in region, with direct access switched on.\<close>

definition direct_ok :: "router \<Rightarrow> retrieval_plan \<Rightarrow> bool" where
  "direct_ok r plan \<longleftrightarrow> is_data_as_is plan \<and> (\<exists>s3. cc_direct_s3 (ro_caps r) = Some s3 \<and> s3_connected s3 r = Inr True)"

lemma py_strip_Nil: "py_strip [] = []"
  by (simp add: py_strip_def py_lstrip_def py_rstrip_def)

lemma s3_connected_True:
  "s3_connected s3 r = Inr True \<Longrightarrow>
     ro_s3_direct_enabled r \<and> (\<exists>region. s3_region s3 = JStr region \<and> py_strip region \<noteq> []
       \<and> (\<exists>own. (ro_aws_region r = Some own \<or> ro_aws_default_region r = Some own)
              \<and> py_lower (py_strip region) = py_lower (py_strip own)))"
  by (auto simp: s3_connected_def Let_def or_empty_def py_or_def py_lower_def py_strip_Nil
      split: if_splits json.splits option.splits)


text \<open>A collection with one service that subsets by box and another that writes PNG.\<close>

definition sample_service :: "string \<Rightarrow> bool \<Rightarrow> string \<Rightarrow> service_capability" where
  "sample_service name bbox fmt =
     \<lparr>sv_name = JStr name, sv_concept_id = ''S1'', sv_bbox = bbox, sv_variable = False, sv_temporal = True,
      sv_shape = False, sv_dimension = False, sv_concatenate = False, sv_reproject = False,
      sv_output_formats = [JStr fmt]\<rparr>"

definition sample_caps :: capabilities where
  "sample_caps =
     \<lparr>cc_concept_id = JStr ''C1'', cc_short_name = JStr ''TEMPO'', cc_processing_level = ''2'',
      cc_output_shape = ''swath'', cc_native_formats = [], cc_direct_s3 = None,
      cc_services = [sample_service ''bbox-only'' True ''netcdf'', sample_service ''png-only'' False ''png''],
      cc_version = JStr ''1'', cc_spatial_extent = None, cc_capabilities_version = ''2'', cc_advisory = [],
      cc_access_restricted = Some False\<rparr>"

definition sample_router :: router where
  "sample_router =
     \<lparr>ro_caps = sample_caps, ro_harmony = True, ro_opendap = None, ro_appeears = None,
      ro_s3_direct_enabled = False, ro_aws_region = None, ro_aws_default_region = None\<rparr>"


end
