(* ===== verification/RequestSpec.thy ===== *)
theory RequestSpec
  imports Router
begin

text \<open>
  The durable request spec (\<open>providers/request_spec.py\<close>): what a job stores of its request, how it is
  written to and read from JSONB, the plan rebuilt from it, the derived spec of another window, the
  materialization cache key and the request signature used to find an equal earlier request.
  \<open>sha\<close> stands for the SHA-256 hex digest of a text. A field the code takes from the stored document
  as it is, of whatever kind, is a \<^typ>\<open>json\<close> value.
\<close>

section \<open>Data\<close>

record spec_axis =
  sa_name :: json
  sa_origin :: json
  sa_step :: json
  sa_length :: json

record request_spec =
  rs_concept_id :: json
  rs_short_name :: json
  rs_output_format :: json
  rs_output_shape :: json
  rs_needs_bbox :: bool
  rs_needs_variable :: bool
  rs_needs_temporal :: bool
  rs_needs_point_sample :: bool
  rs_aoi_bbox :: "json list option"
  rs_time_range :: json
  rs_variables :: "json list"
  rs_provider :: json
  rs_service_name :: json
  rs_opendap_urls :: "json list"
  rs_coord_lat :: json
  rs_coord_lon :: json
  rs_coord_time :: json
  rs_lat_axis :: "spec_axis option"
  rs_lon_axis :: "spec_axis option"
  rs_var_dims :: "(string \<times> json list list) list"
  rs_var_coords :: "(string \<times> (json \<times> json)) list"
  rs_variable_expansions :: "(string \<times> json list) list"
  rs_workspace_id :: json
  rs_job_handle :: json
  rs_obs_handle :: json
  rs_cache_key :: json

definition DEFAULT_FORMAT :: string where
  "DEFAULT_FORMAT = ''application/netcdf4''"

section \<open>Keys and signatures\<close>

text \<open>\<open>sep.join(xs)\<close> over values that may not be texts.\<close>

definition jtext :: "json \<Rightarrow> exn + string" where
  "jtext x = (case x of JStr s \<Rightarrow> Inr s | _ \<Rightarrow> Inl (TypeError ''sequence item: expected str instance''))"

definition join_json :: "string \<Rightarrow> json list \<Rightarrow> exn + string" where
  "join_json sep xs = s_bind (s_each jtext xs) (\<lambda>ts. Inr (py_join sep ts))"

text \<open>\<open>",".join(sorted(xs))\<close>; \<open>remdups\<close> first for \<open>sorted(set(xs))\<close>.\<close>

definition join_sorted :: "bool \<Rightarrow> json list \<Rightarrow> exn + string" where
  "join_sorted as_set xs =
     s_bind (s_each jtext xs) (\<lambda>ts. Inr (py_join '','' (sort (if as_set then remdups ts else ts))))"

definition compute_cache_key ::
  "(string \<Rightarrow> string) \<Rightarrow> (json \<Rightarrow> string) \<Rightarrow> json \<Rightarrow> json \<Rightarrow> json list option \<Rightarrow> json \<Rightarrow> json list \<Rightarrow> json
   \<Rightarrow> json \<Rightarrow> exn + string" where
  "compute_cache_key sha show_other short_name output_format bbox tr variables service_name service_version =
     s_bind (join_sorted False variables) (\<lambda>vars.
     s_bind (join_json '':''
       [py_or short_name (JStr []), output_format,
        JStr (case bbox of None \<Rightarrow> [] | Some b \<Rightarrow> bbox_text show_other b),
        py_or tr (JStr []), JStr vars, py_or service_name (JStr []), py_or service_version (JStr [])])
       (\<lambda>raw. Inr (take 24 (sha raw))))"

text \<open>The text whose digest is the signature of a request.\<close>

definition signature_text ::
  "(json \<Rightarrow> string) \<Rightarrow> json \<Rightarrow> json list option \<Rightarrow> string option \<Rightarrow> json list \<Rightarrow> json \<Rightarrow> string option \<Rightarrow> exn + string" where
  "signature_text show_other concept_id bbox tr variables output_format identity_scope =
     s_bind (case tr of
               None \<Rightarrow> Inr []
             | Some t \<Rightarrow> if t = [] then Inr [] else s_bind (from_cmr t) (\<lambda>r. Inr (to_cmr r)))
       (\<lambda>canonical_time.
     s_bind (join_sorted True variables) (\<lambda>vars.
       join_json '':''
         ([py_or concept_id (JStr []), JStr (case bbox of None \<Rightarrow> [] | Some b \<Rightarrow> bbox_text show_other b),
           JStr canonical_time, JStr vars, output_format] @
          (case identity_scope of None \<Rightarrow> [] | Some scope \<Rightarrow> [JStr (''identity='' @ scope)]))))"

definition compute_request_signature ::
  "(string \<Rightarrow> string) \<Rightarrow> (json \<Rightarrow> string) \<Rightarrow> json \<Rightarrow> json list option \<Rightarrow> string option \<Rightarrow> json list \<Rightarrow> json
   \<Rightarrow> string option \<Rightarrow> exn + string" where
  "compute_request_signature sha show_other concept_id bbox tr variables output_format identity_scope =
     s_bind (signature_text show_other concept_id bbox tr variables output_format identity_scope)
       (\<lambda>raw. Inr (take 24 (sha raw)))"

section \<open>Building a spec\<close>

text \<open>What the OPeNDAP discovery and the caller add to a routed plan.\<close>

record spec_extras =
  sx_time_range :: json
  sx_variables :: "json list option"
  sx_opendap_urls :: "json list"
  sx_coord_lat :: json
  sx_coord_lon :: json
  sx_coord_time :: json
  sx_lat_axis :: "spec_axis option"
  sx_lon_axis :: "spec_axis option"
  sx_var_dims :: "(string \<times> json list list) list"
  sx_var_coords :: "(string \<times> (json \<times> json)) list"
  sx_variable_expansions :: "(string \<times> json list) list"

definition from_plan ::
  "(string \<Rightarrow> string) \<Rightarrow> (json \<Rightarrow> string) \<Rightarrow> retrieval_plan \<Rightarrow> routing_decision \<Rightarrow> capabilities
   \<Rightarrow> string \<Rightarrow> string \<Rightarrow> string \<Rightarrow> spec_extras \<Rightarrow> exn + request_spec" where
  "from_plan sha show_other plan decision caps ws job_h obs_h x =
     (let service_name = (case rd_service decision of None \<Rightarrow> JNull | Some s \<Rightarrow> sv_name s);
          bbox = (case rp_aoi plan of None \<Rightarrow> None | Some a \<Rightarrow> aoi_bbox a);
          variables = (case sx_variables x of
                         Some vs \<Rightarrow> vs
                       | None \<Rightarrow> (case rp_transform plan of None \<Rightarrow> [] | Some t \<Rightarrow> ts_variables t))
      in s_bind (compute_cache_key sha show_other (cc_short_name caps) (rp_output_format plan) bbox
                   (sx_time_range x) variables service_name (JStr (cc_capabilities_version caps)))
           (\<lambda>key. Inr
              \<lparr>rs_concept_id = rp_concept_id plan, rs_short_name = cc_short_name caps,
               rs_output_format = rp_output_format plan, rs_output_shape = JStr (cc_output_shape caps),
               rs_needs_bbox = rp_needs_bbox plan, rs_needs_variable = rp_needs_variable plan,
               rs_needs_temporal = rp_needs_temporal plan,
               rs_needs_point_sample = rp_needs_point_sample plan, rs_aoi_bbox = bbox,
               rs_time_range = sx_time_range x, rs_variables = variables,
               rs_provider = JStr (rd_path decision), rs_service_name = service_name,
               rs_opendap_urls = sx_opendap_urls x, rs_coord_lat = sx_coord_lat x,
               rs_coord_lon = sx_coord_lon x, rs_coord_time = sx_coord_time x,
               rs_lat_axis = sx_lat_axis x, rs_lon_axis = sx_lon_axis x, rs_var_dims = sx_var_dims x,
               rs_var_coords = sx_var_coords x, rs_variable_expansions = sx_variable_expansions x,
               rs_workspace_id = JStr ws, rs_job_handle = JStr job_h, rs_obs_handle = JStr obs_h,
               rs_cache_key = JStr key\<rparr>))"

section \<open>Writing and reading JSONB\<close>

definition serialize_axis :: "spec_axis option \<Rightarrow> json" where
  "serialize_axis a =
     (case a of
        None \<Rightarrow> JNull
      | Some x \<Rightarrow> JObj [(''name'', sa_name x), (''origin'', sa_origin x), (''step'', sa_step x), (''length'', sa_length x)])"

definition axis_from_jsonb :: "json \<Rightarrow> exn + spec_axis option" where
  "axis_from_jsonb data =
     (if \<not> truthy data then Inr None
      else
        s_bind (py_item data ''name'') (\<lambda>n.
        s_bind (py_item data ''origin'') (\<lambda>ori.
        s_bind (py_item data ''step'') (\<lambda>st.
        s_bind (py_item data ''length'') (\<lambda>len.
          Inr (Some \<lparr>sa_name = n, sa_origin = ori, sa_step = st, sa_length = len\<rparr>))))))"

definition serialize_var_dims :: "(string \<times> json list list) list \<Rightarrow> json" where
  "serialize_var_dims ds = JObj (map (\<lambda>(var, dims). (var, JArr (map JArr dims))) ds)"

definition var_dims_from_jsonb :: "json \<Rightarrow> exn + (string \<times> json list list) list" where
  "var_dims_from_jsonb data =
     (if \<not> truthy data then Inr []
      else s_bind (py_items data)
        (s_each (\<lambda>(var, dims). s_bind (py_iter dims) (\<lambda>ps. s_bind (s_each py_iter ps) (\<lambda>ds. Inr (var, ds))))))"

definition serialize_var_coords :: "(string \<times> (json \<times> json)) list \<Rightarrow> json" where
  "serialize_var_coords cs = JObj (map (\<lambda>(var, a, b). (var, JArr [a, b])) cs)"

definition var_coords_from_jsonb :: "json \<Rightarrow> exn + (string \<times> (json \<times> json)) list" where
  "var_coords_from_jsonb data =
     (if \<not> truthy data then Inr []
      else s_bind (py_items data)
        (s_each (\<lambda>(var, pair). s_bind (py_at pair 0) (\<lambda>a. s_bind (py_at pair 1) (\<lambda>b. Inr (var, (a, b)))))))"

definition serialize_expansions :: "(string \<times> json list) list \<Rightarrow> json" where
  "serialize_expansions es = JObj (map (\<lambda>(n, paths). (n, JArr paths)) es)"

definition expansions_from_jsonb :: "json \<Rightarrow> exn + (string \<times> json list) list" where
  "expansions_from_jsonb data =
     (if \<not> truthy data then Inr []
      else s_bind (py_items data)
        (s_each (\<lambda>(n, paths). s_bind (py_iter paths) (\<lambda>ps. Inr (n, ps)))))"

definition to_jsonb :: "request_spec \<Rightarrow> dict" where
  "to_jsonb s =
     [(''concept_id'', rs_concept_id s), (''short_name'', rs_short_name s),
      (''output_format'', rs_output_format s), (''output_shape'', rs_output_shape s),
      (''needs_bbox'', JBool (rs_needs_bbox s)), (''needs_variable'', JBool (rs_needs_variable s)),
      (''needs_temporal'', JBool (rs_needs_temporal s)),
      (''needs_point_sample'', JBool (rs_needs_point_sample s)),
      (''aoi_bbox'', (case rs_aoi_bbox s of None \<Rightarrow> JNull | Some b \<Rightarrow> JArr b)),
      (''time_range'', rs_time_range s), (''variables'', JArr (rs_variables s)),
      (''provider'', rs_provider s), (''service_name'', rs_service_name s),
      (''opendap_urls'', (if rs_opendap_urls s \<noteq> [] then JArr (rs_opendap_urls s) else JNull)),
      (''opendap_url'', (case rs_opendap_urls s of [] \<Rightarrow> JNull | u # _ \<Rightarrow> u)),
      (''coord_lat'', rs_coord_lat s), (''coord_lon'', rs_coord_lon s), (''coord_time'', rs_coord_time s),
      (''lat_axis'', serialize_axis (rs_lat_axis s)), (''lon_axis'', serialize_axis (rs_lon_axis s)),
      (''var_dims'', serialize_var_dims (rs_var_dims s)),
      (''var_coords'', serialize_var_coords (rs_var_coords s)),
      (''variable_expansions'', serialize_expansions (rs_variable_expansions s)),
      (''workspace_id'', rs_workspace_id s), (''job_handle'', rs_job_handle s),
      (''obs_handle'', rs_obs_handle s), (''cache_key'', rs_cache_key s)]"

definition read_spec :: "dict \<Rightarrow> exn + request_spec" where
  "read_spec data =
     (let get = jget data;
          urls = (if \<not> truthy (get ''opendap_urls'') \<and> truthy (get ''opendap_url'')
                  then JArr [get ''opendap_url''] else get ''opendap_urls'')
      in
        s_bind (if truthy (get ''aoi_bbox'') then s_bind (py_iter (get ''aoi_bbox'')) (\<lambda>b. Inr (Some b)) else Inr None)
          (\<lambda>bbox.
        s_bind (py_iter (py_or (get ''variables'') (JArr []))) (\<lambda>variables.
        s_bind (py_iter (py_or urls (JArr []))) (\<lambda>opendap_urls.
        s_bind (axis_from_jsonb (get ''lat_axis'')) (\<lambda>lat.
        s_bind (axis_from_jsonb (get ''lon_axis'')) (\<lambda>lon.
        s_bind (var_dims_from_jsonb (get ''var_dims'')) (\<lambda>vd.
        s_bind (var_coords_from_jsonb (get ''var_coords'')) (\<lambda>vc.
        s_bind (expansions_from_jsonb (get ''variable_expansions'')) (\<lambda>ve. Inr
          \<lparr>rs_concept_id = get ''concept_id'', rs_short_name = get ''short_name'',
           rs_output_format = py_or (get ''output_format'') (JStr DEFAULT_FORMAT),
           rs_output_shape = get ''output_shape'', rs_needs_bbox = truthy (get ''needs_bbox''),
           rs_needs_variable = truthy (get ''needs_variable''),
           rs_needs_temporal = truthy (get ''needs_temporal''),
           rs_needs_point_sample = truthy (get ''needs_point_sample''), rs_aoi_bbox = bbox,
           rs_time_range = get ''time_range'', rs_variables = variables,
           rs_provider = py_or (get ''provider'') (JStr ''harmony''),
           rs_service_name = get ''service_name'', rs_opendap_urls = opendap_urls,
           rs_coord_lat = get ''coord_lat'', rs_coord_lon = get ''coord_lon'',
           rs_coord_time = get ''coord_time'', rs_lat_axis = lat, rs_lon_axis = lon,
           rs_var_dims = vd, rs_var_coords = vc, rs_variable_expansions = ve,
           rs_workspace_id = get ''workspace_id'', rs_job_handle = get ''job_handle'',
           rs_obs_handle = get ''obs_handle'',
           rs_cache_key = py_or (get ''cache_key'') (JStr [])\<rparr>)))))))))"

text \<open>\<open>except (KeyError, TypeError, ValueError, IndexError)\<close>.\<close>

fun spec_fault :: "exn \<Rightarrow> bool" where
  "spec_fault (KeyError _) = True"
| "spec_fault (TypeError _) = True"
| "spec_fault (ValueError _) = True"
| "spec_fault (IndexError _) = True"
| "spec_fault (InvalidSpecError _) = True"
| "spec_fault _ = False"

definition from_jsonb :: "dict \<Rightarrow> exn + request_spec" where
  "from_jsonb data =
     (case read_spec data of
        Inl e \<Rightarrow> Inl (if spec_fault e then InvalidSpecError ''malformed request spec: '' else e)
      | Inr s \<Rightarrow> Inr s)"

section \<open>The plan of a spec, and another window\<close>

definition range_of_json :: "json \<Rightarrow> exn + time_range option" where
  "range_of_json v =
     (if \<not> truthy v then Inr None
      else case v of
             JStr t \<Rightarrow> s_bind (from_cmr t) (\<lambda>r. Inr (Some r))
           | _ \<Rightarrow> Inl (AttributeError ''partition''))"

definition to_plan :: "request_spec \<Rightarrow> exn + retrieval_plan" where
  "to_plan s =
     s_bind (range_of_json (rs_time_range s)) (\<lambda>tr.
       Inr \<lparr>rp_output_format = rs_output_format s, rp_needs_bbox = rs_needs_bbox s,
            rp_needs_variable = rs_needs_variable s, rp_needs_temporal = rs_needs_temporal s,
            rp_needs_shape = False, rp_needs_dimension = False, rp_needs_reproject = False,
            rp_needs_point_sample = rs_needs_point_sample s, rp_concept_id = rs_concept_id s,
            rp_short_name = rs_short_name s,
            rp_aoi = (case rs_aoi_bbox s of
                        None \<Rightarrow> None
                      | Some b \<Rightarrow> if b = [] then None else Some \<lparr>aoi_bbox = Some b, aoi_geojson = JNull\<rparr>),
            rp_time_range = tr,
            rp_transform = (if rs_variables s = [] then None
                            else Some \<lparr>ts_output_format = rs_output_format s, ts_variables = rs_variables s,
                                       ts_reproject = JNull, ts_resample = JNull\<rparr>)\<rparr>)"

definition for_time_range :: "request_spec \<Rightarrow> string \<Rightarrow> request_spec" where
  "for_time_range s tr =
     s\<lparr>rs_time_range := JStr tr, rs_opendap_urls := [], rs_job_handle := JStr [], rs_obs_handle := JStr [],
       rs_cache_key := JStr []\<rparr>"

section \<open>Reading back what was written\<close>

lemma axis_roundtrip [simp]: "axis_from_jsonb (serialize_axis a) = Inr a"
  by (cases a) (simp_all add: serialize_axis_def axis_from_jsonb_def)

lemma s_each_id: "(\<And>x. x \<in> set xs \<Longrightarrow> f x = Inr x) \<Longrightarrow> s_each f xs = Inr xs"
  using s_each_map [of xs f id id] by simp

lemma var_dims_roundtrip [simp]: "var_dims_from_jsonb (serialize_var_dims ds) = Inr ds"
proof -
  have "s_each py_iter (map JArr xs) = Inr (map id xs)" for xs by (rule s_each_map) simp
  then have "s_each (\<lambda>(var, dims). s_bind (py_iter dims) (\<lambda>ps. s_bind (s_each py_iter ps) (\<lambda>ds. Inr (var, ds))))
      (map (\<lambda>(var, dims). (var, JArr (map JArr dims))) ds) = Inr (map id ds)"
    by (intro s_each_map) (auto simp: split: prod.splits)
  then show ?thesis by (auto simp: var_dims_from_jsonb_def serialize_var_dims_def)
qed

lemma var_coords_roundtrip [simp]: "var_coords_from_jsonb (serialize_var_coords cs) = Inr cs"
proof -
  have "s_each (\<lambda>(var, pair). s_bind (py_at pair 0) (\<lambda>a. s_bind (py_at pair 1) (\<lambda>b. Inr (var, (a, b)))))
      (map (\<lambda>(var, a, b). (var, JArr [a, b])) cs) = Inr (map id cs)"
    by (intro s_each_map) (auto simp: py_at_def split: prod.splits)
  then show ?thesis by (auto simp: var_coords_from_jsonb_def serialize_var_coords_def)
qed

lemma expansions_roundtrip [simp]: "expansions_from_jsonb (serialize_expansions es) = Inr es"
proof -
  have "s_each (\<lambda>(n, paths). s_bind (py_iter paths) (\<lambda>ps. Inr (n, ps)))
      (map (\<lambda>(n, paths). (n, JArr paths)) es) = Inr (map id es)"
    by (intro s_each_map) (auto split: prod.splits)
  then show ?thesis by (auto simp: expansions_from_jsonb_def serialize_expansions_def)
qed

text \<open>A spec whose mandatory fields are set, as every spec that was planned or read is.\<close>

definition spec_ok :: "request_spec \<Rightarrow> bool" where
  "spec_ok s \<longleftrightarrow> truthy (rs_output_format s) \<and> truthy (rs_provider s)
     \<and> (truthy (rs_cache_key s) \<or> rs_cache_key s = JStr []) \<and> rs_aoi_bbox s \<noteq> Some []"

lemma jget_to_jsonb:
  "jget (to_jsonb s) ''aoi_bbox'' = (case rs_aoi_bbox s of None \<Rightarrow> JNull | Some b \<Rightarrow> JArr b)"
  "jget (to_jsonb s) ''concept_id'' = rs_concept_id s" "jget (to_jsonb s) ''short_name'' = rs_short_name s"
  "jget (to_jsonb s) ''output_format'' = rs_output_format s" "jget (to_jsonb s) ''output_shape'' = rs_output_shape s"
  "jget (to_jsonb s) ''needs_bbox'' = JBool (rs_needs_bbox s)"
  "jget (to_jsonb s) ''needs_variable'' = JBool (rs_needs_variable s)"
  "jget (to_jsonb s) ''needs_temporal'' = JBool (rs_needs_temporal s)"
  "jget (to_jsonb s) ''needs_point_sample'' = JBool (rs_needs_point_sample s)"
  "jget (to_jsonb s) ''time_range'' = rs_time_range s" "jget (to_jsonb s) ''variables'' = JArr (rs_variables s)"
  "jget (to_jsonb s) ''provider'' = rs_provider s" "jget (to_jsonb s) ''service_name'' = rs_service_name s"
  "jget (to_jsonb s) ''opendap_urls'' = (if rs_opendap_urls s \<noteq> [] then JArr (rs_opendap_urls s) else JNull)"
  "jget (to_jsonb s) ''opendap_url'' = (case rs_opendap_urls s of [] \<Rightarrow> JNull | u # _ \<Rightarrow> u)"
  "jget (to_jsonb s) ''coord_lat'' = rs_coord_lat s" "jget (to_jsonb s) ''coord_lon'' = rs_coord_lon s"
  "jget (to_jsonb s) ''coord_time'' = rs_coord_time s"
  "jget (to_jsonb s) ''lat_axis'' = serialize_axis (rs_lat_axis s)"
  "jget (to_jsonb s) ''lon_axis'' = serialize_axis (rs_lon_axis s)"
  "jget (to_jsonb s) ''var_dims'' = serialize_var_dims (rs_var_dims s)"
  "jget (to_jsonb s) ''var_coords'' = serialize_var_coords (rs_var_coords s)"
  "jget (to_jsonb s) ''variable_expansions'' = serialize_expansions (rs_variable_expansions s)"
  "jget (to_jsonb s) ''workspace_id'' = rs_workspace_id s" "jget (to_jsonb s) ''job_handle'' = rs_job_handle s"
  "jget (to_jsonb s) ''obs_handle'' = rs_obs_handle s" "jget (to_jsonb s) ''cache_key'' = rs_cache_key s"
  by (simp_all add: to_jsonb_def)

lemma read_spec_to_jsonb:
  assumes "spec_ok s"
  shows "read_spec (to_jsonb s) = Inr s"
proof -
  have vars: "py_iter (py_or (JArr xs) (JArr [])) = Inr xs" for xs by (simp add: py_or_def)
  have urls: "py_iter (py_or (if \<not> truthy (if us \<noteq> [] then JArr us else JNull) \<and> truthy (case us of [] \<Rightarrow> JNull | u # _ \<Rightarrow> u)
      then JArr [case us of [] \<Rightarrow> JNull | u # _ \<Rightarrow> u] else if us \<noteq> [] then JArr us else JNull) (JArr [])) = Inr us" for us
    by (cases us) (simp_all add: py_or_def)
  have bbox: "(if truthy (case b of None \<Rightarrow> JNull | Some b \<Rightarrow> JArr b)
      then s_bind (py_iter (case b of None \<Rightarrow> JNull | Some b \<Rightarrow> JArr b)) (\<lambda>b. Inr (Some b)) else Inr None) = Inr b"
    if "b \<noteq> Some []" for b
    using that by (cases b) simp_all
  have or: "py_or (rs_output_format s) d = rs_output_format s" "py_or (rs_provider s) d = rs_provider s"
    "py_or (rs_cache_key s) (JStr []) = rs_cache_key s" for d
    using assms by (auto simp: spec_ok_def py_or_def)
  have b: "rs_aoi_bbox s \<noteq> Some []" using assms by (simp add: spec_ok_def)
  show ?thesis
    unfolding read_spec_def Let_def jget_to_jsonb vars urls bbox [OF b] or
    by simp
qed

text \<open>
  A spec written to the jobs row and the provenance edge is read back unchanged, granule URLs,
  axis geometry, dimension plans and coordinate pairs included.
\<close>

theorem spec_roundtrip:
  assumes "spec_ok s"
  shows "from_jsonb (to_jsonb s) = Inr s"
  using read_spec_to_jsonb [OF assms] by (simp add: from_jsonb_def)

definition sample_spec :: request_spec where
  "sample_spec =
     \<lparr>rs_concept_id = JStr ''C1'', rs_short_name = JStr ''GLDAS'', rs_output_format = JStr ''application/netcdf4'',
      rs_output_shape = JStr ''grid'', rs_needs_bbox = True, rs_needs_variable = True, rs_needs_temporal = True,
      rs_needs_point_sample = False, rs_aoi_bbox = Some [JInt 0, JInt 10, JInt 20, JInt 30],
      rs_time_range = JStr ''2024-01-01/2024-01-02'', rs_variables = [JStr ''rain'', JStr ''soil''],
      rs_provider = JStr ''harmony'', rs_service_name = JNull, rs_opendap_urls = [JStr ''https://g1''],
      rs_coord_lat = JStr ''lat'', rs_coord_lon = JStr ''lon'', rs_coord_time = JNull,
      rs_lat_axis = Some \<lparr>sa_name = JStr ''lat'', sa_origin = JInt 90, sa_step = JInt (-1), sa_length = JInt 180\<rparr>,
      rs_lon_axis = None, rs_var_dims = [(''rain'', [[JStr ''lat'', JNull], [JStr ''time'', JInt 1]])],
      rs_var_coords = [(''rain'', (JStr ''lat'', JStr ''lon''))], rs_variable_expansions = [],
      rs_workspace_id = JStr ''ws'', rs_job_handle = JStr ''job_1'', rs_obs_handle = JStr ''obs_1'',
      rs_cache_key = JStr ''abc''\<rparr>"

lemma sample_spec_ok: "spec_ok sample_spec"
  by (simp add: spec_ok_def sample_spec_def)

lemma spec_roundtrip_witness: "from_jsonb (to_jsonb sample_spec) = Inr sample_spec"
  by (rule spec_roundtrip) (rule sample_spec_ok)

section \<open>Malformed documents\<close>

lemma py_iter_error: "py_iter x = Inl e \<Longrightarrow> spec_fault e"
  by (auto simp: py_iter_def split: option.splits)

lemma py_item_error: "py_item x k = Inl e \<Longrightarrow> spec_fault e"
  by (auto simp: py_item_def split: json.splits option.splits)

lemma py_at_error: "py_at x i = Inl e \<Longrightarrow> spec_fault e"
  by (auto simp: py_at_def split: json.splits if_splits)

lemma s_each_error: "s_each f xs = Inl e \<Longrightarrow> \<exists>x \<in> set xs. f x = Inl e"
  by (induction xs) (auto simp: sum_simps)

lemma items_error: "py_items x = Inl e \<Longrightarrow> e = AttributeError ''items''"
  by (auto simp: py_items_def split: json.splits)

lemmas access_errors = py_iter_error py_item_error py_at_error

text \<open>The three fields that hold dictionaries.\<close>

lemma dict_field_errors:
  "var_dims_from_jsonb x = Inl e \<Longrightarrow> spec_fault e \<or> truthy x \<and> e = AttributeError ''items''"
  "var_coords_from_jsonb x = Inl e \<Longrightarrow> spec_fault e \<or> truthy x \<and> e = AttributeError ''items''"
  "expansions_from_jsonb x = Inl e \<Longrightarrow> spec_fault e \<or> truthy x \<and> e = AttributeError ''items''"
  unfolding var_dims_from_jsonb_def var_coords_from_jsonb_def expansions_from_jsonb_def
  by (auto simp: sum_simps dest!: items_error s_each_error split: if_splits prod.splits intro: access_errors)

lemma axis_error: "axis_from_jsonb x = Inl e \<Longrightarrow> spec_fault e"
  by (auto simp: axis_from_jsonb_def sum_simps split: if_splits intro: access_errors)

lemma read_spec_error:
  assumes "read_spec data = Inl e"
  shows "spec_fault e \<or> e = AttributeError ''items'' \<and>
    (truthy (jget data ''var_dims'') \<or> truthy (jget data ''var_coords'') \<or> truthy (jget data ''variable_expansions''))"
  using assms unfolding read_spec_def Let_def
  by (auto simp: sum_simps split: if_splits dest: access_errors axis_error dict_field_errors)

lemma read_spec_ok:
  assumes "read_spec data = Inr s"
  shows "spec_ok s"
proof -
  define b where "b = jget data ''aoi_bbox''"
  define box where "box = (if truthy b then s_bind (py_iter b) (\<lambda>b. Inr (Some b)) else Inr None)"
  have fields: "rs_output_format s = py_or (jget data ''output_format'') (JStr DEFAULT_FORMAT)
      \<and> rs_provider s = py_or (jget data ''provider'') (JStr ''harmony'')
      \<and> rs_cache_key s = py_or (jget data ''cache_key'') (JStr []) \<and> box = Inr (rs_aoi_bbox s)"
    using assms unfolding read_spec_def Let_def b_def [symmetric] box_def [symmetric] s_bind_Inr_iff
    by (elim exE conjE) clarsimp
  have "truthy x \<Longrightarrow> py_iter x \<noteq> Inr []" for x
    by (cases x) (auto simp: py_iter_def)
  with fields have "rs_aoi_bbox s \<noteq> Some []"
    by (auto simp: box_def s_bind_Inr_iff split: if_splits)
  with fields show ?thesis by (auto simp: spec_ok_def py_or_def DEFAULT_FORMAT_def)
qed

text \<open>
  Whatever document is stored, reading it never crashes the worker with anything but
  \<open>InvalidSpecError\<close>, save one shape: a dictionary field that holds a non-empty value of another kind
  raises an \<open>AttributeError\<close>. A document of missing fields alone is read with their defaults.
\<close>

theorem malformed_spec_is_typed:
  "(case from_jsonb data of
      Inr s \<Rightarrow> spec_ok s
    | Inl e \<Rightarrow> (\<exists>m. e = InvalidSpecError m)
        \<or> e = AttributeError ''items''
          \<and> (truthy (jget data ''var_dims'') \<or> truthy (jget data ''var_coords'') \<or> truthy (jget data ''variable_expansions'')))
   \<and> (case from_jsonb [] of Inr s \<Rightarrow> rs_provider s = JStr ''harmony'' | Inl e \<Rightarrow> False)"
proof (intro conjI)
  show "case from_jsonb [] of Inr s \<Rightarrow> rs_provider s = JStr ''harmony'' | Inl e \<Rightarrow> False"
    by (simp add: from_jsonb_def read_spec_def axis_from_jsonb_def var_dims_from_jsonb_def var_coords_from_jsonb_def
        expansions_from_jsonb_def)
  show "case from_jsonb data of
      Inr s \<Rightarrow> spec_ok s
    | Inl e \<Rightarrow> (\<exists>m. e = InvalidSpecError m)
        \<or> e = AttributeError ''items''
          \<and> (truthy (jget data ''var_dims'') \<or> truthy (jget data ''var_coords'') \<or> truthy (jget data ''variable_expansions''))"
  proof (cases "read_spec data")
    case (Inl e)
    then show ?thesis using read_spec_error [OF Inl] by (auto simp: from_jsonb_def)
  next
    case (Inr s)
    have "spec_ok s" by (rule read_spec_ok [OF Inr])
    then show ?thesis using Inr by (simp add: from_jsonb_def)
  qed
qed

section \<open>What a signature identifies\<close>

text \<open>A request as the tools sign it.\<close>

record ask =
  ak_concept :: string
  ak_bbox :: "json list option"
  ak_time :: "string option"
  ak_variables :: "string list"
  ak_format :: string
  ak_scope :: "string option"

definition ask_signature :: "(string \<Rightarrow> string) \<Rightarrow> (json \<Rightarrow> string) \<Rightarrow> ask \<Rightarrow> exn + string" where
  "ask_signature sha show_other a =
     compute_request_signature sha show_other (JStr (ak_concept a)) (ak_bbox a) (ak_time a)
       (map JStr (ak_variables a)) (JStr (ak_format a)) (ak_scope a)"

definition bbox_of :: "(json \<Rightarrow> string) \<Rightarrow> ask \<Rightarrow> string" where
  "bbox_of show_other a = (case ak_bbox a of None \<Rightarrow> [] | Some b \<Rightarrow> bbox_text show_other b)"

definition canonical_time :: "ask \<Rightarrow> exn + string" where
  "canonical_time a =
     (case ak_time a of
        None \<Rightarrow> Inr []
      | Some t \<Rightarrow> if t = [] then Inr [] else s_bind (from_cmr t) (\<lambda>r. Inr (to_cmr r)))"

text \<open>Nothing in the request contains the separators, and its time range is one.\<close>

definition clean_ask :: "(json \<Rightarrow> string) \<Rightarrow> ask \<Rightarrow> bool" where
  "clean_ask show_other a \<longleftrightarrow>
     CHR '':'' \<notin> set (ak_concept a) \<and> CHR '':'' \<notin> set (bbox_of show_other a)
     \<and> list_all (\<lambda>v. v \<noteq> [] \<and> CHR '':'' \<notin> set v \<and> CHR '','' \<notin> set v) (ak_variables a)
     \<and> CHR '':'' \<notin> set (ak_format a) \<and> \<not> py_startswith (ak_format a) ''identity=''
     \<and> (case ak_scope a of None \<Rightarrow> True | Some i \<Rightarrow> CHR '':'' \<notin> set i)
     \<and> (case canonical_time a of Inl e \<Rightarrow> False | Inr t \<Rightarrow> True)"

definition same_ask :: "(json \<Rightarrow> string) \<Rightarrow> ask \<Rightarrow> ask \<Rightarrow> bool" where
  "same_ask show_other a b \<longleftrightarrow>
     ak_concept a = ak_concept b \<and> bbox_of show_other a = bbox_of show_other b
     \<and> canonical_time a = canonical_time b \<and> set (ak_variables a) = set (ak_variables b)
     \<and> ak_format a = ak_format b \<and> ak_scope a = ak_scope b"

text \<open>The text that is hashed.\<close>

definition ask_parts :: "(json \<Rightarrow> string) \<Rightarrow> ask \<Rightarrow> string \<Rightarrow> string list" where
  "ask_parts show_other a t =
     [ak_concept a, bbox_of show_other a, t, py_join '','' (sort (remdups (ak_variables a))), ak_format a] @
     (case ak_scope a of None \<Rightarrow> [] | Some i \<Rightarrow> [''identity='' @ i])"

definition ask_text :: "(json \<Rightarrow> string) \<Rightarrow> ask \<Rightarrow> string" where
  "ask_text show_other a = (case canonical_time a of Inl e \<Rightarrow> [] | Inr t \<Rightarrow> py_join '':'' (ask_parts show_other a t))"

lemma s_each_jtext [simp]: "s_each jtext (map JStr xs) = Inr xs"
  using s_each_map [of xs jtext JStr id] by (simp add: jtext_def)

lemma join_json_texts: "join_json sep (map JStr xs) = Inr (py_join sep xs)"
  by (simp add: join_json_def)

lemma ask_signature_text:
  assumes "clean_ask show_other a"
  shows "ask_signature sha show_other a = Inr (take 24 (sha (ask_text show_other a)))"
proof -
  obtain t where t: "canonical_time a = Inr t"
    using assms by (auto simp: clean_ask_def split: sum.splits)
  have parts: "[py_or (JStr (ak_concept a)) (JStr []), JStr (bbox_of show_other a), JStr t,
      JStr (py_join '','' (sort (remdups (ak_variables a)))), JStr (ak_format a)] @
      (case ak_scope a of None \<Rightarrow> [] | Some scope \<Rightarrow> [JStr (''identity='' @ scope)])
      = map JStr (ask_parts show_other a t)"
    by (cases "ak_concept a = []") (auto simp: ask_parts_def split: option.splits)
  show ?thesis
    unfolding ask_signature_def compute_request_signature_def signature_text_def
      canonical_time_def [symmetric] bbox_of_def [symmetric] t s_bind_simps join_sorted_def s_each_jtext if_True
      parts join_json_texts ask_text_def sum.case ..
qed

lemma split_join_parts: "ws \<noteq> [] \<Longrightarrow> py_split c (py_join [c] ws) = concat (map (py_split c) ws)"
proof (induction ws)
  case Nil
  then show ?case by simp
next
  case (Cons w ws)
  show ?case
  proof (cases ws)
    case Nil
    then show ?thesis by simp
  next
    case (Cons v vs)
    then show ?thesis using Cons.IH split_append_sep [of c w] by (simp add: join_Cons)
  qed
qed

lemma join_sets:
  assumes "list_all (\<lambda>v. v \<noteq> [] \<and> c \<notin> set v) xs" and "list_all (\<lambda>v. v \<noteq> [] \<and> c \<notin> set v) ys"
    and "py_join [c] (sort (remdups xs)) = py_join [c] (sort (remdups ys))"
  shows "set xs = set ys"
proof -
  have decode: "filter (\<lambda>w. w \<noteq> []) (py_split c (py_join [c] (sort (remdups zs)))) = sort (remdups zs)"
    if zs: "list_all (\<lambda>v. v \<noteq> [] \<and> c \<notin> set v) zs" for zs
  proof (cases "zs = []")
    case False
    then have "sort (remdups zs) \<noteq> []" by (metis remdups_eq_nil_iff set_empty set_sort)
    then have "py_split c (py_join [c] (sort (remdups zs))) = sort (remdups zs)"
      by (rule split_join) (use zs in \<open>auto simp: list_all_iff\<close>)
    then show ?thesis using zs by (simp add: filter_id_conv list_all_iff)
  qed simp
  have "sort (remdups xs) = sort (remdups ys)"
    using decode [OF assms(1)] decode [OF assms(2)] unfolding assms(3) by simp
  then have "set (sort (remdups xs)) = set (sort (remdups ys))" by (rule arg_cong)
  then show ?thesis by simp
qed

lemma sort_remdups_set: "set xs = set ys \<Longrightarrow> sort (remdups xs) = sort (remdups (ys :: string list))"
  by (metis sorted_list_of_set_sort_remdups)

lemma ask_text_split:
  assumes "clean_ask show_other a" and t: "canonical_time a = Inr t"
  shows "py_split CHR '':'' (ask_text show_other a) =
    [ak_concept a, bbox_of show_other a] @ py_split CHR '':'' t @
    [py_join '','' (sort (remdups (ak_variables a))), ak_format a] @
    (case ak_scope a of None \<Rightarrow> [] | Some i \<Rightarrow> [''identity='' @ i])"
proof -
  have vars: "CHR '':'' \<notin> set (py_join '','' ws)" if "\<And>w. w \<in> set ws \<Longrightarrow> CHR '':'' \<notin> set w" for ws
    using that by (induction ws rule: induct_list012) auto
  have v: "CHR '':'' \<notin> set (py_join '','' (sort (remdups (ak_variables a))))"
    using assms(1) by (intro vars) (auto simp: clean_ask_def list_all_iff)
  then have heads: "py_split CHR '':'' (ak_concept a) = [ak_concept a]"
    "py_split CHR '':'' (bbox_of show_other a) = [bbox_of show_other a]"
    "py_split CHR '':'' (py_join '','' (sort (remdups (ak_variables a)))) = [py_join '','' (sort (remdups (ak_variables a)))]"
    "py_split CHR '':'' (ak_format a) = [ak_format a]"
    using assms(1) unfolding clean_ask_def by (intro split_no_sep; blast)+
  show ?thesis
  proof (cases "ak_scope a")
    case None
    then show ?thesis
      unfolding ask_text_def t sum.case ask_parts_def
      by (subst split_join_parts) (simp_all add: heads)
  next
    case (Some i)
    then have "CHR '':'' \<notin> set (''identity='' @ i)" using assms(1) by (simp add: clean_ask_def)
    then have "py_split CHR '':'' (''identity='' @ i) = [''identity='' @ i]" by (rule split_no_sep)
    then show ?thesis
      unfolding ask_text_def t sum.case ask_parts_def Some option.case
      by (subst split_join_parts) (simp_all add: heads)
  qed
qed

lemma ask_text_inj:
  assumes a: "clean_ask show_other a" and b: "clean_ask show_other b"
    and eq: "ask_text show_other a = ask_text show_other b"
  shows "same_ask show_other a b"
proof -
  obtain t u where t: "canonical_time a = Inr t" and u: "canonical_time b = Inr u"
    using a b by (auto simp: clean_ask_def split: sum.splits)
  let ?x = "py_join '','' (sort (remdups (ak_variables a)))" and ?y = "py_join '','' (sort (remdups (ak_variables b)))"
  let ?id = "\<lambda>s. case s of None \<Rightarrow> [] | Some i \<Rightarrow> [''identity='' @ i]"
  have parts: "[ak_concept a, bbox_of show_other a] @ py_split CHR '':'' t @ [?x, ak_format a] @ ?id (ak_scope a)
      = [ak_concept b, bbox_of show_other b] @ py_split CHR '':'' u @ [?y, ak_format b] @ ?id (ak_scope b)"
    using ask_text_split [OF a t] ask_text_split [OF b u] eq by simp
  have fmt: "ak_format x \<noteq> ''identity='' @ i" if "clean_ask show_other x" for x i
    using that startswith_append [of "''identity=''" i] unfolding clean_ask_def by metis
  have scopes: "ak_concept a = ak_concept b \<and> bbox_of show_other a = bbox_of show_other b
      \<and> py_split CHR '':'' t = py_split CHR '':'' u \<and> ?x = ?y \<and> ak_format a = ak_format b \<and> ak_scope a = ak_scope b"
  proof (cases "ak_scope a")
    case None
    show ?thesis
    proof (cases "ak_scope b")
      case None
      then show ?thesis using parts \<open>ak_scope a = None\<close> by simp
    next
      case (Some i)
      then have "last ([ak_concept a, bbox_of show_other a] @ py_split CHR '':'' t @ [?x, ak_format a]) = ''identity='' @ i"
        using parts None by simp
      then have False using fmt [OF a, of i] by simp
      then show ?thesis ..
    qed
  next
    case (Some i)
    show ?thesis
    proof (cases "ak_scope b")
      case None
      then have "last ([ak_concept b, bbox_of show_other b] @ py_split CHR '':'' u @ [?y, ak_format b]) = ''identity='' @ i"
        using parts [symmetric] Some by simp
      then have False using fmt [OF b, of i] by simp
      then show ?thesis ..
    next
      case (Some j)
      then show ?thesis using parts \<open>ak_scope a = Some i\<close> by simp
    qed
  qed
  then have "t = u" by (metis join_split)
  moreover have "set (ak_variables a) = set (ak_variables b)"
    by (rule join_sets [of "CHR '',''"]) (use a b scopes in \<open>auto simp: clean_ask_def list_all_iff\<close>)
  ultimately show ?thesis using scopes t u by (simp add: same_ask_def)
qed


definition sample_ask :: "string list \<Rightarrow> string option \<Rightarrow> ask" where
  "sample_ask vars scope =
     \<lparr>ak_concept = ''C1'', ak_bbox = None, ak_time = None, ak_variables = vars, ak_format = ''application/netcdf4'',
      ak_scope = scope\<rparr>"


section \<open>The plan of a spec\<close>

lemma for_time_range_plan:
  "to_plan s = Inr q \<Longrightarrow> range_of_json (JStr w) = Inr tr \<Longrightarrow> to_plan (for_time_range s w) = Inr (q\<lparr>rp_time_range := tr\<rparr>)"
  by (auto simp: to_plan_def for_time_range_def sum_simps)

text \<open>The part of a plan the spec keeps, with the range and the variables stored with it.\<close>

definition kept_plan :: "capabilities \<Rightarrow> time_range option \<Rightarrow> json list \<Rightarrow> retrieval_plan \<Rightarrow> retrieval_plan" where
  "kept_plan caps tr vs plan =
     plan\<lparr>rp_needs_shape := False, rp_needs_dimension := False, rp_needs_reproject := False,
      rp_short_name := cc_short_name caps, rp_time_range := tr,
      rp_aoi := (case rp_aoi plan of
                   None \<Rightarrow> None
                 | Some a \<Rightarrow> (case aoi_bbox a of None \<Rightarrow> None | Some [] \<Rightarrow> None
                                | Some (x # xs) \<Rightarrow> Some \<lparr>aoi_bbox = Some (x # xs), aoi_geojson = JNull\<rparr>)),
      rp_transform := (if vs = [] then None
         else Some \<lparr>ts_output_format = rp_output_format plan, ts_variables = vs, ts_reproject = JNull, ts_resample = JNull\<rparr>)\<rparr>"

lemma to_plan_from_plan:
  assumes "from_plan sha show_other plan decision caps ws jh oh x = Inr s"
    and "range_of_json (sx_time_range x) = Inr tr" and "sx_variables x = Some vs"
  shows "to_plan s = Inr (kept_plan caps tr vs plan)"
proof -
  have s: "rs_output_format s = rp_output_format plan" "rs_needs_bbox s = rp_needs_bbox plan"
    "rs_needs_variable s = rp_needs_variable plan" "rs_needs_temporal s = rp_needs_temporal plan"
    "rs_needs_point_sample s = rp_needs_point_sample plan" "rs_concept_id s = rp_concept_id plan"
    "rs_short_name s = cc_short_name caps" "rs_time_range s = sx_time_range x" "rs_variables s = vs"
    "rs_aoi_bbox s = (case rp_aoi plan of None \<Rightarrow> None | Some a \<Rightarrow> aoi_bbox a)"
    using assms(1,3) by (auto simp: from_plan_def Let_def sum_simps)
  show ?thesis
    unfolding to_plan_def s assms(2) kept_plan_def by (auto split: option.splits list.splits)
qed

text \<open>
  The worker rebuilds from the stored spec the plan it was routed with, over the raw time
  range and the resolved variables that were stored with it; the shape, dimension and reprojection
  needs, a GeoJSON area and a reprojection or resampling request are not part of the spec and come
  back unset. The derived spec of another window differs in its window alone and carries no granule
  URL, handle or key of the old one.
\<close>

theorem plan_survives_spec:
  assumes "from_plan sha show_other plan decision caps ws jh oh x = Inr s"
    and "range_of_json (sx_time_range x) = Inr tr" and "sx_variables x = Some vs"
    and "range_of_json (JStr w) = Inr tr'"
  shows "to_plan s = Inr (kept_plan caps tr vs plan)
    \<and> to_plan (for_time_range s w) = Inr (kept_plan caps tr' vs plan)
    \<and> rs_opendap_urls (for_time_range s w) = [] \<and> rs_job_handle (for_time_range s w) = JStr []
    \<and> rs_obs_handle (for_time_range s w) = JStr [] \<and> rs_cache_key (for_time_range s w) = JStr []"
proof -
  have "to_plan s = Inr (kept_plan caps tr vs plan)" by (rule to_plan_from_plan [OF assms(1-3)])
  moreover have "to_plan (for_time_range s w) = Inr (kept_plan caps tr' vs plan)"
    using for_time_range_plan [OF to_plan_from_plan [OF assms(1-3)] assms(4)] by (simp add: kept_plan_def)
  ultimately show ?thesis by (simp add: for_time_range_def)
qed

definition sample_extras :: spec_extras where
  "sample_extras =
     \<lparr>sx_time_range = JNull, sx_variables = Some [JStr ''rain''], sx_opendap_urls = [JStr ''https://g1''],
      sx_coord_lat = JNull, sx_coord_lon = JNull, sx_coord_time = JNull, sx_lat_axis = None, sx_lon_axis = None,
      sx_var_dims = [], sx_var_coords = [], sx_variable_expansions = []\<rparr>"

lemma plan_survives_spec_witness:
  "(case from_plan id (\<lambda>_. []) ((default_plan (JStr ''nc''))\<lparr>rp_needs_shape := True\<rparr>)
          (harmony_decision sample_router (default_plan (JStr ''nc'')) None) sample_caps ''ws'' ''job_1'' ''obs_1'' sample_extras of
      Inr s \<Rightarrow> rs_opendap_urls s = [JStr ''https://g1''] \<and> rs_opendap_urls (for_time_range s []) = []
        \<and> (case to_plan s of Inr p \<Rightarrow> \<not> rp_needs_shape p \<and> rp_short_name p = JStr ''TEMPO'' | Inl e \<Rightarrow> False)
    | Inl e \<Rightarrow> False)"
proof -
  let ?run = "from_plan id (\<lambda>_. []) ((default_plan (JStr ''nc''))\<lparr>rp_needs_shape := True\<rparr>)
          (harmony_decision sample_router (default_plan (JStr ''nc'')) None) sample_caps ''ws'' ''job_1'' ''obs_1'' sample_extras"
  have "\<exists>s. ?run = Inr s \<and> rs_opendap_urls s = [JStr ''https://g1'']"
    by (simp add: from_plan_def Let_def compute_cache_key_def join_sorted_def join_json_def jtext_def sample_extras_def
        default_plan_def sample_caps_def harmony_decision_def py_or_def)
  then obtain s where s: "?run = Inr s" "rs_opendap_urls s = [JStr ''https://g1'']" by blast
  have "to_plan s = Inr (kept_plan sample_caps None [JStr ''rain''] ((default_plan (JStr ''nc''))\<lparr>rp_needs_shape := True\<rparr>))
    \<and> to_plan (for_time_range s []) = Inr (kept_plan sample_caps None [JStr ''rain''] ((default_plan (JStr ''nc''))\<lparr>rp_needs_shape := True\<rparr>))
    \<and> rs_opendap_urls (for_time_range s []) = [] \<and> rs_job_handle (for_time_range s []) = JStr []
    \<and> rs_obs_handle (for_time_range s []) = JStr [] \<and> rs_cache_key (for_time_range s []) = JStr []"
    by (rule plan_survives_spec [OF s(1)]) (simp_all add: sample_extras_def range_of_json_def)
  then show ?thesis using s by (simp add: kept_plan_def sample_caps_def)
qed

end
