(* ===== verification/ConstraintExpression.thy ===== *)
theory ConstraintExpression
  imports RequestSpec
begin

text \<open>
  The DAP4 serialization core (\<open>providers/opendap/_serialization.py\<close>): fully qualified names, the map
  from a degree window to a range of cells, and the constraint expression. Degrees are exact
  rationals. The builder reads three things of a plan: whether it needs a box, the box, and the
  variables of its transformation (\<open>None\<close> without a transformation); they are its arguments here.
\<close>

record axis_geometry =
  ag_name :: string
  ag_origin :: rat
  ag_step :: rat
  ag_length :: int

text \<open>One variable's dimensions, as leaf names with a size; \<open>None\<close> for a spatial one.\<close>

type_synonym var_dim_plan = "(string \<times> int option) list"

type_synonym cell_range = "(int \<times> int) option"

definition fqn :: "string \<Rightarrow> string" where
  "fqn name = (if py_startswith name ''/'' then name else ''/'' @ name)"

definition leaf :: "string \<Rightarrow> string" where
  "leaf name = py_lower (after_last CHR ''/'' name)"

definition index_range :: "axis_geometry \<Rightarrow> rat \<Rightarrow> rat \<Rightarrow> cell_range" where
  "index_range axis lo hi =
     (if ag_step axis = 0 \<or> ag_length axis \<le> 0 then None
      else
        let i_lo = (lo - ag_origin axis) / ag_step axis;
            i_hi = (hi - ag_origin axis) / ag_step axis;
            (low_f, high_f) = (if ag_step axis > 0 then (i_lo, i_hi) else (i_hi, i_lo));
            low = max 0 (min \<lfloor>low_f\<rfloor> (ag_length axis - 1));
            high = max 0 (min \<lceil>high_f\<rceil> (ag_length axis - 1))
        in Some (if high \<ge> low then (low, high) else (low, low)))"

definition bracket :: "cell_range \<Rightarrow> string" where
  "bracket r = (case r of None \<Rightarrow> [] | Some (a, b) \<Rightarrow> ''['' @ show_int a @ '':'' @ show_int b @ '']'')"

definition fqn_sliced :: "string \<Rightarrow> cell_range list \<Rightarrow> string" where
  "fqn_sliced name ranges = fqn name @ concat (map bracket ranges)"

fun var_bracket_ranges :: "var_dim_plan \<Rightarrow> string \<Rightarrow> string \<Rightarrow> cell_range \<Rightarrow> cell_range \<Rightarrow> cell_range list" where
  "var_bracket_ranges [] lat_leaf lon_leaf lat_range lon_range = []"
| "var_bracket_ranges ((lf, sz) # dims) lat_leaf lon_leaf lat_range lon_range =
     (if lf = lat_leaf then lat_range
      else if lf = lon_leaf then lon_range
      else (case sz of None \<Rightarrow> None | Some n \<Rightarrow> if n = 0 then None else Some (0, n - 1)))
     # var_bracket_ranges dims lat_leaf lon_leaf lat_range lon_range"

record ce_request =
  ce_needs_bbox :: bool
  ce_bbox :: "(rat \<times> rat \<times> rat \<times> rat) option"
  ce_variables :: "string list option"
  ce_coord_lat :: "string option"
  ce_coord_lon :: "string option"
  ce_coord_time :: "string option"
  ce_lat_axis :: "axis_geometry option"
  ce_lon_axis :: "axis_geometry option"
  ce_var_dims :: "(string \<times> var_dim_plan) list option"
  ce_var_coords :: "(string \<times> (string \<times> string)) list option"

text \<open>The ranges of cells on the two axes; a box that wraps the antimeridian leaves the longitude whole.\<close>

definition slab :: "ce_request \<Rightarrow> cell_range \<times> cell_range" where
  "slab q =
     (case (ce_lat_axis q, ce_lon_axis q, ce_bbox q) of
        (Some lat, Some lon, Some (west, south, east, north)) \<Rightarrow>
          if ce_needs_bbox q then
            (index_range lat south north, if west \<le> east then index_range lon west east else None)
          else (None, None)
      | _ \<Rightarrow> (None, None))"

definition axis_leaf :: "axis_geometry option \<Rightarrow> string option \<Rightarrow> string" where
  "axis_leaf axis coord = (case (axis, coord) of (Some _, Some c) \<Rightarrow> leaf c | _ \<Rightarrow> [])"

text \<open>The projected names so far, each with its ranges; a name already there is not added again.\<close>

type_synonym projection = "(string \<times> cell_range list) list"

definition add_name :: "string \<Rightarrow> cell_range list \<Rightarrow> projection \<Rightarrow> projection" where
  "add_name name ranges ps = (if name \<in> fst ` set ps then ps else ps @ [(name, ranges)])"

definition add_coord :: "string option \<Rightarrow> cell_range list \<Rightarrow> projection \<Rightarrow> projection" where
  "add_coord c ranges ps = (case c of None \<Rightarrow> ps | Some name \<Rightarrow> add_name name ranges ps)"

definition var_ranges :: "ce_request \<Rightarrow> string \<Rightarrow> cell_range list" where
  "var_ranges q var =
     (if \<not> ce_needs_bbox q then []
      else case ce_var_dims q of
             Some vd \<Rightarrow>
               (case map_of vd var of
                  None \<Rightarrow> []
                | Some dims \<Rightarrow> var_bracket_ranges dims (axis_leaf (ce_lat_axis q) (ce_coord_lat q))
                    (axis_leaf (ce_lon_axis q) (ce_coord_lon q)) (fst (slab q)) (snd (slab q)))
           | None \<Rightarrow> [fst (slab q), snd (slab q)])"

definition own_coords :: "ce_request \<Rightarrow> string \<Rightarrow> (string \<times> string) option" where
  "own_coords q var = (case ce_var_coords q of None \<Rightarrow> None | Some vc \<Rightarrow> map_of vc var)"

definition add_var :: "ce_request \<Rightarrow> string \<Rightarrow> projection \<Rightarrow> projection" where
  "add_var q var ps =
     (let ps1 = add_name var (var_ranges q var) ps in
      case own_coords q var of None \<Rightarrow> ps1 | Some (a, b) \<Rightarrow> add_name b [] (add_name a [] ps1))"

definition projected :: "ce_request \<Rightarrow> string list \<Rightarrow> projection" where
  "projected q vars =
     (let ps0 = (if ce_needs_bbox q
                 then add_coord (ce_coord_lon q) [snd (slab q)] (add_coord (ce_coord_lat q) [fst (slab q)] [])
                 else []);
          ps1 = (case ce_coord_time q of
                   None \<Rightarrow> ps0
                 | Some t \<Rightarrow> if t = [] then ps0 else add_name t [] ps0)
      in fold (add_var q) vars ps1)"

definition build_constraint_expression :: "ce_request \<Rightarrow> string" where
  "build_constraint_expression q =
     (case ce_variables q of
        None \<Rightarrow> []
      | Some vars \<Rightarrow>
          if vars = [] then [] else py_join '';'' (map (\<lambda>(n, rs). fqn_sliced n rs) (projected q vars)))"

section \<open>The window of cells\<close>

text \<open>The coordinate of a cell.\<close>

definition cell :: "axis_geometry \<Rightarrow> int \<Rightarrow> rat" where
  "cell axis i = ag_origin axis + of_int i * ag_step axis"

lemma clamp_bounds: "0 < n \<Longrightarrow> 0 \<le> max 0 (min x (n - 1)) \<and> max 0 (min x (n - 1)) < (n :: int)"
  by auto

lemma cell_window:
  assumes "ag_step axis \<noteq> 0"
  shows "lo \<le> cell axis i \<and> cell axis i \<le> hi \<longleftrightarrow>
    (if ag_step axis > 0
     then (lo - ag_origin axis) / ag_step axis \<le> of_int i \<and> of_int i \<le> (hi - ag_origin axis) / ag_step axis
     else (hi - ag_origin axis) / ag_step axis \<le> of_int i \<and> of_int i \<le> (lo - ag_origin axis) / ag_step axis)"
proof (cases "ag_step axis > 0")
  case True
  then show ?thesis by (auto simp: cell_def field_simps)
next
  case False
  then have "ag_step axis < 0" using assms by simp
  then show ?thesis by (auto simp: cell_def field_simps)
qed

text \<open>
  A well-formed axis always yields a non-empty range of real cells. For a window that is not
  reversed, it contains every cell whose coordinate lies in the window, on ascending and descending
  axes alike, and nothing but those except possibly its first and last cell. A degenerate axis yields none.
\<close>

theorem index_range_exact:
  "(case index_range axis lo hi of
      None \<Rightarrow> ag_step axis = 0 \<or> ag_length axis \<le> 0
    | Some (a, b) \<Rightarrow>
        0 \<le> a \<and> a \<le> b \<and> b < ag_length axis
        \<and> (lo \<le> hi \<longrightarrow>
            (\<forall>i. 0 \<le> i \<and> i < ag_length axis \<and> lo \<le> cell axis i \<and> cell axis i \<le> hi \<longrightarrow> a \<le> i \<and> i \<le> b)
            \<and> (\<forall>i. a < i \<and> i < b \<longrightarrow> lo \<le> cell axis i \<and> cell axis i \<le> hi)))"
proof (cases "ag_step axis = 0 \<or> ag_length axis \<le> 0")
  case True
  then show ?thesis by (auto simp: index_range_def)
next
  case False
  then have step: "ag_step axis \<noteq> 0" and len: "0 < ag_length axis" by auto
  define p where "p = (if ag_step axis > 0 then (lo - ag_origin axis) / ag_step axis else (hi - ag_origin axis) / ag_step axis)"
  define q where "q = (if ag_step axis > 0 then (hi - ag_origin axis) / ag_step axis else (lo - ag_origin axis) / ag_step axis)"
  define a where "a = max 0 (min \<lfloor>p\<rfloor> (ag_length axis - 1))"
  define b where "b = max 0 (min \<lceil>q\<rceil> (ag_length axis - 1))"
  have run: "index_range axis lo hi = Some (if b \<ge> a then (a, b) else (a, a))"
    using False by (auto simp: index_range_def Let_def a_def b_def p_def q_def)
  have window: "lo \<le> cell axis i \<and> cell axis i \<le> hi \<longleftrightarrow> p \<le> of_int i \<and> of_int i \<le> q" for i
    unfolding cell_window [OF step] p_def q_def by simp
  have bounds: "0 \<le> a" "a < ag_length axis" "0 \<le> b" "b < ag_length axis"
    unfolding a_def b_def using clamp_bounds [OF len] by blast+
  have ordered: "a \<le> b" if "lo \<le> hi"
  proof -
    have "p \<le> q"
      unfolding p_def q_def using that step by (auto simp: divide_right_mono divide_right_mono_neg)
    then have "\<lfloor>p\<rfloor> \<le> \<lceil>q\<rceil>" by linarith
    then show ?thesis by (auto simp: a_def b_def)
  qed
  have covers: "a \<le> i \<and> i \<le> b" if "0 \<le> i" "i < ag_length axis" "p \<le> of_int i" "of_int i \<le> q" for i
  proof -
    have "\<lfloor>p\<rfloor> \<le> i" using that(3) by linarith
    moreover have "i \<le> \<lceil>q\<rceil>" using that(4) by linarith
    ultimately show ?thesis using that by (auto simp: a_def b_def)
  qed
  have tight: "p \<le> of_int i \<and> of_int i \<le> q" if "a < i" "i < b" for i
  proof -
    have "\<lfloor>p\<rfloor> < i" using that bounds by (auto simp: a_def)
    moreover have "i < \<lceil>q\<rceil>" using that bounds by (auto simp: b_def)
    ultimately show ?thesis by linarith
  qed
  show ?thesis
    unfolding run window using bounds ordered covers tight by auto
qed

definition sample_axis :: axis_geometry where
  "sample_axis = \<lparr>ag_name = ''lat'', ag_origin = 90, ag_step = - 1, ag_length = 181\<rparr>"

lemma index_range_exact_witness:
  "index_range sample_axis 10 (25 / 2) = Some (77, 80) \<and> 77 \<le> (79 :: int) \<and> (79 :: int) \<le> 80"
proof -
  have "\<lfloor>155 / 2 :: rat\<rfloor> = 77" by (simp add: floor_eq_iff)
  then have run: "index_range sample_axis 10 (25 / 2) = Some (77, 80)" by (simp add: index_range_def sample_axis_def)
  have "10 \<le> cell sample_axis 79 \<and> cell sample_axis 79 \<le> 25 / 2" by (simp add: cell_def sample_axis_def)
  moreover have "(79 :: int) < ag_length sample_axis" by (simp add: sample_axis_def)
  ultimately have "77 \<le> (79 :: int) \<and> (79 :: int) \<le> 80"
    using index_range_exact [of sample_axis 10 "25 / 2"] unfolding run option.case prod.case by simp
  with run show ?thesis by simp
qed

section \<open>The projected names\<close>

lemma add_name_distinct: "distinct (map fst ps) \<Longrightarrow> distinct (map fst (add_name n rs ps))"
  by (auto simp: add_name_def)

lemma add_name_names: "fst ` set (add_name n rs ps) = insert n (fst ` set ps)"
  by (auto simp: add_name_def)

lemma add_name_old: "p \<in> set ps \<Longrightarrow> p \<in> set (add_name n rs ps)"
  by (auto simp: add_name_def)

lemma add_name_new: "n \<notin> fst ` set ps \<Longrightarrow> (n, rs) \<in> set (add_name n rs ps)"
  by (auto simp: add_name_def)

lemma add_var_distinct: "distinct (map fst ps) \<Longrightarrow> distinct (map fst (add_var q v ps))"
  by (auto simp: add_var_def Let_def intro!: add_name_distinct split: option.splits)

definition own_names :: "ce_request \<Rightarrow> string \<Rightarrow> string set" where
  "own_names q v = (case own_coords q v of None \<Rightarrow> {} | Some (a, b) \<Rightarrow> {a, b})"

lemma add_var_names: "fst ` set (add_var q v ps) = insert v (own_names q v \<union> fst ` set ps)"
  by (auto simp: add_var_def Let_def add_name_names own_names_def split: option.splits)

lemma add_vars:
  "distinct (map fst ps) \<Longrightarrow>
     distinct (map fst (fold (add_var q) vs ps))
     \<and> fst ` set (fold (add_var q) vs ps) = set vs \<union> (\<Union>v \<in> set vs. own_names q v) \<union> fst ` set ps"
proof (induction vs arbitrary: ps)
  case Nil
  then show ?case by simp
next
  case (Cons v vs)
  from Cons.IH [OF add_var_distinct [OF Cons.prems]] show ?case by (auto simp: add_var_names)
qed

text \<open>The coordinate and time variables a request projects besides its variables.\<close>

definition shared_names :: "ce_request \<Rightarrow> string set" where
  "shared_names q =
     (if ce_needs_bbox q then set_option (ce_coord_lat q) \<union> set_option (ce_coord_lon q) else {})
     \<union> (case ce_coord_time q of None \<Rightarrow> {} | Some t \<Rightarrow> if t = [] then {} else {t})"

definition start :: "ce_request \<Rightarrow> projection" where
  "start q =
     (let ps0 = (if ce_needs_bbox q
                 then add_coord (ce_coord_lon q) [snd (slab q)] (add_coord (ce_coord_lat q) [fst (slab q)] [])
                 else [])
      in case ce_coord_time q of None \<Rightarrow> ps0 | Some t \<Rightarrow> if t = [] then ps0 else add_name t [] ps0)"

lemma add_coord_names: "fst ` set (add_coord c rs ps) = set_option c \<union> fst ` set ps"
  by (cases c) (simp_all add: add_coord_def add_name_names)

lemma add_coord_distinct: "distinct (map fst ps) \<Longrightarrow> distinct (map fst (add_coord c rs ps))"
  by (cases c) (simp_all add: add_coord_def add_name_distinct)

lemma start_names: "distinct (map fst (start q)) \<and> fst ` set (start q) = shared_names q"
proof (cases "ce_coord_time q")
  case None
  then show ?thesis by (auto simp: start_def shared_names_def add_coord_names add_coord_distinct)
next
  case (Some t)
  then show ?thesis
    by (cases "t = []") (simp_all add: start_def shared_names_def add_coord_names add_coord_distinct add_name_names
        add_name_distinct Un_commute insert_commute)
qed

lemma projected_names:
  "distinct (map fst (projected q vs))
   \<and> fst ` set (projected q vs) = shared_names q \<union> set vs \<union> (\<Union>v \<in> set vs. own_names q v)"
proof -
  have "projected q vs = fold (add_var q) vs (start q)" by (simp add: projected_def start_def Let_def)
  then show ?thesis using add_vars [of "start q" q vs] start_names [of q] by auto
qed

lemma add_var_keeps: "p \<in> set ps \<Longrightarrow> p \<in> set (add_var q v ps)"
  by (auto simp: add_var_def Let_def add_name_old split: option.splits)

lemma fold_keeps: "p \<in> set ps \<Longrightarrow> p \<in> set (fold (add_var q) vs ps)"
  by (induction vs arbitrary: ps) (auto intro: add_var_keeps)

lemma var_projected:
  assumes "v \<in> set vs" and "v \<notin> fst ` set ps" and "\<And>u. u \<in> set vs \<Longrightarrow> v \<notin> own_names q u"
  shows "(v, var_ranges q v) \<in> set (fold (add_var q) vs ps)"
  using assms
proof (induction vs arbitrary: ps)
  case Nil
  then show ?case by simp
next
  case (Cons u vs)
  show ?case
  proof (cases "u = v")
    case True
    then have "(v, var_ranges q v) \<in> set (add_var q u ps)"
      using add_name_new [OF Cons.prems(2)] by (auto simp: add_var_def Let_def add_name_old split: option.splits)
    then show ?thesis using fold_keeps by simp
  next
    case False
    then have "v \<notin> fst ` set (add_var q u ps)" using Cons.prems by (auto simp: add_var_names)
    then show ?thesis using Cons False by simp
  qed
qed

lemma bracket_dims: "length (var_bracket_ranges dims a b r s) = length dims"
  by (induction dims) auto


definition sample_ce :: ce_request where
  "sample_ce =
     \<lparr>ce_needs_bbox = True, ce_bbox = Some (170, 10, - 170, 12), ce_variables = Some [''rain''],
      ce_coord_lat = Some ''lat'', ce_coord_lon = Some ''lon'', ce_coord_time = None,
      ce_lat_axis = Some sample_axis, ce_lon_axis = Some (sample_axis\<lparr>ag_name := ''lon''\<rparr>),
      ce_var_dims = Some [(''rain'', [(''time'', Some 1), (''lat'', None), (''lon'', None)])], ce_var_coords = None\<rparr>"


end
