(* ===== verification/Jobs.thy ===== *)
theory Jobs
  imports JobState Table
begin

text \<open>
  The durable job table (\<open>jobs/models.py\<close>, \<open>jobs/crud.py\<close>): the row \<open>job\<close>, the guarded transition
  \<open>set_state\<close> every state change goes through, the reads the worker, the tools and the eviction
  service make, and the collection-restriction table. The lemmas show what a transition writes,
  that credentials are erased at rest, and that the table only ever evolves along legal paths.
\<close>

section \<open>Rows (\<open>jobs/models.py\<close>)\<close>

record job =
  j_id :: string
  j_handle :: string
  j_obs_handle :: "string option"
  j_provider :: string
  j_request_spec :: dict
  j_state :: job_state
  j_provider_job_url :: "string option"
  j_progress :: int
  j_message :: "string option"
  j_output_expires_at :: "time option"
  j_error :: "string option"
  j_last_polled_at :: "time option"
  j_credential_encrypted :: "string option"
  j_materialization :: "dict option"
  j_rebuild_cost_seconds :: "rat option"
  j_speculative :: bool
  j_created_at :: time
  j_updated_at :: time

type_synonym job_table = "job list"

text \<open>One row of \<open>collection_access\<close>: a concept id and whether it is restricted.\<close>

type_synonym access_table = "(string \<times> bool) list"

text \<open>The columns a transition may set beside the state (the keyword arguments \<open>**extra\<close>).\<close>

datatype column =
    C_provider_job_url "string option"
  | C_progress int
  | C_message "string option"
  | C_error "string option"
  | C_output_expires_at "time option"
  | C_materialization "dict option"
  | C_rebuild_cost_seconds "rat option"

fun set_column :: "column \<Rightarrow> job \<Rightarrow> job" where
  "set_column (C_provider_job_url u) j = j\<lparr>j_provider_job_url := u\<rparr>"
| "set_column (C_progress p) j = j\<lparr>j_progress := p\<rparr>"
| "set_column (C_message m) j = j\<lparr>j_message := m\<rparr>"
| "set_column (C_error e) j = j\<lparr>j_error := e\<rparr>"
| "set_column (C_output_expires_at t) j = j\<lparr>j_output_expires_at := t\<rparr>"
| "set_column (C_materialization m) j = j\<lparr>j_materialization := m\<rparr>"
| "set_column (C_rebuild_cost_seconds c) j = j\<lparr>j_rebuild_cost_seconds := c\<rparr>"

fun is_rebuild_column :: "column \<Rightarrow> bool" where
  "is_rebuild_column (C_rebuild_cost_seconds c) = True"
| "is_rebuild_column _ = False"

section \<open>Transitions\<close>

text \<open>
  \<open>_elapsed_since\<close>: \<open>None\<close> stands for a row never flushed. A time without a zone is read as UTC,
  so the instant is the argument in both cases of the source.
\<close>

definition elapsed_since :: "time \<Rightarrow> time option \<Rightarrow> rat option" where
  "elapsed_since now created_at =
     (case created_at of
        None \<Rightarrow> None
      | Some t \<Rightarrow> Some (max (of_int (now - t) / 1000000) 0))"

definition set_state :: "time \<Rightarrow> job \<Rightarrow> job_state \<Rightarrow> column list \<Rightarrow> exn + job" where
  "set_state now job new_state extra =
     (case assert_legal (j_state job) new_state of
        Inl e \<Rightarrow> Inl e
      | Inr _ \<Rightarrow>
          let j1 = job\<lparr>j_state := new_state\<rparr>;
              j2 = fold set_column extra j1;
              j3 = (if new_state = READY \<and> \<not> list_ex is_rebuild_column extra
                    then j2\<lparr>j_rebuild_cost_seconds := elapsed_since now (Some (j_created_at j2))\<rparr>
                    else j2);
              j4 = (if new_state \<in> TERMINAL_STATES then j3\<lparr>j_credential_encrypted := None\<rparr> else j3)
          in Inr j4)"

section \<open>The table\<close>

definition get_job :: "job_table \<Rightarrow> string \<Rightarrow> job option" where
  "get_job t i = row_get j_id t i"

text \<open>
  Committing a session that loaded and changed \<open>j\<close>: the row is rewritten and its \<open>updated_at\<close>
  stamped only if some column changed.
\<close>

definition commit_job :: "time \<Rightarrow> job \<Rightarrow> job_table \<Rightarrow> job_table" where
  "commit_job now j t =
     (if get_job t (j_id j) = Some j then t else row_put j_id (j\<lparr>j_updated_at := now\<rparr>) t)"

definition create_job ::
  "time \<Rightarrow> string \<Rightarrow> string \<Rightarrow> string option \<Rightarrow> string \<Rightarrow> dict \<Rightarrow> string option \<Rightarrow> bool
   \<Rightarrow> job_table \<Rightarrow> exn + job_table" where
  "create_job now job_id job_handle obs_handle provider request_spec credential_encrypted speculative t =
     (if list_ex (\<lambda>j. j_id j = job_id \<or> j_handle j = job_handle) t
      then Inl (IntegrityError ''jobs'')
      else Inr (row_insert
        \<lparr>j_id = job_id, j_handle = job_handle, j_obs_handle = obs_handle, j_provider = provider,
         j_request_spec = request_spec, j_state = PENDING, j_provider_job_url = None,
         j_progress = 0, j_message = None, j_output_expires_at = None, j_error = None,
         j_last_polled_at = None, j_credential_encrypted = credential_encrypted,
         j_materialization = None, j_rebuild_cost_seconds = None, j_speculative = speculative,
         j_created_at = now, j_updated_at = now\<rparr> t))"

definition get_job_by_handle :: "job_table \<Rightarrow> string \<Rightarrow> job option" where
  "get_job_by_handle t h = List.find (\<lambda>j. j_handle j = h) t"

definition get_job_by_obs_handle :: "job_table \<Rightarrow> string \<Rightarrow> job option" where
  "get_job_by_obs_handle t h = newest j_created_at (filter (\<lambda>j. j_obs_handle j = Some h) t)"

definition previous_materialization :: "job_table \<Rightarrow> string \<Rightarrow> string \<Rightarrow> dict option" where
  "previous_materialization t h before_job_id =
     (case newest j_created_at
             (filter (\<lambda>j. j_obs_handle j = Some h \<and> j_id j \<noteq> before_job_id
                          \<and> j_materialization j \<noteq> None) t) of
        None \<Rightarrow> None
      | Some j \<Rightarrow> j_materialization j)"

fun setdefault :: "'k \<Rightarrow> 'v \<Rightarrow> ('k \<times> 'v) list \<Rightarrow> ('k \<times> 'v) list" where
  "setdefault k v m = (case map_of m k of None \<Rightarrow> m @ [(k, v)] | Some _ \<Rightarrow> m)"

definition rebuild_costs :: "job_table \<Rightarrow> string list \<Rightarrow> (string \<times> rat) list" where
  "rebuild_costs t obs_handles =
     (if obs_handles = [] then []
      else fold (\<lambda>j m. case (j_obs_handle j, j_rebuild_cost_seconds j) of
                         (Some h, Some c) \<Rightarrow> setdefault h c m
                       | _ \<Rightarrow> m)
             (newest_first j_created_at
               (filter (\<lambda>j. (case j_obs_handle j of None \<Rightarrow> False | Some h \<Rightarrow> h \<in> set obs_handles)
                            \<and> j_rebuild_cost_seconds j \<noteq> None) t))
             [])"

definition user_work_in_flight :: "job_table \<Rightarrow> bool" where
  "user_work_in_flight t \<longleftrightarrow> list_ex (\<lambda>j. j_state j \<notin> TERMINAL_STATES \<and> \<not> j_speculative j) t"

definition speculative_jobs_since :: "job_table \<Rightarrow> string \<Rightarrow> time \<Rightarrow> nat" where
  "speculative_jobs_since t workspace_id since =
     length (filter (\<lambda>j. j_speculative j
                         \<and> jget (j_request_spec j) ''workspace_id'' = JStr workspace_id
                         \<and> since \<le> j_created_at j) t)"

definition reclaim_non_terminal :: "job_table \<Rightarrow> job list" where
  "reclaim_non_terminal t = sort_key j_created_at (filter (\<lambda>j. j_state j \<notin> TERMINAL_STATES) t)"

definition liveness :: "job \<Rightarrow> time" where
  "liveness j = (case j_last_polled_at j of Some p \<Rightarrow> p | None \<Rightarrow> j_updated_at j)"

definition reclaim_stalled :: "job_table \<Rightarrow> time \<Rightarrow> time option \<Rightarrow> job list" where
  "reclaim_stalled t stalled_before materializing_stalled_before =
     (let mat = (case materializing_stalled_before of None \<Rightarrow> stalled_before | Some m \<Rightarrow> m)
      in sort_key j_created_at
           (filter (\<lambda>j. j_state j \<notin> TERMINAL_STATES
                        \<and> liveness j < (if j_state j = MATERIALIZING then mat else stalled_before)) t))"

definition transition_state ::
  "time \<Rightarrow> string \<Rightarrow> job_state \<Rightarrow> column list \<Rightarrow> job_table \<Rightarrow> exn + job_table" where
  "transition_state now job_id new_state extra t =
     (case get_job t job_id of
        None \<Rightarrow> Inl (JobNotFoundError job_id)
      | Some job \<Rightarrow>
          (case set_state now job new_state extra of
             Inl e \<Rightarrow> Inl e
           | Inr job' \<Rightarrow> Inr (commit_job now job' t)))"

definition mark_collection_restricted :: "string \<Rightarrow> access_table \<Rightarrow> access_table" where
  "mark_collection_restricted concept_id t = AList.update concept_id True t"

definition collection_restriction :: "access_table \<Rightarrow> string \<Rightarrow> bool option" where
  "collection_restriction t concept_id = map_of t concept_id"

section \<open>What the table keeps\<close>

text \<open>The columns no operation of the system ever rewrites.\<close>

definition same_job :: "job \<Rightarrow> job \<Rightarrow> bool" where
  "same_job j j' \<longleftrightarrow> j_id j' = j_id j \<and> j_handle j' = j_handle j \<and> j_obs_handle j' = j_obs_handle j
     \<and> j_speculative j' = j_speculative j \<and> j_created_at j' = j_created_at j"

definition job_advances :: "job \<Rightarrow> job \<Rightarrow> bool" where
  "job_advances j j' \<longleftrightarrow> same_job j j' \<and> legal_path (j_state j) (j_state j')"

text \<open>No row disappears and every row moves along legal transitions only.\<close>

definition jobs_evolve :: "job_table \<Rightarrow> job_table \<Rightarrow> bool" where
  "jobs_evolve t t' \<longleftrightarrow>
     (\<forall>i j. get_job t i = Some j \<longrightarrow> (\<exists>j'. get_job t' i = Some j' \<and> job_advances j j'))"

text \<open>A credential is stored only while its job is running (PRD 022).\<close>

definition cred_at_rest :: "job \<Rightarrow> bool" where
  "cred_at_rest j \<longleftrightarrow> (j_state j \<in> TERMINAL_STATES \<longrightarrow> j_credential_encrypted j = None)"

definition jobs_ok :: "job_table \<Rightarrow> bool" where
  "jobs_ok t \<longleftrightarrow> distinct (map j_id t) \<and> distinct (map j_handle t) \<and> list_all cred_at_rest t"

lemma job_advances_refl [simp]: "job_advances j j"
  by (simp add: job_advances_def same_job_def legal_path.refl)

lemma job_advances_trans: "job_advances a b \<Longrightarrow> job_advances b c \<Longrightarrow> job_advances a c"
  by (auto simp: job_advances_def same_job_def intro: legal_path_trans)

lemma jobs_evolve_refl [simp]: "jobs_evolve t t"
  by (simp add: jobs_evolve_def)

lemma jobs_evolve_trans: "jobs_evolve s t \<Longrightarrow> jobs_evolve t u \<Longrightarrow> jobs_evolve s u"
  unfolding jobs_evolve_def by (meson job_advances_trans)

interpretation jobs: row_table j_id get_job "row_put j_id" row_insert
  by unfold_locales (auto simp: get_job_def list_table.get_put list_table.get_ins
      dest: list_table.get_key)

lemma get_job_mem: "get_job t i = Some j \<Longrightarrow> j \<in> set t \<and> j_id j = i"
  by (auto simp: get_job_def dest: row_get_Some)

lemma get_job_of_mem: "jobs_ok t \<Longrightarrow> j \<in> set t \<Longrightarrow> get_job t (j_id j) = Some j"
  by (simp add: get_job_def jobs_ok_def row_get_distinct)

subsection \<open>One transition\<close>

lemma fold_set_column_frame:
  "j_id (fold set_column cs j) = j_id j \<and> j_handle (fold set_column cs j) = j_handle j
   \<and> j_obs_handle (fold set_column cs j) = j_obs_handle j
   \<and> j_provider (fold set_column cs j) = j_provider j
   \<and> j_request_spec (fold set_column cs j) = j_request_spec j
   \<and> j_state (fold set_column cs j) = j_state j
   \<and> j_last_polled_at (fold set_column cs j) = j_last_polled_at j
   \<and> j_credential_encrypted (fold set_column cs j) = j_credential_encrypted j
   \<and> j_speculative (fold set_column cs j) = j_speculative j
   \<and> j_created_at (fold set_column cs j) = j_created_at j
   \<and> j_updated_at (fold set_column cs j) = j_updated_at j"
proof (induction cs arbitrary: j)
  case Nil
  then show ?case by simp
next
  case (Cons c cs)
  show ?case by (cases c) (simp_all add: Cons.IH)
qed

lemma fold_set_column_rebuild:
  "\<not> list_ex is_rebuild_column cs \<Longrightarrow>
   j_rebuild_cost_seconds (fold set_column cs j) = j_rebuild_cost_seconds j"
proof (induction cs arbitrary: j)
  case Nil
  then show ?case by simp
next
  case (Cons c cs)
  then show ?case by (cases c) simp_all
qed

lemma set_state_raises_iff:
  "(\<exists>e. set_state now j s cs = Inl e) \<longleftrightarrow> \<not> legal_step (j_state j) s"
  by (auto simp: set_state_def assert_legal_def legal_step.simps Let_def)

lemma set_state_ok:
  assumes "set_state now j s cs = Inr j'"
  shows "legal_step (j_state j) s" and "j_state j' = s" and "same_job j j'"
    and "j_request_spec j' = j_request_spec j" and "j_provider j' = j_provider j"
    and "j_last_polled_at j' = j_last_polled_at j"
    and "j_credential_encrypted j' =
      (if s \<in> TERMINAL_STATES then None else j_credential_encrypted j)"
proof -
  show "legal_step (j_state j) s"
    using assms set_state_raises_iff [of now j s cs] by force
  with assms show "j_state j' = s" and "same_job j j'"
    and "j_request_spec j' = j_request_spec j" and "j_provider j' = j_provider j"
    and "j_last_polled_at j' = j_last_polled_at j"
    and "j_credential_encrypted j' =
      (if s \<in> TERMINAL_STATES then None else j_credential_encrypted j)"
    by (auto simp: set_state_def assert_legal_def legal_step.simps Let_def same_job_def
        fold_set_column_frame split: if_splits)
qed

lemma set_state_Inr_iff: "(\<exists>j'. set_state now j s cs = Inr j') \<longleftrightarrow> legal_step (j_state j) s"
  by (metis set_state_ok(1) set_state_raises_iff sum.exhaust)

lemma set_state_advances: "set_state now j s cs = Inr j' \<Longrightarrow> job_advances j j'"
  by (auto simp: job_advances_def dest: set_state_ok intro: legal_path_one)

lemma set_state_cred: "set_state now j s cs = Inr j' \<Longrightarrow> cred_at_rest j'"
  by (simp add: cred_at_rest_def set_state_ok)

text \<open>
  The guarded transition. \<open>set_state\<close> succeeds exactly on a legal edge (and otherwise raises
  without a change); the job it yields is in the new state with its identity, spec and provider
  unchanged, its stored credential erased if the new state is terminal and kept otherwise, and at
  \<open>ready\<close> its build cost measured from creation unless the caller passed one.
\<close>

theorem set_state_correct:
  "(\<exists>j'. set_state now j s cs = Inr j') = (s \<in> LEGAL_TRANSITIONS (j_state j))
   \<and> (\<forall>j'. set_state now j s cs = Inr j' \<longrightarrow>
        j_state j' = s \<and> same_job j j' \<and> j_request_spec j' = j_request_spec j
        \<and> j_provider j' = j_provider j
        \<and> j_credential_encrypted j' = (if s \<in> TERMINAL_STATES then None else j_credential_encrypted j)
        \<and> (s = READY \<and> \<not> list_ex is_rebuild_column cs \<longrightarrow>
             j_rebuild_cost_seconds j' = Some (max (of_int (now - j_created_at j) / 1000000) 0)))"
proof (intro conjI allI impI)
  show "(\<exists>j'. set_state now j s cs = Inr j') = (s \<in> LEGAL_TRANSITIONS (j_state j))"
    by (simp add: set_state_Inr_iff legal_step.simps)
  fix j'
  assume ok: "set_state now j s cs = Inr j'"
  show "j_state j' = s" "same_job j j'" "j_request_spec j' = j_request_spec j"
    "j_provider j' = j_provider j"
    "j_credential_encrypted j' = (if s \<in> TERMINAL_STATES then None else j_credential_encrypted j)"
    using set_state_ok [OF ok] by simp_all
  assume r: "s = READY \<and> \<not> list_ex is_rebuild_column cs"
  with ok set_state_ok(1) [OF ok]
  show "j_rebuild_cost_seconds j' = Some (max (of_int (now - j_created_at j) / 1000000) 0)"
    by (auto simp: set_state_def assert_legal_def legal_step.simps Let_def elapsed_since_def
        fold_set_column_frame TERMINAL_STATES_def)
qed

definition sample_job :: job where
  "sample_job = \<lparr>j_id = ''j1'', j_handle = ''job_1'', j_obs_handle = Some ''obs_1'',
     j_provider = ''harmony'', j_request_spec = [], j_state = PENDING, j_provider_job_url = None,
     j_progress = 0, j_message = None, j_output_expires_at = None, j_error = None,
     j_last_polled_at = None, j_credential_encrypted = Some ''blob'', j_materialization = None,
     j_rebuild_cost_seconds = None, j_speculative = False, j_created_at = 0, j_updated_at = 0\<rparr>"

theorem set_state_correct_witness:
  "\<exists>j'. set_state 5000000 (sample_job\<lparr>j_state := MATERIALIZING\<rparr>) READY [C_progress 100] = Inr j'
        \<and> j_credential_encrypted j' = None \<and> j_rebuild_cost_seconds j' = Some 5"
proof -
  obtain j' where ok: "set_state 5000000 (sample_job\<lparr>j_state := MATERIALIZING\<rparr>) READY [C_progress 100] = Inr j'"
    using set_state_correct [of 5000000 "sample_job\<lparr>j_state := MATERIALIZING\<rparr>" READY "[C_progress 100]"]
    by auto
  then show ?thesis
    using set_state_correct [of 5000000 "sample_job\<lparr>j_state := MATERIALIZING\<rparr>" READY "[C_progress 100]"]
    by (auto simp: TERMINAL_STATES_def sample_job_def max_def)
qed

subsection \<open>The table\<close>

lemma commit_job_get:
  "get_job (commit_job now j t) i =
     (if i = j_id j \<and> get_job t i \<noteq> None \<and> get_job t i \<noteq> Some j
      then Some (j\<lparr>j_updated_at := now\<rparr>) else get_job t i)"
  by (auto simp: commit_job_def jobs.get_put)

lemma updated_at_frame [simp]:
  "j_state (j\<lparr>j_updated_at := now\<rparr>) = j_state j"
  "same_job x (j\<lparr>j_updated_at := now\<rparr>) = same_job x j"
  "job_advances x (j\<lparr>j_updated_at := now\<rparr>) = job_advances x j"
  "cred_at_rest (j\<lparr>j_updated_at := now\<rparr>) = cred_at_rest j"
  by (simp_all add: same_job_def job_advances_def cred_at_rest_def)

lemma commit_job_evolves:
  assumes "get_job t (j_id j) = Some old" and "job_advances old j"
  shows "jobs_evolve t (commit_job now j t)"
  using assms by (auto simp: jobs_evolve_def commit_job_get)

lemma map_row_put_same:
  assumes "distinct (map key t)" "x \<in> set t" "key r = key x" "f r = f x"
  shows "map f (row_put key r t) = map f t"
  using assms by (auto simp: row_put_def inj_on_def distinct_map)

lemma commit_job_ok:
  assumes "jobs_ok t" and "get_job t (j_id j) = Some old" and "same_job old j" and "cred_at_rest j"
  shows "jobs_ok (commit_job now j t)"
proof -
  have old: "old \<in> set t" "j_id old = j_id j" using assms(2) by (auto dest: get_job_mem)
  have h: "map j_handle (row_put j_id (j\<lparr>j_updated_at := now\<rparr>) t) = map j_handle t"
    using assms old by (intro map_row_put_same [of j_id t old]) (auto simp: jobs_ok_def same_job_def)
  have "list_all cred_at_rest (row_put j_id (j\<lparr>j_updated_at := now\<rparr>) t)"
    using assms by (auto simp: jobs_ok_def list_all_iff dest!: set_row_put)
  with h assms(1) show ?thesis
    by (simp add: commit_job_def jobs_ok_def)
qed

lemma create_job_evolves: "create_job now i h oh p sp c spec t = Inr t' \<Longrightarrow> jobs_evolve t t'"
  by (auto simp: create_job_def jobs_evolve_def jobs.get_ins_keeps split: if_splits)

lemma create_job_ok: "create_job now i h oh p sp c spec t = Inr t' \<Longrightarrow> jobs_ok t \<Longrightarrow> jobs_ok t'"
  by (auto simp: create_job_def jobs_ok_def list_ex_iff list_all_iff cred_at_rest_def
      TERMINAL_STATES_def row_insert_def split: if_splits)

lemma transition_state_evolves:
  assumes "transition_state now i s cs t = Inr t'"
  shows "jobs_evolve t t'"
proof -
  obtain j j' where j: "get_job t i = Some j" "set_state now j s cs = Inr j'" "t' = commit_job now j' t"
    using assms by (auto simp: transition_state_def split: option.splits sum.splits)
  then have "j_id j' = i" using set_state_ok(3) [OF j(2)] by (auto simp: same_job_def dest: get_job_mem)
  with j show ?thesis by (auto intro: commit_job_evolves set_state_advances)
qed

lemma transition_state_ok:
  assumes "transition_state now i s cs t = Inr t'" and "jobs_ok t"
  shows "jobs_ok t'"
proof -
  obtain j j' where j: "get_job t i = Some j" "set_state now j s cs = Inr j'" "t' = commit_job now j' t"
    using assms by (auto simp: transition_state_def split: option.splits sum.splits)
  then have "j_id j' = i" using set_state_ok(3) [OF j(2)] by (auto simp: same_job_def dest: get_job_mem)
  with j assms(2) show ?thesis
    by (auto intro: commit_job_ok set_state_cred set_state_ok(3) [OF j(2)])
qed

lemma transition_state_get:
  assumes "transition_state now i s cs t = Inr t'"
  shows "\<exists>j j'. get_job t i = Some j \<and> set_state now j s cs = Inr j'
     \<and> get_job t' i = Some (j'\<lparr>j_updated_at := now\<rparr>) \<and> (\<forall>k. k \<noteq> i \<longrightarrow> get_job t' k = get_job t k)"
proof -
  obtain j j' where j: "get_job t i = Some j" "set_state now j s cs = Inr j'" "t' = commit_job now j' t"
    using assms by (auto simp: transition_state_def split: option.splits sum.splits)
  have id: "j_id j' = i" using j set_state_ok(3) [OF j(2)] by (auto simp: same_job_def dest: get_job_mem)
  have "state_rank (j_state j) < state_rank (j_state j')"
    using set_state_ok [OF j(2)] by (auto dest: legal_step_rank)
  then have "j' \<noteq> j" by auto
  with j id show ?thesis by (auto simp: commit_job_get)
qed

end
