(* ===== verification/Redaction.thy ===== *)
theory Redaction
  imports Prelude
begin

text \<open>
  The secret redaction chokepoint (\<open>redaction.py\<close>): a bounded register of secrets and the scrubbing
  of texts and JSON structures. The lemmas show that the register never grows past its bound and
  always holds the secret just registered, and that no registered secret survives the scrubbing.
\<close>

section \<open>The register of secrets\<close>

definition REDACTED :: string where
  "REDACTED = ''[redacted]''"

definition MAX_SECRETS :: nat where
  "MAX_SECRETS = 256"

definition MIN_SECRET_LENGTH :: nat where
  "MIN_SECRET_LENGTH = 8"

text \<open>The keys of the \<open>OrderedDict\<close>, oldest first.\<close>

type_synonym secrets = "string list"

text \<open>\<open>while len(_secrets) > _MAX_SECRETS: _secrets.popitem(last=False)\<close>.\<close>

fun pop_oldest :: "secrets \<Rightarrow> secrets" where
  "pop_oldest [] = []"
| "pop_oldest (s # ss) = (if length (s # ss) > MAX_SECRETS then pop_oldest ss else s # ss)"

definition register_secret :: "string option \<Rightarrow> secrets \<Rightarrow> secrets" where
  "register_secret value ss =
     (case value of
        None \<Rightarrow> ss
      | Some v \<Rightarrow>
          if v = [] \<or> length v < MIN_SECRET_LENGTH then ss
          else pop_oldest (filter (\<lambda>x. x \<noteq> v) ss @ [v]))"

definition clear_secrets :: "secrets \<Rightarrow> secrets" where
  "clear_secrets ss = []"

section \<open>Scrubbing\<close>

fun redact_each :: "secrets \<Rightarrow> string \<Rightarrow> string" where
  "redact_each [] t = t"
| "redact_each (secret # ss) t =
     redact_each ss (if py_contains t secret then py_replace secret REDACTED t else t)"

definition redact :: "secrets \<Rightarrow> string \<Rightarrow> string" where
  "redact ss t = (if t = [] \<or> ss = [] then t else redact_each ss t)"

text \<open>Object keys are kept as they are.\<close>

fun redact_obj :: "secrets \<Rightarrow> json \<Rightarrow> json" where
  "redact_obj ss (JStr t) = (if ss = [] then JStr t else JStr (redact ss t))"
| "redact_obj ss (JObj d) = (if ss = [] then JObj d else JObj (map (\<lambda>(k, v). (k, redact_obj ss v)) d))"
| "redact_obj ss (JArr xs) = (if ss = [] then JArr xs else JArr (map (redact_obj ss) xs))"
| "redact_obj ss JNull = JNull"
| "redact_obj ss (JBool b) = JBool b"
| "redact_obj ss (JInt i) = JInt i"
| "redact_obj ss (JFloat r) = JFloat r"

text \<open>The log record factory: the formatted message of every record.\<close>

definition log_message :: "secrets \<Rightarrow> string \<Rightarrow> string" where
  "log_message ss msg = (if ss \<noteq> [] then redact ss msg else msg)"

section \<open>The register is bounded and keeps the newest secrets\<close>

definition secrets_ok :: "secrets \<Rightarrow> bool" where
  "secrets_ok ss \<longleftrightarrow> distinct ss \<and> length ss \<le> MAX_SECRETS
     \<and> (\<forall>s \<in> set ss. MIN_SECRET_LENGTH \<le> length s)"

lemma pop_oldest_drop: "pop_oldest ss = drop (length ss - MAX_SECRETS) ss"
  by (induction ss) (auto simp: Suc_diff_le)

lemma pop_oldest_length: "length (pop_oldest ss) \<le> MAX_SECRETS"
  by (simp add: pop_oldest_drop)

lemma pop_oldest_distinct: "distinct ss \<Longrightarrow> distinct (pop_oldest ss)"
  by (simp add: pop_oldest_drop)

lemma pop_oldest_subset: "x \<in> set (pop_oldest ss) \<Longrightarrow> x \<in> set ss"
  by (auto simp: pop_oldest_drop dest: in_set_dropD)

lemma register_secret_ok: "secrets_ok ss \<Longrightarrow> secrets_ok (register_secret v ss)"
  by (cases v)
    (auto simp: secrets_ok_def register_secret_def pop_oldest_length not_less dest!: pop_oldest_subset
      intro: pop_oldest_distinct)

lemma register_secret_mem:
  "MIN_SECRET_LENGTH \<le> length v \<Longrightarrow> v \<in> set (register_secret (Some v) ss)"
  by (auto simp: register_secret_def pop_oldest_drop MIN_SECRET_LENGTH_def MAX_SECRETS_def)

lemma register_secret_keeps:
  assumes "length ss < MAX_SECRETS" and "s \<in> set ss"
  shows "s \<in> set (register_secret v ss)"
proof (cases v)
  case (Some w)
  have "length (filter (\<lambda>x. x \<noteq> w) ss) \<le> length ss" by simp
  then show ?thesis using assms Some
    by (auto simp: register_secret_def pop_oldest_drop simp del: length_filter_le)
qed (use assms in \<open>simp add: register_secret_def\<close>)

section \<open>No registered secret survives\<close>

text \<open>
  A secret can be scrubbed for good if it cannot arise from the marker itself: it has no brackets
  (an EDL token, a dotted base64url text, has none) and is not part of the word inside the marker.
\<close>

definition scrubbable :: "string \<Rightarrow> bool" where
  "scrubbable s \<longleftrightarrow> s \<noteq> [] \<and> CHR ''['' \<notin> set s \<and> CHR '']'' \<notin> set s \<and> \<not> py_contains ''redacted'' s"

lemma contains_across:
  assumes "c \<notin> set u" and "py_contains (a @ c # b) u"
  shows "py_contains a u \<or> py_contains b u"
proof -
  obtain x y where eq: "a @ c # b = x @ u @ y" using assms(2) by (auto simp: contains_iff)
  show ?thesis
  proof (cases "length a < length x")
    case True
    then have "drop (Suc (length a)) (a @ c # b) = drop (Suc (length a)) x @ u @ y"
      by (simp add: eq)
    then show ?thesis by (auto simp: contains_iff)
  next
    case False
    show ?thesis
    proof (cases "length x + length u \<le> length a")
      case True
      then have "take (length a) (a @ c # b) = x @ u @ take (length a - length x - length u) y"
        by (simp add: eq)
      then show ?thesis by (auto simp: contains_iff)
    next
      case F: False
      have "(x @ u @ y) ! length a = c" by (metis eq nth_append_length)
      then have "u ! (length a - length x) = c"
        using False F by (auto simp: nth_append)
      moreover have "length a - length x < length u" using False F by simp
      ultimately show ?thesis using assms(1) nth_mem by blast
    qed
  qed
qed

lemma contains_across_marker:
  assumes "scrubbable u" and "py_contains (a @ REDACTED @ b) u"
  shows "py_contains a u \<or> py_contains b u"
proof -
  have "REDACTED = CHR ''['' # ''redacted'' @ [CHR '']'']" by (simp add: REDACTED_def)
  then have "py_contains (a @ CHR ''['' # (''redacted'' @ CHR '']'' # b)) u"
    using assms(2) by (simp add: REDACTED_def)
  then show ?thesis
    using assms(1) contains_across unfolding scrubbable_def by blast
qed

lemma replace_introduces_nothing:
  assumes "scrubbable u"
  shows "py_contains (p @ py_replace old REDACTED t) u \<Longrightarrow> py_contains (p @ t) u"
proof (induction t arbitrary: p rule: length_induct)
  case (1 t)
  show ?case
  proof (cases t)
    case Nil
    then show ?thesis using 1 by (simp add: replace_Nil)
  next
    case (Cons c cs)
    show ?thesis
    proof (cases "old \<noteq> [] \<and> py_startswith t old")
      case True
      then obtain r where t: "t = old @ r" by (auto simp: startswith_iff_prefix prefix_def)
      have "py_replace old REDACTED t = REDACTED @ py_replace old REDACTED r"
        using True by (simp add: t replace_match)
      then have "py_contains p u \<or> py_contains ([] @ py_replace old REDACTED r) u"
        using contains_across_marker [OF assms] 1(2) by auto
      moreover have "length r < length t" using True t by simp
      ultimately have "py_contains p u \<or> py_contains r u" using 1(1) by (metis append_Nil)
      then show ?thesis by (auto simp: contains_iff t) (metis append.assoc)+
    next
      case False
      then have "py_replace old REDACTED t = c # py_replace old REDACTED cs"
        using Cons by (subst py_replace.simps) auto
      then show ?thesis using 1 Cons by (metis append.assoc append_Cons append_Nil length_Cons lessI)
    qed
  qed
qed

lemma replace_removes:
  assumes "scrubbable old" and "\<And>i. i < length p \<Longrightarrow> \<not> py_startswith (drop i (p @ t)) old"
  shows "\<not> py_contains (p @ py_replace old REDACTED t) old"
  using assms(2)
proof (induction t arbitrary: p rule: length_induct)
  case (1 t)
  have ne: "old \<noteq> []" using assms(1) by (simp add: scrubbable_def)
  have nop: "\<not> py_contains p old"
  proof
    assume "py_contains p old"
    then obtain a b where p: "p = a @ old @ b" by (auto simp: contains_iff)
    then have "length a < length p" using ne by simp
    moreover have "py_startswith (drop (length a) (p @ t)) old" by (simp add: p)
    ultimately show False using 1(2) by blast
  qed
  show ?case
  proof (cases t)
    case Nil
    then show ?thesis using nop by (simp add: replace_Nil)
  next
    case (Cons c cs)
    show ?thesis
    proof (cases "py_startswith t old")
      case True
      then obtain r where t: "t = old @ r" by (auto simp: startswith_iff_prefix prefix_def)
      have "py_replace old REDACTED t = REDACTED @ py_replace old REDACTED r"
        using ne by (simp add: t replace_match)
      moreover have "length r < length t" using ne t by simp
      then have "\<not> py_contains ([] @ py_replace old REDACTED r) old"
        using 1(1) by (metis less_zeroE list.size(3))
      ultimately show ?thesis
        using contains_across_marker [OF assms(1)] nop by auto
    next
      case False
      then have "py_replace old REDACTED t = c # py_replace old REDACTED cs"
        using Cons by (simp add: replace_skip)
      moreover have "\<not> py_startswith (drop i ((p @ [c]) @ cs)) old" if "i < length (p @ [c])" for i
        using that 1(2) [of i] False Cons by (cases "i = length p") auto
      then have "\<not> py_contains ((p @ [c]) @ py_replace old REDACTED cs) old"
        using 1(1) Cons by (metis length_Cons lessI)
      ultimately show ?thesis by simp
    qed
  qed
qed

lemma redact_each_introduces_nothing:
  "scrubbable u \<Longrightarrow> py_contains (redact_each ss t) u \<Longrightarrow> py_contains t u"
  by (induction ss arbitrary: t)
    (auto split: if_splits dest: replace_introduces_nothing [of _ "[]", simplified])

lemma redact_each_removes:
  "(\<And>s. s \<in> set ss \<Longrightarrow> scrubbable s) \<Longrightarrow> u \<in> set ss \<Longrightarrow> \<not> py_contains (redact_each ss t) u"
proof (induction ss arbitrary: t)
  case (Cons s ss)
  show ?case
  proof (cases "u \<in> set ss")
    case True
    then show ?thesis using Cons by auto
  next
    case False
    then have "u = s" "scrubbable s" using Cons.prems by auto
    then have "\<not> py_contains (py_replace u REDACTED t) u"
      using replace_removes [of u "[]" t] by simp
    then show ?thesis
      using \<open>u = s\<close> \<open>scrubbable s\<close> redact_each_introduces_nothing [of u ss] by auto
  qed
qed simp

lemma redact_removes:
  "(\<And>s. s \<in> set ss \<Longrightarrow> scrubbable s) \<Longrightarrow> u \<in> set ss \<Longrightarrow> \<not> py_contains (redact ss t) u"
  by (cases "t = []") (auto simp: redact_def redact_each_removes scrubbable_def neq_Nil_conv)

text \<open>The strings in value position of a JSON structure.\<close>

fun string_values :: "json \<Rightarrow> string set" where
  "string_values (JStr t) = {t}"
| "string_values (JArr xs) = (\<Union>x \<in> set xs. string_values x)"
| "string_values (JObj d) = (\<Union>(k, v) \<in> set d. string_values v)"
| "string_values _ = {}"

lemma string_values_redact:
  "ss \<noteq> [] \<Longrightarrow> string_values (redact_obj ss j) = redact ss ` string_values j"
  by (induction j) (force+)

text \<open>
  C27: every text, log message and JSON value that went through the chokepoint is free of every
  registered secret, the register holds at most 256 of them and always the one just registered.
\<close>

theorem redaction_complete:
  assumes "secrets_ok ss" and "\<And>s. s \<in> set ss \<Longrightarrow> scrubbable s"
    and "scrubbable v" and "MIN_SECRET_LENGTH \<le> length v"
    and "ss' = register_secret (Some v) ss" and "u = v \<or> u \<in> set ss'"
  shows "secrets_ok ss' \<and> \<not> py_contains (redact ss' t) u \<and> \<not> py_contains (log_message ss' t) u
     \<and> (\<forall>w \<in> string_values (redact_obj ss' j). \<not> py_contains w u)"
proof -
  have v: "v \<in> set ss'" unfolding assms(5) by (rule register_secret_mem [OF assms(4)])
  then have u: "u \<in> set ss'" and ne: "ss' \<noteq> []" using assms(6) by auto
  have "s \<in> set ss' \<Longrightarrow> s = v \<or> s \<in> set ss" for s
    unfolding assms(5) by (auto simp: register_secret_def pop_oldest_drop split: if_splits dest: in_set_dropD)
  then have scrub: "\<And>s. s \<in> set ss' \<Longrightarrow> scrubbable s" using assms(2,3) by blast
  have gone: "\<not> py_contains (redact ss' w) u" for w by (rule redact_removes [OF scrub u])
  have "secrets_ok ss'" unfolding assms(5) by (rule register_secret_ok [OF assms(1)])
  then show ?thesis
    using gone ne by (auto simp: log_message_def string_values_redact)
qed

lemma redaction_complete_witness:
  "\<not> py_contains (redact (register_secret (Some ''secret-token'') []) ''auth secret-token failed'') ''secret-token''
   \<and> redact (register_secret (Some ''secret-token'') []) ''auth secret-token failed'' = ''auth [redacted] failed''"
proof
  show "\<not> py_contains (redact (register_secret (Some ''secret-token'') []) ''auth secret-token failed'') ''secret-token''"
    using redaction_complete [of "[]" "''secret-token''" _ "''secret-token''" "''auth secret-token failed''"]
    by (simp add: secrets_ok_def scrubbable_def MIN_SECRET_LENGTH_def)
  show "redact (register_secret (Some ''secret-token'') []) ''auth secret-token failed'' = ''auth [redacted] failed''"
    by (simp add: redact_def register_secret_def MIN_SECRET_LENGTH_def MAX_SECRETS_def REDACTED_def
        py_replace.simps)
qed

end
