(* ===== verification/Provenance.thy ===== *)
theory Provenance
  imports Workspace Redaction
begin

text \<open>
  The provenance graph (\<open>workspace/provenance.py\<close>): derivation edges and events, the rule that an
  edge never carries a staged-output URL, the recursive ancestry query with its depth guard, the
  event timeline and the recovery of a durable request spec. The lemmas show that the ancestry
  query returns the shortest distances, that it terminates on cycles and misses no ancestor, and
  that what is stored is redacted and free of URLs.
\<close>

section \<open>Rows (\<open>workspace/models.py\<close>)\<close>

record edge =
  e_workspace_id :: string
  e_target :: string
  e_source :: string
  e_request_spec :: "dict option"
  e_granule_ids :: "string list option"
  e_created_at :: time

record event =
  v_workspace_id :: string
  v_handle :: string
  v_type :: event_type
  v_detail :: dict
  v_created_at :: time

section \<open>Recording\<close>

definition URL_PREFIXES :: "string list" where
  "URL_PREFIXES = [''http://'', ''https://'', ''s3://'', ''gs://'']"

definition DURABLE_URL_KEYS :: "string list" where
  "DURABLE_URL_KEYS = [''opendap_url'', ''opendap_urls'']"

definition looks_like_url :: "json \<Rightarrow> bool" where
  "looks_like_url item =
     (case item of JStr s \<Rightarrow> list_ex (py_startswith (py_lower s)) URL_PREFIXES | _ \<Rightarrow> False)"

definition reject_url_spec :: "dict option \<Rightarrow> exn + unit" where
  "reject_url_spec request_spec =
     (case request_spec of
        None \<Rightarrow> Inr ()
      | Some spec \<Rightarrow>
          if list_ex (\<lambda>(key, value). key \<notin> set DURABLE_URL_KEYS
                \<and> list_ex looks_like_url (case value of JArr xs \<Rightarrow> xs | _ \<Rightarrow> [value])) spec
          then Inl (ProvenanceError ''request_spec must be re-materializable, not a staged-output URL'')
          else Inr ())"

definition redact_dict :: "secrets \<Rightarrow> dict \<Rightarrow> dict" where
  "redact_dict ss d = (case redact_obj ss (JObj d) of JObj d' \<Rightarrow> d' | _ \<Rightarrow> d)"

definition record_edge ::
  "secrets \<Rightarrow> time \<Rightarrow> string \<Rightarrow> string \<Rightarrow> string \<Rightarrow> dict option \<Rightarrow> string list option \<Rightarrow> edge list
   \<Rightarrow> exn + edge list" where
  "record_edge ss now ws target source request_spec granule_ids es =
     (let spec = map_option (redact_dict ss) request_spec
      in case reject_url_spec spec of
           Inl e \<Rightarrow> Inl e
         | Inr _ \<Rightarrow>
             Inr (es @ [\<lparr>e_workspace_id = ws, e_target = target, e_source = source,
                         e_request_spec = spec, e_granule_ids = granule_ids, e_created_at = now\<rparr>]))"

definition record_event ::
  "secrets \<Rightarrow> time \<Rightarrow> string \<Rightarrow> string \<Rightarrow> event_type \<Rightarrow> dict \<Rightarrow> event list \<Rightarrow> event list" where
  "record_event ss now ws h ty detail vs =
     vs @ [\<lparr>v_workspace_id = ws, v_handle = h, v_type = ty, v_detail = redact_dict ss detail,
            v_created_at = now\<rparr>]"

definition mark_expired :: "secrets \<Rightarrow> time \<Rightarrow> string \<Rightarrow> string \<Rightarrow> dict \<Rightarrow> event list \<Rightarrow> event list" where
  "mark_expired ss now ws h detail vs = record_event ss now ws h E_EXPIRED detail vs"

section \<open>Ancestry\<close>

text \<open>
  \<open>_ANCESTRY_SQL\<close>. The recursive term of the query joins the rows of one depth with the edges of
  the workspace, as long as the depth is below the guard; \<open>UNION ALL\<close> keeps every row. \<open>walk\<close> is
  that iteration: its first argument is how often the recursive term may still run.
\<close>

definition sources_of :: "edge list \<Rightarrow> string \<Rightarrow> string \<Rightarrow> string list" where
  "sources_of es ws h = map e_source (filter (\<lambda>e. e_target e = h \<and> e_workspace_id e = ws) es)"

fun walk :: "edge list \<Rightarrow> string \<Rightarrow> nat \<Rightarrow> nat \<Rightarrow> string list \<Rightarrow> (string \<times> nat) list" where
  "walk es ws k d [] = []"
| "walk es ws 0 d hs = map (\<lambda>h. (h, d)) hs"
| "walk es ws (Suc k) d hs =
     map (\<lambda>h. (h, d)) hs @ walk es ws k (Suc d) (concat (map (sources_of es ws) hs))"

text \<open>\<open>SELECT handle, MIN(depth) ... GROUP BY handle ORDER BY depth, handle\<close>.\<close>

definition min_depth :: "(string \<times> nat) list \<Rightarrow> string \<Rightarrow> nat" where
  "min_depth rows h = fold min (map snd (filter (\<lambda>r. fst r = h) rows)) (snd (hd (filter (\<lambda>r. fst r = h) rows)))"

definition group_rows :: "(string \<times> nat) list \<Rightarrow> (string \<times> nat) list" where
  "group_rows rows =
     sort_key (\<lambda>(h, d). (d, h)) (map (\<lambda>h. (h, min_depth rows h)) (remdups (map fst rows)))"

definition ancestry :: "edge list \<Rightarrow> string \<Rightarrow> string \<Rightarrow> nat \<Rightarrow> (string \<times> nat) list" where
  "ancestry es ws start max_depth =
     group_rows (walk es ws (max_depth - 1) 1 (sources_of es ws start))"

definition default_max_depth :: nat where
  "default_max_depth = 10000"

section \<open>Events and the durable spec\<close>

definition events_of :: "event list \<Rightarrow> string \<Rightarrow> string \<Rightarrow> event list" where
  "events_of vs ws h =
     newest_first v_created_at (filter (\<lambda>v. v_handle v = h \<and> v_workspace_id v = ws) vs)"

text \<open>
  A missing spec is written by the database layer as SQL \<open>NULL\<close> or as a JSON \<open>null\<close>, which is not
  \<open>NULL\<close>; \<open>sql_null\<close> says which.
\<close>

definition re_materialize ::
  "bool \<Rightarrow> time \<Rightarrow> edge list \<Rightarrow> string \<Rightarrow> string \<Rightarrow> event list \<Rightarrow> exn + (dict \<times> event list)" where
  "re_materialize sql_null now es ws h vs =
     (let rows = filter (\<lambda>e. e_target e = h \<and> e_workspace_id e = ws
                              \<and> (e_request_spec e \<noteq> None \<or> \<not> sql_null)) es;
          spec = (case newest e_created_at rows of None \<Rightarrow> None | Some e \<Rightarrow> e_request_spec e)
      in case spec of
           None \<Rightarrow> Inl (ProvenanceError (''no re-materializable spec for handle '' @ py_repr h
                         @ '' in workspace '' @ py_repr ws))
         | Some s \<Rightarrow>
             Inr (s, vs @ [\<lparr>v_workspace_id = ws, v_handle = h, v_type = E_RE_MATERIALIZED,
                            v_detail = [(''from_spec'', JBool True)], v_created_at = now\<rparr>]))"

section \<open>What a stored edge carries\<close>

lemma redact_dict_conv:
  "redact_dict ss d = (if ss = [] then d else map (\<lambda>(k, v). (k, redact_obj ss v)) d)"
  by (simp add: redact_dict_def)

definition url_free :: "dict \<Rightarrow> bool" where
  "url_free d \<longleftrightarrow> (\<forall>(k, v) \<in> set d. k \<in> {''opendap_url'', ''opendap_urls''} \<or>
     (\<forall>item \<in> set (case v of JArr xs \<Rightarrow> xs | _ \<Rightarrow> [v]). \<not> looks_like_url item))"

lemma reject_url_spec_Inr: "reject_url_spec (Some d) = Inr () \<longleftrightarrow> url_free d"
  by (force simp: reject_url_spec_def url_free_def list_ex_iff DURABLE_URL_KEYS_def)

definition edges_ok :: "edge list \<Rightarrow> bool" where
  "edges_ok es \<longleftrightarrow> (\<forall>e \<in> set es. \<forall>d. e_request_spec e = Some d \<longrightarrow> url_free d)"

lemma record_edge_Inr:
  assumes "record_edge ss now ws target source spec gids es = Inr es'"
  shows "es' = es @ [\<lparr>e_workspace_id = ws, e_target = target, e_source = source,
      e_request_spec = map_option (redact_dict ss) spec, e_granule_ids = gids, e_created_at = now\<rparr>]
    \<and> (\<forall>d. spec = Some d \<longrightarrow> url_free (redact_dict ss d))"
  using assms by (cases spec) (auto simp: record_edge_def Let_def simp flip: reject_url_spec_Inr split: sum.splits)

lemma record_edge_ok: "record_edge ss now ws t s spec gids es = Inr es' \<Longrightarrow> edges_ok es \<Longrightarrow> edges_ok es'"
  by (auto simp: edges_ok_def dest!: record_edge_Inr)

section \<open>Ancestry is the shortest distance\<close>

definition derivation :: "edge list \<Rightarrow> string \<Rightarrow> (string \<times> string) set" where
  "derivation es ws = {(e_target e, e_source e) | e. e \<in> set es \<and> e_workspace_id e = ws}"

lemma set_sources_of: "set (sources_of es ws h) = {a. (h, a) \<in> derivation es ws}"
  by (auto simp: sources_of_def derivation_def)

lemma finite_derivation: "finite (derivation es ws)"
  by (simp add: derivation_def)

lemma card_derivation: "card (derivation es ws) \<le> length es"
proof -
  have "derivation es ws \<subseteq> (\<lambda>e. (e_target e, e_source e)) ` set es"
    by (auto simp: derivation_def)
  then have "card (derivation es ws) \<le> card ((\<lambda>e. (e_target e, e_source e)) ` set es)"
    by (simp add: card_mono)
  also have "\<dots> \<le> card (set es)" by (rule card_image_le) simp
  also have "\<dots> \<le> length es" by (rule card_length)
  finally show ?thesis .
qed

lemma relpow_Suc_first: "(x, a) \<in> R ^^ Suc n \<longleftrightarrow> (\<exists>y. (x, y) \<in> R \<and> (y, a) \<in> R ^^ n)"
  by (metis relpow_Suc_D2 relpow_Suc_I2)

lemma set_walk:
  "set (walk es ws k d hs) = {(a, d + n) | a n. n \<le> k \<and> (\<exists>h \<in> set hs. (h, a) \<in> derivation es ws ^^ n)}"
proof (induction es ws k d hs rule: walk.induct)
  case (1 es ws k d)
  then show ?case by simp
next
  case (2 es ws d h hs)
  then show ?case by auto
next
  case (3 es ws k d h hs)
  let ?R = "derivation es ws" and ?next = "concat (map (sources_of es ws) (h # hs))"
  have next_set: "set ?next = {a. \<exists>x \<in> set (h # hs). (x, a) \<in> ?R}"
    by (auto simp: set_sources_of)
  have step: "(\<exists>y \<in> set ?next. (y, a) \<in> ?R ^^ n) \<longleftrightarrow> (\<exists>x \<in> set (h # hs). (x, a) \<in> ?R ^^ Suc n)" for a n
    unfolding next_set relpow_Suc_first by blast
  have "set (walk es ws (Suc k) d (h # hs)) = (\<lambda>x. (x, d)) ` set (h # hs)
      \<union> {(a, Suc d + n) | a n. n \<le> k \<and> (\<exists>x \<in> set (h # hs). (x, a) \<in> ?R ^^ Suc n)}"
    using 3 step by (simp del: relpow.simps)
  also have "\<dots> = {(a, d + n) | a n. n \<le> Suc k \<and> (\<exists>x \<in> set (h # hs). (x, a) \<in> ?R ^^ n)}" (is "?A \<union> ?B = ?C")
  proof
    show "?A \<union> ?B \<subseteq> ?C" by (fastforce intro: exI [of _ "0::nat"] exI [of _ "Suc _"])
    show "?C \<subseteq> ?A \<union> ?B"
    proof
      fix r
      assume "r \<in> ?C"
      then obtain a n where r: "r = (a, d + n)" "n \<le> Suc k" "\<exists>x \<in> set (h # hs). (x, a) \<in> ?R ^^ n"
        by blast
      then show "r \<in> ?A \<union> ?B" by (cases n) auto
    qed
  qed
  finally show ?case .
qed

lemma fold_min_least:
  "fold min xs (a :: nat) \<in> set (a # xs) \<and> (\<forall>x \<in> set (a # xs). fold min xs a \<le> x)"
proof (induction xs arbitrary: a)
  case (Cons x xs)
  have "fold min xs (min x a) \<in> set (min x a # xs) \<and> (\<forall>y \<in> set (min x a # xs). fold min xs (min x a) \<le> y)"
    by (rule Cons.IH)
  then show ?case by (cases "x \<le> a") (auto simp: min_absorb1 min_absorb2)
qed simp

lemma min_depth_least:
  assumes "h \<in> fst ` set rows"
  shows "(h, min_depth rows h) \<in> set rows \<and> (\<forall>d. (h, d) \<in> set rows \<longrightarrow> min_depth rows h \<le> d)"
proof -
  let ?f = "filter (\<lambda>r. fst r = h) rows"
  obtain r rs where f: "?f = r # rs" using assms
    by (cases ?f) (auto simp: filter_empty_conv)
  have ds: "d \<in> set (map snd ?f) \<longleftrightarrow> (h, d) \<in> set rows" for d by force
  have "min_depth rows h \<in> set (snd (hd ?f) # map snd ?f)
      \<and> (\<forall>x \<in> set (snd (hd ?f) # map snd ?f). min_depth rows h \<le> x)"
    unfolding min_depth_def by (rule fold_min_least)
  moreover have "set (snd (hd ?f) # map snd ?f) = set (map snd ?f)" by (simp add: f)
  ultimately show ?thesis using ds by metis
qed

lemma set_group_rows:
  "(h, d) \<in> set (group_rows rows) \<longleftrightarrow> (h, d) \<in> set rows \<and> (\<forall>d'. (h, d') \<in> set rows \<longrightarrow> d \<le> d')"
proof -
  have "(h, d) \<in> set (group_rows rows) \<longleftrightarrow> h \<in> fst ` set rows \<and> d = min_depth rows h"
    by (auto simp: group_rows_def)
  also have "\<dots> \<longleftrightarrow> (h, d) \<in> set rows \<and> (\<forall>d'. (h, d') \<in> set rows \<longrightarrow> d \<le> d')"
    using min_depth_least [of h rows] by (metis fst_conv image_eqI order_antisym)
  finally show ?thesis .
qed

lemma fst_image_conv: "fst ` A = {a. \<exists>n. (a, n) \<in> A}"
  by force

lemma fst_group_rows: "fst ` set (group_rows rows) = fst ` set rows"
  by (simp add: group_rows_def image_image)

text \<open>
  C28: the ancestry query lists each ancestor of a handle within its workspace exactly once, with
  its shortest distance, ordered by distance and handle. It ends on cyclic graphs, and a depth
  guard of at least the number of edges misses no ancestor.
\<close>

theorem ancestry_correct:
  assumes "0 < max_depth"
  shows "((h, d) \<in> set (ancestry es ws start max_depth) \<longleftrightarrow>
      0 < d \<and> d \<le> max_depth \<and> (start, h) \<in> derivation es ws ^^ d
      \<and> (\<forall>n < d. 0 < n \<longrightarrow> (start, h) \<notin> derivation es ws ^^ n))
    \<and> distinct (map fst (ancestry es ws start max_depth))
    \<and> sorted (map (\<lambda>(h, d). (d, h)) (ancestry es ws start max_depth))
    \<and> (length es \<le> max_depth \<longrightarrow>
        fst ` set (ancestry es ws start max_depth) = {a. (start, a) \<in> (derivation es ws)\<^sup>+})"
proof -
  let ?R = "derivation es ws" and ?rows = "walk es ws (max_depth - 1) 1 (sources_of es ws start)"
  have suc: "(\<exists>y \<in> set (sources_of es ws start). (y, a) \<in> ?R ^^ n) \<longleftrightarrow> (start, a) \<in> ?R ^^ Suc n" for a n
    by (simp only: set_sources_of relpow_Suc_first) blast
  have rows: "(a, n) \<in> set ?rows \<longleftrightarrow> 0 < n \<and> n \<le> max_depth \<and> (start, a) \<in> ?R ^^ n" for a n
  proof (cases n)
    case (Suc m)
    then show ?thesis using assms suc [of a m] by (auto simp: set_walk)
  qed (simp add: set_walk)
  have least: "(a, n) \<in> set (ancestry es ws start max_depth) \<longleftrightarrow>
      0 < n \<and> n \<le> max_depth \<and> (start, a) \<in> ?R ^^ n \<and> (\<forall>m < n. 0 < m \<longrightarrow> (start, a) \<notin> ?R ^^ m)" for a n
    unfolding ancestry_def set_group_rows rows by (meson le_trans linorder_not_le nat_less_le)
  have all: "fst ` set (ancestry es ws start max_depth) = {a. (start, a) \<in> ?R\<^sup>+}" if "length es \<le> max_depth"
  proof -
    have "fst ` set (ancestry es ws start max_depth) = fst ` set ?rows"
      by (simp add: ancestry_def fst_group_rows)
    also have "\<dots> = {a. \<exists>n. 0 < n \<and> n \<le> max_depth \<and> (start, a) \<in> ?R ^^ n}"
      unfolding fst_image_conv rows ..
    also have "\<dots> = {a. (start, a) \<in> ?R\<^sup>+}"
    proof -
      have "card ?R \<le> max_depth" using card_derivation [of es ws] that by simp
      then have "(start, a) \<in> ?R\<^sup>+ \<longleftrightarrow> (\<exists>n. 0 < n \<and> n \<le> max_depth \<and> (start, a) \<in> ?R ^^ n)" for a
        using relpow_finite_bounded1 [OF finite_derivation [of es ws]]
        unfolding trancl_finite_eq_relpow [OF finite_derivation] trancl_power
        by (auto intro: le_trans)
      then show ?thesis by simp
    qed
    finally show ?thesis .
  qed
  have "distinct (map fst (ancestry es ws start max_depth))"
    by (simp add: ancestry_def group_rows_def distinct_map comp_def inj_on_def)
  moreover have "sorted (map (\<lambda>(h, d). (d, h)) (ancestry es ws start max_depth))"
    unfolding ancestry_def group_rows_def by (rule sorted_sort_key)
  ultimately show ?thesis using least all by blast
qed

definition sample_edges :: "edge list" where
  "sample_edges =
     [\<lparr>e_workspace_id = ''w'', e_target = ''sink'', e_source = ''a'', e_request_spec = None,
       e_granule_ids = None, e_created_at = 1\<rparr>,
      \<lparr>e_workspace_id = ''w'', e_target = ''a'', e_source = ''sink'', e_request_spec = None,
       e_granule_ids = None, e_created_at = 2\<rparr>,
      \<lparr>e_workspace_id = ''v'', e_target = ''sink'', e_source = ''b'', e_request_spec = None,
       e_granule_ids = None, e_created_at = 3\<rparr>]"

lemma ancestry_correct_witness:
  "ancestry sample_edges ''w'' ''sink'' 4 = [(''a'', 1), (''sink'', 2)]
   \<and> (''sink'', ''sink'') \<in> derivation sample_edges ''w'' ^^ 2
   \<and> {''a'', ''sink''} = {a. (''sink'', a) \<in> (derivation sample_edges ''w'')\<^sup>+}"
proof -
  have run: "ancestry sample_edges ''w'' ''sink'' 4 = [(''a'', 1), (''sink'', 2)]"
    by (simp add: ancestry_def sample_edges_def sources_of_def group_rows_def min_depth_def
        eval_nat_numeral)
  show ?thesis
    using ancestry_correct [of 4 "''sink''" 2 sample_edges "''w''" "''sink''"] unfolding run
    by (simp add: sample_edges_def)
qed



end
