(* ===== verification/Storage.thy ===== *)
theory Storage
  imports JobState
begin

text \<open>
  The object store (\<open>storage/backend.py\<close>) and its local filesystem implementation
  (\<open>storage/local.py\<close>). The locale \<open>object_store\<close> is the contract the rest of the system uses: what
  a read returns after a write and after a delete. It is interpreted on the filesystem model, whose
  lemmas also show that no key reaches a file outside the storage root.
\<close>

section \<open>The contract\<close>

locale object_store =
  fixes addr :: "string \<Rightarrow> exn + 'p"
    and get :: "'s \<Rightarrow> string \<Rightarrow> exn + string"
    and put :: "'s \<Rightarrow> string \<Rightarrow> string \<Rightarrow> exn + 's"
    and del :: "'s \<Rightarrow> string \<Rightarrow> exn + 's"
  assumes put_get: "put s k d = Inr s' \<Longrightarrow> get s' k' = (if addr k' = addr k then Inr d else get s k')"
    and del_get: "del s k = Inr s' \<Longrightarrow>
      get s' k' = (if addr k' = addr k then Inl (KeyError k') else get s k')"
begin

lemma put_put: "put s k d = Inr s' \<Longrightarrow> put s' k d' = Inr s'' \<Longrightarrow> get s'' k = Inr d'"
  by (simp add: put_get)

lemma put_del: "put s k d = Inr s' \<Longrightarrow> del s' k = Inr s'' \<Longrightarrow> get s'' k = Inl (KeyError k)"
  by (simp add: del_get)

lemma del_other: "del s k = Inr s' \<Longrightarrow> addr k' \<noteq> addr k \<Longrightarrow> get s' k' = get s k'"
  by (simp add: del_get)

lemma put_other: "put s k d = Inr s' \<Longrightarrow> addr k' \<noteq> addr k \<Longrightarrow> get s' k' = get s k'"
  by (simp add: put_get)

lemma del_del: "del s k = Inr s' \<Longrightarrow> del s' k = Inr s'' \<Longrightarrow> get s'' k' = get s' k'"
  by (simp add: del_get)

end

section \<open>A filesystem\<close>

text \<open>
  A path is the list of its components below \<open>/\<close>, without symbolic links. Files hold bytes
  (8-bit characters); directories are listed.
\<close>

type_synonym path = "string list"

record filesys =
  fs_files :: "(path \<times> string) list"
  fs_dirs :: "path list"

definition OSError :: exn where
  "OSError = LibErr (OtherClass ''OSError'') []"

text \<open>\<open>path.parent.mkdir(parents=True, exist_ok=True)\<close> followed by \<open>path.write_bytes(data)\<close>.\<close>

definition write_file :: "filesys \<Rightarrow> path \<Rightarrow> string \<Rightarrow> exn + filesys" where
  "write_file fs p data =
     (if list_ex (\<lambda>q. map_of (fs_files fs) q \<noteq> None) (prefixes (butlast p)) then Inl OSError
      else if p \<in> set (fs_dirs fs) then Inl OSError
      else Inr (fs\<lparr>fs_files := AList.update p data (fs_files fs),
                   fs_dirs := filter (\<lambda>q. q \<notin> set (fs_dirs fs)) (prefixes (butlast p)) @ fs_dirs fs\<rparr>))"

text \<open>\<open>path.unlink(missing_ok=True)\<close>.\<close>

definition unlink :: "filesys \<Rightarrow> path \<Rightarrow> exn + filesys" where
  "unlink fs p =
     (if p \<in> set (fs_dirs fs) then Inl OSError
      else if map_of (fs_files fs) p \<noteq> None then Inr (fs\<lparr>fs_files := AList.delete p (fs_files fs)\<rparr>)
      else if list_ex (\<lambda>q. map_of (fs_files fs) q \<noteq> None) (prefixes (butlast p)) then Inl OSError
      else Inr fs)"

section \<open>The local backend (\<open>storage/local.py\<close>)\<close>

text \<open>\<open>(base / key).resolve()\<close>: an absolute key replaces the base, \<open>..\<close> climbs.\<close>

definition resolve_step :: "string \<Rightarrow> path \<Rightarrow> path" where
  "resolve_step c acc = (if c = '''' \<or> c = ''.'' then acc else if c = ''..'' then butlast acc else acc @ [c])"

definition resolve_path :: "path \<Rightarrow> string \<Rightarrow> path" where
  "resolve_path base key =
     fold resolve_step (py_split (CHR ''/'') key) (if py_startswith key ''/'' then [] else base)"

definition local_path :: "path \<Rightarrow> string \<Rightarrow> exn + path" where
  "local_path rt key =
     (let path = resolve_path rt key
      in if path \<noteq> rt \<and> \<not> strict_prefix rt path
         then Inl (ValueError (''key escapes storage root: '' @ py_repr key))
         else Inr path)"

definition local_put :: "path \<Rightarrow> filesys \<Rightarrow> string \<Rightarrow> string \<Rightarrow> exn + filesys" where
  "local_put rt fs key data =
     (case local_path rt key of Inl e \<Rightarrow> Inl e | Inr p \<Rightarrow> write_file fs p data)"

text \<open>\<open>put_file\<close> copies a file whose bytes are \<open>data\<close>.\<close>

definition local_put_file :: "path \<Rightarrow> filesys \<Rightarrow> string \<Rightarrow> path \<Rightarrow> exn + filesys" where
  "local_put_file rt fs key src =
     (case local_path rt key of
        Inl e \<Rightarrow> Inl e
      | Inr p \<Rightarrow> (case map_of (fs_files fs) src of None \<Rightarrow> Inl OSError | Some data \<Rightarrow> write_file fs p data))"

definition local_get :: "path \<Rightarrow> filesys \<Rightarrow> string \<Rightarrow> exn + string" where
  "local_get rt fs key =
     (case local_path rt key of
        Inl e \<Rightarrow> Inl e
      | Inr p \<Rightarrow> (case map_of (fs_files fs) p of None \<Rightarrow> Inl (KeyError key) | Some d \<Rightarrow> Inr d))"

definition local_delete :: "path \<Rightarrow> filesys \<Rightarrow> string \<Rightarrow> exn + filesys" where
  "local_delete rt fs key =
     (case local_path rt key of Inl e \<Rightarrow> Inl e | Inr p \<Rightarrow> unlink fs p)"

text \<open>\<open>path.relative_to(root).as_posix()\<close>.\<close>

definition key_of_path :: "path \<Rightarrow> path \<Rightarrow> string" where
  "key_of_path rt p = py_join ''/'' (drop (length rt) p)"

definition local_list :: "path \<Rightarrow> filesys \<Rightarrow> string \<Rightarrow> string list" where
  "local_list rt fs pre =
     sort (filter (\<lambda>k. py_startswith k pre)
       (map (key_of_path rt) (filter (strict_prefix rt) (map fst (fs_files fs)))))"

definition local_stat :: "path \<Rightarrow> filesys \<Rightarrow> string \<Rightarrow> exn + (string \<times> nat)" where
  "local_stat rt fs key =
     (case local_get rt fs key of Inl e \<Rightarrow> Inl e | Inr d \<Rightarrow> Inr (key, length d))"

text \<open>\<open>path.as_uri()\<close> is an argument.\<close>

definition local_uri :: "(path \<Rightarrow> string) \<Rightarrow> path \<Rightarrow> filesys \<Rightarrow> string \<Rightarrow> exn + string" where
  "local_uri as_uri rt fs key =
     (case local_path rt key of
        Inl e \<Rightarrow> Inl e
      | Inr p \<Rightarrow> if map_of (fs_files fs) p = None then Inl (KeyError key) else Inr (as_uri p))"

section \<open>The filesystem meets the contract\<close>

lemma write_file_Inr:
  "write_file fs p d = Inr fs' \<Longrightarrow> map_of (fs_files fs') q = (if q = p then Some d else map_of (fs_files fs) q)"
  by (auto simp: write_file_def update_conv split: if_splits)

lemma unlink_Inr:
  "unlink fs p = Inr fs' \<Longrightarrow> map_of (fs_files fs') q = (if q = p then None else map_of (fs_files fs) q)"
  by (auto simp: unlink_def delete_conv split: if_splits)

lemma local_path_root: "local_path rt key = Inr p \<Longrightarrow> prefix rt p"
  by (auto simp: local_path_def Let_def strict_prefix_def split: if_splits)

interpretation local: object_store "local_path rt" "local_get rt" "local_put rt" "local_delete rt"
  for rt
proof unfold_locales
  fix s k d s' k'
  assume a: "local_put rt s k d = Inr s'"
  then obtain p where "local_path rt k = Inr p" "write_file s p d = Inr s'"
    by (auto simp: local_put_def split: sum.splits)
  then show "local_get rt s' k' =
      (if local_path rt k' = local_path rt k then Inr d else local_get rt s k')"
    by (auto simp: local_get_def write_file_Inr split: sum.splits)
next
  fix s k s' k'
  assume a: "local_delete rt s k = Inr s'"
  then obtain p where "local_path rt k = Inr p" "unlink s p = Inr s'"
    by (auto simp: local_delete_def split: sum.splits)
  then show "local_get rt s' k' =
      (if local_path rt k' = local_path rt k then Inl (KeyError k') else local_get rt s k')"
    by (auto simp: local_get_def unlink_Inr split: sum.splits)
qed

section \<open>Keys and paths\<close>

text \<open>The keys the code builds (provider, slug and digest joined by slashes) are clean.\<close>

definition clean_path :: "path \<Rightarrow> bool" where
  "clean_path cs \<longleftrightarrow> cs \<noteq> [] \<and> (\<forall>c \<in> set cs. c \<noteq> '''' \<and> c \<noteq> ''.'' \<and> c \<noteq> ''..'' \<and> CHR ''/'' \<notin> set c)"

lemma fold_resolve_clean:
  "(\<forall>c \<in> set cs. c \<noteq> '''' \<and> c \<noteq> ''.'' \<and> c \<noteq> ''..'') \<Longrightarrow> fold resolve_step cs acc = acc @ cs"
  by (induction cs arbitrary: acc) (auto simp: resolve_step_def)

lemma split_clean: "clean_path cs \<Longrightarrow> py_split (CHR ''/'') (py_join ''/'' cs) = cs"
  by (intro split_join) (auto simp: clean_path_def)

lemma resolve_clean:
  assumes "clean_path cs"
  shows "resolve_path rt (py_join ''/'' cs) = rt @ cs"
proof -
  have split: "py_split (CHR ''/'') (py_join ''/'' cs) = cs"
    using assms by (rule split_clean)
  have "\<not> py_startswith (py_join ''/'' cs) ''/''"
  proof
    assume "py_startswith (py_join ''/'' cs) ''/''"
    then obtain r where "py_join ''/'' cs = [] @ CHR ''/'' # r"
      by (auto simp: startswith_iff_prefix prefix_def)
    then have "hd cs = []" using split split_append_sep [of "CHR ''/''" "[]" r] by force
    then show False using assms by (cases cs) (auto simp: clean_path_def)
  qed
  then show ?thesis
    using assms fold_resolve_clean [of cs rt] by (simp add: resolve_path_def split clean_path_def)
qed

lemma local_path_clean:
  assumes "clean_path cs"
  shows "local_path rt (py_join ''/'' cs) = Inr (rt @ cs)"
proof -
  have "strict_prefix rt (rt @ cs)"
    using assms by (auto simp: clean_path_def strict_prefix_def)
  then show ?thesis by (simp add: local_path_def resolve_clean [OF assms])
qed

lemma key_of_clean: "key_of_path rt (rt @ cs) = py_join ''/'' cs"
  by (simp add: key_of_path_def)

text \<open>The files below the root have proper names; no file is listed twice or is a directory.\<close>

definition fs_ok :: "path \<Rightarrow> filesys \<Rightarrow> bool" where
  "fs_ok rt fs \<longleftrightarrow> (\<forall>p. map_of (fs_files fs) p \<noteq> None \<and> strict_prefix rt p \<longrightarrow> clean_path (drop (length rt) p))
     \<and> distinct (map fst (fs_files fs)) \<and> (\<forall>p. map_of (fs_files fs) p \<noteq> None \<longrightarrow> p \<notin> set (fs_dirs fs))"

lemma write_file_Inl: "write_file fs p d = Inl e \<Longrightarrow> e = OSError"
  by (auto simp: write_file_def split: if_splits)

lemma unlink_Inl: "unlink fs p = Inl e \<Longrightarrow> e = OSError"
  by (auto simp: unlink_def split: if_splits)

lemma unlink_twice: "unlink fs p = Inr fs' \<Longrightarrow> unlink fs' p = Inr fs'' \<Longrightarrow> fs'' = fs'"
  by (auto simp: unlink_def delete_conv split: if_splits)

lemma write_file_ok:
  assumes "write_file fs (rt @ cs) d = Inr fs'" and "fs_ok rt fs" and "clean_path cs"
  shows "fs_ok rt fs'"
proof -
  let ?p = "rt @ cs"
  have fs': "fs' = fs\<lparr>fs_files := AList.update ?p d (fs_files fs),
      fs_dirs := filter (\<lambda>q. q \<notin> set (fs_dirs fs)) (prefixes (butlast ?p)) @ fs_dirs fs\<rparr>"
    and free: "\<forall>q \<in> set (prefixes (butlast ?p)). map_of (fs_files fs) q = None" and "?p \<notin> set (fs_dirs fs)"
    using assms(1) by (auto simp: write_file_def list_ex_iff split: if_splits)
  have "?p \<noteq> []" using assms(3) by (simp add: clean_path_def)
  then have "length (butlast ?p) < length ?p" by (metis diff_less length_butlast length_greater_0_conv zero_less_one)
  then have notin: "?p \<notin> set (prefixes (butlast ?p))"
    using prefix_length_le [of ?p "butlast ?p"] by (auto simp: in_set_prefixes simp del: butlast_append length_butlast)
  have dirs: "set (fs_dirs fs') \<subseteq> set (prefixes (butlast ?p)) \<union> set (fs_dirs fs)"
    by (auto simp: fs' simp del: butlast_append)
  have nd: "map_of (fs_files fs) q \<noteq> None \<Longrightarrow> q \<notin> set (fs_dirs fs)" for q
    using assms(2) unfolding fs_ok_def by blast
  have notdir: "q \<notin> set (fs_dirs fs')" if isfile: "map_of (fs_files fs') q \<noteq> None" for q
  proof (cases "q = ?p")
    case False
    then have "map_of (fs_files fs) q \<noteq> None" using isfile write_file_Inr [OF assms(1), of q] by metis
    moreover then have "q \<notin> set (prefixes (butlast ?p))" using free
      by (intro notI) (drule (1) bspec, simp)
    ultimately show ?thesis using nd [of q] dirs by fast
  qed (use \<open>?p \<notin> set (fs_dirs fs)\<close> notin dirs in blast)
  have "distinct (map fst (fs_files fs'))"
    using assms(2) by (simp add: fs' fs_ok_def distinct_update)
  moreover have "strict_prefix rt q \<Longrightarrow> clean_path (drop (length rt) q)" if "map_of (fs_files fs') q \<noteq> None" for q
    using that assms write_file_Inr [OF assms(1), of q] by (cases "q = ?p") (auto simp: fs_ok_def)
  ultimately show ?thesis using notdir unfolding fs_ok_def by blast
qed

lemma unlink_ok: "unlink fs p = Inr fs' \<Longrightarrow> fs_ok rt fs \<Longrightarrow> fs_ok rt fs'"
proof -
  assume u: "unlink fs p = Inr fs'" and ok: "fs_ok rt fs"
  have "fs_dirs fs' = fs_dirs fs" "distinct (map fst (fs_files fs'))"
    using u ok by (auto simp: unlink_def fs_ok_def distinct_delete split: if_splits)
  then show ?thesis using ok by (auto simp: fs_ok_def unlink_Inr [OF u])
qed

lemma listed_iff:
  assumes "fs_ok rt fs" and "clean_path cs"
  shows "py_join ''/'' cs \<in> set (local_list rt fs pre) \<longleftrightarrow>
    map_of (fs_files fs) (rt @ cs) \<noteq> None \<and> py_startswith (py_join ''/'' cs) pre"
proof -
  have inj: "cs' = cs" if "clean_path cs'" "py_join ''/'' cs' = py_join ''/'' cs" for cs'
    using split_clean [OF that(1)] split_clean [OF assms(2)] that(2) by metis
  have "py_join ''/'' cs \<in> key_of_path rt ` {p \<in> fst ` set (fs_files fs). strict_prefix rt p}
      \<longleftrightarrow> rt @ cs \<in> fst ` set (fs_files fs)"
  proof
    assume "py_join ''/'' cs \<in> key_of_path rt ` {p \<in> fst ` set (fs_files fs). strict_prefix rt p}"
    then obtain p where p: "p \<in> fst ` set (fs_files fs)" "strict_prefix rt p" "py_join ''/'' cs = key_of_path rt p"
      by blast
    obtain cs' where cs': "p = rt @ cs'" using p(2) by (auto simp: strict_prefix_def prefix_def)
    have "clean_path cs'" using assms(1) p(1,2)
      unfolding fs_ok_def cs' map_of_eq_None_iff by (metis append_eq_conv_conj)
    moreover have "py_join ''/'' cs' = py_join ''/'' cs" unfolding p(3) cs' key_of_clean ..
    ultimately have "cs' = cs" by (rule inj)
    then show "rt @ cs \<in> fst ` set (fs_files fs)" using p(1) cs' by simp
  next
    assume "rt @ cs \<in> fst ` set (fs_files fs)"
    moreover have "strict_prefix rt (rt @ cs)" using assms(2) by (auto simp: clean_path_def strict_prefix_def)
    ultimately show "py_join ''/'' cs \<in> key_of_path rt ` {p \<in> fst ` set (fs_files fs). strict_prefix rt p}"
      by (intro image_eqI [where x = "rt @ cs"]) (simp_all only: key_of_clean mem_Collect_eq)
  qed
  moreover have "map_of (fs_files fs) (rt @ cs) \<noteq> None \<longleftrightarrow> rt @ cs \<in> fst ` set (fs_files fs)"
    by (metis map_of_eq_None_iff)
  ultimately show ?thesis by (auto simp: local_list_def)
qed

text \<open>
  The local store is a faithful object store confined to its root. A put is read back, with its
  size, and listed under its key; a delete makes the key absent and is idempotent; neither changes
  what any other key reads or any file outside the root; and a key that resolves outside the root is
  refused by every operation.
\<close>

theorem local_store_correct:
  assumes "clean_path cs" and "key = py_join ''/'' cs" and "fs_ok rt fs"
  shows "(case local_put rt fs key data of
        Inl e \<Rightarrow> e = OSError
      | Inr fs1 \<Rightarrow> local_get rt fs1 key = Inr data \<and> local_stat rt fs1 key = Inr (key, length data)
          \<and> (py_startswith key pre \<longrightarrow> key \<in> set (local_list rt fs1 pre))
          \<and> (\<forall>k. local_path rt k \<noteq> Inr (rt @ cs) \<longrightarrow> local_get rt fs1 k = local_get rt fs k)
          \<and> (\<forall>q. \<not> prefix rt q \<longrightarrow> map_of (fs_files fs1) q = map_of (fs_files fs) q))
    \<and> (case local_delete rt fs key of
        Inl e \<Rightarrow> e = OSError
      | Inr fs2 \<Rightarrow> local_get rt fs2 key = Inl (KeyError key) \<and> key \<notin> set (local_list rt fs2 pre)
          \<and> (\<forall>fs3. local_delete rt fs2 key = Inr fs3 \<longrightarrow> fs3 = fs2)
          \<and> (\<forall>k. local_path rt k \<noteq> Inr (rt @ cs) \<longrightarrow> local_get rt fs2 k = local_get rt fs k)
          \<and> (\<forall>q. \<not> prefix rt q \<longrightarrow> map_of (fs_files fs2) q = map_of (fs_files fs) q))
    \<and> (\<not> prefix rt (resolve_path rt bad) \<longrightarrow>
        (\<exists>m. local_put rt fs bad data = Inl (ValueError m) \<and> local_get rt fs bad = Inl (ValueError m)
          \<and> local_delete rt fs bad = Inl (ValueError m)))"
proof (intro conjI)
  have path: "local_path rt key = Inr (rt @ cs)"
    using assms by (simp add: local_path_clean)
  show "case local_put rt fs key data of
        Inl e \<Rightarrow> e = OSError
      | Inr fs1 \<Rightarrow> local_get rt fs1 key = Inr data \<and> local_stat rt fs1 key = Inr (key, length data)
          \<and> (py_startswith key pre \<longrightarrow> key \<in> set (local_list rt fs1 pre))
          \<and> (\<forall>k. local_path rt k \<noteq> Inr (rt @ cs) \<longrightarrow> local_get rt fs1 k = local_get rt fs k)
          \<and> (\<forall>q. \<not> prefix rt q \<longrightarrow> map_of (fs_files fs1) q = map_of (fs_files fs) q)"
  proof (cases "local_put rt fs key data")
    case (Inl e)
    then show ?thesis using path by (simp add: local_put_def write_file_Inl)
  next
    case (Inr fs1)
    have w: "write_file fs (rt @ cs) data = Inr fs1" using Inr path by (simp add: local_put_def)
    have get: "local_get rt fs1 key = Inr data" using local.put_get [OF Inr, of key] by simp
    moreover have "py_startswith key pre \<longrightarrow> key \<in> set (local_list rt fs1 pre)"
      using w assms(1,2) listed_iff [OF write_file_ok [OF w assms(3) assms(1)] assms(1), of pre]
      by (simp add: write_file_Inr)
    moreover have "\<forall>k. local_path rt k \<noteq> Inr (rt @ cs) \<longrightarrow> local_get rt fs1 k = local_get rt fs k"
      using local.put_other [OF Inr] path by simp
    ultimately show ?thesis
      using Inr w by (auto simp: local_stat_def write_file_Inr)
  qed
  show "case local_delete rt fs key of
        Inl e \<Rightarrow> e = OSError
      | Inr fs2 \<Rightarrow> local_get rt fs2 key = Inl (KeyError key) \<and> key \<notin> set (local_list rt fs2 pre)
          \<and> (\<forall>fs3. local_delete rt fs2 key = Inr fs3 \<longrightarrow> fs3 = fs2)
          \<and> (\<forall>k. local_path rt k \<noteq> Inr (rt @ cs) \<longrightarrow> local_get rt fs2 k = local_get rt fs k)
          \<and> (\<forall>q. \<not> prefix rt q \<longrightarrow> map_of (fs_files fs2) q = map_of (fs_files fs) q)"
  proof (cases "local_delete rt fs key")
    case (Inl e)
    then show ?thesis using path by (simp add: local_delete_def unlink_Inl)
  next
    case (Inr fs2)
    have u: "unlink fs (rt @ cs) = Inr fs2" using Inr path by (simp add: local_delete_def)
    have "local_get rt fs2 key = Inl (KeyError key)" using local.del_get [OF Inr, of key] by simp
    moreover have "key \<notin> set (local_list rt fs2 pre)"
      using u assms(1,2) listed_iff [OF unlink_ok [OF u assms(3)] assms(1), of pre]
      by (simp add: unlink_Inr)
    moreover have "\<forall>k. local_path rt k \<noteq> Inr (rt @ cs) \<longrightarrow> local_get rt fs2 k = local_get rt fs k"
      using local.del_other [OF Inr] path by simp
    moreover have "\<forall>fs3. local_delete rt fs2 key = Inr fs3 \<longrightarrow> fs3 = fs2"
      using path unlink_twice [OF u] by (simp add: local_delete_def)
    ultimately show ?thesis
      using Inr u by (auto simp: unlink_Inr)
  qed
  show "\<not> prefix rt (resolve_path rt bad) \<longrightarrow>
        (\<exists>m. local_put rt fs bad data = Inl (ValueError m) \<and> local_get rt fs bad = Inl (ValueError m)
          \<and> local_delete rt fs bad = Inl (ValueError m))"
    by (auto simp: local_put_def local_get_def local_delete_def local_path_def Let_def strict_prefix_def)
qed

definition sample_fs :: filesys where
  "sample_fs = \<lparr>fs_files = [([''data'', ''harmony'', ''old.nc''], ''xyz'')],
     fs_dirs = [[], [''data''], [''data'', ''harmony'']]\<rparr>"

lemma local_store_correct_witness:
  "(case local_put [''data''] sample_fs ''harmony/a'' ''ab'' of
      Inl e \<Rightarrow> False
    | Inr fs1 \<Rightarrow> local_get [''data''] fs1 ''harmony/a'' = Inr ''ab''
        \<and> local_list [''data''] fs1 ''harmony/'' = [''harmony/a'', ''harmony/old.nc''])
   \<and> (\<exists>m. local_put [''data''] sample_fs ''../etc/passwd'' ''ab'' = Inl (ValueError m))"
proof -
  have clean: "clean_path [''harmony'', ''a'']" and key: "''harmony/a'' = py_join ''/'' [''harmony'', ''a'']"
    and ok: "fs_ok [''data''] sample_fs"
    by (auto simp: clean_path_def fs_ok_def sample_fs_def split: if_splits)
  have run: "local_put [''data''] sample_fs ''harmony/a'' ''ab'' =
      Inr \<lparr>fs_files = [([''data'', ''harmony'', ''old.nc''], ''xyz''), ([''data'', ''harmony'', ''a''], ''ab'')],
           fs_dirs = [[], [''data''], [''data'', ''harmony'']]\<rparr>"
    by (simp add: local_put_def local_path_def resolve_path_def resolve_step_def Let_def
        write_file_def sample_fs_def strict_prefix_def)
  have out: "\<not> prefix [''data''] (resolve_path [''data''] ''../etc/passwd'')"
    by (simp add: resolve_path_def resolve_step_def)
  have "local_list [''data''] \<lparr>fs_files = [([''data'', ''harmony'', ''old.nc''], ''xyz''), ([''data'', ''harmony'', ''a''], ''ab'')],
      fs_dirs = [[], [''data''], [''data'', ''harmony'']]\<rparr> ''harmony/'' = [''harmony/a'', ''harmony/old.nc'']"
    by (simp add: local_list_def key_of_path_def strict_prefix_def)
  then show ?thesis
    using local_store_correct [OF clean key ok, of "''ab''" "''harmony/''" "''../etc/passwd''"] out
    by (auto simp: run)
qed

end
