(* ===== verification/World.thy ===== *)
theory World
  imports Jobs Provenance Storage
begin

text \<open>
  The shared state of the server and its worker processes: the database tables, the object store,
  the Redis task queue, the clock, the random tokens and the register of secrets. Every database
  session, storage call and queue call goes through \<open>e_io\<close>, which takes time and may fail before
  or after it took effect, as the schedule \<open>w_io\<close> says; theorems quantify over that schedule.
  The relation \<open>evolves\<close> is what every operation of the system keeps, whatever fails: rows only
  advance, handles keep their owner, lineage is append-only, and the invariants of the tables hold.
\<close>

section \<open>State\<close>

datatype io_fault = Io_ok | Io_before exn | Io_after exn

text \<open>
  A task on the queue: its name, the job it is for, its explicit arq id and its delay in seconds.
  It stays listed while it is queued or running.
\<close>

record task =
  q_name :: string
  q_job :: string
  q_id :: "string option"
  q_defer :: "nat option"

record world =
  w_jobs :: job_table
  w_access :: access_table
  w_handles :: handle_table
  w_edges :: "edge list"
  w_events :: "event list"
  w_root :: path
  w_files :: filesys
  w_queue :: "task list"
  w_now :: time
  w_rand :: "nat \<Rightarrow> string"
  w_drawn :: nat
  w_secrets :: secrets
  w_last_orphan_sweep :: "time option"
  w_io :: "(nat \<times> io_fault) list"

type_synonym 'a op = "(world, exn, 'a) eff"

section \<open>Input and output\<close>

definition next_io :: "world \<Rightarrow> io_fault \<times> world" where
  "next_io w =
     (case w_io w of
        [] \<Rightarrow> (Io_ok, w)
      | (d, flt) # rest \<Rightarrow> (flt, w\<lparr>w_io := rest, w_now := w_now w + int d\<rparr>))"

definition e_io :: "(world \<Rightarrow> exn + 'a \<times> world) \<Rightarrow> 'a op" where
  "e_io f = (\<lambda>w.
     case next_io w of
       (Io_before e, w1) \<Rightarrow> (Inl e, w1)
     | (Io_ok, w1) \<Rightarrow> (case f w1 of Inl e \<Rightarrow> (Inl e, w1) | Inr (a, w2) \<Rightarrow> (Inr a, w2))
     | (Io_after e, w1) \<Rightarrow> (case f w1 of Inl e' \<Rightarrow> (Inl e', w1) | Inr (a, w2) \<Rightarrow> (Inl e, w2)))"

text \<open>A session that only reads.\<close>

definition e_read :: "(world \<Rightarrow> exn + 'a) \<Rightarrow> 'a op" where
  "e_read f = e_io (\<lambda>w. case f w of Inl e \<Rightarrow> Inl e | Inr a \<Rightarrow> Inr (a, w))"

definition lift_sum :: "exn + 'a \<Rightarrow> 'a op" where
  "lift_sum x = (case x of Inl e \<Rightarrow> e_raise e | Inr a \<Rightarrow> e_ret a)"

text \<open>\<open>try: m except Exception: (log)\<close>.\<close>

definition swallow :: "unit op \<Rightarrow> unit op" where
  "swallow m = e_catch m (\<lambda>e. if is_Exception e then e_ret () else e_raise e)"

definition draw_token :: "string op" where
  "draw_token = e_bind (e_gets (\<lambda>w. w_rand w (w_drawn w)))
     (\<lambda>tok. e_seq (e_modify (\<lambda>w. w\<lparr>w_drawn := Suc (w_drawn w)\<rparr>)) (e_ret tok))"

section \<open>The stores as operations\<close>

definition op_get_handle :: "string \<Rightarrow> string \<Rightarrow> handle_row op" where
  "op_get_handle ws h = e_read (\<lambda>w. get_handle (w_handles w) ws h)"

definition op_put_handle :: "string \<Rightarrow> handle_type \<Rightarrow> dict \<Rightarrow> string op" where
  "op_put_handle ws ht payload =
     e_bind draw_token (\<lambda>tok.
       e_io (\<lambda>w. case put_handle (w_now w) tok ws ht payload (w_handles w) of
                   Inl e \<Rightarrow> Inl e
                 | Inr (h, t) \<Rightarrow> Inr (h, w\<lparr>w_handles := t\<rparr>)))"

definition op_put_handle_unique_signature ::
  "string \<Rightarrow> handle_type \<Rightarrow> dict \<Rightarrow> (handle_row \<times> bool) op" where
  "op_put_handle_unique_signature ws ht payload =
     e_bind draw_token (\<lambda>tok.
       e_io (\<lambda>w. case put_handle_unique_signature (w_now w) tok ws ht payload (w_handles w) of
                   Inl e \<Rightarrow> Inl e
                 | Inr (r, t) \<Rightarrow> Inr (r, w\<lparr>w_handles := t\<rparr>)))"

definition op_update_handle :: "string \<Rightarrow> string \<Rightarrow> dict \<Rightarrow> handle_row op" where
  "op_update_handle ws h payload =
     e_io (\<lambda>w. case update_handle (w_now w) ws h payload (w_handles w) of
                 Inl e \<Rightarrow> Inl e
               | Inr (r, t) \<Rightarrow> Inr (r, w\<lparr>w_handles := t\<rparr>))"

definition op_touch_handle :: "string \<Rightarrow> string \<Rightarrow> unit op" where
  "op_touch_handle ws h =
     e_io (\<lambda>w. case touch_handle (w_now w) ws h (w_handles w) of
                 Inl e \<Rightarrow> Inl e
               | Inr t \<Rightarrow> Inr ((), w\<lparr>w_handles := t\<rparr>))"

definition op_find_handle :: "string \<Rightarrow> handle_type \<Rightarrow> string \<Rightarrow> string \<Rightarrow> handle_row option op" where
  "op_find_handle ws ht k v = e_read (\<lambda>w. Inr (find_handle_by_payload_value (w_handles w) ws ht k v))"

definition op_record_edge :: "string \<Rightarrow> string \<Rightarrow> string \<Rightarrow> dict option \<Rightarrow> string list option \<Rightarrow> unit op" where
  "op_record_edge ws target source spec gids =
     e_io (\<lambda>w. case record_edge (w_secrets w) (w_now w) ws target source spec gids (w_edges w) of
                 Inl e \<Rightarrow> Inl e
               | Inr es \<Rightarrow> Inr ((), w\<lparr>w_edges := es\<rparr>))"

definition op_record_event :: "string \<Rightarrow> string \<Rightarrow> event_type \<Rightarrow> dict \<Rightarrow> unit op" where
  "op_record_event ws h ty detail =
     e_io (\<lambda>w. Inr ((), w\<lparr>w_events := record_event (w_secrets w) (w_now w) ws h ty detail (w_events w)\<rparr>))"

definition op_transition :: "string \<Rightarrow> job_state \<Rightarrow> column list \<Rightarrow> unit op" where
  "op_transition job_id s extra =
     e_io (\<lambda>w. case transition_state (w_now w) job_id s extra (w_jobs w) of
                 Inl e \<Rightarrow> Inl e
               | Inr t \<Rightarrow> Inr ((), w\<lparr>w_jobs := t\<rparr>))"

definition op_mark_restricted :: "string \<Rightarrow> unit op" where
  "op_mark_restricted concept_id =
     e_io (\<lambda>w. Inr ((), w\<lparr>w_access := mark_collection_restricted concept_id (w_access w)\<rparr>))"

definition op_delete_blob :: "string \<Rightarrow> unit op" where
  "op_delete_blob key =
     e_io (\<lambda>w. case local_delete (w_root w) (w_files w) key of
                 Inl e \<Rightarrow> Inl e
               | Inr fs \<Rightarrow> Inr ((), w\<lparr>w_files := fs\<rparr>))"

text \<open>
  \<open>redis.enqueue_job\<close>: with an explicit id, a no-op while a task with that id is queued or running.
\<close>

definition op_enqueue :: "string \<Rightarrow> string \<Rightarrow> string option \<Rightarrow> nat option \<Rightarrow> unit op" where
  "op_enqueue name job_id arq_id defer_by =
     e_io (\<lambda>w. if arq_id \<noteq> None \<and> list_ex (\<lambda>q. q_id q = arq_id) (w_queue w) then Inr ((), w)
               else Inr ((), w\<lparr>w_queue := w_queue w @
                      [\<lparr>q_name = name, q_job = job_id, q_id = arq_id, q_defer = defer_by\<rparr>]\<rparr>))"

definition op_register_secret :: "string option \<Rightarrow> unit op" where
  "op_register_secret v = e_modify (\<lambda>w. w\<lparr>w_secrets := register_secret v (w_secrets w)\<rparr>)"

section \<open>What every operation keeps\<close>

definition world_ok :: "world \<Rightarrow> bool" where
  "world_ok w \<longleftrightarrow> jobs_ok (w_jobs w) \<and> handles_ok (w_handles w) \<and> edges_ok (w_edges w)"

definition handles_evolve :: "handle_table \<Rightarrow> handle_table \<Rightarrow> bool" where
  "handles_evolve t t' \<longleftrightarrow> (\<forall>h r. row_of_handle t h = Some r \<longrightarrow>
     (\<exists>r'. row_of_handle t' h = Some r' \<and> h_workspace_id r' = h_workspace_id r \<and> h_type r' = h_type r))"

definition evolves :: "world \<Rightarrow> world \<Rightarrow> bool" where
  "evolves w w' \<longleftrightarrow> (world_ok w \<longrightarrow>
     world_ok w' \<and> jobs_evolve (w_jobs w) (w_jobs w') \<and> handles_evolve (w_handles w) (w_handles w')
     \<and> prefix (w_edges w) (w_edges w') \<and> prefix (w_events w) (w_events w'))"

lemma handles_evolve_refl [simp]: "handles_evolve t t"
  by (simp add: handles_evolve_def)

lemma handles_evolve_trans: "handles_evolve s t \<Longrightarrow> handles_evolve t u \<Longrightarrow> handles_evolve s u"
  unfolding handles_evolve_def by metis

interpretation evolves: state_preorder evolves
proof
  show "evolves s s" for s by (simp add: evolves_def)
  show "evolves s t \<Longrightarrow> evolves t u \<Longrightarrow> evolves s u" for s t u
    unfolding evolves_def by (meson handles_evolve_trans jobs_evolve_trans prefix_order.trans)
qed

lemmas keeps_evolves = evolves.keeps_intros

lemma evolves_next_io: "next_io w = (flt, w1) \<Longrightarrow> evolves w w1"
  by (auto simp: next_io_def evolves_def world_ok_def split: list.splits)

lemma keeps_io:
  assumes "\<And>w a w'. f w = Inr (a, w') \<Longrightarrow> evolves w w'"
  shows "keeps evolves (e_io f)"
proof (rule keepsI)
  fix w
  obtain flt w1 where n: "next_io w = (flt, w1)" by fastforce
  have 1: "evolves w w1" by (rule evolves_next_io [OF n])
  show "evolves w (snd (e_io f w))"
    using 1 assms by (auto simp: e_io_def n split: io_fault.splits sum.splits intro: evolves.R_trans)
qed

lemma keeps_read: "keeps evolves (e_read f)"
  unfolding e_read_def by (rule keeps_io) (auto split: sum.splits intro: evolves.R_refl)

lemma keeps_lift: "keeps evolves (lift_sum x)"
  by (cases x) (auto simp: lift_sum_def intro: keeps_evolves)

lemma keeps_swallow: "keeps evolves m \<Longrightarrow> keeps evolves (swallow m)"
  unfolding swallow_def by (intro keeps_evolves)

lemma keeps_draw: "keeps evolves draw_token"
  unfolding draw_token_def
  by (intro keeps_evolves evolves.keeps_modify) (simp add: evolves_def world_ok_def)

subsection \<open>Each table\<close>

lemma row_of_handle_put:
  "row_of_handle (row_put h_handle r t) h =
     (if h = h_handle r \<and> row_of_handle t h \<noteq> None then Some r else row_of_handle t h)"
  by (auto simp: row_of_handle_def list_table.get_put)

lemma evolve_insert: "row_of_handle t (h_handle r) = None \<Longrightarrow> handles_evolve t (t @ [r])"
  unfolding handles_evolve_def
  by (simp add: row_of_handle_def list_table.get_ins [unfolded row_insert_def] split: option.splits)

lemma evolve_put:
  "row_of_handle t (h_handle r) = Some old \<Longrightarrow> h_workspace_id r = h_workspace_id old
   \<Longrightarrow> h_type r = h_type old \<Longrightarrow> handles_evolve t (row_put h_handle r t)"
  by (auto simp: handles_evolve_def row_of_handle_put)

lemma put_handle_evolves:
  "put_handle now tok ws ty p t = Inr (h, t') \<Longrightarrow> handles_evolve t t'"
  by (auto simp: put_handle_def dest!: insert_row_Inr intro: evolve_insert split: sum.splits)

lemma put_unique_evolves:
  "put_handle_unique_signature now tok ws ty p t = Inr (res, t') \<Longrightarrow> handles_evolve t t'"
  by (auto simp: put_handle_unique_signature_def Let_def dest!: insert_row_Inr intro: evolve_insert
      split: sum.splits option.splits)

lemma update_handle_evolves:
  assumes "update_handle now ws h p t = Inr (r, t')"
  shows "handles_evolve t t'"
proof -
  from update_handle_Inr [OF assms] obtain old where o:
    "get_handle t ws h = Inr old" "r = old\<lparr>h_payload := h_payload r, h_updated_at := h_updated_at r\<rparr>"
    "t' = t \<or> t' = row_put h_handle r t" by blast
  have eqs: "h_handle r = h_handle old" "h_workspace_id r = h_workspace_id old" "h_type r = h_type old"
    by (subst o(2), simp)+
  have "row_of_handle t (h_handle r) = Some old"
    using o(1) eqs(1) by (auto simp: get_handle_Inr_iff dest: row_of_handle_mem)
  with o(3) eqs show ?thesis by (auto intro: evolve_put)
qed

lemma touch_handle_evolves:
  assumes "touch_handle now ws h t = Inr t'"
  shows "handles_evolve t t'"
proof -
  from touch_handle_Inr [OF assms] obtain old where o: "get_handle t ws h = Inr old"
    "t' = row_put h_handle (old\<lparr>h_last_accessed_at := Some now, h_updated_at := now\<rparr>) t" by blast
  then have "row_of_handle t (h_handle old) = Some old"
    by (auto simp: get_handle_Inr_iff dest: row_of_handle_mem)
  then show ?thesis unfolding o(2) by (intro evolve_put [of _ _ old]) simp_all
qed

lemmas handle_writes = put_handle_evolves put_unique_evolves update_handle_evolves touch_handle_evolves

lemma evolves_handles:
  "(handles_ok (w_handles w) \<Longrightarrow> handles_ok t) \<Longrightarrow> handles_evolve (w_handles w) t \<Longrightarrow> evolves w (w\<lparr>w_handles := t\<rparr>)"
  by (simp add: evolves_def world_ok_def)

lemma evolves_jobs:
  "(jobs_ok (w_jobs w) \<Longrightarrow> jobs_ok t \<and> jobs_evolve (w_jobs w) t) \<Longrightarrow> evolves w (w\<lparr>w_jobs := t\<rparr>)"
  by (simp add: evolves_def world_ok_def)

lemma evolves_edges:
  "(edges_ok (w_edges w) \<Longrightarrow> edges_ok es) \<Longrightarrow> prefix (w_edges w) es \<Longrightarrow> evolves w (w\<lparr>w_edges := es\<rparr>)"
  by (simp add: evolves_def world_ok_def)

lemma evolves_frame [simp]:
  "evolves w (w\<lparr>w_access := a\<rparr>)" "evolves w (w\<lparr>w_files := f\<rparr>)" "evolves w (w\<lparr>w_queue := q\<rparr>)"
  "evolves w (w\<lparr>w_secrets := s\<rparr>)" "evolves w (w\<lparr>w_last_orphan_sweep := l\<rparr>)"
  "evolves w (w\<lparr>w_events := w_events w @ vs\<rparr>)"
  by (simp_all add: evolves_def world_ok_def)

lemma keeps_get_handle: "keeps evolves (op_get_handle ws h)"
  unfolding op_get_handle_def by (rule keeps_read)

lemma keeps_find_handle: "keeps evolves (op_find_handle ws ht k v)"
  unfolding op_find_handle_def by (rule keeps_read)

lemma keeps_put_handle: "keeps evolves (op_put_handle ws ht p)"
  unfolding op_put_handle_def
  by (intro evolves.keeps_bind keeps_draw keeps_io)
    (auto split: sum.splits intro!: evolves_handles intro: handle_writes store_ok)

lemma keeps_put_unique: "keeps evolves (op_put_handle_unique_signature ws ht p)"
  unfolding op_put_handle_unique_signature_def
  by (intro evolves.keeps_bind keeps_draw keeps_io)
    (auto split: sum.splits intro!: evolves_handles intro: handle_writes store_ok)

lemma keeps_update_handle: "keeps evolves (op_update_handle ws h p)"
  unfolding op_update_handle_def
  by (rule keeps_io) (auto split: sum.splits intro!: evolves_handles intro: handle_writes store_ok)

lemma keeps_touch_handle: "keeps evolves (op_touch_handle ws h)"
  unfolding op_touch_handle_def
  by (rule keeps_io) (auto split: sum.splits intro!: evolves_handles intro: handle_writes store_ok)

lemma keeps_record_edge: "keeps evolves (op_record_edge ws t s spec g)"
  unfolding op_record_edge_def
  by (rule keeps_io)
    (auto split: sum.splits intro!: evolves_edges intro: record_edge_ok dest: record_edge_Inr)

lemma keeps_record_event: "keeps evolves (op_record_event ws h ty d)"
  unfolding op_record_event_def by (rule keeps_io) (auto simp: record_event_def)

lemma keeps_transition: "keeps evolves (op_transition i s cs)"
  unfolding op_transition_def
  by (rule keeps_io)
    (auto split: sum.splits intro!: evolves_jobs intro: transition_state_evolves transition_state_ok)

lemma keeps_mark_restricted: "keeps evolves (op_mark_restricted c)"
  unfolding op_mark_restricted_def by (rule keeps_io) auto

lemma keeps_delete_blob: "keeps evolves (op_delete_blob k)"
  unfolding op_delete_blob_def by (rule keeps_io) (auto split: sum.splits)

lemma keeps_enqueue: "keeps evolves (op_enqueue n i a d)"
  unfolding op_enqueue_def by (rule keeps_io) (auto split: if_splits intro: evolves.R_refl)

lemma keeps_register_secret: "keeps evolves (op_register_secret v)"
  unfolding op_register_secret_def by (rule evolves.keeps_modify) simp

lemmas keeps_ops =
  keeps_read keeps_lift keeps_swallow keeps_draw keeps_get_handle keeps_find_handle
  keeps_put_handle keeps_put_unique keeps_update_handle keeps_touch_handle keeps_record_edge
  keeps_record_event keeps_transition keeps_mark_restricted keeps_delete_blob keeps_enqueue
  keeps_register_secret

section \<open>The initial world\<close>

definition initial_world :: world where
  "initial_world =
     \<lparr>w_jobs = [], w_access = [], w_handles = [], w_edges = [], w_events = [], w_root = [''data''],
      w_files = \<lparr>fs_files = [], fs_dirs = [[], [''data'']]\<rparr>, w_queue = [], w_now = 0,
      w_rand = show_nat, w_drawn = 0, w_secrets = [], w_last_orphan_sweep = None, w_io = []\<rparr>"

lemma initial_world_ok: "world_ok initial_world"
  by (simp add: initial_world_def world_ok_def jobs_ok_def handles_ok_def edges_ok_def)

end
