(* ===== verification/Identity.thy ===== *)
theory Identity
  imports PyTime PyData Redaction
begin

text \<open>
  The per-call Earthdata identity (\<open>providers/identity.py\<close>): the one place a token is parsed, the
  bounded cache of per-identity sessions, the DAAC credentials, the classification of provider
  failures and the encryption of a credential at rest. Every function that registers a secret takes
  and returns the register. The record \<open>platform\<close> stands for what is called outside the repository:
  \<open>json.loads\<close>, base64 and SHA-256, the rendering of values, and Fernet. Message texts are shortened.
\<close>

section \<open>Data\<close>

record platform =
  pf_loads :: "string \<Rightarrow> exn + json"
  pf_b64decode :: "string \<Rightarrow> exn + string"
  pf_sha :: "string \<Rightarrow> string"
  pf_show :: "json \<Rightarrow> string"
  pf_key_valid :: "string \<Rightarrow> bool"
  pf_encrypt :: "string list \<Rightarrow> string \<Rightarrow> string"
  pf_decrypt :: "string list \<Rightarrow> string \<Rightarrow> string option"

record edl_identity =
  id_token :: string
  id_username :: json
  id_expires_at :: "time option"

definition class_name :: "cred_class \<Rightarrow> string" where
  "class_name c =
     (case c of
        TOKEN_EXPIRED \<Rightarrow> ''TOKEN_EXPIRED''
      | TOKEN_INVALID \<Rightarrow> ''TOKEN_INVALID''
      | EULA_NOT_ACCEPTED \<Rightarrow> ''EULA_NOT_ACCEPTED'')"

text \<open>The constructor of \<open>CredentialError\<close> redacts its message.\<close>

definition cred_error :: "secrets \<Rightarrow> cred_class \<Rightarrow> string \<Rightarrow> string option \<Rightarrow> exn" where
  "cred_error ss c msg url = CredentialError c (class_name c @ '': '' @ redact ss msg) url"

definition is_cred_error :: "exn \<Rightarrow> bool" where
  "is_cred_error e = (case e of CredentialError _ _ _ \<Rightarrow> True | _ \<Rightarrow> False)"

definition scope_key :: "platform \<Rightarrow> edl_identity \<Rightarrow> json" where
  "scope_key pf i =
     (if truthy (id_username i) then id_username i else JStr (''token:'' @ take 16 (pf_sha pf (id_token i))))"

definition is_expired :: "edl_identity \<Rightarrow> time \<Rightarrow> bool" where
  "is_expired i now = (case id_expires_at i of None \<Rightarrow> False | Some t \<Rightarrow> now \<ge> t)"

section \<open>Parsing a token\<close>

definition decode_jwt_payload :: "platform \<Rightarrow> string \<Rightarrow> exn + dict" where
  "decode_jwt_payload pf token =
     (let parts = py_split CHR ''.'' token in
      if length parts \<noteq> 3 then Inl (ValueError ''not a three-segment JWT'')
      else
        let payload = parts ! 1;
            padded = payload @ replicate (nat (- int (length payload) mod 4)) CHR ''=''
        in s_bind (pf_b64decode pf padded) (\<lambda>raw.
           s_bind (pf_loads pf raw) (\<lambda>decoded.
             case decoded of JObj d \<Rightarrow> Inr d | _ \<Rightarrow> Inl (ValueError ''JWT payload is not an object''))))"

text \<open>\<open>datetime.fromtimestamp(exp, tz=utc)\<close>: to the microsecond, half to even, years 1 to 9999.\<close>

definition round_half_even :: "rat \<Rightarrow> int" where
  "round_half_even r =
     (let f = \<lfloor>r\<rfloor>; d = r - of_int f in
      if d < 1 / 2 then f else if d > 1 / 2 then f + 1 else if even f then f else f + 1)"

definition fromtimestamp :: "rat \<Rightarrow> exn + time" where
  "fromtimestamp r =
     (let us = round_half_even (r * 1000000) in
      if us < -62135596800000000 \<or> 253402300799999999 < us then Inl (ValueError ''year is out of range'')
      else Inr us)"

text \<open>\<open>isinstance(exp, (int, float))\<close>.\<close>

definition exp_claim :: "json \<Rightarrow> rat option" where
  "exp_claim x =
     (case x of
        JInt i \<Rightarrow> Some (of_int i)
      | JFloat r \<Rightarrow> Some r
      | JBool b \<Rightarrow> Some (if b then 1 else 0)
      | _ \<Rightarrow> None)"

definition parse_edl_token ::
  "platform \<Rightarrow> time \<Rightarrow> string option \<Rightarrow> secrets \<Rightarrow> (exn + edl_identity option) \<times> secrets" where
  "parse_edl_token pf now edl_token ss =
     (case edl_token of
        None \<Rightarrow> (Inr None, ss)
      | Some raw \<Rightarrow>
          let token = py_strip raw in
          if token = [] then (Inr None, ss)
          else
            let ss1 = register_secret (Some token) ss in
            case decode_jwt_payload pf token of
              Inl (ValueError m) \<Rightarrow>
                (Inl (cred_error ss1 TOKEN_INVALID ''edl_token is not a well-formed EDL token'' None), ss1)
            | Inl e \<Rightarrow> (Inl e, ss1)
            | Inr claims \<Rightarrow>
                (case (case exp_claim (jget claims ''exp'') of
                         None \<Rightarrow> Inr None
                       | Some r \<Rightarrow> s_bind (fromtimestamp r) (\<lambda>t. Inr (Some t))) of
                   Inl e \<Rightarrow> (Inl e, ss1)
                 | Inr expires \<Rightarrow>
                     let i = \<lparr>id_token = token, id_username = py_or (jget claims ''uid'') JNull, id_expires_at = expires\<rparr>
                     in if is_expired i now
                        then (Inl (cred_error ss1 TOKEN_EXPIRED ''edl_token expired'' None), ss1)
                        else (Inr (Some i), ss1)))"

definition service_identity_scope ::
  "platform \<Rightarrow> time \<Rightarrow> string \<Rightarrow> string \<Rightarrow> secrets \<Rightarrow> (exn + json) \<times> secrets" where
  "service_identity_scope pf now edl_username earthdata_token ss =
     (if edl_username \<noteq> [] then (Inr (JStr edl_username), ss)
      else if earthdata_token \<noteq> [] then
        (case parse_edl_token pf now (Some earthdata_token) ss of
           (Inr (Some i), ss1) \<Rightarrow> (Inr (scope_key pf i), ss1)
         | (Inr None, ss1) \<Rightarrow> (Inr (JStr ''service''), ss1)
         | (Inl e, ss1) \<Rightarrow> (if is_cred_error e then Inr (JStr ''service'') else Inl e, ss1))
      else (Inr (JStr ''service''), ss))"

section \<open>Sessions\<close>

record token_session =
  ts_identity :: edl_identity
  ts_clients :: dict
  ts_s3_creds :: dict

definition SESSION_CACHE_MAX :: nat where
  "SESSION_CACHE_MAX = 32"

definition SESSION_TTL_SECONDS :: int where
  "SESSION_TTL_SECONDS = 3600"

text \<open>The cache, least recently used first; instants are seconds of the monotonic clock.\<close>

type_synonym session_cache = "(string \<times> (token_session \<times> rat)) list"

fun pop_lru :: "session_cache \<Rightarrow> session_cache" where
  "pop_lru [] = []"
| "pop_lru (x # xs) = (if length (x # xs) > SESSION_CACHE_MAX then pop_lru xs else x # xs)"

definition new_session :: "edl_identity \<Rightarrow> token_session" where
  "new_session i = \<lparr>ts_identity = i, ts_clients = [], ts_s3_creds = []\<rparr>"

definition get_token_session ::
  "platform \<Rightarrow> edl_identity \<Rightarrow> rat \<Rightarrow> session_cache \<Rightarrow> token_session \<times> session_cache" where
  "get_token_session pf i current c =
     (let key = pf_sha pf (id_token i);
          fresh = (let s = new_session i in (s, pop_lru (AList.delete key c @ [(key, (s, current))])))
      in case map_of c key of
           None \<Rightarrow> fresh
         | Some (s, created) \<Rightarrow>
             if current - created < of_int SESSION_TTL_SECONDS
             then (s, AList.delete key c @ [(key, (s, created))])
             else fresh)"

definition reset_token_sessions :: "session_cache \<Rightarrow> session_cache" where
  "reset_token_sessions c = []"

text \<open>A client is built once per key; \<open>built\<close> is what the builder returns.\<close>

definition client_for :: "string \<Rightarrow> json \<Rightarrow> token_session \<Rightarrow> json \<times> token_session" where
  "client_for key built s =
     (if jget (ts_clients s) key \<noteq> JNull then (jget (ts_clients s) key, s)
      else (built, s\<lparr>ts_clients := AList.update key built (ts_clients s)\<rparr>))"

section \<open>Classifying failures\<close>

definition EULA_PHRASES :: "string list" where
  "EULA_PHRASES = [''eula'', ''approve_app'', ''license agreement'', ''end user license'']"

definition url_char :: "char \<Rightarrow> bool" where
  "url_char c \<longleftrightarrow> \<not> is_space c \<and> c \<notin> {CHR 0x22, CHR 0x27, CHR ''<'', CHR ''>'', CHR 0x5C}"

text \<open>The leftmost URL of the pattern, taken as far as its characters go.\<close>

fun search_url :: "string \<Rightarrow> string option" where
  "search_url [] = None"
| "search_url (c # s) =
     (let run = takeWhile url_char (drop 8 (c # s)) in
      if py_startswith (c # s) ''https://'' \<and> (py_contains run ''approve_app'' \<or> py_contains run ''accept_eula'')
      then Some (''https://'' @ run) else search_url s)"

definition url_of_body :: "dict \<Rightarrow> string option" where
  "url_of_body d =
     (case jget d ''resolution_url'' of
        JStr (c # s) \<Rightarrow> Some (c # s)
      | _ \<Rightarrow> (case jget d ''resolutionUrl'' of JStr (c # s) \<Rightarrow> Some (c # s) | _ \<Rightarrow> None))"

definition extract_resolution_url :: "platform \<Rightarrow> string \<Rightarrow> exn + string option" where
  "extract_resolution_url pf txt =
     (case pf_loads pf txt of
        Inl (ValueError m) \<Rightarrow> Inr (search_url txt)
      | Inl (TypeError m) \<Rightarrow> Inr (search_url txt)
      | Inl e \<Rightarrow> Inl e
      | Inr (JObj d) \<Rightarrow> (case url_of_body d of Some u \<Rightarrow> Inr (Some u) | None \<Rightarrow> Inr (search_url txt))
      | Inr j \<Rightarrow> Inr (search_url txt))"

definition signals_eula :: "string \<Rightarrow> bool" where
  "signals_eula txt \<longleftrightarrow> list_ex (\<lambda>p. py_contains (py_lower txt) p) EULA_PHRASES"

definition eula_error :: "platform \<Rightarrow> secrets \<Rightarrow> string \<Rightarrow> exn + exn" where
  "eula_error pf ss txt =
     s_bind (extract_resolution_url pf txt) (\<lambda>url.
       Inr (cred_error ss EULA_NOT_ACCEPTED
         (''NASA requires accepting this collection's license (EULA) first'' @
          (case url of None \<Rightarrow> [] | Some u \<Rightarrow> if u = [] then [] else '' - accept it at '' @ u @ '', then retry'')) url))"

definition token_rejection :: "secrets \<Rightarrow> time \<Rightarrow> edl_identity option \<Rightarrow> string \<Rightarrow> exn" where
  "token_rejection ss now i msg =
     (case i of
        Some j \<Rightarrow> if is_expired j now then cred_error ss TOKEN_EXPIRED (msg @ '' - the token's own expiry has passed'') None
                  else cred_error ss TOKEN_INVALID msg None
      | None \<Rightarrow> cred_error ss TOKEN_INVALID msg None)"

definition classify_http_response ::
  "platform \<Rightarrow> secrets \<Rightarrow> time \<Rightarrow> int \<Rightarrow> string option \<Rightarrow> edl_identity option \<Rightarrow> exn + exn option" where
  "classify_http_response pf ss now status body i =
     (if status \<noteq> 401 \<and> status \<noteq> 403 then Inr None
      else
        let txt = (case body of None \<Rightarrow> [] | Some t \<Rightarrow> t) in
        if status = 403 \<and> signals_eula txt then s_bind (eula_error pf ss txt) (\<lambda>e. Inr (Some e))
        else Inr (Some (token_rejection ss now i (''NASA rejected the credential (HTTP '' @ show_int status @ '')''))))"

definition classify_credential_failure ::
  "platform \<Rightarrow> secrets \<Rightarrow> time \<Rightarrow> exn \<Rightarrow> edl_identity option \<Rightarrow> exn + exn option" where
  "classify_credential_failure pf ss now e i =
     (case e of
        CredentialError _ _ _ \<Rightarrow> Inr (Some e)
      | HttpStatusErr _ status body \<Rightarrow> classify_http_response pf ss now status body i
      | PlainExn (a # b # rest) \<Rightarrow>
          let reason = py_lower (py_strip a); msg = py_join '' '' (b # rest) in
          if reason = ''unauthorized'' then Inr (Some (token_rejection ss now i msg))
          else if reason = ''forbidden'' then
            (if signals_eula msg then s_bind (eula_error pf ss msg) (\<lambda>x. Inr (Some x))
             else Inr (Some (token_rejection ss now i msg)))
          else Inr None
      | _ \<Rightarrow> Inr None)"

section \<open>DAAC credentials\<close>

text \<open>The registry is a table of entries of the earthaccess package.\<close>

fun s3_credentials_endpoint :: "dict list \<Rightarrow> string option \<Rightarrow> string option \<Rightarrow> exn + json" where
  "s3_credentials_endpoint [] daac provider = Inl (ValueError ''no S3 credentials endpoint known'')"
| "s3_credentials_endpoint (entry # rest) daac provider =
     s_bind (py_iter (py_or (jget entry ''cloud-providers'') (JArr []))) (\<lambda>clouds.
       let endpoint = jget entry ''s3-credentials'' in
       if \<not> truthy endpoint then s3_credentials_endpoint rest daac provider
       else if (case daac of None \<Rightarrow> False
                | Some d \<Rightarrow> d \<noteq> [] \<and> (JStr d = jget entry ''short-name'' \<or> JStr d \<in> set clouds)) then Inr endpoint
       else if (case provider of None \<Rightarrow> False | Some p \<Rightarrow> p \<noteq> [] \<and> JStr p \<in> set clouds) then Inr endpoint
       else s3_credentials_endpoint rest daac provider)"

text \<open>What the server answered: a status, the body as a text, and the body read as JSON.\<close>

record http_response =
  ht_status :: int
  ht_text :: string
  ht_json :: "exn + json"

text \<open>\<open>http\<close> is the GET of an endpoint with a bearer token; \<open>raise_for_status\<close> refuses any error status.\<close>

definition fetch_s3_credentials ::
  "platform \<Rightarrow> secrets \<Rightarrow> time \<Rightarrow> (json \<Rightarrow> string \<Rightarrow> exn + http_response) \<Rightarrow> edl_identity \<Rightarrow> json \<Rightarrow> exn + json" where
  "fetch_s3_credentials pf ss now http i endpoint =
     s_bind (http endpoint (id_token i)) (\<lambda>r.
     s_bind (classify_http_response pf ss now (ht_status r) (Some (ht_text r)) (Some i)) (\<lambda>c.
       case c of
         Some e \<Rightarrow> Inl e
       | None \<Rightarrow> if 400 \<le> ht_status r then Inl (HttpStatusErr ''HTTPStatusError'' (ht_status r) (Some (ht_text r)))
                 else ht_json r))"

definition epoch :: int where
  "epoch = ymd2ord 1970 1 1 * day_micros"

text \<open>The instant of a date-time; a naive one is UTC.\<close>

definition instant :: "datetime \<Rightarrow> time" where
  "instant d = clock d - (case d_off d of None \<Rightarrow> 0 | Some k \<Rightarrow> k) - epoch"

definition s3_creds_expired :: "platform \<Rightarrow> time \<Rightarrow> json \<Rightarrow> exn + bool" where
  "s3_creds_expired pf now creds =
     s_bind (py_get creds ''expiration'' JNull) (\<lambda>expiration.
       if \<not> truthy expiration then Inr False
       else case fromisoformat (py_replace ''Z'' ''+00:00'' (py_str (pf_show pf) expiration)) of
              Inl (ValueError m) \<Rightarrow> Inr True
            | Inl e \<Rightarrow> Inl e
            | Inr d \<Rightarrow> Inr (now \<ge> instant d))"

definition get_s3_credentials ::
  "platform \<Rightarrow> secrets \<Rightarrow> time \<Rightarrow> (json \<Rightarrow> string \<Rightarrow> exn + http_response) \<Rightarrow> dict list \<Rightarrow> string option
   \<Rightarrow> string option \<Rightarrow> token_session \<Rightarrow> (exn + json) \<times> token_session" where
  "get_s3_credentials pf ss now http daacs daac provider s =
     (case s3_credentials_endpoint daacs daac provider of
        Inl e \<Rightarrow> (Inl e, s)
      | Inr endpoint \<Rightarrow>
          let key = py_str (pf_show pf) endpoint;
              cached = jget (ts_s3_creds s) key;
              again = (case fetch_s3_credentials pf ss now http (ts_identity s) endpoint of
                         Inl e \<Rightarrow> (Inl e, s)
                       | Inr creds \<Rightarrow> (Inr creds, s\<lparr>ts_s3_creds := AList.update key creds (ts_s3_creds s)\<rparr>))
          in if cached = JNull then again
             else case s3_creds_expired pf now cached of
                    Inl e \<Rightarrow> (Inl e, s)
                  | Inr expired \<Rightarrow> if expired then again else (Inr cached, s))"

section \<open>Credentials at rest\<close>

text \<open>\<open>credential_key\<close> is the configured setting, comma separated; the first key encrypts.\<close>

definition fernet_keys :: "platform \<Rightarrow> string \<Rightarrow> exn + string list" where
  "fernet_keys pf credential_key =
     (let keys = filter (\<lambda>k. k \<noteq> []) (map py_strip (py_split CHR '','' credential_key)) in
      if keys = [] then Inl CredentialKeyUnavailable
      else if \<not> list_all (pf_key_valid pf) keys then Inl (ValueError ''Fernet key must be 32 url-safe base64-encoded bytes.'')
      else Inr keys)"

definition ensure_credential_key :: "platform \<Rightarrow> string \<Rightarrow> exn + unit" where
  "ensure_credential_key pf credential_key = s_bind (fernet_keys pf credential_key) (\<lambda>_. Inr ())"

definition encrypt_credential :: "platform \<Rightarrow> string \<Rightarrow> string \<Rightarrow> exn + string" where
  "encrypt_credential pf credential_key token =
     s_bind (fernet_keys pf credential_key) (\<lambda>keys. Inr (pf_encrypt pf keys token))"

definition decrypt_credential ::
  "platform \<Rightarrow> string \<Rightarrow> string \<Rightarrow> secrets \<Rightarrow> (exn + string) \<times> secrets" where
  "decrypt_credential pf credential_key blob ss =
     (case fernet_keys pf credential_key of
        Inl e \<Rightarrow> (Inl e, ss)
      | Inr keys \<Rightarrow>
          (case pf_decrypt pf keys blob of
             None \<Rightarrow> (Inl (ValueError ''cannot decrypt the job's stored credential''), ss)
           | Some token \<Rightarrow> (Inr token, register_secret (Some token) ss)))"

section \<open>The session cache is bounded and keeps identities apart\<close>

text \<open>At most 32 sessions, one per digest, each filed under the digest of its own token.\<close>

definition cache_ok :: "platform \<Rightarrow> session_cache \<Rightarrow> bool" where
  "cache_ok pf c \<longleftrightarrow> length c \<le> SESSION_CACHE_MAX \<and> distinct (map fst c)
     \<and> (\<forall>(k, s, _) \<in> set c. k = pf_sha pf (id_token (ts_identity s)))"

lemma pop_lru_drop: "pop_lru c = drop (length c - SESSION_CACHE_MAX) c"
  by (induction c) (auto simp: Suc_diff_le)

lemma delete_length: "map_of c k = Some v \<Longrightarrow> length (AList.delete k c) < length c"
proof -
  assume "map_of c k = Some v"
  then have "(k, v) \<in> set c" by (rule map_of_SomeD)
  then show ?thesis unfolding AList.delete_eq by (rule length_filter_less) simp
qed

lemma delete_set: "x \<in> set (AList.delete k c) \<longleftrightarrow> x \<in> set c \<and> fst x \<noteq> k"
  by (auto simp: AList.delete_eq)

lemma cache_ok_touch:
  assumes "cache_ok pf c" and "map_of c k = Some (s, t)"
  shows "cache_ok pf (AList.delete k c @ [(k, (s, t))])"
proof -
  have "(k, s, t) \<in> set c" by (rule map_of_SomeD [OF assms(2)])
  moreover have "length (AList.delete k c) < length c"
    by (rule delete_length [OF assms(2)])
  moreover have "k \<notin> fst ` set (AList.delete k c)" by (auto simp: delete_set)
  ultimately show ?thesis
    using assms(1) by (auto simp: cache_ok_def delete_set distinct_delete)
qed

lemma cache_ok_fresh:
  assumes "cache_ok pf c"
  shows "cache_ok pf (pop_lru (AList.delete (pf_sha pf (id_token i)) c @ [(pf_sha pf (id_token i), (new_session i, t))]))"
proof -
  let ?k = "pf_sha pf (id_token i)"
  let ?c = "AList.delete ?k c @ [(?k, (new_session i, t))]"
  have "?k \<notin> fst ` set (AList.delete ?k c)" by (auto simp: delete_set)
  then have d: "distinct (map fst ?c)" using assms by (simp add: cache_ok_def distinct_delete)
  have m: "\<forall>(k, s, _) \<in> set ?c. k = pf_sha pf (id_token (ts_identity s))"
    using assms by (auto simp: cache_ok_def delete_set new_session_def)
  show ?thesis
    unfolding cache_ok_def pop_lru_drop
  proof (intro conjI)
    show "length (drop (length ?c - SESSION_CACHE_MAX) ?c) \<le> SESSION_CACHE_MAX" by simp
    show "distinct (map fst (drop (length ?c - SESSION_CACHE_MAX) ?c))"
      using d by (metis distinct_drop drop_map)
    show "\<forall>(k, s, _) \<in> set (drop (length ?c - SESSION_CACHE_MAX) ?c). k = pf_sha pf (id_token (ts_identity s))"
      using m by (blast dest: in_set_dropD)
  qed
qed

lemma fresh_last:
  "map_of (pop_lru (AList.delete k c @ [(k, v)])) k = Some v"
proof -
  have "k \<notin> fst ` set (AList.delete k c)" by (auto simp: delete_set)
  then have "map_of (drop n (AList.delete k c)) k = None" for n
    by (auto simp: map_of_eq_None_iff dest: in_set_dropD)
  moreover have "length (AList.delete k c @ [(k, v)]) - SESSION_CACHE_MAX \<le> length (AList.delete k c)"
    by (simp add: SESSION_CACHE_MAX_def)
  ultimately show ?thesis by (simp add: pop_lru_drop map_add_def)
qed

text \<open>
  The session a call gets belongs to its own token: filed under that token's digest, never another
  identity's. The cache holds at most 32 sessions, one per identity; a session younger than an
  hour is reused, an older one is rebuilt, and the session returned is the one the next call finds.
\<close>

theorem token_session_isolated:
  assumes "cache_ok pf c" and "get_token_session pf i now c = (s, c')"
    and "\<And>t. pf_sha pf t = pf_sha pf (id_token i) \<Longrightarrow> t = id_token i"
  shows "id_token (ts_identity s) = id_token i \<and> cache_ok pf c' \<and> length c' \<le> 32
    \<and> map_option fst (map_of c' (pf_sha pf (id_token i))) = Some s
    \<and> (case map_of c (pf_sha pf (id_token i)) of
         None \<Rightarrow> s = new_session i
       | Some (old, created) \<Rightarrow> s = (if now - created < 3600 then old else new_session i))"
proof -
  let ?k = "pf_sha pf (id_token i)"
  have fresh: "cache_ok pf (pop_lru (AList.delete ?k c @ [(?k, (new_session i, now))]))"
    by (rule cache_ok_fresh [OF assms(1)])
  have bound: "cache_ok pf x \<Longrightarrow> length x \<le> 32" for x by (simp add: cache_ok_def SESSION_CACHE_MAX_def)
  show ?thesis
  proof (cases "map_of c ?k")
    case None
    then show ?thesis
      using assms(2) fresh bound [OF fresh] fresh_last [of ?k c]
      by (auto simp: get_token_session_def Let_def new_session_def)
  next
    case (Some e)
    obtain old created where e: "e = (old, created)" by fastforce
    have own: "id_token (ts_identity old) = id_token i"
    proof -
      have "(?k, old, created) \<in> set c" by (rule map_of_SomeD) (simp add: Some e)
      then have "pf_sha pf (id_token (ts_identity old)) = ?k" using assms(1) by (auto simp: cache_ok_def)
      then show ?thesis by (rule assms(3))
    qed
    show ?thesis
    proof (cases "now - created < 3600")
      case True
      have touched: "cache_ok pf (AList.delete ?k c @ [(?k, (old, created))])"
        by (rule cache_ok_touch [OF assms(1)]) (simp add: Some e)
      have "map_of (AList.delete ?k c) ?k = None" by (simp add: delete_conv)
      then show ?thesis
        using assms(2) True Some e own touched bound [OF touched]
        by (auto simp: get_token_session_def Let_def SESSION_TTL_SECONDS_def map_add_def)
    next
      case False
      then show ?thesis
        using assms(2) Some e fresh bound [OF fresh] fresh_last [of ?k c]
        by (auto simp: get_token_session_def Let_def SESSION_TTL_SECONDS_def new_session_def)
    qed
  qed
qed

text \<open>A platform that digests and encrypts by tagging, for examples.\<close>

definition sample_platform :: platform where
  "sample_platform =
     \<lparr>pf_loads = (\<lambda>t. if py_startswith t ''{'' then Inr (JObj [(''uid'', JStr ''ann''), (''exp'', JInt 100)])
                     else Inl (ValueError ''Expecting value'')),
      pf_b64decode = (\<lambda>t. if py_startswith t ''e'' then Inr ''{'' else Inl (ValueError ''Incorrect padding'')),
      pf_sha = (\<lambda>t. ''sha:'' @ t), pf_show = (\<lambda>_. []), pf_key_valid = (\<lambda>k. k \<noteq> []),
      pf_encrypt = (\<lambda>ks t. hd ks @ '':'' @ t),
      pf_decrypt = (\<lambda>ks b. map_option (\<lambda>k. drop (length k + 1) b) (List.find (\<lambda>k. py_startswith b (k @ '':'')) ks))\<rparr>"

definition sample_identity :: "string \<Rightarrow> edl_identity" where
  "sample_identity tok = \<lparr>id_token = tok, id_username = JStr ''ann'', id_expires_at = Some 100000000\<rparr>"

lemma token_session_isolated_witness:
  "(case get_token_session sample_platform (sample_identity ''t1'') 10 [] of
      (s, c) \<Rightarrow> id_token (ts_identity s) = ''t1'' \<and> length c = 1)"
proof -
  obtain s c where run: "get_token_session sample_platform (sample_identity ''t1'') 10 [] = (s, c)" by fastforce
  have "cache_ok sample_platform []" by (simp add: cache_ok_def)
  from token_session_isolated [OF this run, THEN conjunct1]
  have "id_token (ts_identity s) = id_token (sample_identity ''t1'')" by (simp add: sample_platform_def)
  then have "id_token (ts_identity s) = ''t1''" by (simp add: sample_identity_def)
  moreover have "length c = 1"
    using run by (auto simp: get_token_session_def Let_def pop_lru_drop SESSION_CACHE_MAX_def AList.delete_eq)
  ultimately show ?thesis by (simp add: run)
qed

section \<open>What a failure is classified as\<close>

text \<open>
  The refusals of a credential: whether the answer was \<open>forbidden\<close> (only then can it be a licence) and
  the text that came with it.
\<close>

definition auth_failure :: "exn \<Rightarrow> (bool \<times> string) option" where
  "auth_failure e =
     (case e of
        HttpStatusErr _ status body \<Rightarrow>
          if status = 401 then Some (False, case body of None \<Rightarrow> [] | Some t \<Rightarrow> t)
          else if status = 403 then Some (True, case body of None \<Rightarrow> [] | Some t \<Rightarrow> t) else None
      | PlainExn (a # b # rest) \<Rightarrow>
          if py_lower (py_strip a) = ''unauthorized'' then Some (False, py_join '' '' (b # rest))
          else if py_lower (py_strip a) = ''forbidden'' then Some (True, py_join '' '' (b # rest)) else None
      | _ \<Rightarrow> None)"

definition class_of :: "time \<Rightarrow> edl_identity option \<Rightarrow> bool \<times> string \<Rightarrow> cred_class" where
  "class_of now i f =
     (if fst f \<and> signals_eula (snd f) then EULA_NOT_ACCEPTED
      else (case i of Some j \<Rightarrow> if is_expired j now then TOKEN_EXPIRED else TOKEN_INVALID | None \<Rightarrow> TOKEN_INVALID))"

definition scrubbed :: "secrets \<Rightarrow> cred_class \<Rightarrow> exn \<Rightarrow> bool" where
  "scrubbed ss c x \<longleftrightarrow> (\<exists>msg url. x = CredentialError c (class_name c @ '': '' @ msg) url
     \<and> list_all (\<lambda>u. \<not> py_contains msg u) ss)"

lemma scrubbed_cred_error: "list_all scrubbable ss \<Longrightarrow> scrubbed ss c (cred_error ss c msg url)"
proof -
  assume "list_all scrubbable ss"
  then have "list_all (\<lambda>u. \<not> py_contains (redact ss msg) u) ss"
    by (simp add: list_all_iff redact_removes)
  then show ?thesis unfolding scrubbed_def cred_error_def by blast
qed

lemma token_rejection_class:
  "list_all scrubbable ss \<Longrightarrow> \<not> (b \<and> signals_eula t) \<Longrightarrow>
     scrubbed ss (class_of now i (b, t)) (token_rejection ss now i msg)"
  by (auto simp: token_rejection_def class_of_def intro: scrubbed_cred_error split: option.splits)

lemma eula_error_class:
  "list_all scrubbable ss \<Longrightarrow> eula_error pf ss t = Inr x \<Longrightarrow> scrubbed ss EULA_NOT_ACCEPTED x"
  by (auto simp: eula_error_def sum_simps intro: scrubbed_cred_error)

lemma extract_Inl: "extract_resolution_url pf t = Inl e \<Longrightarrow> pf_loads pf t = Inl e"
proof (cases "pf_loads pf t")
  case (Inl a)
  assume "extract_resolution_url pf t = Inl e"
  then show ?thesis using Inl by (cases a) (simp_all add: extract_resolution_url_def)
next
  case (Inr j)
  assume "extract_resolution_url pf t = Inl e"
  then have False using Inr by (cases j) (simp_all add: extract_resolution_url_def split: option.splits)
  then show ?thesis ..
qed

lemma eula_error_Inl: "eula_error pf ss t = Inl e \<Longrightarrow> pf_loads pf t = Inl e"
  by (auto simp: eula_error_def sum_simps intro: extract_Inl)

text \<open>A library function that fails with a \<open>ValueError\<close> if it fails.\<close>

definition value_errors :: "('a \<Rightarrow> exn + 'b) \<Rightarrow> bool" where
  "value_errors f \<longleftrightarrow> (\<forall>x e. f x = Inl e \<longrightarrow> (\<exists>m. e = ValueError m))"

lemma value_errorsD: "value_errors f \<Longrightarrow> f x = Inl e \<Longrightarrow> \<exists>m. e = ValueError m"
  by (simp add: value_errors_def)

lemma eula_classified:
  assumes "list_all scrubbable ss" and "value_errors (pf_loads pf)"
  shows "\<exists>x. eula_error pf ss t = Inr x \<and> scrubbed ss EULA_NOT_ACCEPTED x"
proof (cases "eula_error pf ss t")
  case (Inl a)
  then have load: "pf_loads pf t = Inl a" by (rule eula_error_Inl)
  then obtain m where "a = ValueError m" using value_errorsD [OF assms(2)] by blast
  then show ?thesis using Inl load by (simp add: eula_error_def extract_resolution_url_def)
next
  case (Inr x)
  then show ?thesis using eula_error_class [OF assms(1) Inr] by blast
qed

lemma refusal_classified:
  assumes "list_all scrubbable ss" and "value_errors (pf_loads pf)"
  shows "\<exists>x. (if b \<and> signals_eula t then s_bind (eula_error pf ss t) (\<lambda>e. Inr (Some e))
    else Inr (Some (token_rejection ss now i msg))) = Inr (Some x) \<and> scrubbed ss (class_of now i (b, t)) x"
proof (cases "b \<and> signals_eula t")
  case True
  then show ?thesis using eula_classified [OF assms, of t] by (auto simp: class_of_def)
next
  case False
  then show ?thesis using token_rejection_class [OF assms(1) False] by auto
qed

lemma http_status_classified:
  assumes "list_all scrubbable ss" and "value_errors (pf_loads pf)"
  shows "\<exists>r. classify_credential_failure pf ss now (HttpStatusErr n status body) i = Inr r
    \<and> (case auth_failure (HttpStatusErr n status body) of
         None \<Rightarrow> r = None
       | Some f \<Rightarrow> (\<exists>x. r = Some x \<and> scrubbed ss (class_of now i f) x))"
proof -
  define t where "t = (case body of None \<Rightarrow> [] | Some t \<Rightarrow> t)"
  define msg where "msg s = ''NASA rejected the credential (HTTP '' @ show_int s @ '')''" for s
  obtain x where x: "(if True \<and> signals_eula t then s_bind (eula_error pf ss t) (\<lambda>e. Inr (Some e))
      else Inr (Some (token_rejection ss now i (msg 403)))) = Inr (Some x)" "scrubbed ss (class_of now i (True, t)) x"
    using refusal_classified [OF assms] by blast
  have y: "scrubbed ss (class_of now i (False, t)) (token_rejection ss now i (msg 401))"
    using token_rejection_class [OF assms(1)] by blast
  have run: "classify_credential_failure pf ss now (HttpStatusErr n status body) i =
      (if status \<noteq> 401 \<and> status \<noteq> 403 then Inr None
       else if status = 403 \<and> signals_eula t then s_bind (eula_error pf ss t) (\<lambda>e. Inr (Some e))
       else Inr (Some (token_rejection ss now i (msg status))))"
    by (simp add: classify_credential_failure_def classify_http_response_def t_def msg_def Let_def)
  have f: "auth_failure (HttpStatusErr n status body) =
      (if status = 401 then Some (False, t) else if status = 403 then Some (True, t) else None)"
    by (simp add: auth_failure_def t_def)
  consider "status = 401" | "status = 403" | "status \<noteq> 401" "status \<noteq> 403" by blast
  then show ?thesis
  proof cases
    case 1
    then show ?thesis using y unfolding run f by simp
  next
    case 2
    then show ?thesis using x unfolding run f by (cases "signals_eula t") auto
  next
    case 3
    then show ?thesis unfolding run f by simp
  qed
qed

text \<open>
  C38: a provider failure is a credential failure exactly when the provider refused the credential: a 401
  or 403, or harmony's unauthorized or forbidden reason. It is a licence requirement only for a
  forbidden answer that speaks of one, otherwise an expired token exactly when the identity's own
  expiry has passed, otherwise an invalid one; a failure already classified passes through. No
  registered secret appears in the message.
\<close>

theorem credential_failure_classified:
  assumes "list_all scrubbable ss" and "value_errors (pf_loads pf)"
  shows "\<exists>r. classify_credential_failure pf ss now e i = Inr r
    \<and> (if is_cred_error e then r = Some e
       else (case auth_failure e of
               None \<Rightarrow> r = None
             | Some f \<Rightarrow> (\<exists>x. r = Some x \<and> scrubbed ss (class_of now i f) x)))"
proof (cases e)
  case (HttpStatusErr n status body)
  then show ?thesis using http_status_classified [OF assms] by (simp add: is_cred_error_def)
next
  case (PlainExn args)
  show ?thesis
  proof (cases "\<exists>a b rest. args = a # b # rest")
    case True
    then obtain a b rest where "args = a # b # rest" by blast
    then show ?thesis
      using refusal_classified [OF assms, of True "py_join '' '' (b # rest)" now i "py_join '' '' (b # rest)"]
        refusal_classified [OF assms, of False "py_join '' '' (b # rest)" now i "py_join '' '' (b # rest)"]
      by (cases "py_lower (py_strip a) = ''unauthorized''"; cases "py_lower (py_strip a) = ''forbidden''";
          cases "signals_eula (py_join '' '' (b # rest))")
        (auto simp: PlainExn classify_credential_failure_def auth_failure_def is_cred_error_def Let_def)
  next
    case False
    then have "args = [] \<or> (\<exists>a. args = [a])" by (metis neq_Nil_conv)
    then show ?thesis by (auto simp: PlainExn classify_credential_failure_def auth_failure_def is_cred_error_def)
  qed
qed (simp_all add: classify_credential_failure_def auth_failure_def is_cred_error_def)

lemma credential_failure_classified_witness:
  "(case classify_credential_failure sample_platform [''secret-token''] 200000000
          (PlainExn [''Unauthorized'', ''bad secret-token'']) (Some (sample_identity ''secret-token'')) of
      Inr (Some x) \<Rightarrow> scrubbed [''secret-token''] TOKEN_EXPIRED x
    | _ \<Rightarrow> False)"
proof -
  let ?e = "PlainExn [''Unauthorized'', ''bad secret-token'']" and ?i = "Some (sample_identity ''secret-token'')"
  have "list_all scrubbable [''secret-token'']" by (simp add: scrubbable_def py_startswith_def)
  moreover have "value_errors (pf_loads sample_platform)" by (simp add: value_errors_def sample_platform_def)
  ultimately have "\<exists>r. classify_credential_failure sample_platform [''secret-token''] 200000000 ?e ?i = Inr r
    \<and> (if is_cred_error ?e then r = Some ?e
       else (case auth_failure ?e of
               None \<Rightarrow> r = None
             | Some f \<Rightarrow> (\<exists>x. r = Some x \<and> scrubbed [''secret-token''] (class_of 200000000 ?i f) x)))"
    by (rule credential_failure_classified)
  moreover have "py_lower (py_strip ''Unauthorized'') = ''unauthorized''" by code_simp
  ultimately show ?thesis
    by (auto simp: auth_failure_def is_cred_error_def class_of_def sample_identity_def is_expired_def)
qed

section \<open>The boundary a token crosses\<close>

lemma decode_jwt_payload_fails:
  assumes "value_errors (pf_loads pf)" and "value_errors (pf_b64decode pf)" and "decode_jwt_payload pf t = Inl e"
  shows "\<exists>m. e = ValueError m"
proof -
  have dict: "(case j of JObj d \<Rightarrow> Inr d | _ \<Rightarrow> Inl (ValueError m)) = Inl e \<Longrightarrow> \<exists>m. e = ValueError m"
    for j :: json and m and e :: exn by (cases j) auto
  show ?thesis
    using assms by (auto simp: decode_jwt_payload_def Let_def s_bind_Inl_iff value_errors_def split: if_splits dest: dict)
qed

lemma fromtimestamp_fails: "fromtimestamp x = Inl e \<Longrightarrow> e = ValueError ''year is out of range''"
  by (auto simp: fromtimestamp_def Let_def split: if_splits)

text \<open>
  C18: an empty token is no identity and touches nothing. Any other token is in the redaction register
  before anything else happens, whatever the outcome, so no error can carry it; an identity comes
  back only for a decodable token that is not past its own expiry, and the failures are the two
  classified ones, save an expiry outside the calendar, which escapes as a plain \<open>ValueError\<close>.
\<close>

theorem token_boundary:
  assumes "value_errors (pf_loads pf)" and "value_errors (pf_b64decode pf)"
    and "parse_edl_token pf now (Some raw) ss = (r, ss')"
  shows "if py_strip raw = [] then r = Inr None \<and> ss' = ss
    else ss' = register_secret (Some (py_strip raw)) ss
      \<and> (MIN_SECRET_LENGTH \<le> length (py_strip raw) \<longrightarrow> py_strip raw \<in> set ss')
      \<and> (case r of
           Inr None \<Rightarrow> False
         | Inr (Some i) \<Rightarrow> id_token i = py_strip raw \<and> \<not> is_expired i now
         | Inl e \<Rightarrow>
             (case decode_jwt_payload pf (py_strip raw) of
                Inl _ \<Rightarrow> e = cred_error ss' TOKEN_INVALID ''edl_token is not a well-formed EDL token'' None
              | Inr claims \<Rightarrow>
                  (case exp_claim (jget claims ''exp'') of
                     None \<Rightarrow> False
                   | Some x \<Rightarrow>
                       (case fromtimestamp x of
                          Inl _ \<Rightarrow> e = ValueError ''year is out of range''
                        | Inr t \<Rightarrow> t \<le> now \<and> e = cred_error ss' TOKEN_EXPIRED ''edl_token expired'' None))))"
proof (cases "py_strip raw = []")
  case True
  then show ?thesis using assms(3) by (simp add: parse_edl_token_def Let_def)
next
  case False
  define ss1 where "ss1 = register_secret (Some (py_strip raw)) ss"
  have mem: "MIN_SECRET_LENGTH \<le> length (py_strip raw) \<longrightarrow> py_strip raw \<in> set ss1"
    using register_secret_mem by (simp add: ss1_def)
  note run = assms(3) [unfolded parse_edl_token_def Let_def option.case if_not_P [OF False] ss1_def [symmetric]]
  show ?thesis
  proof (cases "decode_jwt_payload pf (py_strip raw)")
    case (Inl e)
    then obtain m where "e = ValueError m" using decode_jwt_payload_fails [OF assms(1,2)] by blast
    then have "r = Inl (cred_error ss1 TOKEN_INVALID ''edl_token is not a well-formed EDL token'' None)" "ss' = ss1"
      using run Inl by auto
    then show ?thesis using mem Inl False by (simp add: ss1_def)
  next
    case (Inr claims)
    show ?thesis
    proof (cases "exp_claim (jget claims ''exp'')")
      case None
      then have "\<exists>i. r = Inr (Some i) \<and> id_token i = py_strip raw \<and> \<not> is_expired i now" "ss' = ss1"
        using run Inr None by (auto simp: is_expired_def)
      then show ?thesis using mem False by (auto simp: ss1_def)
    next
      case (Some x)
      show ?thesis
      proof (cases "fromtimestamp x")
        case (Inl e)
        then have "r = Inl (ValueError ''year is out of range'')" "ss' = ss1"
          using run Inr Some Inl fromtimestamp_fails [OF Inl] by auto
        then show ?thesis using mem False Inr Some Inl by (simp add: ss1_def)
      next
        case stamped: (Inr t)
        show ?thesis
        proof (cases "t \<le> now")
          case True
          then have "r = Inl (cred_error ss1 TOKEN_EXPIRED ''edl_token expired'' None)" "ss' = ss1"
            using run Inr Some stamped True by (auto simp: is_expired_def)
          then show ?thesis using mem False Inr Some stamped True by (simp add: ss1_def)
        next
          case no: False
          then have "\<exists>i. r = Inr (Some i) \<and> id_token i = py_strip raw \<and> \<not> is_expired i now" "ss' = ss1"
            using run Inr Some stamped no by (auto simp: is_expired_def)
          then show ?thesis using mem False by (auto simp: ss1_def)
        qed
      qed
    qed
  qed
qed

lemma token_boundary_witness:
  "(case parse_edl_token sample_platform 200000000 (Some ''aaaa.eyJh.cccc'') [] of
      (Inl e, ss) \<Rightarrow> is_cred_error e \<and> ss = [''aaaa.eyJh.cccc'']
    | _ \<Rightarrow> False)"
proof -
  let ?t = "''aaaa.eyJh.cccc''"
  have strip: "py_strip ?t = ?t" by code_simp
  have pf: "value_errors (pf_loads sample_platform)" "value_errors (pf_b64decode sample_platform)"
    by (simp_all add: value_errors_def sample_platform_def)
  obtain r ss where run: "parse_edl_token sample_platform 200000000 (Some ?t) [] = (r, ss)" by fastforce
  have split: "py_split CHR ''.'' ?t = [''aaaa'', ''eyJh'', ''cccc'']" by code_simp
  have dec: "decode_jwt_payload sample_platform ?t = Inr [(''uid'', JStr ''ann''), (''exp'', JInt 100)]"
    by (simp add: decode_jwt_payload_def split sample_platform_def py_startswith_def)
  have exp: "exp_claim (JInt 100) = Some 100" by (simp add: exp_claim_def)
  have "\<exists>f. fromtimestamp 100 = Inr f \<and> f \<le> 200000000" by (simp add: fromtimestamp_def round_half_even_def Let_def)
  moreover note token_boundary [OF pf run]
  ultimately have "(\<exists>e. r = Inl e \<and> is_cred_error e) \<or> (\<exists>i. r = Inr (Some i))" "ss = register_secret (Some ?t) []"
    by (auto simp: strip dec exp is_cred_error_def cred_error_def split: sum.splits option.splits)
  moreover have "r \<noteq> Inr (Some i)" for i
    using run by (auto simp: parse_edl_token_def strip Let_def dec exp fromtimestamp_def round_half_even_def is_expired_def)
  moreover have "register_secret (Some ?t) [] = [?t]"
    by (simp add: register_secret_def MIN_SECRET_LENGTH_def MAX_SECRETS_def)
  ultimately show ?thesis by (auto simp: run)
qed

section \<open>A credential at rest\<close>

text \<open>
  What the Fernet library promises: a blob is decrypted by exactly the key sets that hold the key it
  was written under.
\<close>

definition fernet_law :: "platform \<Rightarrow> bool" where
  "fernet_law pf \<longleftrightarrow> (\<forall>keys others t. keys \<noteq> [] \<longrightarrow>
     pf_decrypt pf others (pf_encrypt pf keys t) = (if hd keys \<in> set others then Some t else None))"

lemma fernet_keys_rotate:
  assumes "fernet_keys pf cfg = Inr ks" and "CHR '','' \<notin> set k" and "py_strip k \<noteq> []" and "pf_key_valid pf (py_strip k)"
  shows "fernet_keys pf (k @ '','' @ cfg) = Inr (py_strip k # ks)"
proof -
  have "py_split CHR '','' (k @ '','' @ cfg) = k # py_split CHR '','' cfg"
    using split_append_sep [of "CHR '',''" k cfg] split_no_sep [OF assms(2)] by simp
  then show ?thesis using assms by (auto simp: fernet_keys_def Let_def split: if_splits)
qed

lemma fernet_keys_not_Nil: "fernet_keys pf cfg = Inr ks \<Longrightarrow> ks \<noteq> []"
  by (auto simp: fernet_keys_def Let_def split: if_splits)

text \<open>
  A credential encrypted for the jobs row is recovered under the same keys and after a new key is
  put in front of them, and is then covered by redaction; a deployment that dropped the key it was
  written under gets an error instead of another token, and one without keys refuses to store any.
\<close>

theorem credential_at_rest:
  assumes "fernet_law pf" and "encrypt_credential pf cfg token = Inr blob"
    and "CHR '','' \<notin> set k" and "py_strip k \<noteq> []" and "pf_key_valid pf (py_strip k)"
    and "fernet_keys pf other = Inr os"
  shows "decrypt_credential pf cfg blob ss = (Inr token, register_secret (Some token) ss)
    \<and> decrypt_credential pf (k @ '','' @ cfg) blob ss = (Inr token, register_secret (Some token) ss)
    \<and> (case fernet_keys pf cfg of
         Inl e \<Rightarrow> False
       | Inr ks \<Rightarrow> hd ks \<in> set os
           \<or> decrypt_credential pf other blob ss = (Inl (ValueError ''cannot decrypt the job's stored credential''), ss))
    \<and> encrypt_credential pf '','' token = Inl CredentialKeyUnavailable"
proof -
  obtain ks where ks: "fernet_keys pf cfg = Inr ks" "blob = pf_encrypt pf ks token"
    using assms(2) by (auto simp: encrypt_credential_def sum_simps)
  have ne: "ks \<noteq> []" by (rule fernet_keys_not_Nil [OF ks(1)])
  then have dec: "pf_decrypt pf others blob = (if hd ks \<in> set others then Some token else None)" for others
    using assms(1) by (simp add: fernet_law_def ks(2))
  have "fernet_keys pf (k @ '','' @ cfg) = Inr (py_strip k # ks)"
    by (rule fernet_keys_rotate [OF ks(1) assms(3-5)])
  moreover have "hd ks \<in> set ks" using ne by simp
  moreover have "fernet_keys pf '','' = Inl CredentialKeyUnavailable"
    by (simp add: fernet_keys_def py_strip_def py_lstrip_def py_rstrip_def)
  ultimately show ?thesis
    using dec ks(1) assms(6) by (auto simp: decrypt_credential_def encrypt_credential_def)
qed

text \<open>A cipher that writes the length of its key in front of it.\<close>

definition tagging_platform :: platform where
  "tagging_platform = sample_platform
     \<lparr>pf_encrypt := (\<lambda>ks t. replicate (length (hd ks)) CHR ''x'' @ CHR ''.'' # hd ks @ t),
      pf_decrypt := (\<lambda>ks b.
        let n = length (takeWhile (\<lambda>c. c = CHR ''x'') b); r = drop (n + 1) b
        in if take n r \<in> set ks then Some (drop n r) else None)\<rparr>"

lemma tagging_law: "fernet_law tagging_platform"
proof -
  have "takeWhile (\<lambda>c. c = CHR ''x'') (replicate n CHR ''x'' @ CHR ''.'' # r) = replicate n CHR ''x''" for n r
    by (induction n) auto
  then show ?thesis by (simp add: fernet_law_def tagging_platform_def Let_def)
qed

lemma credential_at_rest_witness:
  "(case encrypt_credential tagging_platform ''k1'' ''secret-token'' of
      Inr blob \<Rightarrow> decrypt_credential tagging_platform (''k2'' @ '','' @ ''k1'') blob [] = (Inr ''secret-token'', [''secret-token''])
    | Inl e \<Rightarrow> False)"
proof -
  have strips: "py_strip ''k1'' = ''k1''" "py_strip ''k2'' = ''k2''"
    by (simp_all add: py_strip_def py_lstrip_def py_rstrip_def is_space_def)
  have keys: "fernet_keys tagging_platform ''k1'' = Inr [''k1'']"
    by (simp add: fernet_keys_def strips tagging_platform_def sample_platform_def)
  then obtain blob where blob: "encrypt_credential tagging_platform ''k1'' ''secret-token'' = Inr blob"
    by (simp add: encrypt_credential_def)
  have "CHR '','' \<notin> set ''k2''" "py_strip ''k2'' \<noteq> []" "pf_key_valid tagging_platform (py_strip ''k2'')"
    by (simp_all add: strips tagging_platform_def sample_platform_def)
  from credential_at_rest [OF tagging_law blob this keys]
  have "decrypt_credential tagging_platform (''k2'' @ '','' @ ''k1'') blob [] = (Inr ''secret-token'', register_secret (Some ''secret-token'') [])"
    by (simp only:)
  then show ?thesis
    using blob by (simp add: register_secret_def MIN_SECRET_LENGTH_def MAX_SECRETS_def)
qed

end
