(* ===== verification/Materialization.thy ===== *)
theory Materialization
  imports RequestSpec
begin

text \<open>
  The record of what a job delivered (\<open>providers/materialization.py\<close>): its construction from a
  provider's result, its JSONB form and the content digest. \<open>json.dumps\<close> with sorted keys, compact
  separators and ASCII escapes is written out; \<open>show_float\<close> renders a float, \<open>sha\<close> is the SHA-256
  hex digest.
\<close>

section \<open>Compact JSON text\<close>

definition hex_char :: "nat \<Rightarrow> char" where
  "hex_char n = (if n < 10 then char_of (48 + n) else char_of (87 + n))"

definition escape_char :: "char \<Rightarrow> string" where
  "escape_char c =
     (let n = of_char c :: nat in
      if c = CHR 0x22 then [CHR 0x5C, CHR 0x22]
      else if c = CHR 0x5C then [CHR 0x5C, CHR 0x5C]
      else if c = CHR 0x0A then CHR 0x5C # ''n''
      else if c = CHR 0x0D then CHR 0x5C # ''r''
      else if c = CHR 0x09 then CHR 0x5C # ''t''
      else if c = CHR 0x08 then CHR 0x5C # ''b''
      else if c = CHR 0x0C then CHR 0x5C # ''f''
      else if 32 \<le> n \<and> n \<le> 126 then [c]
      else CHR 0x5C # ''u00'' @ [hex_char (n div 16), hex_char (n mod 16)])"

definition dumps_str :: "string \<Rightarrow> string" where
  "dumps_str s = [CHR 0x22] @ concat (map escape_char s) @ [CHR 0x22]"

fun dumps :: "(rat \<Rightarrow> string) \<Rightarrow> json \<Rightarrow> string" where
  "dumps show_float JNull = ''null''"
| "dumps show_float (JBool b) = (if b then ''true'' else ''false'')"
| "dumps show_float (JInt i) = show_int i"
| "dumps show_float (JFloat r) = show_float r"
| "dumps show_float (JStr s) = dumps_str s"
| "dumps show_float (JArr xs) = ''['' @ py_join '','' (map (dumps show_float) xs) @ '']''"
| "dumps show_float (JObj d) =
     ''{'' @ py_join '',''
       (map snd (sort_key fst (map (\<lambda>(k, v). (k, dumps_str k @ '':'' @ dumps show_float v)) d))) @ ''}''"

section \<open>The record\<close>

definition GRANULE_IDS_KEY :: string where
  "GRANULE_IDS_KEY = ''granule_ids''"

definition SERVICE_CHAIN_KEY :: string where
  "SERVICE_CHAIN_KEY = ''service_chain''"

record materialization =
  mz_granule_ids :: "json list option"
  mz_provider_used :: json
  mz_service_chain :: "json list option"
  mz_output_format :: json

text \<open>\<open>tuple(x) if x is not None else None\<close>.\<close>

definition tuple_or_none :: "json \<Rightarrow> exn + json list option" where
  "tuple_or_none x = (if x = JNull then Inr None else s_bind (py_iter x) (\<lambda>xs. Inr (Some xs)))"

definition from_result :: "materialized_result \<Rightarrow> request_spec \<Rightarrow> exn + materialization" where
  "from_result result spec =
     s_bind (tuple_or_none (jget (mr_extra result) GRANULE_IDS_KEY)) (\<lambda>ids.
     s_bind (tuple_or_none (jget (mr_extra result) SERVICE_CHAIN_KEY)) (\<lambda>chain.
       Inr \<lparr>mz_granule_ids = ids, mz_provider_used = rs_provider spec, mz_service_chain = chain,
            mz_output_format = rs_output_format spec\<rparr>))"

definition partial :: "materialization \<Rightarrow> bool" where
  "partial m \<longleftrightarrow> mz_granule_ids m = None"

text \<open>\<open>sorted(set(xs))\<close> on identifiers, which are texts.\<close>

definition sorted_set :: "json list \<Rightarrow> exn + json list" where
  "sorted_set xs =
     (case s_each jtext xs of
        Inl e \<Rightarrow> Inl (TypeError ''unorderable or unhashable identifier'')
      | Inr ts \<Rightarrow> Inr (map JStr (sort (remdups ts))))"

definition digest_payload :: "materialization \<Rightarrow> exn + json" where
  "digest_payload m =
     s_bind (case mz_granule_ids m of
               None \<Rightarrow> Inr []
             | Some ids \<Rightarrow> s_bind (sorted_set ids) (\<lambda>s. Inr [(''granule_ids'', JArr s)]))
       (\<lambda>g. Inr (JObj
         ([(''provider_used'', mz_provider_used m), (''output_format'', mz_output_format m)] @ g @
          (case mz_service_chain m of None \<Rightarrow> [] | Some c \<Rightarrow> [(''service_chain'', JArr c)]))))"

definition content_digest :: "(string \<Rightarrow> string) \<Rightarrow> (rat \<Rightarrow> string) \<Rightarrow> materialization \<Rightarrow> exn + string" where
  "content_digest sha show_float m =
     s_bind (digest_payload m) (\<lambda>p. Inr (sha (dumps show_float p)))"

definition materialization_to_jsonb ::
  "(string \<Rightarrow> string) \<Rightarrow> (rat \<Rightarrow> string) \<Rightarrow> materialization \<Rightarrow> exn + dict" where
  "materialization_to_jsonb sha show_float m =
     s_bind (content_digest sha show_float m) (\<lambda>d. Inr
       ([(''provider_used'', mz_provider_used m), (''output_format'', mz_output_format m),
         (''content_digest'', JStr d), (''partial'', JBool (partial m))] @
        (case mz_granule_ids m of None \<Rightarrow> [] | Some ids \<Rightarrow> [(GRANULE_IDS_KEY, JArr ids)]) @
        (case mz_service_chain m of None \<Rightarrow> [] | Some c \<Rightarrow> [(SERVICE_CHAIN_KEY, JArr c)])))"

definition materialization_from_jsonb :: "dict option \<Rightarrow> exn + materialization option" where
  "materialization_from_jsonb data =
     (case data of
        None \<Rightarrow> Inr None
      | Some d \<Rightarrow>
          if d = [] then Inr None
          else
            s_bind (tuple_or_none (jget d GRANULE_IDS_KEY)) (\<lambda>ids.
            s_bind (tuple_or_none (jget d SERVICE_CHAIN_KEY)) (\<lambda>chain.
              Inr (Some \<lparr>mz_granule_ids = ids, mz_provider_used = py_or (jget d ''provider_used'') (JStr []),
                         mz_service_chain = chain, mz_output_format = py_or (jget d ''output_format'') (JStr [])\<rparr>))))"

section \<open>What is recorded\<close>

lemma tuple_or_none_arr [simp]: "tuple_or_none (JArr xs) = Inr (Some xs)"
  by (simp add: tuple_or_none_def)

lemma tuple_or_none_null [simp]: "tuple_or_none JNull = Inr None"
  by (simp add: tuple_or_none_def)

lemma payload_eq_iff:
  assumes "mz_granule_ids m = map_option (map JStr) g" and "mz_granule_ids n = map_option (map JStr) h"
  shows "digest_payload m = digest_payload n \<longleftrightarrow>
    mz_provider_used m = mz_provider_used n \<and> mz_output_format m = mz_output_format n
    \<and> map_option set g = map_option set h \<and> mz_service_chain m = mz_service_chain n"
proof -
  have sets: "map JStr (sort (remdups xs)) = map JStr (sort (remdups ys)) \<longleftrightarrow> set xs = set ys" for xs ys :: "string list"
  proof
    assume "map JStr (sort (remdups xs)) = map JStr (sort (remdups ys))"
    then have "sort (remdups xs) = sort (remdups ys)" by (simp add: inj_map_eq_map inj_def)
    then have "set (sort (remdups xs)) = set (sort (remdups ys))" by (rule arg_cong)
    then show "set xs = set ys" by simp
  next
    assume "set xs = set ys"
    then show "map JStr (sort (remdups xs)) = map JStr (sort (remdups ys))" using sort_remdups_set by metis
  qed
  show ?thesis
    using assms by (cases g; cases h; cases "mz_service_chain m"; cases "mz_service_chain n")
      (auto simp: digest_payload_def sorted_set_def sets)
qed

text \<open>A provider's report: the granules it retrieved and the services that ran, where it names them.\<close>

definition reports :: "materialized_result \<Rightarrow> string list option \<Rightarrow> json list option \<Rightarrow> bool" where
  "reports result g c \<longleftrightarrow>
     jget (mr_extra result) GRANULE_IDS_KEY = (case g of None \<Rightarrow> JNull | Some ids \<Rightarrow> JArr (map JStr ids))
     \<and> jget (mr_extra result) SERVICE_CHAIN_KEY = (case c of None \<Rightarrow> JNull | Some xs \<Rightarrow> JArr xs)"

lemma from_result_reports:
  "reports result g c \<Longrightarrow> from_result result spec =
     Inr \<lparr>mz_granule_ids = map_option (map JStr) g, mz_provider_used = rs_provider spec,
          mz_service_chain = c, mz_output_format = rs_output_format spec\<rparr>"
  by (cases g; cases c) (simp_all add: from_result_def reports_def)

lemma digest_defined: "mz_granule_ids m = map_option (map JStr) g \<Longrightarrow> \<exists>d. content_digest sha show_float m = Inr d"
  by (cases g) (simp_all add: content_digest_def digest_payload_def sorted_set_def)

lemma materialization_roundtrip:
  assumes "content_digest sha show_float m = Inr dg"
    and "truthy (mz_provider_used m)" and "truthy (mz_output_format m)"
  obtains d where "materialization_to_jsonb sha show_float m = Inr d" "jget d ''content_digest'' = JStr dg"
    "jget d ''partial'' = JBool (mz_granule_ids m = None)" "materialization_from_jsonb (Some d) = Inr (Some m)"
proof
  let ?d = "[(''provider_used'', mz_provider_used m), (''output_format'', mz_output_format m),
         (''content_digest'', JStr dg), (''partial'', JBool (partial m))] @
        (case mz_granule_ids m of None \<Rightarrow> [] | Some ids \<Rightarrow> [(GRANULE_IDS_KEY, JArr ids)]) @
        (case mz_service_chain m of None \<Rightarrow> [] | Some c \<Rightarrow> [(SERVICE_CHAIN_KEY, JArr c)])"
  show "materialization_to_jsonb sha show_float m = Inr ?d"
    by (simp add: materialization_to_jsonb_def assms(1))
  show "jget ?d ''content_digest'' = JStr dg" "jget ?d ''partial'' = JBool (mz_granule_ids m = None)"
    by (simp_all add: partial_def)
  show "materialization_from_jsonb (Some ?d) = Inr (Some m)"
    using assms(2,3)
    by (cases "mz_granule_ids m"; cases "mz_service_chain m")
      (simp_all add: materialization_from_jsonb_def GRANULE_IDS_KEY_def SERVICE_CHAIN_KEY_def)
qed

text \<open>
  A delivered result is recorded as what it is: the provider the stored spec names when it is delivered,
  its granules and its service chain, absent where the provider names none and the record then marked
  partial. The stored form carries the record's digest and is read back as the same record; and the
  hashed contents of two records are equal exactly when provider, format, set of granules and service chain are.
\<close>

theorem materialization_recorded:
  assumes "reports result g c" and "truthy (rs_provider spec)" and "truthy (rs_output_format spec)"
    and "reports result' g' c'"
  shows "\<exists>m d dg n. from_result result spec = Inr m \<and> mz_provider_used m = rs_provider spec
    \<and> mz_granule_ids m = map_option (map JStr) g \<and> mz_service_chain m = c
    \<and> materialization_to_jsonb sha show_float m = Inr d \<and> content_digest sha show_float m = Inr dg
    \<and> jget d ''content_digest'' = JStr dg \<and> jget d ''partial'' = JBool (g = None)
    \<and> materialization_from_jsonb (Some d) = Inr (Some m)
    \<and> from_result result' spec' = Inr n
    \<and> (digest_payload m = digest_payload n \<longleftrightarrow>
        rs_provider spec = rs_provider spec' \<and> rs_output_format spec = rs_output_format spec'
        \<and> map_option set g = map_option set g' \<and> c = c')"
proof -
  obtain m where m: "from_result result spec = Inr m" "mz_granule_ids m = map_option (map JStr) g"
    "mz_provider_used m = rs_provider spec" "mz_output_format m = rs_output_format spec" "mz_service_chain m = c"
    using from_result_reports [OF assms(1), of spec] by (metis materialization.select_convs)
  obtain n where n: "from_result result' spec' = Inr n" "mz_granule_ids n = map_option (map JStr) g'"
    "mz_provider_used n = rs_provider spec'" "mz_output_format n = rs_output_format spec'" "mz_service_chain n = c'"
    using from_result_reports [OF assms(4), of spec'] by (metis materialization.select_convs)
  obtain dg where dg: "content_digest sha show_float m = Inr dg" using digest_defined [OF m(2)] by blast
  obtain d where "materialization_to_jsonb sha show_float m = Inr d" "jget d ''content_digest'' = JStr dg"
    "jget d ''partial'' = JBool (mz_granule_ids m = None)" "materialization_from_jsonb (Some d) = Inr (Some m)"
    by (rule materialization_roundtrip [OF dg]) (simp_all add: m assms)
  then show ?thesis
    using m n dg payload_eq_iff [OF m(2) n(2)] by (intro exI conjI) auto
qed

definition sample_delivery :: "string list option \<Rightarrow> materialized_result" where
  "sample_delivery g =
     \<lparr>mr_storage_key = ''harmony/job_1'', mr_media_type = ''application/netcdf'', mr_size_bytes = Some 10,
      mr_extra = (case g of None \<Rightarrow> [] | Some ids \<Rightarrow> [(GRANULE_IDS_KEY, JArr (map JStr ids))])\<rparr>"

lemma materialization_recorded_witness:
  "\<exists>m n. from_result (sample_delivery (Some [''G2'', ''G1''])) sample_spec = Inr m
     \<and> from_result (sample_delivery (Some [''G1'', ''G2'', ''G1''])) sample_spec = Inr n
     \<and> m \<noteq> n \<and> digest_payload m = digest_payload n"
proof -
  have r: "reports (sample_delivery (Some ids)) (Some ids) None" for ids
    by (simp add: reports_def sample_delivery_def GRANULE_IDS_KEY_def SERVICE_CHAIN_KEY_def)
  have ok: "truthy (rs_provider sample_spec)" "truthy (rs_output_format sample_spec)"
    by (simp_all add: sample_spec_def)
  show ?thesis
    using materialization_recorded [OF r [of "[''G2'', ''G1'']"] ok r [of "[''G1'', ''G2'', ''G1'']"], where spec' = sample_spec]
      from_result_reports [OF r [of "[''G2'', ''G1'']"], of sample_spec]
      from_result_reports [OF r [of "[''G1'', ''G2'', ''G1'']"], of sample_spec]
    by auto
qed

end
