(* ===== verification/Runtime.thy ===== *)
theory Runtime
  imports World Identity Materialization
begin

text \<open>
  Operations the worker, the prefetcher and the tools share on the world: reading and writing job
  rows, decrypting and parsing a credential under the register of secrets, the relation
  \<open>same_tables\<close> of worlds that differ in nothing durable with the proof rules for reads, and a
  calculus of outcomes: \<open>wp m Q E w\<close> says that \<open>m\<close> run from \<open>w\<close> returns with \<open>Q\<close> or raises with \<open>E\<close>.
\<close>

section \<open>Shared operations\<close>

definition op_get_job :: "string \<Rightarrow> job option op" where
  "op_get_job i = e_read (\<lambda>w. Inr (get_job (w_jobs w) i))"

definition op_create_job ::
  "string \<Rightarrow> string \<Rightarrow> string option \<Rightarrow> string \<Rightarrow> dict \<Rightarrow> string option \<Rightarrow> bool \<Rightarrow> unit op" where
  "op_create_job i h obs provider spec cred speculative =
     e_io (\<lambda>w. case create_job (w_now w) i h obs provider spec cred speculative (w_jobs w) of
                 Inl e \<Rightarrow> Inl e
               | Inr t \<Rightarrow> Inr ((), w\<lparr>w_jobs := t\<rparr>))"

definition op_decrypt :: "platform \<Rightarrow> string \<Rightarrow> string \<Rightarrow> string op" where
  "op_decrypt pf credential_key blob =
     (\<lambda>w. case decrypt_credential pf credential_key blob (w_secrets w) of
            (r, ss) \<Rightarrow> (r, w\<lparr>w_secrets := ss\<rparr>))"

definition op_parse_token :: "platform \<Rightarrow> string option \<Rightarrow> edl_identity option op" where
  "op_parse_token pf token =
     (\<lambda>w. case parse_edl_token pf (w_now w) token (w_secrets w) of
            (r, ss) \<Rightarrow> (r, w\<lparr>w_secrets := ss\<rparr>))"

definition op_service_scope :: "platform \<Rightarrow> string \<Rightarrow> string \<Rightarrow> json op" where
  "op_service_scope pf edl_username earthdata_token =
     (\<lambda>w. case service_identity_scope pf (w_now w) edl_username earthdata_token (w_secrets w) of
            (r, ss) \<Rightarrow> (r, w\<lparr>w_secrets := ss\<rparr>))"

text \<open>A text column given a value that may not be one.\<close>

definition op_text :: "json \<Rightarrow> string op" where
  "op_text x = lift_sum (jtext x)"

lemma keeps_secrets: "keeps evolves (\<lambda>w. case f w of (r, ss) \<Rightarrow> (r, w\<lparr>w_secrets := ss\<rparr>))"
  by (auto simp: keeps_def split: prod.splits)

lemma keeps_get_job: "keeps evolves (op_get_job i)"
  unfolding op_get_job_def by (rule keeps_read)

lemma keeps_create_job: "keeps evolves (op_create_job i h obs p s c sp)"
  unfolding op_create_job_def
  by (rule keeps_io) (auto split: sum.splits intro!: evolves_jobs intro: create_job_ok create_job_evolves)

lemma keeps_decrypt: "keeps evolves (op_decrypt pf k b)"
  unfolding op_decrypt_def by (rule keeps_secrets)

lemma keeps_parse_token: "keeps evolves (op_parse_token pf t)"
  unfolding op_parse_token_def by (rule keeps_secrets)

lemma keeps_service_scope: "keeps evolves (op_service_scope pf u t)"
  unfolding op_service_scope_def by (rule keeps_secrets)

lemma keeps_text: "keeps evolves (op_text x)"
  unfolding op_text_def by (rule keeps_lift)

lemmas keeps_runtime =
  keeps_ops keeps_get_job keeps_create_job keeps_decrypt keeps_parse_token keeps_service_scope keeps_text

section \<open>Worlds with the same tables\<close>

definition same_tables :: "world \<Rightarrow> world \<Rightarrow> bool" where
  "same_tables w w' \<longleftrightarrow>
     w_jobs w' = w_jobs w \<and> w_handles w' = w_handles w \<and> w_edges w' = w_edges w \<and> w_events w' = w_events w
     \<and> w_access w' = w_access w \<and> w_queue w' = w_queue w \<and> w_now w \<le> w_now w'"

interpretation tables: state_preorder same_tables
  by unfold_locales (auto simp: same_tables_def)

lemma same_tables_next_io: "next_io w = (flt, w1) \<Longrightarrow> same_tables w w1"
  by (auto simp: next_io_def same_tables_def split: list.splits)

lemma tables_read: "keeps same_tables (e_read f)"
  unfolding keeps_def e_read_def e_io_def
  by (auto split: prod.splits io_fault.splits sum.splits dest: same_tables_next_io)

lemma tables_secrets: "keeps same_tables (\<lambda>w. case f w of (r, ss) \<Rightarrow> (r, w\<lparr>w_secrets := ss\<rparr>))"
  by (auto simp: keeps_def same_tables_def split: prod.splits)

lemma tables_lift: "keeps same_tables (lift_sum x)"
  by (cases x) (auto simp: lift_sum_def intro: tables.keeps_intros)

lemma tables_draw: "keeps same_tables draw_token"
  unfolding draw_token_def
  by (intro tables.keeps_intros tables.keeps_modify) (simp add: same_tables_def)

lemma tables_runtime:
  "keeps same_tables (op_get_job i)" "keeps same_tables (op_decrypt pf k b)" "keeps same_tables (op_parse_token pf t)"
  "keeps same_tables (op_service_scope pf u x)" "keeps same_tables (op_text j)" "keeps same_tables (op_get_handle ws h)"
  "keeps same_tables (op_find_handle ws ht kk v)"
  unfolding op_get_job_def op_decrypt_def op_parse_token_def op_service_scope_def op_text_def op_get_handle_def
    op_find_handle_def
  by (rule tables_read tables_secrets tables_lift)+

lemmas keeps_tables = tables.keeps_intros tables_read tables_lift tables_draw tables_runtime

text \<open>Reasoning from a fixed world: what a read yields there.\<close>

lemma yields_tables: "keeps same_tables m \<Longrightarrow> yields (same_tables w0) m (\<lambda>_. True)"
  by (auto simp: yields_def keeps_def intro: tables.R_trans)

lemma yields_tables_read:
  assumes "\<And>w a. same_tables w0 w \<Longrightarrow> f w = Inr a \<Longrightarrow> Q a"
  shows "yields (same_tables w0) (e_read f) Q"
  unfolding yields_def
proof (intro allI impI conjI)
  fix s
  assume s: "same_tables w0 s"
  show "same_tables w0 (snd (e_read f s))"
    using tables_read [of f] s unfolding keeps_def by (blast intro: tables.R_trans)
next
  fix s x
  assume s: "same_tables w0 s" and x: "fst (e_read f s) = Inr x"
  obtain flt w1 where n: "next_io s = (flt, w1)" by fastforce
  have "same_tables w0 w1" by (rule tables.R_trans [OF s same_tables_next_io [OF n]])
  moreover have "f w1 = Inr x"
    using x by (auto simp: e_read_def e_io_def n split: io_fault.splits sum.splits)
  ultimately show "Q x" by (rule assms)
qed

lemma yields_keeps:
  assumes "yields (same_tables w0) m Q" and "same_tables w0 w" and "m w = (r, w')"
  shows "same_tables w0 w' \<and> (\<forall>x. r = Inr x \<longrightarrow> Q x)"
  using yieldsD [OF assms] by blast

text \<open>Sequencing from a fixed world: each step passes on what is known of its result.\<close>

lemma yields_bind_read:
  assumes "\<And>a w. same_tables w0 w \<Longrightarrow> f w = Inr a \<Longrightarrow> yields (same_tables w0) (g a) R"
  shows "yields (same_tables w0) (e_bind (e_read f) g) R"
proof (rule yields_bind)
  show "yields (same_tables w0) (e_read f) (\<lambda>a. \<exists>w. same_tables w0 w \<and> f w = Inr a)"
    by (rule yields_tables_read) blast
qed (use assms in blast)

lemma yields_bind_gets:
  assumes "\<And>w. same_tables w0 w \<Longrightarrow> yields (same_tables w0) (g (f w)) R"
  shows "yields (same_tables w0) (e_bind (e_gets f) g) R"
proof (rule yields_bind)
  show "yields (same_tables w0) (e_gets f) (\<lambda>a. \<exists>w. same_tables w0 w \<and> a = f w)"
    by (rule yields_gets) blast
qed (use assms in blast)

lemma yields_bind_lift:
  assumes "\<And>a. x = Inr a \<Longrightarrow> yields P (g a) R"
  shows "yields P (e_bind (lift_sum x) g) R"
proof (cases x)
  case (Inl e)
  then show ?thesis by (simp add: yields_def lift_sum_def e_bind_run e_raise_run)
next
  case (Inr a)
  then show ?thesis using assms [OF Inr] by (simp add: yields_def lift_sum_def e_bind_run e_ret_run)
qed

lemma yields_bind_text:
  assumes "\<And>s. j = JStr s \<Longrightarrow> yields P (g s) R"
  shows "yields P (e_bind (op_text j) g) R"
  unfolding op_text_def by (rule yields_bind_lift) (use assms in \<open>auto simp: jtext_def split: json.splits\<close>)

lemma yields_bind_any:
  assumes "keeps same_tables m" and "\<And>a. yields (same_tables w0) (g a) R"
  shows "yields (same_tables w0) (e_bind m g) R"
  by (rule yields_bind [OF yields_tables [OF assms(1)]]) (rule assms(2))

lemma yields_if: "(c \<Longrightarrow> yields P m R) \<Longrightarrow> (\<not> c \<Longrightarrow> yields P n R) \<Longrightarrow> yields P (if c then m else n) R"
  by simp

lemma yields_option:
  "(y = None \<Longrightarrow> yields P m R) \<Longrightarrow> (\<And>x. y = Some x \<Longrightarrow> yields P (f x) R) \<Longrightarrow>
   yields P (case y of None \<Rightarrow> m | Some x \<Rightarrow> f x) R"
  by (cases y) auto

lemmas yields_steps = yields_bind_read yields_bind_gets yields_bind_lift yields_bind_text yields_if yields_option

section \<open>Outcomes\<close>

text \<open>The weakest precondition of returning with \<open>Q\<close> or raising with \<open>E\<close>.\<close>

definition wp :: "('s, 'e, 'a) eff \<Rightarrow> ('a \<Rightarrow> 's \<Rightarrow> bool) \<Rightarrow> ('e \<Rightarrow> 's \<Rightarrow> bool) \<Rightarrow> 's \<Rightarrow> bool" where
  "wp m Q E s \<longleftrightarrow> (case m s of (Inl e, s') \<Rightarrow> E e s' | (Inr x, s') \<Rightarrow> Q x s')"

named_theorems wp_simps

lemma wpD: "wp m Q E s \<Longrightarrow> m s = (r, s') \<Longrightarrow> (case r of Inl e \<Rightarrow> E e s' | Inr x \<Rightarrow> Q x s')"
  by (cases r) (auto simp: wp_def)

lemma wp_mono:
  "wp m Q E s \<Longrightarrow> (\<And>x t. Q x t \<Longrightarrow> Q' x t) \<Longrightarrow> (\<And>e t. E e t \<Longrightarrow> E' e t) \<Longrightarrow> wp m Q' E' s"
  by (auto simp: wp_def split: prod.splits sum.splits)

lemma wp_conj: "wp m Q E s \<Longrightarrow> wp m Q' E' s \<Longrightarrow> wp m (\<lambda>x t. Q x t \<and> Q' x t) (\<lambda>e t. E e t \<and> E' e t) s"
  by (auto simp: wp_def split: prod.splits sum.splits)

lemma wp_keeps: "keeps R m \<Longrightarrow> wp m (\<lambda>_. R s) (\<lambda>_. R s) s"
  by (auto simp: wp_def keeps_def split: prod.splits sum.splits) (metis snd_conv)+

lemma wp_ret [wp_simps]: "wp (e_ret x) Q E s \<longleftrightarrow> Q x s"
  by (simp add: wp_def e_ret_run)

lemma wp_raise [wp_simps]: "wp (e_raise e) Q E s \<longleftrightarrow> E e s"
  by (simp add: wp_def e_raise_run)

lemma wp_gets [wp_simps]: "wp (e_gets f) Q E s \<longleftrightarrow> Q (f s) s"
  by (simp add: wp_def e_gets_run)

lemma wp_modify [wp_simps]: "wp (e_modify f) Q E s \<longleftrightarrow> Q () (f s)"
  by (simp add: wp_def e_modify_run)

lemma wp_bind [wp_simps]: "wp (e_bind m f) Q E s \<longleftrightarrow> wp m (\<lambda>x. wp (f x) Q E) E s"
  by (auto simp: wp_def e_bind_run split: prod.splits sum.splits)

lemma wp_seq [wp_simps]: "wp (e_seq m n) Q E s \<longleftrightarrow> wp m (\<lambda>_. wp n Q E) E s"
  by (simp add: e_seq_def wp_bind)

lemma wp_catch [wp_simps]: "wp (e_catch m h) Q E s \<longleftrightarrow> wp m Q (\<lambda>e. wp (h e) Q E) s"
  by (auto simp: wp_def e_catch_run split: prod.splits sum.splits)

lemma wp_when [wp_simps]: "wp (e_when c m) Q E s \<longleftrightarrow> (if c then wp m Q E s else Q () s)"
  by (simp add: e_when_def wp_ret)

lemma wp_lift [wp_simps]: "wp (lift_sum x) Q E s \<longleftrightarrow> (case x of Inl e \<Rightarrow> E e s | Inr a \<Rightarrow> Q a s)"
  by (cases x) (simp_all add: lift_sum_def wp_ret wp_raise)

lemma wp_if: "(c \<Longrightarrow> wp m Q E s) \<Longrightarrow> (\<not> c \<Longrightarrow> wp n Q E s) \<Longrightarrow> wp (if c then m else n) Q E s"
  by simp

lemma wp_option:
  "(y = None \<Longrightarrow> wp m Q E s) \<Longrightarrow> (\<And>x. y = Some x \<Longrightarrow> wp (f x) Q E s) \<Longrightarrow>
   wp (case y of None \<Rightarrow> m | Some x \<Rightarrow> f x) Q E s"
  by (cases y) auto

lemma wp_swallow:
  "wp m Q (\<lambda>e. if is_Exception e then Q () else E e) s \<Longrightarrow> wp (swallow m) Q E s"
  by (auto simp: wp_def swallow_def e_catch_run e_ret_run e_raise_run split: prod.splits sum.splits if_splits)

lemma wp_each:
  assumes "\<And>x s. x \<in> set xs \<Longrightarrow> P s \<Longrightarrow> wp (f x) (\<lambda>_. P) E s" and "P s"
  shows "wp (e_each f xs) (\<lambda>_. P) E s"
  using assms
proof (induction xs arbitrary: s)
  case Nil
  then show ?case by (simp add: wp_ret)
next
  case (Cons x xs)
  have "wp (f x) (\<lambda>_. P) E s" using Cons.prems by simp
  then have "wp (f x) (\<lambda>_. wp (e_each f xs) (\<lambda>_. P) E) E s"
  proof (rule wp_mono)
    fix t
    assume "P t"
    then show "wp (e_each f xs) (\<lambda>_. P) E t" by (intro Cons.IH) (simp_all add: Cons.prems(1))
  qed
  then show ?case by (simp add: wp_seq)
qed

text \<open>A world after the wait of an input or output: only the clock and the schedule moved.\<close>

definition stepped :: "world \<Rightarrow> world \<Rightarrow> bool" where
  "stepped w w' \<longleftrightarrow> (\<exists>io d. w' = w\<lparr>w_io := io, w_now := w_now w + int d\<rparr> \<and> set io \<subseteq> set (w_io w))"

lemma stepped_next_io: "next_io w = (flt, w1) \<Longrightarrow> stepped w w1"
proof (cases "w_io w")
  case Nil
  assume "next_io w = (flt, w1)"
  then have "w1 = w\<lparr>w_io := [], w_now := w_now w + int 0\<rparr>" using Nil by (simp add: next_io_def)
  then show ?thesis using Nil unfolding stepped_def by (metis empty_subsetI set_empty)
next
  case (Cons x xs)
  assume "next_io w = (flt, w1)"
  then have "w1 = w\<lparr>w_io := xs, w_now := w_now w + int (fst x)\<rparr>" using Cons by (auto simp: next_io_def split: prod.splits)
  then show ?thesis using Cons unfolding stepped_def by (metis set_subset_Cons)
qed

lemma wp_io:
  assumes "\<And>w1. stepped w w1 \<Longrightarrow> (case f w1 of Inl e \<Rightarrow> E e w1 | Inr (a, w2) \<Rightarrow> Q a w2)"
    and "\<And>e w1. stepped w w1 \<Longrightarrow> E e w1"
    and "\<And>e w1 a w2. stepped w w1 \<Longrightarrow> f w1 = Inr (a, w2) \<Longrightarrow> E e w2"
  shows "wp (e_io f) Q E w"
proof -
  obtain flt w1 where n: "next_io w = (flt, w1)" by fastforce
  from assms [OF stepped_next_io [OF n]] show ?thesis
    by (auto simp: wp_def e_io_def n split: io_fault.splits sum.splits)
qed

lemma wp_read:
  assumes "\<And>w1. stepped w w1 \<Longrightarrow> (case f w1 of Inl e \<Rightarrow> E e w1 | Inr a \<Rightarrow> Q a w1)"
    and "\<And>e w1. stepped w w1 \<Longrightarrow> E e w1"
  shows "wp (e_read f) Q E w"
  unfolding e_read_def
proof (rule wp_io)
  fix w1
  assume s: "stepped w w1"
  show "case (case f w1 of Inl e \<Rightarrow> Inl e | Inr a \<Rightarrow> Inr (a, w1)) of Inl e \<Rightarrow> E e w1 | Inr (a, w2) \<Rightarrow> Q a w2"
    using assms(1) [OF s] by (simp split: sum.splits)
qed (use assms(2) in \<open>auto split: sum.splits\<close>)

text \<open>When only the returns matter.\<close>

abbreviation wp_partial :: "('s, 'e, 'a) eff \<Rightarrow> ('a \<Rightarrow> 's \<Rightarrow> bool) \<Rightarrow> 's \<Rightarrow> bool" where
  "wp_partial m Q \<equiv> wp m Q (\<lambda>_ _. True)"

lemma wp_partial_any: "(\<And>x t. Q x t) \<Longrightarrow> wp_partial m Q s"
  by (auto simp: wp_def split: prod.splits sum.splits)

lemma wp_partial_io:
  "(\<And>w1 a w2. stepped w w1 \<Longrightarrow> f w1 = Inr (a, w2) \<Longrightarrow> Q a w2) \<Longrightarrow> wp_partial (e_io f) Q w"
  by (rule wp_io) (auto split: sum.splits)

lemma wp_partial_read:
  "(\<And>w1 a. stepped w w1 \<Longrightarrow> f w1 = Inr a \<Longrightarrow> Q a w1) \<Longrightarrow> wp_partial (e_read f) Q w"
  by (rule wp_read) (auto split: sum.splits)

lemma wp_bind_any: "(\<And>a t. wp_partial (f a) Q t) \<Longrightarrow> wp_partial (e_bind m f) Q w"
  unfolding wp_bind by (rule wp_partial_any) auto

lemma wp_bind_lift: "(\<And>a. x = Inr a \<Longrightarrow> wp_partial (f a) Q w) \<Longrightarrow> wp_partial (e_bind (lift_sum x) f) Q w"
  by (auto simp: wp_bind wp_lift split: sum.split)

lemma wp_bind_text: "(\<And>s. j = JStr s \<Longrightarrow> wp_partial (f s) Q w) \<Longrightarrow> wp_partial (e_bind (op_text j) f) Q w"
  unfolding op_text_def by (rule wp_bind_lift) (auto simp: jtext_def split: json.splits)

lemma wp_bind_post:
  "wp_partial m R w \<Longrightarrow> (\<And>a t. R a t \<Longrightarrow> wp_partial (f a) Q t) \<Longrightarrow> wp_partial (e_bind m f) Q w"
  unfolding wp_bind by (rule wp_mono)

lemma wp_seq_post:
  "wp_partial m (\<lambda>_. R) w \<Longrightarrow> (\<And>t. R t \<Longrightarrow> wp_partial n Q t) \<Longrightarrow> wp_partial (e_seq m n) Q w"
  unfolding wp_seq by (rule wp_mono)

lemma wp_bind_tables:
  assumes "keeps same_tables m" and "same_tables w0 w"
    and "\<And>a t. same_tables w0 t \<Longrightarrow> wp_partial (f a) Q t"
  shows "wp_partial (e_bind m f) Q w"
  unfolding wp_bind
  by (rule wp_mono [OF wp_keeps [OF assms(1)]]) (auto intro: assms(3) tables.R_trans [OF assms(2)])

text \<open>No database, storage or queue call fails from here on.\<close>

definition quiet :: "world \<Rightarrow> bool" where
  "quiet w \<longleftrightarrow> list_all (\<lambda>(d, flt). flt = Io_ok) (w_io w)"

lemma quiet_stepped: "quiet w \<Longrightarrow> stepped w w1 \<Longrightarrow> quiet w1"
  by (fastforce simp: quiet_def stepped_def list_all_iff)

lemma wp_io_quiet:
  assumes "quiet w" and "\<And>w1. stepped w w1 \<Longrightarrow> quiet w1 \<Longrightarrow> (case f w1 of Inl e \<Rightarrow> E e w1 | Inr (a, w2) \<Rightarrow> Q a w2)"
  shows "wp (e_io f) Q E w"
proof -
  obtain flt w1 where n: "next_io w = (flt, w1)" by fastforce
  have s: "stepped w w1" by (rule stepped_next_io [OF n])
  have "flt = Io_ok" using n assms(1) by (auto simp: next_io_def quiet_def split: list.splits)
  then show ?thesis using assms(2) [OF s quiet_stepped [OF assms(1) s]]
    by (auto simp: wp_def e_io_def n split: sum.splits)
qed

lemma wp_read_quiet:
  assumes "quiet w" and "\<And>w1. stepped w w1 \<Longrightarrow> quiet w1 \<Longrightarrow> (case f w1 of Inl e \<Rightarrow> E e w1 | Inr a \<Rightarrow> Q a w1)"
  shows "wp (e_read f) Q E w"
  unfolding e_read_def
proof (rule wp_io_quiet [OF assms(1)])
  fix w1
  assume s: "stepped w w1" "quiet w1"
  show "case (case f w1 of Inl e \<Rightarrow> Inl e | Inr a \<Rightarrow> Inr (a, w1)) of Inl e \<Rightarrow> E e w1 | Inr (a, w2) \<Rightarrow> Q a w2"
    using assms(2) [OF s] by (simp split: sum.splits)
qed

lemma stepped_fields:
  "stepped w w1 \<Longrightarrow> w_jobs w1 = w_jobs w \<and> w_handles w1 = w_handles w \<and> w_queue w1 = w_queue w
     \<and> w_edges w1 = w_edges w \<and> w_events w1 = w_events w \<and> w_access w1 = w_access w \<and> w_secrets w1 = w_secrets w
     \<and> w_rand w1 = w_rand w \<and> w_drawn w1 = w_drawn w \<and> w_now w \<le> w_now w1"
  by (auto simp: stepped_def)

lemma stepped_tables: "stepped w w1 \<Longrightarrow> same_tables w w1"
  by (auto simp: stepped_def same_tables_def)

end
