(* ===== verification/Cmr.thy ===== *)
theory Cmr
  imports Runtime
begin

text \<open>
  The metadata provider (\<open>providers/cmr.py\<close>): the request with its retry policy, the paged search, the
  normalisation of CMR's records and the queries built on them, with every access to a foreign document
  raising where the code raises. One HTTP exchange is the field \<open>cp_send\<close>; what it raises is an exception of
  \<open>httpx\<close>. The waits between attempts and of the rate limiter pass time only and are left out.
\<close>

section \<open>Numbers\<close>

text \<open>\<open>int(s)\<close> for a text of ASCII digits, with a sign, surrounding space and single underscores.\<close>

definition digits_value :: "string \<Rightarrow> nat" where
  "digits_value s = fold (\<lambda>c n. 10 * n + (of_char c - 48)) s 0"

definition int_of_text :: "string \<Rightarrow> int option" where
  "int_of_text s =
     (let t = py_strip s;
          neg = py_startswith t ''-'';
          ds = (if neg \<or> py_startswith t ''+'' then drop 1 t else t);
          parts = py_split CHR ''_'' ds
      in if list_all (\<lambda>p. p \<noteq> [] \<and> list_all is_digit p) parts
         then Some (if neg then - int (digits_value (concat parts)) else int (digits_value (concat parts)))
         else None)"

definition py_to_int :: "json \<Rightarrow> exn + int" where
  "py_to_int x =
     (case x of
        JInt i \<Rightarrow> Inr i
      | JBool b \<Rightarrow> Inr (if b then 1 else 0)
      | JFloat r \<Rightarrow> Inr (if r < 0 then \<lceil>r\<rceil> else \<lfloor>r\<rfloor>)
      | JStr s \<Rightarrow> (case int_of_text s of None \<Rightarrow> Inl (ValueError ''invalid literal for int()'') | Some i \<Rightarrow> Inr i)
      | _ \<Rightarrow> Inl (TypeError ''int() argument must be a string or a number''))"

section \<open>The provider\<close>

record http_response =
  hr_status :: int
  hr_json :: "json option"
  hr_text :: string
  hr_headers :: "(string \<times> string) list"

text \<open>\<open>hr_json\<close> is \<open>None\<close> for a body that is not JSON, where \<open>response.json()\<close> raises.\<close>

definition response_json :: "http_response \<Rightarrow> exn + json" where
  "response_json r = (case hr_json r of None \<Rightarrow> Inl (ValueError ''not a JSON document'') | Some j \<Rightarrow> Inr j)"

record cmr_provider =
  cp_cmr_base :: string
  cp_harmony_base :: string
  cp_headers :: "(string \<times> string) list"
  cp_edl_token :: "string option"
  cp_earthdata_token :: string
  cp_show :: "json \<Rightarrow> string"
  cp_read_float :: "string \<Rightarrow> rat option"
  cp_send :: "string \<Rightarrow> string \<Rightarrow> dict \<Rightarrow> (string \<times> string) list \<Rightarrow> http_response op"

definition CMRError :: "string \<Rightarrow> exn" where
  "CMRError m = LibErr (OtherClass ''CMRError'') [m]"

definition RetryableError :: "string \<Rightarrow> exn" where
  "RetryableError m = LibErr (OtherClass ''RetryableError'') [m]"

definition DEFAULT_LIMIT :: int where
  "DEFAULT_LIMIT = 10"

definition MAX_LIMIT :: nat where
  "MAX_LIMIT = 50"

definition PAGE_SIZE :: nat where
  "PAGE_SIZE = 500"

definition VARIABLE_ID_BATCH_SIZE :: nat where
  "VARIABLE_ID_BATCH_SIZE = 100"

text \<open>\<open>edl_token.strip()\<close> as a bearer; \<open>Authorization\<close> is set only for a token that is not empty.\<close>

definition bearer :: "string \<Rightarrow> string" where
  "bearer token = ''Bearer '' @ py_strip token"

definition new_cmr_provider :: "cmr_provider \<Rightarrow> string \<Rightarrow> string \<Rightarrow> string \<Rightarrow> string option \<Rightarrow> cmr_provider" where
  "new_cmr_provider cp cmr_url harmony_url client_id edl_token =
     cp\<lparr>cp_cmr_base := rstrip_char CHR ''/'' cmr_url, cp_harmony_base := rstrip_char CHR ''/'' harmony_url,
        cp_edl_token := edl_token,
        cp_headers := (''Client-Id'', client_id) #
          (case edl_token of None \<Rightarrow> [] | Some t \<Rightarrow> if t = [] then [] else [(''Authorization'', bearer t)])\<rparr>"

section \<open>Requests\<close>

definition message_from_body :: "(json \<Rightarrow> string) \<Rightarrow> http_response \<Rightarrow> string" where
  "message_from_body show_other r =
     (case hr_json r of
        Some (JObj body) \<Rightarrow>
          (case jget body ''errors'' of
             JArr (e # es) \<Rightarrow> py_join ''; '' (map (py_str show_other) (e # es))
           | _ \<Rightarrow>
               if truthy (jget body ''message'') then py_str show_other (jget body ''message'')
               else if truthy (jget body ''error'') then py_str show_other (jget body ''error'')
               else py_strip (hr_text r))
      | _ \<Rightarrow> py_strip (hr_text r))"

definition retryable_fault :: "exn \<Rightarrow> bool" where
  "retryable_fault e =
     (case e of
        LibErr HttpxTimeout _ \<Rightarrow> True
      | LibErr HttpxNetwork _ \<Rightarrow> True
      | LibErr (OtherClass c) _ \<Rightarrow> c = ''RetryableError''
      | _ \<Rightarrow> False)"

text \<open>\<open>stop_after_attempt(n + 1)\<close>, the last error raised again.\<close>

fun retrying :: "nat \<Rightarrow> 'a op \<Rightarrow> 'a op" where
  "retrying 0 m = m"
| "retrying (Suc n) m = e_catch m (\<lambda>e. if retryable_fault e then retrying n m else e_raise e)"

definition request_once ::
  "cmr_provider \<Rightarrow> string \<Rightarrow> string \<Rightarrow> dict \<Rightarrow> (string \<times> string) list \<Rightarrow> http_response op" where
  "request_once cp http_method url params headers =
     e_bind (cp_send cp http_method url params (fold (\<lambda>(k, v) m. AList.update k v m) headers (cp_headers cp))) (\<lambda>r.
       if 500 \<le> hr_status r \<and> hr_status r < 600
       then e_raise (RetryableError (''CMR '' @ show_int (hr_status r) @ '': '' @ message_from_body (cp_show cp) r))
       else if 400 \<le> hr_status r \<and> hr_status r < 500
       then e_raise (CMRError (''CMR '' @ show_int (hr_status r) @ '': '' @ message_from_body (cp_show cp) r))
       else e_ret r)"

definition cmr_request ::
  "cmr_provider \<Rightarrow> string \<Rightarrow> string \<Rightarrow> dict \<Rightarrow> (string \<times> string) list \<Rightarrow> http_response op" where
  "cmr_request cp http_method url params headers = retrying 3 (request_once cp http_method url params headers)"

lemma e_bind_cong [fundef_cong]: "m = m' \<Longrightarrow> (\<And>x. f x = f' x) \<Longrightarrow> e_bind m f = e_bind m' f'"
  by (rule arg_cong2 [of _ _ _ _ e_bind]) auto

text \<open>One page of a search, and the pages up to \<open>limit\<close> items behind the cursor.\<close>

definition search_page :: "cmr_provider \<Rightarrow> string \<Rightarrow> dict \<Rightarrow> string option \<Rightarrow> (json list \<times> string option) op" where
  "search_page cp url query cursor =
     e_bind (cmr_request cp ''GET'' url query
               (case cursor of None \<Rightarrow> [] | Some c \<Rightarrow> if c = [] then [] else [(''CMR-Search-After'', c)])) (\<lambda>response.
     e_bind (lift_sum (s_bind (response_json response) (\<lambda>j. s_bind (py_get j ''items'' (JArr [])) py_iter))) (\<lambda>page.
       e_ret (page, map_of (hr_headers response) ''CMR-Search-After'')))"

function search_pages ::
  "cmr_provider \<Rightarrow> string \<Rightarrow> dict \<Rightarrow> nat \<Rightarrow> json list \<Rightarrow> string option \<Rightarrow> json list op" where
  "search_pages cp url query limit items cursor =
     (if limit \<le> length items then e_ret (take limit items)
      else e_bind (search_page cp url query cursor) (\<lambda>answer.
             if (snd answer = None \<or> snd answer = Some []) \<or> length (fst answer) < min limit PAGE_SIZE
             then e_ret (take limit (items @ fst answer))
             else search_pages cp url query limit (items @ fst answer) (snd answer)))"
  by pat_completeness auto
termination
  by (relation "measure (\<lambda>(cp, url, query, limit, items, cursor). limit - length items)")
    (auto simp: PAGE_SIZE_def)

declare search_pages.simps [simp del]

definition cmr_search :: "cmr_provider \<Rightarrow> string \<Rightarrow> dict \<Rightarrow> nat \<Rightarrow> json list op" where
  "cmr_search cp endpoint params limit =
     search_pages cp (cp_cmr_base cp @ endpoint)
       (AList.update ''page_size'' (JInt (int (min limit PAGE_SIZE))) params) limit [] None"

definition cmr_count :: "cmr_provider \<Rightarrow> string \<Rightarrow> dict \<Rightarrow> int op" where
  "cmr_count cp endpoint params =
     e_bind (cmr_request cp ''GET'' (cp_cmr_base cp @ endpoint) (AList.update ''page_size'' (JInt 0) params) []) (\<lambda>response.
       lift_sum (py_to_int (case map_of (hr_headers response) ''CMR-Hits'' of None \<Rightarrow> JInt 0 | Some h \<Rightarrow> JStr h)))"

definition clean_params :: "dict \<Rightarrow> dict" where
  "clean_params params = filter (\<lambda>(k, v). v \<noteq> JNull) params"

definition bool_param :: "json \<Rightarrow> json" where
  "bool_param v = (if v = JNull then JNull else JStr (if truthy v then ''true'' else ''false''))"

text \<open>\<open>min(limit, _MAX_LIMIT)\<close> of a caller's limit, as the length of a slice.\<close>

definition search_limit :: "json \<Rightarrow> exn + nat" where
  "search_limit v =
     (case py_int v of
        Some n \<Rightarrow> Inr (nat (min n (int MAX_LIMIT)))
      | None \<Rightarrow> Inl (TypeError ''limit must be an integer''))"

section \<open>Normalisation\<close>

definition normalize_collection_item :: "json \<Rightarrow> exn + dict" where
  "normalize_collection_item item =
     s_bind (py_get item ''meta'' (JObj [])) (\<lambda>meta.
     s_bind (py_get item ''umm'' (JObj [])) (\<lambda>umm.
     s_bind (py_get umm ''ArchiveAndDistributionInformation'' JNull) (\<lambda>adi.
     s_bind (py_get (py_or adi (JObj [])) ''FileDistributionInformation'' (JArr [])) (\<lambda>fdi.
     s_bind (py_iter fdi) (\<lambda>files.
     s_bind (s_each (\<lambda>f. s_bind (py_get f ''Format'' JNull) (\<lambda>fmt. s_bind (py_get f ''Media'' JNull) (\<lambda>media.
               Inr (JObj [(''format'', fmt), (''media_type'', media)])))) files) (\<lambda>native.
     s_bind (s_each (\<lambda>(k, d). py_get meta k d)
               [(''concept-id'', JNull), (''provider-id'', JNull), (''revision-id'', JNull), (''associations'', JObj [])]) (\<lambda>ms.
     s_bind (s_each (\<lambda>k. py_get umm k JNull) [''ShortName'', ''Version'', ''EntryTitle'', ''Abstract'']) (\<lambda>us.
     s_bind (py_get umm ''ProcessingLevel'' JNull) (\<lambda>pl. s_bind (py_get (py_or pl (JObj [])) ''Id'' JNull) (\<lambda>level.
     s_bind (py_get umm ''DOI'' JNull) (\<lambda>d. s_bind (py_get (py_or d (JObj [])) ''DOI'' JNull) (\<lambda>doi.
     s_bind (s_each (\<lambda>(k, d). py_get umm k d)
               [(''ScienceKeywords'', JArr []), (''TemporalExtents'', JArr [])]) (\<lambda>ks.
     s_bind (s_each (\<lambda>k. py_get umm k JNull)
               [''DirectDistributionInformation'', ''StandardProduct'', ''Purpose'', ''CollectionProgress'']) (\<lambda>ps.
       Inr (zip [''concept_id'', ''provider_id'', ''revision_id'', ''associations''] ms
            @ zip [''short_name'', ''version'', ''entry_title'', ''abstract''] us
            @ [(''processing_level'', level), (''doi'', doi)]
            @ zip [''science_keywords'', ''temporal_extents''] ks
            @ [(''native_formats'', JArr native)]
            @ zip [''direct_distribution_information'', ''standard_product'', ''purpose'', ''collection_progress''] ps)))))))))))))))"

text \<open>The extent of a granule in time.\<close>

definition granule_temporal_extent :: "json \<Rightarrow> exn + json \<times> json" where
  "granule_temporal_extent ext =
     s_bind (py_get ext ''RangeDateTime'' JNull) (\<lambda>range_dt.
       if truthy range_dt then
         s_bind (py_get range_dt ''BeginningDateTime'' JNull) (\<lambda>b.
         s_bind (py_get range_dt ''EndingDateTime'' JNull) (\<lambda>e. Inr (b, e)))
       else s_bind (py_get ext ''SingleDateTime'' JNull) (\<lambda>single. Inr (single, single)))"

text \<open>\<open>size / 1024**2\<close> of a value that should be a number.\<close>

definition megabytes :: "json \<Rightarrow> exn + rat" where
  "megabytes x =
     (case x of
        JInt i \<Rightarrow> Inr (of_int i / 1048576)
      | JBool b \<Rightarrow> Inr ((if b then 1 else 0) / 1048576)
      | JFloat r \<Rightarrow> Inr (r / 1048576)
      | _ \<Rightarrow> Inl (TypeError ''unsupported operand type(s) for /''))"

fun size_mb :: "(string \<Rightarrow> rat option) \<Rightarrow> json list \<Rightarrow> rat \<Rightarrow> exn + rat" where
  "size_mb read_float [] mb = Inr mb"
| "size_mb read_float (adi # rest) mb =
     s_bind (py_get adi ''SizeInBytes'' JNull) (\<lambda>bytes.
       if truthy bytes then s_bind (megabytes bytes) (\<lambda>m. size_mb read_float rest (mb + m))
       else s_bind (py_get adi ''Size'' JNull) (\<lambda>sz.
            s_bind (py_get adi ''SizeUnit'' JNull) (\<lambda>unit_name.
              if truthy sz \<and> unit_name = JStr ''MB''
              then s_bind (py_float read_float sz) (\<lambda>m. size_mb read_float rest (mb + m))
              else size_mb read_float rest mb)))"

definition normalize_granule_item :: "(string \<Rightarrow> rat option) \<Rightarrow> json \<Rightarrow> exn + dict" where
  "normalize_granule_item read_float item =
     s_bind (py_get item ''meta'' (JObj [])) (\<lambda>meta.
     s_bind (py_get item ''umm'' (JObj [])) (\<lambda>umm.
     s_bind (py_get umm ''DataGranule'' (JObj [])) (\<lambda>data_granule.
     s_bind (py_get data_granule ''ArchiveAndDistributionInformation'' (JArr [])) (\<lambda>adis.
     s_bind (py_iter (py_or adis (JArr []))) (\<lambda>xs.
     s_bind (size_mb read_float xs 0) (\<lambda>mb.
     s_bind (py_get umm ''TemporalExtent'' (JObj [])) (\<lambda>ext.
     s_bind (granule_temporal_extent ext) (\<lambda>(time_start, time_end).
     s_bind (py_get meta ''concept-id'' JNull) (\<lambda>cid.
     s_bind (py_get umm ''GranuleUR'' JNull) (\<lambda>ur.
     s_bind (py_get umm ''RelatedUrls'' (JArr [])) (\<lambda>urls.
     s_bind (py_get umm ''CloudCover'' JNull) (\<lambda>cloud.
     s_bind (py_get data_granule ''DayNightFlag'' JNull) (\<lambda>day_night.
       Inr [(''concept_id'', cid), (''granule_ur'', ur), (''related_urls'', urls), (''cloud_cover'', cloud),
            (''day_night_flag'', day_night), (''size_mb'', JFloat mb), (''time_start'', time_start),
            (''time_end'', time_end)])))))))))))))"

definition normalize_variable_item :: "json \<Rightarrow> exn + dict" where
  "normalize_variable_item item =
     s_bind (py_get item ''meta'' (JObj [])) (\<lambda>meta.
     s_bind (py_get item ''umm'' (JObj [])) (\<lambda>umm.
     s_bind (py_get meta ''concept-id'' JNull) (\<lambda>cid.
     s_bind (s_each (\<lambda>(k, d). py_get umm k d)
               [(''Name'', JNull), (''LongName'', JNull), (''Definition'', JNull), (''DataType'', JNull), (''Units'', JNull),
                (''Scale'', JNull), (''Offset'', JNull), (''FillValues'', JArr []), (''ValidRanges'', JArr []),
                (''StandardName'', JNull)]) (\<lambda>us.
     s_bind (py_get umm ''Dimensions'' (JArr [])) (\<lambda>dims.
     s_bind (py_iter (py_or dims (JArr []))) (\<lambda>ds.
     s_bind (s_each (\<lambda>d. s_bind (py_get d ''Name'' JNull) (\<lambda>n. s_bind (py_get d ''Size'' JNull) (\<lambda>sz.
               Inr (JObj [(''name'', n), (''size'', sz)])))) ds) (\<lambda>dimensions.
       Inr ((''concept_id'', cid) #
            zip [''name'', ''long_name'', ''definition'', ''data_type'', ''units'', ''scale'', ''offset'', ''fill_values'',
                 ''valid_ranges'', ''standard_name''] us @ [(''dimensions'', JArr dimensions)]))))))))"

definition normalize_service_item :: "json \<Rightarrow> exn + dict" where
  "normalize_service_item item =
     s_bind (py_get item ''meta'' (JObj [])) (\<lambda>meta.
     s_bind (py_get item ''umm'' (JObj [])) (\<lambda>umm.
     s_bind (py_get meta ''concept-id'' JNull) (\<lambda>cid.
     s_bind (s_each (\<lambda>(k, d). py_get umm k d)
               [(''Name'', JNull), (''LongName'', JNull), (''Type'', JNull), (''Version'', JNull),
                (''ServiceOptions'', JObj [])]) (\<lambda>us.
       Inr ((''concept_id'', cid) # zip [''name'', ''long_name'', ''type'', ''version'', ''service_options''] us)))))"

section \<open>Queries\<close>

text \<open>\<open>search_collections(keyword=..., **filters)\<close>: a filter that is absent is \<open>None\<close>.\<close>

definition search_collections :: "cmr_provider \<Rightarrow> string option \<Rightarrow> dict \<Rightarrow> dict list op" where
  "search_collections cp keyword filters =
     e_bind (lift_sum (search_limit (case map_of filters ''limit'' of None \<Rightarrow> JInt DEFAULT_LIMIT | Some v \<Rightarrow> v))) (\<lambda>n.
     e_bind (cmr_search cp ''/search/collections.umm_json''
       (clean_params
          [(''keyword'', json_opt keyword), (''concept_id'', jget filters ''concept_id''),
           (''short_name'', jget filters ''short_name''), (''provider'', jget filters ''provider''),
           (''temporal'', jget filters ''temporal''), (''bounding_box'', jget filters ''bounding_box''),
           (''processing_level_id[]'', jget filters ''processing_level_id''),
           (''has_granules'', bool_param (jget filters ''has_granules''))]) n) (\<lambda>items.
       lift_sum (s_each normalize_collection_item items)))"

definition fetch_collection :: "cmr_provider \<Rightarrow> json \<Rightarrow> json option op" where
  "fetch_collection cp concept_id =
     e_bind (cmr_search cp ''/search/collections.umm_json'' [(''concept_id'', concept_id)] 1) (\<lambda>items.
       e_ret (case items of [] \<Rightarrow> None | i # _ \<Rightarrow> Some i))"

text \<open>The faults the fail-soft fetches turn into an empty answer.\<close>

definition soft_fault :: "exn \<Rightarrow> bool" where
  "soft_fault e =
     (case e of
        LibErr HttpxTimeout _ \<Rightarrow> True
      | LibErr (OtherClass c) _ \<Rightarrow> c = ''CMRError'' \<or> c = ''RetryableError''
      | _ \<Rightarrow> False)"

definition fetch_gibs_layers :: "cmr_provider \<Rightarrow> json \<Rightarrow> json list op" where
  "fetch_gibs_layers cp concept_id =
     e_bind (e_catch (e_bind (cmr_request cp ''GET'' (cp_cmr_base cp @ ''/search/collections.json'')
                        [(''concept_id'', concept_id), (''include_tags'', JStr ''edsc.extra.serverless.gibs'')] [])
                        (\<lambda>r. e_ret (Some r)))
              (\<lambda>e. if soft_fault e then e_ret None else e_raise e)) (\<lambda>response.
       case response of
         None \<Rightarrow> e_ret []
       | Some r \<Rightarrow>
           (case hr_json r of
              None \<Rightarrow> e_ret []
            | Some answer \<Rightarrow>
                lift_sum
                  (s_bind (py_get answer ''feed'' (JObj [])) (\<lambda>feed.
                   s_bind (py_get feed ''entry'' (JArr [])) (\<lambda>entries.
                     if \<not> truthy entries then Inr []
                     else
                       s_bind (py_at entries 0) (\<lambda>entry.
                       s_bind (py_get entry ''tags'' (JObj [])) (\<lambda>tags.
                       s_bind (py_get tags ''edsc.extra.serverless.gibs'' (JObj [])) (\<lambda>tag.
                       s_bind (py_get tag ''data'' (JArr [])) (\<lambda>data.
                         Inr (case data of JArr xs \<Rightarrow> xs | _ \<Rightarrow> []))))))))))"

definition search_granules ::
  "cmr_provider \<Rightarrow> json \<Rightarrow> json \<Rightarrow> json \<Rightarrow> json \<Rightarrow> json \<Rightarrow> json \<Rightarrow> nat \<Rightarrow> dict list op" where
  "search_granules cp concept_id temporal bounding_box cloud_cover day_night_flag sort_by limit =
     e_bind (cmr_search cp ''/search/granules.umm_json''
       (clean_params
          [(''collection_concept_id'', concept_id), (''temporal'', temporal), (''bounding_box'', bounding_box),
           (''cloud_cover'', cloud_cover), (''day_night_flag'', day_night_flag), (''sort_key'', sort_by)])
       (min limit MAX_LIMIT)) (\<lambda>items. lift_sum (s_each (normalize_granule_item (cp_read_float cp)) items))"

definition check_availability :: "cmr_provider \<Rightarrow> json \<Rightarrow> json \<Rightarrow> json \<Rightarrow> dict op" where
  "check_availability cp concept_id temporal bounding_box =
     e_bind (cmr_count cp ''/search/granules.umm_json''
       (clean_params [(''collection_concept_id'', concept_id), (''temporal'', temporal), (''bounding_box'', bounding_box)]))
       (\<lambda>n. e_ret [(''collection_concept_id'', concept_id), (''granule_count'', JInt n), (''available'', JBool (n > 0))])"

definition association_ids :: "cmr_provider \<Rightarrow> json \<Rightarrow> string \<Rightarrow> json op" where
  "association_ids cp concept_id kind =
     e_bind (fetch_collection cp concept_id) (\<lambda>item.
       case item of
         None \<Rightarrow> e_ret (JArr [])
       | Some i \<Rightarrow>
           if \<not> truthy i then e_ret (JArr [])
           else lift_sum (s_bind (py_get i ''meta'' (JObj [])) (\<lambda>meta.
                          s_bind (py_get meta ''associations'' (JObj [])) (\<lambda>assoc. py_get assoc kind (JArr [])))))"

text \<open>\<open>ids[i : i + n] for i in range(0, len(ids), n)\<close>.\<close>

fun batches :: "nat \<Rightarrow> 'a list \<Rightarrow> 'a list list" where
  "batches n xs = (if n = 0 \<or> xs = [] then [] else take n xs # batches n (drop n xs))"

declare batches.simps [simp del]

fun e_collect :: "('a \<Rightarrow> 'b list op) \<Rightarrow> 'a list \<Rightarrow> 'b list op" where
  "e_collect f [] = e_ret []"
| "e_collect f (x # xs) = e_bind (f x) (\<lambda>ys. e_bind (e_collect f xs) (\<lambda>zs. e_ret (ys @ zs)))"

definition get_variables :: "cmr_provider \<Rightarrow> json \<Rightarrow> string option \<Rightarrow> nat \<Rightarrow> dict list op" where
  "get_variables cp concept_id keyword limit =
     (let with_keyword = (\<lambda>ps. case keyword of None \<Rightarrow> ps | Some k \<Rightarrow> if k = [] then ps else ps @ [(''keyword'', JStr k)])
      in if truthy concept_id then
           e_bind (association_ids cp concept_id ''variables'') (\<lambda>ids.
             if \<not> truthy ids then e_ret []
             else e_bind (lift_sum (case ids of JArr xs \<Rightarrow> Inr xs | _ \<Rightarrow> Inl (TypeError ''unhashable type: slice''))) (\<lambda>xs.
                  e_bind (e_collect (\<lambda>batch. cmr_search cp ''/search/variables.umm_json''
                            (with_keyword [(''concept_id[]'', JArr batch)]) (length batch))
                     (batches VARIABLE_ID_BATCH_SIZE xs)) (\<lambda>items.
                  lift_sum (s_each normalize_variable_item items))))
         else if keyword = None \<or> keyword = Some [] then e_ret []
         else e_bind (cmr_search cp ''/search/variables.umm_json'' [(''keyword'', json_opt keyword)] limit) (\<lambda>items.
                lift_sum (s_each normalize_variable_item items)))"

definition get_services :: "cmr_provider \<Rightarrow> json \<Rightarrow> string option \<Rightarrow> string option \<Rightarrow> nat \<Rightarrow> dict list op" where
  "get_services cp concept_id keyword type_name limit =
     (let params = clean_params [(''keyword'', json_opt keyword), (''type'', json_opt type_name)];
          ask = (\<lambda>ps. if ps = [] then e_ret []
                  else e_bind (cmr_search cp ''/search/services.umm_json'' ps limit)
                         (\<lambda>items. lift_sum (s_each normalize_service_item items)))
      in if truthy concept_id then
           e_bind (association_ids cp concept_id ''services'') (\<lambda>ids.
             if \<not> truthy ids then e_ret [] else ask (AList.update ''concept_id[]'' ids params))
         else ask params)"

definition get_citations :: "cmr_provider \<Rightarrow> json \<Rightarrow> dict op" where
  "get_citations cp concept_id =
     e_bind (fetch_collection cp concept_id) (\<lambda>item.
       case item of
         Some i \<Rightarrow>
           if truthy i then
             lift_sum
               (s_bind (py_get i ''meta'' (JObj [])) (\<lambda>meta.
                s_bind (py_get i ''umm'' (JObj [])) (\<lambda>umm.
                s_bind (py_get umm ''DOI'' JNull) (\<lambda>d.
                s_bind (py_get meta ''associations'' (JObj [])) (\<lambda>assoc.
                s_bind (py_get assoc ''citations'' (JArr [])) (\<lambda>cits.
                s_bind (py_get meta ''concept-id'' concept_id) (\<lambda>cid.
                s_bind (py_get (py_or d (JObj [])) ''DOI'' JNull) (\<lambda>doi.
                s_bind (py_get (py_or d (JObj [])) ''Authority'' JNull) (\<lambda>auth.
                s_bind (py_get umm ''CollectionCitations'' JNull) (\<lambda>cc.
                s_bind (py_iter (py_or cits (JArr []))) (\<lambda>refs.
                  Inr [(''concept_id'', cid), (''doi'', doi), (''doi_authority'', auth),
                       (''collection_citations'', py_or cc (JArr [])),
                       (''reference_citation_count'', JInt (int (length refs)))])))))))))))
           else e_ret [(''concept_id'', concept_id), (''doi'', JNull), (''doi_authority'', JNull),
                       (''collection_citations'', JArr []), (''reference_citation_count'', JInt 0)]
       | None \<Rightarrow> e_ret [(''concept_id'', concept_id), (''doi'', JNull), (''doi_authority'', JNull),
                       (''collection_citations'', JArr []), (''reference_citation_count'', JInt 0)])"

text \<open>The bearer of the two fetches that need one: the caller's own token, else the service's.\<close>

definition fetch_headers :: "cmr_provider \<Rightarrow> (string \<times> string) list" where
  "fetch_headers cp =
     (let token = (case cp_edl_token cp of
                     None \<Rightarrow> cp_earthdata_token cp
                   | Some t \<Rightarrow> if t = [] then cp_earthdata_token cp else t)
      in if token = [] then [] else [(''Authorization'', bearer token)])"

definition fetch_harmony_capabilities :: "cmr_provider \<Rightarrow> json \<Rightarrow> json op" where
  "fetch_harmony_capabilities cp concept_id =
     e_bind (e_catch (e_bind (cmr_request cp ''GET'' (cp_harmony_base cp @ ''/capabilities'')
                        [(''collectionid'', concept_id), (''format'', JStr ''json'')] (fetch_headers cp))
                        (\<lambda>r. e_ret (Some r)))
              (\<lambda>e. if soft_fault e then e_ret None else e_raise e)) (\<lambda>response.
       e_ret (case response of
                None \<Rightarrow> JObj []
              | Some r \<Rightarrow> (case hr_json r of None \<Rightarrow> JObj [] | Some j \<Rightarrow> j)))"

definition collection_capabilities :: "cmr_provider \<Rightarrow> json \<Rightarrow> capabilities op" where
  "collection_capabilities cp concept_id =
     e_bind (fetch_collection cp concept_id) (\<lambda>found.
       let item = (case found of None \<Rightarrow> JNull | Some i \<Rightarrow> i) in
       e_bind (lift_sum (if truthy item then py_get item ''umm'' (JObj []) else Inr (JObj []))) (\<lambda>umm_c.
       e_bind (fetch_harmony_capabilities cp concept_id) (\<lambda>harmony_caps.
       e_bind (lift_sum (from_harmony_capabilities (cp_read_float cp) (cp_show cp) harmony_caps (Some umm_c))) (\<lambda>caps.
         if truthy item then
           e_bind (lift_sum (s_bind (py_get item ''meta'' (JObj [])) (\<lambda>meta. py_get meta ''concept-id'' concept_id)))
             (\<lambda>cid. e_ret (caps\<lparr>cc_concept_id := cid\<rparr>))
         else e_ret (caps\<lparr>cc_concept_id := py_or (cc_concept_id caps) concept_id\<rparr>)))))"

definition dmr_fault :: "exn \<Rightarrow> bool" where
  "dmr_fault e =
     (soft_fault e \<or> (case e of LibErr HttpxNetwork _ \<Rightarrow> True | LibErr HttpxUnsupportedProtocol _ \<Rightarrow> True
                       | HttpStatusErr _ _ _ \<Rightarrow> True | _ \<Rightarrow> False))"

definition get_dmr :: "cmr_provider \<Rightarrow> string \<Rightarrow> string option op" where
  "get_dmr cp opendap_url =
     e_catch (e_bind (cmr_request cp ''GET'' (rstrip_char CHR ''/'' opendap_url @ ''.dmr.xml'') [] (fetch_headers cp))
                (\<lambda>r. e_ret (Some (hr_text r))))
       (\<lambda>e. if dmr_fault e then e_ret None else e_raise e)"

section \<open>What the queries keep\<close>

text \<open>An HTTP exchange touches no table.\<close>

definition cmr_aside :: "cmr_provider \<Rightarrow> bool" where
  "cmr_aside cp \<longleftrightarrow> (\<forall>http_method url params headers. keeps same_tables (cp_send cp http_method url params headers))"

lemma tables_retrying: "keeps same_tables m \<Longrightarrow> keeps same_tables (retrying n m)"
  by (induction n) (auto intro!: keeps_tables)

lemma tables_request: "cmr_aside cp \<Longrightarrow> keeps same_tables (cmr_request cp m u p h)"
  unfolding cmr_request_def request_once_def by (intro tables_retrying keeps_tables) (simp add: cmr_aside_def)

lemma tables_search_page: "cmr_aside cp \<Longrightarrow> keeps same_tables (search_page cp url query c)"
  unfolding search_page_def by (intro keeps_tables tables_request)

lemma tables_search_pages: "cmr_aside cp \<Longrightarrow> keeps same_tables (search_pages cp url query limit items c)"
proof (induction cp url query limit items c rule: search_pages.induct)
  case (1 cp url query limit items c)
  show ?case
    by (subst search_pages.simps) (use 1 in \<open>auto intro!: tables.keeps_bind tables.keeps_ret tables_search_page\<close>)
qed

lemma tables_search: "cmr_aside cp \<Longrightarrow> keeps same_tables (cmr_search cp e ps n)"
  unfolding cmr_search_def by (rule tables_search_pages)

lemma tables_count: "cmr_aside cp \<Longrightarrow> keeps same_tables (cmr_count cp e ps)"
  unfolding cmr_count_def by (intro keeps_tables tables_request)

lemma tables_collect: "(\<And>x. keeps same_tables (f x)) \<Longrightarrow> keeps same_tables (e_collect f xs)"
  by (induction xs) (auto intro!: keeps_tables)

lemma tables_fetch_collection: "cmr_aside cp \<Longrightarrow> keeps same_tables (fetch_collection cp c)"
  unfolding fetch_collection_def by (intro keeps_tables tables_search)

lemma tables_association_ids: "cmr_aside cp \<Longrightarrow> keeps same_tables (association_ids cp c k)"
  unfolding association_ids_def by (intro keeps_tables tables_fetch_collection)

lemma tables_get_variables: "cmr_aside cp \<Longrightarrow> keeps same_tables (get_variables cp c k n)"
  unfolding get_variables_def Let_def
  by (intro keeps_tables tables_association_ids tables_collect tables_search)

lemma tables_get_services: "cmr_aside cp \<Longrightarrow> keeps same_tables (get_services cp c k ty n)"
  unfolding get_services_def Let_def by (intro keeps_tables tables_association_ids tables_search)

lemma tables_fetch_harmony: "cmr_aside cp \<Longrightarrow> keeps same_tables (fetch_harmony_capabilities cp c)"
  unfolding fetch_harmony_capabilities_def by (intro keeps_tables tables_request)

lemma tables_capabilities: "cmr_aside cp \<Longrightarrow> keeps same_tables (collection_capabilities cp c)"
  unfolding collection_capabilities_def Let_def
  by (intro keeps_tables tables_fetch_collection tables_fetch_harmony)

lemma tables_get_dmr: "cmr_aside cp \<Longrightarrow> keeps same_tables (get_dmr cp u)"
  unfolding get_dmr_def by (intro keeps_tables tables_request)

lemma tables_search_granules: "cmr_aside cp \<Longrightarrow> keeps same_tables (search_granules cp c t b cc dn sk n)"
  unfolding search_granules_def by (intro keeps_tables tables_search)

lemma tables_search_collections: "cmr_aside cp \<Longrightarrow> keeps same_tables (search_collections cp k f)"
  unfolding search_collections_def by (intro keeps_tables tables_search)

lemma tables_citations: "cmr_aside cp \<Longrightarrow> keeps same_tables (get_citations cp c)"
  unfolding get_citations_def by (intro keeps_tables tables_fetch_collection)

lemma tables_gibs: "cmr_aside cp \<Longrightarrow> keeps same_tables (fetch_gibs_layers cp c)"
  unfolding fetch_gibs_layers_def by (intro keeps_tables tables_request | split json.split)+

lemma tables_availability: "cmr_aside cp \<Longrightarrow> keeps same_tables (check_availability cp c t b)"
  unfolding check_availability_def by (intro keeps_tables tables_count)

lemmas tables_cmr =
  tables_search tables_count tables_fetch_collection tables_association_ids tables_get_variables tables_get_services
  tables_fetch_harmony tables_capabilities tables_get_dmr tables_search_granules tables_search_collections
  tables_citations tables_gibs tables_availability

section \<open>Retries and pages\<close>

text \<open>What is not transient is raised by the first attempt; a transient fault costs four attempts at most.\<close>

lemma retrying_final: "m w = (Inl e, w') \<Longrightarrow> \<not> retryable_fault e \<Longrightarrow> retrying n m w = (Inl e, w')"
  by (cases n) (simp_all add: e_catch_run e_raise_run)

lemma retrying_success: "m w = (Inr x, w') \<Longrightarrow> retrying n m w = (Inr x, w')"
  by (cases n) (simp_all add: e_catch_run)

lemma retrying_again:
  "m w = (Inl e, w') \<Longrightarrow> retryable_fault e \<Longrightarrow> retrying (Suc n) m w = retrying n m w'"
  by (simp add: e_catch_run)

lemma client_error_once:
  assumes "cp_send cp m u p (fold (\<lambda>(k, v) m. AList.update k v m) h (cp_headers cp)) w = (Inr r, w')"
    and "400 \<le> hr_status r" and "hr_status r < 500"
  shows "cmr_request cp m u p h w
    = (Inl (CMRError (''CMR '' @ show_int (hr_status r) @ '': '' @ message_from_body (cp_show cp) r)), w')"
  unfolding cmr_request_def
  by (rule retrying_final)
    (use assms in \<open>auto simp: request_once_def e_bind_run e_raise_run retryable_fault_def CMRError_def\<close>)

lemma search_pages_limit: "wp_partial (search_pages cp url query limit items c) (\<lambda>xs _. length xs \<le> limit) w"
proof (induction cp url query limit items c arbitrary: w rule: search_pages.induct)
  case (1 cp url query limit items c)
  show ?case
  proof (cases "limit \<le> length items")
    case True
    then show ?thesis by (subst search_pages.simps) (simp add: wp_ret)
  next
    case False
    have "wp_partial (if (snd a = None \<or> snd a = Some []) \<or> length (fst a) < min limit PAGE_SIZE
             then e_ret (take limit (items @ fst a))
             else search_pages cp url query limit (items @ fst a) (snd a)) (\<lambda>xs _. length xs \<le> limit) t" for a t
      using 1 [OF False] by (auto simp: wp_ret)
    then have "wp_partial (e_bind (search_page cp url query c) (\<lambda>a.
             if (snd a = None \<or> snd a = Some []) \<or> length (fst a) < min limit PAGE_SIZE
             then e_ret (take limit (items @ fst a))
             else search_pages cp url query limit (items @ fst a) (snd a))) (\<lambda>xs _. length xs \<le> limit) w"
      by (rule wp_bind_any)
    then show ?thesis using False by (subst search_pages.simps) simp
  qed
qed

lemma concat_batches: "0 < n \<Longrightarrow> concat (batches n xs) = xs \<and> (\<forall>b \<in> set (batches n xs). b \<noteq> [] \<and> length b \<le> n)"
proof (induction n xs rule: batches.induct)
  case (1 n xs)
  then show ?case by (subst (1 2) batches.simps) auto
qed

end
