(* ===== verification/Dmr.thy ===== *)
theory Dmr
  imports ConstraintExpression
begin

text \<open>
  The DMR parser (\<open>providers/opendap/_dmr.py\<close>): the walk that turns a granule's DAP4 structure document into
  its variables, keyed by full path, the lookup of a variable's own geolocation arrays and the resolution
  of requested names. The document is the tree \<open>xml.etree\<close> parses it to; the parser itself is an
  argument of the callers. The suggestions in the error texts are left out.
\<close>

section \<open>The document\<close>

datatype element =
  Element (el_tag: string) (el_attrib: "(string \<times> string) list") (el_text: "string option") (el_children: "element list")

record dmr_variable =
  dv_path :: string
  dv_dim_paths :: "string list"
  dv_standard_name :: "string option"

type_synonym dmr_tree = "(string \<times> dmr_variable) list"

definition SKIP_TAGS :: "string list" where
  "SKIP_TAGS = [''Dimension'', ''Attribute'']"

definition LAT_LEAF_NAMES :: "string list" where
  "LAT_LEAF_NAMES = [''lat'', ''latitude'', ''y'']"

definition LON_LEAF_NAMES :: "string list" where
  "LON_LEAF_NAMES = [''lon'', ''longitude'', ''x'']"

section \<open>The walk\<close>

definition local_tag :: "string \<Rightarrow> string" where
  "local_tag tag = after_last CHR ''}'' tag"

definition dim_paths :: "element \<Rightarrow> string list" where
  "dim_paths var_node =
     concat (map (\<lambda>d. case map_of (el_attrib d) ''name'' of None \<Rightarrow> [] | Some n \<Rightarrow> [n])
       (filter (\<lambda>d. local_tag (el_tag d) = ''Dim'') (el_children var_node)))"

text \<open>The first \<open>standard_name\<close> attribute whose first \<open>Value\<close> has a text.\<close>

definition value_text :: "element \<Rightarrow> string option" where
  "value_text attr =
     (if local_tag (el_tag attr) = ''Attribute'' \<and> map_of (el_attrib attr) ''name'' = Some ''standard_name''
      then (case find (\<lambda>v. local_tag (el_tag v) = ''Value'') (el_children attr) of
              None \<Rightarrow> None
            | Some v \<Rightarrow> (case el_text v of None \<Rightarrow> None | Some t \<Rightarrow> if t = [] then None else Some t))
      else None)"

fun standard_name_in :: "element list \<Rightarrow> string option" where
  "standard_name_in [] = None"
| "standard_name_in (a # rest) = (case value_text a of Some t \<Rightarrow> Some t | None \<Rightarrow> standard_name_in rest)"

definition dmr_standard_name :: "element \<Rightarrow> string option" where
  "dmr_standard_name var_node = standard_name_in (el_children var_node)"

fun walk :: "element list \<Rightarrow> string \<Rightarrow> dmr_tree \<Rightarrow> dmr_tree" where
  "walk [] group_path variables = variables"
| "walk (Element tag attrib txt children # rest) group_path variables =
     walk rest group_path
       (case map_of attrib ''name'' of
          None \<Rightarrow> variables
        | Some name \<Rightarrow>
            if local_tag tag = ''Group'' then walk children (group_path @ ''/'' @ name) variables
            else if local_tag tag \<in> set SKIP_TAGS then variables
            else AList.update (group_path @ ''/'' @ name)
                   \<lparr>dv_path = group_path @ ''/'' @ name, dv_dim_paths = dim_paths (Element tag attrib txt children),
                    dv_standard_name = dmr_standard_name (Element tag attrib txt children)\<rparr> variables)"

definition parse_dmr :: "(string \<Rightarrow> element option) \<Rightarrow> string \<Rightarrow> dmr_tree option" where
  "parse_dmr fromstring xml_text = (case fromstring xml_text of None \<Rightarrow> None | Some r \<Rightarrow> Some (walk (el_children r) [] []))"

section \<open>Geolocation\<close>

fun direct_child_coord :: "dmr_tree \<Rightarrow> string \<Rightarrow> string list \<Rightarrow> string \<Rightarrow> string option" where
  "direct_child_coord [] grp leaf_names standard_name = None"
| "direct_child_coord ((path, var) # rest) grp leaf_names standard_name =
     (if before_last CHR ''/'' path \<noteq> grp then direct_child_coord rest grp leaf_names standard_name
      else if py_lower (after_last CHR ''/'' path) \<in> set leaf_names
           \<or> py_lower (case dv_standard_name var of None \<Rightarrow> [] | Some s \<Rightarrow> s) = standard_name
      then Some path
      else direct_child_coord rest grp leaf_names standard_name)"

definition group_at :: "string list \<Rightarrow> nat \<Rightarrow> string" where
  "group_at segments depth = (if depth = 0 then [] else ''/'' @ py_join ''/'' (take depth segments))"

definition group_coords :: "dmr_tree \<Rightarrow> string \<Rightarrow> (string \<times> string) option" where
  "group_coords tree grp =
     (case (direct_child_coord tree grp LAT_LEAF_NAMES ''latitude'', direct_child_coord tree grp LON_LEAF_NAMES ''longitude'') of
        (Some lat, Some lon) \<Rightarrow> Some (lat, lon)
      | _ \<Rightarrow> None)"

text \<open>\<open>for depth in range(len(segments), -1, -1)\<close>.\<close>

fun climb :: "dmr_tree \<Rightarrow> string list \<Rightarrow> nat \<Rightarrow> (string \<times> string) option" where
  "climb tree segments 0 = group_coords tree (group_at segments 0)"
| "climb tree segments (Suc d) =
     (case group_coords tree (group_at segments (Suc d)) of Some c \<Rightarrow> Some c | None \<Rightarrow> climb tree segments d)"

definition group_geolocation :: "dmr_tree \<Rightarrow> string \<Rightarrow> (string \<times> string) option" where
  "group_geolocation tree var_path =
     (if map_of tree var_path = None then None
      else let segments = butlast (py_split CHR ''/'' (strip_char CHR ''/'' var_path))
           in climb tree segments (length segments))"

section \<open>Requested names\<close>

text \<open>\<open>"/" in x\<close> and the string methods of a value that should be a text.\<close>

definition slash_in :: "json \<Rightarrow> exn + bool" where
  "slash_in x =
     (case x of
        JStr s \<Rightarrow> Inr (CHR ''/'' \<in> set s)
      | JArr xs \<Rightarrow> Inr (JStr ''/'' \<in> set xs)
      | JObj d \<Rightarrow> Inr (map_of d ''/'' \<noteq> None)
      | _ \<Rightarrow> Inl (TypeError ''argument is not iterable''))"

definition as_text :: "json \<Rightarrow> exn + string" where
  "as_text x = (case x of JStr s \<Rightarrow> Inr s | _ \<Rightarrow> Inl (AttributeError ''startswith''))"

definition unknown_variable :: "string \<Rightarrow> exn" where
  "unknown_variable name = ValueError (''Variable '' @ py_repr name @ '' not found in this granule's structure'')"

fun resolve_names ::
  "dmr_tree \<Rightarrow> string list \<Rightarrow> json list \<Rightarrow> string list \<Rightarrow> (string \<times> string list) list
   \<Rightarrow> exn + string list \<times> (string \<times> string list) list" where
  "resolve_names tree all_paths [] resolved expansions = Inr (resolved, expansions)"
| "resolve_names tree all_paths (v # rest) resolved expansions =
     s_bind (slash_in v) (\<lambda>slash.
     s_bind (as_text v) (\<lambda>user_var.
       if slash then
         (let full_path = (if py_startswith user_var ''/'' then user_var else ''/'' @ user_var) in
          if map_of tree full_path \<noteq> None
          then resolve_names tree all_paths rest (resolved @ [full_path]) expansions
          else Inl (unknown_variable user_var))
       else
         (let matches = filter (\<lambda>p. py_lower (after_last CHR ''/'' p) = py_lower user_var) all_paths in
          if matches = [] then Inl (unknown_variable user_var)
          else if length matches = 1 then resolve_names tree all_paths rest (resolved @ matches) expansions
          else resolve_names tree all_paths rest (resolved @ matches) (AList.update user_var matches expansions))))"

definition resolve_variables :: "dmr_tree \<Rightarrow> json list \<Rightarrow> exn + string list \<times> (string \<times> string list) list" where
  "resolve_variables tree variables = resolve_names tree (sort (map fst tree)) variables [] []"

section \<open>What a name resolves to\<close>

text \<open>The keys of a parsed document are distinct.\<close>

lemma walk_distinct: "distinct (map fst variables) \<Longrightarrow> distinct (map fst (walk nodes grp variables))"
  by (induction nodes grp variables rule: walk.induct) (auto simp: distinct_update split: option.splits)

lemma parse_dmr_distinct: "parse_dmr fromstring xml = Some tree \<Longrightarrow> distinct (map fst tree)"
  by (auto simp: parse_dmr_def intro: walk_distinct split: option.splits)

text \<open>The paths of the document a requested name stands for.\<close>

definition rooted :: "string \<Rightarrow> string" where
  "rooted name = (if py_startswith name ''/'' then name else ''/'' @ name)"

definition requested :: "dmr_tree \<Rightarrow> string \<Rightarrow> string list" where
  "requested tree name =
     (if CHR ''/'' \<in> set name then (if map_of tree (rooted name) \<noteq> None then [rooted name] else [])
      else filter (\<lambda>p. py_lower (after_last CHR ''/'' p) = py_lower name) (sort (map fst tree)))"

definition expanded :: "dmr_tree \<Rightarrow> string \<Rightarrow> (string \<times> string list) list \<Rightarrow> (string \<times> string list) list" where
  "expanded tree n m = (if 1 < length (requested tree n) then AList.update n (requested tree n) m else m)"

lemma resolve_names_spec:
  "resolve_names tree (sort (map fst tree)) (map JStr names) res exps =
     (case find (\<lambda>n. requested tree n = []) names of
        Some n \<Rightarrow> Inl (unknown_variable n)
      | None \<Rightarrow> Inr (res @ concat (map (requested tree) names), fold (expanded tree) names exps))"
proof (induction names arbitrary: res exps)
  case Nil
  then show ?case by simp
next
  case (Cons n names)
  show ?case
  proof (cases "requested tree n = []")
    case True
    then show ?thesis by (auto simp: slash_in_def as_text_def requested_def rooted_def Let_def split: if_splits)
  next
    case False
    then have "resolve_names tree (sort (map fst tree)) (map JStr (n # names)) res exps
        = resolve_names tree (sort (map fst tree)) (map JStr names) (res @ requested tree n) (expanded tree n exps)"
      by (auto simp: slash_in_def as_text_def requested_def rooted_def expanded_def Let_def neq_Nil_conv split: if_splits)
    then show ?thesis using False by (simp only: Cons.IH) (simp split: option.split)
  qed
qed

lemma map_of_expanded:
  "map_of (fold (expanded tree) names m) n =
     (if n \<in> set names \<and> 1 < length (requested tree n) then Some (requested tree n) else map_of m n)"
  by (induction names arbitrary: m) (auto simp: expanded_def update_conv')

lemma requested_iff:
  "p \<in> set (requested tree n) \<longleftrightarrow>
     p \<in> fst ` set tree \<and>
     (if CHR ''/'' \<in> set n then p = rooted n else py_lower (after_last CHR ''/'' p) = py_lower n)"
  by (auto simp: requested_def map_of_eq_None_iff)

lemma requested_sorted: "distinct (map fst tree) \<Longrightarrow> sorted (requested tree n) \<and> distinct (requested tree n)"
  by (auto simp: requested_def sorted_filter [of id, simplified])

text \<open>The names of the groups a variable lies in, outermost first.\<close>

definition ancestors :: "string \<Rightarrow> string list" where
  "ancestors v = butlast (py_split CHR ''/'' (strip_char CHR ''/'' v))"

lemma direct_child_coord_Some:
  "direct_child_coord tree grp names std = Some p \<Longrightarrow> p \<in> fst ` set tree \<and> before_last CHR ''/'' p = grp"
  by (induction tree grp names std rule: direct_child_coord.induct) (auto split: if_splits)

lemma group_coords_Some:
  "group_coords tree grp = Some (lat, lon) \<Longrightarrow>
     lat \<in> fst ` set tree \<and> lon \<in> fst ` set tree \<and> before_last CHR ''/'' lat = grp \<and> before_last CHR ''/'' lon = grp"
  by (auto simp: group_coords_def split: option.splits dest!: direct_child_coord_Some)

lemma climb_Some:
  "climb tree segs n = Some c \<Longrightarrow>
     \<exists>d \<le> n. group_coords tree (group_at segs d) = Some c
           \<and> (\<forall>k. d < k \<and> k \<le> n \<longrightarrow> group_coords tree (group_at segs k) = None)"
proof (induction n)
  case 0
  then show ?case by simp
next
  case (Suc n)
  then show ?case
    by (fastforce split: option.splits simp: le_Suc_eq)
qed

lemma climb_None: "climb tree segs n = None \<Longrightarrow> d \<le> n \<Longrightarrow> group_coords tree (group_at segs d) = None"
  by (induction n) (auto simp: le_Suc_eq split: option.splits)

text \<open>
  C15: what a granule's own structure does not confirm is never used. A name resolves to exactly the
  paths of the document it stands for, its own path when it has a slash, every path with that last
  segment otherwise, sorted and without repetition; the first one that stands for none is refused with
  a \<open>ValueError\<close>, and the expansions are the bare names that stand for several. The geolocation of a variable
  is a pair of arrays of one group of the document, the nearest that has both, never a guess.
\<close>

theorem dmr_never_guesses:
  assumes "parse_dmr fromstring xml = Some tree"
  shows "(\<exists>exps. resolve_variables tree (map JStr names) =
           (case find (\<lambda>n. requested tree n = []) names of
              Some n \<Rightarrow> Inl (unknown_variable n)
            | None \<Rightarrow> Inr (concat (map (requested tree) names), exps))
         \<and> (\<forall>n. map_of exps n = (if n \<in> set names \<and> 1 < length (requested tree n) then Some (requested tree n) else None)))
    \<and> (\<forall>n p. p \<in> set (requested tree n) \<longleftrightarrow>
           p \<in> fst ` set tree \<and> (if CHR ''/'' \<in> set n then p = rooted n else py_lower (after_last CHR ''/'' p) = py_lower n))
    \<and> (\<forall>n. sorted (requested tree n) \<and> distinct (requested tree n))
    \<and> (\<forall>v lat lon. group_geolocation tree v = Some (lat, lon) \<longrightarrow>
           {v, lat, lon} \<subseteq> fst ` set tree \<and> (\<exists>d \<le> length (ancestors v).
             before_last CHR ''/'' lat = group_at (ancestors v) d \<and> before_last CHR ''/'' lon = group_at (ancestors v) d
             \<and> (\<forall>k. d < k \<and> k \<le> length (ancestors v) \<longrightarrow> group_coords tree (group_at (ancestors v) k) = None)))"
proof (intro conjI allI impI)
  show "\<exists>exps. resolve_variables tree (map JStr names) =
           (case find (\<lambda>n. requested tree n = []) names of
              Some n \<Rightarrow> Inl (unknown_variable n)
            | None \<Rightarrow> Inr (concat (map (requested tree) names), exps))
         \<and> (\<forall>n. map_of exps n = (if n \<in> set names \<and> 1 < length (requested tree n) then Some (requested tree n) else None))"
    by (rule exI [of _ "fold (expanded tree) names []"])
      (simp add: resolve_variables_def resolve_names_spec map_of_expanded split: option.split)
next
  fix n p
  show "p \<in> set (requested tree n) \<longleftrightarrow>
           p \<in> fst ` set tree \<and> (if CHR ''/'' \<in> set n then p = rooted n else py_lower (after_last CHR ''/'' p) = py_lower n)"
    by (rule requested_iff)
next
  fix n
  show "sorted (requested tree n)" "distinct (requested tree n)"
    using requested_sorted [OF parse_dmr_distinct [OF assms]] by blast+
next
  fix v lat lon
  assume g: "group_geolocation tree v = Some (lat, lon)"
  then have v: "v \<in> fst ` set tree" and c: "climb tree (ancestors v) (length (ancestors v)) = Some (lat, lon)"
    by (auto simp: group_geolocation_def ancestors_def Let_def map_of_eq_None_iff split: if_splits)
  from climb_Some [OF c] obtain d where d: "d \<le> length (ancestors v)" "group_coords tree (group_at (ancestors v) d) = Some (lat, lon)"
    "\<forall>k. d < k \<and> k \<le> length (ancestors v) \<longrightarrow> group_coords tree (group_at (ancestors v) k) = None" by blast
  show "{v, lat, lon} \<subseteq> fst ` set tree" using group_coords_Some [OF d(2)] v by simp
  show "\<exists>d \<le> length (ancestors v).
             before_last CHR ''/'' lat = group_at (ancestors v) d \<and> before_last CHR ''/'' lon = group_at (ancestors v) d
             \<and> (\<forall>k. d < k \<and> k \<le> length (ancestors v) \<longrightarrow> group_coords tree (group_at (ancestors v) k) = None)"
    using d group_coords_Some [OF d(2)] by (intro exI [of _ d]) simp
qed

text \<open>Two parallel beams, each with its own coordinates.\<close>

definition beam :: "string \<Rightarrow> element" where
  "beam name =
     Element ''{dap}Group'' [(''name'', name)] None
       [Element ''Float32'' [(''name'', ''latitude'')] None [], Element ''Float32'' [(''name'', ''longitude'')] None [],
        Element ''Float32'' [(''name'', ''h_canopy'')] None [Element ''Dim'' [(''name'', ''/n'')] None []]]"

definition sample_dmr :: element where
  "sample_dmr = Element ''Dataset'' [] None [Element ''Dimension'' [(''name'', ''n'')] None [], beam ''gt1l'', beam ''gt1r'']"

lemma dmr_never_guesses_witness:
  "\<exists>tree. parse_dmr (\<lambda>x. Some sample_dmr) [] = Some tree
     \<and> fst ` set tree = {''/gt1l/latitude'', ''/gt1l/longitude'', ''/gt1l/h_canopy'',
                         ''/gt1r/latitude'', ''/gt1r/longitude'', ''/gt1r/h_canopy''}
     \<and> (\<exists>exps. resolve_variables tree [JStr ''H_canopy''] = Inr ([''/gt1l/h_canopy'', ''/gt1r/h_canopy''], exps))
     \<and> group_geolocation tree ''/gt1r/h_canopy'' = Some (''/gt1r/latitude'', ''/gt1r/longitude'')"
proof -
  obtain tree where t: "parse_dmr (\<lambda>x. Some sample_dmr) [] = Some tree" by (simp add: parse_dmr_def)
  have tree: "tree = the (parse_dmr (\<lambda>x. Some sample_dmr) [])" by (simp add: t)
  have dom: "fst ` set tree = {''/gt1l/latitude'', ''/gt1l/longitude'', ''/gt1l/h_canopy'',
                         ''/gt1r/latitude'', ''/gt1r/longitude'', ''/gt1r/h_canopy''}"
    unfolding tree by code_simp
  have r: "requested tree ''H_canopy'' = [''/gt1l/h_canopy'', ''/gt1r/h_canopy'']" unfolding tree by code_simp
  have g: "group_geolocation tree ''/gt1r/h_canopy'' = Some (''/gt1r/latitude'', ''/gt1r/longitude'')"
    unfolding tree by code_simp
  from dmr_never_guesses [OF t, of "[''H_canopy'']"] have
    "\<exists>exps. resolve_variables tree [JStr ''H_canopy''] = Inr ([''/gt1l/h_canopy'', ''/gt1r/h_canopy''], exps)"
    by (auto simp: r)
  with t dom g show ?thesis by blast
qed

end
