(* ===== verification/Planning.thy ===== *)
theory Planning
  imports Cmr Dmr
begin

text \<open>
  The OPeNDAP planning seam (\<open>providers/opendap/_planning.py\<close>): the granule URLs of a window, the coordinate and
  variable names CMR's variable records or the granule's own structure confirm, the axes of a regular grid
  and the dimensions of each variable, composed by \<open>plan_subset\<close>; and the check of requested names. Its CMR
  calls are those of \<open>Cmr\<close>; \<open>xml.etree\<close> is the argument \<open>fromstring\<close>. Degrees are exact rationals.
\<close>

record opendap_plan =
  od_urls :: "json list"
  od_coord_lat :: json
  od_coord_lon :: json
  od_coord_time :: json
  od_lat_axis :: "spec_axis option"
  od_lon_axis :: "spec_axis option"
  od_var_dims :: "(string \<times> json list list) list"
  od_variables :: "json list"
  od_cmr_vars :: "dict list"
  od_var_coords :: "(string \<times> (json \<times> json)) list"
  od_variable_expansions :: "(string \<times> json list) list"

definition OPENDAP_GRANULE_LIMIT :: nat where
  "OPENDAP_GRANULE_LIMIT = 50"

section \<open>Names from the variable records\<close>

text \<open>A string method of \<open>x or ""\<close>.\<close>

definition text_or_empty :: "json \<Rightarrow> exn + string" where
  "text_or_empty x = as_text (py_or x (JStr []))"

definition path_leaf :: "string \<Rightarrow> string" where
  "path_leaf name = py_lower (after_last CHR ''/'' name)"

text \<open>The last record of each kind wins.\<close>

definition coord_seen ::
  "string \<Rightarrow> string \<Rightarrow> string option \<times> string option \<times> string option \<Rightarrow> string option \<times> string option \<times> string option" where
  "coord_seen name std found =
     (case found of (lat, lon, tm) \<Rightarrow>
        if std = ''latitude'' \<or> path_leaf name \<in> {''lat'', ''latitude''} then (Some name, lon, tm)
        else if std = ''longitude'' \<or> path_leaf name \<in> {''lon'', ''longitude''} then (lat, Some name, tm)
        else if std = ''time'' \<or> path_leaf name = ''time'' then (lat, lon, Some name)
        else (lat, lon, tm))"

fun discover_coords ::
  "dict list \<Rightarrow> string option \<times> string option \<times> string option \<Rightarrow> exn + string option \<times> string option \<times> string option" where
  "discover_coords [] found = Inr found"
| "discover_coords (var # rest) found =
     s_bind (text_or_empty (jget var ''name'')) (\<lambda>name.
     s_bind (text_or_empty (jget var ''standard_name'')) (\<lambda>standard.
       discover_coords rest (coord_seen name (py_lower standard) found)))"

fun matching_names :: "dict list \<Rightarrow> string \<Rightarrow> exn + json list" where
  "matching_names [] leaf_lower = Inr []"
| "matching_names (v # rest) leaf_lower =
     s_bind (text_or_empty (jget v ''name'')) (\<lambda>name.
       if path_leaf name = leaf_lower
       then s_bind (py_item (JObj v) ''name'') (\<lambda>n. s_bind (matching_names rest leaf_lower) (\<lambda>ns. Inr (n # ns)))
       else matching_names rest leaf_lower)"

definition resolve_user_var :: "dict list \<Rightarrow> json \<Rightarrow> exn + json" where
  "resolve_user_var cmr_vars v =
     s_bind (as_text v) (\<lambda>user_var.
       if py_startswith user_var ''/'' then Inr v
       else
         s_bind (matching_names cmr_vars (py_lower user_var)) (\<lambda>matches.
           case matches of
             [] \<Rightarrow> Inr v
           | [m] \<Rightarrow> Inr m
           | _ \<Rightarrow> s_bind (join_json '', '' matches) (\<lambda>paths.
                    Inl (ValueError (''Variable '' @ py_repr user_var @
                      '' is ambiguous -- it appears at multiple paths: '' @ paths)))))"

type_synonym resolved_names = "json \<times> json \<times> json \<times> json list"

definition resolve_with :: "dict list \<Rightarrow> json list \<Rightarrow> exn + resolved_names" where
  "resolve_with cmr_vars variables =
     s_bind (discover_coords cmr_vars (None, None, None)) (\<lambda>(lat, lon, tm).
     s_bind (s_each (resolve_user_var cmr_vars) variables) (\<lambda>resolved.
       Inr (json_opt lat, json_opt lon, json_opt tm, resolved)))"

definition fetch_variables :: "cmr_provider \<Rightarrow> json \<Rightarrow> dict list option \<Rightarrow> dict list option op" where
  "fetch_variables cp concept_id given =
     (case given of
        Some vs \<Rightarrow> e_ret (Some vs)
      | None \<Rightarrow> e_catch (e_bind (get_variables cp concept_id None MAX_LIMIT) (\<lambda>vs. e_ret (Some vs)))
                  (\<lambda>e. if is_Exception e then e_ret None else e_raise e))"

definition resolve_from_cmr :: "cmr_provider \<Rightarrow> json \<Rightarrow> json list \<Rightarrow> dict list option \<Rightarrow> resolved_names op" where
  "resolve_from_cmr cp concept_id variables given =
     e_bind (fetch_variables cp concept_id given) (\<lambda>fetched.
       case fetched of
         None \<Rightarrow> e_ret (JNull, JNull, JNull, variables)
       | Some cmr_vars \<Rightarrow> lift_sum (resolve_with cmr_vars variables))"

section \<open>Dimensions and axes\<close>

text \<open>\<open>_leaf(str(d.get("name") or ""))\<close>.\<close>

definition leaf_of :: "(json \<Rightarrow> string) \<Rightarrow> json \<Rightarrow> string" where
  "leaf_of show_other name = leaf (py_str show_other (py_or name (JStr [])))"

definition find_cmr_var :: "(json \<Rightarrow> string) \<Rightarrow> dict list \<Rightarrow> string \<Rightarrow> dict option" where
  "find_cmr_var show_other cmr_vars name = find (\<lambda>var. leaf_of show_other (jget var ''name'') = leaf name) cmr_vars"

definition dims_of :: "dict \<Rightarrow> exn + json list" where
  "dims_of var = py_iter (py_or (jget var ''dimensions'') (JArr []))"

fun length_in :: "(json \<Rightarrow> string) \<Rightarrow> string \<Rightarrow> json list \<Rightarrow> exn + int option" where
  "length_in show_other lf [] = Inr None"
| "length_in show_other lf (d # rest) =
     s_bind (py_get d ''name'' JNull) (\<lambda>name.
       if leaf_of show_other name = lf then
         s_bind (py_get d ''size'' JNull) (\<lambda>sz.
           if truthy sz then s_bind (py_to_int sz) (\<lambda>i. Inr (Some i)) else Inr None)
       else length_in show_other lf rest)"

definition dimension_length :: "(json \<Rightarrow> string) \<Rightarrow> dict list \<Rightarrow> string \<Rightarrow> exn + int option" where
  "dimension_length show_other cmr_vars coord_name =
     (case find_cmr_var show_other cmr_vars coord_name of
        None \<Rightarrow> Inr None
      | Some var \<Rightarrow> s_bind (dims_of var) (length_in show_other (leaf coord_name)))"

text \<open>\<open>None\<close> when a dimension that is not spatial has no size.\<close>

definition dim_entry :: "string \<Rightarrow> string \<Rightarrow> json \<Rightarrow> string \<Rightarrow> exn + json list option" where
  "dim_entry lat_leaf lon_leaf d lf =
     (if lf = lat_leaf \<or> lf = lon_leaf then Inr (Some [JStr lf, JNull])
      else
        s_bind (py_get d ''size'' JNull) (\<lambda>sz.
          if truthy sz then s_bind (py_to_int sz) (\<lambda>i. Inr (Some [JStr lf, JInt i])) else Inr None))"

fun dim_plan_of :: "string \<Rightarrow> string \<Rightarrow> (json \<times> string) list \<Rightarrow> exn + json list list option" where
  "dim_plan_of lat_leaf lon_leaf [] = Inr (Some [])"
| "dim_plan_of lat_leaf lon_leaf (x # rest) =
     s_bind (dim_entry lat_leaf lon_leaf (fst x) (snd x)) (\<lambda>entry.
       case entry of
         None \<Rightarrow> Inr None
       | Some e \<Rightarrow> s_bind (dim_plan_of lat_leaf lon_leaf rest) (\<lambda>p. Inr (map_option (Cons e) p)))"

definition variable_dim_plan ::
  "(json \<Rightarrow> string) \<Rightarrow> dict list \<Rightarrow> string \<Rightarrow> string \<Rightarrow> string \<Rightarrow> exn + json list list option" where
  "variable_dim_plan show_other cmr_vars var_name lat_leaf lon_leaf =
     (case find_cmr_var show_other cmr_vars var_name of
        None \<Rightarrow> Inr None
      | Some var \<Rightarrow>
          s_bind (dims_of var) (\<lambda>dims.
            if dims = [] then Inr None
            else
              s_bind (s_each (\<lambda>d. s_bind (py_get d ''name'' JNull) (\<lambda>n. Inr (leaf_of show_other n))) dims) (\<lambda>leaves.
                if lat_leaf \<notin> set leaves \<or> lon_leaf \<notin> set leaves then Inr None
                else dim_plan_of lat_leaf lon_leaf (zip dims leaves))))"

fun var_dim_plans ::
  "(json \<Rightarrow> string) \<Rightarrow> dict list \<Rightarrow> string \<Rightarrow> string \<Rightarrow> json list \<Rightarrow> (string \<times> json list list) list
   \<Rightarrow> exn + (string \<times> json list list) list" where
  "var_dim_plans show_other cmr_vars lat_leaf lon_leaf [] plans = Inr plans"
| "var_dim_plans show_other cmr_vars lat_leaf lon_leaf (v # rest) plans =
     s_bind (as_text v) (\<lambda>name.
     s_bind (variable_dim_plan show_other cmr_vars name lat_leaf lon_leaf) (\<lambda>p.
       var_dim_plans show_other cmr_vars lat_leaf lon_leaf rest
         (case p of None \<Rightarrow> plans | Some ps \<Rightarrow> AList.update name ps plans)))"

type_synonym geometry = "spec_axis option \<times> spec_axis option \<times> (string \<times> json list list) list"

definition axis_over :: "string \<Rightarrow> rat \<Rightarrow> rat \<Rightarrow> int \<Rightarrow> spec_axis" where
  "axis_over name low step n =
     \<lparr>sa_name = JStr name, sa_origin = JFloat (low + step / 2), sa_step = JFloat step, sa_length = JInt n\<rparr>"

definition grid_over ::
  "(json \<Rightarrow> string) \<Rightarrow> dict list \<Rightarrow> rat list \<Rightarrow> json list \<Rightarrow> string \<Rightarrow> string \<Rightarrow> int \<Rightarrow> int \<Rightarrow> exn + geometry" where
  "grid_over show_other cmr_vars extent variables coord_lat coord_lon nlat nlon =
     (case extent of
        [west, south, east, north] \<Rightarrow>
          let lat_step = (north - south) / of_int nlat; lon_step = (east - west) / of_int nlon in
          if lat_step = 0 \<or> lon_step = 0 then Inr (None, None, [])
          else s_bind (var_dim_plans show_other cmr_vars (leaf coord_lat) (leaf coord_lon) variables []) (\<lambda>plans.
            Inr (Some (axis_over coord_lat south lat_step nlat), Some (axis_over coord_lon west lon_step nlon), plans))
      | _ \<Rightarrow> Inl (ValueError ''not enough values to unpack''))"

definition grid_geometry ::
  "(json \<Rightarrow> string) \<Rightarrow> dict list \<Rightarrow> rat list \<Rightarrow> json list \<Rightarrow> string \<Rightarrow> string \<Rightarrow> exn + geometry" where
  "grid_geometry show_other cmr_vars extent variables coord_lat coord_lon =
     s_bind (dimension_length show_other cmr_vars coord_lat) (\<lambda>lat_len.
     s_bind (dimension_length show_other cmr_vars coord_lon) (\<lambda>lon_len.
       case (lat_len, lon_len) of
         (Some nlat, Some nlon) \<Rightarrow>
           if nlat = 0 \<or> nlon = 0 then Inr (None, None, [])
           else grid_over show_other cmr_vars extent variables coord_lat coord_lon nlat nlon
       | _ \<Rightarrow> Inr (None, None, [])))"

definition discover_grid_geometry ::
  "cmr_provider \<Rightarrow> json \<Rightarrow> rat list option \<Rightarrow> json list \<Rightarrow> json \<Rightarrow> json \<Rightarrow> dict list option \<Rightarrow> geometry op" where
  "discover_grid_geometry cp concept_id extent variables coord_lat coord_lon given =
     (case (extent, coord_lat, coord_lon) of
        (Some ex, JStr lat, JStr lon) \<Rightarrow>
          e_bind (fetch_variables cp concept_id given) (\<lambda>fetched.
            case fetched of
              None \<Rightarrow> e_ret (None, None, [])
            | Some cmr_vars \<Rightarrow> lift_sum (grid_geometry (cp_show cp) cmr_vars ex variables lat lon))
      | _ \<Rightarrow> e_ret (None, None, []))"

section \<open>The granule's own structure\<close>

text \<open>The structure document of a granule; \<open>None\<close> when it cannot be fetched or parsed.\<close>

definition granule_tree :: "(string \<Rightarrow> element option) \<Rightarrow> cmr_provider \<Rightarrow> string \<Rightarrow> dmr_tree option op" where
  "granule_tree fromstring cp opendap_url =
     e_bind (e_catch (get_dmr cp opendap_url) (\<lambda>e. if is_Exception e then e_ret None else e_raise e)) (\<lambda>xml.
       e_ret (case xml of None \<Rightarrow> None | Some t \<Rightarrow> if t = [] then None else parse_dmr fromstring t))"

fun geolocations :: "dmr_tree \<Rightarrow> string list \<Rightarrow> (string \<times> (json \<times> json)) list \<Rightarrow> (string \<times> (json \<times> json)) list" where
  "geolocations tree [] found = found"
| "geolocations tree (v # rest) found =
     geolocations tree rest
       (case group_geolocation tree v of
          None \<Rightarrow> found
        | Some (lat, lon) \<Rightarrow> AList.update v (JStr lat, JStr lon) found)"

definition resolve_from_dmr ::
  "(string \<Rightarrow> element option) \<Rightarrow> cmr_provider \<Rightarrow> string \<Rightarrow> json list
   \<Rightarrow> (json list \<times> (string \<times> (json \<times> json)) list \<times> (string \<times> json list) list) option op" where
  "resolve_from_dmr fromstring cp opendap_url variables =
     e_bind (granule_tree fromstring cp opendap_url) (\<lambda>parsed.
       case parsed of
         None \<Rightarrow> e_ret None
       | Some tree \<Rightarrow>
           e_bind (lift_sum (resolve_variables tree variables)) (\<lambda>(resolved, expansions).
             e_ret (Some (map JStr resolved, geolocations tree resolved [],
                          map (\<lambda>(n, ps). (n, map JStr ps)) expansions))))"

definition reconcile_name :: "dmr_tree \<Rightarrow> json \<Rightarrow> exn + json" where
  "reconcile_name tree v =
     s_bind (as_text v) (\<lambda>var.
       if map_of tree (fqn var) \<noteq> None then Inr v
       else (case filter (\<lambda>p. leaf p = leaf var) (map fst tree) of
               [p] \<Rightarrow> Inr (JStr p)
             | _ \<Rightarrow> Inr v))"

definition reconcile_variables_with_dmr ::
  "(string \<Rightarrow> element option) \<Rightarrow> cmr_provider \<Rightarrow> string \<Rightarrow> json list \<Rightarrow> json list op" where
  "reconcile_variables_with_dmr fromstring cp opendap_url variables =
     e_bind (granule_tree fromstring cp opendap_url) (\<lambda>parsed.
       case parsed of
         None \<Rightarrow> e_ret variables
       | Some tree \<Rightarrow> lift_sum (s_each (reconcile_name tree) variables))"

section \<open>Granules\<close>

fun access_url_in :: "(json \<Rightarrow> string) \<Rightarrow> json list \<Rightarrow> exn + string option" where
  "access_url_in show_other [] = Inr None"
| "access_url_in show_other (entry # rest) =
     s_bind (py_get entry ''URL'' (JStr [])) (\<lambda>u.
     s_bind (py_get entry ''Subtype'' (JStr [])) (\<lambda>st.
       let url = py_str show_other u in
       if py_contains (py_upper (py_str show_other st)) ''OPENDAP'' \<or> py_contains (py_lower url) ''opendap''
       then Inr (Some (if py_endswith url ''.html'' then take (length url - 5) url else url))
       else access_url_in show_other rest))"

definition opendap_url_of :: "(json \<Rightarrow> string) \<Rightarrow> dict \<Rightarrow> exn + string option" where
  "opendap_url_of show_other granule =
     s_bind (py_iter (case map_of granule ''related_urls'' of None \<Rightarrow> JArr [] | Some x \<Rightarrow> x)) (access_url_in show_other)"

fun access_urls :: "(json \<Rightarrow> string) \<Rightarrow> dict list \<Rightarrow> exn + string list" where
  "access_urls show_other [] = Inr []"
| "access_urls show_other (g # rest) =
     s_bind (opendap_url_of show_other g) (\<lambda>u.
     s_bind (access_urls show_other rest) (\<lambda>us.
       Inr (case u of None \<Rightarrow> us | Some url \<Rightarrow> if url = [] then us else url # us)))"

definition discover_opendap_urls :: "cmr_provider \<Rightarrow> json \<Rightarrow> json list option \<Rightarrow> json \<Rightarrow> string list op" where
  "discover_opendap_urls cp concept_id bbox time_range =
     e_bind (search_granules cp concept_id (py_or time_range JNull)
               (case bbox of None \<Rightarrow> JNull | Some b \<Rightarrow> JStr (bbox_text (cp_show cp) b)) JNull JNull JNull
               OPENDAP_GRANULE_LIMIT) (\<lambda>granules.
       lift_sum (access_urls (cp_show cp) granules))"

section \<open>The plan\<close>

definition untouched_plan :: "json list \<Rightarrow> opendap_plan" where
  "untouched_plan variables =
     \<lparr>od_urls = [], od_coord_lat = JStr ''lat'', od_coord_lon = JStr ''lon'', od_coord_time = JNull, od_lat_axis = None,
      od_lon_axis = None, od_var_dims = [], od_variables = variables, od_cmr_vars = [], od_var_coords = [],
      od_variable_expansions = []\<rparr>"

text \<open>The variable names a plan projects, with the coordinates and expansions the granule gave.\<close>

fun any_slash :: "json list \<Rightarrow> exn + bool" where
  "any_slash [] = Inr False"
| "any_slash (v # rest) = s_bind (slash_in v) (\<lambda>b. if b then Inr True else any_slash rest)"

definition settle_names ::
  "(string \<Rightarrow> element option) \<Rightarrow> cmr_provider \<Rightarrow> string \<Rightarrow> dict list \<Rightarrow> json list
   \<Rightarrow> (json list \<times> (string \<times> (json \<times> json)) list \<times> (string \<times> json list) list) op" where
  "settle_names fromstring cp url cmr_vars resolved =
     (if cmr_vars = [] then
        e_bind (resolve_from_dmr fromstring cp url resolved) (\<lambda>answer.
          e_ret (case answer of None \<Rightarrow> (resolved, [], []) | Some found \<Rightarrow> found))
      else
        e_bind (lift_sum (any_slash resolved)) (\<lambda>slash.
          if slash
          then e_bind (reconcile_variables_with_dmr fromstring cp url resolved) (\<lambda>vs. e_ret (vs, [], []))
          else e_ret (resolved, [], [])))"

definition plan_subset ::
  "(string \<Rightarrow> element option) \<Rightarrow> cmr_provider \<Rightarrow> capabilities \<Rightarrow> json \<Rightarrow> json list option \<Rightarrow> json \<Rightarrow> json list
   \<Rightarrow> opendap_plan op" where
  "plan_subset fromstring cp caps concept_id bbox time_range variables =
     e_bind (discover_opendap_urls cp concept_id bbox time_range) (\<lambda>urls.
       case urls of
         [] \<Rightarrow> e_ret (untouched_plan variables)
       | url # more_urls \<Rightarrow>
           e_bind (e_catch (get_variables cp concept_id None MAX_LIMIT)
                     (\<lambda>e. if is_Exception e then e_ret [] else e_raise e)) (\<lambda>cmr_vars.
           e_bind (resolve_from_cmr cp concept_id variables (Some cmr_vars)) (\<lambda>(lat, lon, tm, resolved).
           e_bind (settle_names fromstring cp url cmr_vars resolved) (\<lambda>(settled, coords, expansions).
           e_bind (if cc_output_shape caps = ''grid''
                   then discover_grid_geometry cp concept_id (cc_spatial_extent caps) settled lat lon (Some cmr_vars)
                   else e_ret (None, None, [])) (\<lambda>(lat_axis, lon_axis, dims).
             e_ret \<lparr>od_urls = map JStr urls, od_coord_lat = lat, od_coord_lon = lon, od_coord_time = tm,
                    od_lat_axis = lat_axis, od_lon_axis = lon_axis, od_var_dims = dims, od_variables = settled,
                    od_cmr_vars = cmr_vars, od_var_coords = coords, od_variable_expansions = expansions\<rparr>)))))"

section \<open>The check of requested names\<close>

definition full_names :: "(json \<Rightarrow> string) \<Rightarrow> dict list \<Rightarrow> string list" where
  "full_names show_other cmr_vars =
     map (\<lambda>v. py_str show_other (jget v ''name'')) (filter (\<lambda>v. truthy (jget v ''name'')) cmr_vars)"

definition known_name :: "string list \<Rightarrow> string \<Rightarrow> bool" where
  "known_name names v \<longleftrightarrow>
     py_lower v \<in> py_lower ` set names \<or> py_lower (lstrip_char CHR ''/'' v) \<in> path_leaf ` set names"

definition validate_variables :: "(json \<Rightarrow> string) \<Rightarrow> dict list \<Rightarrow> string list \<Rightarrow> exn + unit" where
  "validate_variables show_other cmr_vars variables =
     (let names = full_names show_other cmr_vars;
          unknown = filter (\<lambda>v. \<not> known_name names v) variables
      in if cmr_vars = [] \<or> variables = [] \<or> names = [] \<or> unknown = [] then Inr ()
         else Inl (ValueError (''Unknown variable(s) for this collection: '' @ py_join ''; '' (map py_repr unknown))))"

section \<open>Nothing is guessed\<close>

text \<open>A variable record that says it is the coordinate of a kind, under the name \<open>n\<close>.\<close>

definition confirms :: "string \<Rightarrow> string set \<Rightarrow> dict \<Rightarrow> string \<Rightarrow> bool" where
  "confirms kind leaves v n \<longleftrightarrow>
     text_or_empty (jget v ''name'') = Inr n
     \<and> (path_leaf n \<in> leaves \<or> (\<exists>std. text_or_empty (jget v ''standard_name'') = Inr std \<and> py_lower std = kind))"

lemma discover_coords_confirmed:
  assumes "discover_coords vars found = Inr (lat, lon, tm)"
  shows "(lat = Some n \<longrightarrow> fst found = Some n \<or> (\<exists>v \<in> set vars. confirms ''latitude'' {''lat'', ''latitude''} v n))
    \<and> (lon = Some n \<longrightarrow> fst (snd found) = Some n \<or> (\<exists>v \<in> set vars. confirms ''longitude'' {''lon'', ''longitude''} v n))
    \<and> (tm = Some n \<longrightarrow> snd (snd found) = Some n \<or> (\<exists>v \<in> set vars. confirms ''time'' {''time''} v n))"
  using assms
proof (induction vars arbitrary: found)
  case Nil
  then show ?case by simp
next
  case (Cons v vars)
  obtain name std where ns: "text_or_empty (jget v ''name'') = Inr name"
      "text_or_empty (jget v ''standard_name'') = Inr std"
      "discover_coords vars (coord_seen name (py_lower std) found) = Inr (lat, lon, tm)"
    using Cons.prems by (auto simp: sum_simps)
  have seen: "(fst (coord_seen name (py_lower std) found) = Some n \<longrightarrow>
        fst found = Some n \<or> confirms ''latitude'' {''lat'', ''latitude''} v n)
    \<and> (fst (snd (coord_seen name (py_lower std) found)) = Some n \<longrightarrow>
        fst (snd found) = Some n \<or> confirms ''longitude'' {''lon'', ''longitude''} v n)
    \<and> (snd (snd (coord_seen name (py_lower std) found)) = Some n \<longrightarrow>
        snd (snd found) = Some n \<or> confirms ''time'' {''time''} v n)"
    using ns(1,2) by (auto simp: coord_seen_def confirms_def split: prod.splits if_split_asm)
  show ?case using Cons.IH [OF ns(3)] seen by auto
qed

text \<open>An axis whose cells tile an interval, edge to edge.\<close>

definition axis_spans :: "spec_axis \<Rightarrow> rat \<Rightarrow> rat \<Rightarrow> bool" where
  "axis_spans a low high \<longleftrightarrow>
     (\<exists>origin step n. sa_origin a = JFloat origin \<and> sa_step a = JFloat step \<and> sa_length a = JInt n
        \<and> n \<noteq> 0 \<and> step \<noteq> 0 \<and> origin - step / 2 = low \<and> origin + (of_int n - 1 / 2) * step = high)"

lemma axis_over_spans:
  assumes "n \<noteq> 0" "(high - low) / of_int n \<noteq> 0"
  shows "axis_spans (axis_over name low ((high - low) / of_int n) n) low high"
proof -
  define step where "step = (high - low) / of_int n"
  have "step * of_int n = high - low" using assms(1) by (simp add: step_def)
  then have "low + step / 2 + (of_int n - 1 / 2) * step = high" by (simp add: algebra_simps)
  then show ?thesis unfolding axis_spans_def axis_over_def step_def [symmetric]
    using assms by (auto simp: step_def [symmetric])
qed

text \<open>The dimensions of a variable in its own order: the two spatial ones open, every other one of known size.\<close>

definition positional :: "string \<Rightarrow> string \<Rightarrow> json list list \<Rightarrow> bool" where
  "positional lat_leaf lon_leaf dims \<longleftrightarrow>
     [JStr lat_leaf, JNull] \<in> set dims \<and> [JStr lon_leaf, JNull] \<in> set dims
     \<and> (\<forall>d \<in> set dims. d = [JStr lat_leaf, JNull] \<or> d = [JStr lon_leaf, JNull] \<or> (\<exists>lf n. d = [JStr lf, JInt n]))"

lemma dim_plan_of_leaves:
  "dim_plan_of lat_leaf lon_leaf xs = Inr (Some ps) \<Longrightarrow>
     (\<forall>x \<in> set xs. snd x = lat_leaf \<or> snd x = lon_leaf \<longrightarrow> [JStr (snd x), JNull] \<in> set ps)
     \<and> (\<forall>d \<in> set ps. d = [JStr lat_leaf, JNull] \<or> d = [JStr lon_leaf, JNull] \<or> (\<exists>lf n. d = [JStr lf, JInt n]))"
proof (induction xs arbitrary: ps)
  case Nil
  then show ?case by simp
next
  case (Cons x xs)
  then obtain e rest where e: "dim_entry lat_leaf lon_leaf (fst x) (snd x) = Inr (Some e)"
    "dim_plan_of lat_leaf lon_leaf xs = Inr (Some rest)" "ps = e # rest"
    by (auto simp: sum_simps split: option.splits)
  have "(snd x = lat_leaf \<or> snd x = lon_leaf \<longrightarrow> e = [JStr (snd x), JNull])
     \<and> (e = [JStr lat_leaf, JNull] \<or> e = [JStr lon_leaf, JNull] \<or> (\<exists>lf n. e = [JStr lf, JInt n]))"
    using e(1) by (auto simp: dim_entry_def sum_simps split: if_splits)
  then show ?case using Cons.IH [OF e(2)] e(3) by auto
qed

lemma s_each_length: "s_each f xs = Inr ys \<Longrightarrow> length ys = length xs"
  by (simp add: s_each_Inr_iff list_all2_lengthD)

lemma variable_dim_plan_positional:
  assumes "variable_dim_plan show_other cmr_vars name lat_leaf lon_leaf = Inr (Some ps)"
  shows "positional lat_leaf lon_leaf ps"
proof -
  obtain xs leaves where x: "length leaves = length xs" "lat_leaf \<in> set leaves" "lon_leaf \<in> set leaves"
      "dim_plan_of lat_leaf lon_leaf (zip xs leaves) = Inr (Some ps)"
    using assms by (auto simp: variable_dim_plan_def sum_simps split: option.splits if_splits dest: s_each_length)
  have "\<exists>x \<in> set (zip xs leaves). snd x = lat_leaf" "\<exists>x \<in> set (zip xs leaves). snd x = lon_leaf"
    using x(1-3) by (metis imageE list.set_map map_snd_zip)+
  then show ?thesis using dim_plan_of_leaves [OF x(4)] unfolding positional_def by blast
qed

lemma in_update: "(k, v) \<in> set (AList.update a b m) \<Longrightarrow> (k, v) \<in> set m \<or> k = a \<and> v = b"
  by (induction m) (auto split: if_splits)

lemma var_dim_plans_positional:
  "var_dim_plans show_other cmr_vars lat_leaf lon_leaf vars plans = Inr plans' \<Longrightarrow>
   (v, ds) \<in> set plans' \<Longrightarrow> (v, ds) \<in> set plans \<or> JStr v \<in> set vars \<and> positional lat_leaf lon_leaf ds"
proof (induction vars arbitrary: plans)
  case Nil
  then show ?case by simp
next
  case (Cons x vars)
  obtain name p where n: "as_text x = Inr name" "variable_dim_plan show_other cmr_vars name lat_leaf lon_leaf = Inr p"
    "var_dim_plans show_other cmr_vars lat_leaf lon_leaf vars
       (case p of None \<Rightarrow> plans | Some ps \<Rightarrow> AList.update name ps plans) = Inr plans'"
    using Cons.prems(1) by (auto simp: sum_simps)
  have x: "x = JStr name" using n(1) by (auto simp: as_text_def split: json.splits)
  from Cons.IH [OF n(3) Cons.prems(2)] show ?case
  proof
    assume "(v, ds) \<in> set (case p of None \<Rightarrow> plans | Some ps \<Rightarrow> AList.update name ps plans)"
    then consider "(v, ds) \<in> set plans" | "p = Some ds" "v = name"
      by (cases p) (auto dest: in_update)
    then show ?thesis using n(2) x variable_dim_plan_positional by cases auto
  qed simp
qed

definition no_geometry :: "geometry \<Rightarrow> bool" where
  "no_geometry g \<longleftrightarrow> g = (None, None, [])"

definition spanning :: "rat list \<Rightarrow> json list \<Rightarrow> string \<Rightarrow> string \<Rightarrow> geometry \<Rightarrow> bool" where
  "spanning ex vars lat lon g \<longleftrightarrow>
     (\<exists>west south east north a b dims. ex = [west, south, east, north] \<and> g = (Some a, Some b, dims)
        \<and> sa_name a = JStr lat \<and> sa_name b = JStr lon \<and> axis_spans a south north \<and> axis_spans b west east
        \<and> (\<forall>(v, ds) \<in> set dims. JStr v \<in> set vars \<and> positional (leaf lat) (leaf lon) ds))"

lemma grid_over_result:
  assumes "grid_over show_other cmr_vars ex vars lat lon nlat nlon = Inr g" and n: "nlat \<noteq> 0" "nlon \<noteq> 0"
  shows "no_geometry g \<or> spanning ex vars lat lon g"
proof -
  obtain west south east north where ex: "ex = [west, south, east, north]"
    using assms(1) by (auto simp: grid_over_def split: list.splits)
  let ?a = "(north - south) / of_int nlat" and ?b = "(east - west) / of_int nlon"
  show ?thesis
  proof (cases "?a = 0 \<or> ?b = 0")
    case True
    then have "g = (None, None, [])" using assms(1) by (simp add: grid_over_def ex Let_def)
    then show ?thesis by (simp add: no_geometry_def)
  next
    case False
    then obtain dims where d: "var_dim_plans show_other cmr_vars (leaf lat) (leaf lon) vars [] = Inr dims"
      "g = (Some (axis_over lat south ?a nlat), Some (axis_over lon west ?b nlon), dims)"
      using assms(1) by (auto simp: grid_over_def ex Let_def s_bind_Inr_iff)
    have "\<forall>(v, ds) \<in> set dims. JStr v \<in> set vars \<and> positional (leaf lat) (leaf lon) ds"
      using var_dim_plans_positional [OF d(1)] by fastforce
    moreover have "axis_spans (axis_over lat south ?a nlat) south north" "axis_spans (axis_over lon west ?b nlon) west east"
      using axis_over_spans n False by blast+
    moreover have "sa_name (axis_over lat south ?a nlat) = JStr lat" "sa_name (axis_over lon west ?b nlon) = JStr lon"
      by (simp_all add: axis_over_def)
    ultimately have "spanning ex vars lat lon g" unfolding spanning_def ex d(2) by blast
    then show ?thesis ..
  qed
qed

lemma grid_geometry_result:
  assumes "grid_geometry show_other cmr_vars ex vars lat lon = Inr g"
  shows "no_geometry g \<or> spanning ex vars lat lon g"
proof -
  obtain a b where ab: "dimension_length show_other cmr_vars lat = Inr a" "dimension_length show_other cmr_vars lon = Inr b"
    using assms by (auto simp: grid_geometry_def s_bind_Inr_iff)
  show ?thesis
  proof (cases "(\<exists>n. a = Some n \<and> n \<noteq> 0) \<and> (\<exists>n. b = Some n \<and> n \<noteq> 0)")
    case True
    then obtain nlat nlon where "a = Some nlat" "b = Some nlon" "nlat \<noteq> 0" "nlon \<noteq> 0" by blast
    then show ?thesis using assms ab grid_over_result by (simp add: grid_geometry_def)
  next
    case False
    then have "g = (None, None, [])" using assms ab by (auto simp: grid_geometry_def split: option.splits)
    then show ?thesis by (simp add: no_geometry_def)
  qed
qed

text \<open>What a plan with granules may hold.\<close>

definition plan_confirmed :: "capabilities \<Rightarrow> opendap_plan \<Rightarrow> bool" where
  "plan_confirmed caps p \<longleftrightarrow>
     (\<forall>n. od_coord_lat p = JStr n \<longrightarrow> (\<exists>v \<in> set (od_cmr_vars p). confirms ''latitude'' {''lat'', ''latitude''} v n))
     \<and> (\<forall>n. od_coord_lon p = JStr n \<longrightarrow> (\<exists>v \<in> set (od_cmr_vars p). confirms ''longitude'' {''lon'', ''longitude''} v n))
     \<and> (\<forall>n. od_coord_time p = JStr n \<longrightarrow> (\<exists>v \<in> set (od_cmr_vars p). confirms ''time'' {''time''} v n))
     \<and> (od_cmr_vars p = [] \<or> od_var_coords p = [] \<and> od_variable_expansions p = [])
     \<and> (no_geometry (od_lat_axis p, od_lon_axis p, od_var_dims p)
        \<or> (\<exists>ex lat lon. cc_output_shape caps = ''grid'' \<and> cc_spatial_extent caps = Some ex
             \<and> od_coord_lat p = JStr lat \<and> od_coord_lon p = JStr lon
             \<and> spanning ex (od_variables p) lat lon (od_lat_axis p, od_lon_axis p, od_var_dims p)))"

lemma settle_names_result:
  "wp_partial (settle_names fromstring cp url cmr_vars resolved)
     (\<lambda>(vs, coords, exps) _. cmr_vars = [] \<or> coords = [] \<and> exps = []) w"
proof (cases "cmr_vars = []")
  case True
  then show ?thesis by (auto intro: wp_partial_any)
next
  case False
  then show ?thesis
    unfolding settle_names_def
    by (auto intro!: wp_bind_any simp: wp_simps intro: wp_partial_any split: sum.split)
qed

lemma tables_fetch_variables: "cmr_aside cp \<Longrightarrow> keeps same_tables (fetch_variables cp c g)"
  unfolding fetch_variables_def by (intro keeps_tables tables_get_variables)

lemma tables_granule_tree: "cmr_aside cp \<Longrightarrow> keeps same_tables (granule_tree f cp u)"
  unfolding granule_tree_def by (intro keeps_tables tables_get_dmr)

lemma tables_list:
  "keeps same_tables m \<Longrightarrow> (\<And>x xs. keeps same_tables (f x xs)) \<Longrightarrow> keeps same_tables (case ys of [] \<Rightarrow> m | x # xs \<Rightarrow> f x xs)"
  by (cases ys) auto

lemma tables_discover_geometry: "cmr_aside cp \<Longrightarrow> keeps same_tables (discover_grid_geometry cp c e vs lat lon g)"
  unfolding discover_grid_geometry_def
  by (cases e; cases lat; cases lon) (auto intro!: keeps_tables tables_fetch_variables)

lemma tables_settle: "cmr_aside cp \<Longrightarrow> keeps same_tables (settle_names f cp u vars vs)"
  unfolding settle_names_def resolve_from_dmr_def reconcile_variables_with_dmr_def
  by (intro keeps_tables tables_granule_tree)

lemma tables_plan_subset: "cmr_aside cp \<Longrightarrow> keeps same_tables (plan_subset f cp caps c b t vs)"
  unfolding plan_subset_def discover_opendap_urls_def resolve_from_cmr_def
  by (intro keeps_tables tables_list tables_search_granules tables_get_variables tables_fetch_variables
      tables_settle tables_discover_geometry)

lemma ret_bind: "e_bind (e_ret x) f = f x"
  by (rule ext) (simp add: e_bind_run e_ret_run)

lemma resolve_given: "resolve_from_cmr cp c vs (Some vars) = lift_sum (resolve_with vars vs)"
  by (simp add: resolve_from_cmr_def fetch_variables_def ret_bind)

lemma resolve_with_confirmed:
  assumes "resolve_with vars vs = Inr (lat, lon, tm, resolved)"
  shows "(\<forall>n. lat = JStr n \<longrightarrow> (\<exists>v \<in> set vars. confirms ''latitude'' {''lat'', ''latitude''} v n))
    \<and> (\<forall>n. lon = JStr n \<longrightarrow> (\<exists>v \<in> set vars. confirms ''longitude'' {''lon'', ''longitude''} v n))
    \<and> (\<forall>n. tm = JStr n \<longrightarrow> (\<exists>v \<in> set vars. confirms ''time'' {''time''} v n))"
proof -
  obtain a b c where d: "discover_coords vars (None, None, None) = Inr (a, b, c)"
    "lat = json_opt a" "lon = json_opt b" "tm = json_opt c"
    using assms by (auto simp: resolve_with_def s_bind_Inr_iff)
  show ?thesis
    using discover_coords_confirmed [OF d(1)] d(2-4) by (auto simp: json_opt_def split: option.splits)
qed

lemma discover_geometry_result:
  "wp_partial (discover_grid_geometry cp c e vs lat lon (Some vars))
     (\<lambda>g _. no_geometry g \<or> (\<exists>ex la lo. e = Some ex \<and> lat = JStr la \<and> lon = JStr lo \<and> spanning ex vs la lo g)) w"
proof (cases "\<exists>ex la lo. e = Some ex \<and> lat = JStr la \<and> lon = JStr lo")
  case True
  then obtain ex la lo where *: "e = Some ex" "lat = JStr la" "lon = JStr lo" by blast
  show ?thesis
    unfolding * discover_grid_geometry_def
    by (auto simp: fetch_variables_def ret_bind wp_lift split: sum.split dest!: grid_geometry_result)
next
  case False
  then have "discover_grid_geometry cp c e vs lat lon (Some vars) = e_ret (None, None, [])"
    unfolding discover_grid_geometry_def by (cases e; cases lat; cases lon) auto
  then show ?thesis by (simp add: wp_ret no_geometry_def)
qed

lemma plan_subset_wp:
  "wp_partial (plan_subset f cp caps c b t vs)
     (\<lambda>p _. p = untouched_plan vs \<or> od_urls p \<noteq> [] \<and> plan_confirmed caps p) w"
  unfolding plan_subset_def
proof (rule wp_bind_any)
  fix urls :: "string list" and w1
  show "wp_partial (case urls of [] \<Rightarrow> e_ret (untouched_plan vs)
     | url # more_urls \<Rightarrow>
           e_bind (e_catch (get_variables cp c None MAX_LIMIT)
                     (\<lambda>e. if is_Exception e then e_ret [] else e_raise e)) (\<lambda>cmr_vars.
           e_bind (resolve_from_cmr cp c vs (Some cmr_vars)) (\<lambda>(lat, lon, tm, resolved).
           e_bind (settle_names f cp url cmr_vars resolved) (\<lambda>(settled, coords, expansions).
           e_bind (if cc_output_shape caps = ''grid''
                   then discover_grid_geometry cp c (cc_spatial_extent caps) settled lat lon (Some cmr_vars)
                   else e_ret (None, None, [])) (\<lambda>(lat_axis, lon_axis, dims).
             e_ret \<lparr>od_urls = map JStr urls, od_coord_lat = lat, od_coord_lon = lon, od_coord_time = tm,
                    od_lat_axis = lat_axis, od_lon_axis = lon_axis, od_var_dims = dims, od_variables = settled,
                    od_cmr_vars = cmr_vars, od_var_coords = coords, od_variable_expansions = expansions\<rparr>)))))
     (\<lambda>p _. p = untouched_plan vs \<or> od_urls p \<noteq> [] \<and> plan_confirmed caps p) w1"
  proof (cases urls)
    case Nil
    then show ?thesis by (simp add: wp_ret)
  next
    case (Cons url more)
    show ?thesis
      unfolding Cons list.case
    proof (rule wp_bind_any, unfold resolve_given, rule wp_bind_lift, clarsimp)
      fix vars lat lon tm resolved and w2
      assume r: "resolve_with vars vs = Inr (lat, lon, tm, resolved)"
      show "wp_partial (e_bind (settle_names f cp url vars resolved) (\<lambda>(settled, coords, expansions).
           e_bind (if cc_output_shape caps = ''grid''
                   then discover_grid_geometry cp c (cc_spatial_extent caps) settled lat lon (Some vars)
                   else e_ret (None, None, [])) (\<lambda>(lat_axis, lon_axis, dims).
             e_ret \<lparr>od_urls = JStr url # map JStr more, od_coord_lat = lat, od_coord_lon = lon, od_coord_time = tm,
                    od_lat_axis = lat_axis, od_lon_axis = lon_axis, od_var_dims = dims, od_variables = settled,
                    od_cmr_vars = vars, od_var_coords = coords, od_variable_expansions = expansions\<rparr>)))
         (\<lambda>p _. p = untouched_plan vs \<or> od_urls p \<noteq> [] \<and> plan_confirmed caps p) w2"
      proof (rule wp_bind_post [OF settle_names_result], clarify, rule wp_bind_post)
        fix settled :: "json list" and coords :: "(string \<times> json \<times> json) list" and expansions :: "(string \<times> json list) list" and w3
        show "wp_partial (if cc_output_shape caps = ''grid''
                   then discover_grid_geometry cp c (cc_spatial_extent caps) settled lat lon (Some vars)
                   else e_ret (None, None, []))
            (\<lambda>g _. no_geometry g \<or> cc_output_shape caps = ''grid'' \<and> (\<exists>ex la lo. cc_spatial_extent caps = Some ex
               \<and> lat = JStr la \<and> lon = JStr lo \<and> spanning ex settled la lo g)) w3"
          using discover_geometry_result [of cp c "cc_spatial_extent caps" settled lat lon vars w3]
          by (simp add: wp_ret no_geometry_def)
      next
        fix settled :: "json list" and coords :: "(string \<times> json \<times> json) list" and expansions :: "(string \<times> json list) list"
          and w3 g w4
        assume "vars = [] \<or> coords = [] \<and> expansions = []"
          and "no_geometry g \<or> cc_output_shape caps = ''grid'' \<and> (\<exists>ex la lo. cc_spatial_extent caps = Some ex
               \<and> lat = JStr la \<and> lon = JStr lo \<and> spanning ex settled la lo g)"
        then show "wp_partial (case g of (lat_axis, lon_axis, dims) \<Rightarrow>
             e_ret \<lparr>od_urls = JStr url # map JStr more, od_coord_lat = lat, od_coord_lon = lon, od_coord_time = tm,
                    od_lat_axis = lat_axis, od_lon_axis = lon_axis, od_var_dims = dims, od_variables = settled,
                    od_cmr_vars = vars, od_var_coords = coords, od_variable_expansions = expansions\<rparr>)
          (\<lambda>p _. p = untouched_plan vs \<or> od_urls p \<noteq> [] \<and> plan_confirmed caps p) w4"
          using resolve_with_confirmed [OF r] by (cases g) (simp add: wp_ret plan_confirmed_def)
      qed
    qed
  qed
qed


text \<open>A gridded collection of one granule, whose records name the coordinates and the dimensions of one variable.\<close>

definition umm_var :: "string \<Rightarrow> (string \<times> int) list \<Rightarrow> json" where
  "umm_var name dims =
     JObj [(''umm'', JObj [(''Name'', JStr name), (''Dimensions'',
       JArr (map (\<lambda>(d, n). JObj [(''Name'', JStr d), (''Size'', JInt n)]) dims))])]"

definition sample_cmr_answer :: "string \<Rightarrow> json list" where
  "sample_cmr_answer url =
     (if py_contains url ''granules''
      then [JObj [(''umm'', JObj [(''RelatedUrls'', JArr [JObj [(''URL'', JStr ''https://opendap/G1.nc4.html'')]])])]]
      else if py_contains url ''collections''
      then [JObj [(''meta'', JObj [(''associations'', JObj [(''variables'', JArr [JStr ''V1'', JStr ''V2'', JStr ''V3''])])])]]
      else [umm_var ''lat'' [(''lat'', 180)], umm_var ''lon'' [(''lon'', 360)],
            umm_var ''rain'' [(''time'', 1), (''lat'', 180), (''lon'', 360)]])"

definition sample_cmr :: cmr_provider where
  "sample_cmr =
     \<lparr>cp_cmr_base = ''https://cmr'', cp_harmony_base = ''https://harmony'', cp_headers = [], cp_edl_token = None,
      cp_earthdata_token = [], cp_show = (\<lambda>j. ''?''), cp_read_float = (\<lambda>s. None),
      cp_send = (\<lambda>m url ps h. e_ret \<lparr>hr_status = 200,
        hr_json = Some (JObj [(''items'', JArr (sample_cmr_answer url))]), hr_text = [], hr_headers = []\<rparr>)\<rparr>"

definition grid_caps :: capabilities where
  "grid_caps = sample_caps\<lparr>cc_output_shape := ''grid'', cc_spatial_extent := Some [-180, -90, 180, 90]\<rparr>"

definition sample_grid_plan :: "exn + opendap_plan" where
  "sample_grid_plan =
     fst (plan_subset (\<lambda>x. None) sample_cmr grid_caps (JStr ''C1'') None (JStr ''t'') [JStr ''rain''] initial_world)"

lemma sample_grid_plan_value:
  "(case sample_grid_plan of
      Inl e \<Rightarrow> False
    | Inr p \<Rightarrow> od_urls p = [JStr ''https://opendap/G1.nc4''] \<and> od_coord_lat p = JStr ''lat''
        \<and> od_lat_axis p = Some \<lparr>sa_name = JStr ''lat'', sa_origin = JFloat (- (179 / 2)), sa_step = JFloat 1, sa_length = JInt 180\<rparr>
        \<and> od_var_dims p = [(''rain'', [[JStr ''time'', JInt 1], [JStr ''lat'', JNull], [JStr ''lon'', JNull]])])"
  by code_simp

lemma sample_cmr_aside: "cmr_aside sample_cmr"
  by (simp add: cmr_aside_def sample_cmr_def tables.keeps_ret)


section \<open>Where planning does raise\<close>

text \<open>A failed granule search is not softened, unlike every other CMR call of the seam.\<close>

lemma search_failure_raises:
  "discover_opendap_urls cp concept_id bbox time_range w = (Inl e, w') \<Longrightarrow>
   plan_subset fromstring cp caps concept_id bbox time_range variables w = (Inl e, w')"
  by (simp add: plan_subset_def e_bind_run)

text \<open>A size that is not a number raises out of the geometry, which promises never to.\<close>

lemma worded_size_raises:
  "dimension_length (\<lambda>j. ''?'') [[(''name'', JStr ''lat''), (''dimensions'', JArr [JObj [(''name'', JStr ''lat''),
     (''size'', JStr ''Varies'')]])]] ''lat'' = Inl (ValueError ''invalid literal for int()'')"
  by code_simp

text \<open>A path with a leading slash resolves as it is, and is refused when the record has none.\<close>

lemma rooted_path_refused:
  "resolve_with [[(''name'', JStr ''product/no2'')]] [JStr ''/product/no2''] = Inr (JNull, JNull, JNull, [JStr ''/product/no2''])"
  "validate_variables (\<lambda>j. ''?'') [[(''name'', JStr ''product/no2'')]] [''/product/no2'']
     = Inl (ValueError (''Unknown variable(s) for this collection: '' @ py_repr ''/product/no2''))"
  by code_simp+

end
