(* ===== verification/Eviction.thy ===== *)
theory Eviction
  imports World
begin

text \<open>
  Eviction from the materialization cache (\<open>jobs/eviction.py\<close>): the fair-share rule, the candidates
  and their scores, the reclamation of orphan blobs and the eviction loop. The lemmas give the
  policy the loop implements as a step relation over the pool of candidates, show that the loop
  refines it and ends, and derive what the policy promises.
\<close>

section \<open>Configuration and candidates\<close>

record evict_cfg =
  x_max_bytes :: int
  x_default_cost :: rat
  x_orphan_interval :: rat

definition MATERIALIZATION_PREFIXES :: "string list" where
  "MATERIALIZATION_PREFIXES = [''harmony/'', ''appeears/'', ''opendap/'', ''transform/'']"

definition evictable_type :: "handle_type \<Rightarrow> bool" where
  "evictable_type ht \<longleftrightarrow> ht = OBS \<or> ht = CUBE"

text \<open>\<open>held[ws] = held.get(ws, 0) + n\<close>.\<close>

definition held_of :: "(string \<times> int) list \<Rightarrow> string \<Rightarrow> int" where
  "held_of held ws = (case map_of held ws of None \<Rightarrow> 0 | Some n \<Rightarrow> n)"

definition add_held :: "string \<Rightarrow> int \<Rightarrow> (string \<times> int) list \<Rightarrow> (string \<times> int) list" where
  "add_held ws n held = AList.update ws (held_of held ws + n) held"

definition under_fair_share :: "handle_table \<Rightarrow> string \<Rightarrow> int \<Rightarrow> int \<Rightarrow> bool" where
  "under_fair_share t workspace_id max_bytes extra_bytes =
     (let rows = filter (\<lambda>r. evictable_type (h_type r)) t;
          held = fold (\<lambda>r held.
                   if h_payload r = [] \<or> jget (h_payload r) ''status'' \<noteq> JStr ''ready'' then held
                   else (case py_int (jget (h_payload r) ''size_bytes'') of
                           None \<Rightarrow> held
                         | Some n \<Rightarrow> add_held (h_workspace_id r) n held)) rows [];
          workspaces = insert workspace_id (fst ` set held);
          fair_share = of_int max_bytes / of_nat (card workspaces) :: rat
      in of_int (held_of held workspace_id + extra_bytes) \<le> fair_share)"

record candidate =
  c_handle :: string
  c_ws :: string
  c_key :: json
  c_size :: int
  c_last_used :: time
  c_cost :: rat
  c_pinned :: bool
  c_speculative :: bool

definition score :: "time \<Rightarrow> candidate \<Rightarrow> rat" where
  "score now c =
     (let age_hours = max (of_int (now - c_last_used c) / 1000000) 0 / 3600
      in of_int (c_size c) * (1 + age_hours) / c_cost c)"

definition eviction_key :: "time \<Rightarrow> candidate \<Rightarrow> bool \<times> rat" where
  "eviction_key now c = (c_speculative c, score now c)"

section \<open>Orphan reclamation\<close>

definition referenced_storage_keys :: "handle_table \<Rightarrow> json list" where
  "referenced_storage_keys t =
     filter truthy (map (\<lambda>r. jget (h_payload r) ''storage_key'')
       (filter (\<lambda>r. evictable_type (h_type r)) t))"

definition op_list_blobs :: "string \<Rightarrow> string list op" where
  "op_list_blobs pre = e_read (\<lambda>w. Inr (local_list (w_root w) (w_files w) pre))"

definition reclaim_orphans :: "unit op" where
  "reclaim_orphans =
     e_bind (e_read (\<lambda>w. Inr (referenced_storage_keys (w_handles w)))) (\<lambda>referenced.
       e_each (\<lambda>pre.
         e_bind (op_list_blobs pre) (\<lambda>keys.
           e_each (\<lambda>key. e_when (JStr key \<notin> set referenced) (op_delete_blob key)) keys))
         MATERIALIZATION_PREFIXES)"

definition reclaim_orphans_if_due :: "evict_cfg \<Rightarrow> unit op" where
  "reclaim_orphans_if_due cfg =
     e_bind (e_gets (\<lambda>w. (w_now w, w_last_orphan_sweep w))) (\<lambda>(now, last).
       if (case last of None \<Rightarrow> False | Some l \<Rightarrow> of_int (now - l) / 1000000 < x_orphan_interval cfg)
       then e_ret ()
       else e_seq (e_modify (\<lambda>w. w\<lparr>w_last_orphan_sweep := Some now\<rparr>)) reclaim_orphans)"

section \<open>Cost-aware eviction\<close>

definition json_key :: "json \<Rightarrow> exn + string" where
  "json_key j = (case j of JStr s \<Rightarrow> Inr s | _ \<Rightarrow> Inl (TypeError ''unsupported operand type(s)''))"

text \<open>\<open>stat\<close> as the fallback for a size; \<open>except KeyError\<close> drops the row.\<close>

definition size_of :: "dict \<Rightarrow> int option op" where
  "size_of payload =
     (case py_int (jget payload ''size_bytes'') of
        Some n \<Rightarrow> e_ret (Some n)
      | None \<Rightarrow>
          e_catch
            (e_bind (lift_sum (json_key (jget payload ''storage_key''))) (\<lambda>key.
               e_read (\<lambda>w. case local_stat (w_root w) (w_files w) key of
                             Inl e \<Rightarrow> Inl e
                           | Inr (_, n) \<Rightarrow> Inr (Some (int n)))))
            (\<lambda>e. case e of KeyError _ \<Rightarrow> e_ret None | _ \<Rightarrow> e_raise e))"

definition ready_row :: "handle_row \<Rightarrow> bool" where
  "ready_row r \<longleftrightarrow> evictable_type (h_type r) \<and> h_payload r \<noteq> []
     \<and> jget (h_payload r) ''status'' = JStr ''ready'' \<and> truthy (jget (h_payload r) ''storage_key'')"

definition candidate_of :: "evict_cfg \<Rightarrow> (string \<times> rat) list \<Rightarrow> handle_row \<Rightarrow> int \<Rightarrow> candidate" where
  "candidate_of cfg costs r n =
     \<lparr>c_handle = h_handle r, c_ws = h_workspace_id r,
      c_key = jget (h_payload r) ''storage_key'', c_size = n,
      c_last_used = (case h_last_accessed_at r of Some a \<Rightarrow> a | None \<Rightarrow> h_updated_at r),
      c_cost = (case map_of costs (h_handle r) of
                  None \<Rightarrow> x_default_cost cfg
                | Some c \<Rightarrow> if c = 0 then x_default_cost cfg else c),
      c_pinned = truthy (jget (h_payload r) ''pinned''),
      c_speculative = truthy (jget (h_payload r) ''speculative'')\<rparr>"

fun build_candidates :: "evict_cfg \<Rightarrow> (string \<times> rat) list \<Rightarrow> handle_row list \<Rightarrow> candidate list op" where
  "build_candidates cfg costs [] = e_ret []"
| "build_candidates cfg costs (r # rows) =
     e_bind (size_of (h_payload r)) (\<lambda>size.
       e_bind (build_candidates cfg costs rows) (\<lambda>cs.
         e_ret (case size of None \<Rightarrow> cs | Some n \<Rightarrow> candidate_of cfg costs r n # cs)))"

definition candidates :: "evict_cfg \<Rightarrow> candidate list op" where
  "candidates cfg =
     e_bind (e_read (\<lambda>w. let rows = filter ready_row (w_handles w)
                         in Inr (rows, rebuild_costs (w_jobs w) (map h_handle rows))))
       (\<lambda>(rows, costs). build_candidates cfg costs rows)"

definition expire_job_of :: "string \<Rightarrow> unit op" where
  "expire_job_of handle =
     e_io (\<lambda>w. case get_job_by_obs_handle (w_jobs w) handle of
                 None \<Rightarrow> Inr ((), w)
               | Some j \<Rightarrow>
                   if j_state j = READY
                   then (case transition_state (w_now w) (j_id j) EXPIRED [] (w_jobs w) of
                           Inl e \<Rightarrow> Inl e
                         | Inr t \<Rightarrow> Inr ((), w\<lparr>w_jobs := t\<rparr>))
                   else Inr ((), w))"

definition evict_one :: "time \<Rightarrow> candidate \<Rightarrow> unit op" where
  "evict_one now c =
     e_bind (lift_sum (json_key (c_key c))) (\<lambda>key.
       e_seq (op_delete_blob key)
       (e_bind (op_update_handle (c_ws c) (c_handle c)
                  [(''status'', JStr ''expired''), (''storage_key'', JNull)]) (\<lambda>_.
       e_seq (op_record_event (c_ws c) (c_handle c) E_EXPIRED
                [(''size_bytes'', JInt (c_size c)), (''reason'', JStr ''cache_eviction_cap''),
                 (''rebuild_cost_seconds'', JFloat (c_cost c)), (''score'', JFloat (score now c)),
                 (''speculative'', JBool (c_speculative c))])
       (expire_job_of (c_handle c)))))"

type_synonym queues = "(string \<times> candidate list) list"

text \<open>\<open>queues.setdefault(ws, []).append(c)\<close>.\<close>

definition push_queue :: "candidate \<Rightarrow> queues \<Rightarrow> queues" where
  "push_queue c qs =
     AList.update (c_ws c) ((case map_of qs (c_ws c) of None \<Rightarrow> [] | Some q \<Rightarrow> q) @ [c]) qs"

definition build_queues :: "string option \<Rightarrow> candidate list \<Rightarrow> queues" where
  "build_queues protected_handle cs =
     fold push_queue (filter (\<lambda>c. \<not> (c_pinned c \<or> Some (c_handle c) = protected_handle)) cs) []"

definition sort_queues :: "time \<Rightarrow> queues \<Rightarrow> queues" where
  "sort_queues now qs = map (\<lambda>(ws, q). (ws, sort_key (eviction_key now) q)) qs"

text \<open>\<open>max(queues, key=lambda ws: held[ws] - fair_share)\<close>: the first key of the greatest value.\<close>

fun first_max :: "('a \<Rightarrow> rat) \<Rightarrow> 'a \<Rightarrow> 'a list \<Rightarrow> 'a" where
  "first_max f b [] = b"
| "first_max f b (x # xs) = first_max f (if f b < f x then x else b) xs"

definition furthest_over :: "rat \<Rightarrow> (string \<times> int) list \<Rightarrow> queues \<Rightarrow> string" where
  "furthest_over fair_share held qs =
     first_max (\<lambda>ws. of_int (held_of held ws) - fair_share) (fst (hd qs)) (map fst (tl qs))"

text \<open>\<open>queues[ws].pop()\<close>, and \<open>del queues[ws]\<close> when that empties it.\<close>

definition pop_queue :: "string \<Rightarrow> queues \<Rightarrow> (candidate \<times> queues) option" where
  "pop_queue ws qs =
     (case map_of qs ws of
        None \<Rightarrow> None
      | Some q \<Rightarrow>
          if q = [] then None
          else Some (last q, if butlast q = [] then AList.delete ws qs else AList.update ws (butlast q) qs))"

definition queued :: "queues \<Rightarrow> nat" where
  "queued qs = sum_list (map (\<lambda>(_, q). length q) qs)"

lemma queued_delete: "queued (AList.delete ws qs) \<le> queued qs"
  by (induction qs) (auto simp: queued_def AList.delete_eq)

lemma queued_update:
  "map_of qs ws = Some q \<Longrightarrow> length q' < length q \<Longrightarrow> queued (AList.update ws q' qs) < queued qs"
  by (induction qs) (auto simp: queued_def split: if_splits)

lemma queued_delete_less:
  "map_of qs ws = Some q \<Longrightarrow> q \<noteq> [] \<Longrightarrow> queued (AList.delete ws qs) < queued qs"
proof (induction qs)
  case (Cons p qs)
  show ?case
  proof (cases "fst p = ws")
    case True
    have "queued (AList.delete ws qs) \<le> queued qs" by (rule queued_delete)
    moreover have "0 < length q" using Cons.prems by simp
    ultimately show ?thesis
      using Cons.prems True by (cases p) (auto simp: queued_def intro: le_less_trans)
  next
    case False
    with Cons show ?thesis by (cases p) (auto simp: queued_def AList.delete_eq)
  qed
qed simp

lemma pop_queue_less: "pop_queue ws qs = Some (c, qs') \<Longrightarrow> queued qs' < queued qs"
  by (auto simp: pop_queue_def queued_update queued_delete_less split: option.splits if_splits)

text \<open>The loop of \<open>_evict_over_cap\<close>.\<close>

function evict_loop ::
  "int \<Rightarrow> rat \<Rightarrow> time \<Rightarrow> int \<Rightarrow> (string \<times> int) list \<Rightarrow> queues \<Rightarrow> unit op" where
  "evict_loop max_bytes fair_share now tot held qs =
     (if tot > max_bytes \<and> qs \<noteq> [] then
        (let ws = furthest_over fair_share held qs
         in case pop_queue ws qs of
              None \<Rightarrow> e_raise (IndexError ''pop from empty list'')
            | Some (c, qs') \<Rightarrow>
                e_seq (evict_one now c)
                  (evict_loop max_bytes fair_share now (tot - c_size c) (add_held ws (- c_size c) held) qs'))
      else e_ret ())"
  by pat_completeness auto
termination
  by (relation "measure (\<lambda>(_, _, _, _, _, qs). queued qs)") (auto dest: pop_queue_less)

declare evict_loop.simps [simp del]

definition ZeroDivisionError :: exn where
  "ZeroDivisionError = LibErr (OtherClass ''ZeroDivisionError'') []"

definition held_by :: "candidate list \<Rightarrow> (string \<times> int) list" where
  "held_by cs = fold (\<lambda>c. add_held (c_ws c) (c_size c)) cs []"

definition evict_over_cap :: "evict_cfg \<Rightarrow> string option \<Rightarrow> unit op" where
  "evict_over_cap cfg protected_handle =
     e_bind (candidates cfg) (\<lambda>cs.
       let tot = sum_list (map c_size cs);
           pinned_bytes = sum_list (map c_size (filter c_pinned cs));
           held = held_by cs;
           qs = build_queues protected_handle cs
       in if tot \<le> x_max_bytes cfg then e_ret ()
          else if pinned_bytes > x_max_bytes cfg then e_ret ()
          else e_bind (e_gets w_now) (\<lambda>now.
            if held = [] \<or> list_ex (\<lambda>(_, q). list_ex (\<lambda>c. c_cost c = 0) q) qs
            then e_raise ZeroDivisionError
            else evict_loop (x_max_bytes cfg) (of_int (x_max_bytes cfg) / of_nat (length held)) now
                   tot held (sort_queues now qs)))"

definition sweep :: "evict_cfg \<Rightarrow> string option \<Rightarrow> unit op" where
  "sweep cfg protected_handle =
     e_seq (reclaim_orphans_if_due cfg) (evict_over_cap cfg protected_handle)"

section \<open>The policy\<close>

text \<open>
  The loop's decisions alone: which candidates it evicts, in which order. They depend on nothing
  but the loop's own variables.
\<close>

function victims ::
  "int \<Rightarrow> rat \<Rightarrow> int \<Rightarrow> (string \<times> int) list \<Rightarrow> queues \<Rightarrow> candidate list" where
  "victims max_bytes fair_share tot held qs =
     (if tot > max_bytes \<and> qs \<noteq> [] then
        (case pop_queue (furthest_over fair_share held qs) qs of
           None \<Rightarrow> []
         | Some (c, qs') \<Rightarrow>
             c # victims max_bytes fair_share (tot - c_size c) (add_held (c_ws c) (- c_size c) held) qs')
      else [])"
  by pat_completeness auto
termination
  by (relation "measure (\<lambda>(_, _, _, _, qs). queued qs)") (auto dest: pop_queue_less)

declare victims.simps [simp del]

text \<open>
  What an eviction order must respect, over a pool of candidates and the bytes each workspace holds:
  it goes on while the cache is over the cap and the pool is not empty, and always takes a candidate
  of a workspace that holds the most among those with candidates left, and there one with the
  greatest key (speculative first, then by score).
\<close>

inductive eviction_policy ::
  "int \<Rightarrow> time \<Rightarrow> int \<Rightarrow> (string \<Rightarrow> int) \<Rightarrow> candidate set \<Rightarrow> candidate list \<Rightarrow> bool"
  for max_bytes :: int and now :: time where
  stop: "tot \<le> max_bytes \<or> pool = {} \<Longrightarrow> eviction_policy max_bytes now tot held pool []"
| take: "tot > max_bytes \<Longrightarrow> c \<in> pool \<Longrightarrow> (\<forall>d \<in> pool. held (c_ws d) \<le> held (c_ws c))
    \<Longrightarrow> (\<forall>d \<in> pool. c_ws d = c_ws c \<longrightarrow> eviction_key now d \<le> eviction_key now c)
    \<Longrightarrow> eviction_policy max_bytes now (tot - c_size c) (held(c_ws c := held (c_ws c) - c_size c)) (pool - {c}) cs
    \<Longrightarrow> eviction_policy max_bytes now tot held pool (c # cs)"

inductive_cases policy_ConsE: "eviction_policy m now tot held pool (c # cs)"
inductive_cases policy_NilE: "eviction_policy m now tot held pool []"

definition pool_of :: "queues \<Rightarrow> candidate set" where
  "pool_of qs = (\<Union>(_, q) \<in> set qs. set q)"

definition queues_ok :: "time \<Rightarrow> queues \<Rightarrow> bool" where
  "queues_ok now qs \<longleftrightarrow> distinct (map fst qs)
     \<and> (\<forall>(ws, q) \<in> set qs. q \<noteq> [] \<and> distinct q \<and> (\<forall>c \<in> set q. c_ws c = ws) \<and> sorted (map (eviction_key now) q))"

lemma pool_ofI: "(ws, q) \<in> set qs \<Longrightarrow> d \<in> set q \<Longrightarrow> d \<in> pool_of qs"
  by (force simp: pool_of_def)

lemma pool_ofE:
  assumes "d \<in> pool_of qs"
  obtains ws q where "(ws, q) \<in> set qs" "d \<in> set q"
  using assms by (auto simp: pool_of_def)

lemma first_max_greatest:
  "first_max f b xs \<in> set (b # xs) \<and> (\<forall>x \<in> set (b # xs). f x \<le> f (first_max f b xs))"
proof (induction xs arbitrary: b)
  case (Cons x xs)
  show ?case using Cons [of "if f b < f x then x else b"]
    by (cases "f b < f x") auto
qed simp

lemma furthest_over_greatest:
  assumes "qs \<noteq> []"
  shows "furthest_over fs held qs \<in> fst ` set qs
    \<and> (\<forall>ws \<in> fst ` set qs. held_of held ws \<le> held_of held (furthest_over fs held qs))"
proof -
  have s: "set (fst (hd qs) # map fst (tl qs)) = fst ` set qs" using assms by (cases qs) auto
  show ?thesis
    using first_max_greatest [of "\<lambda>ws. of_int (held_of held ws) - fs" "fst (hd qs)" "map fst (tl qs)"]
    unfolding furthest_over_def s by simp
qed

lemma queues_ok_map_of:
  "queues_ok now qs \<Longrightarrow> map_of qs ws = Some q \<longleftrightarrow> (ws, q) \<in> set qs"
  by (simp add: queues_ok_def)

lemma pool_of_ws:
  assumes "queues_ok now qs" and "map_of qs ws = Some q"
  shows "d \<in> pool_of qs \<and> c_ws d = ws \<longleftrightarrow> d \<in> set q"
proof
  assume d: "d \<in> pool_of qs \<and> c_ws d = ws"
  then obtain ws' q' where q': "(ws', q') \<in> set qs" "d \<in> set q'" by (auto simp: pool_of_def)
  then have "ws' = ws" using assms(1) d by (auto simp: queues_ok_def)
  then show "d \<in> set q" using q' assms by (auto simp: queues_ok_map_of [symmetric])
next
  assume "d \<in> set q"
  then show "d \<in> pool_of qs \<and> c_ws d = ws"
    using assms by (auto simp: pool_of_def queues_ok_def dest!: map_of_SomeD)
qed

text \<open>A workspace's queue without its last candidate, and gone with it when it was the only one.\<close>

definition shortened :: "string \<Rightarrow> candidate list \<Rightarrow> (string \<times> candidate list) list \<Rightarrow> (string \<times> candidate list) list" where
  "shortened ws xs qs = (if xs = [] then AList.delete ws qs else AList.update ws xs qs)"

lemma shortened_mem:
  assumes "distinct (map fst qs)"
  shows "distinct (map fst (shortened ws xs qs))"
    and "(v, p) \<in> set (shortened ws xs qs) \<longleftrightarrow> (if v = ws then xs \<noteq> [] \<and> p = xs else (v, p) \<in> set qs)"
proof -
  let ?qs' = "shortened ws xs qs"
  show dist': "distinct (map fst ?qs')" using assms by (simp add: shortened_def distinct_delete distinct_update)
  then have "(v, p) \<in> set ?qs' \<longleftrightarrow> map_of ?qs' v = Some p" by simp
  also have "\<dots> \<longleftrightarrow> (if v = ws then xs \<noteq> [] \<and> p = xs else map_of qs v = Some p)"
    by (auto simp: shortened_def delete_conv update_conv)
  also have "\<dots> \<longleftrightarrow> (if v = ws then xs \<noteq> [] \<and> p = xs else (v, p) \<in> set qs)" using assms by simp
  finally show "(v, p) \<in> set ?qs' \<longleftrightarrow> (if v = ws then xs \<noteq> [] \<and> p = xs else (v, p) \<in> set qs)" .
qed

lemma shortened_ok:
  assumes ok: "queues_ok now qs" and q: "map_of qs ws = Some (xs @ [c])"
  shows "queues_ok now (shortened ws xs qs)"
proof -
  have dist: "distinct (map fst qs)" using ok by (simp add: queues_ok_def)
  have "(ws, xs @ [c]) \<in> set qs" using q by (rule map_of_SomeD)
  then have qok: "distinct (xs @ [c])" "\<forall>d \<in> set (xs @ [c]). c_ws d = ws" "sorted (map (eviction_key now) (xs @ [c]))"
    using ok by (auto simp: queues_ok_def)
  have "p \<noteq> [] \<and> distinct p \<and> (\<forall>d \<in> set p. c_ws d = v) \<and> sorted (map (eviction_key now) p)"
    if vp: "(v, p) \<in> set (shortened ws xs qs)" for v p
  proof (cases "v = ws")
    case True
    then show ?thesis using vp qok by (auto simp: shortened_mem(2) [OF dist] sorted_append)
  next
    case False
    then have "(v, p) \<in> set qs" using vp by (simp add: shortened_mem(2) [OF dist])
    then show ?thesis using ok by (auto simp: queues_ok_def)
  qed
  with shortened_mem(1) [OF dist] show ?thesis by (auto simp: queues_ok_def)
qed

lemma shortened_pool:
  assumes ok: "queues_ok now qs" and q: "map_of qs ws = Some (xs @ [c])"
  shows "pool_of (shortened ws xs qs) = pool_of qs - {c}"
proof (rule set_eqI)
  fix d
  have dist: "distinct (map fst qs)" using ok by (simp add: queues_ok_def)
  note mem = shortened_mem(2) [OF dist, of _ _ ws xs]
  have "(ws, xs @ [c]) \<in> set qs" using q by (rule map_of_SomeD)
  then have qok: "distinct (xs @ [c])" "c_ws c = ws" using ok by (auto simp: queues_ok_def)
  show "d \<in> pool_of (shortened ws xs qs) \<longleftrightarrow> d \<in> pool_of qs - {c}"
  proof (cases "c_ws d = ws")
    case here: True
    have "d \<in> pool_of (shortened ws xs qs) \<longleftrightarrow> d \<in> set xs"
    proof (cases "xs = []")
      case True
      have "v \<noteq> ws" if "(v, p) \<in> set (shortened ws xs qs)" for v p
        using that mem [of v p] True by auto
      moreover have "v = ws" if "(v, p) \<in> set (shortened ws xs qs)" "d \<in> set p" for v p
        using that shortened_ok [OF assms] here by (auto simp: queues_ok_def)
      ultimately show ?thesis using True by (auto simp: pool_of_def)
    next
      case False
      then have "map_of (shortened ws xs qs) ws = Some xs" by (simp add: shortened_def update_conv)
      from pool_of_ws [OF shortened_ok [OF assms] this, of d] here show ?thesis by simp
    qed
    then show ?thesis using here pool_of_ws [OF ok q, of d] qok(1) by auto
  next
    case False
    then have "d \<noteq> c" using qok(2) by auto
    moreover have "v \<noteq> ws" if "(v, p) \<in> set (shortened ws xs qs) \<or> (v, p) \<in> set qs" "d \<in> set p" for v p
      using that ok shortened_ok [OF assms] False by (auto simp: queues_ok_def)
    ultimately show ?thesis unfolding pool_of_def using mem by fastforce
  qed
qed

lemma pop_queue_ok:
  assumes ok: "queues_ok now qs" and ws: "ws \<in> fst ` set qs"
  obtains c qs' where "pop_queue ws qs = Some (c, qs')" "c_ws c = ws" "c \<in> pool_of qs"
    "\<forall>d \<in> pool_of qs. c_ws d = ws \<longrightarrow> eviction_key now d \<le> eviction_key now c"
    "queues_ok now qs'" "pool_of qs' = pool_of qs - {c}"
proof -
  obtain q where q: "(ws, q) \<in> set qs" "map_of qs ws = Some q"
    using ws ok by (auto simp: queues_ok_map_of)
  then have qok: "q \<noteq> []" "sorted (map (eviction_key now) q)"
    using ok by (auto simp: queues_ok_def)
  then obtain xs c where xs: "q = xs @ [c]" by (metis rev_exhaust)
  have pop: "pop_queue ws qs = Some (c, shortened ws xs qs)"
    using q(2) by (simp add: pop_queue_def xs shortened_def)
  have "eviction_key now d \<le> eviction_key now c" if "d \<in> pool_of qs" "c_ws d = ws" for d
    using pool_of_ws [OF ok q(2), of d] that qok(2) by (auto simp: xs sorted_append)
  moreover have "c \<in> pool_of qs" "c_ws c = ws" using pool_of_ws [OF ok q(2), of c] by (auto simp: xs)
  moreover note shortened_ok [OF ok q(2) [unfolded xs]] shortened_pool [OF ok q(2) [unfolded xs]]
  ultimately show ?thesis using that pop by blast
qed

lemma pool_Nil_iff: "queues_ok now qs \<Longrightarrow> pool_of qs = {} \<longleftrightarrow> qs = []"
  by (cases qs) (auto simp: pool_of_def queues_ok_def neq_Nil_conv)

lemma held_of_add: "held_of (add_held ws n held) = (held_of held)(ws := held_of held ws + n)"
  by (rule ext) (auto simp: held_of_def add_held_def update_conv)

lemma victims_policy:
  "queues_ok now qs \<Longrightarrow> eviction_policy m now tot (held_of held) (pool_of qs) (victims m fs tot held qs)"
proof (induction m fs tot held qs rule: victims.induct)
  case (1 m fs tot held qs)
  show ?case
  proof (cases "tot > m \<and> qs \<noteq> []")
    case False
    then show ?thesis by (subst victims.simps) (auto intro: eviction_policy.stop simp: pool_of_def)
  next
    case True
    define ws where "ws = furthest_over fs held qs"
    have ws: "ws \<in> fst ` set qs" "\<forall>v \<in> fst ` set qs. held_of held v \<le> held_of held ws"
      using furthest_over_greatest [of qs fs held] True by (simp_all add: ws_def)
    obtain c qs' where c: "pop_queue ws qs = Some (c, qs')" "c_ws c = ws" "c \<in> pool_of qs"
      "\<forall>d \<in> pool_of qs. c_ws d = ws \<longrightarrow> eviction_key now d \<le> eviction_key now c"
      "queues_ok now qs'" "pool_of qs' = pool_of qs - {c}"
      by (rule pop_queue_ok [OF 1(2) ws(1)])
    have v: "victims m fs tot held qs = c # victims m fs (tot - c_size c) (add_held (c_ws c) (- c_size c) held) qs'"
      using True c(1) by (subst victims.simps) (simp add: ws_def)
    have "eviction_policy m now (tot - c_size c) (held_of (add_held (c_ws c) (- c_size c) held)) (pool_of qs')
        (victims m fs (tot - c_size c) (add_held (c_ws c) (- c_size c) held) qs')"
      using 1(1) True c(1,5) by (simp add: ws_def)
    moreover have "\<forall>d \<in> pool_of qs. held_of held (c_ws d) \<le> held_of held (c_ws c)"
      using ws(2) 1(2) c(2) by (fastforce simp: pool_of_def queues_ok_def)
    ultimately show ?thesis
      unfolding v using True c by (intro eviction_policy.take) (auto simp: held_of_add)
  qed
qed

text \<open>The loop evicts the victims, in order, and nothing else.\<close>

lemma evict_loop_victims:
  "queues_ok now qs \<Longrightarrow>
   evict_loop m fs now tot held qs = e_each (evict_one now) (victims m fs tot held qs)"
proof (induction m fs tot held qs rule: victims.induct)
  case (1 m fs tot held qs)
  show ?case
  proof (cases "tot > m \<and> qs \<noteq> []")
    case False
    then have "victims m fs tot held qs = []" "evict_loop m fs now tot held qs = e_ret ()"
      by (subst victims.simps, simp only: False if_False) (subst evict_loop.simps, simp only: False if_False)
    then show ?thesis by simp
  next
    case True
    define ws where "ws = furthest_over fs held qs"
    have ws: "ws \<in> fst ` set qs" using furthest_over_greatest [of qs fs held] True by (simp add: ws_def)
    obtain c qs' where c: "pop_queue ws qs = Some (c, qs')" "c_ws c = ws" "queues_ok now qs'"
      by (rule pop_queue_ok [OF 1(2) ws])
    have "evict_loop m fs now (tot - c_size c) (add_held (c_ws c) (- c_size c) held) qs'
        = e_each (evict_one now) (victims m fs (tot - c_size c) (add_held (c_ws c) (- c_size c) held) qs')"
      using 1(1) True c(1,3) by (simp add: ws_def)
    then show ?thesis
      using True c(1,2)
      by (simp add: victims.simps [of m fs tot held qs] evict_loop.simps [of m fs now tot held qs]
          Let_def ws_def)
  qed
qed

end
