(* ===== verification/Prefetch.thy ===== *)
theory Prefetch
  imports Planning Eviction
begin

text \<open>
  Adjacent-window prefetch (\<open>jobs/prefetch.py\<close>): the prediction of the next window, the gates in the
  order the code tries them, the fresh planning pass and the enqueueing of a speculative job. The
  planning pass is an argument, as it is in the code; \<open>plan_window\<close> is its default, over the
  capabilities fetch of \<open>Cmr\<close> and the discovery of \<open>Planning\<close>. Logging is left out.
\<close>

section \<open>Data\<close>

datatype verdict =
    ISSUED | DISABLED | CHAINED | NO_PREDICTION | REAL_WORK_QUEUED | OVER_BUDGET | OVER_FAIR_SHARE
  | NRT_WINDOW | TOO_LARGE | UNKNOWN_SIZE | ALREADY_HELD | RESTRICTED_NO_IDENTITY | NO_DATA_FOR_WINDOW

record window_plan =
  wp_spec :: "request_spec option"
  wp_access_restricted :: "bool option"
  wp_capabilities_version :: string

record prefetch_decision =
  pd_reason :: verdict
  pd_job_id :: "string option"
  pd_job_handle :: "string option"
  pd_obs_handle :: "string option"
  pd_time_range :: json

definition refused :: "verdict \<Rightarrow> prefetch_decision" where
  "refused v = \<lparr>pd_reason = v, pd_job_id = None, pd_job_handle = None, pd_obs_handle = None, pd_time_range = JNull\<rparr>"

definition issued :: "prefetch_decision \<Rightarrow> bool" where
  "issued d \<longleftrightarrow> pd_reason d = ISSUED"

record prefetch_env =
  px_enabled :: bool
  px_max_bytes :: int
  px_budget :: nat
  px_cache_max_bytes :: int
  px_min_window_age_hours :: int
  px_platform :: platform
  px_credential_key :: string
  px_edl_username :: string
  px_earthdata_token :: string
  px_window_plan :: "request_spec \<Rightarrow> string option \<Rightarrow> window_plan op"

section \<open>The prediction\<close>

definition predict_next :: "request_spec \<Rightarrow> exn + request_spec option" where
  "predict_next spec =
     (if rs_needs_point_sample spec \<or> \<not> truthy (rs_time_range spec) then Inr None
      else case range_of_json (rs_time_range spec) of
             Inl (ValueError m) \<Rightarrow> Inr None
           | Inl e \<Rightarrow> Inl e
           | Inr None \<Rightarrow> Inr None
           | Inr (Some window) \<Rightarrow>
               s_bind (dt_minus (tr_end window) (tr_start window)) (\<lambda>span.
                 if span \<le> 0 then Inr None
                 else s_bind (dt_plus (tr_end window) span) (\<lambda>next_end.
                   Inr (Some (for_time_range spec (to_cmr \<lparr>tr_start = tr_end window, tr_end = next_end\<rparr>))))))"

definition window_is_settled :: "prefetch_env \<Rightarrow> time \<Rightarrow> request_spec \<Rightarrow> exn + bool" where
  "window_is_settled px now predicted =
     (if \<not> truthy (rs_time_range predicted) then Inr False
      else case range_of_json (rs_time_range predicted) of
             Inl (ValueError m) \<Rightarrow> Inr False
           | Inl e \<Rightarrow> Inl e
           | Inr None \<Rightarrow> Inr False
           | Inr (Some window) \<Rightarrow>
               Inr (instant (tr_end window) \<le> now - px_min_window_age_hours px * 3600000000))"

section \<open>The planning pass\<close>

definition with_opendap :: "request_spec \<Rightarrow> opendap_plan \<Rightarrow> request_spec" where
  "with_opendap s p =
     s\<lparr>rs_opendap_urls := od_urls p, rs_coord_lat := od_coord_lat p, rs_coord_lon := od_coord_lon p,
       rs_coord_time := od_coord_time p, rs_lat_axis := od_lat_axis p, rs_lon_axis := od_lon_axis p,
       rs_var_dims := od_var_dims p, rs_var_coords := od_var_coords p,
       rs_variable_expansions := od_variable_expansions p, rs_variables := od_variables p\<rparr>"

definition plan_window ::
  "(string \<Rightarrow> element option) \<Rightarrow> (string option \<Rightarrow> cmr_provider) \<Rightarrow> request_spec \<Rightarrow> string option \<Rightarrow> window_plan op" where
  "plan_window fromstring cmr predicted edl_token =
     e_bind (collection_capabilities (cmr edl_token) (rs_concept_id predicted)) (\<lambda>caps.
       let answer = (\<lambda>spec. \<lparr>wp_spec = spec, wp_access_restricted = cc_access_restricted caps,
                             wp_capabilities_version = cc_capabilities_version caps\<rparr>)
       in case rs_aoi_bbox predicted of
            None \<Rightarrow> e_ret (answer (Some predicted))
          | Some bbox \<Rightarrow>
              if cc_output_shape caps \<noteq> ''grid'' \<and> cc_output_shape caps \<noteq> ''swath''
              then e_ret (answer (Some predicted))
              else e_bind (plan_subset fromstring (cmr edl_token) caps (rs_concept_id predicted) (Some bbox)
                             (rs_time_range predicted) (rs_variables predicted)) (\<lambda>plan.
                if od_urls plan = [] then e_ret (answer None)
                else e_ret (answer (Some (with_opendap predicted plan)))))"

text \<open>The planning pass writes to no table, as the argument of the prefetcher must not.\<close>

lemma tables_plan_window:
  "(\<And>t. cmr_aside (cmr t)) \<Longrightarrow> keeps same_tables (plan_window fromstring cmr predicted token)"
  unfolding plan_window_def Let_def by (intro keeps_tables tables_capabilities tables_plan_subset)

section \<open>Enqueueing\<close>

definition finalize_spec ::
  "platform \<Rightarrow> request_spec \<Rightarrow> string \<Rightarrow> string \<Rightarrow> string \<Rightarrow> string \<Rightarrow> exn + request_spec" where
  "finalize_spec pf predicted ws job_h obs_h capabilities_version =
     s_bind (compute_cache_key (pf_sha pf) (pf_show pf) (rs_short_name predicted) (rs_output_format predicted)
               (rs_aoi_bbox predicted) (rs_time_range predicted) (rs_variables predicted)
               (rs_service_name predicted) (JStr capabilities_version))
       (\<lambda>key. Inr (predicted\<lparr>rs_workspace_id := JStr ws, rs_job_handle := JStr job_h,
                             rs_obs_handle := JStr obs_h, rs_cache_key := JStr key\<rparr>))"

definition origin_dataset_handle :: "string \<Rightarrow> json \<Rightarrow> json op" where
  "origin_dataset_handle ws origin =
     (if \<not> truthy origin then e_ret JNull
      else e_bind (op_text origin) (\<lambda>h.
        e_catch (e_bind (op_get_handle ws h) (\<lambda>row. e_ret (jget (h_payload row) ''dataset_handle'')))
          (\<lambda>e. case e of HandleNotFoundError _ \<Rightarrow> e_ret JNull | CrossWorkspaceError _ \<Rightarrow> e_ret JNull | _ \<Rightarrow> e_raise e)))"

definition enqueue_prefetch ::
  "prefetch_env \<Rightarrow> request_spec \<Rightarrow> string \<Rightarrow> string \<Rightarrow> json \<Rightarrow> string \<Rightarrow> string option \<Rightarrow> int
   \<Rightarrow> prefetch_decision op" where
  "enqueue_prefetch px predicted signature capabilities_version origin ws cred size_bytes =
     e_bind (op_put_handle_unique_signature ws OBS
               [(''status'', JStr ''pending''), (''signature'', JStr signature), (''speculative'', JBool True)])
       (\<lambda>(row, created).
     if \<not> created then e_ret (refused ALREADY_HELD)
     else
     e_bind (origin_dataset_handle ws origin) (\<lambda>dataset_handle.
     e_bind (op_put_handle ws JOB [(''obs_handle'', JStr (h_handle row)), (''dataset_handle'', dataset_handle)])
       (\<lambda>job_handle.
     e_bind (lift_sum (finalize_spec (px_platform px) predicted ws job_handle (h_handle row) capabilities_version))
       (\<lambda>final.
     e_bind draw_token (\<lambda>job_id.
     e_bind (op_text (rs_provider predicted)) (\<lambda>provider.
     e_seq (op_create_job job_id job_handle (Some (h_handle row)) provider (to_jsonb final) cred True)
     (e_seq (if truthy dataset_handle
             then e_bind (op_text dataset_handle) (\<lambda>d.
               op_record_edge ws (h_handle row) d (Some (to_jsonb final)) None)
             else e_ret ())
     (e_seq (op_record_event ws (h_handle row) E_PREFETCHED
               [(''predicted_from'', origin), (''time_range'', rs_time_range predicted),
                (''estimated_bytes'', JInt size_bytes)])
     (e_seq (op_enqueue ''submit_job'' job_id None None)
       (e_ret \<lparr>pd_reason = ISSUED, pd_job_id = Some job_id, pd_job_handle = Some job_handle,
               pd_obs_handle = Some (h_handle row), pd_time_range = rs_time_range predicted\<rparr>))))))))))"

section \<open>The decision\<close>

definition inherited_token :: "prefetch_env \<Rightarrow> string option \<Rightarrow> string option op" where
  "inherited_token px cred =
     (case cred of
        None \<Rightarrow> e_ret None
      | Some blob \<Rightarrow>
          if blob = [] then e_ret None
          else e_catch (e_bind (op_decrypt (px_platform px) (px_credential_key px) blob) (\<lambda>t. e_ret (Some t)))
                 (\<lambda>e. if is_Exception e then e_ret None else e_raise e))"

text \<open>The identity dimension of the signature: \<open>None\<close> for an unrestricted collection.\<close>

definition scope_for :: "prefetch_env \<Rightarrow> bool option \<Rightarrow> string option \<Rightarrow> json op" where
  "scope_for px restricted edl_token =
     (if restricted = Some False then e_ret JNull
      else
        e_bind (case edl_token of
                  None \<Rightarrow> e_ret None
                | Some t \<Rightarrow> if t = [] then e_ret None else op_parse_token (px_platform px) (Some t)) (\<lambda>i.
          case i of
            Some j \<Rightarrow> e_ret (scope_key (px_platform px) j)
          | None \<Rightarrow> op_service_scope (px_platform px) (px_edl_username px) (px_earthdata_token px)))"

text \<open>The part after the gates that need no planning pass.\<close>

definition prefetch_planned ::
  "prefetch_env \<Rightarrow> request_spec \<Rightarrow> request_spec \<Rightarrow> string \<Rightarrow> int \<Rightarrow> string option \<Rightarrow> prefetch_decision op" where
  "prefetch_planned px spec predicted ws size_bytes cred =
     e_bind (inherited_token px cred) (\<lambda>edl_token.
     e_bind (px_window_plan px predicted edl_token) (\<lambda>plan.
       case wp_spec plan of
         None \<Rightarrow> e_ret (refused NO_DATA_FOR_WINDOW)
       | Some planned \<Rightarrow>
           e_bind (if wp_access_restricted plan = Some True then e_ret (Some True)
                   else e_bind (op_text (rs_concept_id spec)) (\<lambda>cid.
                     e_bind (e_read (\<lambda>w. Inr (collection_restriction (w_access w) cid))) (\<lambda>flag.
                       e_ret (if flag = Some True then Some True else wp_access_restricted plan))))
             (\<lambda>restricted.
           if restricted = Some True \<and> edl_token = None then e_ret (refused RESTRICTED_NO_IDENTITY)
           else
           e_bind (scope_for px restricted edl_token) (\<lambda>scope.
           e_bind (lift_sum (compute_request_signature (pf_sha (px_platform px)) (pf_show (px_platform px))
                     (rs_concept_id spec) (rs_aoi_bbox predicted) (jstr (rs_time_range predicted))
                     (rs_variables planned) (rs_output_format predicted)
                     (if scope = JNull then None else Some (py_str (pf_show (px_platform px)) scope))))
             (\<lambda>signature.
           e_bind (op_find_handle ws OBS ''signature'' signature) (\<lambda>existing.
             if existing \<noteq> None then e_ret (refused ALREADY_HELD)
             else enqueue_prefetch px planned signature (wp_capabilities_version plan) (rs_job_handle spec) ws
                    cred size_bytes))))))"

definition maybe_prefetch ::
  "prefetch_env \<Rightarrow> request_spec \<Rightarrow> bool \<Rightarrow> int option \<Rightarrow> string option \<Rightarrow> prefetch_decision op" where
  "maybe_prefetch px spec speculative_origin size_bytes cred =
     (if \<not> px_enabled px then e_ret (refused DISABLED)
      else if speculative_origin then e_ret (refused CHAINED)
      else
        e_bind (lift_sum (predict_next spec)) (\<lambda>p.
        case p of
          None \<Rightarrow> e_ret (refused NO_PREDICTION)
        | Some predicted \<Rightarrow>
            if \<not> truthy (rs_workspace_id spec) \<or> \<not> truthy (rs_concept_id spec) then e_ret (refused NO_PREDICTION)
            else
            e_bind (e_read (\<lambda>w. Inr (user_work_in_flight (w_jobs w)))) (\<lambda>busy.
            if busy then e_ret (refused REAL_WORK_QUEUED)
            else case size_bytes of
                   None \<Rightarrow> e_ret (refused UNKNOWN_SIZE)
                 | Some n \<Rightarrow>
            if n > px_max_bytes px then e_ret (refused TOO_LARGE)
            else
            e_bind (op_text (rs_workspace_id spec)) (\<lambda>ws.
            e_bind (e_gets w_now) (\<lambda>now.
            e_bind (e_read (\<lambda>w. Inr (speculative_jobs_since (w_jobs w) ws (now - 86400000000)))) (\<lambda>issued_today.
            if issued_today \<ge> px_budget px then e_ret (refused OVER_BUDGET)
            else
            e_bind (e_read (\<lambda>w. Inr (under_fair_share (w_handles w) ws (px_cache_max_bytes px) n))) (\<lambda>fair.
            if \<not> fair then e_ret (refused OVER_FAIR_SHARE)
            else
            e_bind (e_gets w_now) (\<lambda>now2.
            e_bind (lift_sum (window_is_settled px now2 predicted)) (\<lambda>settled.
            if \<not> settled then e_ret (refused NRT_WINDOW)
            else prefetch_planned px spec predicted ws n cred)))))))))"

section \<open>The prediction is the adjacent window\<close>

lemma fromisoformat_valid: "fromisoformat s = Inr d \<Longrightarrow> valid_dt d"
  unfolding fromisoformat_def Let_def
  by (clarsimp split: if_split_asm option.split_asm prod.split_asm)

lemma from_cmr_valid:
  assumes "from_cmr s = Inr r"
  shows "valid_dt (tr_start r) \<and> valid_dt (tr_end r)"
  using assms
  by (auto simp: from_cmr_def parse_iso_def split: prod.splits if_splits sum.splits dest: fromisoformat_valid)

lemma instant_as_utc [simp]: "instant (as_utc d) = instant d"
  by (simp add: instant_def as_utc_def clock_def split: option.splits)

lemma dt_minus_instant: "dt_minus a b = Inr n \<Longrightarrow> n = instant a - instant b"
  by (auto simp: dt_minus_def instant_def split: option.splits)

lemma dt_plus_instant:
  assumes "dt_plus d n = Inr d'" and "valid_dt d"
  shows "valid_dt d' \<and> instant d' = instant d + n"
  using dt_plus_exact [OF assms(1)] assms(2) by (simp add: valid_dt_def instant_def)

text \<open>
  A prediction is the adjacent window of the same length and nothing else: it starts at the very
  instant the observed window ends, lasts exactly as long, and is the same request otherwise, without
  the old window's granules, handles and key; a point sample, a request without a range and an empty
  window predict nothing.
\<close>

theorem predict_next_adjacent:
  assumes "predict_next spec = Inr (Some p)"
  shows "\<exists>t r r'. p = for_time_range spec t \<and> rs_time_range p = JStr t
    \<and> range_of_json (rs_time_range spec) = Inr (Some r) \<and> from_cmr t = Inr r'
    \<and> instant (tr_start r') = instant (tr_end r)
    \<and> instant (tr_end r') - instant (tr_start r') = instant (tr_end r) - instant (tr_start r)
    \<and> instant (tr_start r) < instant (tr_end r)
    \<and> \<not> rs_needs_point_sample spec \<and> rs_opendap_urls p = []"
proof -
  have ns: "\<not> rs_needs_point_sample spec" "truthy (rs_time_range spec)"
    using assms by (auto simp: predict_next_def split: if_splits)
  obtain r where r: "range_of_json (rs_time_range spec) = Inr (Some r)"
    using assms ns by (auto simp: predict_next_def split: sum.splits option.splits exn.splits)
  then obtain span e where span: "dt_minus (tr_end r) (tr_start r) = Inr span" "0 < span"
    "dt_plus (tr_end r) span = Inr e"
    "p = for_time_range spec (to_cmr \<lparr>tr_start = tr_end r, tr_end = e\<rparr>)"
    using assms ns by (auto simp: predict_next_def sum_simps split: if_splits)
  have "\<exists>s. from_cmr s = Inr r"
    using r ns by (auto simp: range_of_json_def sum_simps split: json.splits)
  then have v: "valid_dt (tr_start r)" "valid_dt (tr_end r)" using from_cmr_valid by blast+
  have e: "valid_dt e" "instant e = instant (tr_end r) + span" using dt_plus_instant [OF span(3) v(2)] by auto
  let ?t = "to_cmr \<lparr>tr_start = tr_end r, tr_end = e\<rparr>"
  have "from_cmr ?t = Inr \<lparr>tr_start = as_utc (tr_end r), tr_end = as_utc e\<rparr>"
    unfolding to_cmr_def from_cmr_def
    using v e partition_split [OF iso_z_no_slash [of "tr_end r"]] by (simp add: iso_z_not_Nil parse_iso_z)
  then show ?thesis
    using r span ns e dt_minus_instant [OF span(1)]
    by (intro exI [of _ ?t] exI [of _ r] exI [of _ "\<lparr>tr_start = as_utc (tr_end r), tr_end = as_utc e\<rparr>"])
      (simp add: for_time_range_def)
qed

definition sample_window :: request_spec where
  "sample_window = sample_spec\<lparr>rs_time_range := JStr ''2024-02-28/2024-02-29''\<rparr>"

lemma sample_dates:
  "parse_iso ''2024-02-28'' = Inr \<lparr>d_year = 2024, d_month = 2, d_day = 28, d_hour = 0, d_minute = 0, d_second = 0,
     d_micro = 0, d_off = None\<rparr>"
  "parse_iso ''2024-02-29'' = Inr \<lparr>d_year = 2024, d_month = 2, d_day = 29, d_hour = 0, d_minute = 0, d_second = 0,
     d_micro = 0, d_off = None\<rparr>"
proof -
  have l: "date_length ''2024-02-28'' = 10" "date_length ''2024-02-29'' = 10" by code_simp+
  have d: "iso_date ''2024-02-28'' = Some (2024, 2, 28)" "iso_date ''2024-02-29'' = Some (2024, 2, 29)" by code_simp+
  have v: "valid_dt \<lparr>d_year = 2024, d_month = 2, d_day = x, d_hour = 0, d_minute = 0, d_second = 0, d_micro = 0, d_off = None\<rparr>"
    if "x = 28 \<or> x = 29" for x
    using that by (auto simp: valid_dt_def valid_date_def days_in_month_def is_leap_def valid_off_def)
  show "parse_iso ''2024-02-28'' = Inr \<lparr>d_year = 2024, d_month = 2, d_day = 28, d_hour = 0, d_minute = 0, d_second = 0,
     d_micro = 0, d_off = None\<rparr>"
    by (simp add: parse_iso_def replace_no_match fromisoformat_def l d v)
  show "parse_iso ''2024-02-29'' = Inr \<lparr>d_year = 2024, d_month = 2, d_day = 29, d_hour = 0, d_minute = 0, d_second = 0,
     d_micro = 0, d_off = None\<rparr>"
    by (simp add: parse_iso_def replace_no_match fromisoformat_def l d v)
qed

lemma sample_window_predicts: "\<exists>p. predict_next sample_window = Inr (Some p)"
proof -
  let ?a = "\<lparr>d_year = 2024, d_month = 2, d_day = 28, d_hour = 0, d_minute = 0, d_second = 0, d_micro = 0, d_off = None\<rparr>"
  let ?b = "\<lparr>d_year = 2024, d_month = 2, d_day = 29, d_hour = 0, d_minute = 0, d_second = 0, d_micro = 0, d_off = None\<rparr>"
  have r: "from_cmr ''2024-02-28/2024-02-29'' = Inr \<lparr>tr_start = ?a, tr_end = ?b\<rparr>"
    by (simp add: from_cmr_def py_partition_def sample_dates)
  have o: "ymd2ord 2024 2 28 = 738944" "ymd2ord 2024 2 29 = 738945" by code_simp+
  have m: "dt_minus ?b ?a = Inr 86400000000" by (simp add: dt_minus_def clock_def o)
  obtain y mo dy where n: "ord2ymd 738946 = (y, mo, dy)" by (metis prod_cases3)
  then have "\<exists>e. dt_plus ?b 86400000000 = Inr e"
    by (simp add: dt_plus_def clock_def o Let_def day_micros_def max_ordinal_def)
  then show ?thesis
    by (auto simp: predict_next_def sample_window_def sample_spec_def range_of_json_def r m)
qed

lemma predict_next_adjacent_witness:
  "(case predict_next sample_window of
      Inr (Some p) \<Rightarrow> rs_opendap_urls p = [] \<and> rs_opendap_urls sample_window \<noteq> []
    | _ \<Rightarrow> False)"
proof -
  obtain p where p: "predict_next sample_window = Inr (Some p)" using sample_window_predicts by blast
  have "rs_opendap_urls p = []" using predict_next_adjacent [OF p] by blast
  then show ?thesis by (simp add: p) (simp add: sample_window_def sample_spec_def)
qed

section \<open>The gates\<close>

text \<open>What must hold of the settings, the request and the tables before anything is planned or written.\<close>

definition gates_open :: "prefetch_env \<Rightarrow> request_spec \<Rightarrow> bool \<Rightarrow> int option \<Rightarrow> world \<Rightarrow> bool" where
  "gates_open px spec speculative_origin size_bytes w \<longleftrightarrow>
     px_enabled px \<and> \<not> speculative_origin \<and> \<not> user_work_in_flight (w_jobs w)
     \<and> (case (predict_next spec, size_bytes, rs_workspace_id spec) of
          (Inr (Some p), Some n, JStr ws) \<Rightarrow>
            n \<le> px_max_bytes px \<and> under_fair_share (w_handles w) ws (px_cache_max_bytes px) n
            \<and> (\<exists>now \<ge> w_now w. speculative_jobs_since (w_jobs w) ws (now - 86400000000) < px_budget px)
            \<and> (\<exists>now \<ge> w_now w. window_is_settled px now p = Inr True)
        | _ \<Rightarrow> False)"

lemma not_issued: "v \<noteq> ISSUED \<Longrightarrow> yields P (e_ret (refused v)) (\<lambda>d. \<not> issued d)"
  by (rule yields_ret) (simp add: issued_def refused_def)

lemma closed_gates_refuse:
  assumes closed: "\<not> gates_open px spec so bytes w0"
  shows "yields (same_tables w0) (maybe_prefetch px spec so bytes cred) (\<lambda>d. \<not> issued d)"
  unfolding maybe_prefetch_def
proof (intro yields_steps not_issued; (simp; fail)?)
  fix a predicted busy w n s wa today wb fair wc wd settled
  assume facts: "\<not> \<not> px_enabled px" "\<not> so" "predict_next spec = Inr a" "a = Some predicted"
    "same_tables w0 w" "Inr (user_work_in_flight (w_jobs w)) = (Inr busy :: exn + bool)" "\<not> busy"
    "bytes = Some n" "\<not> px_max_bytes px < n" "rs_workspace_id spec = JStr s"
    "same_tables w0 wa" "same_tables w0 wb"
    "Inr (speculative_jobs_since (w_jobs wb) s (w_now wa - 86400000000)) = (Inr today :: exn + nat)"
    "\<not> px_budget px \<le> today" "same_tables w0 wc"
    "Inr (under_fair_share (w_handles wc) s (px_cache_max_bytes px) n) = (Inr fair :: exn + bool)" "\<not> \<not> fair"
    "same_tables w0 wd" "window_is_settled px (w_now wd) predicted = Inr settled" "\<not> \<not> settled"
  then have "gates_open px spec so bytes w0"
    by (auto simp: gates_open_def same_tables_def not_less not_le)
  with closed show "yields (same_tables w0) (prefetch_planned px spec predicted s n cred) (\<lambda>d. \<not> issued d)"
    by simp
qed

section \<open>An issued prefetch\<close>

text \<open>What an issued decision leaves behind: a pending speculative job under the same credential.\<close>

definition seeded :: "prefetch_decision \<Rightarrow> string \<Rightarrow> string option \<Rightarrow> world \<Rightarrow> bool" where
  "seeded d ws cred w \<longleftrightarrow> (\<exists>i j. pd_job_id d = Some i \<and> get_job (w_jobs w) i = Some j
     \<and> j_state j = PENDING \<and> j_speculative j \<and> j_credential_encrypted j = cred
     \<and> jget (j_request_spec j) ''workspace_id'' = JStr ws
     \<and> list_ex (\<lambda>q. q_name q = ''submit_job'' \<and> q_job q = i) (w_queue w))"

definition pending_prefetch :: "string \<Rightarrow> string \<Rightarrow> string option \<Rightarrow> world \<Rightarrow> bool" where
  "pending_prefetch i ws cred w \<longleftrightarrow> (\<exists>j. get_job (w_jobs w) i = Some j \<and> j_state j = PENDING \<and> j_speculative j
     \<and> j_credential_encrypted j = cred \<and> jget (j_request_spec j) ''workspace_id'' = JStr ws)"

lemma put_unique_not_created:
  "put_handle_unique_signature now tok ws ht p t = Inr ((r, False), t') \<Longrightarrow> t' = t"
  by (auto simp: put_handle_unique_signature_def Let_def split: option.splits sum.splits)

lemma wp_put_unique:
  assumes "same_tables w0 w"
  shows "wp_partial (op_put_handle_unique_signature ws ht p) (\<lambda>rc w'. \<not> snd rc \<longrightarrow> same_tables w0 w') w"
  unfolding op_put_handle_unique_signature_def draw_token_def wp_simps
  apply (rule wp_partial_io)
  using assms
  by (auto split: sum.splits dest!: put_unique_not_created simp: same_tables_def dest: stepped_fields)

lemma finalize_spec_workspace:
  "finalize_spec pf p ws jh oh v = Inr s \<Longrightarrow> jget (to_jsonb s) ''workspace_id'' = JStr ws"
  by (auto simp: finalize_spec_def to_jsonb_def jget_def sum_simps)

lemma create_job_pending:
  "create_job now i h obs pr (to_jsonb s) cred True t = Inr t' \<Longrightarrow> jget (to_jsonb s) ''workspace_id'' = JStr ws \<Longrightarrow>
   \<exists>j. get_job t' i = Some j \<and> j_state j = PENDING \<and> j_speculative j
     \<and> j_credential_encrypted j = cred \<and> jget (j_request_spec j) ''workspace_id'' = JStr ws"
  using row_get_None_iff [of j_id t i]
  by (auto simp: create_job_def get_job_def list_table.get_ins list_ex_iff split: if_splits option.splits)

lemma wp_create_prefetch:
  assumes "jget (to_jsonb s) ''workspace_id'' = JStr ws"
  shows "wp_partial (op_create_job i h obs p (to_jsonb s) cred True) (\<lambda>_. pending_prefetch i ws cred) w"
  unfolding op_create_job_def pending_prefetch_def
  by (rule wp_partial_io)
    (auto split: sum.splits intro: create_job_pending [OF _ assms] simp: create_job_pending [OF _ assms])

lemma wp_pending:
  assumes "pending_prefetch i ws cred w"
  shows "wp_partial (op_record_edge a b c d e) (\<lambda>_. pending_prefetch i ws cred) w"
    and "wp_partial (op_record_event a b ty dt) (\<lambda>_. pending_prefetch i ws cred) w"
    and "wp_partial (op_enqueue ''submit_job'' i None None) (\<lambda>_ w'. pending_prefetch i ws cred w'
       \<and> list_ex (\<lambda>q. q_name q = ''submit_job'' \<and> q_job q = i) (w_queue w')) w"
  unfolding op_record_edge_def op_record_event_def op_enqueue_def
  using assms
  by (auto simp: pending_prefetch_def stepped_fields split: sum.splits intro!: wp_partial_io)

lemma wp_enqueue_prefetch:
  assumes "same_tables w0 w"
  shows "wp_partial (enqueue_prefetch px predicted sig v origin ws cred n)
    (\<lambda>d w'. if issued d then seeded d ws cred w' else same_tables w0 w') w"
  unfolding enqueue_prefetch_def
  apply (rule wp_bind_post [OF wp_put_unique [OF assms]])
  apply (clarsimp simp: wp_ret issued_def refused_def)
  apply (rule wp_bind_any, rule wp_bind_any, rule wp_bind_lift, rule wp_bind_any, rule wp_bind_any)
  apply (rule wp_seq_post [OF wp_create_prefetch [OF finalize_spec_workspace]], assumption)
  apply (rule wp_seq_post, rule wp_if, rule wp_bind_text, erule wp_pending, simp add: wp_ret)
  apply (rule wp_seq_post, erule wp_pending)
  unfolding wp_seq
  apply (rule wp_mono, erule wp_pending)
   apply (simp_all add: wp_ret seeded_def pending_prefetch_def)
  done

lemma tables_inherited: "keeps same_tables (inherited_token px cred)"
  unfolding inherited_token_def by (intro keeps_tables)

lemma tables_scope: "keeps same_tables (scope_for px r t)"
  unfolding scope_for_def by (intro keeps_tables)

text \<open>What a decision costs: a job if it was issued, nothing if it was refused.\<close>

definition prefetch_cost :: "request_spec \<Rightarrow> string option \<Rightarrow> world \<Rightarrow> prefetch_decision \<Rightarrow> world \<Rightarrow> bool" where
  "prefetch_cost spec cred w d w' \<longleftrightarrow>
     (if issued d then \<exists>ws. rs_workspace_id spec = JStr ws \<and> seeded d ws cred w' else same_tables w w')"

lemma cost_refused: "v \<noteq> ISSUED \<Longrightarrow> same_tables w0 w \<Longrightarrow> wp_partial (e_ret (refused v)) (prefetch_cost spec cred w0) w"
  by (simp add: wp_ret prefetch_cost_def issued_def refused_def)

lemma wp_tables_if:
  "(c \<Longrightarrow> wp_partial m Q w) \<Longrightarrow> (\<not> c \<Longrightarrow> wp_partial n Q w) \<Longrightarrow> wp_partial (if c then m else n) Q w"
  by simp

lemma wp_prefetch_planned:
  assumes plan: "\<And>s t. keeps same_tables (px_window_plan px s t)"
    and w: "same_tables w0 w" and ws: "rs_workspace_id spec = JStr ws"
  shows "wp_partial (prefetch_planned px spec predicted ws n cred) (prefetch_cost spec cred w0) w"
  unfolding prefetch_planned_def
  apply (rule wp_bind_tables [OF tables_inherited w])
  apply (rule wp_bind_tables [OF plan], assumption)
  apply (rule wp_option)
   apply (rule cost_refused; simp)
  apply (rule wp_bind_tables, intro keeps_tables, assumption)
  apply (rule wp_tables_if)
   apply (rule cost_refused; simp)
  apply (rule wp_bind_tables [OF tables_scope], assumption)
  apply (rule wp_bind_lift)
  apply (rule wp_bind_tables, intro keeps_tables, assumption)
  apply (rule wp_tables_if)
   apply (rule cost_refused; simp)
  apply (rule wp_mono, erule wp_enqueue_prefetch)
   apply (simp_all add: prefetch_cost_def ws split: if_splits)
  done

lemma wp_maybe_prefetch:
  assumes plan: "\<And>s t. keeps same_tables (px_window_plan px s t)" and w: "same_tables w0 w"
  shows "wp_partial (maybe_prefetch px spec so bytes cred) (prefetch_cost spec cred w0) w"
  unfolding maybe_prefetch_def
  apply (intro wp_tables_if cost_refused w; (simp; fail)?)
  apply (rule wp_bind_lift)
  apply (rule wp_option)
   apply (rule cost_refused; simp add: w)
  apply (rule wp_tables_if)
   apply (rule cost_refused; simp add: w)
  apply (rule wp_bind_tables [OF _ w], intro keeps_tables)
  apply (rule wp_tables_if)
   apply (rule cost_refused; simp)
  apply (rule wp_option)
   apply (rule cost_refused; simp)
  apply (rule wp_tables_if)
   apply (rule cost_refused; simp)
  apply (rule wp_bind_text)
  apply (rule wp_bind_tables, intro keeps_tables, assumption)+
  apply (rule wp_tables_if)
   apply (rule cost_refused; simp)
  apply (rule wp_bind_tables, intro keeps_tables, assumption)
  apply (rule wp_tables_if)
   apply (rule cost_refused; simp)
  apply (rule wp_bind_tables, intro keeps_tables, assumption)
  apply (rule wp_bind_lift)
  apply (rule wp_tables_if)
   apply (rule cost_refused; simp)
  apply (rule wp_prefetch_planned [OF plan]; assumption)
  done


definition sample_prefetch :: prefetch_env where
  "sample_prefetch =
     \<lparr>px_enabled = True, px_max_bytes = 1000, px_budget = 5, px_cache_max_bytes = 10000, px_min_window_age_hours = 1,
      px_platform = sample_platform, px_credential_key = [], px_edl_username = [], px_earthdata_token = [],
      px_window_plan = (\<lambda>s t. e_ret \<lparr>wp_spec = None, wp_access_restricted = None, wp_capabilities_version = []\<rparr>)\<rparr>"

definition busy_world :: world where
  "busy_world = initial_world\<lparr>w_jobs := [sample_job\<lparr>j_state := RUNNING, j_speculative := False\<rparr>]\<rparr>"


end
