(* ===== verification/Lifecycle.thy ===== *)
theory Lifecycle
  imports Prefetch
begin

text \<open>
  The decisions of the worker (\<open>jobs/worker.py\<close>) that touch no store: which faults are transient, how
  an exception reads, how a rejected submission is classified, how a poll answer moves a job, which
  reclaimed jobs are resumed, the id in a status URL, and the minutes of the reclaim sweep.
\<close>

section \<open>Faults\<close>

text \<open>\<open>isinstance(exc, _TRANSIENT_FAULTS)\<close>.\<close>

definition is_transient_fault :: "exn \<Rightarrow> bool" where
  "is_transient_fault e =
     (case e of
        LibErr c args \<Rightarrow> c \<in> {HttpxTimeout, HttpxNetwork, PyConnectionError, PyTimeoutError,
                                SaOperational, SaInterface, SaDisconnection}
      | _ \<Rightarrow> False)"

text \<open>
  \<open>exc.args\<close> where it may hold several values, \<open>str(exc)\<close> and \<open>type(exc).__name__\<close>; what a library's
  exception says and is called comes from \<open>txt\<close> and \<open>typ\<close>.
\<close>

definition exn_args :: "exn \<Rightarrow> string list" where
  "exn_args e = (case e of PlainExn xs \<Rightarrow> xs | LibErr c xs \<Rightarrow> xs | _ \<Rightarrow> [])"

definition exn_str :: "(exn \<Rightarrow> string) \<Rightarrow> exn \<Rightarrow> string" where
  "exn_str txt e =
     (case e of
        ValueError m \<Rightarrow> m | KeyError m \<Rightarrow> py_repr m | TypeError m \<Rightarrow> m | IndexError m \<Rightarrow> m | RuntimeError m \<Rightarrow> m
      | IllegalTransition m \<Rightarrow> m | JobNotFoundError m \<Rightarrow> m | HandleNotFoundError m \<Rightarrow> m | CrossWorkspaceError m \<Rightarrow> m
      | EvictedResultError m \<Rightarrow> m | InvalidSpecError m \<Rightarrow> m | ProvenanceError m \<Rightarrow> m | NotRetrievable m \<Rightarrow> m
      | IntegrityError m \<Rightarrow> m | CredentialError c m u \<Rightarrow> m | PlainExn [] \<Rightarrow> [] | PlainExn [a] \<Rightarrow> a
      | CancelledError \<Rightarrow> [] | _ \<Rightarrow> txt e)"

definition exn_type :: "(exn \<Rightarrow> string) \<Rightarrow> exn \<Rightarrow> string" where
  "exn_type typ e =
     (case e of
        ValueError m \<Rightarrow> ''ValueError'' | KeyError m \<Rightarrow> ''KeyError'' | TypeError m \<Rightarrow> ''TypeError''
      | IndexError m \<Rightarrow> ''IndexError'' | RuntimeError m \<Rightarrow> ''RuntimeError''
      | IllegalTransition m \<Rightarrow> ''IllegalTransition'' | InvalidSpecError m \<Rightarrow> ''InvalidSpecError''
      | NotRetrievable m \<Rightarrow> ''NotRetrievable'' | PlainExn xs \<Rightarrow> ''Exception''
      | CredentialError c m u \<Rightarrow> (case c of TOKEN_EXPIRED \<Rightarrow> ''TokenExpiredError''
                                  | TOKEN_INVALID \<Rightarrow> ''TokenInvalidError''
                                  | EULA_NOT_ACCEPTED \<Rightarrow> ''EulaNotAcceptedError'')
      | CancelledError \<Rightarrow> ''CancelledError''
      | LibErr (OtherClass n) xs \<Rightarrow> n
      | _ \<Rightarrow> typ e)"

definition exc_message :: "secrets \<Rightarrow> (exn \<Rightarrow> string) \<Rightarrow> (exn \<Rightarrow> string) \<Rightarrow> exn \<Rightarrow> string" where
  "exc_message ss txt typ e =
     (if length (exn_args e) > 1 then redact ss (py_join '': '' (exn_args e))
      else redact ss (if exn_str txt e \<noteq> [] then exn_str txt e else exn_type typ e))"

definition INVALID_REQUEST_REASONS :: "string list" where
  "INVALID_REQUEST_REASONS = [''bad request'', ''unprocessable entity'']"

definition INVALID_REQUEST_PHRASES :: "string list" where
  "INVALID_REQUEST_PHRASES = [''coverages were not found'', ''the requested combination of operations'']"

definition classify_submit_failure :: "secrets \<Rightarrow> (exn \<Rightarrow> string) \<Rightarrow> (exn \<Rightarrow> string) \<Rightarrow> exn \<Rightarrow> string" where
  "classify_submit_failure ss txt typ e =
     (if length (exn_args e) > 1 \<and> py_lower (py_strip (hd (exn_args e))) \<in> set INVALID_REQUEST_REASONS
      then ''invalid_request''
      else if list_ex (py_contains (py_lower (exc_message ss txt typ e))) INVALID_REQUEST_PHRASES
      then ''invalid_request''
      else ''infrastructure'')"

text \<open>\<open>getattr(exc, "classification", None)\<close>.\<close>

definition classification_of :: "exn \<Rightarrow> string option" where
  "classification_of e = (case e of CredentialError c m u \<Rightarrow> Some (class_name c) | _ \<Rightarrow> None)"

section \<open>Reclaiming\<close>

definition RESUME_TASK :: "job_state \<Rightarrow> string option" where
  "RESUME_TASK s =
     (case s of
        PENDING \<Rightarrow> Some ''submit_job''
      | SUBMITTED \<Rightarrow> Some ''poll_job''
      | RUNNING \<Rightarrow> Some ''poll_job''
      | MATERIALIZING \<Rightarrow> Some ''materialize_job''
      | _ \<Rightarrow> None)"

definition lifecycle_job_id :: "string \<Rightarrow> string \<Rightarrow> string" where
  "lifecycle_job_id name job_id = ''resume:'' @ name @ '':'' @ job_id"

text \<open>
  One reclaimed row: failed for an unreadable spec, failed as stale, or to be resumed. The session
  holds the changed rows until the caller commits.
\<close>

fun triage_reclaimed ::
  "(exn \<Rightarrow> string) \<Rightarrow> (time \<Rightarrow> string) \<Rightarrow> time \<Rightarrow> time \<Rightarrow> job list \<Rightarrow> exn + (job list \<times> (string \<times> job_state) list)" where
  "triage_reclaimed txt show_time now stale_before [] = Inr ([], [])"
| "triage_reclaimed txt show_time now stale_before (job # jobs) =
     (let rest = (\<lambda>changed resumable.
            s_bind (triage_reclaimed txt show_time now stale_before jobs)
              (\<lambda>(cs, rs). Inr (changed @ cs, resumable @ rs)))
      in case from_jsonb (j_request_spec job) of
           Inl (InvalidSpecError m) \<Rightarrow>
             s_bind (set_state now job FAILED
                       [C_error (Some (''invalid job spec: '' @ exn_str txt (InvalidSpecError m)))]) (\<lambda>j. rest [j] [])
         | Inl e \<Rightarrow> Inl e
         | Inr spec \<Rightarrow>
             if j_created_at job < stale_before then
               s_bind (set_state now job FAILED
                         [C_error (Some (''reclaimed as stale: non-terminal since '' @ show_time (j_created_at job)))])
                 (\<lambda>j. rest [j] [])
             else rest [] [(j_id job, j_state job)])"

section \<open>A poll answer\<close>

definition apply_poll :: "time \<Rightarrow> job \<Rightarrow> job_status \<Rightarrow> exn + (job \<times> string option)" where
  "apply_poll now job status =
     (let moved = job\<lparr>j_progress := st_progress status, j_message := st_message status\<rparr>;
          reported = [C_progress (st_progress status), C_message (st_message status)]
      in case st_state status of
           FAILED \<Rightarrow>
             s_bind (set_state now job FAILED
                       [C_error (st_error status), C_progress (j_progress job), C_message (st_message status)])
               (\<lambda>j. Inr (j, None))
         | CANCELLED \<Rightarrow> s_bind (set_state now job CANCELLED []) (\<lambda>j. Inr (j, None))
         | READY \<Rightarrow>
             s_bind (if j_state job = SUBMITTED then set_state now job RUNNING [C_message (st_message status)]
                     else Inr job) (\<lambda>j.
             s_bind (set_state now j MATERIALIZING reported) (\<lambda>j'. Inr (j', Some ''materialize_job'')))
         | SUBMITTED \<Rightarrow> Inr (moved, Some ''poll_job'')
         | _ \<Rightarrow>
             if j_state job = SUBMITTED
             then s_bind (set_state now job RUNNING reported) (\<lambda>j. Inr (j, Some ''poll_job''))
             else Inr (moved, Some ''poll_job''))"

section \<open>The id in a status URL\<close>

text \<open>
  \<open>urlsplit(url).path\<close>: control characters and spaces are stripped, tabs and line breaks dropped, then
  scheme, authority, fragment and query are split off; an authority with one bracket is a \<open>ValueError\<close>.
  Its further checks (a bracketed host, characters that normalise to separators) are not modelled.
\<close>

definition scheme_char :: "char \<Rightarrow> bool" where
  "scheme_char c \<longleftrightarrow> (let n = of_char c :: nat in
     97 \<le> n \<and> n \<le> 122 \<or> 65 \<le> n \<and> n \<le> 90 \<or> 48 \<le> n \<and> n \<le> 57 \<or> c \<in> {CHR ''+'', CHR ''-'', CHR ''.''})"

definition letter :: "char \<Rightarrow> bool" where
  "letter c \<longleftrightarrow> (let n = of_char c :: nat in 97 \<le> n \<and> n \<le> 122 \<or> 65 \<le> n \<and> n \<le> 90)"

definition drop_scheme :: "string \<Rightarrow> string" where
  "drop_scheme url =
     (case py_partition CHR '':'' url of
        (c # scheme, True, rest) \<Rightarrow> if letter c \<and> list_all scheme_char (c # scheme) then rest else url
      | _ \<Rightarrow> url)"

definition url_path :: "string \<Rightarrow> exn + string" where
  "url_path url =
     (let stripped = dropWhile (\<lambda>c. (of_char c :: nat) \<le> 32) url;
          clean = filter (\<lambda>c. c \<notin> {CHR 0x09, CHR 0x0A, CHR 0x0D}) stripped;
          rest = drop_scheme clean;
          path_of = (\<lambda>s. fst (py_partition CHR ''?'' (fst (py_partition CHR ''#'' s))))
      in if py_startswith rest ''//'' then
           (let body = drop 2 rest;
                netloc = takeWhile (\<lambda>c. c \<notin> {CHR ''/'', CHR ''?'', CHR ''#''}) body
            in if (CHR ''['' \<in> set netloc) \<noteq> (CHR '']'' \<in> set netloc) then Inl (ValueError ''Invalid IPv6 URL'')
               else Inr (path_of (drop (length netloc) body)))
         else Inr (path_of rest))"

definition job_id_from_url :: "string option \<Rightarrow> exn + string option" where
  "job_id_from_url url =
     (case url of
        None \<Rightarrow> Inr None
      | Some u \<Rightarrow>
          if u = [] then Inr None
          else s_bind (url_path u) (\<lambda>path.
            let last_part = after_last CHR ''/'' (rev (dropWhile (\<lambda>c. c = CHR ''/'') (rev path)))
            in Inr (if last_part = [] then None else Some last_part)))"

section \<open>The minutes of the sweep\<close>

function down_to_divisor :: "nat \<Rightarrow> nat" where
  "down_to_divisor every = (if every = 0 \<or> 60 mod every = 0 then every else down_to_divisor (every - 1))"
  by pat_completeness auto
termination by (relation "measure id") auto

declare down_to_divisor.simps [simp del]

text \<open>\<open>set(range(0, 60, every))\<close>.\<close>

definition sweep_minutes :: "int \<Rightarrow> nat set" where
  "sweep_minutes every =
     (let n = down_to_divisor (nat (max 1 (min 60 every))) in set (map (\<lambda>k. k * n) [0..<(59 + n) div n]))"

section \<open>Lemmas\<close>

lemma divisor_of_60: "1 \<le> m \<Longrightarrow> 60 mod down_to_divisor m = 0 \<and> 1 \<le> down_to_divisor m \<and> down_to_divisor m \<le> m"
proof (induction m rule: down_to_divisor.induct)
  case (1 every)
  show ?case
  proof (cases "60 mod every = 0")
    case True
    then show ?thesis using 1(2) by (simp add: down_to_divisor.simps)
  next
    case False
    then have "every \<noteq> 1" by auto
    with 1(2) have "1 \<le> every - 1" by simp
    moreover have "down_to_divisor every = down_to_divisor (every - 1)"
      using False 1(2) by (subst down_to_divisor.simps) simp
    ultimately show ?thesis using 1(1) 1(2) False by auto
  qed
qed

lemma largest_divisor: "d dvd 60 \<Longrightarrow> d \<le> m \<Longrightarrow> 1 \<le> m \<Longrightarrow> d \<le> down_to_divisor m"
proof (induction m rule: down_to_divisor.induct)
  case (1 every)
  show ?case
  proof (cases "60 mod every = 0")
    case True
    then show ?thesis using 1(3) by (simp add: down_to_divisor.simps)
  next
    case False
    then have "d \<noteq> every" "every \<noteq> 1" using 1(2) by auto
    with 1(3,4) have "d \<le> every - 1" "1 \<le> every - 1" by simp_all
    moreover have "down_to_divisor every = down_to_divisor (every - 1)"
      using False 1(4) by (subst down_to_divisor.simps) simp
    ultimately show ?thesis using 1(1) 1(2,4) False by simp
  qed
qed

text \<open>
  The reclaim sweep fires evenly across the hour boundary and never less often than configured. The
  minutes are the multiples of the largest divisor of sixty that is at most the configured interval
  (clamped to between one minute and an hour), so from any minute of the day the next firing is less
  than that interval away.
\<close>

theorem sweep_minutes_even:
  "\<exists>n. n dvd 60 \<and> 1 \<le> n \<and> int n \<le> max 1 (min 60 every)
     \<and> (\<forall>d. d dvd 60 \<and> int d \<le> max 1 (min 60 every) \<longrightarrow> d \<le> n)
     \<and> sweep_minutes every = {m. m < 60 \<and> n dvd m}
     \<and> (\<forall>t. \<exists>k < n. (t + k) mod 60 \<in> sweep_minutes every)"
proof -
  define m where "m = nat (max 1 (min 60 every))"
  define n where "n = down_to_divisor m"
  have m: "1 \<le> m" "int m = max 1 (min 60 every)" by (auto simp: m_def)
  have n: "n dvd 60" "1 \<le> n" "n \<le> m" using divisor_of_60 [OF m(1)] by (auto simp: n_def dvd_eq_mod_eq_0)
  have big: "d \<le> n" if "d dvd 60" "int d \<le> max 1 (min 60 every)" for d
    using largest_divisor [of d m] that m by (simp add: n_def)
  have s: "sweep_minutes every = {x. x < 60 \<and> n dvd x}"
  proof -
    obtain q where q: "60 = n * q" using n(1) by blast
    then have "59 + n = (n - 1) + q * n" using n(2) q by (simp add: mult.commute)
    then have "(59 + n) div n = q" using n(2) by (simp only: div_mult_self1) simp
    then have "sweep_minutes every = (\<lambda>k. k * n) ` {0..<q}"
      by (simp add: sweep_minutes_def Let_def n_def m_def)
    also have "\<dots> = {x. x < n * q \<and> n dvd x}" using n(2) by (auto simp: dvd_def mult.commute)
    finally show ?thesis using q by simp
  qed
  have next_firing: "\<exists>k < n. (t + k) mod 60 \<in> sweep_minutes every" for t
  proof -
    obtain k where k: "k < n" "n dvd t + k"
    proof (cases "n dvd t")
      case True
      then show ?thesis using that [of 0] n(2) by simp
    next
      case False
      then have "t mod n < n" "t mod n \<noteq> 0" using n(2) by (auto simp: dvd_eq_mod_eq_0)
      moreover have "t + (n - t mod n) = t div n * n + n"
        using \<open>t mod n < n\<close> by (metis add.assoc add_diff_inverse_nat div_mult_mod_eq less_imp_le_nat linorder_not_le)
      ultimately show ?thesis using that [of "n - t mod n"] n(2) by simp
    qed
    then have "n dvd (t + k) mod 60" using n(1) by (simp add: dvd_mod)
    then show ?thesis using k(1) by (auto simp: s)
  qed
  have bound: "int n \<le> max 1 (min 60 every)" using n(3) m(2) by linarith
  show ?thesis
    using n(1,2) bound big s next_firing by blast
qed

lemma sweep_minutes_even_witness: "sweep_minutes 5 = {m. m < 60 \<and> 5 dvd m}"
proof -
  obtain n :: nat where n: "int n \<le> 5" "sweep_minutes 5 = {m. m < 60 \<and> n dvd m}"
      and big: "\<forall>d. d dvd 60 \<and> int d \<le> 5 \<longrightarrow> d \<le> n"
    using sweep_minutes_even [of 5] by auto
  have "5 \<le> n" using big by (auto simp: dvd_def intro!: exI [of _ 12])
  with n show ?thesis by (simp add: le_antisym)
qed

end
