(* ===== verification/EvictionPolicy.thy ===== *)
theory EvictionPolicy
  imports Eviction
begin

text \<open>
  What the eviction policy promises. The queues the code builds hold exactly the candidates that are
  neither pinned nor protected; the loop over them refines the policy; the policy brings the cache
  under its cap or runs out of candidates, takes no more than it must, discards speculation first,
  and takes only from workspaces over their fair share when every result may be evicted.
\<close>

section \<open>The queues\<close>

definition may_evict :: "string option \<Rightarrow> candidate \<Rightarrow> bool" where
  "may_evict protected_handle c \<longleftrightarrow> \<not> c_pinned c \<and> Some (c_handle c) \<noteq> protected_handle"

definition prequeues_ok :: "queues \<Rightarrow> bool" where
  "prequeues_ok qs \<longleftrightarrow> distinct (map fst qs)
     \<and> (\<forall>(ws, q) \<in> set qs. q \<noteq> [] \<and> distinct q \<and> (\<forall>c \<in> set q. c_ws c = ws))"

lemma push_queue_mem:
  assumes "distinct (map fst qs)"
  shows "(ws, q) \<in> set (push_queue c qs) \<longleftrightarrow>
    (if ws = c_ws c then q = (case map_of qs ws of None \<Rightarrow> [] | Some p \<Rightarrow> p) @ [c] else (ws, q) \<in> set qs)"
proof -
  have d: "distinct (map fst (push_queue c qs))"
    using assms by (simp add: push_queue_def distinct_update)
  then have "(ws, q) \<in> set (push_queue c qs) \<longleftrightarrow> map_of (push_queue c qs) ws = Some q" by simp
  also have "\<dots> \<longleftrightarrow> (if ws = c_ws c then q = (case map_of qs ws of None \<Rightarrow> [] | Some p \<Rightarrow> p) @ [c]
      else map_of qs ws = Some q)"
    by (auto simp: push_queue_def update_conv)
  finally show ?thesis using assms by simp
qed

lemma push_queue_ok:
  assumes ok: "prequeues_ok qs" and new: "c \<notin> pool_of qs"
  shows "prequeues_ok (push_queue c qs) \<and> pool_of (push_queue c qs) = insert c (pool_of qs)"
proof -
  have d: "distinct (map fst qs)" using ok by (simp add: prequeues_ok_def)
  note mem = push_queue_mem [OF d]
  have old: "map_of qs ws = Some p \<Longrightarrow> p \<noteq> [] \<and> distinct p \<and> (\<forall>x \<in> set p. c_ws x = ws) \<and> set p \<subseteq> pool_of qs" for ws p
    using ok by (auto simp: prequeues_ok_def intro: pool_ofI dest!: map_of_SomeD)
  have each: "q \<noteq> [] \<and> distinct q \<and> (\<forall>x \<in> set q. c_ws x = ws)" if "(ws, q) \<in> set (push_queue c qs)" for ws q
  proof (cases "ws = c_ws c")
    case True
    then show ?thesis using that new old [of ws] by (auto simp: mem split: option.splits)
  next
    case False
    then show ?thesis using that ok by (auto simp: mem prequeues_ok_def)
  qed
  have "distinct (map fst (push_queue c qs))"
    using d by (simp add: push_queue_def distinct_update)
  then have "prequeues_ok (push_queue c qs)" using each by (auto simp: prequeues_ok_def)
  moreover have "x \<in> pool_of (push_queue c qs) \<longleftrightarrow> x = c \<or> x \<in> pool_of qs" for x
  proof
    assume "x \<in> pool_of (push_queue c qs)"
    then obtain ws q where q: "(ws, q) \<in> set (push_queue c qs)" "x \<in> set q" by (rule pool_ofE)
    then show "x = c \<or> x \<in> pool_of qs"
      using old [of ws] by (auto simp: mem intro: pool_ofI split: if_splits option.splits)
  next
    let ?q = "(case map_of qs (c_ws c) of None \<Rightarrow> [] | Some p \<Rightarrow> p) @ [c]"
    have in_q: "(c_ws c, ?q) \<in> set (push_queue c qs)" by (simp add: mem)
    assume "x = c \<or> x \<in> pool_of qs"
    then show "x \<in> pool_of (push_queue c qs)"
    proof
      assume "x = c"
      then show ?thesis using in_q by (intro pool_ofI) auto
    next
      assume "x \<in> pool_of qs"
      then obtain ws q where q: "(ws, q) \<in> set qs" "x \<in> set q" by (rule pool_ofE)
      show ?thesis
      proof (cases "ws = c_ws c")
        case True
        then have "map_of qs (c_ws c) = Some q" using q(1) d by simp
        then show ?thesis using in_q q(2) by (intro pool_ofI [OF in_q]) simp
      next
        case False
        then have "(ws, q) \<in> set (push_queue c qs)" using q(1) by (simp add: mem)
        then show ?thesis using q(2) by (rule pool_ofI)
      qed
    qed
  qed
  ultimately show ?thesis by blast
qed

lemma fold_push_queue:
  "prequeues_ok qs \<Longrightarrow> distinct cs \<Longrightarrow> set cs \<inter> pool_of qs = {} \<Longrightarrow>
   prequeues_ok (fold push_queue cs qs) \<and> pool_of (fold push_queue cs qs) = set cs \<union> pool_of qs"
proof (induction cs arbitrary: qs)
  case (Cons c cs)
  then have "prequeues_ok (push_queue c qs) \<and> pool_of (push_queue c qs) = insert c (pool_of qs)"
    by (intro push_queue_ok) auto
  then show ?case using Cons.IH [of "push_queue c qs"] Cons.prems by auto
qed simp

lemma sort_queues_ok:
  "prequeues_ok qs \<Longrightarrow> queues_ok now (sort_queues now qs) \<and> pool_of (sort_queues now qs) = pool_of qs"
proof
  assume ok: "prequeues_ok qs"
  have "map fst (sort_queues now qs) = map fst qs"
    unfolding sort_queues_def by (induction qs) auto
  moreover have "q \<noteq> [] \<and> distinct q \<and> (\<forall>c \<in> set q. c_ws c = ws) \<and> sorted (map (eviction_key now) q)"
    if sorted_q: "(ws, q) \<in> set (sort_queues now qs)" for ws q
  proof -
    obtain p where p: "(ws, p) \<in> set qs" "q = sort_key (eviction_key now) p"
      using sorted_q by (auto simp: sort_queues_def)
    then have "p \<noteq> [] \<and> distinct p \<and> (\<forall>c \<in> set p. c_ws c = ws)" using ok by (auto simp: prequeues_ok_def)
    moreover then have "q \<noteq> []" by (metis p(2) set_empty set_sort)
    ultimately show ?thesis by (simp add: p(2))
  qed
  ultimately show "queues_ok now (sort_queues now qs)"
    using ok by (auto simp: queues_ok_def prequeues_ok_def)
  show "pool_of (sort_queues now qs) = pool_of qs"
    by (force simp: pool_of_def sort_queues_def)
qed

lemma code_queues:
  assumes "distinct cs"
  shows "queues_ok now (sort_queues now (build_queues prot cs))
    \<and> pool_of (sort_queues now (build_queues prot cs)) = {c \<in> set cs. may_evict prot c}"
proof -
  let ?cs = "filter (\<lambda>c. \<not> (c_pinned c \<or> Some (c_handle c) = prot)) cs"
  have "prequeues_ok [] \<and> pool_of [] = {}" by (simp add: prequeues_ok_def pool_of_def)
  then have "prequeues_ok (build_queues prot cs) \<and> pool_of (build_queues prot cs) = set ?cs"
    using fold_push_queue [of "[]" ?cs] assms by (simp add: build_queues_def)
  moreover have "set ?cs = {c \<in> set cs. may_evict prot c}" by (auto simp: may_evict_def)
  ultimately show ?thesis using sort_queues_ok [of "build_queues prot cs" now] by simp
qed

section \<open>The bytes each workspace holds\<close>

definition bytes_of :: "candidate set \<Rightarrow> string \<Rightarrow> int" where
  "bytes_of A ws = (\<Sum>c \<in> {c \<in> A. c_ws c = ws}. c_size c)"

lemma held_of_fold:
  "held_of (fold (\<lambda>c. add_held (c_ws c) (c_size c)) cs held) ws =
     held_of held ws + sum_list (map c_size (filter (\<lambda>c. c_ws c = ws) cs))"
  by (induction cs arbitrary: held) (auto simp: held_of_add)

lemma held_by_bytes: "distinct cs \<Longrightarrow> held_of (held_by cs) ws = bytes_of (set cs) ws"
  by (simp add: held_by_def held_of_fold bytes_of_def sum_list_distinct_conv_sum_set)
    (simp add: held_of_def)

lemma keys_held_by: "fst ` set (held_by cs) = c_ws ` set cs"
proof -
  have "fst ` set (fold (\<lambda>c. add_held (c_ws c) (c_size c)) cs held) = fst ` set held \<union> c_ws ` set cs" for held
    by (induction cs arbitrary: held) (auto simp: add_held_def dom_update)
  then show ?thesis by (simp add: held_by_def)
qed

lemma length_held_by: "length (held_by cs) = card (c_ws ` set cs)"
proof -
  have "distinct (map fst held) \<Longrightarrow> distinct (map fst (fold (\<lambda>c. add_held (c_ws c) (c_size c)) cs held))" for held
    by (induction cs arbitrary: held) (auto simp: add_held_def distinct_update)
  then have "distinct (map fst (held_by cs))" by (simp add: held_by_def)
  then have "card (set (map fst (held_by cs))) = length (held_by cs)"
    by (metis distinct_card length_map)
  then show ?thesis using keys_held_by [of cs] by simp
qed

section \<open>What the policy promises\<close>

lemma policy_sound:
  "eviction_policy m now tot held pool sel \<Longrightarrow> finite pool \<Longrightarrow>
   set sel \<subseteq> pool \<and> distinct sel \<and> (tot - sum_list (map c_size sel) \<le> m \<or> set sel = pool)"
proof (induction rule: eviction_policy.induct)
  case (take tot c pool held cs)
  then show ?case by auto
qed auto

lemma policy_step:
  "eviction_policy m now tot held pool sel \<Longrightarrow> sel = ys @ c # zs \<Longrightarrow>
   tot - sum_list (map c_size ys) > m
   \<and> (\<forall>d \<in> pool - set ys. c_ws d = c_ws c \<longrightarrow> eviction_key now d \<le> eviction_key now c)
   \<and> (\<forall>d \<in> pool - set ys. held (c_ws d) - sum_list (map c_size (filter (\<lambda>x. c_ws x = c_ws d) ys))
        \<le> held (c_ws c) - sum_list (map c_size (filter (\<lambda>x. c_ws x = c_ws c) ys)))"
proof (induction arbitrary: ys rule: eviction_policy.induct)
  case (take tot b pool held cs)
  show ?case
  proof (cases ys)
    case Nil
    then show ?thesis using take by auto
  next
    case (Cons y ys')
    then have y: "y = b" "cs = ys' @ c # zs" using take.prems by auto
    have shift: "(held(c_ws b := held (c_ws b) - c_size b)) ws
          - sum_list (map c_size (filter (\<lambda>x. c_ws x = ws) ys'))
        = held ws - sum_list (map c_size (filter (\<lambda>x. c_ws x = ws) ys))" for ws
      by (simp add: Cons y(1))
    have "pool - {b} - set ys' = pool - set ys" by (auto simp: Cons y(1))
    then show ?thesis using take.IH [OF y(2)] unfolding shift by (auto simp: Cons y(1))
  qed
qed simp

lemma loop_evicts:
  assumes "distinct cs"
  shows "\<exists>sel. evict_loop m fs now (sum_list (map c_size cs)) (held_by cs)
        (sort_queues now (build_queues prot cs)) = e_each (evict_one now) sel
    \<and> eviction_policy m now (sum_list (map c_size cs)) (bytes_of (set cs)) {c \<in> set cs. may_evict prot c} sel
    \<and> set sel \<subseteq> {c \<in> set cs. may_evict prot c}"
proof -
  let ?qs = "sort_queues now (build_queues prot cs)"
  let ?sel = "victims m fs (sum_list (map c_size cs)) (held_by cs) ?qs"
  have qs: "queues_ok now ?qs" "pool_of ?qs = {c \<in> set cs. may_evict prot c}"
    using code_queues [OF assms] by auto
  have held: "held_of (held_by cs) = bytes_of (set cs)" using held_by_bytes [OF assms] by blast
  have pol: "eviction_policy m now (sum_list (map c_size cs)) (bytes_of (set cs))
      {c \<in> set cs. may_evict prot c} ?sel"
    using victims_policy [OF qs(1), of m "sum_list (map c_size cs)" "held_by cs" fs] by (simp only: qs(2) held)
  show ?thesis using evict_loop_victims [OF qs(1)] pol policy_sound [OF pol] by auto
qed

text \<open>
  C10: the loop of the eviction sweep implements the policy. It evicts a list of victims, in order,
  that the policy allows over the candidates that are neither pinned nor protected, starting from
  the bytes each workspace holds; it therefore ends, with the cache under its cap or with every
  evictable result gone, and no victim was taken while the cache was already under the cap.
\<close>

theorem eviction_refines_policy:
  assumes "distinct cs"
  shows "\<exists>sel. evict_loop m fs now (sum_list (map c_size cs)) (held_by cs)
        (sort_queues now (build_queues prot cs)) = e_each (evict_one now) sel
    \<and> eviction_policy m now (sum_list (map c_size cs)) (bytes_of (set cs)) {c \<in> set cs. may_evict prot c} sel
    \<and> set sel \<subseteq> {c \<in> set cs. may_evict prot c} \<and> distinct sel
    \<and> (sum_list (map c_size cs) - sum_list (map c_size sel) \<le> m \<or> set sel = {c \<in> set cs. may_evict prot c})
    \<and> (\<forall>ys c zs. sel = ys @ c # zs \<longrightarrow> sum_list (map c_size cs) - sum_list (map c_size ys) > m)"
proof -
  obtain sel where "evict_loop m fs now (sum_list (map c_size cs)) (held_by cs)
        (sort_queues now (build_queues prot cs)) = e_each (evict_one now) sel"
    and pol: "eviction_policy m now (sum_list (map c_size cs)) (bytes_of (set cs))
      {c \<in> set cs. may_evict prot c} sel"
    using loop_evicts [OF assms] by blast
  then show ?thesis using policy_sound [OF pol] policy_step [OF pol] by auto
qed

text \<open>
  C31: speculation is second-class. Whatever the sizes, costs and recencies are, no result someone
  asked for is evicted while a result nobody asked for is left in its workspace; among results of
  the same kind the one of the highest score goes first, and a victim's workspace holds at least as
  much as any other with results left to evict.
\<close>

theorem speculative_evicted_first:
  assumes "distinct cs" and "victims m fs (sum_list (map c_size cs)) (held_by cs)
      (sort_queues now (build_queues prot cs)) = ys @ c # zs"
    and "d \<in> set cs" and "may_evict prot d" and "d \<notin> set ys"
  shows "(c_ws d = c_ws c \<and> c_speculative d \<longrightarrow> c_speculative c)
    \<and> (c_ws d = c_ws c \<and> c_speculative d = c_speculative c \<longrightarrow> score now d \<le> score now c)
    \<and> bytes_of (set cs - set ys) (c_ws d) \<le> bytes_of (set cs - set ys) (c_ws c)"
proof -
  let ?qs = "sort_queues now (build_queues prot cs)"
  have qs: "queues_ok now ?qs" "pool_of ?qs = {c \<in> set cs. may_evict prot c}"
    using code_queues [OF assms(1)] by auto
  have held: "held_of (held_by cs) = bytes_of (set cs)" using held_by_bytes [OF assms(1)] by blast
  have pol: "eviction_policy m now (sum_list (map c_size cs)) (bytes_of (set cs))
      {c \<in> set cs. may_evict prot c} (ys @ c # zs)"
    using victims_policy [OF qs(1), of m "sum_list (map c_size cs)" "held_by cs" fs]
    by (simp only: qs(2) held assms(2))
  note sound = policy_sound [OF pol] and step = policy_step [OF pol HOL.refl]
  have "distinct ys" "set ys \<subseteq> set cs" using sound by auto
  then have left: "bytes_of (set cs - set ys) ws
      = bytes_of (set cs) ws - sum_list (map c_size (filter (\<lambda>x. c_ws x = ws) ys))" for ws
  proof -
    have "{c \<in> set cs - set ys. c_ws c = ws} = {c \<in> set cs. c_ws c = ws} - {c \<in> set ys. c_ws c = ws}" by auto
    then have "bytes_of (set cs - set ys) ws = bytes_of (set cs) ws - (\<Sum>c \<in> {c \<in> set ys. c_ws c = ws}. c_size c)"
      unfolding bytes_of_def using \<open>set ys \<subseteq> set cs\<close> by (simp only:) (rule sum_diff, auto)
    then show ?thesis using \<open>distinct ys\<close> by (simp add: sum_list_distinct_conv_sum_set)
  qed
  have d: "d \<in> {c \<in> set cs. may_evict prot c} - set ys" using assms(3-5) by simp
  have "c_ws d = c_ws c \<Longrightarrow> eviction_key now d \<le> eviction_key now c" using step d by blast
  then have "c_ws d = c_ws c \<Longrightarrow> c_speculative d < c_speculative c
      \<or> c_speculative d = c_speculative c \<and> score now d \<le> score now c"
    by (auto simp: eviction_key_def less_eq_prod_def)
  moreover have "bytes_of (set cs - set ys) (c_ws d) \<le> bytes_of (set cs - set ys) (c_ws c)"
    using step d by (simp add: left)
  ultimately show ?thesis by auto
qed

lemma fair_share_step:
  assumes "eviction_policy m now tot held pool sel" and "finite pool" and "finite W" and "c_ws ` pool \<subseteq> W"
    and "tot = (\<Sum>c \<in> pool. c_size c)" and "held = bytes_of pool" and "0 \<le> m" and "sel = ys @ c # zs"
  shows "m < int (card W) * bytes_of (pool - set ys) (c_ws c)"
  using assms
proof (induction arbitrary: ys rule: eviction_policy.induct)
  case (take tot b pool held cs)
  have part: "(\<Sum>c \<in> pool. c_size c) = (\<Sum>ws \<in> W. bytes_of pool ws)"
    unfolding bytes_of_def using take.prems by (intro sum.group [symmetric]) auto
  show ?case
  proof (cases ys)
    case Nil
    then have c: "c = b" using take.prems by simp
    have "m < int (card W) * bytes_of pool (c_ws c)"
    proof (rule ccontr)
      assume "\<not> ?thesis"
      then have le: "int (card W) * bytes_of pool (c_ws c) \<le> m" by simp
      have "0 < int (card W)" using take.prems take.hyps(2) by (auto simp: card_gt_0_iff)
      have "int (card W) * bytes_of pool ws \<le> m" if "ws \<in> W" for ws
      proof (cases "ws \<in> c_ws ` pool")
        case True
        then have "bytes_of pool ws \<le> bytes_of pool (c_ws c)"
          using take.hyps(3) take.prems(5) c by auto
        then show ?thesis using le by (meson mult_left_mono of_nat_0_le_iff order_trans)
      next
        case False
        then have "bytes_of pool ws = 0" unfolding bytes_of_def by (intro sum.neutral) auto
        then show ?thesis using take.prems(6) by simp
      qed
      then have "(\<Sum>ws \<in> W. int (card W) * bytes_of pool ws) \<le> (\<Sum>ws \<in> W. m)" by (rule sum_mono)
      then have "int (card W) * tot \<le> int (card W) * m"
        using part take.prems(4) by (simp add: sum_distrib_left)
      then show False using take.hyps(1) \<open>0 < int (card W)\<close> by simp
    qed
    then show ?thesis by (simp add: Nil)
  next
    case (Cons y ys')
    then have y: "y = b" "cs = ys' @ c # zs" using take.prems by auto
    have rest: "bytes_of (pool - {b}) = (bytes_of pool)(c_ws b := bytes_of pool (c_ws b) - c_size b)"
    proof (rule ext)
      fix ws
      have "{x \<in> pool - {b}. c_ws x = ws} =
          (if ws = c_ws b then {x \<in> pool. c_ws x = ws} - {b} else {x \<in> pool. c_ws x = ws})" by auto
      then show "bytes_of (pool - {b}) ws = ((bytes_of pool)(c_ws b := bytes_of pool (c_ws b) - c_size b)) ws"
        using take.prems(1) take.hyps(2) by (auto simp: bytes_of_def sum_diff1)
    qed
    have "m < int (card W) * bytes_of (pool - {b} - set ys') (c_ws c)"
    proof (rule take.IH)
      show "tot - c_size b = (\<Sum>c \<in> pool - {b}. c_size c)"
        using take.prems(1,4) take.hyps(2) by (simp add: sum_diff1)
      show "held(c_ws b := held (c_ws b) - c_size b) = bytes_of (pool - {b})"
        using take.prems(5) rest by simp
    qed (use take.prems y in auto)
    moreover have "pool - {b} - set ys' = pool - set ys" by (auto simp: Cons y(1))
    ultimately show ?thesis by simp
  qed
qed simp

text \<open>
  Fairness. When no cached result is pinned or protected, a workspace loses a result only while
  it holds more than its fair share, the cap divided by the number of workspaces with results; a
  workspace within its share loses nothing, whatever the others hold.
\<close>

theorem fair_share_respected:
  assumes "distinct cs" and "\<forall>c \<in> set cs. may_evict prot c" and "0 \<le> m"
    and "victims m fs (sum_list (map c_size cs)) (held_by cs)
      (sort_queues now (build_queues prot cs)) = ys @ c # zs"
  shows "of_int m / of_nat (length (held_by cs)) < (of_int (bytes_of (set cs - set ys) (c_ws c)) :: rat)"
proof -
  let ?qs = "sort_queues now (build_queues prot cs)"
  have qs: "queues_ok now ?qs" "pool_of ?qs = set cs"
    using code_queues [OF assms(1)] assms(2) by auto
  have held: "held_of (held_by cs) = bytes_of (set cs)" using held_by_bytes [OF assms(1)] by blast
  have pol: "eviction_policy m now (sum_list (map c_size cs)) (bytes_of (set cs)) (set cs) (ys @ c # zs)"
    using victims_policy [OF qs(1), of m "sum_list (map c_size cs)" "held_by cs" fs]
    by (simp only: qs(2) held assms(4))
  have "c \<in> set cs" using policy_sound [OF pol] by auto
  then have pos: "0 < length (held_by cs)" by (auto simp: length_held_by card_gt_0_iff)
  have "m < int (card (c_ws ` set cs)) * bytes_of (set cs - set ys) (c_ws c)"
    by (rule fair_share_step [OF pol]) (use assms in \<open>auto simp: sum_list_distinct_conv_sum_set\<close>)
  then have "m < int (length (held_by cs)) * bytes_of (set cs - set ys) (c_ws c)"
    by (simp add: length_held_by)
  then have "(of_int m :: rat) < of_nat (length (held_by cs)) * of_int (bytes_of (set cs - set ys) (c_ws c))"
    by (metis of_int_less_iff of_int_mult of_int_of_nat_eq)
  then show ?thesis using pos by (simp add: divide_less_eq mult.commute)
qed

section \<open>A cache over its cap\<close>

definition sample_candidate :: "string \<Rightarrow> string \<Rightarrow> int \<Rightarrow> bool \<Rightarrow> candidate" where
  "sample_candidate h ws n spec =
     \<lparr>c_handle = h, c_ws = ws, c_key = JStr h, c_size = n, c_last_used = 0, c_cost = 10,
      c_pinned = False, c_speculative = spec\<rparr>"

definition sample_cache :: "candidate list" where
  "sample_cache = [sample_candidate ''a'' ''alice'' 60 False, sample_candidate ''b'' ''alice'' 50 True,
     sample_candidate ''c'' ''bob'' 10 False]"

lemma sample_cache_distinct: "distinct sample_cache"
  by (simp add: sample_cache_def sample_candidate_def)

lemma sample_cache_sort:
  "sort_queues 0 (build_queues None sample_cache) =
     [(''alice'', [sample_candidate ''a'' ''alice'' 60 False, sample_candidate ''b'' ''alice'' 50 True]),
      (''bob'', [sample_candidate ''c'' ''bob'' 10 False])]"
  by (simp add: sort_queues_def build_queues_def push_queue_def sample_cache_def sample_candidate_def
      eviction_key_def score_def)

lemma sample_cache_victims:
  "victims 100 50 (sum_list (map c_size sample_cache)) (held_by sample_cache)
     (sort_queues 0 (build_queues None sample_cache)) = [] @ sample_candidate ''b'' ''alice'' 50 True # []"
  unfolding sample_cache_sort
  by (simp add: victims.simps furthest_over_def pop_queue_def held_by_def add_held_def held_of_def
      sample_cache_def sample_candidate_def)

lemma eviction_refines_policy_witness:
  "\<exists>sel. eviction_policy 100 0 120 (bytes_of (set sample_cache)) {c \<in> set sample_cache. may_evict None c} sel
     \<and> 120 - sum_list (map c_size sel) \<le> 100"
proof -
  have total_bytes: "sum_list (map c_size sample_cache) = 120"
    by (simp add: sample_cache_def sample_candidate_def)
  have evictable: "{c \<in> set sample_cache. may_evict None c} = set sample_cache"
    by (auto simp: sample_cache_def sample_candidate_def may_evict_def)
  have all_gone: "sum_list (map c_size sel) = 120" if "set sel = set sample_cache" "distinct sel" for sel
  proof -
    have "sum_list (map c_size sel) = (\<Sum>c \<in> set sel. c_size c)"
      using that(2) by (simp add: sum_list_distinct_conv_sum_set)
    also have "\<dots> = sum_list (map c_size sample_cache)"
      using that(1) sample_cache_distinct by (simp add: sum_list_distinct_conv_sum_set)
    finally show ?thesis by (simp add: total_bytes)
  qed
  show ?thesis
    using eviction_refines_policy [OF sample_cache_distinct, of 100 50 0 None] all_gone
    unfolding evictable total_bytes by force
qed

lemma speculative_evicted_first_witness:
  "score 0 (sample_candidate ''b'' ''alice'' 50 True) < score 0 (sample_candidate ''a'' ''alice'' 60 False)
   \<and> bytes_of (set sample_cache - {}) ''bob'' \<le> bytes_of (set sample_cache - {}) ''alice''"
proof
  show "score 0 (sample_candidate ''b'' ''alice'' 50 True) < score 0 (sample_candidate ''a'' ''alice'' 60 False)"
    by (simp add: score_def sample_candidate_def)
  show "bytes_of (set sample_cache - {}) ''bob'' \<le> bytes_of (set sample_cache - {}) ''alice''"
    using speculative_evicted_first [OF sample_cache_distinct sample_cache_victims,
        of "sample_candidate ''c'' ''bob'' 10 False"]
    by (simp add: sample_cache_def sample_candidate_def may_evict_def)
qed

lemma fair_share_respected_witness:
  "(100 :: rat) / 2 < of_int (bytes_of (set sample_cache - {}) ''alice'')"
proof -
  have "\<forall>c \<in> set sample_cache. may_evict None c"
    by (simp add: sample_cache_def sample_candidate_def may_evict_def)
  moreover have "length (held_by sample_cache) = 2"
    by (simp add: held_by_def add_held_def sample_cache_def sample_candidate_def)
  ultimately show ?thesis
    using fair_share_respected [OF sample_cache_distinct _ _ sample_cache_victims]
    by (simp add: sample_candidate_def)
qed

end
