(* ===== verification/EvictionSafety.thy ===== *)
theory EvictionSafety
  imports EvictionPolicy
begin

text \<open>
  What a sweep does to the world. Whatever fails in between, a sweep keeps the invariants of the
  tables and never touches a result that is pinned or protected; a completed eviction leaves an
  expired handle, no blob, an event and an expired job; and the orphan pass deletes exactly the
  blobs under the materialization prefixes that no handle references.
\<close>

section \<open>A sweep keeps the invariants\<close>

lemma keeps_expire_job: "keeps evolves (expire_job_of h)"
  unfolding expire_job_of_def
  by (rule keeps_io)
    (auto split: option.splits if_splits sum.splits intro!: evolves_jobs evolves.R_refl
      intro: transition_state_evolves transition_state_ok)

lemma keeps_evict_one: "keeps evolves (evict_one now c)"
  unfolding evict_one_def by (intro keeps_evolves keeps_ops keeps_expire_job)

lemma keeps_evict_loop: "keeps evolves (evict_loop m fs now tot held qs)"
proof (induction m fs now tot held qs rule: evict_loop.induct)
  case (1 m fs now tot held qs)
  show ?case
  proof (cases "tot > m \<and> qs \<noteq> []")
    case True
    then show ?thesis
      using 1 by (subst evict_loop.simps)
        (auto simp: Let_def split: option.splits intro: keeps_evolves keeps_evict_one)
  next
    case False
    have "evict_loop m fs now tot held qs = e_ret ()"
      by (subst evict_loop.simps, simp only: False if_False)
    then show ?thesis by (simp add: evolves.keeps_ret)
  qed
qed

lemma keeps_size_of: "keeps evolves (size_of payload)"
proof -
  have "keeps evolves (case e of KeyError x \<Rightarrow> e_ret None | _ \<Rightarrow> e_raise e)" for e :: exn
    by (cases e) (simp_all add: evolves.keeps_ret evolves.keeps_raise)
  then show ?thesis
    unfolding size_of_def
    by (auto split: option.splits intro!: evolves.keeps_catch evolves.keeps_ret evolves.keeps_bind keeps_lift keeps_read)
qed

lemma keeps_build_candidates: "keeps evolves (build_candidates cfg costs rows)"
  by (induction rows) (auto intro!: evolves.keeps_bind evolves.keeps_ret keeps_size_of)

lemma keeps_candidates: "keeps evolves (candidates cfg)"
  unfolding candidates_def
  by (auto intro!: evolves.keeps_bind keeps_read keeps_build_candidates split: prod.splits)

lemma keeps_evict_over_cap: "keeps evolves (evict_over_cap cfg prot)"
  unfolding evict_over_cap_def Let_def
  by (intro keeps_evolves keeps_candidates keeps_evict_loop)

lemma keeps_reclaim_orphans: "keeps evolves reclaim_orphans"
  unfolding reclaim_orphans_def op_list_blobs_def by (intro keeps_evolves keeps_ops)

lemma keeps_reclaim_if_due: "keeps evolves (reclaim_orphans_if_due cfg)"
  unfolding reclaim_orphans_if_due_def
  by (auto intro!: evolves.keeps_bind evolves.keeps_gets evolves.keeps_ret evolves.keeps_seq
      evolves.keeps_modify keeps_reclaim_orphans split: prod.splits)

lemma keeps_sweep: "keeps evolves (sweep cfg prot)"
  unfolding sweep_def by (intro evolves.keeps_seq keeps_reclaim_if_due keeps_evict_over_cap)

section \<open>Pinned and protected results survive\<close>

lemma next_io_frame:
  "next_io w = (flt, w1) \<Longrightarrow> w_handles w1 = w_handles w \<and> w_files w1 = w_files w \<and> w_root w1 = w_root w
     \<and> w_jobs w1 = w_jobs w \<and> w_events w1 = w_events w \<and> w_secrets w1 = w_secrets w"
  by (auto simp: next_io_def split: list.splits)

text \<open>
  A result worth protecting: the row \<open>r\<close> of handle \<open>h\<close> names the blob \<open>d\<close> under a clean key, and no
  other row names the same blob.
\<close>

definition holds_result ::
  "string \<Rightarrow> handle_row \<Rightarrow> path \<Rightarrow> path \<Rightarrow> string \<Rightarrow> world \<Rightarrow> bool" where
  "holds_result h r rt cs d w \<longleftrightarrow> w_root w = rt \<and>
     handles_ok (w_handles w) \<and> fs_ok rt (w_files w)
     \<and> row_of_handle (w_handles w) h = Some r \<and> evictable_type (h_type r)
     \<and> clean_path cs \<and> jget (h_payload r) ''storage_key'' = JStr (py_join ''/'' cs)
     \<and> local_get rt (w_files w) (py_join ''/'' cs) = Inr d
     \<and> (\<forall>x \<in> set (w_handles w). h_handle x \<noteq> h \<longrightarrow>
          (\<forall>s. jget (h_payload x) ''storage_key'' = JStr s \<longrightarrow>
               local_path rt s \<noteq> local_path rt (py_join ''/'' cs)))"

lemma holds_result_cong:
  "w_handles w' = w_handles w \<Longrightarrow> w_files w' = w_files w \<Longrightarrow> w_root w' = w_root w
   \<Longrightarrow> holds_result h r rt cs d w' = holds_result h r rt cs d w"
  by (simp add: holds_result_def)

lemma yields_io:
  assumes "\<And>w a w'. holds_result h r rt cs d w \<Longrightarrow> f w = Inr (a, w') \<Longrightarrow> holds_result h r rt cs d w' \<and> Q a"
  shows "yields (holds_result h r rt cs d) (e_io f) Q"
  unfolding yields_def
proof (intro allI impI)
  fix w
  assume w: "holds_result h r rt cs d w"
  obtain flt w1 where n: "next_io w = (flt, w1)" by fastforce
  have w1: "holds_result h r rt cs d w1"
    using w next_io_frame [OF n] holds_result_cong [of w1 w] by simp
  show "holds_result h r rt cs d (snd (e_io f w)) \<and> (\<forall>x. fst (e_io f w) = Inr x \<longrightarrow> Q x)"
    using w1 assms by (auto simp: e_io_def n split: io_fault.splits sum.splits)
qed

lemma yields_read:
  assumes "\<And>w a. holds_result h r rt cs d w \<Longrightarrow> f w = Inr a \<Longrightarrow> Q a"
  shows "yields (holds_result h r rt cs d) (e_read f) Q"
  unfolding e_read_def using assms by (intro yields_io) (auto split: sum.splits)

lemma yields_lift: "(\<And>a. x = Inr a \<Longrightarrow> Q a) \<Longrightarrow> yields P (lift_sum x) Q"
  by (cases x) (auto simp: lift_sum_def intro: yields_ret yields_raise)

lemma yields_delete_blob:
  assumes "local_path rt key \<noteq> local_path rt (py_join ''/'' cs)"
  shows "yields (holds_result h r rt cs d) (op_delete_blob key) (\<lambda>_. True)"
  unfolding op_delete_blob_def
proof (rule yields_io)
  fix w a w'
  assume w: "holds_result h r rt cs d w"
    and step: "(case local_delete (w_root w) (w_files w) key of Inl e \<Rightarrow> Inl e
        | Inr fs \<Rightarrow> Inr ((), w\<lparr>w_files := fs\<rparr>)) = Inr (a, w')"
  then obtain fs where fs: "local_delete (w_root w) (w_files w) key = Inr fs" "w' = w\<lparr>w_files := fs\<rparr>"
    by (auto split: sum.splits)
  then obtain p where "unlink (w_files w) p = Inr fs" by (auto simp: local_delete_def split: sum.splits)
  then have "fs_ok rt fs" using w by (auto simp: holds_result_def intro: unlink_ok)
  moreover have "local_delete rt (w_files w) key = Inr fs" using fs(1) w by (simp add: holds_result_def)
  then have "local_get rt fs (py_join ''/'' cs) = local_get rt (w_files w) (py_join ''/'' cs)"
    using assms by (intro local.del_other) auto
  ultimately show "holds_result h r rt cs d w' \<and> True" using w fs(2) by (simp add: holds_result_def)
qed

text \<open>A candidate the sweep may take without touching the result.\<close>

definition harmless :: "string \<Rightarrow> handle_row \<Rightarrow> path \<Rightarrow> path \<Rightarrow> candidate \<Rightarrow> bool" where
  "harmless h r rt cs c \<longleftrightarrow>
     (c_handle c = h \<longrightarrow> c_pinned c = truthy (jget (h_payload r) ''pinned''))
     \<and> (c_handle c \<noteq> h \<longrightarrow> (\<forall>s. c_key c = JStr s \<longrightarrow>
          local_path rt s \<noteq> local_path rt (py_join ''/'' cs)))"

lemma update_handle_holds:
  assumes "holds_result h r rt cs d w" and "h' \<noteq> h"
    and "update_handle now ws h' [(''status'', JStr ''expired''), (''storage_key'', JNull)] (w_handles w) = Inr (x, t)"
  shows "holds_result h r rt cs d (w\<lparr>w_handles := t\<rparr>)"
proof -
  let ?p = "[(''status'', JStr ''expired''), (''storage_key'', JNull)]"
  from update_handle_Inr [OF assms(3)] obtain old where old: "get_handle (w_handles w) ws h' = Inr old"
    "h_payload x = dict_merge (h_payload old) ?p"
    "x = old\<lparr>h_payload := h_payload x, h_updated_at := h_updated_at x\<rparr>"
    "t = w_handles w \<or> t = row_put h_handle x (w_handles w)" by blast
  have hx: "h_handle x = h'" using old(1) by (subst old(3)) (auto dest: get_handle_mem)
  have key: "jget (h_payload x) ''storage_key'' = JNull"
    by (simp add: old(2) dict_merge_Cons)
  have ok: "handles_ok t" using assms by (auto simp: holds_result_def intro: update_handle_ok)
  have row: "row_of_handle t h = Some r"
    using assms(1,2) old(4) hx by (auto simp: holds_result_def row_of_handle_put)
  have mem: "y \<in> set t \<Longrightarrow> y = x \<or> y \<in> set (w_handles w)" for y
    using old(4) by (auto dest: set_row_put)
  show ?thesis
    using assms(1) ok row key mem unfolding holds_result_def by fastforce
qed

lemma yields_evict_one:
  assumes "harmless h r rt cs c" and "c_handle c \<noteq> h"
  shows "yields (holds_result h r rt cs d) (evict_one now c) (\<lambda>_. True)"
  unfolding evict_one_def
proof (intro yields_bind yields_seq)
  show "yields (holds_result h r rt cs d) (lift_sum (json_key (c_key c))) (\<lambda>key. c_key c = JStr key)"
    by (rule yields_lift) (auto simp: json_key_def split: json.splits)
  fix key
  assume key: "c_key c = JStr key"
  show "yields (holds_result h r rt cs d) (op_delete_blob key) (\<lambda>_. True)"
    using assms key by (intro yields_delete_blob) (auto simp: harmless_def)
  show "yields (holds_result h r rt cs d)
      (op_update_handle (c_ws c) (c_handle c) [(''status'', JStr ''expired''), (''storage_key'', JNull)]) (\<lambda>_. True)"
    unfolding op_update_handle_def
    by (rule yields_io) (auto split: sum.splits intro: update_handle_holds [OF _ assms(2)])
next
  show "yields (holds_result h r rt cs d) (op_record_event ws hh ty det) (\<lambda>_. True)" for ws hh ty det
    unfolding op_record_event_def by (rule yields_io) (auto simp: holds_result_def)
  show "yields (holds_result h r rt cs d) (expire_job_of hh) (\<lambda>_. True)" for hh
    unfolding expire_job_of_def
    by (rule yields_io) (auto simp: holds_result_def split: option.splits if_splits sum.splits)
qed

lemma yields_size_of: "yields (holds_result h r rt cs d) (size_of p) (\<lambda>_. True)"
proof -
  have "yields (holds_result h r rt cs d) (case e of KeyError x \<Rightarrow> e_ret None | _ \<Rightarrow> e_raise e) (\<lambda>_. True)" for e :: exn
    by (cases e) (simp_all add: yields_ret yields_raise)
  then show ?thesis
    unfolding size_of_def
    by (auto split: option.splits
        intro!: yields_ret yields_catch yields_bind [where Q = "\<lambda>_. True"] yields_lift yields_read)
qed

lemma yields_build_candidates:
  "distinct (map h_handle rows) \<Longrightarrow> (\<And>x c n. x \<in> set rows \<Longrightarrow> harmless h r rt cs (candidate_of cfg costs x n)) \<Longrightarrow>
   yields (holds_result h r rt cs d) (build_candidates cfg costs rows)
     (\<lambda>xs. distinct xs \<and> (\<forall>c \<in> set xs. harmless h r rt cs c \<and> c_handle c \<in> h_handle ` set rows))"
proof (induction rows)
  case Nil
  then show ?case by (simp add: yields_ret)
next
  case (Cons x rows)
  then have IH: "yields (holds_result h r rt cs d) (build_candidates cfg costs rows)
     (\<lambda>xs. distinct xs \<and> (\<forall>c \<in> set xs. harmless h r rt cs c \<and> c_handle c \<in> h_handle ` set rows))"
    by simp
  have "c_handle (candidate_of cfg costs x n) = h_handle x" for n by (simp add: candidate_of_def)
  then show ?case
    unfolding build_candidates.simps using Cons.prems
    by (intro yields_bind [OF yields_size_of] yields_bind [OF IH] yields_ret)
      (auto split: option.splits)
qed

lemma candidate_harmless:
  assumes w: "holds_result h r rt cs d w" and x: "x \<in> set (w_handles w)"
  shows "harmless h r rt cs (candidate_of cfg costs x n)"
proof (cases "h_handle x = h")
  case True
  have "row_of_handle (w_handles w) (h_handle x) = Some x"
    using w x by (intro row_of_handle_of_mem) (auto simp: holds_result_def)
  then have "x = r" using w True by (simp add: holds_result_def)
  then show ?thesis using True by (simp add: harmless_def candidate_of_def)
next
  case False
  then show ?thesis using w x
    by (auto simp: harmless_def candidate_of_def holds_result_def)
qed

lemma yields_candidates:
  "yields (holds_result h r rt cs d) (candidates cfg) (\<lambda>xs. distinct xs \<and> (\<forall>c \<in> set xs. harmless h r rt cs c))"
  unfolding candidates_def
proof (rule yields_bind)
  show "yields (holds_result h r rt cs d)
     (e_read (\<lambda>w. let rows = filter ready_row (w_handles w)
                  in Inr (rows, rebuild_costs (w_jobs w) (map h_handle rows))))
     (\<lambda>(rows, costs). distinct (map h_handle rows)
        \<and> (\<forall>x \<in> set rows. \<forall>n. harmless h r rt cs (candidate_of cfg costs x n)))"
    by (rule yields_read)
      (auto simp: Let_def holds_result_def handles_ok_def distinct_map_filter intro: candidate_harmless)
next
  fix x :: "handle_row list \<times> (string \<times> rat) list"
  assume "case x of (rows, costs) \<Rightarrow> distinct (map h_handle rows)
     \<and> (\<forall>x \<in> set rows. \<forall>n. harmless h r rt cs (candidate_of cfg costs x n))"
  then show "yields (holds_result h r rt cs d)
      (case x of (rows, costs) \<Rightarrow> build_candidates cfg costs rows)
      (\<lambda>xs. distinct xs \<and> (\<forall>c \<in> set xs. harmless h r rt cs c))"
    by (auto intro!: yields_weaken [OF yields_build_candidates] split: prod.splits)
qed

lemma yields_evict_over_cap:
  assumes "truthy (jget (h_payload r) ''pinned'') \<or> prot = Some h"
  shows "yields (holds_result h r rt cs d) (evict_over_cap cfg prot) (\<lambda>_. True)"
  unfolding evict_over_cap_def
proof (rule yields_bind [OF yields_candidates])
  fix xs
  assume xs: "distinct xs \<and> (\<forall>c \<in> set xs. harmless h r rt cs c)"
  have loop: "yields (holds_result h r rt cs d)
      (evict_loop m fs now (sum_list (map c_size xs)) (held_by xs) (sort_queues now (build_queues prot xs)))
      (\<lambda>_. True)" for m fs now
  proof -
    obtain sel where sel: "evict_loop m fs now (sum_list (map c_size xs)) (held_by xs)
        (sort_queues now (build_queues prot xs)) = e_each (evict_one now) sel"
      "set sel \<subseteq> {c \<in> set xs. may_evict prot c}"
      using loop_evicts [of xs m fs now prot] xs by blast
    have "c \<in> set sel \<Longrightarrow> harmless h r rt cs c \<and> c_handle c \<noteq> h" for c
      using sel(2) xs assms by (auto simp: may_evict_def harmless_def)
    then show ?thesis unfolding sel(1) by (intro yields_each yields_evict_one) auto
  qed
  show "yields (holds_result h r rt cs d)
     (let tot = sum_list (map c_size xs);
          pinned_bytes = sum_list (map c_size (filter c_pinned xs));
          held = held_by xs; qs = build_queues prot xs
      in if tot \<le> x_max_bytes cfg then e_ret ()
         else if pinned_bytes > x_max_bytes cfg then e_ret ()
         else e_bind (e_gets w_now) (\<lambda>now.
           if held = [] \<or> list_ex (\<lambda>(_, q). list_ex (\<lambda>c. c_cost c = 0) q) qs
           then e_raise ZeroDivisionError
           else evict_loop (x_max_bytes cfg) (of_int (x_max_bytes cfg) / of_nat (length held)) now
                  tot held (sort_queues now qs)))
     (\<lambda>_. True)"
    unfolding Let_def
    using loop by (auto intro!: yields_ret yields_raise yields_bind [OF yields_gets [where Q = "\<lambda>_. True"]])
qed

lemma listed_key_clean:
  assumes "fs_ok rt fs" and "key \<in> set (local_list rt fs pre)"
  shows "\<exists>cs. clean_path cs \<and> key = py_join ''/'' cs \<and> local_path rt key = Inr (rt @ cs)"
proof -
  obtain p where p: "p \<in> fst ` set (fs_files fs)" "strict_prefix rt p" "key = key_of_path rt p"
    using assms(2) by (auto simp: local_list_def)
  obtain cs where cs: "p = rt @ cs" using p(2) by (auto simp: strict_prefix_def prefix_def)
  have "map_of (fs_files fs) p \<noteq> None" using p(1) by (metis map_of_eq_None_iff)
  then have "clean_path cs" using assms(1) p(2) cs unfolding fs_ok_def by (metis append_eq_conv_conj)
  then show ?thesis using p(3) cs by (auto simp: key_of_clean local_path_clean)
qed

lemma yields_reclaim_orphans: "yields (holds_result h r rt cs d) reclaim_orphans (\<lambda>_. True)"
  unfolding reclaim_orphans_def
proof (rule yields_bind)
  show "yields (holds_result h r rt cs d) (e_read (\<lambda>w. Inr (referenced_storage_keys (w_handles w))))
      (\<lambda>ref. JStr (py_join ''/'' cs) \<in> set ref)"
  proof (rule yields_read)
    fix w a
    assume w: "holds_result h r rt cs d w" and a: "Inr (referenced_storage_keys (w_handles w)) = (Inr a :: exn + json list)"
    have "r \<in> set (w_handles w)" using w by (auto simp: holds_result_def dest: row_of_handle_mem)
    moreover have "py_join ''/'' cs \<noteq> []"
      using w split_clean [of cs] by (auto simp: holds_result_def clean_path_def)
    ultimately show "JStr (py_join ''/'' cs) \<in> set a"
      using w a by (force simp: referenced_storage_keys_def holds_result_def)
  qed
  fix ref :: "json list"
  assume ref: "JStr (py_join ''/'' cs) \<in> set ref"
  have keys: "yields (holds_result h r rt cs d) (op_list_blobs pre)
      (\<lambda>keys. \<forall>key \<in> set keys. key \<noteq> py_join ''/'' cs \<longrightarrow> local_path rt key \<noteq> local_path rt (py_join ''/'' cs))" for pre
    unfolding op_list_blobs_def
  proof (rule yields_read)
    fix w a
    assume w: "holds_result h r rt cs d w" and a: "Inr (local_list (w_root w) (w_files w) pre) = (Inr a :: exn + string list)"
    show "\<forall>key \<in> set a. key \<noteq> py_join ''/'' cs \<longrightarrow> local_path rt key \<noteq> local_path rt (py_join ''/'' cs)"
    proof (intro ballI impI)
      fix key
      assume key: "key \<in> set a" "key \<noteq> py_join ''/'' cs"
      have "fs_ok rt (w_files w)" "w_root w = rt" "clean_path cs" using w by (simp_all add: holds_result_def)
      then obtain cs' where "key = py_join ''/'' cs'" "local_path rt key = Inr (rt @ cs')"
        using listed_key_clean [of rt "w_files w" key pre] key(1) a by auto
      then show "local_path rt key \<noteq> local_path rt (py_join ''/'' cs)"
        using key(2) local_path_clean [OF \<open>clean_path cs\<close>, of rt] by auto
    qed
  qed
  show "yields (holds_result h r rt cs d)
      (e_each (\<lambda>pre. e_bind (op_list_blobs pre) (\<lambda>keys.
         e_each (\<lambda>key. e_when (JStr key \<notin> set ref) (op_delete_blob key)) keys))
        MATERIALIZATION_PREFIXES) (\<lambda>_. True)"
    using ref by (intro yields_each yields_bind [OF keys] yields_when yields_delete_blob) auto
qed

lemma yields_sweep:
  assumes "truthy (jget (h_payload r) ''pinned'') \<or> prot = Some h"
  shows "yields (holds_result h r rt cs d) (sweep cfg prot) (\<lambda>_. True)"
proof -
  have "yields (holds_result h r rt cs d) (reclaim_orphans_if_due cfg) (\<lambda>_. True)"
    unfolding reclaim_orphans_if_due_def
    by (intro yields_bind [OF yields_gets [where Q = "\<lambda>_. True"]])
      (auto intro!: yields_ret yields_seq yields_modify yields_reclaim_orphans
        simp: holds_result_def split: prod.splits)
  then show ?thesis unfolding sweep_def by (intro yields_seq yields_evict_over_cap assms)
qed

text \<open>
  C11: A sweep never costs a protected result. Whatever the cache holds, and whichever database,
  storage or queue call fails on the way (before or after it took effect), the handle of a result
  that is pinned, or whose materialization triggered the sweep, keeps its row, and its blob is
  still readable under its key; and the sweep keeps the invariants of all tables, moves jobs only
  along legal transitions and changes no handle's owner.
\<close>

theorem protected_result_survives:
  assumes "holds_result h r rt cs d w"
    and "truthy (jget (h_payload r) ''pinned'') \<or> prot = Some h"
    and "sweep cfg prot w = (res, w')"
  shows "row_of_handle (w_handles w') h = Some r
    \<and> local_get rt (w_files w') (py_join ''/'' cs) = Inr d \<and> evolves w w'"
proof -
  have "holds_result h r rt cs d w'"
    using yieldsD [OF yields_sweep [OF assms(2)] assms(1,3)] by simp
  moreover have "evolves w w'" by (rule keepsD [OF keeps_sweep assms(3)])
  ultimately show ?thesis by (simp add: holds_result_def)
qed

section \<open>Without faults\<close>

lemma next_io_calm: "w_io w = [] \<Longrightarrow> next_io w = (Io_ok, w)"
  by (simp add: next_io_def)

lemma e_io_calm:
  "w_io w = [] \<Longrightarrow> e_io f w = (case f w of Inl e \<Rightarrow> (Inl e, w) | Inr (a, w2) \<Rightarrow> (Inr a, w2))"
  by (simp add: e_io_def next_io_calm)

lemma e_read_calm: "w_io w = [] \<Longrightarrow> e_read f w = (f w, w)"
  by (simp add: e_read_def e_io_calm split: sum.splits)

subsection \<open>One eviction\<close>

lemma expire_update:
  assumes "handles_ok t" and "row_of_handle t h = Some r" and "h_workspace_id r = ws"
    and "jget (h_payload r) ''status'' \<noteq> JStr ''expired''"
  shows "\<exists>r'. update_handle now ws h [(''status'', JStr ''expired''), (''storage_key'', JNull)] t
      = Inr (r', row_put h_handle r' t)
    \<and> r' = r\<lparr>h_payload := h_payload r', h_updated_at := now\<rparr>
    \<and> (\<forall>k. jget (h_payload r') k = (if k = ''status'' then JStr ''expired'' else if k = ''storage_key'' then JNull
                                 else jget (h_payload r) k))"
proof -
  define p where "p = dict_merge (h_payload r) [(''status'', JStr ''expired''), (''storage_key'', JNull)]"
  have p: "jget p k = (if k = ''status'' then JStr ''expired'' else if k = ''storage_key'' then JNull
      else jget (h_payload r) k)" for k
    by (simp add: p_def dict_merge_Cons)
  let ?r = "r\<lparr>h_payload := p, h_updated_at := now\<rparr>"
  have ne: "p \<noteq> h_payload r" using assms(4) p [of "''status''"] by auto
  have sig: "signature_of ?r = signature_of r" by (simp add: signature_of_def payload_text_def p)
  have "\<not> index_conflict ?r t"
    using assms(1,2) sig by (intro no_conflict_same_signature [of t r]) (auto dest: row_of_handle_mem)
  moreover have "get_handle t ws h = Inr r" using assms(2,3) by (simp add: get_handle_Inr_iff)
  ultimately have "update_handle now ws h [(''status'', JStr ''expired''), (''storage_key'', JNull)] t
      = Inr (?r, row_put h_handle ?r t)"
    using ne by (simp add: update_handle_def Let_def p_def)
  then show ?thesis using p by (intro exI [of _ ?r]) simp
qed

lemma expire_job_calm:
  assumes "w_io w = []" and "jobs_ok (w_jobs w)"
  shows "\<exists>t. expire_job_of h w = (Inr (), w\<lparr>w_jobs := t\<rparr>)
    \<and> (\<forall>j. get_job_by_obs_handle (w_jobs w) h = Some j \<longrightarrow> j_state j = READY \<longrightarrow>
        (\<exists>j'. get_job t (j_id j) = Some j' \<and> j_state j' = EXPIRED))"
proof (cases "\<exists>j. get_job_by_obs_handle (w_jobs w) h = Some j \<and> j_state j = READY")
  case True
  then obtain j where j: "get_job_by_obs_handle (w_jobs w) h = Some j" "j_state j = READY" by blast
  then have "j \<in> set (w_jobs w)" by (auto simp: get_job_by_obs_handle_def dest!: newest_Some)
  then have found: "get_job (w_jobs w) (j_id j) = Some j" by (rule get_job_of_mem [OF assms(2)])
  obtain j' where j': "set_state (w_now w) j EXPIRED [] = Inr j'"
    using set_state_Inr_iff [of "w_now w" j EXPIRED "[]"] j(2) by (auto simp: legal_step.simps)
  have "j_id j' = j_id j" "j_state j' = EXPIRED"
    using set_state_ok [OF j'] by (simp_all add: same_job_def)
  moreover have "get_job (w_jobs w) (j_id j) \<noteq> Some j'" using found j(2) \<open>j_state j' = EXPIRED\<close> by auto
  ultimately have "get_job (commit_job (w_now w) j' (w_jobs w)) (j_id j) = Some (j'\<lparr>j_updated_at := w_now w\<rparr>)"
    using found by (simp add: commit_job_get)
  moreover have "transition_state (w_now w) (j_id j) EXPIRED [] (w_jobs w) = Inr (commit_job (w_now w) j' (w_jobs w))"
    using found j' by (simp add: transition_state_def)
  ultimately show ?thesis
    using j assms(1) \<open>j_state j' = EXPIRED\<close> by (auto simp: expire_job_of_def e_io_calm)
next
  case False
  then have "expire_job_of h w = (Inr (), w)"
    using assms(1) by (auto simp: expire_job_of_def e_io_calm split: option.splits)
  then show ?thesis using False by (intro exI [of _ "w_jobs w"]) auto
qed

text \<open>
  What an eviction leaves behind. Evicting a ready result succeeds when nothing fails: its blob
  is gone; its handle is marked expired with the storage key cleared and every other field kept, so
  that resolving it raises the error that tells a caller the result was evicted; the expiry is on
  the handle's timeline; and the job that built it, if it was ready, is expired.
\<close>

theorem eviction_recorded:
  assumes "w_io w = []" and "world_ok w"
    and "row_of_handle (w_handles w) h = Some r" and "ready_row r" and "h = mint_handle (h_type r) tok"
    and "jget (h_payload r) ''storage_key'' = JStr key"
    and "local_delete (w_root w) (w_files w) key = Inr fs"
    and "c = candidate_of cfg costs r n"
  shows "\<exists>w'. evict_one (w_now w) c w = (Inr (), w')
    \<and> local_get (w_root w) (w_files w') key = Inl (KeyError key)
    \<and> (\<exists>m. resolve_materialized (w_handles w') (h_workspace_id r) h = Inl (EvictedResultError m))
    \<and> (\<exists>r'. row_of_handle (w_handles w') h = Some r' \<and> (\<forall>k. k \<noteq> ''status'' \<and> k \<noteq> ''storage_key'' \<longrightarrow>
            jget (h_payload r') k = jget (h_payload r) k))
    \<and> v_type (last (w_events w')) = E_EXPIRED \<and> v_handle (last (w_events w')) = h
    \<and> (\<forall>j. get_job_by_obs_handle (w_jobs w) h = Some j \<and> j_state j = READY \<longrightarrow>
        (\<exists>j'. get_job (w_jobs w') (j_id j) = Some j' \<and> j_state j' = EXPIRED))"
proof -
  let ?ws = "h_workspace_id r"
  have c: "c_handle c = h" "c_ws c = ?ws" "c_key c = JStr key"
    using assms(3,6,8) by (auto simp: candidate_of_def dest: row_of_handle_mem)
  define w1 where "w1 = w\<lparr>w_files := fs\<rparr>"
  have "jget (h_payload r) ''status'' \<noteq> JStr ''expired''" using assms(4) by (simp add: ready_row_def)
  then obtain r' where r': "update_handle (w_now w) ?ws h [(''status'', JStr ''expired''), (''storage_key'', JNull)]
        (w_handles w) = Inr (r', row_put h_handle r' (w_handles w))"
    "r' = r\<lparr>h_payload := h_payload r', h_updated_at := w_now w\<rparr>"
    "\<And>k. jget (h_payload r') k = (if k = ''status'' then JStr ''expired''
        else if k = ''storage_key'' then JNull else jget (h_payload r) k)"
    using expire_update [of "w_handles w" h r ?ws "w_now w"] assms(2,3) by (auto simp: world_ok_def)
  have hr': "h_handle r' = h" "h_workspace_id r' = ?ws" "h_type r' = h_type r"
    using row_of_handle_mem [OF assms(3)] by (subst r'(2), simp)+
  define w2 where "w2 = w1\<lparr>w_handles := row_put h_handle r' (w_handles w)\<rparr>"
  define det where "det = [(''size_bytes'', JInt (c_size c)), (''reason'', JStr ''cache_eviction_cap''),
    (''rebuild_cost_seconds'', JFloat (c_cost c)), (''score'', JFloat (score (w_now w) c)),
    (''speculative'', JBool (c_speculative c))]"
  define w3 where "w3 = w2\<lparr>w_events := record_event (w_secrets w) (w_now w) ?ws h E_EXPIRED det (w_events w)\<rparr>"
  have w3: "w_io w3 = []" "w_jobs w3 = w_jobs w" "w_handles w3 = row_put h_handle r' (w_handles w)"
    "w_files w3 = fs" "w_events w3 = record_event (w_secrets w) (w_now w) ?ws h E_EXPIRED det (w_events w)"
    using assms(1) by (simp_all add: w1_def w2_def w3_def)
  obtain t where t: "expire_job_of h w3 = (Inr (), w3\<lparr>w_jobs := t\<rparr>)"
    "\<And>j. get_job_by_obs_handle (w_jobs w) h = Some j \<Longrightarrow> j_state j = READY \<Longrightarrow>
      \<exists>j'. get_job t (j_id j) = Some j' \<and> j_state j' = EXPIRED"
    using expire_job_calm [of w3 h] w3 assms(2) by (auto simp: world_ok_def)
  have run: "evict_one (w_now w) c w = (Inr (), w3\<lparr>w_jobs := t\<rparr>)"
    using assms(1,7) r'(1) t(1)
    by (simp add: evict_one_def c json_key_def lift_sum_def eff_simps op_delete_blob_def e_io_calm
        op_update_handle_def op_record_event_def w1_def w2_def w3_def det_def)
  let ?w = "w3\<lparr>w_jobs := t\<rparr>"
  have blob: "local_get (w_root w) (w_files ?w) key = Inl (KeyError key)"
    using local.del_get [OF assms(7), of key] w3(4) by simp
  have row: "row_of_handle (w_handles ?w) h = Some r'"
    using assms(3) hr' w3(3) by (simp add: row_of_handle_put)
  have "handle_type_of h = Inr (h_type r)" using assms(5) by simp
  moreover have "h_type r = OBS \<or> h_type r = CUBE" using assms(4) by (simp add: ready_row_def evictable_type_def)
  moreover have "get_handle (w_handles ?w) ?ws h = Inr r'" using row hr' by (simp add: get_handle_Inr_iff)
  ultimately have res: "\<exists>m. resolve_materialized (w_handles ?w) ?ws h = Inl (EvictedResultError m)"
    using r'(3) [of "''status''"] by (auto simp: resolve_materialized_def Let_def)
  have "v_type (last (w_events ?w)) = E_EXPIRED \<and> v_handle (last (w_events ?w)) = h"
    by (simp add: w3(5) record_event_def)
  then show ?thesis using run blob row res r'(3) t(2) assms(1) by auto
qed

subsection \<open>The orphan pass\<close>

lemma join_clean_inj: "clean_path cs \<Longrightarrow> clean_path cs' \<Longrightarrow> py_join ''/'' cs = py_join ''/'' cs' \<longleftrightarrow> cs = cs'"
  by (metis split_clean)

lemma distinct_local_list: "fs_ok rt fs \<Longrightarrow> distinct (local_list rt fs pre)"
proof -
  assume ok: "fs_ok rt fs"
  let ?ps = "filter (strict_prefix rt) (map fst (fs_files fs))"
  have clean: "\<exists>cs. p = rt @ cs \<and> clean_path cs" if path: "p \<in> set ?ps" for p
  proof -
    obtain cs where cs: "p = rt @ cs" using path by (auto simp: strict_prefix_def prefix_def)
    have "map_of (fs_files fs) p \<noteq> None" unfolding map_of_eq_None_iff using path by simp
    moreover have "strict_prefix rt p" using path by simp
    ultimately have "clean_path (drop (length rt) p)" using ok unfolding fs_ok_def by metis
    then show ?thesis using cs by auto
  qed
  have "inj_on (key_of_path rt) (set ?ps)"
  proof (rule inj_onI)
    fix p q
    assume "p \<in> set ?ps" "q \<in> set ?ps" and eq: "key_of_path rt p = key_of_path rt q"
    then obtain cs cs' where "p = rt @ cs" "q = rt @ cs'" "clean_path cs" "clean_path cs'"
      using clean by metis
    then show "p = q" using eq by (simp add: key_of_clean join_clean_inj)
  qed
  moreover have "distinct ?ps" using ok by (simp add: fs_ok_def)
  ultimately have "distinct (map (key_of_path rt) ?ps)" by (simp add: distinct_map)
  then show ?thesis by (simp add: local_list_def)
qed

lemma delete_file:
  assumes "fs_ok rt fs" and "clean_path cs" and "map_of (fs_files fs) (rt @ cs) \<noteq> None"
  shows "\<exists>fs'. local_delete rt fs (py_join ''/'' cs) = Inr fs' \<and> fs_ok rt fs'
    \<and> (\<forall>p. map_of (fs_files fs') p = (if p = rt @ cs then None else map_of (fs_files fs) p))"
proof -
  have "rt @ cs \<notin> set (fs_dirs fs)" using assms unfolding fs_ok_def by metis
  then obtain fs' where u: "unlink fs (rt @ cs) = Inr fs'" using assms(3) by (auto simp: unlink_def)
  then have "local_delete rt fs (py_join ''/'' cs) = Inr fs'"
    by (simp add: local_delete_def local_path_clean [OF assms(2)])
  then show ?thesis using unlink_ok [OF u assms(1)] unlink_Inr [OF u] by auto
qed

lemma delete_each:
  assumes "w_io w = []" and "fs_ok (w_root w) (w_files w)" and "distinct (map (py_join ''/'') css)"
    and "\<And>cs. cs \<in> set css \<Longrightarrow> clean_path cs \<and> map_of (fs_files (w_files w)) (w_root w @ cs) \<noteq> None"
  shows "\<exists>fs'. e_each (\<lambda>key. e_when (u key) (op_delete_blob key)) (map (py_join ''/'') css) w
        = (Inr (), w\<lparr>w_files := fs'\<rparr>) \<and> fs_ok (w_root w) fs'
    \<and> (\<forall>p. map_of (fs_files fs') p = (if \<exists>cs \<in> set css. p = w_root w @ cs \<and> u (py_join ''/'' cs) then None
          else map_of (fs_files (w_files w)) p))"
  using assms
proof (induction css arbitrary: w)
  case Nil
  then show ?case by (intro exI [of _ "w_files w"]) (simp add: eff_simps)
next
  case (Cons cs css)
  let ?rt = "w_root w"
  have cs: "clean_path cs" "map_of (fs_files (w_files w)) (?rt @ cs) \<noteq> None" using Cons.prems(4) by auto
  have new: "cs \<notin> set css" using Cons.prems(3) by auto
  show ?case
  proof (cases "u (py_join ''/'' cs)")
    case False
    obtain fs' where "e_each (\<lambda>key. e_when (u key) (op_delete_blob key)) (map (py_join ''/'') css) w
        = (Inr (), w\<lparr>w_files := fs'\<rparr>)" "fs_ok ?rt fs'"
      "\<forall>p. map_of (fs_files fs') p = (if \<exists>cs \<in> set css. p = ?rt @ cs \<and> u (py_join ''/'' cs) then None
          else map_of (fs_files (w_files w)) p)"
      using Cons.IH [of w] Cons.prems by auto
    moreover have "e_when (u (py_join ''/'' cs)) (op_delete_blob (py_join ''/'' cs)) w = (Inr (), w)"
      using False by (simp add: eff_simps)
    ultimately show ?thesis using False by (intro exI [of _ fs']) (auto simp: e_seq_run)
  next
    case True
    obtain fs1 where fs1: "local_delete ?rt (w_files w) (py_join ''/'' cs) = Inr fs1" "fs_ok ?rt fs1"
      "\<forall>p. map_of (fs_files fs1) p = (if p = ?rt @ cs then None else map_of (fs_files (w_files w)) p)"
      using delete_file [OF Cons.prems(2) cs] by blast
    have "\<exists>fs'. e_each (\<lambda>key. e_when (u key) (op_delete_blob key)) (map (py_join ''/'') css) (w\<lparr>w_files := fs1\<rparr>)
        = (Inr (), (w\<lparr>w_files := fs1\<rparr>)\<lparr>w_files := fs'\<rparr>) \<and> fs_ok (w_root (w\<lparr>w_files := fs1\<rparr>)) fs'
      \<and> (\<forall>p. map_of (fs_files fs') p =
          (if \<exists>cs \<in> set css. p = w_root (w\<lparr>w_files := fs1\<rparr>) @ cs \<and> u (py_join ''/'' cs) then None
           else map_of (fs_files (w_files (w\<lparr>w_files := fs1\<rparr>))) p))"
    proof (rule Cons.IH)
      fix cs'
      assume "cs' \<in> set css"
      then show "clean_path cs' \<and> map_of (fs_files (w_files (w\<lparr>w_files := fs1\<rparr>))) (w_root (w\<lparr>w_files := fs1\<rparr>) @ cs') \<noteq> None"
        using Cons.prems(4) [of cs'] fs1(3) new by auto
    qed (use Cons.prems fs1 in auto)
    then obtain fs' where fs': "e_each (\<lambda>key. e_when (u key) (op_delete_blob key)) (map (py_join ''/'') css)
          (w\<lparr>w_files := fs1\<rparr>) = (Inr (), w\<lparr>w_files := fs'\<rparr>)" "fs_ok ?rt fs'"
      "\<forall>p. map_of (fs_files fs') p = (if \<exists>cs \<in> set css. p = ?rt @ cs \<and> u (py_join ''/'' cs) then None
           else map_of (fs_files fs1) p)" by (auto cong: if_cong)
    have "e_when (u (py_join ''/'' cs)) (op_delete_blob (py_join ''/'' cs)) w = (Inr (), w\<lparr>w_files := fs1\<rparr>)"
      using fs1(1) Cons.prems(1) True by (simp add: op_delete_blob_def e_io_calm eff_simps)
    then show ?thesis using True fs' fs1(3) by (intro exI [of _ fs']) (auto simp: e_seq_run)
  qed
qed

text \<open>One pass over the prefixes, with the keys referenced at its start.\<close>

definition orphan :: "json list \<Rightarrow> string list \<Rightarrow> path \<Rightarrow> bool" where
  "orphan ref pres cs \<longleftrightarrow> clean_path cs \<and> JStr (py_join ''/'' cs) \<notin> set ref
     \<and> list_ex (py_startswith (py_join ''/'' cs)) pres"

lemma reclaim_prefixes:
  assumes "w_io w = []" and "fs_ok (w_root w) (w_files w)"
  shows "\<exists>fs'. e_each (\<lambda>pre. e_bind (op_list_blobs pre) (\<lambda>keys.
           e_each (\<lambda>key. e_when (JStr key \<notin> set ref) (op_delete_blob key)) keys)) pres w
        = (Inr (), w\<lparr>w_files := fs'\<rparr>) \<and> fs_ok (w_root w) fs'
    \<and> (\<forall>p. map_of (fs_files fs') p = (if \<exists>cs. p = w_root w @ cs \<and> orphan ref pres cs then None
          else map_of (fs_files (w_files w)) p))"
  using assms
proof (induction pres arbitrary: w)
  case Nil
  then show ?case by (intro exI [of _ "w_files w"]) (simp add: eff_simps orphan_def)
next
  case (Cons pre pres)
  let ?rt = "w_root w" and ?keys = "local_list (w_root w) (w_files w) pre"
  define css where "css = map (py_split (CHR ''/'')) ?keys"
  have key: "clean_path (py_split (CHR ''/'') k) \<and> py_join ''/'' (py_split (CHR ''/'') k) = k" if "k \<in> set ?keys" for k
    using listed_key_clean [OF Cons.prems(2), of k pre] that by (auto simp: split_clean)
  then have keys: "map (py_join ''/'') css = ?keys" by (simp add: css_def map_idI)
  have css: "cs \<in> set css \<longleftrightarrow> clean_path cs \<and> map_of (fs_files (w_files w)) (?rt @ cs) \<noteq> None
      \<and> py_startswith (py_join ''/'' cs) pre" for cs
  proof
    assume "cs \<in> set css"
    then obtain k where "k \<in> set ?keys" "cs = py_split (CHR ''/'') k" by (auto simp: css_def)
    then show "clean_path cs \<and> map_of (fs_files (w_files w)) (?rt @ cs) \<noteq> None
        \<and> py_startswith (py_join ''/'' cs) pre"
      using key [of k] listed_iff [OF Cons.prems(2), of cs pre] by simp
  next
    assume a: "clean_path cs \<and> map_of (fs_files (w_files w)) (?rt @ cs) \<noteq> None
        \<and> py_startswith (py_join ''/'' cs) pre"
    then have "py_join ''/'' cs \<in> set ?keys" using listed_iff [OF Cons.prems(2), of cs pre] by simp
    then show "cs \<in> set css" using a split_clean [of cs] by (force simp: css_def)
  qed
  have "distinct (map (py_join ''/'') css)" using distinct_local_list [OF Cons.prems(2)] keys by simp
  then obtain fs1 where fs1: "e_each (\<lambda>key. e_when (JStr key \<notin> set ref) (op_delete_blob key)) ?keys w
      = (Inr (), w\<lparr>w_files := fs1\<rparr>)" "fs_ok ?rt fs1"
    "\<forall>p. map_of (fs_files fs1) p = (if \<exists>cs \<in> set css. p = ?rt @ cs \<and> JStr (py_join ''/'' cs) \<notin> set ref then None
          else map_of (fs_files (w_files w)) p)"
    using delete_each [OF Cons.prems, of css "\<lambda>key. JStr key \<notin> set ref"] css keys by auto
  obtain fs' where fs': "e_each (\<lambda>pre. e_bind (op_list_blobs pre) (\<lambda>keys.
           e_each (\<lambda>key. e_when (JStr key \<notin> set ref) (op_delete_blob key)) keys)) pres (w\<lparr>w_files := fs1\<rparr>)
        = (Inr (), w\<lparr>w_files := fs'\<rparr>)" "fs_ok ?rt fs'"
    "\<forall>p. map_of (fs_files fs') p = (if \<exists>cs. p = ?rt @ cs \<and> orphan ref pres cs then None else map_of (fs_files fs1) p)"
    using Cons.IH [of "w\<lparr>w_files := fs1\<rparr>"] Cons.prems(1) fs1(2) by (auto cong: if_cong)
  have "map_of (fs_files fs') p = (if \<exists>cs. p = ?rt @ cs \<and> orphan ref (pre # pres) cs then None
      else map_of (fs_files (w_files w)) p)" for p
    using fs'(3) fs1(3) css by (auto simp: orphan_def)
  moreover have "e_bind (op_list_blobs pre) (\<lambda>keys.
      e_each (\<lambda>key. e_when (JStr key \<notin> set ref) (op_delete_blob key)) keys) w = (Inr (), w\<lparr>w_files := fs1\<rparr>)"
    using fs1(1) Cons.prems(1) by (simp add: e_bind_run op_list_blobs_def e_read_calm)
  ultimately show ?case
    using fs'(1,2) by (intro exI [of _ fs']) (simp add: e_seq_run)
qed

text \<open>
  The orphan pass, when nothing fails and nobody else runs, deletes exactly the blobs under the
  four materialization prefixes whose key no \<open>obs\<close> or \<open>cube\<close> handle references. Every referenced
  blob and every blob elsewhere reads as before, and nothing but the object store changes.
\<close>

theorem orphan_reclamation_exact:
  assumes "w_io w = []" and "fs_ok (w_root w) (w_files w)" and "clean_path cs"
  shows "\<exists>w'. reclaim_orphans w = (Inr (), w') \<and> w' = w\<lparr>w_files := w_files w'\<rparr>
    \<and> local_get (w_root w) (w_files w') (py_join ''/'' cs) =
        (if JStr (py_join ''/'' cs) \<notin> set (referenced_storage_keys (w_handles w))
            \<and> list_ex (py_startswith (py_join ''/'' cs)) MATERIALIZATION_PREFIXES
         then Inl (KeyError (py_join ''/'' cs))
         else local_get (w_root w) (w_files w) (py_join ''/'' cs))"
proof -
  let ?ref = "referenced_storage_keys (w_handles w)"
  obtain fs' where fs': "reclaim_orphans w = (Inr (), w\<lparr>w_files := fs'\<rparr>)"
    "\<forall>p. map_of (fs_files fs') p = (if \<exists>cs. p = w_root w @ cs \<and> orphan ?ref MATERIALIZATION_PREFIXES cs
        then None else map_of (fs_files (w_files w)) p)"
    using reclaim_prefixes [OF assms(1,2), of ?ref MATERIALIZATION_PREFIXES] assms(1)
    by (auto simp: reclaim_orphans_def eff_simps e_read_calm)
  then show ?thesis
    using assms(3) by (intro exI [of _ "w\<lparr>w_files := fs'\<rparr>"])
      (simp add: local_get_def local_path_clean orphan_def)
qed

section \<open>A sample cache\<close>

definition sample_result :: handle_row where
  "sample_result =
     \<lparr>h_handle = ''obs_a'', h_workspace_id = ''alice'', h_type = OBS,
      h_payload = [(''status'', JStr ''ready''), (''storage_key'', JStr ''harmony/a''), (''pinned'', JBool True)],
      h_created_at = 1, h_updated_at = 2, h_last_accessed_at = None\<rparr>"

definition sample_store :: world where
  "sample_store = initial_world
     \<lparr>w_handles := [sample_result],
      w_files := \<lparr>fs_files = [([''data'', ''harmony'', ''a''], ''xyz''), ([''data'', ''harmony'', ''b''], ''old'')],
                  fs_dirs = [[], [''data''], [''data'', ''harmony'']]\<rparr>\<rparr>"

lemma sample_store_fs: "fs_ok [''data''] (w_files sample_store)"
  by (auto simp: fs_ok_def sample_store_def clean_path_def split: if_splits)

lemma sample_store_ok: "world_ok sample_store"
  by (simp add: sample_store_def initial_world_def world_ok_def jobs_ok_def handles_ok_def edges_ok_def
      sample_result_def)

lemma sample_path: "clean_path [''harmony'', ''a'']"
  by (simp add: clean_path_def)

lemma sample_holds:
  "holds_result ''obs_a'' sample_result [''data''] [''harmony'', ''a''] ''xyz'' (sample_store\<lparr>w_io := fl\<rparr>)"
  using sample_store_fs sample_store_ok local_path_clean [OF sample_path, of "[''data'']"]
  by (simp add: holds_result_def sample_path world_ok_def)
    (simp add: sample_store_def initial_world_def row_of_handle_def row_get_def sample_result_def
      evictable_type_def jget_def local_get_def)

lemma protected_result_survives_witness:
  "local_get [''data''] (w_files (snd (sweep \<lparr>x_max_bytes = 1, x_default_cost = 60, x_orphan_interval = 0\<rparr> None
      (sample_store\<lparr>w_io := [(7, Io_ok), (2, Io_after (RuntimeError ''database''))]\<rparr>)))) ''harmony/a'' = Inr ''xyz''"
proof -
  let ?w = "sample_store\<lparr>w_io := [(7, Io_ok), (2, Io_after (RuntimeError ''database''))]\<rparr>"
  let ?cfg = "\<lparr>x_max_bytes = 1, x_default_cost = 60, x_orphan_interval = 0\<rparr>"
  have "truthy (jget (h_payload sample_result) ''pinned'') \<or> None = Some ''obs_a''"
    by (simp add: sample_result_def jget_def)
  then show ?thesis
    using protected_result_survives [OF sample_holds, of None ?cfg _ "fst (sweep ?cfg None ?w)" "snd (sweep ?cfg None ?w)"]
    by simp
qed

lemma eviction_recorded_witness:
  "\<exists>w'. evict_one 0 (candidate_of \<lparr>x_max_bytes = 1, x_default_cost = 60, x_orphan_interval = 0\<rparr> []
          sample_result 3) sample_store = (Inr (), w')
     \<and> local_get [''data''] (w_files w') ''harmony/a'' = Inl (KeyError ''harmony/a'')
     \<and> (\<exists>m. resolve_materialized (w_handles w') ''alice'' ''obs_a'' = Inl (EvictedResultError m))"
proof -
  have st: "w_io sample_store = []" "w_now sample_store = 0" "w_root sample_store = [''data'']"
    "row_of_handle (w_handles sample_store) ''obs_a'' = Some sample_result"
    by (simp_all add: sample_store_def initial_world_def row_of_handle_def row_get_def sample_result_def)
  have row: "ready_row sample_result" "''obs_a'' = mint_handle (h_type sample_result) ''a''"
    "jget (h_payload sample_result) ''storage_key'' = JStr ''harmony/a''" "h_workspace_id sample_result = ''alice''"
    by (simp_all add: sample_result_def ready_row_def evictable_type_def jget_def mint_handle_def)
  have "local_delete (w_root sample_store) (w_files sample_store) ''harmony/a''
      = Inr \<lparr>fs_files = [([''data'', ''harmony'', ''b''], ''old'')], fs_dirs = [[], [''data''], [''data'', ''harmony'']]\<rparr>"
    using local_path_clean [OF sample_path, of "[''data'']"]
    by (simp add: local_delete_def sample_store_def initial_world_def unlink_def)
  then show ?thesis
    using eviction_recorded [OF st(1) sample_store_ok st(4) row(1-3) _ HOL.refl] by (simp add: st row(4)) blast
qed

lemma orphan_reclamation_exact_witness:
  "\<exists>w'. reclaim_orphans sample_store = (Inr (), w')
     \<and> local_get [''data''] (w_files w') ''harmony/b'' = Inl (KeyError ''harmony/b'')"
proof -
  have st: "w_io sample_store = []" "w_root sample_store = [''data'']"
    by (simp_all add: sample_store_def initial_world_def)
  have b: "clean_path [''harmony'', ''b'']" by (simp add: clean_path_def)
  have "JStr ''harmony/b'' \<notin> set (referenced_storage_keys (w_handles sample_store))
      \<and> list_ex (py_startswith ''harmony/b'') MATERIALIZATION_PREFIXES"
    by (simp add: referenced_storage_keys_def sample_store_def initial_world_def sample_result_def
        evictable_type_def jget_def MATERIALIZATION_PREFIXES_def)
  then show ?thesis
    using orphan_reclamation_exact [OF st(1) _ b] sample_store_fs by (simp add: st(2)) blast
qed

end
