(* ===== verification/Worker.thy ===== *)
theory Worker
  imports Lifecycle EvictionSafety
begin

text \<open>
  The worker's tasks (\<open>jobs/worker.py\<close>) as operations on the world: submit, poll and materialize, the
  reclaim passes at boot and on the timer, and the best-effort bookkeeping around them, with every
  exception path. A retrieval provider is three operations; which one a spec gets is \<open>build\<close>
  (\<open>providers/__init__.py\<close>). The capabilities fetch, the providers' own calls to NASA's services and the
  settings are fields of \<open>worker_env\<close>. Sessions that read and then write one row are one operation of
  the world where nothing happens in between. Logging is left out.
\<close>

section \<open>Environment\<close>

record retrieval_provider =
  pv_submit :: "retrieval_plan \<Rightarrow> job_ref op"
  pv_poll :: "job_ref \<Rightarrow> job_status op"
  pv_materialize :: "job_ref \<Rightarrow> materialized_result op"

record worker_env =
  wk_platform :: platform
  wk_credential_key :: string
  wk_exn_text :: "exn \<Rightarrow> string"
  wk_exn_type :: "exn \<Rightarrow> string"
  wk_show_time :: "time \<Rightarrow> string"
  wk_show_float :: "rat \<Rightarrow> string"
  wk_capabilities :: "string option \<Rightarrow> json \<Rightarrow> capabilities op"
  wk_harmony :: "capabilities \<Rightarrow> json \<Rightarrow> string option \<Rightarrow> retrieval_provider"
  wk_appeears :: "capabilities \<Rightarrow> string option \<Rightarrow> retrieval_provider"
  wk_opendap :: "capabilities \<Rightarrow> request_spec \<Rightarrow> string option \<Rightarrow> retrieval_provider"
  wk_evict :: evict_cfg
  wk_prefetch :: prefetch_env
  wk_stale_after_days :: int
  wk_stalled_after_seconds :: int
  wk_materializing_stalled_after_seconds :: int

definition POLL_INTERVAL :: nat where
  "POLL_INTERVAL = 5"

definition POLL_TRANSIENT_RETRY_INTERVAL :: nat where
  "POLL_TRANSIENT_RETRY_INTERVAL = 30"

definition DEFAULT_WORKSPACE :: string where
  "DEFAULT_WORKSPACE = ''default''"

definition build :: "worker_env \<Rightarrow> request_spec \<Rightarrow> capabilities \<Rightarrow> string option \<Rightarrow> exn + retrieval_provider" where
  "build wk spec caps edl_token =
     (if rs_provider spec = JStr ''harmony'' then Inr (wk_harmony wk caps (rs_service_name spec) edl_token)
      else if rs_provider spec = JStr ''appeears'' then Inr (wk_appeears wk caps edl_token)
      else if rs_provider spec = JStr ''opendap'' then Inr (wk_opendap wk caps spec edl_token)
      else Inl (ValueError ''no retrieval provider for spec provider''))"

definition load_provider :: "worker_env \<Rightarrow> request_spec \<Rightarrow> string option \<Rightarrow> retrieval_provider op" where
  "load_provider wk spec edl_token =
     e_bind (wk_capabilities wk edl_token (rs_concept_id spec)) (\<lambda>caps. lift_sum (build wk spec caps edl_token))"

section \<open>Best-effort bookkeeping\<close>

definition maybe_prefetch_safe ::
  "worker_env \<Rightarrow> request_spec \<Rightarrow> bool \<Rightarrow> int option \<Rightarrow> string option \<Rightarrow> unit op" where
  "maybe_prefetch_safe wk spec speculative_origin size_bytes cred =
     swallow (e_bind (maybe_prefetch (wk_prefetch wk) spec speculative_origin size_bytes cred) (\<lambda>d. e_ret ()))"

definition sweep_eviction_safe :: "worker_env \<Rightarrow> string option \<Rightarrow> unit op" where
  "sweep_eviction_safe wk protected_handle = swallow (sweep (wk_evict wk) protected_handle)"

definition record_event_safe :: "json \<Rightarrow> json \<Rightarrow> event_type \<Rightarrow> dict \<Rightarrow> unit op" where
  "record_event_safe workspace_id handle event_type detail =
     (if \<not> truthy workspace_id \<or> \<not> truthy handle then e_ret ()
      else swallow (e_bind (op_text workspace_id) (\<lambda>ws.
             e_bind (op_text handle) (\<lambda>h. op_record_event ws h event_type detail))))"

definition mark_restricted_safe :: "json \<Rightarrow> unit op" where
  "mark_restricted_safe concept_id =
     (if \<not> truthy concept_id then e_ret () else swallow (e_bind (op_text concept_id) op_mark_restricted))"

section \<open>Failing a job\<close>

definition message_of :: "worker_env \<Rightarrow> exn \<Rightarrow> string op" where
  "message_of wk e = e_gets (\<lambda>w. exc_message (w_secrets w) (wk_exn_text wk) (wk_exn_type wk) e)"

definition fail_job ::
  "worker_env \<Rightarrow> string \<Rightarrow> request_spec \<Rightarrow> string \<Rightarrow> exn \<Rightarrow> string option \<Rightarrow> string option \<Rightarrow> dict \<Rightarrow> unit op" where
  "fail_job wk job_id spec stage e error_prefix classification detail_extra =
     e_bind (message_of wk e) (\<lambda>message.
       let pre = (case error_prefix of
                    Some p \<Rightarrow> p
                  | None \<Rightarrow> stage @ ''/'' @ py_str (pf_show (wk_platform wk)) (rs_provider spec) @ '' failed'');
           detail = [(''stage'', JStr stage), (''provider'', rs_provider spec),
                     (''error_type'', JStr (exn_type (wk_exn_type wk) e)), (''message'', JStr message)] @
                    (case classification of None \<Rightarrow> [] | Some c \<Rightarrow> [(''classification'', JStr c)])
       in e_seq (op_transition job_id FAILED [C_error (Some (pre @ '': '' @ message))])
            (record_event_safe (rs_workspace_id spec) (rs_obs_handle spec) E_JOB_FAILED
               (dict_merge detail detail_extra)))"

definition load_spec_or_fail :: "worker_env \<Rightarrow> string \<Rightarrow> dict \<Rightarrow> request_spec option op" where
  "load_spec_or_fail wk job_id raw_spec =
     (case from_jsonb raw_spec of
        Inr spec \<Rightarrow> e_ret (Some spec)
      | Inl (InvalidSpecError m) \<Rightarrow>
          e_seq (op_transition job_id FAILED
                   [C_error (Some (''invalid job spec: '' @ exn_str (wk_exn_text wk) (InvalidSpecError m)))])
            (e_ret None)
      | Inl e \<Rightarrow> e_raise e)"

definition load_job_identity ::
  "worker_env \<Rightarrow> string \<Rightarrow> request_spec \<Rightarrow> string \<Rightarrow> string option \<Rightarrow> edl_identity option op" where
  "load_job_identity wk job_id spec stage cred =
     (case cred of
        None \<Rightarrow> e_ret None
      | Some blob \<Rightarrow>
          if blob = [] then e_ret None
          else
            e_catch
              (e_bind (op_decrypt (wk_platform wk) (wk_credential_key wk) blob) (\<lambda>token.
               e_bind (op_parse_token (wk_platform wk) (Some token)) (\<lambda>identity.
               e_bind (e_gets (\<lambda>w. (w_secrets w, w_now w))) (\<lambda>(ss, now).
                 case identity of
                   Some i \<Rightarrow>
                     if is_expired i now
                     then e_raise (cred_error ss TOKEN_EXPIRED ''the job's stored credential has expired mid-job'' None)
                     else e_ret identity
                 | None \<Rightarrow> e_ret identity))))
              (\<lambda>e. e_seq (fail_job wk job_id spec stage e (Some ''job credential unusable'') (classification_of e) [])
                     (e_raise e)))"

definition fail_classified_credential ::
  "worker_env \<Rightarrow> string \<Rightarrow> request_spec \<Rightarrow> string \<Rightarrow> exn \<Rightarrow> unit op" where
  "fail_classified_credential wk job_id spec stage credential_exc =
     (let eula = (case credential_exc of CredentialError EULA_NOT_ACCEPTED m u \<Rightarrow> True | _ \<Rightarrow> False);
          url = (case credential_exc of CredentialError c m u \<Rightarrow> u | _ \<Rightarrow> None);
          extra = (case url of
                     Some u \<Rightarrow> if eula \<and> u \<noteq> [] then [(''resolution_url'', JStr u)] else []
                   | None \<Rightarrow> [])
      in e_seq (e_when eula (mark_restricted_safe (rs_concept_id spec)))
           (fail_job wk job_id spec stage credential_exc None (classification_of credential_exc) extra))"

text \<open>\<open>classify_credential_failure(exc, identity) if isinstance(exc, Exception) else None\<close>.\<close>

definition classify_failure :: "worker_env \<Rightarrow> exn \<Rightarrow> edl_identity option \<Rightarrow> exn option op" where
  "classify_failure wk e identity =
     (if is_Exception e
      then e_bind (e_gets (\<lambda>w. (w_secrets w, w_now w))) (\<lambda>(ss, now).
             lift_sum (classify_credential_failure (wk_platform wk) ss now e identity))
      else e_ret None)"

definition token_of :: "edl_identity option \<Rightarrow> string option" where
  "token_of i = map_option id_token i"

section \<open>Delivered content\<close>

definition delivered_projection :: "worker_env \<Rightarrow> materialization \<Rightarrow> exn + dict" where
  "delivered_projection wk r =
     s_bind (content_digest (pf_sha (wk_platform wk)) (wk_show_float wk) r) (\<lambda>d.
     s_bind (case mz_granule_ids r of
               None \<Rightarrow> Inr []
             | Some ids \<Rightarrow> s_bind (py_frozenset ids) (\<lambda>xs.
                 Inr [(''granule_count'', JInt (int (length (remdups xs))))])) (\<lambda>count.
       Inr ([(''content_digest'', JStr d), (''partial'', JBool (partial r))] @ count)))"

definition log_materialization_drift :: "worker_env \<Rightarrow> string \<Rightarrow> request_spec \<Rightarrow> materialization \<Rightarrow> unit op" where
  "log_materialization_drift wk job_id spec r =
     (if \<not> truthy (rs_obs_handle spec) then e_ret ()
      else
        e_bind (e_catch (e_bind (op_text (rs_obs_handle spec)) (\<lambda>h.
                 e_bind (e_read (\<lambda>w. Inr (previous_materialization (w_jobs w) h job_id))) (\<lambda>p. e_ret (Some p))))
                 (\<lambda>e. if is_Exception e then e_ret None else e_raise e)) (\<lambda>previous.
        case previous of
          None \<Rightarrow> e_ret ()
        | Some data \<Rightarrow>
            e_bind (lift_sum (materialization_from_jsonb data)) (\<lambda>prior.
            case prior of
              None \<Rightarrow> e_ret ()
            | Some p \<Rightarrow>
                lift_sum (s_bind (content_digest (pf_sha (wk_platform wk)) (wk_show_float wk) p) (\<lambda>a.
                          s_bind (content_digest (pf_sha (wk_platform wk)) (wk_show_float wk) r) (\<lambda>b. Inr ()))))))"

section \<open>Submit\<close>

text \<open>The row rewritten for the OPeNDAP fallback; the result says whether it was still there.\<close>

definition op_fallback :: "string \<Rightarrow> bool op" where
  "op_fallback job_id =
     e_io (\<lambda>w. case get_job (w_jobs w) job_id of
                 None \<Rightarrow> Inr (False, w)
               | Some job \<Rightarrow>
                   Inr (True, w\<lparr>w_jobs := commit_job (w_now w)
                          (job\<lparr>j_provider := ''opendap'',
                               j_request_spec := AList.update ''provider'' (JStr ''opendap'') (j_request_spec job)\<rparr>)
                          (w_jobs w)\<rparr>))"

definition error_detail :: "worker_env \<Rightarrow> exn \<Rightarrow> string \<Rightarrow> json" where
  "error_detail wk e message =
     JObj [(''error_type'', JStr (exn_type (wk_exn_type wk) e)), (''message'', JStr message)]"

definition submit_failed :: "worker_env \<Rightarrow> string \<Rightarrow> request_spec \<Rightarrow> edl_identity option \<Rightarrow> exn \<Rightarrow> unit op" where
  "submit_failed wk job_id spec identity e =
     e_bind (classify_failure wk e identity) (\<lambda>credential_exc.
     case credential_exc of
       Some c \<Rightarrow> e_seq (fail_classified_credential wk job_id spec ''submit'' c) (e_raise e)
     | None \<Rightarrow>
         if rs_provider spec \<noteq> JStr ''harmony'' then
           e_seq (fail_job wk job_id spec ''submit'' e None None []) (e_raise e)
         else
         e_bind (e_gets (\<lambda>w. classify_submit_failure (w_secrets w) (wk_exn_text wk) (wk_exn_type wk) e)) (\<lambda>cls.
         e_bind (message_of wk e) (\<lambda>message.
         if cls = ''infrastructure'' \<and> rs_opendap_urls spec \<noteq> [] then
           e_seq (record_event_safe (rs_workspace_id spec) (rs_obs_handle spec) E_PROVIDER_FALLBACK
                    [(''from_provider'', JStr ''harmony''), (''to_provider'', JStr ''opendap''),
                     (''reason'', error_detail wk e message)])
             (e_bind (op_fallback job_id) (\<lambda>present.
                e_when present (op_enqueue ''submit_job'' job_id None None)))
         else if cls = ''invalid_request'' then
           e_seq (fail_job wk job_id spec ''submit'' e (Some ''Harmony rejected the request'') (Some cls) [])
             (e_raise e)
         else
           e_seq (record_event_safe (rs_workspace_id spec) (rs_obs_handle spec) E_OPENDAP_NOT_APPLICABLE
                    [(''harmony_error'', error_detail wk e message),
                     (''reason'', JStr ''no_opendap_endpoint_discovered''),
                     (''output_shape'', rs_output_shape spec), (''had_bbox'', JBool (rs_aoi_bbox spec \<noteq> None))])
           (e_seq (fail_job wk job_id spec ''submit'' e
                     (Some ''Harmony failed and no OPeNDAP fallback is available for this collection'') (Some cls) [])
             (e_raise e)))))"

definition submit_loaded :: "worker_env \<Rightarrow> string \<Rightarrow> job \<Rightarrow> request_spec \<Rightarrow> unit op" where
  "submit_loaded wk job_id job spec =
     e_bind (load_job_identity wk job_id spec ''submit'' (j_credential_encrypted job)) (\<lambda>identity.
     e_bind (load_provider wk spec (token_of identity)) (\<lambda>provider.
     e_bind (lift_sum (to_plan spec)) (\<lambda>plan.
     e_bind (e_catch (e_bind (pv_submit provider plan) (\<lambda>ref. e_ret (Some ref)))
               (\<lambda>e. e_seq (submit_failed wk job_id spec identity e) (e_ret None))) (\<lambda>submitted.
     case submitted of
       None \<Rightarrow> e_ret ()
     | Some ref \<Rightarrow>
         e_seq (op_transition job_id SUBMITTED [C_provider_job_url (jr_job_url ref)])
         (e_seq (record_event_safe (rs_workspace_id spec) (rs_obs_handle spec) E_SUBMITTED
                   [(''provider'', rs_provider spec)])
           (op_enqueue ''poll_job'' job_id None None))))))"

definition submit_job :: "worker_env \<Rightarrow> string \<Rightarrow> unit op" where
  "submit_job wk job_id =
     e_bind (op_get_job job_id) (\<lambda>found.
     case found of
       None \<Rightarrow> e_ret ()
     | Some job \<Rightarrow>
         if j_state job \<noteq> PENDING then e_ret ()
         else e_bind (load_spec_or_fail wk job_id (j_request_spec job)) (\<lambda>loaded.
           case loaded of None \<Rightarrow> e_ret () | Some spec \<Rightarrow> submit_loaded wk job_id job spec))"

section \<open>Poll\<close>

text \<open>The second session of a poll: the row stamped and moved, and the task to queue next.\<close>

definition op_apply_poll :: "string \<Rightarrow> job_status \<Rightarrow> string option op" where
  "op_apply_poll job_id status =
     e_io (\<lambda>w. case get_job (w_jobs w) job_id of
                 None \<Rightarrow> Inr (None, w)
               | Some job \<Rightarrow>
                   if j_state job \<in> TERMINAL_STATES then Inr (None, w)
                   else
                     (case apply_poll (w_now w) (job\<lparr>j_last_polled_at := Some (w_now w)\<rparr>) status of
                        Inl e \<Rightarrow> Inl e
                      | Inr (job', next_task) \<Rightarrow>
                          Inr (next_task, w\<lparr>w_jobs := commit_job (w_now w) job' (w_jobs w)\<rparr>)))"

definition poll_failed :: "worker_env \<Rightarrow> string \<Rightarrow> request_spec \<Rightarrow> edl_identity option \<Rightarrow> exn \<Rightarrow> job_status op" where
  "poll_failed wk job_id spec identity e =
     (if \<not> is_Exception e \<or> is_transient_fault e then e_raise e
      else
        e_bind (classify_failure wk e identity) (\<lambda>credential_exc.
        e_seq (case credential_exc of
                 Some c \<Rightarrow> fail_classified_credential wk job_id spec ''poll'' c
               | None \<Rightarrow> fail_job wk job_id spec ''poll'' e None None [])
          (e_raise e)))"

definition ask_provider :: "worker_env \<Rightarrow> request_spec \<Rightarrow> string option \<Rightarrow> string option \<Rightarrow> job_status op" where
  "ask_provider wk spec edl_token url =
     e_bind (load_provider wk spec edl_token) (\<lambda>provider.
     e_bind (lift_sum (job_id_from_url url)) (\<lambda>provider_job_id.
       pv_poll provider
         \<lparr>jr_provider = rs_provider spec, jr_job_id = provider_job_id, jr_job_url = url, jr_job_handle = None\<rparr>))"

definition poll_loaded :: "worker_env \<Rightarrow> string \<Rightarrow> job \<Rightarrow> request_spec \<Rightarrow> unit op" where
  "poll_loaded wk job_id job spec =
     e_bind (load_job_identity wk job_id spec ''poll'' (j_credential_encrypted job)) (\<lambda>identity.
     e_bind (e_catch (ask_provider wk spec (token_of identity) (j_provider_job_url job))
               (poll_failed wk job_id spec identity)) (\<lambda>status.
     e_bind (op_apply_poll job_id status) (\<lambda>next_task.
       if next_task = Some ''materialize_job'' then op_enqueue ''materialize_job'' job_id None None
       else if next_task = Some ''poll_job'' then op_enqueue ''poll_job'' job_id None (Some POLL_INTERVAL)
       else e_ret ())))"

definition poll_once :: "worker_env \<Rightarrow> string \<Rightarrow> unit op" where
  "poll_once wk job_id =
     e_bind (op_get_job job_id) (\<lambda>found.
     case found of
       None \<Rightarrow> e_ret ()
     | Some job \<Rightarrow>
         if j_state job \<noteq> SUBMITTED \<and> j_state job \<noteq> RUNNING then e_ret ()
         else e_bind (load_spec_or_fail wk job_id (j_request_spec job)) (\<lambda>loaded.
           case loaded of None \<Rightarrow> e_ret () | Some spec \<Rightarrow> poll_loaded wk job_id job spec))"

definition poll_job :: "worker_env \<Rightarrow> string \<Rightarrow> unit op" where
  "poll_job wk job_id =
     e_catch (poll_once wk job_id) (\<lambda>e.
       if e \<noteq> CancelledError \<and> \<not> is_transient_fault e then e_raise e
       else e_seq (op_enqueue ''poll_job'' job_id None (Some POLL_TRANSIENT_RETRY_INTERVAL))
              (if e = CancelledError then e_raise e else e_ret ()))"

section \<open>Materialize\<close>

definition materialize_failed ::
  "worker_env \<Rightarrow> string \<Rightarrow> request_spec \<Rightarrow> edl_identity option \<Rightarrow> exn \<Rightarrow> materialized_result op" where
  "materialize_failed wk job_id spec identity e =
     e_bind (classify_failure wk e identity) (\<lambda>credential_exc.
     e_seq (case credential_exc of
              Some c \<Rightarrow> fail_classified_credential wk job_id spec ''materialize'' c
            | None \<Rightarrow> fail_job wk job_id spec ''materialize'' e None None [])
       (e_raise e))"

definition size_json :: "int option \<Rightarrow> json" where
  "size_json n = (case n of None \<Rightarrow> JNull | Some k \<Rightarrow> JInt k)"

definition resolve_obs_handle :: "worker_env \<Rightarrow> request_spec \<Rightarrow> materialized_result \<Rightarrow> materialization \<Rightarrow> unit op" where
  "resolve_obs_handle wk spec result r =
     (if \<not> truthy (rs_obs_handle spec) then e_ret ()
      else
        e_bind (op_text (py_or (rs_workspace_id spec) (JStr DEFAULT_WORKSPACE))) (\<lambda>ws.
        e_bind (op_text (rs_obs_handle spec)) (\<lambda>h.
        e_bind (lift_sum (delivered_projection wk r)) (\<lambda>projection.
        e_bind (op_update_handle ws h
                 ([(''status'', JStr ''ready''), (''storage_key'', JStr (mr_storage_key result)),
                   (''media_type'', JStr (mr_media_type result)), (''size_bytes'', size_json (mr_size_bytes result))] @
                  projection))
          (\<lambda>row. e_ret ())))))"

text \<open>From the delivered result to the ready handle and job.\<close>

definition record_delivery :: "worker_env \<Rightarrow> string \<Rightarrow> request_spec \<Rightarrow> materialized_result \<Rightarrow> unit op" where
  "record_delivery wk job_id spec result =
     e_bind (lift_sum (from_result result spec)) (\<lambda>r.
     e_seq (log_materialization_drift wk job_id spec r)
     (e_seq (resolve_obs_handle wk spec result r)
     (e_seq (record_event_safe (rs_workspace_id spec) (rs_obs_handle spec) E_MATERIALIZED
               [(''provider'', rs_provider spec), (''storage_key'', JStr (mr_storage_key result)),
                (''media_type'', JStr (mr_media_type result)), (''size_bytes'', size_json (mr_size_bytes result))])
     (e_bind (lift_sum (materialization_to_jsonb (pf_sha (wk_platform wk)) (wk_show_float wk) r)) (\<lambda>doc.
       op_transition job_id READY [C_progress 100, C_materialization (Some doc)])))))"

definition materialize_loaded :: "worker_env \<Rightarrow> string \<Rightarrow> job \<Rightarrow> request_spec \<Rightarrow> unit op" where
  "materialize_loaded wk job_id job spec =
     e_bind (load_job_identity wk job_id spec ''materialize'' (j_credential_encrypted job)) (\<lambda>identity.
     e_bind (load_provider wk spec (token_of identity)) (\<lambda>provider.
     e_bind (lift_sum (job_id_from_url (j_provider_job_url job))) (\<lambda>provider_job_id.
     e_bind
       (e_catch
         (pv_materialize provider
            \<lparr>jr_provider = rs_provider spec, jr_job_id = provider_job_id,
             jr_job_url = j_provider_job_url job, jr_job_handle = jstr (rs_job_handle spec)\<rparr>)
         (materialize_failed wk job_id spec identity)) (\<lambda>result.
     e_seq (record_delivery wk job_id spec result)
     (e_seq (sweep_eviction_safe wk (jstr (rs_obs_handle spec)))
       (maybe_prefetch_safe wk spec (j_speculative job) (mr_size_bytes result)
          (j_credential_encrypted job)))))))"

definition materialize_job :: "worker_env \<Rightarrow> string \<Rightarrow> unit op" where
  "materialize_job wk job_id =
     e_bind (op_get_job job_id) (\<lambda>found.
     case found of
       None \<Rightarrow> e_ret ()
     | Some job \<Rightarrow>
         if j_state job \<noteq> MATERIALIZING then e_ret ()
         else e_bind (load_spec_or_fail wk job_id (j_request_spec job)) (\<lambda>loaded.
           case loaded of None \<Rightarrow> e_ret () | Some spec \<Rightarrow> materialize_loaded wk job_id job spec))"

section \<open>Reclaiming\<close>

text \<open>One session: rows selected, triaged and committed together.\<close>

definition op_reclaim ::
  "worker_env \<Rightarrow> (world \<Rightarrow> job list) \<Rightarrow> (string \<times> job_state) list op" where
  "op_reclaim wk select =
     e_io (\<lambda>w. case triage_reclaimed (wk_exn_text wk) (wk_show_time wk) (w_now w)
                       (w_now w - wk_stale_after_days wk * 86400000000) (select w) of
                 Inl e \<Rightarrow> Inl e
               | Inr (changed, resumable) \<Rightarrow>
                   Inr (resumable, w\<lparr>w_jobs := fold (commit_job (w_now w)) changed (w_jobs w)\<rparr>))"

definition resume_all :: "(string \<times> job_state) list \<Rightarrow> unit op" where
  "resume_all resumable =
     e_each (\<lambda>(job_id, s).
       case RESUME_TASK s of
         None \<Rightarrow> e_ret ()
       | Some name \<Rightarrow> op_enqueue name job_id (Some (lifecycle_job_id name job_id)) None) resumable"

definition startup :: "worker_env \<Rightarrow> unit op" where
  "startup wk =
     e_seq (e_bind (op_reclaim wk (\<lambda>w. reclaim_non_terminal (w_jobs w))) resume_all)
       (sweep_eviction_safe wk None)"

definition sweep_stalled_jobs :: "worker_env \<Rightarrow> unit op" where
  "sweep_stalled_jobs wk =
     e_bind (e_gets w_now) (\<lambda>now.
     e_bind (op_reclaim wk (\<lambda>w. reclaim_stalled (w_jobs w) (now - wk_stalled_after_seconds wk * 1000000)
                              (Some (now - wk_materializing_stalled_after_seconds wk * 1000000))))
       resume_all)"

definition healthcheck :: "string op" where
  "healthcheck = e_ret ''ok''"

end
