(* ===== verification/WorkerSafety.thy ===== *)
theory WorkerSafety
  imports Worker
begin

text \<open>
  Whatever fails, the worker's tasks keep the invariants of the tables: one lemma per operation, then
  any interleaving of tasks with the rest of the system. The assumption on the environment is that the
  providers' calls and the capabilities fetch themselves only let the tables evolve.
\<close>

definition provider_evolves :: "retrieval_provider \<Rightarrow> bool" where
  "provider_evolves p \<longleftrightarrow> (\<forall>x. keeps evolves (pv_submit p x)) \<and> (\<forall>x. keeps evolves (pv_poll p x))
     \<and> (\<forall>x. keeps evolves (pv_materialize p x))"

definition env_evolves :: "worker_env \<Rightarrow> bool" where
  "env_evolves wk \<longleftrightarrow>
     (\<forall>t c. keeps evolves (wk_capabilities wk t c))
     \<and> (\<forall>spec caps t p. build wk spec caps t = Inr p \<longrightarrow> provider_evolves p)
     \<and> (\<forall>s t. keeps evolves (px_window_plan (wk_prefetch wk) s t))"

section \<open>The prefetcher\<close>

lemma keeps_decision:
  "(\<And>x y. keeps evolves (f x y)) \<Longrightarrow> keeps evolves (case p of (x, y) \<Rightarrow> f x y)"
  by (cases p) simp

lemma keeps_origin: "keeps evolves (origin_dataset_handle ws origin)"
proof -
  have "keeps evolves (case e of HandleNotFoundError x \<Rightarrow> e_ret JNull | CrossWorkspaceError x \<Rightarrow> e_ret JNull
          | _ \<Rightarrow> e_raise e)" for e
    by (cases e) (auto intro: keeps_evolves)
  then show ?thesis
    unfolding origin_dataset_handle_def by (intro keeps_evolves keeps_runtime)
qed

lemma keeps_enqueue_prefetch: "keeps evolves (enqueue_prefetch px p sg v origin ws c n)"
  unfolding enqueue_prefetch_def
  by (intro keeps_evolves keeps_runtime keeps_decision keeps_origin)

lemma keeps_maybe_prefetch:
  assumes "\<And>s t. keeps evolves (px_window_plan px s t)"
  shows "keeps evolves (maybe_prefetch px spec so n c)"
  unfolding maybe_prefetch_def prefetch_planned_def inherited_token_def scope_for_def
  by (intro keeps_evolves keeps_runtime keeps_enqueue_prefetch assms)

section \<open>Bookkeeping and failing\<close>

lemma keeps_record_event_safe: "keeps evolves (record_event_safe ws h ty d)"
  unfolding record_event_safe_def by (intro keeps_evolves keeps_runtime)

lemma keeps_mark_restricted_safe: "keeps evolves (mark_restricted_safe c)"
  unfolding mark_restricted_safe_def by (intro keeps_evolves keeps_runtime)

lemma keeps_sweep_safe: "keeps evolves (sweep_eviction_safe wk h)"
  unfolding sweep_eviction_safe_def by (intro keeps_swallow keeps_sweep)

lemma keeps_fail_job: "keeps evolves (fail_job wk i spec stage e pre c x)"
  unfolding fail_job_def message_of_def Let_def
  by (intro keeps_evolves keeps_runtime keeps_record_event_safe)

lemma keeps_load_spec: "keeps evolves (load_spec_or_fail wk i d)"
proof (cases "from_jsonb d")
  case (Inl e)
  then show ?thesis
    by (cases e) (auto simp: load_spec_or_fail_def intro: keeps_evolves keeps_runtime)
next
  case (Inr spec)
  then show ?thesis by (auto simp: load_spec_or_fail_def intro: keeps_evolves)
qed

lemma keeps_load_identity: "keeps evolves (load_job_identity wk i spec stage cred)"
  unfolding load_job_identity_def by (intro keeps_evolves keeps_runtime keeps_fail_job)

lemma keeps_fail_classified: "keeps evolves (fail_classified_credential wk i spec stage e)"
  unfolding fail_classified_credential_def Let_def
  by (intro keeps_evolves keeps_mark_restricted_safe keeps_fail_job)

lemma keeps_classify: "keeps evolves (classify_failure wk e i)"
  unfolding classify_failure_def by (intro keeps_evolves keeps_runtime)

lemma keeps_drift: "keeps evolves (log_materialization_drift wk i spec r)"
  unfolding log_materialization_drift_def by (intro keeps_evolves keeps_runtime)

lemma keeps_resolve: "keeps evolves (resolve_obs_handle wk spec result r)"
  unfolding resolve_obs_handle_def by (intro keeps_evolves keeps_runtime)

lemmas keeps_worker =
  keeps_runtime keeps_record_event_safe keeps_sweep_safe keeps_fail_job keeps_load_spec keeps_load_identity
  keeps_fail_classified keeps_classify keeps_drift keeps_resolve

section \<open>The two writes of the worker's own\<close>

lemma apply_poll_advances:
  assumes "apply_poll now job st = Inr (j, n)" and "j_state job \<notin> TERMINAL_STATES"
  shows "job_advances job j \<and> cred_at_rest j"
proof -
  have moved: "job_advances job (job\<lparr>j_progress := p, j_message := m\<rparr>) \<and> cred_at_rest (job\<lparr>j_progress := p, j_message := m\<rparr>)"
    for p m
    using assms(2) by (simp add: job_advances_def same_job_def cred_at_rest_def legal_path.refl)
  show ?thesis
    using assms(1) moved
    by (auto simp: apply_poll_def Let_def sum_simps split: job_state.splits if_splits
        intro: set_state_advances set_state_cred job_advances_trans)
qed

lemma evolves_commit:
  assumes "get_job (w_jobs w) i = Some old" and "job_advances old j" and "cred_at_rest old \<Longrightarrow> cred_at_rest j"
  shows "evolves w (w\<lparr>w_jobs := commit_job now j (w_jobs w)\<rparr>)"
proof (rule evolves_jobs, intro conjI)
  assume ok: "jobs_ok (w_jobs w)"
  have same: "same_job old j" using assms(2) by (simp add: job_advances_def)
  have i: "get_job (w_jobs w) (j_id j) = Some old"
    using assms(1) same by (auto simp: same_job_def dest: get_job_mem)
  have "cred_at_rest old" using ok i by (auto simp: jobs_ok_def list_all_iff dest: get_job_mem)
  then show "jobs_ok (commit_job now j (w_jobs w))" using commit_job_ok [OF ok i same assms(3)] by blast
  show "jobs_evolve (w_jobs w) (commit_job now j (w_jobs w))" by (rule commit_job_evolves [OF i assms(2)])
qed

lemma keeps_fallback: "keeps evolves (op_fallback i)"
  unfolding op_fallback_def
  by (rule keeps_io)
    (auto split: option.splits intro: evolves.R_refl evolves_commit
      simp: job_advances_def same_job_def cred_at_rest_def legal_path.refl)

lemma stamped_advances: "job_advances (job\<lparr>j_last_polled_at := t\<rparr>) j \<Longrightarrow> job_advances job j"
  by (simp add: job_advances_def same_job_def)

lemma keeps_apply_poll: "keeps evolves (op_apply_poll i status)"
  unfolding op_apply_poll_def
proof (rule keeps_io)
  fix w w' :: world and a
  assume run: "(case get_job (w_jobs w) i of
      None \<Rightarrow> Inr (None, w)
    | Some job \<Rightarrow>
        if j_state job \<in> TERMINAL_STATES then Inr (None, w)
        else (case apply_poll (w_now w) (job\<lparr>j_last_polled_at := Some (w_now w)\<rparr>) status of
                Inl e \<Rightarrow> Inl e
              | Inr (job', next_task) \<Rightarrow>
                  Inr (next_task, w\<lparr>w_jobs := commit_job (w_now w) job' (w_jobs w)\<rparr>))) = Inr (a, w')"
  show "evolves w w'"
  proof (cases "get_job (w_jobs w) i")
    case None
    with run show ?thesis by (simp add: evolves.R_refl)
  next
    case (Some job)
    show ?thesis
    proof (cases "j_state job \<in> TERMINAL_STATES")
      case True
      with run Some show ?thesis by (simp add: evolves.R_refl)
    next
      case False
      with run Some obtain j where
        j: "apply_poll (w_now w) (job\<lparr>j_last_polled_at := Some (w_now w)\<rparr>) status = Inr (j, a)"
        and w': "w' = w\<lparr>w_jobs := commit_job (w_now w) j (w_jobs w)\<rparr>"
        by (auto split: sum.splits)
      from apply_poll_advances [OF j] False show ?thesis
        unfolding w' by (intro evolves_commit [OF Some]) (auto dest: stamped_advances)
    qed
  qed
qed

section \<open>The reclaim pass\<close>

lemma triage_changed:
  assumes "triage_reclaimed txt sh now sb js = Inr (cs, rs)"
  shows "(\<forall>c \<in> set cs. \<exists>j \<in> set js. j_id c = j_id j \<and> job_advances j c \<and> j_state c = FAILED \<and> cred_at_rest c)
    \<and> (distinct (map j_id js) \<longrightarrow> distinct (map j_id cs))"
  using assms
proof (induction js arbitrary: cs rs)
  case Nil
  then show ?case by simp
next
  case (Cons job js)
  from Cons.prems obtain cs' rs' where rest: "triage_reclaimed txt sh now sb js = Inr (cs', rs')"
    and c: "cs = cs' \<or> (\<exists>c msg. cs = c # cs' \<and> set_state now job FAILED msg = Inr c)"
    by (auto simp: Let_def sum_simps split: sum.splits exn.splits if_splits)
  have new: "j_id c = j_id job \<and> job_advances job c \<and> j_state c = FAILED \<and> cred_at_rest c"
    if "set_state now job FAILED msg = Inr c" for c msg
    using that set_state_advances [OF that] set_state_cred [OF that]
    set_state_ok(2) [OF that]
    by (auto simp: job_advances_def same_job_def)
  show ?case using Cons.IH [OF rest] c new by fastforce
qed

lemma fold_commit:
  assumes "jobs_ok t" and "distinct (map j_id cs)"
    and "\<forall>c \<in> set cs. \<exists>old. get_job t (j_id c) = Some old \<and> job_advances old c \<and> cred_at_rest c"
  shows "jobs_ok (fold (commit_job now) cs t) \<and> jobs_evolve t (fold (commit_job now) cs t)
    \<and> (\<forall>i. i \<notin> j_id ` set cs \<longrightarrow> get_job (fold (commit_job now) cs t) i = get_job t i)
    \<and> (\<forall>c \<in> set cs. \<exists>j. get_job (fold (commit_job now) cs t) (j_id c) = Some j \<and> j_state j = j_state c)"
  using assms
proof (induction cs arbitrary: t)
  case Nil
  then show ?case by simp
next
  case (Cons c cs)
  obtain old where old: "get_job t (j_id c) = Some old" "job_advances old c" "cred_at_rest c"
    using Cons.prems(3) by auto
  let ?t = "commit_job now c t"
  have ok: "jobs_ok ?t" using commit_job_ok [OF Cons.prems(1) old(1) _ old(3)] old(2) by (simp add: job_advances_def)
  have other: "get_job ?t i = get_job t i" if "i \<noteq> j_id c" for i using that by (simp add: commit_job_get)
  have here: "\<exists>j. get_job ?t (j_id c) = Some j \<and> j_state j = j_state c"
    using old(1) by (auto simp: commit_job_get)
  have "\<forall>d \<in> set cs. \<exists>old. get_job ?t (j_id d) = Some old \<and> job_advances old d \<and> cred_at_rest d"
    using Cons.prems(2,3) other by (metis distinct.simps(2) image_eqI list.set_intros(2) list.set_map list.simps(9))
  then have ih: "jobs_ok (fold (commit_job now) cs ?t) \<and> jobs_evolve ?t (fold (commit_job now) cs ?t)
    \<and> (\<forall>i. i \<notin> j_id ` set cs \<longrightarrow> get_job (fold (commit_job now) cs ?t) i = get_job ?t i)
    \<and> (\<forall>c \<in> set cs. \<exists>j. get_job (fold (commit_job now) cs ?t) (j_id c) = Some j \<and> j_state j = j_state c)"
    using Cons.IH [OF ok] Cons.prems(2) by simp
  have "jobs_evolve t (fold (commit_job now) cs ?t)"
    using jobs_evolve_trans [OF commit_job_evolves [OF old(1,2)]] ih by blast
  moreover have "\<exists>j. get_job (fold (commit_job now) cs ?t) (j_id c) = Some j \<and> j_state j = j_state c"
    using ih here Cons.prems(2) by auto
  ultimately show ?case using ih other by auto
qed

text \<open>A selection of rows of the table, each at most once.\<close>

definition selects :: "(world \<Rightarrow> job list) \<Rightarrow> bool" where
  "selects sel \<longleftrightarrow> (\<forall>w. set (sel w) \<subseteq> set (w_jobs w) \<and> (distinct (map j_id (w_jobs w)) \<longrightarrow> distinct (map j_id (sel w))))"

lemma distinct_sorted_rows: "distinct (map key t) \<Longrightarrow> distinct (map key (sort_key f (filter P t)))"
proof -
  assume d: "distinct (map key t)"
  have "distinct (map key (filter P t))" by (rule distinct_map_filter [OF d])
  then show ?thesis by (auto simp: distinct_map intro: distinct_sort)
qed

lemma selects_reclaims:
  "selects (\<lambda>w. reclaim_non_terminal (w_jobs w))" "selects (\<lambda>w. reclaim_stalled (w_jobs w) a b)"
  by (auto simp: selects_def reclaim_non_terminal_def reclaim_stalled_def Let_def intro: distinct_sorted_rows)

lemma triage_commits:
  assumes "triage_reclaimed txt sh now sb (sel w) = Inr (cs, rs)" and "selects sel" and "jobs_ok (w_jobs w)"
  shows "distinct (map j_id cs)
    \<and> (\<forall>c \<in> set cs. \<exists>old. get_job (w_jobs w) (j_id c) = Some old \<and> job_advances old c \<and> cred_at_rest c)"
proof -
  from triage_changed [OF assms(1)]
  have c: "\<forall>c \<in> set cs. \<exists>j \<in> set (sel w). j_id c = j_id j \<and> job_advances j c \<and> cred_at_rest c"
    and d: "distinct (map j_id (sel w)) \<longrightarrow> distinct (map j_id cs)" by blast+
  have sub: "set (sel w) \<subseteq> set (w_jobs w)" "distinct (map j_id (sel w))"
    using assms(2,3) by (auto simp: selects_def jobs_ok_def)
  show ?thesis
  proof (intro conjI ballI)
    show "distinct (map j_id cs)" using d sub(2) by blast
    fix x
    assume "x \<in> set cs"
    then obtain j where "j \<in> set (sel w)" "j_id x = j_id j" "job_advances j x" "cred_at_rest x" using c by blast
    then show "\<exists>old. get_job (w_jobs w) (j_id x) = Some old \<and> job_advances old x \<and> cred_at_rest x"
      using get_job_of_mem [OF assms(3)] sub(1) by auto
  qed
qed

lemma keeps_reclaim: "selects sel \<Longrightarrow> keeps evolves (op_reclaim wk sel)"
  unfolding op_reclaim_def
  by (rule keeps_io) (auto split: sum.splits intro!: evolves_jobs dest!: triage_commits dest: fold_commit)

lemma keeps_resume_all: "keeps evolves (resume_all rs)"
  unfolding resume_all_def by (intro keeps_evolves keeps_runtime)

section \<open>The tasks\<close>

lemma keeps_load_provider: "env_evolves wk \<Longrightarrow> keeps evolves (load_provider wk spec t)"
  unfolding load_provider_def by (intro keeps_evolves keeps_runtime) (simp add: env_evolves_def)

lemma loaded_provider:
  assumes "env_evolves wk" and "load_provider wk spec t w = (Inr p, w')"
  shows "provider_evolves p"
proof -
  obtain caps where "build wk spec caps t = Inr p"
    using assms(2) by (auto simp: load_provider_def eff_simps lift_sum_def split: prod.splits sum.splits)
  then show ?thesis using assms(1) by (auto simp: env_evolves_def)
qed

lemma keeps_bind_provider:
  assumes "env_evolves wk" and "\<And>p. provider_evolves p \<Longrightarrow> keeps evolves (f p)"
  shows "keeps evolves (e_bind (load_provider wk spec t) f)"
proof (rule keepsI)
  fix w
  obtain r w1 where run: "load_provider wk spec t w = (r, w1)" by fastforce
  have e: "evolves w w1" by (rule keepsD [OF keeps_load_provider [OF assms(1)] run])
  show "evolves w (snd (e_bind (load_provider wk spec t) f w))"
  proof (cases r)
    case (Inl x)
    then show ?thesis using e by (simp add: e_bind_run run)
  next
    case (Inr p)
    then have "keeps evolves (f p)" using assms loaded_provider run by blast
    then show ?thesis using e Inr by (auto simp: e_bind_run run keeps_def intro: evolves.R_trans)
  qed
qed

lemma keeps_provider_calls:
  assumes "provider_evolves p"
  shows "keeps evolves (pv_submit p x)" "keeps evolves (pv_poll p y)" "keeps evolves (pv_materialize p y)"
  using assms by (auto simp: provider_evolves_def)

lemma keeps_submit_failed: "keeps evolves (submit_failed wk i spec idn e)"
  unfolding submit_failed_def message_of_def
  by (intro keeps_evolves keeps_worker keeps_fallback)

lemma keeps_submit_job:
  assumes "env_evolves wk"
  shows "keeps evolves (submit_job wk i)"
  unfolding submit_job_def submit_loaded_def
  by (rule evolves.keeps_bind [OF keeps_get_job])
    (intro keeps_evolves keeps_worker keeps_bind_provider [OF assms] keeps_submit_failed keeps_provider_calls;
     assumption)

lemma keeps_poll_job:
  assumes "env_evolves wk"
  shows "keeps evolves (poll_job wk i)"
  unfolding poll_job_def poll_once_def poll_failed_def poll_loaded_def ask_provider_def
  by (intro evolves.keeps_catch evolves.keeps_bind evolves.keeps_option keeps_get_job evolves.keeps_if
      keeps_bind_provider [OF assms] keeps_evolves keeps_worker keeps_apply_poll keeps_provider_calls;
     assumption)

lemma keeps_prefetch_safe: "env_evolves wk \<Longrightarrow> keeps evolves (maybe_prefetch_safe wk spec so n c)"
  unfolding maybe_prefetch_safe_def
  by (intro keeps_swallow keeps_evolves keeps_maybe_prefetch) (simp add: env_evolves_def)

lemma keeps_materialize_job:
  assumes "env_evolves wk"
  shows "keeps evolves (materialize_job wk i)"
  unfolding materialize_job_def materialize_failed_def materialize_loaded_def record_delivery_def
  by (intro evolves.keeps_bind evolves.keeps_option keeps_get_job evolves.keeps_if
      keeps_bind_provider [OF assms] keeps_evolves keeps_worker keeps_prefetch_safe [OF assms] keeps_provider_calls;
     assumption)

lemma keeps_startup: "keeps evolves (startup wk)"
  unfolding startup_def
  by (intro keeps_evolves keeps_reclaim selects_reclaims keeps_resume_all keeps_worker)

lemma keeps_sweep_stalled: "keeps evolves (sweep_stalled_jobs wk)"
  unfolding sweep_stalled_jobs_def
  by (intro keeps_evolves keeps_reclaim selects_reclaims keeps_resume_all)

section \<open>The system\<close>

text \<open>
  What runs: the worker's tasks and passes, and the rest of the system (the tools server, other worker
  processes, the outside world), which may do anything that lets the tables evolve.
\<close>

datatype activity =
    Submit string | Poll string | Materialize string | Startup | Sweep_stalled | Healthcheck

definition perform :: "worker_env \<Rightarrow> activity \<Rightarrow> unit op" where
  "perform wk a =
     (case a of
        Submit i \<Rightarrow> submit_job wk i
      | Poll i \<Rightarrow> poll_job wk i
      | Materialize i \<Rightarrow> materialize_job wk i
      | Startup \<Rightarrow> startup wk
      | Sweep_stalled \<Rightarrow> sweep_stalled_jobs wk
      | Healthcheck \<Rightarrow> e_bind healthcheck (\<lambda>_. e_ret ()))"

inductive runs :: "worker_env \<Rightarrow> world \<Rightarrow> activity list \<Rightarrow> world \<Rightarrow> bool" for wk where
  idle: "runs wk w [] w"
| act: "runs wk w as w1 \<Longrightarrow> perform wk a w1 = (r, w2) \<Longrightarrow> runs wk w (as @ [a]) w2"
| other: "runs wk w as w1 \<Longrightarrow> evolves w1 w2 \<Longrightarrow> runs wk w as w2"

lemma keeps_perform: "env_evolves wk \<Longrightarrow> keeps evolves (perform wk a)"
  by (cases a)
    (simp_all add: perform_def healthcheck_def keeps_submit_job keeps_poll_job keeps_materialize_job keeps_startup
      keeps_sweep_stalled keeps_evolves)

lemma runs_evolves: "runs wk w as w' \<Longrightarrow> env_evolves wk \<Longrightarrow> evolves w w'"
proof (induction rule: runs.induct)
  case (idle w)
  show ?case by (rule evolves.R_refl)
next
  case (act w as w1 a r w2)
  then show ?case using keepsD [OF keeps_perform] by (blast intro: evolves.R_trans)
next
  case (other w as w1 w2)
  then show ?case by (blast intro: evolves.R_trans)
qed


text \<open>A worker whose services answer at once, and a pending job.\<close>

definition sample_provider :: retrieval_provider where
  "sample_provider =
     \<lparr>pv_submit = (\<lambda>x. e_ret \<lparr>jr_provider = JStr ''harmony'', jr_job_id = Some ''h1'',
                          jr_job_url = Some ''https://harmony/jobs/h1'', jr_job_handle = None\<rparr>),
      pv_poll = (\<lambda>x. e_ret \<lparr>st_state = READY, st_progress = 100, st_message = None, st_output_expires_at = None,
                        st_error = None\<rparr>),
      pv_materialize = (\<lambda>x. e_ret (sample_delivery None))\<rparr>"

definition sample_worker :: worker_env where
  "sample_worker =
     \<lparr>wk_platform = sample_platform, wk_credential_key = [], wk_exn_text = (\<lambda>e. []), wk_exn_type = (\<lambda>e. []),
      wk_show_time = show_int, wk_show_float = (\<lambda>r. []), wk_capabilities = (\<lambda>t c. e_ret sample_caps),
      wk_harmony = (\<lambda>c s t. sample_provider), wk_appeears = (\<lambda>c t. sample_provider),
      wk_opendap = (\<lambda>c s t. sample_provider),
      wk_evict = \<lparr>x_max_bytes = 1000, x_default_cost = 60, x_orphan_interval = 3600\<rparr>,
      wk_prefetch = sample_prefetch, wk_stale_after_days = 30, wk_stalled_after_seconds = 600,
      wk_materializing_stalled_after_seconds = 7200\<rparr>"

definition job_world :: "job_state \<Rightarrow> world" where
  "job_world s = initial_world\<lparr>w_jobs :=
     [sample_job\<lparr>j_state := s, j_request_spec := to_jsonb sample_spec, j_credential_encrypted := None\<rparr>]\<rparr>"

lemma sample_worker_evolves: "env_evolves sample_worker"
proof -
  have "provider_evolves sample_provider"
    by (simp add: provider_evolves_def sample_provider_def keeps_evolves)
  then show ?thesis
    by (auto simp: env_evolves_def build_def sample_worker_def sample_prefetch_def keeps_evolves split: if_splits)
qed

lemma job_world_ok: "world_ok (job_world s)"
  by (simp add: world_ok_def job_world_def initial_world_def jobs_ok_def handles_ok_def edges_ok_def cred_at_rest_def)


end
