(* ===== verification/WorkerLiveness.thy ===== *)
theory WorkerLiveness
  imports WorkerSafety
begin

text \<open>
  No job is dropped: after a poll, either a task for the job has been queued or the job is no longer
  one to poll, and the reclaim passes queue exactly the jobs that can make progress. Each operation is
  described by what holds when it returns and when it raises, under a schedule of faults.
\<close>

section \<open>Operations under a schedule of faults\<close>

text \<open>No new fault is scheduled and no task leaves the queue.\<close>

definition undisturbed :: "world \<Rightarrow> world \<Rightarrow> bool" where
  "undisturbed w w' \<longleftrightarrow> (quiet w \<longrightarrow> quiet w') \<and> prefix (w_queue w) (w_queue w')"

interpretation undisturbed: state_preorder undisturbed
  by unfold_locales (auto simp: undisturbed_def intro: prefix_order.trans)

lemma undisturbed_stepped: "stepped w w1 \<Longrightarrow> undisturbed w w1"
  by (simp add: undisturbed_def quiet_stepped stepped_fields)

lemma undisturbed_frame [simp]:
  "undisturbed w (w\<lparr>w_jobs := t\<rparr>)" "undisturbed w (w\<lparr>w_handles := h\<rparr>)" "undisturbed w (w\<lparr>w_events := v\<rparr>)"
  "undisturbed w (w\<lparr>w_access := a\<rparr>)" "undisturbed w (w\<lparr>w_secrets := s\<rparr>)" "undisturbed w (w\<lparr>w_queue := w_queue w @ qs\<rparr>)"
  "undisturbed w (w\<lparr>w_edges := es\<rparr>)" "undisturbed w (w\<lparr>w_drawn := n\<rparr>)"
  by (simp_all add: undisturbed_def quiet_def)

lemma wp_io_faults:
  assumes "undisturbed w0 w"
    and "\<And>w1. undisturbed w0 w1 \<Longrightarrow> stepped w w1 \<Longrightarrow> (case f w1 of Inl e \<Rightarrow> E e w1 | Inr (a, w2) \<Rightarrow> Q a w2)"
    and "\<And>w1 a w2. f w1 = Inr (a, w2) \<Longrightarrow> undisturbed w1 w2"
    and "\<And>e t. undisturbed w0 t \<Longrightarrow> \<not> quiet w0 \<Longrightarrow> E e t"
  shows "wp (e_io f) Q E w"
proof (cases "quiet w0")
  case True
  then have "quiet w" using assms(1) by (simp add: undisturbed_def)
  then show ?thesis
    by (rule wp_io_quiet) (blast intro: assms(2) undisturbed.R_trans [OF assms(1)] undisturbed_stepped)
next
  case False
  have u: "undisturbed w0 w1" if "stepped w w1" for w1
    by (rule undisturbed.R_trans [OF assms(1) undisturbed_stepped [OF that]])
  show ?thesis
    by (rule wp_io) (use False u assms(2-4) undisturbed.R_trans in blast)+
qed

lemma wp_read_faults:
  assumes "undisturbed w0 w"
    and "\<And>w1. undisturbed w0 w1 \<Longrightarrow> stepped w w1 \<Longrightarrow> (case f w1 of Inl e \<Rightarrow> E e w1 | Inr a \<Rightarrow> Q a w1)"
    and "\<And>e t. undisturbed w0 t \<Longrightarrow> \<not> quiet w0 \<Longrightarrow> E e t"
  shows "wp (e_read f) Q E w"
  unfolding e_read_def
proof (rule wp_io_faults [OF assms(1)])
  fix w1
  assume s: "undisturbed w0 w1" "stepped w w1"
  show "case (case f w1 of Inl e \<Rightarrow> Inl e | Inr a \<Rightarrow> Inr (a, w1)) of Inl e \<Rightarrow> E e w1 | Inr (a, w2) \<Rightarrow> Q a w2"
    using assms(2) [OF s] by (simp split: sum.splits)
qed (use assms(3) in \<open>auto split: sum.splits intro: undisturbed.R_refl\<close>)

text \<open>A step aside keeps the job table, and raises only under a fault.\<close>

definition frame :: "world \<Rightarrow> world \<Rightarrow> bool" where
  "frame w w' \<longleftrightarrow> undisturbed w w' \<and> w_jobs w' = w_jobs w"

interpretation frame: state_preorder frame
  by unfold_locales (auto simp: frame_def intro: undisturbed.R_refl undisturbed.R_trans)

lemma frame_stepped: "stepped w w1 \<Longrightarrow> frame w w1"
  by (simp add: frame_def undisturbed_stepped stepped_fields)

lemma frame_io: "(\<And>w a w'. f w = Inr (a, w') \<Longrightarrow> frame w w') \<Longrightarrow> keeps frame (e_io f)"
proof (rule keepsI)
  fix w
  assume f: "\<And>w a w'. f w = Inr (a, w') \<Longrightarrow> frame w w'"
  have "wp (e_io f) (\<lambda>_. frame w) (\<lambda>_. frame w) w"
    by (rule wp_io) (use f frame_stepped frame.R_trans in \<open>(fastforce split: sum.splits)+\<close>)
  then show "frame w (snd (e_io f w))" by (auto simp: wp_def split: prod.splits sum.splits)
qed

definition assured :: "'a op \<Rightarrow> bool" where
  "assured m \<longleftrightarrow> (\<forall>w. quiet w \<longrightarrow> (\<exists>x w'. m w = (Inr x, w')))"

lemma wp_aside:
  assumes "keeps frame m" and "assured m" and "undisturbed w0 w"
  shows "wp m (\<lambda>_ t. undisturbed w0 t \<and> w_jobs t = w_jobs w) (\<lambda>_ t. undisturbed w0 t \<and> \<not> quiet w0) w"
proof -
  obtain r w' where run: "m w = (r, w')" by fastforce
  have "frame w w'" by (rule keepsD [OF assms(1) run])
  then have "undisturbed w0 w'" "w_jobs w' = w_jobs w"
    using assms(3) undisturbed.R_trans by (auto simp: frame_def)
  moreover have "quiet w0 \<Longrightarrow> \<exists>x. r = Inr x"
    using assms(2,3) run unfolding assured_def undisturbed_def by (metis Pair_inject)
  ultimately show ?thesis by (auto simp: wp_def run split: sum.splits)
qed

lemma assured_ret: "assured (e_ret x)"
  by (simp add: assured_def e_ret_run)

lemma assured_io: "(\<And>w. \<exists>x w'. f w = Inr (x, w')) \<Longrightarrow> assured (e_io f)"
  unfolding assured_def
proof (intro allI impI)
  fix w
  assume f: "\<And>w. \<exists>x w'. f w = Inr (x, w')" and q: "quiet w"
  have "wp (e_io f) (\<lambda>_ _. True) (\<lambda>_ _. False) w"
    by (rule wp_io_quiet [OF q]) (use f in \<open>auto split: sum.splits prod.splits\<close>, metis Inr_not_Inl)
  then show "\<exists>x w'. e_io f w = (Inr x, w')" by (auto simp: wp_def split: prod.splits sum.splits)
qed

text \<open>No cancellation where nothing fails.\<close>

definition uncancelled :: "'a op \<Rightarrow> bool" where
  "uncancelled m \<longleftrightarrow> (\<forall>w. quiet w \<longrightarrow> fst (m w) \<noteq> Inl CancelledError)"

lemma assured_uncancelled: "assured m \<Longrightarrow> uncancelled m"
  unfolding assured_def uncancelled_def by (metis Inr_not_Inl fst_conv)

lemma op_text_run: "op_text x w = (jtext x, w)"
  by (cases "jtext x") (simp_all add: op_text_def lift_sum_def eff_simps)

lemma uncancelled_text: "(\<And>a. uncancelled (f a)) \<Longrightarrow> uncancelled (e_bind (op_text x) f)"
  by (cases x) (auto simp: uncancelled_def e_bind_run op_text_run jtext_def)

lemma assured_swallow: "uncancelled m \<Longrightarrow> assured (swallow m)"
  unfolding assured_def
proof (intro allI impI)
  fix w
  assume m: "uncancelled m" and q: "quiet w"
  obtain r w' where run: "m w = (r, w')" by fastforce
  then have "r \<noteq> Inl CancelledError" using m q unfolding uncancelled_def by (metis fst_conv)
  then show "\<exists>x w'. swallow m w = (Inr x, w')"
    by (cases r) (auto simp: swallow_def eff_simps run is_Exception_def)
qed

lemma frame_text: "keeps frame (op_text x)"
  unfolding op_text_def by (cases "jtext x") (auto simp: lift_sum_def intro: frame.keeps_intros)

lemma frame_swallow: "keeps frame m \<Longrightarrow> keeps frame (swallow m)"
  unfolding swallow_def by (intro frame.keeps_intros)

lemma frame_record_event: "keeps frame (op_record_event ws h ty d)"
  unfolding op_record_event_def by (rule frame_io) (auto simp: frame_def)

lemma frame_mark: "keeps frame (op_mark_restricted c)"
  unfolding op_mark_restricted_def by (rule frame_io) (auto simp: frame_def)

lemma record_event_safe_aside:
  "keeps frame (record_event_safe ws h ty d)" "assured (record_event_safe ws h ty d)"
proof -
  show "keeps frame (record_event_safe ws h ty d)"
    unfolding record_event_safe_def
    by (intro frame.keeps_intros frame_swallow frame_text frame_record_event)
  have "assured (op_record_event a b ty d)" for a b
    unfolding op_record_event_def by (rule assured_io) simp
  then have "assured (swallow (e_bind (op_text ws) (\<lambda>a. e_bind (op_text h) (\<lambda>b. op_record_event a b ty d))))"
    by (intro assured_swallow uncancelled_text assured_uncancelled)
  then show "assured (record_event_safe ws h ty d)"
    by (simp add: record_event_safe_def assured_ret)
qed

lemma mark_restricted_safe_aside: "keeps frame (mark_restricted_safe c)" "assured (mark_restricted_safe c)"
proof -
  show "keeps frame (mark_restricted_safe c)"
    unfolding mark_restricted_safe_def by (intro frame.keeps_intros frame_swallow frame_text frame_mark)
  have m: "assured (op_mark_restricted a)" for a
    unfolding op_mark_restricted_def by (rule assured_io) simp
  have "assured (swallow (e_bind (op_text c) op_mark_restricted))"
    by (intro assured_swallow uncancelled_text assured_uncancelled m)
  then show "assured (mark_restricted_safe c)"
    by (simp add: mark_restricted_safe_def assured_ret)
qed

section \<open>Failing a job\<close>

text \<open>The job is not one to poll (any more).\<close>

definition unpolled :: "string \<Rightarrow> world \<Rightarrow> bool" where
  "unpolled i w \<longleftrightarrow> (case get_job (w_jobs w) i of None \<Rightarrow> True | Some j \<Rightarrow> j_state j \<notin> {SUBMITTED, RUNNING})"

lemma unpolled_jobs: "unpolled i w \<Longrightarrow> w_jobs t = w_jobs w \<Longrightarrow> unpolled i t"
  by (simp add: unpolled_def)

lemma legal_failed: "legal_step s FAILED \<longleftrightarrow> s \<notin> TERMINAL_STATES"
  by (cases s) (auto simp: legal_step.simps TERMINAL_STATES_def)

lemma transition_failed_unpolled:
  assumes "undisturbed w0 w"
  shows "wp (op_transition i FAILED cs) (\<lambda>_ t. undisturbed w0 t \<and> unpolled i t)
    (\<lambda>_ t. undisturbed w0 t \<and> (quiet w0 \<longrightarrow> unpolled i t)) w"
  unfolding op_transition_def
proof (rule wp_io_faults [OF assms])
  fix w1
  assume u: "undisturbed w0 w1"
  show "case (case transition_state (w_now w1) i FAILED cs (w_jobs w1) of
      Inl e \<Rightarrow> Inl e | Inr t \<Rightarrow> Inr ((), w1\<lparr>w_jobs := t\<rparr>)) of
    Inl e \<Rightarrow> undisturbed w0 w1 \<and> (quiet w0 \<longrightarrow> unpolled i w1)
  | Inr (a, w2) \<Rightarrow> undisturbed w0 w2 \<and> unpolled i w2"
  proof (cases "transition_state (w_now w1) i FAILED cs (w_jobs w1)")
    case (Inl e)
    have "unpolled i w1"
    proof (cases "get_job (w_jobs w1) i")
      case (Some j)
      then have "\<exists>x. set_state (w_now w1) j FAILED cs = Inl x"
        using Inl by (auto simp: transition_state_def split: sum.splits)
      then have "j_state j \<in> TERMINAL_STATES" by (simp add: set_state_raises_iff legal_failed)
      then show ?thesis using Some by (auto simp: unpolled_def TERMINAL_STATES_def)
    qed (simp add: unpolled_def)
    then show ?thesis using Inl u by simp
  next
    case (Inr t)
    then obtain j' where "get_job t i = Some j'" "j_state j' = FAILED"
      using transition_state_get [OF Inr] set_state_ok(2) by fastforce
    then show ?thesis using Inr u undisturbed.R_trans by (fastforce simp: unpolled_def)
  qed
qed (auto split: sum.splits)

lemma wp_fail_job:
  assumes "undisturbed w0 w"
  shows "wp (fail_job wk i spec stage e pre c x) (\<lambda>_ t. undisturbed w0 t \<and> unpolled i t)
    (\<lambda>_ t. undisturbed w0 t \<and> (quiet w0 \<longrightarrow> unpolled i t)) w"
  unfolding fail_job_def message_of_def Let_def wp_simps
proof (rule wp_mono [OF transition_failed_unpolled [OF assms]])
  fix t
  assume t: "undisturbed w0 t \<and> unpolled i t"
  show "wp (record_event_safe (rs_workspace_id spec) (rs_obs_handle spec) E_JOB_FAILED d)
     (\<lambda>_ t. undisturbed w0 t \<and> unpolled i t) (\<lambda>_ t. undisturbed w0 t \<and> (quiet w0 \<longrightarrow> unpolled i t)) t" for d
    by (rule wp_mono [OF wp_aside [OF record_event_safe_aside]]) (use t unpolled_jobs in auto)
qed

lemma wp_fail_classified:
  assumes "undisturbed w0 w"
  shows "wp (fail_classified_credential wk i spec stage e) (\<lambda>_ t. undisturbed w0 t \<and> unpolled i t)
    (\<lambda>_ t. undisturbed w0 t \<and> (quiet w0 \<longrightarrow> unpolled i t)) w"
  unfolding fail_classified_credential_def Let_def wp_simps
  by (auto intro!: wp_fail_job assms wp_mono [OF wp_aside [OF mark_restricted_safe_aside assms]])

lemma classify_total:
  assumes "value_errors (pf_loads pf)"
  shows "\<exists>r. classify_credential_failure pf ss now e i = Inr r"
proof -
  have eula: "\<exists>x. eula_error pf ss t = Inr x" for t
  proof (cases "eula_error pf ss t")
    case (Inl a)
    then have "pf_loads pf t = Inl a" by (rule eula_error_Inl)
    then show ?thesis using Inl value_errorsD [OF assms] by (force simp: eula_error_def extract_resolution_url_def)
  qed simp
  have plain: "\<exists>r. classify_credential_failure pf ss now (PlainExn xs) i = Inr r" for xs
  proof (cases xs rule: remdups_adj.cases)
    case (3 a b rest)
    then show ?thesis using eula [of "py_join '' '' (b # rest)"]
      by (auto simp: classify_credential_failure_def Let_def sum_simps)
  qed (auto simp: classify_credential_failure_def)
  show ?thesis
    using plain eula
    by (cases e) (auto simp: classify_credential_failure_def classify_http_response_def Let_def sum_simps split: option.split,
      (metis s_bind_simps)?)
qed

section \<open>A poll\<close>

lemma undisturbed_keeps_wp:
  assumes "keeps undisturbed m" and "undisturbed w0 w"
  shows "wp m (\<lambda>_. undisturbed w0) (\<lambda>_. undisturbed w0) w"
  by (rule wp_mono [OF wp_keeps [OF assms(1)]]) (auto intro: undisturbed.R_trans [OF assms(2)])

text \<open>How a poll may end by an exception: the job settled, or a fault the wrapper answers by polling again.\<close>

definition retryable :: "string \<Rightarrow> world \<Rightarrow> exn \<Rightarrow> world \<Rightarrow> bool" where
  "retryable i w0 e t \<longleftrightarrow> undisturbed w0 t
     \<and> (quiet w0 \<longrightarrow> unpolled i t \<or> e = CancelledError \<or> is_transient_fault e)"

definition readable :: "dict \<Rightarrow> bool" where
  "readable d \<longleftrightarrow> (case from_jsonb d of Inr s \<Rightarrow> True | Inl (InvalidSpecError m) \<Rightarrow> True | Inl e \<Rightarrow> False)"

lemma wp_load_spec:
  assumes "undisturbed w0 w" and "readable d"
  shows "wp (load_spec_or_fail wk i d) (\<lambda>r t. undisturbed w0 t \<and> (r = None \<longrightarrow> unpolled i t)) (retryable i w0) w"
proof (cases "from_jsonb d")
  case (Inr s)
  then show ?thesis using assms(1) by (simp add: load_spec_or_fail_def wp_simps)
next
  case (Inl e)
  then obtain m where e: "e = InvalidSpecError m" using assms(2) by (auto simp: readable_def split: exn.splits)
  show ?thesis
    unfolding load_spec_or_fail_def Inl e sum.case exn.case wp_simps
    by (rule wp_mono [OF transition_failed_unpolled [OF assms(1)]]) (auto simp: retryable_def)
qed

lemma undisturbed_secrets: "keeps undisturbed (\<lambda>w. case f w of (r, ss) \<Rightarrow> (r, w\<lparr>w_secrets := ss\<rparr>))"
  by (auto simp: keeps_def split: prod.splits)

lemma wp_load_identity:
  assumes "undisturbed w0 w"
  shows "wp (load_job_identity wk i spec stage cred) (\<lambda>_. undisturbed w0) (retryable i w0) w"
proof -
  have inner: "keeps undisturbed (e_bind (op_decrypt pf k b) (\<lambda>token.
      e_bind (op_parse_token pf (Some token)) (\<lambda>identity.
      e_bind (e_gets (\<lambda>w. (w_secrets w, w_now w))) (\<lambda>(ss, now).
        case identity of
          Some j \<Rightarrow> if is_expired j now
                     then e_raise (cred_error ss TOKEN_EXPIRED msg None)
                     else e_ret identity
        | None \<Rightarrow> e_ret identity))))" for pf k b msg
    unfolding op_decrypt_def op_parse_token_def
    by (intro undisturbed.keeps_intros undisturbed_secrets)
  have fail: "wp (e_seq (fail_job wk i spec stage e pre c x) (e_raise e)) (\<lambda>_. undisturbed w0) (retryable i w0) t"
    if "undisturbed w0 t" for e pre c x t
    unfolding wp_simps by (rule wp_mono [OF wp_fail_job [OF that]]) (auto simp: retryable_def)
  show ?thesis
    unfolding load_job_identity_def
  proof (intro wp_option wp_if)
    show "wp (e_ret None) (\<lambda>_. undisturbed w0) (retryable i w0) w" using assms by (simp add: wp_simps)
    then show "wp (e_ret None) (\<lambda>_. undisturbed w0) (retryable i w0) w" .
    show "wp (e_catch
        (e_bind (op_decrypt (wk_platform wk) (wk_credential_key wk) b) (\<lambda>token.
         e_bind (op_parse_token (wk_platform wk) (Some token)) (\<lambda>identity.
         e_bind (e_gets (\<lambda>w. (w_secrets w, w_now w))) (\<lambda>(ss, now).
           case identity of
             None \<Rightarrow> e_ret identity
           | Some i \<Rightarrow>
               if is_expired i now
               then e_raise (cred_error ss TOKEN_EXPIRED ''the job's stored credential has expired mid-job'' None)
               else e_ret identity))))
        (\<lambda>e. e_seq (fail_job wk i spec stage e (Some ''job credential unusable'') (classification_of e) [])
               (e_raise e))) (\<lambda>_. undisturbed w0) (retryable i w0) w" for b
      unfolding wp_catch
      by (rule wp_mono [OF undisturbed_keeps_wp [OF inner assms]]) (auto intro: fail)
  qed
qed

definition provider_undisturbing :: "retrieval_provider \<Rightarrow> bool" where
  "provider_undisturbing p \<longleftrightarrow> (\<forall>x. keeps undisturbed (pv_poll p x))"

text \<open>The services a poll calls take no task off the queue; \<open>json.loads\<close> fails with a \<open>ValueError\<close>.\<close>

definition env_undisturbing :: "worker_env \<Rightarrow> bool" where
  "env_undisturbing wk \<longleftrightarrow> (\<forall>t c. keeps undisturbed (wk_capabilities wk t c))
     \<and> (\<forall>spec caps t p. build wk spec caps t = Inr p \<longrightarrow> provider_undisturbing p)
     \<and> value_errors (pf_loads (wk_platform wk))"

lemma classify_failure_run:
  assumes "value_errors (pf_loads (wk_platform wk))"
  shows "\<exists>c. classify_failure wk e idn w = (Inr c, w)"
  using classify_total [OF assms, of "w_secrets w" "w_now w" e idn]
  by (auto simp: classify_failure_def eff_simps lift_sum_def)

lemma wp_poll_failed:
  assumes "undisturbed w0 w" and "value_errors (pf_loads (wk_platform wk))"
  shows "wp (poll_failed wk i spec idn e) (\<lambda>_ _. False) (retryable i w0) w"
proof (cases "\<not> is_Exception e \<or> is_transient_fault e")
  case True
  then show ?thesis using assms(1) by (auto simp: poll_failed_def wp_simps retryable_def is_Exception_def)
next
  case False
  obtain c where c: "classify_failure wk e idn w = (Inr c, w)" using classify_failure_run [OF assms(2)] by blast
  have "wp (case c of Some x \<Rightarrow> fail_classified_credential wk i spec ''poll'' x
                    | None \<Rightarrow> fail_job wk i spec ''poll'' e None None [])
      (\<lambda>_ t. undisturbed w0 t \<and> unpolled i t) (\<lambda>_ t. undisturbed w0 t \<and> (quiet w0 \<longrightarrow> unpolled i t)) w"
    by (intro wp_option wp_fail_job wp_fail_classified assms(1))
  then have "wp (e_seq (case c of Some x \<Rightarrow> fail_classified_credential wk i spec ''poll'' x
                    | None \<Rightarrow> fail_job wk i spec ''poll'' e None None []) (e_raise e))
      (\<lambda>_ _. False) (retryable i w0) w"
    unfolding wp_simps by (rule wp_mono) (auto simp: retryable_def)
  then show ?thesis using False c by (simp add: poll_failed_def wp_def e_bind_run)
qed

lemma wp_bind_undisturbing:
  assumes "env_undisturbing wk" and "undisturbed w0 w"
    and "\<And>p t. provider_undisturbing p \<Longrightarrow> undisturbed w0 t \<Longrightarrow> wp (f p) Q E t"
    and "\<And>e t. undisturbed w0 t \<Longrightarrow> E e t"
  shows "wp (e_bind (load_provider wk spec tk) f) Q E w"
proof -
  have k: "keeps undisturbed (wk_capabilities wk tk (rs_concept_id spec))"
    and b: "build wk spec caps tk = Inr p \<Longrightarrow> provider_undisturbing p" for caps p
    using assms(1) by (auto simp: env_undisturbing_def)
  show ?thesis
    unfolding load_provider_def wp_simps
  proof (rule wp_mono [OF undisturbed_keeps_wp [OF k assms(2)]])
    fix caps t
    assume "undisturbed w0 t"
    then show "case build wk spec caps tk of Inl e \<Rightarrow> E e t | Inr a \<Rightarrow> wp (f a) Q E t"
      using b [of caps] assms(3,4) by (auto split: sum.split)
  qed (rule assms(4))
qed

lemma apply_poll_next:
  assumes "apply_poll now job st = Inr (j, n)"
  shows "(n = None \<longrightarrow> j_state j \<notin> {SUBMITTED, RUNNING}) \<and> n \<in> {None, Some ''materialize_job'', Some ''poll_job''}"
  using assms
  by (auto simp: apply_poll_def Let_def sum_simps dest!: set_state_ok(2) split: job_state.splits if_splits)

lemma apply_poll_error:
  assumes "apply_poll now job st = Inl e"
  shows "j_state job \<notin> {SUBMITTED, RUNNING}"
proof
  assume s: "j_state job \<in> {SUBMITTED, RUNNING}"
  have to_running: "\<exists>j. set_state now job RUNNING cs = Inr j" if "j_state job = SUBMITTED" for cs
    using that by (simp add: set_state_Inr_iff legal_step.simps)
  have to_end: "\<exists>j. set_state now job t cs = Inr j" if "t = FAILED \<or> t = CANCELLED" for t cs
    using that s by (auto simp: set_state_Inr_iff legal_step.simps)
  have to_mat: "\<exists>j'. set_state now j MATERIALIZING cs = Inr j'" if "j_state j = RUNNING" for j cs
    using that by (simp add: set_state_Inr_iff legal_step.simps)
  show False
    using assms s to_running to_end to_mat set_state_ok(2)
    by (auto simp: apply_poll_def Let_def sum_simps split: job_state.splits if_splits) (metis Inr_not_Inl)+
qed

lemma wp_apply_poll:
  assumes "undisturbed w0 w"
  shows "wp (op_apply_poll i st) (\<lambda>n t. undisturbed w0 t \<and> (n = None \<longrightarrow> unpolled i t)
      \<and> n \<in> {None, Some ''materialize_job'', Some ''poll_job''}) (retryable i w0) w"
  unfolding op_apply_poll_def
proof (rule wp_io_faults [OF assms])
  fix w1
  assume u: "undisturbed w0 w1"
  let ?f = "case get_job (w_jobs w1) i of
      None \<Rightarrow> Inr (None, w1)
    | Some job \<Rightarrow>
        if j_state job \<in> TERMINAL_STATES then Inr (None, w1)
        else (case apply_poll (w_now w1) (job\<lparr>j_last_polled_at := Some (w_now w1)\<rparr>) st of
                Inl e \<Rightarrow> Inl e
              | Inr (job', next_task) \<Rightarrow>
                  Inr (next_task, w1\<lparr>w_jobs := commit_job (w_now w1) job' (w_jobs w1)\<rparr>))"
  show "case ?f of Inl e \<Rightarrow> retryable i w0 e w1
    | Inr (n, t) \<Rightarrow> undisturbed w0 t \<and> (n = None \<longrightarrow> unpolled i t)
        \<and> n \<in> {None, Some ''materialize_job'', Some ''poll_job''}"
  proof (cases "get_job (w_jobs w1) i")
    case None
    then show ?thesis using u by (simp add: unpolled_def)
  next
    case (Some job)
    show ?thesis
    proof (cases "j_state job \<in> TERMINAL_STATES")
      case True
      then show ?thesis using u Some by (auto simp: unpolled_def TERMINAL_STATES_def)
    next
      case False
      let ?job = "job\<lparr>j_last_polled_at := Some (w_now w1)\<rparr>"
      show ?thesis
      proof (cases "apply_poll (w_now w1) ?job st")
        case (Inl e)
        then show ?thesis using apply_poll_error [OF Inl] Some False u by (simp add: retryable_def unpolled_def)
      next
        case (Inr r)
        obtain j n where r: "r = (j, n)" by fastforce
        note a = Inr [unfolded r]
        have "job_advances ?job j" using apply_poll_advances [OF a] False by simp
        then have id: "j_id j = i" using Some by (auto simp: job_advances_def same_job_def dest: get_job_mem)
        have "unpolled i (w1\<lparr>w_jobs := commit_job (w_now w1) j (w_jobs w1)\<rparr>)" if "n = None"
          using apply_poll_next [OF a] that Some id
          by (auto simp: unpolled_def commit_job_get split: option.splits if_splits)
        then show ?thesis
          using apply_poll_next [OF a] Some False a u undisturbed.R_trans [OF u undisturbed_frame(1)] by simp
      qed
    qed
  qed
qed (auto simp: retryable_def intro: undisturbed.R_refl split: option.splits if_splits sum.splits)

text \<open>Since \<open>w0\<close> a task that looks at the job again was put on the queue.\<close>

definition requeued :: "string \<Rightarrow> world \<Rightarrow> world \<Rightarrow> bool" where
  "requeued i w0 t \<longleftrightarrow> (\<exists>qs. w_queue t = w_queue w0 @ qs
     \<and> list_ex (\<lambda>q. q_job q = i \<and> q_name q \<in> {''poll_job'', ''materialize_job''}) qs)"

lemma wp_enqueue:
  assumes "undisturbed w0 w" and "name \<in> {''poll_job'', ''materialize_job''}"
  shows "wp (op_enqueue name i None d) (\<lambda>_. requeued i w0) (\<lambda>_ t. undisturbed w0 t \<and> \<not> quiet w0) w"
  unfolding op_enqueue_def
proof (rule wp_io_faults [OF assms(1)])
  fix w1
  assume "undisturbed w0 w1"
  then obtain qs where "w_queue w1 = w_queue w0 @ qs" by (auto simp: undisturbed_def prefix_def)
  then show "case (if None \<noteq> (None :: string option) \<and> list_ex (\<lambda>q. q_id q = None) (w_queue w1) then Inr ((), w1)
        else Inr ((), w1\<lparr>w_queue := w_queue w1 @ [\<lparr>q_name = name, q_job = i, q_id = None, q_defer = d\<rparr>]\<rparr>))
      of Inl e \<Rightarrow> undisturbed w0 w1 \<and> \<not> quiet w0 | Inr (a, w2) \<Rightarrow> requeued i w0 w2"
    using assms(2) by (auto simp: requeued_def intro!: exI [of _ "qs @ [_]"])
qed auto

definition specs_readable :: "string \<Rightarrow> world \<Rightarrow> bool" where
  "specs_readable i w \<longleftrightarrow> (case get_job (w_jobs w) i of None \<Rightarrow> True | Some j \<Rightarrow> readable (j_request_spec j))"

lemma wp_polled:
  assumes env: "env_undisturbing wk" and u: "undisturbed w0 w"
  shows "wp (e_catch (ask_provider wk spec tk url) (poll_failed wk i spec identity))
    (\<lambda>_. undisturbed w0) (retryable i w0) w"
proof -
  have ve: "value_errors (pf_loads (wk_platform wk))" using env by (simp add: env_undisturbing_def)
  have "wp (ask_provider wk spec tk url) (\<lambda>_. undisturbed w0) (\<lambda>_. undisturbed w0) w"
    unfolding ask_provider_def
    by (rule wp_bind_undisturbing [OF env u])
      (auto simp: wp_bind wp_lift provider_undisturbing_def intro: undisturbed_keeps_wp split: sum.split)
  then show ?thesis
    unfolding wp_catch by (rule wp_mono) (auto intro: wp_mono [OF wp_poll_failed [OF _ ve]])
qed

lemma wp_poll_loaded:
  assumes env: "env_undisturbing wk" and u: "undisturbed w0 w"
  shows "wp (poll_loaded wk i job spec) (\<lambda>_ t. requeued i w0 t \<or> unpolled i t) (retryable i w0) w"
proof -
  have enq: "wp (op_enqueue name i None d) (\<lambda>_ t. requeued i w0 t \<or> unpolled i t) (retryable i w0) t"
    if "undisturbed w0 t" "name \<in> {''poll_job'', ''materialize_job''}" for name d t
    by (rule wp_mono [OF wp_enqueue [OF that]]) (auto simp: retryable_def)
  show ?thesis
    unfolding poll_loaded_def
    apply (subst wp_bind, rule wp_mono [OF wp_load_identity [OF u]])
     apply (subst wp_bind, rule wp_mono [OF wp_polled [OF env]], assumption)
      apply (subst wp_bind, rule wp_mono [OF wp_apply_poll], assumption)
       apply (auto simp: wp_ret intro: enq)
    done
qed

lemma wp_poll_once:
  assumes env: "env_undisturbing wk" and readable: "specs_readable i w"
  shows "wp (poll_once wk i) (\<lambda>_ t. requeued i w t \<or> unpolled i t) (retryable i w) w"
proof -
  let ?Q = "\<lambda>_ t. requeued i w t \<or> unpolled i t"
  have load: "wp (e_bind (load_spec_or_fail wk i (j_request_spec job)) (\<lambda>loaded.
        case loaded of None \<Rightarrow> e_ret () | Some spec \<Rightarrow> poll_loaded wk i job spec)) ?Q (retryable i w) t"
    if u: "undisturbed w t" and r: "readable (j_request_spec job)" for job t
    by (subst wp_bind, rule wp_mono [OF wp_load_spec [OF u r]])
      (auto simp: wp_ret split: option.split intro: wp_poll_loaded [OF env])
  show ?thesis
    unfolding poll_once_def op_get_job_def wp_bind
  proof (rule wp_read_faults [OF undisturbed.R_refl])
    fix w1
    assume u: "undisturbed w w1" and st: "stepped w w1"
    have r: "readable (j_request_spec job)" if "get_job (w_jobs w1) i = Some job" for job
      using readable st that by (auto simp: specs_readable_def stepped_fields)
    show "case Inr (get_job (w_jobs w1) i) of
        Inl e \<Rightarrow> retryable i w e w1
      | Inr found \<Rightarrow> wp (case found of None \<Rightarrow> e_ret () | Some job \<Rightarrow>
          if j_state job \<noteq> SUBMITTED \<and> j_state job \<noteq> RUNNING then e_ret ()
          else e_bind (load_spec_or_fail wk i (j_request_spec job)) (\<lambda>loaded.
            case loaded of None \<Rightarrow> e_ret () | Some spec \<Rightarrow> poll_loaded wk i job spec)) ?Q (retryable i w) w1"
      using load [OF u r] by (auto simp: wp_ret unpolled_def split: option.split)
  qed (simp add: retryable_def)
qed

text \<open>
  C5: a poll never drops a job. When \<open>poll_job\<close> ends, by returning under any faults, or by returning or
  raising where no database or queue call fails, either a task that looks at the job again has been put
  on the queue, or the job is not one to poll: it is gone, has moved on, or reached a terminal state with its error. This
  covers an unreachable provider, a cancelled poll, an unusable credential, a rejected request, a job
  changed by others during the call, and a malformed spec.
\<close>

theorem poll_never_drops:
  assumes "env_undisturbing wk" and "specs_readable i w" and "poll_job wk i w = (r, w')"
    and "quiet w \<or> r = Inr ()"
  shows "requeued i w w' \<or> unpolled i w'"
proof -
  have "wp (poll_job wk i) (\<lambda>_ t. requeued i w t \<or> unpolled i t)
      (\<lambda>_ t. quiet w \<longrightarrow> requeued i w t \<or> unpolled i t) w"
    unfolding poll_job_def wp_catch
  proof (rule wp_mono [OF wp_poll_once [OF assms(1,2)]])
    fix e t
    assume t: "retryable i w e t"
    then have u: "undisturbed w t" by (simp add: retryable_def)
    show "wp (if e \<noteq> CancelledError \<and> \<not> is_transient_fault e then e_raise e
        else e_seq (op_enqueue ''poll_job'' i None (Some POLL_TRANSIENT_RETRY_INTERVAL))
               (if e = CancelledError then e_raise e else e_ret ()))
      (\<lambda>_ t. requeued i w t \<or> unpolled i t) (\<lambda>_ t. quiet w \<longrightarrow> requeued i w t \<or> unpolled i t) t"
    proof (rule wp_if)
      assume "e \<noteq> CancelledError \<and> \<not> is_transient_fault e"
      then show "wp (e_raise e) (\<lambda>_ t. requeued i w t \<or> unpolled i t)
          (\<lambda>_ t. quiet w \<longrightarrow> requeued i w t \<or> unpolled i t) t"
        using t by (auto simp: wp_raise retryable_def)
    next
      show "wp (e_seq (op_enqueue ''poll_job'' i None (Some POLL_TRANSIENT_RETRY_INTERVAL))
            (if e = CancelledError then e_raise e else e_ret ()))
          (\<lambda>_ t. requeued i w t \<or> unpolled i t) (\<lambda>_ t. quiet w \<longrightarrow> requeued i w t \<or> unpolled i t) t"
        unfolding wp_seq by (rule wp_mono [OF wp_enqueue [OF u]]) (auto simp: wp_raise wp_ret)
    qed
  qed
  from wpD [OF this assms(3)] assms(4) show ?thesis by (auto split: sum.splits)
qed

lemma sample_worker_undisturbing: "env_undisturbing sample_worker"
proof -
  have "provider_undisturbing sample_provider"
    by (simp add: provider_undisturbing_def sample_provider_def undisturbed.keeps_intros)
  then show ?thesis
    by (auto simp: env_undisturbing_def build_def sample_worker_def undisturbed.keeps_intros value_errors_def
        sample_platform_def split: if_splits)
qed

lemma sample_spec_read: "from_jsonb (to_jsonb sample_spec) = Inr sample_spec"
  using read_spec_to_jsonb [OF sample_spec_ok] by (simp add: from_jsonb_def)

lemma job_world_get:
  "get_job (w_jobs (job_world s)) ''j1''
     = Some (sample_job\<lparr>j_state := s, j_request_spec := to_jsonb sample_spec, j_credential_encrypted := None\<rparr>)"
  by (simp add: job_world_def initial_world_def get_job_def row_get_def sample_job_def)

lemma job_world_readable: "specs_readable ''j1'' (job_world s)"
  by (simp add: specs_readable_def job_world_get readable_def sample_spec_read)

lemma job_world_quiet: "quiet (job_world s)"
  by (simp add: quiet_def job_world_def initial_world_def)

lemma poll_never_drops_witness:
  "requeued ''j1'' (job_world RUNNING) (snd (poll_job sample_worker ''j1'' (job_world RUNNING)))
   \<or> unpolled ''j1'' (snd (poll_job sample_worker ''j1'' (job_world RUNNING)))"
  using poll_never_drops [OF sample_worker_undisturbing job_world_readable, of RUNNING
      "fst (poll_job sample_worker ''j1'' (job_world RUNNING))" "snd (poll_job sample_worker ''j1'' (job_world RUNNING))"]
    job_world_quiet by simp

end
