(* ===== verification/WorkerOutcomes.thy ===== *)
theory WorkerOutcomes
  imports WorkerLiveness
begin

text \<open>
  What a submission and a materialization come to where no database or queue call fails: the branch
  taken is decided by the provider's answer alone, and the row, the handle and the queue say so.
\<close>

section \<open>Quiet steps\<close>

text \<open>The database, storage and queue work throughout, and the register of secrets is as it was.\<close>

definition calm :: "world \<Rightarrow> world \<Rightarrow> bool" where
  "calm w w' \<longleftrightarrow> quiet w' \<and> prefix (w_queue w) (w_queue w') \<and> w_secrets w' = w_secrets w"

lemma calm_stepped: "calm w0 w \<Longrightarrow> stepped w w1 \<Longrightarrow> calm w0 w1"
  by (auto simp: calm_def stepped_fields intro: quiet_stepped)

lemma calm_frame [simp]:
  "calm w0 (w\<lparr>w_jobs := t\<rparr>) = calm w0 w" "calm w0 (w\<lparr>w_events := v\<rparr>) = calm w0 w"
  "calm w0 (w\<lparr>w_access := a\<rparr>) = calm w0 w" "calm w0 (w\<lparr>w_handles := h\<rparr>) = calm w0 w"
  "calm w0 w \<Longrightarrow> calm w0 (w\<lparr>w_queue := w_queue w @ qs\<rparr>)"
  by (auto simp: calm_def quiet_def)

lemma wp_io_calm:
  assumes "calm w0 w"
    and "\<And>w1. calm w0 w1 \<Longrightarrow> w_jobs w1 = w_jobs w \<Longrightarrow> w_handles w1 = w_handles w
      \<Longrightarrow> (case f w1 of Inl e \<Rightarrow> E e w1 | Inr (a, w2) \<Rightarrow> Q a w2)"
  shows "wp (e_io f) Q E w"
  using assms by (intro wp_io_quiet) (auto simp: calm_def intro: calm_stepped dest: stepped_fields quiet_stepped)

text \<open>A step that keeps the job table and never raises while nothing fails.\<close>

definition quietly :: "world \<Rightarrow> world \<Rightarrow> world \<Rightarrow> bool" where
  "quietly w0 w t \<longleftrightarrow> calm w0 t \<and> w_jobs t = w_jobs w"

lemma wp_swallow_calm:
  assumes "wp m (\<lambda>_. P) (\<lambda>e t. P t \<and> is_Exception e) w"
  shows "wp (swallow m) (\<lambda>_. P) (\<lambda>_ _. False) w"
  by (rule wp_swallow, rule wp_mono [OF assms]) auto

lemma wp_event_calm:
  assumes "calm w0 w"
  shows "wp (record_event_safe ws h ty d) (\<lambda>_. quietly w0 w) (\<lambda>_ _. False) w"
proof -
  have "wp (op_record_event a b ty d) (\<lambda>_. quietly w0 w) (\<lambda>_ _. False) w" for a b
    unfolding op_record_event_def by (rule wp_io_calm [OF assms]) (simp add: quietly_def)
  then have "wp (e_bind (op_text ws) (\<lambda>a. e_bind (op_text h) (\<lambda>b. op_record_event a b ty d)))
      (\<lambda>_. quietly w0 w) (\<lambda>e t. quietly w0 w t \<and> is_Exception e) w"
    using assms
    by (cases ws; cases h)
      (auto simp: wp_bind op_text_def jtext_def wp_lift quietly_def is_Exception_def intro: wp_mono)
  then show ?thesis
    unfolding record_event_safe_def using assms by (auto intro: wp_swallow_calm simp: wp_ret quietly_def)
qed

lemma wp_mark_calm:
  assumes "calm w0 w"
  shows "wp (mark_restricted_safe c) (\<lambda>_. quietly w0 w) (\<lambda>_ _. False) w"
proof -
  have "wp (op_mark_restricted a) (\<lambda>_. quietly w0 w) (\<lambda>_ _. False) w" for a
    unfolding op_mark_restricted_def by (rule wp_io_calm [OF assms]) (simp add: quietly_def)
  then have "wp (e_bind (op_text c) op_mark_restricted) (\<lambda>_. quietly w0 w)
      (\<lambda>e t. quietly w0 w t \<and> is_Exception e) w"
    using assms
    by (cases c) (auto simp: wp_bind op_text_def jtext_def wp_lift quietly_def is_Exception_def intro: wp_mono)
  then show ?thesis
    unfolding mark_restricted_safe_def using assms by (auto intro: wp_swallow_calm simp: wp_ret quietly_def)
qed

lemma wp_transition_calm:
  assumes "calm w0 w" and "get_job (w_jobs w) i = Some job" and "legal_step (j_state job) s"
  shows "wp (op_transition i s cs) (\<lambda>_ t. calm w0 t \<and> w_handles t = w_handles w
      \<and> (\<exists>now j. set_state now job s cs = Inr j \<and> get_job (w_jobs t) i = Some (j\<lparr>j_updated_at := now\<rparr>)))
    (\<lambda>_ _. False) w"
  unfolding op_transition_def
proof (rule wp_io_calm [OF assms(1)])
  fix w1
  assume w1: "calm w0 w1" "w_jobs w1 = w_jobs w" "w_handles w1 = w_handles w"
  obtain j where j: "set_state (w_now w1) job s cs = Inr j" using assms(3) set_state_Inr_iff by blast
  then obtain t where t: "transition_state (w_now w1) i s cs (w_jobs w1) = Inr t"
    using assms(2) w1(2) by (simp add: transition_state_def)
  then show "case (case transition_state (w_now w1) i s cs (w_jobs w1) of
        Inl e \<Rightarrow> Inl e | Inr t \<Rightarrow> Inr ((), w1\<lparr>w_jobs := t\<rparr>)) of
      Inl e \<Rightarrow> False
    | Inr (a, t) \<Rightarrow> calm w0 t \<and> w_handles t = w_handles w
      \<and> (\<exists>now j. set_state now job s cs = Inr j \<and> get_job (w_jobs t) i = Some (j\<lparr>j_updated_at := now\<rparr>))"
    using transition_state_get [OF t] assms(2) w1 by auto
qed

section \<open>Failing\<close>

definition failed_job :: "string \<Rightarrow> world \<Rightarrow> bool" where
  "failed_job i t \<longleftrightarrow> (\<exists>j. get_job (w_jobs t) i = Some j \<and> j_state j = FAILED
     \<and> j_credential_encrypted j = None \<and> j_error j \<noteq> None)"

lemma set_state_error:
  "set_state now job s [C_error (Some m)] = Inr j \<Longrightarrow> j_error j = Some m"
  by (auto simp: set_state_def assert_legal_def Let_def split: if_splits sum.splits)

lemma wp_failed_calm:
  assumes "calm w0 w" and "get_job (w_jobs w) i = Some job" and "j_state job \<notin> TERMINAL_STATES"
  shows "wp (op_transition i FAILED [C_error (Some m)]) (\<lambda>_ t. calm w0 t \<and> failed_job i t) (\<lambda>_ _. False) w"
proof (rule wp_mono [OF wp_transition_calm [OF assms(1,2)]])
  show "legal_step (j_state job) FAILED" using assms(3) by (simp add: legal_failed)
next
  fix t and u :: unit
  assume t: "calm w0 t \<and> w_handles t = w_handles w \<and> (\<exists>now j. set_state now job FAILED
      [C_error (Some m)] = Inr j \<and> get_job (w_jobs t) i = Some (j\<lparr>j_updated_at := now\<rparr>))"
  then obtain now j where j: "set_state now job FAILED [C_error (Some m)] = Inr j"
    "get_job (w_jobs t) i = Some (j\<lparr>j_updated_at := now\<rparr>)" by blast
  from set_state_ok(2,7) [OF j(1)] set_state_error [OF j(1)] t j(2)
  show "calm w0 t \<and> failed_job i t" by (simp add: failed_job_def TERMINAL_STATES_def)
qed

lemma wp_fail_calm:
  assumes "calm w0 w" and "get_job (w_jobs w) i = Some job" and "j_state job \<notin> TERMINAL_STATES"
  shows "wp (fail_job wk i spec stage e pre c x) (\<lambda>_ t. calm w0 t \<and> failed_job i t) (\<lambda>_ _. False) w"
  unfolding fail_job_def message_of_def Let_def wp_simps
  by (rule wp_mono [OF wp_failed_calm [OF assms]])
    (auto simp: quietly_def failed_job_def intro!: wp_mono [OF wp_event_calm])

lemma wp_classified_calm:
  assumes "calm w0 w" and "get_job (w_jobs w) i = Some job" and "j_state job \<notin> TERMINAL_STATES"
  shows "wp (fail_classified_credential wk i spec stage e) (\<lambda>_ t. calm w0 t \<and> failed_job i t) (\<lambda>_ _. False) w"
  unfolding fail_classified_credential_def Let_def wp_simps
  by (auto simp: quietly_def assms intro!: wp_fail_calm [OF assms] wp_mono [OF wp_mark_calm [OF assms(1)]]
      wp_fail_calm)

section \<open>The answer of a submission\<close>

definition credential_failure :: "exn \<Rightarrow> bool" where
  "credential_failure e \<longleftrightarrow> is_cred_error e \<or> auth_failure e \<noteq> None"

lemma some_bind: "s_bind x (\<lambda>a. Inr (Some a)) = Inr r \<Longrightarrow> r \<noteq> None"
  by (cases x) (auto simp: sum_simps)

lemma classify_None_iff:
  assumes "classify_credential_failure pf ss now e i = Inr r"
  shows "r = None \<longleftrightarrow> \<not> credential_failure e"
proof (cases e)
  case (PlainExn xs)
  then show ?thesis
    using assms
    by (cases xs rule: remdups_adj.cases)
      (auto simp: classify_credential_failure_def credential_failure_def is_cred_error_def auth_failure_def Let_def
        dest: some_bind split: if_splits)
qed (use assms in \<open>auto simp: classify_credential_failure_def credential_failure_def is_cred_error_def
    auth_failure_def classify_http_response_def Let_def dest: some_bind split: if_splits\<close>)

text \<open>When a failed Harmony submission is retried through OPeNDAP.\<close>

definition falls_back :: "worker_env \<Rightarrow> secrets \<Rightarrow> request_spec \<Rightarrow> exn \<Rightarrow> bool" where
  "falls_back wk ss spec e \<longleftrightarrow>
     rs_provider spec = JStr ''harmony'' \<and> rs_opendap_urls spec \<noteq> [] \<and> \<not> credential_failure e
     \<and> classify_submit_failure ss (wk_exn_text wk) (wk_exn_type wk) e = ''infrastructure''"

definition queued_since :: "world \<Rightarrow> string \<Rightarrow> string \<Rightarrow> world \<Rightarrow> bool" where
  "queued_since w name i t \<longleftrightarrow> (\<exists>qs. w_queue t = w_queue w @ qs
     \<and> list_ex (\<lambda>q. q_name q = name \<and> q_job q = i \<and> q_id q = None) qs)"

lemma wp_enqueue_calm:
  assumes "calm w0 w"
  shows "wp (op_enqueue name i None d) (\<lambda>_ t. w_jobs t = w_jobs w \<and> queued_since w0 name i t) (\<lambda>_ _. False) w"
  unfolding op_enqueue_def
proof (rule wp_io_calm [OF assms])
  fix w1
  assume w1: "calm w0 w1" "w_jobs w1 = w_jobs w"
  then obtain qs where "w_queue w1 = w_queue w0 @ qs" by (auto simp: calm_def prefix_def)
  then show "case (if None \<noteq> (None :: string option) \<and> list_ex (\<lambda>q. q_id q = None) (w_queue w1) then Inr ((), w1)
        else Inr ((), w1\<lparr>w_queue := w_queue w1 @ [\<lparr>q_name = name, q_job = i, q_id = None, q_defer = d\<rparr>]\<rparr>))
      of Inl e \<Rightarrow> False | Inr (a, t) \<Rightarrow> w_jobs t = w_jobs w \<and> queued_since w0 name i t"
    using w1(2) by (auto simp: queued_since_def intro!: exI [of _ "qs @ [_]"])
qed

text \<open>The row of a job handed over to OPeNDAP.\<close>

definition handed_over :: "job \<Rightarrow> string \<Rightarrow> world \<Rightarrow> bool" where
  "handed_over job i t \<longleftrightarrow> (\<exists>j. get_job (w_jobs t) i = Some j \<and> j_state j = PENDING \<and> j_provider j = ''opendap''
     \<and> j_request_spec j = AList.update ''provider'' (JStr ''opendap'') (j_request_spec job)
     \<and> j_credential_encrypted j = j_credential_encrypted job)"

lemma commit_get_same:
  "get_job t (j_id j) = Some old \<Longrightarrow> \<exists>u. get_job (commit_job now j t) (j_id j) = Some (j\<lparr>j_updated_at := u\<rparr>)"
  by (cases "old = j") (auto simp: commit_job_get intro: exI [of _ now] exI [of _ "j_updated_at j"])

lemma wp_fallback_calm:
  assumes "calm w0 w" and "get_job (w_jobs w) i = Some job" and "j_state job = PENDING"
  shows "wp (op_fallback i) (\<lambda>present t. present \<and> calm w0 t \<and> handed_over job i t) (\<lambda>_ _. False) w"
  unfolding op_fallback_def
proof (rule wp_io_calm [OF assms(1)])
  fix w1
  assume w1: "calm w0 w1" "w_jobs w1 = w_jobs w"
  have "j_id job = i" using assms(2) by (auto dest: get_job_mem)
  then show "case (case get_job (w_jobs w1) i of
        None \<Rightarrow> Inr (False, w1)
      | Some job \<Rightarrow>
          Inr (True, w1\<lparr>w_jobs := commit_job (w_now w1)
                 (job\<lparr>j_provider := ''opendap'',
                      j_request_spec := AList.update ''provider'' (JStr ''opendap'') (j_request_spec job)\<rparr>)
                 (w_jobs w1)\<rparr>)) of
      Inl e \<Rightarrow> False
    | Inr (present, t) \<Rightarrow> present \<and> calm w0 t \<and> handed_over job i t"
    using w1 assms(2,3) commit_get_same [of "w_jobs w" "job\<lparr>j_provider := ''opendap'',
        j_request_spec := AList.update ''provider'' (JStr ''opendap'') (j_request_spec job)\<rparr>" job "w_now w1"]
    by (auto simp: handed_over_def)
qed

definition answered ::
  "worker_env \<Rightarrow> world \<Rightarrow> string \<Rightarrow> job \<Rightarrow> request_spec \<Rightarrow> exn + job_ref \<Rightarrow> exn + unit \<Rightarrow> world \<Rightarrow> bool" where
  "answered wk w0 i job spec ans r t \<longleftrightarrow>
     (case ans of
        Inr ref \<Rightarrow> r = Inr () \<and> queued_since w0 ''poll_job'' i t
          \<and> (\<exists>j. get_job (w_jobs t) i = Some j \<and> j_state j = SUBMITTED \<and> j_provider_job_url j = jr_job_url ref)
      | Inl e \<Rightarrow>
          if falls_back wk (w_secrets w0) spec e
          then r = Inr () \<and> queued_since w0 ''submit_job'' i t \<and> handed_over job i t
          else r = Inl e \<and> failed_job i t)"

lemma wp_submit_failed:
  assumes c: "calm w0 w" and job: "get_job (w_jobs w) i = Some job" "j_state job = PENDING"
    and ve: "value_errors (pf_loads (wk_platform wk))"
  shows "wp (submit_failed wk i spec idn e) (\<lambda>_. answered wk w0 i job spec (Inl e) (Inr ()))
    (\<lambda>x. answered wk w0 i job spec (Inl e) (Inl x)) w"
proof -
  obtain cr where cr: "classify_failure wk e idn w = (Inr cr, w)" using classify_failure_run [OF ve] by blast
  have run: "wp (e_bind (classify_failure wk e idn) f) Q E w = wp (f cr) Q E w"
    for f and Q :: "unit \<Rightarrow> world \<Rightarrow> bool" and E
    by (simp add: wp_def e_bind_run cr)
  have cr_iff: "cr = None \<longleftrightarrow> \<not> credential_failure e"
  proof (cases "is_Exception e")
    case True
    then have "classify_credential_failure (wk_platform wk) (w_secrets w) (w_now w) e idn = Inr cr"
      using cr by (auto simp: classify_failure_def eff_simps lift_sum_def split: sum.splits)
    then show ?thesis by (rule classify_None_iff)
  next
    case False
    then show ?thesis using cr
      by (auto simp: classify_failure_def eff_simps is_Exception_def credential_failure_def is_cred_error_def auth_failure_def)
  qed
  have nt: "j_state job \<notin> TERMINAL_STATES" using job(2) by (simp add: TERMINAL_STATES_def)
  have sec: "w_secrets w = w_secrets w0" using c by (simp add: calm_def)
  have fail: "wp (e_seq (fail_job wk i spec ''submit'' e pre cl x) (e_raise e)) (\<lambda>_ _. False)
      (\<lambda>x t. x = e \<and> failed_job i t) t" if "quietly w0 w t" for pre cl x t
    unfolding wp_seq
    by (rule wp_mono [OF wp_fail_calm]) (use that job nt in \<open>auto simp: quietly_def wp_raise\<close>)
  show ?thesis
  proof (cases cr)
    case (Some y)
    have "wp (e_seq (fail_classified_credential wk i spec ''submit'' y) (e_raise e)) (\<lambda>_ _. False)
      (\<lambda>x t. x = e \<and> failed_job i t) w"
      unfolding wp_seq by (rule wp_mono [OF wp_classified_calm [OF c job(1) nt]]) (auto simp: wp_raise)
    then show ?thesis
      unfolding submit_failed_def run Some option.case
      by (rule wp_mono) (use Some cr_iff in \<open>auto simp: answered_def falls_back_def\<close>)
  next
    case None
    then have nc: "\<not> credential_failure e" using cr_iff by simp
    have q: "quietly w0 w w" using c by (simp add: quietly_def)
    have failing: "wp (e_seq (fail_job wk i spec ''submit'' e pre cl x) (e_raise e))
        (\<lambda>_. answered wk w0 i job spec (Inl e) (Inr ())) (\<lambda>x. answered wk w0 i job spec (Inl e) (Inl x)) t"
      if "quietly w0 w t" "\<not> falls_back wk (w_secrets w0) spec e" for pre cl x t
      by (rule wp_mono [OF fail [OF that(1)]]) (use that(2) in \<open>auto simp: answered_def\<close>)
    have handing: "wp (e_bind (op_fallback i) (\<lambda>present. e_when present (op_enqueue ''submit_job'' i None None)))
        (\<lambda>_. answered wk w0 i job spec (Inl e) (Inr ())) (\<lambda>x. answered wk w0 i job spec (Inl e) (Inl x)) t"
      if "quietly w0 w t" "falls_back wk (w_secrets w0) spec e" for t
      unfolding wp_bind
      apply (rule wp_mono [OF wp_fallback_calm])
      using that job apply (auto simp: quietly_def wp_when)
      apply (rule wp_mono [OF wp_enqueue_calm], assumption)
       apply (auto simp: answered_def handed_over_def)
      done
    have pre_event: "wp (e_seq (record_event_safe a b ty d) n) Q E w"
      if "\<And>t. quietly w0 w t \<Longrightarrow> wp n Q E t" for a b ty d n and Q :: "unit \<Rightarrow> world \<Rightarrow> bool" and E
      unfolding wp_seq by (rule wp_mono [OF wp_event_calm [OF c]]) (auto intro: that)
    show ?thesis
      unfolding submit_failed_def run None option.case message_of_def
      apply (rule wp_if)
       apply (rule failing [OF q], simp add: falls_back_def)
      apply (simp only: wp_bind wp_gets)
      apply (intro wp_if pre_event failing handing q)
         apply (auto simp: falls_back_def nc sec)
      done
  qed
qed

text \<open>A call to a service, whose answer is given, that leaves the job table and the queue alone.\<close>

definition untouched :: "world \<Rightarrow> world \<Rightarrow> bool" where
  "untouched w w' \<longleftrightarrow> w_jobs w' = w_jobs w \<and> w_handles w' = w_handles w \<and> calm w w'"

definition answers :: "'a op \<Rightarrow> exn + 'a \<Rightarrow> bool" where
  "answers m ans \<longleftrightarrow> (\<forall>w. quiet w \<longrightarrow> (\<exists>w'. m w = (ans, w') \<and> untouched w w'))"

lemma wp_answers:
  assumes "answers m ans" and "calm w0 w"
    and "\<And>t. calm w0 t \<Longrightarrow> w_jobs t = w_jobs w \<Longrightarrow> w_handles t = w_handles w
      \<Longrightarrow> (case ans of Inl e \<Rightarrow> E e t | Inr x \<Rightarrow> Q x t)"
  shows "wp m Q E w"
proof -
  obtain t where t: "m w = (ans, t)" "untouched w t" using assms(1,2) by (auto simp: answers_def calm_def)
  then have "calm w0 t" using assms(2) by (auto simp: untouched_def calm_def intro: prefix_order.trans)
  then show ?thesis using assms(3) t by (cases ans) (auto simp: wp_def untouched_def)
qed

lemma wp_submit_loaded:
  assumes c: "calm w0 w" and job: "get_job (w_jobs w) i = Some job" "j_state job = PENDING"
      "j_credential_encrypted job = None"
    and ve: "value_errors (pf_loads (wk_platform wk))" and plan: "to_plan spec = Inr plan"
    and p: "answers (load_provider wk spec None) (Inr p)" and ans: "answers (pv_submit p plan) ans"
  shows "wp (submit_loaded wk i job spec) (\<lambda>_. answered wk w0 i job spec ans (Inr ()))
    (\<lambda>x. answered wk w0 i job spec ans (Inl x)) w"
proof -
  let ?Q = "\<lambda>_. answered wk w0 i job spec ans (Inr ())" and ?E = "\<lambda>x. answered wk w0 i job spec ans (Inl x)"
  have recorded: "wp (e_seq (op_transition i SUBMITTED [C_provider_job_url (jr_job_url ref)])
        (e_seq (record_event_safe a b ty d) (op_enqueue ''poll_job'' i None None)))
        (\<lambda>_. answered wk w0 i job spec (Inr ref) (Inr ())) (\<lambda>x. answered wk w0 i job spec (Inr ref) (Inl x)) t"
    if t: "calm w0 t" "w_jobs t = w_jobs w" for t ref a b ty d
  proof -
    have step: "legal_step (j_state job) SUBMITTED" using job(2) by (simp add: legal_step.simps)
    have url: "j_provider_job_url j = jr_job_url ref"
      if "set_state now job SUBMITTED [C_provider_job_url (jr_job_url ref)] = Inr j" for now j
      using that by (auto simp: set_state_def assert_legal_def Let_def split: if_splits sum.splits)
    show ?thesis
      unfolding wp_seq
      apply (rule wp_mono [OF wp_transition_calm [OF t(1) _ step]])
        apply (simp add: t(2) job(1))
       apply (rule wp_mono [OF wp_event_calm], blast)
        apply (rule wp_mono [OF wp_enqueue_calm], simp add: quietly_def)
         apply (auto simp: answered_def quietly_def dest: set_state_ok(2) url)
      done
  qed
  have failed: "wp (e_seq (submit_failed wk i spec None e) (e_ret None)) (\<lambda>x t. case x of
        None \<Rightarrow> ?Q () t | Some ref \<Rightarrow> False) ?E t"
    if t: "calm w0 t" "w_jobs t = w_jobs w" and e: "ans = Inl e" for t e
    unfolding wp_seq e
    by (rule wp_mono [OF wp_submit_failed [OF t(1) _ job(2) ve]]) (simp_all add: t(2) job(1) wp_ret)
  show ?thesis
    unfolding submit_loaded_def load_job_identity_def job(3) option.case token_of_def
    apply (simp add: wp_bind wp_ret)
    apply (rule wp_answers [OF p c])
    apply (simp add: wp_bind wp_lift wp_catch wp_ret plan)
    apply (rule wp_answers [OF ans], assumption)
    apply (cases ans)
     apply simp
     apply (rule wp_mono [OF failed])
         apply (auto split: option.splits simp: wp_ret intro: recorded)
    done
qed


text \<open>Harmony is down; the spec has OPeNDAP granules.\<close>

definition harmony_down :: exn where
  "harmony_down = PlainExn [''Service Unavailable'', ''try later'']"

definition refusing_worker :: worker_env where
  "refusing_worker = sample_worker\<lparr>wk_harmony := (\<lambda>c s t. sample_provider\<lparr>pv_submit := (\<lambda>x. e_raise harmony_down)\<rparr>)\<rparr>"

definition undated_spec :: request_spec where
  "undated_spec = sample_spec\<lparr>rs_time_range := JNull\<rparr>"

definition pending_job :: job where
  "pending_job = sample_job\<lparr>j_state := PENDING, j_request_spec := to_jsonb undated_spec, j_credential_encrypted := None\<rparr>"

lemma untouched_refl: "quiet w \<Longrightarrow> untouched w w"
  by (simp add: untouched_def calm_def)

lemma refusal_falls_back: "falls_back refusing_worker [] undated_spec harmony_down"
proof -
  have "classify_submit_failure [] (\<lambda>e. []) (\<lambda>e. []) harmony_down = ''infrastructure''" by code_simp
  moreover have "py_lower (py_strip ''Service Unavailable'') = ''service unavailable''" by code_simp
  ultimately show ?thesis
    by (simp add: falls_back_def refusing_worker_def sample_worker_def undated_spec_def sample_spec_def
        credential_failure_def is_cred_error_def auth_failure_def harmony_down_def)
qed


section \<open>Ready means delivered\<close>

text \<open>The handle resolves to the delivered blob.\<close>

definition delivered :: "string \<Rightarrow> string \<Rightarrow> materialized_result \<Rightarrow> world \<Rightarrow> bool" where
  "delivered ws h result w \<longleftrightarrow> (\<exists>row. row_of_handle (w_handles w) h = Some row \<and> h_workspace_id row = ws
     \<and> jget (h_payload row) ''status'' = JStr ''ready''
     \<and> jget (h_payload row) ''storage_key'' = JStr (mr_storage_key result)
     \<and> jget (h_payload row) ''media_type'' = JStr (mr_media_type result)
     \<and> jget (h_payload row) ''size_bytes'' = size_json (mr_size_bytes result))"

definition kept :: "world \<Rightarrow> world \<Rightarrow> bool" where
  "kept w w' \<longleftrightarrow> w_jobs w' = w_jobs w \<and> w_handles w' = w_handles w"

interpretation kept: state_preorder kept
  by unfold_locales (auto simp: kept_def)

lemma kept_stepped: "stepped w w1 \<Longrightarrow> kept w w1"
  by (simp add: kept_def stepped_fields)

lemma kept_io: "(\<And>w a w'. f w = Inr (a, w') \<Longrightarrow> kept w w') \<Longrightarrow> keeps kept (e_io f)"
proof (rule keepsI)
  fix w
  assume f: "\<And>w a w'. f w = Inr (a, w') \<Longrightarrow> kept w w'"
  have "wp (e_io f) (\<lambda>_. kept w) (\<lambda>_. kept w) w"
    by (rule wp_io) (use f kept_stepped kept.R_trans in \<open>(fastforce split: sum.splits)+\<close>)
  then show "kept w (snd (e_io f w))" by (auto simp: wp_def split: prod.splits sum.splits)
qed

lemma kept_record_event_safe: "keeps kept (record_event_safe ws h ty d)"
proof -
  have "keeps kept (op_text x)" for x
    unfolding op_text_def by (cases "jtext x") (auto simp: lift_sum_def intro: kept.keeps_intros)
  moreover have "keeps kept (op_record_event a b ty d)" for a b
    unfolding op_record_event_def by (rule kept_io) (auto simp: kept_def)
  ultimately show ?thesis
    unfolding record_event_safe_def swallow_def by (intro kept.keeps_intros)
qed

lemma tables_drift: "keeps same_tables (log_materialization_drift wk i spec r)"
  unfolding log_materialization_drift_def by (intro keeps_tables)

lemma update_delivers:
  assumes "update_handle now ws h ((''status'', JStr ''ready'') # (''storage_key'', JStr k) # (''media_type'', JStr m)
      # (''size_bytes'', n) # extra) t = Inr (row, t')"
    and "\<forall>x \<in> fst ` set extra. x \<notin> {''status'', ''storage_key'', ''media_type'', ''size_bytes''}"
  shows "row_of_handle t' h = Some row \<and> h_workspace_id row = ws \<and> jget (h_payload row) ''status'' = JStr ''ready''
     \<and> jget (h_payload row) ''storage_key'' = JStr k \<and> jget (h_payload row) ''media_type'' = JStr m
     \<and> jget (h_payload row) ''size_bytes'' = n"
proof -
  let ?p = "(''status'', JStr ''ready'') # (''storage_key'', JStr k) # (''media_type'', JStr m) # (''size_bytes'', n) # extra"
  from update_handle_Inr [OF assms(1)] obtain old where o: "get_handle t ws h = Inr old"
    "h_payload row = dict_merge (h_payload old) ?p"
    "row = old\<lparr>h_payload := h_payload row, h_updated_at := h_updated_at row\<rparr>"
    "(t' = t \<and> row = old) \<or> t' = row_put h_handle row t" by blast
  have same: "h_handle row = h_handle old" "h_workspace_id row = h_workspace_id old" by (subst o(3), simp)+
  have r: "row_of_handle t h = Some old" "h_workspace_id old = ws" "h_handle old = h"
    using o(1) by (auto simp: get_handle_Inr_iff dest: row_of_handle_mem)
  have none: "map_of (rev extra) x = None" if "x \<in> {''status'', ''storage_key'', ''media_type'', ''size_bytes''}" for x
    using assms(2) that by (auto simp: map_of_eq_None_iff)
  have "row_of_handle t' h = Some row" using o(4) r same by (auto simp: row_of_handle_put)
  then show ?thesis using same r none by (simp add: o(2) jget_dict_merge map_add_def)
qed

lemma projection_keys:
  "delivered_projection wk r = Inr d \<Longrightarrow> fst ` set d \<subseteq> {''content_digest'', ''partial'', ''granule_count''}"
  by (auto simp: delivered_projection_def sum_simps split: option.splits)

lemma wp_resolve:
  assumes "rs_obs_handle spec = JStr h" and "h \<noteq> []" and "rs_workspace_id spec = JStr ws" and "ws \<noteq> []"
  shows "wp (resolve_obs_handle wk spec result r) (\<lambda>_ t. w_jobs t = w_jobs w \<and> delivered ws h result t)
    (\<lambda>_ t. w_jobs t = w_jobs w) w"
proof -
  have "wp (op_update_handle ws h ([(''status'', JStr ''ready''), (''storage_key'', JStr (mr_storage_key result)),
        (''media_type'', JStr (mr_media_type result)), (''size_bytes'', size_json (mr_size_bytes result))] @ d))
      (\<lambda>_ t. w_jobs t = w_jobs w \<and> delivered ws h result t) (\<lambda>_ t. w_jobs t = w_jobs w) w"
    if "delivered_projection wk r = Inr d" for d
  proof -
    have keys: "\<forall>x \<in> fst ` set d. x \<notin> {''status'', ''storage_key'', ''media_type'', ''size_bytes''}"
      using projection_keys [OF that] by auto
    show ?thesis
      unfolding op_update_handle_def
      by (rule wp_io)
        (auto simp: stepped_fields delivered_def dest: update_delivers [OF _ keys] split: sum.splits)
  qed
  then show ?thesis
    using assms
    by (auto simp: resolve_obs_handle_def wp_bind wp_lift op_text_def jtext_def py_or_def split: sum.split)
      (erule wp_mono, simp_all add: wp_ret)
qed

text \<open>A materializing job and its row: untouched, or ready with what was delivered.\<close>

definition ready_or_not :: "string \<Rightarrow> job \<Rightarrow> string \<Rightarrow> string \<Rightarrow> materialized_result \<Rightarrow> world \<Rightarrow> bool" where
  "ready_or_not i job ws h result t \<longleftrightarrow> get_job (w_jobs t) i = Some job
     \<or> (\<exists>j. get_job (w_jobs t) i = Some j \<and> j_state j = READY \<and> j_progress j = 100 \<and> j_materialization j \<noteq> None
          \<and> j_credential_encrypted j = None \<and> j_rebuild_cost_seconds j \<noteq> None \<and> delivered ws h result t)"

lemma transition_ready:
  assumes "transition_state now i READY [C_progress 100, C_materialization (Some doc)] t = Inr t'"
    and "get_job t i = Some job"
  shows "\<exists>j. get_job t' i = Some j \<and> j_state j = READY \<and> j_progress j = 100 \<and> j_materialization j \<noteq> None
    \<and> j_credential_encrypted j = None \<and> j_rebuild_cost_seconds j \<noteq> None"
proof -
  obtain j where j: "set_state now job READY [C_progress 100, C_materialization (Some doc)] = Inr j"
    "get_job t' i = Some (j\<lparr>j_updated_at := now\<rparr>)"
    using transition_state_get [OF assms(1)] assms(2) by auto
  have "j_state j = READY \<and> j_progress j = 100 \<and> j_materialization j \<noteq> None
    \<and> j_credential_encrypted j = None \<and> j_rebuild_cost_seconds j \<noteq> None"
    using j(1) by (auto simp: set_state_def assert_legal_def Let_def TERMINAL_STATES_def elapsed_since_def
        split: if_splits sum.splits)
  then show ?thesis using j(2) by simp
qed

lemma wp_ready:
  assumes "get_job (w_jobs w) i = Some job" and "delivered ws h result w"
  shows "wp (op_transition i READY [C_progress 100, C_materialization (Some doc)])
    (\<lambda>_ t. ready_or_not i job ws h result t \<and> (\<exists>j. get_job (w_jobs t) i = Some j \<and> j_state j = READY))
    (\<lambda>_. ready_or_not i job ws h result) w"
  unfolding op_transition_def
proof (rule wp_io)
  have ready: "ready_or_not i job ws h result (w1\<lparr>w_jobs := t\<rparr>) \<and> (\<exists>j. get_job t i = Some j \<and> j_state j = READY)"
    if "stepped w w1" "transition_state (w_now w1) i READY [C_progress 100, C_materialization (Some doc)] (w_jobs w1) = Inr t"
    for w1 t
  proof -
    have "get_job (w_jobs w1) i = Some job" using that(1) assms(1) by (simp add: stepped_fields)
    from transition_ready [OF that(2) this] assms(2) that(1) show ?thesis
      by (auto simp: ready_or_not_def delivered_def stepped_fields)
  qed
  have before: "ready_or_not i job ws h result w1" if "stepped w w1" for w1
    using that assms(1) by (simp add: ready_or_not_def stepped_fields)
  fix e :: exn and w1 w2 and a :: unit
  assume st: "stepped w w1"
  show "ready_or_not i job ws h result w1" by (rule before [OF st])
  show "case (case transition_state (w_now w1) i READY [C_progress 100, C_materialization (Some doc)] (w_jobs w1) of
        Inl e \<Rightarrow> Inl e | Inr t \<Rightarrow> Inr ((), w1\<lparr>w_jobs := t\<rparr>)) of
      Inl e \<Rightarrow> ready_or_not i job ws h result w1
    | Inr (a, t) \<Rightarrow> ready_or_not i job ws h result t \<and> (\<exists>j. get_job (w_jobs t) i = Some j \<and> j_state j = READY)"
    using ready [OF st] before [OF st] by (simp split: sum.split)
  show "ready_or_not i job ws h result w2"
    if "(case transition_state (w_now w1) i READY [C_progress 100, C_materialization (Some doc)] (w_jobs w1) of
        Inl e \<Rightarrow> Inl e | Inr t \<Rightarrow> Inr ((), w1\<lparr>w_jobs := t\<rparr>)) = Inr (a, w2)"
    using ready [OF st] that by (auto split: sum.splits)
qed

text \<open>
  C2: a job is only ever called ready after its handle resolves to what was delivered. Whichever
  database call fails on the way, before or after it took effect, recording a delivery leaves the row of a
  materializing job as it was or \<open>ready\<close>, complete, with its materialization record and build cost, its credential erased; in the second case the
  handle in the caller's workspace already says \<open>ready\<close> and names the delivered blob. If it returns, the job is
  ready.
\<close>

theorem ready_means_delivered:
  assumes "get_job (w_jobs w) i = Some job" and "j_state job = MATERIALIZING"
    and "rs_obs_handle spec = JStr h" and "h \<noteq> []" and "rs_workspace_id spec = JStr ws" and "ws \<noteq> []"
    and "record_delivery wk i spec result w = (r, w')"
  shows "ready_or_not i job ws h result w'
    \<and> (r = Inr () \<longrightarrow> (\<exists>j. get_job (w_jobs w') i = Some j \<and> j_state j = READY) \<and> delivered ws h result w')"
proof -
  have same: "ready_or_not i job ws h result t" if "w_jobs t = w_jobs w" for t
    using assms(1) that by (simp add: ready_or_not_def)
  have "wp (record_delivery wk i spec result)
    (\<lambda>_ t. ready_or_not i job ws h result t \<and> (\<exists>j. get_job (w_jobs t) i = Some j \<and> j_state j = READY))
    (\<lambda>_. ready_or_not i job ws h result) w"
    unfolding record_delivery_def wp_bind wp_lift
  proof (cases "from_result result spec")
    case (Inr d)
    show "case from_result result spec of
        Inl e \<Rightarrow> ready_or_not i job ws h result w
      | Inr r \<Rightarrow> wp (e_seq (log_materialization_drift wk i spec r)
          (e_seq (resolve_obs_handle wk spec result r)
          (e_seq (record_event_safe (rs_workspace_id spec) (rs_obs_handle spec) E_MATERIALIZED
               [(''provider'', rs_provider spec), (''storage_key'', JStr (mr_storage_key result)),
                (''media_type'', JStr (mr_media_type result)), (''size_bytes'', size_json (mr_size_bytes result))])
          (e_bind (lift_sum (materialization_to_jsonb (pf_sha (wk_platform wk)) (wk_show_float wk) r)) (\<lambda>doc.
            op_transition i READY [C_progress 100, C_materialization (Some doc)])))))
        (\<lambda>_ t. ready_or_not i job ws h result t \<and> (\<exists>j. get_job (w_jobs t) i = Some j \<and> j_state j = READY))
        (\<lambda>_. ready_or_not i job ws h result) w"
      unfolding Inr sum.case wp_seq
      apply (rule wp_mono [OF wp_keeps [OF tables_drift]])
       apply (rule wp_mono [OF wp_resolve [OF assms(3-6)]])
        apply (rule wp_mono [OF wp_keeps [OF kept_record_event_safe]])
         apply (auto simp: wp_bind wp_lift same_tables_def kept_def same split: sum.split)
       apply (rule wp_ready)
        apply (auto simp: assms(1) delivered_def)
      done
  qed (simp add: same)
  from wpD [OF this assms(7)] show ?thesis
    using assms(2) by (cases r) (auto simp: ready_or_not_def)
qed

definition delivery_world :: world where
  "delivery_world = (job_world MATERIALIZING)\<lparr>w_handles :=
     [\<lparr>h_handle = ''obs_1'', h_workspace_id = ''ws'', h_type = OBS, h_payload = [(''status'', JStr ''pending'')],
       h_created_at = 0, h_updated_at = 0, h_last_accessed_at = None\<rparr>]\<rparr>"

lemma ready_means_delivered_witness:
  "\<exists>job. get_job (w_jobs delivery_world) ''j1'' = Some job \<and> j_state job = MATERIALIZING
     \<and> ready_or_not ''j1'' job ''ws'' ''obs_1'' (sample_delivery None)
         (snd (record_delivery sample_worker ''j1'' sample_spec (sample_delivery None) delivery_world))"
proof -
  let ?job = "sample_job\<lparr>j_state := MATERIALIZING, j_request_spec := to_jsonb sample_spec, j_credential_encrypted := None\<rparr>"
  let ?run = "record_delivery sample_worker ''j1'' sample_spec (sample_delivery None) delivery_world"
  have job: "get_job (w_jobs delivery_world) ''j1'' = Some ?job"
    using job_world_get [of MATERIALIZING] by (simp add: delivery_world_def)
  have "rs_obs_handle sample_spec = JStr ''obs_1''" "rs_workspace_id sample_spec = JStr ''ws''"
    by (simp_all add: sample_spec_def)
  with ready_means_delivered [OF job, of sample_spec "''obs_1''" "''ws''" sample_worker "sample_delivery None" "fst ?run" "snd ?run"]
  show ?thesis using job by simp
qed

end
