(* ===== verification/Reclaim.thy ===== *)
theory Reclaim
  imports WorkerOutcomes
begin

text \<open>
  The reclaim passes: the sweep at boot and the one on the timer select rows, fail the dead ones and put
  every other one back on the queue under an id that a second pass cannot duplicate.
\<close>

section \<open>Triage\<close>

text \<open>A row that can make no progress: its spec cannot be read, or it is older than the horizon.\<close>

definition dead :: "time \<Rightarrow> job \<Rightarrow> bool" where
  "dead stale_before j \<longleftrightarrow>
     (case from_jsonb (j_request_spec j) of Inl e \<Rightarrow> True | Inr s \<Rightarrow> j_created_at j < stale_before)"

lemma triage_split:
  assumes "\<forall>j \<in> set js. readable (j_request_spec j) \<and> j_state j \<notin> TERMINAL_STATES"
  shows "\<exists>cs rs. triage_reclaimed txt sh now sb js = Inr (cs, rs)
    \<and> (\<forall>j \<in> set js. dead sb j \<longrightarrow> (\<exists>c \<in> set cs. j_id c = j_id j \<and> j_state c = FAILED))
    \<and> j_id ` set cs = j_id ` {j \<in> set js. dead sb j}
    \<and> rs = map (\<lambda>j. (j_id j, j_state j)) (filter (\<lambda>j. \<not> dead sb j) js)"
  using assms
proof (induction js)
  case Nil
  then show ?case by simp
next
  case (Cons job js)
  then obtain cs rs where ih: "triage_reclaimed txt sh now sb js = Inr (cs, rs)"
    "\<forall>j \<in> set js. dead sb j \<longrightarrow> (\<exists>c \<in> set cs. j_id c = j_id j \<and> j_state c = FAILED)"
    "j_id ` set cs = j_id ` {j \<in> set js. dead sb j}"
    "rs = map (\<lambda>j. (j_id j, j_state j)) (filter (\<lambda>j. \<not> dead sb j) js)" by auto
  have legal: "legal_step (j_state job) FAILED" using Cons.prems by (simp add: legal_failed)
  have failing: "\<exists>c. set_state now job FAILED m = Inr c \<and> j_id c = j_id job \<and> j_state c = FAILED" for m
    using legal set_state_Inr_iff set_state_ok(2,3) unfolding same_job_def by metis
  show ?case
  proof (cases "from_jsonb (j_request_spec job)")
    case (Inl e)
    then obtain m where e: "e = InvalidSpecError m"
      using Cons.prems by (auto simp: readable_def split: exn.splits)
    obtain c where c: "set_state now job FAILED
        [C_error (Some (''invalid job spec: '' @ exn_str txt (InvalidSpecError m)))] = Inr c"
      "j_id c = j_id job" "j_state c = FAILED" using failing by blast
    have d: "dead sb job" by (simp add: dead_def Inl)
    show ?thesis
      by (rule exI [of _ "c # cs"], rule exI [of _ rs]) (use Inl e c d ih in \<open>auto simp: sum_simps\<close>)
  next
    case (Inr s)
    show ?thesis
    proof (cases "j_created_at job < sb")
      case True
      obtain c where c: "set_state now job FAILED
          [C_error (Some (''reclaimed as stale: non-terminal since '' @ sh (j_created_at job)))] = Inr c"
        "j_id c = j_id job" "j_state c = FAILED" using failing by blast
      have d: "dead sb job" using True by (simp add: dead_def Inr)
      show ?thesis
        by (rule exI [of _ "c # cs"], rule exI [of _ rs]) (use Inr True c d ih in \<open>auto simp: sum_simps\<close>)
    next
      case False
      then have d: "\<not> dead sb job" by (simp add: dead_def Inr)
      show ?thesis
        by (rule exI [of _ cs], rule exI [of _ "(j_id job, j_state job) # rs"])
          (use Inr False d ih in \<open>auto simp: sum_simps\<close>)
    qed
  qed
qed

section \<open>Resuming\<close>

definition copies :: "string \<Rightarrow> world \<Rightarrow> nat" where
  "copies d w = length (filter (\<lambda>q. q_id q = Some d) (w_queue w))"

lemma wp_resume_one:
  assumes "calm w0 w"
  shows "wp (op_enqueue name i (Some d) None) (\<lambda>_ t. calm w0 t \<and> w_jobs t = w_jobs w \<and> 0 < copies d t
      \<and> (\<forall>x. copies x w \<le> copies x t \<and> copies x t \<le> max 1 (copies x w))) (\<lambda>_ _. False) w"
  unfolding op_enqueue_def
proof (rule wp_io_quiet)
  show "quiet w" using assms by (simp add: calm_def)
  fix w1
  assume s: "stepped w w1"
  have w1: "calm w0 w1" "w_jobs w1 = w_jobs w" "w_queue w1 = w_queue w"
    using calm_stepped [OF assms s] s by (simp_all add: stepped_fields)
  show "case (if Some d \<noteq> None \<and> list_ex (\<lambda>q. q_id q = Some d) (w_queue w1) then Inr ((), w1)
        else Inr ((), w1\<lparr>w_queue := w_queue w1 @
               [\<lparr>q_name = name, q_job = i, q_id = Some d, q_defer = None\<rparr>]\<rparr>)) of
      Inl e \<Rightarrow> False
    | Inr (a, t) \<Rightarrow> calm w0 t \<and> w_jobs t = w_jobs w \<and> 0 < copies d t
      \<and> (\<forall>x. copies x w \<le> copies x t \<and> copies x t \<le> max 1 (copies x w))"
  proof (cases "list_ex (\<lambda>q. q_id q = Some d) (w_queue w)")
    case True
    then have "0 < copies d w" by (auto simp: copies_def list_ex_iff filter_empty_conv)
    then show ?thesis using True w1 by (simp add: copies_def)
  next
    case False
    then have "copies d w = 0" by (auto simp: copies_def list_ex_iff filter_empty_conv)
    moreover have "calm w0 (w1\<lparr>w_queue := w_queue w1 @ qs\<rparr>)" for qs using w1(1) by simp
    ultimately show ?thesis using False w1 by (auto simp: copies_def)
  qed
qed

lemma wp_resume_all:
  assumes "calm w0 w"
  shows "wp (resume_all rs) (\<lambda>_ t. calm w0 t \<and> w_jobs t = w_jobs w
      \<and> (\<forall>(i, s) \<in> set rs. \<forall>name. RESUME_TASK s = Some name \<longrightarrow> 0 < copies (lifecycle_job_id name i) t)
      \<and> (\<forall>x. copies x w \<le> copies x t \<and> copies x t \<le> max 1 (copies x w))) (\<lambda>_ _. False) w"
  using assms
proof (induction rs arbitrary: w)
  case Nil
  then show ?case by (simp add: resume_all_def wp_ret)
next
  case (Cons p rs)
  obtain i s where p: "p = (i, s)" by fastforce
  show ?case
  proof (cases "RESUME_TASK s")
    case None
    then show ?thesis
      using Cons.IH [OF Cons.prems] by (simp add: resume_all_def p wp_seq wp_ret)
  next
    case (Some name)
    have rest: "resume_all (p # rs) =
        e_seq (op_enqueue name i (Some (lifecycle_job_id name i)) None) (resume_all rs)"
      by (simp add: resume_all_def p Some)
    show ?thesis
      unfolding rest wp_seq
    proof (rule wp_mono [OF wp_resume_one [OF Cons.prems]])
      fix u :: unit and t
      assume t: "calm w0 t \<and> w_jobs t = w_jobs w \<and> 0 < copies (lifecycle_job_id name i) t
        \<and> (\<forall>x. copies x w \<le> copies x t \<and> copies x t \<le> max 1 (copies x w))"
      show "wp (resume_all rs) (\<lambda>_ t. calm w0 t \<and> w_jobs t = w_jobs w
          \<and> (\<forall>(i, s) \<in> set (p # rs). \<forall>name. RESUME_TASK s = Some name \<longrightarrow> 0 < copies (lifecycle_job_id name i) t)
          \<and> (\<forall>x. copies x w \<le> copies x t \<and> copies x t \<le> max 1 (copies x w))) (\<lambda>_ _. False) t"
        by (rule wp_mono [OF Cons.IH]) (use t p Some in \<open>auto intro: order_trans less_le_trans\<close>)
    qed auto
  qed
qed

section \<open>A pass\<close>

definition reclaimed :: "worker_env \<Rightarrow> world \<Rightarrow> job list \<Rightarrow> time \<Rightarrow> world \<Rightarrow> bool" where
  "reclaimed wk w js now t \<longleftrightarrow>
     (\<forall>j \<in> set js.
        if dead (now - wk_stale_after_days wk * 86400000000) j
        then (\<exists>j'. get_job (w_jobs t) (j_id j) = Some j' \<and> j_state j' = FAILED \<and> j_credential_encrypted j' = None)
        else get_job (w_jobs t) (j_id j) = Some j
          \<and> (\<exists>name. RESUME_TASK (j_state j) = Some name \<and> 0 < copies (lifecycle_job_id name (j_id j)) t))
     \<and> (\<forall>i. i \<notin> j_id ` set js \<longrightarrow> get_job (w_jobs t) i = get_job (w_jobs w) i)
     \<and> (\<forall>x. copies x w \<le> copies x t \<and> copies x t \<le> max 1 (copies x w))"

lemma resume_task_exists: "s \<notin> TERMINAL_STATES \<Longrightarrow> \<exists>name. RESUME_TASK s = Some name"
  by (cases s) (auto simp: RESUME_TASK_def TERMINAL_STATES_def)

lemma wp_pass:
  assumes quiet: "quiet w" and ok: "jobs_ok (w_jobs w)" and sel: "selects (\<lambda>w. f (w_jobs w))"
    and live: "\<forall>j \<in> set (f (w_jobs w)). readable (j_request_spec j) \<and> j_state j \<notin> TERMINAL_STATES"
  shows "wp (e_bind (op_reclaim wk (\<lambda>w. f (w_jobs w))) resume_all)
    (\<lambda>_ t. \<exists>now \<ge> w_now w. reclaimed wk w (f (w_jobs w)) now t) (\<lambda>_ _. False) w"
  unfolding op_reclaim_def wp_bind
proof (rule wp_io_quiet [OF quiet])
  fix w1
  assume st: "stepped w w1" and q1: "quiet w1"
  have jobs: "w_jobs w1 = w_jobs w" and queue: "w_queue w1 = w_queue w" and later: "w_now w \<le> w_now w1"
    using st by (auto simp: stepped_fields)
  let ?js = "f (w_jobs w)" and ?sb = "w_now w1 - wk_stale_after_days wk * 86400000000"
  obtain cs rs where tri: "triage_reclaimed (wk_exn_text wk) (wk_show_time wk) (w_now w1) ?sb ?js = Inr (cs, rs)"
    "\<forall>j \<in> set ?js. dead ?sb j \<longrightarrow> (\<exists>c \<in> set cs. j_id c = j_id j \<and> j_state c = FAILED)"
    "j_id ` set cs = j_id ` {j \<in> set ?js. dead ?sb j}"
    "rs = map (\<lambda>j. (j_id j, j_state j)) (filter (\<lambda>j. \<not> dead ?sb j) ?js)"
    using triage_split [OF live, of "wk_exn_text wk" "wk_show_time wk" "w_now w1" ?sb] by blast
  let ?t = "w1\<lparr>w_jobs := fold (commit_job (w_now w1)) cs (w_jobs w)\<rparr>"
  have com: "distinct (map j_id cs)
    \<and> (\<forall>c \<in> set cs. \<exists>old. get_job (w_jobs w) (j_id c) = Some old \<and> job_advances old c \<and> cred_at_rest c)"
    using triage_commits [of _ _ _ _ "\<lambda>w. f (w_jobs w)" w, OF tri(1) sel ok] by simp
  note fold = fold_commit [OF ok conjunct1 [OF com] conjunct2 [OF com], of "w_now w1"]
  have ids: "distinct (map j_id ?js)" and sub: "set ?js \<subseteq> set (w_jobs w)"
    using sel ok by (auto simp: selects_def jobs_ok_def)
  have same: "get_job (w_jobs ?t) (j_id j) = Some j" if "j \<in> set ?js" "\<not> dead ?sb j" for j
  proof -
    have "j_id j \<notin> j_id ` set cs"
      unfolding tri(3) using ids that by (auto simp: distinct_map inj_on_def)
    then show ?thesis using fold get_job_of_mem [OF ok] sub that(1) by auto
  qed
  have failed: "\<exists>j'. get_job (w_jobs ?t) (j_id j) = Some j' \<and> j_state j' = FAILED \<and> j_credential_encrypted j' = None"
    if hyp: "j \<in> set ?js" "dead ?sb j" for j
  proof -
    obtain c where c: "c \<in> set cs" "j_id c = j_id j" "j_state c = FAILED" using tri(2) hyp by blast
    then obtain j' where j': "get_job (w_jobs ?t) (j_id j) = Some j'" "j_state j' = FAILED"
      using conjunct2 [OF conjunct2 [OF conjunct2 [OF fold]]] by force
    then have "cred_at_rest j'" using fold get_job_mem [OF j'(1)] by (auto simp: jobs_ok_def list_all_iff)
    then show ?thesis using j' by (simp add: cred_at_rest_def TERMINAL_STATES_def)
  qed
  have others: "get_job (w_jobs ?t) i = get_job (w_jobs w) i" if "i \<notin> j_id ` set ?js" for i
    using fold that tri(3) by (auto simp: image_iff)
  have calm: "calm ?t ?t" using q1 by (simp add: calm_def quiet_def)
  have "wp (resume_all rs) (\<lambda>_ t. \<exists>now \<ge> w_now w. reclaimed wk w ?js now t) (\<lambda>_ _. False) ?t"
  proof (rule wp_mono [OF wp_resume_all [OF calm]])
    fix u :: unit and t
    assume t: "calm ?t t \<and> w_jobs t = w_jobs ?t
      \<and> (\<forall>(i, s) \<in> set rs. \<forall>name. RESUME_TASK s = Some name \<longrightarrow> 0 < copies (lifecycle_job_id name i) t)
      \<and> (\<forall>x. copies x ?t \<le> copies x t \<and> copies x t \<le> max 1 (copies x ?t))"
    have resumed: "\<exists>name. RESUME_TASK (j_state j) = Some name \<and> 0 < copies (lifecycle_job_id name (j_id j)) t"
      if "j \<in> set ?js" "\<not> dead ?sb j" for j
      using t that live resume_task_exists [of "j_state j"] unfolding tri(4) by fastforce
    have "copies x ?t = copies x w" for x using queue by (simp add: copies_def)
    then have "reclaimed wk w ?js (w_now w1) t"
      using t resumed same failed others unfolding reclaimed_def by auto
    then show "\<exists>now \<ge> w_now w. reclaimed wk w ?js now t" using later by blast
  qed simp
  then show "case (case triage_reclaimed (wk_exn_text wk) (wk_show_time wk) (w_now w1) ?sb (f (w_jobs w1)) of
        Inl e \<Rightarrow> Inl e
      | Inr (changed, resumable) \<Rightarrow>
          Inr (resumable, w1\<lparr>w_jobs := fold (commit_job (w_now w1)) changed (w_jobs w1)\<rparr>)) of
      Inl e \<Rightarrow> False
    | Inr (rs, t) \<Rightarrow> wp (resume_all rs) (\<lambda>_ t. \<exists>now \<ge> w_now w. reclaimed wk w ?js now t) (\<lambda>_ _. False) t"
    by (simp add: jobs tri(1))
qed

definition all_readable :: "world \<Rightarrow> bool" where
  "all_readable w \<longleftrightarrow> list_all (\<lambda>j. readable (j_request_spec j)) (w_jobs w)"

lemma reclaim_live:
  assumes "all_readable w"
  shows "\<forall>j \<in> set (reclaim_non_terminal (w_jobs w)). readable (j_request_spec j) \<and> j_state j \<notin> TERMINAL_STATES"
    and "\<forall>j \<in> set (reclaim_stalled (w_jobs w) a b). readable (j_request_spec j) \<and> j_state j \<notin> TERMINAL_STATES"
  using assms by (auto simp: all_readable_def list_all_iff reclaim_non_terminal_def reclaim_stalled_def Let_def)

text \<open>
  C6: no job is left behind. Where the database and the queue work and every stored spec can be read or
  is recognised as malformed, one boot pass fails every non-terminal job whose spec is malformed or that is older than the
  horizon, and queues each other one under the task of its state, with its row untouched; the timer pass does the same for the
  jobs that showed no life. Rows outside the selection are untouched, nothing leaves the queue, and no pass, however often repeated, ever makes
  a second copy of a resume.
\<close>

theorem reclaim_resumes:
  assumes "quiet w" and "world_ok w" and "all_readable w"
    and "startup wk w = (r, w1)" and "sweep_stalled_jobs wk w = (r', w2)"
  shows "(\<exists>now t. now \<ge> w_now w \<and> reclaimed wk w (reclaim_non_terminal (w_jobs w)) now t \<and> evolves t w1)
    \<and> r' = Inr ()
    \<and> (\<exists>now. now \<ge> w_now w \<and> reclaimed wk w (reclaim_stalled (w_jobs w) (w_now w - wk_stalled_after_seconds wk * 1000000)
          (Some (w_now w - wk_materializing_stalled_after_seconds wk * 1000000))) now w2)"
proof (intro conjI)
  have ok: "jobs_ok (w_jobs w)" using assms(2) by (simp add: world_ok_def)
  note boot = wp_pass [OF assms(1) ok selects_reclaims(1) reclaim_live(1) [OF assms(3)], of wk]
  note timer = wp_pass [OF assms(1) ok selects_reclaims(2) reclaim_live(2) [OF assms(3)], of wk]
  show "\<exists>now t. now \<ge> w_now w \<and> reclaimed wk w (reclaim_non_terminal (w_jobs w)) now t \<and> evolves t w1"
  proof -
    obtain x t where pass: "e_bind (op_reclaim wk (\<lambda>w. reclaim_non_terminal (w_jobs w))) resume_all w = (x, t)"
      by fastforce
    from wpD [OF boot pass] have x: "x = Inr ()"
      and now: "\<exists>now \<ge> w_now w. reclaimed wk w (reclaim_non_terminal (w_jobs w)) now t"
      by (auto split: sum.splits)
    have "sweep_eviction_safe wk None t = (r, w1)" using assms(4) pass x by (simp add: startup_def e_seq_run)
    then have "evolves t w1" by (rule keepsD [OF keeps_sweep_safe])
    then show ?thesis using now by blast
  qed
  have "sweep_stalled_jobs wk w = e_bind (op_reclaim wk (\<lambda>v. reclaim_stalled (w_jobs v)
      (w_now w - wk_stalled_after_seconds wk * 1000000)
      (Some (w_now w - wk_materializing_stalled_after_seconds wk * 1000000)))) resume_all w"
    by (simp add: sweep_stalled_jobs_def e_bind_def e_gets_def)
  then have run: "e_bind (op_reclaim wk (\<lambda>v. reclaim_stalled (w_jobs v)
      (w_now w - wk_stalled_after_seconds wk * 1000000)
      (Some (w_now w - wk_materializing_stalled_after_seconds wk * 1000000)))) resume_all w = (r', w2)"
    using assms(5) by simp
  from wpD [OF timer run]
  show "r' = Inr ()"
    and "\<exists>now. now \<ge> w_now w \<and> reclaimed wk w (reclaim_stalled (w_jobs w) (w_now w - wk_stalled_after_seconds wk * 1000000)
          (Some (w_now w - wk_materializing_stalled_after_seconds wk * 1000000))) now w2"
    by (auto split: sum.splits)
qed

lemma reclaim_resumes_witness:
  "(\<exists>now t. now \<ge> 0 \<and> reclaimed sample_worker (job_world RUNNING)
       (reclaim_non_terminal (w_jobs (job_world RUNNING))) now t
     \<and> evolves t (snd (startup sample_worker (job_world RUNNING))))
   \<and> fst (sweep_stalled_jobs sample_worker (job_world RUNNING)) = Inr ()"
proof -
  have readable: "all_readable (job_world RUNNING)"
    using sample_spec_read by (simp add: all_readable_def job_world_def initial_world_def readable_def)
  have "w_now (job_world RUNNING) = 0" by (simp add: job_world_def initial_world_def)
  with reclaim_resumes [OF job_world_quiet job_world_ok readable, of sample_worker
      "fst (startup sample_worker (job_world RUNNING))" "snd (startup sample_worker (job_world RUNNING))"
      "fst (sweep_stalled_jobs sample_worker (job_world RUNNING))" "snd (sweep_stalled_jobs sample_worker (job_world RUNNING))"]
  show ?thesis by simp
qed

end
