(* ===== verification/RateLimit.thy ===== *)
theory RateLimit
  imports JobState Complex_Main
begin

text \<open>
  The token bucket that paces the calls to each upstream service (\<open>providers/ratelimit.py\<close>). Seconds and tokens,
  floats in the code, are exact rationals. \<open>acquire\<close> reads the clock once per turn of its loop; the
  readings are the argument, and \<open>None\<close> is a loop that has used them all up without getting a token. The
  lock that serializes the callers makes one bucket's acquisitions a sequence.
\<close>

record rate_limiter =
  lm_rate :: rat
  lm_capacity :: rat
  lm_tokens :: rat
  lm_updated :: rat

definition new_limiter :: "rat \<Rightarrow> rat option \<Rightarrow> rat \<Rightarrow> exn + rate_limiter" where
  "new_limiter rate burst now =
     (if rate \<le> 0 then Inl (ValueError ''rate_per_sec must be positive'')
      else
        let capacity = (case burst of Some b \<Rightarrow> b | None \<Rightarrow> max rate 1)
        in Inr \<lparr>lm_rate = rate, lm_capacity = capacity, lm_tokens = capacity, lm_updated = now\<rparr>)"

definition refill :: "rate_limiter \<Rightarrow> rat \<Rightarrow> rate_limiter" where
  "refill l now =
     l\<lparr>lm_tokens := min (lm_capacity l) (lm_tokens l + (now - lm_updated l) * lm_rate l), lm_updated := now\<rparr>"

text \<open>How long the loop sleeps before it looks again.\<close>

definition pause :: "rate_limiter \<Rightarrow> rat" where
  "pause l = (1 - lm_tokens l) / lm_rate l"

fun acquire :: "rate_limiter \<Rightarrow> rat list \<Rightarrow> (rate_limiter \<times> rat list) option" where
  "acquire l [] = None"
| "acquire l (now # later) =
     (let l' = refill l now in
      if 1 \<le> lm_tokens l' then Some (l'\<lparr>lm_tokens := lm_tokens l' - 1\<rparr>, later) else acquire l' later)"

text \<open>The register of limiters, one per provider; \<open>rate_of\<close> are the rates of the settings.\<close>

definition DEFAULT_RATE :: rat where
  "DEFAULT_RATE = 10"

definition get_limiter ::
  "(string \<Rightarrow> rat option) \<Rightarrow> rat \<Rightarrow> string \<Rightarrow> (string \<times> rate_limiter) list
   \<Rightarrow> exn + rate_limiter \<times> (string \<times> rate_limiter) list" where
  "get_limiter rate_of now provider limiters =
     (case map_of limiters provider of
        Some l \<Rightarrow> Inr (l, limiters)
      | None \<Rightarrow>
          (case new_limiter (case rate_of provider of Some r \<Rightarrow> r | None \<Rightarrow> DEFAULT_RATE) None now of
             Inl e \<Rightarrow> Inl e
           | Inr l \<Rightarrow> Inr (l, (provider, l) # limiters)))"

definition reset_limiters :: "(string \<times> rate_limiter) list \<Rightarrow> (string \<times> rate_limiter) list" where
  "reset_limiters limiters = []"

section \<open>The rate holds\<close>

text \<open>Acquisitions one after the other, each with its own clock readings.\<close>

fun acquire_all :: "rate_limiter \<Rightarrow> rat list list \<Rightarrow> rate_limiter option" where
  "acquire_all l [] = Some l"
| "acquire_all l (readings # more_readings) =
     (case acquire l readings of None \<Rightarrow> None | Some (l', _) \<Rightarrow> acquire_all l' more_readings)"

definition limiter_ok :: "rate_limiter \<Rightarrow> bool" where
  "limiter_ok l \<longleftrightarrow> 0 < lm_rate l \<and> 0 \<le> lm_tokens l \<and> lm_tokens l \<le> lm_capacity l"

lemma refill_bounds:
  "lm_tokens (refill l now) \<le> lm_capacity l"
  "lm_tokens (refill l now) \<le> lm_tokens l + (now - lm_updated l) * lm_rate l"
  "lm_rate (refill l now) = lm_rate l" "lm_capacity (refill l now) = lm_capacity l" "lm_updated (refill l now) = now"
  by (simp_all add: refill_def)

lemma refill_ok: "limiter_ok l \<Longrightarrow> lm_updated l \<le> now \<Longrightarrow> limiter_ok (refill l now)"
  by (simp add: limiter_ok_def refill_def)

text \<open>One acquisition takes one token, and no more than time has brought.\<close>

lemma acquire_spends:
  assumes "acquire l readings = Some (l', later)" and "limiter_ok l" and "sorted (lm_updated l # readings)"
  shows "limiter_ok l' \<and> lm_rate l' = lm_rate l \<and> lm_capacity l' = lm_capacity l \<and> lm_updated l' \<in> set readings
    \<and> lm_tokens l' + 1 \<le> lm_tokens l + (lm_updated l' - lm_updated l) * lm_rate l"
  using assms
proof (induction l readings rule: acquire.induct)
  case (2 l now later_readings)
  have ok: "limiter_ok (refill l now)" using 2(3,4) by (intro refill_ok) simp_all
  show ?case
  proof (cases "1 \<le> lm_tokens (refill l now)")
    case True
    then show ?thesis
      using 2(2) ok refill_bounds [of l now] by (auto simp: Let_def limiter_ok_def)
  next
    case False
    then have step: "acquire (refill l now) later_readings = Some (l', later)" using 2(2) by (simp add: Let_def)
    have "sorted (lm_updated (refill l now) # later_readings)" using 2(4) by (simp add: refill_bounds)
    from 2(1) [OF HOL.refl False step ok this]
    show ?thesis using refill_bounds [of l now] by (auto simp: algebra_simps)
  qed
qed simp

text \<open>However the clock runs, \<open>n\<close> calls get through only in time for them: burst plus rate times time.\<close>

lemma acquire_all_bounded:
  assumes "acquire_all l calls = Some l'" and "limiter_ok l" and "sorted (lm_updated l # concat calls)"
  shows "of_nat (length calls) \<le> lm_capacity l + (lm_updated l' - lm_updated l) * lm_rate l"
proof -
  have "limiter_ok l' \<and> of_nat (length calls) + lm_tokens l' \<le> lm_tokens l + (lm_updated l' - lm_updated l) * lm_rate l"
    using assms
  proof (induction l calls rule: acquire_all.induct)
    case (2 l readings more_readings)
    then obtain l1 later where one: "acquire l readings = Some (l1, later)" "acquire_all l1 more_readings = Some l'"
      by (auto split: option.splits prod.splits)
    have s: "sorted (lm_updated l # readings)" using 2(4) by (simp add: sorted_append)
    note a = acquire_spends [OF one(1) 2(3) s]
    have "sorted (lm_updated l1 # concat more_readings)" using 2(4) a by (auto simp: sorted_append)
    from 2(1) [OF one(1) HOL.refl one(2) _ this] a show ?case by (auto simp: algebra_simps)
  qed (simp add: limiter_ok_def)
  then show ?thesis using assms(2) by (auto simp: limiter_ok_def)
qed

text \<open>A caller that slept as long as it was told gets its token at the next look.\<close>

lemma acquire_after_pause:
  assumes "0 < lm_rate l" and "1 \<le> lm_capacity l" and "now + pause (refill l now) \<le> next_look"
  shows "\<exists>l' rest. acquire l (now # next_look # later) = Some (l', rest)"
proof (cases "1 \<le> lm_tokens (refill l now)")
  case False
  have "(1 - lm_tokens (refill l now)) / lm_rate l \<le> next_look - now"
    using assms(3) by (simp add: pause_def refill_bounds)
  then have "1 - lm_tokens (refill l now) \<le> (next_look - now) * lm_rate l"
    using assms(1) by (simp add: pos_divide_le_eq)
  then have "1 \<le> lm_tokens (refill (refill l now) next_look)"
    using assms(2) by (simp add: refill_def [of "refill l now"] refill_bounds)
  then show ?thesis using False by (simp add: Let_def)
qed (simp add: Let_def)

lemma new_limiter_ok: "new_limiter rate None now = Inr l \<Longrightarrow> limiter_ok l \<and> 1 \<le> lm_capacity l"
  by (auto simp: new_limiter_def limiter_ok_def Let_def split: if_splits)

text \<open>With a burst below one the bucket never holds a whole token, and the loop never ends.\<close>

lemma small_burst_never_acquires:
  assumes "lm_capacity l < 1"
  shows "acquire l readings = None"
  using assms
proof (induction l readings rule: acquire.induct)
  case (2 l now later)
  have "\<not> 1 \<le> lm_tokens (refill l now)" using refill_bounds(1) [of l now] 2(2) by linarith
  then show ?case using 2(1) [OF HOL.refl] 2(2) by (simp add: Let_def refill_bounds)
qed simp

end
