(* ===== verification/Minting.thy ===== *)
theory Minting
  imports Runtime
begin

text \<open>
  What the tools that mint handles leave behind: new rows of one workspace at the end of the handle table,
  and every other table as it was. The relation \<open>mints ws rows\<close> composes along a run, so that each tool's
  outcome is a statement about the rows it added.
\<close>

definition mints :: "string \<Rightarrow> handle_row list \<Rightarrow> world \<Rightarrow> world \<Rightarrow> bool" where
  "mints ws rows w w' \<longleftrightarrow>
     w_handles w' = w_handles w @ rows \<and> list_all (\<lambda>r. h_workspace_id r = ws) rows
     \<and> w_jobs w' = w_jobs w \<and> w_edges w' = w_edges w \<and> w_events w' = w_events w
     \<and> w_access w' = w_access w \<and> w_queue w' = w_queue w \<and> w_now w \<le> w_now w'"

lemma mints_tables: "same_tables w w' \<Longrightarrow> mints ws [] w w'"
  by (simp add: mints_def same_tables_def)

lemma mints_refl: "mints ws [] w w"
  by (simp add: mints_def)

lemma mints_trans: "mints ws rs w v \<Longrightarrow> mints ws ss v u \<Longrightarrow> mints ws (rs @ ss) w u"
  by (simp add: mints_def)

lemma mints_then: "mints ws rs w v \<Longrightarrow> same_tables v u \<Longrightarrow> mints ws rs w u"
  by (auto simp: mints_def same_tables_def)

lemma mints_first: "same_tables w v \<Longrightarrow> mints ws rs v u \<Longrightarrow> mints ws rs w u"
  by (auto simp: mints_def same_tables_def)

text \<open>A handle that is minted is a row with its kind and payload.\<close>

definition minted :: "string \<Rightarrow> handle_type \<Rightarrow> dict \<Rightarrow> string \<Rightarrow> world \<Rightarrow> world \<Rightarrow> bool" where
  "minted ws ht p h w w' \<longleftrightarrow>
     (\<exists>row. mints ws [row] w w' \<and> h_handle row = h \<and> h_type row = ht \<and> h_payload row = p
        \<and> row_of_handle (w_handles w) h = None)"

lemma put_handle_row:
  assumes "put_handle now tok ws ht p t = Inr (h, t')"
  shows "\<exists>row. t' = t @ [row] \<and> h_handle row = h \<and> h_workspace_id row = ws \<and> h_type row = ht \<and> h_payload row = p
    \<and> row_of_handle t h = None"
  using assms by (auto simp: put_handle_def fresh_row_def dest!: insert_row_Inr split: sum.splits)

lemma wp_put_handle:
  assumes w: "same_tables w0 w"
  shows "wp (op_put_handle ws ht p) (\<lambda>h. minted ws ht p h w0)
    (\<lambda>_ t. same_tables w0 t \<or> (\<exists>h. minted ws ht p h w0 t)) w"
  unfolding op_put_handle_def wp_bind
proof (rule wp_mono [OF wp_keeps [OF tables_draw]])
  fix tok w1
  assume "same_tables w w1"
  then have w1: "same_tables w0 w1" by (rule tables.R_trans [OF w])
  have put: "minted ws ht p h w0 v" if "same_tables w0 u"
    "(case put_handle (w_now u) tok ws ht p (w_handles u) of Inl e \<Rightarrow> Inl e | Inr (h, t) \<Rightarrow> Inr (h, u\<lparr>w_handles := t\<rparr>)) = Inr (h, v)"
    for u h v
    using that by (auto simp: minted_def mints_def same_tables_def dest!: put_handle_row split: sum.splits)
  show "wp (e_io (\<lambda>w. case put_handle (w_now w) tok ws ht p (w_handles w) of Inl e \<Rightarrow> Inl e
      | Inr (h, t) \<Rightarrow> Inr (h, w\<lparr>w_handles := t\<rparr>))) (\<lambda>h. minted ws ht p h w0)
      (\<lambda>_ t. same_tables w0 t \<or> (\<exists>h. minted ws ht p h w0 t)) w1"
  proof (rule wp_io)
    fix w2
    assume "stepped w1 w2"
    then have w2: "same_tables w0 w2" using w1 by (blast intro: tables.R_trans stepped_tables)
    show "case (case put_handle (w_now w2) tok ws ht p (w_handles w2) of Inl e \<Rightarrow> Inl e
        | Inr (h, t) \<Rightarrow> Inr (h, w2\<lparr>w_handles := t\<rparr>)) of
        Inl e \<Rightarrow> same_tables w0 w2 \<or> (\<exists>h. minted ws ht p h w0 w2) | Inr (a, v) \<Rightarrow> minted ws ht p a w0 v"
      using put [OF w2] w2 by (auto split: sum.split)
  next
    fix e w2
    assume "stepped w1 w2"
    then show "same_tables w0 w2 \<or> (\<exists>h. minted ws ht p h w0 w2)"
      using w1 by (blast intro: tables.R_trans stepped_tables)
  next
    fix e w2 h v
    assume s: "stepped w1 w2" and "(case put_handle (w_now w2) tok ws ht p (w_handles w2) of Inl e \<Rightarrow> Inl e
        | Inr (h, t) \<Rightarrow> Inr (h, w2\<lparr>w_handles := t\<rparr>)) = Inr (h, v)"
    moreover have "same_tables w0 w2" using w1 s by (blast intro: tables.R_trans stepped_tables)
    ultimately show "same_tables w0 v \<or> (\<exists>h. minted ws ht p h w0 v)" using put by blast
  qed
qed (auto intro: tables.R_trans [OF w])

text \<open>Steps that touch no table, whether they return or raise.\<close>

lemma wp_bind_same:
  assumes "keeps same_tables m" and "same_tables w t" and "\<And>u. same_tables w u \<Longrightarrow> E u"
    and "\<And>x u. same_tables w u \<Longrightarrow> wp (f x) Q (\<lambda>_. E) u"
  shows "wp (e_bind m f) Q (\<lambda>_. E) t"
  unfolding wp_bind
  by (rule wp_mono [OF wp_keeps [OF assms(1)]]) (auto intro: assms(3,4) tables.R_trans [OF assms(2)])

lemma wp_lift_step:
  "(\<And>e. x = Inl e \<Longrightarrow> E e w) \<Longrightarrow> (\<And>a. x = Inr a \<Longrightarrow> wp (f a) Q E w) \<Longrightarrow> wp (e_bind (lift_sum x) f) Q E w"
  by (simp add: wp_bind wp_lift split: sum.split)

end
