(* ===== verification/Prune.thy ===== *)
theory Prune
  imports Minting
begin

text \<open>
  The sweep of the test suite's leftovers (\<open>scripts/prune_test_debris.py\<close>): which rows of the four tables it
  may delete, what it counts and reports first, and the deletion in one transaction. SQL's conditions have
  three values, of which only \<open>TRUE\<close> selects. The theory shows that exactly the rows of test workspaces go,
  in step across the tables, and that a dry run changes nothing.
\<close>

section \<open>SQL conditions\<close>

text \<open>\<open>s LIKE p\<close> for a pattern without escapes.\<close>

fun sql_like :: "string \<Rightarrow> string \<Rightarrow> bool" where
  "sql_like [] s \<longleftrightarrow> s = []"
| "sql_like (p # ps) [] \<longleftrightarrow> p = CHR ''%'' \<and> sql_like ps []"
| "sql_like (p # ps) (c # s) \<longleftrightarrow>
     (if p = CHR ''%'' then sql_like ps (c # s) \<or> sql_like (p # ps) s
      else (p = CHR ''_'' \<or> p = c) \<and> sql_like ps s)"

text \<open>A truth value, \<open>None\<close> for \<open>NULL\<close>.\<close>

type_synonym sql_bool = "bool option"

definition null_like :: "string \<Rightarrow> string option \<Rightarrow> sql_bool" where
  "null_like p v = map_option (sql_like p) v"

definition null_in :: "string list \<Rightarrow> string option \<Rightarrow> sql_bool" where
  "null_in xs v = map_option (\<lambda>s. s \<in> set xs) v"

definition is_null :: "string option \<Rightarrow> sql_bool" where
  "is_null v = Some (v = None)"

definition sql_or :: "sql_bool \<Rightarrow> sql_bool \<Rightarrow> sql_bool" where
  "sql_or a b =
     (if a = Some True \<or> b = Some True then Some True
      else if a = None \<or> b = None then None else Some False)"

definition sql_not :: "sql_bool \<Rightarrow> sql_bool" where
  "sql_not a = map_option Not a"

definition selected :: "sql_bool \<Rightarrow> bool" where
  "selected a \<longleftrightarrow> a = Some True"

section \<open>What may be deleted\<close>

definition TEST_WORKSPACE_PATTERN :: string where
  "TEST_WORKSPACE_PATTERN = ''ws-%''"

definition RETIRED_DEBUG_WORKSPACES :: "string list" where
  "RETIRED_DEBUG_WORKSPACES =
     [''user-test'', ''user-stress-user'', ''t54_verify_f1734690'', ''t54_verify_46e3082b'',
      ''user-t54verify02570471'', ''user-t54verify212cc885'', ''t54_probe_2781d2f8'', ''user-t54probe'',
      ''debug_repro_22294622'', ''debug_repro_3f60f6fe'', ''t35_task_zero'', ''probe_c2c979fc'']"

definition workspace_scoped :: "bool \<Rightarrow> string \<Rightarrow> sql_bool" where
  "workspace_scoped include_retired_debug ws =
     (let by_pattern = null_like TEST_WORKSPACE_PATTERN (Some ws) in
      if include_retired_debug then sql_or by_pattern (null_in RETIRED_DEBUG_WORKSPACES (Some ws)) else by_pattern)"

text \<open>
  \<open>request_spec ->> key\<close>: \<open>NULL\<close> for a missing key and for a JSON \<open>null\<close>. How Postgres writes a value that
  is not a string is the argument \<open>show_json\<close>.
\<close>

definition spec_text :: "(json \<Rightarrow> string) \<Rightarrow> job \<Rightarrow> string \<Rightarrow> string option" where
  "spec_text show_json j key =
     (case jget (j_request_spec j) key of JNull \<Rightarrow> None | JStr s \<Rightarrow> Some s | v \<Rightarrow> Some (show_json v))"

definition suite_jobs :: "(json \<Rightarrow> string) \<Rightarrow> bool \<Rightarrow> job \<Rightarrow> sql_bool" where
  "suite_jobs show_json include_retired_debug j =
     (let ws = spec_text show_json j ''workspace_id'';
          predicate = sql_or (null_like TEST_WORKSPACE_PATTERN ws) (is_null ws)
      in if include_retired_debug then sql_or predicate (null_in RETIRED_DEBUG_WORKSPACES ws) else predicate)"

section \<open>The targets, in order\<close>

datatype target = EVENTS | EDGES | HANDLES | JOBS

fun target_label :: "target \<Rightarrow> string" where
  "target_label EVENTS = ''provenance_events''"
| "target_label EDGES = ''provenance_edges''"
| "target_label HANDLES = ''handles''"
| "target_label JOBS = ''jobs''"

definition prune_targets :: "target list" where
  "prune_targets = [EVENTS, EDGES, HANDLES, JOBS]"

fun count_target :: "(json \<Rightarrow> string) \<Rightarrow> bool \<Rightarrow> world \<Rightarrow> target \<Rightarrow> nat" where
  "count_target sj incl w EVENTS = length (filter (\<lambda>v. selected (workspace_scoped incl (v_workspace_id v))) (w_events w))"
| "count_target sj incl w EDGES = length (filter (\<lambda>e. selected (workspace_scoped incl (e_workspace_id e))) (w_edges w))"
| "count_target sj incl w HANDLES = length (filter (\<lambda>r. selected (workspace_scoped incl (h_workspace_id r))) (w_handles w))"
| "count_target sj incl w JOBS = length (filter (\<lambda>j. selected (suite_jobs sj incl j)) (w_jobs w))"

fun delete_target :: "(json \<Rightarrow> string) \<Rightarrow> bool \<Rightarrow> target \<Rightarrow> world \<Rightarrow> world" where
  "delete_target sj incl EVENTS w = w\<lparr>w_events := filter (\<lambda>v. \<not> selected (workspace_scoped incl (v_workspace_id v))) (w_events w)\<rparr>"
| "delete_target sj incl EDGES w = w\<lparr>w_edges := filter (\<lambda>e. \<not> selected (workspace_scoped incl (e_workspace_id e))) (w_edges w)\<rparr>"
| "delete_target sj incl HANDLES w = w\<lparr>w_handles := filter (\<lambda>r. \<not> selected (workspace_scoped incl (h_workspace_id r))) (w_handles w)\<rparr>"
| "delete_target sj incl JOBS w = w\<lparr>w_jobs := filter (\<lambda>j. \<not> selected (suite_jobs sj incl j)) (w_jobs w)\<rparr>"

section \<open>The report\<close>

text \<open>One query per line of the report.\<close>

fun e_queries :: "(world \<Rightarrow> 'a) list \<Rightarrow> 'a list op" where
  "e_queries [] = e_ret []"
| "e_queries (f # fs) = e_bind (e_read (\<lambda>w. Inr (f w))) (\<lambda>x. e_bind (e_queries fs) (\<lambda>xs. e_ret (x # xs)))"

definition prune_report :: "(json \<Rightarrow> string) \<Rightarrow> bool \<Rightarrow> (string \<times> nat) list op" where
  "prune_report sj incl = e_queries (map (\<lambda>t w. (target_label t, count_target sj incl w t)) prune_targets)"

definition job_selectors :: "(json \<Rightarrow> string) \<Rightarrow> bool \<Rightarrow> (string \<times> (job \<Rightarrow> sql_bool)) list" where
  "job_selectors sj incl =
     [(''spec workspace_id ws-*'', \<lambda>j. null_like TEST_WORKSPACE_PATTERN (spec_text sj j ''workspace_id'')),
      (''spec has no workspace_id'', \<lambda>j. is_null (spec_text sj j ''workspace_id''))] @
     (if incl then [(''retired debug workspaces'', \<lambda>j. null_in RETIRED_DEBUG_WORKSPACES (spec_text sj j ''workspace_id''))]
      else []) @
     [(''SURVIVING (real workspaces)'', \<lambda>j. sql_not (suite_jobs sj incl j))]"

definition job_selector_breakdown :: "(json \<Rightarrow> string) \<Rightarrow> bool \<Rightarrow> (string \<times> nat) list op" where
  "job_selector_breakdown sj incl =
     e_queries (map (\<lambda>(label, p) w. (label, length (filter (\<lambda>j. selected (p j)) (w_jobs w)))) (job_selectors sj incl))"

text \<open>\<open>GROUP BY ... ORDER BY count DESC\<close>; groups of equal size keep the order of the table.\<close>

definition grouped :: "'b list \<Rightarrow> ('b \<times> nat) list" where
  "grouped xs = sort_key (\<lambda>(k, n). - int n) (map (\<lambda>k. (k, count_list xs k)) (remdups xs))"

definition no_workspace_collections :: "(json \<Rightarrow> string) \<Rightarrow> (string option \<times> nat) list op" where
  "no_workspace_collections sj =
     e_read (\<lambda>w. Inr (grouped (map (\<lambda>j. spec_text sj j ''concept_id'')
                       (filter (\<lambda>j. selected (is_null (spec_text sj j ''workspace_id''))) (w_jobs w)))))"

definition survivors :: "bool \<Rightarrow> (string \<times> nat) list op" where
  "survivors incl =
     e_read (\<lambda>w. Inr (grouped (map h_workspace_id
                       (filter (\<lambda>r. selected (sql_not (workspace_scoped incl (h_workspace_id r)))) (w_handles w)))))"

definition retired_holdings :: "bool \<Rightarrow> (string \<times> nat) list op" where
  "retired_holdings incl =
     (if incl then
        e_queries (map (\<lambda>ws w. (ws, length (filter (\<lambda>r. h_workspace_id r = ws) (w_handles w)))) RETIRED_DEBUG_WORKSPACES)
      else e_ret [])"

section \<open>The run\<close>

text \<open>What is printed, without its layout.\<close>

record prune_output =
  po_counts :: "(string \<times> nat) list"
  po_jobs :: "(string \<times> nat) list"
  po_retired :: "(string \<times> nat) list"
  po_collections :: "(string option \<times> nat) list"
  po_survivors :: "(string \<times> nat) list"
  po_deleted :: "nat option"

text \<open>The four deletions are one transaction.\<close>

definition delete_all :: "(json \<Rightarrow> string) \<Rightarrow> bool \<Rightarrow> unit op" where
  "delete_all sj incl = e_io (\<lambda>w. Inr ((), fold (delete_target sj incl) prune_targets w))"

definition finish_run :: "(json \<Rightarrow> string) \<Rightarrow> bool \<Rightarrow> bool \<Rightarrow> prune_output \<Rightarrow> prune_output op" where
  "finish_run sj apply_it incl out =
     (let total_rows = sum_list (map snd (po_counts out)) in
      if \<not> apply_it \<or> total_rows = 0 then e_ret out
      else e_seq (delete_all sj incl) (e_ret (out\<lparr>po_deleted := Some total_rows\<rparr>)))"

definition prune_main :: "(json \<Rightarrow> string) \<Rightarrow> bool \<Rightarrow> bool \<Rightarrow> prune_output op" where
  "prune_main sj apply_it incl =
     e_bind (prune_report sj incl) (\<lambda>counts.
     e_bind (survivors incl) (\<lambda>surviving.
     e_bind (job_selector_breakdown sj incl) (\<lambda>jobs.
     e_bind (retired_holdings incl) (\<lambda>retired.
     e_bind (no_workspace_collections sj) (\<lambda>collections.
       finish_run sj apply_it incl
         \<lparr>po_counts = counts, po_jobs = jobs, po_retired = retired, po_collections = collections,
          po_survivors = surviving, po_deleted = None\<rparr>)))))"

section \<open>What a run does\<close>

lemma like_prefix: "CHR ''%'' \<notin> set p \<Longrightarrow> CHR ''_'' \<notin> set p \<Longrightarrow> sql_like (p @ ''%'') s \<longleftrightarrow> prefix p s"
proof (induction p arbitrary: s)
  case Nil
  show ?case by (induction s) auto
next
  case (Cons c p)
  then show ?case by (cases s) auto
qed

text \<open>The workspaces of the suite: a literal prefix, and a literal list when asked for.\<close>

definition debris :: "bool \<Rightarrow> string \<Rightarrow> bool" where
  "debris incl ws \<longleftrightarrow> take 3 ws = ''ws-'' \<or> incl \<and> ws \<in> set RETIRED_DEBUG_WORKSPACES"

lemma pattern_prefix: "sql_like TEST_WORKSPACE_PATTERN ws \<longleftrightarrow> take 3 ws = ''ws-''"
proof -
  have "sql_like (''ws-'' @ ''%'') ws \<longleftrightarrow> prefix ''ws-'' ws" by (rule like_prefix) auto
  moreover have "prefix ''ws-'' ws \<longleftrightarrow> take (length ''ws-'') ws = ''ws-''"
    by (metis append_eq_conv_conj prefix_def take_is_prefix)
  ultimately show ?thesis by (simp add: TEST_WORKSPACE_PATTERN_def numeral_3_eq_3)
qed

lemma selected_scoped: "selected (workspace_scoped incl ws) \<longleftrightarrow> debris incl ws"
  by (simp add: selected_def workspace_scoped_def sql_or_def null_like_def null_in_def debris_def pattern_prefix Let_def)

definition debris_job :: "(json \<Rightarrow> string) \<Rightarrow> bool \<Rightarrow> job \<Rightarrow> bool" where
  "debris_job sj incl j \<longleftrightarrow> (case spec_text sj j ''workspace_id'' of None \<Rightarrow> True | Some ws \<Rightarrow> debris incl ws)"

lemma selected_jobs: "selected (suite_jobs sj incl j) \<longleftrightarrow> debris_job sj incl j"
  by (simp add: selected_def suite_jobs_def sql_or_def null_like_def null_in_def is_null_def debris_def pattern_prefix
      debris_job_def Let_def split: option.split)

definition pruned :: "(json \<Rightarrow> string) \<Rightarrow> bool \<Rightarrow> world \<Rightarrow> world \<Rightarrow> bool" where
  "pruned sj incl w w' \<longleftrightarrow>
     w_events w' = filter (\<lambda>v. \<not> debris incl (v_workspace_id v)) (w_events w)
     \<and> w_edges w' = filter (\<lambda>e. \<not> debris incl (e_workspace_id e)) (w_edges w)
     \<and> w_handles w' = filter (\<lambda>r. \<not> debris incl (h_workspace_id r)) (w_handles w)
     \<and> w_jobs w' = filter (\<lambda>j. \<not> debris_job sj incl j) (w_jobs w)
     \<and> w_access w' = w_access w \<and> w_queue w' = w_queue w"

definition rows_of :: "world \<Rightarrow> nat" where
  "rows_of w = length (w_events w) + length (w_edges w) + length (w_handles w) + length (w_jobs w)"

lemma delete_pruned: "same_tables w w1 \<Longrightarrow> pruned sj incl w (fold (delete_target sj incl) prune_targets w1)"
  by (simp add: pruned_def prune_targets_def same_tables_def selected_scoped selected_jobs)

lemma length_filter_compl: "length (filter P xs) + length (filter (\<lambda>x. \<not> P x) xs) = length xs"
  by (rule sum_length_filter_compl)

lemma counted_removed:
  assumes "pruned sj incl w w'" and "same_tables w w1"
  shows "sum_list (map (count_target sj incl w1) prune_targets) + rows_of w' = rows_of w"
  using assms length_filter_compl [of "\<lambda>v. debris incl (v_workspace_id v)" "w_events w"]
    length_filter_compl [of "\<lambda>e. debris incl (e_workspace_id e)" "w_edges w"]
    length_filter_compl [of "\<lambda>r. debris incl (h_workspace_id r)" "w_handles w"]
    length_filter_compl [of "debris_job sj incl" "w_jobs w"]
  by (simp add: pruned_def prune_targets_def rows_of_def same_tables_def selected_scoped selected_jobs)

text \<open>The report is read off tables that do not move.\<close>

lemma tables_queries: "keeps same_tables (e_queries fs)"
  by (induction fs) (auto intro!: keeps_tables)

lemma tables_report:
  "keeps same_tables (prune_report sj incl)" "keeps same_tables (survivors incl)"
  "keeps same_tables (job_selector_breakdown sj incl)" "keeps same_tables (retired_holdings incl)"
  "keeps same_tables (no_workspace_collections sj)"
  unfolding prune_report_def survivors_def job_selector_breakdown_def retired_holdings_def no_workspace_collections_def
  by (auto intro!: keeps_tables tables_queries)

lemma wp_queries:
  assumes "\<And>f w1. f \<in> set fs \<Longrightarrow> same_tables w0 w1 \<Longrightarrow> f w1 = f w0" and "same_tables w0 w"
  shows "wp (e_queries fs) (\<lambda>xs t. xs = map (\<lambda>f. f w0) fs \<and> same_tables w0 t) (\<lambda>_. same_tables w0) w"
  using assms
proof (induction fs arbitrary: w)
  case Nil
  then show ?case by (simp add: wp_ret)
next
  case (Cons f fs)
  have read: "wp (e_read (\<lambda>w. Inr (f w))) (\<lambda>x t. x = f w0 \<and> same_tables w0 t) (\<lambda>_. same_tables w0) w"
    by (rule wp_read) (use Cons.prems in \<open>auto dest: stepped_tables intro: tables.R_trans\<close>)
  have rest: "wp (e_queries fs) (\<lambda>xs t. xs = map (\<lambda>f. f w0) fs \<and> same_tables w0 t) (\<lambda>_. same_tables w0) t"
    if "same_tables w0 t" for t
    by (rule Cons.IH [OF _ that]) (use Cons.prems(1) in auto)
  show ?case
    unfolding e_queries.simps wp_bind
    by (rule wp_mono [OF read], clarify, rule wp_mono [OF rest]) (simp_all add: wp_ret)
qed

definition debris_rows :: "(json \<Rightarrow> string) \<Rightarrow> bool \<Rightarrow> world \<Rightarrow> nat" where
  "debris_rows sj incl w =
     length (filter (\<lambda>v. debris incl (v_workspace_id v)) (w_events w))
     + length (filter (\<lambda>e. debris incl (e_workspace_id e)) (w_edges w))
     + length (filter (\<lambda>r. debris incl (h_workspace_id r)) (w_handles w))
     + length (filter (debris_job sj incl) (w_jobs w))"

definition prune_post :: "(json \<Rightarrow> string) \<Rightarrow> bool \<Rightarrow> bool \<Rightarrow> world \<Rightarrow> prune_output \<Rightarrow> world \<Rightarrow> bool" where
  "prune_post sj apply_it incl w out w' \<longleftrightarrow>
     sum_list (map snd (po_counts out)) = debris_rows sj incl w
     \<and> (if apply_it \<and> debris_rows sj incl w \<noteq> 0
        then po_deleted out = Some (debris_rows sj incl w) \<and> pruned sj incl w w' \<and> rows_of w = debris_rows sj incl w + rows_of w'
        else po_deleted out = None \<and> same_tables w w')"

lemma report_total:
  "sum_list (map snd (map (\<lambda>f. f w) (map (\<lambda>t w. (target_label t, count_target sj incl w t)) prune_targets))) =
     debris_rows sj incl w"
  by (simp add: prune_targets_def debris_rows_def selected_scoped selected_jobs)

lemma wp_report:
  "wp (prune_report sj incl) (\<lambda>cs t. sum_list (map snd cs) = debris_rows sj incl w \<and> same_tables w t) (\<lambda>_. same_tables w) w"
  unfolding prune_report_def
proof (rule wp_mono [OF wp_queries [of _ w w]])
  fix f :: "world \<Rightarrow> string \<times> nat" and w1
  assume "f \<in> set (map (\<lambda>t w. (target_label t, count_target sj incl w t)) prune_targets)" and "same_tables w w1"
  then show "f w1 = f w" by (auto simp: prune_targets_def same_tables_def)
qed (use report_total [of w sj incl] in \<open>auto intro: tables.R_refl\<close>)

lemma wp_delete_all:
  "same_tables w t \<Longrightarrow>
     wp (delete_all sj incl) (\<lambda>_. pruned sj incl w) (\<lambda>_ t. same_tables w t \<or> pruned sj incl w t) t"
  unfolding delete_all_def
  by (rule wp_io) (auto intro: delete_pruned tables.R_trans dest: stepped_tables)

lemma wp_finish:
  assumes t: "same_tables w t" and c: "sum_list (map snd (po_counts out)) = debris_rows sj incl w" and n: "po_deleted out = None"
  shows "wp (finish_run sj apply_it incl out) (prune_post sj apply_it incl w)
    (\<lambda>_ t. same_tables w t \<or> apply_it \<and> pruned sj incl w t) t"
proof (cases "apply_it \<and> debris_rows sj incl w \<noteq> 0")
  case True
  have "rows_of w = debris_rows sj incl w + rows_of u" if "pruned sj incl w u" for u
    using counted_removed [OF that, of w] report_total [of w sj incl] by (simp add: o_def tables.R_refl)
  then show ?thesis
    using True c unfolding finish_run_def Let_def
    by (auto simp: wp_seq wp_ret prune_post_def intro!: wp_mono [OF wp_delete_all [OF t]])
qed (use assms in \<open>auto simp: finish_run_def wp_ret prune_post_def\<close>)

text \<open>
  C25: pruning deletes exactly the debris. Without \<open>--apply\<close> nothing changes. With it every test workspace's
  rows (and the retired ones' when asked for) and the test suites' jobs go, every other row of every table
  stays as it was, and the counts that are printed add up to the number of rows that go. A fault on the way
  leaves the tables either untouched or, when it comes after the transaction, completely pruned.
\<close>

theorem prune_deletes_exactly_debris:
  assumes "prune_main sj apply_it incl w = (r, w')"
  shows "case r of
      Inl e \<Rightarrow> same_tables w w' \<or> apply_it \<and> pruned sj incl w w'
    | Inr out \<Rightarrow> prune_post sj apply_it incl w out w'"
proof -
  have "wp (prune_main sj apply_it incl) (prune_post sj apply_it incl w)
      (\<lambda>_ t. same_tables w t \<or> apply_it \<and> pruned sj incl w t) w"
    unfolding prune_main_def wp_bind [of "prune_report sj incl"]
  proof (rule wp_mono [OF wp_report], elim conjE)
    fix counts :: "(string \<times> nat) list" and t
    assume "sum_list (map snd counts) = debris_rows sj incl w" and "same_tables w t"
    then show "wp (e_bind (survivors incl) (\<lambda>surviving.
        e_bind (job_selector_breakdown sj incl) (\<lambda>jobs.
        e_bind (retired_holdings incl) (\<lambda>retired.
        e_bind (no_workspace_collections sj) (\<lambda>collections.
          finish_run sj apply_it incl
            \<lparr>po_counts = counts, po_jobs = jobs, po_retired = retired, po_collections = collections,
             po_survivors = surviving, po_deleted = None\<rparr>)))))
        (prune_post sj apply_it incl w) (\<lambda>_ t. same_tables w t \<or> apply_it \<and> pruned sj incl w t) t"
      by (intro wp_bind_same [of _ w] tables_report wp_finish) auto
  qed auto
  from wpD [OF this assms] show ?thesis .
qed

text \<open>A database with a test workspace, a real one and a retired one.\<close>

definition prune_world :: world where
  "prune_world = initial_world
     \<lparr>w_handles := map (\<lambda>(h, ws). \<lparr>h_handle = h, h_workspace_id = ws, h_type = OBS, h_payload = [], h_created_at = 0,
                                     h_updated_at = 0, h_last_accessed_at = None\<rparr>)
        [(''obs_1'', ''ws-1''), (''obs_2'', ''default''), (''obs_3'', ''user-test'')],
      w_edges := map (\<lambda>(h, ws). \<lparr>e_workspace_id = ws, e_target = h, e_source = ''d'', e_request_spec = None,
                                   e_granule_ids = None, e_created_at = 0\<rparr>) [(''obs_1'', ''ws-1''), (''obs_2'', ''default'')]\<rparr>"

lemma prune_deletes_exactly_debris_witness:
  "\<exists>out w'. prune_main (\<lambda>_. []) True False prune_world = (Inr out, w')
     \<and> map h_workspace_id (w_handles w') = [''default'', ''user-test''] \<and> map e_target (w_edges w') = [''obs_2'']
     \<and> po_deleted out = Some 2"
proof -
  obtain r w' where run: "prune_main (\<lambda>_. []) True False prune_world = (r, w')" by fastforce
  have "\<exists>out. fst (prune_main (\<lambda>_. []) True False prune_world) = Inr out"
    by (rule exI [of _ "projr (fst (prune_main (\<lambda>_. []) True False prune_world))"]) code_simp
  then obtain out where r: "r = Inr out" using run by auto
  have "debris_rows (\<lambda>_. []) False prune_world = 2" by code_simp
  then show ?thesis
    using prune_deletes_exactly_debris [OF run] run unfolding r
    by (auto simp: prune_post_def pruned_def prune_world_def debris_def initial_world_def)
qed

end
