(* ===== verification/Schema.thy ===== *)
theory Schema
  imports World
begin

text \<open>
  The database schema (\<open>jobs/models.py\<close>, \<open>workspace/models.py\<close>, \<open>workspace/store.py\<close>, \<open>scripts/init_db.py\<close>): the declared
  tables, their creation where they are missing, the columns and the unique index that are added to
  tables of an earlier version, and the teardown. A database is its tables by name, each with columns, indexes and rows;
  a migration is one transaction, so that one that fails leaves nothing behind. The theory shows that the
  initialisation brings every earlier version up to date, keeps all data and can be run again.
\<close>

section \<open>A database\<close>

text \<open>A column: its SQL type, whether it may be NULL, and the constant the server fills it with.\<close>

record column_def =
  co_name :: string
  co_type :: string
  co_nullable :: bool
  co_default :: json

record sql_table =
  tb_columns :: "column_def list"
  tb_indexes :: "string list"
  tb_rows :: "dict list"

type_synonym database = "(string \<times> sql_table) list"

definition col :: "string \<Rightarrow> string \<Rightarrow> column_def" where
  "col n ty = \<lparr>co_name = n, co_type = ty, co_nullable = False, co_default = JNull\<rparr>"

definition null_col :: "string \<Rightarrow> string \<Rightarrow> column_def" where
  "null_col n ty = \<lparr>co_name = n, co_type = ty, co_nullable = True, co_default = JNull\<rparr>"

text \<open>\<open>metadata.create_all\<close> and \<open>metadata.drop_all\<close>.\<close>

definition create_table :: "string \<times> sql_table \<Rightarrow> database \<Rightarrow> database" where
  "create_table d db = (if map_of db (fst d) = None then db @ [d] else db)"

definition create_all :: "(string \<times> sql_table) list \<Rightarrow> database \<Rightarrow> database" where
  "create_all declared db = fold create_table declared db"

definition drop_all :: "(string \<times> sql_table) list \<Rightarrow> database \<Rightarrow> database" where
  "drop_all declared db = filter (\<lambda>(n, _). n \<notin> fst ` set declared) db"

text \<open>\<open>ALTER TABLE t ADD COLUMN IF NOT EXISTS\<close>: the rows get the default.\<close>

definition column_names :: "sql_table \<Rightarrow> string list" where
  "column_names t = map co_name (tb_columns t)"

definition add_column :: "column_def \<Rightarrow> sql_table \<Rightarrow> sql_table" where
  "add_column c t =
     (if co_name c \<in> set (column_names t) then t
      else t\<lparr>tb_columns := tb_columns t @ [c], tb_rows := map (\<lambda>r. r @ [(co_name c, co_default c)]) (tb_rows t)\<rparr>)"

definition undefined_table :: "string \<Rightarrow> exn" where
  "undefined_table n = LibErr (OtherClass ''ProgrammingError'') [n]"

definition alter_table :: "string \<Rightarrow> (sql_table \<Rightarrow> exn + sql_table) \<Rightarrow> database \<Rightarrow> exn + database" where
  "alter_table n f db =
     (case map_of db n of
        None \<Rightarrow> Inl (undefined_table n)
      | Some t \<Rightarrow> (case f t of Inl e \<Rightarrow> Inl e | Inr t' \<Rightarrow> Inr (AList.update n t' db)))"

fun add_columns :: "string \<Rightarrow> column_def list \<Rightarrow> database \<Rightarrow> exn + database" where
  "add_columns n [] db = Inr db"
| "add_columns n (c # cs) db =
     (case alter_table n (\<lambda>t. Inr (add_column c t)) db of Inl e \<Rightarrow> Inl e | Inr db' \<Rightarrow> add_columns n cs db')"

text \<open>
  \<open>CREATE UNIQUE INDEX IF NOT EXISTS\<close> on workspace and signature of the \<open>obs\<close> rows that have one;
  rows that agree on it make the creation fail. A signature that is stored is a string (\<open>request_signature\<close>).
\<close>

definition SIGNATURE_INDEX :: string where
  "SIGNATURE_INDEX = ''ux_handles_workspace_signature''"

definition signature_key :: "dict \<Rightarrow> (json \<times> string) option" where
  "signature_key r =
     (if jget r ''handle_type'' \<noteq> JStr ''obs'' then None
      else case jget r ''payload'' of
             JObj p \<Rightarrow> (case map_of p ''signature'' of Some (JStr s) \<Rightarrow> Some (jget r ''workspace_id'', s) | _ \<Rightarrow> None)
           | _ \<Rightarrow> None)"

definition signature_conflict :: "sql_table \<Rightarrow> bool" where
  "signature_conflict t \<longleftrightarrow> \<not> distinct (filter (\<lambda>k. k \<noteq> None) (map signature_key (tb_rows t)))"

definition create_signature_index :: "sql_table \<Rightarrow> exn + sql_table" where
  "create_signature_index t =
     (if SIGNATURE_INDEX \<in> set (tb_indexes t) then Inr t
      else if signature_conflict t then Inl (IntegrityError SIGNATURE_INDEX)
      else Inr (t\<lparr>tb_indexes := tb_indexes t @ [SIGNATURE_INDEX]\<rparr>))"

section \<open>The declared tables\<close>

definition WORKSPACE_TABLES :: "(string \<times> sql_table) list" where
  "WORKSPACE_TABLES =
     [(''handles'', \<lparr>tb_columns =
         [col ''handle'' ''VARCHAR'', col ''workspace_id'' ''VARCHAR'', col ''handle_type'' ''VARCHAR'', col ''payload'' ''JSONB'',
          col ''created_at'' ''TIMESTAMPTZ'', col ''updated_at'' ''TIMESTAMPTZ'', null_col ''last_accessed_at'' ''TIMESTAMPTZ''],
         tb_indexes = [''ix_handles_workspace_id'', ''ix_handles_handle_type''], tb_rows = []\<rparr>),
      (''provenance_edges'', \<lparr>tb_columns =
         [col ''id'' ''INTEGER'', col ''workspace_id'' ''VARCHAR'', col ''target_handle'' ''VARCHAR'', col ''source_handle'' ''VARCHAR'',
          null_col ''request_spec'' ''JSONB'', null_col ''granule_ids'' ''JSONB'', col ''created_at'' ''TIMESTAMPTZ''],
         tb_indexes = [''ix_provenance_edges_workspace_id'', ''ix_provenance_edges_target_handle'',
           ''ix_provenance_edges_source_handle''], tb_rows = []\<rparr>),
      (''provenance_events'', \<lparr>tb_columns =
         [col ''id'' ''INTEGER'', col ''workspace_id'' ''VARCHAR'', col ''handle'' ''VARCHAR'', col ''event_type'' ''VARCHAR'',
          col ''detail'' ''JSONB'', col ''created_at'' ''TIMESTAMPTZ''],
         tb_indexes = [''ix_provenance_events_workspace_id'', ''ix_provenance_events_handle'',
           ''ix_provenance_events_event_type''], tb_rows = []\<rparr>)]"

definition JOBS_TABLES :: "(string \<times> sql_table) list" where
  "JOBS_TABLES =
     [(''jobs'', \<lparr>tb_columns =
         [col ''job_id'' ''VARCHAR'', col ''job_handle'' ''VARCHAR'', null_col ''obs_handle'' ''VARCHAR'', col ''provider'' ''VARCHAR'',
          col ''request_spec'' ''JSONB'', col ''state'' ''VARCHAR'', null_col ''provider_job_url'' ''VARCHAR'',
          col ''progress'' ''INTEGER'', null_col ''message'' ''VARCHAR'', null_col ''output_expires_at'' ''TIMESTAMPTZ'',
          null_col ''error'' ''VARCHAR'', null_col ''last_polled_at'' ''TIMESTAMPTZ'', null_col ''credential_encrypted'' ''VARCHAR'',
          null_col ''materialization'' ''JSONB'', null_col ''rebuild_cost_seconds'' ''DOUBLE PRECISION'',
          \<lparr>co_name = ''speculative'', co_type = ''BOOLEAN'', co_nullable = False, co_default = JBool False\<rparr>,
          col ''created_at'' ''TIMESTAMPTZ'', col ''updated_at'' ''TIMESTAMPTZ''],
         tb_indexes = [''ix_jobs_job_handle'', ''ix_jobs_obs_handle'', ''ix_jobs_state''], tb_rows = []\<rparr>),
      (''collection_access'', \<lparr>tb_columns =
         [col ''concept_id'' ''VARCHAR'', col ''restricted'' ''BOOLEAN'', col ''updated_at'' ''TIMESTAMPTZ''],
         tb_indexes = [], tb_rows = []\<rparr>)]"

definition LATE_HANDLE_COLUMNS :: "column_def list" where
  "LATE_HANDLE_COLUMNS = [null_col ''last_accessed_at'' ''TIMESTAMPTZ'']"

definition LATE_JOB_COLUMNS :: "column_def list" where
  "LATE_JOB_COLUMNS =
     [null_col ''last_polled_at'' ''TIMESTAMPTZ'', null_col ''credential_encrypted'' ''VARCHAR'', null_col ''materialization'' ''JSONB'',
      null_col ''rebuild_cost_seconds'' ''DOUBLE PRECISION'',
      \<lparr>co_name = ''speculative'', co_type = ''BOOLEAN'', co_nullable = False, co_default = JBool False\<rparr>]"

section \<open>The migrations\<close>

definition create_schema :: "database \<Rightarrow> exn + database" where
  "create_schema db =
     (case alter_table ''handles'' create_signature_index (create_all WORKSPACE_TABLES db) of
        Inl e \<Rightarrow> Inl e
      | Inr db' \<Rightarrow> add_columns ''handles'' LATE_HANDLE_COLUMNS db')"

definition drop_schema :: "database \<Rightarrow> database" where
  "drop_schema db = drop_all WORKSPACE_TABLES db"

definition create_jobs_schema :: "database \<Rightarrow> exn + database" where
  "create_jobs_schema db = add_columns ''jobs'' LATE_JOB_COLUMNS (create_all JOBS_TABLES db)"

definition drop_jobs_schema :: "database \<Rightarrow> database" where
  "drop_jobs_schema db = drop_all JOBS_TABLES db"

text \<open>\<open>engine.begin()\<close>: what a failing transaction did is rolled back.\<close>

definition in_transaction :: "(database \<Rightarrow> exn + database) \<Rightarrow> database \<Rightarrow> (exn + unit) \<times> database" where
  "in_transaction f db = (case f db of Inl e \<Rightarrow> (Inl e, db) | Inr db' \<Rightarrow> (Inr (), db'))"

definition init_db :: "database \<Rightarrow> (exn + unit) \<times> database" where
  "init_db db =
     (case in_transaction create_schema db of
        (Inl e, db1) \<Rightarrow> (Inl e, db1)
      | (Inr _, db1) \<Rightarrow> in_transaction create_jobs_schema db1)"

section \<open>What a migration does\<close>

text \<open>A table with further columns at its end, filled with their defaults; no row is lost and no value changes.\<close>

definition filled :: "column_def list \<Rightarrow> dict \<Rightarrow> dict" where
  "filled extra r = r @ map (\<lambda>c. (co_name c, co_default c)) extra"

definition grown :: "sql_table \<Rightarrow> sql_table \<Rightarrow> bool" where
  "grown t t' \<longleftrightarrow> (\<exists>extra. tb_columns t' = tb_columns t @ extra \<and> tb_rows t' = map (filled extra) (tb_rows t))
     \<and> set (tb_indexes t) \<subseteq> set (tb_indexes t')"

lemma filled_Nil [simp]: "filled [] = (\<lambda>r. r)"
  by (simp add: filled_def fun_eq_iff)

lemma grown_refl: "grown t t"
  unfolding grown_def by (intro conjI exI [of _ "[]"]) auto

lemma grown_trans:
  assumes "grown t u" and "grown u v"
  shows "grown t v"
proof -
  obtain xs where xs: "tb_columns u = tb_columns t @ xs" "tb_rows u = map (filled xs) (tb_rows t)"
    using assms(1) unfolding grown_def by blast
  obtain ys where ys: "tb_columns v = tb_columns u @ ys" "tb_rows v = map (filled ys) (tb_rows u)"
    using assms(2) unfolding grown_def by blast
  have "tb_columns v = tb_columns t @ (xs @ ys)" "tb_rows v = map (filled (xs @ ys)) (tb_rows t)"
    by (simp_all add: xs ys filled_def)
  moreover have "set (tb_indexes t) \<subseteq> set (tb_indexes v)" using assms unfolding grown_def by blast
  ultimately show ?thesis unfolding grown_def by blast
qed

lemma grown_add_column: "grown t (add_column c t)"
proof (cases "co_name c \<in> set (column_names t)")
  case False
  then show ?thesis
    unfolding grown_def by (intro conjI exI [of _ "[c]"]) (auto simp: add_column_def filled_def)
qed (simp add: add_column_def grown_refl)

lemma grown_add_columns: "grown t (fold add_column cs t)"
  by (induction cs arbitrary: t) (auto intro: grown_refl grown_trans grown_add_column)

lemma grown_index: "create_signature_index t = Inr t' \<Longrightarrow> grown t t' \<and> SIGNATURE_INDEX \<in> set (tb_indexes t')"
  using grown_refl [of t] by (auto simp: create_signature_index_def grown_def filled_def split: if_splits)

lemma names_add_columns: "set (column_names (fold add_column cs t)) = set (column_names t) \<union> co_name ` set cs"
  by (induction cs arbitrary: t) (auto simp: add_column_def column_names_def)

lemma add_columns_again: "co_name ` set cs \<subseteq> set (column_names t) \<Longrightarrow> fold add_column cs t = t"
  by (induction cs) (auto simp: add_column_def)

lemma grown_names: "grown t t' \<Longrightarrow> set (column_names t) \<subseteq> set (column_names t')"
  by (auto simp: grown_def column_names_def)

subsection \<open>On a database\<close>

lemma update_same: "map_of db n = Some t \<Longrightarrow> AList.update n t db = db"
  by (induction db) (auto split: if_splits)

lemma add_columns_run:
  "map_of db n = Some t \<Longrightarrow> add_columns n cs db = Inr (AList.update n (fold add_column cs t) db)"
proof (induction cs arbitrary: db t)
  case (Cons c cs)
  have "map_of (AList.update n (add_column c t) db) n = Some (add_column c t)" by (simp add: update_conv)
  from Cons.IH [OF this] show ?case by (simp add: alter_table_def Cons.prems update_last)
qed (simp add: update_same)

lemma map_of_create_all:
  "map_of (create_all ds db) n = (case map_of db n of Some t \<Rightarrow> Some t | None \<Rightarrow> map_of ds n)"
  by (induction ds arbitrary: db) (auto simp: create_all_def create_table_def map_add_def split: option.splits)

lemma create_all_again: "(\<And>d. d \<in> set ds \<Longrightarrow> map_of db (fst d) \<noteq> None) \<Longrightarrow> create_all ds db = db"
proof (induction ds)
  case (Cons d ds)
  then have "create_table d db = db" by (simp add: create_table_def)
  with Cons show ?case by (simp add: create_all_def)
qed (simp add: create_all_def)

text \<open>The tables an initialisation starts from: those that are there, and the missing ones as declared.\<close>

definition ALL_TABLES :: "(string \<times> sql_table) list" where
  "ALL_TABLES = WORKSPACE_TABLES @ JOBS_TABLES"

definition start_table :: "database \<Rightarrow> string \<Rightarrow> sql_table option" where
  "start_table db n = (case map_of db n of Some t \<Rightarrow> Some t | None \<Rightarrow> map_of ALL_TABLES n)"

lemmas tables_defs = ALL_TABLES_def WORKSPACE_TABLES_def JOBS_TABLES_def

lemma start_tables:
  "map_of (create_all WORKSPACE_TABLES db) ''handles'' = start_table db ''handles''" "start_table db ''handles'' \<noteq> None"
  "start_table db ''jobs'' \<noteq> None"
  by (auto simp: map_of_create_all start_table_def tables_defs split: option.splits)

text \<open>What a run of the script leaves: the start tables, two of them grown.\<close>

lemma init_db_run:
  assumes "start_table db ''handles'' = Some t" and "start_table db ''jobs'' = Some u"
  shows "init_db db =
    (case create_signature_index t of
       Inl e \<Rightarrow> (Inl e, db)
     | Inr t' \<Rightarrow> (Inr (), AList.update ''jobs'' (fold add_column LATE_JOB_COLUMNS u)
         (create_all JOBS_TABLES (AList.update ''handles'' (fold add_column LATE_HANDLE_COLUMNS t')
           (create_all WORKSPACE_TABLES db)))))"
proof (cases "create_signature_index t")
  case (Inl e)
  then show ?thesis
    using assms(1) start_tables(1) by (simp add: init_db_def in_transaction_def create_schema_def alter_table_def)
next
  case (Inr t')
  let ?db1 = "AList.update ''handles'' t' (create_all WORKSPACE_TABLES db)"
  let ?db2 = "AList.update ''handles'' (fold add_column LATE_HANDLE_COLUMNS t') (create_all WORKSPACE_TABLES db)"
  have "add_columns ''handles'' LATE_HANDLE_COLUMNS ?db1 = Inr (AList.update ''handles'' (fold add_column LATE_HANDLE_COLUMNS t') ?db1)"
    by (rule add_columns_run) (simp add: update_conv)
  then have 1: "create_schema db = Inr ?db2"
    using Inr assms(1) start_tables(1) by (simp add: create_schema_def alter_table_def update_last)
  have "map_of (create_all JOBS_TABLES ?db2) ''jobs'' = Some u"
    using assms(2) by (auto simp: map_of_create_all update_conv start_table_def tables_defs split: option.splits)
  from add_columns_run [OF this] 1 Inr show ?thesis
    by (simp add: init_db_def in_transaction_def create_jobs_schema_def)
qed

text \<open>
  The parts of the claim. The columns an earlier version may lack are written out here; they are exactly
  those the migrations add.
\<close>

definition late_names :: "string \<Rightarrow> string set" where
  "late_names n =
     (if n = ''handles'' then {''last_accessed_at''}
      else if n = ''jobs''
      then {''last_polled_at'', ''credential_encrypted'', ''materialization'', ''rebuild_cost_seconds'', ''speculative''}
      else {})"

lemma late_columns_added:
  "co_name ` set LATE_HANDLE_COLUMNS = late_names ''handles''" "co_name ` set LATE_JOB_COLUMNS = late_names ''jobs''"
  "n \<noteq> ''handles'' \<Longrightarrow> n \<noteq> ''jobs'' \<Longrightarrow> late_names n = {}"
  by (auto simp: late_names_def LATE_HANDLE_COLUMNS_def LATE_JOB_COLUMNS_def null_col_def)

definition earlier_version :: "database \<Rightarrow> bool" where
  "earlier_version db \<longleftrightarrow> list_all (\<lambda>(n, d). case map_of db n of
     None \<Rightarrow> True | Some t \<Rightarrow> set (column_names d) - late_names n \<subseteq> set (column_names t)) ALL_TABLES"

definition up_to_date :: "database \<Rightarrow> bool" where
  "up_to_date db \<longleftrightarrow> list_all (\<lambda>(n, d). case map_of db n of
     None \<Rightarrow> False
   | Some t \<Rightarrow> set (column_names d) \<subseteq> set (column_names t) \<and> (n = ''handles'' \<longrightarrow> SIGNATURE_INDEX \<in> set (tb_indexes t))) ALL_TABLES"

definition kept :: "database \<Rightarrow> database \<Rightarrow> bool" where
  "kept db db' \<longleftrightarrow> (\<forall>n. case map_of db n of
     Some t \<Rightarrow> (case map_of db' n of None \<Rightarrow> False | Some t' \<Rightarrow> grown t t')
   | None \<Rightarrow> (case map_of db' n of None \<Rightarrow> True | Some t' \<Rightarrow> n \<in> fst ` set ALL_TABLES \<and> tb_rows t' = []))"

lemma grown_empty: "grown t t' \<Longrightarrow> tb_rows t = [] \<Longrightarrow> tb_rows t' = []"
  by (auto simp: grown_def)

lemma declared_empty: "map_of ALL_TABLES n = Some d \<Longrightarrow> tb_rows d = [] \<and> n \<in> fst ` set ALL_TABLES"
  by (auto simp: tables_defs split: if_splits)

lemma kept_grown:
  assumes "\<And>n. case start_table db n of None \<Rightarrow> map_of db' n = None | Some t \<Rightarrow> \<exists>t'. map_of db' n = Some t' \<and> grown t t'"
  shows "kept db db'"
  unfolding kept_def
proof
  fix n
  show "case map_of db n of
     Some t \<Rightarrow> (case map_of db' n of None \<Rightarrow> False | Some t' \<Rightarrow> grown t t')
   | None \<Rightarrow> (case map_of db' n of None \<Rightarrow> True | Some t' \<Rightarrow> n \<in> fst ` set ALL_TABLES \<and> tb_rows t' = [])"
    using assms [of n] declared_empty [of n]
    by (auto simp: start_table_def split: option.splits intro: grown_empty)
qed

lemma init_db_tables:
  assumes "init_db db = (Inr (), db')" and "start_table db ''handles'' = Some t" and "start_table db ''jobs'' = Some u"
  shows "\<exists>t'. create_signature_index t = Inr t' \<and> map_of db' n =
    (if n = ''jobs'' then Some (fold add_column LATE_JOB_COLUMNS u)
     else if n = ''handles'' then Some (fold add_column LATE_HANDLE_COLUMNS t') else start_table db n)"
proof -
  obtain t' where t': "create_signature_index t = Inr t'"
    using assms(1) init_db_run [OF assms(2,3)] by (auto split: sum.splits)
  then have db': "db' = AList.update ''jobs'' (fold add_column LATE_JOB_COLUMNS u)
       (create_all JOBS_TABLES (AList.update ''handles'' (fold add_column LATE_HANDLE_COLUMNS t') (create_all WORKSPACE_TABLES db)))"
    using assms(1) init_db_run [OF assms(2,3)] by simp
  have "map_of db' n = (if n = ''jobs'' then Some (fold add_column LATE_JOB_COLUMNS u)
     else if n = ''handles'' then Some (fold add_column LATE_HANDLE_COLUMNS t') else start_table db n)"
    unfolding db' by (auto simp: update_conv map_of_create_all start_table_def ALL_TABLES_def map_add_def split: option.splits)
  with t' show ?thesis by blast
qed

lemma index_again: "SIGNATURE_INDEX \<in> set (tb_indexes t) \<Longrightarrow> create_signature_index t = Inr t"
  by (simp add: create_signature_index_def)

lemma migrated:
  assumes "init_db db = (Inr (), db')"
  obtains t u h j where "start_table db ''handles'' = Some t" and "start_table db ''jobs'' = Some u"
    and "\<And>n. map_of db' n = (if n = ''jobs'' then Some j else if n = ''handles'' then Some h else start_table db n)"
    and "grown t h" and "SIGNATURE_INDEX \<in> set (tb_indexes h)" and "grown u j"
    and "late_names ''handles'' \<subseteq> set (column_names h)" and "late_names ''jobs'' \<subseteq> set (column_names j)"
proof -
  obtain t u where tu: "start_table db ''handles'' = Some t" "start_table db ''jobs'' = Some u"
    using start_tables(2,3) by blast
  obtain t' where t': "create_signature_index t = Inr t'" using init_db_tables [OF assms tu] by blast
  let ?h = "fold add_column LATE_HANDLE_COLUMNS t'" and ?j = "fold add_column LATE_JOB_COLUMNS u"
  have "map_of db' n = (if n = ''jobs'' then Some ?j else if n = ''handles'' then Some ?h else start_table db n)" for n
    using init_db_tables [OF assms tu, of n] t' by auto
  moreover have "grown t ?h" "SIGNATURE_INDEX \<in> set (tb_indexes ?h)"
    using grown_index [OF t'] grown_add_columns [of t' LATE_HANDLE_COLUMNS] grown_trans by (auto simp: grown_def [of t'])
  ultimately show thesis
    by (intro that [of t u ?j ?h] tu) (simp_all add: grown_add_columns names_add_columns late_columns_added)
qed

lemma init_db_keeps: "init_db db = (Inr (), db') \<Longrightarrow> kept db db'"
  by (erule migrated, rule kept_grown) (auto intro: grown_refl split: option.split)

lemma init_db_completes:
  assumes "earlier_version db" and "init_db db = (Inr (), db')"
  shows "up_to_date db'"
  unfolding up_to_date_def list_all_iff
proof clarify
  fix n d
  assume n: "(n, d) \<in> set ALL_TABLES"
  obtain t u h j where m: "start_table db ''handles'' = Some t" "start_table db ''jobs'' = Some u"
    "\<And>k. map_of db' k = (if k = ''jobs'' then Some j else if k = ''handles'' then Some h else start_table db k)"
    "grown t h" "SIGNATURE_INDEX \<in> set (tb_indexes h)" "grown u j"
    "late_names ''handles'' \<subseteq> set (column_names h)" "late_names ''jobs'' \<subseteq> set (column_names j)"
    by (rule migrated [OF assms(2)]) iprover
  have d: "map_of ALL_TABLES n = Some d" by (rule map_of_is_SomeI) (use n in \<open>simp_all add: tables_defs\<close>)
  then have "start_table db n \<noteq> None" by (simp add: start_table_def split: option.split)
  then obtain s where s: "start_table db n = Some s" by blast
  have "set (column_names d) - late_names n \<subseteq> set (column_names s)"
  proof (cases "map_of db n")
    case None
    then show ?thesis using d s by (simp add: start_table_def)
  next
    case (Some a)
    then show ?thesis using assms(1) n s unfolding earlier_version_def list_all_iff start_table_def by fastforce
  qed
  then have cover: "set (column_names d) \<subseteq> A" if "set (column_names s) \<subseteq> A" "late_names n \<subseteq> A" for A
    using that by blast
  consider "n = ''jobs''" | "n = ''handles''" | "n \<noteq> ''jobs''" "n \<noteq> ''handles''" by blast
  then show "case map_of db' n of None \<Rightarrow> False
    | Some t \<Rightarrow> set (column_names d) \<subseteq> set (column_names t) \<and> (n = ''handles'' \<longrightarrow> SIGNATURE_INDEX \<in> set (tb_indexes t))"
  proof cases
    case 1
    then show ?thesis using s m(2,8) grown_names [OF m(6)] cover [of "set (column_names j)"] by (simp add: m(3))
  next
    case 2
    then show ?thesis using s m(1,5,7) grown_names [OF m(4)] cover [of "set (column_names h)"] by (simp add: m(3))
  next
    case 3
    then show ?thesis using s cover [of "set (column_names s)"] by (simp add: m(3) late_columns_added(3))
  qed
qed

lemma init_db_again:
  assumes "init_db db = (Inr (), db')"
  shows "init_db db' = (Inr (), db')"
proof -
  obtain t u h j where m: "start_table db ''handles'' = Some t" "start_table db ''jobs'' = Some u"
    "\<And>k. map_of db' k = (if k = ''jobs'' then Some j else if k = ''handles'' then Some h else start_table db k)"
    "grown t h" "SIGNATURE_INDEX \<in> set (tb_indexes h)" "grown u j"
    "late_names ''handles'' \<subseteq> set (column_names h)" "late_names ''jobs'' \<subseteq> set (column_names j)"
    by (rule migrated [OF assms]) iprover
  have there: "map_of db' n \<noteq> None" if "n \<in> fst ` set ALL_TABLES" for n
  proof -
    have "map_of ALL_TABLES n \<noteq> None" using that by (simp add: map_of_eq_None_iff)
    then show ?thesis by (auto simp: m(3) start_table_def split: option.split)
  qed
  have "create_all WORKSPACE_TABLES db' = db'" "create_all JOBS_TABLES db' = db'"
    by (rule create_all_again, rule there, auto simp: ALL_TABLES_def)+
  moreover have "fold add_column LATE_HANDLE_COLUMNS h = h" "fold add_column LATE_JOB_COLUMNS j = j"
    by (rule add_columns_again, simp add: late_columns_added m(7,8))+
  moreover have "start_table db' ''handles'' = Some h" "start_table db' ''jobs'' = Some j"
    by (simp_all add: start_table_def m(3))
  moreover have "AList.update ''handles'' h db' = db'" "AList.update ''jobs'' j db' = db'"
    by (rule update_same, simp add: m(3))+
  ultimately show ?thesis using init_db_run [of db' h j] index_again [OF m(5)] by simp
qed

text \<open>
  C39: The initialisation script brings every earlier version of the database up to date and can be run again. Whichever
  of the declared tables are missing, and whichever of the columns that were added later the existing ones
  lack: afterwards every declared table has every declared column and the signature index is there; every
  table that was there still has its columns, indexes and rows, no value changed, with the defaults in the new columns;
  the created tables are empty; and a second run changes nothing.
\<close>

theorem init_db_brings_up_to_date:
  assumes "earlier_version db" and "init_db db = (Inr (), db')"
  shows "up_to_date db' \<and> kept db db' \<and> init_db db' = (Inr (), db')"
  by (intro conjI init_db_completes [OF assms] init_db_keeps [OF assms(2)] init_db_again [OF assms(2)])

text \<open>A database from before the access times, credentials and signatures, with one job in it.\<close>

definition early_database :: database where
  "early_database =
     [(''handles'', \<lparr>tb_columns = butlast (tb_columns (the (map_of WORKSPACE_TABLES ''handles''))), tb_indexes = [], tb_rows =
        [[(''handle'', JStr ''obs_1''), (''workspace_id'', JStr ''ws''), (''handle_type'', JStr ''obs''), (''payload'', JObj [])]]\<rparr>),
      (''jobs'', \<lparr>tb_columns = filter (\<lambda>c. co_name c \<notin> co_name ` set LATE_JOB_COLUMNS) (tb_columns (the (map_of JOBS_TABLES ''jobs''))),
        tb_indexes = [], tb_rows = [[(''job_id'', JStr ''1'')]]\<rparr>)]"

lemma init_db_brings_up_to_date_witness:
  "up_to_date (snd (init_db early_database)) \<and> kept early_database (snd (init_db early_database))
   \<and> map (\<lambda>r. jget r ''speculative'') (tb_rows (the (map_of (snd (init_db early_database)) ''jobs''))) = [JBool False]"
proof -
  have early: "earlier_version early_database" by code_simp
  have "fst (init_db early_database) = Inr ()" by code_simp
  then have "init_db early_database = (Inr (), snd (init_db early_database))" by (metis prod.collapse)
  from init_db_brings_up_to_date [OF early this] have "up_to_date (snd (init_db early_database))" "kept early_database (snd (init_db early_database))"
    by blast+
  moreover have "map (\<lambda>r. jget r ''speculative'') (tb_rows (the (map_of (snd (init_db early_database)) ''jobs''))) = [JBool False]"
    by code_simp
  ultimately show ?thesis by blast
qed

text \<open>
  Rows that share a signature, from before the index, make the script fail; then nothing is changed, not even
  the missing column is added.
\<close>

lemma init_db_fails_whole:
  assumes "init_db db = (Inl e, db')"
  shows "db' = db \<and> e = IntegrityError SIGNATURE_INDEX"
proof -
  obtain t u where tu: "start_table db ''handles'' = Some t" "start_table db ''jobs'' = Some u"
    using start_tables(2,3) by blast
  show ?thesis
    using assms unfolding init_db_run [OF tu] by (auto simp: create_signature_index_def split: sum.splits if_splits)
qed

text \<open>Each teardown drops its own tables only.\<close>

lemma teardowns_apart:
  "map_of (drop_jobs_schema db) n = (if n \<in> fst ` set JOBS_TABLES then None else map_of db n)"
  "map_of (drop_schema db) n = (if n \<in> fst ` set WORKSPACE_TABLES then None else map_of db n)"
  "fst ` set JOBS_TABLES \<inter> fst ` set WORKSPACE_TABLES = {}"
proof -
  have dropped: "map_of (filter (\<lambda>(n, _). n \<notin> A) db) n = (if n \<in> A then None else map_of db n)" for A
    by (induction db) auto
  show "map_of (drop_jobs_schema db) n = (if n \<in> fst ` set JOBS_TABLES then None else map_of db n)"
    "map_of (drop_schema db) n = (if n \<in> fst ` set WORKSPACE_TABLES then None else map_of db n)"
    unfolding drop_jobs_schema_def drop_schema_def drop_all_def by (rule dropped)+
  show "fst ` set JOBS_TABLES \<inter> fst ` set WORKSPACE_TABLES = {}" by (simp add: tables_defs)
qed

end
