(* ===== verification/Opendap.thy ===== *)
theory Opendap
  imports WorkerSafety
begin

text \<open>
  The OPeNDAP provider (\<open>providers/opendap/_runtime.py\<close>): its gate, the DAP4 URLs it builds at submit and
  reads back at materialize, the fetch of one granule with its retries, and the bundle it stores. One HTTP
  exchange and the zip archive of named members are fields of the provider; the concurrent fetches run one after
  the other, in the order of the URLs, and scratch files are values. Waits pass time only.
\<close>

record opendap_provider =
  dp_caps :: capabilities
  dp_urls :: "string list"
  dp_coord_lat :: json
  dp_coord_lon :: json
  dp_coord_time :: json
  dp_lat_axis :: "spec_axis option"
  dp_lon_axis :: "spec_axis option"
  dp_var_dims :: "(string \<times> json list list) list"
  dp_var_coords :: "(string \<times> (json \<times> json)) list"
  dp_edl_token :: "string option"
  dp_earthdata_token :: string
  dp_get :: "string \<Rightarrow> (string \<times> string) list \<Rightarrow> string op"
  dp_zip :: "(string \<times> string) list \<Rightarrow> string"

text \<open>\<open>dp_get\<close> streams one response: its bytes, or the exception of a status that is not a success.\<close>

definition DAP4_SUFFIX :: string where
  "DAP4_SUFFIX = ''.dap.nc4''"

definition NETCDF_BUNDLE_MEDIA_TYPE :: string where
  "NETCDF_BUNDLE_MEDIA_TYPE = ''application/netcdf-bundle+zip''"

definition new_opendap_provider :: "opendap_provider \<Rightarrow> capabilities \<Rightarrow> request_spec \<Rightarrow> string option \<Rightarrow> opendap_provider" where
  "new_opendap_provider base caps spec edl_token =
     base\<lparr>dp_caps := caps,
          dp_urls := map (rstrip_char CHR ''/'') (filter (\<lambda>u. u \<noteq> []) (concat (map (\<lambda>u. case u of JStr s \<Rightarrow> [s] | _ \<Rightarrow> []) (rs_opendap_urls spec)))),
          dp_coord_lat := rs_coord_lat spec, dp_coord_lon := rs_coord_lon spec, dp_coord_time := rs_coord_time spec,
          dp_lat_axis := rs_lat_axis spec, dp_lon_axis := rs_lon_axis spec, dp_var_dims := rs_var_dims spec,
          dp_var_coords := rs_var_coords spec, dp_edl_token := edl_token\<rparr>"

section \<open>The gate\<close>

definition is_netcdf :: "json \<Rightarrow> bool" where
  "is_netcdf output_format = (case output_format of JStr s \<Rightarrow> py_contains (py_lower s) ''netcdf'' | _ \<Rightarrow> False)"

definition opendap_can_handle :: "opendap_provider \<Rightarrow> retrieval_plan \<Rightarrow> bool" where
  "opendap_can_handle p plan =
     (if rp_needs_point_sample plan then False
      else if dp_urls p = [] then False
      else if cc_output_shape (dp_caps p) \<noteq> ''grid'' \<and> cc_output_shape (dp_caps p) \<noteq> ''swath'' then False
      else if \<not> (rp_needs_variable plan \<or> rp_needs_bbox plan \<or> rp_needs_temporal plan) then False
      else is_netcdf (rp_output_format plan))"

section \<open>The request\<close>

text \<open>A number of a stored spec, where the arithmetic on any other value raises.\<close>

definition spec_number :: "json \<Rightarrow> exn + rat" where
  "spec_number x =
     (case x of
        JInt i \<Rightarrow> Inr (of_int i) | JFloat r \<Rightarrow> Inr r | JBool b \<Rightarrow> Inr (if b then 1 else 0)
      | _ \<Rightarrow> Inl (TypeError ''unsupported operand type(s)''))"

definition spec_axis_geometry :: "spec_axis option \<Rightarrow> exn + axis_geometry option" where
  "spec_axis_geometry a =
     (case a of
        None \<Rightarrow> Inr None
      | Some x \<Rightarrow>
          s_bind (as_text (sa_name x)) (\<lambda>name.
          s_bind (spec_number (sa_origin x)) (\<lambda>origin.
          s_bind (spec_number (sa_step x)) (\<lambda>step.
          s_bind (py_to_int (sa_length x)) (\<lambda>n.
            Inr (Some \<lparr>ag_name = name, ag_origin = origin, ag_step = step, ag_length = n\<rparr>))))))"

definition spec_dim :: "json list \<Rightarrow> exn + string \<times> int option" where
  "spec_dim d =
     (case d of
        [JStr lf, JNull] \<Rightarrow> Inr (lf, None)
      | [JStr lf, JInt n] \<Rightarrow> Inr (lf, Some n)
      | _ \<Rightarrow> Inl (ValueError ''too many values to unpack''))"

definition spec_dims :: "(string \<times> json list list) list \<Rightarrow> exn + (string \<times> var_dim_plan) list" where
  "spec_dims vd = s_each (\<lambda>(v, ds). s_bind (s_each spec_dim ds) (\<lambda>p. Inr (v, p))) vd"

definition spec_bbox :: "aoi option \<Rightarrow> exn + (rat \<times> rat \<times> rat \<times> rat) option" where
  "spec_bbox a =
     (case a of
        None \<Rightarrow> Inr None
      | Some x \<Rightarrow>
          (case aoi_bbox x of
             None \<Rightarrow> Inr None
           | Some b \<Rightarrow>
               s_bind (s_each spec_number b) (\<lambda>ns.
                 case ns of [w, s, e, n] \<Rightarrow> Inr (Some (w, s, e, n))
                          | _ \<Rightarrow> Inl (ValueError ''not enough values to unpack''))))"

text \<open>
  What the plan and the provider give the expression builder; the axes and dimension plans only for a
  grid. A stored value of the wrong kind is refused here for the whole request.
\<close>

definition ce_of :: "opendap_provider \<Rightarrow> retrieval_plan \<Rightarrow> exn + ce_request" where
  "ce_of p plan =
     (let grid = (cc_output_shape (dp_caps p) = ''grid'') in
      s_bind (spec_bbox (rp_aoi plan)) (\<lambda>bbox.
      s_bind (case rp_transform plan of None \<Rightarrow> Inr None
                | Some t \<Rightarrow> s_bind (s_each as_text (ts_variables t)) (\<lambda>vs. Inr (Some vs))) (\<lambda>vars.
      s_bind (spec_axis_geometry (if grid then dp_lat_axis p else None)) (\<lambda>lat.
      s_bind (spec_axis_geometry (if grid then dp_lon_axis p else None)) (\<lambda>lon.
      s_bind (if grid then s_bind (spec_dims (dp_var_dims p)) (\<lambda>d. Inr (Some d)) else Inr None) (\<lambda>dims.
      s_bind (s_each (\<lambda>(v, a, b). s_bind (as_text a) (\<lambda>x. s_bind (as_text b) (\<lambda>y. Inr (v, (x, y))))) (dp_var_coords p)) (\<lambda>coords.
        Inr \<lparr>ce_needs_bbox = rp_needs_bbox plan, ce_bbox = bbox, ce_variables = vars,
             ce_coord_lat = jstr (dp_coord_lat p), ce_coord_lon = jstr (dp_coord_lon p), ce_coord_time = jstr (dp_coord_time p),
             ce_lat_axis = lat, ce_lon_axis = lon, ce_var_dims = dims, ce_var_coords = Some coords\<rparr>)))))))"

text \<open>\<open>quote(s, safe='')\<close>: every byte of the UTF-8 form but letters, digits and \<open>_.-~\<close> as \<open>%XX\<close>.\<close>

definition hex_digit :: "nat \<Rightarrow> char" where
  "hex_digit n = char_of (if n < 10 then 48 + n else 55 + n)"

definition percent :: "nat \<Rightarrow> string" where
  "percent b = [CHR ''%'', hex_digit (b div 16), hex_digit (b mod 16)]"

definition quote_char :: "char \<Rightarrow> string" where
  "quote_char c =
     (let n = of_char c :: nat in
      if letter c \<or> is_digit c \<or> c \<in> {CHR ''_'', CHR ''.'', CHR ''-'', CHR ''~''} then [c]
      else if n < 128 then percent n
      else percent (192 + n div 64) @ percent (128 + n mod 64))"

definition url_quote :: "string \<Rightarrow> string" where
  "url_quote s = concat (map quote_char s)"

definition build_dap4_url :: "ce_request \<Rightarrow> string \<Rightarrow> string" where
  "build_dap4_url q base_url =
     (let ce = build_constraint_expression q;
          url = base_url @ DAP4_SUFFIX
      in if ce = [] then url else url @ ''?dap4.ce='' @ url_quote ce)"

section \<open>Submit and poll\<close>

definition opendap_submit :: "opendap_provider \<Rightarrow> retrieval_plan \<Rightarrow> job_ref op" where
  "opendap_submit p plan =
     (if \<not> opendap_can_handle p plan then e_raise (ValueError ''OPeNDAPProvider cannot handle this plan'')
      else e_bind (lift_sum (ce_of p plan)) (\<lambda>q.
        e_ret \<lparr>jr_provider = JStr ''opendap'', jr_job_id = None,
               jr_job_url = Some (py_join [CHR 0x0A] (map (build_dap4_url q) (dp_urls p))), jr_job_handle = None\<rparr>))"

definition opendap_poll :: "job_ref \<Rightarrow> job_status op" where
  "opendap_poll job = e_ret \<lparr>st_state = READY, st_progress = 100, st_message = None, st_output_expires_at = None, st_error = None\<rparr>"

definition opendap_cancel :: "job_ref \<Rightarrow> unit op" where
  "opendap_cancel job = e_ret ()"

section \<open>Materialize\<close>

definition granule_of :: "string \<Rightarrow> string" where
  "granule_of url =
     (let b = fst (py_partition CHR ''?'' url) in
      if py_endswith b DAP4_SUFFIX then take (length b - length DAP4_SUFFIX) b else b)"

definition filename_from_url :: "string \<Rightarrow> exn + string" where
  "filename_from_url url =
     s_bind (url_path url) (\<lambda>path.
       let last_part = after_last CHR ''/'' path in
       Inr (if py_endswith last_part DAP4_SUFFIX
            then (let stem = take (length last_part - length DAP4_SUFFIX) last_part in
                  if py_endswith stem ''.nc4'' then stem else stem @ ''.nc4'')
            else if last_part = [] then ''subset.nc4'' else last_part))"

definition transient_http_error :: "exn \<Rightarrow> bool" where
  "transient_http_error e = (case e of HttpStatusErr _ c _ \<Rightarrow> c \<in> {429, 502, 503, 504} | _ \<Rightarrow> False)"

text \<open>\<open>stop_after_attempt(n + 1)\<close>.\<close>

fun fetch_attempts :: "nat \<Rightarrow> 'a op \<Rightarrow> 'a op" where
  "fetch_attempts 0 m = m"
| "fetch_attempts (Suc n) m = e_catch m (\<lambda>e. if transient_http_error e then fetch_attempts n m else e_raise e)"

definition auth_headers :: "opendap_provider \<Rightarrow> (string \<times> string) list" where
  "auth_headers p =
     (let token = (if or_empty (dp_edl_token p) \<noteq> [] then or_empty (dp_edl_token p) else dp_earthdata_token p)
      in if token = [] then [] else [(''Authorization'', ''Bearer '' @ token)])"

definition fetch_granule :: "opendap_provider \<Rightarrow> string \<Rightarrow> (string \<times> string) op" where
  "fetch_granule p url =
     e_bind (lift_sum (filename_from_url url)) (\<lambda>arcname.
     e_bind (e_catch (fetch_attempts 3 (dp_get p url (auth_headers p)))
               (\<lambda>e. case e of
                      HttpStatusErr txt code body \<Rightarrow>
                        if code \<in> {502, 503, 504}
                        then e_raise (RuntimeError (''OPeNDAP server returned '' @ show_int code @ '' for '' @ py_repr url @
                               '' after retries -- the DAP4 endpoint for this collection appears persistently unavailable.''))
                        else e_raise e
                    | _ \<Rightarrow> e_raise e)) (\<lambda>content.
       e_ret (arcname, content)))"

definition fetch_all :: "opendap_provider \<Rightarrow> string list \<Rightarrow> (string \<times> string) list op" where
  "fetch_all p urls = e_collect (\<lambda>u. e_bind (fetch_granule p u) (\<lambda>m. e_ret [m])) urls"

definition op_put_blob :: "string \<Rightarrow> string \<Rightarrow> unit op" where
  "op_put_blob key content =
     e_io (\<lambda>w. case local_put (w_root w) (w_files w) key content of
                 Inl e \<Rightarrow> Inl e
               | Inr fs \<Rightarrow> Inr ((), w\<lparr>w_files := fs\<rparr>))"

definition opendap_materialize :: "opendap_provider \<Rightarrow> job_ref \<Rightarrow> materialized_result op" where
  "opendap_materialize p job =
     (case jr_job_url job of
        None \<Rightarrow> e_raise (ValueError ''OPeNDAP JobRef carries no constraint URL'')
      | Some joined \<Rightarrow>
          if joined = [] then e_raise (ValueError ''OPeNDAP JobRef carries no constraint URL'')
          else
            (let urls = filter (\<lambda>u. u \<noteq> []) (py_split (CHR 0x0A) joined) in
             e_bind (fetch_all p urls) (\<lambda>fetched.
             let bundle = dp_zip p fetched;
                 key = ''opendap/'' @ (if or_empty (jr_job_handle job) = [] then ''result'' else or_empty (jr_job_handle job))
                         @ ''/subset.nc.zip''
             in e_seq (op_put_blob key bundle)
               (e_ret \<lparr>mr_storage_key = key, mr_media_type = NETCDF_BUNDLE_MEDIA_TYPE,
                       mr_size_bytes = Some (int (length bundle)),
                       mr_extra = [(''granule_count'', JInt (int (length urls))),
                                   (''uncompressed_bytes'', JInt (int (sum_list (map (length \<circ> snd) fetched)))),
                                   (''granule_ids'', JArr (map (JStr \<circ> granule_of) urls))]\<rparr>))))"

definition opendap_ops :: "opendap_provider \<Rightarrow> retrieval_provider" where
  "opendap_ops p = \<lparr>pv_submit = opendap_submit p, pv_poll = opendap_poll, pv_materialize = opendap_materialize p\<rparr>"

section \<open>What was submitted is what is delivered\<close>

lemma hex_digit_plain: "n < 16 \<Longrightarrow> hex_digit n \<noteq> CHR ''?'' \<and> hex_digit n \<noteq> CHR 0x0A"
  by (auto simp: hex_digit_def char_of_eq_iff take_bit_nat_def)

lemma percent_plain: "b < 256 \<Longrightarrow> CHR ''?'' \<notin> set (percent b) \<and> CHR 0x0A \<notin> set (percent b)"
  using hex_digit_plain [of "b div 16"] hex_digit_plain [of "b mod 16"]
  by (auto simp: percent_def div_less_iff_less_mult)

lemma quote_char_plain: "CHR ''?'' \<notin> set (quote_char c) \<and> CHR 0x0A \<notin> set (quote_char c)"
proof -
  have n: "(of_char c :: nat) < 256" by (metis nat_of_char_less_256)
  then have "192 + (of_char c :: nat) div 64 < 256" "128 + (of_char c :: nat) mod 64 < 256"
    using less_trans [OF n, of 4096] by (auto simp: less_diff_conv2 div_less_iff_less_mult intro: less_le_trans [of _ 64])
  then show ?thesis
    using percent_plain [OF n] percent_plain [of "192 + of_char c div 64"] percent_plain [of "128 + of_char c mod 64"]
    by (auto simp: quote_char_def letter_def is_digit_def Let_def)
qed

lemma url_quote_plain: "CHR ''?'' \<notin> set (url_quote s)" "CHR 0x0A \<notin> set (url_quote s)"
  using quote_char_plain by (auto simp: url_quote_def)

lemma endswith_append: "py_endswith (s @ t) t"
  by (simp add: py_endswith_def)

lemma partition_none: "c \<notin> set s \<Longrightarrow> fst (py_partition c s) = s"
  unfolding py_partition_def by (auto simp: takeWhile_eq_all_conv)

lemma granule_of_dap4_url:
  assumes "CHR ''?'' \<notin> set base"
  shows "granule_of (build_dap4_url q base) = base"
proof -
  have free: "CHR ''?'' \<notin> set (base @ DAP4_SUFFIX)" using assms by (simp add: DAP4_SUFFIX_def)
  have "fst (py_partition CHR ''?'' (build_dap4_url q base)) = base @ DAP4_SUFFIX"
    using partition_none [OF free] partition_split [OF free, of "''dap4.ce='' @ url_quote (build_constraint_expression q)"]
    by (simp add: build_dap4_url_def Let_def)
  then show ?thesis by (simp add: granule_of_def endswith_append)
qed

lemma dap4_url_one_line: "CHR 0x0A \<notin> set base \<Longrightarrow> CHR 0x0A \<notin> set (build_dap4_url q base)"
  using url_quote_plain(2) by (auto simp: build_dap4_url_def Let_def DAP4_SUFFIX_def)

lemma dap4_urls_read_back:
  assumes "bases \<noteq> []" and "\<And>b. b \<in> set bases \<Longrightarrow> CHR 0x0A \<notin> set b"
  shows "filter (\<lambda>u. u \<noteq> []) (py_split (CHR 0x0A) (py_join [CHR 0x0A] (map (build_dap4_url q) bases)))
    = map (build_dap4_url q) bases"
proof -
  have "py_split (CHR 0x0A) (py_join [CHR 0x0A] (map (build_dap4_url q) bases)) = map (build_dap4_url q) bases"
    by (rule split_join) (use assms dap4_url_one_line in auto)
  then show ?thesis by (auto simp: filter_id_conv build_dap4_url_def Let_def DAP4_SUFFIX_def)
qed

lemma fetch_granule_named: "wp_partial (fetch_granule p u) (\<lambda>m _. filename_from_url u = Inr (fst m)) w"
  unfolding fetch_granule_def
  by (rule wp_bind_lift, rule wp_bind_any) (simp add: wp_ret)

lemma collect_members:
  "wp_partial (fetch_all p urls) (\<lambda>ms _. list_all2 (\<lambda>u m. filename_from_url u = Inr (fst m)) urls ms) w"
  unfolding fetch_all_def
proof (induction urls arbitrary: w)
  case Nil
  then show ?case by (simp add: wp_ret)
next
  case (Cons u urls)
  have one: "wp_partial (e_bind (fetch_granule p u) (\<lambda>m. e_ret [m])) (\<lambda>ms _. list_all2 (\<lambda>u m. filename_from_url u = Inr (fst m)) [u] ms) w"
    by (rule wp_bind_post [OF fetch_granule_named]) (auto simp: wp_ret)
  show ?case
    unfolding e_collect.simps
    by (rule wp_bind_post [OF one], rule wp_bind_post [OF Cons.IH]) (auto simp: wp_ret list_all2_Cons1)
qed

text \<open>The base URLs CMR gives carry no query and no line break.\<close>

definition plain_urls :: "opendap_provider \<Rightarrow> bool" where
  "plain_urls p \<longleftrightarrow> list_all (\<lambda>u. CHR ''?'' \<notin> set u \<and> CHR 0x0A \<notin> set u) (dp_urls p)"

lemma submit_urls:
  assumes "opendap_submit p plan w = (Inr job, w1)"
  obtains q where "ce_of p plan = Inr q" "opendap_can_handle p plan" "dp_urls p \<noteq> []"
    "jr_job_url job = Some (py_join [CHR 0x0A] (map (build_dap4_url q) (dp_urls p)))"
proof -
  have c: "opendap_can_handle p plan" using assms by (auto simp: opendap_submit_def e_raise_run split: if_splits)
  then have "dp_urls p \<noteq> []" by (auto simp: opendap_can_handle_def split: if_splits)
  moreover obtain q where "ce_of p plan = Inr q"
      "jr_job_url job = Some (py_join [CHR 0x0A] (map (build_dap4_url q) (dp_urls p)))"
    using assms c by (auto simp: opendap_submit_def e_bind_run lift_sum_def e_raise_run e_ret_run split: sum.splits)
  ultimately show ?thesis using that c by blast
qed

lemma put_blob_stores: "wp_partial (op_put_blob key d) (\<lambda>_ t. local_get (w_root t) (w_files t) key = Inr d) w"
  unfolding op_put_blob_def by (rule wp_partial_io) (auto split: sum.splits simp: local.put_get)

lemma materialize_wp:
  assumes url: "jr_job_url job = Some joined" "joined \<noteq> []"
    and urls: "urls = filter (\<lambda>u. u \<noteq> []) (py_split (CHR 0x0A) joined)"
  shows "wp_partial (opendap_materialize p job)
    (\<lambda>r w. jget (mr_extra r) ''granule_ids'' = JArr (map (JStr \<circ> granule_of) urls)
         \<and> (\<exists>members. list_all2 (\<lambda>u m. filename_from_url u = Inr (fst m)) urls members
              \<and> local_get (w_root w) (w_files w) (mr_storage_key r) = Inr (dp_zip p members)
              \<and> mr_size_bytes r = Some (int (length (dp_zip p members))))) w"
proof -
  define key where "key = ''opendap/'' @ (if or_empty (jr_job_handle job) = [] then ''result'' else or_empty (jr_job_handle job))
                         @ ''/subset.nc.zip''"
  show ?thesis
    unfolding opendap_materialize_def url option.case if_not_P [OF url(2)] Let_def key_def [symmetric] urls [symmetric]
    by (rule wp_bind_post [OF collect_members], rule wp_seq_post [OF put_blob_stores])
      (auto simp: wp_ret jget_def)
qed


definition sample_opendap :: opendap_provider where
  "sample_opendap =
     \<lparr>dp_caps = grid_caps, dp_urls = [''https://opendap/G1.nc4'', ''https://opendap/G2.nc4''], dp_coord_lat = JStr ''lat'',
      dp_coord_lon = JStr ''lon'', dp_coord_time = JNull, dp_lat_axis = None, dp_lon_axis = None, dp_var_dims = [],
      dp_var_coords = [], dp_edl_token = None, dp_earthdata_token = [], dp_get = (\<lambda>u h. e_ret ''netcdf''),
      dp_zip = (\<lambda>ms. concat (map (\<lambda>(n, d). n @ d) ms))\<rparr>"

definition sample_rain_plan :: retrieval_plan where
  "sample_rain_plan = (default_plan (JStr ''application/netcdf4''))\<lparr>rp_needs_variable := True,
     rp_transform := Some \<lparr>ts_output_format = JNull, ts_variables = [JStr ''rain''], ts_reproject = JNull, ts_resample = JNull\<rparr>\<rparr>"

lemma sample_opendap_submits:
  "fst (opendap_submit sample_opendap sample_rain_plan initial_world) = Inr \<lparr>jr_provider = JStr ''opendap'', jr_job_id = None,
     jr_job_url = Some (''https://opendap/G1.nc4.dap.nc4?dap4.ce=%2Frain'' @ [CHR 0x0A] @
                        ''https://opendap/G2.nc4.dap.nc4?dap4.ce=%2Frain''), jr_job_handle = None\<rparr>"
  by code_simp

definition sample_opendap_job :: job_ref where
  "sample_opendap_job = \<lparr>jr_provider = JStr ''opendap'', jr_job_id = None,
     jr_job_url = Some (''https://opendap/G1.nc4.dap.nc4?dap4.ce=%2Frain'' @ [CHR 0x0A] @
                        ''https://opendap/G2.nc4.dap.nc4?dap4.ce=%2Frain''), jr_job_handle = None\<rparr>"

lemma sample_opendap_materializes:
  "case fst (opendap_materialize sample_opendap (sample_opendap_job\<lparr>jr_job_handle := Some ''job_1''\<rparr>) initial_world) of
     Inl e \<Rightarrow> False
   | Inr r \<Rightarrow> mr_storage_key r = ''opendap/job_1/subset.nc.zip'' \<and> mr_size_bytes r = Some 24"
  by code_simp


section \<open>The provider in the worker\<close>

lemma evolves_put_blob: "keeps evolves (op_put_blob k d)"
  unfolding op_put_blob_def by (rule keeps_io) (auto split: sum.splits)

lemma keeps_fetch_attempts: "keeps evolves m \<Longrightarrow> keeps evolves (fetch_attempts n m)"
  by (induction n) (auto intro!: keeps_evolves)

lemma keeps_collect: "(\<And>x. keeps evolves (f x)) \<Longrightarrow> keeps evolves (e_collect f xs)"
  by (induction xs) (auto intro!: keeps_evolves)

lemma keeps_fetch_granule: "(\<And>u h. keeps evolves (dp_get p u h)) \<Longrightarrow> keeps evolves (fetch_granule p u)"
  unfolding fetch_granule_def
  by (intro keeps_evolves keeps_lift keeps_fetch_attempts) (auto intro!: keeps_evolves split: exn.split)

text \<open>With an HTTP exchange that touches no table, the provider is one the worker's theorems apply to.\<close>

lemma opendap_evolves: "(\<And>u h. keeps evolves (dp_get p u h)) \<Longrightarrow> provider_evolves (opendap_ops p)"
  unfolding provider_evolves_def opendap_ops_def opendap_submit_def opendap_poll_def opendap_materialize_def
    fetch_all_def Let_def
  by (auto intro!: keeps_evolves keeps_lift keeps_collect keeps_fetch_granule evolves_put_blob)

end
