(* ===== verification/Appeears.thy ===== *)
theory Appeears
  imports Opendap
begin

text \<open>
  The AppEEARS provider (\<open>providers/appeears.py\<close>): point tasks and their mapping from a plan, the names of
  layers, the status of a task, the choice of the results file, and the requests with their login. One HTTP
  exchange, base64 and the conversion of CSV to Parquet are fields of the provider. The session token a login
  leaves in the provider object is passed from request to request; log messages are left out.
\<close>

record appeears_provider =
  ap_platform :: platform
  ap_caps :: capabilities
  ap_base :: string
  ap_edl_token :: "string option"
  ap_username :: string
  ap_password :: string
  ap_b64encode :: "string \<Rightarrow> string"
  ap_to_parquet :: "string \<Rightarrow> exn + string"
  ap_read_float :: "string \<Rightarrow> rat option"
  ap_send :: "string \<Rightarrow> string \<Rightarrow> (string \<times> string) list \<Rightarrow> json \<Rightarrow> http_response op"

definition PARQUET_MEDIA_TYPE :: string where
  "PARQUET_MEDIA_TYPE = ''application/x-parquet''"

definition appeears_can_handle :: "retrieval_plan \<Rightarrow> bool" where
  "appeears_can_handle plan = rp_needs_point_sample plan"

definition product_id :: "appeears_provider \<Rightarrow> string" where
  "product_id p =
     (let product = py_str (pf_show (ap_platform p)) (cc_short_name (ap_caps p)) in
      if truthy (cc_version (ap_caps p))
      then product @ ''.'' @ py_str (pf_show (ap_platform p)) (cc_version (ap_caps p)) else product)"

section \<open>Requests\<close>

text \<open>\<open>raise_for_status\<close>: any answer that is not a success is an error carrying its body.\<close>

definition raise_for_status :: "http_response \<Rightarrow> exn + http_response" where
  "raise_for_status r =
     (if 200 \<le> hr_status r \<and> hr_status r < 300 then Inr r
      else Inl (HttpStatusErr (''HTTP '' @ show_int (hr_status r) @ [CHR 0x0A] @ ''Response body: '' @ hr_text r)
                  (hr_status r) (Some (hr_text r))))"

definition json_field :: "(json \<Rightarrow> string) \<Rightarrow> string \<Rightarrow> json \<Rightarrow> exn + string" where
  "json_field show_other k j = s_bind (py_get j k (JStr [])) (\<lambda>v. Inr (py_str show_other v))"

definition login :: "appeears_provider \<Rightarrow> string op" where
  "login p =
     e_bind (ap_send p ''POST'' (ap_base p @ ''/login'')
               [(''Authorization'', ''Basic '' @ ap_b64encode p (ap_username p @ '':'' @ ap_password p))] JNull) (\<lambda>r.
     e_bind (lift_sum (s_bind (raise_for_status r) (\<lambda>r. s_bind (response_json r) (json_field (pf_show (ap_platform p)) ''token'')))) (\<lambda>token.
       if token = [] then e_raise (RuntimeError ''AppEEARS /login returned no token'') else e_ret token))"

text \<open>A rejected per-call credential, classified; the service account is never put in its place.\<close>

definition reject_per_call :: "appeears_provider \<Rightarrow> http_response \<Rightarrow> (http_response \<times> string option) op" where
  "reject_per_call p r =
     e_bind (op_parse_token (ap_platform p) (ap_edl_token p)) (\<lambda>identity.
     e_bind (e_gets (\<lambda>w. (w_secrets w, w_now w))) (\<lambda>(ss, now).
     e_bind (lift_sum (classify_http_response (ap_platform p) ss now (hr_status r) (Some (hr_text r)) identity)) (\<lambda>c.
       case c of Some e \<Rightarrow> e_raise e | None \<Rightarrow> e_raise (TypeError ''exceptions must derive from BaseException''))))"

definition appeears_request ::
  "appeears_provider \<Rightarrow> string \<Rightarrow> string \<Rightarrow> json \<Rightarrow> string option \<Rightarrow> (http_response \<times> string option) op" where
  "appeears_request p http_method url body session_token =
     (if or_empty (ap_edl_token p) \<noteq> [] then
        e_bind (ap_send p http_method url [(''Authorization'', ''Bearer '' @ or_empty (ap_edl_token p))] body) (\<lambda>r.
          if hr_status r = 401 \<or> hr_status r = 403 then reject_per_call p r
          else e_bind (lift_sum (raise_for_status r)) (\<lambda>ok. e_ret (ok, session_token)))
      else
        e_bind (if or_empty session_token \<noteq> [] then e_ret (or_empty session_token) else login p) (\<lambda>token.
        e_bind (ap_send p http_method url [(''Authorization'', ''Bearer '' @ token)] body) (\<lambda>r.
          if hr_status r = 401 \<or> hr_status r = 403 then
            e_bind (login p) (\<lambda>fresh.
            e_bind (ap_send p http_method url [(''Authorization'', ''Bearer '' @ fresh)] body) (\<lambda>again.
            e_bind (lift_sum (raise_for_status again)) (\<lambda>ok. e_ret (ok, Some fresh))))
          else e_bind (lift_sum (raise_for_status r)) (\<lambda>ok. e_ret (ok, Some token)))))"

section \<open>Layers\<close>

definition normalize_layer :: "string \<Rightarrow> string" where
  "normalize_layer name =
     map (\<lambda>c. if c = CHR '' '' \<or> c = CHR ''/'' then CHR ''_'' else c)
       (py_lower (dropWhile (\<lambda>c. c = CHR ''/'' \<or> c = CHR ''_'') name))"

definition layer_keys :: "dict \<Rightarrow> (string \<times> string) list" where
  "layer_keys layer_map = fold (\<lambda>(k, _) m. AList.update (normalize_layer k) k m) layer_map []"

definition resolve_layer :: "string \<Rightarrow> dict \<Rightarrow> json \<Rightarrow> exn + json" where
  "resolve_layer product layer_map var =
     s_bind (as_text var) (\<lambda>name.
       case map_of (layer_keys layer_map) (normalize_layer name) of
         None \<Rightarrow> Inl (RuntimeError (''No AppEEARS layer matches variable '' @ py_repr name @ '' in product '' @ py_repr product @
                   ''; available layers: '' @
                   (if layer_map = [] then ''(none)'' else py_join '', '' (sort (map fst layer_map)))))
       | Some k \<Rightarrow> Inr (JObj [(''product'', JStr product), (''layer'', JStr k)]))"

definition resolve_layers :: "string \<Rightarrow> dict \<Rightarrow> json list \<Rightarrow> exn + json list" where
  "resolve_layers product layer_map variables = s_each (resolve_layer product layer_map) variables"

definition fetch_layer_map :: "appeears_provider \<Rightarrow> string \<Rightarrow> string option \<Rightarrow> (json \<times> string option) op" where
  "fetch_layer_map p product session_token =
     e_catch
       (e_bind (appeears_request p ''GET'' (ap_base p @ ''/product/'' @ product) JNull session_token) (\<lambda>(r, tok).
          e_bind (lift_sum (response_json r)) (\<lambda>j. e_ret (j, tok))))
       (\<lambda>e. case e of
              HttpStatusErr txt code body \<Rightarrow>
                if code = 404
                then e_raise (RuntimeError (''Dataset '' @ py_repr product @ '' is not in the AppEEARS product catalog''))
                else e_raise e
            | _ \<Rightarrow> e_raise e)"

definition check_product_in_catalog :: "appeears_provider \<Rightarrow> unit op" where
  "check_product_in_catalog p = e_bind (fetch_layer_map p (product_id p) None) (\<lambda>_. e_ret ())"

section \<open>The task\<close>

definition appeears_date :: "datetime \<Rightarrow> string" where
  "appeears_date d = pad 2 (nat (d_month d)) @ ''-'' @ pad 2 (nat (d_day d)) @ ''-'' @ show_int (d_year d)"

definition centroid :: "json list \<Rightarrow> exn + rat \<times> rat" where
  "centroid b =
     s_bind (s_each spec_number b) (\<lambda>ns.
       case ns of
         [west, south, east, north] \<Rightarrow> Inr ((south + north) / 2, (west + east) / 2)
       | _ \<Rightarrow> Inl (ValueError ''not enough values to unpack''))"

text \<open>\<open>(lat, lon)\<close>: a GeoJSON point itself, else the middle of the box.\<close>

definition point_from_aoi :: "(string \<Rightarrow> rat option) \<Rightarrow> aoi option \<Rightarrow> exn + rat \<times> rat" where
  "point_from_aoi read_float a =
     (case a of
        None \<Rightarrow> Inl (ValueError ''AppEEARS point task needs an AOI (a point or bbox)'')
      | Some x \<Rightarrow>
          let of_box = (case aoi_bbox x of
                          Some b \<Rightarrow> centroid b
                        | None \<Rightarrow> Inl (ValueError ''AOI has neither a Point geometry nor a bbox'')) in
          if aoi_geojson x = JNull then of_box
          else
            s_bind (py_get (aoi_geojson x) ''geometry'' (aoi_geojson x)) (\<lambda>geom.
            s_bind (py_get geom ''type'' JNull) (\<lambda>ty.
              if ty \<noteq> JStr ''Point'' then of_box
              else
                s_bind (py_item geom ''coordinates'') (\<lambda>cs.
                s_bind (py_iter cs) (\<lambda>xs.
                  case take 2 xs of
                    [lon, lat] \<Rightarrow> s_bind (py_float read_float lat) (\<lambda>la. s_bind (py_float read_float lon) (\<lambda>lo. Inr (la, lo)))
                  | _ \<Rightarrow> Inl (ValueError ''not enough values to unpack''))))))"

definition build_task :: "appeears_provider \<Rightarrow> retrieval_plan \<Rightarrow> string \<Rightarrow> json list \<Rightarrow> exn + json" where
  "build_task p plan product layers =
     s_bind (point_from_aoi (ap_read_float p) (rp_aoi plan)) (\<lambda>(lat, lon).
       Inr (JObj
         [(''task_type'', JStr ''point''),
          (''task_name'', JStr (py_strip (''earthdata-mcp '' @ product))),
          (''params'', JObj
             ([(''coordinates'', JArr [JObj [(''latitude'', JFloat lat), (''longitude'', JFloat lon), (''id'', JStr ''0''),
                  (''category'', JStr ''site'')]]),
               (''layers'', JArr layers)] @
              (case rp_time_range plan of
                 None \<Rightarrow> []
               | Some r \<Rightarrow> [(''dates'', JArr [JObj [(''startDate'', JStr (appeears_date (tr_start r))),
                                                 (''endDate'', JStr (appeears_date (tr_end r)))]])])))]))"

definition appeears_submit :: "appeears_provider \<Rightarrow> retrieval_plan \<Rightarrow> job_ref op" where
  "appeears_submit p plan =
     (if \<not> appeears_can_handle plan then e_raise (ValueError ''AppEEARSProvider only handles point/area sample plans'')
      else if or_empty (ap_edl_token p) = [] \<and> (ap_username p = [] \<or> ap_password p = [])
      then e_raise (ValueError ''AppEEARS submission requires EDL credentials'')
      else
        e_bind (fetch_layer_map p (product_id p) None) (\<lambda>(answer, tok).
        e_bind (lift_sum (py_items answer)) (\<lambda>layer_map.
        e_bind (lift_sum (resolve_layers (product_id p) layer_map
                  (case rp_transform plan of None \<Rightarrow> [] | Some t \<Rightarrow> ts_variables t))) (\<lambda>layers.
        e_bind (lift_sum (build_task p plan (product_id p) layers)) (\<lambda>body.
        e_bind (appeears_request p ''POST'' (ap_base p @ ''/task'') body tok) (\<lambda>(r, tok2).
        e_bind (lift_sum (s_bind (response_json r) (json_field (pf_show (ap_platform p)) ''task_id''))) (\<lambda>task_id.
          if task_id = [] then e_raise (RuntimeError ''AppEEARS task submit returned no task_id'')
          else e_ret \<lparr>jr_provider = JStr ''appeears'', jr_job_id = Some task_id,
                      jr_job_url = Some (ap_base p @ ''/task/'' @ task_id), jr_job_handle = None\<rparr>)))))))"

section \<open>Status\<close>

definition appeears_state :: "string \<Rightarrow> job_state" where
  "appeears_state status =
     (if status = ''pending'' \<or> status = ''queued'' then SUBMITTED
      else if status = ''processing'' then RUNNING
      else if status = ''done'' then READY
      else if status = ''error'' then FAILED
      else if status = ''expired'' then EXPIRED
      else if status = ''deleted'' then CANCELLED
      else RUNNING)"

definition queue_message :: "string \<Rightarrow> string option" where
  "queue_message status =
     (if status = ''pending'' then Some ''pending at AppEEARS''
      else if status = ''queued'' then Some ''queued at AppEEARS'' else None)"

text \<open>\<open>x < 100\<close> of a value that should be a number.\<close>

definition below_100 :: "json \<Rightarrow> exn + bool" where
  "below_100 x = s_bind (spec_number x) (\<lambda>r. Inr (r < 100))"

definition text_opt :: "(json \<Rightarrow> string) \<Rightarrow> json \<Rightarrow> string option" where
  "text_opt show_other x = (if x = JNull then None else Some (py_str show_other x))"

fun first_unfinished :: "(json \<Rightarrow> string) \<Rightarrow> json list \<Rightarrow> exn + string option option" where
  "first_unfinished show_other [] = Inr None"
| "first_unfinished show_other (step # rest) =
     (case step of
        JObj d \<Rightarrow>
          s_bind (below_100 (case map_of d ''pct_complete'' of None \<Rightarrow> JInt 100 | Some v \<Rightarrow> v)) (\<lambda>b.
            if b then Inr (Some (text_opt show_other (jget d ''desc''))) else first_unfinished show_other rest)
      | _ \<Rightarrow> first_unfinished show_other rest)"

definition current_step_message :: "(json \<Rightarrow> string) \<Rightarrow> dict \<Rightarrow> exn + string option" where
  "current_step_message show_other progress =
     (case jget progress ''details'' of
        JArr (d # ds) \<Rightarrow>
          s_bind (first_unfinished show_other (d # ds)) (\<lambda>found.
            case found of
              Some m \<Rightarrow> Inr m
            | None \<Rightarrow> Inr (case last (d # ds) of JObj l \<Rightarrow> text_opt show_other (jget l ''desc'') | _ \<Rightarrow> None))
      | _ \<Rightarrow> Inr None)"

definition appeears_status :: "(json \<Rightarrow> string) \<Rightarrow> dict \<Rightarrow> exn + job_status" where
  "appeears_status show_other raw =
     (let status_key = py_lower (py_str show_other (case map_of raw ''status'' of None \<Rightarrow> JStr [] | Some s \<Rightarrow> s));
          state = appeears_state status_key;
          progress = jget raw ''progress'' in
      s_bind (case progress of
                JObj d \<Rightarrow> py_to_int (case map_of d ''summary'' of None \<Rightarrow> JInt 0 | Some v \<Rightarrow> v) | _ \<Rightarrow> Inr 0) (\<lambda>pct.
      s_bind (case progress of JObj d \<Rightarrow> current_step_message show_other d | _ \<Rightarrow> Inr None) (\<lambda>message.
        Inr \<lparr>st_state = state, st_progress = pct,
             st_message = (case message of Some m \<Rightarrow> Some m | None \<Rightarrow> queue_message status_key),
             st_output_expires_at = None,
             st_error = (if state = FAILED then text_opt show_other (py_or (jget raw ''error'') (jget raw ''message'')) else None)\<rparr>)))"

definition appeears_poll :: "appeears_provider \<Rightarrow> job_ref \<Rightarrow> job_status op" where
  "appeears_poll p job =
     e_bind (appeears_request p ''GET'' (ap_base p @ ''/task/'' @ (case jr_job_id job of None \<Rightarrow> ''None'' | Some i \<Rightarrow> i)) JNull None)
       (\<lambda>(r, tok).
     e_bind (lift_sum (s_bind (response_json r) py_items)) (\<lambda>raw.
       lift_sum (appeears_status (pf_show (ap_platform p)) raw)))"

definition appeears_cancel :: "appeears_provider \<Rightarrow> job_ref \<Rightarrow> unit op" where
  "appeears_cancel p job =
     (if or_empty (jr_job_id job) = [] then e_ret ()
      else
        e_catch (e_bind (appeears_request p ''DELETE'' (ap_base p @ ''/task/'' @ or_empty (jr_job_id job)) JNull None) (\<lambda>_. e_ret ()))
          (\<lambda>e. case e of
                 HttpStatusErr _ code _ \<Rightarrow> if code = 404 \<or> code = 409 then e_ret () else e_raise e
               | _ \<Rightarrow> e_raise e))"

section \<open>Materialize\<close>

definition file_text :: "(json \<Rightarrow> string) \<Rightarrow> string \<Rightarrow> string \<Rightarrow> json \<Rightarrow> exn + string" where
  "file_text show_other k d f = s_bind (py_get f k (JStr d)) (\<lambda>v. Inr (py_str show_other v))"

definition is_results :: "(json \<Rightarrow> string) \<Rightarrow> json \<Rightarrow> exn + bool" where
  "is_results show_other f =
     s_bind (file_text show_other ''file_type'' [] f) (\<lambda>ty.
       if py_lower ty \<noteq> ''csv'' then Inr False
       else s_bind (file_text show_other ''file_name'' [] f) (\<lambda>name. Inr (py_contains (py_lower name) ''results'')))"

definition results_file :: "(json \<Rightarrow> string) \<Rightarrow> json \<Rightarrow> exn + string \<times> string" where
  "results_file show_other bundle =
     s_bind (py_get bundle ''files'' (JArr [])) (\<lambda>fs.
     s_bind (py_iter fs) (\<lambda>files.
     s_bind (s_each (is_results show_other) files) (\<lambda>flags.
       case map fst (filter snd (zip files flags)) of
         [] \<Rightarrow> Inl (RuntimeError ''AppEEARS returned no tabular results'')
       | f # _ \<Rightarrow> s_bind (file_text show_other ''file_id'' [] f) (\<lambda>i.
                   s_bind (file_text show_other ''file_name'' [] f) (\<lambda>n. Inr (i, n))))))"

definition appeears_materialize :: "appeears_provider \<Rightarrow> job_ref \<Rightarrow> materialized_result op" where
  "appeears_materialize p job =
     (let task = (case jr_job_id job of None \<Rightarrow> ''None'' | Some i \<Rightarrow> i);
          handle = (if or_empty (jr_job_handle job) \<noteq> [] then or_empty (jr_job_handle job)
                    else if or_empty (jr_job_id job) \<noteq> [] then or_empty (jr_job_id job) else ''result'');
          key = ''appeears/'' @ handle @ ''/series.parquet''
      in e_bind (appeears_request p ''GET'' (ap_base p @ ''/bundle/'' @ task) JNull None) (\<lambda>(r, tok).
         e_bind (lift_sum (s_bind (response_json r) (results_file (pf_show (ap_platform p))))) (\<lambda>(file_id, file_name).
         e_bind (appeears_request p ''GET'' (ap_base p @ ''/bundle/'' @ task @ ''/'' @ file_id) JNull tok) (\<lambda>(csv, tok2).
         e_bind (lift_sum (ap_to_parquet p (hr_text csv))) (\<lambda>parquet.
         e_seq (op_put_blob key parquet)
           (e_ret \<lparr>mr_storage_key = key, mr_media_type = PARQUET_MEDIA_TYPE, mr_size_bytes = Some (int (length parquet)),
                   mr_extra = [(''source_file'', JStr file_name)]\<rparr>))))))"

definition appeears_ops :: "appeears_provider \<Rightarrow> retrieval_provider" where
  "appeears_ops p = \<lparr>pv_submit = appeears_submit p, pv_poll = appeears_poll p, pv_materialize = appeears_materialize p\<rparr>"

section \<open>The provider in the worker\<close>

definition appeears_aside :: "appeears_provider \<Rightarrow> bool" where
  "appeears_aside p \<longleftrightarrow> (\<forall>m u h b. keeps same_tables (ap_send p m u h b))"

lemma tables_login: "appeears_aside p \<Longrightarrow> keeps same_tables (login p)"
  unfolding login_def by (intro keeps_tables) (simp add: appeears_aside_def)

lemma tables_reject: "keeps same_tables (reject_per_call p r)"
  unfolding reject_per_call_def by (intro keeps_tables)

lemma tables_appeears_request: "appeears_aside p \<Longrightarrow> keeps same_tables (appeears_request p m u b t)"
  unfolding appeears_request_def
  by (intro keeps_tables tables_login tables_reject) (auto simp: appeears_aside_def)

lemma tables_exn_case:
  "(\<And>t c b. keeps same_tables (f t c b)) \<Longrightarrow> keeps same_tables m \<Longrightarrow>
   keeps same_tables (case e of HttpStatusErr t c b \<Rightarrow> f t c b | _ \<Rightarrow> m)"
  by (cases e) auto

lemma tables_layer_map: "appeears_aside p \<Longrightarrow> keeps same_tables (fetch_layer_map p product t)"
  unfolding fetch_layer_map_def by (intro keeps_tables tables_appeears_request tables_exn_case)

lemma tables_check_product: "appeears_aside p \<Longrightarrow> keeps same_tables (check_product_in_catalog p)"
  unfolding check_product_in_catalog_def by (intro keeps_tables tables_layer_map)

lemma tables_appeears_cancel: "appeears_aside p \<Longrightarrow> keeps same_tables (appeears_cancel p job)"
  unfolding appeears_cancel_def by (intro keeps_tables tables_appeears_request tables_exn_case)

lemma tables_evolve: "same_tables w w' \<Longrightarrow> evolves w w'"
  by (auto simp: same_tables_def evolves_def world_ok_def)

lemma keeps_tables_evolves: "keeps same_tables m \<Longrightarrow> keeps evolves m"
  by (simp add: keeps_def tables_evolve)

lemma appeears_evolves: "appeears_aside p \<Longrightarrow> provider_evolves (appeears_ops p)"
  unfolding provider_evolves_def appeears_ops_def appeears_submit_def appeears_poll_def appeears_materialize_def Let_def
  by (auto intro!: keeps_evolves keeps_lift evolves_put_blob keeps_tables_evolves [OF tables_appeears_request]
      keeps_tables_evolves [OF tables_layer_map])

section \<open>The caller's identity is never replaced\<close>

text \<open>With a per-call token no request reads the service account's name and password.\<close>

lemma per_call_never_logs_in:
  assumes "or_empty (ap_edl_token p) \<noteq> []"
  shows "appeears_request (p\<lparr>ap_username := u, ap_password := v, ap_b64encode := f\<rparr>) m url b t = appeears_request p m url b t"
proof -
  have "reject_per_call (p\<lparr>ap_username := u, ap_password := v, ap_b64encode := f\<rparr>) r = reject_per_call p r" for r
    unfolding reject_per_call_def by simp
  then show ?thesis using assms by (simp add: appeears_request_def cong: if_cong)
qed

text \<open>A refused per-call token is a classified failure, raised after one exchange.\<close>

lemma per_call_refusal_classified:
  assumes "or_empty (ap_edl_token p) \<noteq> []"
    and "ap_send p m url [(''Authorization'', ''Bearer '' @ or_empty (ap_edl_token p))] b w = (Inr r, w1)"
    and "hr_status r = 401 \<or> hr_status r = 403"
  shows "\<exists>e w'. appeears_request p m url b t w = (Inl e, w')"
proof -
  have "\<exists>e w'. reject_per_call p r w1 = (Inl e, w')"
    unfolding reject_per_call_def
    by (auto simp: eff_simps lift_sum_def split: prod.splits sum.splits option.splits)
  then show ?thesis using assms by (auto simp: appeears_request_def e_bind_run)
qed

section \<open>Layers are matched, never guessed\<close>

lemma layer_keys_Some:
  "map_of (layer_keys layer_map) n = Some k \<Longrightarrow> k \<in> fst ` set layer_map \<and> normalize_layer k = n"
proof -
  have step: "map_of (fold (\<lambda>(k, _) m. AList.update (normalize_layer k) k m) xs m) n = Some k \<Longrightarrow>
      map_of m n = Some k \<or> k \<in> fst ` set xs \<and> normalize_layer k = n" for xs :: dict and m
  proof (induction xs arbitrary: m)
    case (Cons x xs)
    obtain a v where x: "x = (a, v)" by (cases x)
    have "map_of (AList.update (normalize_layer a) a m) n = Some k \<or> k \<in> fst ` set xs \<and> normalize_layer k = n"
      using Cons.IH Cons.prems by (simp add: x)
    then show ?case by (auto simp: x update_conv' split: if_splits)
  qed simp
  assume "map_of (layer_keys layer_map) n = Some k"
  then show ?thesis using step [of layer_map "[]"] unfolding layer_keys_def by simp
qed

text \<open>Every layer sent is one of the product's own, spelled as the product spells it.\<close>

lemma resolve_layers_matched:
  assumes "resolve_layers product layer_map vars = Inr layers"
  shows "list_all2 (\<lambda>v l. \<exists>name k. v = JStr name \<and> k \<in> fst ` set layer_map \<and> normalize_layer k = normalize_layer name
           \<and> l = JObj [(''product'', JStr product), (''layer'', JStr k)]) vars layers"
proof -
  have one: "\<exists>name k. v = JStr name \<and> k \<in> fst ` set layer_map \<and> normalize_layer k = normalize_layer name
      \<and> l = JObj [(''product'', JStr product), (''layer'', JStr k)]" if r: "resolve_layer product layer_map v = Inr l" for v l
  proof -
    obtain name where v: "v = JStr name"
      using r by (cases v) (auto simp: resolve_layer_def as_text_def s_bind_Inr_iff)
    obtain k where k: "map_of (layer_keys layer_map) (normalize_layer name) = Some k"
      and l: "l = JObj [(''product'', JStr product), (''layer'', JStr k)]"
      using r by (auto simp: resolve_layer_def as_text_def v split: option.splits)
    show ?thesis using layer_keys_Some [OF k] v l by blast
  qed
  have "list_all2 (\<lambda>v l. resolve_layer product layer_map v = Inr l) vars layers"
    using assms unfolding resolve_layers_def s_each_Inr_iff .
  then show ?thesis by (rule list_all2_mono) (rule one)
qed

text \<open>The middle of a box across the antimeridian is on the other side of the world.\<close>

lemma antimeridian_centroid:
  "centroid [JInt 170, JInt (-10), JInt (-170), JInt 10] = Inr (0, 0)"
  by (simp add: centroid_def spec_number_def)

end
