(* ===== verification/Harmony.thy ===== *)
theory Harmony
  imports Appeears
begin

text \<open>
  The Harmony provider (\<open>providers/harmony.py\<close>) and the sniffing of formats (\<open>formats.py\<close>): the mapping of
  a plan to a request, the map of status words, the pinning of a service, cancellation, and the storing of a
  result under an honest media type. The harmony-py client, the guess of a media type by name and the
  writing of a zip archive are fields of the provider; waiting for the rate limiter (modelled in
  \<open>RateLimit\<close>), the scratch directory, the progress callback and logging are left out.
\<close>

section \<open>Formats\<close>

definition HDF5_MAGIC :: string where
  "HDF5_MAGIC = [CHR 0x89, CHR ''H'', CHR ''D'', CHR ''F'', CHR 0x0D, CHR 0x0A, CHR 0x1A, CHR 0x0A]"

definition NETCDF_CLASSIC_MAGICS :: "string list" where
  "NETCDF_CLASSIC_MAGICS = [''CDF'' @ [CHR 0x01], ''CDF'' @ [CHR 0x02]]"

definition HDF4_MAGIC :: string where
  "HDF4_MAGIC = [CHR 0x0E, CHR 0x03, CHR 0x13, CHR 0x01]"

definition NETCDF_FAMILY_FORMATS :: "string set" where
  "NETCDF_FAMILY_FORMATS = {''hdf5'', ''netcdf-classic''}"

definition sniff_format :: "string \<Rightarrow> string" where
  "sniff_format data =
     (if py_startswith data HDF5_MAGIC then ''hdf5''
      else if list_ex (py_startswith data) NETCDF_CLASSIC_MAGICS then ''netcdf-classic''
      else if py_startswith data HDF4_MAGIC then ''hdf4'' else ''unknown'')"

section \<open>The client\<close>

record harmony_request =
  hq_collection :: json
  hq_format :: json
  hq_service_id :: "json option"
  hq_spatial :: "json list option"
  hq_temporal :: "(datetime \<times> datetime) option"
  hq_variables :: "json list option"
  hq_crs :: "json option"
  hq_concatenate :: bool

record harmony_status =
  hs_status :: string
  hs_progress :: json
  hs_message :: "string option"
  hs_data_expiration :: "time option"
  hs_errors :: "json list"

text \<open>
  The operations of harmony-py the provider uses; \<open>hc_download_all\<close> gives the name and the bytes of each
  file it left in the scratch directory.
\<close>

record harmony_client =
  hc_submit :: "harmony_request \<Rightarrow> string op"
  hc_status :: "string \<Rightarrow> harmony_status op"
  hc_cancel :: "string \<Rightarrow> unit op"
  hc_download_all :: "string \<Rightarrow> (string \<times> string) list op"
  hc_status_url :: "string \<Rightarrow> string option"

record harmony_provider =
  hp_caps :: capabilities
  hp_service_name_hint :: json
  hp_client :: harmony_client
  hp_show :: "json \<Rightarrow> string"
  hp_guess_type :: "string \<Rightarrow> string option"
  hp_zip :: "(string \<times> string) list \<Rightarrow> string"

section \<open>Submit\<close>

definition harmony_can_handle :: "harmony_provider \<Rightarrow> retrieval_plan \<Rightarrow> bool" where
  "harmony_can_handle p plan = (find_service (hp_caps p) plan \<noteq> None)"

text \<open>\<open>ServiceCapability(service_name=hint, concept_id='')\<close>.\<close>

definition hinted_service :: "json \<Rightarrow> service_capability" where
  "hinted_service hint =
     \<lparr>sv_name = hint, sv_concept_id = [], sv_bbox = False, sv_variable = False, sv_temporal = False, sv_shape = False,
      sv_dimension = False, sv_concatenate = False, sv_reproject = False, sv_output_formats = []\<rparr>"

definition submitted_service :: "harmony_provider \<Rightarrow> retrieval_plan \<Rightarrow> service_capability option" where
  "submitted_service p plan =
     (case find_service (hp_caps p) plan of
        Some s \<Rightarrow> Some s
      | None \<Rightarrow>
          if truthy (hp_service_name_hint p) \<and> cc_services (hp_caps p) = []
          then Some (hinted_service (hp_service_name_hint p)) else None)"

text \<open>A window of no width is widened by one second.\<close>

definition harmony_window :: "time_range \<Rightarrow> exn + datetime \<times> datetime" where
  "harmony_window r =
     s_bind (dt_minus (tr_end r) (tr_start r)) (\<lambda>width.
       if width \<le> 0 then s_bind (dt_plus (tr_start r) 1000000) (\<lambda>stop. Inr (tr_start r, stop))
       else Inr (tr_start r, tr_end r))"

definition build_request ::
  "harmony_provider \<Rightarrow> retrieval_plan \<Rightarrow> service_capability option \<Rightarrow> exn + harmony_request" where
  "build_request p plan svc =
     s_bind (case rp_time_range plan of None \<Rightarrow> Inr None | Some r \<Rightarrow> s_bind (harmony_window r) (\<lambda>t. Inr (Some t)))
       (\<lambda>temporal.
       let vars = (case rp_transform plan of None \<Rightarrow> [] | Some t \<Rightarrow> ts_variables t);
           crs = (case rp_transform plan of None \<Rightarrow> JNull | Some t \<Rightarrow> ts_reproject t)
       in Inr
         \<lparr>hq_collection = py_or (rp_concept_id plan) (cc_concept_id (hp_caps p)), hq_format = rp_output_format plan,
          hq_service_id = map_option sv_name svc,
          hq_spatial = (case rp_aoi plan of None \<Rightarrow> None | Some a \<Rightarrow> aoi_bbox a),
          hq_temporal = temporal, hq_variables = (if vars = [] then None else Some vars),
          hq_crs = (if truthy crs then Some crs else None),
          hq_concatenate = (case svc of None \<Rightarrow> False | Some s \<Rightarrow> sv_concatenate s)\<rparr>)"

definition harmony_submit :: "harmony_provider \<Rightarrow> retrieval_plan \<Rightarrow> job_ref op" where
  "harmony_submit p plan =
     e_bind (lift_sum (build_request p plan (submitted_service p plan))) (\<lambda>request.
     e_bind (hc_submit (hp_client p) request) (\<lambda>job_id.
       e_ret \<lparr>jr_provider = JStr ''harmony'', jr_job_id = Some job_id,
              jr_job_url = hc_status_url (hp_client p) job_id, jr_job_handle = None\<rparr>))"

section \<open>Poll and cancel\<close>

text \<open>\<open>_UUID_RE.match\<close>, ignoring case; \<open>$\<close> also matches before a final line break.\<close>

definition hex_char :: "char \<Rightarrow> bool" where
  "hex_char c \<longleftrightarrow> is_digit c \<or> lower_char c \<in> set ''abcdef''"

definition is_uuid :: "string \<Rightarrow> bool" where
  "is_uuid s =
     (let t = (if s \<noteq> [] \<and> last s = CHR 0x0A then butlast s else s) in
      length t = 36 \<and>
      list_all (\<lambda>(i, c). if i \<in> {8, 13, 18, 23} then c = CHR ''-'' else hex_char c) (zip [0..<36] t))"

definition uuid_of :: "job_ref \<Rightarrow> string option" where
  "uuid_of job = (case jr_job_id job of None \<Rightarrow> None | Some i \<Rightarrow> if is_uuid i then Some i else None)"

definition invalid_job_id :: "job_ref \<Rightarrow> exn" where
  "invalid_job_id job =
     ValueError (''invalid Harmony job ID '' @ (case jr_job_id job of None \<Rightarrow> ''None'' | Some i \<Rightarrow> py_repr i) @
       '': expected UUID; job was likely created by a test fixture'')"

definition STATUS_MAP :: "(string \<times> job_state) list" where
  "STATUS_MAP =
     [(''accepted'', SUBMITTED), (''running'', RUNNING), (''running_with_errors'', RUNNING), (''paused'', RUNNING),
      (''previewing'', RUNNING), (''successful'', READY), (''complete_with_errors'', READY), (''failed'', FAILED),
      (''canceled'', CANCELLED)]"

definition to_job_status :: "(json \<Rightarrow> string) \<Rightarrow> harmony_status \<Rightarrow> exn + job_status" where
  "to_job_status show_other raw =
     (let state = (case map_of STATUS_MAP (py_lower (hs_status raw)) of None \<Rightarrow> RUNNING | Some s \<Rightarrow> s) in
      s_bind (py_to_int (py_or (hs_progress raw) (JInt 0))) (\<lambda>progress.
        Inr \<lparr>st_state = state, st_progress = progress, st_message = hs_message raw,
             st_output_expires_at = hs_data_expiration raw,
             st_error = (if state \<noteq> FAILED then None
                         else if hs_errors raw \<noteq> [] then Some (py_join ''; '' (map (py_str show_other) (hs_errors raw)))
                         else hs_message raw)\<rparr>))"

definition harmony_poll :: "harmony_provider \<Rightarrow> job_ref \<Rightarrow> job_status op" where
  "harmony_poll p job =
     (case uuid_of job of
        None \<Rightarrow> e_raise (invalid_job_id job)
      | Some i \<Rightarrow> e_bind (hc_status (hp_client p) i) (\<lambda>raw. lift_sum (to_job_status (hp_show p) raw)))"

text \<open>Unknown upstream, or already over: exactly the two shapes harmony-py gives these answers.\<close>

definition already_gone :: "exn \<Rightarrow> bool" where
  "already_gone e =
     (case e of
        HttpStatusErr _ code _ \<Rightarrow> code = 404
      | PlainExn args \<Rightarrow> length args = 2
      | _ \<Rightarrow> False)"

definition harmony_cancel :: "harmony_provider \<Rightarrow> job_ref \<Rightarrow> unit op" where
  "harmony_cancel p job =
     (case uuid_of job of
        None \<Rightarrow> e_ret ()
      | Some i \<Rightarrow> e_catch (hc_cancel (hp_client p) i) (\<lambda>e. if already_gone e then e_ret () else e_raise e))"

section \<open>Materialize\<close>

definition HDF4_MEDIA_TYPE :: string where
  "HDF4_MEDIA_TYPE = ''application/x-hdf4''"

definition UNKNOWN_MEDIA_TYPE :: string where
  "UNKNOWN_MEDIA_TYPE = ''application/octet-stream''"

definition NATIVE_ARCHIVE_MEDIA_TYPE :: string where
  "NATIVE_ARCHIVE_MEDIA_TYPE = ''application/x-native-archive+zip''"

definition EXT_MEDIA_TYPES :: "(string \<times> string) list" where
  "EXT_MEDIA_TYPES =
     [(''.nc'', ''application/netcdf4''), (''.nc4'', ''application/netcdf4''), (''.h5'', ''application/netcdf4''),
      (''.hdf5'', ''application/netcdf4'')]"

definition MAGIC_PREFIX_BYTES :: nat where
  "MAGIC_PREFIX_BYTES = 16"

definition read_magic :: "string \<Rightarrow> string" where
  "read_magic content = take MAGIC_PREFIX_BYTES content"

text \<open>\<open>Path(name).suffix\<close>.\<close>

definition path_suffix :: "string \<Rightarrow> string" where
  "path_suffix name =
     (let ext = after_last (CHR ''.'') name in
      if CHR ''.'' \<notin> set name \<or> ext = [] \<or> length ext + 1 \<ge> length name then [] else CHR ''.'' # ext)"

definition media_type_for :: "(string \<Rightarrow> string option) \<Rightarrow> string \<Rightarrow> string \<Rightarrow> string" where
  "media_type_for guess name data =
     (let detected = sniff_format data in
      if detected = ''hdf4'' then HDF4_MEDIA_TYPE
      else if detected \<notin> NETCDF_FAMILY_FORMATS then UNKNOWN_MEDIA_TYPE
      else case guess name of
             Some t \<Rightarrow> t
           | None \<Rightarrow> (case map_of EXT_MEDIA_TYPES (py_lower (path_suffix name)) of
                        Some t \<Rightarrow> t | None \<Rightarrow> ''application/octet-stream''))"

definition granule_ids :: "(string \<times> string) list \<Rightarrow> json" where
  "granule_ids files = JArr (map JStr (sort (map fst files)))"

definition download_all :: "harmony_provider \<Rightarrow> job_ref \<Rightarrow> (string \<times> string) list op" where
  "download_all p job =
     (case uuid_of job of
        None \<Rightarrow> e_raise (invalid_job_id job)
      | Some i \<Rightarrow>
          e_bind (hc_download_all (hp_client p) i) (\<lambda>files.
            if files = [] then e_raise (RuntimeError (''Harmony job '' @ i @ '' produced no result files''))
            else e_ret files))"

text \<open>How many members have each format.\<close>

definition count_formats :: "(string \<times> string) list \<Rightarrow> (string \<times> nat) list" where
  "count_formats files =
     fold (\<lambda>(n, content) d. let f = sniff_format (read_magic content) in
              AList.update f (case map_of d f of None \<Rightarrow> 1 | Some k \<Rightarrow> Suc k) d) files []"

definition bundle_media_type :: "(string \<times> nat) list \<Rightarrow> string" where
  "bundle_media_type formats =
     (if list_all (\<lambda>(f, k). f \<in> NETCDF_FAMILY_FORMATS) formats then NETCDF_BUNDLE_MEDIA_TYPE else NATIVE_ARCHIVE_MEDIA_TYPE)"

definition store_result :: "harmony_provider \<Rightarrow> string \<Rightarrow> (string \<times> string) list \<Rightarrow> materialized_result op" where
  "store_result p handle files =
     (case files of
        [(name, content)] \<Rightarrow>
          let key = ''harmony/'' @ handle @ ''/'' @ name in
          e_seq (op_put_blob key content)
            (e_ret \<lparr>mr_storage_key = key, mr_media_type = media_type_for (hp_guess_type p) name (read_magic content),
                    mr_size_bytes = Some (int (length content)), mr_extra = [(''granule_ids'', granule_ids files)]\<rparr>)
      | _ \<Rightarrow>
          let key = ''harmony/'' @ handle @ ''/result.nc.zip''; bundle = hp_zip p files; formats = count_formats files in
          e_seq (op_put_blob key bundle)
            (e_ret \<lparr>mr_storage_key = key, mr_media_type = bundle_media_type formats,
                    mr_size_bytes = Some (int (length bundle)),
                    mr_extra = [(''granule_count'', JInt (int (length files))),
                                (''uncompressed_bytes'', JInt (int (sum_list (map (length \<circ> snd) files)))),
                                (''detected_formats'', JObj (map (\<lambda>(f, k). (f, JInt (int k))) formats)),
                                (''granule_ids'', granule_ids files)]\<rparr>))"

definition harmony_materialize :: "harmony_provider \<Rightarrow> job_ref \<Rightarrow> materialized_result op" where
  "harmony_materialize p job =
     (let handle = (if or_empty (jr_job_handle job) \<noteq> [] then or_empty (jr_job_handle job)
                    else if or_empty (jr_job_id job) \<noteq> [] then or_empty (jr_job_id job) else ''result'')
      in e_bind (download_all p job) (store_result p handle))"

definition harmony_ops :: "harmony_provider \<Rightarrow> retrieval_provider" where
  "harmony_ops p = \<lparr>pv_submit = harmony_submit p, pv_poll = harmony_poll p, pv_materialize = harmony_materialize p\<rparr>"

section \<open>The provider in the worker\<close>

text \<open>A client that reaches none of the server's tables.\<close>

definition client_aside :: "harmony_client \<Rightarrow> bool" where
  "client_aside c \<longleftrightarrow>
     (\<forall>r. keeps same_tables (hc_submit c r)) \<and> (\<forall>i. keeps same_tables (hc_status c i))
     \<and> (\<forall>i. keeps same_tables (hc_cancel c i)) \<and> (\<forall>i. keeps same_tables (hc_download_all c i))"

lemma tables_harmony:
  assumes "client_aside (hp_client p)"
  shows "keeps same_tables (harmony_submit p plan)" "keeps same_tables (harmony_poll p job)"
    "keeps same_tables (harmony_cancel p job)" "keeps same_tables (download_all p job)"
  unfolding harmony_submit_def harmony_poll_def harmony_cancel_def download_all_def
  using assms by (auto simp: client_aside_def intro!: keeps_tables split: option.splits)

lemma evolves_store_result: "keeps evolves (store_result p h files)"
  unfolding store_result_def Let_def by (auto intro!: keeps_evolves evolves_put_blob split: list.splits)

lemma harmony_evolves: "client_aside (hp_client p) \<Longrightarrow> provider_evolves (harmony_ops p)"
  unfolding provider_evolves_def harmony_ops_def harmony_materialize_def Let_def
  by (auto intro!: keeps_evolves evolves_store_result tables_harmony [THEN keeps_tables_evolves])

section \<open>One service, and a window of some width\<close>

lemma submitted_service_cases:
  "case submitted_service p plan of
     Some s \<Rightarrow> s \<in> set (cc_services (hp_caps p)) \<and> serves s plan
            \<or> cc_services (hp_caps p) = [] \<and> s = hinted_service (hp_service_name_hint p)
   | None \<Rightarrow> \<forall>s \<in> set (cc_services (hp_caps p)). \<not> serves s plan"
proof (cases "find_service (hp_caps p) plan")
  case None
  then show ?thesis using None [unfolded find_service_None_iff] by (simp add: submitted_service_def)
next
  case (Some s)
  then obtain before after where "cc_services (hp_caps p) = before @ s # after" "serves s plan"
    using Some [unfolded find_service_Some_iff] by blast
  then show ?thesis using Some by (simp add: submitted_service_def)
qed

lemma harmony_window_wide:
  assumes "harmony_window r = Inr (a, b)" and "valid_dt (tr_start r)"
  shows "a = tr_start r \<and> instant a < instant b \<and> (instant (tr_start r) < instant (tr_end r) \<longrightarrow> b = tr_end r)"
proof -
  obtain n where n: "dt_minus (tr_end r) (tr_start r) = Inr n"
    using assms(1) by (auto simp: harmony_window_def sum_simps)
  have i: "n = instant (tr_end r) - instant (tr_start r)" by (rule dt_minus_instant [OF n])
  show ?thesis
  proof (cases "n \<le> 0")
    case True
    then have "dt_plus (tr_start r) 1000000 = Inr b" "a = tr_start r"
      using assms(1) n by (auto simp: harmony_window_def sum_simps)
    then show ?thesis using dt_plus_instant [of "tr_start r" 1000000 b] assms(2) i True by simp
  next
    case False
    then show ?thesis using assms(1) n i by (simp add: harmony_window_def)
  qed
qed

text \<open>The request names at most the one service that does everything, and asks for no empty window.\<close>

lemma build_request_exact:
  assumes "build_request p plan (submitted_service p plan) = Inr q"
    and "\<And>r. rp_time_range plan = Some r \<Longrightarrow> valid_dt (tr_start r)"
  shows "(case hq_service_id q of
            Some n \<Rightarrow> (\<exists>s \<in> set (cc_services (hp_caps p)). serves s plan \<and> sv_name s = n)
                     \<or> cc_services (hp_caps p) = [] \<and> n = hp_service_name_hint p
          | None \<Rightarrow> \<forall>s \<in> set (cc_services (hp_caps p)). \<not> serves s plan)
    \<and> (hq_concatenate q \<longrightarrow> (\<exists>s \<in> set (cc_services (hp_caps p)). serves s plan \<and> sv_concatenate s))
    \<and> (\<forall>a b. hq_temporal q = Some (a, b) \<longrightarrow> instant a < instant b)"
proof -
  have svc: "hq_service_id q = map_option sv_name (submitted_service p plan)"
    "hq_concatenate q = (case submitted_service p plan of None \<Rightarrow> False | Some s \<Rightarrow> sv_concatenate s)"
    using assms(1) by (auto simp: build_request_def sum_simps Let_def)
  have "instant a < instant b" if "hq_temporal q = Some (a, b)" for a b
    using assms that harmony_window_wide
    by (auto simp: build_request_def sum_simps Let_def split: option.splits)
  then show ?thesis
    using submitted_service_cases [of p plan] svc
    by (cases "submitted_service p plan") (auto simp: hinted_service_def)
qed

section \<open>Media types tell the truth\<close>

lemma startswith_take: "length pre \<le> n \<Longrightarrow> py_startswith (take n s) pre = py_startswith s pre"
  by (simp add: py_startswith_def min_absorb1)

text \<open>A short header classifies a file as well as the whole of it.\<close>

lemma sniff_read_magic: "sniff_format (read_magic content) = sniff_format content"
  by (simp add: sniff_format_def read_magic_def MAGIC_PREFIX_BYTES_def HDF5_MAGIC_def HDF4_MAGIC_def
      NETCDF_CLASSIC_MAGICS_def startswith_take)

definition netcdf_family :: "string \<Rightarrow> bool" where
  "netcdf_family content \<longleftrightarrow> sniff_format content \<in> NETCDF_FAMILY_FORMATS"

lemma count_formats_step:
  "fst ` set (fold (\<lambda>(n, content) d. let f = sniff_format (read_magic content) in
              AList.update f (case map_of d f of None \<Rightarrow> 1 | Some k \<Rightarrow> Suc k) d) files d)
   = fst ` set d \<union> (\<lambda>(n, content). sniff_format content) ` set files"
  by (induction files arbitrary: d) (auto simp: Let_def sniff_read_magic dom_update image_image split: prod.splits)

lemma bundle_media_type_honest:
  "bundle_media_type (count_formats files) = NETCDF_BUNDLE_MEDIA_TYPE \<longleftrightarrow> (\<forall>(n, content) \<in> set files. netcdf_family content)"
proof -
  have "list_all (\<lambda>(f, k). f \<in> NETCDF_FAMILY_FORMATS) (count_formats files)
      \<longleftrightarrow> fst ` set (count_formats files) \<subseteq> NETCDF_FAMILY_FORMATS"
    by (auto simp: list_all_iff)
  also have "\<dots> \<longleftrightarrow> (\<forall>(n, content) \<in> set files. netcdf_family content)"
    unfolding count_formats_def count_formats_step by (auto simp: netcdf_family_def)
  finally show ?thesis
    by (simp add: bundle_media_type_def NETCDF_BUNDLE_MEDIA_TYPE_def NATIVE_ARCHIVE_MEDIA_TYPE_def)
qed

lemma media_type_honest:
  "\<not> netcdf_family content \<Longrightarrow>
     media_type_for guess name (read_magic content) = (if sniff_format content = ''hdf4'' then HDF4_MEDIA_TYPE else UNKNOWN_MEDIA_TYPE)"
  by (simp add: media_type_for_def sniff_read_magic netcdf_family_def Let_def)

definition told_honestly :: "harmony_provider \<Rightarrow> (string \<times> string) list \<Rightarrow> materialized_result \<Rightarrow> string \<Rightarrow> bool" where
  "told_honestly p files r stored \<longleftrightarrow>
     (case files of
        [(name, content)] \<Rightarrow>
          stored = content
          \<and> (\<not> netcdf_family content \<longrightarrow>
               mr_media_type r = (if sniff_format content = ''hdf4'' then HDF4_MEDIA_TYPE else UNKNOWN_MEDIA_TYPE))
      | _ \<Rightarrow>
          stored = hp_zip p files
          \<and> (mr_media_type r = NETCDF_BUNDLE_MEDIA_TYPE \<longleftrightarrow> (\<forall>(n, content) \<in> set files. netcdf_family content)))"

lemma store_result_wp:
  "wp_partial (store_result p h files)
     (\<lambda>r w. \<exists>stored. local_get (w_root w) (w_files w) (mr_storage_key r) = Inr stored
        \<and> mr_size_bytes r = Some (int (length stored)) \<and> told_honestly p files r stored
        \<and> jget (mr_extra r) ''granule_ids'' = JArr (map JStr (sort (map fst files)))) w"
proof (cases "\<exists>name content. files = [(name, content)]")
  case True
  then obtain name content where f: "files = [(name, content)]" by blast
  show ?thesis
    unfolding store_result_def f list.case prod.case Let_def
    by (rule wp_seq_post [OF put_blob_stores])
      (auto simp: wp_ret told_honestly_def media_type_honest granule_ids_def)
next
  case False
  then have "store_result p h files =
      (let key = ''harmony/'' @ h @ ''/result.nc.zip''; bundle = hp_zip p files; formats = count_formats files in
          e_seq (op_put_blob key bundle)
            (e_ret \<lparr>mr_storage_key = key, mr_media_type = bundle_media_type formats,
                    mr_size_bytes = Some (int (length bundle)),
                    mr_extra = [(''granule_count'', JInt (int (length files))),
                                (''uncompressed_bytes'', JInt (int (sum_list (map (length \<circ> snd) files)))),
                                (''detected_formats'', JObj (map (\<lambda>(f, k). (f, JInt (int k))) formats)),
                                (''granule_ids'', granule_ids files)]\<rparr>))"
    by (auto simp: store_result_def split: list.splits)
  moreover have "told_honestly p files r (hp_zip p files) \<longleftrightarrow>
      (mr_media_type r = NETCDF_BUNDLE_MEDIA_TYPE \<longleftrightarrow> (\<forall>(n, content) \<in> set files. netcdf_family content))" for r
    using False by (auto simp: told_honestly_def split: list.splits)
  ultimately show ?thesis
    unfolding Let_def
    by (simp only:) (rule wp_seq_post [OF put_blob_stores], simp add: wp_ret bundle_media_type_honest granule_ids_def)
qed

text \<open>
  C23: a Harmony result is stored whole under an honest name: what is stored is the one file the job
  delivered, or the archive of all of them; its size and the sorted names of the granules are recorded;
  bytes that are not of the netCDF family never get a netCDF media type, and a bundle is called netCDF
  exactly when every member is; a job without a valid id or without files yields no result at all.
\<close>

theorem harmony_delivers_honestly:
  assumes "harmony_materialize p job w = (Inr r, w')"
  shows "\<exists>i files w1 stored. uuid_of job = Some i \<and> hc_download_all (hp_client p) i w = (Inr files, w1) \<and> files \<noteq> []
    \<and> local_get (w_root w') (w_files w') (mr_storage_key r) = Inr stored
    \<and> mr_size_bytes r = Some (int (length stored)) \<and> told_honestly p files r stored
    \<and> jget (mr_extra r) ''granule_ids'' = JArr (map JStr (sort (map fst files)))"
proof -
  obtain files w1 h where d: "download_all p job w = (Inr files, w1)" and s: "store_result p h files w1 = (Inr r, w')"
    using assms by (auto simp: harmony_materialize_def Let_def e_bind_run split: prod.splits sum.splits)
  obtain i where i: "uuid_of job = Some i" "hc_download_all (hp_client p) i w = (Inr files, w1)" "files \<noteq> []"
    using d by (auto simp: download_all_def e_bind_run e_ret_run e_raise_run
        split: option.splits prod.splits sum.splits if_splits)
  show ?thesis using wpD [OF store_result_wp s] i by auto
qed

definition sample_client :: harmony_client where
  "sample_client =
     \<lparr>hc_submit = (\<lambda>r. e_ret ''6e05d1a6-93a1-4d5c-a3f7-0123456789ab''),
      hc_status = (\<lambda>i. e_ret \<lparr>hs_status = ''successful'', hs_progress = JInt 100, hs_message = None,
                                 hs_data_expiration = None, hs_errors = []\<rparr>),
      hc_cancel = (\<lambda>i. e_ret ()),
      hc_download_all = (\<lambda>i. e_ret [(''b.nc4'', HDF5_MAGIC), (''a.hdf'', HDF4_MAGIC)]), hc_status_url = (\<lambda>i. None)\<rparr>"

definition sample_harmony :: harmony_provider where
  "sample_harmony =
     \<lparr>hp_caps = sample_caps, hp_service_name_hint = JNull, hp_client = sample_client, hp_show = (\<lambda>x. []),
      hp_guess_type = (\<lambda>n. None), hp_zip = (\<lambda>ms. concat (map snd ms))\<rparr>"

definition sample_harmony_job :: job_ref where
  "sample_harmony_job =
     \<lparr>jr_provider = JStr ''harmony'', jr_job_id = Some ''6e05d1a6-93a1-4d5c-a3f7-0123456789ab'', jr_job_url = None,
      jr_job_handle = Some ''job_1''\<rparr>"

lemma sample_harmony_materializes:
  "case fst (harmony_materialize sample_harmony sample_harmony_job initial_world) of Inl e \<Rightarrow> False | Inr r \<Rightarrow> True"
  by code_simp

lemma harmony_delivers_honestly_witness:
  "\<exists>r w'. harmony_materialize sample_harmony sample_harmony_job initial_world = (Inr r, w')
     \<and> jget (mr_extra r) ''granule_ids'' = JArr [JStr ''a.hdf'', JStr ''b.nc4'']
     \<and> mr_media_type r \<noteq> NETCDF_BUNDLE_MEDIA_TYPE"
proof -
  obtain r w' where m: "harmony_materialize sample_harmony sample_harmony_job initial_world = (Inr r, w')"
    using sample_harmony_materializes by (auto split: sum.splits) (metis prod.collapse)
  from harmony_delivers_honestly [OF m] obtain i files w1 stored where d:
      "hc_download_all (hp_client sample_harmony) i initial_world = (Inr files, w1)"
      "told_honestly sample_harmony files r stored"
      "jget (mr_extra r) ''granule_ids'' = JArr (map JStr (sort (map fst files)))" by blast
  have f: "files = [(''b.nc4'', HDF5_MAGIC), (''a.hdf'', HDF4_MAGIC)]"
    using d(1) by (simp add: sample_harmony_def sample_client_def e_ret_run)
  have "\<not> netcdf_family HDF4_MAGIC" by code_simp
  then have "mr_media_type r \<noteq> NETCDF_BUNDLE_MEDIA_TYPE" using d(2) by (simp add: told_honestly_def f)
  moreover have "sort (map fst files) = [''a.hdf'', ''b.nc4'']" unfolding f by code_simp
  ultimately show ?thesis using d(3) m by auto
qed

end
