(* ===== verification/Reuse.thy ===== *)
theory Reuse
  imports Harmony
begin

text \<open>
  Idempotent retrieval (\<open>tools/retrieval.py\<close>, second half): the identity scope of a signature, the lookup
  of an equal earlier request, what is answered for a match, the promotion of a prefetched result, the
  durable replay of an evicted one and the wait of a caller that lost the race for a signature. What other
  processes do while such a caller sleeps is the operation \<open>rt_sleep\<close> of the environment. Logging is left
  out.
\<close>

section \<open>Environment\<close>

text \<open>
  The settings and collaborators of the tools. \<open>rt_catalog_cache\<close> are the AppEEARS products this process has
  already confirmed.
\<close>

record retrieval_env =
  rt_platform :: platform
  rt_credential_key :: string
  rt_edl_username :: string
  rt_earthdata_token :: string
  rt_read_float :: "string \<Rightarrow> rat option"
  rt_show_time :: "time \<Rightarrow> string"
  rt_fromstring :: "string \<Rightarrow> element option"
  rt_cmr :: "string option \<Rightarrow> cmr_provider"
  rt_harmony :: "capabilities \<Rightarrow> json \<Rightarrow> string option \<Rightarrow> harmony_provider"
  rt_appeears :: "capabilities \<Rightarrow> string option \<Rightarrow> appeears_provider"
  rt_opendap :: opendap_provider
  rt_s3_direct_enabled :: bool
  rt_aws_region :: "string option"
  rt_aws_default_region :: "string option"
  rt_catalog_cache :: "string set"
  rt_sleep :: "unit op"

definition retrieval_response :: "json \<Rightarrow> json \<Rightarrow> json \<Rightarrow> json \<Rightarrow> dict" where
  "retrieval_response job_h obs_h status provider =
     [(''job_handle'', job_h), (''obs_handle'', obs_h), (''status'', status), (''provider'', provider)]"

section \<open>The scope of a signature\<close>

definition reuse_identity_scope ::
  "retrieval_env \<Rightarrow> capabilities \<Rightarrow> json \<Rightarrow> edl_identity option \<Rightarrow> json op" where
  "reuse_identity_scope rt caps concept_id identity =
     e_bind (if cc_access_restricted caps = Some True then e_ret (Some True)
             else e_bind (op_text concept_id) (\<lambda>cid.
               e_bind (e_read (\<lambda>w. Inr (collection_restriction (w_access w) cid))) (\<lambda>flagged.
                 e_ret (if flagged = Some True then Some True else cc_access_restricted caps))))
       (\<lambda>restricted.
       if restricted = Some False then e_ret JNull
       else case identity of
              Some i \<Rightarrow> e_ret (scope_key (rt_platform rt) i)
            | None \<Rightarrow> op_service_scope (rt_platform rt) (rt_edl_username rt) (rt_earthdata_token rt))"

section \<open>Promotion and replay\<close>

definition promote_if_speculative :: "string \<Rightarrow> handle_row \<Rightarrow> unit op" where
  "promote_if_speculative ws match =
     (if \<not> truthy (jget (h_payload match) ''speculative'') then e_ret ()
      else
        e_bind (op_update_handle ws (h_handle match) [(''speculative'', JBool False)]) (\<lambda>_.
          op_record_event ws (h_handle match) E_PROMOTED
            [(''from'', JStr ''speculative''), (''reason'', JStr ''matched_by_user_request'')]))"

definition credential_of :: "retrieval_env \<Rightarrow> string option \<Rightarrow> exn + string option" where
  "credential_of rt edl_token =
     (case edl_token of
        None \<Rightarrow> Inr None
      | Some t \<Rightarrow> if t = [] then Inr None
                  else s_bind (encrypt_credential (rt_platform rt) (rt_credential_key rt) t) (\<lambda>c. Inr (Some c)))"

definition reenqueue_replay :: "retrieval_env \<Rightarrow> string \<Rightarrow> string \<Rightarrow> job \<Rightarrow> string option \<Rightarrow> dict op" where
  "reenqueue_replay rt handle ws job edl_token =
     e_bind draw_token (\<lambda>new_job_id.
     e_bind (op_put_handle ws JOB [(''obs_handle'', JStr handle)]) (\<lambda>new_job_handle.
     e_bind (op_update_handle ws handle [(''status'', JStr ''pending'')]) (\<lambda>_.
     e_bind (lift_sum (credential_of rt edl_token)) (\<lambda>cred.
     e_seq (op_create_job new_job_id new_job_handle (Some handle) (j_provider job) (j_request_spec job) cred False)
     (e_seq (op_record_event ws handle E_RE_MATERIALIZED
               [(''job_handle'', JStr new_job_handle), (''previous_job_handle'', JStr (j_handle job))])
     (e_seq (op_enqueue ''submit_job'' new_job_id None None)
       (e_ret (retrieval_response (JStr new_job_handle) (JStr handle) (JStr (state_value PENDING)) (JStr (j_provider job))))))))))"

section \<open>The answer for a match\<close>

text \<open>
  A job that cannot deliver any more. The code also takes a handle whose job is \<open>ready\<close> or \<open>expired\<close> while
  its payload still says \<open>pending\<close> for one in flight.
\<close>

definition dead_job :: "job option \<Rightarrow> bool" where
  "dead_job job = (case job of None \<Rightarrow> True | Some j \<Rightarrow> j_state j = FAILED \<or> j_state j = CANCELLED)"

definition match_result ::
  "retrieval_env \<Rightarrow> string \<Rightarrow> handle_row \<Rightarrow> job option \<Rightarrow> string option \<Rightarrow> dict option op" where
  "match_result rt ws match job edl_token =
     (let status = jget (h_payload match) ''status''; obs_h = JStr (h_handle match) in
      if status = JStr ''expired'' then
        (case job of
           None \<Rightarrow> e_ret None
         | Some j \<Rightarrow> e_bind (reenqueue_replay rt (h_handle match) ws j edl_token) (\<lambda>r. e_ret (Some r)))
      else if status = JStr ''ready'' then
        e_ret (Some (case job of
                       None \<Rightarrow> retrieval_response JNull obs_h status JNull
                     | Some j \<Rightarrow> retrieval_response (JStr (j_handle j)) obs_h status (JStr (j_provider j))))
      else
        (case job of
           None \<Rightarrow> e_ret None
         | Some j \<Rightarrow>
             if dead_job job then e_ret None
             else e_ret (Some (retrieval_response (JStr (j_handle j)) obs_h (py_or status (JStr ''unknown'')) (JStr (j_provider j))))))"

definition reuse_response_for_match ::
  "retrieval_env \<Rightarrow> string \<Rightarrow> handle_row \<Rightarrow> string \<Rightarrow> string option \<Rightarrow> dict option op" where
  "reuse_response_for_match rt ws match signature edl_token =
     e_seq (promote_if_speculative ws match)
     (e_bind (e_read (\<lambda>w. Inr (get_job_by_obs_handle (w_jobs w) (h_handle match)))) (\<lambda>job.
      e_bind (match_result rt ws match job edl_token) (\<lambda>found.
        case found of
          None \<Rightarrow> e_ret None
        | Some r \<Rightarrow>
            e_seq (op_record_event ws (h_handle match) E_REUSED
                     [(''signature'', JStr signature), (''status'', jget (h_payload match) ''status'')])
              (e_ret (Some (r @ [(''reused'', JBool True)]))))))"

definition check_reuse :: "retrieval_env \<Rightarrow> string \<Rightarrow> string \<Rightarrow> string option \<Rightarrow> dict option op" where
  "check_reuse rt ws signature edl_token =
     e_bind (op_find_handle ws OBS ''signature'' signature) (\<lambda>match.
       case match of
         None \<Rightarrow> e_ret None
       | Some m \<Rightarrow> reuse_response_for_match rt ws m signature edl_token)"

definition RACE_RETRY_ATTEMPTS :: nat where
  "RACE_RETRY_ATTEMPTS = 20"

fun race_attempts :: "unit op \<Rightarrow> dict option op \<Rightarrow> nat \<Rightarrow> dict option op" where
  "race_attempts sleep attempt 0 = e_ret None"
| "race_attempts sleep attempt (Suc n) =
     e_bind attempt (\<lambda>reused.
       case reused of
         Some r \<Rightarrow> e_ret (Some r)
       | None \<Rightarrow> e_seq (e_when (0 < n) sleep) (race_attempts sleep attempt n))"

definition await_reuse_after_conflict ::
  "retrieval_env \<Rightarrow> string \<Rightarrow> handle_row \<Rightarrow> string \<Rightarrow> string option \<Rightarrow> dict option op" where
  "await_reuse_after_conflict rt ws match signature edl_token =
     race_attempts (rt_sleep rt) (reuse_response_for_match rt ws match signature edl_token) RACE_RETRY_ATTEMPTS"

section \<open>What every answer keeps\<close>

lemma keeps_promote: "keeps evolves (promote_if_speculative ws m)"
  unfolding promote_if_speculative_def by (intro keeps_evolves keeps_runtime)

lemma keeps_replay: "keeps evolves (reenqueue_replay rt h ws j t)"
  unfolding reenqueue_replay_def by (intro keeps_evolves keeps_runtime)

lemma keeps_match_result: "keeps evolves (match_result rt ws m job t)"
  unfolding match_result_def Let_def by (auto intro!: keeps_evolves keeps_replay split: option.splits)

lemma keeps_reuse_response: "keeps evolves (reuse_response_for_match rt ws m sig t)"
  unfolding reuse_response_for_match_def
  by (intro keeps_evolves keeps_runtime keeps_promote keeps_match_result)

lemma keeps_check_reuse: "keeps evolves (check_reuse rt ws sig t)"
  unfolding check_reuse_def by (intro keeps_evolves keeps_runtime keeps_reuse_response)

lemma keeps_race_attempts: "keeps evolves sleep \<Longrightarrow> keeps evolves m \<Longrightarrow> keeps evolves (race_attempts sleep m n)"
  by (induction n) (auto intro!: keeps_evolves)

lemma keeps_await: "keeps evolves (rt_sleep rt) \<Longrightarrow> keeps evolves (await_reuse_after_conflict rt ws m sig t)"
  unfolding await_reuse_after_conflict_def by (intro keeps_race_attempts keeps_reuse_response)

section \<open>Jobs and queue\<close>

text \<open>Worlds with the same jobs and the same queue.\<close>

definition same_work :: "world \<Rightarrow> world \<Rightarrow> bool" where
  "same_work w w' \<longleftrightarrow> w_jobs w' = w_jobs w \<and> w_queue w' = w_queue w"

interpretation work: state_preorder same_work
  by unfold_locales (auto simp: same_work_def)

lemma work_io:
  assumes "\<And>w a w'. f w = Inr (a, w') \<Longrightarrow> same_work w w'"
  shows "keeps same_work (e_io f)"
proof (rule keepsI)
  fix w
  obtain flt w1 where n: "next_io w = (flt, w1)" by fastforce
  have 1: "same_work w w1" using same_tables_next_io [OF n] by (simp add: same_work_def same_tables_def)
  show "same_work w (snd (e_io f w))"
    using 1 assms by (auto simp: e_io_def n split: io_fault.splits sum.splits intro: work.R_trans)
qed

lemma tables_work: "keeps same_tables m \<Longrightarrow> keeps same_work m"
  by (simp add: keeps_def same_tables_def same_work_def)

lemma work_ops:
  "keeps same_work (op_update_handle ws h p)" "keeps same_work (op_put_handle ws ht p)"
  "keeps same_work (op_put_handle_unique_signature ws ht p)" "keeps same_work (op_record_event ws h ty d)"
  "keeps same_work (op_record_edge ws a b c g)"
  unfolding op_update_handle_def op_put_handle_def op_put_handle_unique_signature_def op_record_event_def op_record_edge_def
  by (auto simp: same_work_def split: sum.splits intro!: work_io work.keeps_bind tables_work [OF tables_draw])

lemmas keeps_work = work.keeps_intros work_ops tables_work [OF tables_lift] tables_work [OF tables_read]
  tables_work [OF tables_draw] tables_runtime [THEN tables_work]

text \<open>A job just created, and the queue it is submitted through.\<close>

definition fresh_job ::
  "string \<Rightarrow> string \<Rightarrow> string \<Rightarrow> string \<Rightarrow> dict \<Rightarrow> string option \<Rightarrow> job \<Rightarrow> bool" where
  "fresh_job i h obs provider spec cred j \<longleftrightarrow>
     j_id j = i \<and> j_handle j = h \<and> j_obs_handle j = Some obs \<and> j_provider j = provider \<and> j_request_spec j = spec
     \<and> j_state j = PENDING \<and> j_credential_encrypted j = cred \<and> \<not> j_speculative j"

definition submit_task :: "string \<Rightarrow> task" where
  "submit_task i = \<lparr>q_name = ''submit_job'', q_job = i, q_id = None, q_defer = None\<rparr>"

definition created_from :: "world \<Rightarrow> job \<Rightarrow> world \<Rightarrow> bool" where
  "created_from w j w' \<longleftrightarrow> w_jobs w' = w_jobs w @ [j] \<and> w_queue w' = w_queue w"

definition queued_from :: "world \<Rightarrow> job \<Rightarrow> world \<Rightarrow> bool" where
  "queued_from w j w' \<longleftrightarrow> w_jobs w' = w_jobs w @ [j] \<and> w_queue w' = w_queue w @ [submit_task (j_id j)]"

lemma wp_work:
  assumes "keeps same_work m" and "same_work w0 w"
    and "\<And>a t. same_work w0 t \<Longrightarrow> wp_partial (f a) Q t"
  shows "wp_partial (e_bind m f) Q w"
  unfolding wp_bind
  by (rule wp_mono [OF wp_keeps [OF assms(1)]]) (auto intro: assms(3) work.R_trans [OF assms(2)])

lemma wp_create_fresh:
  assumes "same_work w0 w"
  shows "wp_partial (op_create_job i h (Some obs) p spec cred False)
    (\<lambda>_ t. \<exists>j. fresh_job i h obs p spec cred j \<and> created_from w0 j t) w"
  unfolding op_create_job_def
  by (rule wp_partial_io)
    (use assms in \<open>auto simp: create_job_def row_insert_def same_work_def fresh_job_def created_from_def
       dest: stepped_fields split: sum.splits if_splits\<close>)

lemma wp_created_event: "created_from w0 j w \<Longrightarrow> wp_partial (op_record_event ws h ty d) (\<lambda>_. created_from w0 j) w"
  unfolding op_record_event_def by (rule wp_partial_io) (auto simp: created_from_def dest: stepped_fields)

lemma wp_created_edge: "created_from w0 j w \<Longrightarrow> wp_partial (op_record_edge ws a b c g) (\<lambda>_. created_from w0 j) w"
  unfolding op_record_edge_def
  by (rule wp_partial_io) (auto simp: created_from_def dest: stepped_fields split: sum.splits)

lemma wp_queue_created:
  "created_from w0 j w \<Longrightarrow> j_id j = i \<Longrightarrow> wp_partial (op_enqueue ''submit_job'' i None None) (\<lambda>_. queued_from w0 j) w"
  unfolding op_enqueue_def
  by (rule wp_partial_io) (auto simp: created_from_def queued_from_def submit_task_def dest: stepped_fields)

lemma wp_replay:
  assumes "same_work w0 w"
  shows "wp_partial (reenqueue_replay rt h ws old t)
    (\<lambda>r w'. \<exists>j i jh cred. credential_of rt t = Inr cred \<and> fresh_job i jh h (j_provider old) (j_request_spec old) cred j
       \<and> queued_from w0 j w' \<and> r = retrieval_response (JStr jh) (JStr h) (JStr ''pending'') (JStr (j_provider old))) w"
  unfolding reenqueue_replay_def
  apply (rule wp_work [OF _ assms], intro keeps_work)
  apply (rule wp_work, intro keeps_work, assumption)
  apply (rule wp_work, intro keeps_work, assumption)
  apply (rule wp_bind_lift)
  apply (rule wp_seq_post [OF wp_create_fresh], assumption)
  apply clarify
  apply (rule wp_seq_post [OF wp_created_event], assumption)
  apply (rule wp_seq_post [OF wp_queue_created], assumption)
   apply (simp add: fresh_job_def)
  apply (auto simp: wp_ret)
  done

text \<open>A handle that is not, or no longer, speculative.\<close>

definition requested :: "string \<Rightarrow> string \<Rightarrow> world \<Rightarrow> bool" where
  "requested ws h w \<longleftrightarrow> (\<exists>row. get_handle (w_handles w) ws h = Inr row \<and> \<not> truthy (jget (h_payload row) ''speculative''))"

interpretation kept: state_preorder "\<lambda>w w'. requested ws h w \<longrightarrow> requested ws h w'" for ws h
  by unfold_locales auto

lemma requested_stepped: "stepped w w1 \<Longrightarrow> requested ws h w1 = requested ws h w"
  by (auto simp: requested_def dest: stepped_fields)

lemma requested_io:
  assumes "\<And>w a w'. f w = Inr (a, w') \<Longrightarrow> requested ws h w \<Longrightarrow> requested ws h w'"
  shows "keeps (\<lambda>w w'. requested ws h w \<longrightarrow> requested ws h w') (e_io f)"
proof (rule keepsI)
  fix w
  obtain flt w1 where n: "next_io w = (flt, w1)" by fastforce
  have 1: "requested ws h w1 = requested ws h w" by (rule requested_stepped [OF stepped_next_io [OF n]])
  show "requested ws h w \<longrightarrow> requested ws h (snd (e_io f w))"
    using 1 assms by (auto simp: e_io_def n split: io_fault.splits sum.splits)
qed

lemma requested_tables: "keeps same_tables m \<Longrightarrow> keeps (\<lambda>w w'. requested ws h w \<longrightarrow> requested ws h w') m"
  by (simp add: keeps_def same_tables_def requested_def)

lemma update_requested:
  assumes "update_handle now ws h p t = Inr (r, t')"
    and "jget (dict_merge (h_payload r0) p) ''speculative'' = v" and "get_handle t ws h = Inr r0"
  shows "\<exists>row. get_handle t' ws h = Inr row \<and> jget (h_payload row) ''speculative'' = v"
proof -
  from update_handle_Inr [OF assms(1)] obtain old where o: "get_handle t ws h = Inr old"
    "h_payload r = dict_merge (h_payload old) p" "r = old\<lparr>h_payload := h_payload r, h_updated_at := h_updated_at r\<rparr>"
    "t' = t \<and> r = old \<or> t' = row_put h_handle r t" by blast
  then have same: "old = r0" using assms(3) by simp
  have hw: "h_handle r = h" "h_workspace_id r = ws" using get_handle_mem [OF o(1)] by (subst o(3), simp)+
  have "get_handle t' ws h = Inr r"
    using o(4)
  proof
    assume "t' = row_put h_handle r t"
    then show ?thesis using o(1) hw by (auto simp: get_handle_Inr_iff row_of_handle_put)
  qed (use o(1) in simp)
  then show ?thesis using o(2) assms(2) same by auto
qed

lemma put_handle_requested:
  assumes "put_handle now tok ws' ty p (w_handles w) = Inr (a, t')" and "requested ws h w"
  shows "requested ws h (w\<lparr>w_handles := t'\<rparr>)"
proof -
  from assms(2) obtain row where row: "row_of_handle (w_handles w) h = Some row" "h_workspace_id row = ws"
    "\<not> truthy (jget (h_payload row) ''speculative'')" by (auto simp: requested_def get_handle_Inr_iff)
  have t': "t' = w_handles w @ [fresh_row now tok ws' ty p]"
    using assms(1) by (auto simp: put_handle_def dest!: insert_row_Inr split: sum.splits)
  have "row_of_handle t' h = Some row"
    unfolding t' using row(1) by (simp add: row_of_handle_def list_table.get_ins [unfolded row_insert_def])
  then show ?thesis using row(2,3) by (auto simp: requested_def get_handle_Inr_iff)
qed

lemma requested_ops:
  "keeps (\<lambda>w w'. requested ws h w \<longrightarrow> requested ws h w') (op_record_event ws' h' ty d)"
  "keeps (\<lambda>w w'. requested ws h w \<longrightarrow> requested ws h w') (op_create_job i jh obs p spec c sp)"
  "keeps (\<lambda>w w'. requested ws h w \<longrightarrow> requested ws h w') (op_enqueue nm i a df)"
  "keeps (\<lambda>w w'. requested ws h w \<longrightarrow> requested ws h w') (op_put_handle ws' ht q)"
  "keeps (\<lambda>w w'. requested ws h w \<longrightarrow> requested ws h w') (op_update_handle ws h [(''status'', st)])"
proof -
  show "keeps (\<lambda>w w'. requested ws h w \<longrightarrow> requested ws h w') (op_record_event ws' h' ty d)"
    unfolding op_record_event_def by (rule requested_io) (auto simp: requested_def)
  show "keeps (\<lambda>w w'. requested ws h w \<longrightarrow> requested ws h w') (op_create_job i jh obs p spec c sp)"
    unfolding op_create_job_def by (rule requested_io) (auto simp: requested_def split: sum.splits)
  show "keeps (\<lambda>w w'. requested ws h w \<longrightarrow> requested ws h w') (op_enqueue nm i a df)"
    unfolding op_enqueue_def by (rule requested_io) (auto simp: requested_def split: if_splits)
  show "keeps (\<lambda>w w'. requested ws h w \<longrightarrow> requested ws h w') (op_put_handle ws' ht q)"
    unfolding op_put_handle_def
    by (intro kept.keeps_bind requested_tables [OF tables_draw] requested_io)
      (auto split: sum.splits intro: put_handle_requested)
  show "keeps (\<lambda>w w'. requested ws h w \<longrightarrow> requested ws h w') (op_update_handle ws h [(''status'', st)])"
    unfolding op_update_handle_def
    by (rule requested_io)
      (auto simp: requested_def jget_dict_merge_other split: sum.splits dest!: update_requested [OF _ HOL.refl])
qed

lemma wp_promoted:
  assumes "truthy (jget (h_payload m) ''speculative'')"
  shows "wp_partial (promote_if_speculative ws m) (\<lambda>_. requested ws (h_handle m)) w"
proof -
  have up: "wp_partial (op_update_handle ws (h_handle m) [(''speculative'', JBool False)]) (\<lambda>_. requested ws (h_handle m)) w"
    unfolding op_update_handle_def
  proof (rule wp_partial_io)
    fix w1 w2 :: world and a
    assume "(case update_handle (w_now w1) ws (h_handle m) [(''speculative'', JBool False)] (w_handles w1) of
        Inl e \<Rightarrow> Inl e | Inr (r, t) \<Rightarrow> Inr (r, w1\<lparr>w_handles := t\<rparr>)) = Inr (a, w2)"
    then obtain t' where u: "update_handle (w_now w1) ws (h_handle m) [(''speculative'', JBool False)] (w_handles w1) = Inr (a, t')"
      and w2: "w2 = w1\<lparr>w_handles := t'\<rparr>" by (auto split: sum.splits)
    obtain old where old: "get_handle (w_handles w1) ws (h_handle m) = Inr old" using update_handle_Inr [OF u] by blast
    show "requested ws (h_handle m) w2"
      using update_requested [OF u HOL.refl old] w2 by (auto simp: requested_def jget_dict_merge)
  qed
  show ?thesis
    unfolding promote_if_speculative_def using assms
    by (simp only: not_True_eq_False if_False)
      (rule wp_bind_post [OF up], rule wp_mono [OF wp_keeps [OF requested_ops(1)]], auto)
qed

lemma keeps_requested_match: "keeps (\<lambda>w w'. requested ws (h_handle m) w \<longrightarrow> requested ws (h_handle m) w') (match_result rt ws m job t)"
  unfolding match_result_def reenqueue_replay_def Let_def
  by (auto intro!: kept.keeps_intros requested_ops requested_tables [OF tables_lift] requested_tables [OF tables_draw] split: option.splits)

section \<open>What a match is answered with\<close>

text \<open>
  The answer \<open>ans\<close> for a match \<open>m\<close> in the world \<open>w\<close>, leading to \<open>w'\<close>: a miss only where the handle has
  nothing alive behind it, and otherwise the work that exists, or one new job for an evicted result.
\<close>

definition answered ::
  "retrieval_env \<Rightarrow> handle_row \<Rightarrow> string option \<Rightarrow> world \<Rightarrow> dict option \<Rightarrow> world \<Rightarrow> bool" where
  "answered rt m token w ans w' \<longleftrightarrow>
     (let job = get_job_by_obs_handle (w_jobs w) (h_handle m); status = jget (h_payload m) ''status'' in
      case ans of
        None \<Rightarrow>
          same_work w w' \<and> status \<noteq> JStr ''ready'' \<and> (\<forall>j. job = Some j \<longrightarrow>
              status \<noteq> JStr ''expired'' \<and> j_state j \<in> {FAILED, CANCELLED})
      | Some r \<Rightarrow>
          jget r ''reused'' = JBool True \<and> jget r ''obs_handle'' = JStr (h_handle m)
          \<and> (if status = JStr ''expired''
             then \<exists>old j cred. job = Some old \<and> credential_of rt token = Inr cred
                    \<and> fresh_job (j_id j) (j_handle j) (h_handle m) (j_provider old) (j_request_spec old) cred j
                    \<and> queued_from w j w' \<and> jget r ''job_handle'' = JStr (j_handle j)
             else same_work w w' \<and> jget r ''job_handle'' = (case job of None \<Rightarrow> JNull | Some j \<Rightarrow> JStr (j_handle j))
                  \<and> (status = JStr ''ready'' \<or> (\<exists>j. job = Some j \<and> j_state j \<notin> {FAILED, CANCELLED}))))"

lemma response_fields:
  "jget (retrieval_response a b c d @ e) ''job_handle'' = a" "jget (retrieval_response a b c d @ e) ''obs_handle'' = b"
  "jget (retrieval_response a b c d @ [(''reused'', v)]) ''reused'' = v"
  by (simp_all add: retrieval_response_def)

definition reusable :: "retrieval_env \<Rightarrow> handle_row \<Rightarrow> string option \<Rightarrow> world \<Rightarrow> dict option \<Rightarrow> world \<Rightarrow> bool" where
  "reusable rt m token w ans w' \<longleftrightarrow> answered rt m token w (map_option (\<lambda>r. r @ [(''reused'', JBool True)]) ans) w'"

lemma wp_match_result:
  assumes "same_work w0 w" and "job = get_job_by_obs_handle (w_jobs w0) (h_handle m)"
  shows "wp_partial (match_result rt ws m job t) (reusable rt m t w0) w"
proof (cases "jget (h_payload m) ''status'' = JStr ''expired''")
  case True
  show ?thesis
  proof (cases job)
    case None
    then show ?thesis
      using assms True by (simp add: match_result_def wp_ret reusable_def answered_def)
  next
    case (Some old)
    show ?thesis
      unfolding match_result_def Let_def True Some option.case if_P [OF HOL.refl]
      by (rule wp_bind_post [OF wp_replay [OF assms(1)]])
        (use True Some assms(2) in \<open>auto simp: wp_ret reusable_def answered_def response_fields fresh_job_def\<close>)
  qed
next
  case False
  then show ?thesis
    using assms
    by (auto simp: match_result_def Let_def wp_ret reusable_def answered_def response_fields dead_job_def
        split: option.splits)
qed

lemma answered_work: "answered rt m t w ans w1 \<Longrightarrow> same_work w1 w2 \<Longrightarrow> answered rt m t w ans w2"
  by (auto simp: answered_def Let_def same_work_def queued_from_def split: option.splits if_splits)

lemma stepped_work: "stepped w w1 \<Longrightarrow> same_work w w1"
  by (simp add: same_work_def stepped_fields)

lemma wp_reuse_response: "wp_partial (reuse_response_for_match rt ws m sig t) (answered rt m t w) w"
proof -
  have event: "wp_partial (e_seq (op_record_event ws (h_handle m) E_REUSED d) (e_ret (Some (r @ [(''reused'', JBool True)]))))
      (answered rt m t w) w1" if "reusable rt m t w (Some r) w1" for d r w1
    unfolding wp_seq wp_ret
    by (rule wp_mono [OF wp_keeps [OF work_ops(4)]]) (use that in \<open>auto simp: reusable_def intro: answered_work\<close>)
  have promote: "keeps same_work (promote_if_speculative ws m)"
    unfolding promote_if_speculative_def by (intro keeps_work)
  show ?thesis
    unfolding reuse_response_for_match_def e_seq_def [of "promote_if_speculative ws m"]
  proof (rule wp_work [OF promote work.R_refl])
    fix a :: unit and w1
    assume w1: "same_work w w1"
    show "wp_partial (e_bind (e_read (\<lambda>w. Inr (get_job_by_obs_handle (w_jobs w) (h_handle m)))) (\<lambda>job.
      e_bind (match_result rt ws m job t) (\<lambda>found.
        case found of
          None \<Rightarrow> e_ret None
        | Some r \<Rightarrow>
            e_seq (op_record_event ws (h_handle m) E_REUSED
                     [(''signature'', JStr sig), (''status'', jget (h_payload m) ''status'')])
              (e_ret (Some (r @ [(''reused'', JBool True)])))))) (answered rt m t w) w1"
      unfolding wp_bind [of "e_read f" for f]
    proof (rule wp_partial_read)
      fix w2 job
      assume s: "stepped w1 w2" and "(Inr (get_job_by_obs_handle (w_jobs w2) (h_handle m)) :: exn + job option) = Inr job"
      then have job: "job = get_job_by_obs_handle (w_jobs w) (h_handle m)" and w2: "same_work w w2"
        using w1 stepped_work [OF s] by (auto simp: same_work_def)
      show "wp_partial (e_bind (match_result rt ws m job t) (\<lambda>found.
        case found of
          None \<Rightarrow> e_ret None
        | Some r \<Rightarrow>
            e_seq (op_record_event ws (h_handle m) E_REUSED
                     [(''signature'', JStr sig), (''status'', jget (h_payload m) ''status'')])
              (e_ret (Some (r @ [(''reused'', JBool True)]))))) (answered rt m t w) w2"
        by (rule wp_bind_post [OF wp_match_result [OF w2 job]])
          (auto simp: wp_ret reusable_def intro: event split: option.splits)
    qed
  qed
qed

lemma wp_response_requested:
  assumes "truthy (jget (h_payload m) ''speculative'')"
  shows "wp_partial (reuse_response_for_match rt ws m sig t) (\<lambda>_. requested ws (h_handle m)) w"
proof -
  have after: "keeps (\<lambda>w w'. requested ws (h_handle m) w \<longrightarrow> requested ws (h_handle m) w')
      (e_bind (e_read (\<lambda>w. Inr (get_job_by_obs_handle (w_jobs w) (h_handle m)))) (\<lambda>job.
      e_bind (match_result rt ws m job t) (\<lambda>found.
        case found of
          None \<Rightarrow> e_ret None
        | Some r \<Rightarrow>
            e_seq (op_record_event ws (h_handle m) E_REUSED
                     [(''signature'', JStr sig), (''status'', jget (h_payload m) ''status'')])
              (e_ret (Some (r @ [(''reused'', JBool True)]))))))"
    by (intro kept.keeps_intros requested_ops keeps_requested_match requested_tables [OF tables_read])
  show ?thesis
    unfolding reuse_response_for_match_def
    by (rule wp_seq_post [OF wp_promoted [OF assms]]) (rule wp_mono [OF wp_keeps [OF after]], auto)
qed


section \<open>Concrete calls\<close>

definition sample_appeears :: appeears_provider where
  "sample_appeears =
     \<lparr>ap_platform = sample_platform, ap_caps = sample_caps, ap_base = ''https://appeears'', ap_edl_token = None,
      ap_username = ''u'', ap_password = ''p'', ap_b64encode = (\<lambda>s. s), ap_to_parquet = Inr, ap_read_float = (\<lambda>s. None),
      ap_send = (\<lambda>m u h b. e_ret \<lparr>hr_status = 200, hr_json = Some (JObj [(''token'', JStr ''t'')]), hr_text = [],
                                   hr_headers = []\<rparr>)\<rparr>"

definition sample_retrieval :: retrieval_env where
  "sample_retrieval =
     \<lparr>rt_platform = sample_platform, rt_credential_key = ''key'', rt_edl_username = [], rt_earthdata_token = [],
      rt_read_float = (\<lambda>s. None), rt_show_time = (\<lambda>t. show_int t), rt_fromstring = (\<lambda>x. None),
      rt_cmr = (\<lambda>t. sample_cmr), rt_harmony = (\<lambda>c n t. sample_harmony), rt_appeears = (\<lambda>c t. sample_appeears),
      rt_opendap = sample_opendap, rt_s3_direct_enabled = False, rt_aws_region = None, rt_aws_default_region = None,
      rt_catalog_cache = {}, rt_sleep = e_ret ()\<rparr>"

text \<open>A workspace with one matching handle, of the given status, and the job behind it.\<close>

definition reuse_world :: "string \<Rightarrow> job_state \<Rightarrow> world" where
  "reuse_world status state = initial_world\<lparr>
     w_handles := [\<lparr>h_handle = ''obs_1'', h_workspace_id = ''ws'', h_type = OBS,
                    h_payload = [(''status'', JStr status), (''signature'', JStr ''sig''), (''speculative'', JBool True)],
                    h_created_at = 0, h_updated_at = 0, h_last_accessed_at = None\<rparr>],
     w_jobs := [sample_job\<lparr>j_handle := ''job_old'', j_state := state, j_credential_encrypted := None\<rparr>]\<rparr>"

lemma sample_reuse_evicted:
  "fst (check_reuse sample_retrieval ''ws'' ''sig'' (Some ''tok'') (reuse_world ''expired'' EXPIRED)) =
     Inr (Some [(''job_handle'', JStr ''job_1''), (''obs_handle'', JStr ''obs_1''), (''status'', JStr ''pending''),
                (''provider'', JStr ''harmony''), (''reused'', JBool True)])"
  by code_simp


text \<open>
  Two callers that both looked the evicted handle up before either replayed it each create a job: the
  unique index guards only the insertion of a handle, not the replay.
\<close>

lemma evicted_race_duplicates:
  "case e_bind (op_find_handle ''ws'' OBS ''signature'' ''sig'') (\<lambda>m1.
        e_bind (op_find_handle ''ws'' OBS ''signature'' ''sig'') (\<lambda>m2.
          e_seq (reuse_response_for_match sample_retrieval ''ws'' (the m1) ''sig'' None)
                (reuse_response_for_match sample_retrieval ''ws'' (the m2) ''sig'' None)))
       (reuse_world ''expired'' EXPIRED) of
     (r, w') \<Rightarrow> length (filter (\<lambda>j. j_state j = PENDING \<and> j_obs_handle j = Some ''obs_1'') (w_jobs w')) = 2"
  by code_simp

end
