(* ===== verification/JobTools.thy ===== *)
theory JobTools
  imports Reuse
begin

text \<open>
  The status and cancel tools (\<open>tools/retrieval.py\<close>): the answer for a job, the curated slice of its spec,
  the outcomes of a cancellation in the order the code decides them, and the best-effort cancellation at
  the provider that follows a local one. The lookup of a row and its transition to \<open>cancelled\<close> share one
  session and are one operation here. Logging is left out.
\<close>

section \<open>Status\<close>

fun PHASE_BY_STATE :: "job_state \<Rightarrow> string" where
  "PHASE_BY_STATE PENDING = ''queued''"
| "PHASE_BY_STATE SUBMITTED = ''queued at provider''"
| "PHASE_BY_STATE RUNNING = ''processing''"
| "PHASE_BY_STATE MATERIALIZING = ''materializing''"
| "PHASE_BY_STATE READY = ''ready''"
| "PHASE_BY_STATE FAILED = ''failed''"
| "PHASE_BY_STATE EXPIRED = ''expired''"
| "PHASE_BY_STATE CANCELLED = ''cancelled''"

definition NOT_FOUND_MESSAGE :: "string \<Rightarrow> string" where
  "NOT_FOUND_MESSAGE handle = ''no job found for handle '' @ py_repr handle"

definition ORPHANED_HANDLE_MESSAGE :: "string \<Rightarrow> string" where
  "ORPHANED_HANDLE_MESSAGE handle =
     ''handle '' @ py_repr handle @ '' exists in this workspace but has no job record behind it''"

definition ENRICHMENT_KEYS :: "string list" where
  "ENRICHMENT_KEYS = [''short_name'', ''variables'', ''aoi_bbox'', ''time_range'', ''provider'', ''output_format'']"

text \<open>\<open>len(x)\<close>.\<close>

definition py_len :: "json \<Rightarrow> exn + nat" where
  "py_len x =
     (case x of
        JArr xs \<Rightarrow> Inr (length xs) | JStr s \<Rightarrow> Inr (length s) | JObj d \<Rightarrow> Inr (length d)
      | _ \<Rightarrow> Inl (TypeError ''object has no len()''))"

definition granule_tally :: "nat \<Rightarrow> string \<Rightarrow> dict" where
  "granule_tally n source = [(''granule_count'', JInt (int n)), (''granule_count_source'', JStr source)]"

definition status_enrichment :: "dict \<Rightarrow> dict option \<Rightarrow> exn + dict" where
  "status_enrichment spec materialization =
     s_bind (materialization_from_jsonb materialization) (\<lambda>r.
     s_bind (case (case r of None \<Rightarrow> None | Some m \<Rightarrow> mz_granule_ids m) of
               Some ids \<Rightarrow> s_bind (py_frozenset ids) (\<lambda>s. Inr (granule_tally (length s) ''materialized''))
             | None \<Rightarrow>
                 if truthy (jget spec ''opendap_urls'')
                 then s_bind (py_len (jget spec ''opendap_urls'')) (\<lambda>n. Inr (granule_tally n ''planned''))
                 else Inr []) (\<lambda>tally.
       Inr (map (\<lambda>k. (k, jget spec k)) (filter (\<lambda>k. jget spec k \<noteq> JNull) ENRICHMENT_KEYS) @ tally)))"

text \<open>Whether the workspace can see the handle: an unknown one and another workspace's are alike.\<close>

definition handle_visible :: "string \<Rightarrow> string \<Rightarrow> bool op" where
  "handle_visible ws h =
     e_catch (e_bind (op_get_handle ws h) (\<lambda>_. e_ret True))
       (\<lambda>e. case e of HandleNotFoundError _ \<Rightarrow> e_ret False | CrossWorkspaceError _ \<Rightarrow> e_ret False | _ \<Rightarrow> e_raise e)"

definition require_job_handle :: "string \<Rightarrow> exn + unit" where
  "require_job_handle h =
     s_bind (handle_type_of h) (\<lambda>ht.
       if ht = JOB then Inr () else Inl (ValueError (''expected a job_ handle, got '' @ py_repr h)))"

definition missing_status :: "string \<Rightarrow> string \<Rightarrow> dict" where
  "missing_status h message = [(''job_handle'', JStr h), (''status'', JStr ''not_found''), (''message'', JStr message)]"

definition job_answer :: "retrieval_env \<Rightarrow> job \<Rightarrow> dict" where
  "job_answer rt job =
     [(''job_handle'', JStr (j_handle job)), (''obs_handle'', json_opt (j_obs_handle job)),
      (''status'', JStr (state_value (j_state job))), (''progress'', JInt (j_progress job)),
      (''phase'', JStr (PHASE_BY_STATE (j_state job))), (''message'', json_opt (j_message job)),
      (''error'', json_opt (j_error job)), (''submitted_at'', JStr (rt_show_time rt (j_created_at job))),
      (''last_polled_at'', JStr (rt_show_time rt (case j_last_polled_at job of None \<Rightarrow> j_updated_at job | Some t \<Rightarrow> t))),
      (''provider_job_url'', json_opt (j_provider_job_url job))]"

definition get_retrieval_status :: "retrieval_env \<Rightarrow> string \<Rightarrow> string \<Rightarrow> string option \<Rightarrow> dict op" where
  "get_retrieval_status rt job_handle ws edl_token =
     e_bind (op_parse_token (rt_platform rt) edl_token) (\<lambda>_.
     e_bind (lift_sum (require_job_handle job_handle)) (\<lambda>_.
     e_bind (handle_visible ws job_handle) (\<lambda>visible.
     if \<not> visible then e_ret (missing_status job_handle (NOT_FOUND_MESSAGE job_handle))
     else
     e_bind (e_read (\<lambda>w. Inr (get_job_by_handle (w_jobs w) job_handle))) (\<lambda>found.
     case found of
       None \<Rightarrow> e_ret (missing_status job_handle (ORPHANED_HANDLE_MESSAGE job_handle))
     | Some job \<Rightarrow>
         e_bind (lift_sum (status_enrichment (j_request_spec job) (j_materialization job))) (\<lambda>enrichment.
           e_ret (job_answer rt job @ enrichment))))))"

section \<open>Cancelling at the provider\<close>

text \<open>A stub of the capabilities, enough to construct a provider for its \<open>cancel\<close>.\<close>

definition cancel_capabilities :: "request_spec \<Rightarrow> capabilities" where
  "cancel_capabilities spec =
     \<lparr>cc_concept_id = py_or (rs_concept_id spec) (JStr []), cc_short_name = py_or (rs_short_name spec) (JStr []),
      cc_processing_level = [],
      cc_output_shape = (case py_or (rs_output_shape spec) (JStr ''grid'') of JStr s \<Rightarrow> s | _ \<Rightarrow> ''grid''),
      cc_native_formats = [], cc_direct_s3 = None, cc_services = [], cc_version = JNull, cc_spatial_extent = None,
      cc_capabilities_version = [], cc_advisory = [], cc_access_restricted = None\<rparr>"

definition default_cancel_provider :: "retrieval_env \<Rightarrow> request_spec \<Rightarrow> string option \<Rightarrow> exn + (job_ref \<Rightarrow> unit op)" where
  "default_cancel_provider rt spec edl_token =
     (let caps = cancel_capabilities spec in
      if rs_provider spec = JStr ''harmony'' then Inr (harmony_cancel (rt_harmony rt caps (rs_service_name spec) edl_token))
      else if rs_provider spec = JStr ''appeears'' then Inr (appeears_cancel (rt_appeears rt caps edl_token))
      else if rs_provider spec = JStr ''opendap'' then Inr opendap_cancel
      else Inl (ValueError ''no retrieval provider for spec provider''))"

definition attempt_provider_cancel ::
  "retrieval_env \<Rightarrow> string \<Rightarrow> string option \<Rightarrow> dict \<Rightarrow> string \<Rightarrow> string option \<Rightarrow> string op" where
  "attempt_provider_cancel rt provider_name url raw_spec job_handle edl_token =
     (if provider_name = ''opendap'' \<or> or_empty url = [] then e_ret ''unsupported''
      else
        case from_jsonb raw_spec of
          Inl (InvalidSpecError m) \<Rightarrow> e_ret ''error''
        | Inl e \<Rightarrow> e_raise e
        | Inr spec \<Rightarrow>
            e_bind (lift_sum (job_id_from_url url)) (\<lambda>provider_job_id.
              e_catch
                (e_bind (lift_sum (default_cancel_provider rt spec edl_token)) (\<lambda>cancel.
                   e_seq (cancel \<lparr>jr_provider = JStr provider_name, jr_job_id = provider_job_id, jr_job_url = url,
                                  jr_job_handle = Some job_handle\<rparr>) (e_ret ''requested'')))
                (\<lambda>e. if is_Exception e then e_ret ''error'' else e_raise e)))"

section \<open>Cancel\<close>

text \<open>What the session of a cancellation finds and does; \<open>CV_cancelled\<close> carries the row as it was.\<close>

datatype cancel_verdict = CV_missing | CV_terminal job_state | CV_refused job_state | CV_cancelled job

definition cancel_row :: "time \<Rightarrow> string \<Rightarrow> job_table \<Rightarrow> exn + (cancel_verdict \<times> job_table)" where
  "cancel_row now job_handle t =
     (case get_job_by_handle t job_handle of
        None \<Rightarrow> Inr (CV_missing, t)
      | Some job \<Rightarrow>
          if j_state job \<in> TERMINAL_STATES then Inr (CV_terminal (j_state job), t)
          else if CANCELLED \<notin> LEGAL_TRANSITIONS (j_state job) then Inr (CV_refused (j_state job), t)
          else s_bind (set_state now job CANCELLED []) (\<lambda>cancelled.
                 Inr (CV_cancelled job, commit_job now cancelled t)))"

definition op_cancel_row :: "string \<Rightarrow> cancel_verdict op" where
  "op_cancel_row job_handle =
     e_io (\<lambda>w. case cancel_row (w_now w) job_handle (w_jobs w) of
                 Inl e \<Rightarrow> Inl e
               | Inr (v, t) \<Rightarrow> Inr (v, w\<lparr>w_jobs := t\<rparr>))"

definition not_cancelled :: "string \<Rightarrow> string \<Rightarrow> dict \<Rightarrow> dict" where
  "not_cancelled job_handle status extra =
     [(''job_handle'', JStr job_handle), (''status'', JStr status), (''cancelled'', JBool False)] @ extra"

definition NON_CANCELLABLE_NOTE :: "string \<Rightarrow> string" where
  "NON_CANCELLABLE_NOTE state =
     ''job is '' @ state @ '': the result is already downloaded and being persisted, so it cannot be cancelled -- it will complete shortly''"

text \<open>The identity of the provider's cancellation: the caller's, else the one the job ran as.\<close>

definition cancel_token :: "retrieval_env \<Rightarrow> edl_identity option \<Rightarrow> string option \<Rightarrow> string option op" where
  "cancel_token rt identity cred =
     (case identity of
        Some i \<Rightarrow> e_ret (Some (id_token i))
      | None \<Rightarrow>
          if or_empty cred = [] then e_ret None
          else e_catch (e_bind (op_decrypt (rt_platform rt) (rt_credential_key rt) (or_empty cred)) (\<lambda>t. e_ret (Some t)))
                 (\<lambda>e. if is_Exception e then e_ret None else e_raise e))"

definition report_cancel :: "retrieval_env \<Rightarrow> string \<Rightarrow> edl_identity option \<Rightarrow> cancel_verdict \<Rightarrow> dict op" where
  "report_cancel rt job_handle identity verdict =
     (case verdict of
        CV_missing \<Rightarrow> e_ret (not_cancelled job_handle ''not_found'' [(''message'', JStr (ORPHANED_HANDLE_MESSAGE job_handle))])
      | CV_terminal s \<Rightarrow> e_ret (not_cancelled job_handle (state_value s) [(''upstream'', JStr ''already_terminal'')])
      | CV_refused s \<Rightarrow>
          e_ret (not_cancelled job_handle (state_value s) [(''note'', JStr (NON_CANCELLABLE_NOTE (state_value s)))])
      | CV_cancelled job \<Rightarrow>
          e_bind (cancel_token rt identity (j_credential_encrypted job)) (\<lambda>token.
          e_bind (attempt_provider_cancel rt (j_provider job) (j_provider_job_url job) (j_request_spec job) job_handle token)
            (\<lambda>upstream.
            e_ret [(''job_handle'', JStr job_handle), (''status'', JStr (state_value CANCELLED)),
                   (''cancelled'', JBool True), (''upstream'', JStr upstream)])))"

definition cancel_retrieval :: "retrieval_env \<Rightarrow> string \<Rightarrow> string \<Rightarrow> string option \<Rightarrow> dict op" where
  "cancel_retrieval rt job_handle ws edl_token =
     e_bind (op_parse_token (rt_platform rt) edl_token) (\<lambda>identity.
     e_bind (lift_sum (require_job_handle job_handle)) (\<lambda>_.
     e_bind (handle_visible ws job_handle) (\<lambda>visible.
     if \<not> visible then e_ret (not_cancelled job_handle ''not_found'' [(''message'', JStr (NOT_FOUND_MESSAGE job_handle))])
     else e_bind (op_cancel_row job_handle) (report_cancel rt job_handle identity))))"

section \<open>What a cancellation does\<close>

text \<open>Providers that reach none of the server's tables.\<close>

definition providers_aside :: "retrieval_env \<Rightarrow> bool" where
  "providers_aside rt \<longleftrightarrow>
     (\<forall>c n t. client_aside (hp_client (rt_harmony rt c n t))) \<and> (\<forall>c t. appeears_aside (rt_appeears rt c t))"

lemma tables_visible: "keeps same_tables (handle_visible ws h)"
  unfolding handle_visible_def by (auto intro!: keeps_tables split: exn.split)

lemma tables_cancel_token: "keeps same_tables (cancel_token rt i c)"
  unfolding cancel_token_def by (intro keeps_tables)

lemma bind_lift [simp]:
  "e_bind (lift_sum (Inr a)) f = f a" "e_bind (lift_sum (Inl e)) f = e_raise e"
  by (simp_all add: fun_eq_iff e_bind_run lift_sum_def e_ret_run e_raise_run)

lemma tables_attempt_cancel:
  assumes "providers_aside rt"
  shows "keeps same_tables (attempt_provider_cancel rt p u raw h t)"
proof -
  have cancel: "keeps same_tables (e_bind (lift_sum (default_cancel_provider rt spec t)) (\<lambda>cancel.
      e_seq (cancel ref) (e_ret x)))" for spec ref and x :: string
    using assms
    by (auto simp: default_cancel_provider_def Let_def providers_aside_def opendap_cancel_def
        intro!: keeps_tables tables_harmony tables_appeears_cancel)
  show ?thesis
    unfolding attempt_provider_cancel_def
    by (auto intro!: keeps_tables cancel split: sum.split exn.split)
qed

lemma wp_visible:
  "wp_partial (handle_visible ws h) (\<lambda>b w'. same_tables w w' \<and> (b \<longrightarrow> (\<exists>row. get_handle (w_handles w) ws h = Inr row))) w"
proof -
  have "wp_partial (op_get_handle ws h) (\<lambda>row w'. get_handle (w_handles w) ws h = Inr row) w"
    unfolding op_get_handle_def by (rule wp_partial_read) (simp add: stepped_fields)
  then have "wp_partial (handle_visible ws h) (\<lambda>b w'. b \<longrightarrow> (\<exists>row. get_handle (w_handles w) ws h = Inr row)) w"
    unfolding handle_visible_def
    by (auto simp: wp_def e_catch_run e_bind_run e_ret_run e_raise_run split: prod.splits sum.splits exn.splits)
  from wp_conj [OF this wp_keeps [OF tables_visible]] show ?thesis
    by (rule wp_mono) auto
qed

text \<open>The row \<open>i\<close> is now cancelled without a credential, and no other row changed.\<close>

definition cancelled_only :: "world \<Rightarrow> string \<Rightarrow> world \<Rightarrow> bool" where
  "cancelled_only w i w' \<longleftrightarrow>
     (\<exists>j. get_job (w_jobs w') i = Some j \<and> j_state j = CANCELLED \<and> j_credential_encrypted j = None)
     \<and> (\<forall>k. k \<noteq> i \<longrightarrow> get_job (w_jobs w') k = get_job (w_jobs w) k)
     \<and> w_handles w' = w_handles w \<and> w_queue w' = w_queue w"

lemma cancellable_iff:
  "s \<notin> TERMINAL_STATES \<and> CANCELLED \<in> LEGAL_TRANSITIONS s \<longleftrightarrow> s \<in> {PENDING, SUBMITTED, RUNNING}"
  by (cases s) (auto simp: TERMINAL_STATES_def)

lemma get_job_of_row:
  assumes "jobs_ok t" and "j \<in> set t"
  shows "get_job t (j_id j) = Some j"
proof -
  have "get_job t (j_id j) \<noteq> None"
    using assms(2) by (auto simp: get_job_def row_get_None_iff)
  then obtain k where k: "get_job t (j_id j) = Some k" by blast
  have "distinct (map j_id t)" using assms(1) by (simp add: jobs_ok_def)
  then have "k = j" using get_job_mem [OF k] assms(2) by (auto simp: distinct_map dest: inj_onD)
  then show ?thesis using k by simp
qed

definition cancel_outcome :: "world \<Rightarrow> string \<Rightarrow> cancel_verdict \<Rightarrow> world \<Rightarrow> bool" where
  "cancel_outcome w h v w' \<longleftrightarrow>
     (case v of
        CV_missing \<Rightarrow> same_tables w w'
      | CV_terminal s \<Rightarrow> (\<exists>job. get_job_by_handle (w_jobs w) h = Some job \<and> j_state job = s \<and> s \<in> TERMINAL_STATES)
          \<and> same_tables w w'
      | CV_refused s \<Rightarrow> (\<exists>job. get_job_by_handle (w_jobs w) h = Some job \<and> j_state job = s \<and> s = MATERIALIZING)
          \<and> same_tables w w'
      | CV_cancelled job \<Rightarrow> get_job_by_handle (w_jobs w) h = Some job \<and> j_state job \<in> {PENDING, SUBMITTED, RUNNING}
          \<and> cancelled_only w (j_id job) w')"

lemma cancel_row_outcome:
  assumes "cancel_row now h t = Inr (v, t')" and "jobs_ok t"
  shows "case v of
        CV_missing \<Rightarrow> t' = t
      | CV_terminal s \<Rightarrow> (\<exists>job. get_job_by_handle t h = Some job \<and> j_state job = s \<and> s \<in> TERMINAL_STATES) \<and> t' = t
      | CV_refused s \<Rightarrow> (\<exists>job. get_job_by_handle t h = Some job \<and> j_state job = s \<and> s = MATERIALIZING) \<and> t' = t
      | CV_cancelled job \<Rightarrow> get_job_by_handle t h = Some job \<and> j_state job \<in> {PENDING, SUBMITTED, RUNNING}
          \<and> (\<exists>j. get_job t' (j_id job) = Some j \<and> j_state j = CANCELLED \<and> j_credential_encrypted j = None)
          \<and> (\<forall>k. k \<noteq> j_id job \<longrightarrow> get_job t' k = get_job t k)"
proof (cases "get_job_by_handle t h")
  case None
  then show ?thesis using assms by (auto simp: cancel_row_def)
next
  case (Some job)
  have mem: "job \<in> set t" using Some by (auto simp: get_job_by_handle_def find_Some_iff)
  have refused: "s \<notin> TERMINAL_STATES \<Longrightarrow> CANCELLED \<notin> LEGAL_TRANSITIONS s \<Longrightarrow> s = MATERIALIZING" for s
    by (cases s) (auto simp: TERMINAL_STATES_def)
  show ?thesis
  proof (cases "j_state job \<in> {PENDING, SUBMITTED, RUNNING}")
    case True
    then obtain j' where j': "set_state now job CANCELLED [] = Inr j'" "v = CV_cancelled job" "t' = commit_job now j' t"
      using assms(1) Some cancellable_iff [of "j_state job"] by (auto simp: cancel_row_def sum_simps split: if_splits)
    have p: "j_id j' = j_id job" "j_state j' = CANCELLED" "j_credential_encrypted j' = None"
      using set_state_ok [OF j'(1)] by (auto simp: same_job_def TERMINAL_STATES_def)
    have "get_job t (j_id job) = Some job" by (rule get_job_of_row [OF assms(2) mem])
    moreover have "job \<noteq> j'" using p(2) True by auto
    ultimately show ?thesis using True Some j'(2,3) p by (auto simp: commit_job_get)
  next
    case False
    then show ?thesis
      using assms(1) Some cancellable_iff [of "j_state job"] refused [of "j_state job"]
      by (auto simp: cancel_row_def split: if_splits)
  qed
qed

lemma wp_cancel_row:
  assumes "world_ok w" and "same_tables w w1"
  shows "wp_partial (op_cancel_row h) (cancel_outcome w h) w1"
  unfolding op_cancel_row_def
proof (rule wp_partial_io)
  fix w2 w3 :: world and v
  assume s: "stepped w1 w2"
    and "(case cancel_row (w_now w2) h (w_jobs w2) of Inl e \<Rightarrow> Inl e | Inr (v, t) \<Rightarrow> Inr (v, w2\<lparr>w_jobs := t\<rparr>)) = Inr (v, w3)"
  then obtain t where t: "cancel_row (w_now w2) h (w_jobs w2) = Inr (v, t)" "w3 = w2\<lparr>w_jobs := t\<rparr>"
    by (auto split: sum.splits)
  have same: "same_tables w w2" by (rule tables.R_trans [OF assms(2) stepped_tables [OF s]])
  then have "w_jobs w2 = w_jobs w" by (simp add: same_tables_def)
  then show "cancel_outcome w h v w3"
    using cancel_row_outcome [OF t(1)] assms(1) same t(2)
    by (auto simp: cancel_outcome_def cancelled_only_def same_tables_def world_ok_def split: cancel_verdict.splits)
qed

lemma outcome_tables: "cancel_outcome w h v w1 \<Longrightarrow> same_tables w1 w2 \<Longrightarrow> cancel_outcome w h v w2"
  by (auto simp: cancel_outcome_def cancelled_only_def same_tables_def split: cancel_verdict.splits)

definition cancel_reported :: "world \<Rightarrow> string \<Rightarrow> string \<Rightarrow> dict \<Rightarrow> world \<Rightarrow> bool" where
  "cancel_reported w ws h r w' \<longleftrightarrow>
     (jget r ''status'' = JStr ''not_found'' \<and> jget r ''cancelled'' = JBool False \<and> same_tables w w')
     \<or> (\<exists>row job. get_handle (w_handles w) ws h = Inr row \<and> get_job_by_handle (w_jobs w) h = Some job \<and>
         (if j_state job \<in> {PENDING, SUBMITTED, RUNNING}
          then jget r ''status'' = JStr ''cancelled'' \<and> jget r ''cancelled'' = JBool True \<and> cancelled_only w (j_id job) w'
               \<and> (j_provider job = ''opendap'' \<or> or_empty (j_provider_job_url job) = [] \<longrightarrow>
                    jget r ''upstream'' = JStr ''unsupported'')
          else jget r ''status'' = JStr (state_value (j_state job)) \<and> jget r ''cancelled'' = JBool False \<and> same_tables w w'))"

lemma wp_unsupported:
  "wp_partial (attempt_provider_cancel rt p u raw h t) (\<lambda>x _. p = ''opendap'' \<or> or_empty u = [] \<longrightarrow> x = ''unsupported'') w"
  by (cases "p = ''opendap'' \<or> or_empty u = []") (auto simp: attempt_provider_cancel_def wp_ret intro: wp_partial_any)

lemma reported_kept:
  "get_handle (w_handles w) ws h = Inr row \<Longrightarrow> get_job_by_handle (w_jobs w) h = Some job
   \<Longrightarrow> j_state job \<notin> {PENDING, SUBMITTED, RUNNING} \<Longrightarrow> same_tables w w'
   \<Longrightarrow> cancel_reported w ws h (not_cancelled h (state_value (j_state job)) extra) w'"
  by (auto simp: cancel_reported_def not_cancelled_def)

lemma wp_report_cancel:
  assumes "providers_aside rt" and o: "cancel_outcome w h v w1" and row: "get_handle (w_handles w) ws h = Inr row"
  shows "wp_partial (report_cancel rt h identity v) (cancel_reported w ws h) w1"
proof (cases v)
  case CV_missing
  then show ?thesis using o by (simp add: report_cancel_def wp_ret cancel_outcome_def cancel_reported_def not_cancelled_def)
next
  case (CV_terminal s)
  then obtain job where "get_job_by_handle (w_jobs w) h = Some job" "j_state job = s" "s \<in> TERMINAL_STATES" "same_tables w w1"
    using o by (auto simp: cancel_outcome_def)
  then show ?thesis
    using reported_kept [OF row, of job w1] CV_terminal by (auto simp: report_cancel_def wp_ret TERMINAL_STATES_def)
next
  case (CV_refused s)
  then obtain job where "get_job_by_handle (w_jobs w) h = Some job" "j_state job = s" "s = MATERIALIZING" "same_tables w w1"
    using o by (auto simp: cancel_outcome_def)
  then show ?thesis using reported_kept [OF row, of job w1] CV_refused by (auto simp: report_cancel_def wp_ret)
next
  case (CV_cancelled job)
  show ?thesis
    unfolding report_cancel_def CV_cancelled cancel_verdict.case wp_bind
  proof (rule wp_mono [OF wp_keeps [OF tables_cancel_token]])
    fix token t
    assume t: "same_tables w1 t"
    show "wp_partial (attempt_provider_cancel rt (j_provider job) (j_provider_job_url job) (j_request_spec job) h token)
       (\<lambda>u. wp_partial (e_ret [(''job_handle'', JStr h), (''status'', JStr (state_value CANCELLED)),
          (''cancelled'', JBool True), (''upstream'', JStr u)]) (cancel_reported w ws h)) t"
      by (rule wp_mono [OF wp_conj [OF wp_unsupported wp_keeps [OF tables_attempt_cancel [OF assms(1)]]]])
        (use outcome_tables [OF outcome_tables [OF o t]] row CV_cancelled in
          \<open>auto simp: wp_ret cancel_reported_def cancel_outcome_def\<close>)
  qed simp
qed


definition cancel_world :: "job_state \<Rightarrow> world" where
  "cancel_world state = initial_world\<lparr>
     w_handles := [\<lparr>h_handle = ''job_old'', h_workspace_id = ''ws'', h_type = JOB, h_payload = [], h_created_at = 0,
                    h_updated_at = 0, h_last_accessed_at = None\<rparr>],
     w_jobs := [sample_job\<lparr>j_handle := ''job_old'', j_state := state, j_credential_encrypted := Some ''key:tok'',
                           j_provider_job_url := Some ''https://harmony/jobs/6e05d1a6-93a1-4d5c-a3f7-0123456789ab''\<rparr>]\<rparr>"

lemma sample_cancel:
  "fst (cancel_retrieval sample_retrieval ''job_old'' ''ws'' None (cancel_world RUNNING)) =
     Inr [(''job_handle'', JStr ''job_old''), (''status'', JStr ''cancelled''), (''cancelled'', JBool True),
          (''upstream'', JStr ''requested'')]"
  by code_simp

lemma sample_aside: "providers_aside sample_retrieval"
  by (auto simp: providers_aside_def client_aside_def appeears_aside_def sample_retrieval_def sample_harmony_def
      sample_client_def sample_appeears_def intro: tables.keeps_intros)


section \<open>What a foreign handle tells\<close>

lemma run_missing:
  assumes "quiet w" and "get_handle (w_handles w) ws h = Inl e"
  shows "\<exists>w'. handle_visible ws h w = (Inr False, w')"
proof -
  obtain flt w1 where n: "next_io w = (flt, w1)" by fastforce
  have "flt = Io_ok" using n assms(1) by (auto simp: next_io_def quiet_def split: list.splits)
  moreover have "w_handles w1 = w_handles w" using stepped_fields [OF stepped_next_io [OF n]] by simp
  moreover have "(\<exists>x. e = HandleNotFoundError x) \<or> (\<exists>x. e = CrossWorkspaceError x)"
    using assms(2) by (auto simp: get_handle_def split: option.splits if_splits)
  ultimately show ?thesis
    using assms(2) n
    by (auto simp: handle_visible_def op_get_handle_def e_read_def e_io_def e_catch_run e_bind_run e_ret_run)
qed

text \<open>
  A handle of another workspace and one that exists nowhere get the same answer from both tools: nothing
  about the job behind it, not even that there is one, reaches the caller.
\<close>

lemma foreign_handle_tells_nothing:
  assumes "quiet w" and "quiet v" and "get_handle (w_handles w) ws h = Inl e" and "get_handle (w_handles v) ws h = Inl e'"
  shows "fst (get_retrieval_status rt h ws None w) = fst (get_retrieval_status rt h ws None v)
    \<and> fst (cancel_retrieval rt h ws None w) = fst (cancel_retrieval rt h ws None v)"
proof -
  obtain w1 v1 where "handle_visible ws h w = (Inr False, w1)" "handle_visible ws h v = (Inr False, v1)"
    using run_missing assms by metis
  moreover have "op_parse_token (rt_platform rt) None w = (Inr None, w)" "op_parse_token (rt_platform rt) None v = (Inr None, v)"
    by (simp_all add: op_parse_token_def parse_edl_token_def)
  ultimately show ?thesis
    by (cases "require_job_handle h")
      (simp_all add: get_retrieval_status_def cancel_retrieval_def e_bind_run e_ret_run e_raise_run lift_sum_def)
qed

text \<open>
  A stored spec with a dictionary field of another kind raises out of the tool although the row is already
  cancelled, where any other malformed spec is reported as \<open>error\<close>.
\<close>

lemma malformed_spec_fails_cancel:
  "fst (attempt_provider_cancel sample_retrieval ''harmony'' (Some ''https://harmony/jobs/1'') [(''var_dims'', JInt 1)]
          ''job_1'' None initial_world) = Inl (AttributeError ''items'')"
  by code_simp

section \<open>What the tools keep\<close>

lemma keeps_status: "keeps evolves (get_retrieval_status rt h ws t)"
  unfolding get_retrieval_status_def
  by (intro keeps_evolves keeps_runtime keeps_tables_evolves [OF tables_visible])

lemma keeps_cancel_row: "keeps evolves (op_cancel_row h)"
  unfolding op_cancel_row_def
proof (rule keeps_io)
  fix w w' :: world and v
  assume "(case cancel_row (w_now w) h (w_jobs w) of Inl e \<Rightarrow> Inl e | Inr (v, t) \<Rightarrow> Inr (v, w\<lparr>w_jobs := t\<rparr>)) = Inr (v, w')"
  then obtain t where t: "cancel_row (w_now w) h (w_jobs w) = Inr (v, t)" "w' = w\<lparr>w_jobs := t\<rparr>" by (auto split: sum.splits)
  have "jobs_ok t \<and> jobs_evolve (w_jobs w) t" if ok: "jobs_ok (w_jobs w)"
  proof (cases "t = w_jobs w")
    case False
    then obtain job j' where j: "get_job_by_handle (w_jobs w) h = Some job" "set_state (w_now w) job CANCELLED [] = Inr j'"
      "t = commit_job (w_now w) j' (w_jobs w)"
      using t(1) by (auto simp: cancel_row_def sum_simps split: option.splits if_splits)
    have "get_job (w_jobs w) (j_id job) = Some job"
      using j(1) by (intro get_job_of_row [OF ok]) (auto simp: get_job_by_handle_def find_Some_iff)
    moreover have "j_id j' = j_id job" using set_state_ok(3) [OF j(2)] by (simp add: same_job_def)
    ultimately show ?thesis
      unfolding j(3) using ok set_state_ok(3) [OF j(2)]
      by (auto intro!: commit_job_evolves commit_job_ok set_state_advances [OF j(2)] set_state_cred [OF j(2)])
  qed (use ok in simp)
  then show "evolves w w'" unfolding t(2) by (rule evolves_jobs)
qed

lemma keeps_cancel: "providers_aside rt \<Longrightarrow> keeps evolves (cancel_retrieval rt h ws t)"
  unfolding cancel_retrieval_def report_cancel_def
  by (intro keeps_evolves keeps_runtime keeps_cancel_row keeps_tables_evolves [OF tables_visible]
      keeps_tables_evolves [OF tables_cancel_token] keeps_tables_evolves [OF tables_attempt_cancel])
    (auto intro!: keeps_evolves keeps_tables_evolves [OF tables_cancel_token] keeps_tables_evolves [OF tables_attempt_cancel]
      split: cancel_verdict.split)

end
