(* ===== verification/Area.thy ===== *)
theory Area
  imports JobTools Minting
begin

text \<open>
  tools/area.py: an area of interest from a GeoJSON object, a box or point in text, a watershed or county
  code, a curated region or a name looked up in two remote services. The HTTP exchange, the JSON reader, the
  float reader and the contents of \<open>regions.json\<close> are fields of \<open>area_services\<close>; texts are ASCII (a dash in a message is
  written as a hyphen) and floats
  exact and finite, so that a NaN in a box is refused as not a number rather than as out of range. Python's
  recursion limit is left out, except for the recursion that has no end.
\<close>

record area_services =
  ar_platform :: platform
  ar_get :: "string \<Rightarrow> dict \<Rightarrow> (string \<times> string) list \<Rightarrow> http_response op"
  ar_loads :: "string \<Rightarrow> exn + json"
  ar_read_float :: "string \<Rightarrow> rat option"
  ar_show :: "json \<Rightarrow> string"
  ar_show_float :: "rat \<Rightarrow> string"
  ar_regions :: json

section \<open>Comparison of JSON values\<close>

text \<open>Numbers compare as numbers, texts and lists in lexicographic order, other pairs raise.\<close>

fun py_number :: "json \<Rightarrow> rat option" where
  "py_number (JInt i) = Some (of_int i)"
| "py_number (JFloat r) = Some r"
| "py_number (JBool b) = Some (if b then 1 else 0)"
| "py_number _ = None"

fun canonical :: "json \<Rightarrow> json" where
  "canonical (JArr xs) = JArr (map canonical xs)"
| "canonical (JObj d) = JObj (sort_key fst (map (\<lambda>(k, v). (k, canonical v)) d))"
| "canonical (JInt i) = JFloat (of_int i)"
| "canonical (JBool b) = JFloat (if b then 1 else 0)"
| "canonical x = x"

function py_less :: "json \<Rightarrow> json \<Rightarrow> exn + bool" and py_less_list :: "json list \<Rightarrow> json list \<Rightarrow> exn + bool" where
  "py_less x y =
     (case (py_number x, py_number y) of
        (Some a, Some b) \<Rightarrow> Inr (a < b)
      | _ \<Rightarrow>
          (case (x, y) of
             (JStr s, JStr t) \<Rightarrow> Inr (s < t)
           | (JArr xs, JArr ys) \<Rightarrow> py_less_list xs ys
           | _ \<Rightarrow> Inl (TypeError ''not supported between instances'')))"
| "py_less_list [] [] = Inr False"
| "py_less_list [] (y # ys) = Inr True"
| "py_less_list (x # xs) [] = Inr False"
| "py_less_list (x # xs) (y # ys) = (if canonical x = canonical y then py_less_list xs ys else py_less x y)"
  by pat_completeness auto
termination
  by (relation "measure (\<lambda>c. case c of Inl (x, y) \<Rightarrow> 2 * size x | Inr (xs, ys) \<Rightarrow> 2 * size_list size xs + 1)") auto

text \<open>\<open>min(xs)\<close> and \<open>max(xs)\<close> keep the first of equal items.\<close>

fun py_min :: "json \<Rightarrow> json list \<Rightarrow> exn + json" where
  "py_min m [] = Inr m"
| "py_min m (x # xs) = s_bind (py_less x m) (\<lambda>b. py_min (if b then x else m) xs)"

fun py_max :: "json \<Rightarrow> json list \<Rightarrow> exn + json" where
  "py_max m [] = Inr m"
| "py_max m (x # xs) = s_bind (py_less m x) (\<lambda>b. py_max (if b then x else m) xs)"

section \<open>GeoJSON\<close>

definition RecursionError :: exn where
  "RecursionError = LibErr (OtherClass ''RecursionError'') [''maximum recursion depth exceeded'']"

text \<open>A character of a text is a text again, so a text among the coordinates is descended into for ever.\<close>

function extract_pairs :: "json \<Rightarrow> exn + json list list" where
  "extract_pairs coords =
     (if \<not> truthy coords then Inr []
      else case coords of
        JArr (x # xs) \<Rightarrow>
          if py_number x \<noteq> None then Inr [take 2 (x # xs)]
          else s_bind (s_each extract_pairs (x # xs)) (\<lambda>ps. Inr (concat ps))
      | JStr _ \<Rightarrow> Inl RecursionError
      | JObj _ \<Rightarrow> Inl (KeyError ''0'')
      | _ \<Rightarrow> Inl (TypeError ''object is not subscriptable''))"
  by pat_completeness auto
termination
  by (relation "measure size") (auto dest!: size_list_estimation' [where f = size, OF _ order.refl])

declare extract_pairs.simps [simp del]

function flatten_coords :: "json \<Rightarrow> exn + json list list" where
  "flatten_coords (JObj obj) =
     (let gtype = jget obj ''type'';
          each = (\<lambda>key. case map_of obj key of
              None \<Rightarrow> Inr []
            | Some (JArr xs) \<Rightarrow> s_bind (s_each flatten_coords xs) (\<lambda>ps. Inr (concat ps))
            | Some x \<Rightarrow> s_bind (py_iter x) (\<lambda>xs. if xs = [] then Inr [] else Inl (AttributeError ''get'')))
      in if gtype = JStr ''Feature'' then
           (case map_of obj ''geometry'' of
              None \<Rightarrow> Inr []
            | Some g \<Rightarrow> if truthy g then flatten_coords g else Inr [])
         else if gtype = JStr ''FeatureCollection'' then each ''features''
         else if gtype = JStr ''GeometryCollection'' then each ''geometries''
         else extract_pairs (jget obj ''coordinates''))"
| "flatten_coords JNull = Inl (AttributeError ''get'')"
| "flatten_coords (JBool b) = Inl (AttributeError ''get'')"
| "flatten_coords (JInt i) = Inl (AttributeError ''get'')"
| "flatten_coords (JFloat r) = Inl (AttributeError ''get'')"
| "flatten_coords (JStr s) = Inl (AttributeError ''get'')"
| "flatten_coords (JArr xs) = Inl (AttributeError ''get'')"
  by pat_completeness auto
termination
proof (relation "measure size")
  have inside: "size g < size (JObj obj)" if "map_of obj k = Some g" for obj k g
    using size_list_estimation' [OF map_of_SomeD [OF that], of "size g" "size_prod (\<lambda>x. 0) size"] by simp
  show "(g, JObj obj) \<in> measure size" if "map_of obj ''geometry'' = Some g" for obj g
    using inside [OF that] by simp
  show "(z, JObj obj) \<in> measure size" if "map_of obj k = Some x" "x = JArr xs" "z \<in> set xs" for obj k x xs z
    using inside [OF that(1)] size_list_estimation' [OF that(3), of "size z" size] unfolding that(2) by simp
qed auto

declare flatten_coords.simps(1) [simp del]

text \<open>A position without a latitude raises before any comparison.\<close>

definition bbox_from_geojson :: "json \<Rightarrow> exn + json list" where
  "bbox_from_geojson geojson =
     s_bind (flatten_coords geojson) (\<lambda>coords.
       if coords = [] then Inl (ValueError ''GeoJSON contains no coordinate pairs'')
       else
         s_bind (s_each (\<lambda>c. py_at (JArr c) 0) coords) (\<lambda>lons.
         s_bind (s_each (\<lambda>c. py_at (JArr c) 1) coords) (\<lambda>lats.
         s_bind (py_min (hd lons) (tl lons)) (\<lambda>w.
         s_bind (py_min (hd lats) (tl lats)) (\<lambda>s.
         s_bind (py_max (hd lons) (tl lons)) (\<lambda>e.
         s_bind (py_max (hd lats) (tl lats)) (\<lambda>n. Inr [w, s, e, n])))))))"

definition geometry_summary :: "json \<Rightarrow> exn + json" where
  "geometry_summary geojson =
     (if geojson = JNull then Inr JNull
      else
        s_bind (py_get geojson ''type'' JNull) (\<lambda>t.
        s_bind (flatten_coords geojson) (\<lambda>coords.
          Inr (JObj [(''type'', t), (''vertex_count'', JInt (int (length coords)))]))))"

section \<open>Boxes and points in text\<close>

definition show_deg :: "area_services \<Rightarrow> string \<Rightarrow> rat \<Rightarrow> string" where
  "show_deg ar name r = name @ ''='' @ ar_show_float ar r"

definition validate_bbox :: "area_services \<Rightarrow> rat \<Rightarrow> rat \<Rightarrow> rat \<Rightarrow> rat \<Rightarrow> exn + unit" where
  "validate_bbox ar w s e n =
     (if \<not> (- 180 \<le> w \<and> w \<le> 180 \<and> - 180 \<le> e \<and> e \<le> 180)
      then Inl (ValueError (''longitude out of range [-180, 180]: '' @ show_deg ar ''W'' w @ '', '' @ show_deg ar ''E'' e))
      else if \<not> (- 90 \<le> s \<and> s \<le> 90 \<and> - 90 \<le> n \<and> n \<le> 90)
      then Inl (ValueError (''latitude out of range [-90, 90]: '' @ show_deg ar ''S'' s @ '', '' @ show_deg ar ''N'' n))
      else if s > n
      then Inl (ValueError (''south latitude '' @ ar_show_float ar s @ '' exceeds north latitude '' @ ar_show_float ar n))
      else Inr ())"

definition parse_bbox_string :: "area_services \<Rightarrow> string \<Rightarrow> exn + rat list" where
  "parse_bbox_string ar s =
     (let parts = py_split CHR '','' s in
      if length parts \<noteq> 4
      then Inl (ValueError (''expected 4 comma-separated floats (W,S,E,N), got '' @ show_nat (length parts) @ '': '' @ py_repr s))
      else
        case map (\<lambda>p. ar_read_float ar (py_strip p)) parts of
          [Some w, Some south, Some e, Some n] \<Rightarrow>
            s_bind (validate_bbox ar w south e n) (\<lambda>_. Inr [w, south, e, n])
        | _ \<Rightarrow> Inl (ValueError (''non-numeric value in bbox string '' @ py_repr s)))"

definition try_parse_point :: "area_services \<Rightarrow> string \<Rightarrow> (rat \<times> rat) option" where
  "try_parse_point ar s =
     (let parts = py_split CHR '','' s in
      if length parts \<noteq> 2 then None
      else
        case map (\<lambda>p. ar_read_float ar (py_strip p)) parts of
          [Some lon, Some lat] \<Rightarrow>
            if - 180 \<le> lon \<and> lon \<le> 180 \<and> - 90 \<le> lat \<and> lat \<le> 90 then Some (lon, lat) else None
        | _ \<Rightarrow> None)"

section \<open>Watershed and county codes\<close>

definition all_digits :: "string \<Rightarrow> bool" where
  "all_digits s \<longleftrightarrow> s \<noteq> [] \<and> list_all is_digit s"

definition HUC_LENGTHS :: "nat list" where
  "HUC_LENGTHS = [2, 4, 6, 8, 10, 12]"

definition FIPS_LENGTHS :: "nat list" where
  "FIPS_LENGTHS = [2, 5]"

definition is_huc_code :: "string \<Rightarrow> bool" where
  "is_huc_code s \<longleftrightarrow> all_digits s \<and> length s \<in> set HUC_LENGTHS"

definition is_fips_code :: "string \<Rightarrow> bool" where
  "is_fips_code s \<longleftrightarrow> all_digits s \<and> length s \<in> set FIPS_LENGTHS"

text \<open>The two patterns: the word in any case, a hyphen or none, digits or none, blanks, the code to the end.\<close>

definition normalize_prefix :: "string \<Rightarrow> string \<Rightarrow> string option" where
  "normalize_prefix word s =
     (let t = py_strip s; k = length word in
      if py_lower (take k t) \<noteq> word then None
      else
        let rest = drop k t;
            rest = (case rest of c # cs \<Rightarrow> if c = CHR ''-'' then cs else rest | [] \<Rightarrow> []);
            rest = dropWhile is_digit rest;
            code = dropWhile is_space rest
        in if code \<noteq> rest \<and> all_digits code then Some code else None)"

definition normalize_huc_prefix :: "string \<Rightarrow> string option" where
  "normalize_huc_prefix s = normalize_prefix ''huc'' s"

definition normalize_fips_prefix :: "string \<Rightarrow> string option" where
  "normalize_fips_prefix s = normalize_prefix ''fips'' s"

datatype code_system = Huc | Fips

definition ambiguous_code :: "string \<Rightarrow> string" where
  "ambiguous_code location =
     ''Ambiguous location '' @ py_repr location @ '': valid as both a HUC watershed code and a US FIPS code. Use ''
     @ py_repr (''HUC '' @ location) @ '' for the watershed or '' @ py_repr (''FIPS '' @ location)
     @ '' for the FIPS boundary to disambiguate.''"

definition classify_bare :: "string \<Rightarrow> exn + (code_system \<times> string) option" where
  "classify_bare location =
     (if is_huc_code location \<and> is_fips_code location then Inl (ValueError (ambiguous_code location))
      else if is_fips_code location then Inr (Some (Fips, location))
      else if is_huc_code location then Inr (Some (Huc, location))
      else Inr None)"

definition classify_fips :: "string \<Rightarrow> exn + (code_system \<times> string) option" where
  "classify_fips location =
     (case normalize_fips_prefix location of
        Some d \<Rightarrow> if is_fips_code d then Inr (Some (Fips, d)) else classify_bare location
      | None \<Rightarrow> classify_bare location)"

definition classify_digit_code :: "string \<Rightarrow> exn + (code_system \<times> string) option" where
  "classify_digit_code location =
     (case normalize_huc_prefix location of
        Some d \<Rightarrow> if is_huc_code d then Inr (Some (Huc, d)) else classify_fips location
      | None \<Rightarrow> classify_fips location)"

section \<open>Curated regions\<close>

definition region_entry :: "area_services \<Rightarrow> string \<times> json \<Rightarrow> (string \<times> rat list) list \<Rightarrow> exn + (string \<times> rat list) list" where
  "region_entry ar ke table =
     (case ke of (key, entry) \<Rightarrow>
        if py_startswith key ''_'' then Inr table
        else
          s_bind (py_item entry ''bbox'') (\<lambda>b.
          s_bind (py_iter b) (\<lambda>sides.
            if length sides \<noteq> 4 then Inl (ValueError ''wrong number of values to unpack (expected 4)'')
            else
              s_bind (py_floats (ar_read_float ar) sides) (\<lambda>bbox.
              s_bind (py_get entry ''aliases'' (JArr [])) (\<lambda>a.
              s_bind (py_iter a) (\<lambda>aliases.
              s_bind (s_each (\<lambda>x. case x of JStr t \<Rightarrow> Inr (py_lower t) | _ \<Rightarrow> Inl (AttributeError ''lower'')) aliases) (\<lambda>names.
                Inr (fold (\<lambda>k t. AList.update k bbox t) (key # names) table))))))))"

fun region_entries :: "area_services \<Rightarrow> dict \<Rightarrow> (string \<times> rat list) list \<Rightarrow> exn + (string \<times> rat list) list" where
  "region_entries ar [] table = Inr table"
| "region_entries ar (ke # es) table = s_bind (region_entry ar ke table) (region_entries ar es)"

text \<open>The table is read again at each lookup; the code keeps what the first call has read.\<close>

definition load_region_table :: "area_services \<Rightarrow> exn + (string \<times> rat list) list" where
  "load_region_table ar = s_bind (py_items (ar_regions ar)) (\<lambda>raw. region_entries ar raw [])"

definition lookup_region :: "area_services \<Rightarrow> string \<Rightarrow> exn + rat list option" where
  "lookup_region ar query =
     s_bind (load_region_table ar) (\<lambda>table. Inr (map_of table (py_strip (py_lower query))))"

section \<open>Remote services\<close>

definition check_remote_response :: "http_response \<Rightarrow> string \<Rightarrow> string \<Rightarrow> exn + unit" where
  "check_remote_response r service query =
     (if 200 \<le> hr_status r \<and> hr_status r < 300 then Inr ()
      else Inl (ValueError (service @ '' request failed for '' @ py_repr query @ '' (HTTP '' @ show_int (hr_status r) @ '')'')))"

definition remote_json ::
  "area_services \<Rightarrow> string \<Rightarrow> string \<Rightarrow> string \<Rightarrow> dict \<Rightarrow> (string \<times> string) list \<Rightarrow> json op" where
  "remote_json ar service query url params headers =
     e_bind (ar_get ar url params headers) (\<lambda>r.
     e_bind (lift_sum (check_remote_response r service query)) (\<lambda>_.
       lift_sum (response_json r)))"

definition WBD_BASE_URL :: string where
  "WBD_BASE_URL = ''https://hydro.nationalmap.gov/arcgis/rest/services/wbd/MapServer''"

definition TIGERWEB_BASE_URL :: string where
  "TIGERWEB_BASE_URL = ''https://tigerweb.geo.census.gov/arcgis/rest/services/TIGERweb/State_County/MapServer''"

definition layer_query :: "string \<Rightarrow> nat \<Rightarrow> string" where
  "layer_query base layer = base @ ''/'' @ show_nat layer @ ''/query''"

definition layer_params :: "string \<Rightarrow> string \<Rightarrow> dict" where
  "layer_params where_clause out_fields =
     [(''f'', JStr ''geojson''), (''where'', JStr where_clause), (''outFields'', JStr out_fields),
      (''returnGeometry'', JStr ''true'')]"

definition features_of :: "json \<Rightarrow> exn + json" where
  "features_of fc = py_get fc ''features'' (JArr [])"

text \<open>\<open>features[0]["geometry"]\<close> with its box.\<close>

definition first_geometry :: "json \<Rightarrow> exn + json list \<times> json" where
  "first_geometry features =
     s_bind (py_at features 0) (\<lambda>f.
     s_bind (py_item f ''geometry'') (\<lambda>geometry.
     s_bind (bbox_from_geojson geometry) (\<lambda>bbox. Inr (bbox, geometry))))"

definition query_wbd_by_huc :: "area_services \<Rightarrow> string \<Rightarrow> (json list \<times> json) op" where
  "query_wbd_by_huc ar huc_code =
     (let n = length huc_code; field = ''huc'' @ show_nat n in
      e_bind (remote_json ar ''USGS WBD'' huc_code (layer_query WBD_BASE_URL (n div 2))
                (layer_params (field @ ''='' @ py_repr huc_code) ''*'') []) (\<lambda>fc.
      e_bind (lift_sum (features_of fc)) (\<lambda>features.
        if \<not> truthy features
        then e_raise (ValueError (''USGS WBD found no watershed for HUC code '' @ py_repr huc_code))
        else lift_sum (first_geometry features))))"

definition fips_layer :: "string \<Rightarrow> exn + nat" where
  "fips_layer code =
     (if length code = 2 then Inr 0 else if length code = 5 then Inr 1 else Inl (KeyError (show_nat (length code))))"

definition query_fips :: "area_services \<Rightarrow> string \<Rightarrow> (json list \<times> json) op" where
  "query_fips ar fips_code =
     e_bind (lift_sum (fips_layer fips_code)) (\<lambda>layer.
     e_bind (remote_json ar ''Census TIGERweb'' fips_code (layer_query TIGERWEB_BASE_URL layer)
               (layer_params (''GEOID='' @ py_repr fips_code) ''*'') []) (\<lambda>fc.
     e_bind (lift_sum (features_of fc)) (\<lambda>features.
       if \<not> truthy features
       then e_raise (ValueError (''no such FIPS code: Census TIGERweb found no boundary for '' @ py_repr fips_code))
       else lift_sum (first_geometry features))))"

text \<open>Quotes are doubled in a clause.\<close>

definition sql_quote :: "string \<Rightarrow> string" where
  "sql_quote s = py_replace [CHR 0x27] [CHR 0x27, CHR 0x27] s"

definition like_clause :: "string \<Rightarrow> string" where
  "like_clause t = ''UPPER(name) LIKE UPPER('' @ py_repr (''%'' @ t @ ''%'') @ '')''"

definition WBD_LAYERS :: "nat list" where
  "WBD_LAYERS = [1, 2, 3, 4, 5, 6]"

fun wbd_like :: "area_services \<Rightarrow> string \<Rightarrow> nat list \<Rightarrow> (json list \<times> json) option op" where
  "wbd_like ar query [] = e_ret None"
| "wbd_like ar query (layer # layers) =
     e_bind (remote_json ar ''USGS WBD'' query (layer_query WBD_BASE_URL layer)
               (layer_params (like_clause (sql_quote query)) ''name'') []) (\<lambda>fc.
     e_bind (lift_sum (features_of fc)) (\<lambda>features.
       if \<not> truthy features then wbd_like ar query layers
       else
         e_bind (lift_sum (py_len features)) (\<lambda>n.
           if n = 1 then e_bind (lift_sum (first_geometry features)) (\<lambda>g. e_ret (Some g))
           else e_ret None)))"

definition query_wbd_by_like :: "area_services \<Rightarrow> string \<Rightarrow> (json list \<times> json) option op" where
  "query_wbd_by_like ar query = wbd_like ar query WBD_LAYERS"

text \<open>\<open>s.split()\<close>.\<close>

function py_words :: "string \<Rightarrow> string list" where
  "py_words s =
     (case dropWhile is_space s of
        [] \<Rightarrow> []
      | c # cs \<Rightarrow> takeWhile (\<lambda>x. \<not> is_space x) (c # cs) # py_words (dropWhile (\<lambda>x. \<not> is_space x) cs))"
  by pat_completeness auto
termination
proof (relation "measure length")
  fix s cs c
  assume "dropWhile is_space s = c # cs"
  then have "length (dropWhile (\<lambda>x. \<not> is_space x) cs) < length s"
    using length_dropWhile_le [of "\<lambda>x. \<not> is_space x" cs] length_dropWhile_le [of is_space s] by simp
  then show "(dropWhile (\<lambda>x. \<not> is_space x) cs, s) \<in> measure length" by simp
qed simp

declare py_words.simps [simp del]

definition WBD_STOPWORDS :: "string list" where
  "WBD_STOPWORDS = [''river'', ''basin'', ''watershed'', ''region'']"

definition property_of :: "area_services \<Rightarrow> string \<Rightarrow> json \<Rightarrow> exn + json" where
  "property_of ar key f = s_bind (py_item f ''properties'') (\<lambda>p. py_get p key (JStr ''?''))"

definition ambiguous_name :: "area_services \<Rightarrow> string \<Rightarrow> nat \<Rightarrow> json \<Rightarrow> exn + string" where
  "ambiguous_name ar query layer features =
     (let level = 2 * layer; field = ''huc'' @ show_nat level in
      s_bind (py_iter features) (\<lambda>fs.
      s_bind (s_each (\<lambda>f.
          s_bind (property_of ar ''name'' f) (\<lambda>name.
          s_bind (property_of ar field f) (\<lambda>code.
            Inr (py_str (ar_show ar) name @ '' ('' @ py_str (ar_show ar) code @ '')'')))) fs) (\<lambda>candidates.
      s_bind (s_bind (py_at features 0) (property_of ar field)) (\<lambda>first_code.
        Inr (''Ambiguous location '' @ py_repr query @ '': '' @ show_nat (length candidates) @ '' HUC-'' @ show_nat level
          @ '' regions match - '' @ py_join '', '' candidates @ ''. Provide a HUC code directly (e.g. ''
          @ (case first_code of JStr s \<Rightarrow> py_repr s | _ \<Rightarrow> py_str (ar_show ar) first_code) @ '') to be precise.'')))))"

fun wbd_tokens :: "area_services \<Rightarrow> string \<Rightarrow> string \<Rightarrow> nat list \<Rightarrow> (json list \<times> json) option op" where
  "wbd_tokens ar query conditions [] = e_ret None"
| "wbd_tokens ar query conditions (layer # layers) =
     e_bind (remote_json ar ''USGS WBD'' query (layer_query WBD_BASE_URL layer)
               (layer_params conditions (''name,huc'' @ show_nat (2 * layer))) []) (\<lambda>fc.
     e_bind (lift_sum (features_of fc)) (\<lambda>features.
       if \<not> truthy features then wbd_tokens ar query conditions layers
       else
         e_bind (lift_sum (py_len features)) (\<lambda>n.
           if n = 1 then e_bind (lift_sum (first_geometry features)) (\<lambda>g. e_ret (Some g))
           else e_bind (lift_sum (ambiguous_name ar query layer features)) (\<lambda>m. e_raise (ValueError m)))))"

definition query_wbd_by_tokens :: "area_services \<Rightarrow> string \<Rightarrow> (json list \<times> json) option op" where
  "query_wbd_by_tokens ar query =
     (let tokens = filter (\<lambda>t. t \<notin> set WBD_STOPWORDS) (py_words (py_lower query)) in
      if tokens = [] then e_ret None
      else wbd_tokens ar query (py_join '' AND '' (map (\<lambda>t. like_clause (sql_quote t)) tokens)) WBD_LAYERS)"

definition query_wbd_by_name :: "area_services \<Rightarrow> string \<Rightarrow> (json list \<times> json) option op" where
  "query_wbd_by_name ar query =
     (if py_strip query = [] then e_raise (ValueError ''cannot search USGS WBD with an empty query'')
      else
        e_bind (query_wbd_by_like ar query) (\<lambda>result.
          if result \<noteq> None then e_ret result else query_wbd_by_tokens ar query))"

definition NOMINATIM_URL :: string where
  "NOMINATIM_URL = ''https://nominatim.openstreetmap.org/search''"

definition NOMINATIM_HEADERS :: "(string \<times> string) list" where
  "NOMINATIM_HEADERS = [(''User-Agent'', ''earthdata-mcp/0.1 (NASA Earthdata MCP server)'')]"

definition nominatim_params :: "string \<Rightarrow> dict" where
  "nominatim_params query =
     [(''q'', JStr query), (''format'', JStr ''json''), (''limit'', JInt 1), (''polygon_geojson'', JInt 1)]"

text \<open>A result: the sides in text or numbers, south first, and its polygon if it has one.\<close>

definition nominatim_result :: "area_services \<Rightarrow> string \<Rightarrow> json \<Rightarrow> exn + json list \<times> json" where
  "nominatim_result ar query result =
     s_bind (py_get result ''boundingbox'' JNull) (\<lambda>box.
       let unusable = Inl (ValueError (''Nominatim result for '' @ py_repr query @ '' has no usable bounding box'')) in
       if \<not> truthy box then unusable
       else
         s_bind (py_len box) (\<lambda>n.
           if n \<noteq> 4 then unusable
           else
             s_bind (py_iter box) (\<lambda>sides.
             s_bind (py_floats (ar_read_float ar) sides) (\<lambda>fs.
             s_bind (py_get result ''geojson'' JNull) (\<lambda>raw.
             s_bind (if truthy raw then py_get raw ''type'' JNull else Inr JNull) (\<lambda>t.
               let geojson = (if truthy raw \<and> (t = JStr ''Polygon'' \<or> t = JStr ''MultiPolygon'') then raw else JNull)
               in Inr (map JFloat [fs ! 2, fs ! 0, fs ! 3, fs ! 1], geojson)))))))"

definition geocode_nominatim :: "area_services \<Rightarrow> string \<Rightarrow> (json list \<times> json) op" where
  "geocode_nominatim ar query =
     e_bind (remote_json ar ''Nominatim'' query NOMINATIM_URL
               (nominatim_params query @ [(''featuretype'', JStr ''relation'')]) NOMINATIM_HEADERS) (\<lambda>preferred.
     e_bind (if truthy preferred then e_ret preferred
             else remote_json ar ''Nominatim'' query NOMINATIM_URL (nominatim_params query) NOMINATIM_HEADERS) (\<lambda>results.
       if \<not> truthy results
       then e_raise (ValueError (''Nominatim found no results for location '' @ py_repr query))
       else e_bind (lift_sum (py_at results 0)) (\<lambda>result. lift_sum (nominatim_result ar query result))))"

section \<open>Locations\<close>

datatype location = Text string | Geometry dict

record area =
  a_bbox :: "json list"
  a_geojson :: json
  a_source :: string
  a_query :: json

definition new_area :: "json list \<Rightarrow> json \<Rightarrow> string \<Rightarrow> string option \<Rightarrow> area" where
  "new_area bbox geojson source query =
     \<lparr>a_bbox = bbox, a_geojson = geojson, a_source = source, a_query = json_opt query\<rparr>"

definition try_parse_json :: "area_services \<Rightarrow> string \<Rightarrow> exn + json" where
  "try_parse_json ar s =
     (case ar_loads ar s of
        Inl (ValueError _) \<Rightarrow> Inr JNull
      | Inl (TypeError _) \<Rightarrow> Inr JNull
      | r \<Rightarrow> r)"

definition area_of_geojson :: "dict \<Rightarrow> exn + area" where
  "area_of_geojson obj = s_bind (bbox_from_geojson (JObj obj)) (\<lambda>b. Inr (new_area b (JObj obj) ''geojson'' None))"

definition point_area :: "rat \<times> rat \<Rightarrow> area" where
  "point_area p =
     (case p of (lon, lat) \<Rightarrow>
        new_area (map JFloat [lon, lat, lon, lat])
          (JObj [(''type'', JStr ''Point''), (''coordinates'', JArr [JFloat lon, JFloat lat])]) ''point'' None)"

text \<open>A name: the curated table, Nominatim, then the watershed names, then the point Nominatim found.\<close>

definition nominatim_or_error :: "area_services \<Rightarrow> string \<Rightarrow> (exn + json list \<times> json) op" where
  "nominatim_or_error ar query =
     e_catch (e_bind (geocode_nominatim ar query) (\<lambda>g. e_ret (Inr g)))
       (\<lambda>e. case e of ValueError m \<Rightarrow> e_ret (Inl (ValueError m)) | _ \<Rightarrow> e_raise e)"

definition resolve_name :: "area_services \<Rightarrow> string \<Rightarrow> area op" where
  "resolve_name ar query =
     e_bind (lift_sum (lookup_region ar query)) (\<lambda>region.
       case region of
         Some bbox \<Rightarrow> e_ret (new_area (map JFloat bbox) JNull ''region_table'' (Some query))
       | None \<Rightarrow>
           e_bind (nominatim_or_error ar query) (\<lambda>found.
             case found of
               Inr (bbox, geo) \<Rightarrow>
                 if geo \<noteq> JNull then e_ret (new_area bbox geo ''nominatim'' (Some query))
                 else
                   e_bind (query_wbd_by_name ar query) (\<lambda>result.
                     e_ret (case result of
                       Some (wbd, g) \<Rightarrow> new_area wbd g ''usgs_wbd'' (Some query)
                     | None \<Rightarrow> new_area bbox JNull ''nominatim_point'' (Some query)))
             | Inl _ \<Rightarrow>
                 e_bind (query_wbd_by_name ar query) (\<lambda>result.
                   case result of
                     Some (wbd, g) \<Rightarrow> e_ret (new_area wbd g ''usgs_wbd'' (Some query))
                   | None \<Rightarrow> e_raise (ValueError
                       (''Neither Nominatim nor USGS WBD found results for location '' @ py_repr query)))))"

definition resolve_code :: "area_services \<Rightarrow> string \<Rightarrow> area op" where
  "resolve_code ar s =
     e_bind (lift_sum (classify_digit_code s)) (\<lambda>code.
       case code of
         Some (Huc, d) \<Rightarrow>
           e_bind (query_wbd_by_huc ar d) (\<lambda>(bbox, geometry). e_ret (new_area bbox geometry ''usgs_wbd'' (Some d)))
       | Some (Fips, d) \<Rightarrow>
           e_bind (query_fips ar d) (\<lambda>(bbox, geometry). e_ret (new_area bbox geometry ''census_fips'' (Some d)))
       | None \<Rightarrow> resolve_name ar s)"

definition resolve_location :: "area_services \<Rightarrow> location \<Rightarrow> area op" where
  "resolve_location ar location =
     (case location of
        Geometry obj \<Rightarrow> lift_sum (area_of_geojson obj)
      | Text s \<Rightarrow>
          if py_strip s = [] then e_raise (ValueError ''location must be provided'')
          else
            e_bind (lift_sum (try_parse_json ar s)) (\<lambda>parsed.
              case parsed of
                JObj obj \<Rightarrow> lift_sum (area_of_geojson obj)
              | _ \<Rightarrow>
                  if count_list s CHR '','' = 3
                  then lift_sum (s_bind (parse_bbox_string ar s) (\<lambda>b. Inr (new_area (map JFloat b) JNull ''bbox'' None)))
                  else
                    case (if count_list s CHR '','' = 1 then try_parse_point ar s else None) of
                      Some p \<Rightarrow> e_ret (point_area p)
                    | None \<Rightarrow> resolve_code ar s))"

definition area_payload :: "area \<Rightarrow> dict" where
  "area_payload a =
     [(''source'', JStr (a_source a)), (''bbox'', JArr (a_bbox a)), (''geojson'', a_geojson a), (''query'', a_query a)]"

definition define_area_of_interest :: "area_services \<Rightarrow> location \<Rightarrow> string \<Rightarrow> string option \<Rightarrow> dict op" where
  "define_area_of_interest ar location ws edl_token =
     e_bind (op_parse_token (ar_platform ar) edl_token) (\<lambda>_.
     e_bind (resolve_location ar location) (\<lambda>a.
     e_bind (op_put_handle ws AOI (area_payload a)) (\<lambda>handle.
     e_bind (lift_sum (geometry_summary (a_geojson a))) (\<lambda>summary.
       e_ret [(''handle'', JStr handle), (''bbox'', JArr (a_bbox a)), (''geometry_summary'', summary),
              (''source'', JStr (a_source a))]))))"

section \<open>The box of a geometry\<close>

text \<open>
  The positions of a GeoJSON object, written apart from the code: where a coordinate array starts with a
  number it is a position, otherwise its members are searched; features and collections hold geometries.
\<close>

inductive at_coords :: "json \<Rightarrow> json list \<Rightarrow> bool" where
  here: "py_number x \<noteq> None \<Longrightarrow> at_coords (JArr (x # xs)) (x # xs)"
| deeper: "py_number (hd xs) = None \<Longrightarrow> x \<in> set xs \<Longrightarrow> at_coords x p \<Longrightarrow> at_coords (JArr xs) p"

inductive has_position :: "json \<Rightarrow> json list \<Rightarrow> bool" where
  feature: "jget obj ''type'' = JStr ''Feature'' \<Longrightarrow> has_position (jget obj ''geometry'') p \<Longrightarrow> has_position (JObj obj) p"
| features: "jget obj ''type'' = JStr ''FeatureCollection'' \<Longrightarrow> jget obj ''features'' = JArr gs \<Longrightarrow> g \<in> set gs \<Longrightarrow>
    has_position g p \<Longrightarrow> has_position (JObj obj) p"
| geometries: "jget obj ''type'' = JStr ''GeometryCollection'' \<Longrightarrow> jget obj ''geometries'' = JArr gs \<Longrightarrow> g \<in> set gs \<Longrightarrow>
    has_position g p \<Longrightarrow> has_position (JObj obj) p"
| bare: "jget obj ''type'' \<notin> {JStr ''Feature'', JStr ''FeatureCollection'', JStr ''GeometryCollection''} \<Longrightarrow>
    at_coords (jget obj ''coordinates'') p \<Longrightarrow> has_position (JObj obj) p"

inductive_cases at_coords_arr: "at_coords (JArr xs) p"
inductive_simps has_position_obj: "has_position (JObj obj) p"

lemma no_coords: "\<not> at_coords c p" if "\<And>xs. c \<noteq> JArr xs"
  using that by (auto elim: at_coords.cases)

lemma s_each_set:
  assumes "s_each f xs = Inr yss" and "\<And>x ys. x \<in> set xs \<Longrightarrow> f x = Inr ys \<Longrightarrow> set ys = g ` P x"
  shows "set (concat yss) = g ` (\<Union>x\<in>set xs. P x)"
  using assms
proof (induction xs arbitrary: yss)
  case (Cons x xs)
  from Cons.prems(1) obtain ys zss where "f x = Inr ys" "s_each f xs = Inr zss" "yss = ys # zss" by (auto simp: sum_simps)
  moreover have "set (concat zss) = g ` (\<Union>y\<in>set xs. P y)"
    using Cons.IH [OF \<open>s_each f xs = Inr zss\<close>] Cons.prems(2) by simp
  moreover have "set ys = g ` P x" using Cons.prems(2) \<open>f x = Inr ys\<close> by simp
  ultimately show ?case by (simp add: image_Un)
qed simp

lemma extract_pairs_set: "extract_pairs c = Inr ps \<Longrightarrow> set ps = take 2 ` {p. at_coords c p}"
proof (induction c arbitrary: ps rule: extract_pairs.induct)
  case (1 c)
  show ?case
  proof (cases "\<exists>x xs. c = JArr (x # xs)")
    case True
    then obtain x xs where c: "c = JArr (x # xs)" by blast
    show ?thesis
    proof (cases "py_number x")
      case None
      then obtain pss where e: "s_each extract_pairs (x # xs) = Inr pss" "ps = concat pss"
        using "1.prems" by (auto simp: c extract_pairs.simps [of "JArr _"] sum_simps simp del: s_each.simps)
      have "set (concat pss) = take 2 ` (\<Union>y\<in>set (x # xs). {p. at_coords y p})"
        by (rule s_each_set [OF e(1)]) (use "1.IH" [of "x # xs" x xs] None in \<open>auto simp: c\<close>)
      moreover have "(\<Union>y\<in>set (x # xs). {p. at_coords y p}) = {p. at_coords c p}"
        using None by (auto simp: c elim!: at_coords_arr intro: deeper)
      ultimately show ?thesis by (simp add: e(2))
    next
      case (Some n)
      then have "{p. at_coords c p} = {x # xs}"
        by (auto simp: c here elim!: at_coords_arr)
      moreover have "ps = [take 2 (x # xs)]" using "1.prems" Some unfolding c by (subst (asm) extract_pairs.simps) simp
      ultimately show ?thesis by simp
    qed
  next
    case False
    then have "ps = []"
      using "1.prems" False by (subst (asm) extract_pairs.simps) (auto split: if_splits json.splits list.splits)
    moreover have "\<not> at_coords c p" for p
    proof
      assume "at_coords c p"
      then obtain xs y where "c = JArr xs" "y \<in> set xs" by cases force+
      with False show False by (cases xs) auto
    qed
    ultimately show ?thesis by simp
  qed
qed

lemma each_member_set:
  assumes "(case map_of obj key of
              None \<Rightarrow> Inr []
            | Some (JArr xs) \<Rightarrow> s_bind (s_each f xs) (\<lambda>ps. Inr (concat ps))
            | Some x \<Rightarrow> s_bind (py_iter x) (\<lambda>xs. if xs = [] then Inr [] else Inl (AttributeError ''get''))) = Inr ps"
    and "\<And>gs g qs. map_of obj key = Some (JArr gs) \<Longrightarrow> g \<in> set gs \<Longrightarrow> f g = Inr qs \<Longrightarrow> set qs = h ` P g"
  shows "set ps = h ` {p. \<exists>gs g. jget obj key = JArr gs \<and> g \<in> set gs \<and> p \<in> P g}"
proof (cases "\<exists>gs. map_of obj key = Some (JArr gs)")
  case True
  then obtain gs where gs: "map_of obj key = Some (JArr gs)" by blast
  with assms(1) obtain pss where e: "s_each f gs = Inr pss" "ps = concat pss" by (auto simp: sum_simps)
  have "set ps = h ` (\<Union>g\<in>set gs. P g)" unfolding e(2) by (rule s_each_set [OF e(1)]) (use assms(2) gs in auto)
  moreover have "(\<Union>g\<in>set gs. P g) = {p. \<exists>gs g. jget obj key = JArr gs \<and> g \<in> set gs \<and> p \<in> P g}"
    using gs by (auto simp: jget_def)
  ultimately show ?thesis by simp
next
  case False
  then have "ps = []" using assms(1) by (auto simp: sum_simps split: option.splits json.splits if_splits)
  moreover have "jget obj key \<noteq> JArr gs" for gs using False by (auto simp: jget_def split: option.splits)
  ultimately show ?thesis by simp
qed

lemma flatten_coords_set: "flatten_coords g = Inr ps \<Longrightarrow> set ps = take 2 ` {p. has_position g p}"
proof (induction g arbitrary: ps rule: flatten_coords.induct)
  case (1 obj)
  let ?t = "jget obj ''type''"
  consider (feature) "?t = JStr ''Feature''" | (features) "?t = JStr ''FeatureCollection''"
    | (geometries) "?t = JStr ''GeometryCollection''"
    | (bare) "?t \<notin> {JStr ''Feature'', JStr ''FeatureCollection'', JStr ''GeometryCollection''}" by blast
  then show ?case
  proof cases
    case feature
    then have eq: "{p. has_position (JObj obj) p} = {p. has_position (jget obj ''geometry'') p}"
      by (simp add: has_position_obj)
    show ?thesis
    proof (cases "\<exists>g. map_of obj ''geometry'' = Some g \<and> truthy g")
      case True
      then obtain g where g: "map_of obj ''geometry'' = Some g" "truthy g" by blast
      with "1.prems" feature have "flatten_coords g = Inr ps" by (simp add: flatten_coords.simps(1) Let_def)
      moreover have "set ps = take 2 ` {p. has_position g p}"
        using "1.IH" feature g \<open>flatten_coords g = Inr ps\<close> by blast
      ultimately show ?thesis using eq g(1) by (simp add: jget_def)
    next
      case False
      then have "ps = []" using "1.prems" feature
        by (auto simp: flatten_coords.simps(1) Let_def split: option.splits if_splits)
      moreover have "\<not> has_position (jget obj ''geometry'') p" for p
      proof
        assume p: "has_position (jget obj ''geometry'') p"
        then have "\<exists>d. jget obj ''geometry'' = JObj d" by (cases rule: has_position.cases) auto
        with False have "jget obj ''geometry'' = JObj []" by (auto simp: jget_def split: option.splits)
        with p show False by (simp add: has_position_obj no_coords jget_def)
      qed
      ultimately show ?thesis using eq by simp
    qed
  next
    case features
    then have "{p. has_position (JObj obj) p} =
        {p. \<exists>gs g. jget obj ''features'' = JArr gs \<and> g \<in> set gs \<and> p \<in> {p. has_position g p}}"
      by (simp add: has_position_obj)
    moreover have "set ps = take 2 ` {p. \<exists>gs g. jget obj ''features'' = JArr gs \<and> g \<in> set gs \<and> p \<in> {p. has_position g p}}"
    proof (rule each_member_set)
      show "(case map_of obj ''features'' of
              None \<Rightarrow> Inr []
            | Some (JArr xs) \<Rightarrow> s_bind (s_each flatten_coords xs) (\<lambda>ps. Inr (concat ps))
            | Some x \<Rightarrow> s_bind (py_iter x) (\<lambda>xs. if xs = [] then Inr [] else Inl (AttributeError ''get''))) = Inr ps"
        using "1.prems" features by (simp add: flatten_coords.simps(1) Let_def)
    qed (use "1.IH" in blast)
    ultimately show ?thesis by simp
  next
    case geometries
    then have "{p. has_position (JObj obj) p} =
        {p. \<exists>gs g. jget obj ''geometries'' = JArr gs \<and> g \<in> set gs \<and> p \<in> {p. has_position g p}}"
      by (simp add: has_position_obj)
    moreover have "set ps = take 2 ` {p. \<exists>gs g. jget obj ''geometries'' = JArr gs \<and> g \<in> set gs \<and> p \<in> {p. has_position g p}}"
    proof (rule each_member_set)
      show "(case map_of obj ''geometries'' of
              None \<Rightarrow> Inr []
            | Some (JArr xs) \<Rightarrow> s_bind (s_each flatten_coords xs) (\<lambda>ps. Inr (concat ps))
            | Some x \<Rightarrow> s_bind (py_iter x) (\<lambda>xs. if xs = [] then Inr [] else Inl (AttributeError ''get''))) = Inr ps"
        using "1.prems" geometries by (simp add: flatten_coords.simps(1) Let_def)
    qed (use "1.IH" in blast)
    ultimately show ?thesis by simp
  next
    case bare
    then have "{p. has_position (JObj obj) p} = {p. at_coords (jget obj ''coordinates'') p}"
      by (simp add: has_position_obj)
    with "1.prems" bare show ?thesis
      by (simp add: flatten_coords.simps(1) Let_def extract_pairs_set)
  qed
qed simp_all

lemma py_min_least:
  "list_all (\<lambda>x. py_number x \<noteq> None) (m # xs) \<Longrightarrow>
     \<exists>r. py_min m xs = Inr r \<and> r \<in> set (m # xs) \<and> (\<forall>x\<in>set (m # xs). the (py_number r) \<le> the (py_number x))"
proof (induction xs arbitrary: m)
  case (Cons x xs)
  then obtain a b where n: "py_number m = Some a" "py_number x = Some b" by auto
  then have "py_less x m = Inr (b < a)" by simp
  moreover obtain r where "py_min (if b < a then x else m) xs = Inr r" "r \<in> set ((if b < a then x else m) # xs)"
    "\<forall>y\<in>set ((if b < a then x else m) # xs). the (py_number r) \<le> the (py_number y)"
    using Cons.IH [of "if b < a then x else m"] Cons.prems by (cases "b < a") auto
  ultimately show ?case using n by (intro exI [of _ r]) (auto split: if_splits)
qed simp

lemma py_max_greatest:
  "list_all (\<lambda>x. py_number x \<noteq> None) (m # xs) \<Longrightarrow>
     \<exists>r. py_max m xs = Inr r \<and> r \<in> set (m # xs) \<and> (\<forall>x\<in>set (m # xs). the (py_number x) \<le> the (py_number r))"
proof (induction xs arbitrary: m)
  case (Cons x xs)
  then obtain a b where n: "py_number m = Some a" "py_number x = Some b" by auto
  then have "py_less m x = Inr (a < b)" by simp
  moreover obtain r where "py_max (if a < b then x else m) xs = Inr r" "r \<in> set ((if a < b then x else m) # xs)"
    "\<forall>y\<in>set ((if a < b then x else m) # xs). the (py_number y) \<le> the (py_number r)"
    using Cons.IH [of "if a < b then x else m"] Cons.prems by (cases "a < b") auto
  ultimately show ?case using n by (intro exI [of _ r]) (auto split: if_splits)
qed simp

text \<open>
  The box of a GeoJSON object. Where every position of the object starts with two numbers, the box that
  is computed encloses all positions and touches one on each of its four sides; an object without positions is
  refused. Positions are defined apart from the code, over geometries, features and collections nested at will.
\<close>

theorem geojson_box_tight:
  assumes "flatten_coords g = Inr ps"
    and "\<forall>p. has_position g p \<longrightarrow> (\<exists>x y zs. p = x # y # zs \<and> py_number x \<noteq> None \<and> py_number y \<noteq> None)"
  shows "case bbox_from_geojson g of
      Inl e \<Rightarrow> (\<nexists>p. has_position g p) \<and> e = ValueError ''GeoJSON contains no coordinate pairs''
    | Inr box \<Rightarrow>
        \<exists>w s e n. map py_number box = [Some w, Some s, Some e, Some n]
          \<and> (\<forall>x y zs. has_position g (x # y # zs) \<longrightarrow>
               w \<le> the (py_number x) \<and> the (py_number x) \<le> e \<and> s \<le> the (py_number y) \<and> the (py_number y) \<le> n)
          \<and> (\<exists>p. has_position g p \<and> py_number (p ! 0) = Some w) \<and> (\<exists>p. has_position g p \<and> py_number (p ! 0) = Some e)
          \<and> (\<exists>p. has_position g p \<and> py_number (p ! 1) = Some s) \<and> (\<exists>p. has_position g p \<and> py_number (p ! 1) = Some n)"
proof (cases "ps = []")
  case True
  then show ?thesis using flatten_coords_set [OF assms(1)] assms(1) by (simp add: bbox_from_geojson_def)
next
  case False
  have at: "\<exists>x y. c = [x, y] \<and> py_number x \<noteq> None \<and> py_number y \<noteq> None \<and> (\<exists>zs. has_position g (x # y # zs))" if "c \<in> set ps" for c
    using that assms(2) unfolding flatten_coords_set [OF assms(1)] by force
  let ?xs = "map (\<lambda>c. c ! 0) ps" and ?ys = "map (\<lambda>c. c ! 1) ps"
  have "s_each (\<lambda>c. py_at (JArr c) 0) ps = Inr ?xs" "s_each (\<lambda>c. py_at (JArr c) 1) ps = Inr ?ys"
    using at by (auto simp: s_each_Inr_iff list_all2_map2 list_all2_same py_at_def) force+
  moreover have numbers: "list_all (\<lambda>x. py_number x \<noteq> None) ?xs" "list_all (\<lambda>x. py_number x \<noteq> None) ?ys"
    using at by (auto simp: list_all_iff) force+
  moreover have split: "hd ?xs # tl ?xs = ?xs" "hd ?ys # tl ?ys = ?ys" using False by (cases ps; simp)+
  moreover obtain w e where we: "py_min (hd ?xs) (tl ?xs) = Inr w" "w \<in> set ?xs" "\<forall>x\<in>set ?xs. the (py_number w) \<le> the (py_number x)"
    "py_max (hd ?xs) (tl ?xs) = Inr e" "e \<in> set ?xs" "\<forall>x\<in>set ?xs. the (py_number x) \<le> the (py_number e)"
    using py_min_least [of "hd ?xs" "tl ?xs"] py_max_greatest [of "hd ?xs" "tl ?xs"] numbers(1) unfolding split by blast
  moreover obtain s n where sn: "py_min (hd ?ys) (tl ?ys) = Inr s" "s \<in> set ?ys" "\<forall>x\<in>set ?ys. the (py_number s) \<le> the (py_number x)"
    "py_max (hd ?ys) (tl ?ys) = Inr n" "n \<in> set ?ys" "\<forall>x\<in>set ?ys. the (py_number x) \<le> the (py_number n)"
    using py_min_least [of "hd ?ys" "tl ?ys"] py_max_greatest [of "hd ?ys" "tl ?ys"] numbers(2) unfolding split by blast
  ultimately have box: "bbox_from_geojson g = Inr [w, s, e, n]"
    using False assms(1) by (simp add: bbox_from_geojson_def)
  have inside: "x \<in> set ?xs \<and> y \<in> set ?ys" if "has_position g (x # y # zs)" for x y zs
  proof -
    have "[x, y] \<in> set ps" using that unfolding flatten_coords_set [OF assms(1)] by force
    then show ?thesis by force
  qed
  have number: "\<exists>r. py_number x = Some r" if "x \<in> set ?xs \<or> x \<in> set ?ys" for x
    using that numbers by (auto simp: list_all_iff)
  have side: "\<exists>p. has_position g p \<and> py_number (p ! 0) = py_number x" if x: "x \<in> set ?xs" for x
    using x at by force
  have side': "\<exists>p. has_position g p \<and> py_number (p ! 1) = py_number y" if y: "y \<in> set ?ys" for y
    using y at by force
  obtain rw rs re rn where r: "py_number w = Some rw" "py_number s = Some rs" "py_number e = Some re" "py_number n = Some rn"
    using number we(2,5) sn(2,5) by metis
  have bounds: "rw \<le> the (py_number x) \<and> the (py_number x) \<le> re \<and> rs \<le> the (py_number y) \<and> the (py_number y) \<le> rn"
    if "has_position g (x # y # zs)" for x y zs
    using inside [OF that] we(3,6) sn(3,6) r by auto
  show ?thesis
    unfolding box sum.case
    by (intro exI [of _ rw] exI [of _ rs] exI [of _ re] exI [of _ rn] conjI allI impI)
      (use r bounds side [OF we(2)] side [OF we(5)] side' [OF sn(2)] side' [OF sn(5)] in auto)
qed

definition triangle :: dict where
  "triangle =
     [(''type'', JStr ''Feature''),
      (''geometry'', JObj [(''type'', JStr ''Polygon''),
         (''coordinates'', JArr [JArr [JArr [JInt 3, JInt 1], JArr [JInt (- 2), JFloat 2, JInt 90], JArr [JInt 0, JInt (- 7)]]])])]"

lemma triangle_coords:
  "flatten_coords (JObj triangle) = Inr [[JInt 3, JInt 1], [JInt (- 2), JFloat 2], [JInt 0, JInt (- 7)]]"
  by (simp add: triangle_def flatten_coords.simps(1) extract_pairs.simps jget_def numeral_2_eq_2)

lemma triangle_position:
  "has_position (JObj triangle) p \<longleftrightarrow>
     p \<in> {[JInt 3, JInt 1], [JInt (- 2), JFloat 2, JInt 90], [JInt 0, JInt (- 7)]}"
proof -
  have number: "at_coords (JArr (x # xs)) p \<longleftrightarrow> p = x # xs" if "py_number x \<noteq> None" for x xs
    using that by (auto intro: here elim: at_coords_arr)
  have nested: "at_coords (JArr (JArr ys # xs)) p \<longleftrightarrow> (\<exists>c\<in>set (JArr ys # xs). at_coords c p)" for ys xs
    by (rule iffI) (fastforce elim: at_coords_arr, fastforce intro: deeper)
  show ?thesis unfolding triangle_def by (simp add: has_position_obj jget_def number nested)
qed

theorem geojson_box_tight_witness:
  "bbox_from_geojson (JObj triangle) = Inr [JInt (- 2), JInt (- 7), JInt 3, JFloat 2]
   \<and> (\<exists>w s e n. map py_number [JInt (- 2), JInt (- 7), JInt 3, JFloat 2] = [Some w, Some s, Some e, Some n]
        \<and> s = - 7 \<and> (\<exists>p. has_position (JObj triangle) p \<and> py_number (p ! 1) = Some s))"
proof -
  have box: "bbox_from_geojson (JObj triangle) = Inr [JInt (- 2), JInt (- 7), JInt 3, JFloat 2]"
    by (simp add: bbox_from_geojson_def triangle_coords py_at_def)
  have "\<forall>p. has_position (JObj triangle) p \<longrightarrow> (\<exists>x y zs. p = x # y # zs \<and> py_number x \<noteq> None \<and> py_number y \<noteq> None)"
    by (auto simp: triangle_position)
  from geojson_box_tight [OF triangle_coords this] show ?thesis unfolding box by auto
qed

section \<open>Which texts are boxes, points and codes\<close>

lemma split_parts:
  assumes "list_all (\<lambda>p. c \<notin> set p) ps" and "ps \<noteq> []"
  shows "py_split c (py_join [c] ps) = ps" and "count_list (py_join [c] ps) c = length ps - 1"
proof -
  have no: "py_split c p = [p]" "count_list p c = 0" if "c \<notin> set p" for p
    using that by (induction p) auto
  have more: "py_split c (p @ c # s) = p # py_split c s" "count_list (p @ c # s) c = Suc (count_list s c)" if "c \<notin> set p" for p s
    using that by (induction p) auto
  show "py_split c (py_join [c] ps) = ps" and "count_list (py_join [c] ps) c = length ps - 1"
    using assms by (induction "[c]" ps rule: py_join.induct) (auto simp: no more)
qed

text \<open>The box a text of four comma-separated parts stands for, or \<open>None\<close>: four numbers within range, south not above north.\<close>

definition box_of_parts :: "(string \<Rightarrow> rat option) \<Rightarrow> string list \<Rightarrow> rat list option" where
  "box_of_parts read_float parts =
     (case map (\<lambda>p. read_float (py_strip p)) parts of
        [Some w, Some s, Some e, Some n] \<Rightarrow>
          if \<bar>w\<bar> \<le> 180 \<and> \<bar>e\<bar> \<le> 180 \<and> - 90 \<le> s \<and> s \<le> n \<and> n \<le> 90 then Some [w, s, e, n] else None
      | _ \<Rightarrow> None)"

lemma parse_bbox_decided:
  assumes "length parts = 4" and "list_all (\<lambda>p. CHR '','' \<notin> set p) parts"
  shows "case parse_bbox_string ar (py_join '','' parts) of
      Inl e \<Rightarrow> box_of_parts (ar_read_float ar) parts = None \<and> (\<exists>m. e = ValueError m)
    | Inr b \<Rightarrow> box_of_parts (ar_read_float ar) parts = Some b"
proof -
  have split: "py_split CHR '','' (py_join '','' parts) = parts" using assms(1) by (intro split_parts(1) [OF assms(2)]) auto
  from assms(1) obtain p q r s where parts: "parts = [p, q, r, s]" by (auto simp: length_Suc_conv numeral_eq_Suc)
  show ?thesis
    unfolding parse_bbox_string_def split
    by (auto simp: parts box_of_parts_def validate_bbox_def abs_le_iff split: option.split)
qed

lemma resolve_box_text:
  assumes "length parts = 4" and "list_all (\<lambda>p. CHR '','' \<notin> set p) parts"
    and "py_strip (py_join '','' parts) \<noteq> []" and "try_parse_json ar (py_join '','' parts) = Inr j" and "\<nexists>d. j = JObj d"
  shows "resolve_location ar (Text (py_join '','' parts)) w =
    (case parse_bbox_string ar (py_join '','' parts) of
       Inl e \<Rightarrow> (Inl e, w)
     | Inr b \<Rightarrow> (Inr (new_area (map JFloat b) JNull ''bbox'' None), w))"
proof -
  have count: "count_list (py_join '','' parts) CHR '','' = 3"
    using assms(1) by (subst split_parts(2) [OF assms(2)]) auto
  show ?thesis
    using assms(3-5) by (cases j) (auto simp: resolve_location_def count lift_sum_def eff_simps split: sum.split)
qed

text \<open>The decision table of codes, over the texts themselves.\<close>

lemma drop_prefix: "list_all P xs \<Longrightarrow> ys \<noteq> [] \<Longrightarrow> \<not> P (hd ys) \<Longrightarrow> dropWhile P (xs @ ys) = ys"
  by (induction xs) (auto simp: neq_Nil_conv)

lemma strip_plain:
  assumes "list_all is_space a" and "list_all is_space b" and "s \<noteq> []" and "\<not> is_space (hd s)" and "\<not> is_space (last s)"
  shows "py_strip (a @ s @ b) = s"
proof -
  have "dropWhile is_space (a @ s @ b) = s @ b"
    using assms(1,3,4) by (intro drop_prefix) auto
  moreover have "dropWhile is_space (rev b @ rev s) = rev s"
    using assms(2,3,5) by (intro drop_prefix) (auto simp: list_all_iff hd_rev)
  ultimately show ?thesis by (simp add: py_strip_def py_lstrip_def py_rstrip_def)
qed

lemma digit_not_space: "is_digit c \<Longrightarrow> \<not> is_space c"
  by (auto simp: is_digit_def is_space_def)

lemma digit_lower: "is_digit c \<Longrightarrow> lower_char c = c"
  by (auto simp: is_digit_def lower_char_def less_eq_char_def)

lemma digits_ends: "all_digits d \<Longrightarrow> d \<noteq> [] \<and> is_digit (hd d) \<and> is_digit (last d)"
  by (auto simp: all_digits_def list_all_iff)

lemma normalize_prefix_bare:
  assumes "all_digits d" and "word \<noteq> []" and "\<not> is_digit (hd word)"
  shows "normalize_prefix word d = None"
proof -
  have "py_strip d = d"
    using strip_plain [of "[]" "[]" d] digits_ends [OF assms(1)] digit_not_space by auto
  moreover have "py_lower (take (length word) d) \<noteq> word"
    using digits_ends [OF assms(1)] assms(2,3)
    by (cases d; cases word) (auto simp: py_lower_def digit_lower)
  ultimately show ?thesis by (simp add: normalize_prefix_def Let_def)
qed

lemma normalize_prefix_form:
  assumes "py_lower w = word" and "word \<noteq> []" and "\<not> is_space (hd w)" and "hy \<in> {[], ''-''}" and "list_all is_digit lv"
    and "list_all is_space bl" and "bl \<noteq> []" and "all_digits d" and "list_all is_space a" and "list_all is_space b"
  shows "normalize_prefix word (a @ w @ hy @ lv @ bl @ d @ b) = Some d"
proof -
  have w: "length word = length w" "w \<noteq> []" using assms(1,2) by (auto simp: py_lower_def)
  have "py_strip (a @ (w @ hy @ lv @ bl @ d) @ b) = w @ hy @ lv @ bl @ d"
    by (rule strip_plain) (use assms digits_ends [OF assms(8)] digit_not_space w(2) in \<open>auto simp: hd_append\<close>)
  moreover have hyphen: "(case hy @ lv @ bl @ d of c # cs \<Rightarrow> if c = CHR ''-'' then cs else hy @ lv @ bl @ d | [] \<Rightarrow> []) = lv @ bl @ d"
    using assms(4,5,6,7) by (cases lv; cases bl) (auto simp: is_digit_def is_space_def)
  moreover have "dropWhile is_digit (lv @ bl @ d) = bl @ d"
    using assms(5-7) digit_not_space by (intro drop_prefix) (auto simp: neq_Nil_conv)
  moreover have "dropWhile is_space (bl @ d) = d"
    using assms(6) digits_ends [OF assms(8)] digit_not_space by (intro drop_prefix) auto
  ultimately show ?thesis using assms(1,7,8) w(1) by (simp add: normalize_prefix_def Let_def)
qed

lemma classify_bare_digits:
  assumes "all_digits d"
  shows "classify_digit_code d =
    (if length d = 2 then Inl (ValueError (ambiguous_code d))
     else Inr (if length d = 5 then Some (Fips, d)
               else if length d \<in> {4, 6, 8, 10, 12} then Some (Huc, d) else None))"
proof -
  have "normalize_huc_prefix d = None" "normalize_fips_prefix d = None"
    using normalize_prefix_bare [OF assms] by (simp_all add: normalize_huc_prefix_def normalize_fips_prefix_def is_digit_def)
  then show ?thesis
    using assms by (auto simp: classify_digit_code_def classify_fips_def classify_bare_def is_huc_code_def is_fips_code_def
        HUC_LENGTHS_def FIPS_LENGTHS_def)
qed

lemma letter_blank: "py_lower w = c # cs \<Longrightarrow> \<not> is_space c \<Longrightarrow> \<not> is_space (hd w)"
  by (cases w) (auto simp: py_lower_def lower_char_def is_space_def split: if_splits)

lemma not_digits: "py_lower w = c # cs \<Longrightarrow> \<not> is_digit c \<Longrightarrow> \<not> all_digits (a @ w @ s)"
  by (cases w) (auto simp: all_digits_def py_lower_def digit_lower)

lemma normalize_prefix_other:
  assumes "py_lower w = c # cs" and "\<not> is_space c" and "hd word \<noteq> c" and "word \<noteq> []" and "all_digits d"
    and "list_all is_space a" and "list_all is_space b"
  shows "normalize_prefix word (a @ w @ t @ d @ b) = None"
proof -
  have w: "w \<noteq> []" "py_lower [hd w] = [c]" using assms(1) by (auto simp: py_lower_def)
  have "py_strip (a @ (w @ t @ d) @ b) = w @ t @ d"
    using assms(5-7) letter_blank [OF assms(1,2)] w(1) digits_ends [OF assms(5)] digit_not_space by (intro strip_plain) auto
  moreover have "py_lower (take (length word) (w @ t @ d)) \<noteq> word"
    using assms(3,4) w by (cases w; cases word) (auto simp: py_lower_def)
  ultimately show ?thesis by (simp add: normalize_prefix_def Let_def)
qed

lemma classify_prefixed:
  assumes "all_digits d" and "hy \<in> {[], ''-''}" and "list_all is_digit lv"
    and "list_all is_space bl" and "bl \<noteq> []" and "list_all is_space a" and "list_all is_space b"
  shows "py_lower h = ''huc'' \<Longrightarrow> classify_digit_code (a @ h @ hy @ lv @ bl @ d @ b) =
      Inr (if length d \<in> {2, 4, 6, 8, 10, 12} then Some (Huc, d) else None)" (is "_ \<Longrightarrow> ?huc")
    and "py_lower f = ''fips'' \<Longrightarrow> classify_digit_code (a @ f @ hy @ lv @ bl @ d @ b) =
      Inr (if length d \<in> {2, 5} then Some (Fips, d) else None)" (is "_ \<Longrightarrow> ?fips")
proof -
  note form = normalize_prefix_form [OF _ _ _ assms(2-5,1,6,7)]
  note other = normalize_prefix_other [where t = "hy @ lv @ bl", OF _ _ _ _ assms(1,6,7)]
  note defs = classify_digit_code_def classify_fips_def classify_bare_def is_huc_code_def is_fips_code_def HUC_LENGTHS_def FIPS_LENGTHS_def
  show ?huc if h: "py_lower h = ''huc''"
  proof -
    have "normalize_huc_prefix (a @ h @ hy @ lv @ bl @ d @ b) = Some d"
      unfolding normalize_huc_prefix_def by (rule form [OF h]) (use letter_blank [OF h] in \<open>simp_all add: is_space_def\<close>)
    moreover have "normalize_fips_prefix (a @ h @ hy @ lv @ bl @ d @ b) = None"
      using other [OF h, of "''fips''"] by (simp add: normalize_fips_prefix_def is_space_def)
    moreover have "\<not> all_digits (a @ h @ hy @ lv @ bl @ d @ b)" by (rule not_digits [OF h]) (simp add: is_digit_def)
    ultimately show ?thesis using assms(1) by (auto simp: defs)
  qed
  show ?fips if f: "py_lower f = ''fips''"
  proof -
    have "normalize_fips_prefix (a @ f @ hy @ lv @ bl @ d @ b) = Some d"
      unfolding normalize_fips_prefix_def by (rule form [OF f]) (use letter_blank [OF f] in \<open>simp_all add: is_space_def\<close>)
    moreover have "normalize_huc_prefix (a @ f @ hy @ lv @ bl @ d @ b) = None"
      using other [OF f, of "''huc''"] by (simp add: normalize_huc_prefix_def is_space_def)
    moreover have "\<not> all_digits (a @ f @ hy @ lv @ bl @ d @ b)" by (rule not_digits [OF f]) (simp add: is_digit_def)
    ultimately show ?thesis using assms(1) by (auto simp: defs)
  qed
qed

text \<open>
  Which texts are boxes and codes. A text of four comma-separated parts is a box exactly when they are
  four numbers within range with south not above north, and a \<open>ValueError\<close> otherwise, in either case without a
  request; a text of digits is a county code at five, a watershed code at four, six, eight, ten or twelve and
  ambiguous at two; the word HUC or FIPS, in any case and with a hyphen and a level or without, decides for its
  system whenever the length is one of that system's. What is none of these is looked up as a name.
\<close>

theorem location_texts_decided:
  assumes "length parts = 4" and "list_all (\<lambda>p. CHR '','' \<notin> set p) parts"
    and "py_strip (py_join '','' parts) \<noteq> []" and "try_parse_json ar (py_join '','' parts) = Inr j" and "\<nexists>d. j = JObj d"
    and "all_digits d" and "hy \<in> {[], ''-''}" and "list_all is_digit lv"
    and "list_all is_space bl" and "bl \<noteq> []" and "list_all is_space a" and "list_all is_space b"
    and "py_lower h = ''huc''" and "py_lower f = ''fips''"
  shows "(case resolve_location ar (Text (py_join '','' parts)) w of
           (Inr area, w') \<Rightarrow> w' = w \<and> map_option (map JFloat) (box_of_parts (ar_read_float ar) parts) = Some (a_bbox area)
         | (Inl e, w') \<Rightarrow> w' = w \<and> box_of_parts (ar_read_float ar) parts = None \<and> (\<exists>m. e = ValueError m))
    \<and> classify_digit_code d =
        (if length d = 2 then Inl (ValueError (ambiguous_code d))
         else Inr (if length d = 5 then Some (Fips, d) else if length d \<in> {4, 6, 8, 10, 12} then Some (Huc, d) else None))
    \<and> classify_digit_code (a @ h @ hy @ lv @ bl @ d @ b) =
        Inr (if length d \<in> {2, 4, 6, 8, 10, 12} then Some (Huc, d) else None)
    \<and> classify_digit_code (a @ f @ hy @ lv @ bl @ d @ b) = Inr (if length d \<in> {2, 5} then Some (Fips, d) else None)"
proof (intro conjI)
  show "case resolve_location ar (Text (py_join '','' parts)) w of
           (Inr area, w') \<Rightarrow> w' = w \<and> map_option (map JFloat) (box_of_parts (ar_read_float ar) parts) = Some (a_bbox area)
         | (Inl e, w') \<Rightarrow> w' = w \<and> box_of_parts (ar_read_float ar) parts = None \<and> (\<exists>m. e = ValueError m)"
    using parse_bbox_decided [OF assms(1,2), of ar] unfolding resolve_box_text [OF assms(1-5)]
    by (auto simp: new_area_def split: sum.splits)
qed (rule classify_bare_digits [OF assms(6)] classify_prefixed [OF assms(6-12)] assms(13,14))+

section \<open>The handle of an area\<close>

lemma tables_remote_json:
  assumes "\<And>u p h. keeps same_tables (ar_get ar u p h)"
  shows "keeps same_tables (remote_json ar service query u p h)"
  unfolding remote_json_def by (intro keeps_tables assms)

lemma tables_wbd_like:
  assumes "\<And>u p h. keeps same_tables (ar_get ar u p h)"
  shows "keeps same_tables (wbd_like ar query layers)"
  by (induction layers) (auto intro!: keeps_tables tables_remote_json assms)

lemma tables_wbd_tokens:
  assumes "\<And>u p h. keeps same_tables (ar_get ar u p h)"
  shows "keeps same_tables (wbd_tokens ar query conditions layers)"
  by (induction layers) (auto intro!: keeps_tables tables_remote_json assms)

lemma tables_wbd_by_name:
  assumes "\<And>u p h. keeps same_tables (ar_get ar u p h)"
  shows "keeps same_tables (query_wbd_by_name ar query)"
  unfolding query_wbd_by_name_def query_wbd_by_like_def query_wbd_by_tokens_def Let_def
  by (intro keeps_tables tables_wbd_like tables_wbd_tokens assms)

lemma tables_geocode:
  assumes "\<And>u p h. keeps same_tables (ar_get ar u p h)"
  shows "keeps same_tables (geocode_nominatim ar query)" "keeps same_tables (nominatim_or_error ar query)"
proof -
  show g: "keeps same_tables (geocode_nominatim ar query)"
    unfolding geocode_nominatim_def by (intro keeps_tables tables_remote_json assms)
  show "keeps same_tables (nominatim_or_error ar query)"
    unfolding nominatim_or_error_def
    by (rule tables.keeps_catch, intro keeps_tables g, auto split: exn.split intro: keeps_tables)
qed

lemma tables_resolve_name:
  assumes "\<And>u p h. keeps same_tables (ar_get ar u p h)"
  shows "keeps same_tables (resolve_name ar query)"
  unfolding resolve_name_def
  by (intro keeps_tables tables_geocode tables_wbd_by_name assms)

lemma tables_resolve_code:
  assumes "\<And>u p h. keeps same_tables (ar_get ar u p h)"
  shows "keeps same_tables (resolve_code ar s)"
  unfolding resolve_code_def query_wbd_by_huc_def query_fips_def Let_def
  by (rule tables.keeps_bind, rule keeps_tables)
    (auto split: option.split prod.split code_system.split intro!: keeps_tables tables_remote_json tables_resolve_name assms)

lemma tables_resolve_location:
  assumes "\<And>u p h. keeps same_tables (ar_get ar u p h)"
  shows "keeps same_tables (resolve_location ar location)"
  unfolding resolve_location_def
  by (auto split: location.split json.split option.split intro!: keeps_tables tables_resolve_code assms)

text \<open>Every way to resolve a location gives four sides.\<close>

lemma box_length: "bbox_from_geojson g = Inr b \<Longrightarrow> length b = 4"
  by (auto simp: bbox_from_geojson_def sum_simps split: if_splits)

lemma first_geometry_box: "first_geometry fs = Inr (b, g) \<Longrightarrow> length b = 4"
  by (auto simp: first_geometry_def sum_simps dest: box_length)

lemma py_floats_length: "py_floats rf xs = Inr rs \<Longrightarrow> length rs = length xs"
  by (induction xs arbitrary: rs) (auto split: sum.splits)

definition boxes :: "(string \<times> rat list) list \<Rightarrow> bool" where
  "boxes t \<longleftrightarrow> (\<forall>b\<in>ran (map_of t). length b = 4)"

lemma boxes_update: "length b = 4 \<Longrightarrow> boxes t \<Longrightarrow> boxes (AList.update k b t)"
  by (auto simp: boxes_def update_conv' ran_def)

lemma boxes_fold: "length b = 4 \<Longrightarrow> boxes t \<Longrightarrow> boxes (fold (\<lambda>k t. AList.update k b t) ks t)"
  by (induction ks arbitrary: t) (auto intro: boxes_update)

lemma region_entry_boxes: "region_entry ar ke t = Inr t' \<Longrightarrow> boxes t \<Longrightarrow> boxes t'"
  by (auto simp: region_entry_def sum_simps split: prod.splits if_splits dest!: py_floats_length
      intro!: boxes_fold boxes_update)

lemma region_entries_boxes: "region_entries ar es t = Inr t' \<Longrightarrow> boxes t \<Longrightarrow> boxes t'"
  by (induction es arbitrary: t) (auto simp: sum_simps dest: region_entry_boxes)

lemma lookup_region_box:
  assumes "lookup_region ar q = Inr (Some b)"
  shows "length b = 4"
proof -
  obtain raw table where "region_entries ar raw [] = Inr table" "map_of table (py_strip (py_lower q)) = Some b"
    using assms by (auto simp: lookup_region_def load_region_table_def sum_simps)
  then show ?thesis using region_entries_boxes [of ar raw "[]" table] by (auto simp: boxes_def intro: ranI)
qed

lemma wp_lift_partial: "(\<And>a. x = Inr a \<Longrightarrow> Q a w) \<Longrightarrow> wp_partial (lift_sum x) Q w"
  by (auto simp: wp_lift split: sum.split)

abbreviation found_box :: "(json list \<times> json) option \<Rightarrow> bool" where
  "found_box \<equiv> pred_option (\<lambda>(b, g). length b = 4)"

lemma wbd_like_box: "wp_partial (wbd_like ar q layers) (\<lambda>r _. found_box r) w"
proof (induction layers arbitrary: w)
  case (Cons l ls)
  show ?case
    unfolding wbd_like.simps
    by (intro wp_bind_any wp_if Cons wp_bind_lift) (auto simp: wp_ret dest: first_geometry_box)
qed (simp add: wp_ret)

lemma wbd_tokens_box: "wp_partial (wbd_tokens ar q c layers) (\<lambda>r _. found_box r) w"
proof (induction layers arbitrary: w)
  case (Cons l ls)
  show ?case
    unfolding wbd_tokens.simps
    by (intro wp_bind_any wp_if Cons wp_bind_lift) (auto simp: wp_ret wp_raise dest: first_geometry_box)
qed (simp add: wp_ret)

lemma wbd_by_name_box: "wp_partial (query_wbd_by_name ar q) (\<lambda>r _. found_box r) w"
  unfolding query_wbd_by_name_def query_wbd_by_tokens_def query_wbd_by_like_def Let_def
  by (rule wp_if, simp add: wp_raise, rule wp_bind_post [OF wbd_like_box], intro wp_if wbd_tokens_box)
    (simp_all add: wp_ret)

lemma geocode_box: "wp_partial (geocode_nominatim ar q) (\<lambda>r _. length (fst r) = 4) w"
  unfolding geocode_nominatim_def
  by (intro wp_bind_any wp_if wp_lift_partial)
    (auto simp: wp_raise nominatim_result_def Let_def sum_simps split: if_splits)

lemma nominatim_box: "wp_partial (nominatim_or_error ar q) (\<lambda>r _. \<forall>b g. r = Inr (b, g) \<longrightarrow> length b = 4) w"
  unfolding nominatim_or_error_def wp_catch wp_bind wp_ret
  by (rule wp_mono [OF geocode_box]) (auto simp: wp_ret wp_raise split: exn.split)

lemma resolve_name_box: "wp_partial (resolve_name ar q) (\<lambda>a _. length (a_bbox a) = 4) w"
  unfolding resolve_name_def
proof (rule wp_bind_lift)
  fix region
  assume "lookup_region ar q = Inr region"
  then show "wp_partial (case region of
         Some bbox \<Rightarrow> e_ret (new_area (map JFloat bbox) JNull ''region_table'' (Some q))
       | None \<Rightarrow>
           e_bind (nominatim_or_error ar q) (\<lambda>found.
             case found of
               Inr (bbox, geo) \<Rightarrow>
                 if geo \<noteq> JNull then e_ret (new_area bbox geo ''nominatim'' (Some q))
                 else
                   e_bind (query_wbd_by_name ar q) (\<lambda>result.
                     e_ret (case result of
                       Some (wbd, g) \<Rightarrow> new_area wbd g ''usgs_wbd'' (Some q)
                     | None \<Rightarrow> new_area bbox JNull ''nominatim_point'' (Some q)))
             | Inl _ \<Rightarrow>
                 e_bind (query_wbd_by_name ar q) (\<lambda>result.
                   case result of
                     Some (wbd, g) \<Rightarrow> e_ret (new_area wbd g ''usgs_wbd'' (Some q))
                   | None \<Rightarrow> e_raise (ValueError
                       (''Neither Nominatim nor USGS WBD found results for location '' @ py_repr q)))))
      (\<lambda>a _. length (a_bbox a) = 4) w"
    using lookup_region_box [of ar q]
    by (auto simp: wp_ret wp_raise new_area_def split: option.split sum.split prod.split
        intro!: wp_bind_post [OF nominatim_box] wp_bind_post [OF wbd_by_name_box])
qed

lemma resolve_code_box: "wp_partial (resolve_code ar s) (\<lambda>a _. length (a_bbox a) = 4) w"
proof -
  have huc: "wp_partial (query_wbd_by_huc ar d) (\<lambda>r _. length (fst r) = 4) t" for d t
    unfolding query_wbd_by_huc_def Let_def
    by (intro wp_bind_any wp_if wp_lift_partial) (auto simp: wp_raise dest: first_geometry_box)
  have fips: "wp_partial (query_fips ar d) (\<lambda>r _. length (fst r) = 4) t" for d t
    unfolding query_fips_def by (intro wp_bind_any wp_if wp_lift_partial) (auto simp: wp_raise dest: first_geometry_box)
  show ?thesis
    unfolding resolve_code_def
    by (rule wp_bind_any) (auto simp: wp_ret new_area_def resolve_name_box split: option.split prod.split code_system.split
        intro!: wp_bind_post [OF huc] wp_bind_post [OF fips])
qed

lemma area_of_geojson_box: "area_of_geojson obj = Inr a \<Longrightarrow> length (a_bbox a) = 4"
  by (auto simp: area_of_geojson_def sum_simps new_area_def dest: box_length)

lemma parse_bbox_box: "parse_bbox_string ar s = Inr b \<Longrightarrow> length b = 4"
  by (auto simp: parse_bbox_string_def Let_def sum_simps split: if_splits list.splits option.splits)

lemma a_bbox_new: "a_bbox (new_area b g src q) = b"
  by (simp add: new_area_def)

lemma resolve_location_box: "wp_partial (resolve_location ar l) (\<lambda>a _. length (a_bbox a) = 4) w"
proof (cases l)
  case (Text s)
  have box: "wp_partial (lift_sum (s_bind (parse_bbox_string ar s) (\<lambda>b. Inr (new_area (map JFloat b) JNull ''bbox'' None))))
      (\<lambda>a _. length (a_bbox a) = 4) t" for t
    by (rule wp_lift_partial) (auto simp: sum_simps new_area_def dest: parse_bbox_box)
  have geojson: "wp_partial (lift_sum (area_of_geojson obj)) (\<lambda>a _. length (a_bbox a) = 4) t" for obj t
    by (rule wp_lift_partial) (rule area_of_geojson_box)
  show ?thesis
    unfolding Text resolve_location_def
    by (auto simp: wp_ret wp_raise point_area_def a_bbox_new box geojson resolve_code_box
        split: json.split option.split prod.split intro!: wp_bind_any)
qed (auto simp: resolve_location_def intro!: wp_lift_partial dest: area_of_geojson_box)

lemma wp_put_handle_mint:
  "wp (op_put_handle ws ht p) (\<lambda>h _. handle_type_of h = Inr ht) (\<lambda>_ _. True) w"
  unfolding op_put_handle_def wp_bind
proof (rule wp_mono [OF wp_keeps [OF tables_draw]])
  fix tok w1
  have put: "handle_type_of h = Inr ht" if "put_handle now tok ws ht p t = Inr (h, t')" for now t h t'
    using that by (auto simp: put_handle_def split: sum.splits)
  show "wp (e_io (\<lambda>w. case put_handle (w_now w) tok ws ht p (w_handles w) of Inl e \<Rightarrow> Inl e
      | Inr (h, t) \<Rightarrow> Inr (h, w\<lparr>w_handles := t\<rparr>))) (\<lambda>h _. handle_type_of h = Inr ht) (\<lambda>_ _. True) w1"
    by (rule wp_io) (auto split: sum.splits dest: put)
qed simp

definition area_post :: "area_services \<Rightarrow> string \<Rightarrow> world \<Rightarrow> exn + dict \<Rightarrow> world \<Rightarrow> bool" where
  "area_post ar ws w r w' \<longleftrightarrow>
     (case r of
        Inl e \<Rightarrow> same_tables w w' \<or> (\<exists>h p. minted ws AOI p h w w')
      | Inr answer \<Rightarrow>
          \<exists>h p bbox. minted ws AOI p h w w' \<and> jget answer ''handle'' = JStr h
            \<and> jget answer ''bbox'' = JArr bbox \<and> length bbox = 4
            \<and> resolve_aoi (ar_read_float ar) (w_handles w') ws h = py_floats (ar_read_float ar) bbox
            \<and> (\<forall>other. other \<noteq> ws \<longrightarrow> (\<exists>m. resolve_aoi (ar_read_float ar) (w_handles w') other h = Inl (CrossWorkspaceError m))))"

lemma minted_row:
  assumes "minted ws ht p h w w'"
  shows "\<exists>row. row_of_handle (w_handles w') h = Some row \<and> h_workspace_id row = ws \<and> h_payload row = p"
proof -
  obtain row where r: "mints ws [row] w w'" "h_handle row = h" "h_payload row = p" "row_of_handle (w_handles w) h = None"
    using assms by (auto simp: minted_def)
  have "List.find P (t @ [x]) = Some x" if "List.find P t = None" "P x" for P t and x :: handle_row
    using that by (induction t) (auto split: if_splits)
  then have "row_of_handle (w_handles w') h = Some row"
    using r by (simp add: mints_def row_of_handle_def row_get_def)
  then show ?thesis using r by (simp add: mints_def)
qed

lemma area_round_trip:
  assumes "minted ws AOI (area_payload a) h w w'" and "handle_type_of h = Inr AOI" and "length (a_bbox a) = 4"
  shows "resolve_aoi rf (w_handles w') ws h = py_floats rf (a_bbox a)"
    and "other \<noteq> ws \<Longrightarrow> \<exists>m. resolve_aoi rf (w_handles w') other h = Inl (CrossWorkspaceError m)"
  using minted_row [OF assms(1)] assms(2,3)
  by (auto simp: resolve_aoi_def get_handle_def area_payload_def jget_def Let_def)

text \<open>
  An area keeps its box. A definition that answers has minted one area handle in the caller's workspace,
  and nothing else, under which the tools that take an area read back exactly the four sides of the answer,
  while any other workspace is refused; one that fails leaves the tables as they were, or with one area handle
  when it is the summary of the geometry that fails. The remote lookups are assumed to touch no table.
\<close>

theorem area_keeps_its_box:
  assumes "\<And>u p h. keeps same_tables (ar_get ar u p h)"
    and "define_area_of_interest ar location ws edl_token w = (r, w')"
  shows "area_post ar ws w r w'"
proof -
  let ?Q = "\<lambda>answer. area_post ar ws w (Inr answer)"
  let ?E = "\<lambda>e :: exn. \<lambda>t. same_tables w t \<or> (\<exists>h p. minted ws AOI p h w t)"
  have mint: "wp (e_bind (op_put_handle ws AOI (area_payload a)) (\<lambda>h. e_bind (lift_sum (geometry_summary (a_geojson a)))
      (\<lambda>g. e_ret [(''handle'', JStr h), (''bbox'', JArr (a_bbox a)), (''geometry_summary'', g), (''source'', JStr (a_source a))])))
      ?Q ?E t" if t: "same_tables w t" "length (a_bbox a) = 4" for a t
    unfolding wp_bind
  proof (rule wp_mono [OF wp_conj [OF wp_put_handle [OF t(1)] wp_put_handle_mint]], elim conjE)
    fix h u
    assume m: "minted ws AOI (area_payload a) h w u" "handle_type_of h = Inr AOI"
    show "wp (lift_sum (geometry_summary (a_geojson a))) (\<lambda>g. wp (e_ret [(''handle'', JStr h), (''bbox'', JArr (a_bbox a)),
        (''geometry_summary'', g), (''source'', JStr (a_source a))]) ?Q ?E) ?E u"
      using m area_round_trip [OF m t(2)] t(2)
      by (auto simp: wp_lift wp_ret area_post_def jget_def split: sum.split intro!: exI [of _ "area_payload a"])
  qed auto
  have "wp (define_area_of_interest ar location ws edl_token) ?Q ?E w"
    unfolding define_area_of_interest_def
  proof (rule wp_bind_same [OF tables_runtime(3) tables.R_refl])
    fix i u
    assume u: "same_tables w u"
    show "wp (e_bind (resolve_location ar location) (\<lambda>a. e_bind (op_put_handle ws AOI (area_payload a)) (\<lambda>h.
        e_bind (lift_sum (geometry_summary (a_geojson a))) (\<lambda>g. e_ret [(''handle'', JStr h), (''bbox'', JArr (a_bbox a)),
        (''geometry_summary'', g), (''source'', JStr (a_source a))])))) ?Q ?E u"
      unfolding wp_bind [of "resolve_location ar location"]
      by (rule wp_mono [OF wp_conj [OF wp_keeps [OF tables_resolve_location [OF assms(1)]] resolve_location_box]])
        (use tables.R_trans [OF u] in \<open>auto intro!: mint\<close>)
  qed simp
  from wpD [OF this assms(2)] show ?thesis by (auto simp: area_post_def split: sum.splits)
qed

definition sample_area :: area_services where
  "sample_area =
     \<lparr>ar_platform = sample_platform, ar_get = (\<lambda>_ _ _. e_raise (LibErr (OtherClass ''ConnectError'') [])),
      ar_loads = (\<lambda>_. Inl (ValueError ''Expecting value'')),
      ar_read_float = (\<lambda>s. map_of [(''-105'', - 105), (''37'', 37), (''-104'', - 104), (''38.5'', 77 / 2), (''99'', 99)] s),
      ar_show = (\<lambda>_. []), ar_show_float = (\<lambda>_. []), ar_regions = JObj []\<rparr>"

lemma sample_area_parts:
  "py_join '','' [''-105'', ''37'', ''-104'', ''99''] = ''-105,37,-104,99''"
  by simp

theorem location_texts_decided_witness:
  "(case resolve_location sample_area (Text ''-105,37,-104,99'') initial_world of
      (Inl (ValueError m), w') \<Rightarrow> True | _ \<Rightarrow> False)
   \<and> classify_digit_code ''06'' = Inl (ValueError (ambiguous_code ''06''))
   \<and> classify_digit_code ''HUC-2  06'' = Inr (Some (Huc, ''06''))
   \<and> classify_digit_code ''Fips-2  06'' = Inr (Some (Fips, ''06''))"
proof -
  have box: "box_of_parts (ar_read_float sample_area) [''-105'', ''37'', ''-104'', ''99''] = None"
    and "py_strip (py_join '','' [''-105'', ''37'', ''-104'', ''99'']) \<noteq> []" and "all_digits ''06''"
    and "py_lower ''HUC'' = ''huc''" and "py_lower ''Fips'' = ''fips''"
    and "list_all is_digit ''2''" and "list_all is_space ''  ''" by code_simp+
  moreover have "try_parse_json sample_area (py_join '','' [''-105'', ''37'', ''-104'', ''99'']) = Inr JNull"
    by (simp add: try_parse_json_def sample_area_def)
  ultimately show ?thesis
    using location_texts_decided [of "[''-105'', ''37'', ''-104'', ''99'']" sample_area JNull "''06''" "''-''" "''2''" "''  ''" "[]" "[]"
      "''HUC''" "''Fips''" initial_world]
    by (auto split: prod.splits sum.splits)
qed

theorem area_keeps_its_box_witness:
  "area_post sample_area ''ws'' initial_world
     (fst (define_area_of_interest sample_area (Text ''-105,37,-104,38.5'') ''ws'' None initial_world))
     (snd (define_area_of_interest sample_area (Text ''-105,37,-104,38.5'') ''ws'' None initial_world))
   \<and> isl (fst (define_area_of_interest sample_area (Text ''-105,37,-104,38.5'') ''ws'' None initial_world)) = False"
proof
  have "keeps same_tables (ar_get sample_area u p h)" for u p h
    by (simp add: sample_area_def) (intro keeps_tables)
  then show "area_post sample_area ''ws'' initial_world
     (fst (define_area_of_interest sample_area (Text ''-105,37,-104,38.5'') ''ws'' None initial_world))
     (snd (define_area_of_interest sample_area (Text ''-105,37,-104,38.5'') ''ws'' None initial_world))"
    by (rule area_keeps_its_box) simp
qed code_simp

lemma sample_area_run:
  "fst (define_area_of_interest sample_area (Text '' -105,37,-104, 38.5'') ''ws'' None initial_world) =
     Inr [(''handle'', JStr ''aoi_0''), (''bbox'', JArr [JFloat (- 105), JFloat 37, JFloat (- 104), JFloat (77 / 2)]),
          (''geometry_summary'', JNull), (''source'', JStr ''bbox'')]"
  by code_simp

text \<open>A box in text is checked, the box of a GeoJSON object is not: latitude 200 passes.\<close>

lemma geojson_latitude_unchecked:
  "bbox_from_geojson (JObj [(''type'', JStr ''Point''), (''coordinates'', JArr [JInt 10, JInt 200])]) =
     Inr [JInt 10, JInt 200, JInt 10, JInt 200]"
  by code_simp

end
