(* ===== verification/Continents.thy ===== *)
theory Continents
  imports Area
begin

text \<open>
  The script behind the curated regions (\<open>scripts/extract_natural_earth_bboxes.py\<close>): from the boundaries of the
  countries it prints the bounding box of each continent. The download with its JSON reader is an argument, the document
  or an exception. Floats are exact rationals, so there is no negative zero and no NaN, and the ellipsis of the first
  line is written as three dots. The theory shows that a printed box is the smallest one around its continent.
\<close>

section \<open>Boxes\<close>

type_synonym bounds = "json \<times> json \<times> json \<times> json"

definition min_of :: "json list \<Rightarrow> exn + json" where
  "min_of xs = (case xs of [] \<Rightarrow> Inl (ValueError ''min() iterable argument is empty'') | x # ys \<Rightarrow> py_min x ys)"

definition max_of :: "json list \<Rightarrow> exn + json" where
  "max_of xs = (case xs of [] \<Rightarrow> Inl (ValueError ''max() iterable argument is empty'') | x # ys \<Rightarrow> py_max x ys)"

definition bbox_union :: "bounds list \<Rightarrow> exn + bounds" where
  "bbox_union bboxes =
     s_bind (min_of (map (\<lambda>(w, s, e, n). w) bboxes)) (\<lambda>w.
     s_bind (min_of (map (\<lambda>(w, s, e, n). s) bboxes)) (\<lambda>s.
     s_bind (max_of (map (\<lambda>(w, s, e, n). e) bboxes)) (\<lambda>e.
     s_bind (max_of (map (\<lambda>(w, s, e, n). n) bboxes)) (\<lambda>n. Inr (w, s, e, n)))))"

text \<open>The script's \<open>flatten_coords\<close> is the text of \<open>_extract_pairs\<close> in \<open>tools/area.py\<close>.\<close>

definition flatten_geometry :: "json \<Rightarrow> exn + json list list" where
  "flatten_geometry obj = extract_pairs obj"

definition feature_bbox :: "json \<Rightarrow> exn + bounds" where
  "feature_bbox geometry =
     s_bind (py_get geometry ''coordinates'' (JArr [])) (\<lambda>coordinates.
     s_bind (flatten_geometry coordinates) (\<lambda>coords.
     s_bind (s_each (\<lambda>c. py_at (JArr c) 0) coords) (\<lambda>lons.
     s_bind (s_each (\<lambda>c. py_at (JArr c) 1) coords) (\<lambda>lats.
     s_bind (min_of lons) (\<lambda>w.
     s_bind (min_of lats) (\<lambda>s.
     s_bind (max_of lons) (\<lambda>e.
     s_bind (max_of lats) (\<lambda>n. Inr (w, s, e, n)))))))))"

section \<open>The continents\<close>

text \<open>\<open>d.setdefault(c, []).append(b)\<close>; keys that compare equal are one key.\<close>

fun append_box :: "json \<Rightarrow> bounds \<Rightarrow> (json \<times> bounds list) list \<Rightarrow> (json \<times> bounds list) list" where
  "append_box c b [] = [(c, [b])]"
| "append_box c b ((k, bs) # d) = (if canonical k = canonical c then (k, bs @ [b]) # d else (k, bs) # append_box c b d)"

fun continent_bboxes :: "json list \<Rightarrow> (json \<times> bounds list) list \<Rightarrow> exn + (json \<times> bounds list) list" where
  "continent_bboxes [] d = Inr d"
| "continent_bboxes (feature # features) d =
     s_bind (py_item feature ''properties'') (\<lambda>properties.
     s_bind (py_get properties ''CONTINENT'' (JStr ''Unknown'')) (\<lambda>continent.
     s_bind (py_item feature ''geometry'') (\<lambda>geometry.
     s_bind (feature_bbox geometry) (\<lambda>bbox.
       if hashable continent then continent_bboxes features (append_box continent bbox d)
       else Inl (TypeError ''unhashable type'')))))"

text \<open>
  \<open>sorted\<close> of the keys, which are texts, numbers or None and pairwise different: it raises when two of them
  do not compare.
\<close>

definition sorted_keys :: "json list \<Rightarrow> exn + json list" where
  "sorted_keys ks =
     (if length ks \<le> 1 then Inr ks
      else if list_all (\<lambda>k. py_number k \<noteq> None) ks then Inr (sort_key (\<lambda>k. the (py_number k)) ks)
      else
        (case those (map (\<lambda>k. case k of JStr s \<Rightarrow> Some s | _ \<Rightarrow> None) ks) of
           Some names \<Rightarrow> Inr (map JStr (sort names))
         | None \<Rightarrow> Inl (TypeError ''not supported between instances'')))"

section \<open>What is printed\<close>

text \<open>The format \<open>.1f\<close>: one decimal, the exact value rounded half to even.\<close>

definition show_tenths :: "rat \<Rightarrow> string" where
  "show_tenths r =
     (let t = nat (round_half_even (10 * \<bar>r\<bar>))
      in (if r < 0 then ''-'' else '''') @ show_nat (t div 10) @ ''.'' @ show_nat (t mod 10))"

definition format_1f :: "json \<Rightarrow> exn + string" where
  "format_1f x =
     (case py_number x of
        Some r \<Rightarrow> Inr (show_tenths r)
      | None \<Rightarrow>
          (case x of
             JStr _ \<Rightarrow> 
               Inl (ValueError (''Unknown format code '' @ py_repr ''f'' @ '' for object of type '' @ py_repr ''str''))
           | _ \<Rightarrow> Inl (TypeError ''unsupported format string'')))"

definition lowered :: "json \<Rightarrow> exn + string" where
  "lowered x = (case x of JStr s \<Rightarrow> Inr (py_lower s) | _ \<Rightarrow> Inl (AttributeError ''lower''))"

definition continent_line :: "json \<Rightarrow> bounds list \<Rightarrow> exn + string" where
  "continent_line continent bboxes =
     s_bind (bbox_union bboxes) (\<lambda>(w, s, e, n).
     s_bind (lowered continent) (\<lambda>name.
     s_bind (s_each format_1f [w, s, e, n]) (\<lambda>sides.
       Inr (''  '' @ [CHR 0x22] @ name @ [CHR 0x22] @ '': {'' @ [CHR 0x22] @ ''bbox'' @ [CHR 0x22] @ '': [''
            @ py_join '', '' sides @ '']}''))))"

text \<open>The lines printed so far, and how the run ended.\<close>

fun print_continents :: "(json \<times> bounds list) list \<Rightarrow> string list \<times> (exn + unit)" where
  "print_continents [] = ([], Inr ())"
| "print_continents ((continent, bboxes) # rest) =
     (case continent_line continent bboxes of
        Inl err \<Rightarrow> ([], Inl err)
      | Inr line \<Rightarrow> (case print_continents rest of (printed, outcome) \<Rightarrow> (line # printed, outcome)))"

definition NE_URL :: string where
  "NE_URL =
     ''https://raw.githubusercontent.com/nvkelso/natural-earth-vector/master/geojson/ne_110m_admin_0_countries.geojson''"

definition COORD_ORDER_NOTE :: string where
  "COORD_ORDER_NOTE =
     ''# Coordinate order: [W, S, E, N] (west longitude, south latitude, east longitude, north latitude)''"

definition continents_main :: "exn + json \<Rightarrow> string list \<times> (exn + unit)" where
  "continents_main fetched =
     (let fetching = ''Fetching '' @ NE_URL @ '' ...'';
          header = [fetching, COORD_ORDER_NOTE, ''Continent bounding boxes (W, S, E, N):'']
      in case s_bind fetched (\<lambda>fc. s_bind (py_item fc ''features'') (\<lambda>features.
                s_bind (py_iter features) (\<lambda>fs. continent_bboxes fs []))) of
           Inl err \<Rightarrow> ([fetching], Inl err)
         | Inr d \<Rightarrow>
             (case sorted_keys (map fst d) of
                Inl err \<Rightarrow> (header, Inl err)
              | Inr ks \<Rightarrow>
                  (case print_continents (map (\<lambda>k. (k, the (map_of d k))) ks) of
                     (printed, outcome) \<Rightarrow> (header @ printed, outcome))))"

section \<open>The boxes are tight\<close>

text \<open>
  A box is tight around a set of points when it contains each of them and each side goes through one. The points
  of a geometry are the first two numbers of its positions.
\<close>

definition num :: "json \<Rightarrow> rat" where
  "num x = the (py_number x)"

definition tight :: "bounds \<Rightarrow> (rat \<times> rat) set \<Rightarrow> bool" where
  "tight b P =
     (case b of (w, s, e, n) \<Rightarrow>
        (\<forall>x\<in>{w, s, e, n}. py_number x \<noteq> None)
        \<and> (\<forall>(x, y)\<in>P. num w \<le> x \<and> x \<le> num e \<and> num s \<le> y \<and> y \<le> num n)
        \<and> num w \<in> fst ` P \<and> num e \<in> fst ` P \<and> num s \<in> snd ` P \<and> num n \<in> snd ` P)"

definition points :: "dict \<Rightarrow> (rat \<times> rat) set" where
  "points geometry = (\<lambda>p. (num (p ! 0), num (p ! 1))) ` {p. at_coords (jget geometry ''coordinates'') p}"

definition numeric_positions :: "dict \<Rightarrow> bool" where
  "numeric_positions geometry \<longleftrightarrow> (\<forall>p. at_coords (jget geometry ''coordinates'') p \<longrightarrow>
     (\<exists>x y zs. p = x # y # zs \<and> py_number x \<noteq> None \<and> py_number y \<noteq> None))"

lemma min_of_least:
  assumes "min_of xs = Inr r" and "list_all (\<lambda>x. py_number x \<noteq> None) xs"
  shows "r \<in> set xs" "py_number r \<noteq> None" "\<forall>x\<in>set xs. num r \<le> num x"
proof -
  obtain y ys where xs: "xs = y # ys" using assms(1) by (cases xs) (auto simp: min_of_def)
  show "r \<in> set xs" "\<forall>x\<in>set xs. num r \<le> num x"
    using py_min_least [of y ys] assms unfolding xs min_of_def num_def by auto
  then show "py_number r \<noteq> None" using assms(2) by (auto simp: list_all_iff)
qed

lemma max_of_greatest:
  assumes "max_of xs = Inr r" and "list_all (\<lambda>x. py_number x \<noteq> None) xs"
  shows "r \<in> set xs" "py_number r \<noteq> None" "\<forall>x\<in>set xs. num x \<le> num r"
proof -
  obtain y ys where xs: "xs = y # ys" using assms(1) by (cases xs) (auto simp: max_of_def)
  show "r \<in> set xs" "\<forall>x\<in>set xs. num x \<le> num r"
    using py_max_greatest [of y ys] assms unfolding xs max_of_def num_def by auto
  then show "py_number r \<noteq> None" using assms(2) by (auto simp: list_all_iff)
qed

lemma feature_bbox_tight:
  assumes "feature_bbox (JObj geometry) = Inr b" and "numeric_positions geometry"
  shows "tight b (points geometry)"
proof -
  define cs where "cs = (case map_of geometry ''coordinates'' of None \<Rightarrow> JArr [] | Some v \<Rightarrow> v)"
  have here: "at_coords cs = at_coords (jget geometry ''coordinates'')"
    by (auto simp: cs_def jget_def fun_eq_iff elim: at_coords.cases split: option.split)
  obtain ps lons lats w s e n where run: "extract_pairs cs = Inr ps"
    "s_each (\<lambda>c. py_at (JArr c) 0) ps = Inr lons" "s_each (\<lambda>c. py_at (JArr c) 1) ps = Inr lats"
    "min_of lons = Inr w" "min_of lats = Inr s" "max_of lons = Inr e" "max_of lats = Inr n" "b = (w, s, e, n)"
    using assms(1) by (auto simp: feature_bbox_def flatten_geometry_def cs_def sum_simps)
  have pairs: "set ps = take 2 ` {p. at_coords (jget geometry ''coordinates'') p}"
    using extract_pairs_set [OF run(1)] by (simp add: here)
  have two: "\<exists>x y. c = [x, y] \<and> py_number x \<noteq> None \<and> py_number y \<noteq> None" if "c \<in> set ps" for c
    using that assms(2) unfolding pairs numeric_positions_def by force
  have lons: "lons = map (\<lambda>c. c ! 0) ps" and lats: "lats = map (\<lambda>c. c ! 1) ps"
    using run(2,3) two
    by (auto simp: s_each_Inr_iff list_all2_conv_all_nth py_at_def split: if_splits intro!: nth_equalityI)
  have numbers: "list_all (\<lambda>x. py_number x \<noteq> None) lons" "list_all (\<lambda>x. py_number x \<noteq> None) lats"
    using two by (force simp: lons lats list_all_iff)+
  have points: "points geometry = (\<lambda>c. (num (c ! 0), num (c ! 1))) ` set ps"
    unfolding pairs points_def image_image
    by (rule image_cong) (use assms(2) in \<open>force simp: numeric_positions_def\<close>)+
  have sides: "fst ` points geometry = num ` set lons" "snd ` points geometry = num ` set lats"
    by (simp_all add: points lons lats image_image)
  note w = min_of_least [OF run(4) numbers(1)] and s = min_of_least [OF run(5) numbers(2)]
    and e = max_of_greatest [OF run(6) numbers(1)] and n = max_of_greatest [OF run(7) numbers(2)]
  show ?thesis
    unfolding tight_def run(8) prod.case sides
    using w s e n by (auto simp: points lons lats)
qed

text \<open>The union of tight boxes is tight around all their points.\<close>

lemma min_of_total: "xs \<noteq> [] \<Longrightarrow> list_all (\<lambda>x. py_number x \<noteq> None) xs \<Longrightarrow> \<exists>r. min_of xs = Inr r"
  using py_min_least [of "hd xs" "tl xs"] by (cases xs) (auto simp: min_of_def)

lemma max_of_total: "xs \<noteq> [] \<Longrightarrow> list_all (\<lambda>x. py_number x \<noteq> None) xs \<Longrightarrow> \<exists>r. max_of xs = Inr r"
  using py_max_greatest [of "hd xs" "tl xs"] by (cases xs) (auto simp: max_of_def)

lemma bbox_union_tight:
  assumes "list_all2 tight bs Ps" and "bs \<noteq> []"
  shows "\<exists>b. bbox_union bs = Inr b \<and> tight b (\<Union>(set Ps))"
proof -
  let ?ws = "map (\<lambda>(w, s, e, n). w) bs" and ?ss = "map (\<lambda>(w, s, e, n). s) bs"
    and ?es = "map (\<lambda>(w, s, e, n). e) bs" and ?ns = "map (\<lambda>(w, s, e, n). n) bs"
  have around: "\<exists>b\<in>set bs. tight b P" if "P \<in> set Ps" for P
    using assms(1) that by (force simp: list_all2_conv_all_nth in_set_conv_nth)
  have of_box: "\<exists>P\<in>set Ps. tight b P" if "b \<in> set bs" for b
    using assms(1) that by (force simp: list_all2_conv_all_nth in_set_conv_nth)
  have numbers: "list_all (\<lambda>x. py_number x \<noteq> None) ?ws" "list_all (\<lambda>x. py_number x \<noteq> None) ?ss"
    "list_all (\<lambda>x. py_number x \<noteq> None) ?es" "list_all (\<lambda>x. py_number x \<noteq> None) ?ns"
    using of_box by (fastforce simp: list_all_iff tight_def)+
  obtain w s e n where run: "min_of ?ws = Inr w" "min_of ?ss = Inr s" "max_of ?es = Inr e" "max_of ?ns = Inr n"
    using min_of_total [OF _ numbers(1)] min_of_total [OF _ numbers(2)] max_of_total [OF _ numbers(3)]
      max_of_total [OF _ numbers(4)] assms(2) by auto
  note lw = min_of_least [OF run(1) numbers(1)] and ls = min_of_least [OF run(2) numbers(2)]
    and ge = max_of_greatest [OF run(3) numbers(3)] and gn = max_of_greatest [OF run(4) numbers(4)]
  have "num w \<le> x \<and> x \<le> num e \<and> num s \<le> y \<and> y \<le> num n" if P: "P \<in> set Ps" "(x, y) \<in> P" for P x y
  proof -
    obtain w' s' e' n' where b: "(w', s', e', n') \<in> set bs" "tight (w', s', e', n') P" using around [OF P(1)] by force
    then have "num w \<le> num w'" "num s \<le> num s'" "num e' \<le> num e" "num n' \<le> num n"
      using lw(3) ls(3) ge(3) gn(3) by force+
    with b(2) P(2) show ?thesis by (fastforce simp: tight_def)
  qed
  moreover have "num w \<in> fst ` \<Union>(set Ps)" "num e \<in> fst ` \<Union>(set Ps)" "num s \<in> snd ` \<Union>(set Ps)" "num n \<in> snd ` \<Union>(set Ps)"
    using lw(1) ls(1) ge(1) gn(1) of_box by (fastforce simp: tight_def image_UN)+
  ultimately have "tight (w, s, e, n) (\<Union>(set Ps))" using lw(2) ls(2) ge(2) gn(2) by (auto simp: tight_def)
  then show ?thesis by (simp add: bbox_union_def run)
qed

section \<open>The boxes of the continents\<close>

definition continent_of :: "json \<Rightarrow> json" where
  "continent_of feature =
     (case feature of
        JObj m \<Rightarrow>
          (case map_of m ''properties'' of
             Some (JObj p) \<Rightarrow> (case map_of p ''CONTINENT'' of Some c \<Rightarrow> c | None \<Rightarrow> JStr ''Unknown'')
           | _ \<Rightarrow> JNull)
      | _ \<Rightarrow> JNull)"

definition geometry_of :: "json \<Rightarrow> dict" where
  "geometry_of feature =
     (case feature of JObj m \<Rightarrow> (case map_of m ''geometry'' of Some (JObj g) \<Rightarrow> g | _ \<Rightarrow> []) | _ \<Rightarrow> [])"

lemma canonical_text [simp]: "canonical k = JStr c \<longleftrightarrow> k = JStr c"
  by (cases k) auto

definition boxes_of :: "(json \<times> bounds list) list \<Rightarrow> string \<Rightarrow> bounds list" where
  "boxes_of d c = (case map_of d (JStr c) of None \<Rightarrow> [] | Some bs \<Rightarrow> bs)"

lemma map_of_append_box:
  "map_of (append_box k b d) (JStr c) = (if k = JStr c then Some (boxes_of d c @ [b]) else map_of d (JStr c))"
proof (induction d)
  case (Cons x d)
  obtain k' bs where x: "x = (k', bs)" by (cases x)
  consider "k' = JStr c" | "k' \<noteq> JStr c" by blast
  then show ?case
  proof cases
    case 1
    then have "canonical k' = canonical k \<longleftrightarrow> k = JStr c" by (metis canonical.simps(5) canonical_text)
    with 1 show ?thesis by (auto simp: x boxes_of_def)
  next
    case 2
    then have "k \<noteq> JStr c" if "canonical k' = canonical k" using that by auto
    with 2 Cons.IH show ?thesis by (auto simp: x boxes_of_def)
  qed
qed (simp add: boxes_of_def)

lemma continent_step:
  assumes "continent_bboxes (f # fs) d = Inr d'"
  shows "\<exists>b. feature_bbox (JObj (geometry_of f)) = Inr b \<and> continent_bboxes fs (append_box (continent_of f) b d) = Inr d'"
proof -
  obtain p c g b where run: "py_item f ''properties'' = Inr p" "py_get p ''CONTINENT'' (JStr ''Unknown'') = Inr c"
    "py_item f ''geometry'' = Inr g" "feature_bbox g = Inr b" "continent_bboxes fs (append_box c b d) = Inr d'"
    using assms by (auto simp: sum_simps split: if_splits)
  obtain m where f: "f = JObj m" using run(1) by (auto simp: py_item_def split: json.splits)
  obtain q where p: "p = JObj q" using run(2) by (auto simp: py_get_def split: json.splits)
  obtain h where g: "g = JObj h" using run(4) by (auto simp: feature_bbox_def py_get_def split: json.splits)
  have "continent_of f = c" "geometry_of f = h"
    using run(1-3) by (auto simp: f p g continent_of_def geometry_of_def split: option.splits)
  with run g show ?thesis by blast
qed

lemma continent_bboxes_collects:
  "continent_bboxes fs d = Inr d' \<Longrightarrow>
     \<exists>bs. list_all2 (\<lambda>f b. feature_bbox (JObj (geometry_of f)) = Inr b) (filter (\<lambda>f. continent_of f = JStr c) fs) bs
       \<and> map_of d' (JStr c) = (if bs = [] then map_of d (JStr c) else Some (boxes_of d c @ bs))"
proof (induction fs arbitrary: d)
  case (Cons f fs)
  obtain b where b: "feature_bbox (JObj (geometry_of f)) = Inr b" "continent_bboxes fs (append_box (continent_of f) b d) = Inr d'"
    using continent_step [OF Cons.prems] by blast
  obtain bs where bs: "list_all2 (\<lambda>f b. feature_bbox (JObj (geometry_of f)) = Inr b) (filter (\<lambda>f. continent_of f = JStr c) fs) bs"
    "map_of d' (JStr c) = (if bs = [] then map_of (append_box (continent_of f) b d) (JStr c)
       else Some (boxes_of (append_box (continent_of f) b d) c @ bs))"
    using Cons.IH [OF b(2)] by blast
  show ?case
  proof (cases "continent_of f = JStr c")
    case True
    with b bs show ?thesis by (intro exI [of _ "b # bs"]) (simp add: map_of_append_box boxes_of_def)
  next
    case False
    with bs show ?thesis by (intro exI [of _ bs]) (simp add: map_of_append_box boxes_of_def)
  qed
qed simp

text \<open>
  Where the positions of a document are pairs of numbers, the box printed for a continent is the smallest one: it
  contains every point of every feature of that continent, and no side can be moved in. No other feature
  contributes, and a continent without a feature has no box.
\<close>

theorem continent_box_tight:
  assumes "continent_bboxes features [] = Inr d" and "\<forall>f\<in>set features. numeric_positions (geometry_of f)"
  shows "case map_of d (JStr c) of
      None \<Rightarrow> \<forall>f\<in>set features. continent_of f \<noteq> JStr c
    | Some bs \<Rightarrow> \<exists>b. bbox_union bs = Inr b
        \<and> tight b (\<Union>f\<in>{f \<in> set features. continent_of f = JStr c}. points (geometry_of f))"
proof -
  let ?fs = "filter (\<lambda>f. continent_of f = JStr c) features"
  obtain bs where bs: "list_all2 (\<lambda>f b. feature_bbox (JObj (geometry_of f)) = Inr b) ?fs bs"
    "map_of d (JStr c) = (if bs = [] then None else Some bs)"
    using continent_bboxes_collects [OF assms(1), of c] by (auto simp: boxes_of_def)
  show ?thesis
  proof (cases "bs = []")
    case True
    with bs show ?thesis by (auto simp: filter_empty_conv)
  next
    case False
    have "list_all2 (\<lambda>f b. tight b (points (geometry_of f))) ?fs bs"
      by (rule list.rel_mono_strong [OF bs(1)]) (use assms(2) in \<open>simp add: feature_bbox_tight\<close>)
    then have "list_all2 tight bs (map (\<lambda>f. points (geometry_of f)) ?fs)"
      by (simp add: list_all2_map2 list_all2_conv_all_nth)
    from bbox_union_tight [OF this False] False bs(2) show ?thesis by simp
  qed
qed

text \<open>A run on three countries of two continents.\<close>

definition country :: "string \<Rightarrow> json \<Rightarrow> json" where
  "country continent coordinates =
     JObj [(''properties'', JObj [(''CONTINENT'', JStr continent)]), (''geometry'', JObj [(''coordinates'', coordinates)])]"

definition sample_countries :: json where
  "sample_countries = JObj [(''features'', JArr
     [country ''Oceania'' (JArr [JArr [JInt 170, JFloat (- 4025 / 100)], JArr [JInt 172, JInt (- 35), JInt 7]]),
      country ''Africa'' (JArr [JInt 9, JInt 4]),
      country ''Oceania'' (JArr [JArr [JArr [JFloat (1435 / 10), JInt (- 39)]]])])]"

lemma sample_boxes:
  "map (drop 3) (drop 3 (fst (continents_main (Inr sample_countries)))) =
     [''africa'' @ [CHR 0x22] @ '': {'' @ [CHR 0x22] @ ''bbox'' @ [CHR 0x22] @ '': [9.0, 4.0, 9.0, 4.0]}'',
      ''oceania'' @ [CHR 0x22] @ '': {'' @ [CHR 0x22] @ ''bbox'' @ [CHR 0x22] @ '': [143.5, -40.2, 172.0, -35.0]}'']"
  by code_simp

end
