(* ===== verification/DataIO.thy ===== *)
theory DataIO
  imports Harmony Appeears
begin

text \<open>
  tools/_dataio.py: between stored bytes and an opened dataset or table. xarray, zarr, h5netcdf and pyarrow are
  third-party; what the code calls of them is the record \<open>library\<close> over the types \<open>'d\<close> of datasets, \<open>'t\<close> of
  tables and \<open>'v\<close> of arrays of values. The zip archive of the standard library is a field too: the names and
  contents of the members in the order of the archive. The lazy opening of a file differs from the eager one in
  what xarray defers; the flag of the two openers stands for it, and handles and temporary directories are left
  out, since they end with the call.
\<close>

datatype ('d, 't) opened = Grid 'd | Rows 't

datatype dtype = Integer nat | Floating nat | Datetime64 | Other_dtype string

record ('d, 't, 'v) library =
  zip_members :: "string \<Rightarrow> exn + (string \<times> string) list"
  zip_write :: "(string \<times> string) list \<Rightarrow> string"
  open_zarr :: "(string \<times> string) list \<Rightarrow> exn + 'd"
  open_zarr_store :: "string \<Rightarrow> exn + 'd"
  zarr_tree :: "'d \<Rightarrow> exn + (string \<times> string) list"
  open_groups :: "bool \<Rightarrow> string \<Rightarrow> exn + (string \<times> 'd) list"
  netcdf_image :: "'d \<Rightarrow> exn + string"
  read_parquet :: "string list option \<Rightarrow> string \<Rightarrow> exn + 't"
  write_parquet :: "'t \<Rightarrow> string"
  read_csv :: "string \<Rightarrow> exn + 't"
  write_csv :: "'t \<Rightarrow> string"
  to_rows :: "'d \<Rightarrow> exn + 't"
  sizes :: "'d \<Rightarrow> (string \<times> nat) list"
  coords :: "'d \<Rightarrow> string list"
  data_vars :: "'d \<Rightarrow> string list"
  attrs :: "'d \<Rightarrow> dict"
  var_attrs :: "'d \<Rightarrow> string \<Rightarrow> dict"
  var_dims :: "'d \<Rightarrow> string \<Rightarrow> string list"
  var_dtype :: "'d \<Rightarrow> string \<Rightarrow> dtype"
  rename_vars :: "'d \<Rightarrow> (string \<times> string) list \<Rightarrow> exn + 'd"
  merge_sets :: "'d list \<Rightarrow> exn + 'd"
  concat_time :: "'d list \<Rightarrow> exn + 'd"
  time_values :: "'d \<Rightarrow> 'v"
  decode_cf :: "'v \<Rightarrow> json \<Rightarrow> json \<Rightarrow> bool \<Rightarrow> exn + 'v"
  assign_time :: "'d \<Rightarrow> 'v \<Rightarrow> dict \<Rightarrow> exn + 'd"
  assign_instant :: "'d \<Rightarrow> string \<Rightarrow> exn + 'd"
  pop_attrs :: "'d \<Rightarrow> string \<Rightarrow> string list \<Rightarrow> 'd"

text \<open>\<open>ds.dims\<close>, in its order.\<close>

definition dims :: "('d, 't, 'v, 'z) library_scheme \<Rightarrow> 'd \<Rightarrow> string list" where
  "dims lib ds = map fst (sizes lib ds)"

section \<open>Formats\<close>

definition ZARR_MEDIA_TYPE :: string where
  "ZARR_MEDIA_TYPE = ''application/zarr''"

definition CSV_MEDIA_TYPE :: string where
  "CSV_MEDIA_TYPE = ''text/csv''"

definition NETCDF_MEDIA_TYPES :: "string list" where
  "NETCDF_MEDIA_TYPES = [''application/netcdf4'', ''application/x-netcdf'', ''application/x-netcdf4'']"

definition NETCDF_WRITE_MEDIA_TYPE :: string where
  "NETCDF_WRITE_MEDIA_TYPE = ''application/x-netcdf''"

definition FORMAT_ALIASES :: "(string \<times> string) list" where
  "FORMAT_ALIASES =
     [(''zarr'', ZARR_MEDIA_TYPE), (ZARR_MEDIA_TYPE, ZARR_MEDIA_TYPE), (''parquet'', PARQUET_MEDIA_TYPE),
      (PARQUET_MEDIA_TYPE, PARQUET_MEDIA_TYPE), (''application/parquet'', PARQUET_MEDIA_TYPE), (''csv'', CSV_MEDIA_TYPE),
      (CSV_MEDIA_TYPE, CSV_MEDIA_TYPE), (''netcdf'', NETCDF_WRITE_MEDIA_TYPE), (''netcdf4'', NETCDF_WRITE_MEDIA_TYPE)]
     @ map (\<lambda>t. (t, NETCDF_WRITE_MEDIA_TYPE)) NETCDF_MEDIA_TYPES"

text \<open>A subclass of \<open>ValueError\<close> that nothing catches apart from it.\<close>

definition UnsupportedMediaType :: "string \<Rightarrow> exn" where
  "UnsupportedMediaType m = ValueError m"

definition list_repr :: "string list \<Rightarrow> string" where
  "list_repr xs = ''['' @ py_join '', '' (map py_repr xs) @ '']''"

definition normalize_output_format :: "string \<Rightarrow> exn + string" where
  "normalize_output_format output_format =
     (case map_of FORMAT_ALIASES (py_lower (py_strip output_format)) of
        None \<Rightarrow> Inl (UnsupportedMediaType (''cannot serialize media type '' @ py_repr output_format @ '' (supported: ''
                  @ list_repr (sort (remdups (map fst FORMAT_ALIASES))) @ '')''))
      | Some c \<Rightarrow> Inr c)"

definition NATIVE_FORMAT_MESSAGE :: string where
  "NATIVE_FORMAT_MESSAGE =
     ''this result is untouched native HDF4/HDF-EOS2 - the server cannot open it in-process. Alternatives: request an AppEEARS point-sample for MODIS products, retry with an explicit output_format (which fails fast if unsupported), or download the stored archive directly.''"

definition BUNDLE_CONCAT_DIM :: string where
  "BUNDLE_CONCAT_DIM = ''time''"

section \<open>Time\<close>

definition PANDAS_COMPATIBLE_CALENDARS :: "string list" where
  "PANDAS_COMPATIBLE_CALENDARS = [''standard'', ''gregorian'', ''proleptic_gregorian'']"

text \<open>The calendar is an attribute of a file: \<open>None\<close> where it is absent, and not always a text.\<close>

definition is_standard_calendar :: "json \<Rightarrow> exn + bool" where
  "is_standard_calendar calendar =
     (case py_or calendar (JStr ''standard'') of
        JStr s \<Rightarrow> Inr (py_lower s \<in> set PANDAS_COMPATIBLE_CALENDARS)
      | _ \<Rightarrow> Inl (AttributeError ''lower''))"

definition decode_cf_time_values :: "('d, 't, 'v, 'z) library_scheme \<Rightarrow> 'v \<Rightarrow> json \<Rightarrow> json \<Rightarrow> exn + 'v" where
  "decode_cf_time_values lib vals units calendar =
     (let calendar = py_or calendar (JStr ''standard'') in
      s_bind (is_standard_calendar calendar) (\<lambda>standard. decode_cf lib vals units calendar (\<not> standard)))"

text \<open>A granule whose only date is in its global attributes gets a time coordinate of one instant.\<close>

definition synthesize_bundle_time_coord :: "('d, 't, 'v, 'z) library_scheme \<Rightarrow> (json \<Rightarrow> string) \<Rightarrow> 'd \<Rightarrow> exn + 'd" where
  "synthesize_bundle_time_coord lib show_other ds =
     (if BUNDLE_CONCAT_DIM \<in> set (dims lib ds) then Inr ds
      else
        case filter (\<lambda>d. py_lower (fst d) = BUNDLE_CONCAT_DIM \<and> snd d = 1) (sizes lib ds) of
          [] \<Rightarrow> Inr ds
        | candidate # _ \<Rightarrow>
            let date = jget (attrs lib ds) ''RangeBeginningDate'' in
            if \<not> truthy date then Inr ds
            else
              case (case map_of (attrs lib ds) ''RangeBeginningTime'' of None \<Rightarrow> JStr ''00:00:00'' | Some t \<Rightarrow> t) of
                JStr began \<Rightarrow>
                  s_bind (rename_vars lib ds [(fst candidate, BUNDLE_CONCAT_DIM)]) (\<lambda>ds.
                    assign_instant lib ds (py_str show_other date @ ''T'' @ rstrip_char CHR ''Z'' began))
              | _ \<Rightarrow> Inl (AttributeError ''rstrip''))"

text \<open>Each member is decoded against its own units, before the members are joined.\<close>

definition decode_member_time :: "('d, 't, 'v, 'z) library_scheme \<Rightarrow> 'd \<Rightarrow> exn + 'd" where
  "decode_member_time lib ds =
     (if BUNDLE_CONCAT_DIM \<notin> set (coords lib ds) then Inr ds
      else if var_dtype lib ds BUNDLE_CONCAT_DIM = Datetime64 then Inr ds
      else
        let units = jget (var_attrs lib ds BUNDLE_CONCAT_DIM) ''units'' in
        if \<not> truthy units then Inr ds
        else
          s_bind (decode_cf_time_values lib (time_values lib ds) units (jget (var_attrs lib ds BUNDLE_CONCAT_DIM) ''calendar''))
            (\<lambda>decoded. assign_time lib ds decoded []))"

definition strip_unsafe_coord_attrs :: "('d, 't, 'v, 'z) library_scheme \<Rightarrow> 'd \<Rightarrow> 'd" where
  "strip_unsafe_coord_attrs lib ds = fold (\<lambda>c ds. pop_attrs lib ds c [''units'', ''calendar'']) (coords lib ds) ds"

section \<open>Opening\<close>

definition group_prefix :: "string \<Rightarrow> string" where
  "group_prefix group_path = py_replace ''/'' ''__'' (strip_char CHR ''/'' group_path)"

definition group_mapping :: "('d, 't, 'v, 'z) library_scheme \<Rightarrow> string \<Rightarrow> 'd \<Rightarrow> (string \<times> string) list" where
  "group_mapping lib pre ds =
     map (\<lambda>name. (name, pre @ ''__'' @ name)) (filter (\<lambda>name. name \<notin> set (dims lib ds)) (data_vars lib ds @ coords lib ds))"

definition rename_group :: "('d, 't, 'v, 'z) library_scheme \<Rightarrow> string \<times> 'd \<Rightarrow> exn + 'd" where
  "rename_group lib g =
     (case g of (group_path, ds) \<Rightarrow>
        let pre = group_prefix group_path in
        if pre = [] then Inr ds else rename_vars lib ds (group_mapping lib pre ds))"

definition merge_groups :: "('d, 't, 'v, 'z) library_scheme \<Rightarrow> (string \<times> 'd) list \<Rightarrow> exn + 'd" where
  "merge_groups lib groups = s_bind (s_each (rename_group lib) groups) (merge_sets lib)"

definition open_netcdf_flattened :: "('d, 't, 'v, 'z) library_scheme \<Rightarrow> bool \<Rightarrow> string \<Rightarrow> exn + 'd" where
  "open_netcdf_flattened lib lazily content = s_bind (open_groups lib lazily content) (merge_groups lib)"

definition open_member :: "('d, 't, 'v, 'z) library_scheme \<Rightarrow> (json \<Rightarrow> string) \<Rightarrow> bool \<Rightarrow> string \<Rightarrow> exn + 'd" where
  "open_member lib show_other lazily content =
     s_bind (open_netcdf_flattened lib lazily content) (\<lambda>ds.
     s_bind (synthesize_bundle_time_coord lib show_other ds) (\<lambda>ds. decode_member_time lib ds))"

definition join_members :: "('d, 't, 'v, 'z) library_scheme \<Rightarrow> 'd list \<Rightarrow> exn + 'd" where
  "join_members lib members =
     (case members of
        [] \<Rightarrow> Inl (UnsupportedMediaType ''netCDF bundle is empty'')
      | [m] \<Rightarrow> Inr m
      | _ \<Rightarrow> concat_time lib (map (strip_unsafe_coord_attrs lib) members))"

text \<open>Members in the order of their names; the last of several with one name is the one that is read.\<close>

definition member_content :: "(string \<times> string) list \<Rightarrow> string \<Rightarrow> string" where
  "member_content files name = the (map_of (rev files) name)"

definition open_netcdf_bundle :: "('d, 't, 'v, 'z) library_scheme \<Rightarrow> (json \<Rightarrow> string) \<Rightarrow> string \<Rightarrow> exn + 'd" where
  "open_netcdf_bundle lib show_other content =
     s_bind (zip_members lib content) (\<lambda>files.
     s_bind (s_each (\<lambda>n. open_member lib show_other False (member_content files n))
               (sort (filter (\<lambda>n. \<not> py_endswith n ''/'') (map fst files))))
       (join_members lib))"

text \<open>The lazy path extracts the archive first: each name once, and only what lies at the top.\<close>

definition open_bundle_lazy :: "('d, 't, 'v, 'z) library_scheme \<Rightarrow> (json \<Rightarrow> string) \<Rightarrow> string \<Rightarrow> exn + 'd" where
  "open_bundle_lazy lib show_other content =
     s_bind (zip_members lib content) (\<lambda>files.
       let names = sort (remdups (filter (\<lambda>n. CHR ''/'' \<notin> set n) (map fst files))) in
       if names = [] then Inl (UnsupportedMediaType ''netCDF bundle is empty'')
       else s_bind (s_each (\<lambda>n. open_member lib show_other True (member_content files n)) names) (join_members lib))"

definition open_zarr_zip :: "('d, 't, 'v, 'z) library_scheme \<Rightarrow> string \<Rightarrow> exn + 'd" where
  "open_zarr_zip lib content = s_bind (zip_members lib content) (open_zarr lib)"

definition check_netcdf_magic :: "string \<Rightarrow> exn + unit" where
  "check_netcdf_magic content =
     (if sniff_format content \<in> NETCDF_FAMILY_FORMATS then Inr ()
      else Inl (UnsupportedMediaType (NATIVE_FORMAT_MESSAGE
             @ '' (this result was materialized before content sniffing existed and is mislabeled as netCDF)'')))"

definition open_result :: "('d, 't, 'v, 'z) library_scheme \<Rightarrow> (json \<Rightarrow> string) \<Rightarrow> string \<Rightarrow> string \<Rightarrow> exn + ('d, 't) opened" where
  "open_result lib show_other content media_type =
     (if media_type = ZARR_MEDIA_TYPE then s_bind (open_zarr_zip lib content) (Inr \<circ> Grid)
      else if media_type = PARQUET_MEDIA_TYPE then s_bind (read_parquet lib None content) (Inr \<circ> Rows)
      else if media_type = CSV_MEDIA_TYPE then s_bind (read_csv lib content) (Inr \<circ> Rows)
      else if media_type \<in> {HDF4_MEDIA_TYPE, NATIVE_ARCHIVE_MEDIA_TYPE} then Inl (UnsupportedMediaType NATIVE_FORMAT_MESSAGE)
      else if media_type \<in> set NETCDF_MEDIA_TYPES
      then s_bind (check_netcdf_magic content) (\<lambda>_. s_bind (open_netcdf_flattened lib False content) (Inr \<circ> Grid))
      else if media_type = NETCDF_BUNDLE_MEDIA_TYPE then s_bind (open_netcdf_bundle lib show_other content) (Inr \<circ> Grid)
      else Inl (UnsupportedMediaType (''cannot open media type '' @ py_repr media_type @ '' in-process (supported: ''
             @ py_join '', '' (map py_repr [ZARR_MEDIA_TYPE, PARQUET_MEDIA_TYPE, CSV_MEDIA_TYPE, NETCDF_BUNDLE_MEDIA_TYPE])
             @ '', and netCDF-4)'')))"

definition open_result_lazy ::
  "('d, 't, 'v, 'z) library_scheme \<Rightarrow> (json \<Rightarrow> string) \<Rightarrow> string \<Rightarrow> string \<Rightarrow> string list option \<Rightarrow> exn + ('d, 't) opened" where
  "open_result_lazy lib show_other content media_type variables =
     (if media_type \<in> {HDF4_MEDIA_TYPE, NATIVE_ARCHIVE_MEDIA_TYPE} then Inl (UnsupportedMediaType NATIVE_FORMAT_MESSAGE)
      else if media_type = ZARR_MEDIA_TYPE then s_bind (open_zarr_store lib content) (Inr \<circ> Grid)
      else if media_type \<in> set NETCDF_MEDIA_TYPES
      then s_bind (check_netcdf_magic (take 16 content)) (\<lambda>_. s_bind (open_netcdf_flattened lib True content) (Inr \<circ> Grid))
      else if media_type = NETCDF_BUNDLE_MEDIA_TYPE then s_bind (open_bundle_lazy lib show_other content) (Inr \<circ> Grid)
      else if media_type = PARQUET_MEDIA_TYPE then s_bind (read_parquet lib variables content) (Inr \<circ> Rows)
      else Inl (UnsupportedMediaType (''cannot lazily open media type '' @ py_repr media_type)))"

section \<open>Serializing\<close>

definition zarr_zip_bytes :: "('d, 't, 'v, 'z) library_scheme \<Rightarrow> 'd \<Rightarrow> exn + string" where
  "zarr_zip_bytes lib ds = s_bind (zarr_tree lib ds) (Inr \<circ> zip_write lib)"

definition dataset_to_table :: "('d, 't, 'v, 'z) library_scheme \<Rightarrow> ('d, 't) opened \<Rightarrow> exn + 't" where
  "dataset_to_table lib r = (case r of Rows t \<Rightarrow> Inr t | Grid ds \<Rightarrow> to_rows lib ds)"

definition serialize_result :: "('d, 't, 'v, 'z) library_scheme \<Rightarrow> ('d, 't) opened \<Rightarrow> string \<Rightarrow> exn + string \<times> string" where
  "serialize_result lib r media_type =
     (if media_type = ZARR_MEDIA_TYPE then
        (case r of
           Grid ds \<Rightarrow> s_bind (zarr_zip_bytes lib ds) (\<lambda>b. Inr (''cube.zarr.zip'', b))
         | Rows _ \<Rightarrow> Inl (UnsupportedMediaType ''zarr output requires an xarray.Dataset''))
      else if media_type = PARQUET_MEDIA_TYPE then
        s_bind (dataset_to_table lib r) (\<lambda>t. Inr (''cube.parquet'', write_parquet lib t))
      else if media_type = CSV_MEDIA_TYPE then
        (case r of
           Rows t \<Rightarrow> Inr (''cube.csv'', write_csv lib t)
         | Grid _ \<Rightarrow> Inl (UnsupportedMediaType ''convert_format: csv output requires a tabular (point) source; grid sources should convert to netcdf or parquet''))
      else if media_type = NETCDF_WRITE_MEDIA_TYPE then
        (case r of
           Grid ds \<Rightarrow> s_bind (netcdf_image lib ds) (\<lambda>b. Inr (''cube.nc'', b))
         | Rows _ \<Rightarrow> Inl (UnsupportedMediaType ''convert_format: netcdf output requires a gridded source; point/tabular sources should convert to csv or parquet''))
      else Inl (UnsupportedMediaType (''cannot serialize media type '' @ py_repr media_type)))"

section \<open>What is written can be opened\<close>

lemmas media_types =
  ZARR_MEDIA_TYPE_def PARQUET_MEDIA_TYPE_def CSV_MEDIA_TYPE_def NETCDF_WRITE_MEDIA_TYPE_def NETCDF_MEDIA_TYPES_def
  HDF4_MEDIA_TYPE_def NATIVE_ARCHIVE_MEDIA_TYPE_def NETCDF_BUNDLE_MEDIA_TYPE_def

lemma canonical_formats:
  "normalize_output_format x = Inr f \<Longrightarrow>
     f \<in> {ZARR_MEDIA_TYPE, PARQUET_MEDIA_TYPE, CSV_MEDIA_TYPE, NETCDF_WRITE_MEDIA_TYPE}"
  by (auto simp: normalize_output_format_def FORMAT_ALIASES_def NETCDF_MEDIA_TYPES_def split: option.splits if_splits)

lemma normalize_canonical:
  "normalize_output_format ZARR_MEDIA_TYPE = Inr ZARR_MEDIA_TYPE"
  "normalize_output_format PARQUET_MEDIA_TYPE = Inr PARQUET_MEDIA_TYPE"
  "normalize_output_format CSV_MEDIA_TYPE = Inr CSV_MEDIA_TYPE"
  "normalize_output_format NETCDF_WRITE_MEDIA_TYPE = Inr NETCDF_WRITE_MEDIA_TYPE"
  by code_simp+

text \<open>How a written result is read again: Zarr and Parquet as it was, CSV and netCDF through the reader of the format.\<close>

definition reads_back :: "('d, 't, 'v, 'z) library_scheme \<Rightarrow> (json \<Rightarrow> string) \<Rightarrow> ('d, 't) opened \<Rightarrow> string \<Rightarrow> string \<Rightarrow> bool" where
  "reads_back lib show_other r b f \<longleftrightarrow>
     (case r of
        Grid d \<Rightarrow>
          (f = ZARR_MEDIA_TYPE \<and> open_result lib show_other b f = Inr (Grid d)) \<or>
          (f = PARQUET_MEDIA_TYPE \<and> (\<exists>t. to_rows lib d = Inr t \<and> open_result lib show_other b f = Inr (Rows t))) \<or>
          (f = NETCDF_WRITE_MEDIA_TYPE
             \<and> open_result lib show_other b f = s_bind (open_netcdf_flattened lib False b) (Inr \<circ> Grid))
      | Rows t \<Rightarrow>
          (f = PARQUET_MEDIA_TYPE \<and> open_result lib show_other b f = Inr (Rows t)) \<or>
          (f = CSV_MEDIA_TYPE \<and> open_result lib show_other b f = s_bind (read_csv lib (write_csv lib t)) (Inr \<circ> Rows)))"


text \<open>A small library that behaves as assumed: a dataset is the text it holds, an archive escapes every character.\<close>

definition pack_text :: "string \<Rightarrow> string" where
  "pack_text s = concat (map (\<lambda>c. [CHR ''x'', c]) s) @ '',''"

fun unpack_texts :: "string \<Rightarrow> string list" where
  "unpack_texts (a # c # s) =
     (if a = CHR '','' then [] # unpack_texts (c # s)
      else case unpack_texts s of [] \<Rightarrow> [[c]] | t # ts \<Rightarrow> (c # t) # ts)"
| "unpack_texts [a] = [[]]"
| "unpack_texts [] = []"

fun pairs_of :: "'a list \<Rightarrow> ('a \<times> 'a) list" where
  "pairs_of (x # y # xs) = (x, y) # pairs_of xs"
| "pairs_of _ = []"

definition pack :: "(string \<times> string) list \<Rightarrow> string" where
  "pack fs = concat (map (\<lambda>(n, c). pack_text n @ pack_text c) fs)"

lemma unpack_pack_text: "unpack_texts (pack_text s @ r) = s # unpack_texts r"
proof (induction s)
  case Nil
  then show ?case by (cases r) (simp_all add: pack_text_def)
qed (simp add: pack_text_def)

lemma unpack_pack: "pairs_of (unpack_texts (pack fs)) = fs"
  by (induction fs) (auto simp: pack_def unpack_pack_text)

definition toy_library :: "(string, string, nat) library" where
  "toy_library =
     \<lparr>zip_members = (\<lambda>b. Inr (pairs_of (unpack_texts b))), zip_write = pack,
      open_zarr = (\<lambda>fs. Inr (concat (map snd fs))), open_zarr_store = (\<lambda>b. Inr (concat (map snd (pairs_of (unpack_texts b))))),
      zarr_tree = (\<lambda>d. Inr [(''data'', d)]),
      open_groups = (\<lambda>_ b. Inr [(''/'', drop 8 b)]), netcdf_image = (\<lambda>d. Inr (HDF5_MAGIC @ d)),
      read_parquet = (\<lambda>_ b. Inr b), write_parquet = (\<lambda>t. t), read_csv = (\<lambda>b. Inr b), write_csv = (\<lambda>t. t),
      to_rows = (\<lambda>d. Inr d), sizes = (\<lambda>d. [(''time'', length d), (''lat'', 1), (''lon'', 1)]),
      coords = (\<lambda>_. [''time'', ''lat'', ''lon'']), data_vars = (\<lambda>_. [''product__no2'']),
      attrs = (\<lambda>_. []), var_attrs = (\<lambda>_ _. []), var_dims = (\<lambda>_ v. if v = ''product__no2'' then [''time'', ''lat'', ''lon''] else [v]),
      var_dtype = (\<lambda>_ v. if v = ''time'' then Datetime64 else Floating 8),
      rename_vars = (\<lambda>d _. Inr d), merge_sets = (\<lambda>ds. Inr (concat ds)), concat_time = (\<lambda>ds. Inr (concat ds)),
      time_values = length, decode_cf = (\<lambda>v _ _ _. Inr v), assign_time = (\<lambda>d _ _. Inr d), assign_instant = (\<lambda>d _. Inr d),
      pop_attrs = (\<lambda>d _ _. d)\<rparr>"

lemma toy_library_assumed:
  "zip_members toy_library (zip_write toy_library fs) = Inr fs"
  "zarr_tree toy_library d = Inr fs \<Longrightarrow> open_zarr toy_library fs = Inr d"
  "read_parquet toy_library None (write_parquet toy_library t) = Inr t"
  "netcdf_image toy_library d = Inr b \<Longrightarrow> sniff_format b = ''hdf5''"
  by (auto simp: toy_library_def unpack_pack sniff_format_def HDF5_MAGIC_def py_startswith_def)


text \<open>
  The prefix of a group is meant to keep the names of its variables apart; a group below another and a name
  with two underscores are flattened to one name all the same.
\<close>

lemma flattened_names_collide:
  "group_prefix ''/a/b'' @ ''__'' @ ''c'' = group_prefix ''/a'' @ ''__'' @ ''b__c''"
  by code_simp

end
