(* ===== verification/Transform.thy ===== *)
theory Transform
  imports DataIO Opendap Minting
begin

text \<open>
  tools/transform.py: the five transforms of a materialized result. The selection, renaming and arithmetic on
  arrays is done by xarray and pyarrow, whose operations the code uses are further fields of the library; which
  of them is called, with which names, bounds and dimensions, is the code's and is modelled. A mask is the list
  of the arrays that are compared, each with its test; a comparison with a missing value fails. What pandas says
  about a refused frequency is left out of the message.
\<close>

record ('d, 't, 'v) array_library = "('d, 't, 'v) library" +
  select_columns :: "'t \<Rightarrow> string list \<Rightarrow> exn + 't"
  select_vars :: "'d \<Rightarrow> string list \<Rightarrow> exn + 'd"
  sel_between :: "'d \<Rightarrow> string \<Rightarrow> rat \<Rightarrow> rat \<Rightarrow> exn + 'd"
  sel_times :: "'d \<Rightarrow> string option \<Rightarrow> string option \<Rightarrow> exn + 'd"
  axis_values :: "'d \<Rightarrow> string \<Rightarrow> rat list"
  any_point :: "'d \<Rightarrow> (string \<times> (rat \<Rightarrow> bool)) list \<Rightarrow> exn + bool"
  keep_points :: "'d \<Rightarrow> (string \<times> (rat \<Rightarrow> bool)) list \<Rightarrow> exn + 'd"
  set_coords :: "'d \<Rightarrow> string list \<Rightarrow> exn + 'd"
  all_variables :: "'d \<Rightarrow> (string \<times> dict) list"
  first_calendar :: "'d \<Rightarrow> string option"
  resample_mean :: "'d \<Rightarrow> string \<Rightarrow> exn + 'd"
  coarsen_mean :: "'d \<Rightarrow> (string \<times> int) list \<Rightarrow> exn + 'd"
  write_crs :: "'d \<Rightarrow> string \<Rightarrow> exn + 'd"
  put_attr :: "'d \<Rightarrow> string \<Rightarrow> string \<Rightarrow> 'd"
  put_var_attr :: "'d \<Rightarrow> string \<Rightarrow> string \<Rightarrow> string \<Rightarrow> 'd"
  cast_vars :: "'d \<Rightarrow> (string \<times> string) list \<Rightarrow> exn + 'd"
  cast_coords :: "'d \<Rightarrow> (string \<times> string) list \<Rightarrow> exn + 'd"
  snap_values :: "'v \<Rightarrow> int \<Rightarrow> exn + 'v"
  align_sets :: "'d list \<Rightarrow> string \<Rightarrow> exn + 'd list"
  stack_sources :: "'d list \<Rightarrow> string list \<Rightarrow> string list \<Rightarrow> exn + 'd"
  drop_vars :: "'d \<Rightarrow> string list \<Rightarrow> 'd"

record ('d, 't, 'v) transform_env =
  tr_platform :: platform
  tr_library :: "('d, 't, 'v) array_library"
  tr_show :: "json \<Rightarrow> string"
  tr_read_float :: "string \<Rightarrow> rat option"
  tr_show_float :: "rat \<Rightarrow> string"
  tr_dumps :: "json \<Rightarrow> string"

section \<open>Finding the axes\<close>

definition LON_NAMES :: "string list" where
  "LON_NAMES = [''lon'', ''longitude'', ''x'']"

definition LAT_NAMES :: "string list" where
  "LAT_NAMES = [''lat'', ''latitude'', ''y'']"

definition tuple_repr :: "string list \<Rightarrow> string" where
  "tuple_repr xs = ''('' @ py_join '', '' (map py_repr xs) @ '')''"

text \<open>\<open>name.rsplit("__", 1)[-1]\<close> and whether there is an underscore pair at all.\<close>

fun until_pair :: "string \<Rightarrow> string option" where
  "until_pair (a # b # s) =
     (if a = CHR ''_'' \<and> b = CHR ''_'' then Some [] else map_option ((#) a) (until_pair (b # s)))"
| "until_pair _ = None"

definition flattened_leaf :: "string \<Rightarrow> string option" where
  "flattened_leaf name = map_option rev (until_pair (rev name))"

definition all_variable_names :: "('d, 't, 'v) array_library \<Rightarrow> 'd \<Rightarrow> (string \<times> string) list" where
  "all_variable_names lib ds =
     fold (\<lambda>n m. AList.update (py_lower n) n m) (dims lib ds @ coords lib ds @ data_vars lib ds) []"

definition ambiguous_axis :: "string \<Rightarrow> string \<Rightarrow> string list \<Rightarrow> exn" where
  "ambiguous_axis axis what hits =
     ValueError (''ambiguous '' @ axis @ '' coordinate: multiple '' @ what @ '': '' @ list_repr hits)"

definition discover_axis ::
  "('d, 't, 'v) array_library \<Rightarrow> 'd \<Rightarrow> string \<Rightarrow> string list \<Rightarrow> string \<Rightarrow> string \<Rightarrow> exn + string option" where
  "discover_axis lib ds axis bare_names std_name unit =
     (let all_names = all_variable_names lib ds in
      case List.find (\<lambda>n. map_of all_names n \<noteq> None) bare_names of
        Some n \<Rightarrow> Inr (map_of all_names n)
      | None \<Rightarrow>
          let flattened = sort (remdups (filter (\<lambda>name. case flattened_leaf name of
                                  None \<Rightarrow> False | Some l \<Rightarrow> py_lower l \<in> set bare_names) (map snd all_names)))
          in case flattened of
               [name] \<Rightarrow> Inr (Some name)
             | _ # _ # _ \<Rightarrow> Inl (ambiguous_axis axis (''flattened-name candidates match '' @ tuple_repr bare_names) flattened)
             | [] \<Rightarrow>
                 let cf_hits = sort (remdups (map fst (filter (\<lambda>(name, meta).
                                 jget meta ''standard_name'' = JStr std_name \<or> jget meta ''units'' = JStr unit) (all_variables lib ds))))
                 in case cf_hits of
                      [] \<Rightarrow> Inr None
                    | [name] \<Rightarrow> Inr (Some name)
                    | _ \<Rightarrow> Inl (ambiguous_axis axis ''CF-tagged candidates (standard_name/units)'' cf_hits))"

definition find_lonlat :: "('d, 't, 'v) array_library \<Rightarrow> 'd \<Rightarrow> exn + string option \<times> string option" where
  "find_lonlat lib ds =
     s_bind (discover_axis lib ds ''longitude'' LON_NAMES ''longitude'' ''degrees_east'') (\<lambda>lon.
     s_bind (discover_axis lib ds ''latitude'' LAT_NAMES ''latitude'' ''degrees_north'') (\<lambda>lat. Inr (lon, lat)))"

definition the_names :: "string option list \<Rightarrow> string list" where
  "the_names xs = concat (map (\<lambda>x. case x of None \<Rightarrow> [] | Some n \<Rightarrow> [n]) xs)"

definition promote_geo_coords :: "('d, 't, 'v) array_library \<Rightarrow> 'd \<Rightarrow> exn + 'd" where
  "promote_geo_coords lib ds =
     s_bind (find_lonlat lib ds) (\<lambda>(lon, lat).
       let to_promote = filter (\<lambda>n. n \<in> set (data_vars lib ds)) (the_names [lon, lat])
       in if to_promote = [] then Inr ds else set_coords lib ds to_promote)"

definition no_axis :: "('d, 't, 'v) array_library \<Rightarrow> 'd \<Rightarrow> string \<Rightarrow> string \<Rightarrow> exn" where
  "no_axis lib ds tool purpose =
     ValueError (tool @ '': no lon/lat spatial dimension found on the source dataset (looked for ''
       @ tuple_repr (LON_NAMES @ LAT_NAMES) @ '', case-insensitive, among ''
       @ list_repr (sort (remdups (dims lib ds @ coords lib ds @ data_vars lib ds)))
       @ ''); cannot apply the requested '' @ purpose)"

definition ndim_of :: "('d, 't, 'v) array_library \<Rightarrow> 'd \<Rightarrow> string option \<Rightarrow> nat" where
  "ndim_of lib ds axis = (case axis of None \<Rightarrow> 0 | Some n \<Rightarrow> length (var_dims lib ds n))"

section \<open>Subsetting\<close>

text \<open>A west bound beyond the east one is a box across the antimeridian.\<close>

definition lon_within :: "rat \<Rightarrow> rat \<Rightarrow> rat \<Rightarrow> bool" where
  "lon_within west east x \<longleftrightarrow> (if west \<le> east then x \<ge> west \<and> x \<le> east else x \<ge> west \<or> x \<le> east)"

definition lat_within :: "rat \<Rightarrow> rat \<Rightarrow> rat \<Rightarrow> bool" where
  "lat_within south north y \<longleftrightarrow> y \<ge> south \<and> y \<le> north"

definition bbox_mask :: "string option \<Rightarrow> string option \<Rightarrow> rat list \<Rightarrow> (string \<times> (rat \<Rightarrow> bool)) list" where
  "bbox_mask lon lat bbox =
     map (\<lambda>n. (n, lon_within (bbox ! 0) (bbox ! 2))) (the_names [lon])
     @ map (\<lambda>n. (n, lat_within (bbox ! 1) (bbox ! 3))) (the_names [lat])"

definition axis_name :: "string option \<Rightarrow> string" where
  "axis_name n = (case n of None \<Rightarrow> ''None'' | Some s \<Rightarrow> s)"

definition bbox_sel_2d ::
  "('d, 't, 'v) array_library \<Rightarrow> (rat \<Rightarrow> string) \<Rightarrow> 'd \<Rightarrow> string option \<Rightarrow> string option \<Rightarrow> rat list \<Rightarrow> exn + 'd" where
  "bbox_sel_2d lib show_float ds lon lat bbox =
     s_bind (any_point lib ds (bbox_mask lon lat bbox)) (\<lambda>hit.
       if \<not> hit
       then Inl (ValueError (''subset: the requested AOI ('' @ py_join '', '' (map show_float bbox)
              @ '') does not intersect any point of the swath's 2-D '' @ axis_name lat @ ''/'' @ axis_name lon
              @ '' geolocation; cannot apply the requested AOI''))
       else keep_points lib ds (bbox_mask lon lat bbox))"

definition descends :: "rat list \<Rightarrow> bool" where
  "descends ys \<longleftrightarrow> length ys > 1 \<and> hd ys > last ys"

definition bbox_sel :: "('d, 't, 'v) array_library \<Rightarrow> (rat \<Rightarrow> string) \<Rightarrow> 'd \<Rightarrow> rat list \<Rightarrow> exn + 'd" where
  "bbox_sel lib show_float ds bbox =
     s_bind (find_lonlat lib ds) (\<lambda>(lon, lat).
       if lon = None \<and> lat = None then Inl (no_axis lib ds ''subset'' ''AOI'')
       else if ndim_of lib ds lon \<ge> 2 \<or> ndim_of lib ds lat \<ge> 2 then bbox_sel_2d lib show_float ds lon lat bbox
       else
         s_bind (case lon of None \<Rightarrow> Inr ds | Some n \<Rightarrow> sel_between lib ds n (bbox ! 0) (bbox ! 2)) (\<lambda>ds.
           case lat of
             None \<Rightarrow> Inr ds
           | Some n \<Rightarrow>
               if descends (axis_values lib ds n) then sel_between lib ds n (bbox ! 3) (bbox ! 1)
               else sel_between lib ds n (bbox ! 1) (bbox ! 3)))"

definition flattened_name :: "string \<Rightarrow> string" where
  "flattened_name name = py_replace ''/'' ''__'' (strip_char CHR ''/'' name)"

definition resolve_variable_names :: "('d, 't, 'v) array_library \<Rightarrow> 'd \<Rightarrow> string list \<Rightarrow> exn + string list" where
  "resolve_variable_names lib ds variables =
     (let available = data_vars lib ds @ coords lib ds;
          known = (\<lambda>n. n \<in> set available \<or> flattened_name n \<in> set available);
          unknown = filter (\<lambda>n. \<not> known n) variables
      in if unknown \<noteq> []
         then Inl (ValueError (''subset: unknown variable(s) '' @ list_repr unknown @ ''; available variables are ''
                @ list_repr (sort (remdups available))))
         else Inr (map (\<lambda>n. if n \<in> set available then n else flattened_name n) variables))"

text \<open>A \<open>time\<close> coordinate that still counts from a reference date is decoded before its labels are used.\<close>

definition is_number :: "dtype \<Rightarrow> bool" where
  "is_number t = (case t of Integer _ \<Rightarrow> True | Floating _ \<Rightarrow> True | _ \<Rightarrow> False)"

definition maybe_decode_float_time :: "('d, 't, 'v) array_library \<Rightarrow> 'd \<Rightarrow> exn + 'd" where
  "maybe_decode_float_time lib ds =
     (if ''time'' \<notin> set (coords lib ds) \<or> \<not> is_number (var_dtype lib ds ''time'') then Inr ds
      else
        let meta = var_attrs lib ds ''time'';
            units = (case map_of meta ''units'' of None \<Rightarrow> JStr [] | Some u \<Rightarrow> u)
        in if \<not> truthy units then Inr ds
           else
             s_bind (decode_cf_time_values lib (time_values lib ds) units (jget meta ''calendar'')) (\<lambda>decoded.
               assign_time lib ds decoded (filter (\<lambda>(k, v). k \<notin> {''units'', ''calendar''}) meta)))"

definition text_or_none :: "string \<Rightarrow> string option" where
  "text_or_none s = (if s = [] then None else Some s)"

definition select_time :: "('d, 't, 'v) array_library \<Rightarrow> 'd \<Rightarrow> string option \<Rightarrow> exn + 'd" where
  "select_time lib ds time_range =
     (case time_range of
        None \<Rightarrow> Inr ds
      | Some t \<Rightarrow>
          if t = [] \<or> ''time'' \<notin> set (dims lib ds) then Inr ds
          else
            s_bind (maybe_decode_float_time lib ds) (\<lambda>ds.
              if ''time'' \<notin> set (coords lib ds)
              then Inl (ValueError ''subset: requested a time_range but the source's 'time' dimension has no coordinate values (e.g. a source already index-sliced by an upstream hyperslab, or a time-in-filename product with no time variable); cannot select time labels on a bare dimension'')
              else
                case py_partition CHR ''/'' t of
                  (lower, _, upper) \<Rightarrow> sel_times lib ds (text_or_none lower) (text_or_none upper)))"

text \<open>A table is only narrowed to columns: box and time range are left out, as in the code.\<close>

definition apply_subset ::
  "('d, 't, 'v) array_library \<Rightarrow> (rat \<Rightarrow> string) \<Rightarrow> ('d, 't) opened \<Rightarrow> rat list option \<Rightarrow> string list option \<Rightarrow> string option
   \<Rightarrow> exn + ('d, 't) opened" where
  "apply_subset lib show_float obj bbox variables time_range =
     (let wanted = (case variables of None \<Rightarrow> [] | Some vs \<Rightarrow> vs) in
      case obj of
        Rows t \<Rightarrow> if wanted = [] then Inr (Rows t) else s_bind (select_columns lib t wanted) (Inr \<circ> Rows)
      | Grid ds \<Rightarrow>
          s_bind (if bbox \<noteq> None then promote_geo_coords lib ds else Inr ds) (\<lambda>ds.
          s_bind (if wanted \<noteq> [] then s_bind (resolve_variable_names lib ds wanted) (select_vars lib ds) else Inr ds) (\<lambda>ds.
          s_bind (case bbox of None \<Rightarrow> Inr ds | Some b \<Rightarrow> bbox_sel lib show_float ds b) (\<lambda>ds.
          s_bind (select_time lib ds time_range) (Inr \<circ> Grid)))))"

section \<open>Resampling\<close>

definition time_calendar :: "('d, 't, 'v) array_library \<Rightarrow> (json \<Rightarrow> string) \<Rightarrow> 'd \<Rightarrow> string" where
  "time_calendar lib show_other ds =
     (if ''time'' \<notin> set (coords lib ds) then ''standard''
      else
        let calendar = jget (var_attrs lib ds ''time'') ''calendar'' in
        if truthy calendar then py_lower (py_str show_other calendar)
        else case first_calendar lib ds of Some c \<Rightarrow> py_lower c | None \<Rightarrow> ''standard'')"

definition is_standard :: "string \<Rightarrow> bool" where
  "is_standard calendar \<longleftrightarrow> is_standard_calendar (JStr calendar) = Inr True"

definition resample_fault :: "string \<Rightarrow> string \<Rightarrow> exn \<Rightarrow> exn" where
  "resample_fault time_freq calendar e =
     (if \<not> is_Exception e then e
      else if \<not> is_standard calendar
      then ValueError (''resample: cannot apply time_freq='' @ py_repr time_freq
             @ '' (operation: resample) on a '' @ py_repr calendar @ ''-calendar time axis'')
      else ValueError (''resample: '' @ py_repr time_freq
             @ '' is not a valid pandas frequency alias (pandas rejected it, possibly deprecated or removed).''))"

definition resample_in_time :: "('d, 't, 'v) array_library \<Rightarrow> (json \<Rightarrow> string) \<Rightarrow> 'd \<Rightarrow> string \<Rightarrow> exn + 'd" where
  "resample_in_time lib show_other ds time_freq =
     (if time_freq = [] \<or> ''time'' \<notin> set (dims lib ds) then Inr ds
      else
        s_bind (maybe_decode_float_time lib ds) (\<lambda>decoded.
          case resample_mean lib decoded time_freq of
            Inl e \<Rightarrow> Inl (resample_fault time_freq (time_calendar lib show_other ds) e)
          | Inr r \<Rightarrow> Inr r))"

definition coarsen_in_space :: "('d, 't, 'v) array_library \<Rightarrow> 'd \<Rightarrow> int \<Rightarrow> exn + 'd" where
  "coarsen_in_space lib ds factor =
     (if factor = 0 then Inr ds
      else
        s_bind (find_lonlat lib ds) (\<lambda>(lon, lat).
          if lon = None \<and> lat = None then Inl (no_axis lib ds ''resample'' ''spatial_factor'')
          else
            let targets = (if ndim_of lib ds lon \<ge> 2 \<or> ndim_of lib ds lat \<ge> 2
                           then var_dims lib ds (axis_name (if ndim_of lib ds lon \<ge> 2 then lon else lat))
                           else the_names [lon, lat])
            in coarsen_mean lib ds (map (\<lambda>d. (d, factor)) targets)))"

section \<open>Aligning\<close>

text \<open>\<open>isinstance(obj, xr.Dataset)\<close> or a \<open>ValueError\<close> naming the tool.\<close>

definition require_grid :: "string \<Rightarrow> ('d, 't) opened \<Rightarrow> exn + 'd" where
  "require_grid message obj = (case obj of Grid ds \<Rightarrow> Inr ds | Rows _ \<Rightarrow> Inl (ValueError message))"

definition calendar_family :: "string \<Rightarrow> string" where
  "calendar_family name = (if is_standard name then ''standard'' else name)"

definition check_calendars_compatible :: "(string \<times> string) list \<Rightarrow> exn + unit" where
  "check_calendars_compatible calendars =
     (if length (remdups (map (calendar_family \<circ> snd) calendars)) > 1
      then Inl (ValueError (''align: sources use incompatible CF calendars (''
             @ py_join '', '' (map (\<lambda>(h, c). h @ ''='' @ py_repr c) calendars)
             @ ''); calendars are not comparable - retrieve/convert sources onto the same calendar before aligning them''))
      else Inr ())"

definition float_target :: "dtype \<Rightarrow> string option" where
  "float_target t = (case t of Integer itemsize \<Rightarrow> Some (if itemsize \<le> 2 then ''float32'' else ''float64'') | _ \<Rightarrow> None)"

definition casts_of :: "('d, 't, 'v) array_library \<Rightarrow> 'd \<Rightarrow> string list \<Rightarrow> (string \<times> string) list" where
  "casts_of lib ds names =
     concat (map (\<lambda>n. case float_target (var_dtype lib ds n) of None \<Rightarrow> [] | Some t \<Rightarrow> [(n, t)]) names)"

definition cast_int_vars_to_float :: "('d, 't, 'v) array_library \<Rightarrow> 'd \<Rightarrow> exn + 'd" where
  "cast_int_vars_to_float lib ds =
     (let casts = casts_of lib ds (data_vars lib ds);
          coord_casts = casts_of lib ds (filter (\<lambda>c. c \<notin> set (dims lib ds)) (coords lib ds))
      in s_bind (if casts = [] then Inr ds else cast_vars lib ds casts) (\<lambda>r.
           if coord_casts = [] then Inr r else cast_coords lib r coord_casts))"

definition snap_time :: "('d, 't, 'v) array_library \<Rightarrow> 'd \<Rightarrow> int \<Rightarrow> exn + 'd" where
  "snap_time lib ds freq_ns =
     (if ''time'' \<notin> set (coords lib ds) then Inr ds
      else s_bind (snap_values lib (time_values lib ds) freq_ns) (\<lambda>v. assign_time lib ds v []))"

text \<open>The names every source has, in alphabetical order.\<close>

definition shared_names :: "('d, 't, 'v) array_library \<Rightarrow> 'd list \<Rightarrow> string list" where
  "shared_names lib aligned =
     sort (remdups (filter (\<lambda>n. list_all (\<lambda>ds. n \<in> set (data_vars lib ds)) (tl aligned)) (data_vars lib (hd aligned))))"

definition combine_aligned :: "('d, 't, 'v) array_library \<Rightarrow> 'd list \<Rightarrow> string list \<Rightarrow> exn + 'd \<times> string list" where
  "combine_aligned lib aligned source_handles =
     (let stacked_names = shared_names lib aligned in
      if stacked_names = [] then s_bind (merge_sets lib aligned) (\<lambda>ds. Inr (ds, []))
      else
        s_bind (stack_sources lib aligned stacked_names source_handles) (\<lambda>stacked.
        s_bind (merge_sets lib (stacked # map (\<lambda>ds. drop_vars lib ds stacked_names) aligned)) (\<lambda>ds.
          Inr (ds, stacked_names))))"

section \<open>Loading a source and emitting a cube\<close>

definition op_get_blob :: "string \<Rightarrow> string op" where
  "op_get_blob key = e_read (\<lambda>w. local_get (w_root w) (w_files w) key)"

definition load_source :: "('d, 't, 'v) transform_env \<Rightarrow> string \<Rightarrow> string \<Rightarrow> ('d, 't) opened op" where
  "load_source tr handle ws =
     e_bind (e_read (\<lambda>w. resolve_materialized (w_handles w) ws handle)) (\<lambda>(storage_key, media_type, payload).
     e_bind (op_text storage_key) (\<lambda>key.
     e_bind (op_get_blob key) (\<lambda>content.
     e_bind (op_text media_type) (\<lambda>media.
       lift_sum (open_result (tr_library tr) (tr_show tr) content media)))))"

definition shape_of :: "('d, 't) opened \<Rightarrow> string" where
  "shape_of obj = (case obj of Grid _ \<Rightarrow> ''grid'' | Rows _ \<Rightarrow> ''point'')"

definition CUBE_FORMAT_BY_SHAPE :: "(string \<times> string) list" where
  "CUBE_FORMAT_BY_SHAPE = [(''grid'', ZARR_MEDIA_TYPE), (''point'', PARQUET_MEDIA_TYPE)]"

definition names_json :: "string list \<Rightarrow> json" where
  "names_json xs = JArr (map JStr xs)"

definition cache_key :: "('d, 't, 'v) transform_env \<Rightarrow> dict \<Rightarrow> string list \<Rightarrow> string" where
  "cache_key tr transform_spec source_handles =
     take 24 (pf_sha (tr_platform tr) (tr_dumps tr (JObj [(''sources'', names_json source_handles), (''spec'', JObj transform_spec)])))"

definition cube_payload :: "string \<Rightarrow> string \<Rightarrow> dict \<Rightarrow> string list \<Rightarrow> string \<Rightarrow> dict" where
  "cube_payload storage_key media_type transform_spec source_handles key =
     [(''status'', JStr ''ready''), (''storage_key'', JStr storage_key), (''media_type'', JStr media_type),
      (''transform'', JObj transform_spec), (''source_handles'', names_json source_handles), (''cache_key'', JStr key)]"

definition edge_spec_of :: "dict \<Rightarrow> string \<Rightarrow> string \<Rightarrow> string \<Rightarrow> string \<Rightarrow> dict" where
  "edge_spec_of transform_spec ws cube_handle media_type key =
     dict_merge transform_spec
       [(''workspace_id'', JStr ws), (''cube_handle'', JStr cube_handle), (''output_format'', JStr media_type),
        (''cache_key'', JStr key)]"

definition record_cube :: "string \<Rightarrow> string list \<Rightarrow> dict \<Rightarrow> string \<Rightarrow> string \<Rightarrow> string \<Rightarrow> dict op" where
  "record_cube ws source_handles transform_spec cube_handle media_type key =
     e_seq (e_each (\<lambda>source. op_record_edge ws cube_handle source
              (Some (edge_spec_of transform_spec ws cube_handle media_type key)) None) source_handles)
     (e_seq (op_record_event ws cube_handle E_CREATED
              [(''operation'', jget transform_spec ''operation''), (''source_handles'', names_json source_handles)])
     (e_ret [(''handle'', JStr cube_handle), (''status'', JStr ''ready''), (''output_format'', JStr media_type),
             (''operation'', jget transform_spec ''operation'')]))"

definition emit_cube ::
  "('d, 't, 'v) transform_env \<Rightarrow> ('d, 't) opened \<Rightarrow> string list \<Rightarrow> dict \<Rightarrow> string \<Rightarrow> string option \<Rightarrow> dict op" where
  "emit_cube tr result source_handles transform_spec ws output_format =
     (let media_type = (case output_format of
            Some f \<Rightarrow> f
          | None \<Rightarrow> the (map_of CUBE_FORMAT_BY_SHAPE (shape_of result))) in
      e_bind (lift_sum (serialize_result (tr_library tr) result media_type)) (\<lambda>(name, content).
        let key = cache_key tr transform_spec source_handles;
            storage_key = ''transform/'' @ key @ ''/'' @ name
        in e_seq (op_put_blob storage_key content)
           (e_bind (op_put_handle ws CUBE (cube_payload storage_key media_type transform_spec source_handles key)) (\<lambda>cube_handle.
             record_cube ws source_handles transform_spec cube_handle media_type key))))"

section \<open>The five tools\<close>

definition aoi_bbox :: "('d, 't, 'v) transform_env \<Rightarrow> string option \<Rightarrow> string \<Rightarrow> rat list option op" where
  "aoi_bbox tr aoi_handle ws =
     (case aoi_handle of
        None \<Rightarrow> e_ret None
      | Some h \<Rightarrow> e_read (\<lambda>w. s_bind (resolve_aoi (tr_read_float tr) (w_handles w) ws h) (Inr \<circ> Some)))"

definition subset_spec :: "string \<Rightarrow> string option \<Rightarrow> rat list option \<Rightarrow> string list option \<Rightarrow> string option \<Rightarrow> dict" where
  "subset_spec source_handle aoi_handle bbox variables time_range =
     [(''operation'', JStr ''subset''), (''source_handle'', JStr source_handle), (''aoi_handle'', json_opt aoi_handle),
      (''aoi_bbox'', case bbox of None \<Rightarrow> JNull | Some b \<Rightarrow> JArr (map JFloat b)),
      (''variables'', names_json (case variables of None \<Rightarrow> [] | Some vs \<Rightarrow> vs)), (''time_range'', json_opt time_range)]"

definition subset_tool ::
  "('d, 't, 'v) transform_env \<Rightarrow> string \<Rightarrow> string option \<Rightarrow> string list option \<Rightarrow> string option \<Rightarrow> string
   \<Rightarrow> string option \<Rightarrow> dict op" where
  "subset_tool tr source_handle aoi_handle variables time_range ws edl_token =
     e_bind (op_parse_token (tr_platform tr) edl_token) (\<lambda>_.
     e_bind (load_source tr source_handle ws) (\<lambda>obj.
     e_bind (aoi_bbox tr aoi_handle ws) (\<lambda>bbox.
     e_bind (lift_sum (apply_subset (tr_library tr) (tr_show_float tr) obj bbox variables time_range)) (\<lambda>result.
       emit_cube tr result [source_handle] (subset_spec source_handle aoi_handle bbox variables time_range) ws None))))"

text \<open>The coordinate system is always written as an attribute; a formal one is tried first and its failure ignored.\<close>

definition tag_crs :: "('d, 't, 'v) array_library \<Rightarrow> 'd \<Rightarrow> string \<Rightarrow> exn + 'd" where
  "tag_crs lib ds crs =
     s_bind (case write_crs lib ds crs of Inr r \<Rightarrow> Inr r | Inl e \<Rightarrow> if is_Exception e then Inr ds else Inl e) (\<lambda>r.
       Inr (fold (\<lambda>v r. put_var_attr lib r v ''spatial_ref'' crs) (data_vars lib r) (put_attr lib r ''crs'' crs)))"

definition reproject :: "('d, 't, 'v) transform_env \<Rightarrow> string \<Rightarrow> string \<Rightarrow> string \<Rightarrow> string option \<Rightarrow> dict op" where
  "reproject tr source_handle crs ws edl_token =
     e_bind (op_parse_token (tr_platform tr) edl_token) (\<lambda>_.
     e_bind (load_source tr source_handle ws) (\<lambda>obj.
     e_bind (lift_sum (require_grid ''reproject requires a gridded (Zarr) source'' obj)) (\<lambda>ds.
     e_bind (lift_sum (tag_crs (tr_library tr) ds crs)) (\<lambda>result.
     e_bind (emit_cube tr (Grid result) [source_handle]
        [(''operation'', JStr ''reproject''), (''source_handle'', JStr source_handle), (''crs'', JStr crs)] ws None) (\<lambda>out.
       e_ret (AList.update ''crs'' (JStr crs) out))))))"

definition resample ::
  "('d, 't, 'v) transform_env \<Rightarrow> string \<Rightarrow> string option \<Rightarrow> int option \<Rightarrow> string \<Rightarrow> string option \<Rightarrow> dict op" where
  "resample tr source_handle time_freq spatial_factor ws edl_token =
     (let freq = (case time_freq of None \<Rightarrow> [] | Some f \<Rightarrow> f);
          factor = (case spatial_factor of None \<Rightarrow> 0 | Some f \<Rightarrow> f) in
      e_bind (op_parse_token (tr_platform tr) edl_token) (\<lambda>_.
      e_bind (load_source tr source_handle ws) (\<lambda>obj.
      e_bind (lift_sum (require_grid ''resample requires a gridded (Zarr) source'' obj)) (\<lambda>ds.
        if freq = [] \<and> factor = 0 then e_raise (ValueError ''resample needs a time_freq and/or a spatial_factor'')
        else
          e_bind (lift_sum (s_bind (resample_in_time (tr_library tr) (tr_show tr) ds freq) (\<lambda>r.
                              coarsen_in_space (tr_library tr) r factor))) (\<lambda>result.
            emit_cube tr (Grid result) [source_handle]
              [(''operation'', JStr ''resample''), (''source_handle'', JStr source_handle), (''time_freq'', json_opt time_freq),
               (''spatial_factor'', case spatial_factor of None \<Rightarrow> JNull | Some i \<Rightarrow> JInt i)] ws None)))))"

definition convert_format :: "('d, 't, 'v) transform_env \<Rightarrow> string \<Rightarrow> string \<Rightarrow> string \<Rightarrow> string option \<Rightarrow> dict op" where
  "convert_format tr source_handle output_format ws edl_token =
     e_bind (op_parse_token (tr_platform tr) edl_token) (\<lambda>_.
     e_bind (load_source tr source_handle ws) (\<lambda>obj.
     e_bind (lift_sum (normalize_output_format output_format)) (\<lambda>canonical_format.
       emit_cube tr obj [source_handle]
         [(''operation'', JStr ''convert_format''), (''source_handle'', JStr source_handle),
          (''output_format'', JStr canonical_format)] ws (Some canonical_format))))"

definition prepare_source :: "('d, 't, 'v) transform_env \<Rightarrow> int option \<Rightarrow> 'd \<Rightarrow> exn + 'd" where
  "prepare_source tr snap ds =
     s_bind (cast_int_vars_to_float (tr_library tr) ds) (\<lambda>ds.
     s_bind (maybe_decode_float_time (tr_library tr) ds) (\<lambda>ds.
       case snap of None \<Rightarrow> Inr ds | Some f \<Rightarrow> snap_time (tr_library tr) ds f))"

fun load_sources ::
  "('d, 't, 'v) transform_env \<Rightarrow> int option \<Rightarrow> string \<Rightarrow> string list \<Rightarrow> (string \<times> string) list
   \<Rightarrow> ('d list \<times> (string \<times> string) list) op" where
  "load_sources tr snap ws [] calendars = e_ret ([], calendars)"
| "load_sources tr snap ws (h # hs) calendars =
     e_bind (load_source tr h ws) (\<lambda>obj.
     e_bind (lift_sum (require_grid ''align requires gridded (Zarr) sources'' obj)) (\<lambda>ds.
     e_bind (lift_sum (prepare_source tr snap ds)) (\<lambda>prepared.
     e_bind (load_sources tr snap ws hs (AList.update h (time_calendar (tr_library tr) (tr_show tr) ds) calendars)) (\<lambda>(rest, cs).
       e_ret (prepared # rest, cs)))))"

definition shape_json :: "('d, 't, 'v) array_library \<Rightarrow> 'd \<Rightarrow> json" where
  "shape_json lib ds = JObj (map (\<lambda>(k, n). (k, JInt (int n))) (sizes lib ds))"

definition alignment_report :: "('d, 't, 'v) array_library \<Rightarrow> 'd list \<Rightarrow> string \<Rightarrow> 'd \<Rightarrow> string list \<Rightarrow> json" where
  "alignment_report lib datasets join_method combined stacked =
     JObj [(''n_inputs'', JInt (int (length datasets))), (''method'', JStr join_method), (''common_dims'', shape_json lib combined),
           (''shapes_before'', JArr (map (shape_json lib) datasets)), (''shape_after'', shape_json lib combined),
           (''stacked_variables'', names_json stacked)]"

definition align_datasets ::
  "('d, 't, 'v) transform_env \<Rightarrow> string \<Rightarrow> string list \<Rightarrow> 'd list \<times> (string \<times> string) list \<Rightarrow> exn + 'd \<times> json" where
  "align_datasets tr join_method source_handles loaded =
     (case loaded of (datasets, calendars) \<Rightarrow>
        s_bind (check_calendars_compatible calendars) (\<lambda>_.
        s_bind (align_sets (tr_library tr) datasets join_method) (\<lambda>aligned.
        s_bind (combine_aligned (tr_library tr) aligned source_handles) (\<lambda>(combined, stacked).
          Inr (combined, alignment_report (tr_library tr) datasets join_method combined stacked)))))"

definition align_tool ::
  "('d, 't, 'v) transform_env \<Rightarrow> string list \<Rightarrow> string \<Rightarrow> int option \<Rightarrow> string \<Rightarrow> string option \<Rightarrow> dict op" where
  "align_tool tr source_handles join_method snap_time_freq ws edl_token =
     e_bind (op_parse_token (tr_platform tr) edl_token) (\<lambda>_.
       if length source_handles < 2 then e_raise (ValueError ''align needs at least two source handles'')
       else
         e_bind (load_sources tr snap_time_freq ws source_handles []) (\<lambda>loaded.
         e_bind (lift_sum (align_datasets tr join_method source_handles loaded)) (\<lambda>(combined, report).
         e_bind (emit_cube tr (Grid combined) source_handles
            [(''operation'', JStr ''align''), (''source_handles'', names_json source_handles), (''method'', JStr join_method),
             (''alignment_report'', report)] ws None) (\<lambda>out.
           e_ret (AList.update ''alignment_report'' report out)))))"

section \<open>What a transform leaves behind\<close>

text \<open>Rows, edges and events at the end of their tables, every other table as it was.\<close>

definition derived :: "handle_row list \<Rightarrow> edge list \<Rightarrow> event list \<Rightarrow> world \<Rightarrow> world \<Rightarrow> bool" where
  "derived rows es vs w w' \<longleftrightarrow>
     w_handles w' = w_handles w @ rows \<and> w_edges w' = w_edges w @ es \<and> w_events w' = w_events w @ vs
     \<and> w_jobs w' = w_jobs w \<and> w_access w' = w_access w \<and> w_queue w' = w_queue w"

definition holds :: "string \<Rightarrow> string \<Rightarrow> world \<Rightarrow> bool" where
  "holds key content w \<longleftrightarrow> local_get (w_root w) (w_files w) key = Inr content"

definition edge_for :: "string \<Rightarrow> string \<Rightarrow> dict \<Rightarrow> string \<Rightarrow> edge \<Rightarrow> bool" where
  "edge_for ws cube spec source e \<longleftrightarrow>
     e_workspace_id e = ws \<and> e_target e = cube \<and> e_source e = source
     \<and> (\<exists>ss. e_request_spec e = Some (redact_dict ss spec))"

definition cube_row :: "string \<Rightarrow> handle_row \<Rightarrow> bool" where
  "cube_row ws row \<longleftrightarrow> h_workspace_id row = ws \<and> h_type row = CUBE"

text \<open>What a transform that fails may have left: at most the handle and some of its lineage.\<close>

definition cut_short :: "string \<Rightarrow> world \<Rightarrow> world \<Rightarrow> bool" where
  "cut_short ws w w' \<longleftrightarrow>
     (\<exists>rows es vs. derived rows es vs w w' \<and> length rows \<le> 1 \<and> length vs \<le> 1 \<and> list_all (cube_row ws) rows
        \<and> list_all (\<lambda>e. e_workspace_id e = ws \<and> e_target e \<in> h_handle ` set rows) es
        \<and> list_all (\<lambda>v. v_workspace_id v = ws \<and> v_handle v \<in> h_handle ` set rows) vs)"

definition emitted ::
  "('d, 't, 'v) transform_env \<Rightarrow> string \<Rightarrow> string list \<Rightarrow> dict \<Rightarrow> world \<Rightarrow> dict \<Rightarrow> world \<Rightarrow> bool" where
  "emitted tr ws sources recipe w answer w' \<longleftrightarrow>
     (\<exists>row es v spec result media file key content.
        derived [row] es [v] w w' \<and> cube_row ws row \<and> jget answer ''handle'' = JStr (h_handle row)
        \<and> jget (h_payload row) ''status'' = JStr ''ready'' \<and> jget (h_payload row) ''storage_key'' = JStr key
        \<and> jget (h_payload row) ''media_type'' = JStr media
        \<and> serialize_result (tr_library tr) result media = Inr (file, content) \<and> holds key content w'
        \<and> list_all (\<lambda>(k, v). jget spec k = v) recipe \<and> list_all2 (edge_for ws (h_handle row) spec) sources es
        \<and> v_workspace_id v = ws \<and> v_handle v = h_handle row \<and> v_type v = E_CREATED)"

lemma derived_tables: "derived rows es vs w t \<Longrightarrow> same_tables t u \<Longrightarrow> derived rows es vs w u"
  by (simp add: derived_def same_tables_def)

lemma derived_first: "same_tables w t \<Longrightarrow> derived rows es vs t u \<Longrightarrow> derived rows es vs w u"
  by (simp add: derived_def same_tables_def)

lemma derived_none: "same_tables w t \<Longrightarrow> derived [] [] [] w t"
  by (simp add: derived_def same_tables_def)

lemma cut_short_none: "same_tables w t \<Longrightarrow> cut_short ws w t"
  using derived_none [of w t] unfolding cut_short_def by (intro exI [of _ "[]"]) simp

lemma tables_put_blob: "keeps same_tables (op_put_blob key content)"
  unfolding keeps_def op_put_blob_def e_io_def
  by (auto simp: same_tables_def split: prod.splits io_fault.splits sum.splits dest!: same_tables_next_io)

lemma holds_stepped: "stepped w t \<Longrightarrow> holds key content w \<Longrightarrow> holds key content t"
  by (auto simp: stepped_def holds_def)

lemma wp_put_cube:
  assumes "same_tables w t" and "holds key content t"
  shows "wp (op_put_handle ws CUBE p)
    (\<lambda>h u. \<exists>row. derived [row] [] [] w u \<and> cube_row ws row \<and> h_handle row = h \<and> h_payload row = p \<and> holds key content u)
    (\<lambda>_. cut_short ws w) t"
  unfolding op_put_handle_def draw_token_def wp_bind wp_seq wp_gets wp_modify wp_ret
proof (rule wp_io)
  let ?tok = "w_rand t (w_drawn t)" and ?t = "t\<lparr>w_drawn := Suc (w_drawn t)\<rparr>"
  have put: "\<exists>row. derived [row] [] [] w v \<and> cube_row ws row \<and> h_handle row = h \<and> h_payload row = p \<and> holds key content v"
    if u: "stepped ?t u" and v: "(case put_handle (w_now u) ?tok ws CUBE p (w_handles u) of Inl e \<Rightarrow> Inl e
        | Inr (h, t) \<Rightarrow> Inr (h, u\<lparr>w_handles := t\<rparr>)) = Inr (h, v)" for u h v
  proof -
    obtain t' where t': "put_handle (w_now u) ?tok ws CUBE p (w_handles u) = Inr (h, t')" "v = u\<lparr>w_handles := t'\<rparr>"
      using v by (auto split: sum.splits)
    obtain row where row: "t' = w_handles u @ [row]" "h_handle row = h" "h_workspace_id row = ws" "h_type row = CUBE" "h_payload row = p"
      using put_handle_row [OF t'(1)] by blast
    have "holds key content u" using holds_stepped [OF u] assms(2) by (simp add: holds_def)
    with row t'(2) stepped_tables [OF u] assms(1) show ?thesis
      by (intro exI [of _ row]) (simp add: derived_def cube_row_def holds_def same_tables_def)
  qed
  fix u
  assume u: "stepped ?t u"
  have same: "same_tables w u" using stepped_tables [OF u] assms(1) by (simp add: same_tables_def)
  show "case (case put_handle (w_now u) ?tok ws CUBE p (w_handles u) of Inl e \<Rightarrow> Inl e
      | Inr (h, t) \<Rightarrow> Inr (h, u\<lparr>w_handles := t\<rparr>)) of
      Inl e \<Rightarrow> cut_short ws w u
    | Inr (h, v) \<Rightarrow> \<exists>row. derived [row] [] [] w v \<and> cube_row ws row \<and> h_handle row = h \<and> h_payload row = p \<and> holds key content v"
    using put [OF u] cut_short_none [OF same] by (auto split: sum.split)
  show "cut_short ws w u" by (rule cut_short_none [OF same])
  fix h v
  assume "(case put_handle (w_now u) ?tok ws CUBE p (w_handles u) of Inl e \<Rightarrow> Inl e
        | Inr (h, t) \<Rightarrow> Inr (h, u\<lparr>w_handles := t\<rparr>)) = Inr (h, v)"
  from put [OF u this] obtain row where "derived [row] [] [] w v" "cube_row ws row" by blast
  then show "cut_short ws w v" unfolding cut_short_def
    by (intro exI [of _ "[row]"] exI [of _ "[]"]) simp
qed

lemma cut_short_cube:
  assumes "derived [row] es vs w t" and "cube_row ws row" and "length vs \<le> 1"
    and "list_all (\<lambda>e. e_workspace_id e = ws \<and> e_target e = h_handle row) es"
    and "list_all (\<lambda>v. v_workspace_id v = ws \<and> v_handle v = h_handle row) vs"
  shows "cut_short ws w t"
  using assms unfolding cut_short_def by (intro exI [of _ "[row]"] exI [of _ es] exI [of _ vs]) simp

definition lineage_so_far :: "string \<Rightarrow> handle_row \<Rightarrow> dict \<Rightarrow> string \<Rightarrow> string \<Rightarrow> string list \<Rightarrow> world \<Rightarrow> world \<Rightarrow> bool" where
  "lineage_so_far ws row spec key content sources w t \<longleftrightarrow>
     (\<exists>es. derived [row] es [] w t \<and> cube_row ws row \<and> holds key content t
        \<and> list_all2 (edge_for ws (h_handle row) spec) sources es)"

lemma edges_of_cube:
  "list_all2 (edge_for ws cube spec) sources es \<Longrightarrow> list_all (\<lambda>e. e_workspace_id e = ws \<and> e_target e = cube) es"
  by (induction rule: list_all2_induct) (auto simp: edge_for_def)

lemma lineage_cut_short: "lineage_so_far ws row spec key content sources w t \<Longrightarrow> cut_short ws w t"
  unfolding lineage_so_far_def by (auto intro: cut_short_cube dest: edges_of_cube)

lemma lineage_stepped:
  "lineage_so_far ws row spec key content sources w t \<Longrightarrow> stepped t u \<Longrightarrow> lineage_so_far ws row spec key content sources w u"
  unfolding lineage_so_far_def by (blast intro: derived_tables holds_stepped stepped_tables)

lemma record_edge_added:
  "record_edge ss now ws target source (Some spec) gids es = Inr es' \<Longrightarrow> \<exists>e. es' = es @ [e] \<and> edge_for ws target spec source e"
  by (auto simp: record_edge_def edge_for_def Let_def split: sum.splits)

lemma wp_record_edge:
  assumes "lineage_so_far ws row spec key content sources w t"
  shows "wp (op_record_edge ws (h_handle row) source (Some spec) None)
    (\<lambda>_. lineage_so_far ws row spec key content (sources @ [source]) w) (\<lambda>_. cut_short ws w) t"
proof -
  have added: "lineage_so_far ws row spec key content (sources @ [source]) w v"
    if u: "stepped t u" and v: "(case record_edge (w_secrets u) (w_now u) ws (h_handle row) source (Some spec) None (w_edges u) of
        Inl e \<Rightarrow> Inl e | Inr es \<Rightarrow> Inr ((), u\<lparr>w_edges := es\<rparr>)) = Inr (x, v)" for u x v
  proof -
    obtain e where e: "v = u\<lparr>w_edges := w_edges u @ [e]\<rparr>" "edge_for ws (h_handle row) spec source e"
      using v by (auto split: sum.splits dest: record_edge_added)
    from lineage_stepped [OF assms u] obtain es where "derived [row] es [] w u" "cube_row ws row" "holds key content u"
      "list_all2 (edge_for ws (h_handle row) spec) sources es" by (auto simp: lineage_so_far_def)
    then show ?thesis using e unfolding lineage_so_far_def
      by (intro exI [of _ "es @ [e]"]) (auto simp: derived_def holds_def intro: list_all2_appendI)
  qed
  show ?thesis unfolding op_record_edge_def
  proof (rule wp_io)
    fix u
    assume u: "stepped t u"
    show "case (case record_edge (w_secrets u) (w_now u) ws (h_handle row) source (Some spec) None (w_edges u) of
        Inl e \<Rightarrow> Inl e | Inr es \<Rightarrow> Inr ((), u\<lparr>w_edges := es\<rparr>)) of
        Inl e \<Rightarrow> cut_short ws w u | Inr (x, v) \<Rightarrow> lineage_so_far ws row spec key content (sources @ [source]) w v"
      using added [OF u] lineage_cut_short [OF lineage_stepped [OF assms u]] by (auto split: sum.split)
  qed (auto intro: lineage_cut_short lineage_stepped [OF assms] added)
qed

lemma wp_record_edges:
  "lineage_so_far ws row spec key content sources w t \<Longrightarrow>
   wp (e_each (\<lambda>source. op_record_edge ws (h_handle row) source (Some spec) None) rest)
     (\<lambda>_. lineage_so_far ws row spec key content (sources @ rest) w) (\<lambda>_. cut_short ws w) t"
proof (induction rest arbitrary: sources t)
  case (Cons m rest)
  show ?case
    unfolding e_each.simps wp_seq
    by (rule wp_mono [OF wp_record_edge [OF Cons.prems]])
      (use Cons.IH [of "sources @ [m]"] in simp_all)
qed (simp add: wp_ret)

definition fully_recorded ::
  "string \<Rightarrow> handle_row \<Rightarrow> dict \<Rightarrow> string \<Rightarrow> string \<Rightarrow> string list \<Rightarrow> world \<Rightarrow> world \<Rightarrow> bool" where
  "fully_recorded ws row spec key content sources w t \<longleftrightarrow>
     (\<exists>es v. derived [row] es [v] w t \<and> cube_row ws row \<and> holds key content t
        \<and> list_all2 (edge_for ws (h_handle row) spec) sources es
        \<and> v_workspace_id v = ws \<and> v_handle v = h_handle row \<and> v_type v = E_CREATED)"

lemma fully_cut_short: "fully_recorded ws row spec key content sources w t \<Longrightarrow> cut_short ws w t"
  unfolding fully_recorded_def by (auto intro: cut_short_cube dest: edges_of_cube)

lemma wp_cube_created:
  assumes "lineage_so_far ws row spec key content sources w t"
  shows "wp (op_record_event ws (h_handle row) E_CREATED d)
    (\<lambda>_. fully_recorded ws row spec key content sources w) (\<lambda>_. cut_short ws w) t"
proof -
  have full: "fully_recorded ws row spec key content sources w
      (u\<lparr>w_events := record_event (w_secrets u) (w_now u) ws (h_handle row) E_CREATED d (w_events u)\<rparr>)" if "stepped t u" for u
    using lineage_stepped [OF assms that]
    by (force simp: lineage_so_far_def fully_recorded_def derived_def holds_def record_event_def)
  show ?thesis unfolding op_record_event_def
    by (rule wp_io) (auto intro: full fully_cut_short [OF full] lineage_cut_short lineage_stepped [OF assms])
qed

lemma wp_record_cube:
  assumes "derived [row] [] [] w t" and "cube_row ws row" and "holds key content t"
  shows "wp (record_cube ws sources spec (h_handle row) media ckey)
    (\<lambda>answer u. fully_recorded ws row (edge_spec_of spec ws (h_handle row) media ckey) key content sources w u
       \<and> jget answer ''handle'' = JStr (h_handle row))
    (\<lambda>_. cut_short ws w) t"
proof -
  let ?spec = "edge_spec_of spec ws (h_handle row) media ckey"
  have "lineage_so_far ws row ?spec key content [] w t"
    using assms unfolding lineage_so_far_def by (intro exI [of _ "[]"]) simp
  from wp_record_edges [OF this, of sources] show ?thesis
    unfolding record_cube_def wp_seq
  proof (rule wp_mono)
    fix u
    assume "lineage_so_far ws row ?spec key content ([] @ sources) w u"
    then have "lineage_so_far ws row ?spec key content sources w u" by simp
    from wp_cube_created [OF this]
    show "wp (op_record_event ws (h_handle row) E_CREATED
           [(''operation'', jget spec ''operation''), (''source_handles'', names_json sources)])
      (\<lambda>_. wp (e_ret [(''handle'', JStr (h_handle row)), (''status'', JStr ''ready''), (''output_format'', JStr media),
             (''operation'', jget spec ''operation'')])
         (\<lambda>answer u. fully_recorded ws row ?spec key content sources w u \<and> jget answer ''handle'' = JStr (h_handle row))
         (\<lambda>_. cut_short ws w)) (\<lambda>_. cut_short ws w) u"
      by (rule wp_mono) (simp_all add: wp_ret jget_def)
  qed simp
qed

definition CUBE_KEYS :: "string list" where
  "CUBE_KEYS = [''workspace_id'', ''cube_handle'', ''output_format'', ''cache_key'']"

lemma wp_emit_cube:
  assumes "same_tables w t" and "list_all (\<lambda>(k, v). jget spec k = v \<and> k \<notin> set CUBE_KEYS) recipe"
  shows "wp (emit_cube tr result sources spec ws output_format) (emitted tr ws sources recipe w) (\<lambda>_. cut_short ws w) t"
  unfolding emit_cube_def Let_def
proof (rule wp_lift_step, rule cut_short_none [OF assms(1)])
  let ?media = "case output_format of Some f \<Rightarrow> f | None \<Rightarrow> the (map_of CUBE_FORMAT_BY_SHAPE (shape_of result))"
  fix nc
  assume "serialize_result (tr_library tr) result ?media = Inr nc"
  then obtain name content where nc: "nc = (name, content)"
    "serialize_result (tr_library tr) result ?media = Inr (name, content)" by (cases nc) simp
  let ?ckey = "cache_key tr spec sources"
  let ?key = "''transform/'' @ ?ckey @ ''/'' @ name"
  let ?payload = "cube_payload ?key ?media spec sources ?ckey"
  have minted: "wp (e_bind (op_put_handle ws CUBE ?payload) (\<lambda>h. record_cube ws sources spec h ?media ?ckey))
      (emitted tr ws sources recipe w) (\<lambda>_. cut_short ws w) u" if u: "same_tables w u" "holds ?key content u" for u
    unfolding wp_bind
  proof (rule wp_mono [OF wp_put_cube [OF u]], elim exE conjE)
    fix h v row
    assume row: "derived [row] [] [] w v" "cube_row ws row" "h_handle row = h" "h_payload row = ?payload" "holds ?key content v"
    have spec: "list_all (\<lambda>(k, v). jget (edge_spec_of spec ws (h_handle row) ?media ?ckey) k = v) recipe"
      using assms(2) by (auto simp: list_all_iff edge_spec_of_def jget_def map_of_dict_merge CUBE_KEYS_def)
    show "wp (record_cube ws sources spec h ?media ?ckey) (emitted tr ws sources recipe w) (\<lambda>_. cut_short ws w) v"
      using wp_record_cube [OF row(1,2,5), of sources spec ?media ?ckey] unfolding row(3)
    proof (rule wp_mono, elim conjE)
      fix answer z
      assume full: "fully_recorded ws row (edge_spec_of spec ws h ?media ?ckey) ?key content sources w z"
        and answer: "jget answer ''handle'' = JStr h"
      from full obtain es ev where "derived [row] es [ev] w z" "cube_row ws row" "holds ?key content z"
        "list_all2 (edge_for ws (h_handle row) (edge_spec_of spec ws h ?media ?ckey)) sources es"
        "v_workspace_id ev = ws" "v_handle ev = h_handle row" "v_type ev = E_CREATED"
        unfolding fully_recorded_def by blast
      moreover have "jget (h_payload row) ''status'' = JStr ''ready''" "jget (h_payload row) ''storage_key'' = JStr ?key"
        "jget (h_payload row) ''media_type'' = JStr ?media"
        unfolding row(4) by (simp_all add: cube_payload_def jget_def)
      ultimately show "emitted tr ws sources recipe w answer z"
        using answer spec row(3) nc(2) unfolding emitted_def by metis
    qed simp
  qed simp
  show "wp (case nc of (name, content) \<Rightarrow>
        e_seq (op_put_blob (''transform/'' @ ?ckey @ ''/'' @ name) content)
          (e_bind (op_put_handle ws CUBE (cube_payload (''transform/'' @ ?ckey @ ''/'' @ name) ?media spec sources ?ckey))
            (\<lambda>h. record_cube ws sources spec h ?media ?ckey)))
      (emitted tr ws sources recipe w) (\<lambda>_. cut_short ws w) t"
    unfolding nc(1) prod.case wp_seq
  proof (rule wp_mono [OF wp_conj [OF wp_keeps [OF tables_put_blob] put_blob_stores]], elim conjE)
    fix u
    assume "same_tables t u" and "local_get (w_root u) (w_files u) ?key = Inr content"
    then show "wp (e_bind (op_put_handle ws CUBE ?payload) (\<lambda>h. record_cube ws sources spec h ?media ?ckey))
        (emitted tr ws sources recipe w) (\<lambda>_. cut_short ws w) u"
      by (intro minted) (simp_all add: holds_def tables.R_trans [OF assms(1)])
  qed (auto intro: cut_short_none tables.R_trans [OF assms(1)])
qed

text \<open>The five tools as one call, with the handles it works on.\<close>

datatype transform_call =
    Subset string "string option" "string list option" "string option"
  | Reproject string string
  | Resample string "string option" "int option"
  | Convert string string
  | Align "string list" string "int option"

fun run_transform :: "('d, 't, 'v) transform_env \<Rightarrow> string \<Rightarrow> string option \<Rightarrow> transform_call \<Rightarrow> dict op" where
  "run_transform tr ws tok (Subset h aoi vs t) = subset_tool tr h aoi vs t ws tok"
| "run_transform tr ws tok (Reproject h crs) = reproject tr h crs ws tok"
| "run_transform tr ws tok (Resample h freq f) = resample tr h freq f ws tok"
| "run_transform tr ws tok (Convert h fmt) = convert_format tr h fmt ws tok"
| "run_transform tr ws tok (Align hs m snap) = align_tool tr hs m snap ws tok"

fun call_sources :: "transform_call \<Rightarrow> string list" where
  "call_sources (Subset h _ _ _) = [h]"
| "call_sources (Reproject h _) = [h]"
| "call_sources (Resample h _ _) = [h]"
| "call_sources (Convert h _) = [h]"
| "call_sources (Align hs _ _) = hs"

text \<open>What the recipe on the edges holds of the call.\<close>

fun call_recipe :: "transform_call \<Rightarrow> dict" where
  "call_recipe (Subset h aoi vs t) =
     [(''operation'', JStr ''subset''), (''source_handle'', JStr h), (''aoi_handle'', json_opt aoi),
      (''variables'', names_json (case vs of None \<Rightarrow> [] | Some xs \<Rightarrow> xs)), (''time_range'', json_opt t)]"
| "call_recipe (Reproject h crs) = [(''operation'', JStr ''reproject''), (''source_handle'', JStr h), (''crs'', JStr crs)]"
| "call_recipe (Resample h freq f) =
     [(''operation'', JStr ''resample''), (''source_handle'', JStr h), (''time_freq'', json_opt freq),
      (''spatial_factor'', case f of None \<Rightarrow> JNull | Some i \<Rightarrow> JInt i)]"
| "call_recipe (Convert h _) = [(''operation'', JStr ''convert_format''), (''source_handle'', JStr h)]"
| "call_recipe (Align hs m _) = [(''operation'', JStr ''align''), (''source_handles'', names_json hs), (''method'', JStr m)]"

text \<open>A ready result the workspace holds.\<close>

definition ready_source :: "string \<Rightarrow> world \<Rightarrow> string \<Rightarrow> bool" where
  "ready_source ws w h \<longleftrightarrow> (\<exists>row. row_of_handle (w_handles w) h = Some row \<and> h_workspace_id row = ws
     \<and> handle_type_of h \<in> {Inr OBS, Inr CUBE} \<and> jget (h_payload row) ''status'' = JStr ''ready'')"

definition transform_post ::
  "('d, 't, 'v) transform_env \<Rightarrow> string \<Rightarrow> transform_call \<Rightarrow> world \<Rightarrow> exn + dict \<Rightarrow> world \<Rightarrow> bool" where
  "transform_post tr ws call w r w' \<longleftrightarrow>
     (case r of
        Inl _ \<Rightarrow> cut_short ws w w'
      | Inr answer \<Rightarrow> emitted tr ws (call_sources call) (call_recipe call) w answer w'
          \<and> list_all (ready_source ws w) (call_sources call))"

lemma resolved_ready:
  "resolve_materialized (w_handles t) ws h = Inr x \<Longrightarrow> same_tables w t \<Longrightarrow> ready_source ws w h"
  by (auto simp: resolve_materialized_def ready_source_def get_handle_Inr_iff same_tables_def Let_def split: sum.splits if_splits)

lemma wp_load_source:
  assumes "same_tables w t"
  shows "wp (load_source tr h ws) (\<lambda>_ u. same_tables w u \<and> ready_source ws w h) (\<lambda>_. same_tables w) t"
  unfolding load_source_def wp_bind
proof (rule wp_read)
  fix u
  assume u: "stepped t u"
  have same: "same_tables w u" using stepped_tables [OF u] by (rule tables.R_trans [OF assms])
  have rest: "keeps same_tables (e_bind (op_text key) (\<lambda>key. e_bind (op_get_blob key) (\<lambda>content. e_bind (op_text media) (\<lambda>media.
      lift_sum (open_result (tr_library tr) (tr_show tr) content media)))))" for key media
    unfolding op_get_blob_def by (intro keeps_tables)
  show "case resolve_materialized (w_handles u) ws h of
      Inl e \<Rightarrow> same_tables w u
    | Inr a \<Rightarrow> wp (case a of (storage_key, media_type, payload) \<Rightarrow> e_bind (op_text storage_key) (\<lambda>key. e_bind (op_get_blob key)
        (\<lambda>content. e_bind (op_text media_type) (\<lambda>media. lift_sum (open_result (tr_library tr) (tr_show tr) content media)))))
        (\<lambda>_ u. same_tables w u \<and> ready_source ws w h) (\<lambda>_. same_tables w) u"
    using resolved_ready [OF _ same, of ws h]
    by (auto split: sum.split prod.split intro!: wp_mono [OF wp_keeps [OF rest]] intro: same tables.R_trans [OF same])
  show "same_tables w u" by (rule same)
qed

lemma wp_bind_source:
  assumes "same_tables w t" and "\<And>obj u. same_tables w u \<Longrightarrow> ready_source ws w h \<Longrightarrow> wp (f obj) Q (\<lambda>_. cut_short ws w) u"
  shows "wp (e_bind (load_source tr h ws) f) Q (\<lambda>_. cut_short ws w) t"
  unfolding wp_bind by (rule wp_mono [OF wp_load_source [OF assms(1)]]) (auto intro: assms(2) cut_short_none)

lemma wp_bind_quietly:
  assumes "keeps same_tables m" and "same_tables w t" and "\<And>x u. same_tables w u \<Longrightarrow> wp (f x) Q (\<lambda>_. cut_short ws w) u"
  shows "wp (e_bind m f) Q (\<lambda>_. cut_short ws w) t"
  by (rule wp_bind_same [OF assms(1,2)]) (auto intro: assms(3) cut_short_none)

lemma wp_bind_pure:
  assumes "same_tables w t" and "\<And>a. x = Inr a \<Longrightarrow> wp (f a) Q (\<lambda>_. cut_short ws w) t"
  shows "wp (e_bind (lift_sum x) f) Q (\<lambda>_. cut_short ws w) t"
  by (rule wp_lift_step) (auto intro: assms(2) cut_short_none [OF assms(1)])

lemma emitted_update:
  "emitted tr ws sources recipe w answer t \<Longrightarrow> k \<noteq> ''handle'' \<Longrightarrow> emitted tr ws sources recipe w (AList.update k v answer) t"
  by (simp add: emitted_def)

lemma tables_aoi_bbox: "keeps same_tables (aoi_bbox tr h ws)"
  unfolding aoi_bbox_def by (cases h) (auto intro: keeps_tables)

lemma wp_load_sources:
  assumes "same_tables w t"
  shows "wp (load_sources tr snap ws hs cs) (\<lambda>_ u. same_tables w u \<and> list_all (ready_source ws w) hs) (\<lambda>_. cut_short ws w) t"
  using assms
proof (induction hs arbitrary: cs t)
  case (Cons h hs)
  show ?case
    unfolding load_sources.simps
  proof (rule wp_bind_source [OF Cons.prems], rule wp_bind_pure, assumption, rule wp_bind_pure, assumption)
    fix obj u ds p
    assume u: "same_tables w u" "ready_source ws w h"
    show "wp (e_bind (load_sources tr snap ws hs (AList.update h (time_calendar (tr_library tr) (tr_show tr) ds) cs))
        (\<lambda>(rest, cs). e_ret (p # rest, cs))) (\<lambda>_ u. same_tables w u \<and> list_all (ready_source ws w) (h # hs))
        (\<lambda>_. cut_short ws w) u"
      unfolding wp_bind by (rule wp_mono [OF Cons.IH [OF u(1)]]) (auto simp: wp_ret u(2) split: prod.split)
  qed
qed (simp add: wp_ret)

lemma wp_run_transform:
  "wp (run_transform tr ws tok call) (\<lambda>answer. transform_post tr ws call w (Inr answer)) (\<lambda>_. cut_short ws w) w"
proof -
  let ?Q = "\<lambda>answer. transform_post tr ws call w (Inr answer)"
  have emit: "wp (emit_cube tr result (call_sources call) spec ws out) ?Q (\<lambda>_. cut_short ws w) u"
    if "same_tables w u" "list_all (ready_source ws w) (call_sources call)" "list_all (\<lambda>(k, v). jget spec k = v \<and> k \<notin> set CUBE_KEYS) (call_recipe call)"
    for result spec out u
    by (rule wp_mono [OF wp_emit_cube [OF that(1,3)]]) (simp_all add: transform_post_def that(2))
  have emit_more: "wp (e_bind (emit_cube tr result (call_sources call) spec ws out) (\<lambda>answer. e_ret (AList.update k v answer)))
      ?Q (\<lambda>_. cut_short ws w) u"
    if "same_tables w u" "list_all (ready_source ws w) (call_sources call)" "list_all (\<lambda>(k, v). jget spec k = v \<and> k \<notin> set CUBE_KEYS) (call_recipe call)"
      "k \<noteq> ''handle''"
    for result spec out u k v
    unfolding wp_bind wp_ret
    by (rule wp_mono [OF wp_emit_cube [OF that(1,3)]]) (simp_all add: transform_post_def that(2) emitted_update that(4))
  have parse: "keeps same_tables (op_parse_token (tr_platform tr) tok)" by (intro keeps_tables)
  show ?thesis
  proof (cases call)
    case (Subset h aoi vs t)
    show ?thesis
      unfolding Subset run_transform.simps subset_tool_def
      by (rule wp_bind_quietly [OF parse tables.R_refl], rule wp_bind_source, assumption,
          rule wp_bind_quietly [OF tables_aoi_bbox], assumption, rule wp_bind_pure, assumption,
          rule emit [unfolded Subset call_sources.simps call_recipe.simps], assumption)
        (simp_all add: subset_spec_def jget_def CUBE_KEYS_def)
  next
    case (Reproject h crs)
    show ?thesis
      unfolding Reproject run_transform.simps reproject_def
      by (rule wp_bind_quietly [OF parse tables.R_refl], rule wp_bind_source, assumption,
          rule wp_bind_pure, assumption, rule wp_bind_pure, assumption,
          rule emit_more [unfolded Reproject call_sources.simps call_recipe.simps], assumption)
        (simp_all add: jget_def CUBE_KEYS_def)
  next
    case (Resample h freq f)
    show ?thesis
      unfolding Resample run_transform.simps resample_def Let_def
      by (rule wp_bind_quietly [OF parse tables.R_refl], rule wp_bind_source, assumption,
          rule wp_bind_pure, assumption, rule wp_if, simp add: wp_raise cut_short_none, rule wp_bind_pure, assumption,
          rule emit [unfolded Resample call_sources.simps call_recipe.simps], assumption)
        (simp_all add: jget_def CUBE_KEYS_def)
  next
    case (Convert h fmt)
    show ?thesis
      unfolding Convert run_transform.simps convert_format_def
      by (rule wp_bind_quietly [OF parse tables.R_refl], rule wp_bind_source, assumption, rule wp_bind_pure, assumption,
          rule emit [unfolded Convert call_sources.simps call_recipe.simps], assumption)
        (simp_all add: jget_def CUBE_KEYS_def)
  next
    case (Align hs m snap)
    show ?thesis
      unfolding Align run_transform.simps align_tool_def
    proof (rule wp_bind_quietly [OF parse tables.R_refl], rule wp_if, simp add: wp_raise cut_short_none)
      fix i u
      assume u: "same_tables w u"
      show "wp (e_bind (load_sources tr snap ws hs []) (\<lambda>loaded. e_bind (lift_sum (align_datasets tr m hs loaded)) (\<lambda>(combined, report).
          e_bind (emit_cube tr (Grid combined) hs [(''operation'', JStr ''align''), (''source_handles'', names_json hs),
            (''method'', JStr m), (''alignment_report'', report)] ws None) (\<lambda>out. e_ret (AList.update ''alignment_report'' report out)))))
          (\<lambda>answer. transform_post tr ws (Align hs m snap) w (Inr answer)) (\<lambda>_. cut_short ws w) u"
        unfolding wp_bind [of "load_sources tr snap ws hs []"]
      proof (rule wp_mono [OF wp_load_sources [OF u]], elim conjE, rule wp_bind_pure, assumption)
        fix loaded t a
        assume t: "same_tables w t" "list_all (ready_source ws w) hs"
        show "wp (case a of (combined, report) \<Rightarrow> e_bind (emit_cube tr (Grid combined) hs
            [(''operation'', JStr ''align''), (''source_handles'', names_json hs), (''method'', JStr m), (''alignment_report'', report)]
            ws None) (\<lambda>out. e_ret (AList.update ''alignment_report'' report out)))
            (\<lambda>answer. transform_post tr ws (Align hs m snap) w (Inr answer)) (\<lambda>_. cut_short ws w) t"
          unfolding split_def
          by (rule emit_more [unfolded Align call_sources.simps call_recipe.simps, OF t]) (simp_all add: jget_def CUBE_KEYS_def)
      qed simp
    qed
  qed
qed

text \<open>
  C14: no transform is silent. A transform that answers has worked on ready results of the caller's workspace
  and leaves one ready cube of that workspace whose stored bytes are a serialization in the format it names,
  one edge from each source, in their order, with the redacted recipe of the call, and one created event;
  no other row changes. One that fails, wherever it fails, leaves at most the cube with some of that lineage.
\<close>

theorem transform_recorded:
  "transform_post tr ws call w (fst (run_transform tr ws tok call w)) (snd (run_transform tr ws tok call w))"
  using wp_run_transform [of tr ws tok call w]
  by (auto simp: wp_def transform_post_def split: prod.splits sum.splits)

section \<open>Axes, boxes and names\<close>

definition names_of :: "('d, 't, 'v) array_library \<Rightarrow> 'd \<Rightarrow> string set" where
  "names_of lib ds = set (dims lib ds) \<union> set (coords lib ds) \<union> set (data_vars lib ds)"

lemma lowered_from: "map_of (fold (\<lambda>n m. AList.update (f n) n m) ns t) k = Some v \<Longrightarrow> (v \<in> set ns \<and> f v = k) \<or> map_of t k = Some v"
  by (induction ns arbitrary: t) (force simp: update_conv split: if_splits)+

lemma lowered_kept:
  "map_of t k \<noteq> None \<or> (\<exists>n\<in>set ns. f n = k) \<Longrightarrow> map_of (fold (\<lambda>n m. AList.update (f n) n m) ns t) k \<noteq> None"
  by (induction ns arbitrary: t) (auto simp: update_conv)

lemma lowered_distinct: "distinct (map fst t) \<Longrightarrow> distinct (map fst (fold (\<lambda>n m. AList.update (f n) n m) ns t))"
  by (induction ns arbitrary: t) (auto intro: distinct_update)

lemma variable_name_iff:
  assumes "inj_on py_lower (names_of lib ds)"
  shows "map_of (all_variable_names lib ds) k = Some n \<longleftrightarrow> n \<in> names_of lib ds \<and> py_lower n = k"
proof
  show "n \<in> names_of lib ds \<and> py_lower n = k" if "map_of (all_variable_names lib ds) k = Some n" for n
    using lowered_from [OF that [unfolded all_variable_names_def]] by (auto simp: names_of_def)
  then show "map_of (all_variable_names lib ds) k = Some n" if n: "n \<in> names_of lib ds \<and> py_lower n = k"
  proof -
    have "map_of (all_variable_names lib ds) k \<noteq> None"
      unfolding all_variable_names_def by (rule lowered_kept) (use n in \<open>auto simp: names_of_def\<close>)
    then obtain m where "map_of (all_variable_names lib ds) k = Some m" by blast
    with n assms \<open>\<And>n. map_of (all_variable_names lib ds) k = Some n \<Longrightarrow> _\<close> show ?thesis
      by (metis inj_onD)
  qed
qed

lemma variable_names_all:
  assumes "inj_on py_lower (names_of lib ds)"
  shows "set (map snd (all_variable_names lib ds)) = names_of lib ds"
proof -
  have "distinct (map fst (all_variable_names lib ds))"
    unfolding all_variable_names_def by (rule lowered_distinct) simp
  then have "set (map snd (all_variable_names lib ds)) = ran (map_of (all_variable_names lib ds))"
    by (simp add: ran_distinct)
  also have "\<dots> = names_of lib ds" by (auto simp: ran_def variable_name_iff [OF assms])
  finally show ?thesis .
qed

lemma until_pair_Some: "until_pair s = Some p \<Longrightarrow> \<exists>r. s = p @ ''__'' @ r"
  by (induction s arbitrary: p rule: until_pair.induct) (auto split: if_splits)

lemma until_pair_plain: "CHR ''_'' \<notin> set p \<Longrightarrow> until_pair (p @ ''__'' @ r) = Some p"
proof (induction p)
  case (Cons c p)
  then show ?case by (cases p) auto
qed simp

definition ends_in :: "string list \<Rightarrow> string \<Rightarrow> bool" where
  "ends_in bare n \<longleftrightarrow> (\<exists>a l. n = a @ ''__'' @ l \<and> py_lower l \<in> set bare)"

lemma flattened_leaf_iff:
  assumes "\<forall>b\<in>set bare. CHR ''_'' \<notin> set b"
  shows "(case flattened_leaf n of None \<Rightarrow> False | Some l \<Rightarrow> py_lower l \<in> set bare)
     \<longleftrightarrow> ends_in bare n" (is "?found \<longleftrightarrow> ?form")
proof
  assume ?found
  then obtain p where p: "until_pair (rev n) = Some p" "py_lower (rev p) \<in> set bare"
    by (auto simp: flattened_leaf_def split: option.splits)
  from until_pair_Some [OF p(1)] obtain r where "rev n = p @ ''__'' @ r" by blast
  then have "n = rev (p @ ''__'' @ r)" by (metis rev_rev_ident)
  then have "n = rev r @ ''__'' @ rev p" by simp
  with p(2) show ?form unfolding ends_in_def by blast
next
  assume ?form
  then obtain a l where n: "n = a @ ''__'' @ l" "py_lower l \<in> set bare" unfolding ends_in_def by blast
  have "CHR ''_'' \<notin> set l"
  proof
    assume "CHR ''_'' \<in> set l"
    then have "lower_char CHR ''_'' \<in> set (py_lower l)" by (auto simp: py_lower_def)
    then show False using assms n(2) by (auto simp: lower_char_def less_eq_char_def)
  qed
  then have "until_pair (rev n) = Some (rev l)" using until_pair_plain [of "rev l" "rev a"] by (simp add: n(1))
  then show ?found using n(2) by (simp add: flattened_leaf_def)
qed

lemma sorted_names: "set (sort (remdups xs)) = set xs" "distinct (sort (remdups xs))"
  by simp_all

definition axis_post :: "string list \<Rightarrow> string set \<Rightarrow> string set \<Rightarrow> exn + string option \<Rightarrow> bool" where
  "axis_post bare names tagged r \<longleftrightarrow>
     (let unnamed = (\<forall>n\<in>names. py_lower n \<notin> set bare);
          flat = {n \<in> names. ends_in bare n} in
      case r of
        Inr (Some n) \<Rightarrow>
          (\<exists>before b after. bare = before @ b # after \<and> n \<in> names \<and> py_lower n = b \<and> (\<forall>m\<in>names. py_lower m \<notin> set before))
          \<or> unnamed \<and> (flat = {n} \<or> flat = {} \<and> tagged = {n})
      | Inr None \<Rightarrow> unnamed \<and> flat = {} \<and> tagged = {}
      | Inl e \<Rightarrow> (\<exists>m. e = ValueError m) \<and> unnamed
          \<and> (\<exists>x y. x \<noteq> y \<and> ({x, y} \<subseteq> flat \<or> flat = {} \<and> {x, y} \<subseteq> tagged)))"

definition axis_verdict :: "string list \<Rightarrow> string \<Rightarrow> string list \<Rightarrow> string list \<Rightarrow> exn + string option" where
  "axis_verdict bare axis fl cf =
     (case fl of
        [name] \<Rightarrow> Inr (Some name)
      | _ # _ # _ \<Rightarrow> Inl (ambiguous_axis axis (''flattened-name candidates match '' @ tuple_repr bare) fl)
      | [] \<Rightarrow> (case cf of [] \<Rightarrow> Inr None | [name] \<Rightarrow> Inr (Some name)
          | _ \<Rightarrow> Inl (ambiguous_axis axis ''CF-tagged candidates (standard_name/units)'' cf)))"

lemma axis_choice:
  assumes none: "\<forall>n\<in>names. py_lower n \<notin> set bare"
    and fl: "{n \<in> names. ends_in bare n} = set fl" "distinct fl"
    and cf: "tagged = set cf" "distinct cf"
  shows "axis_post bare names tagged (axis_verdict bare axis fl cf)"
proof -
  have two: "\<exists>a b. a \<noteq> b \<and> {a, b} \<subseteq> set xs" if "xs = x # y # ys" "distinct xs" for x y :: string and xs ys
    using that by (intro exI [of _ x] exI [of _ y]) auto
  show ?thesis
  proof (cases fl)
    case Nil
    show ?thesis
    proof (cases cf)
      case Nil
      with \<open>fl = []\<close> none show ?thesis by (simp add: axis_post_def Let_def fl(1) cf(1) axis_verdict_def)
    next
      case (Cons x ys)
      show ?thesis
      proof (cases ys)
        case Nil
        with Cons \<open>fl = []\<close> none show ?thesis by (simp add: axis_post_def Let_def fl(1) cf(1) axis_verdict_def)
      next
        case (Cons y zs)
        with \<open>cf = x # ys\<close> \<open>fl = []\<close> none two [OF _ cf(2)] show ?thesis
          by (simp add: axis_post_def Let_def fl(1) cf(1) axis_verdict_def ambiguous_axis_def)
      qed
    qed
  next
    case (Cons x ys)
    show ?thesis
    proof (cases ys)
      case Nil
      with Cons none show ?thesis by (simp add: axis_post_def Let_def fl(1) axis_verdict_def)
    next
      case (Cons y zs)
      with \<open>fl = x # ys\<close> none two [OF _ fl(2)] show ?thesis
        by (simp add: axis_post_def Let_def fl(1) axis_verdict_def ambiguous_axis_def)
    qed
  qed
qed


definition toy_arrays :: "(string, string, nat) array_library" where
  "toy_arrays = library.extend toy_library
     (array_library.fields (\<lambda>t _. Inr t) (\<lambda>d _. Inr d) (\<lambda>d _ _ _. Inr d) (\<lambda>d _ _. Inr d) (\<lambda>_ _. [0, 1])
        (\<lambda>_ _. Inr True) (\<lambda>d _. Inr d) (\<lambda>d _. Inr d)
        (\<lambda>_. [(''time'', []), (''product__no2'', [(''units'', JStr ''mol m-2'')])]) (\<lambda>_. None) (\<lambda>d _. Inr d) (\<lambda>d _. Inr d)
        (\<lambda>d _. Inr d) (\<lambda>d _ _. d) (\<lambda>d _ _ _. d) (\<lambda>d _. Inr d) (\<lambda>d _. Inr d) (\<lambda>v _. Inr v) (\<lambda>ds _. Inr ds)
        (\<lambda>ds _ _. Inr (concat ds)) (\<lambda>d _. d))"

lemma toy_arrays_names: "names_of toy_arrays d = {''time'', ''lat'', ''lon'', ''product__no2''}"
  by (auto simp: names_of_def toy_arrays_def toy_library_def library.defs array_library.defs dims_def)


end
