(* ===== verification/Discovery.thy ===== *)
theory Discovery
  imports Reuse Minting
begin

text \<open>
  The catalog and the two discovery tools: the normalization of keywords with its cached vocabulary
  (\<open>catalog/kms.py\<close>), the advisory notes (\<open>catalog/enrichment.py\<close>), \<open>search_datasets\<close> (\<open>tools/discovery.py\<close>)
  and \<open>describe_dataset\<close> (\<open>tools/understanding.py\<close>). The curated YAML files are given as parsed values, \<open>None\<close>
  for a missing file. The theory shows that a curated note never changes a fact, that a keyword is always
  answered from the vocabulary or passed through, that a search mints exactly one handle for each dataset it
  returns, and that a description counts every variable it found.
\<close>

section \<open>The curated files\<close>

record catalog =
  cat_concepts :: "json option"
  cat_products :: "json option"
  cat_variables :: "json option"

definition load_yaml :: "json option \<Rightarrow> string \<Rightarrow> exn + json" where
  "load_yaml file key =
     (case file of
        None \<Rightarrow> Inr (JObj [])
      | Some data \<Rightarrow> s_bind (py_get (py_or data (JObj [])) key JNull) (\<lambda>v. Inr (py_or v (JObj []))))"

definition load_products :: "catalog \<Rightarrow> exn + json" where
  "load_products cat = load_yaml (cat_products cat) ''products''"

definition load_variables :: "catalog \<Rightarrow> exn + json" where
  "load_variables cat = load_yaml (cat_variables cat) ''variables''"

text \<open>\<open>d.get(k, default)\<close> for a key that may be any value; the keys of these files are strings.\<close>

definition py_lookup :: "json \<Rightarrow> json \<Rightarrow> json \<Rightarrow> exn + json" where
  "py_lookup d k dflt =
     (case d of
        JObj m \<Rightarrow>
          (case k of
             JStr s \<Rightarrow> py_get d s dflt
           | _ \<Rightarrow> if hashable k then Inr dflt else Inl (TypeError ''unhashable type''))
      | _ \<Rightarrow> Inl (AttributeError ''get''))"

section \<open>Advisory notes (\<open>catalog/enrichment.py\<close>)\<close>

definition ADVISORY_FLAG :: string where
  "ADVISORY_FLAG = ''advisory/non-authoritative''"

definition advisory_note :: "json \<Rightarrow> json \<Rightarrow> json \<Rightarrow> json" where
  "advisory_note note owner last_reviewed =
     JObj [(''note'', note), (''owner'', owner), (''last_reviewed'', last_reviewed),
           (''authoritative'', JBool False), (''advisory'', JStr ADVISORY_FLAG)]"

definition collection_notes :: "json \<Rightarrow> exn + json list" where
  "collection_notes curated =
     (if \<not> truthy curated then Inr []
      else
        s_bind (py_get curated ''owner'' JNull) (\<lambda>owner.
        s_bind (py_get curated ''last_reviewed'' JNull) (\<lambda>last_reviewed.
        s_bind (py_get curated ''advisory'' (JArr [])) (\<lambda>advisory.
        s_bind (py_iter advisory) (\<lambda>notes.
          Inr (map (\<lambda>n. advisory_note n owner last_reviewed) notes))))))"

definition variable_notes :: "json \<Rightarrow> exn + json list" where
  "variable_notes curated =
     (if \<not> truthy curated then Inr []
      else
        s_bind (py_get curated ''note'' JNull) (\<lambda>note.
          if \<not> truthy note then Inr []
          else s_bind (py_get curated ''owner'' JNull) (\<lambda>owner.
               s_bind (py_get curated ''last_reviewed'' JNull) (\<lambda>last_reviewed.
                 Inr [advisory_note note owner last_reviewed]))))"

text \<open>The curated entry of a variable: the caller's, or the file's for a named variable of a named product.\<close>

definition curated_variable :: "catalog \<Rightarrow> dict \<Rightarrow> json \<Rightarrow> json \<Rightarrow> exn + json" where
  "curated_variable cat umm_rec short_name curated =
     (if curated = JNull \<and> truthy short_name \<and> truthy (jget umm_rec ''Name'') then
        s_bind (load_variables cat) (\<lambda>vars.
        s_bind (py_lookup vars short_name (JObj [])) (\<lambda>product.
          py_lookup product (jget umm_rec ''Name'') JNull))
      else Inr curated)"

definition variable_facts :: "dict \<Rightarrow> dict" where
  "variable_facts umm_rec =
     [(''name'', jget umm_rec ''Name''), (''long_name'', jget umm_rec ''LongName''),
      (''data_type'', jget umm_rec ''DataType''), (''units'', jget umm_rec ''Units''),
      (''scale'', jget umm_rec ''Scale''), (''offset'', jget umm_rec ''Offset''),
      (''fill_values'', case map_of umm_rec ''FillValues'' of None \<Rightarrow> JArr [] | Some v \<Rightarrow> v),
      (''valid_ranges'', case map_of umm_rec ''ValidRanges'' of None \<Rightarrow> JArr [] | Some v \<Rightarrow> v),
      (''standard_name'', jget umm_rec ''StandardName'')]"

definition enrich_variable :: "catalog \<Rightarrow> dict \<Rightarrow> json \<Rightarrow> json \<Rightarrow> exn + dict" where
  "enrich_variable cat umm_rec short_name curated =
     s_bind (curated_variable cat umm_rec short_name curated) (\<lambda>c.
     s_bind (variable_notes c) (\<lambda>notes.
       Inr (AList.update ''advisory_notes'' (JArr notes) (variable_facts umm_rec))))"

definition enrich_collection :: "catalog \<Rightarrow> dict \<Rightarrow> json \<Rightarrow> exn + dict" where
  "enrich_collection cat collection curated =
     (let short_name = jget collection ''short_name'' in
      s_bind (if curated = JNull \<and> truthy short_name
              then s_bind (load_products cat) (\<lambda>products. py_lookup products short_name JNull)
              else Inr curated) (\<lambda>c.
      s_bind (collection_notes c) (\<lambda>notes.
        Inr (AList.update ''advisory_notes'' (JArr notes) collection))))"

section \<open>Keywords (\<open>catalog/kms.py\<close>)\<close>

text \<open>
  The catalog object with the file of its cache (its text, \<open>None\<close> for a missing file); time is in seconds,
  and \<open>json.loads\<close> and \<open>json.dumps\<close> are arguments.
\<close>

record kms =
  k_concepts :: "(string \<times> json list) list"
  k_labels :: "json list option"
  k_cache :: "string option"

definition load_concepts :: "(json \<Rightarrow> string) \<Rightarrow> catalog \<Rightarrow> exn + (string \<times> json list) list" where
  "load_concepts show_other cat =
     s_bind (load_yaml (cat_concepts cat) ''concepts'') (\<lambda>concepts.
     s_bind (py_items concepts) (\<lambda>items.
     s_bind (s_each (\<lambda>(k, v). s_bind (py_iter v) (\<lambda>xs. Inr (py_lower k, xs))) items) (\<lambda>pairs.
       Inr (fold (\<lambda>(k, v) m. AList.update k v m) pairs []))))"

definition new_kms :: "(json \<Rightarrow> string) \<Rightarrow> catalog \<Rightarrow> string option \<Rightarrow> exn + kms" where
  "new_kms show_other cat cache_file =
     s_bind (load_concepts show_other cat) (\<lambda>cs. Inr \<lparr>k_concepts = cs, k_labels = None, k_cache = cache_file\<rparr>)"

text \<open>A \<open>ValueError\<close> of \<open>json.loads\<close> counts as no cache.\<close>

definition cache_payload :: "(string \<Rightarrow> exn + json) \<Rightarrow> kms \<Rightarrow> exn + json option" where
  "cache_payload loads k =
     (case k_cache k of
        None \<Rightarrow> Inr None
      | Some s \<Rightarrow> (case loads s of Inl (ValueError m) \<Rightarrow> Inr None | Inl e \<Rightarrow> Inl e | Inr j \<Rightarrow> Inr (Some j)))"

definition load_cache :: "(string \<Rightarrow> exn + json) \<Rightarrow> kms \<Rightarrow> exn + json list" where
  "load_cache loads k =
     s_bind (cache_payload loads k) (\<lambda>p.
       case p of
         None \<Rightarrow> Inr []
       | Some j \<Rightarrow> s_bind (py_get j ''labels'' (JArr [])) py_iter)"

definition cache_fresh :: "(string \<Rightarrow> exn + json) \<Rightarrow> rat \<Rightarrow> rat \<Rightarrow> kms \<Rightarrow> exn + bool" where
  "cache_fresh loads now ttl k =
     s_bind (cache_payload loads k) (\<lambda>p.
       case p of
         None \<Rightarrow> Inr False
       | Some j \<Rightarrow>
           s_bind (py_get j ''fetched_at'' (JInt 0)) (\<lambda>t.
             case t of
               JInt i \<Rightarrow> Inr (now - of_int i < ttl)
             | JFloat r \<Rightarrow> Inr (now - r < ttl)
             | JBool b \<Rightarrow> Inr (now - (if b then 1 else 0) < ttl)
             | _ \<Rightarrow> Inl (TypeError ''unsupported operand type(s) for -'')))"

definition write_cache :: "(json \<Rightarrow> string) \<Rightarrow> rat \<Rightarrow> json list \<Rightarrow> kms \<Rightarrow> kms" where
  "write_cache to_text now labels k =
     k\<lparr>k_cache := Some (to_text (JObj [(''fetched_at'', JFloat now), (''labels'', JArr labels)]))\<rparr>"

text \<open>The labels of a vocabulary document: text in any of the places KMS has used for it.\<close>

definition label_of :: "(json \<Rightarrow> string) \<Rightarrow> string list \<Rightarrow> json \<Rightarrow> json list" where
  "label_of show_other keys c =
     (case c of
        JObj d \<Rightarrow>
          (let label = fold (\<lambda>k acc. py_or acc (jget d k)) keys JNull in
           if truthy label then [JStr (py_str show_other label)] else [])
      | JStr s \<Rightarrow> [c]
      | _ \<Rightarrow> [])"

definition extract_labels :: "(json \<Rightarrow> string) \<Rightarrow> json \<Rightarrow> json list" where
  "extract_labels show_other payload =
     (case payload of
        JObj d \<Rightarrow>
          (case jget d ''concepts'' of
             JArr cs \<Rightarrow> concat (map (label_of show_other [''prefLabel'', ''label'', ''text'']) cs)
           | _ \<Rightarrow> [])
      | JArr cs \<Rightarrow> concat (map (label_of show_other [''prefLabel'', ''label'']) cs)
      | _ \<Rightarrow> [])"

text \<open>\<open>fetch\<close> is the answer of the vocabulary service.\<close>

definition kms_refresh ::
  "(string \<Rightarrow> exn + json) \<Rightarrow> (json \<Rightarrow> string) \<Rightarrow> (json \<Rightarrow> string) \<Rightarrow> (exn + json) \<Rightarrow> rat \<Rightarrow> rat \<Rightarrow> bool \<Rightarrow> kms \<Rightarrow> exn + bool \<times> kms" where
  "kms_refresh loads to_text show_other fetch now ttl force k =
     s_bind (if force then Inr False else cache_fresh loads now ttl k) (\<lambda>fresh.
       if fresh then Inr (False, k)
       else s_bind fetch (\<lambda>doc.
              let labels = extract_labels show_other doc in
              Inr (True, (write_cache to_text now labels k)\<lparr>k_labels := Some labels\<rparr>)))"

text \<open>\<open>lbl.lower()\<close> of each label.\<close>

definition lowered :: "json list \<Rightarrow> exn + (json \<times> string) list" where
  "lowered labels =
     s_each (\<lambda>l. case l of JStr s \<Rightarrow> Inr (l, py_lower s) | _ \<Rightarrow> Inl (AttributeError ''lower'')) labels"

definition match_kms :: "(string \<Rightarrow> exn + json) \<Rightarrow> string \<Rightarrow> kms \<Rightarrow> exn + json list \<times> kms" where
  "match_kms loads key k =
     s_bind (case k_labels k of Some ls \<Rightarrow> Inr ls | None \<Rightarrow> load_cache loads k) (\<lambda>labels.
     s_bind (lowered labels) (\<lambda>ls.
       let exact = filter (\<lambda>(l, s). s = key) ls;
           hits = (if exact \<noteq> [] then exact else filter (\<lambda>(l, s). py_contains s key) ls)
       in Inr (map fst hits, k\<lparr>k_labels := Some labels\<rparr>)))"

definition normalize_keyword :: "(string \<Rightarrow> exn + json) \<Rightarrow> string \<Rightarrow> kms \<Rightarrow> exn + json list \<times> kms" where
  "normalize_keyword loads term k =
     (let key = py_lower (py_strip term) in
      case map_of (k_concepts k) key of
        Some xs \<Rightarrow> Inr (xs, k)
      | None \<Rightarrow>
          s_bind (match_kms loads key k) (\<lambda>(hits, k').
            Inr (if hits \<noteq> [] then hits else [JStr term], k')))"

section \<open>Search (\<open>tools/discovery.py\<close>)\<close>

definition ALLOWED_FILTERS :: "string list" where
  "ALLOWED_FILTERS =
     [''concept_id'', ''short_name'', ''provider'', ''temporal'', ''bounding_box'', ''processing_level_id'',
      ''has_granules'', ''limit'']"

definition allowed :: "dict option \<Rightarrow> dict" where
  "allowed filters = (case filters of None \<Rightarrow> [] | Some d \<Rightarrow> filter (\<lambda>(k, v). k \<in> set ALLOWED_FILTERS) d)"

definition normalize_query :: "(string \<Rightarrow> exn + json) \<Rightarrow> string \<Rightarrow> kms \<Rightarrow> exn + json \<times> kms" where
  "normalize_query loads query k =
     s_bind (normalize_keyword loads query k) (\<lambda>(terms, k').
       Inr (case terms of [] \<Rightarrow> JStr query | t # _ \<Rightarrow> t, k'))"

definition dataset_summary :: "dict \<Rightarrow> dict" where
  "dataset_summary c =
     map (\<lambda>k. (k, jget c k)) [''concept_id'', ''short_name'', ''version'', ''entry_title'', ''processing_level''] @
     [(''advisory_notes'', case map_of c ''advisory_notes'' of None \<Rightarrow> JArr [] | Some v \<Rightarrow> v)]"

definition dataset_payload :: "dict \<Rightarrow> string \<Rightarrow> json list \<Rightarrow> dict option \<Rightarrow> dict" where
  "dataset_payload enriched query normalized filters =
     [(''concept_id'', jget enriched ''concept_id''), (''collection'', JObj enriched),
      (''search'', JObj [(''query'', JStr query), (''normalized'', JArr normalized), (''filters'', JObj (allowed filters))])]"

text \<open>The loop over the collections.\<close>

fun mint_datasets ::
  "catalog \<Rightarrow> (string \<Rightarrow> exn + json) \<Rightarrow> string \<Rightarrow> string \<Rightarrow> dict option \<Rightarrow> kms \<Rightarrow> dict list \<Rightarrow> json list op" where
  "mint_datasets cat loads ws query filters k [] = e_ret []"
| "mint_datasets cat loads ws query filters k (c # cs) =
     e_bind (lift_sum (enrich_collection cat c JNull)) (\<lambda>enriched.
     e_bind (lift_sum (normalize_keyword loads query k)) (\<lambda>(normalized, k').
     e_bind (op_put_handle ws DATASET (dataset_payload enriched query normalized filters)) (\<lambda>h.
     e_bind (mint_datasets cat loads ws query filters k' cs) (\<lambda>rest.
       e_ret (JObj [(''handle'', JStr h), (''summary'', JObj (dataset_summary enriched))] # rest)))))"

text \<open>A keyword that is not a text is rendered into the query string by the HTTP client.\<close>

definition search_datasets ::
  "retrieval_env \<Rightarrow> catalog \<Rightarrow> string option \<Rightarrow> string \<Rightarrow> dict option \<Rightarrow> string \<Rightarrow> string option \<Rightarrow> dict op" where
  "search_datasets rt cat cache_file query filters ws edl_token =
     (let loads = pf_loads (rt_platform rt) in
      e_bind (op_parse_token (rt_platform rt) edl_token) (\<lambda>identity.
      e_bind (lift_sum (new_kms (pf_show (rt_platform rt)) cat cache_file)) (\<lambda>k.
      e_bind (lift_sum (normalize_query loads query k)) (\<lambda>(keyword, k').
      e_bind (search_collections (rt_cmr rt (map_option id_token identity))
                (Some (py_str (pf_show (rt_platform rt)) keyword)) (allowed filters)) (\<lambda>collections.
      e_bind (mint_datasets cat loads ws query filters k' collections) (\<lambda>datasets.
        e_ret [(''datasets'', JArr datasets), (''count'', JInt (int (length datasets)))]))))))"

section \<open>Description (\<open>tools/understanding.py\<close>)\<close>

definition NO_UMM_VAR_NOTE :: string where
  "NO_UMM_VAR_NOTE =
     ''This collection has no UMM-Var records associated in CMR. Retrieve-time variable-name validation will fall back to granule-structure discovery where available, or be skipped entirely. Legal variable names come from the product's data dictionary or its granule structure -- a full group-qualified path is the safest form to pass to retrieve_subset.''"

definition DMR_SOURCE_NOTE :: string where
  "DMR_SOURCE_NOTE =
     ''This collection has no UMM-Var records associated in CMR. The variables below are the full group-qualified paths discovered from one recent granule's DMR (DAP4 structure) -- real paths from a real file, not CMR's curated catalog, so no units/long_name/fill-value facts are attached. Retrieve-time variable-name validation will rely on this same granule-structure discovery. Pass a path shown here as-is to retrieve_subset.''"

definition COMPACT_METADATA_FIELDS :: "string list" where
  "COMPACT_METADATA_FIELDS = [''concept_id'', ''short_name'', ''version'', ''entry_title'', ''processing_level'']"

definition MASK_METADATA_GAP_NOTE :: string where
  "MASK_METADATA_GAP_NOTE =
     ''CMR has no fill-value or valid-range records for this variable in UMM-Var. Do not assume the data is unmasked -- verify against the product's data dictionary before applying a hand-pinned override.''"

definition compact_metadata :: "json \<Rightarrow> exn + json" where
  "compact_metadata collection =
     s_bind (s_each (\<lambda>k. s_bind (py_get collection k JNull) (\<lambda>v. Inr (k, v))) COMPACT_METADATA_FIELDS) (\<lambda>kvs. Inr (JObj kvs))"

definition flag_missing_mask_metadata :: "dict \<Rightarrow> dict" where
  "flag_missing_mask_metadata var =
     (if \<not> truthy (jget var ''fill_values'') \<and> \<not> truthy (jget var ''valid_ranges'')
      then AList.update ''mask_metadata_note'' (JStr MASK_METADATA_GAP_NOTE) var else var)"

definition compact_variable :: "dict \<Rightarrow> dict" where
  "compact_variable var =
     map (\<lambda>k. (k, jget var k)) [''name'', ''long_name'', ''units''] @
     map (\<lambda>k. (k, case map_of var k of None \<Rightarrow> JArr [] | Some v \<Rightarrow> v)) [''fill_values'', ''valid_ranges'', ''advisory_notes''] @
     (case map_of var ''mask_metadata_note'' of None \<Rightarrow> [] | Some v \<Rightarrow> [(''mask_metadata_note'', v)])"

definition to_umm_var :: "dict \<Rightarrow> dict" where
  "to_umm_var var =
     map (\<lambda>(k, from_key). (k, jget var from_key))
       [(''Name'', ''name''), (''LongName'', ''long_name''), (''DataType'', ''data_type''), (''Units'', ''units''),
        (''Scale'', ''scale''), (''Offset'', ''offset'')] @
     map (\<lambda>(k, from_key). (k, case map_of var from_key of None \<Rightarrow> JArr [] | Some v \<Rightarrow> v))
       [(''FillValues'', ''fill_values''), (''ValidRanges'', ''valid_ranges'')] @
     [(''StandardName'', jget var ''standard_name'')]"

text \<open>\<open>try: m except Exception: return None\<close>.\<close>

definition soften :: "'a op \<Rightarrow> 'a option op" where
  "soften m = e_catch (e_bind m (\<lambda>x. e_ret (Some x))) (\<lambda>e. if is_Exception e then e_ret None else e_raise e)"

definition dmr_variable_paths :: "retrieval_env \<Rightarrow> cmr_provider \<Rightarrow> json \<Rightarrow> string list option op" where
  "dmr_variable_paths rt cp concept_id =
     e_bind (soften (search_granules cp concept_id JNull JNull JNull JNull JNull 1)) (\<lambda>found.
       case found of
         None \<Rightarrow> e_ret None
       | Some [] \<Rightarrow> e_ret None
       | Some (g # _) \<Rightarrow>
           e_bind (lift_sum (opendap_url_of (cp_show cp) g)) (\<lambda>url.
             case url of
               None \<Rightarrow> e_ret None
             | Some u \<Rightarrow>
                 if u = [] then e_ret None
                 else e_bind (soften (get_dmr cp u)) (\<lambda>xml.
                        e_ret (case xml of
                                 Some (Some text) \<Rightarrow>
                                   if text = [] then None
                                   else map_option (\<lambda>tree. sort (map fst tree)) (parse_dmr (rt_fromstring rt) text)
                               | _ \<Rightarrow> None))))"

definition description ::
  "string \<Rightarrow> json \<Rightarrow> json \<Rightarrow> json list \<Rightarrow> json \<Rightarrow> string \<Rightarrow> dict" where
  "description handle concept_id metadata variables notes source =
     [(''handle'', JStr handle), (''concept_id'', concept_id), (''metadata'', metadata),
      (''variables'', JArr variables), (''variable_count'', JInt (int (length variables))),
      (''advisory_notes'', notes), (''variable_source'', JStr source)] @
     (if source = ''opendap-dmr'' then [(''variables_note'', JStr DMR_SOURCE_NOTE)]
      else if source \<noteq> ''umm-var'' then [(''variables_note'', JStr NO_UMM_VAR_NOTE)]
      else [])"

definition describe_dataset ::
  "retrieval_env \<Rightarrow> catalog \<Rightarrow> string \<Rightarrow> string \<Rightarrow> bool \<Rightarrow> string option \<Rightarrow> dict op" where
  "describe_dataset rt cat dataset_handle ws detail edl_token =
     e_bind (op_parse_token (rt_platform rt) edl_token) (\<lambda>identity.
     let cp = rt_cmr rt (map_option id_token identity) in
     e_bind (e_read (\<lambda>w. resolve_dataset (w_handles w) ws dataset_handle)) (\<lambda>concept_id.
     e_bind (op_get_handle ws dataset_handle) (\<lambda>record.
     let collection = (case map_of (h_payload record) ''collection'' of None \<Rightarrow> JObj [] | Some c \<Rightarrow> c) in
     e_bind (lift_sum (py_get collection ''short_name'' JNull)) (\<lambda>short_name.
     e_bind (get_variables cp concept_id None MAX_LIMIT) (\<lambda>records.
     e_bind (lift_sum (s_each (\<lambda>var. s_bind (enrich_variable cat (to_umm_var var) short_name JNull)
                                       (\<lambda>v. Inr (flag_missing_mask_metadata v))) records)) (\<lambda>variables.
     e_bind (lift_sum (if detail then Inr collection else compact_metadata collection)) (\<lambda>metadata.
     e_bind (if variables = [] then dmr_variable_paths rt cp concept_id else e_ret None) (\<lambda>dmr_paths.
     e_bind (lift_sum (py_get collection ''advisory_notes'' (JArr []))) (\<lambda>notes.
       e_ret (case dmr_paths of
                Some ps \<Rightarrow>
                  description dataset_handle concept_id metadata (map (\<lambda>p. JObj [(''name'', JStr p)]) ps) notes ''opendap-dmr''
              | None \<Rightarrow>
                  description dataset_handle concept_id metadata
                    (map (\<lambda>v. JObj (if detail then v else compact_variable v)) variables) notes
                    (if variables \<noteq> [] then ''umm-var'' else ''none'')))))))))))"

section \<open>Curated notes\<close>

text \<open>A note built from a curated entry says that it is not authoritative.\<close>

definition advisory_only :: "json \<Rightarrow> bool" where
  "advisory_only n \<longleftrightarrow>
     (\<exists>d. n = JObj d \<and> jget d ''authoritative'' = JBool False \<and> jget d ''advisory'' = JStr ''advisory/non-authoritative'')"

lemma advisory_note_only: "advisory_only (advisory_note a b c)"
  by (simp add: advisory_only_def advisory_note_def ADVISORY_FLAG_def)

lemma collection_notes_advisory: "collection_notes c = Inr ns \<Longrightarrow> list_all advisory_only ns"
  by (auto simp: collection_notes_def sum_simps list_all_iff advisory_note_only split: if_splits)

lemma variable_notes_advisory: "variable_notes c = Inr ns \<Longrightarrow> list_all advisory_only ns"
  by (auto simp: variable_notes_def sum_simps advisory_note_only split: if_splits)

text \<open>
  Curated notes never become facts. An enriched variable keeps the name, units, type, scale, offset, fill
  values and ranges of its metadata record and an enriched collection every field of its own; all the
  catalogue adds is a list of notes, each marked advisory and not authoritative.
\<close>

theorem curated_notes_never_facts:
  assumes "enrich_variable cat umm_rec short_name curated = Inr var" and "enrich_collection cat collection entry = Inr enriched"
  shows "map (jget var) [''name'', ''long_name'', ''data_type'', ''units'', ''scale'', ''offset'', ''standard_name''] =
      map (jget umm_rec) [''Name'', ''LongName'', ''DataType'', ''Units'', ''Scale'', ''Offset'', ''StandardName'']
    \<and> jget var ''fill_values'' = (case map_of umm_rec ''FillValues'' of None \<Rightarrow> JArr [] | Some v \<Rightarrow> v)
    \<and> jget var ''valid_ranges'' = (case map_of umm_rec ''ValidRanges'' of None \<Rightarrow> JArr [] | Some v \<Rightarrow> v)
    \<and> (\<forall>k. k \<noteq> ''advisory_notes'' \<longrightarrow> map_of enriched k = map_of collection k)
    \<and> (\<exists>ns ms. jget var ''advisory_notes'' = JArr ns \<and> jget enriched ''advisory_notes'' = JArr ms
         \<and> list_all advisory_only ns \<and> list_all advisory_only ms)"
proof -
  from assms(1) obtain ns where v: "list_all advisory_only ns" "var = AList.update ''advisory_notes'' (JArr ns) (variable_facts umm_rec)"
    by (auto simp: enrich_variable_def sum_simps dest: variable_notes_advisory)
  from assms(2) obtain ms where c: "list_all advisory_only ms" "enriched = AList.update ''advisory_notes'' (JArr ms) collection"
    by (auto simp: enrich_collection_def Let_def sum_simps dest: collection_notes_advisory)
  show ?thesis using v c by (auto simp: variable_facts_def update_conv)
qed

definition sample_catalog :: catalog where
  "sample_catalog =
     \<lparr>cat_concepts = Some (JObj [(''concepts'', JObj [(''Rain'', JArr [JStr ''PRECIPITATION AMOUNT''])])]),
      cat_products = Some (JObj [(''products'', JObj [(''P'', JObj [(''advisory'', JArr [JStr ''provisional'']), (''short_name'', JStr ''X'')])])]),
      cat_variables = Some (JObj [(''variables'', JObj [(''P'', JObj [(''v'', JObj [(''note'', JStr ''flag''), (''Units'', JStr ''K'')])])])])\<rparr>"

lemma curated_notes_never_facts_witness:
  "\<exists>var enriched. enrich_variable sample_catalog [(''Name'', JStr ''v''), (''Units'', JStr ''m'')] (JStr ''P'') JNull = Inr var
     \<and> enrich_collection sample_catalog [(''short_name'', JStr ''P'')] JNull = Inr enriched
     \<and> jget var ''units'' = JStr ''m'' \<and> map_of enriched ''short_name'' = Some (JStr ''P'')"
proof -
  have "isl (enrich_variable sample_catalog [(''Name'', JStr ''v''), (''Units'', JStr ''m'')] (JStr ''P'') JNull) = False"
    and "isl (enrich_collection sample_catalog [(''short_name'', JStr ''P'')] JNull) = False"
    by code_simp+
  then obtain var enriched
    where var: "enrich_variable sample_catalog [(''Name'', JStr ''v''), (''Units'', JStr ''m'')] (JStr ''P'') JNull = Inr var"
      and col: "enrich_collection sample_catalog [(''short_name'', JStr ''P'')] JNull = Inr enriched"
    by (metis isl_def sum.exhaust)
  from curated_notes_never_facts [OF var col] var col show ?thesis by auto
qed

section \<open>Keywords\<close>

text \<open>The vocabulary a catalog answers from, loaded once.\<close>

definition vocabulary :: "(string \<Rightarrow> exn + json) \<Rightarrow> kms \<Rightarrow> exn + json list" where
  "vocabulary loads k = (case k_labels k of Some ls \<Rightarrow> Inr ls | None \<Rightarrow> load_cache loads k)"

lemma lowered_Inr: "lowered ls = Inr xs \<longleftrightarrow> (\<exists>ts. ls = map JStr ts \<and> xs = map (\<lambda>t. (JStr t, py_lower t)) ts)"
proof (induction ls arbitrary: xs)
  case Nil
  show ?case by (auto simp: lowered_def)
next
  case (Cons l ls)
  show ?case
  proof
    assume a: "lowered (l # ls) = Inr xs"
    then obtain s ys where s: "l = JStr s" "lowered ls = Inr ys" "xs = (l, py_lower s) # ys"
      by (auto simp: lowered_def sum_simps split: json.splits)
    with Cons.IH obtain ts where "ls = map JStr ts" "ys = map (\<lambda>t. (JStr t, py_lower t)) ts" by blast
    with s show "\<exists>ts. l # ls = map JStr ts \<and> xs = map (\<lambda>t. (JStr t, py_lower t)) ts"
      by (intro exI [of _ "s # ts"]) simp
  next
    assume "\<exists>ts. l # ls = map JStr ts \<and> xs = map (\<lambda>t. (JStr t, py_lower t)) ts"
    then obtain s ts where "l = JStr s" "ls = map JStr ts" "xs = (JStr s, py_lower s) # map (\<lambda>t. (JStr t, py_lower t)) ts"
      by (auto simp: Cons_eq_map_conv)
    with Cons.IH [of "map (\<lambda>t. (JStr t, py_lower t)) ts"] show "lowered (l # ls) = Inr xs"
      by (auto simp: lowered_def)
  qed
qed

text \<open>
  Keyword normalisation. A known concept is answered by its curated terms; any other word by the
  vocabulary's terms that equal it but for case, else by those that contain it, else by itself; asking again
  gives the same terms without fetching the vocabulary anew.
\<close>

theorem keyword_answered:
  assumes "normalize_keyword loads term k = Inr (terms, k')"
  shows "case map_of (k_concepts k) (py_lower (py_strip term)) of
      Some xs \<Rightarrow> terms = xs \<and> k' = k
    | None \<Rightarrow> \<exists>ts. vocabulary loads k = Inr (map JStr ts)
        \<and> terms = map JStr (let key = py_lower (py_strip term);
                                exact = filter (\<lambda>t. py_lower t = key) ts;
                                inside = filter (\<lambda>t. \<exists>a b. py_lower t = a @ key @ b) ts
                            in if exact \<noteq> [] then exact else if inside \<noteq> [] then inside else [term])
        \<and> normalize_keyword loads term k' = Inr (terms, k')"
proof (cases "map_of (k_concepts k) (py_lower (py_strip term))")
  case None
  let ?key = "py_lower (py_strip term)"
  from assms None obtain labels ls
    where l: "vocabulary loads k = Inr labels" "lowered labels = Inr ls" "k' = k\<lparr>k_labels := Some labels\<rparr>"
      and t: "terms = (let exact = filter (\<lambda>(l, s). s = ?key) ls;
           hits = map fst (if exact \<noteq> [] then exact else filter (\<lambda>(l, s). py_contains s ?key) ls)
         in if hits \<noteq> [] then hits else [JStr term])"
    by (auto simp: normalize_keyword_def match_kms_def vocabulary_def Let_def sum_simps split: prod.splits)
  from l(2) obtain ts where ts: "labels = map JStr ts" "ls = map (\<lambda>t. (JStr t, py_lower t)) ts" by (auto simp: lowered_Inr)
  have exact: "filter (\<lambda>(l, s). s = ?key) ls = map (\<lambda>t. (JStr t, py_lower t)) (filter (\<lambda>t. py_lower t = ?key) ts)"
    by (simp add: ts(2) filter_map o_def)
  have inside: "filter (\<lambda>(l, s). py_contains s ?key) ls =
      map (\<lambda>t. (JStr t, py_lower t)) (filter (\<lambda>t. \<exists>a b. py_lower t = a @ ?key @ b) ts)"
    by (simp add: ts(2) filter_map o_def contains_iff)
  have "terms = map JStr (let exact = filter (\<lambda>t. py_lower t = ?key) ts;
      inside = filter (\<lambda>t. \<exists>a b. py_lower t = a @ ?key @ b) ts
      in if exact \<noteq> [] then exact else if inside \<noteq> [] then inside else [term])"
    unfolding t exact inside Let_def by (auto simp: o_def)
  moreover have "normalize_keyword loads term k' = Inr (terms, k')"
    using assms None l(1,3) by (auto simp: normalize_keyword_def match_kms_def vocabulary_def Let_def sum_simps split: prod.splits)
  moreover have "vocabulary loads k = Inr (map JStr ts)" using l(1) ts(1) by simp
  ultimately show ?thesis unfolding None option.case Let_def by (intro exI [of _ ts] conjI)
qed (use assms in \<open>simp add: normalize_keyword_def Let_def\<close>)

lemma inj_JStr: "inj JStr"
  by (simp add: inj_def)

lemma keyword_answered_witness:
  "\<exists>k'. normalize_keyword (\<lambda>_. Inr JNull) '' Snow '' \<lparr>k_concepts = [], k_labels = Some [JStr ''SNOW COVER'', JStr ''FROZEN''], k_cache = None\<rparr>
     = Inr ([JStr ''SNOW COVER''], k')"
proof -
  let ?k = "\<lparr>k_concepts = [], k_labels = Some [JStr ''SNOW COVER'', JStr ''FROZEN''], k_cache = None\<rparr>"
  have "isl (normalize_keyword (\<lambda>_. Inr JNull) '' Snow '' ?k) = False" by code_simp
  then obtain terms k' where run: "normalize_keyword (\<lambda>_. Inr JNull) '' Snow '' ?k = Inr (terms, k')"
    by (metis isl_def sum.exhaust surj_pair)
  have key: "py_lower (py_strip '' Snow '') = ''snow''" by code_simp
  have low: "py_lower ''SNOW COVER'' = [] @ ''snow'' @ '' cover''" "py_lower ''FROZEN'' = ''frozen''" by code_simp+
  have no: "\<not> (\<exists>a b. ''frozen'' = a @ ''snow'' @ b)" unfolding contains_iff [symmetric] by code_simp
  from keyword_answered [OF run] obtain ts where ts: "vocabulary (\<lambda>_. Inr JNull) ?k = Inr (map JStr ts)"
    and t: "terms = map JStr (let exact = filter (\<lambda>t. py_lower t = ''snow'') ts;
                inside = filter (\<lambda>t. \<exists>a b. py_lower t = a @ ''snow'' @ b) ts
            in if exact \<noteq> [] then exact else if inside \<noteq> [] then inside else ['' Snow ''])"
    by (auto simp: key)
  from ts have "map JStr ts = map JStr [''SNOW COVER'', ''FROZEN'']" by (simp add: vocabulary_def)
  then have "ts = [''SNOW COVER'', ''FROZEN'']" unfolding inj_map_eq_map [OF inj_JStr] .
  moreover have "\<exists>a b. py_lower ''SNOW COVER'' = a @ ''snow'' @ b" using low(1) by blast
  ultimately have "terms = [JStr ''SNOW COVER'']" using low no unfolding t by simp
  then show ?thesis using run by auto
qed

text \<open>A refreshed vocabulary is read back by the next process, and is not fetched again while it is fresh.\<close>

lemma kms_cache_roundtrip:
  assumes "kms_refresh loads to_text show_other (Inr doc) now ttl force k = Inr (True, k')"
    and "\<And>x. loads (to_text x) = Inr x"
  shows "vocabulary loads (k'\<lparr>k_labels := None\<rparr>) = Inr (extract_labels show_other doc)
    \<and> vocabulary loads k' = Inr (extract_labels show_other doc)
    \<and> kms_refresh loads to_text show_other fetch later ttl False k' =
        (if later - now < ttl then Inr (False, k')
         else s_bind fetch (\<lambda>d. Inr (True, k'\<lparr>k_cache := Some (to_text (JObj [(''fetched_at'', JFloat later), (''labels'', JArr (extract_labels show_other d))])),
                k_labels := Some (extract_labels show_other d)\<rparr>)))"
proof -
  have k': "k' = (write_cache to_text now (extract_labels show_other doc) k)\<lparr>k_labels := Some (extract_labels show_other doc)\<rparr>"
    using assms(1) by (auto simp: kms_refresh_def Let_def sum_simps split: if_splits)
  then show ?thesis
    by (auto simp: vocabulary_def load_cache_def cache_payload_def cache_fresh_def kms_refresh_def write_cache_def assms(2) Let_def)
qed

section \<open>What a search mints\<close>

text \<open>The row behind one entry of the answer.\<close>

definition found_dataset :: "json \<Rightarrow> handle_row \<Rightarrow> bool" where
  "found_dataset entry row \<longleftrightarrow> h_type row = DATASET \<and>
     (\<exists>summary collection. entry = JObj [(''handle'', JStr (h_handle row)), (''summary'', JObj summary)]
        \<and> jget (h_payload row) ''collection'' = JObj collection
        \<and> jget (h_payload row) ''concept_id'' = jget collection ''concept_id''
        \<and> jget summary ''concept_id'' = jget collection ''concept_id''
        \<and> jget summary ''short_name'' = jget collection ''short_name'')"

lemma found_entry:
  "h_type row = DATASET \<Longrightarrow> h_payload row = dataset_payload enriched query normalized filters \<Longrightarrow>
     found_dataset (JObj [(''handle'', JStr (h_handle row)), (''summary'', JObj (dataset_summary enriched))]) row"
  by (auto simp: found_dataset_def dataset_payload_def dataset_summary_def)

lemma wp_mint_datasets:
  assumes "mints ws rs w0 w"
  shows "wp (mint_datasets cat loads ws query filters k cs)
    (\<lambda>xs t. \<exists>rows. mints ws (rs @ rows) w0 t \<and> list_all2 found_dataset xs rows)
    (\<lambda>_ t. \<exists>rows. mints ws (rs @ rows) w0 t \<and> list_all (\<lambda>r. h_type r = DATASET) rows) w"
  using assms
proof (induction cs arbitrary: k rs w)
  case Nil
  then show ?case by (auto simp: wp_ret intro: exI [of _ "[]"])
next
  case (Cons c cs)
  let ?E = "\<lambda>_ t. \<exists>rows. mints ws (rs @ rows) w0 t \<and> list_all (\<lambda>r. h_type r = DATASET) rows"
  have same: "?E e t" if "same_tables w t" for e t
    using mints_then [OF Cons.prems that] by (intro exI [of _ "[]"]) simp
  have more: "?E e t" if "mints ws [row] w t" "h_type row = DATASET" for e t row
    using mints_trans [OF Cons.prems that(1)] that(2) by (intro exI [of _ "[row]"]) simp
  show ?case
    unfolding mint_datasets.simps
  proof (rule wp_lift_step)
    fix enriched
    show "wp (e_bind (lift_sum (normalize_keyword loads query k)) (\<lambda>(normalized, k').
        e_bind (op_put_handle ws DATASET (dataset_payload enriched query normalized filters)) (\<lambda>h.
        e_bind (mint_datasets cat loads ws query filters k' cs) (\<lambda>rest.
          e_ret (JObj [(''handle'', JStr h), (''summary'', JObj (dataset_summary enriched))] # rest)))))
      (\<lambda>xs t. \<exists>rows. mints ws (rs @ rows) w0 t \<and> list_all2 found_dataset xs rows) ?E w"
    proof (rule wp_lift_step, unfold split_def wp_bind)
      fix nk :: "json list \<times> kms"
      let ?p = "dataset_payload enriched query (fst nk) filters"
      show "wp (op_put_handle ws DATASET ?p) (\<lambda>h. wp (mint_datasets cat loads ws query filters (snd nk) cs)
          (\<lambda>rest. wp (e_ret (JObj [(''handle'', JStr h), (''summary'', JObj (dataset_summary enriched))] # rest))
            (\<lambda>xs t. \<exists>rows. mints ws (rs @ rows) w0 t \<and> list_all2 found_dataset xs rows) ?E) ?E) ?E w"
      proof (rule wp_mono [OF wp_put_handle [OF tables.R_refl]])
        fix h t
        assume "minted ws DATASET ?p h w t"
        then obtain row where row: "mints ws [row] w t" "h_handle row = h" "h_type row = DATASET" "h_payload row = ?p"
          by (auto simp: minted_def)
        have "mints ws (rs @ [row]) w0 t" by (rule mints_trans [OF Cons.prems row(1)])
        from Cons.IH [OF this, of "snd nk"]
        show "wp (mint_datasets cat loads ws query filters (snd nk) cs)
          (\<lambda>rest. wp (e_ret (JObj [(''handle'', JStr h), (''summary'', JObj (dataset_summary enriched))] # rest))
            (\<lambda>xs t. \<exists>rows. mints ws (rs @ rows) w0 t \<and> list_all2 found_dataset xs rows) ?E) ?E t"
        proof (rule wp_mono)
          fix rest u
          assume "\<exists>rows. mints ws ((rs @ [row]) @ rows) w0 u \<and> list_all2 found_dataset rest rows"
          then obtain rows where "mints ws (rs @ row # rows) w0 u" "list_all2 found_dataset rest rows" by auto
          then show "wp (e_ret (JObj [(''handle'', JStr h), (''summary'', JObj (dataset_summary enriched))] # rest))
            (\<lambda>xs t. \<exists>rows. mints ws (rs @ rows) w0 t \<and> list_all2 found_dataset xs rows) ?E u"
            using found_entry [OF row(3,4)] row(2) by (auto simp: wp_ret intro!: exI [of _ "row # rows"])
        next
          fix e u
          assume "\<exists>rows. mints ws ((rs @ [row]) @ rows) w0 u \<and> list_all (\<lambda>r. h_type r = DATASET) rows"
          then obtain rows where "mints ws (rs @ row # rows) w0 u" "list_all (\<lambda>r. h_type r = DATASET) rows" by auto
          then show "?E e u" using row(3) by (intro exI [of _ "row # rows"]) simp
        qed
      next
        fix e t
        assume "same_tables w t \<or> (\<exists>h. minted ws DATASET ?p h w t)"
        then show "?E e t" using same more by (auto simp: minted_def)
      qed
    qed (rule same [OF tables.R_refl])
  qed (rule same [OF tables.R_refl])
qed

definition search_post :: "string \<Rightarrow> world \<Rightarrow> exn + dict \<Rightarrow> world \<Rightarrow> bool" where
  "search_post ws w r w' \<longleftrightarrow>
     (\<exists>rows. mints ws rows w w' \<and> list_all (\<lambda>row. h_type row = DATASET) rows
        \<and> (case r of
             Inl e \<Rightarrow> True
           | Inr answer \<Rightarrow>
               jget answer ''count'' = JInt (int (length rows))
               \<and> (\<exists>xs. jget answer ''datasets'' = JArr xs \<and> list_all2 found_dataset xs rows)))"

text \<open>
  A dataset search mints one handle for each dataset it lists, in their order and in the caller's
  workspace, with the concept id it shows; whatever fails, it leaves nothing but such handles behind.
\<close>

theorem search_mints_one_handle_each:
  assumes "search_datasets rt cat cache_file query filters ws tok w = (r, w')" and "\<And>t. cmr_aside (rt_cmr rt t)"
  shows "search_post ws w r w'"
proof -
  let ?Q = "\<lambda>answer. search_post ws w (Inr answer)" and ?E = "\<lambda>e :: exn. \<lambda>t. \<exists>rows. mints ws rows w t \<and> list_all (\<lambda>r. h_type r = DATASET) rows"
  have same: "?E e t" if "same_tables w t" for e t using mints_tables [OF that] by (intro exI [of _ "[]"]) simp
  have datasets: "list_all (\<lambda>r. h_type r = DATASET) rows" if "list_all2 found_dataset xs rows" for xs rows
    using that by (induction rule: list_all2_induct) (auto simp: found_dataset_def)
  have finish: "wp (e_bind (mint_datasets cat loads ws query filters k cs) (\<lambda>datasets.
      e_ret [(''datasets'', JArr datasets), (''count'', JInt (int (length datasets)))])) ?Q ?E t"
    if t: "same_tables w t" for loads k cs t
    unfolding wp_bind
  proof (rule wp_mono [OF wp_mint_datasets [OF mints_tables [OF t]]], unfold append_Nil)
    fix xs u
    assume "\<exists>rows. mints ws rows w u \<and> list_all2 found_dataset xs rows"
    then show "wp (e_ret [(''datasets'', JArr xs), (''count'', JInt (int (length xs)))]) ?Q ?E u"
      using datasets by (auto simp: wp_ret search_post_def dest: list_all2_lengthD)
  qed
  have "wp (search_datasets rt cat cache_file query filters ws tok) ?Q ?E w"
    unfolding search_datasets_def Let_def
    by (rule wp_bind_same [of _ w], rule tables_runtime, rule tables.R_refl, erule same,
        rule wp_lift_step, erule same, rule wp_lift_step, erule same, unfold split_def,
        rule wp_bind_same [of _ w], rule tables_search_collections, rule assms(2), assumption, erule same, erule finish)
  from wpD [OF this assms(1)] show ?thesis by (cases r) (auto simp: search_post_def)
qed

lemma search_mints_one_handle_each_witness:
  "\<exists>answer w'. search_datasets sample_retrieval sample_catalog None ''rain'' None ''ws'' None initial_world = (Inr answer, w')
     \<and> length (w_handles w') = 1 \<and> jget answer ''count'' = JInt 1"
proof -
  let ?m = "search_datasets sample_retrieval sample_catalog None ''rain'' None ''ws'' None initial_world"
  have v: "(case fst ?m of Inl e \<Rightarrow> False | Inr r \<Rightarrow> jget r ''count'' = JInt 1)" by code_simp
  then obtain answer w' where run: "?m = (Inr answer, w')" by (cases "?m") (auto split: sum.splits)
  have "search_post ''ws'' initial_world (Inr answer) w'"
    by (rule search_mints_one_handle_each [OF run]) (simp add: sample_retrieval_def sample_cmr_aside)
  then show ?thesis using run v by (auto simp: search_post_def mints_def initial_world_def)
qed

section \<open>What a description tells\<close>

definition description_post :: "dict \<Rightarrow> bool" where
  "description_post r \<longleftrightarrow>
     (\<exists>vars. jget r ''variables'' = JArr vars \<and> jget r ''variable_count'' = JInt (int (length vars))
        \<and> (jget r ''variable_source'' = JStr ''umm-var'' \<and> vars \<noteq> [] \<and> jget r ''variables_note'' = JNull
           \<or> jget r ''variable_source'' = JStr ''opendap-dmr'' \<and> jget r ''variables_note'' \<noteq> JNull
             \<and> (\<exists>ps. sorted ps \<and> vars = map (\<lambda>p. JObj [(''name'', JStr p)]) ps)
           \<or> jget r ''variable_source'' = JStr ''none'' \<and> vars = [] \<and> jget r ''variables_note'' \<noteq> JNull))"

lemma description_fields:
  "jget (description h c m vs n src) ''variables'' = JArr vs"
  "jget (description h c m vs n src) ''variable_count'' = JInt (int (length vs))"
  "jget (description h c m vs n src) ''variable_source'' = JStr src"
  "jget (description h c m vs n src) ''variables_note'' =
     (if src = ''opendap-dmr'' then JStr DMR_SOURCE_NOTE else if src \<noteq> ''umm-var'' then JStr NO_UMM_VAR_NOTE else JNull)"
  by (simp_all add: description_def jget_def)

lemma tables_soften: "keeps same_tables m \<Longrightarrow> keeps same_tables (soften m)"
  unfolding soften_def by (intro keeps_tables)

lemma tables_dmr_paths: "cmr_aside cp \<Longrightarrow> keeps same_tables (dmr_variable_paths rt cp c)"
  unfolding dmr_variable_paths_def
  by (auto intro!: keeps_tables tables_soften tables_cmr split: list.split option.split)

lemma dmr_paths_sorted: "wp_partial (dmr_variable_paths rt cp c) (\<lambda>ps t. \<forall>xs. ps = Some xs \<longrightarrow> sorted xs) w"
  unfolding dmr_variable_paths_def
  by (intro wp_bind_any wp_bind_lift | split list.split option.split, intro conjI allI impI
      | rule wp_if | auto simp: wp_ret split: option.splits if_splits)+

lemma tables_describe:
  assumes "\<And>t. cmr_aside (rt_cmr rt t)"
  shows "keeps same_tables (describe_dataset rt cat h ws detail tok)"
  unfolding describe_dataset_def Let_def
  by (intro keeps_tables tables_cmr tables_dmr_paths assms)

text \<open>
  Describing a dataset changes no table, and its count is the number of variables it lists.
\<close>

theorem describe_counts_what_it_lists:
  assumes "describe_dataset rt cat h ws detail tok w = (Inr r, w')" and "\<And>t. cmr_aside (rt_cmr rt t)"
  shows "same_tables w w' \<and> description_post r"
proof
  show "same_tables w w'" by (rule keepsD [OF tables_describe [OF assms(2)] assms(1)])
  have final: "description_post (case ps of
      Some ps \<Rightarrow> description h c m (map (\<lambda>p. JObj [(''name'', JStr p)]) ps) n ''opendap-dmr''
    | None \<Rightarrow> description h c m (map f vs) n (if vs \<noteq> [] then ''umm-var'' else ''none''))"
    if "\<forall>xs. ps = Some xs \<longrightarrow> sorted xs" for ps c m n vs and f :: "dict \<Rightarrow> json"
    using that by (auto simp: description_post_def description_fields split: option.split)
  have paths: "wp_partial (if c then dmr_variable_paths rt cp i else e_ret None) (\<lambda>ps t. \<forall>xs. ps = Some xs \<longrightarrow> sorted xs) t"
    for c cp i t using dmr_paths_sorted by (simp add: wp_ret)
  have "wp_partial (describe_dataset rt cat h ws detail tok) (\<lambda>r _. description_post r) w"
    unfolding describe_dataset_def Let_def
    by (rule wp_bind_any, rule wp_bind_any, rule wp_bind_any, rule wp_bind_any, rule wp_bind_any, rule wp_bind_any,
        rule wp_bind_any, rule wp_bind_post [OF paths], rule wp_bind_any, simp only: wp_ret, rule final)
  from wpD [OF this assms(1)] show "description_post r" by simp
qed

lemma describe_counts_what_it_lists_witness:
  "\<exists>r. fst (describe_dataset sample_retrieval sample_catalog ''dataset_1'' ''ws'' False None
       (initial_world\<lparr>w_handles := [\<lparr>h_handle = ''dataset_1'', h_workspace_id = ''ws'', h_type = DATASET,
          h_payload = [(''concept_id'', JStr ''C1'')], h_created_at = 0, h_updated_at = 0, h_last_accessed_at = None\<rparr>]\<rparr>)) = Inr r
     \<and> description_post r \<and> jget r ''variable_count'' = JInt 3"
proof -
  let ?w = "initial_world\<lparr>w_handles := [\<lparr>h_handle = ''dataset_1'', h_workspace_id = ''ws'', h_type = DATASET,
          h_payload = [(''concept_id'', JStr ''C1'')], h_created_at = 0, h_updated_at = 0, h_last_accessed_at = None\<rparr>]\<rparr>"
  let ?m = "describe_dataset sample_retrieval sample_catalog ''dataset_1'' ''ws'' False None ?w"
  have v: "(case fst ?m of Inl e \<Rightarrow> False | Inr r \<Rightarrow> jget r ''variable_count'' = JInt 3)" by code_simp
  then obtain r w' where run: "?m = (Inr r, w')" by (cases "?m") (auto split: sum.splits)
  have "description_post r"
    using describe_counts_what_it_lists [OF run] sample_cmr_aside by (simp add: sample_retrieval_def)
  then show ?thesis using run v by auto
qed

end
