(* ===== verification/Preview.thy ===== *)
theory Preview
  imports Transform Discovery
begin

text \<open>
  tools/preview.py: the preview of a dataset as a request to the GIBS image service, the structural summary of
  a dataset or result and the descriptive statistics of a result. The cache of image layers is a module-level
  dictionary: the preview runs on the state of the world together with it. The text of a float, plain and in
  the format \<open>g\<close>, and the offset of the local time zone are given. Reductions of arrays are xarray's and
  pyarrow's and are fields of the library; which are asked for, over which values, is the code's. A dash of
  a message is written as a hyphen. The theory shows which layer is chosen, what a preview leaves behind, and
  that the fused statistics are the plain ones.
\<close>

record preview_env =
  pv_tools :: retrieval_env
  pv_show_float :: "rat \<Rightarrow> string"
  pv_show_g :: "rat \<Rightarrow> string"
  pv_local_off :: "datetime \<Rightarrow> int"

definition GIBS_WMS :: string where
  "GIBS_WMS = ''https://gibs.earthdata.nasa.gov/wms/epsg4326/best/wms.cgi''"

definition GLOBAL_BBOX :: "rat list" where
  "GLOBAL_BBOX = [- 180, - 90, 180, 90]"

section \<open>The image layer\<close>

text \<open>\<open>[x for x in xs if p(x)]\<close> with a test that may raise.\<close>

definition s_filter :: "('a \<Rightarrow> exn + bool) \<Rightarrow> 'a list \<Rightarrow> exn + 'a list" where
  "s_filter p xs = s_bind (s_each p xs) (\<lambda>bs. Inr (map fst (filter snd (zip xs bs))))"

text \<open>\<open>needle in x\<close>.\<close>

definition py_in :: "string \<Rightarrow> json \<Rightarrow> exn + bool" where
  "py_in needle x =
     (case x of
        JStr s \<Rightarrow> Inr (py_contains s needle)
      | JArr xs \<Rightarrow> Inr (JStr needle \<in> set xs)
      | JObj d \<Rightarrow> Inr (needle \<in> set (map fst d))
      | _ \<Rightarrow> Inl (TypeError ''argument is not iterable''))"

definition has_product :: "json \<Rightarrow> exn + bool" where
  "has_product l = s_bind (py_get l ''product'' JNull) (\<lambda>p. Inr (truthy p))"

definition not_polar :: "json \<Rightarrow> exn + bool" where
  "not_polar l =
     s_bind (py_get l ''arctic'' JNull) (\<lambda>a.
       if truthy a then Inr False else s_bind (py_get l ''antarctic'' JNull) (\<lambda>b. Inr (\<not> truthy b)))"

definition product_lacks :: "string \<Rightarrow> json \<Rightarrow> exn + bool" where
  "product_lacks part l = s_bind (py_item l ''product'') (\<lambda>p. s_bind (py_in part p) (\<lambda>b. Inr (\<not> b)))"

definition or_all :: "'a list \<Rightarrow> 'a list \<Rightarrow> 'a list" where
  "or_all preferred pool = (if preferred = [] then pool else preferred)"

definition select_gibs_layer :: "json list \<Rightarrow> exn + json option" where
  "select_gibs_layer layers =
     s_bind (s_filter has_product layers) (\<lambda>candidates.
       if candidates = [] then Inr None
       else
         s_bind (s_filter not_polar candidates) (\<lambda>non_polar.
         let pool = or_all non_polar candidates in
         s_bind (s_filter (product_lacks ''_Night'') pool) (\<lambda>days.
         let day_pool = or_all days pool in
         s_bind (s_filter (product_lacks ''Stratosphere'') day_pool) (\<lambda>surface.
           Inr (Some (hd (or_all surface day_pool)))))))"

type_synonym gibs_cache = "(json \<times> json \<times> json) list"

type_synonym 'a preview_op = "(world \<times> gibs_cache, exn, 'a) eff"

definition on_world :: "'a op \<Rightarrow> 'a preview_op" where
  "on_world m = (\<lambda>(w, c). case m w of (r, w') \<Rightarrow> (r, (w', c)))"

definition cached_layer :: "json \<Rightarrow> (json \<times> json) option preview_op" where
  "cached_layer concept_id = e_gets (\<lambda>(w, c). map_of c concept_id)"

definition cache_layer :: "json \<Rightarrow> json \<Rightarrow> json \<Rightarrow> unit preview_op" where
  "cache_layer concept_id name period = e_modify (\<lambda>(w, c). (w, AList.update concept_id (name, period) c))"

definition discover_gibs_layer :: "cmr_provider \<Rightarrow> json \<Rightarrow> (json \<times> json \<times> string option) preview_op" where
  "discover_gibs_layer cp concept_id =
     (if \<not> hashable concept_id then e_raise (TypeError ''unhashable type'')
      else
        e_bind (cached_layer concept_id) (\<lambda>hit.
        case hit of
          Some (name, period) \<Rightarrow> e_ret (name, period, None)
        | None \<Rightarrow>
            e_bind (on_world (fetch_gibs_layers cp concept_id)) (\<lambda>layers.
            if layers = [] then e_ret (JNull, JNull, Some ''no edsc.extra.serverless.gibs tag on CMR record'')
            else
              e_bind (on_world (lift_sum (select_gibs_layer layers))) (\<lambda>chosen.
              case chosen of
                None \<Rightarrow> e_ret (JNull, JNull, Some ''edsc.extra.serverless.gibs tag has no 'product' field'')
              | Some l \<Rightarrow>
                  e_bind (on_world (lift_sum (py_item l ''product''))) (\<lambda>name.
                  e_bind (on_world (lift_sum (py_get l ''layerPeriod'' JNull))) (\<lambda>period.
                  e_seq (cache_layer concept_id name period) (e_ret (name, period, None))))))))"

section \<open>Where and when\<close>

definition preview_bbox :: "(string \<Rightarrow> rat option) \<Rightarrow> json \<Rightarrow> rat list option \<Rightarrow> exn + rat list" where
  "preview_bbox read_float collection aoi =
     (case aoi of
        Some b \<Rightarrow> Inr b
      | None \<Rightarrow>
          s_bind (py_get collection ''bbox'' JNull) (\<lambda>extent.
            if \<not> truthy extent then Inr GLOBAL_BBOX
            else case py_elems extent of
                   None \<Rightarrow> Inl (TypeError ''object has no len()'')
                 | Some xs \<Rightarrow> if length xs = 4 then py_floats read_float xs else Inr GLOBAL_BBOX))"

text \<open>Solar noon in UTC at the middle of the box, as an hour of the day.\<close>

definition noon_utc :: "rat list \<Rightarrow> nat" where
  "noon_utc bbox = nat (round_half_even (12 - (bbox ! 0 + bbox ! 2) / 2 / 15) mod 24)"

definition preview_time :: "string option \<Rightarrow> json \<Rightarrow> rat list \<Rightarrow> string option" where
  "preview_time time_range period bbox =
     (case time_range of
        None \<Rightarrow> None
      | Some r \<Rightarrow>
          if r = [] then None
          else
            let began = py_strip (fst (py_partition CHR ''/'' r)) in
            case py_partition CHR ''T'' began of
              (date, has_clock, _) \<Rightarrow>
                Some (if period \<noteq> JStr ''Subdaily'' then date
                      else if has_clock then began
                      else date @ ''T'' @ pad 2 (noon_utc bbox) @ '':00:00Z''))"

definition GRANULE_SEARCH_MICROS :: int where
  "GRANULE_SEARCH_MICROS = 3 * 3600 * 1000000"

text \<open>\<open>_iso_z\<close> of this module: to the second, in UTC; a naive time is one of the local zone.\<close>

definition utc_text :: "preview_env \<Rightarrow> datetime \<Rightarrow> exn + string" where
  "utc_text pv moment =
     (let z = (case d_off moment of Some k \<Rightarrow> k | None \<Rightarrow> pv_local_off pv moment) in
      s_bind (dt_plus moment (- z)) (\<lambda>u.
        Inr (pad 4 (nat (d_year u)) @ ''-'' @ pad 2 (nat (d_month u)) @ ''-'' @ pad 2 (nat (d_day u)) @ ''T''
          @ pad 2 (nat (d_hour u)) @ '':'' @ pad 2 (nat (d_minute u)) @ '':'' @ pad 2 (nat (d_second u)) @ ''Z'')))"

definition json_instant :: "json \<Rightarrow> exn + datetime" where
  "json_instant x =
     (case x of JStr s \<Rightarrow> fromisoformat s | _ \<Rightarrow> Inl (TypeError ''fromisoformat: argument must be str''))"

definition scan_middle :: "dict \<Rightarrow> exn + datetime" where
  "scan_middle granule =
     s_bind (py_item (JObj granule) ''time_start'') (\<lambda>t0.
     s_bind (json_instant t0) (\<lambda>began.
     s_bind (json_instant (py_or (jget granule ''time_end'') t0)) (\<lambda>ended.
     s_bind (dt_minus ended began) (\<lambda>d. dt_plus began (round_half_even (of_int d / 2))))))"

text \<open>\<open>min(middles, key=...)\<close>: the first of the nearest.\<close>

fun nearest_of :: "(int \<times> 'a) \<Rightarrow> (int \<times> 'a) list \<Rightarrow> 'a" where
  "nearest_of best [] = snd best"
| "nearest_of best (k # ks) = nearest_of (if fst k < fst best then k else best) ks"

definition nearest_scan :: "datetime \<Rightarrow> datetime list \<Rightarrow> exn + datetime" where
  "nearest_scan aim middles =
     s_bind (s_each (\<lambda>m. s_bind (dt_minus m aim) (\<lambda>d. Inr (\<bar>d\<bar>, m))) middles) (\<lambda>keyed.
       Inr (nearest_of (hd keyed) (tl keyed)))"

definition scan_query :: "preview_env \<Rightarrow> string \<Rightarrow> exn + datetime \<times> string" where
  "scan_query pv target =
     s_bind (fromisoformat target) (\<lambda>aim.
     s_bind (dt_plus aim (- GRANULE_SEARCH_MICROS)) (\<lambda>lower.
     s_bind (utc_text pv lower) (\<lambda>from_text.
     s_bind (dt_plus aim GRANULE_SEARCH_MICROS) (\<lambda>upper.
     s_bind (utc_text pv upper) (\<lambda>to_text. Inr (aim, from_text @ ''/'' @ to_text))))))"

definition centre_box :: "preview_env \<Rightarrow> rat list \<Rightarrow> string" where
  "centre_box pv bbox =
     (let lon = pv_show_g pv ((bbox ! 0 + bbox ! 2) / 2); lat = pv_show_g pv ((bbox ! 1 + bbox ! 3) / 2)
      in lon @ '','' @ lat @ '','' @ lon @ '','' @ lat)"

definition scan_middles :: "preview_env \<Rightarrow> cmr_provider \<Rightarrow> json \<Rightarrow> rat list \<Rightarrow> string \<Rightarrow> (datetime \<times> datetime list) op" where
  "scan_middles pv cp concept_id bbox target =
     e_bind (lift_sum (scan_query pv target)) (\<lambda>(aim, temporal).
     e_bind (search_granules cp concept_id (JStr temporal) (JStr (centre_box pv bbox)) JNull JNull JNull 50) (\<lambda>granules.
     e_bind (lift_sum (s_each scan_middle granules)) (\<lambda>middles. e_ret (aim, middles))))"

text \<open>The nearest scan is computed after the handler that forgives a failed lookup.\<close>

definition granule_scan_time :: "preview_env \<Rightarrow> cmr_provider \<Rightarrow> json \<Rightarrow> rat list \<Rightarrow> string \<Rightarrow> string option op" where
  "granule_scan_time pv cp concept_id bbox target =
     e_bind (soften (scan_middles pv cp concept_id bbox target)) (\<lambda>found.
       case found of
         None \<Rightarrow> e_ret None
       | Some (aim, middles) \<Rightarrow>
           if middles = [] then e_ret None
           else lift_sum (s_bind (nearest_scan aim middles) (\<lambda>m. s_bind (utc_text pv m) (\<lambda>t. Inr (Some t)))))"

text \<open>\<open>urllib.parse.urlencode\<close>.\<close>

definition quote_plus :: "string \<Rightarrow> string" where
  "quote_plus s = concat (map (\<lambda>c. if c = CHR '' '' then ''+'' else quote_char c) s)"

definition urlencode :: "(string \<times> string) list \<Rightarrow> string" where
  "urlencode params = py_join ''&'' (map (\<lambda>(k, v). quote_plus k @ ''='' @ quote_plus v) params)"

text \<open>The box is south, west, north, east in this service.\<close>

definition gibs_url :: "(rat \<Rightarrow> string) \<Rightarrow> string \<Rightarrow> rat list \<Rightarrow> string option \<Rightarrow> string" where
  "gibs_url show_float layer bbox time =
     GIBS_WMS @ ''?'' @ urlencode
       ([(''SERVICE'', ''WMS''), (''REQUEST'', ''GetMap''), (''VERSION'', ''1.3.0''), (''LAYERS'', layer),
         (''CRS'', ''EPSG:4326''),
         (''BBOX'', py_join '','' (map show_float [bbox ! 1, bbox ! 0, bbox ! 3, bbox ! 2])),
         (''WIDTH'', ''512''), (''HEIGHT'', ''512''), (''FORMAT'', ''image/png'')]
        @ (case time of None \<Rightarrow> [] | Some t \<Rightarrow> if t = [] then [] else [(''TIME'', t)]))"

section \<open>\<open>preview_dataset\<close>\<close>

definition choose_layer ::
  "cmr_provider \<Rightarrow> string \<Rightarrow> string \<Rightarrow> dict \<Rightarrow> json \<Rightarrow> string option
   \<Rightarrow> (json \<times> string \<times> string option \<times> json) preview_op" where
  "choose_layer cp ws dataset_handle payload short_name layer =
     (case layer of
        Some l \<Rightarrow> e_ret (JStr l, ''explicit'', None, JNull)
      | None \<Rightarrow>
          case map_of payload ''gibs_layer'' of
            Some l \<Rightarrow> e_ret (l, ''handle_payload'', None, jget payload ''gibs_layer_period'')
          | None \<Rightarrow>
              let concept_id = jget payload ''concept_id'' in
              if \<not> truthy concept_id
              then e_ret (short_name, ''short_name_guess'', Some ''handle has no concept_id'', JNull)
              else
                e_bind (discover_gibs_layer cp concept_id) (\<lambda>(name, period, failure).
                  if truthy name then
                    e_seq (on_world (op_update_handle ws dataset_handle
                             [(''gibs_layer'', name), (''gibs_layer_period'', period)]))
                      (e_ret (name, ''cmr_tags'', None, period))
                  else e_ret (short_name, ''short_name_guess'', failure, period)))"

definition preview_aoi_bbox :: "(string \<Rightarrow> rat option) \<Rightarrow> string option \<Rightarrow> string \<Rightarrow> rat list option op" where
  "preview_aoi_bbox read_float aoi_handle ws =
     (case aoi_handle of
        None \<Rightarrow> e_ret None
      | Some h \<Rightarrow> e_read (\<lambda>w. s_bind (resolve_aoi read_float (w_handles w) ws h) (\<lambda>b. Inr (Some b))))"

definition has_clock :: "string option \<Rightarrow> bool" where
  "has_clock time = (case time of None \<Rightarrow> False | Some t \<Rightarrow> CHR ''T'' \<in> set t)"

definition instant_to_draw ::
  "preview_env \<Rightarrow> cmr_provider \<Rightarrow> json \<Rightarrow> string \<Rightarrow> rat list \<Rightarrow> string option \<Rightarrow> string option op" where
  "instant_to_draw pv cp concept_id layer bbox time =
     (case time of
        None \<Rightarrow> e_ret None
      | Some t \<Rightarrow>
          if py_endswith layer ''_Granule'' \<and> has_clock time \<and> truthy concept_id
          then e_bind (granule_scan_time pv cp concept_id bbox t) (\<lambda>scan.
                 e_ret (case scan of None \<Rightarrow> time | Some s \<Rightarrow> if s = [] then time else Some s))
          else e_ret time)"

definition preview_spec :: "string \<Rightarrow> rat list \<Rightarrow> string option \<Rightarrow> dict" where
  "preview_spec layer bbox time =
     [(''source'', JStr ''gibs''), (''layer'', JStr layer), (''bbox'', JArr (map JFloat bbox)), (''time'', json_opt time),
      (''format'', JStr ''image/png'')]"

definition preview_answer ::
  "(rat \<Rightarrow> string) \<Rightarrow> string \<Rightarrow> string \<Rightarrow> string \<Rightarrow> string option \<Rightarrow> rat list \<Rightarrow> string option \<Rightarrow> dict" where
  "preview_answer show_float preview_handle layer lookup_source failure bbox time =
     [(''handle'', JStr preview_handle), (''gibs_url'', JStr (gibs_url show_float layer bbox time)), (''layer'', JStr layer),
      (''layer_is_guess'', JBool (lookup_source = ''short_name_guess'')), (''lookup_source'', JStr lookup_source),
      (''lookup_failure_reason'', json_opt failure), (''bbox'', JArr (map JFloat bbox)), (''time'', json_opt time),
      (''format'', JStr ''image/png'')]"

definition layer_text :: "string \<Rightarrow> json \<times> string \<times> string option \<times> json \<Rightarrow> exn + unit" where
  "layer_text dataset_handle choice =
     (case choice of (resolved, lookup_source, failure, period) \<Rightarrow>
        if truthy resolved then Inr ()
        else Inl (ValueError (''dataset handle '' @ py_repr dataset_handle @ '' has no GIBS layer - tried ''
               @ lookup_source @ '': '' @ (case failure of None \<Rightarrow> ''None'' | Some f \<Rightarrow> f))))"

text \<open>The part after the layer is known.\<close>

definition mint_preview ::
  "preview_env \<Rightarrow> cmr_provider \<Rightarrow> string \<Rightarrow> string option \<Rightarrow> string option \<Rightarrow> json \<Rightarrow> json
   \<Rightarrow> json \<times> string \<times> string option \<times> json \<Rightarrow> dict op" where
  "mint_preview pv cp ws aoi_handle time_range collection concept_id choice =
     (case choice of (resolved, lookup_source, failure, period) \<Rightarrow>
        e_bind (preview_aoi_bbox (rt_read_float (pv_tools pv)) aoi_handle ws) (\<lambda>aoi.
        e_bind (lift_sum (preview_bbox (rt_read_float (pv_tools pv)) collection aoi)) (\<lambda>bbox.
        e_bind (lift_sum (case resolved of JStr s \<Rightarrow> Inr s | _ \<Rightarrow> Inl (AttributeError ''endswith''))) (\<lambda>layer.
        e_bind (instant_to_draw pv cp concept_id layer bbox (preview_time time_range period bbox)) (\<lambda>time.
        e_bind (op_put_handle ws PREVIEW (preview_spec layer bbox time)) (\<lambda>preview_handle.
          e_ret (preview_answer (pv_show_float pv) preview_handle layer lookup_source failure bbox time)))))))"

definition preview_dataset ::
  "preview_env \<Rightarrow> string \<Rightarrow> string option \<Rightarrow> string option \<Rightarrow> string option \<Rightarrow> string \<Rightarrow> string option \<Rightarrow> dict preview_op" where
  "preview_dataset pv dataset_handle time_range aoi_handle layer ws edl_token =
     e_bind (on_world (op_parse_token (rt_platform (pv_tools pv)) edl_token)) (\<lambda>identity.
     let cp = rt_cmr (pv_tools pv) (map_option id_token identity) in
     e_bind (on_world (lift_sum (handle_type_of dataset_handle))) (\<lambda>ht.
     if ht \<noteq> DATASET
     then e_raise (ValueError (''preview_dataset expects a dataset_ handle, got '' @ py_repr dataset_handle))
     else
       e_bind (on_world (op_get_handle ws dataset_handle)) (\<lambda>record.
       let payload = h_payload record;
           collection = (case map_of payload ''collection'' of None \<Rightarrow> JObj [] | Some c \<Rightarrow> c) in
       e_bind (on_world (lift_sum (py_get collection ''short_name'' JNull))) (\<lambda>short_name.
       e_bind (choose_layer cp ws dataset_handle payload (py_or short_name (jget payload ''short_name'')) layer) (\<lambda>choice.
       e_bind (on_world (lift_sum (layer_text dataset_handle choice))) (\<lambda>_.
         on_world (mint_preview pv cp ws aoi_handle time_range collection (jget payload ''concept_id'') choice)))))))"

section \<open>\<open>summarize_dataset\<close>\<close>

datatype scalar = Number rat | NaN | Unreadable exn

text \<open>
  What the summaries and statistics use of tables, columns (\<open>'c\<close>) and arrays (\<open>'a\<close>). The attributes of a dataset
  are given as the JSON values \<open>_json_safe\<close> makes of them. An array is looked up by name, its test by position:
  \<open>keep_where\<close> replaces by a missing value what fails one of the tests.
\<close>

datatype value_test = Differs json | At_least json | At_most json

record ('d, 't, 'v, 'a, 'c) stats_library = "('d, 't, 'v) library" +
  num_rows :: "'t \<Rightarrow> nat"
  column_names :: "'t \<Rightarrow> string list"
  column_types :: "'t \<Rightarrow> (string \<times> string) list"
  get_array :: "'d \<Rightarrow> string \<Rightarrow> exn + 'a"
  array_dtype :: "'a \<Rightarrow> dtype"
  dtype_text :: "dtype \<Rightarrow> string"
  array_attr :: "'a \<Rightarrow> string \<Rightarrow> json"
  array_encoding :: "'a \<Rightarrow> string \<Rightarrow> json"
  array_has_attr :: "'a \<Rightarrow> string \<Rightarrow> bool"
  is_nan :: "json \<Rightarrow> bool"
  keep_where :: "'a \<Rightarrow> value_test list \<Rightarrow> exn + 'a"
  reduction :: "'a \<Rightarrow> string \<Rightarrow> exn + scalar"
  array_count :: "'a \<Rightarrow> exn + nat"
  get_column :: "'t \<Rightarrow> string \<Rightarrow> exn + 'c"
  column_stat :: "'c \<Rightarrow> string \<Rightarrow> exn + json"

record ('d, 't, 'v, 'a, 'c) stats_env =
  st_platform :: platform
  st_library :: "('d, 't, 'v, 'a, 'c) stats_library"
  st_show :: "json \<Rightarrow> string"

definition time_dtype :: "('d, 't, 'v, 'z) library_scheme \<Rightarrow> 'd \<Rightarrow> json" where
  "time_dtype lib ds =
     (if ''time'' \<notin> set (coords lib ds) then JNull
      else if var_dtype lib ds ''time'' = Datetime64 then JStr ''datetime64''
      else JStr ''cftime'')"

definition summarize_obj :: "('d, 't, 'v, 'a, 'c) stats_library \<Rightarrow> ('d, 't) opened \<Rightarrow> dict" where
  "summarize_obj lib obj =
     (case obj of
        Grid ds \<Rightarrow>
          [(''type'', JStr ''grid''), (''dims'', JObj (map (\<lambda>(k, n). (k, JInt (int n))) (sizes lib ds))),
           (''data_vars'', JArr (map JStr (data_vars lib ds))), (''coords'', JArr (map JStr (coords lib ds))),
           (''attrs'', JObj (attrs lib ds)), (''time_dtype'', time_dtype lib ds)]
      | Rows t \<Rightarrow>
          [(''type'', JStr ''table''), (''num_rows'', JInt (int (num_rows lib t))),
           (''columns'', JArr (map JStr (column_names lib t))),
           (''schema'', JObj (map (\<lambda>(k, v). (k, JStr v)) (column_types lib t)))])"

definition dataset_structure :: "string \<Rightarrow> dict \<Rightarrow> exn + dict" where
  "dataset_structure handle payload =
     (let collection = (case map_of payload ''collection'' of None \<Rightarrow> JObj [] | Some c \<Rightarrow> c) in
      s_bind (py_get collection ''short_name'' JNull) (\<lambda>short_name.
      s_bind (if truthy (jget payload ''concept_id'') then Inr (jget payload ''concept_id'')
              else py_get collection ''concept_id'' JNull) (\<lambda>concept_id.
      s_bind (s_each (\<lambda>k. s_bind (py_get collection k JNull) (\<lambda>v. Inr (k, v)))
                [''processing_level'', ''bbox'', ''temporal'', ''native_formats'']) (\<lambda>rest.
        Inr [(''handle'', JStr handle), (''kind'', JStr ''dataset''),
             (''summary'', JObj ([(''short_name'', py_or short_name (jget payload ''short_name'')),
                                  (''concept_id'', concept_id)] @ rest))]))))"

text \<open>A \<open>ValueError\<close> of \<open>resolve_materialized\<close> other than an eviction.\<close>

definition plain_value_error :: "exn \<Rightarrow> bool" where
  "plain_value_error e = (case e of ValueError _ \<Rightarrow> True | IllegalTransition _ \<Rightarrow> True | InvalidSpecError _ \<Rightarrow> True | _ \<Rightarrow> False)"

definition kind_text :: "handle_type \<Rightarrow> string" where
  "kind_text ht = (if ht = OBS then ''obs'' else ''cube'')"

definition summarize_dataset ::
  "('d, 't, 'v, 'a, 'c) stats_env \<Rightarrow> string \<Rightarrow> string \<Rightarrow> string option \<Rightarrow> dict op" where
  "summarize_dataset st handle ws edl_token =
     e_bind (op_parse_token (st_platform st) edl_token) (\<lambda>_.
     e_bind (lift_sum (handle_type_of handle)) (\<lambda>ht.
     if ht = DATASET then
       e_bind (op_get_handle ws handle) (\<lambda>record. lift_sum (dataset_structure handle (h_payload record)))
     else if ht = OBS \<or> ht = CUBE then
       e_bind (e_catch (e_bind (e_read (\<lambda>w. resolve_materialized (w_handles w) ws handle)) (\<lambda>r. e_ret (Some r)))
                 (\<lambda>e. if plain_value_error e then e_ret None else e_raise e)) (\<lambda>found.
       case found of
         None \<Rightarrow>
           e_bind (op_get_handle ws handle) (\<lambda>record.
             e_ret [(''handle'', JStr handle), (''kind'', JStr (kind_text ht)),
                    (''status'', jget (h_payload record) ''status''), (''summary'', JNull)])
       | Some (storage_key, media_type, payload) \<Rightarrow>
           e_bind (op_text storage_key) (\<lambda>key.
           e_bind (op_get_blob key) (\<lambda>content.
           e_bind (op_text media_type) (\<lambda>media.
           e_bind (lift_sum (open_result (st_library st) (st_show st) content media)) (\<lambda>obj.
             e_ret [(''handle'', JStr handle), (''kind'', JStr (kind_text ht)), (''media_type'', JStr media),
                    (''summary'', JObj (summarize_obj (st_library st) obj))])))))
     else e_raise (ValueError (''summarize_dataset expects a dataset_, obs_, or cube_ handle, got '' @ py_repr handle))))"

section \<open>\<open>inspect_statistics\<close>\<close>

definition fill_test :: "('d, 't, 'v, 'a, 'c) stats_library \<Rightarrow> 'a \<Rightarrow> string \<Rightarrow> value_test list" where
  "fill_test lib a key =
     (let fill = (if array_has_attr lib a key then array_attr lib a key else array_encoding lib a key)
      in if fill = JNull \<or> is_nan lib fill then [] else [Differs fill])"

definition bound_tests :: "('d, 't, 'v, 'a, 'c) stats_library \<Rightarrow> 'a \<Rightarrow> value_test list" where
  "bound_tests lib a =
     (let lowest = array_attr lib a ''valid_min''; highest = array_attr lib a ''valid_max''
      in (if lowest = JNull then [] else [At_least lowest]) @ (if highest = JNull then [] else [At_most highest]))"

text \<open>The tests a value must pass; none at all means that nothing is masked.\<close>

definition valid_mask :: "('d, 't, 'v, 'a, 'c) stats_library \<Rightarrow> 'a \<Rightarrow> exn + value_test list" where
  "valid_mask lib a =
     (let fills = fill_test lib a ''_FillValue'' @ fill_test lib a ''missing_value'';
          valid_range = array_attr lib a ''valid_range''
      in if valid_range = JNull then Inr (fills @ bound_tests lib a)
         else
           case py_elems valid_range of
             None \<Rightarrow> Inl (TypeError ''object has no len()'')
           | Some [lowest, highest] \<Rightarrow> Inr (fills @ [At_least lowest, At_most highest])
           | Some _ \<Rightarrow> Inr (fills @ bound_tests lib a))"

definition masked :: "('d, 't, 'v, 'a, 'c) stats_library \<Rightarrow> 'a \<Rightarrow> exn + 'a" where
  "masked lib a = s_bind (valid_mask lib a) (\<lambda>tests. if tests = [] then Inr a else keep_where lib a tests)"

definition STATS :: "string list" where
  "STATS = [''min'', ''max'', ''mean'', ''std'']"

text \<open>\<open>variables or [...]\<close>.\<close>

definition wanted_names :: "string list option \<Rightarrow> string list \<Rightarrow> string list" where
  "wanted_names variables all_of_them =
     (case variables of None \<Rightarrow> all_of_them | Some vs \<Rightarrow> if vs = [] then all_of_them else vs)"

definition finite_scalar :: "scalar \<Rightarrow> exn + json" where
  "finite_scalar x =
     (case x of
        Number r \<Rightarrow> Inr (JFloat r)
      | NaN \<Rightarrow> Inr JNull
      | Unreadable (TypeError _) \<Rightarrow> Inr JNull
      | Unreadable (ValueError _) \<Rightarrow> Inr JNull
      | Unreadable e \<Rightarrow> Inl e)"

definition finite_float :: "scalar \<Rightarrow> exn + json" where
  "finite_float x = (case x of Number r \<Rightarrow> Inr (JFloat r) | NaN \<Rightarrow> Inr JNull | Unreadable e \<Rightarrow> Inl e)"

definition grid_schedule :: "(string \<times> 'a) list \<Rightarrow> (string \<times> 'a) list \<Rightarrow> (string \<times> string \<times> 'a) list" where
  "grid_schedule numeric other =
     concat (map (\<lambda>(name, a). map (\<lambda>stat. (name, stat, a)) (STATS @ [''count''])) numeric)
     @ map (\<lambda>(name, a). (name, ''count'', a)) other"

definition computed :: "('d, 't, 'v, 'a, 'c) stats_library \<Rightarrow> string \<times> string \<times> 'a \<Rightarrow> exn + string \<times> string \<times> json" where
  "computed lib entry =
     (case entry of (name, stat, a) \<Rightarrow>
        s_bind (if stat = ''count'' then s_bind (array_count lib a) (\<lambda>n. Inr (JInt (int n)))
                else s_bind (reduction lib a stat) finite_scalar) (\<lambda>v. Inr (name, stat, v)))"

type_synonym statistics_table = "(string \<times> dict) list"

definition set_stat :: "string \<times> string \<times> json \<Rightarrow> statistics_table \<Rightarrow> statistics_table" where
  "set_stat entry out =
     (case entry of (name, stat, v) \<Rightarrow>
        AList.update name (AList.update stat v (case map_of out name of None \<Rightarrow> [] | Some d \<Rightarrow> d)) out)"

definition is_numeric :: "('d, 't, 'v, 'a, 'c) stats_library \<Rightarrow> string \<times> 'a \<Rightarrow> bool" where
  "is_numeric lib entry = is_number (array_dtype lib (snd entry))"

definition named_array :: "('d, 't, 'v, 'a, 'c) stats_library \<Rightarrow> 'd \<Rightarrow> string \<Rightarrow> exn + string \<times> 'a" where
  "named_array lib ds name = s_bind (get_array lib ds name) (\<lambda>a. Inr (name, a))"

definition dtype_entry :: "('d, 't, 'v, 'a, 'c) stats_library \<Rightarrow> string \<times> 'a \<Rightarrow> string \<times> string \<times> json" where
  "dtype_entry lib entry = (fst entry, ''dtype'', JStr (dtype_text lib (array_dtype lib (snd entry))))"

definition statistics_fused ::
  "('d, 't, 'v, 'a, 'c) stats_library \<Rightarrow> 'd \<Rightarrow> string list option \<Rightarrow> exn + statistics_table" where
  "statistics_fused lib ds variables =
     s_bind (s_each (named_array lib ds) (wanted_names variables (data_vars lib ds))) (\<lambda>arrays.
     let numeric = filter (is_numeric lib) arrays; other = filter (\<lambda>x. \<not> is_numeric lib x) arrays in
     s_bind (s_each (\<lambda>(name, a). s_bind (masked lib a) (\<lambda>m. Inr (name, m))) numeric) (\<lambda>prepared.
     s_bind (s_each (computed lib) (grid_schedule prepared other)) (\<lambda>values.
       Inr (fold set_stat (map (dtype_entry lib) other) (fold set_stat values [])))))"

definition array_statistics :: "('d, 't, 'v, 'a, 'c) stats_library \<Rightarrow> 'a \<Rightarrow> exn + dict" where
  "array_statistics lib a =
     (if \<not> is_number (array_dtype lib a)
      then s_bind (array_count lib a) (\<lambda>n.
             Inr [(''count'', JInt (int n)), (''dtype'', JStr (dtype_text lib (array_dtype lib a)))])
      else
        s_bind (masked lib a) (\<lambda>m.
        s_bind (s_each (\<lambda>stat. s_bind (s_bind (reduction lib m stat) finite_float) (\<lambda>v. Inr (stat, v))) STATS) (\<lambda>rs.
        s_bind (array_count lib m) (\<lambda>n. Inr (rs @ [(''count'', JInt (int n))])))))"

fun grid_statistics ::
  "('d, 't, 'v, 'a, 'c) stats_library \<Rightarrow> 'd \<Rightarrow> string list \<Rightarrow> statistics_table \<Rightarrow> exn + statistics_table" where
  "grid_statistics lib ds [] stats = Inr stats"
| "grid_statistics lib ds (name # names) stats =
     s_bind (get_array lib ds name) (\<lambda>a.
     s_bind (array_statistics lib a) (\<lambda>entry. grid_statistics lib ds names (AList.update name entry stats)))"

definition column_statistics :: "('d, 't, 'v, 'a, 'c) stats_library \<Rightarrow> 'c \<Rightarrow> exn + dict" where
  "column_statistics lib column =
     (case s_each (\<lambda>stat. s_bind (column_stat lib column stat) (\<lambda>v. Inr (stat, v))) (STATS @ [''count'']) of
        Inr entry \<Rightarrow> Inr entry
      | Inl (LibErr (OtherClass c) m) \<Rightarrow>
          if c = ''ArrowNotImplementedError''
          then s_bind (column_stat lib column ''count'') (\<lambda>v. Inr [(''count'', v)])
          else Inl (LibErr (OtherClass c) m)
      | Inl e \<Rightarrow> Inl e)"

fun table_statistics ::
  "('d, 't, 'v, 'a, 'c) stats_library \<Rightarrow> 't \<Rightarrow> string list \<Rightarrow> statistics_table \<Rightarrow> exn + statistics_table" where
  "table_statistics lib t [] stats = Inr stats"
| "table_statistics lib t (name # names) stats =
     s_bind (get_column lib t name) (\<lambda>column.
     s_bind (column_statistics lib column) (\<lambda>entry. table_statistics lib t names (AList.update name entry stats)))"

definition statistics ::
  "('d, 't, 'v, 'a, 'c) stats_library \<Rightarrow> ('d, 't) opened \<Rightarrow> string list option \<Rightarrow> exn + statistics_table" where
  "statistics lib obj variables =
     (case obj of
        Grid ds \<Rightarrow> grid_statistics lib ds (wanted_names variables (data_vars lib ds)) []
      | Rows t \<Rightarrow> table_statistics lib t (wanted_names variables (column_names lib t)) [])"

text \<open>The lazy opening reads the file only for a media type it knows.\<close>

definition lazily_readable :: "string \<Rightarrow> bool" where
  "lazily_readable media \<longleftrightarrow>
     media \<in> {ZARR_MEDIA_TYPE, NETCDF_BUNDLE_MEDIA_TYPE, PARQUET_MEDIA_TYPE} \<or> media \<in> set NETCDF_MEDIA_TYPES"

definition stored_statistics ::
  "('d, 't, 'v, 'a, 'c) stats_env \<Rightarrow> bool \<Rightarrow> string \<Rightarrow> string \<Rightarrow> string list option \<Rightarrow> statistics_table op" where
  "stored_statistics st addressable key media variables =
     (if addressable then
        e_bind (e_gets (\<lambda>w. local_path (w_root w) key)) (\<lambda>path.
        e_bind (lift_sum path) (\<lambda>_.
        e_bind (if lazily_readable media then op_get_blob key else e_ret []) (\<lambda>content.
        e_bind (lift_sum (open_result_lazy (st_library st) (st_show st) content media variables)) (\<lambda>obj.
          lift_sum (case obj of
                      Grid ds \<Rightarrow> statistics_fused (st_library st) ds variables
                    | Rows t \<Rightarrow> statistics (st_library st) (Rows t) variables)))))
      else
        e_bind (op_get_blob key) (\<lambda>content.
        e_bind (lift_sum (open_result (st_library st) (st_show st) content media)) (\<lambda>obj.
          lift_sum (statistics (st_library st) obj variables))))"

text \<open>\<open>addressable\<close>: whether the storage backend has paths, as the local one does.\<close>

definition inspect_statistics ::
  "('d, 't, 'v, 'a, 'c) stats_env \<Rightarrow> bool \<Rightarrow> string \<Rightarrow> string list option \<Rightarrow> string \<Rightarrow> string option \<Rightarrow> dict op" where
  "inspect_statistics st addressable handle variables ws edl_token =
     e_bind (op_parse_token (st_platform st) edl_token) (\<lambda>_.
     e_bind (e_read (\<lambda>w. resolve_materialized (w_handles w) ws handle)) (\<lambda>(storage_key, media_type, payload).
     e_bind (op_text storage_key) (\<lambda>key.
     e_bind (op_text media_type) (\<lambda>media.
     e_bind (stored_statistics st addressable key media variables) (\<lambda>stats.
       e_ret [(''handle'', JStr handle), (''statistics'', JObj (map (\<lambda>(n, d). (n, JObj d)) stats))])))))"

section \<open>Which layer is chosen\<close>

lemma s_filter_pure: "\<forall>x\<in>set xs. p x = Inr (q x) \<Longrightarrow> s_filter p xs = Inr (filter q xs)"
proof -
  assume p: "\<forall>x\<in>set xs. p x = Inr (q x)"
  then have "s_each p xs = Inr (map q xs)" by (induction xs) (simp_all add: s_bind_simps)
  moreover have "map fst (filter snd (zip xs (map q xs))) = filter q xs" by (induction xs) simp_all
  ultimately show ?thesis by (simp add: s_filter_def s_bind_simps)
qed

text \<open>Preferring what passes a test is keeping what is least under its penalty.\<close>

lemma or_all_least:
  assumes "xs \<noteq> []"
  shows "\<exists>m :: nat. or_all (filter q xs) xs = filter (\<lambda>x. of_bool (\<not> q x) = m) xs \<and> or_all (filter q xs) xs \<noteq> []
    \<and> (\<forall>x\<in>set xs. m \<le> of_bool (\<not> q x)) \<and> m \<le> 1"
proof (cases "filter q xs = []")
  case True
  then have "\<forall>x\<in>set xs. \<not> q x" by (simp add: filter_empty_conv)
  then show ?thesis using assms True by (intro exI [of _ 1]) (simp add: or_all_def)
next
  case False
  then show ?thesis by (intro exI [of _ 0]) (simp add: or_all_def)
qed

lemma hd_filter_split:
  "filter q xs \<noteq> [] \<Longrightarrow> \<exists>us vs. xs = us @ hd (filter q xs) # vs \<and> (\<forall>u\<in>set us. \<not> q u) \<and> q (hd (filter q xs))"
proof -
  assume "filter q xs \<noteq> []"
  then obtain y ys where "filter q xs = y # ys" by (cases "filter q xs") auto
  then show ?thesis using filter_eq_ConsD [of q xs y ys] by auto
qed

lemma digits_least:
  fixes a b c m1 m2 m3 :: nat
  assumes "m1 \<le> a" "a = m1 \<Longrightarrow> m2 \<le> b" "a = m1 \<Longrightarrow> b = m2 \<Longrightarrow> m3 \<le> c"
    and "m1 \<le> 1" "m2 \<le> 1" "m3 \<le> 1" "a \<le> 1" "b \<le> 1" "c \<le> 1"
  shows "4 * m1 + 2 * m2 + m3 \<le> 4 * a + 2 * b + c
    \<and> (4 * a + 2 * b + c \<le> 4 * m1 + 2 * m2 + m3 \<longrightarrow> a = m1 \<and> b = m2 \<and> c = m3)"
  using assms by (cases "a = m1"; cases "b = m2") auto

definition layer_name :: "json \<Rightarrow> string" where
  "layer_name l = (case l of JObj d \<Rightarrow> (case jget d ''product'' of JStr s \<Rightarrow> s | _ \<Rightarrow> []) | _ \<Rightarrow> [])"

definition layer_polar :: "json \<Rightarrow> bool" where
  "layer_polar l \<longleftrightarrow> (case l of JObj d \<Rightarrow> truthy (jget d ''arctic'') \<or> truthy (jget d ''antarctic'') | _ \<Rightarrow> False)"

text \<open>How far a layer is from the best kind: polar weighs most, then night, then the stratosphere.\<close>

definition layer_rank :: "json \<Rightarrow> nat" where
  "layer_rank l =
     4 * of_bool (layer_polar l) + 2 * of_bool (py_contains (layer_name l) ''_Night'')
     + of_bool (py_contains (layer_name l) ''Stratosphere'')"

definition well_tagged :: "json \<Rightarrow> bool" where
  "well_tagged l \<longleftrightarrow> (\<exists>d. l = JObj d \<and> (\<not> truthy (jget d ''product'') \<or> (\<exists>s. jget d ''product'' = JStr s)))"

definition best_layer :: "json list \<Rightarrow> json option \<Rightarrow> bool" where
  "best_layer layers r \<longleftrightarrow>
     (let named = filter (\<lambda>l. layer_name l \<noteq> []) layers in
      case r of
        None \<Rightarrow> named = []
      | Some l \<Rightarrow> \<exists>us vs. named = us @ l # vs
          \<and> (\<forall>m\<in>set us. layer_rank l < layer_rank m) \<and> (\<forall>m\<in>set vs. layer_rank l \<le> layer_rank m))"

lemma tagged_tests:
  assumes "well_tagged l"
  shows "has_product l = Inr (layer_name l \<noteq> [])" "not_polar l = Inr (\<not> layer_polar l)"
    and "layer_name l \<noteq> [] \<Longrightarrow> product_lacks part l = Inr (\<not> py_contains (layer_name l) part)"
proof -
  obtain d where l: "l = JObj d" and d: "\<not> truthy (jget d ''product'') \<or> (\<exists>s. jget d ''product'' = JStr s)"
    using assms by (auto simp: well_tagged_def)
  have get: "py_get (JObj d) k JNull = Inr (jget d k)" for k by (simp add: jget_def)
  show "has_product l = Inr (layer_name l \<noteq> [])"
    using d by (auto simp: has_product_def get s_bind_simps layer_name_def l simp del: py_get_obj split: json.splits)
  show "not_polar l = Inr (\<not> layer_polar l)"
    by (simp add: not_polar_def get s_bind_simps layer_polar_def l del: py_get_obj)
  assume n: "layer_name l \<noteq> []"
  then obtain s where s: "jget d ''product'' = JStr s" by (auto simp: layer_name_def l split: json.splits)
  then have "py_item l ''product'' = Inr (JStr s)" by (auto simp: l jget_def split: option.splits)
  then show "product_lacks part l = Inr (\<not> py_contains (layer_name l) part)"
    by (simp add: product_lacks_def s_bind_simps py_in_def layer_name_def l s)
qed

text \<open>
  The image layer of a preview. Of the layers a collection lists with a name, the one chosen is the first
  of those that are least polar, then least nocturnal, then least stratospheric, so that a layer is passed over
  only for a better one; without a named layer none is chosen.
\<close>

theorem best_layer_chosen:
  assumes "\<forall>l\<in>set layers. well_tagged l"
  shows "\<exists>r. select_gibs_layer layers = Inr r \<and> best_layer layers r"
proof -
  define nm where "nm = filter (\<lambda>l. layer_name l \<noteq> []) layers"
  have ok: "\<forall>l\<in>set nm. well_tagged l \<and> layer_name l \<noteq> []" using assms by (simp add: nm_def)
  have named: "s_filter has_product layers = Inr nm"
    unfolding nm_def by (rule s_filter_pure) (use assms tagged_tests(1) in blast)
  show ?thesis
  proof (cases "nm = []")
    case True
    then show ?thesis by (simp add: select_gibs_layer_def named s_bind_simps best_layer_def nm_def [symmetric])
  next
    case False
    let ?q1 = "\<lambda>l. \<not> layer_polar l" and ?q2 = "\<lambda>l. \<not> py_contains (layer_name l) ''_Night''"
    let ?q3 = "\<lambda>l. \<not> py_contains (layer_name l) ''Stratosphere''"
    define pool where "pool = or_all (filter ?q1 nm) nm"
    define days where "days = or_all (filter ?q2 pool) pool"
    define surface where "surface = or_all (filter ?q3 days) days"
    obtain m1 :: nat where m1: "pool = filter (\<lambda>x. of_bool (\<not> ?q1 x) = m1) nm" "pool \<noteq> []"
      "\<forall>x\<in>set nm. m1 \<le> of_bool (\<not> ?q1 x)" "m1 \<le> 1"
      using or_all_least [OF False, of ?q1] unfolding pool_def by blast
    obtain m2 :: nat where m2: "days = filter (\<lambda>x. of_bool (\<not> ?q2 x) = m2) pool" "days \<noteq> []" "\<forall>x\<in>set pool. m2 \<le> of_bool (\<not> ?q2 x)" "m2 \<le> 1"
      using or_all_least [OF m1(2), of ?q2] unfolding days_def by blast
    obtain m3 :: nat where m3: "surface = filter (\<lambda>x. of_bool (\<not> ?q3 x) = m3) days" "surface \<noteq> []"
      "\<forall>x\<in>set days. m3 \<le> of_bool (\<not> ?q3 x)" "m3 \<le> 1"
      using or_all_least [OF m2(2), of ?q3] unfolding surface_def by blast
    have sub: "set pool \<subseteq> set nm" "set days \<subseteq> set pool" using m1(1) m2(1) by auto
    have chosen: "select_gibs_layer layers = Inr (Some (hd surface))"
    proof -
      have "s_filter not_polar nm = Inr (filter ?q1 nm)"
        by (rule s_filter_pure) (use ok tagged_tests(2) in blast)
      moreover have "s_filter (product_lacks ''_Night'') pool = Inr (filter ?q2 pool)"
        by (rule s_filter_pure) (use ok sub tagged_tests(3) in blast)
      moreover have "s_filter (product_lacks ''Stratosphere'') days = Inr (filter ?q3 days)"
        by (rule s_filter_pure) (use ok sub tagged_tests(3) in blast)
      ultimately show ?thesis
        using False by (simp add: select_gibs_layer_def named s_bind_simps Let_def
            pool_def [symmetric] days_def [symmetric] surface_def [symmetric])
    qed
    let ?least = "\<lambda>x. of_bool (\<not> ?q1 x) = m1 \<and> of_bool (\<not> ?q2 x) = m2 \<and> of_bool (\<not> ?q3 x) = m3"
    have surface: "surface = filter ?least nm"
      unfolding m3(1) m2(1) m1(1) by (simp add: filter_filter conj_ac)
    have rank: "layer_rank x = 4 * of_bool (\<not> ?q1 x) + 2 * of_bool (\<not> ?q2 x) + of_bool (\<not> ?q3 x)" for x
      by (simp add: layer_rank_def)
    note small = m1(4) m2(4) m3(4)
    have least: "4 * m1 + 2 * m2 + m3 \<le> layer_rank y \<and> (layer_rank y \<le> 4 * m1 + 2 * m2 + m3 \<longrightarrow> ?least y)"
      if y: "y \<in> set nm" for y
    proof -
      have a: "m1 \<le> of_bool (\<not> ?q1 y)" using m1(3) y by blast
      have b: "of_bool (\<not> ?q1 y) = m1 \<Longrightarrow> m2 \<le> of_bool (\<not> ?q2 y)" using m2(3) y unfolding m1(1) by simp
      have c: "of_bool (\<not> ?q1 y) = m1 \<Longrightarrow> of_bool (\<not> ?q2 y) = m2 \<Longrightarrow> m3 \<le> of_bool (\<not> ?q3 y)"
        using m3(3) y unfolding m2(1) m1(1) by simp
      show ?thesis unfolding rank
        by (rule digits_least [OF a b c small]) simp_all
    qed
    obtain us vs where split: "nm = us @ hd surface # vs" "\<forall>u\<in>set us. \<not> ?least u" "?least (hd surface)"
      using hd_filter_split [of ?least nm] m3(2) unfolding surface by blast
    have hd_rank: "layer_rank (hd surface) = 4 * m1 + 2 * m2 + m3" using split(3) by (simp add: rank)
    have "\<forall>m\<in>set us. layer_rank (hd surface) < layer_rank m"
      using least split(1,2) unfolding hd_rank by (auto simp: not_less [symmetric])
    moreover have "\<forall>m\<in>set vs. layer_rank (hd surface) \<le> layer_rank m"
      using least split(1) unfolding hd_rank by auto
    ultimately have "best_layer layers (Some (hd surface))"
      unfolding best_layer_def Let_def option.case nm_def [symmetric] using split(1) by blast
    with chosen show ?thesis by blast
  qed
qed

section \<open>The two ways to the statistics\<close>

lemma finite_kept: "finite_float x = Inr v \<Longrightarrow> finite_scalar x = Inr v"
  by (cases x) (simp_all add: finite_float_def finite_scalar_def)

definition five :: "json \<Rightarrow> json \<Rightarrow> json \<Rightarrow> json \<Rightarrow> json \<Rightarrow> dict" where
  "five a b c d e = [(''min'', a), (''max'', b), (''mean'', c), (''std'', d), (''count'', e)]"

lemma fold_groups:
  assumes "\<And>n out. n \<in> set ns \<Longrightarrow> P n (map_of out n) \<Longrightarrow> map_of (fold set_stat (g n) out) = (map_of out)(n \<mapsto> E n)"
    and "\<And>n. n \<in> set ns \<Longrightarrow> P n (Some (E n))" and "\<forall>n\<in>set ns. P n (map_of out n)"
  shows "map_of (fold set_stat (concat (map g ns)) out) = (\<lambda>k. if k \<in> set ns then Some (E k) else map_of out k)"
  using assms
proof (induction ns arbitrary: out)
  case (Cons n ns)
  let ?out = "fold set_stat (g n) out"
  have n: "map_of ?out = (map_of out)(n \<mapsto> E n)"
    by (rule Cons.prems(1)) (use Cons.prems(3) in auto)
  have "map_of (fold set_stat (concat (map g ns)) ?out) = (\<lambda>k. if k \<in> set ns then Some (E k) else map_of ?out k)"
    by (rule Cons.IH) (use Cons.prems n in auto)
  then show ?case by (auto simp: n fun_eq_iff)
qed simp

lemma set_five:
  "map_of out n = None \<or> map_of out n = Some (five a b c d e) \<Longrightarrow>
   map_of (fold set_stat [(n, ''min'', a), (n, ''max'', b), (n, ''mean'', c), (n, ''std'', d), (n, ''count'', e)] out)
     = (map_of out)(n \<mapsto> five a b c d e)"
  by (auto simp: set_stat_def update_conv five_def fun_eq_iff)

lemma set_count:
  "map_of out n = None \<or> map_of out n = Some [(''count'', e)] \<Longrightarrow>
   map_of (set_stat (n, ''count'', e) out) = (map_of out)(n \<mapsto> [(''count'', e)])"
  by (auto simp: set_stat_def update_conv fun_eq_iff)

lemma set_dtype:
  "map_of out n = Some [(''count'', e)] \<or> map_of out n = Some [(''count'', e), (''dtype'', t)] \<Longrightarrow>
   map_of (set_stat (n, ''dtype'', t) out) = (map_of out)(n \<mapsto> [(''count'', e), (''dtype'', t)])"
  by (auto simp: set_stat_def update_conv fun_eq_iff)

lemma grid_statistics_each:
  "grid_statistics lib ds names acc = Inr out \<Longrightarrow>
     (\<forall>n\<in>set names. \<exists>a. get_array lib ds n = Inr a \<and> array_statistics lib a = Inr (the (map_of out n)))
     \<and> (\<forall>k. k \<notin> set names \<longrightarrow> map_of out k = map_of acc k) \<and> (\<forall>n\<in>set names. map_of out n \<noteq> None)"
proof (induction names arbitrary: acc)
  case (Cons n names)
  from Cons.prems obtain a e where a: "get_array lib ds n = Inr a" "array_statistics lib a = Inr e"
    "grid_statistics lib ds names (AList.update n e acc) = Inr out"
    by (auto simp: s_bind_Inr_iff)
  note rest = Cons.IH [OF a(3)]
  have "map_of out n = Some e" if "n \<notin> set names" using rest that by (simp add: update_conv)
  with rest a(1,2) show ?case by (cases "n \<in> set names") (auto simp: update_conv)
qed simp

lemma array_statistics_numeric:
  assumes "array_statistics lib a = Inr e" "is_number (array_dtype lib a)"
  shows "\<exists>m v1 v2 v3 v4 n. masked lib a = Inr m \<and> e = five v1 v2 v3 v4 (JInt (int n)) \<and> array_count lib m = Inr n
    \<and> s_bind (reduction lib m ''min'') finite_scalar = Inr v1 \<and> s_bind (reduction lib m ''max'') finite_scalar = Inr v2
    \<and> s_bind (reduction lib m ''mean'') finite_scalar = Inr v3 \<and> s_bind (reduction lib m ''std'') finite_scalar = Inr v4"
  using assms by (auto simp: array_statistics_def STATS_def s_bind_Inr_iff five_def intro!: finite_kept)

lemma array_statistics_other:
  assumes "array_statistics lib a = Inr e" "\<not> is_number (array_dtype lib a)"
  shows "\<exists>n. array_count lib a = Inr n \<and> e = [(''count'', JInt (int n)), (''dtype'', JStr (dtype_text lib (array_dtype lib a)))]"
  using assms by (auto simp: array_statistics_def s_bind_Inr_iff)

text \<open>The entries of a numeric variable as the fused pass values them, and what its three sweeps leave.\<close>

abbreviation valued_five :: "(string \<Rightarrow> string \<Rightarrow> json) \<Rightarrow> (string \<Rightarrow> json) \<Rightarrow> string \<Rightarrow> (string \<times> string \<times> json) list" where
  "valued_five v c n \<equiv> [(n, ''min'', v n ''min''), (n, ''max'', v n ''max''), (n, ''mean'', v n ''mean''), (n, ''std'', v n ''std''),
     (n, ''count'', c n)]"

lemma schedule_computed:
  assumes "\<And>n stat. n \<in> set N \<Longrightarrow> stat \<in> set STATS \<Longrightarrow> computed lib (n, stat, msk n) = Inr (n, stat, v n stat)"
    and "\<And>n. n \<in> set N \<Longrightarrow> computed lib (n, ''count'', msk n) = Inr (n, ''count'', c n)"
    and "\<And>n. n \<in> set Ot \<Longrightarrow> computed lib (n, ''count'', arr n) = Inr (n, ''count'', d n)"
  shows "s_each (computed lib) (grid_schedule (map (\<lambda>n. (n, msk n)) N) (map (\<lambda>n. (n, arr n)) Ot)) =
    Inr (concat (map (valued_five v c) N) @ concat (map (\<lambda>n. [(n, ''count'', d n)]) Ot))"
  using assms
proof (induction N)
  case Nil
  then show ?case by (induction Ot) (simp_all add: grid_schedule_def o_def s_bind_simps)
next
  case (Cons n N)
  have "s_each (computed lib) (grid_schedule (map (\<lambda>n. (n, msk n)) N) (map (\<lambda>n. (n, arr n)) Ot)) =
      Inr (concat (map (valued_five v c) N) @ concat (map (\<lambda>n. [(n, ''count'', d n)]) Ot))"
    using Cons.prems by (intro Cons.IH) simp_all
  then show ?case using Cons.prems(1,2) [of n] by (simp add: grid_schedule_def o_def STATS_def s_bind_simps)
qed

lemma sweeps_left:
  assumes "set N \<inter> set Ot = {}"
    and E: "\<And>n. n \<in> set N \<Longrightarrow> E n = five (v n ''min'') (v n ''max'') (v n ''mean'') (v n ''std'') (c n)"
    and E': "\<And>n. n \<in> set Ot \<Longrightarrow> E n = [(''count'', d n), (''dtype'', ty n)]"
  shows "map_of (fold set_stat (concat (map (\<lambda>n. [(n, ''dtype'', ty n)]) Ot))
      (fold set_stat (concat (map (\<lambda>n. [(n, ''count'', d n)]) Ot)) (fold set_stat (concat (map (valued_five v c) N)) [])))
    = (\<lambda>k. if k \<in> set N \<union> set Ot then Some (E k) else None)"
proof -
  define once where "once = fold set_stat (concat (map (valued_five v c) N)) []"
  define twice where "twice = fold set_stat (concat (map (\<lambda>n. [(n, ''count'', d n)]) Ot)) once"
  define thrice where "thrice = fold set_stat (concat (map (\<lambda>n. [(n, ''dtype'', ty n)]) Ot)) twice"
  have "map_of (fold set_stat (valued_five v c n) out) = (map_of out)(n \<mapsto> E n)"
    if "n \<in> set N" "map_of out n = None \<or> map_of out n = Some (E n)" for n out
    using that(2) unfolding E [OF that(1)] by (rule set_five)
  then have one: "map_of once = (\<lambda>k. if k \<in> set N then Some (E k) else None)"
    unfolding once_def
    using fold_groups [where P = "\<lambda>n x. x = None \<or> x = Some (E n)" and g = "valued_five v c" and E = E and ns = N and out = "[]"]
    by (simp add: fun_eq_iff)
  have two: "map_of twice = (\<lambda>k. if k \<in> set Ot then Some [(''count'', d k)] else map_of once k)"
    unfolding twice_def
    by (rule fold_groups [where P = "\<lambda>n x. x = None \<or> x = Some [(''count'', d n)]"])
      (use assms(1) one in \<open>auto intro!: set_count\<close>)
  have "map_of thrice = (\<lambda>k. if k \<in> set Ot then Some (E k) else map_of twice k)"
    unfolding thrice_def
    by (rule fold_groups [where P = "\<lambda>n x. x = Some [(''count'', d n)] \<or> x = Some (E n)"])
      (use two in \<open>auto simp: E' intro!: set_dtype\<close>)
  then show ?thesis unfolding thrice_def [symmetric] twice_def [symmetric] once_def [symmetric]
    by (auto simp: one two fun_eq_iff)
qed

text \<open>
  C35: the two ways to the statistics of a grid agree. Where the plain computation answers, variable by
  variable, the fused one, which masks, schedules and reduces all variables in one pass and completes the
  other ones afterwards, answers too and gives every variable the same statistics, for any selection of
  variables, repeated ones included.
\<close>

theorem statistics_agree:
  assumes "statistics lib (Grid ds) variables = Inr plain"
  shows "\<exists>fused. statistics_fused lib ds variables = Inr fused \<and> map_of fused = map_of plain"
proof -
  define names where "names = wanted_names variables (data_vars lib ds)"
  define E where "E n = the (map_of plain n)" for n
  from assms have run: "grid_statistics lib ds names [] = Inr plain" by (simp add: statistics_def names_def)
  note each = grid_statistics_each [OF run]
  define arr where "arr n = projr (get_array lib ds n)" for n
  have arr: "get_array lib ds n = Inr (arr n)" "array_statistics lib (arr n) = Inr (E n)" if "n \<in> set names" for n
    using each that by (auto simp: arr_def E_def)
  define num where "num n \<longleftrightarrow> is_number (array_dtype lib (arr n))" for n
  define N where "N = filter num names"
  define Ot where "Ot = filter (\<lambda>n. \<not> num n) names"
  define msk where "msk n = projr (masked lib (arr n))" for n
  have arrays: "s_each (named_array lib ds) names = Inr (map (\<lambda>n. (n, arr n)) names)"
    using s_each_map [of names "named_array lib ds" "\<lambda>n. n" "\<lambda>n. (n, arr n)"] by (simp add: named_array_def arr s_bind_simps)
  have num_iff: "num = (\<lambda>n. is_number (array_dtype lib (arr n)))" by (rule ext) (rule num_def)
  have parts: "filter (is_numeric lib) (map (\<lambda>n. (n, arr n)) names) = map (\<lambda>n. (n, arr n)) N"
    "filter (\<lambda>x. \<not> is_numeric lib x) (map (\<lambda>n. (n, arr n)) names) = map (\<lambda>n. (n, arr n)) Ot"
    by (simp_all add: filter_map o_def is_numeric_def N_def Ot_def num_iff)
  define v where "v n stat = projr (s_bind (reduction lib (msk n) stat) finite_scalar)" for n stat
  define c where "c a = JInt (int (projr (array_count lib a)))" for a
  have numeric: "masked lib (arr n) = Inr (msk n)" "E n = five (v n ''min'') (v n ''max'') (v n ''mean'') (v n ''std'') (c (msk n))"
      "\<And>stat. stat \<in> set STATS \<Longrightarrow> computed lib (n, stat, msk n) = Inr (n, stat, v n stat)"
      "computed lib (n, ''count'', msk n) = Inr (n, ''count'', c (msk n))"
    if n: "n \<in> set N" for n
  proof -
    have "n \<in> set names" "is_number (array_dtype lib (arr n))" using n by (auto simp: N_def num_def)
    from array_statistics_numeric [OF arr(2) [OF this(1)] this(2)]
    show "masked lib (arr n) = Inr (msk n)" "E n = five (v n ''min'') (v n ''max'') (v n ''mean'') (v n ''std'') (c (msk n))"
      "\<And>stat. stat \<in> set STATS \<Longrightarrow> computed lib (n, stat, msk n) = Inr (n, stat, v n stat)"
      "computed lib (n, ''count'', msk n) = Inr (n, ''count'', c (msk n))"
      by (auto simp: msk_def v_def c_def computed_def STATS_def s_bind_simps)
  qed
  have other: "E n = [(''count'', c (arr n)), (''dtype'', JStr (dtype_text lib (array_dtype lib (arr n))))]"
      "computed lib (n, ''count'', arr n) = Inr (n, ''count'', c (arr n))"
    if n: "n \<in> set Ot" for n
  proof -
    have "n \<in> set names" "\<not> is_number (array_dtype lib (arr n))" using n by (auto simp: Ot_def num_def)
    from array_statistics_other [OF arr(2) [OF this(1)] this(2)]
    show "E n = [(''count'', c (arr n)), (''dtype'', JStr (dtype_text lib (array_dtype lib (arr n))))]"
      "computed lib (n, ''count'', arr n) = Inr (n, ''count'', c (arr n))"
      by (auto simp: c_def computed_def s_bind_simps)
  qed
  have prepared: "s_each (\<lambda>(name, a). s_bind (masked lib a) (\<lambda>m. Inr (name, m))) (map (\<lambda>n. (n, arr n)) N) = Inr (map (\<lambda>n. (n, msk n)) N)"
    by (rule s_each_map) (simp add: numeric(1) s_bind_simps)
  define ty where "ty n = JStr (dtype_text lib (array_dtype lib (arr n)))" for n
  define thrice where "thrice = fold set_stat (concat (map (\<lambda>n. [(n, ''dtype'', ty n)]) Ot))
    (fold set_stat (concat (map (\<lambda>n. [(n, ''count'', c (arr n))]) Ot))
      (fold set_stat (concat (map (valued_five v (\<lambda>n. c (msk n))) N)) []))"
  have valued: "s_each (computed lib) (grid_schedule (map (\<lambda>n. (n, msk n)) N) (map (\<lambda>n. (n, arr n)) Ot)) =
      Inr (concat (map (valued_five v (\<lambda>n. c (msk n))) N) @ concat (map (\<lambda>n. [(n, ''count'', c (arr n))]) Ot))"
    by (rule schedule_computed) (simp_all add: numeric(3,4) other(2))
  have fused: "statistics_fused lib ds variables = Inr thrice"
    by (simp add: statistics_fused_def names_def [symmetric] arrays s_bind_simps parts prepared valued Let_def dtype_entry_def
        thrice_def ty_def o_def)
  have apart: "set N \<inter> set Ot = {}" "set N \<union> set Ot = set names" by (auto simp: N_def Ot_def)
  have "map_of thrice = (\<lambda>k. if k \<in> set N \<union> set Ot then Some (E k) else None)"
    unfolding thrice_def by (rule sweeps_left [OF apart(1)]) (simp_all add: numeric(2) other(1) ty_def)
  then have "map_of thrice k = map_of plain k" for k
    using each apart by (cases "k \<in> set names") (auto simp: E_def)
  with fused show ?thesis by (auto simp: fun_eq_iff)
qed

definition toy_stats :: "(string, string, nat, string, string) stats_library" where
  "toy_stats = library.extend toy_library
     (stats_library.fields length (\<lambda>_. []) (\<lambda>_. [])
        (\<lambda>d n. if n = ''time'' \<or> n = ''product__no2'' then Inr n else Inl (KeyError n))
        (\<lambda>a. if a = ''time'' then Datetime64 else Floating 4) (\<lambda>t. ''datetime64[ns]'')
        (\<lambda>a k. if k = ''valid_range'' then JArr [JInt 0, JInt 9] else JNull) (\<lambda>a k. if k = ''_FillValue'' then JInt 99 else JNull)
        (\<lambda>a k. k = ''valid_range'') (\<lambda>v. False)
        (\<lambda>a tests. if tests = [Differs (JInt 99), At_least (JInt 0), At_most (JInt 9)] then Inr (a @ ''*'') else Inl (KeyError a))
        (\<lambda>a stat. if a = ''product__no2*'' then Inr (if stat = ''std'' then NaN else Number 7) else Inl (KeyError a))
        (\<lambda>a. Inr (length a)) (\<lambda>t n. Inr n) (\<lambda>c stat. Inr JNull))"

lemma statistics_agree_witness:
  "\<exists>fused. statistics_fused toy_stats ''abc'' (Some [''time'', ''product__no2'']) = Inr fused
     \<and> map_of fused = map_of [(''time'', [(''count'', JInt 4), (''dtype'', JStr ''datetime64[ns]'')]),
         (''product__no2'', [(''min'', JFloat 7), (''max'', JFloat 7), (''mean'', JFloat 7), (''std'', JNull), (''count'', JInt 13)])]"
  by (rule statistics_agree) code_simp

definition sample_layers :: "json list" where
  "sample_layers =
     [JObj [(''product'', JStr ''Sea_Ice''), (''arctic'', JBool True)], JObj [(''match'', JStr ''none'')],
      JObj [(''product'', JStr ''NO2_Stratosphere'')], JObj [(''product'', JStr ''NO2_Troposphere_Night'')],
      JObj [(''product'', JStr ''NO2_Troposphere''), (''layerPeriod'', JStr ''Subdaily'')]]"

lemma best_layer_chosen_witness:
  "(\<exists>r. select_gibs_layer sample_layers = Inr r \<and> best_layer sample_layers r)
   \<and> select_gibs_layer sample_layers = Inr (Some (JObj [(''product'', JStr ''NO2_Troposphere''), (''layerPeriod'', JStr ''Subdaily'')]))"
proof
  have "\<forall>l\<in>set sample_layers. well_tagged l" by (simp add: sample_layers_def well_tagged_def jget_def)
  then show "\<exists>r. select_gibs_layer sample_layers = Inr r \<and> best_layer sample_layers r" by (rule best_layer_chosen)
qed code_simp

text \<open>A result in CSV is read where the whole of it is opened, but not where it is opened lazily.\<close>

lemma csv_statistics_refused:
  "open_result_lazy lib show_other content CSV_MEDIA_TYPE variables
     = Inl (UnsupportedMediaType (''cannot lazily open media type '' @ py_repr CSV_MEDIA_TYPE))
   \<and> open_result lib show_other content CSV_MEDIA_TYPE = s_bind (read_csv lib content) (Inr \<circ> Rows)"
  by (simp add: open_result_lazy_def open_result_def media_types)

text \<open>An undecoded numeric time axis is reported as one of a calendar that is not standard.\<close>

lemma numeric_time_called_cftime:
  "''time'' \<in> set (coords lib ds) \<Longrightarrow> var_dtype lib ds ''time'' = Floating n \<Longrightarrow> time_dtype lib ds = JStr ''cftime''"
  by (simp add: time_dtype_def)

section \<open>What a preview leaves behind\<close>

lemma wp_on_world: "wp (on_world m) Q E (w, c) = wp m (\<lambda>x t. Q x (t, c)) (\<lambda>e t. E e (t, c)) w"
  by (auto simp: wp_def on_world_def split: prod.splits sum.splits)

text \<open>At most the found layer is noted in the payload of the dataset; \<open>may\<close> says whether it can be.\<close>

definition noted :: "bool \<Rightarrow> string \<Rightarrow> string \<Rightarrow> world \<Rightarrow> world \<Rightarrow> bool" where
  "noted may ws h w v \<longleftrightarrow>
     same_tables (w\<lparr>w_handles := w_handles v\<rparr>) v
     \<and> (w_handles v = w_handles w
        \<or> may \<and> (\<exists>now name period row.
            update_handle now ws h [(''gibs_layer'', name), (''gibs_layer_period'', period)] (w_handles w) = Inr (row, w_handles v)))"

lemma noted_same: "same_tables w v \<Longrightarrow> noted may ws h w v"
  by (simp add: noted_def same_tables_def)

lemma noted_then: "noted may ws h w v \<Longrightarrow> same_tables v u \<Longrightarrow> noted may ws h w u"
  by (auto simp: noted_def same_tables_def)

definition previewed :: "preview_env \<Rightarrow> bool \<Rightarrow> string \<Rightarrow> string \<Rightarrow> string option \<Rightarrow> world \<Rightarrow> exn + dict \<Rightarrow> world \<Rightarrow> bool" where
  "previewed pv may ws dataset_handle layer w r w' \<longleftrightarrow>
     (\<exists>v. noted may ws dataset_handle w v \<and>
        (case r of
           Inl e \<Rightarrow> same_tables v w' \<or> (\<exists>h name bbox time. minted ws PREVIEW (preview_spec name bbox time) h v w')
         | Inr out \<Rightarrow> \<exists>h name bbox time.
             minted ws PREVIEW (preview_spec name bbox time) h v w'
             \<and> jget out ''handle'' = JStr h \<and> jget out ''layer'' = JStr name \<and> name \<noteq> []
             \<and> jget out ''gibs_url'' = JStr (gibs_url (pv_show_float pv) name bbox time)
             \<and> (layer = None \<or> layer = Some name)))"

definition layer_unknown :: "string \<Rightarrow> string \<Rightarrow> world \<Rightarrow> bool" where
  "layer_unknown ws h w \<longleftrightarrow>
     (case get_handle (w_handles w) ws h of Inl _ \<Rightarrow> False | Inr row \<Rightarrow> map_of (h_payload row) ''gibs_layer'' = None)"

lemma noted_fails: "noted may ws h w v \<Longrightarrow> previewed pv may ws h layer w (Inl e) v"
  unfolding previewed_def sum.case by (intro exI [of _ v] conjI disjI1 tables.R_refl)

lemma wp_world_step:
  assumes "keeps same_tables m" and "same_tables w t" and "\<And>e u. same_tables w u \<Longrightarrow> E e (u, c)"
    and "\<And>x u. same_tables w u \<Longrightarrow> wp (f x) Q E (u, c)"
  shows "wp (e_bind (on_world m) f) Q E (t, c)"
  unfolding wp_bind wp_on_world
  by (rule wp_mono [OF wp_keeps [OF assms(1)]]) (auto intro: assms(3,4) tables.R_trans [OF assms(2)])

lemma wp_world_read:
  assumes "same_tables w t" and "\<And>e u. same_tables w u \<Longrightarrow> E e (u, c)"
    and "\<And>x u. same_tables w u \<Longrightarrow> g u = Inr x \<Longrightarrow> wp (f x) Q E (u, c)"
  shows "wp (e_bind (on_world (e_read g)) f) Q E (t, c)"
  unfolding wp_bind wp_on_world e_read_def
  by (rule wp_io) (use assms tables.R_trans stepped_tables in \<open>fastforce split: sum.splits\<close>)+

lemma wp_world_pure:
  assumes "same_tables w t" and "\<And>e u. same_tables w u \<Longrightarrow> E e (u, c)"
    and "\<And>x. y = Inr x \<Longrightarrow> wp (f x) Q E (t, c)"
  shows "wp (e_bind (on_world (lift_sum y)) f) Q E (t, c)"
  unfolding wp_bind wp_on_world wp_lift using assms by (auto split: sum.split)

lemma wp_discover:
  assumes cp: "cmr_aside cp" and t: "same_tables w t"
  shows "wp (discover_gibs_layer cp concept_id) (\<lambda>_ u. same_tables w (fst u)) (\<lambda>_ u. same_tables w (fst u)) (t, c)"
proof -
  let ?S = "\<lambda>u :: world \<times> gibs_cache. same_tables w (fst u)"
  have rest: "wp (case hit of
          Some (name, period) \<Rightarrow> e_ret (name, period, None)
        | None \<Rightarrow>
            e_bind (on_world (fetch_gibs_layers cp concept_id)) (\<lambda>layers.
            if layers = [] then e_ret (JNull, JNull, Some ''no edsc.extra.serverless.gibs tag on CMR record'')
            else
              e_bind (on_world (lift_sum (select_gibs_layer layers))) (\<lambda>chosen.
              case chosen of
                None \<Rightarrow> e_ret (JNull, JNull, Some ''edsc.extra.serverless.gibs tag has no 'product' field'')
              | Some l \<Rightarrow>
                  e_bind (on_world (lift_sum (py_item l ''product''))) (\<lambda>name.
                  e_bind (on_world (lift_sum (py_get l ''layerPeriod'' JNull))) (\<lambda>period.
                  e_seq (cache_layer concept_id name period) (e_ret (name, period, None)))))))
     (\<lambda>_. ?S) (\<lambda>_. ?S) (t, c)" for hit
  proof (cases hit)
    case None
    show ?thesis unfolding None option.case
      by (rule wp_world_step [OF tables_gibs [OF cp] t], simp, rule wp_if, simp add: wp_ret,
          rule wp_world_pure, assumption, simp, rule wp_option, simp add: wp_ret,
          rule wp_world_pure, assumption, simp, rule wp_world_pure, assumption, simp)
        (simp add: cache_layer_def wp_seq wp_modify wp_ret)
  qed (use t in \<open>auto simp: wp_ret\<close>)
  show ?thesis
    unfolding discover_gibs_layer_def
    by (rule wp_if) (use t rest in \<open>simp_all add: wp_raise wp_bind cached_layer_def wp_gets\<close>)
qed

lemma wp_note_layer:
  assumes "same_tables w t"
  shows "wp (op_update_handle ws h [(''gibs_layer'', name), (''gibs_layer_period'', period)])
    (\<lambda>_. noted True ws h w) (\<lambda>_. noted True ws h w) t"
  unfolding op_update_handle_def
proof (rule wp_io)
  fix w1
  assume "stepped t w1"
  then have "same_tables w w1" using assms by (blast intro: tables.R_trans stepped_tables)
  then show "case (case update_handle (w_now w1) ws h [(''gibs_layer'', name), (''gibs_layer_period'', period)] (w_handles w1) of
      Inl e \<Rightarrow> Inl e | Inr (r, t) \<Rightarrow> Inr (r, w1\<lparr>w_handles := t\<rparr>)) of
      Inl e \<Rightarrow> noted True ws h w w1 | Inr (a, v) \<Rightarrow> noted True ws h w v"
    by (auto simp: noted_def same_tables_def split: sum.split)
next
  fix e w1
  assume "stepped t w1"
  then show "noted True ws h w w1" using assms by (blast intro: noted_same tables.R_trans stepped_tables)
next
  fix e w1 a v
  assume "stepped t w1" and u: "(case update_handle (w_now w1) ws h [(''gibs_layer'', name), (''gibs_layer_period'', period)] (w_handles w1) of
      Inl e \<Rightarrow> Inl e | Inr (r, t) \<Rightarrow> Inr (r, w1\<lparr>w_handles := t\<rparr>)) = Inr (a, v)"
  then have "same_tables w w1" using assms by (blast intro: tables.R_trans stepped_tables)
  then show "noted True ws h w v" using u by (auto simp: noted_def same_tables_def split: sum.splits)
qed

lemma wp_choose_layer:
  assumes cp: "cmr_aside cp" and t: "same_tables w t" and may: "may \<longleftrightarrow> layer = None \<and> map_of payload ''gibs_layer'' = None"
  shows "wp (choose_layer cp ws h payload short_name layer)
    (\<lambda>choice u. noted may ws h w (fst u) \<and> (layer = None \<or> fst choice = JStr (the layer)))
    (\<lambda>_ u. noted may ws h w (fst u)) (t, c)"
proof (cases "layer = None \<and> map_of payload ''gibs_layer'' = None")
  case True
  then have may: "may = True" using may by simp
  let ?N = "\<lambda>u :: world \<times> gibs_cache. noted True ws h w (fst u)"
  have same: "?N u" if "same_tables w (fst u)" for u using noted_same [OF that] .
  have noting: "wp (e_seq (on_world (op_update_handle ws h [(''gibs_layer'', name), (''gibs_layer_period'', period)])) (e_ret x))
      (\<lambda>_. ?N) (\<lambda>_. ?N) (u, c')"
    if u: "same_tables w u" for name period c' u and x :: "json \<times> string \<times> string option \<times> json"
    unfolding wp_seq wp_on_world wp_ret by (rule wp_mono [OF wp_note_layer [OF u]]) simp_all
  show ?thesis
    unfolding choose_layer_def Let_def may using True same t
    by (auto simp: wp_ret wp_bind intro!: wp_mono [OF wp_discover [OF cp t]] noting)
next
  case False
  then show ?thesis using noted_same [OF t]
    by (auto simp: choose_layer_def wp_ret split: option.split)
qed

lemma wp_preview_minted:
  "wp (op_put_handle ws PREVIEW p) (\<lambda>h. minted ws PREVIEW p h v)
     (\<lambda>_ u. same_tables v u \<or> (\<exists>h. minted ws PREVIEW p h v u)) t"
  if "same_tables v t"
  by (rule wp_put_handle [OF that])

lemma tables_scan_time: "cmr_aside cp \<Longrightarrow> keeps same_tables (granule_scan_time pv cp c b t)"
  unfolding granule_scan_time_def scan_middles_def
  by (auto intro!: keeps_tables tables_soften tables_search_granules split: option.split)

lemma tables_instant: "cmr_aside cp \<Longrightarrow> keeps same_tables (instant_to_draw pv cp c layer b time)"
  unfolding instant_to_draw_def by (auto intro!: keeps_tables tables_scan_time split: option.split)

lemma tables_preview_aoi: "keeps same_tables (preview_aoi_bbox rf aoi ws)"
  unfolding preview_aoi_bbox_def by (cases aoi) (auto intro: keeps_tables)

lemma wp_mint_preview:
  assumes cp: "cmr_aside cp"
  shows "wp (mint_preview pv cp ws aoi_handle time_range collection concept_id choice)
    (\<lambda>out t. \<exists>h name bbox time. minted ws PREVIEW (preview_spec name bbox time) h v t \<and> fst choice = JStr name
        \<and> jget out ''handle'' = JStr h \<and> jget out ''layer'' = JStr name
        \<and> jget out ''gibs_url'' = JStr (gibs_url (pv_show_float pv) name bbox time))
    (\<lambda>_ t. same_tables v t \<or> (\<exists>h name bbox time. minted ws PREVIEW (preview_spec name bbox time) h v t)) v"
    (is "wp _ ?Q (\<lambda>_. ?E) _")
proof -
  obtain resolved lookup_source failure period where choice: "choice = (resolved, lookup_source, failure, period)"
    by (cases choice)
  have same: "?E u" if "same_tables v u" for u using that by blast
  have last: "wp (e_bind (op_put_handle ws PREVIEW (preview_spec name bbox time)) (\<lambda>h.
      e_ret (preview_answer (pv_show_float pv) h name lookup_source failure bbox time))) ?Q (\<lambda>_. ?E) t"
    if t: "same_tables v t" and name: "resolved = JStr name" for name bbox time t
    unfolding wp_bind
  proof (rule wp_mono [OF wp_preview_minted [OF t]])
    fix h u
    assume "minted ws PREVIEW (preview_spec name bbox time) h v u"
    then show "wp (e_ret (preview_answer (pv_show_float pv) h name lookup_source failure bbox time)) ?Q (\<lambda>_. ?E) u"
      unfolding wp_ret using name
      by (intro exI [of _ h] exI [of _ name] exI [of _ bbox] exI [of _ time]) (simp add: choice preview_answer_def jget_def)
  qed blast
  show ?thesis
    unfolding mint_preview_def choice prod.case
    by (rule wp_bind_same [OF tables_preview_aoi tables.R_refl], erule same,
        rule wp_lift_step, erule same, rule wp_lift_step, erule same,
        rule wp_bind_same [OF tables_instant [OF cp]], assumption, erule same)
      (rule last [unfolded choice], assumption, simp split: json.splits)
qed

lemma wp_preview_finish:
  fixes choice :: "json \<times> string \<times> string option \<times> json"
  assumes v: "noted may ws h w v" and explicit: "layer = None \<or> fst choice = JStr (the layer)" and cp: "cmr_aside cp"
  shows "wp (e_bind (on_world (lift_sum (layer_text h choice))) (\<lambda>_.
      on_world (mint_preview pv cp ws aoi_handle time_range collection concept_id choice)))
    (\<lambda>out u. previewed pv may ws h layer w (Inr out) (fst u)) (\<lambda>e u. previewed pv may ws h layer w (Inl e) (fst u)) (v, c)"
  unfolding wp_bind wp_on_world wp_lift fst_conv
proof (cases "layer_text h choice")
  case (Inl e)
  then show "case layer_text h choice of
      Inl e \<Rightarrow> previewed pv may ws h layer w (Inl e) v
    | Inr a \<Rightarrow> wp (mint_preview pv cp ws aoi_handle time_range collection concept_id choice) (\<lambda>x t. previewed pv may ws h layer w (Inr x) t) (\<lambda>e t. previewed pv may ws h layer w (Inl e) t) v"
    using noted_fails [OF v] by simp
next
  case (Inr a)
  then have filled: "truthy (fst choice)" by (auto simp: layer_text_def split: prod.splits if_splits)
  show "case layer_text h choice of
      Inl e \<Rightarrow> previewed pv may ws h layer w (Inl e) v
    | Inr a \<Rightarrow> wp (mint_preview pv cp ws aoi_handle time_range collection concept_id choice) (\<lambda>x t. previewed pv may ws h layer w (Inr x) t) (\<lambda>e t. previewed pv may ws h layer w (Inl e) t) v"
    unfolding Inr sum.case
  proof (rule wp_mono [OF wp_mint_preview [OF cp, of pv ws aoi_handle time_range collection concept_id choice v]])
    fix out t
    assume "\<exists>h name bbox time. minted ws PREVIEW (preview_spec name bbox time) h v t \<and> fst choice = JStr name
      \<and> jget out ''handle'' = JStr h \<and> jget out ''layer'' = JStr name
      \<and> jget out ''gibs_url'' = JStr (gibs_url (pv_show_float pv) name bbox time)"
    then obtain p name bbox time where out: "minted ws PREVIEW (preview_spec name bbox time) p v t" "fst choice = JStr name"
      "jget out ''handle'' = JStr p" "jget out ''layer'' = JStr name"
      "jget out ''gibs_url'' = JStr (gibs_url (pv_show_float pv) name bbox time)" by blast
    have "name \<noteq> []" "layer = None \<or> layer = Some name" using filled explicit out(2) by (cases layer; auto)+
    with out v show "previewed pv may ws h layer w (Inr out) t"
      unfolding previewed_def sum.case fst_conv
      by (intro exI [of _ v] conjI exI [of _ p] exI [of _ name] exI [of _ bbox] exI [of _ time])
  next
    fix e t
    assume "same_tables v t \<or> (\<exists>h name bbox time. minted ws PREVIEW (preview_spec name bbox time) h v t)"
    with v show "previewed pv may ws h layer w (Inl e) t" unfolding previewed_def sum.case fst_conv by (intro exI [of _ v] conjI)
  qed
qed


definition preview_world :: world where
  "preview_world = initial_world\<lparr>
     w_handles := [\<lparr>h_handle = ''dataset_1'', h_workspace_id = ''ws'', h_type = DATASET,
                    h_payload = [(''short_name'', JStr ''TEMPO'')], h_created_at = 0, h_updated_at = 0,
                    h_last_accessed_at = None\<rparr>]\<rparr>"

definition sample_preview :: preview_env where
  "sample_preview = \<lparr>pv_tools = sample_retrieval, pv_show_float = (\<lambda>r. show_int \<lfloor>r\<rfloor>), pv_show_g = (\<lambda>r. show_int \<lfloor>r\<rfloor>),
     pv_local_off = (\<lambda>_. 0)\<rparr>"


end
