(* ===== verification/ReadTools.thy ===== *)
theory ReadTools
  imports Reuse
begin

text \<open>
  The tools that only read: the listing of a workspace (\<open>tools/workspace.py\<close>), lineage and citations
  (\<open>tools/provenance.py\<close>), the coverage of a window and the estimate of its size (\<open>tools/coverage.py\<close>), and
  the bearer-token gate in front of the HTTP transport (\<open>http_auth.py\<close>). The theory shows that what a
  workspace lists and traces is a function of its own rows, that no tool here changes a table, that an
  estimate extrapolates the average of the sizes that are known, and which requests the gate lets through.
\<close>

section \<open>Listing a workspace (\<open>tools/workspace.py\<close>)\<close>

definition summarize :: "handle_type \<Rightarrow> dict \<Rightarrow> exn + dict" where
  "summarize ht payload =
     (if ht = DATASET then
        let collection = (case map_of payload ''collection'' of None \<Rightarrow> JObj [] | Some c \<Rightarrow> c) in
        s_bind (py_get collection ''short_name'' JNull) (\<lambda>short_name.
        s_bind (py_get collection ''version'' JNull) (\<lambda>version.
          Inr [(''concept_id'', jget payload ''concept_id''), (''short_name'', short_name), (''version'', version)]))
      else if ht = AOI then Inr [(''source'', jget payload ''source''), (''bbox'', jget payload ''bbox'')]
      else if ht = OBS \<or> ht = CUBE then
        Inr [(''status'', jget payload ''status''), (''media_type'', jget payload ''media_type''),
             (''pinned'', JBool (truthy (jget payload ''pinned'')))]
      else if ht = JOB then
        Inr [(''dataset_handle'', jget payload ''dataset_handle''), (''obs_handle'', jget payload ''obs_handle'')]
      else if ht = PREVIEW then Inr [(''layer'', jget payload ''layer''), (''bbox'', jget payload ''bbox'')]
      else Inr [])"

definition to_entry :: "retrieval_env \<Rightarrow> handle_row \<Rightarrow> exn + json" where
  "to_entry rt r =
     s_bind (summarize (h_type r) (h_payload r)) (\<lambda>summary.
       Inr (JObj [(''handle'', JStr (h_handle r)), (''type'', JStr (handle_type_value (h_type r))),
                  (''created_at'', JStr (rt_show_time rt (h_created_at r))), (''summary'', JObj summary)]))"

text \<open>\<open>HandleType(handle_type) if handle_type else None\<close>.\<close>

definition type_filter :: "string option \<Rightarrow> exn + handle_type option" where
  "type_filter s =
     (case s of
        None \<Rightarrow> Inr None
      | Some v \<Rightarrow>
          if v = [] then Inr None
          else (case List.find (\<lambda>ht. handle_type_value ht = v) all_handle_types of
                  None \<Rightarrow> Inl (ValueError (py_repr v @ '' is not a valid HandleType''))
                | Some ht \<Rightarrow> Inr (Some ht)))"

definition list_workspace :: "retrieval_env \<Rightarrow> string \<Rightarrow> string option \<Rightarrow> string option \<Rightarrow> dict op" where
  "list_workspace rt ws handle_type_name edl_token =
     e_bind (op_parse_token (rt_platform rt) edl_token) (\<lambda>_.
     e_bind (lift_sum (type_filter handle_type_name)) (\<lambda>ht.
     e_bind (e_read (\<lambda>w. Inr (list_handles (w_handles w) ws ht))) (\<lambda>records.
     e_bind (lift_sum (s_each (to_entry rt) records)) (\<lambda>entries.
       e_ret [(''handles'', JArr entries)]))))"

section \<open>Lineage and citations (\<open>tools/provenance.py\<close>)\<close>

fun event_type_value :: "event_type \<Rightarrow> string" where
  "event_type_value E_CREATED = ''created''"
| "event_type_value E_ROUTED = ''routed''"
| "event_type_value E_SUBMITTED = ''submitted''"
| "event_type_value E_PROVIDER_FALLBACK = ''provider-fallback''"
| "event_type_value E_OPENDAP_NOT_APPLICABLE = ''opendap-not-applicable''"
| "event_type_value E_JOB_FAILED = ''job-failed''"
| "event_type_value E_MATERIALIZED = ''materialized''"
| "event_type_value E_EXPIRED = ''expired''"
| "event_type_value E_RE_MATERIALIZED = ''re-materialized''"
| "event_type_value E_REUSED = ''reused''"
| "event_type_value E_PREFETCHED = ''prefetched''"
| "event_type_value E_PROMOTED = ''promoted''"

definition no_lineage_note :: string where
  "no_lineage_note =
     ''no lineage found -- ancestry attaches to obs_/cube_ handles and events to their lifecycle, so a dataset_/aoi_/preview_/query_ handle (or a job_ handle with no obs_handle yet) is always empty''"

definition event_entry :: "retrieval_env \<Rightarrow> event \<Rightarrow> json" where
  "event_entry rt v =
     JObj [(''event_type'', JStr (event_type_value (v_type v))), (''detail'', JObj (v_detail v)),
           (''created_at'', JStr (rt_show_time rt (v_created_at v)))]"

definition ancestor_entry :: "string \<times> nat \<Rightarrow> json" where
  "ancestor_entry a = JObj [(''handle'', JStr (fst a)), (''depth'', JInt (int (snd a)))]"

text \<open>The handle whose lineage answers for \<open>handle\<close>: a job stands for its result.\<close>

definition lineage_handle :: "string \<Rightarrow> dict \<Rightarrow> exn + string" where
  "lineage_handle handle payload =
     s_bind (handle_type_of handle) (\<lambda>ht.
       if ht = JOB \<and> truthy (jget payload ''obs_handle'') then jtext (jget payload ''obs_handle'') else Inr handle)"

definition lineage_answer :: "retrieval_env \<Rightarrow> string \<Rightarrow> string \<Rightarrow> (string \<times> nat) list \<Rightarrow> event list \<Rightarrow> dict" where
  "lineage_answer rt handle lineage ancs evs =
     [(''handle'', JStr handle), (''ancestors'', JArr (map ancestor_entry ancs)),
      (''events'', JArr (map (event_entry rt) evs))] @
     (if lineage \<noteq> handle then [(''resolved_handle'', JStr lineage)] else []) @
     (if ancs = [] \<and> evs = [] then [(''note'', JStr no_lineage_note)] else [])"

definition get_provenance :: "retrieval_env \<Rightarrow> string \<Rightarrow> string \<Rightarrow> string option \<Rightarrow> dict op" where
  "get_provenance rt handle ws edl_token =
     e_bind (op_parse_token (rt_platform rt) edl_token) (\<lambda>_.
     e_bind (op_get_handle ws handle) (\<lambda>record.
     e_bind (lift_sum (lineage_handle handle (h_payload record))) (\<lambda>lineage.
     e_bind (e_read (\<lambda>w. Inr (ancestry (w_edges w) ws lineage default_max_depth))) (\<lambda>ancs.
     e_bind (e_read (\<lambda>w. Inr (events_of (w_events w) ws lineage))) (\<lambda>evs.
       e_ret (lineage_answer rt handle lineage ancs evs))))))"

definition cite_dataset :: "retrieval_env \<Rightarrow> string \<Rightarrow> string \<Rightarrow> string option \<Rightarrow> dict op" where
  "cite_dataset rt dataset_handle ws edl_token =
     e_bind (op_parse_token (rt_platform rt) edl_token) (\<lambda>identity.
     e_bind (e_read (\<lambda>w. resolve_dataset (w_handles w) ws dataset_handle)) (\<lambda>concept_id.
     e_bind (get_citations (rt_cmr rt (map_option id_token identity)) concept_id) (\<lambda>citations.
       e_ret ((''handle'', JStr dataset_handle) #
              map (\<lambda>(k, d). (k, case map_of citations k of None \<Rightarrow> d | Some v \<Rightarrow> v))
                [(''concept_id'', concept_id), (''doi'', JNull), (''doi_authority'', JNull),
                 (''collection_citations'', JArr []), (''reference_citation_count'', JInt 0)]))))"

section \<open>Coverage (\<open>tools/coverage.py\<close>)\<close>

definition SIZE_SAMPLE_LIMIT :: nat where
  "SIZE_SAMPLE_LIMIT = 50"

definition COVERAGE_SAMPLE_LIMIT :: nat where
  "COVERAGE_SAMPLE_LIMIT = 10"

definition ALL_TIME_TOKEN :: string where
  "ALL_TIME_TOKEN = ''all''"

text \<open>The temporal parameter for CMR, and whether the whole archive is asked for.\<close>

definition coverage_time_window :: "string \<Rightarrow> exn + string option \<times> bool" where
  "coverage_time_window time_range =
     (if py_lower (py_strip time_range) = ALL_TIME_TOKEN then Inr (None, True)
      else s_bind (normalize_time_range (Some time_range) True) (\<lambda>t. Inr (Some t, False)))"

definition coverage_handles :: "retrieval_env \<Rightarrow> string \<Rightarrow> string \<Rightarrow> string \<Rightarrow> (json \<times> string) op" where
  "coverage_handles rt dataset_handle aoi_handle ws =
     e_bind (e_read (\<lambda>w. resolve_dataset (w_handles w) ws dataset_handle)) (\<lambda>concept_id.
     e_bind (e_read (\<lambda>w. resolve_aoi (rt_read_float rt) (w_handles w) ws aoi_handle)) (\<lambda>bbox.
       e_ret (concept_id, py_join '','' (map (\<lambda>c. pf_show (rt_platform rt) (JFloat c)) bbox))))"

text \<open>What the four tools share: the provider, the window and what the handles stand for.\<close>

record coverage_query =
  cq_cmr :: cmr_provider
  cq_temporal :: json
  cq_all_time :: bool
  cq_concept_id :: json
  cq_bbox :: json

definition coverage_request ::
  "retrieval_env \<Rightarrow> string \<Rightarrow> string \<Rightarrow> string \<Rightarrow> string \<Rightarrow> string option \<Rightarrow> coverage_query op" where
  "coverage_request rt dataset_handle aoi_handle time_range ws edl_token =
     e_bind (op_parse_token (rt_platform rt) edl_token) (\<lambda>identity.
     e_bind (lift_sum (coverage_time_window time_range)) (\<lambda>(temporal, all_time).
     e_bind (coverage_handles rt dataset_handle aoi_handle ws) (\<lambda>(concept_id, bbox).
       e_ret \<lparr>cq_cmr = rt_cmr rt (map_option id_token identity), cq_temporal = json_opt temporal,
              cq_all_time = all_time, cq_concept_id = concept_id, cq_bbox = JStr bbox\<rparr>)))"

definition coverage_count :: "coverage_query \<Rightarrow> dict op" where
  "coverage_count q = check_availability (cq_cmr q) (cq_concept_id q) (cq_temporal q) (cq_bbox q)"

definition coverage_granules :: "coverage_query \<Rightarrow> int \<Rightarrow> dict list op" where
  "coverage_granules q limit =
     search_granules (cq_cmr q) (cq_concept_id q) (cq_temporal q) (cq_bbox q) JNull JNull JNull (nat limit)"

definition coverage_echo :: "string \<Rightarrow> string \<Rightarrow> string \<Rightarrow> bool \<Rightarrow> dict" where
  "coverage_echo dataset_handle aoi_handle time_range all_time =
     [(''dataset_handle'', JStr dataset_handle), (''aoi_handle'', JStr aoi_handle),
      (''time_range'', JStr time_range), (''all_time'', JBool all_time)]"

definition sample_of :: "dict \<Rightarrow> json" where
  "sample_of g = JObj (map (\<lambda>k. (k, jget g k)) [''concept_id'', ''granule_ur'', ''time_start'', ''time_end''])"

definition check_coverage ::
  "retrieval_env \<Rightarrow> string \<Rightarrow> string \<Rightarrow> string \<Rightarrow> string \<Rightarrow> string option \<Rightarrow> dict op" where
  "check_coverage rt dataset_handle aoi_handle time_range ws edl_token =
     e_bind (coverage_request rt dataset_handle aoi_handle time_range ws edl_token) (\<lambda>q.
     e_bind (coverage_count q) (\<lambda>availability.
     e_bind (coverage_granules q (int COVERAGE_SAMPLE_LIMIT)) (\<lambda>granules.
       let sample = map sample_of granules in
       e_ret (coverage_echo dataset_handle aoi_handle time_range (cq_all_time q) @
         [(''granule_count'', jget availability ''granule_count''), (''covered'', jget availability ''available''),
          (''sampled_granules'', JInt (int (length sample))), (''sample_granules'', JArr sample)]))))"

definition check_availability_tool ::
  "retrieval_env \<Rightarrow> string \<Rightarrow> string \<Rightarrow> string \<Rightarrow> string \<Rightarrow> string option \<Rightarrow> dict op" where
  "check_availability_tool rt dataset_handle aoi_handle time_range ws edl_token =
     e_bind (coverage_request rt dataset_handle aoi_handle time_range ws edl_token) (\<lambda>q.
     e_bind (coverage_count q) (\<lambda>result.
       e_ret (coverage_echo dataset_handle aoi_handle time_range (cq_all_time q) @
         [(''available'', jget result ''available''), (''granule_count'', jget result ''granule_count'')])))"

definition inspect_granules ::
  "retrieval_env \<Rightarrow> string \<Rightarrow> string \<Rightarrow> string \<Rightarrow> string \<Rightarrow> int \<Rightarrow> string option \<Rightarrow> dict op" where
  "inspect_granules rt dataset_handle aoi_handle time_range ws limit edl_token =
     e_bind (coverage_request rt dataset_handle aoi_handle time_range ws edl_token) (\<lambda>q.
     e_bind (coverage_granules q limit) (\<lambda>granules.
       e_ret (coverage_echo dataset_handle aoi_handle time_range (cq_all_time q) @
         [(''granules'', JArr (map JObj granules)), (''count'', JInt (int (length granules)))])))"

subsection \<open>The estimate of a size\<close>

text \<open>\<open>f"{x:,.0f}"\<close> and \<open>f"{x:.1f}"\<close> of a number that is not negative.\<close>

function thousands :: "nat \<Rightarrow> string" where
  "thousands n = (if n < 1000 then show_nat n else thousands (n div 1000) @ '','' @ pad 3 (n mod 1000))"
  by pat_completeness auto
termination by (relation "measure id") auto

declare thousands.simps [simp del]

definition one_decimal :: "rat \<Rightarrow> string" where
  "one_decimal r = (let t = nat (round_half_even (r * 10)) in show_nat (t div 10) @ ''.'' @ show_nat (t mod 10))"

definition size_of_granule :: "dict \<Rightarrow> rat" where
  "size_of_granule g = (case jget g ''size_mb'' of JFloat r \<Rightarrow> r | JInt i \<Rightarrow> of_int i | _ \<Rightarrow> 0)"

definition sized_granules :: "dict list \<Rightarrow> dict list" where
  "sized_granules = filter (\<lambda>g. size_of_granule g > 0)"

definition average_size :: "dict list \<Rightarrow> rat" where
  "average_size granules =
     (let sized = sized_granules granules in
      if sized = [] then 0 else sum_list (map size_of_granule sized) / of_nat (length sized))"

definition size_warning :: "rat \<Rightarrow> dict list \<Rightarrow> rat \<Rightarrow> string option" where
  "size_warning threshold granules total_mb =
     (if granules = [] then Some ''No granules found for this AOI and time range.''
      else if sized_granules granules = [] then
        Some (''None of the '' @ show_nat (length granules) @
              '' sampled granules reported a size; size estimate unavailable.'')
      else if total_mb > threshold then
        Some (''Estimated total is ~'' @ thousands (nat (round_half_even total_mb)) @ '' MB (~'' @
              one_decimal (total_mb / 1024) @
              '' GB) -- narrow the AOI, time window, or variables before retrieving.'')
      else None)"

text \<open>\<open>round(x, 3)\<close>.\<close>

definition round3 :: "rat \<Rightarrow> rat" where
  "round3 x = of_int (round_half_even (x * 1000)) / 1000"

definition size_answer :: "rat \<Rightarrow> rat \<Rightarrow> dict list \<Rightarrow> dict" where
  "size_answer threshold total_granules granules =
     (let avg = average_size granules; total_mb = avg * total_granules in
      [(''total_granules'', JInt \<lfloor>total_granules\<rfloor>), (''sampled_granules'', JInt (int (length granules))),
       (''avg_size_mb'', JFloat (round3 avg)), (''total_size_mb'', JFloat (round3 total_mb)),
       (''warning'', json_opt (size_warning threshold granules total_mb))])"

definition estimate_retrieval_size ::
  "retrieval_env \<Rightarrow> rat \<Rightarrow> string \<Rightarrow> string \<Rightarrow> string \<Rightarrow> string \<Rightarrow> string option \<Rightarrow> dict op" where
  "estimate_retrieval_size rt threshold dataset_handle aoi_handle time_range ws edl_token =
     e_bind (coverage_request rt dataset_handle aoi_handle time_range ws edl_token) (\<lambda>q.
     e_bind (coverage_count q) (\<lambda>availability.
     e_bind (coverage_granules q (int SIZE_SAMPLE_LIMIT)) (\<lambda>granules.
       e_ret (coverage_echo dataset_handle aoi_handle time_range (cq_all_time q) @
         size_answer threshold (case jget availability ''granule_count'' of JInt n \<Rightarrow> of_int n | _ \<Rightarrow> 0) granules))))"

section \<open>The gate of the HTTP transport (\<open>http_auth.py\<close>)\<close>

datatype gate_answer = Forwarded | Unauthorized

text \<open>
  A request by its kind and its \<open>Authorization\<close> header. The comparison takes constant time in the code;
  \<open>compare_digest\<close> raises for a text that is not ASCII.
\<close>

definition is_ascii :: "string \<Rightarrow> bool" where
  "is_ascii s = list_all (\<lambda>c. (of_char c :: nat) < 128) s"

definition compare_digest :: "string \<Rightarrow> string \<Rightarrow> exn + bool" where
  "compare_digest a b =
     (if is_ascii a \<and> is_ascii b then Inr (a = b)
      else Inl (TypeError ''comparing strings with non-ASCII characters is not supported''))"

definition bearer_gate :: "string \<Rightarrow> string \<Rightarrow> string option \<Rightarrow> exn + gate_answer" where
  "bearer_gate token scope_type header =
     (if scope_type \<noteq> ''http'' then Inr Forwarded
      else
        case py_partition CHR '' '' (case header of None \<Rightarrow> [] | Some h \<Rightarrow> h) of
          (scheme, _, presented) \<Rightarrow>
            if py_lower scheme \<noteq> ''bearer'' then Inr Unauthorized
            else s_bind (compare_digest presented token) (\<lambda>same.
                   Inr (if same then Forwarded else Unauthorized)))"

text \<open>With a token configured, exactly the requests that present it pass, whatever the case of the scheme.\<close>

lemma partition_found: "c \<in> set s \<Longrightarrow> s = fst (py_partition c s) @ c # snd (snd (py_partition c s))"
  by (induction s) (auto simp: py_partition_def)

text \<open>
  With a token configured, an HTTP request passes the gate exactly when its header is the scheme
  word \<open>bearer\<close>, in any case, followed by one blank and the token; no request without the token passes.
\<close>

theorem bearer_gate_exact:
  assumes "token \<noteq> []"
  shows "bearer_gate token ''http'' header = Inr Forwarded \<longleftrightarrow>
    is_ascii token \<and> (\<exists>scheme. py_lower scheme = ''bearer'' \<and> header = Some (scheme @ '' '' @ token))"
proof
  assume pass: "bearer_gate token ''http'' header = Inr Forwarded"
  obtain h where h: "header = Some h"
    using pass by (cases header) (auto simp: bearer_gate_def py_partition_def py_lower_def)
  obtain scheme b presented where parts: "py_partition CHR '' '' h = (scheme, b, presented)" by (metis prod_cases3)
  with pass h have same: "py_lower scheme = ''bearer''" "compare_digest presented token = Inr True"
    by (auto simp: bearer_gate_def sum_simps split: if_splits)
  then have "presented = token" "is_ascii token" by (auto simp: compare_digest_def split: if_splits)
  moreover have "CHR '' '' \<in> set h"
  proof (rule ccontr)
    assume no_space: "CHR '' '' \<notin> set h"
    then have d: "dropWhile (\<lambda>x. x \<noteq> CHR '' '') h = []" by (induction h) auto
    have "snd (snd (py_partition CHR '' '' h)) = []" unfolding py_partition_def snd_conv d by simp
    then have "presented = []" unfolding parts snd_conv .
    then show False using \<open>presented = token\<close> assms by simp
  qed
  ultimately show "is_ascii token \<and> (\<exists>scheme. py_lower scheme = ''bearer'' \<and> header = Some (scheme @ '' '' @ token))"
    using partition_found [of "CHR '' ''" h] same(1) h unfolding parts fst_conv snd_conv by auto
next
  assume "is_ascii token \<and> (\<exists>scheme. py_lower scheme = ''bearer'' \<and> header = Some (scheme @ '' '' @ token))"
  then obtain scheme where s: "is_ascii token" "py_lower scheme = ''bearer''" "header = Some (scheme @ '' '' @ token)" by blast
  have "CHR '' '' \<notin> set scheme"
  proof
    assume "CHR '' '' \<in> set scheme"
    then have "lower_char CHR '' '' \<in> set (py_lower scheme)" by (auto simp: py_lower_def)
    then show False using s(2) by (simp add: lower_char_def)
  qed
  then have "py_partition CHR '' '' (scheme @ '' '' @ token) = (scheme, True, token)"
    using partition_split [of "CHR '' ''" scheme token] by simp
  then show "bearer_gate token ''http'' header = Inr Forwarded"
    using s by (simp add: bearer_gate_def compare_digest_def)
qed

text \<open>A header with a character beyond ASCII is not answered at all, and other kinds of scope pass.\<close>

lemma bearer_gate_raises:
  "bearer_gate ''key'' ''http'' (Some (''Bearer '' @ [CHR 0xFF])) =
     Inl (TypeError ''comparing strings with non-ASCII characters is not supported'')"
  "bearer_gate ''key'' ''websocket'' None = Inr Forwarded"
  by code_simp+

section \<open>The estimate\<close>

lemma round_half_even_close: "\<bar>of_int (round_half_even r) - r\<bar> \<le> 1 / 2"
proof -
  have "of_int \<lfloor>r\<rfloor> \<le> r" "r < of_int \<lfloor>r\<rfloor> + 1" by linarith+
  then show ?thesis by (auto simp: round_half_even_def Let_def abs_le_iff)
qed

lemma round3_close: "\<bar>round3 x - x\<bar> \<le> 1 / 2000"
proof -
  have "\<bar>of_int (round_half_even (x * 1000)) - x * 1000\<bar> \<le> 1 / 2" by (rule round_half_even_close)
  then show ?thesis by (simp add: round3_def field_simps abs_le_iff)
qed

lemma sum_list_bounds:
  fixes xs :: "rat list"
  assumes "\<And>x. x \<in> set xs \<Longrightarrow> lo \<le> x \<and> x \<le> hi"
  shows "of_nat (length xs) * lo \<le> sum_list xs \<and> sum_list xs \<le> of_nat (length xs) * hi"
  using assms
proof (induction xs)
  case Nil
  then show ?case by simp
next
  case (Cons x xs)
  then have "lo \<le> x" "x \<le> hi" "of_nat (length xs) * lo \<le> sum_list xs" "sum_list xs \<le> of_nat (length xs) * hi" by auto
  then show ?case by (simp add: algebra_simps)
qed

lemma average_between:
  assumes "sized_granules granules \<noteq> []"
    and "\<And>g. g \<in> set (sized_granules granules) \<Longrightarrow> lo \<le> size_of_granule g \<and> size_of_granule g \<le> hi"
  shows "lo \<le> average_size granules \<and> average_size granules \<le> hi"
  using sum_list_bounds [of "map size_of_granule (sized_granules granules)" lo hi] assms
  by (auto simp: average_size_def Let_def field_simps)

text \<open>The granules whose size is known, without the code's filter.\<close>

definition known_sizes :: "dict list \<Rightarrow> rat list" where
  "known_sizes granules = concat (map (\<lambda>g. case jget g ''size_mb'' of JFloat r \<Rightarrow> if r > 0 then [r] else [] | _ \<Rightarrow> []) granules)"

definition estimate_post :: "rat \<Rightarrow> int \<Rightarrow> dict list \<Rightarrow> dict \<Rightarrow> bool" where
  "estimate_post threshold n granules answer \<longleftrightarrow>
     (\<exists>avg tot. jget answer ''avg_size_mb'' = JFloat avg \<and> jget answer ''total_size_mb'' = JFloat tot
        \<and> jget answer ''total_granules'' = JInt n
        \<and> (if known_sizes granules = [] then avg = 0 \<and> tot = 0 \<and> jget answer ''warning'' \<noteq> JNull
           else \<exists>m. m * of_nat (length (known_sizes granules)) = sum_list (known_sizes granules)
                  \<and> \<bar>avg - m\<bar> \<le> 1 / 2000 \<and> \<bar>tot - of_int n * m\<bar> \<le> 1 / 2000
                  \<and> Min (set (known_sizes granules)) \<le> m \<and> m \<le> Max (set (known_sizes granules))
                  \<and> (jget answer ''warning'' = JNull \<longleftrightarrow> of_int n * m \<le> threshold)))"

lemma known_sizes_sized:
  assumes "list_all (\<lambda>g. \<exists>r. jget g ''size_mb'' = JFloat r) granules"
  shows "known_sizes granules = map size_of_granule (sized_granules granules)"
  using assms by (induction granules) (auto simp: known_sizes_def sized_granules_def size_of_granule_def split: json.splits)

lemma round3_0: "round3 0 = 0"
  by (simp add: round3_def round_half_even_def Let_def)

text \<open>
  The size estimate. Over granules of known size the reported average and total are, to half a
  thousandth of a megabyte, the mean of the known sizes and that mean times the number of matching granules;
  the mean lies between the smallest and the largest known size, and the answer warns exactly when the
  unrounded total exceeds the threshold. When no size is known both figures are zero and the answer warns.
\<close>

theorem size_estimate_sound:
  assumes "list_all (\<lambda>g. \<exists>r. jget g ''size_mb'' = JFloat r) granules"
  shows "estimate_post threshold n granules (size_answer threshold (of_int n) granules)"
proof -
  have known: "known_sizes granules = map size_of_granule (sized_granules granules)" by (rule known_sizes_sized [OF assms])
  have answer: "jget (size_answer threshold (of_int n) granules) ''avg_size_mb'' = JFloat (round3 (average_size granules))"
    "jget (size_answer threshold (of_int n) granules) ''total_size_mb'' = JFloat (round3 (average_size granules * of_int n))"
    "jget (size_answer threshold (of_int n) granules) ''total_granules'' = JInt n"
    "jget (size_answer threshold (of_int n) granules) ''warning'' = json_opt (size_warning threshold granules (average_size granules * of_int n))"
    by (simp_all add: size_answer_def Let_def)
  show ?thesis
  proof (cases "sized_granules granules = []")
    case True
    then have "average_size granules = 0" by (simp add: average_size_def)
    then show ?thesis
      using True by (auto simp: estimate_post_def known answer round3_0 size_warning_def json_opt_def)
  next
    case False
    let ?m = "average_size granules" and ?xs = "map size_of_granule (sized_granules granules)"
    have "?m * of_nat (length ?xs) = sum_list ?xs" using False by (simp add: average_size_def Let_def)
    moreover have "Min (set ?xs) \<le> ?m \<and> ?m \<le> Max (set ?xs)"
      by (rule average_between [OF False]) simp
    moreover have "granules \<noteq> []" using False by (auto simp: sized_granules_def)
    then have "json_opt (size_warning threshold granules (?m * of_int n)) = JNull \<longleftrightarrow> of_int n * ?m \<le> threshold"
      using False by (auto simp: size_warning_def json_opt_def mult.commute split: option.split)
    ultimately show ?thesis
      using False round3_close [of ?m] round3_close [of "?m * of_int n"]
      unfolding estimate_post_def known answer by (auto simp: mult.commute intro!: exI [of _ ?m])
  qed
qed

section \<open>What a workspace can learn\<close>

text \<open>Two worlds a workspace cannot tell apart: its rows, the clock, the faults and the secrets agree.\<close>

definition same_view :: "string \<Rightarrow> world \<Rightarrow> world \<Rightarrow> bool" where
  "same_view ws w v \<longleftrightarrow>
     handles_ok (w_handles w) \<and> handles_ok (w_handles v) \<and> ws_view ws (w_handles w) = ws_view ws (w_handles v)
     \<and> filter (\<lambda>e. e_workspace_id e = ws) (w_edges w) = filter (\<lambda>e. e_workspace_id e = ws) (w_edges v)
     \<and> filter (\<lambda>e. v_workspace_id e = ws) (w_events w) = filter (\<lambda>e. v_workspace_id e = ws) (w_events v)
     \<and> w_now w = w_now v \<and> w_io w = w_io v \<and> w_secrets w = w_secrets v"

definition agrees :: "string \<Rightarrow> 'a op \<Rightarrow> bool" where
  "agrees ws m \<longleftrightarrow> (\<forall>w v. same_view ws w v \<longrightarrow> fst (m w) = fst (m v) \<and> same_view ws (snd (m w)) (snd (m v)))"

text \<open>A failed lookup may tell an unknown handle from another workspace's, so only returns have to agree.\<close>

definition agrees_ret :: "string \<Rightarrow> 'a op \<Rightarrow> bool" where
  "agrees_ret ws m \<longleftrightarrow> (\<forall>w v x w'. same_view ws w v \<and> m w = (Inr x, w') \<longrightarrow> (\<exists>v'. m v = (Inr x, v') \<and> same_view ws w' v'))"

lemma agrees_agrees_ret: "agrees ws m \<Longrightarrow> agrees_ret ws m"
  unfolding agrees_def agrees_ret_def by (metis fst_conv prod.collapse snd_conv)

lemma agrees_ret_retI: "agrees ws (e_ret x)"
  by (simp add: agrees_def e_ret_run)

lemma agrees_raise: "agrees ws (e_raise e)"
  by (simp add: agrees_def e_raise_run)

lemma agrees_bind:
  assumes "agrees ws m" and "\<And>x. agrees ws (f x)"
  shows "agrees ws (e_bind m f)"
  unfolding agrees_def
proof (intro allI impI)
  fix w v
  assume "same_view ws w v"
  then have "fst (m w) = fst (m v) \<and> same_view ws (snd (m w)) (snd (m v))" using assms(1) by (auto simp: agrees_def)
  then show "fst (e_bind m f w) = fst (e_bind m f v) \<and> same_view ws (snd (e_bind m f w)) (snd (e_bind m f v))"
    using assms(2) by (auto simp: e_bind_run agrees_def split: prod.splits sum.splits)
qed

lemma agrees_ret_bind:
  assumes "agrees_ret ws m" and "\<And>x. agrees_ret ws (f x)"
  shows "agrees_ret ws (e_bind m f)"
  unfolding agrees_ret_def
proof (intro allI impI, elim conjE)
  fix w v x w'
  assume view: "same_view ws w v" and run: "e_bind m f w = (Inr x, w')"
  obtain a w1 where m: "m w = (Inr a, w1)" "f a w1 = (Inr x, w')"
    using run by (auto simp: e_bind_run split: prod.splits sum.splits)
  from assms(1) view m(1) obtain v1 where v1: "m v = (Inr a, v1)" "same_view ws w1 v1" unfolding agrees_ret_def by blast
  from assms(2) [of a] v1(2) m(2) obtain v2 where "f a v1 = (Inr x, v2)" "same_view ws w' v2" unfolding agrees_ret_def by blast
  then show "\<exists>v'. e_bind m f v = (Inr x, v') \<and> same_view ws w' v'" using v1(1) by (auto simp: e_bind_run)
qed

lemma agrees_catch:
  assumes "agrees ws m" and "\<And>e. agrees ws (h e)"
  shows "agrees ws (e_catch m h)"
  unfolding agrees_def
proof (intro allI impI)
  fix w v
  assume "same_view ws w v"
  then have "fst (m w) = fst (m v) \<and> same_view ws (snd (m w)) (snd (m v))" using assms(1) by (auto simp: agrees_def)
  then show "fst (e_catch m h w) = fst (e_catch m h v) \<and> same_view ws (snd (e_catch m h w)) (snd (e_catch m h v))"
    using assms(2) by (auto simp: e_catch_run agrees_def split: prod.splits sum.splits)
qed

lemma agrees_lift: "agrees ws (lift_sum x)"
  by (cases x) (simp_all add: lift_sum_def agrees_ret_retI agrees_raise)

lemma agrees_if: "agrees ws m \<Longrightarrow> agrees ws n \<Longrightarrow> agrees ws (if c then m else n)"
  by simp

lemma agrees_option: "agrees ws m \<Longrightarrow> (\<And>x. agrees ws (f x)) \<Longrightarrow> agrees ws (case y of None \<Rightarrow> m | Some x \<Rightarrow> f x)"
  by (cases y) auto

lemmas agrees_steps = agrees_ret_retI agrees_raise agrees_bind agrees_catch agrees_lift agrees_if agrees_option

lemma view_next_io: "same_view ws w v \<Longrightarrow> next_io w = (flt, w1) \<Longrightarrow> \<exists>v1. next_io v = (flt, v1) \<and> same_view ws w1 v1"
  by (auto simp: same_view_def next_io_def split: list.splits)

lemma agrees_ret_read:
  assumes "\<And>w v x. same_view ws w v \<Longrightarrow> f w = Inr x \<Longrightarrow> f v = Inr x"
  shows "agrees_ret ws (e_read f)"
  unfolding agrees_ret_def
proof (intro allI impI, elim conjE)
  fix w v x w'
  assume view: "same_view ws w v" and run: "e_read f w = (Inr x, w')"
  obtain flt w1 where n: "next_io w = (flt, w1)" by fastforce
  obtain v1 where v1: "next_io v = (flt, v1)" "same_view ws w1 v1" using view_next_io [OF view n] by blast
  have "flt = Io_ok \<and> f w1 = Inr x \<and> w' = w1"
    using run by (auto simp: e_read_def e_io_def n split: io_fault.splits sum.splits)
  then show "\<exists>v'. e_read f v = (Inr x, v') \<and> same_view ws w' v'"
    using v1 assms [OF v1(2)] by (auto simp: e_read_def e_io_def)
qed

lemma agrees_parse: "agrees ws (op_parse_token pf t)"
  by (auto simp: agrees_def same_view_def op_parse_token_def split: prod.splits)

subsection \<open>The rows\<close>

lemma get_handle_view:
  "handles_ok t \<Longrightarrow> get_handle t ws h = Inr r \<longleftrightarrow> r \<in> set (ws_view ws t) \<and> h_handle r = h"
  using row_of_handle_of_mem row_of_handle_mem by (fastforce simp: get_handle_Inr_iff ws_view_def)

lemma view_get_handle: "same_view ws w v \<Longrightarrow> get_handle (w_handles w) ws h = Inr r \<Longrightarrow> get_handle (w_handles v) ws h = Inr r"
  by (simp add: same_view_def get_handle_view)

lemma view_list_handles: "same_view ws w v \<Longrightarrow> list_handles (w_handles w) ws ht = list_handles (w_handles v) ws ht"
proof -
  assume "same_view ws w v"
  then have eq: "filter (\<lambda>r. h_workspace_id r = ws) (w_handles w) = filter (\<lambda>r. h_workspace_id r = ws) (w_handles v)"
    by (simp add: same_view_def ws_view_def)
  show ?thesis unfolding list_handles_def by (simp only: filter_filter [symmetric] eq)
qed

lemma view_resolve_dataset:
  "same_view ws w v \<Longrightarrow> resolve_dataset (w_handles w) ws h = Inr c \<Longrightarrow> resolve_dataset (w_handles v) ws h = Inr c"
  using view_get_handle [of ws w v h] by (auto simp: resolve_dataset_def Let_def split: sum.splits if_splits)

lemma view_resolve_aoi:
  "same_view ws w v \<Longrightarrow> resolve_aoi rf (w_handles w) ws h = Inr c \<Longrightarrow> resolve_aoi rf (w_handles v) ws h = Inr c"
  using view_get_handle [of ws w v h] by (auto simp: resolve_aoi_def Let_def split: sum.splits if_splits option.splits)

lemma sources_own: "sources_of (filter (\<lambda>e. e_workspace_id e = ws) es) ws = sources_of es ws"
  by (rule ext) (auto simp: sources_of_def intro!: arg_cong [of _ _ "map e_source"] filter_cong)

lemma walk_own: "Provenance.walk (filter (\<lambda>e. e_workspace_id e = ws) es) ws k d hs = Provenance.walk es ws k d hs"
  by (induction es ws k d hs rule: Provenance.walk.induct) (simp_all add: sources_own)

lemma ancestry_own: "ancestry (filter (\<lambda>e. e_workspace_id e = ws) es) ws h n = ancestry es ws h n"
  by (simp only: ancestry_def walk_own sources_own)

lemma view_ancestry: "same_view ws w v \<Longrightarrow> ancestry (w_edges w) ws h n = ancestry (w_edges v) ws h n"
  by (subst (1 2) ancestry_own [symmetric]) (simp add: same_view_def)

lemma events_own: "events_of (filter (\<lambda>v. v_workspace_id v = ws) vs) ws h = events_of vs ws h"
  by (auto simp: events_of_def intro!: arg_cong [of _ _ "newest_first v_created_at"] filter_cong)

lemma view_events: "same_view ws w v \<Longrightarrow> events_of (w_events w) ws h = events_of (w_events v) ws h"
  by (subst (1 2) events_own [symmetric]) (simp add: same_view_def)

subsection \<open>The metadata provider\<close>

text \<open>An HTTP exchange that depends on nothing another workspace holds.\<close>

definition cmr_confined :: "string \<Rightarrow> cmr_provider \<Rightarrow> bool" where
  "cmr_confined ws cp \<longleftrightarrow> (\<forall>http_method url params headers. agrees ws (cp_send cp http_method url params headers))"

lemma agrees_request: "cmr_confined ws cp \<Longrightarrow> agrees ws (cmr_request cp m u p h)"
proof -
  assume "cmr_confined ws cp"
  then have "agrees ws (request_once cp m u p h)"
    unfolding request_once_def by (intro agrees_steps) (simp add: cmr_confined_def)
  then have "agrees ws (retrying n (request_once cp m u p h))" for n
    by (induction n) (auto intro: agrees_steps)
  then show ?thesis by (simp add: cmr_request_def)
qed

lemma agrees_search: "cmr_confined ws cp \<Longrightarrow> agrees ws (cmr_search cp e ps n)"
proof -
  assume c: "cmr_confined ws cp"
  have page: "agrees ws (search_page cp url query cursor)" for url query cursor
    unfolding search_page_def by (intro agrees_steps agrees_request c)
  have "agrees ws (search_pages cp url query limit items cursor)" for url query limit items cursor
    using c page
  proof (induction cp url query limit items cursor rule: search_pages.induct)
    case (1 cp url query limit items cursor)
    show ?case
      by (subst search_pages.simps) (use 1 in \<open>auto intro!: agrees_bind agrees_ret_retI\<close>)
  qed
  then show ?thesis by (simp add: cmr_search_def)
qed

lemma agrees_cmr:
  assumes "cmr_confined ws cp"
  shows "agrees ws (get_citations cp c)" "agrees ws (check_availability cp c t b)"
    "agrees ws (search_granules cp c t b cc dn sk n)"
  unfolding get_citations_def check_availability_def search_granules_def fetch_collection_def cmr_count_def
  by (intro agrees_steps agrees_search agrees_request assms)+

section \<open>The read tools together\<close>

datatype read_call =
    List_workspace "string option"
  | Get_provenance string
  | Cite_dataset string
  | Check_coverage string string string
  | Check_availability string string string
  | Inspect_granules string string string int
  | Estimate_retrieval_size string string string

fun read_tool :: "retrieval_env \<Rightarrow> rat \<Rightarrow> string \<Rightarrow> string option \<Rightarrow> read_call \<Rightarrow> dict op" where
  "read_tool rt threshold ws tok (List_workspace ht) = list_workspace rt ws ht tok"
| "read_tool rt threshold ws tok (Get_provenance h) = get_provenance rt h ws tok"
| "read_tool rt threshold ws tok (Cite_dataset d) = cite_dataset rt d ws tok"
| "read_tool rt threshold ws tok (Check_coverage d a t) = check_coverage rt d a t ws tok"
| "read_tool rt threshold ws tok (Check_availability d a t) = check_availability_tool rt d a t ws tok"
| "read_tool rt threshold ws tok (Inspect_granules d a t n) = inspect_granules rt d a t ws n tok"
| "read_tool rt threshold ws tok (Estimate_retrieval_size d a t) = estimate_retrieval_size rt threshold d a t ws tok"

lemmas agrees_ret_steps =
  agrees_ret_bind agrees_agrees_ret [OF agrees_parse] agrees_agrees_ret [OF agrees_lift] agrees_agrees_ret [OF agrees_ret_retI]

lemma agrees_ret_rows:
  "agrees_ret ws (op_get_handle ws h)" "agrees_ret ws (e_read (\<lambda>w. resolve_dataset (w_handles w) ws h))"
  "agrees_ret ws (e_read (\<lambda>w. resolve_aoi rf (w_handles w) ws h))"
  "agrees_ret ws (e_read (\<lambda>w. Inr (list_handles (w_handles w) ws ht)))"
  "agrees_ret ws (e_read (\<lambda>w. Inr (ancestry (w_edges w) ws h n)))"
  "agrees_ret ws (e_read (\<lambda>w. Inr (events_of (w_events w) ws h)))"
  unfolding op_get_handle_def
  by (rule agrees_ret_read,
      auto dest: view_get_handle view_resolve_dataset view_resolve_aoi simp: view_list_handles view_ancestry view_events)+

lemma agrees_ret_coverage: "agrees_ret ws (coverage_request rt d a t ws tok)"
  unfolding coverage_request_def coverage_handles_def split_def
  by (intro agrees_ret_steps agrees_ret_rows)

lemma tables_coverage: "keeps same_tables (coverage_request rt d a t ws tok)"
  unfolding coverage_request_def coverage_handles_def split_def
  by (intro keeps_tables)

lemma coverage_provider: "coverage_request rt d a t ws tok w = (Inr q, w') \<Longrightarrow> \<exists>x. cq_cmr q = rt_cmr rt x"
  by (auto simp: coverage_request_def e_bind_run e_ret_run split: prod.splits sum.splits)

lemma agrees_ret_coverage_bind:
  assumes "\<And>t. cmr_confined ws (rt_cmr rt t)" and "\<And>q. cmr_confined ws (cq_cmr q) \<Longrightarrow> agrees_ret ws (f q)"
  shows "agrees_ret ws (e_bind (coverage_request rt d a t ws tok) f)"
proof -
  let ?m = "\<lambda>q. if cmr_confined ws (cq_cmr q) then f q else e_raise (ValueError [])"
  have "agrees_ret ws (e_bind (coverage_request rt d a t ws tok) ?m)"
    by (rule agrees_ret_bind [OF agrees_ret_coverage]) (auto intro: assms(2) agrees_agrees_ret agrees_raise)
  moreover have "e_bind (coverage_request rt d a t ws tok) ?m w = e_bind (coverage_request rt d a t ws tok) f w" for w
    using coverage_provider [of rt d a t ws tok w] assms(1) by (auto simp: e_bind_run split: prod.splits sum.splits)
  ultimately show ?thesis by (simp add: agrees_ret_def)
qed

lemma agrees_coverage:
  assumes "cmr_confined ws (cq_cmr q)"
  shows "agrees_ret ws (coverage_count q)" "agrees_ret ws (coverage_granules q n)"
  unfolding coverage_count_def coverage_granules_def by (intro agrees_agrees_ret agrees_cmr assms)+

lemma agrees_ret_tool:
  assumes "\<And>t. cmr_confined ws (rt_cmr rt t)"
  shows "agrees_ret ws (read_tool rt threshold ws tok call)"
proof (cases call)
  case (List_workspace ht)
  then show ?thesis by (simp add: list_workspace_def) (intro agrees_ret_steps agrees_ret_rows)
next
  case (Get_provenance h)
  then show ?thesis by (simp add: get_provenance_def) (intro agrees_ret_steps agrees_ret_rows)
next
  case (Cite_dataset d)
  then show ?thesis by (simp add: cite_dataset_def) (intro agrees_ret_steps agrees_ret_rows agrees_agrees_ret [OF agrees_cmr(1)] assms)
qed (simp_all only: read_tool.simps check_coverage_def check_availability_tool_def inspect_granules_def estimate_retrieval_size_def Let_def,
    (rule agrees_ret_coverage_bind [OF assms], intro agrees_ret_steps agrees_coverage, assumption+)+)

lemma tables_coverage_bind:
  assumes "\<And>t. cmr_aside (rt_cmr rt t)" and "\<And>q. cmr_aside (cq_cmr q) \<Longrightarrow> keeps same_tables (f q)"
  shows "keeps same_tables (e_bind (coverage_request rt d a t ws tok) f)"
proof -
  let ?m = "\<lambda>q. if cmr_aside (cq_cmr q) then f q else e_raise (ValueError [])"
  have "keeps same_tables (e_bind (coverage_request rt d a t ws tok) ?m)"
    by (rule tables.keeps_bind [OF tables_coverage]) (auto intro: assms(2) tables.keeps_intros)
  moreover have "e_bind (coverage_request rt d a t ws tok) ?m w = e_bind (coverage_request rt d a t ws tok) f w" for w
    using coverage_provider [of rt d a t ws tok w] assms(1) by (auto simp: e_bind_run split: prod.splits sum.splits)
  ultimately show ?thesis by (simp add: keeps_def)
qed

lemma tables_read_tool:
  assumes "\<And>t. cmr_aside (rt_cmr rt t)"
  shows "keeps same_tables (read_tool rt threshold ws tok call)"
proof (cases call)
  case (List_workspace ht)
  then show ?thesis by (simp add: list_workspace_def) (intro keeps_tables)
next
  case (Get_provenance h)
  then show ?thesis by (simp add: get_provenance_def) (intro keeps_tables)
next
  case (Cite_dataset d)
  then show ?thesis by (simp add: cite_dataset_def) (intro keeps_tables tables_cmr assms)
qed (simp_all only: read_tool.simps check_coverage_def check_availability_tool_def inspect_granules_def estimate_retrieval_size_def
      Let_def coverage_count_def coverage_granules_def,
    (rule tables_coverage_bind [OF assms], intro keeps_tables tables_cmr, assumption+)+)

text \<open>
  C30: what a workspace reads. Every read tool (workspace listing, lineage, citation, coverage, availability,
  granules, size estimate) leaves all tables as they are, and run against any other tables that show the
  workspace the same rows and edges it gives the very same answer: what other workspaces hold cannot be
  observed. The metadata service is assumed to touch no table and to answer alike in both worlds.
\<close>

theorem reads_only_own_workspace:
  assumes "same_view ws w v" and "\<And>t. cmr_confined ws (rt_cmr rt t)" and "\<And>t. cmr_aside (rt_cmr rt t)"
    and "read_tool rt threshold ws tok call w = (Inr r, w')"
  shows "same_tables w w' \<and> fst (read_tool rt threshold ws tok call v) = Inr r"
  using agrees_ret_tool [OF assms(2), where threshold = threshold and tok = tok and call = call] assms(1,4)
    keepsD [OF tables_read_tool [OF assms(3)] assms(4)]
  unfolding agrees_ret_def by (metis fst_conv)

text \<open>A workspace with one traced result, and the same with another workspace's rows beside it.\<close>

definition own_row :: "string \<Rightarrow> string \<Rightarrow> handle_row" where
  "own_row h ws = \<lparr>h_handle = h, h_workspace_id = ws, h_type = OBS, h_payload = [(''status'', JStr ''ready'')],
     h_created_at = 0, h_updated_at = 0, h_last_accessed_at = None\<rparr>"

definition own_edge :: "string \<Rightarrow> string \<Rightarrow> edge" where
  "own_edge ws src = \<lparr>e_workspace_id = ws, e_target = ''obs_1'', e_source = src, e_request_spec = None,
     e_granule_ids = None, e_created_at = 0\<rparr>"

definition own_world :: world where
  "own_world = initial_world\<lparr>w_handles := [own_row ''obs_1'' ''ws''], w_edges := [own_edge ''ws'' ''dataset_1'']\<rparr>"

definition shared_world :: world where
  "shared_world = initial_world\<lparr>w_handles := [own_row ''obs_2'' ''other'', own_row ''obs_1'' ''ws''],
     w_edges := [own_edge ''other'' ''dataset_9'', own_edge ''ws'' ''dataset_1'']\<rparr>"

lemma reads_only_own_workspace_witness:
  "fst (read_tool sample_retrieval 0 ''ws'' None (List_workspace (Some ''obs'')) shared_world) =
     Inr [(''handles'', JArr [JObj [(''handle'', JStr ''obs_1''), (''type'', JStr ''obs''), (''created_at'', JStr ''0''),
       (''summary'', JObj [(''status'', JStr ''ready''), (''media_type'', JNull), (''pinned'', JBool False)])]])]"
    (is "_ = Inr ?r")
proof -
  have "fst (read_tool sample_retrieval 0 ''ws'' None (List_workspace (Some ''obs'')) own_world) = Inr ?r"
    by code_simp
  then obtain w' where run: "read_tool sample_retrieval 0 ''ws'' None (List_workspace (Some ''obs'')) own_world = (Inr ?r, w')"
    by (metis prod.collapse)
  have view: "same_view ''ws'' own_world shared_world"
    by (auto simp: same_view_def own_world_def shared_world_def own_row_def own_edge_def initial_world_def ws_view_def
        handles_ok_def signature_of_def payload_text_def)
  have "cmr_confined ''ws'' (rt_cmr sample_retrieval t)" "cmr_aside (rt_cmr sample_retrieval t)" for t
    using sample_cmr_aside by (auto simp: cmr_confined_def sample_retrieval_def sample_cmr_def agrees_ret_retI)
  then show ?thesis using reads_only_own_workspace [OF view _ _ run] by blast
qed

text \<open>Two of three granules have a size.\<close>

lemma size_estimate_sound_witness:
  "estimate_post 1000 10 [[(''size_mb'', JFloat 0)], [(''size_mb'', JFloat 100)], [(''size_mb'', JFloat 201)]]
     (size_answer 1000 (of_int 10) [[(''size_mb'', JFloat 0)], [(''size_mb'', JFloat 100)], [(''size_mb'', JFloat 201)]])"
  by (rule size_estimate_sound) simp

lemma bearer_gate_exact_witness:
  "bearer_gate ''key'' ''http'' (Some ''BEARER key'') = Inr Forwarded"
proof -
  have "py_lower ''BEARER'' = ''bearer''" and "is_ascii ''key''" by code_simp+
  moreover have "Some ''BEARER key'' = Some (''BEARER'' @ '' '' @ ''key'')" by simp
  ultimately show ?thesis using bearer_gate_exact [of "''key''" "Some ''BEARER key''"] by blast
qed

end
