(* ===== verification/ResultTools.thy ===== *)
theory ResultTools
  imports JobTools "HOL-Library.Multiset"
begin

text \<open>
  The tools over a materialized result: \<open>tools/export.py\<close> (a URI for the stored bytes, and the replay of an
  evicted result) and \<open>tools/retention.py\<close> (pins, bounded by the workspace's ceiling). A refusal is an
  answer, not an exception, and an unknown handle and another workspace's get the same one. The theory
  shows that a pin never takes a workspace over its ceiling whatever fails, that two interleaved pins can,
  and that a replay creates one job for an evicted result and none otherwise.
\<close>

section \<open>Answers\<close>

text \<open>\<open>repr\<close> of a value of a payload.\<close>

definition json_repr :: "retrieval_env \<Rightarrow> json \<Rightarrow> string" where
  "json_repr rt j = (case j of JStr s \<Rightarrow> py_repr s | _ \<Rightarrow> pf_show (rt_platform rt) j)"

definition no_result_message :: "string \<Rightarrow> string" where
  "no_result_message handle = ''no result found for handle '' @ py_repr handle"

definition result_answer :: "string \<Rightarrow> json \<Rightarrow> string \<Rightarrow> dict" where
  "result_answer handle status message =
     [(''handle'', JStr handle), (''status'', status), (''message'', JStr message)]"

definition result_not_found :: "string \<Rightarrow> dict" where
  "result_not_found handle = result_answer handle (JStr ''not_found'') (no_result_message handle)"

definition require_result_handle :: "string \<Rightarrow> string \<Rightarrow> exn + unit" where
  "require_result_handle tool h =
     s_bind (handle_type_of h) (\<lambda>ht.
       if ht = OBS \<or> ht = CUBE then Inr ()
       else Inl (ValueError (tool @ '' expects an obs_ or cube_ handle, got '' @ py_repr h)))"

text \<open>\<open>get_handle\<close>, with the two refusals the tools answer alike.\<close>

definition find_result :: "string \<Rightarrow> string \<Rightarrow> handle_row option op" where
  "find_result ws h =
     e_catch (e_bind (op_get_handle ws h) (\<lambda>row. e_ret (Some row)))
       (\<lambda>e. case e of HandleNotFoundError _ \<Rightarrow> e_ret None | CrossWorkspaceError _ \<Rightarrow> e_ret None | _ \<Rightarrow> e_raise e)"

section \<open>Export\<close>

definition REMATERIALIZE_HINT :: string where
  "REMATERIALIZE_HINT =
     ''storage_uri is cache-managed and may be evicted; if it stops resolving, call rematerialize(handle) to re-enqueue a durable job from the persisted request spec, then export_result again once it is ready''"

definition delivered_content :: "dict \<Rightarrow> dict" where
  "delivered_content payload =
     (let digest = jget payload ''content_digest'' in
      if \<not> truthy digest then []
      else [(''content_digest'', digest), (''partial'', JBool (truthy (jget payload ''partial'')))] @
           (if jget payload ''granule_count'' = JNull then []
            else [(''granule_count'', jget payload ''granule_count'')]))"

definition export_ready :: "(path \<Rightarrow> string) \<Rightarrow> string \<Rightarrow> string \<Rightarrow> dict \<Rightarrow> dict op" where
  "export_ready as_uri ws handle payload =
     e_bind (lift_sum (json_key (jget payload ''storage_key''))) (\<lambda>key.
     e_bind (if jget payload ''size_bytes'' \<noteq> JNull then e_ret (jget payload ''size_bytes'')
             else e_read (\<lambda>w. s_bind (local_stat (w_root w) (w_files w) key) (\<lambda>(_, n). Inr (JInt (int n))))) (\<lambda>size_bytes.
     e_bind (e_read (\<lambda>w. local_uri as_uri (w_root w) (w_files w) key)) (\<lambda>uri.
     e_seq (op_touch_handle ws handle)
       (e_ret ([(''handle'', JStr handle), (''status'', JStr ''ready''), (''storage_uri'', JStr uri),
                (''media_type'', jget payload ''media_type''), (''size_bytes'', size_bytes),
                (''rematerialize_hint'', JStr REMATERIALIZE_HINT)] @ delivered_content payload)))))"

definition export_result ::
  "retrieval_env \<Rightarrow> (path \<Rightarrow> string) \<Rightarrow> string \<Rightarrow> string \<Rightarrow> string option \<Rightarrow> dict op" where
  "export_result rt as_uri handle ws edl_token =
     e_bind (op_parse_token (rt_platform rt) edl_token) (\<lambda>_.
     e_bind (lift_sum (require_result_handle ''export_result'' handle)) (\<lambda>_.
     e_bind (find_result ws handle) (\<lambda>found.
     case found of
       None \<Rightarrow> e_ret (result_not_found handle)
     | Some row \<Rightarrow>
         let payload = h_payload row; status = jget payload ''status'' in
         if status = JStr ''expired'' then
           e_ret (result_answer handle (JStr ''expired'')
             (''handle '' @ py_repr handle @ '' was evicted from the materialization cache; call rematerialize('' @
              py_repr handle @ '') to recover it''))
         else if status \<noteq> JStr ''ready'' \<or> \<not> truthy (jget payload ''storage_key'') \<or> \<not> truthy (jget payload ''media_type'') then
           e_ret (result_answer handle (py_or status (JStr ''pending''))
             (''handle '' @ py_repr handle @ '' is not yet materialized (status='' @ json_repr rt status @ '')''))
         else export_ready as_uri ws handle payload)))"

section \<open>Replay\<close>

definition no_job_message :: "string \<Rightarrow> string" where
  "no_job_message handle =
     ''handle '' @ py_repr handle @ '' has no job behind it -- it cannot be rematerialized (only a job-backed obs_ result can be replayed)''"

definition replay_row :: "retrieval_env \<Rightarrow> string \<Rightarrow> string \<Rightarrow> edl_identity option \<Rightarrow> handle_row \<Rightarrow> dict op" where
  "replay_row rt handle ws identity row =
     e_bind (e_read (\<lambda>w. Inr (get_job_by_obs_handle (w_jobs w) handle))) (\<lambda>job.
     if jget (h_payload row) ''status'' \<noteq> JStr ''expired'' then
       e_ret [(''job_handle'', case job of None \<Rightarrow> JNull | Some j \<Rightarrow> JStr (j_handle j)), (''obs_handle'', JStr handle),
              (''status'', case map_of (h_payload row) ''status'' of None \<Rightarrow> JStr ''unknown'' | Some v \<Rightarrow> v)]
     else case job of
            None \<Rightarrow> e_ret (result_answer handle (JStr ''not_found'') (no_job_message handle))
          | Some j \<Rightarrow> reenqueue_replay rt handle ws j (map_option id_token identity))"

definition rematerialize :: "retrieval_env \<Rightarrow> string \<Rightarrow> string \<Rightarrow> string option \<Rightarrow> dict op" where
  "rematerialize rt handle ws edl_token =
     e_bind (op_parse_token (rt_platform rt) edl_token) (\<lambda>identity.
     e_bind (lift_sum (if identity = None then Inr ()
                       else ensure_credential_key (rt_platform rt) (rt_credential_key rt))) (\<lambda>_.
     e_bind (lift_sum (require_result_handle ''rematerialize'' handle)) (\<lambda>_.
     e_bind (find_result ws handle) (\<lambda>found.
     case found of
       None \<Rightarrow> e_ret (result_not_found handle)
     | Some row \<Rightarrow>
         replay_row rt handle ws identity row))))"

section \<open>Pins\<close>

definition pinned_ready :: "handle_row \<Rightarrow> bool" where
  "pinned_ready r \<longleftrightarrow> truthy (jget (h_payload r) ''pinned'') \<and> jget (h_payload r) ''status'' = JStr ''ready''"

text \<open>The persisted size, or \<open>stat\<close>; a missing key counts as nothing.\<close>

definition result_size :: "dict \<Rightarrow> int op" where
  "result_size payload =
     (case py_int (jget payload ''size_bytes'') of
        Some n \<Rightarrow> e_ret n
      | None \<Rightarrow>
          e_catch
            (e_bind (lift_sum (py_item (JObj payload) ''storage_key'')) (\<lambda>k.
             e_bind (lift_sum (json_key k)) (\<lambda>key.
               e_read (\<lambda>w. s_bind (local_stat (w_root w) (w_files w) key) (\<lambda>(_, n). Inr (int n))))))
            (\<lambda>e. case e of KeyError _ \<Rightarrow> e_ret 0 | _ \<Rightarrow> e_raise e))"

fun sum_sizes :: "handle_row list \<Rightarrow> int op" where
  "sum_sizes [] = e_ret 0"
| "sum_sizes (r # rows) =
     e_bind (result_size (h_payload r)) (\<lambda>n. e_bind (sum_sizes rows) (\<lambda>m. e_ret (n + m)))"

definition op_list_handles :: "string \<Rightarrow> handle_type option \<Rightarrow> handle_row list op" where
  "op_list_handles ws ht = e_read (\<lambda>w. Inr (list_handles (w_handles w) ws ht))"

definition pinned_bytes :: "string \<Rightarrow> string \<Rightarrow> int op" where
  "pinned_bytes ws excluded =
     e_bind (op_list_handles ws (Some OBS)) (\<lambda>obs.
     e_bind (sum_sizes (filter (\<lambda>r. h_handle r \<noteq> excluded \<and> pinned_ready r) obs)) (\<lambda>a.
     e_bind (op_list_handles ws (Some CUBE)) (\<lambda>cubes.
     e_bind (sum_sizes (filter (\<lambda>r. h_handle r \<noteq> excluded \<and> pinned_ready r) cubes)) (\<lambda>b.
       e_ret (a + b)))))"

definition speculative_pin_message :: "string \<Rightarrow> string" where
  "speculative_pin_message handle =
     ''handle '' @ py_repr handle @ '' holds a speculative (prefetched) result nobody has requested yet, and speculative results cannot be pinned; retrieve this window explicitly -- the matching request promotes it to an ordinary result, which can then be pinned''"

definition ceiling_message :: "string \<Rightarrow> string \<Rightarrow> int \<Rightarrow> int \<Rightarrow> int \<Rightarrow> string" where
  "ceiling_message handle ws n total_bytes cap =
     ''pinning '' @ py_repr handle @ '' ('' @ show_int n @ '' bytes) would put workspace '' @ py_repr ws @ '' at '' @
     show_int total_bytes @ '' pinned bytes, over its '' @ show_int cap @
     ''-byte ceiling; unpin something first or raise EARTHDATA_PINNED_BYTES_MAX_PER_WORKSPACE''"

definition pin_answer :: "string \<Rightarrow> string \<Rightarrow> bool \<Rightarrow> int \<Rightarrow> int \<Rightarrow> dict" where
  "pin_answer handle status is_pinned held cap =
     [(''handle'', JStr handle), (''status'', JStr status), (''pinned'', JBool is_pinned),
      (''pinned_bytes'', JInt held), (''pinned_bytes_max'', JInt cap)]"

text \<open>The measurement before a pin, and the write after it.\<close>

definition measure_pin :: "string \<Rightarrow> string \<Rightarrow> dict \<Rightarrow> (int \<times> int) op" where
  "measure_pin ws handle payload =
     e_bind (pinned_bytes ws handle) (\<lambda>others. e_bind (result_size payload) (\<lambda>n. e_ret (others, n)))"

definition commit_pin :: "int \<Rightarrow> string \<Rightarrow> string \<Rightarrow> int \<times> int \<Rightarrow> dict op" where
  "commit_pin cap ws handle m =
     (case m of (others, n) \<Rightarrow>
        if others + n > cap then
          e_ret (pin_answer handle ''refused'' False others cap @
                 [(''message'', JStr (ceiling_message handle ws n (others + n) cap))])
        else e_bind (op_update_handle ws handle [(''pinned'', JBool True)]) (\<lambda>_.
               e_ret (pin_answer handle ''pinned'' True (others + n) cap)))"

definition pin_result ::
  "retrieval_env \<Rightarrow> int \<Rightarrow> string \<Rightarrow> bool \<Rightarrow> string \<Rightarrow> string option \<Rightarrow> dict op" where
  "pin_result rt cap handle pinned ws edl_token =
     e_bind (op_parse_token (rt_platform rt) edl_token) (\<lambda>_.
     e_bind (lift_sum (require_result_handle ''pin_result'' handle)) (\<lambda>_.
     e_bind (find_result ws handle) (\<lambda>found.
     case found of
       None \<Rightarrow> e_ret (result_not_found handle)
     | Some row \<Rightarrow>
         let payload = h_payload row; status = jget payload ''status'' in
         if \<not> pinned then
           e_bind (op_update_handle ws handle [(''pinned'', JBool False)]) (\<lambda>_.
           e_bind (pinned_bytes ws handle) (\<lambda>held. e_ret (pin_answer handle ''unpinned'' False held cap)))
         else if truthy (jget payload ''speculative'') then
           e_ret [(''handle'', JStr handle), (''status'', JStr ''refused''), (''pinned'', JBool False),
                  (''message'', JStr (speculative_pin_message handle))]
         else if status \<noteq> JStr ''ready'' then
           e_ret [(''handle'', JStr handle), (''status'', py_or status (JStr ''pending'')), (''pinned'', JBool False),
                  (''message'', JStr (''handle '' @ py_repr handle @ '' holds no cached bytes to pin (status='' @
                     json_repr rt status @ ''); call rematerialize('' @ py_repr handle @
                     '') first, then pin it once it is ready''))]
         else e_bind (measure_pin ws handle payload) (commit_pin cap ws handle))))"

section \<open>Looking without touching\<close>

text \<open>
  Worlds that differ in the clock, the register of secrets, the drawn tokens and what is left of the
  schedule of faults.
\<close>

definition looked :: "world \<Rightarrow> world \<Rightarrow> bool" where
  "looked w w' \<longleftrightarrow> same_tables w w' \<and> w_files w' = w_files w \<and> w_root w' = w_root w \<and> set (w_io w') \<subseteq> set (w_io w)"

interpretation looked: state_preorder looked
  by unfold_locales (auto simp: looked_def intro: tables.R_refl tables.R_trans)

lemma looked_stepped: "stepped w w1 \<Longrightarrow> looked w w1"
  by (auto simp: looked_def stepped_def same_tables_def)

lemma looked_read: "keeps looked (e_read f)"
proof (rule keepsI)
  fix w
  obtain flt w1 where n: "next_io w = (flt, w1)" by fastforce
  have "looked w w1" by (rule looked_stepped [OF stepped_next_io [OF n]])
  then show "looked w (snd (e_read f w))"
    by (auto simp: e_read_def e_io_def n split: io_fault.splits sum.splits)
qed

lemma looked_lift: "keeps looked (lift_sum x)"
  by (cases x) (auto simp: lift_sum_def intro: looked.keeps_intros)

lemma looked_parse: "keeps looked (op_parse_token pf t)"
  by (auto simp: keeps_def looked_def same_tables_def op_parse_token_def split: prod.splits)

lemma looked_find: "keeps looked (find_result ws h)"
  unfolding find_result_def op_get_handle_def
  by (intro looked.keeps_intros looked_read) (auto intro: looked.keeps_intros split: exn.split)

text \<open>The failures of the database and the store are not mistaken for a missing key or handle.\<close>

definition lookup_error :: "exn \<Rightarrow> bool" where
  "lookup_error e \<longleftrightarrow> 
     (case e of KeyError _ \<Rightarrow> True | HandleNotFoundError _ \<Rightarrow> True | CrossWorkspaceError _ \<Rightarrow> True | _ \<Rightarrow> False)"

definition plain_faults :: "world \<Rightarrow> bool" where
  "plain_faults w \<longleftrightarrow>
     list_all (\<lambda>(d, flt). case flt of Io_ok \<Rightarrow> True | Io_before e \<Rightarrow> \<not> lookup_error e | Io_after e \<Rightarrow> \<not> lookup_error e) (w_io w)"

lemma plain_looked: "plain_faults w \<Longrightarrow> looked w w1 \<Longrightarrow> plain_faults w1"
  by (auto simp: plain_faults_def looked_def list_all_iff)

lemma wp_read_plain:
  assumes "plain_faults w"
    and "\<And>w1. stepped w w1 \<Longrightarrow> (case f w1 of Inl e \<Rightarrow> E e w1 | Inr a \<Rightarrow> Q a w1)"
    and "\<And>e w1. stepped w w1 \<Longrightarrow> \<not> lookup_error e \<Longrightarrow> E e w1"
  shows "wp (e_read f) Q E w"
proof -
  obtain flt w1 where n: "next_io w = (flt, w1)" by fastforce
  have s: "stepped w w1" by (rule stepped_next_io [OF n])
  have "\<not> lookup_error e" if "flt = Io_before e \<or> flt = Io_after e" for e
    using that n assms(1) by (auto simp: next_io_def plain_faults_def split: list.splits)
  then show ?thesis
    using assms(2) [OF s] assms(3) [OF s]
    by (auto simp: wp_def e_read_def e_io_def n split: io_fault.splits sum.splits)
qed

section \<open>What a workspace has pinned\<close>

definition stored_size :: "world \<Rightarrow> dict \<Rightarrow> int" where
  "stored_size w payload =
     (case py_int (jget payload ''size_bytes'') of
        Some n \<Rightarrow> n
      | None \<Rightarrow>
          (case s_bind (py_item (JObj payload) ''storage_key'') (\<lambda>k. s_bind (json_key k) (\<lambda>key.
                  local_stat (w_root w) (w_files w) key)) of
             Inl e \<Rightarrow> 0
           | Inr (_, n) \<Rightarrow> int n))"

definition pin_weight :: "world \<Rightarrow> string \<Rightarrow> handle_row \<Rightarrow> int" where
  "pin_weight w ws r =
     (if h_workspace_id r = ws \<and> (h_type r = OBS \<or> h_type r = CUBE) \<and> pinned_ready r
      then stored_size w (h_payload r) else 0)"

definition pinned_total :: "world \<Rightarrow> string \<Rightarrow> int" where
  "pinned_total w ws = sum_list (map (pin_weight w ws) (w_handles w))"

definition pinned_others :: "world \<Rightarrow> string \<Rightarrow> string \<Rightarrow> int" where
  "pinned_others w ws h = sum_list (map (pin_weight w ws) (filter (\<lambda>r. h_handle r \<noteq> h) (w_handles w)))"

lemma stored_size_looked: "looked w w' \<Longrightarrow> stored_size w' p = stored_size w p"
  unfolding stored_size_def looked_def by (elim conjE) (simp only:)

lemma wp_result_size:
  assumes "looked w0 w" and "plain_faults w0"
  shows "wp (result_size p) (\<lambda>n t. n = stored_size w0 p \<and> looked w0 t) (\<lambda>_. looked w0) w"
proof -
  note plain = plain_looked [OF assms(2,1)]
  note step = looked.R_trans [OF assms(1) looked_stepped]
  have same: "w_root t = w_root w0" "w_files t = w_files w0" if "stepped w t" for t
    using step [OF that] by (simp_all add: looked_def)
  show ?thesis
    unfolding result_size_def stored_size_def
    using assms(1) step
    by (auto simp: wp_simps json_key_def lookup_error_def same sum_simps
        intro!: wp_read_plain [OF plain] split: option.split json.split sum.split exn.splits)
qed

lemma wp_sum_sizes:
  assumes "looked w0 w" and "plain_faults w0"
  shows "wp (sum_sizes rows) (\<lambda>n t. n = sum_list (map (\<lambda>r. stored_size w0 (h_payload r)) rows) \<and> looked w0 t)
    (\<lambda>_. looked w0) w"
  using assms(1)
proof (induction rows arbitrary: w)
  case Nil
  then show ?case by (simp add: wp_ret)
next
  case (Cons r rows)
  show ?case
    unfolding sum_sizes.simps wp_bind wp_ret
    by (rule wp_mono [OF wp_result_size [OF Cons.prems assms(2)]]) (auto intro: wp_mono [OF Cons.IH])
qed

lemma sum_list_sort_key: "sum_list (map f (sort_key k xs)) = (sum_list (map f xs) :: int)"
  by (metis mset_map mset_sort sum_mset_sum_list)

lemma sum_row_put:
  assumes "distinct (map key t)" and "r \<in> set t" and "key r' = key r"
  shows "sum_list (map f (row_put key r' t)) = sum_list (map f t) - f r + (f r' :: int)"
  using assms
proof (induction t)
  case (Cons x t)
  have put: "row_put key r' (x # t) = (if key x = key r' then r' else x) # row_put key r' t"
    by (simp add: row_put_def)
  show ?case
  proof (cases "r = x")
    case True
    then have "key r' \<notin> key ` set t" using Cons.prems by auto
    then have "row_put key r' t = t" unfolding row_put_def by (intro map_idI) (metis imageI)
    then show ?thesis using True Cons.prems by (simp add: put)
  next
    case False
    then have "key x \<noteq> key r" using Cons.prems by auto
    then show ?thesis using False Cons by (simp add: put)
  qed
qed (simp add: row_put_def)

lemma sum_filter_if: "sum_list (map f (filter P xs)) = sum_list (map (\<lambda>x. if P x then f x else (0::int)) xs)"
  by (induction xs) simp_all

lemma others_by_type:
  "sum_list (map (\<lambda>r. stored_size w (h_payload r))
       (filter (\<lambda>r. h_handle r \<noteq> h \<and> pinned_ready r) (list_handles (w_handles w) ws (Some OBS)))) +
   sum_list (map (\<lambda>r. stored_size w (h_payload r))
       (filter (\<lambda>r. h_handle r \<noteq> h \<and> pinned_ready r) (list_handles (w_handles w) ws (Some CUBE)))) =
   pinned_others w ws h"
proof -
  have one: "sum_list (map (\<lambda>r. stored_size w (h_payload r))
       (filter (\<lambda>r. h_handle r \<noteq> h \<and> pinned_ready r) (list_handles (w_handles w) ws (Some ty)))) =
     sum_list (map (\<lambda>r. if h_workspace_id r = ws \<and> h_type r = ty \<and> h_handle r \<noteq> h \<and> pinned_ready r
                        then stored_size w (h_payload r) else 0) (w_handles w))" for ty
    unfolding list_handles_def filter_sort sum_list_sort_key filter_filter sum_filter_if
    by (rule arg_cong [where f = sum_list]) (auto intro!: map_cong)
  show ?thesis
    unfolding one
    unfolding pinned_others_def pin_weight_def sum_filter_if sum_list_addf [symmetric]
    by (rule arg_cong [where f = sum_list]) (auto intro!: map_cong)
qed

lemma total_minus_one:
  assumes "handles_ok (w_handles w)" and "get_handle (w_handles w) ws h = Inr r"
  shows "pinned_total w ws' = pinned_others w ws' h + pin_weight w ws' r"
proof -
  have r: "r \<in> set (w_handles w)" "h_handle r = h" using get_handle_mem [OF assms(2)] by auto
  have "sum_list (map (pin_weight w ws') t) = sum_list (map (pin_weight w ws') (filter (\<lambda>x. h_handle x \<noteq> h) t)) + pin_weight w ws' r"
    if "r \<in> set t" "distinct (map h_handle t)" for t
    using that
  proof (induction t)
    case (Cons x t)
    show ?case
    proof (cases "x = r")
      case True
      then have "h \<notin> h_handle ` set t" using Cons.prems r(2) by auto
      then have "filter (\<lambda>x. h_handle x \<noteq> h) t = t" by (intro filter_True) auto
      then show ?thesis using True r(2) by simp
    next
      case False
      then have "h_handle x \<noteq> h" using Cons.prems r(2) by auto
      then show ?thesis using False Cons by simp
    qed
  qed simp
  then show ?thesis using r(1) assms(1) by (simp add: pinned_total_def pinned_others_def handles_ok_def)
qed

lemma wp_pinned_bytes:
  assumes "looked w0 w" and "plain_faults w0"
  shows "wp (pinned_bytes ws h) (\<lambda>n t. n = pinned_others w0 ws h \<and> looked w0 t) (\<lambda>_. looked w0) w"
proof -
  have listed: "wp (op_list_handles ws ht) (\<lambda>rs t. rs = list_handles (w_handles w0) ws ht \<and> looked w0 t) (\<lambda>_. looked w0) t"
    if t: "looked w0 t" for t ht
    unfolding op_list_handles_def
  proof (rule wp_read)
    fix w1
    assume "stepped t w1"
    then have "looked w0 w1" by (rule looked.R_trans [OF t looked_stepped])
    then show "case Inr (list_handles (w_handles w1) ws ht) of Inl e \<Rightarrow> looked w0 w1
        | Inr rs \<Rightarrow> rs = list_handles (w_handles w0) ws ht \<and> looked w0 w1"
      by (simp add: looked_def same_tables_def)
  qed (rule looked.R_trans [OF t looked_stepped])
  show ?thesis
    unfolding pinned_bytes_def wp_bind wp_ret
    by (rule wp_mono [OF listed [OF assms(1)]], clarify,
        rule wp_mono [OF wp_sum_sizes [OF _ assms(2)]], assumption, clarify,
        rule wp_mono [OF listed], assumption, clarify,
        rule wp_mono [OF wp_sum_sizes [OF _ assms(2)]], assumption)
      (auto simp: others_by_type)
qed

section \<open>A pin\<close>

text \<open>Only the flag of one handle changed (and its \<open>updated_at\<close>).\<close>

definition pin_set :: "string \<Rightarrow> string \<Rightarrow> bool \<Rightarrow> world \<Rightarrow> world \<Rightarrow> bool" where
  "pin_set ws h v w w' \<longleftrightarrow>
     (\<exists>row now. get_handle (w_handles w) ws h = Inr row
        \<and> w_handles w' = row_put h_handle (row\<lparr>h_payload := dict_merge (h_payload row) [(''pinned'', JBool v)],
                                              h_updated_at := now\<rparr>) (w_handles w))
     \<and> w_jobs w' = w_jobs w \<and> w_queue w' = w_queue w \<and> w_edges w' = w_edges w \<and> w_events w' = w_events w
     \<and> w_access w' = w_access w \<and> w_files w' = w_files w \<and> w_root w' = w_root w"

definition is_pinned :: "string \<Rightarrow> string \<Rightarrow> world \<Rightarrow> bool" where
  "is_pinned ws h w \<longleftrightarrow> (\<exists>row. get_handle (w_handles w) ws h = Inr row \<and> pinned_ready row)"

text \<open>What a call that asks for a pin (or, with \<open>pinned\<close> false, takes one back) may leave behind.\<close>

definition pin_post :: "int \<Rightarrow> bool \<Rightarrow> string \<Rightarrow> string \<Rightarrow> world \<Rightarrow> exn + dict \<Rightarrow> world \<Rightarrow> bool" where
  "pin_post cap pinned ws h w res w' \<longleftrightarrow>
     (looked w w' \<or> pin_set ws h pinned w w')
     \<and> (pinned \<longrightarrow> (\<forall>ws'. pinned_total w' ws' \<le> max cap (pinned_total w ws')))
     \<and> (case res of
          Inl e \<Rightarrow> True
        | Inr r \<Rightarrow>
            if jget r ''pinned'' = JBool True
            then pinned \<and> is_pinned ws h w' \<and> pinned_total w' ws \<le> cap \<and> jget r ''pinned_bytes'' = JInt (pinned_total w' ws)
            else pinned \<longrightarrow> looked w w')"

definition typed_handles :: "handle_table \<Rightarrow> bool" where
  "typed_handles t \<longleftrightarrow> list_all (\<lambda>r. handle_type_of (h_handle r) = Inr (h_type r)) t"

lemma pin_weight_files:
  assumes "w_files w' = w_files w" and "w_root w' = w_root w"
  shows "pin_weight w' = pin_weight w"
  unfolding fun_eq_iff pin_weight_def stored_size_def assms by simp

lemma pin_weight_handles [simp]: "pin_weight (w\<lparr>w_handles := t\<rparr>) = pin_weight w"
  by (rule pin_weight_files) simp_all

lemma pinned_total_looked: "looked w w' \<Longrightarrow> pinned_total w' = pinned_total w"
  using pin_weight_files [of w' w] by (intro ext) (simp only: pinned_total_def looked_def same_tables_def)

lemma pin_post_looked:
  "looked w w' \<Longrightarrow> (case res of Inl e \<Rightarrow> True | Inr r \<Rightarrow> jget r ''pinned'' \<noteq> JBool True) \<Longrightarrow> pin_post cap pinned ws h w res w'"
  by (auto simp: pin_post_def pinned_total_looked split: sum.splits)

lemma stored_size_pin: "stored_size w (dict_merge p [(''pinned'', v)]) = stored_size w p"
proof -
  have "jget (dict_merge p [(''pinned'', v)]) ''size_bytes'' = jget p ''size_bytes''"
    "py_item (JObj (dict_merge p [(''pinned'', v)])) ''storage_key'' = py_item (JObj p) ''storage_key''"
    by (simp_all add: jget_dict_merge map_of_dict_merge)
  then show ?thesis unfolding stored_size_def by (simp only:)
qed

text \<open>The effect of the write, flushed or not.\<close>

lemma update_pin:
  assumes "handles_ok t" and "get_handle t ws h = Inr row"
    and "update_handle now ws h [(''pinned'', JBool v)] t = Inr (a, t')"
  shows "(t' = t \<or> t' = row_put h_handle (row\<lparr>h_payload := dict_merge (h_payload row) [(''pinned'', JBool v)],
                                              h_updated_at := now\<rparr>) t)
    \<and> get_handle t' ws h = Inr a \<and> h_payload a = dict_merge (h_payload row) [(''pinned'', JBool v)]
    \<and> h_workspace_id a = ws \<and> h_type a = h_type row
    \<and> sum_list (map (pin_weight w ws') t') = sum_list (map (pin_weight w ws') (filter (\<lambda>x. h_handle x \<noteq> h) t)) + pin_weight w ws' a"
proof -
  have row: "row \<in> set t" "h_handle row = h" "h_workspace_id row = ws" using get_handle_mem [OF assms(2)] by auto
  let ?new = "row\<lparr>h_payload := dict_merge (h_payload row) [(''pinned'', JBool v)], h_updated_at := now\<rparr>"
  have total: "sum_list (map (pin_weight w ws') t) =
      sum_list (map (pin_weight w ws') (filter (\<lambda>x. h_handle x \<noteq> h) t)) + pin_weight w ws' row"
    using total_minus_one [of "w\<lparr>w_handles := t\<rparr>" ws h row ws'] assms(1,2)
    by (simp add: pinned_total_def pinned_others_def)
  consider "a = row" "t' = t" "dict_merge (h_payload row) [(''pinned'', JBool v)] = h_payload row"
    | "a = ?new" "t' = row_put h_handle ?new t"
    using assms(2,3) by (auto simp: update_handle_def Let_def split: if_splits)
  then show ?thesis
  proof cases
    case 1
    then show ?thesis using assms(2) row total by simp
  next
    case 2
    have "sum_list (map (pin_weight w ws') t') = sum_list (map (pin_weight w ws') t) - pin_weight w ws' row + pin_weight w ws' a"
      unfolding 2 using assms(1) row by (intro sum_row_put) (auto simp: handles_ok_def)
    moreover have "get_handle t' ws h = Inr a"
      unfolding 2 using assms(2) row by (simp add: get_handle_Inr_iff row_of_handle_put)
    ultimately show ?thesis using 2 row total by simp
  qed
qed

lemma wp_update_pin:
  assumes "looked w0 w" and "handles_ok (w_handles w0)" and "get_handle (w_handles w0) ws h = Inr row"
    and "\<And>a t. (looked w0 t \<or> pin_set ws h v w0 t) \<Longrightarrow> get_handle (w_handles t) ws h = Inr a
      \<Longrightarrow> h_payload a = dict_merge (h_payload row) [(''pinned'', JBool v)] \<Longrightarrow> h_workspace_id a = ws \<Longrightarrow> h_type a = h_type row
      \<Longrightarrow> (\<And>ws'. pinned_total t ws' = pinned_others w0 ws' h + pin_weight w0 ws' a) \<Longrightarrow> Q a t \<and> (\<forall>e. E e t)"
    and "\<And>e t. looked w0 t \<Longrightarrow> E e t"
  shows "wp (op_update_handle ws h [(''pinned'', JBool v)]) Q E w"
proof -
  have written: "Q a w2 \<and> (\<forall>e. E e w2)"
    if s: "stepped w w1" and u: "update_handle (w_now w1) ws h [(''pinned'', JBool v)] (w_handles w1) = Inr (a, t')"
      and w2: "w2 = w1\<lparr>w_handles := t'\<rparr>" for w1 w2 a t'
  proof (rule assms(4))
    have l: "looked w0 w1" by (rule looked.R_trans [OF assms(1) looked_stepped [OF s]])
    then have h1: "w_handles w1 = w_handles w0" by (simp add: looked_def same_tables_def)
    note up = update_pin [OF assms(2,3) u [unfolded h1], of w0]
    show "looked w0 w2 \<or> pin_set ws h v w0 w2"
    proof (cases "t' = w_handles w0")
      case True
      then show ?thesis using l w2 h1 by (auto simp: looked_def same_tables_def)
    next
      case False
      then show ?thesis using up l w2 assms(3) by (auto simp: pin_set_def looked_def same_tables_def)
    qed
    show "get_handle (w_handles w2) ws h = Inr a" "h_payload a = dict_merge (h_payload row) [(''pinned'', JBool v)]"
      "h_workspace_id a = ws" "h_type a = h_type row" using up w2 by simp_all
    show "pinned_total w2 ws' = pinned_others w0 ws' h + pin_weight w0 ws' a" for ws'
      using update_pin [OF assms(2,3) u [unfolded h1], of w0 ws'] w2 pin_weight_files [of w1 w0] l
      by (simp add: pinned_total_def pinned_others_def looked_def)
  qed
  note step = looked.R_trans [OF assms(1) looked_stepped]
  show ?thesis
    unfolding op_update_handle_def
  proof (rule wp_io)
    fix w1
    assume s: "stepped w w1"
    show "case case update_handle (w_now w1) ws h [(''pinned'', JBool v)] (w_handles w1) of
        Inl e \<Rightarrow> Inl e | Inr (r, t) \<Rightarrow> Inr (r, w1\<lparr>w_handles := t\<rparr>) of Inl e \<Rightarrow> E e w1 | Inr (a, w2) \<Rightarrow> Q a w2"
      using written [OF s] assms(5) [OF step [OF s]] by (auto split: sum.splits)
    show "E e w1" for e by (rule assms(5) [OF step [OF s]])
    show "E e w2" if "(case update_handle (w_now w1) ws h [(''pinned'', JBool v)] (w_handles w1) of
        Inl e \<Rightarrow> Inl e | Inr (r, t) \<Rightarrow> Inr (r, w1\<lparr>w_handles := t\<rparr>)) = Inr (a, w2)" for e a w2
      using written [OF s] that by (auto split: sum.splits)
  qed
qed

lemma pin_weight_other: "get_handle (w_handles w) ws h = Inr row \<Longrightarrow> ws' \<noteq> ws \<Longrightarrow> pin_weight w ws' row = 0"
  by (auto simp: pin_weight_def dest: get_handle_mem)

lemma wp_commit_pin:
  assumes "looked w0 w" and "handles_ok (w_handles w0)" and "get_handle (w_handles w0) ws h = Inr row"
    and "h_type row = OBS \<or> h_type row = CUBE" and "jget (h_payload row) ''status'' = JStr ''ready''"
  shows "wp (commit_pin cap ws h (pinned_others w0 ws h, stored_size w0 (h_payload row)))
    (\<lambda>r. pin_post cap True ws h w0 (Inr r)) (\<lambda>e. pin_post cap True ws h w0 (Inl e)) w"
proof (cases "pinned_others w0 ws h + stored_size w0 (h_payload row) > cap")
  case True
  then show ?thesis
    using assms(1) by (auto simp: commit_pin_def wp_ret pin_answer_def jget_def intro!: pin_post_looked)
next
  case False
  let ?n = "pinned_others w0 ws h + stored_size w0 (h_payload row)"
  have after: "pin_post cap True ws h w0 (Inr (pin_answer h ''pinned'' True ?n cap)) t \<and> (\<forall>e. pin_post cap True ws h w0 (Inl e) t)"
    if t: "looked w0 t \<or> pin_set ws h True w0 t" and a: "get_handle (w_handles t) ws h = Inr a"
      "h_payload a = dict_merge (h_payload row) [(''pinned'', JBool True)]" "h_workspace_id a = ws" "h_type a = h_type row"
      and tot: "\<And>ws'. pinned_total t ws' = pinned_others w0 ws' h + pin_weight w0 ws' a" for t a
  proof -
    have ready: "pinned_ready a" using a(2) assms(5) by (simp add: pinned_ready_def jget_dict_merge)
    have own: "pinned_total t ws = ?n"
      using ready a assms(4) by (simp add: tot pin_weight_def stored_size_pin)
    have "pinned_total t ws' \<le> max cap (pinned_total w0 ws')" for ws'
    proof (cases "ws' = ws")
      case True
      then show ?thesis using own False by simp
    next
      case other: False
      then have "pin_weight w0 ws' a = 0" using a(3) by (simp add: pin_weight_def)
      moreover have "pinned_total w0 ws' = pinned_others w0 ws' h"
        using total_minus_one [OF assms(2,3)] pin_weight_other [OF assms(3) other] by simp
      ultimately show ?thesis by (simp add: tot)
    qed
    then show ?thesis
      using t own False ready a(1) by (auto simp: pin_post_def is_pinned_def pin_answer_def jget_def)
  qed
  show ?thesis
    unfolding commit_pin_def prod.case if_not_P [OF False] wp_bind wp_ret
    by (rule wp_update_pin [OF assms(1-3)]) (use after in \<open>auto intro: pin_post_looked\<close>)
qed

lemma wp_unpin:
  assumes "looked w0 w" and "handles_ok (w_handles w0)" and "get_handle (w_handles w0) ws h = Inr row"
  shows "wp (e_bind (op_update_handle ws h [(''pinned'', JBool False)]) (\<lambda>_.
      e_bind (pinned_bytes ws h) (\<lambda>held. e_ret (pin_answer h ''unpinned'' False held cap))))
    (\<lambda>r. pin_post cap False ws h w0 (Inr r)) (\<lambda>e. pin_post cap False ws h w0 (Inl e)) w"
proof -
  have held: "keeps looked (pinned_bytes ws h)"
  proof -
    have size: "keeps looked (result_size p)" for p
      unfolding result_size_def by (auto intro!: looked.keeps_intros looked_read looked_lift split: exn.split)
    have "keeps looked (sum_sizes rows)" for rows
      by (induction rows) (auto intro: looked.keeps_intros size)
    then show ?thesis unfolding pinned_bytes_def op_list_handles_def by (intro looked.keeps_intros looked_read)
  qed
  have stays: "pin_set ws h False w0 t \<Longrightarrow> looked t t' \<Longrightarrow> pin_set ws h False w0 t'" for t t'
    by (simp add: pin_set_def looked_def same_tables_def)
  have after: "wp (e_bind (pinned_bytes ws h) (\<lambda>held. e_ret (pin_answer h ''unpinned'' False held cap)))
      (\<lambda>r. pin_post cap False ws h w0 (Inr r)) (\<lambda>e. pin_post cap False ws h w0 (Inl e)) t"
    if "looked w0 t \<or> pin_set ws h False w0 t" for t
    unfolding wp_bind wp_ret
    by (rule wp_mono [OF wp_keeps [OF held]])
      (use that in \<open>auto simp: pin_post_def pin_answer_def jget_def dest: stays looked.R_trans\<close>)
  show ?thesis
    unfolding wp_bind [of "op_update_handle ws h p" for p]
  proof (rule wp_update_pin [OF assms])
    fix a t
    assume t: "looked w0 t \<or> pin_set ws h False w0 t"
    then have "pin_post cap False ws h w0 (Inl e) t" for e by (auto simp: pin_post_def)
    with after [OF t] show "wp (e_bind (pinned_bytes ws h) (\<lambda>held. e_ret (pin_answer h ''unpinned'' False held cap)))
        (\<lambda>r. pin_post cap False ws h w0 (Inr r)) (\<lambda>e. pin_post cap False ws h w0 (Inl e)) t
      \<and> (\<forall>e. pin_post cap False ws h w0 (Inl e) t)" by blast
  qed (simp add: pin_post_looked)
qed

lemma wp_find_result:
  assumes "looked w0 w" and "plain_faults w0"
  shows "wp (find_result ws h) (\<lambda>found t. looked w0 t \<and>
      (case found of None \<Rightarrow> \<exists>e. get_handle (w_handles w0) ws h = Inl e | Some row \<Rightarrow> get_handle (w_handles w0) ws h = Inr row))
    (\<lambda>_. looked w0) w"
proof -
  note step = looked.R_trans [OF assms(1) looked_stepped]
  have "wp (op_get_handle ws h) (\<lambda>row t. looked w0 t \<and> get_handle (w_handles w0) ws h = Inr row)
      (\<lambda>e t. looked w0 t \<and> (lookup_error e \<longrightarrow> get_handle (w_handles w0) ws h = Inl e)) w"
    unfolding op_get_handle_def
  proof (rule wp_read_plain [OF plain_looked [OF assms(2,1)]])
    fix w1
    assume "stepped w w1"
    then have l: "looked w0 w1" by (rule step)
    then have "w_handles w1 = w_handles w0" by (simp add: looked_def same_tables_def)
    then show "case get_handle (w_handles w1) ws h of
          Inl e \<Rightarrow> looked w0 w1 \<and> (lookup_error e \<longrightarrow> get_handle (w_handles w0) ws h = Inl e)
        | Inr row \<Rightarrow> looked w0 w1 \<and> get_handle (w_handles w0) ws h = Inr row"
      using l by (simp split: sum.split)
  qed (use step in simp)
  then show ?thesis
    unfolding find_result_def wp_catch wp_bind wp_ret
    by (rule wp_mono) (auto simp: wp_simps lookup_error_def split: exn.split)
qed

text \<open>
  C32: pins stay within the workspace's ceiling. Whatever fails on the way, a call that asks for a pin
  changes nothing but the flag of that one handle, and leaves no workspace with more pinned bytes than the
  larger of the ceiling and what it had pinned before. When it answers that the result is pinned, it is,
  the bytes it reports are those of every pinned result of the workspace, and they are within the ceiling;
  any other answer to such a call (an unknown or foreign handle, a prefetched, pending or evicted result, a
  full quota) leaves the tables as they were. A call that takes a pin back changes that flag alone. The
  failures of database and store are assumed not to be \<open>KeyError\<close>s, which the code reads as a missing blob.
\<close>

theorem pins_within_ceiling:
  assumes "handles_ok (w_handles w)" and "typed_handles (w_handles w)" and "plain_faults w"
    and "pin_result rt cap handle pinned ws edl_token w = (res, w')"
  shows "pin_post cap pinned ws handle w res w'"
proof -
  note idle = pin_post_looked [where cap = cap and pinned = pinned and ws = ws and h = handle and w = w]
  have measured: "wp (e_bind (measure_pin ws handle (h_payload row)) (commit_pin cap ws handle))
      (\<lambda>r. pin_post cap True ws handle w (Inr r)) (\<lambda>e. pin_post cap True ws handle w (Inl e)) t"
    if "looked w t" "get_handle (w_handles w) ws handle = Inr row" "h_type row = OBS \<or> h_type row = CUBE"
      "jget (h_payload row) ''status'' = JStr ''ready''" for row t
    unfolding measure_pin_def wp_bind wp_ret
    by (rule wp_mono [OF wp_pinned_bytes [OF that(1) assms(3)]], clarify,
        rule wp_mono [OF wp_result_size [OF _ assms(3)]], assumption, clarify,
        rule wp_commit_pin [OF _ assms(1) that(2-4)])
      (auto intro: pin_post_looked)
  have "wp (pin_result rt cap handle pinned ws edl_token)
      (\<lambda>r. pin_post cap pinned ws handle w (Inr r)) (\<lambda>e. pin_post cap pinned ws handle w (Inl e)) w"
    unfolding pin_result_def wp_bind [of "op_parse_token pf x" for pf x]
  proof (rule wp_mono [OF wp_keeps [OF looked_parse]], goal_cases returns raises)
    case (returns i t)
    show ?case
    proof (cases "require_result_handle ''pin_result'' handle")
      case (Inl e)
      then show ?thesis using returns idle [of t "Inl e"] by (simp add: wp_raise)
    next
      case (Inr u)
      then have ty: "handle_type_of handle = Inr OBS \<or> handle_type_of handle = Inr CUBE"
        by (auto simp: require_result_handle_def sum_simps split: if_splits)
      show ?thesis
        unfolding Inr bind_lift wp_bind [of "find_result ws handle"]
      proof (rule wp_mono [OF wp_find_result [OF returns assms(3)]], goal_cases found lost)
        case (found r t)
        show ?case
        proof (cases r)
          case None
          then show ?thesis
            using found by (auto simp: wp_ret result_not_found_def result_answer_def jget_def intro!: idle)
        next
          case (Some row)
          then have row: "get_handle (w_handles w) ws handle = Inr row" and t: "looked w t" using found by simp_all
          have "h_type row = OBS \<or> h_type row = CUBE"
            using ty assms(2) get_handle_mem [OF row] by (auto simp: typed_handles_def list_all_iff)
          then show ?thesis
            using Some row t measured [OF t row] wp_unpin [OF t assms(1) row]
            by (auto simp: Let_def wp_ret jget_def intro!: pin_post_looked)
        qed
      qed (use idle in simp)
    qed
  qed (use idle in simp)
  from wpD [OF this assms(4)] show ?thesis by (simp split: sum.splits)
qed

definition pin_row :: "string \<Rightarrow> bool \<Rightarrow> int \<Rightarrow> handle_row" where
  "pin_row h p n =
     \<lparr>h_handle = h, h_workspace_id = ''ws'', h_type = OBS,
      h_payload = [(''status'', JStr ''ready''), (''storage_key'', JStr ''k''), (''media_type'', JStr ''text/csv''),
                   (''size_bytes'', JInt n), (''pinned'', JBool p)],
      h_created_at = 0, h_updated_at = 0, h_last_accessed_at = None\<rparr>"

definition pin_world :: world where
  "pin_world = initial_world\<lparr>w_handles := [pin_row ''obs_1'' False 40, pin_row ''obs_2'' True 50, pin_row ''obs_3'' False 40]\<rparr>"

lemma sample_pins:
  "fst (pin_result sample_retrieval 100 ''obs_1'' True ''ws'' None pin_world) =
     Inr (pin_answer ''obs_1'' ''pinned'' True 90 100)"
  by code_simp

lemma pins_within_ceiling_witness:
  "\<exists>w'. pin_result sample_retrieval 100 ''obs_1'' True ''ws'' None pin_world = (Inr (pin_answer ''obs_1'' ''pinned'' True 90 100), w')
     \<and> pinned_total w' ''ws'' = 90 \<and> is_pinned ''ws'' ''obs_1'' w'"
proof -
  obtain w' where run: "pin_result sample_retrieval 100 ''obs_1'' True ''ws'' None pin_world =
      (Inr (pin_answer ''obs_1'' ''pinned'' True 90 100), w')"
    using sample_pins by (metis prod.collapse)
  have "handles_ok (w_handles pin_world)" "typed_handles (w_handles pin_world)" "plain_faults pin_world"
    by (simp_all add: pin_world_def pin_row_def handles_ok_def typed_handles_def plain_faults_def initial_world_def
        signature_of_def payload_text_def jget_def handle_type_of_def py_partition_def all_handle_types_def)
  from pins_within_ceiling [OF this run] show ?thesis
    using run by (auto simp: pin_post_def pin_answer_def jget_def)
qed

text \<open>
  The measurement and the write are separate sessions, so two calls that both measure before either writes
  go over the ceiling together.
\<close>

lemma interleaved_pins_exceed:
  "case e_bind (measure_pin ''ws'' ''obs_1'' (h_payload (pin_row ''obs_1'' False 40))) (\<lambda>m1.
        e_bind (measure_pin ''ws'' ''obs_3'' (h_payload (pin_row ''obs_3'' False 40))) (\<lambda>m2.
          e_seq (commit_pin 100 ''ws'' ''obs_1'' m1) (commit_pin 100 ''ws'' ''obs_3'' m2))) pin_world of
     (r, w') \<Rightarrow> r = Inr (pin_answer ''obs_3'' ''pinned'' True 90 100) \<and> pinned_total w' ''ws'' = 130"
  by code_simp

section \<open>A replay\<close>

lemma looked_work: "looked w w' \<Longrightarrow> same_work w w'"
  by (simp add: looked_def same_tables_def same_work_def)

text \<open>What a replay answers and leaves, given the row of the handle, if any, and the job behind it.\<close>

definition replayed ::
  "retrieval_env \<Rightarrow> string \<Rightarrow> string option \<Rightarrow> world \<Rightarrow> handle_row option \<Rightarrow> dict \<Rightarrow> world \<Rightarrow> bool" where
  "replayed rt handle edl_token w found r w' \<longleftrightarrow>
     (case found of
        None \<Rightarrow> looked w w' \<and> r = result_not_found handle
      | Some row \<Rightarrow>
          let job = get_job_by_obs_handle (w_jobs w) handle in
          if jget (h_payload row) ''status'' \<noteq> JStr ''expired'' then
            looked w w' \<and> jget r ''obs_handle'' = JStr handle
            \<and> jget r ''job_handle'' = (case job of None \<Rightarrow> JNull | Some j \<Rightarrow> JStr (j_handle j))
          else case job of
                 None \<Rightarrow> looked w w' \<and> jget r ''status'' = JStr ''not_found''
               | Some old \<Rightarrow>
                   \<exists>identity cred j. fst (op_parse_token (rt_platform rt) edl_token w) = Inr identity
                     \<and> credential_of rt (map_option id_token identity) = Inr cred
                     \<and> fresh_job (j_id j) (j_handle j) handle (j_provider old) (j_request_spec old) cred j
                     \<and> queued_from w j w' \<and> jget r ''job_handle'' = JStr (j_handle j))"

lemma wp_replay_row:
  assumes t: "looked w t" and i: "fst (op_parse_token (rt_platform rt) edl_token w) = Inr identity"
  shows "wp_partial (replay_row rt handle ws identity row) (replayed rt handle edl_token w (Some row)) t"
  unfolding replay_row_def wp_bind
proof (rule wp_partial_read)
  fix t1 job
  assume "stepped t t1" and "(Inr (get_job_by_obs_handle (w_jobs t1) handle) :: exn + job option) = Inr job"
  then have t1: "looked w t1" and job: "job = get_job_by_obs_handle (w_jobs w) handle"
    using looked.R_trans [OF t looked_stepped] by (auto simp: looked_def same_tables_def)
  show "wp_partial (if jget (h_payload row) ''status'' \<noteq> JStr ''expired'' then
         e_ret [(''job_handle'', case job of None \<Rightarrow> JNull | Some j \<Rightarrow> JStr (j_handle j)), (''obs_handle'', JStr handle),
                (''status'', case map_of (h_payload row) ''status'' of None \<Rightarrow> JStr ''unknown'' | Some v \<Rightarrow> v)]
       else case job of
              None \<Rightarrow> e_ret (result_answer handle (JStr ''not_found'') (no_job_message handle))
            | Some j \<Rightarrow> reenqueue_replay rt handle ws j (map_option id_token identity))
      (replayed rt handle edl_token w (Some row)) t1"
  proof (cases "jget (h_payload row) ''status'' \<noteq> JStr ''expired''")
    case True
    then show ?thesis using t1 job by (simp add: wp_ret replayed_def Let_def jget_def)
  next
    case False
    show ?thesis
    proof (cases job)
      case None
      then show ?thesis using False t1 job by (simp add: wp_ret replayed_def result_answer_def jget_def)
    next
      case (Some old)
      show ?thesis
        unfolding Some if_not_P [OF False] option.case
        by (rule wp_mono [OF wp_replay [OF looked_work [OF t1]]])
          (use False Some job i in \<open>auto simp: replayed_def fresh_job_def jget_def retrieval_response_def\<close>)
    qed
  qed
qed

text \<open>
  C19: an evicted result with a job behind it is replayed by exactly one new pending job under the stored spec
  and the caller's own credential, queued once by its id; every other answer leaves the tables as they were.
\<close>

theorem rematerialize_replays_once:
  assumes "plain_faults w" and "rematerialize rt handle ws edl_token w = (Inr r, w')"
  shows "replayed rt handle edl_token w
    (case get_handle (w_handles w) ws handle of Inl e \<Rightarrow> None | Inr row \<Rightarrow> Some row) r w'"
proof -
  let ?found = "case get_handle (w_handles w) ws handle of Inl e \<Rightarrow> None | Inr row \<Rightarrow> Some row"
  obtain pr w1 where parse: "op_parse_token (rt_platform rt) edl_token w = (pr, w1)" by fastforce
  have w1: "looked w w1" by (rule keepsD [OF looked_parse parse])
  have "wp_partial (rematerialize rt handle ws edl_token) (replayed rt handle edl_token w ?found) w"
  proof (cases pr)
    case (Inl e)
    then show ?thesis by (simp add: wp_def rematerialize_def e_bind_run parse)
  next
    case (Inr identity)
    have "wp_partial (e_bind (find_result ws handle) (\<lambda>found.
        case found of None \<Rightarrow> e_ret (result_not_found handle) | Some row \<Rightarrow> f row)) (replayed rt handle edl_token w ?found) w1"
      if f: "\<And>row t. looked w t \<Longrightarrow> wp_partial (f row) (replayed rt handle edl_token w (Some row)) t" for f
      unfolding wp_bind
      by (rule wp_mono [OF wp_find_result [OF w1 assms(1)]])
        (use f in \<open>auto simp: wp_ret replayed_def split: option.splits\<close>)
    note this [OF wp_replay_row]
    moreover have "fst (op_parse_token (rt_platform rt) edl_token w) = Inr identity" using parse Inr by simp
    moreover have "wp_partial (rematerialize rt handle ws edl_token) Q w =
      wp_partial (e_bind (lift_sum (if identity = None then Inr ()
                       else ensure_credential_key (rt_platform rt) (rt_credential_key rt))) (\<lambda>_.
     e_bind (lift_sum (require_result_handle ''rematerialize'' handle)) (\<lambda>_.
     e_bind (find_result ws handle) (\<lambda>found.
     case found of
       None \<Rightarrow> e_ret (result_not_found handle)
     | Some row \<Rightarrow>
         replay_row rt handle ws identity row)))) Q w1" for Q
      using Inr by (simp add: wp_def rematerialize_def e_bind_run parse)
    ultimately show ?thesis by (auto intro!: wp_bind_lift)
  qed
  from wpD [OF this assms(2)] show ?thesis by simp
qed

lemma rematerialize_replays_once_witness:
  "\<exists>r w' j. rematerialize sample_retrieval ''obs_1'' ''ws'' (Some ''a.e.c'') (reuse_world ''expired'' EXPIRED) = (Inr r, w')
     \<and> w_jobs w' = w_jobs (reuse_world ''expired'' EXPIRED) @ [j] \<and> j_state j = PENDING
     \<and> j_credential_encrypted j = Some ''key:a.e.c'' \<and> w_queue w' = [submit_task (j_id j)]"
proof -
  let ?w = "reuse_world ''expired'' EXPIRED"
  have "\<exists>r. fst (rematerialize sample_retrieval ''obs_1'' ''ws'' (Some ''a.e.c'') ?w) = Inr r"
    by (rule exI [of _ "retrieval_response (JStr ''job_1'') (JStr ''obs_1'') (JStr ''pending'') (JStr ''harmony'')"]) code_simp
  then obtain r w' where run: "rematerialize sample_retrieval ''obs_1'' ''ws'' (Some ''a.e.c'') ?w = (Inr r, w')"
    by (metis prod.collapse)
  have plain: "plain_faults ?w" by (simp add: plain_faults_def reuse_world_def initial_world_def)
  have row: "get_handle (w_handles ?w) ''ws'' ''obs_1'' = Inr (hd (w_handles ?w))" by code_simp
  have status: "jget (h_payload (hd (w_handles ?w))) ''status'' = JStr ''expired''" by (simp add: reuse_world_def)
  have job: "get_job_by_obs_handle (w_jobs ?w) ''obs_1'' = Some (hd (w_jobs ?w))" by code_simp
  have cred: "s_bind (fst (op_parse_token (rt_platform sample_retrieval) (Some ''a.e.c'') ?w)) (\<lambda>i.
      credential_of sample_retrieval (map_option id_token i)) = Inr (Some ''key:a.e.c'')" by code_simp
  have "w_queue ?w = []" by (simp add: reuse_world_def initial_world_def)
  then show ?thesis
    using rematerialize_replays_once [OF plain run] run cred
    unfolding row job status replayed_def by (auto simp: fresh_job_def queued_from_def job status)
qed

section \<open>An export\<close>

text \<open>
  An export is a read: it answers \<open>ready\<close> only for a stored, ready result of the workspace, with the address
  of its own file, and changes nothing but the time the handle was last used.
\<close>

lemma touch_payloads:
  "touch_handle now ws h t = Inr t' \<Longrightarrow> map (\<lambda>r. (h_handle r, h_workspace_id r, h_type r, h_payload r)) t' =
     map (\<lambda>r. (h_handle r, h_workspace_id r, h_type r, h_payload r)) t" if "handles_ok t"
proof -
  assume "touch_handle now ws h t = Inr t'"
  then obtain row where row: "get_handle t ws h = Inr row"
    and t': "t' = row_put h_handle (row\<lparr>h_last_accessed_at := Some now, h_updated_at := now\<rparr>) t"
    by (auto simp: touch_handle_def split: sum.splits)
  have "x = row" if "x \<in> set t" "h_handle x = h_handle row" for x
    using that \<open>handles_ok t\<close> get_handle_mem [OF row] unfolding handles_ok_def by (meson distinct_map inj_onD)
  then show ?thesis unfolding t' by (auto simp: row_put_def)
qed

definition exported :: "(path \<Rightarrow> string) \<Rightarrow> string \<Rightarrow> string \<Rightarrow> world \<Rightarrow> dict \<Rightarrow> world \<Rightarrow> bool" where
  "exported as_uri ws handle w r w' \<longleftrightarrow>
     (\<exists>row key p content. get_handle (w_handles w) ws handle = Inr row
        \<and> jget (h_payload row) ''status'' = JStr ''ready'' \<and> jget (h_payload row) ''storage_key'' = JStr key
        \<and> local_path (w_root w) key = Inr p \<and> map_of (fs_files (w_files w)) p = Some content
        \<and> jget r ''storage_uri'' = JStr (as_uri p))
     \<and> map (\<lambda>r. (h_handle r, h_workspace_id r, h_type r, h_payload r)) (w_handles w') =
       map (\<lambda>r. (h_handle r, h_workspace_id r, h_type r, h_payload r)) (w_handles w)
     \<and> same_work w w' \<and> w_edges w' = w_edges w \<and> w_events w' = w_events w \<and> w_files w' = w_files w"

lemma wp_read_looked:
  assumes "looked w0 w" and "\<And>w1 a. looked w0 w1 \<Longrightarrow> f w1 = Inr a \<Longrightarrow> Q a w1"
  shows "wp_partial (e_read f) Q w"
  by (rule wp_partial_read, rule assms(2)) (rule looked.R_trans [OF assms(1) looked_stepped])

lemma wp_export_ready:
  assumes t: "looked w t" and ok: "handles_ok (w_handles w)" and row: "get_handle (w_handles w) ws handle = Inr row"
    and status: "jget (h_payload row) ''status'' = JStr ''ready''"
  shows "wp_partial (export_ready as_uri ws handle (h_payload row)) (exported as_uri ws handle w) t"
proof -
  let ?p = "h_payload row"
  have size: "wp_partial (if jget ?p ''size_bytes'' \<noteq> JNull then e_ret (jget ?p ''size_bytes'')
      else e_read (\<lambda>w. s_bind (local_stat (w_root w) (w_files w) key) (\<lambda>(_, n). Inr (JInt (int n))))) (\<lambda>_. looked w) t" for key
    using t by (auto simp: wp_ret intro: wp_read_looked)
  have touch: "wp_partial (op_touch_handle ws handle) (\<lambda>_ w'.
      map (\<lambda>r. (h_handle r, h_workspace_id r, h_type r, h_payload r)) (w_handles w') =
      map (\<lambda>r. (h_handle r, h_workspace_id r, h_type r, h_payload r)) (w_handles w)
      \<and> same_work w w' \<and> w_edges w' = w_edges w \<and> w_events w' = w_events w \<and> w_files w' = w_files w) t1" if "looked w t1" for t1
    unfolding op_touch_handle_def
  proof (rule wp_partial_io)
    fix w1 a w2
    assume s: "stepped t1 w1" and "(case touch_handle (w_now w1) ws handle (w_handles w1) of Inl e \<Rightarrow> Inl e
        | Inr t \<Rightarrow> Inr ((), w1\<lparr>w_handles := t\<rparr>)) = Inr (a, w2)"
    moreover have "looked w w1" by (rule looked.R_trans [OF that looked_stepped [OF s]])
    ultimately obtain t' where "looked w w1" "touch_handle (w_now w1) ws handle (w_handles w1) = Inr t'" "w2 = w1\<lparr>w_handles := t'\<rparr>"
      by (auto split: sum.splits)
    then show "map (\<lambda>r. (h_handle r, h_workspace_id r, h_type r, h_payload r)) (w_handles w2) =
        map (\<lambda>r. (h_handle r, h_workspace_id r, h_type r, h_payload r)) (w_handles w)
        \<and> same_work w w2 \<and> w_edges w2 = w_edges w \<and> w_events w2 = w_events w \<and> w_files w2 = w_files w"
      using touch_payloads [OF ok] by (auto simp: looked_def same_tables_def same_work_def)
  qed
  show ?thesis
    unfolding export_ready_def
  proof (rule wp_bind_lift, rule wp_bind_post [OF size], unfold wp_bind wp_seq, rule wp_read_looked, assumption)
    fix key size_bytes t1 w1 uri
    assume key: "json_key (jget ?p ''storage_key'') = Inr key" and w1: "looked w w1"
      and uri: "local_uri as_uri (w_root w1) (w_files w1) key = Inr uri"
    obtain p content where "local_path (w_root w) key = Inr p" "map_of (fs_files (w_files w)) p = Some content" "uri = as_uri p"
      using uri w1 by (auto simp: local_uri_def looked_def split: sum.splits if_splits)
    moreover have "jget ?p ''storage_key'' = JStr key" using key by (auto simp: json_key_def split: json.splits)
    ultimately show "wp_partial (op_touch_handle ws handle) (\<lambda>_. wp_partial (e_ret ([(''handle'', JStr handle),
        (''status'', JStr ''ready''), (''storage_uri'', JStr uri), (''media_type'', jget ?p ''media_type''),
        (''size_bytes'', size_bytes), (''rematerialize_hint'', JStr REMATERIALIZE_HINT)] @ delivered_content ?p))
        (exported as_uri ws handle w)) w1"
      using row status
      by (intro wp_mono [OF touch [OF w1]]) (auto simp: wp_ret exported_def jget_def [of "_ # _"])
  qed
qed

definition export_post :: "(path \<Rightarrow> string) \<Rightarrow> string \<Rightarrow> string \<Rightarrow> world \<Rightarrow> dict \<Rightarrow> world \<Rightarrow> bool" where
  "export_post as_uri ws handle w r w' \<longleftrightarrow>
     (if jget r ''storage_uri'' = JNull then looked w w' else exported as_uri ws handle w r w')"

theorem export_result_reads:
  assumes "handles_ok (w_handles w)" and "plain_faults w" and "export_result rt as_uri handle ws edl_token w = (Inr r, w')"
  shows "export_post as_uri ws handle w r w'"
proof -
  let ?Q = "export_post as_uri ws handle w"
  have answer: "wp_partial (e_ret (result_answer handle s m)) ?Q t" if "looked w t" for s m t
    using that by (simp add: wp_ret export_post_def result_answer_def jget_def)
  have ready: "wp_partial (export_ready as_uri ws handle (h_payload row)) ?Q t"
    if "looked w t" "get_handle (w_handles w) ws handle = Inr row" "jget (h_payload row) ''status'' = JStr ''ready''" for t row
    by (rule wp_mono [OF wp_export_ready [OF that(1) assms(1) that(2,3)]]) (auto simp: export_post_def exported_def)
  have "wp_partial (export_result rt as_uri handle ws edl_token) ?Q w"
    unfolding export_result_def wp_bind [of "op_parse_token pf x" for pf x]
  proof (rule wp_mono [OF wp_keeps [OF looked_parse]], rule wp_bind_lift)
    fix i t
    assume t: "looked w t"
    show "wp_partial (e_bind (find_result ws handle) (\<lambda>found.
     case found of
       None \<Rightarrow> e_ret (result_not_found handle)
     | Some row \<Rightarrow>
         let payload = h_payload row; status = jget payload ''status'' in
         if status = JStr ''expired'' then
           e_ret (result_answer handle (JStr ''expired'')
             (''handle '' @ py_repr handle @ '' was evicted from the materialization cache; call rematerialize('' @
              py_repr handle @ '') to recover it''))
         else if status \<noteq> JStr ''ready'' \<or> \<not> truthy (jget payload ''storage_key'') \<or> \<not> truthy (jget payload ''media_type'') then
           e_ret (result_answer handle (py_or status (JStr ''pending''))
             (''handle '' @ py_repr handle @ '' is not yet materialized (status='' @ json_repr rt status @ '')''))
         else export_ready as_uri ws handle payload)) ?Q t"
      unfolding wp_bind
      by (rule wp_mono [OF wp_find_result [OF t assms(2)]])
        (auto simp: Let_def result_not_found_def intro: answer ready split: option.split)
  qed simp
  from wpD [OF this assms(3)] show ?thesis by simp
qed

text \<open>What the tools keep when anything fails.\<close>

lemma keeps_looked_evolves: "keeps looked m \<Longrightarrow> keeps evolves m"
  by (rule keeps_tables_evolves) (auto simp: keeps_def looked_def)

lemma keeps_export: "keeps evolves (export_result rt u h ws t)"
  unfolding export_result_def export_ready_def find_result_def Let_def
  by (auto intro!: keeps_evolves keeps_runtime split: option.split exn.split)

lemma keeps_rematerialize: "keeps evolves (rematerialize rt h ws t)"
  unfolding rematerialize_def replay_row_def
  by (auto intro!: keeps_evolves keeps_runtime keeps_replay keeps_looked_evolves [OF looked_find] split: option.split)

lemma keeps_pin: "keeps evolves (pin_result rt cap h p ws t)"
proof -
  have size: "keeps evolves (result_size q)" for q
    unfolding result_size_def by (auto intro!: keeps_evolves keeps_runtime split: option.split exn.split)
  have sizes: "keeps evolves (sum_sizes rows)" for rows
    by (induction rows) (auto intro: keeps_evolves size)
  have bytes: "keeps evolves (pinned_bytes ws' h')" for ws' h'
    unfolding pinned_bytes_def op_list_handles_def by (intro keeps_evolves keeps_runtime sizes)
  show ?thesis
    unfolding pin_result_def measure_pin_def commit_pin_def Let_def
    by (auto intro!: keeps_evolves keeps_runtime bytes size keeps_looked_evolves [OF looked_find] split: option.split)
qed

lemmas keeps_result_tools = keeps_export keeps_rematerialize keeps_pin

end
