(* ===== verification/Retrieval.thy ===== *)
theory Retrieval
  imports JobTools
begin

text \<open>
  The retrieval tools (\<open>tools/retrieval.py\<close>): planning, the creation of the durable job and its enqueueing,
  in the order of the code, so that a request that cannot be served leaves nothing behind. The set of
  AppEEARS products this process has confirmed is an argument; what a call adds to it is the result of
  \<open>check_appeears_catalog\<close>. Logging is left out.
\<close>

section \<open>The request\<close>

record retrieval_request =
  rq_dataset_handle :: string
  rq_aoi_handle :: "string option"
  rq_time_range :: string
  rq_variables :: "string list"
  rq_workspace_id :: string
  rq_output_format :: "string option"
  rq_needs_bbox :: bool
  rq_needs_variable :: bool
  rq_needs_temporal :: bool
  rq_needs_point_sample :: bool
  rq_dedupe :: bool
  rq_edl_token :: "string option"

definition FORMAT_BY_SHAPE :: "(string \<times> string) list" where
  "FORMAT_BY_SHAPE =
     [(''grid'', ''application/netcdf4''), (''point'', ''application/x-parquet''), (''swath'', ''application/netcdf4'')]"

definition format_of :: "retrieval_request \<Rightarrow> capabilities \<Rightarrow> string" where
  "format_of rq caps =
     (if rq_needs_point_sample rq then
        (if or_empty (rq_output_format rq) \<noteq> [] then or_empty (rq_output_format rq) else ''application/x-parquet'')
      else case rq_output_format rq of
             Some f \<Rightarrow> f
           | None \<Rightarrow> (case map_of FORMAT_BY_SHAPE (cc_output_shape caps) of Some f \<Rightarrow> f | None \<Rightarrow> DEFAULT_FORMAT))"

definition resolve_handles :: "retrieval_env \<Rightarrow> string \<Rightarrow> string option \<Rightarrow> string \<Rightarrow> (json \<times> json list option) op" where
  "resolve_handles rt dataset_handle aoi_handle ws =
     e_bind (e_read (\<lambda>w. resolve_dataset (w_handles w) ws dataset_handle)) (\<lambda>concept_id.
       case aoi_handle of
         None \<Rightarrow> e_ret (concept_id, None)
       | Some a \<Rightarrow>
           e_bind (e_read (\<lambda>w. resolve_aoi (rt_read_float rt) (w_handles w) ws a)) (\<lambda>bbox.
             e_ret (concept_id, Some (map JFloat bbox))))"

section \<open>Planning\<close>

text \<open>The identity, the normalized range, what the handles stand for and the collection.\<close>

record planning_inputs =
  in_identity :: "edl_identity option"
  in_time_range :: string
  in_concept_id :: json
  in_bbox :: "json list option"
  in_caps :: capabilities

definition token_of_inputs :: "planning_inputs \<Rightarrow> string option" where
  "token_of_inputs inp = map_option id_token (in_identity inp)"

definition retrieval_inputs :: "retrieval_env \<Rightarrow> retrieval_request \<Rightarrow> planning_inputs op" where
  "retrieval_inputs rt rq =
     e_bind (op_parse_token (rt_platform rt) (rq_edl_token rq)) (\<lambda>identity.
     e_bind (lift_sum (if identity = None then Inr () else ensure_credential_key (rt_platform rt) (rt_credential_key rt))) (\<lambda>_.
     e_bind (lift_sum (normalize_time_range (Some (rq_time_range rq)) False)) (\<lambda>time_range.
     e_bind (resolve_handles rt (rq_dataset_handle rq) (rq_aoi_handle rq) (rq_workspace_id rq)) (\<lambda>(concept_id, bbox).
     e_bind (collection_capabilities (rt_cmr rt (map_option id_token identity)) concept_id) (\<lambda>caps.
       e_ret \<lparr>in_identity = identity, in_time_range = time_range, in_concept_id = concept_id, in_bbox = bbox,
              in_caps = caps\<rparr>)))))"

definition request_signature :: "retrieval_env \<Rightarrow> retrieval_request \<Rightarrow> planning_inputs \<Rightarrow> string op" where
  "request_signature rt rq inp =
     e_bind (reuse_identity_scope rt (in_caps inp) (in_concept_id inp) (in_identity inp)) (\<lambda>scope.
       lift_sum (compute_request_signature (pf_sha (rt_platform rt)) (pf_show (rt_platform rt)) (in_concept_id inp)
         (in_bbox inp) (Some (in_time_range inp)) (map JStr (rq_variables rq)) (JStr (format_of rq (in_caps inp)))
         (if scope = JNull then None else Some (py_str (pf_show (rt_platform rt)) scope))))"

definition discover_plan :: "retrieval_env \<Rightarrow> retrieval_request \<Rightarrow> planning_inputs \<Rightarrow> opendap_plan option op" where
  "discover_plan rt rq inp =
     (if \<not> rq_needs_point_sample rq \<and> (cc_output_shape (in_caps inp) = ''grid'' \<or> cc_output_shape (in_caps inp) = ''swath'')
         \<and> in_bbox inp \<noteq> None
      then e_bind (plan_subset (rt_fromstring rt) (rt_cmr rt (token_of_inputs inp)) (in_caps inp) (in_concept_id inp) (in_bbox inp)
                     (JStr (in_time_range inp)) (map JStr (rq_variables rq))) (\<lambda>p. e_ret (Some p))
      else e_ret None)"

definition check_variables :: "retrieval_env \<Rightarrow> retrieval_request \<Rightarrow> opendap_plan option \<Rightarrow> exn + unit" where
  "check_variables rt rq found =
     (case found of
        None \<Rightarrow> Inr ()
      | Some p \<Rightarrow>
          if rq_needs_variable rq \<and> rq_variables rq \<noteq> []
          then validate_variables (pf_show (rt_platform rt)) (od_cmr_vars p) (rq_variables rq) else Inr ())"

definition plan_of_request :: "retrieval_request \<Rightarrow> planning_inputs \<Rightarrow> exn + retrieval_plan" where
  "plan_of_request rq inp =
     s_bind (if in_time_range inp = [] then Inr None else s_bind (from_cmr (in_time_range inp)) (\<lambda>r. Inr (Some r))) (\<lambda>tr.
       let fmt = JStr (format_of rq (in_caps inp)) in Inr
       \<lparr>rp_output_format = fmt, rp_needs_bbox = rq_needs_bbox rq, rp_needs_variable = rq_needs_variable rq,
        rp_needs_temporal = rq_needs_temporal rq, rp_needs_shape = False, rp_needs_dimension = False,
        rp_needs_reproject = False, rp_needs_point_sample = rq_needs_point_sample rq, rp_concept_id = in_concept_id inp,
        rp_short_name = cc_short_name (in_caps inp),
        rp_aoi = (case in_bbox inp of None \<Rightarrow> None | Some b \<Rightarrow> Some \<lparr>aoi_bbox = Some b, aoi_geojson = JNull\<rparr>),
        rp_time_range = tr,
        rp_transform = (if rq_variables rq = [] then None
                        else Some \<lparr>ts_output_format = fmt, ts_variables = map JStr (rq_variables rq),
                                   ts_reproject = JNull, ts_resample = JNull\<rparr>)\<rparr>)"

text \<open>What the discovery adds to the spec, or the defaults where there was none.\<close>

definition extras_of :: "retrieval_request \<Rightarrow> planning_inputs \<Rightarrow> opendap_plan option \<Rightarrow> spec_extras" where
  "extras_of rq inp found =
     (case found of
        None \<Rightarrow>
          \<lparr>sx_time_range = JStr (in_time_range inp), sx_variables = Some (map JStr (rq_variables rq)), sx_opendap_urls = [],
           sx_coord_lat = JNull, sx_coord_lon = JNull, sx_coord_time = JNull, sx_lat_axis = None, sx_lon_axis = None,
           sx_var_dims = [], sx_var_coords = [], sx_variable_expansions = []\<rparr>
      | Some p \<Rightarrow>
          let some = (od_urls p \<noteq> []) in
          \<lparr>sx_time_range = JStr (in_time_range inp), sx_variables = Some (od_variables p), sx_opendap_urls = od_urls p,
           sx_coord_lat = (if some then od_coord_lat p else JNull), sx_coord_lon = (if some then od_coord_lon p else JNull),
           sx_coord_time = (if some then od_coord_time p else JNull), sx_lat_axis = od_lat_axis p, sx_lon_axis = od_lon_axis p,
           sx_var_dims = od_var_dims p, sx_var_coords = od_var_coords p, sx_variable_expansions = od_variable_expansions p\<rparr>)"

definition opendap_of_plan :: "retrieval_env \<Rightarrow> planning_inputs \<Rightarrow> opendap_plan \<Rightarrow> opendap_provider" where
  "opendap_of_plan rt inp p =
     (rt_opendap rt)\<lparr>dp_caps := in_caps inp,
        dp_urls := map (rstrip_char CHR ''/'') (filter (\<lambda>u. u \<noteq> []) (concat (map (\<lambda>u. case u of JStr s \<Rightarrow> [s] | _ \<Rightarrow> []) (od_urls p)))),
        dp_coord_lat := od_coord_lat p, dp_coord_lon := od_coord_lon p, dp_coord_time := od_coord_time p,
        dp_lat_axis := od_lat_axis p, dp_lon_axis := od_lon_axis p, dp_var_dims := od_var_dims p,
        dp_var_coords := od_var_coords p, dp_edl_token := None\<rparr>"

definition router_of :: "retrieval_env \<Rightarrow> planning_inputs \<Rightarrow> opendap_plan option \<Rightarrow> router" where
  "router_of rt inp found =
     \<lparr>ro_caps = in_caps inp, ro_harmony = True,
      ro_opendap = (case found of
                      Some p \<Rightarrow> if od_urls p = [] then None else Some (opendap_can_handle (opendap_of_plan rt inp p))
                    | None \<Rightarrow> None),
      ro_appeears = Some appeears_can_handle, ro_s3_direct_enabled = rt_s3_direct_enabled rt,
      ro_aws_region = rt_aws_region rt, ro_aws_default_region = rt_aws_default_region rt\<rparr>"

definition check_appeears_catalog :: "string set \<Rightarrow> appeears_provider \<Rightarrow> string set op" where
  "check_appeears_catalog known p =
     (let product = product_id p in
      if product \<in> known then e_ret known
      else
        e_seq (e_catch (check_product_in_catalog p)
                 (\<lambda>e. case e of RuntimeError m \<Rightarrow> e_raise (ValueError m) | _ \<Rightarrow> e_raise e))
          (e_ret (insert product known)))"

text \<open>A routed plan, ready to be stored.\<close>

record routed_plan =
  pl_plan :: retrieval_plan
  pl_decision :: routing_decision
  pl_extras :: spec_extras

definition plan_retrieval :: "retrieval_env \<Rightarrow> retrieval_request \<Rightarrow> planning_inputs \<Rightarrow> routed_plan op" where
  "plan_retrieval rt rq inp =
     e_bind (discover_plan rt rq inp) (\<lambda>found.
     e_bind (lift_sum (check_variables rt rq found)) (\<lambda>_.
     e_bind (lift_sum (plan_of_request rq inp)) (\<lambda>plan.
     e_bind (lift_sum (route (router_of rt inp found) plan)) (\<lambda>decision.
     e_bind (if rd_path decision = ''appeears''
             then e_bind (check_appeears_catalog (rt_catalog_cache rt) (rt_appeears rt (in_caps inp) (token_of_inputs inp)))
                    (\<lambda>_. e_ret ())
             else e_ret ()) (\<lambda>_.
       e_ret \<lparr>pl_plan = plan, pl_decision = decision, pl_extras = extras_of rq inp found\<rparr>)))))"

section \<open>Persisting\<close>

text \<open>The handle of the result: a fresh one, the winner's slot, or the answer of an equal request.\<close>

definition claim_obs_handle ::
  "retrieval_env \<Rightarrow> retrieval_request \<Rightarrow> string option \<Rightarrow> string option \<Rightarrow> (dict + string) op" where
  "claim_obs_handle rt rq signature token =
     (case signature of
        None \<Rightarrow> e_bind (op_put_handle (rq_workspace_id rq) OBS [(''status'', JStr ''pending'')]) (\<lambda>h. e_ret (Inr h))
      | Some sig \<Rightarrow>
          e_bind (op_put_handle_unique_signature (rq_workspace_id rq) OBS
                    [(''status'', JStr ''pending''), (''signature'', JStr sig)]) (\<lambda>(row, created).
            if created then e_ret (Inr (h_handle row))
            else
              e_bind (await_reuse_after_conflict rt (rq_workspace_id rq) row sig token) (\<lambda>reused.
                case reused of
                  Some r \<Rightarrow> e_ret (Inl r)
                | None \<Rightarrow>
                    e_bind (op_update_handle (rq_workspace_id rq) (h_handle row) [(''status'', JStr ''pending'')]) (\<lambda>_.
                      e_ret (Inr (h_handle row))))))"

definition persist_job ::
  "retrieval_env \<Rightarrow> retrieval_request \<Rightarrow> planning_inputs \<Rightarrow> routed_plan \<Rightarrow> string \<Rightarrow> dict op" where
  "persist_job rt rq inp pl obs_handle =
     (let ws = rq_workspace_id rq; path = rd_path (pl_decision pl) in
      e_seq (op_record_event ws obs_handle E_ROUTED (rd_trace (pl_decision pl)))
     (e_bind (op_put_handle ws JOB
                [(''obs_handle'', JStr obs_handle), (''dataset_handle'', JStr (rq_dataset_handle rq))]) (\<lambda>job_handle.
      e_bind (lift_sum (from_plan (pf_sha (rt_platform rt)) (pf_show (rt_platform rt)) (pl_plan pl) (pl_decision pl)
                (in_caps inp) ws job_handle obs_handle (pl_extras pl))) (\<lambda>spec.
      e_bind draw_token (\<lambda>job_id.
      e_bind (lift_sum (case in_identity inp of
                          None \<Rightarrow> Inr None
                        | Some i \<Rightarrow> s_bind (encrypt_credential (rt_platform rt) (rt_credential_key rt) (id_token i))
                                     (\<lambda>c. Inr (Some c)))) (\<lambda>cred.
      e_seq (op_create_job job_id job_handle (Some obs_handle) path (to_jsonb spec) cred False)
     (e_seq (op_record_edge ws obs_handle (rq_dataset_handle rq) (Some (to_jsonb spec)) None)
     (e_seq (op_enqueue ''submit_job'' job_id None None)
       (e_ret (retrieval_response (JStr job_handle) (JStr obs_handle) (JStr (state_value PENDING)) (JStr path)))))))))))"

text \<open>After the look for an equal request: plan, claim the handle, persist.\<close>

definition submit_planned :: "retrieval_env \<Rightarrow> retrieval_request \<Rightarrow> planning_inputs \<Rightarrow> string option \<Rightarrow> dict op" where
  "submit_planned rt rq inp signature =
     e_bind (plan_retrieval rt rq inp) (\<lambda>pl.
     e_bind (claim_obs_handle rt rq signature (token_of_inputs inp)) (\<lambda>claim.
       case claim of
         Inl r \<Rightarrow> e_ret r
       | Inr obs_handle \<Rightarrow> persist_job rt rq inp pl obs_handle))"

definition submit_signed :: "retrieval_env \<Rightarrow> retrieval_request \<Rightarrow> planning_inputs \<Rightarrow> string option \<Rightarrow> dict op" where
  "submit_signed rt rq inp signature =
     e_bind (case signature of
               None \<Rightarrow> e_ret None
             | Some sig \<Rightarrow> check_reuse rt (rq_workspace_id rq) sig (token_of_inputs inp)) (\<lambda>reused.
       case reused of
         Some r \<Rightarrow> e_ret r
       | None \<Rightarrow> submit_planned rt rq inp signature)"

definition submit_retrieval :: "retrieval_env \<Rightarrow> retrieval_request \<Rightarrow> dict op" where
  "submit_retrieval rt rq =
     e_bind (retrieval_inputs rt rq) (\<lambda>inp.
     e_bind (if rq_dedupe rq then e_bind (request_signature rt rq inp) (\<lambda>s. e_ret (Some s)) else e_ret None)
       (submit_signed rt rq inp))"

section \<open>The three tools\<close>

definition retrieve_data ::
  "retrieval_env \<Rightarrow> string \<Rightarrow> string \<Rightarrow> string \<Rightarrow> string \<Rightarrow> string option \<Rightarrow> string option \<Rightarrow> dict op" where
  "retrieve_data rt dataset_handle aoi_handle time_range ws fmt edl_token =
     submit_retrieval rt
       \<lparr>rq_dataset_handle = dataset_handle, rq_aoi_handle = Some aoi_handle, rq_time_range = time_range, rq_variables = [],
        rq_workspace_id = ws, rq_output_format = fmt, rq_needs_bbox = True, rq_needs_variable = False,
        rq_needs_temporal = True, rq_needs_point_sample = False, rq_dedupe = False, rq_edl_token = edl_token\<rparr>"

definition retrieve_subset ::
  "retrieval_env \<Rightarrow> string \<Rightarrow> string \<Rightarrow> string \<Rightarrow> string list \<Rightarrow> string \<Rightarrow> string option \<Rightarrow> string option \<Rightarrow> dict op" where
  "retrieve_subset rt dataset_handle aoi_handle time_range variables ws fmt edl_token =
     submit_retrieval rt
       \<lparr>rq_dataset_handle = dataset_handle, rq_aoi_handle = Some aoi_handle, rq_time_range = time_range,
        rq_variables = variables, rq_workspace_id = ws, rq_output_format = fmt, rq_needs_bbox = True,
        rq_needs_variable = True, rq_needs_temporal = True, rq_needs_point_sample = False, rq_dedupe = True,
        rq_edl_token = edl_token\<rparr>"

definition retrieve_timeseries ::
  "retrieval_env \<Rightarrow> string \<Rightarrow> string \<Rightarrow> string list \<Rightarrow> string \<Rightarrow> string option \<Rightarrow> string option \<Rightarrow> bool \<Rightarrow> string option
   \<Rightarrow> dict op" where
  "retrieve_timeseries rt dataset_handle time_range variables ws fmt aoi_handle point_sample edl_token =
     submit_retrieval rt
       \<lparr>rq_dataset_handle = dataset_handle, rq_aoi_handle = aoi_handle, rq_time_range = time_range,
        rq_variables = variables, rq_workspace_id = ws, rq_output_format = fmt,
        rq_needs_bbox = (aoi_handle \<noteq> None \<and> \<not> point_sample), rq_needs_variable = True, rq_needs_temporal = True,
        rq_needs_point_sample = point_sample, rq_dedupe = False, rq_edl_token = edl_token\<rparr>"

section \<open>Planning writes nothing\<close>

text \<open>Services that reach none of the server's tables.\<close>

definition services_aside :: "retrieval_env \<Rightarrow> bool" where
  "services_aside rt \<longleftrightarrow> (\<forall>t. cmr_aside (rt_cmr rt t)) \<and> (\<forall>c t. appeears_aside (rt_appeears rt c t))"

lemma tables_inputs: "services_aside rt \<Longrightarrow> keeps same_tables (retrieval_inputs rt rq)"
  unfolding retrieval_inputs_def resolve_handles_def
  by (intro keeps_tables tables_capabilities) (auto simp: services_aside_def)

lemma tables_signature: "keeps same_tables (request_signature rt rq inp)"
  unfolding request_signature_def reuse_identity_scope_def by (intro keeps_tables)

lemma tables_catalog: "appeears_aside p \<Longrightarrow> keeps same_tables (check_appeears_catalog known p)"
  unfolding check_appeears_catalog_def Let_def
  by (intro keeps_tables tables_check_product) (auto intro!: keeps_tables split: exn.split)

lemma tables_plan_retrieval: "services_aside rt \<Longrightarrow> keeps same_tables (plan_retrieval rt rq inp)"
  unfolding plan_retrieval_def discover_plan_def
  by (intro keeps_tables tables_plan_subset tables_catalog) (auto simp: services_aside_def)

text \<open>The whole of planning, for a request that looks for no equal one.\<close>

definition planning :: "retrieval_env \<Rightarrow> retrieval_request \<Rightarrow> (planning_inputs \<times> routed_plan) op" where
  "planning rt rq =
     e_bind (retrieval_inputs rt rq) (\<lambda>inp. e_bind (plan_retrieval rt rq inp) (\<lambda>pl. e_ret (inp, pl)))"

lemma planning_refuses:
  assumes "services_aside rt" and "\<not> rq_dedupe rq" and "fst (planning rt rq w) = Inl e"
  shows "\<exists>w'. submit_retrieval rt rq w = (Inl e, w') \<and> same_tables w w'"
proof -
  have k: "keeps same_tables (planning rt rq)"
    unfolding planning_def by (intro keeps_tables tables_inputs tables_plan_retrieval assms(1))
  have "submit_retrieval rt rq w = (Inl e, snd (planning rt rq w))"
    using assms(2,3)
    by (auto simp: submit_retrieval_def submit_signed_def submit_planned_def planning_def e_bind_run e_ret_run
        split: prod.splits sum.splits)
  then show ?thesis using k by (simp add: keeps_def)
qed

section \<open>What a submission leaves\<close>

definition credential_for :: "retrieval_env \<Rightarrow> edl_identity option \<Rightarrow> exn + string option" where
  "credential_for rt identity =
     (case identity of
        None \<Rightarrow> Inr None
      | Some i \<Rightarrow> s_bind (encrypt_credential (rt_platform rt) (rt_credential_key rt) (id_token i)) (\<lambda>c. Inr (Some c)))"

definition edge_recorded :: "string \<Rightarrow> string \<Rightarrow> string \<Rightarrow> dict \<Rightarrow> world \<Rightarrow> bool" where
  "edge_recorded ws target source spec w \<longleftrightarrow>
     (\<exists>e ss. e \<in> set (w_edges w) \<and> e_workspace_id e = ws \<and> e_target e = target \<and> e_source e = source
        \<and> e_request_spec e = Some (redact_dict ss spec))"

text \<open>One new pending job under a spec that names it, and one task that names it by its id.\<close>

definition submitted_as ::
  "retrieval_request \<Rightarrow> (exn + string option) \<Rightarrow> world \<Rightarrow> dict \<Rightarrow> world \<Rightarrow> bool" where
  "submitted_as rq cred_of w r w' \<longleftrightarrow>
     (\<exists>j obs spec cred. queued_from w j w' \<and> cred_of = Inr cred
        \<and> fresh_job (j_id j) (j_handle j) obs (j_provider j) (to_jsonb spec) cred j
        \<and> r = retrieval_response (JStr (j_handle j)) (JStr obs) (JStr ''pending'') (JStr (j_provider j))
        \<and> rs_workspace_id spec = JStr (rq_workspace_id rq) \<and> rs_job_handle spec = JStr (j_handle j)
        \<and> rs_obs_handle spec = JStr obs \<and> rs_provider spec = JStr (j_provider j)
        \<and> edge_recorded (rq_workspace_id rq) obs (rq_dataset_handle rq) (to_jsonb spec) w')"

lemma from_plan_names:
  "from_plan sha sh plan d caps ws jh oh x = Inr spec \<Longrightarrow>
     rs_workspace_id spec = JStr ws \<and> rs_job_handle spec = JStr jh \<and> rs_obs_handle spec = JStr oh
     \<and> rs_provider spec = JStr (rd_path d)"
  by (auto simp: from_plan_def Let_def sum_simps)

lemma edge_recorded_mono: "edge_recorded ws t s spec w \<Longrightarrow> set (w_edges w) \<subseteq> set (w_edges w') \<Longrightarrow> edge_recorded ws t s spec w'"
  unfolding edge_recorded_def by blast

lemma record_edge_recorded:
  assumes "record_edge ss now ws target source (Some spec) g (w_edges w) = Inr es"
  shows "edge_recorded ws target source spec (w\<lparr>w_edges := es\<rparr>)"
  using record_edge_Inr [OF assms]
  by (auto simp: edge_recorded_def intro!: exI [of _ "last es"])

lemma wp_record_created:
  assumes "created_from w0 j w"
  shows "wp_partial (op_record_edge ws target source (Some spec) g)
    (\<lambda>_ t. created_from w0 j t \<and> edge_recorded ws target source spec t) w"
  unfolding op_record_edge_def
  by (rule wp_partial_io)
    (use assms in \<open>auto simp: created_from_def dest: stepped_fields intro: record_edge_recorded split: sum.splits\<close>)

lemma wp_queue_recorded:
  assumes "created_from w0 j w \<and> edge_recorded ws target source spec w" and "j_id j = i"
  shows "wp_partial (op_enqueue ''submit_job'' i None None)
    (\<lambda>_ t. queued_from w0 j t \<and> edge_recorded ws target source spec t) w"
proof -
  have "wp_partial (op_enqueue ''submit_job'' i None None) (\<lambda>_. edge_recorded ws target source spec) w"
    unfolding op_enqueue_def
    by (rule wp_partial_io) (use assms(1) in \<open>auto intro!: edge_recorded_mono [of _ _ _ _ w] dest: stepped_fields\<close>)
  from wp_conj [OF wp_queue_created [OF conjunct1 [OF assms(1)] assms(2)] this] show ?thesis by simp
qed

lemma wp_persist:
  assumes "same_work w0 w"
  shows "wp_partial (persist_job rt rq inp pl obs) (submitted_as rq (credential_for rt (in_identity inp)) w0) w"
  unfolding persist_job_def Let_def e_seq_def [of "op_record_event ws h ty d" for ws h ty d] credential_for_def [symmetric]
  apply (rule wp_work [OF _ assms], intro keeps_work)
  apply (rule wp_work, intro keeps_work, assumption)
  apply (rule wp_bind_lift)
  apply (rule wp_work, intro keeps_work, assumption)
  apply (rule wp_bind_lift)
  apply (rule wp_seq_post [OF wp_create_fresh], assumption)
  apply clarify
  apply (rule wp_seq_post [OF wp_record_created], assumption)
  apply (rule wp_seq_post [OF wp_queue_recorded], assumption)
   apply (simp add: fresh_job_def)
  apply (simp add: wp_ret submitted_as_def)
  apply (intro exI conjI)
  apply (auto simp: fresh_job_def dest: from_plan_names)
  done

definition told_reused :: "dict \<Rightarrow> bool" where
  "told_reused r \<longleftrightarrow> jget r ''reused'' = JBool True"

text \<open>After a look for an equal request: no work was added, or an answer says that it was found.\<close>

definition reuse_post :: "world \<Rightarrow> dict option \<Rightarrow> world \<Rightarrow> bool" where
  "reuse_post w0 ans w \<longleftrightarrow> (case ans of None \<Rightarrow> same_work w0 w | Some r \<Rightarrow> told_reused r)"

lemma reuse_post_simps [simp]:
  "reuse_post w0 None w = same_work w0 w" "reuse_post w0 (Some r) w = told_reused r"
  by (simp_all add: reuse_post_def)

lemma answered_cases: "answered rt m t w ans w' \<Longrightarrow> reuse_post w ans w'"
  by (cases ans) (auto simp: answered_def Let_def told_reused_def)

lemma wp_response:
  assumes "same_work w0 w"
  shows "wp_partial (reuse_response_for_match rt ws m sig t) (reuse_post w0) w"
proof (rule wp_mono [OF wp_reuse_response])
  fix ans w'
  assume "answered rt m t w ans w'"
  then have "reuse_post w ans w'" by (rule answered_cases)
  then show "reuse_post w0 ans w'" by (cases ans) (auto intro: work.R_trans [OF assms])
qed simp

lemma wp_check_reuse:
  "wp_partial (check_reuse rt ws sig t) (reuse_post w) w"
  unfolding check_reuse_def op_find_handle_def wp_bind [of "e_read f" for f]
proof (rule wp_partial_read)
  fix w1 found
  assume "stepped w w1"
  then have "same_work w w1" by (rule stepped_work)
  then show "wp_partial (case found of None \<Rightarrow> e_ret None | Some m \<Rightarrow> reuse_response_for_match rt ws m sig t)
      (reuse_post w) w1"
    using wp_response [of w w1] by (cases found) (simp_all add: wp_ret)
qed

lemma wp_attempts:
  assumes "keeps same_work sleep"
    and "\<And>w. same_work w0 w \<Longrightarrow> wp_partial m (reuse_post w0) w"
  shows "same_work w0 w \<Longrightarrow>
    wp_partial (race_attempts sleep m n) (reuse_post w0) w"
proof (induction n arbitrary: w)
  case 0
  then show ?case by (simp add: wp_ret)
next
  case (Suc n)
  have pause: "keeps same_work (e_when (0 < n) sleep)" by (rule work.keeps_when [OF assms(1)])
  have again: "wp_partial (e_seq (e_when (0 < n) sleep) (race_attempts sleep m n))
      (reuse_post w0) t" if "same_work w0 t" for t
    unfolding e_seq_def by (rule wp_work [OF pause that Suc.IH])
  show ?case
    unfolding race_attempts.simps
  proof (rule wp_bind_post [OF assms(2) [OF Suc.prems]])
    fix ans t
    assume "reuse_post w0 ans t"
    then show "wp_partial (case ans of Some r \<Rightarrow> e_ret (Some r)
        | None \<Rightarrow> e_seq (e_when (0 < n) sleep) (race_attempts sleep m n)) (reuse_post w0) t"
      using again by (cases ans) (simp_all add: wp_ret)
  qed
qed

lemma wp_claim:
  assumes "same_work w0 w" and "keeps same_work (rt_sleep rt)"
  shows "wp_partial (claim_obs_handle rt rq signature t)
    (\<lambda>c w'. case c of Inr h \<Rightarrow> same_work w0 w' | Inl r \<Rightarrow> told_reused r \<and> signature \<noteq> None) w"
proof (cases signature)
  case None
  show ?thesis
    unfolding claim_obs_handle_def None option.case
    by (rule wp_work [OF _ assms(1)]) (auto simp: wp_ret intro: keeps_work)
next
  case (Some sig)
  have settle: "wp_partial (case reused of
                  Some r \<Rightarrow> e_ret (Inl r)
                | None \<Rightarrow>
                    e_bind (op_update_handle (rq_workspace_id rq) (h_handle row) [(''status'', JStr ''pending'')]) (\<lambda>_.
                      e_ret (Inr (h_handle row))))
      (\<lambda>c w'. case c of Inr h \<Rightarrow> same_work w0 w' | Inl r \<Rightarrow> told_reused r) w1"
    if "reuse_post w0 reused w1" for reused and row :: handle_row and w1
  proof (cases reused)
    case None
    then have "same_work w0 w1" using that by simp
    then show ?thesis
      unfolding None option.case by (rule wp_work [rotated]) (auto simp: wp_ret intro: keeps_work)
  qed (use that in \<open>simp add: wp_ret\<close>)
  have "wp_partial (claim_obs_handle rt rq signature t)
      (\<lambda>c w'. case c of Inr h \<Rightarrow> same_work w0 w' | Inl r \<Rightarrow> told_reused r) w"
    unfolding claim_obs_handle_def Some option.case
  proof (rule wp_work [OF work_ops(3) assms(1)], clarify, rule wp_if)
    fix row :: handle_row and created and w1 :: world
    assume w1: "same_work w0 w1"
    show "wp_partial (e_ret (Inr (h_handle row))) (\<lambda>c w'. case c of Inr h \<Rightarrow> same_work w0 w' | Inl r \<Rightarrow> told_reused r) w1"
      using w1 by (simp add: wp_ret)
    show "wp_partial (e_bind (await_reuse_after_conflict rt (rq_workspace_id rq) row sig t) (\<lambda>reused.
                case reused of
                  Some r \<Rightarrow> e_ret (Inl r)
                | None \<Rightarrow>
                    e_bind (op_update_handle (rq_workspace_id rq) (h_handle row) [(''status'', JStr ''pending'')]) (\<lambda>_.
                      e_ret (Inr (h_handle row)))))
        (\<lambda>c w'. case c of Inr h \<Rightarrow> same_work w0 w' | Inl r \<Rightarrow> told_reused r) w1"
      unfolding await_reuse_after_conflict_def
      by (rule wp_bind_post [OF wp_attempts [OF assms(2) wp_response w1]], assumption, rule settle)
  qed
  then show ?thesis unfolding Some by (rule wp_mono) (auto split: sum.splits)
qed

text \<open>The identity a token stands for when the call begins.\<close>

definition identity_at :: "retrieval_env \<Rightarrow> retrieval_request \<Rightarrow> world \<Rightarrow> exn + edl_identity option" where
  "identity_at rt rq w = fst (parse_edl_token (rt_platform rt) (w_now w) (rq_edl_token rq) (w_secrets w))"

lemma wp_inputs:
  assumes "services_aside rt"
  shows "wp_partial (retrieval_inputs rt rq) (\<lambda>inp w'. same_work w w' \<and> identity_at rt rq w = Inr (in_identity inp)) w"
proof -
  have parse: "wp_partial (op_parse_token (rt_platform rt) (rq_edl_token rq)) (\<lambda>i w'. identity_at rt rq w = Inr i) w"
    by (auto simp: wp_def op_parse_token_def identity_at_def split: prod.splits sum.splits)
  have "wp_partial (retrieval_inputs rt rq) (\<lambda>inp w'. identity_at rt rq w = Inr (in_identity inp)) w"
    unfolding retrieval_inputs_def
    by (rule wp_bind_post [OF parse], intro wp_bind_lift wp_bind_any, clarify, rule wp_bind_any) (simp add: wp_ret)
  from wp_conj [OF wp_keeps [OF tables_work [OF tables_inputs [OF assms]]] this] show ?thesis by (rule wp_mono) auto
qed

definition submission_post :: "retrieval_env \<Rightarrow> retrieval_request \<Rightarrow> world \<Rightarrow> dict \<Rightarrow> world \<Rightarrow> bool" where
  "submission_post rt rq w r w' \<longleftrightarrow>
     rq_dedupe rq \<and> told_reused r
     \<or> submitted_as rq (s_bind (identity_at rt rq w) (credential_for rt)) w r w'"

lemma wp_submit:
  assumes "services_aside rt" and "keeps same_work (rt_sleep rt)"
  shows "wp_partial (submit_retrieval rt rq) (submission_post rt rq w) w"
  unfolding submit_retrieval_def
proof (rule wp_bind_post [OF wp_inputs [OF assms(1)]])
  fix inp :: planning_inputs and w1
  assume a: "same_work w w1 \<and> identity_at rt rq w = Inr (in_identity inp)"
  then have w1: "same_work w w1" and cred: "s_bind (identity_at rt rq w) (credential_for rt) = credential_for rt (in_identity inp)"
    by simp_all
  have persist: "wp_partial (persist_job rt rq inp pl h) (submission_post rt rq w) t" if "same_work w t" for pl h t
    using wp_persist [OF that, of rt rq inp pl h] unfolding submission_post_def cred
    by (rule wp_mono) auto
  have late: "wp_partial (submit_planned rt rq inp signature) (submission_post rt rq w) t"
    if t: "same_work w t" and sig: "signature \<noteq> None \<longrightarrow> rq_dedupe rq" for signature t
    unfolding submit_planned_def
  proof (rule wp_work [OF tables_work [OF tables_plan_retrieval [OF assms(1)]] t], rule wp_bind_post [OF wp_claim [OF _ assms(2)]], assumption)
    fix pl and claim :: "dict + string" and t1 t2 :: world
    assume "case claim of Inl r \<Rightarrow> told_reused r \<and> signature \<noteq> None | Inr h \<Rightarrow> same_work w t2"
    then show "wp_partial (case claim of Inl r \<Rightarrow> e_ret r | Inr obs_handle \<Rightarrow> persist_job rt rq inp pl obs_handle)
        (submission_post rt rq w) t2"
      using persist sig by (cases claim) (auto simp: wp_ret submission_post_def)
  qed
  have signed: "wp_partial (submit_signed rt rq inp signature) (submission_post rt rq w) t"
    if s: "same_work w t \<and> (signature \<noteq> None \<longrightarrow> rq_dedupe rq)" for signature t
    unfolding submit_signed_def
  proof (rule wp_bind_post)
    show "wp_partial (case signature of None \<Rightarrow> e_ret None
             | Some sig \<Rightarrow> check_reuse rt (rq_workspace_id rq) sig (token_of_inputs inp))
        (\<lambda>ans t'. reuse_post t ans t' \<and> (ans \<noteq> None \<longrightarrow> rq_dedupe rq)) t"
      using s by (cases signature) (auto simp: wp_ret work.R_refl intro: wp_mono [OF wp_check_reuse])
    fix ans t'
    assume r: "reuse_post t ans t' \<and> (ans \<noteq> None \<longrightarrow> rq_dedupe rq)"
    show "wp_partial (case ans of Some r \<Rightarrow> e_ret r | None \<Rightarrow> submit_planned rt rq inp signature) (submission_post rt rq w) t'"
    proof (cases ans)
      case None
      then have "same_work w t'" using r s work.R_trans by auto
      then show ?thesis using late s None by simp
    qed (use r in \<open>auto simp: wp_ret submission_post_def\<close>)
  qed
  have sign: "wp_partial (if rq_dedupe rq then e_bind (request_signature rt rq inp) (\<lambda>s. e_ret (Some s)) else e_ret None)
      (\<lambda>signature t. same_work w t \<and> (signature \<noteq> None \<longrightarrow> rq_dedupe rq)) w1"
    by (rule wp_if, rule wp_work [OF tables_work [OF tables_signature] w1]) (use w1 in \<open>auto simp: wp_ret\<close>)
  show "wp_partial (e_bind (if rq_dedupe rq then e_bind (request_signature rt rq inp) (\<lambda>s. e_ret (Some s)) else e_ret None)
      (submit_signed rt rq inp)) (submission_post rt rq w) w1"
    by (rule wp_bind_post [OF sign]) (rule signed)
qed


definition retrieval_world :: world where
  "retrieval_world = initial_world\<lparr>
     w_handles := [\<lparr>h_handle = ''dataset_1'', h_workspace_id = ''ws'', h_type = DATASET,
                    h_payload = [(''concept_id'', JStr ''C1'')], h_created_at = 0, h_updated_at = 0,
                    h_last_accessed_at = None\<rparr>]\<rparr>"

definition sample_request :: retrieval_request where
  "sample_request =
     \<lparr>rq_dataset_handle = ''dataset_1'', rq_aoi_handle = None, rq_time_range = ''2024-02-28/2024-02-29'',
      rq_variables = [''rain''], rq_workspace_id = ''ws'', rq_output_format = None, rq_needs_bbox = False,
      rq_needs_variable = True, rq_needs_temporal = True, rq_needs_point_sample = False, rq_dedupe = False,
      rq_edl_token = Some ''a.e.c''\<rparr>"

lemma sample_submits:
  "fst (submit_retrieval sample_retrieval sample_request retrieval_world) =
     Inr [(''job_handle'', JStr ''job_1''), (''obs_handle'', JStr ''obs_0''), (''status'', JStr ''pending''),
          (''provider'', JStr ''harmony'')]"
  by code_simp

lemma sample_services_aside: "services_aside sample_retrieval"
  by (auto simp: services_aside_def cmr_aside_def appeears_aside_def sample_retrieval_def sample_cmr_def
      sample_appeears_def intro: tables.keeps_intros)


section \<open>What the tools keep\<close>

lemma keeps_claim: "keeps evolves (rt_sleep rt) \<Longrightarrow> keeps evolves (claim_obs_handle rt rq s t)"
  unfolding claim_obs_handle_def by (auto intro!: keeps_evolves keeps_runtime keeps_await split: option.split)

lemma keeps_persist: "keeps evolves (persist_job rt rq inp pl h)"
  unfolding persist_job_def Let_def by (intro keeps_evolves keeps_runtime)

lemma keeps_submit:
  assumes "services_aside rt" and "keeps evolves (rt_sleep rt)"
  shows "keeps evolves (submit_retrieval rt rq)"
  unfolding submit_retrieval_def submit_signed_def submit_planned_def
  by (intro keeps_evolves keeps_tables_evolves [OF tables_inputs] keeps_tables_evolves [OF tables_signature]
      keeps_tables_evolves [OF tables_plan_retrieval] keeps_check_reuse keeps_claim keeps_persist assms)

text \<open>A call of one of the tools.\<close>

datatype tool_call =
    Retrieve_data string string string string "string option" "string option"
  | Retrieve_subset string string string "string list" string "string option" "string option"
  | Retrieve_timeseries string string "string list" string "string option" "string option" bool "string option"
  | Get_retrieval_status string string "string option"
  | Cancel_retrieval string string "string option"

fun run_tool :: "retrieval_env \<Rightarrow> tool_call \<Rightarrow> dict op" where
  "run_tool rt (Retrieve_data d a t ws f k) = retrieve_data rt d a t ws f k"
| "run_tool rt (Retrieve_subset d a t vs ws f k) = retrieve_subset rt d a t vs ws f k"
| "run_tool rt (Retrieve_timeseries d t vs ws f a p k) = retrieve_timeseries rt d t vs ws f a p k"
| "run_tool rt (Get_retrieval_status h ws k) = get_retrieval_status rt h ws k"
| "run_tool rt (Cancel_retrieval h ws k) = cancel_retrieval rt h ws k"

lemma keeps_run_tool:
  assumes "services_aside rt" and "providers_aside rt" and "keeps evolves (rt_sleep rt)"
  shows "keeps evolves (run_tool rt c)"
  by (cases c) (simp_all add: retrieve_data_def retrieve_subset_def retrieve_timeseries_def keeps_submit keeps_status
      keeps_cancel assms)

fun run_tools :: "retrieval_env \<Rightarrow> tool_call list \<Rightarrow> world \<Rightarrow> world" where
  "run_tools rt [] w = w"
| "run_tools rt (c # cs) w = run_tools rt cs (snd (run_tool rt c w))"

text \<open>
  The tools keep the tables well-formed. Whatever is called, in whatever order, with whatever arguments,
  and whatever fails on the way, from well-formed tables every sequence of tool calls leads to well-formed
  ones: job rows keep their identity and move only along legal transitions, a finished job holds no
  credential, handles keep their workspace and kind, no workspace has two results under one signature, and
  recorded lineage and events are only appended to.
\<close>

theorem tools_keep_tables_wellformed:
  assumes "services_aside rt" and "providers_aside rt" and "keeps evolves (rt_sleep rt)" and "world_ok w"
  shows "world_ok (run_tools rt calls w) \<and> jobs_evolve (w_jobs w) (w_jobs (run_tools rt calls w))
    \<and> handles_evolve (w_handles w) (w_handles (run_tools rt calls w))
    \<and> prefix (w_edges w) (w_edges (run_tools rt calls w)) \<and> prefix (w_events w) (w_events (run_tools rt calls w))"
proof -
  have "evolves w (run_tools rt calls w)"
  proof (induction calls arbitrary: w)
    case (Cons c cs)
    have "evolves w (snd (run_tool rt c w))" using keeps_run_tool [OF assms(1-3)] by (simp add: keeps_def)
    then show ?case using Cons.IH evolves.R_trans by simp
  qed (simp add: evolves.R_refl)
  then show ?thesis using assms(4) by (simp add: evolves_def)
qed

lemma retrieval_world_ok: "world_ok retrieval_world"
  by (simp add: world_ok_def retrieval_world_def jobs_ok_def handles_ok_def edges_ok_def initial_world_def signature_of_def)

lemma tools_keep_tables_wellformed_witness:
  "world_ok (run_tools sample_retrieval
     [Retrieve_timeseries ''dataset_1'' ''2024-02-28/2024-02-29'' [''rain''] ''ws'' None None False (Some ''a.e.c''),
      Get_retrieval_status ''job_1'' ''ws'' None, Cancel_retrieval ''job_1'' ''ws'' None] retrieval_world)"
proof -
  have "keeps evolves (rt_sleep sample_retrieval)" by (simp add: sample_retrieval_def evolves.keeps_ret)
  from tools_keep_tables_wellformed [OF sample_services_aside sample_aside this retrieval_world_ok] show ?thesis by blast
qed

end
