(* ===== verification/ToolFrame.thy ===== *)
theory ToolFrame
  imports Area Preview ReadTools ResultTools Retrieval
begin

text \<open>
  What every tool keeps, proved once: a relation on worlds that the table operations of one workspace keep
  is kept by every tool called in that workspace. The locale \<open>tool_frame\<close> is that contract; it is met by the
  relation \<open>evolves\<close> for any workspace and by \<open>confined ws\<close>, under which nothing but rows of the
  workspace \<open>ws\<close> changes.
\<close>

section \<open>The contract\<close>

locale tool_frame = state_preorder R for R :: "world \<Rightarrow> world \<Rightarrow> bool" +
  fixes ws :: string
  assumes R_tables: "same_tables w w' \<Longrightarrow> R w w'"
    and R_put: "keeps R (op_put_handle ws ht p)"
    and R_put_unique: "keeps R (op_put_handle_unique_signature ws ht p)"
    and R_update: "keeps R (op_update_handle ws h p)"
    and R_touch: "keeps R (op_touch_handle ws h)"
    and R_edge: "keeps R (op_record_edge ws target src spec g)"
    and R_event: "keeps R (op_record_event ws h ty d)"
    and R_create: "keeps R (op_create_job i jh obs prov js cred spec')"
    and R_enqueue: "keeps R (op_enqueue n i a defer_by)"
    and R_cancel: "get_handle (w_handles w) ws h = Inr row \<Longrightarrow> R w (snd (op_cancel_row h w))"
begin

lemma tf_tables: "keeps same_tables m \<Longrightarrow> keeps R m"
  by (auto simp: keeps_def intro: R_tables)

lemmas tf_steps =
  keeps_intros R_put R_put_unique R_update R_touch R_edge R_event R_create R_enqueue
  tf_tables [OF tables_read] tf_tables [OF tables_lift] tf_tables [OF tables_draw]
  tf_tables [OF tables_runtime(1)] tf_tables [OF tables_runtime(2)] tf_tables [OF tables_runtime(3)]
  tf_tables [OF tables_runtime(4)] tf_tables [OF tables_runtime(5)] tf_tables [OF tables_runtime(6)]
  tf_tables [OF tables_runtime(7)]

text \<open>Retrieval.\<close>

lemma tf_replay: "keeps R (reenqueue_replay rt h ws j t)"
  unfolding reenqueue_replay_def by (intro tf_steps)

lemma tf_reuse: "keeps R (reuse_response_for_match rt ws m sig t)"
proof -
  have "keeps R (match_result rt ws m job t)" for job
    unfolding match_result_def Let_def by (auto intro!: tf_steps tf_replay split: option.splits)
  then show ?thesis
    unfolding reuse_response_for_match_def promote_if_speculative_def by (intro tf_steps)
qed

lemma tf_check_reuse: "keeps R (check_reuse rt ws sig t)"
  unfolding check_reuse_def by (intro tf_steps tf_reuse)

lemma tf_race: "keeps R sleep \<Longrightarrow> keeps R m \<Longrightarrow> keeps R (race_attempts sleep m n)"
  by (induction n) (auto intro!: tf_steps)

lemma tf_claim:
  assumes "keeps R (rt_sleep rt)" and "rq_workspace_id rq = ws"
  shows "keeps R (claim_obs_handle rt rq s t)"
  unfolding claim_obs_handle_def await_reuse_after_conflict_def assms(2)
  by (intro tf_steps tf_race tf_reuse assms(1))

lemma tf_persist: "rq_workspace_id rq = ws \<Longrightarrow> keeps R (persist_job rt rq inp pl h)"
  unfolding persist_job_def Let_def by (simp only:) (intro tf_steps)

lemma tf_submit:
  assumes "services_aside rt" and "keeps R (rt_sleep rt)" and "rq_workspace_id rq = ws"
  shows "keeps R (submit_retrieval rt rq)"
  unfolding submit_retrieval_def submit_signed_def submit_planned_def assms(3)
  by (intro tf_steps tf_tables [OF tables_inputs] tf_tables [OF tables_signature]
      tf_tables [OF tables_plan_retrieval] tf_check_reuse tf_claim tf_persist assms)

lemma tf_status: "keeps R (get_retrieval_status rt h ws t)"
  unfolding get_retrieval_status_def by (intro tf_steps tf_tables [OF tables_visible])

text \<open>The row of a job is reached only behind a handle the workspace can see.\<close>

lemma visible_row:
  "handle_visible ws h w = (Inr True, w') \<Longrightarrow> \<exists>row. get_handle (w_handles w') ws h = Inr row"
  by (auto simp: handle_visible_def op_get_handle_def e_read_def e_io_def e_catch_run e_bind_run e_ret_run e_raise_run
      split: prod.splits io_fault.splits sum.splits exn.splits)

lemma tf_report_cancel: "providers_aside rt \<Longrightarrow> keeps R (report_cancel rt h i v)"
  unfolding report_cancel_def
  by (auto intro!: tf_steps tf_tables [OF tables_cancel_token] tf_tables [OF tables_attempt_cancel] split: cancel_verdict.split)

lemma tf_cancel:
  assumes "providers_aside rt"
  shows "keeps R (cancel_retrieval rt h ws t)"
proof -
  have "keeps R (e_bind (handle_visible ws h) (\<lambda>visible.
      if \<not> visible then e_ret (not_cancelled h ''not_found'' [(''message'', JStr (NOT_FOUND_MESSAGE h))])
      else e_bind (op_cancel_row h) (report_cancel rt h i)))" (is "keeps R (e_bind _ ?f)") for i
  proof (rule keepsI)
    fix w
    obtain v w1 where run: "handle_visible ws h w = (v, w1)" by fastforce
    have 1: "R w w1" by (rule keepsD [OF tf_tables [OF tables_visible] run])
    have "R w1 (snd (?f True w1))" if yes: "v = Inr True"
    proof -
      obtain row where row: "get_handle (w_handles w1) ws h = Inr row" using visible_row run yes by blast
      obtain c w2 where c: "op_cancel_row h w1 = (c, w2)" by fastforce
      have "R w1 w2" using R_cancel [OF row] by (simp add: c)
      moreover have "R w2 (snd (report_cancel rt h i v w2))" for v
        using tf_report_cancel [OF assms] by (simp add: keeps_def)
      ultimately show ?thesis by (auto simp: e_bind_run c split: sum.split intro: R_trans)
    qed
    then show "R w (snd (e_bind (handle_visible ws h) ?f w))"
      using 1 by (auto simp: e_bind_run run e_ret_run split: sum.split intro: R_trans)
  qed
  note rest = this
  show ?thesis
    unfolding cancel_retrieval_def
    by (rule keeps_bind [OF tf_tables [OF tables_runtime(3)]], rule keeps_bind [OF tf_tables [OF tables_lift]], rule rest)
qed

text \<open>Discovery and areas.\<close>

lemma tf_search:
  assumes "\<And>t. cmr_aside (rt_cmr rt t)"
  shows "keeps R (search_datasets rt cat cache query filters ws tok)"
proof -
  have "keeps R (mint_datasets cat loads ws query filters k cs)" for loads k cs
    by (induction cs arbitrary: k) (auto intro!: tf_steps)
  then show ?thesis
    unfolding search_datasets_def Let_def by (intro tf_steps tf_tables [OF tables_search_collections] assms)
qed

lemma tf_describe:
  assumes "\<And>t. cmr_aside (rt_cmr rt t)"
  shows "keeps R (describe_dataset rt cat h ws detail tok)"
  unfolding describe_dataset_def Let_def
  by (intro tf_steps tf_tables [OF tables_get_variables] tf_tables [OF tables_dmr_paths] assms)

lemma tf_area:
  assumes "\<And>u p h. keeps same_tables (ar_get ar u p h)"
  shows "keeps R (define_area_of_interest ar location ws tok)"
  unfolding define_area_of_interest_def by (intro tf_steps tf_tables [OF tables_resolve_location] assms)

text \<open>Results.\<close>

lemma tf_find: "keeps R (find_result ws h)"
  by (rule tf_tables) (use looked_find [of ws h] in \<open>auto simp: keeps_def looked_def\<close>)

lemma tf_export: "keeps R (export_result rt u h ws t)"
  unfolding export_result_def export_ready_def Let_def
  by (auto intro!: tf_steps tf_find split: option.split)

lemma tf_rematerialize: "keeps R (rematerialize rt h ws t)"
  unfolding rematerialize_def replay_row_def
  by (auto intro!: tf_steps tf_replay tf_find split: option.split)

lemma tf_pin: "keeps R (pin_result rt cap h p ws t)"
proof -
  have size: "keeps R (result_size q)" for q
    unfolding result_size_def by (auto intro!: tf_steps split: option.split exn.split)
  have sizes: "keeps R (sum_sizes rows)" for rows
    by (induction rows) (auto intro: tf_steps size)
  have bytes: "keeps R (pinned_bytes ws h')" for h'
    unfolding pinned_bytes_def op_list_handles_def by (intro tf_steps sizes)
  show ?thesis
    unfolding pin_result_def measure_pin_def commit_pin_def Let_def
    by (auto intro!: tf_steps bytes size tf_find split: option.split)
qed

text \<open>Transforms.\<close>

lemma tables_load_source: "keeps same_tables (load_source tr h ws')"
  unfolding load_source_def op_get_blob_def by (intro keeps_tables)

lemma tables_load_sources: "keeps same_tables (load_sources tr snap ws' hs cs)"
  by (induction hs arbitrary: cs) (auto intro!: keeps_tables tables_load_source)

lemma tf_emit: "keeps R (emit_cube tr result hs spec ws fmt)"
  unfolding emit_cube_def record_cube_def Let_def by (intro tf_steps tf_tables [OF tables_put_blob])

lemma tf_transform: "keeps R (run_transform tr ws tok call)"
proof (cases call)
  case (Subset h aoi vs t)
  then show ?thesis
    by (simp add: subset_tool_def) (intro tf_steps tf_tables [OF tables_load_source] tf_tables [OF tables_aoi_bbox] tf_emit)
next
  case (Reproject h crs)
  then show ?thesis by (simp add: reproject_def) (intro tf_steps tf_tables [OF tables_load_source] tf_emit)
next
  case (Resample h freq f)
  then show ?thesis by (simp add: resample_def Let_def) (intro tf_steps tf_tables [OF tables_load_source] tf_emit)
next
  case (Convert h fmt)
  then show ?thesis by (simp add: convert_format_def) (intro tf_steps tf_tables [OF tables_load_source] tf_emit)
next
  case (Align hs m snap)
  then show ?thesis by (simp only: run_transform.simps align_tool_def) (intro tf_steps tf_tables [OF tables_load_sources] tf_emit)
qed

text \<open>Summaries and statistics write nothing.\<close>

lemma tf_summarize: "keeps R (summarize_dataset st h ws tok)"
  unfolding summarize_dataset_def op_get_blob_def by (intro tf_steps)

lemma tf_statistics: "keeps R (inspect_statistics st addressable h vs ws tok)"
  unfolding inspect_statistics_def stored_statistics_def op_get_blob_def by (auto intro!: tf_steps)

end

text \<open>A preview has the process's cache of layers beside the world.\<close>

definition on_world_rel :: "(world \<Rightarrow> world \<Rightarrow> bool) \<Rightarrow> world \<times> gibs_cache \<Rightarrow> world \<times> gibs_cache \<Rightarrow> bool" where
  "on_world_rel R s t \<longleftrightarrow> R (fst s) (fst t)"

lemma keeps_on_world: "keeps R m \<Longrightarrow> keeps (on_world_rel R) (on_world m)"
  by (auto simp: keeps_def on_world_def on_world_rel_def split: prod.split) (metis snd_conv)

lemma on_world_relD: "keeps (on_world_rel R) m \<Longrightarrow> R (fst s) (fst (snd (m s)))"
  unfolding keeps_def on_world_rel_def by blast

sublocale tool_frame \<subseteq> cached: state_preorder "on_world_rel R"
  by unfold_locales (auto simp: on_world_rel_def intro: R_refl R_trans)

context tool_frame
begin

lemmas tf_cached = cached.keeps_intros keeps_on_world

lemma tf_discover:
  assumes "cmr_aside cp"
  shows "keeps (on_world_rel R) (discover_gibs_layer cp concept_id)"
proof -
  have "keeps (on_world_rel R) (cache_layer c name period)" for c name period
    unfolding cache_layer_def by (rule cached.keeps_modify) (auto simp: on_world_rel_def R_refl)
  then show ?thesis
    unfolding discover_gibs_layer_def cached_layer_def
    by (intro tf_cached tf_steps tf_tables [OF tables_gibs] assms)
qed

lemma tf_choose:
  assumes "cmr_aside cp"
  shows "keeps (on_world_rel R) (choose_layer cp ws h payload short_name layer)"
  unfolding choose_layer_def Let_def by (intro tf_cached tf_steps tf_discover assms)

lemma tf_mint_preview:
  assumes "cmr_aside cp"
  shows "keeps R (mint_preview pv cp ws aoi t c i choice)"
  unfolding mint_preview_def
  by (intro tf_steps tf_tables [OF tables_preview_aoi] tf_tables [OF tables_instant] assms)

lemma tf_preview:
  assumes "\<And>t. cmr_aside (rt_cmr (pv_tools pv) t)"
  shows "keeps (on_world_rel R) (preview_dataset pv h time_range aoi layer ws tok)"
  unfolding preview_dataset_def Let_def
  by (intro tf_cached tf_steps tf_choose tf_mint_preview assms)

end

section \<open>The relations that meet it\<close>

interpretation evolving: tool_frame evolves ws for ws
proof unfold_locales
  show "same_tables w w' \<Longrightarrow> evolves w w'" for w w'
    by (rule tables_evolve)
  show "get_handle (w_handles w) ws h = Inr row \<Longrightarrow> evolves w (snd (op_cancel_row h w))" for w h row
    using keeps_cancel_row by (simp add: keeps_def)
qed (rule keeps_runtime)+

text \<open>
  What a workspace \<open>v\<close> holds in the tables: its handles, the edges and events of its lineage, and the jobs
  behind its handles. A step in the workspace \<open>ws\<close> spares every other one: rows of the first three stay the
  same, in the same order, and every job row stays as it was.
\<close>

definition own_edges :: "string \<Rightarrow> world \<Rightarrow> edge list" where
  "own_edges v w = filter (\<lambda>e. e_workspace_id e = v) (w_edges w)"

definition own_events :: "string \<Rightarrow> world \<Rightarrow> event list" where
  "own_events v w = filter (\<lambda>e. v_workspace_id e = v) (w_events w)"

definition own_jobs :: "string \<Rightarrow> world \<Rightarrow> job list" where
  "own_jobs v w = filter (\<lambda>j. j_handle j \<in> h_handle ` set (ws_view v (w_handles w))) (w_jobs w)"

definition untouched :: "string \<Rightarrow> world \<Rightarrow> world \<Rightarrow> bool" where
  "untouched v w w' \<longleftrightarrow> ws_view v (w_handles w') = ws_view v (w_handles w) \<and> own_edges v w' = own_edges v w
     \<and> own_events v w' = own_events v w \<and> set (own_jobs v w) \<subseteq> set (own_jobs v w')"

definition spares :: "string \<Rightarrow> string \<Rightarrow> world \<Rightarrow> world \<Rightarrow> bool" where
  "spares ws v w w' \<longleftrightarrow> evolves w w' \<and> (world_ok w \<and> v \<noteq> ws \<longrightarrow> untouched v w w')"

lemma untouched_trans: "untouched v w u \<Longrightarrow> untouched v u t \<Longrightarrow> untouched v w t"
  unfolding untouched_def by auto

interpretation sparing: state_preorder "spares ws v" for ws v
proof
  show "spares ws v s s" for s by (simp add: spares_def untouched_def evolves.R_refl)
  show "spares ws v s t \<Longrightarrow> spares ws v t u \<Longrightarrow> spares ws v s u" for s t u
    unfolding spares_def by (meson evolves.R_trans evolves_def untouched_trans)
qed

lemma untouched_tables: "same_tables w w' \<Longrightarrow> untouched v w w'"
  by (simp add: same_tables_def untouched_def own_edges_def own_events_def own_jobs_def)

lemma spares_tables: "same_tables w w' \<Longrightarrow> spares ws v w w'"
  by (simp add: spares_def untouched_tables evolving.R_tables)

lemma sparing_tables: "keeps same_tables m \<Longrightarrow> keeps (spares ws v) m"
  by (auto simp: keeps_def intro: spares_tables)

text \<open>A session that evolves the world and leaves the rows of others spares them, also where it fails.\<close>

lemma sparing_io:
  assumes "keeps evolves (e_io f)"
    and "\<And>w a w'. f w = Inr (a, w') \<Longrightarrow> world_ok w \<Longrightarrow> v \<noteq> ws \<Longrightarrow> untouched v w w'"
  shows "keeps (spares ws v) (e_io f)"
proof (rule keepsI)
  fix w
  obtain flt w1 where n: "next_io w = (flt, w1)" by fastforce
  have 1: "untouched v w w1" by (rule untouched_tables [OF same_tables_next_io [OF n]])
  have ok: "world_ok w \<Longrightarrow> world_ok w1" using evolves_next_io [OF n] by (simp add: evolves_def)
  have "untouched v w (snd (e_io f w))" if "world_ok w" "v \<noteq> ws"
    using assms(2) [of w1, OF _ ok [OF that(1)] that(2)] 1
    by (auto simp: e_io_def n split: io_fault.splits sum.splits intro: untouched_trans)
  moreover have "evolves w (snd (e_io f w))" using assms(1) by (simp add: keeps_def)
  ultimately show "spares ws v w (snd (e_io f w))" by (simp add: spares_def)
qed

lemma untouched_handles:
  "ws_view v t = ws_view v (w_handles w) \<Longrightarrow> untouched v w (w\<lparr>w_handles := t\<rparr>)"
  by (simp add: untouched_def own_edges_def own_events_def own_jobs_def)

lemma untouched_jobs:
  "set (own_jobs v w) \<subseteq> set t \<Longrightarrow> untouched v w (w\<lparr>w_jobs := t\<rparr>)"
  by (auto simp: untouched_def own_edges_def own_events_def own_jobs_def)

text \<open>The job that a cancellation changes is behind a handle of the caller's workspace.\<close>

lemma cancel_spares:
  assumes ok: "world_ok w" and row: "get_handle (w_handles w) ws h = Inr row" and v: "v \<noteq> ws"
    and run: "cancel_row now h (w_jobs w) = Inr (verdict, t)"
  shows "set (own_jobs v w) \<subseteq> set t"
proof (cases "t = w_jobs w")
  case True
  then show ?thesis by (auto simp: own_jobs_def)
next
  case False
  then obtain job j' where j: "get_job_by_handle (w_jobs w) h = Some job" "set_state now job CANCELLED [] = Inr j'"
    "t = commit_job now j' (w_jobs w)"
    using run by (auto simp: cancel_row_def sum_simps split: option.splits if_splits)
  have job: "job \<in> set (w_jobs w)" "j_handle job = h" using j(1) by (auto simp: get_job_by_handle_def find_Some_iff)
  have id: "j_id j' = j_id job" using set_state_ok(3) [OF j(2)] by (simp add: same_job_def)
  show ?thesis
  proof
    fix k
    assume "k \<in> set (own_jobs v w)"
    then obtain r where k: "k \<in> set (w_jobs w)" and r: "r \<in> set (w_handles w)" "h_workspace_id r = v" "j_handle k = h_handle r"
      by (auto simp: own_jobs_def ws_view_def)
    have "k \<noteq> job"
    proof
      assume "k = job"
      then have "row_of_handle (w_handles w) h = Some r"
        using row_of_handle_of_mem [of "w_handles w" r] ok r job(2) by (simp add: world_ok_def)
      then show False using row r(2) v by (simp add: get_handle_Inr_iff)
    qed
    then have "j_id k \<noteq> j_id job"
      using ok k job(1) by (auto simp: world_ok_def jobs_ok_def dest: inj_onD [OF distinct_map [THEN iffD1, THEN conjunct2]])
    then show "k \<in> set t" using k unfolding j(3) commit_job_def row_put_def by (auto simp: id image_iff)
  qed
qed

interpretation spared: tool_frame "spares ws v" ws for ws v
proof unfold_locales
  show "same_tables w w' \<Longrightarrow> spares ws v w w'" for w w' by (rule spares_tables)
  show "keeps (spares ws v) (op_put_handle ws ht p)" for ht p
    unfolding op_put_handle_def
  proof (rule sparing.keeps_bind [OF sparing_tables [OF tables_draw]], rule sparing_io)
    show "keeps evolves (e_io (\<lambda>w. case put_handle (w_now w) tok ws ht p (w_handles w) of
        Inl e \<Rightarrow> Inl e | Inr (h, t) \<Rightarrow> Inr (h, w\<lparr>w_handles := t\<rparr>)))" for tok
      by (rule keeps_io) (auto split: sum.splits intro!: evolves_handles intro: handle_writes store_ok)
  qed (auto split: sum.splits intro!: untouched_handles intro: put_handle_isolated)
  show "keeps (spares ws v) (op_put_handle_unique_signature ws ht p)" for ht p
    unfolding op_put_handle_unique_signature_def
  proof (rule sparing.keeps_bind [OF sparing_tables [OF tables_draw]], rule sparing_io)
    show "keeps evolves (e_io (\<lambda>w. case put_handle_unique_signature (w_now w) tok ws ht p (w_handles w) of
        Inl e \<Rightarrow> Inl e | Inr (r, t) \<Rightarrow> Inr (r, w\<lparr>w_handles := t\<rparr>)))" for tok
      by (rule keeps_io) (auto split: sum.splits intro!: evolves_handles intro: handle_writes store_ok)
  qed (auto split: sum.splits intro!: untouched_handles intro: put_unique_isolated)
  show "keeps (spares ws v) (op_update_handle ws h p)" for h p
    using keeps_update_handle unfolding op_update_handle_def
    by (rule sparing_io) (auto split: sum.splits simp: world_ok_def intro!: untouched_handles intro: update_handle_isolated)
  show "keeps (spares ws v) (op_touch_handle ws h)" for h
    using keeps_touch_handle unfolding op_touch_handle_def
    by (rule sparing_io) (auto split: sum.splits simp: world_ok_def intro!: untouched_handles intro: touch_handle_isolated)
  show "keeps (spares ws v) (op_record_edge ws target src spec g)" for target src spec g
    using keeps_record_edge unfolding op_record_edge_def
    by (rule sparing_io)
      (auto split: sum.splits dest!: record_edge_Inr simp: untouched_def own_edges_def own_events_def own_jobs_def)
  show "keeps (spares ws v) (op_record_event ws h ty d)" for h ty d
    using keeps_record_event unfolding op_record_event_def
    by (rule sparing_io) (auto simp: record_event_def untouched_def own_edges_def own_events_def own_jobs_def)
  show "keeps (spares ws v) (op_create_job i jh obs prov js cred sp)" for i jh obs prov js cred sp
    using keeps_create_job unfolding op_create_job_def
    by (rule sparing_io)
      (auto split: sum.splits if_splits simp: create_job_def row_insert_def intro!: untouched_jobs, auto simp: own_jobs_def)
  show "keeps (spares ws v) (op_enqueue n i a d)" for n i a d
    using keeps_enqueue unfolding op_enqueue_def
    by (rule sparing_io) (auto split: if_splits simp: untouched_def own_edges_def own_events_def own_jobs_def)
  show "spares ws v w (snd (op_cancel_row h w))" if row: "get_handle (w_handles w) ws h = Inr row" for w h row
  proof -
    obtain flt w1 where n: "next_io w = (flt, w1)" by fastforce
    have same: "same_tables w w1" by (rule same_tables_next_io [OF n])
    have ok: "world_ok w \<Longrightarrow> world_ok w1" using evolves_next_io [OF n] by (simp add: evolves_def)
    have row1: "get_handle (w_handles w1) ws h = Inr row" using row same by (simp add: same_tables_def)
    have "untouched v w1 (snd (op_cancel_row h w))" if "world_ok w" "v \<noteq> ws"
      using cancel_spares [OF ok [OF that(1)] row1 that(2)] untouched_tables [OF tables.R_refl, of v w1]
      by (auto simp: op_cancel_row_def e_io_def n intro!: untouched_jobs split: io_fault.splits sum.splits prod.splits)
    then have "untouched v w (snd (op_cancel_row h w))" if "world_ok w" "v \<noteq> ws"
      using that untouched_trans [OF untouched_tables [OF same]] by blast
    then show ?thesis using keeps_cancel_row by (simp add: spares_def keeps_def)
  qed
qed

end
