(* ===== verification/Server.thy ===== *)
theory Server
  imports Settings ToolFrame
begin

text \<open>
  The surface of the server (\<open>server.py\<close>): every registered tool with the defaults of its parameters, as one
  operation on the world and the process's layer cache, and the calls that reach them as a datatype. What
  \<open>FastMCP\<close> does before a handler runs (matching names, converting arguments) is not modelled: a call here has
  arguments of the declared types. The theory shows, over whole sequences of calls of any of the tools, that the tables stay
  well-formed and only advance, and that a call reaches no row of a workspace other than the one it names.
\<close>

section \<open>The environment of the process\<close>

text \<open>
  What the tools build on first call: the collaborators of retrieval and preview, the curated catalog and its
  cached keywords, the location services, the array library behind transforms and statistics, and the
  settings the tools read.
\<close>

record ('d, 't, 'v, 'a, 'c) server_env =
  sv_preview :: preview_env
  sv_catalog :: catalog
  sv_keyword_cache :: "string option"
  sv_area :: area_services
  sv_transform :: "('d, 't, 'v) transform_env"
  sv_stats :: "('d, 't, 'v, 'a, 'c) stats_env"
  sv_path_addressable :: bool
  sv_size_warning_threshold :: rat
  sv_pinned_bytes_max :: int
  sv_as_uri :: "path \<Rightarrow> string"

abbreviation sv_tools :: "('d, 't, 'v, 'a, 'c) server_env \<Rightarrow> retrieval_env" where
  "sv_tools e \<equiv> pv_tools (sv_preview e)"

text \<open>
  An argument that was not passed takes the default of its parameter; the one of \<open>workspace_id\<close> is
  \<open>DEFAULT_WORKSPACE\<close>.
\<close>

definition or_default :: "'a \<Rightarrow> 'a option \<Rightarrow> 'a" where
  "or_default d x = (case x of None \<Rightarrow> d | Some a \<Rightarrow> a)"

lemma or_default_simps [simp]: "or_default d None = d" "or_default d (Some a) = a"
  by (simp_all add: or_default_def)

section \<open>The handlers\<close>

text \<open>
  One definition per registered function. \<open>workspace_id\<close>, and every other parameter with a default the
  handler's own module does not also have, arrives as an option.
\<close>

definition serve_search_datasets ::
  "('d, 't, 'v, 'a, 'c) server_env \<Rightarrow> string \<Rightarrow> dict option \<Rightarrow> string option \<Rightarrow> string option \<Rightarrow> dict preview_op" where
  "serve_search_datasets e query filters workspace_id edl_token =
     on_world (search_datasets (sv_tools e) (sv_catalog e) (sv_keyword_cache e) query filters
       (or_default DEFAULT_WORKSPACE workspace_id) edl_token)"

definition serve_describe_dataset ::
  "('d, 't, 'v, 'a, 'c) server_env \<Rightarrow> string \<Rightarrow> string option \<Rightarrow> bool option \<Rightarrow> string option \<Rightarrow> dict preview_op" where
  "serve_describe_dataset e dataset_handle workspace_id detail edl_token =
     on_world (describe_dataset (sv_tools e) (sv_catalog e) dataset_handle
       (or_default DEFAULT_WORKSPACE workspace_id) (or_default False detail) edl_token)"

definition serve_define_area_of_interest ::
  "('d, 't, 'v, 'a, 'c) server_env \<Rightarrow> string \<Rightarrow> string option \<Rightarrow> string option \<Rightarrow> dict preview_op" where
  "serve_define_area_of_interest e location workspace_id edl_token =
     on_world (define_area_of_interest (sv_area e) (Text location) (or_default DEFAULT_WORKSPACE workspace_id) edl_token)"

definition serve_check_coverage ::
  "('d, 't, 'v, 'a, 'c) server_env \<Rightarrow> string \<Rightarrow> string \<Rightarrow> string \<Rightarrow> string option \<Rightarrow> string option \<Rightarrow> dict preview_op" where
  "serve_check_coverage e dataset_handle aoi_handle time_range workspace_id edl_token =
     on_world (check_coverage (sv_tools e) dataset_handle aoi_handle time_range
       (or_default DEFAULT_WORKSPACE workspace_id) edl_token)"

definition serve_check_availability ::
  "('d, 't, 'v, 'a, 'c) server_env \<Rightarrow> string \<Rightarrow> string \<Rightarrow> string \<Rightarrow> string option \<Rightarrow> string option \<Rightarrow> dict preview_op" where
  "serve_check_availability e dataset_handle aoi_handle time_range workspace_id edl_token =
     on_world (check_availability_tool (sv_tools e) dataset_handle aoi_handle time_range
       (or_default DEFAULT_WORKSPACE workspace_id) edl_token)"

definition serve_inspect_granules ::
  "('d, 't, 'v, 'a, 'c) server_env \<Rightarrow> string \<Rightarrow> string \<Rightarrow> string \<Rightarrow> string option \<Rightarrow> int option \<Rightarrow> string option
   \<Rightarrow> dict preview_op" where
  "serve_inspect_granules e dataset_handle aoi_handle time_range workspace_id limit edl_token =
     on_world (inspect_granules (sv_tools e) dataset_handle aoi_handle time_range
       (or_default DEFAULT_WORKSPACE workspace_id) (or_default 10 limit) edl_token)"

definition serve_estimate_retrieval_size ::
  "('d, 't, 'v, 'a, 'c) server_env \<Rightarrow> string \<Rightarrow> string \<Rightarrow> string \<Rightarrow> string option \<Rightarrow> string option \<Rightarrow> dict preview_op" where
  "serve_estimate_retrieval_size e dataset_handle aoi_handle time_range workspace_id edl_token =
     on_world (estimate_retrieval_size (sv_tools e) (sv_size_warning_threshold e) dataset_handle aoi_handle time_range
       (or_default DEFAULT_WORKSPACE workspace_id) edl_token)"

definition serve_retrieve_data ::
  "('d, 't, 'v, 'a, 'c) server_env \<Rightarrow> string \<Rightarrow> string \<Rightarrow> string \<Rightarrow> string option \<Rightarrow> string option \<Rightarrow> string option
   \<Rightarrow> dict preview_op" where
  "serve_retrieve_data e dataset_handle aoi_handle time_range workspace_id output_format edl_token =
     on_world (retrieve_data (sv_tools e) dataset_handle aoi_handle time_range
       (or_default DEFAULT_WORKSPACE workspace_id) output_format edl_token)"

definition serve_retrieve_subset ::
  "('d, 't, 'v, 'a, 'c) server_env \<Rightarrow> string \<Rightarrow> string \<Rightarrow> string \<Rightarrow> string list \<Rightarrow> string option \<Rightarrow> string option
   \<Rightarrow> string option \<Rightarrow> dict preview_op" where
  "serve_retrieve_subset e dataset_handle aoi_handle time_range variables workspace_id output_format edl_token =
     on_world (retrieve_subset (sv_tools e) dataset_handle aoi_handle time_range variables
       (or_default DEFAULT_WORKSPACE workspace_id) output_format edl_token)"

definition serve_retrieve_timeseries ::
  "('d, 't, 'v, 'a, 'c) server_env \<Rightarrow> string \<Rightarrow> string \<Rightarrow> string list \<Rightarrow> string option \<Rightarrow> string option \<Rightarrow> string option
   \<Rightarrow> bool option \<Rightarrow> string option \<Rightarrow> dict preview_op" where
  "serve_retrieve_timeseries e dataset_handle time_range variables workspace_id output_format aoi_handle point_sample edl_token =
     on_world (retrieve_timeseries (sv_tools e) dataset_handle time_range variables
       (or_default DEFAULT_WORKSPACE workspace_id) output_format aoi_handle (or_default False point_sample) edl_token)"

definition serve_get_retrieval_status ::
  "('d, 't, 'v, 'a, 'c) server_env \<Rightarrow> string \<Rightarrow> string option \<Rightarrow> string option \<Rightarrow> dict preview_op" where
  "serve_get_retrieval_status e job_handle workspace_id edl_token =
     on_world (get_retrieval_status (sv_tools e) job_handle (or_default DEFAULT_WORKSPACE workspace_id) edl_token)"

definition serve_cancel_retrieval ::
  "('d, 't, 'v, 'a, 'c) server_env \<Rightarrow> string \<Rightarrow> string option \<Rightarrow> string option \<Rightarrow> dict preview_op" where
  "serve_cancel_retrieval e job_handle workspace_id edl_token =
     on_world (cancel_retrieval (sv_tools e) job_handle (or_default DEFAULT_WORKSPACE workspace_id) edl_token)"

definition serve_preview_dataset ::
  "('d, 't, 'v, 'a, 'c) server_env \<Rightarrow> string \<Rightarrow> string option \<Rightarrow> string option \<Rightarrow> string option \<Rightarrow> string option
   \<Rightarrow> string option \<Rightarrow> dict preview_op" where
  "serve_preview_dataset e dataset_handle time_range aoi_handle layer workspace_id edl_token =
     preview_dataset (sv_preview e) dataset_handle time_range aoi_handle layer
       (or_default DEFAULT_WORKSPACE workspace_id) edl_token"

definition serve_summarize_dataset ::
  "('d, 't, 'v, 'a, 'c) server_env \<Rightarrow> string \<Rightarrow> string option \<Rightarrow> string option \<Rightarrow> dict preview_op" where
  "serve_summarize_dataset e handle workspace_id edl_token =
     on_world (summarize_dataset (sv_stats e) handle (or_default DEFAULT_WORKSPACE workspace_id) edl_token)"

definition serve_inspect_statistics ::
  "('d, 't, 'v, 'a, 'c) server_env \<Rightarrow> string \<Rightarrow> string list option \<Rightarrow> string option \<Rightarrow> string option \<Rightarrow> dict preview_op" where
  "serve_inspect_statistics e handle variables workspace_id edl_token =
     on_world (inspect_statistics (sv_stats e) (sv_path_addressable e) handle variables
       (or_default DEFAULT_WORKSPACE workspace_id) edl_token)"

definition serve_subset ::
  "('d, 't, 'v, 'a, 'c) server_env \<Rightarrow> string \<Rightarrow> string option \<Rightarrow> string list option \<Rightarrow> string option \<Rightarrow> string option
   \<Rightarrow> string option \<Rightarrow> dict preview_op" where
  "serve_subset e source_handle aoi_handle variables time_range workspace_id edl_token =
     on_world (subset_tool (sv_transform e) source_handle aoi_handle variables time_range
       (or_default DEFAULT_WORKSPACE workspace_id) edl_token)"

definition serve_reproject ::
  "('d, 't, 'v, 'a, 'c) server_env \<Rightarrow> string \<Rightarrow> string \<Rightarrow> string option \<Rightarrow> string option \<Rightarrow> dict preview_op" where
  "serve_reproject e source_handle crs workspace_id edl_token =
     on_world (reproject (sv_transform e) source_handle crs (or_default DEFAULT_WORKSPACE workspace_id) edl_token)"

definition serve_resample ::
  "('d, 't, 'v, 'a, 'c) server_env \<Rightarrow> string \<Rightarrow> string option \<Rightarrow> int option \<Rightarrow> string option \<Rightarrow> string option
   \<Rightarrow> dict preview_op" where
  "serve_resample e source_handle time_freq spatial_factor workspace_id edl_token =
     on_world (resample (sv_transform e) source_handle time_freq spatial_factor
       (or_default DEFAULT_WORKSPACE workspace_id) edl_token)"

definition serve_convert_format ::
  "('d, 't, 'v, 'a, 'c) server_env \<Rightarrow> string \<Rightarrow> string \<Rightarrow> string option \<Rightarrow> string option \<Rightarrow> dict preview_op" where
  "serve_convert_format e source_handle output_format workspace_id edl_token =
     on_world (convert_format (sv_transform e) source_handle output_format
       (or_default DEFAULT_WORKSPACE workspace_id) edl_token)"

text \<open>The registered \<open>align\<close> does not pass a snapping frequency on.\<close>

definition serve_align ::
  "('d, 't, 'v, 'a, 'c) server_env \<Rightarrow> string list \<Rightarrow> string option \<Rightarrow> string option \<Rightarrow> string option \<Rightarrow> dict preview_op" where
  "serve_align e source_handles join_method workspace_id edl_token =
     on_world (align_tool (sv_transform e) source_handles (or_default ''outer'' join_method) None
       (or_default DEFAULT_WORKSPACE workspace_id) edl_token)"

definition serve_export_result ::
  "('d, 't, 'v, 'a, 'c) server_env \<Rightarrow> string \<Rightarrow> string option \<Rightarrow> string option \<Rightarrow> dict preview_op" where
  "serve_export_result e handle workspace_id edl_token =
     on_world (export_result (sv_tools e) (sv_as_uri e) handle (or_default DEFAULT_WORKSPACE workspace_id) edl_token)"

definition serve_rematerialize ::
  "('d, 't, 'v, 'a, 'c) server_env \<Rightarrow> string \<Rightarrow> string option \<Rightarrow> string option \<Rightarrow> dict preview_op" where
  "serve_rematerialize e handle workspace_id edl_token =
     on_world (rematerialize (sv_tools e) handle (or_default DEFAULT_WORKSPACE workspace_id) edl_token)"

definition serve_pin_result ::
  "('d, 't, 'v, 'a, 'c) server_env \<Rightarrow> string \<Rightarrow> bool option \<Rightarrow> string option \<Rightarrow> string option \<Rightarrow> dict preview_op" where
  "serve_pin_result e handle pinned workspace_id edl_token =
     on_world (pin_result (sv_tools e) (sv_pinned_bytes_max e) handle (or_default True pinned)
       (or_default DEFAULT_WORKSPACE workspace_id) edl_token)"

definition serve_get_provenance ::
  "('d, 't, 'v, 'a, 'c) server_env \<Rightarrow> string \<Rightarrow> string option \<Rightarrow> string option \<Rightarrow> dict preview_op" where
  "serve_get_provenance e handle workspace_id edl_token =
     on_world (get_provenance (sv_tools e) handle (or_default DEFAULT_WORKSPACE workspace_id) edl_token)"

definition serve_cite_dataset ::
  "('d, 't, 'v, 'a, 'c) server_env \<Rightarrow> string \<Rightarrow> string option \<Rightarrow> string option \<Rightarrow> dict preview_op" where
  "serve_cite_dataset e dataset_handle workspace_id edl_token =
     on_world (cite_dataset (sv_tools e) dataset_handle (or_default DEFAULT_WORKSPACE workspace_id) edl_token)"

definition serve_list_workspace ::
  "('d, 't, 'v, 'a, 'c) server_env \<Rightarrow> string option \<Rightarrow> string option \<Rightarrow> string option \<Rightarrow> dict preview_op" where
  "serve_list_workspace e workspace_id handle_type_name edl_token =
     on_world (list_workspace (sv_tools e) (or_default DEFAULT_WORKSPACE workspace_id) handle_type_name edl_token)"

section \<open>Calls\<close>

text \<open>The registered tools with the arguments that are their own.\<close>

datatype tool_arguments =
    Search_datasets string "dict option"
  | Describe_dataset string "bool option"
  | Define_area_of_interest string
  | Check_coverage_of string string string
  | Check_availability_of string string string
  | Inspect_granules_of string string string "int option"
  | Estimate_size_of string string string
  | Call_retrieve_data string string string "string option"
  | Call_retrieve_subset string string string "string list" "string option"
  | Call_retrieve_timeseries string string "string list" "string option" "string option" "bool option"
  | Call_retrieval_status string
  | Call_cancel_retrieval string
  | Preview_dataset string "string option" "string option" "string option"
  | Summarize_dataset string
  | Inspect_statistics string "string list option"
  | Call_subset string "string option" "string list option" "string option"
  | Call_reproject string string
  | Call_resample string "string option" "int option"
  | Call_convert_format string string
  | Call_align "string list" "string option"
  | Export_result string
  | Rematerialize string
  | Pin_result string "bool option"
  | Call_provenance string
  | Call_cite string
  | Call_list "string option"

text \<open>A call: the two parameters every tool has, and the rest.\<close>

record server_call =
  ca_workspace :: "string option"
  ca_edl_token :: "string option"
  ca_arguments :: tool_arguments

definition call_workspace :: "server_call \<Rightarrow> string" where
  "call_workspace call = or_default DEFAULT_WORKSPACE (ca_workspace call)"

fun serve_arguments ::
  "('d, 't, 'v, 'a, 'c) server_env \<Rightarrow> string option \<Rightarrow> string option \<Rightarrow> tool_arguments \<Rightarrow> dict preview_op" where
  "serve_arguments e ws tok (Search_datasets q fs) = serve_search_datasets e q fs ws tok"
| "serve_arguments e ws tok (Describe_dataset h d) = serve_describe_dataset e h ws d tok"
| "serve_arguments e ws tok (Define_area_of_interest l) = serve_define_area_of_interest e l ws tok"
| "serve_arguments e ws tok (Check_coverage_of d a t) = serve_check_coverage e d a t ws tok"
| "serve_arguments e ws tok (Check_availability_of d a t) = serve_check_availability e d a t ws tok"
| "serve_arguments e ws tok (Inspect_granules_of d a t n) = serve_inspect_granules e d a t ws n tok"
| "serve_arguments e ws tok (Estimate_size_of d a t) = serve_estimate_retrieval_size e d a t ws tok"
| "serve_arguments e ws tok (Call_retrieve_data d a t f) = serve_retrieve_data e d a t ws f tok"
| "serve_arguments e ws tok (Call_retrieve_subset d a t vs f) = serve_retrieve_subset e d a t vs ws f tok"
| "serve_arguments e ws tok (Call_retrieve_timeseries d t vs f a p) = serve_retrieve_timeseries e d t vs ws f a p tok"
| "serve_arguments e ws tok (Call_retrieval_status h) = serve_get_retrieval_status e h ws tok"
| "serve_arguments e ws tok (Call_cancel_retrieval h) = serve_cancel_retrieval e h ws tok"
| "serve_arguments e ws tok (Preview_dataset d t a l) = serve_preview_dataset e d t a l ws tok"
| "serve_arguments e ws tok (Summarize_dataset h) = serve_summarize_dataset e h ws tok"
| "serve_arguments e ws tok (Inspect_statistics h vs) = serve_inspect_statistics e h vs ws tok"
| "serve_arguments e ws tok (Call_subset h a vs t) = serve_subset e h a vs t ws tok"
| "serve_arguments e ws tok (Call_reproject h crs) = serve_reproject e h crs ws tok"
| "serve_arguments e ws tok (Call_resample h f n) = serve_resample e h f n ws tok"
| "serve_arguments e ws tok (Call_convert_format h f) = serve_convert_format e h f ws tok"
| "serve_arguments e ws tok (Call_align hs m) = serve_align e hs m ws tok"
| "serve_arguments e ws tok (Export_result h) = serve_export_result e h ws tok"
| "serve_arguments e ws tok (Rematerialize h) = serve_rematerialize e h ws tok"
| "serve_arguments e ws tok (Pin_result h p) = serve_pin_result e h p ws tok"
| "serve_arguments e ws tok (Call_provenance h) = serve_get_provenance e h ws tok"
| "serve_arguments e ws tok (Call_cite h) = serve_cite_dataset e h ws tok"
| "serve_arguments e ws tok (Call_list t) = serve_list_workspace e ws t tok"

definition serve :: "('d, 't, 'v, 'a, 'c) server_env \<Rightarrow> server_call \<Rightarrow> dict preview_op" where
  "serve e call = serve_arguments e (ca_workspace call) (ca_edl_token call) (ca_arguments call)"

text \<open>A session of calls, one after the other; an exception is the answer of its call and ends nothing.\<close>

fun serve_all :: "('d, 't, 'v, 'a, 'c) server_env \<Rightarrow> server_call list \<Rightarrow> world \<times> gibs_cache \<Rightarrow> world \<times> gibs_cache" where
  "serve_all e [] s = s"
| "serve_all e (call # calls) s = serve_all e calls (snd (serve e call s))"

section \<open>The transport\<close>

text \<open>\<open>main\<close>, without its debugging output: the gate is put in front only when a token is configured.\<close>

datatype launch = Stdio | Http string int "string option"

definition main :: "settings \<Rightarrow> launch" where
  "main s =
     (if cfg_mcp_transport s = ''http''
      then Http (cfg_mcp_host s) (cfg_mcp_port s) (if cfg_mcp_token s \<noteq> [] then Some (cfg_mcp_token s) else None)
      else Stdio)"

text \<open>What becomes of an HTTP request, by its kind and its \<open>Authorization\<close> header.\<close>

definition admit :: "launch \<Rightarrow> string \<Rightarrow> string option \<Rightarrow> exn + gate_answer" where
  "admit l scope_type header =
     (case l of Http _ _ (Some token) \<Rightarrow> bearer_gate token scope_type header | _ \<Rightarrow> Inr Forwarded)"

text \<open>By default the process talks to its parent; without a token the HTTP transport lets everything pass.\<close>

lemma default_transport: "main default_settings = Stdio"
  by (simp add: main_def default_settings_def)

lemma open_without_token: "cfg_mcp_token s = [] \<Longrightarrow> admit (main s) scope_type header = Inr Forwarded"
  by (simp add: main_def admit_def)

lemma closed_with_token:
  "cfg_mcp_transport s = ''http'' \<Longrightarrow> cfg_mcp_token s \<noteq> [] \<Longrightarrow> admit (main s) ''http'' None = Inr Unauthorized"
  by (simp add: main_def admit_def bearer_gate_def py_partition_def py_lower_def)

section \<open>What a call keeps\<close>

text \<open>Services outside the process that reach none of its tables.\<close>

definition server_aside :: "('d, 't, 'v, 'a, 'c) server_env \<Rightarrow> bool" where
  "server_aside e \<longleftrightarrow> services_aside (sv_tools e) \<and> providers_aside (sv_tools e)
     \<and> (\<forall>u p h. keeps same_tables (ar_get (sv_area e) u p h))"

lemma aside_cmr: "server_aside e \<Longrightarrow> cmr_aside (rt_cmr (sv_tools e) t)"
  by (simp add: server_aside_def services_aside_def)

lemma tables_reads:
  assumes "\<And>t. cmr_aside (rt_cmr rt t)"
  shows "keeps same_tables (check_coverage rt d a t ws tok)" "keeps same_tables (check_availability_tool rt d a t ws tok)"
    "keeps same_tables (inspect_granules rt d a t ws n tok)" "keeps same_tables (estimate_retrieval_size rt th d a t ws tok)"
    "keeps same_tables (get_provenance rt h ws tok)" "keeps same_tables (cite_dataset rt d ws tok)"
    "keeps same_tables (list_workspace rt ws ht tok)"
  using tables_read_tool [OF assms, of th ws tok "Check_coverage d a t"] tables_read_tool [OF assms, of th ws tok "Check_availability d a t"]
    tables_read_tool [OF assms, of th ws tok "Inspect_granules d a t n"] tables_read_tool [OF assms, of th ws tok "Estimate_retrieval_size d a t"]
    tables_read_tool [OF assms, of th ws tok "Get_provenance h"] tables_read_tool [OF assms, of th ws tok "Cite_dataset d"]
    tables_read_tool [OF assms, of th ws tok "List_workspace ht"]
  by simp_all

lemmas serve_retrieval_defs =
  serve_retrieve_data_def serve_retrieve_subset_def serve_retrieve_timeseries_def serve_get_retrieval_status_def
  serve_cancel_retrieval_def retrieve_data_def retrieve_subset_def retrieve_timeseries_def

lemmas serve_read_defs =
  serve_check_coverage_def serve_check_availability_def serve_inspect_granules_def serve_estimate_retrieval_size_def
  serve_get_provenance_def serve_cite_dataset_def serve_list_workspace_def

lemmas serve_other_defs =
  serve_search_datasets_def serve_describe_dataset_def serve_define_area_of_interest_def serve_preview_dataset_def
  serve_summarize_dataset_def serve_inspect_statistics_def serve_export_result_def serve_rematerialize_def
  serve_pin_result_def

context tool_frame
begin

lemma tf_transforms:
  "keeps R (subset_tool tr h aoi vs t ws tok)" "keeps R (reproject tr h crs ws tok)" "keeps R (resample tr h freq f ws tok)"
  "keeps R (convert_format tr h fmt ws tok)" "keeps R (align_tool tr hs m snap ws tok)"
  using tf_transform [of tr tok "Subset h aoi vs t"] tf_transform [of tr tok "Reproject h crs"]
    tf_transform [of tr tok "Resample h freq f"] tf_transform [of tr tok "Convert h fmt"] tf_transform [of tr tok "Align hs m snap"]
  by simp_all

lemma tf_serve:
  assumes aside: "server_aside e" and sleep: "keeps R (rt_sleep (sv_tools e))" and here: "or_default DEFAULT_WORKSPACE w = ws"
  shows "keeps (on_world_rel R) (serve_arguments e w tok args)"
proof -
  have services: "services_aside (sv_tools e)" "providers_aside (sv_tools e)"
    and area: "keeps same_tables (ar_get (sv_area e) u p h)" for u p h
    using aside by (auto simp: server_aside_def)
  note cmr = aside_cmr [OF aside]
  show ?thesis
    by (cases args)
      (simp_all only: serve_arguments.simps serve_retrieval_defs serve_read_defs serve_other_defs here
        serve_subset_def serve_reproject_def serve_resample_def serve_convert_format_def serve_align_def,
       (intro keeps_on_world tf_search tf_describe tf_area tf_submit tf_status tf_cancel tf_preview tf_summarize tf_statistics
          tf_transforms tf_export tf_rematerialize tf_pin tf_tables [OF tables_reads(1)] tf_tables [OF tables_reads(2)]
          tf_tables [OF tables_reads(3)] tf_tables [OF tables_reads(4)] tf_tables [OF tables_reads(5)]
          tf_tables [OF tables_reads(6)] tf_tables [OF tables_reads(7)] cmr services area sleep, simp?)+)
qed

end

section \<open>The tables stay well-formed\<close>

text \<open>
  C7: the server keeps its tables well-formed. Whatever tools are called, all of them, in whatever order, in whatever
  workspaces, with whatever arguments, and whatever fails on the way, from well-formed tables every
  sequence of calls leads to well-formed ones: job rows keep their identity and move only along legal
  transitions, a finished job holds no credential, handles keep their workspace and kind, no workspace has
  two results under one signature, and recorded lineage and events are only appended to.
\<close>

theorem server_keeps_tables_wellformed:
  assumes "server_aside e" and "keeps evolves (rt_sleep (sv_tools e))" and "world_ok (fst s)"
  shows "world_ok (fst (serve_all e calls s)) \<and> jobs_evolve (w_jobs (fst s)) (w_jobs (fst (serve_all e calls s)))
    \<and> handles_evolve (w_handles (fst s)) (w_handles (fst (serve_all e calls s)))
    \<and> prefix (w_edges (fst s)) (w_edges (fst (serve_all e calls s)))
    \<and> prefix (w_events (fst s)) (w_events (fst (serve_all e calls s)))"
proof -
  have "evolves (fst s) (fst (serve_all e calls s))"
  proof (induction calls arbitrary: s)
    case (Cons call calls)
    have "keeps (on_world_rel evolves) (serve e call)"
      unfolding serve_def by (rule evolving.tf_serve [OF assms(1,2) HOL.refl])
    then have "evolves (fst s) (fst (snd (serve e call s)))" by (rule on_world_relD)
    from evolves.R_trans [OF this Cons.IH] show ?case by simp
  qed (simp add: evolves.R_refl)
  then show ?thesis using assms(3) by (simp add: evolves_def)
qed

definition sample_server :: "(string, string, nat, string, string) server_env" where
  "sample_server =
     \<lparr>sv_preview = sample_preview, sv_catalog = sample_catalog, sv_keyword_cache = None, sv_area = sample_area,
      sv_transform = \<lparr>tr_platform = sample_platform, tr_library = toy_arrays, tr_show = (\<lambda>_. []), tr_read_float = (\<lambda>_. None),
        tr_show_float = (\<lambda>_. []), tr_dumps = (\<lambda>_. [])\<rparr>,
      sv_stats = \<lparr>st_platform = sample_platform, st_library = toy_stats, st_show = (\<lambda>_. [])\<rparr>, sv_path_addressable = True,
      sv_size_warning_threshold = 10240, sv_pinned_bytes_max = 1024, sv_as_uri = concat\<rparr>"

lemma sample_server_aside: "server_aside sample_server"
proof -
  have "keeps same_tables (ar_get sample_area u p h)" for u p h
    by (simp add: sample_area_def) (intro keeps_tables)
  then show ?thesis
    by (simp add: server_aside_def sample_server_def sample_preview_def sample_services_aside sample_aside)
qed

lemma sample_sleep: "rt_sleep (sv_tools sample_server) = e_ret ()"
  by (simp add: sample_server_def sample_preview_def sample_retrieval_def)

lemma preview_world_ok: "world_ok preview_world"
  by (simp add: world_ok_def preview_world_def jobs_ok_def handles_ok_def edges_ok_def initial_world_def signature_of_def)

text \<open>A caller that names no workspace defines an area and previews a dataset it cannot see.\<close>

definition sample_calls :: "server_call list" where
  "sample_calls =
     [\<lparr>ca_workspace = None, ca_edl_token = None, ca_arguments = Define_area_of_interest ''-105,37,-104,38.5''\<rparr>,
      \<lparr>ca_workspace = None, ca_edl_token = None, ca_arguments = Preview_dataset ''dataset_1'' None None (Some ''NO2'')\<rparr>]"

lemma server_keeps_tables_wellformed_witness:
  "world_ok (fst (serve_all sample_server sample_calls (preview_world, [])))"
proof -
  have "keeps evolves (rt_sleep (sv_tools sample_server))" by (simp add: sample_sleep evolves.keeps_ret)
  from server_keeps_tables_wellformed [OF sample_server_aside this, of "(preview_world, [])"] show ?thesis
    using preview_world_ok by simp
qed

section \<open>Workspaces are apart\<close>

text \<open>
  C4: no call reaches another workspace. Whatever sequence of calls of whatever tools is made in other workspaces,
  and whatever fails on the way, the handles, the lineage edges and the events of a workspace are the same
  rows in the same order as before, and every job behind one of its handles is still the same row: nothing
  is pinned, replayed, cancelled, promoted or touched there. The metadata service, the providers and
  the location services reach no table, and nothing else runs while a call waits for a concurrent one.
\<close>

theorem calls_stay_in_their_workspace:
  assumes "server_aside e" and "keeps same_tables (rt_sleep (sv_tools e))" and "world_ok (fst s)"
    and "\<forall>call \<in> set calls. call_workspace call \<noteq> v"
  shows "untouched v (fst s) (fst (serve_all e calls s))"
  using assms(3,4)
proof (induction calls arbitrary: s)
  case Nil
  show ?case by (simp add: untouched_tables tables.R_refl)
next
  case (Cons call calls)
  let ?s = "snd (serve e call s)"
  have "keeps (on_world_rel (spares (call_workspace call) v)) (serve e call)"
    unfolding serve_def call_workspace_def
    by (rule spared.tf_serve [OF assms(1) sparing_tables [OF assms(2)] HOL.refl])
  then have step: "spares (call_workspace call) v (fst s) (fst ?s)" by (rule on_world_relD)
  then have "untouched v (fst s) (fst ?s)" "world_ok (fst ?s)"
    using Cons.prems by (auto simp: spares_def evolves_def)
  moreover have "untouched v (fst ?s) (fst (serve_all e calls ?s))"
    using Cons.IH [of ?s] calculation(2) Cons.prems(2) by simp
  ultimately show ?case by (simp add: untouched_trans)
qed

lemma calls_stay_in_their_workspace_witness:
  "untouched ''ws'' preview_world (fst (serve_all sample_server sample_calls (preview_world, [])))
   \<and> map h_handle (w_handles (fst (serve_all sample_server sample_calls (preview_world, [])))) = [''dataset_1'', ''aoi_0'']"
proof
  have quiet: "keeps same_tables (rt_sleep (sv_tools sample_server))" by (simp add: sample_sleep tables.keeps_ret)
  have "\<forall>call \<in> set sample_calls. call_workspace call \<noteq> ''ws''"
    by (simp add: sample_calls_def call_workspace_def DEFAULT_WORKSPACE_def)
  from calls_stay_in_their_workspace [OF sample_server_aside quiet _ this, of "(preview_world, [])"]
  show "untouched ''ws'' preview_world (fst (serve_all sample_server sample_calls (preview_world, [])))"
    using preview_world_ok by simp
qed code_simp

end
